(* ===== verification/Prelude.thy ===== *)
theory Prelude
  imports Main "HOL-Library.Word" "HOL-Library.Char_ord" "HOL-Library.List_Lexorder"
    "HOL-Library.Multiset" "HOL-Library.AList" "HOL-Library.Sublist"
begin

text \<open>
  Shared vocabulary of the development: the types that name the program's data (identifiers,
  instants, durations), the functions of Go's standard library that the source calls on strings,
  paths and slices, and the generic lemmas the component theories rest on.

  Strings are byte strings (\<open>char list\<close>), as Go's are; the order on them is the byte-wise
  lexicographic one of \<open>strings.Compare\<close> and \<open>slices.Sort\<close>.  A \<open>uuid.UUID\<close> is 16 bytes, read
  as a 128-bit word, so that \<open>bytes.Compare\<close> on two of them is the order on words.  Instants and
  durations are integers counting nanoseconds.  A Go map that the code iterates over is an
  association list with distinct keys: the order of the list is the iteration order, so a theorem
  about all such lists holds for whatever order the runtime picks.
\<close>

named_theorems conductor_defs \<open>definitions that evaluation unfolds\<close>
named_theorems go_simps \<open>evaluation rules for the modelled standard-library functions\<close>

type_synonym uuid = "128 word"
type_synonym instant = int
type_synonym duration = int
type_synonym 'v gomap = "(string \<times> 'v) list"

definition Nil_uuid :: uuid where
  "Nil_uuid = 0"

definition second :: duration where
  "second = 1000000000"

definition minute :: duration where
  "minute = 60 * second"

text \<open>\<open>int64\<close> arithmetic: the value a computation leaves in a 64-bit signed integer.\<close>

definition wrap64 :: "int \<Rightarrow> int" where
  "wrap64 x = (x + 2 ^ 63) mod 2 ^ 64 - 2 ^ 63"

lemma wrap64_id: "- (2 ^ 63) \<le> x \<Longrightarrow> x < 2 ^ 63 \<Longrightarrow> wrap64 x = x"
  by (simp add: wrap64_def)

lemma wrap64_range: "- (2 ^ 63) \<le> wrap64 x \<and> wrap64 x < 2 ^ 63"
  by (simp add: wrap64_def)

section \<open>Strings\<close>

definition has_prefix :: "string \<Rightarrow> string \<Rightarrow> bool" where
  "has_prefix p s = (take (length p) s = p)"

definition has_suffix :: "string \<Rightarrow> string \<Rightarrow> bool" where
  "has_suffix q s = (length q \<le> length s \<and> drop (length s - length q) s = q)"

fun index_of :: "string \<Rightarrow> string \<Rightarrow> nat option" where
  "index_of sub [] = (if sub = [] then Some 0 else None)"
| "index_of sub (c # s) =
     (if has_prefix sub (c # s) then Some 0 else map_option Suc (index_of sub s))"

definition contains :: "string \<Rightarrow> string \<Rightarrow> bool" where
  "contains s sub = (index_of sub s \<noteq> None)"

definition cut :: "string \<Rightarrow> string \<Rightarrow> string \<times> string \<times> bool" where
  "cut s sep = (case index_of sep s of
      None \<Rightarrow> (s, [], False)
    | Some i \<Rightarrow> (take i s, drop (i + length sep) s, True))"

fun split_by :: "('a \<Rightarrow> bool) \<Rightarrow> 'a list \<Rightarrow> 'a list list" where
  "split_by P [] = [[]]"
| "split_by P (x # xs) =
     (if P x then [] # split_by P xs
      else (case split_by P xs of [] \<Rightarrow> [[x]] | y # ys \<Rightarrow> (x # y) # ys))"

definition split_on :: "char \<Rightarrow> string \<Rightarrow> string list" where
  "split_on c = split_by ((=) c)"

definition is_space :: "char \<Rightarrow> bool" where
  "is_space c = (c \<in> {CHR '' '', CHR 0x09, CHR 0x0A, CHR 0x0B, CHR 0x0C, CHR 0x0D})"

definition Fields :: "string \<Rightarrow> string list" where
  "Fields s = filter (\<lambda>w. w \<noteq> []) (split_by is_space s)"

definition trim_space :: "string \<Rightarrow> string" where
  "trim_space s = rev (dropWhile is_space (rev (dropWhile is_space s)))"

fun join :: "string \<Rightarrow> string list \<Rightarrow> string" where
  "join sep [] = []"
| "join sep [x] = x"
| "join sep (x # y # ys) = x @ sep @ join sep (y # ys)"

definition is_digit :: "char \<Rightarrow> bool" where
  "is_digit c = (48 \<le> (of_char c :: nat) \<and> (of_char c :: nat) \<le> 57)"

definition digits_val :: "string \<Rightarrow> int" where
  "digits_val ds = foldl (\<lambda>a c. a * 10 + (int (of_char c) - 48)) 0 ds"

text \<open>\<open>strconv.Atoi\<close>: an optional sign, at least one decimal digit, and a value that fits 64 bits.\<close>

definition atoi :: "string \<Rightarrow> int option" where
  "atoi s =
     (let (neg, ds) = (case s of [] \<Rightarrow> (False, [])
                       | c # r \<Rightarrow> if c = CHR ''-'' then (True, r)
                                 else if c = CHR ''+'' then (False, r) else (False, s));
          v = (if neg then - digits_val ds else digits_val ds)
      in if ds = [] \<or> \<not> list_all is_digit ds then None
         else if - (2 ^ 63) \<le> v \<and> v < 2 ^ 63 then Some v else None)"

text \<open>The decimal form that \<open>%d\<close> prints.\<close>

fun nat_digits :: "nat \<Rightarrow> string" where
  "nat_digits n = (if n < 10 then [char_of (48 + n)]
                   else nat_digits (n div 10) @ [char_of (48 + n mod 10)])"

declare nat_digits.simps [simp del]

definition itoa :: "int \<Rightarrow> string" where
  "itoa i = (if i < 0 then CHR ''-'' # nat_digits (nat (- i)) else nat_digits (nat i))"

section \<open>Slash-separated paths\<close>

text \<open>\<open>path.Split\<close>: everything up to and including the last slash, and the rest.\<close>

definition path_split :: "string \<Rightarrow> string \<times> string" where
  "path_split p =
     (let b = takeWhile (\<lambda>c. c \<noteq> CHR ''/'') (rev p)
      in (take (length p - length b) p, rev b))"

definition path_base :: "string \<Rightarrow> string" where
  "path_base p =
     (if p = [] then ''.''
      else let q = rev (dropWhile (\<lambda>c. c = CHR ''/'') (rev p))
           in if q = [] then ''/'' else snd (path_split q))"

lemma path_split_append: "fst (path_split p) @ snd (path_split p) = p"
proof -
  let ?b = "takeWhile (\<lambda>c. c \<noteq> CHR ''/'') (rev p)"
  have "rev p = ?b @ dropWhile (\<lambda>c. c \<noteq> CHR ''/'') (rev p)" by simp
  then have p: "p = rev (dropWhile (\<lambda>c. c \<noteq> CHR ''/'') (rev p)) @ rev ?b"
    by (metis rev_append rev_rev_ident)
  have "take (length p - length ?b) p = rev (dropWhile (\<lambda>c. c \<noteq> CHR ''/'') (rev p))"
    by (metis (no_types, lifting) append_eq_conv_conj length_append length_rev add_diff_cancel_right' p)
  then show ?thesis using p by (simp add: path_split_def Let_def)
qed

section \<open>Lemmas on the string functions\<close>

lemma has_prefix_iff [go_simps]: "has_prefix p s \<longleftrightarrow> (\<exists>r. s = p @ r)"
  by (metis append_eq_conv_conj append_take_drop_id has_prefix_def)

lemma has_suffix_iff [go_simps]: "has_suffix q s \<longleftrightarrow> (\<exists>r. s = r @ q)"
  by (auto simp: has_suffix_def)
     (metis append_take_drop_id)

lemma index_of_bound: "index_of sub s = Some i \<Longrightarrow> i + length sub \<le> length s"
proof (induction s arbitrary: i)
  case (Cons c s)
  show ?case
  proof (cases "has_prefix sub (c # s)")
    case True
    then obtain r where "c # s = sub @ r" by (auto simp: has_prefix_iff)
    then have "length sub \<le> length (c # s)" by simp
    with True Cons.prems show ?thesis by simp
  next
    case False
    with Cons show ?thesis by auto
  qed
qed (auto split: if_splits)

lemma index_of_at: "index_of sub s = Some i \<Longrightarrow> take (length sub) (drop i s) = sub"
proof (induction s arbitrary: i)
  case (Cons c s)
  show ?case
  proof (cases "has_prefix sub (c # s)")
    case True
    then have "take (length sub) (c # s) = sub" by (simp only: has_prefix_def)
    with True Cons.prems show ?thesis by simp
  next
    case False
    with Cons show ?thesis by auto
  qed
qed (auto split: if_splits)

lemma index_of_single_notin: "c \<notin> set s \<Longrightarrow> index_of [c] s = None"
  by (induction s) (auto simp: has_prefix_def)

lemma index_of_single: "c \<notin> set a \<Longrightarrow> index_of [c] (a @ c # b) = Some (length a)"
  by (induction a) (auto simp: has_prefix_def)

lemma cut_single: "c \<notin> set a \<Longrightarrow> cut (a @ c # b) [c] = (a, b, True)"
  by (simp add: cut_def index_of_single)

lemma cut_single_none: "c \<notin> set a \<Longrightarrow> cut a [c] = (a, [], False)"
  by (simp add: cut_def index_of_single_notin)

lemma split_by_not_Nil [simp]: "split_by P xs \<noteq> []"
  by (induction xs) (auto split: list.splits)

lemma split_by_append:
  "list_all (\<lambda>x. \<not> P x) a \<Longrightarrow> P c \<Longrightarrow> split_by P (a @ c # b) = a # split_by P b"
  by (induction a) auto

lemma split_by_none: "list_all (\<lambda>x. \<not> P x) a \<Longrightarrow> split_by P a = [a]"
  by (induction a) auto

section \<open>Decimal numbers read back\<close>

lemma of_char_digit: "d < 10 \<Longrightarrow> (of_char (char_of (48 + d :: nat)) :: nat) = 48 + d"
  by simp

lemma is_digit_char: "d < 10 \<Longrightarrow> is_digit (char_of (48 + d :: nat))"
  by (simp add: is_digit_def)

lemma nat_digits_all: "list_all is_digit (nat_digits n)"
proof (induction n rule: nat_digits.induct)
  case (1 n)
  then show ?case
    by (subst nat_digits.simps) (auto intro: is_digit_char)
qed

lemma nat_digits_not_Nil [simp]: "nat_digits n \<noteq> []"
  by (subst nat_digits.simps) simp

lemma digits_val_snoc: "digits_val (ds @ [c]) = digits_val ds * 10 + (int (of_char c) - 48)"
  by (simp add: digits_val_def)

lemma digits_val_nat: "digits_val (nat_digits n) = int n"
proof (induction n rule: nat_digits.induct)
  case (1 n)
  show ?case
  proof (cases "n < 10")
    case True
    then show ?thesis
      by (subst nat_digits.simps) (simp add: digits_val_def)
  next
    case False
    with 1 have "digits_val (nat_digits (n div 10)) = int (n div 10)" by simp
    moreover have "int (of_char (char_of (48 + n mod 10 :: nat))) = 48 + int (n mod 10)"
      by simp
    moreover have "int (n div 10) * 10 + int (n mod 10) = int n"
      by presburger
    ultimately show ?thesis using False
      by (subst nat_digits.simps) (simp add: digits_val_snoc)
  qed
qed

lemma digit_not_sign: "is_digit c \<Longrightarrow> c \<noteq> CHR ''-'' \<and> c \<noteq> CHR ''+'' \<and> c \<noteq> CHR '' '' \<and> c \<noteq> CHR 0x0A"
  by (auto simp: is_digit_def)

lemma atoi_nat_digits:
  assumes "n < 2 ^ 63"
  shows "atoi (nat_digits n) = Some (int n)"
proof -
  obtain c r where cr: "nat_digits n = c # r" by (cases "nat_digits n") auto
  with nat_digits_all [of n] have "is_digit c" by simp
  then have "c \<noteq> CHR ''-''" "c \<noteq> CHR ''+''" by (simp_all add: digit_not_sign)
  moreover have "int n < 2 ^ 63" using assms by (metis of_nat_less_iff of_nat_numeral of_nat_power)
  ultimately show ?thesis
    using cr digits_val_nat [of n] nat_digits_all [of n]
    by (simp add: atoi_def)
qed

lemma atoi_itoa: "0 \<le> i \<Longrightarrow> i < 2 ^ 63 \<Longrightarrow> atoi (itoa i) = Some i"
  using atoi_nat_digits [of "nat i"] by (simp add: itoa_def nat_less_iff)

section \<open>Slices\<close>

text \<open>The first element satisfying a test, as a loop with an early return finds it.\<close>

lemma find_Some_split:
  "find P xs = Some x \<longleftrightarrow> (\<exists>as bs. xs = as @ x # bs \<and> P x \<and> (\<forall>a\<in>set as. \<not> P a))"
  (is "?l \<longleftrightarrow> ?r")
proof
  assume ?l
  then show ?r
  proof (induction xs)
    case (Cons y ys)
    show ?case
    proof (cases "P y")
      case True
      with Cons.prems show ?thesis by (metis append_Nil empty_iff empty_set find.simps(2) option.inject)
    next
      case False
      with Cons obtain as bs where "ys = as @ x # bs" "P x" "\<forall>a\<in>set as. \<not> P a" by auto
      with False show ?thesis by (metis append_Cons set_ConsD)
    qed
  qed simp
next
  assume ?r
  then obtain as bs where "xs = as @ x # bs" "P x" "\<forall>a\<in>set as. \<not> P a" by blast
  then show ?l by (induction as arbitrary: xs) auto
qed

lemma find_Some_in: "find P xs = Some x \<Longrightarrow> x \<in> set xs \<and> P x"
  by (auto simp: find_Some_split)

lemma find_None_all: "find P xs = None \<longleftrightarrow> (\<forall>x\<in>set xs. \<not> P x)"
  by (auto simp: find_None_iff)

text \<open>In a list sorted by a descending key, the first hit has the largest key among all hits.\<close>

lemma find_desc_max:
  assumes "sorted_wrt (\<lambda>a b. key b \<le> key a) xs" and "find P xs = Some x"
    and "y \<in> set xs" and "P y"
  shows "key y \<le> (key x :: 'b::linorder)"
proof -
  from assms(2) obtain as bs where s: "xs = as @ x # bs" and n: "\<forall>a\<in>set as. \<not> P a"
    by (auto simp: find_Some_split)
  with assms(3,4) have "y = x \<or> y \<in> set bs" by auto
  with assms(1) s show ?thesis by (auto simp: sorted_wrt_append)
qed

lemma sorted_wrt_filter_imp: "sorted_wrt R xs \<Longrightarrow> sorted_wrt R (filter P xs)"
  by (rule sorted_wrt_filter)

lemma distinct_map_of_in:
  "distinct (map fst xs) \<Longrightarrow> (k, v) \<in> set xs \<longleftrightarrow> map_of xs k = Some v"
  by (auto dest: map_of_SomeD intro: map_of_is_SomeI)

lemma not_in_alist: "map_of xs k = None \<longleftrightarrow> k \<notin> fst ` set xs"
  by (simp add: map_of_eq_None_iff)

end
