(* ===== verification/NodeState.thy ===== *)
theory NodeState
  imports Prelude
begin

text \<open>
  Node rows and the health and state rules of \<open>internal/server/nodestate/nodestate.go\<close>, shared by
  the cluster status handler, the failover manager and the backup scheduler.  A \<open>json.RawMessage\<close>
  is represented by what \<open>encoding/json\<close> makes of its bytes: \<open>Malformed\<close>, or the value they encode.
\<close>

datatype json =
    JNull
  | JBool bool
  | JNum int
  | JStr string
  | JArr "json list"
  | JObj "(string \<times> json) list"

datatype raw_message = Malformed | Encodes json

record node =
  nd_ID :: uuid
  nd_ClusterID :: uuid
  nd_Hostname :: string
  nd_IPAddress :: string
  nd_Role :: string
  nd_FailoverPriority :: int
  nd_AgentStatus :: string
  nd_PatroniState :: "raw_message option"
  nd_NetboxRunning :: "bool option"
  nd_RQRunning :: "bool option"
  nd_SuppressAutoStart :: bool
  nd_MaintenanceMode :: bool

record cluster =
  cl_ID :: uuid
  cl_Name :: string
  cl_Mode :: string
  cl_AutoFailover :: bool
  cl_AutoFailback :: bool
  cl_AppTierAlwaysAvailable :: bool
  cl_FailoverOnMaintenance :: bool
  cl_FailoverDelaySecs :: int
  cl_FailbackMultiplier :: int
  cl_MediaSyncEnabled :: bool
  cl_ExtraFoldersSyncEnabled :: bool
  cl_ExtraSyncFolders :: "string list"
  cl_FileSyncCron :: string
  cl_FileSyncScheduleEnabled :: bool
  cl_PatroniConfigured :: bool

text \<open>
  \<open>NodeQuerier.ListByCluster\<close> and \<open>GetByID\<close> on a table: \<open>WHERE cluster_id = $1 ORDER BY
  failover_priority DESC, hostname\<close> and \<open>WHERE id = $1\<close>.
\<close>

definition ListByCluster :: "node list \<Rightarrow> uuid \<Rightarrow> node list" where
  "ListByCluster tbl c =
     sort_key (\<lambda>n. - nd_FailoverPriority n) (sort_key nd_Hostname (filter (\<lambda>n. nd_ClusterID n = c) tbl))"

definition GetByID :: "node list \<Rightarrow> uuid \<Rightarrow> node option" where
  "GetByID tbl i = find (\<lambda>n. nd_ID n = i) tbl"

lemma ListByCluster_set: "set (ListByCluster tbl c) = {n \<in> set tbl. nd_ClusterID n = c}"
  by (auto simp: ListByCluster_def)

lemma ListByCluster_desc:
  "sorted_wrt (\<lambda>a b. nd_FailoverPriority b \<le> nd_FailoverPriority a) (ListByCluster tbl c)"
proof -
  have "sorted (map (\<lambda>n. - nd_FailoverPriority n) (ListByCluster tbl c))"
    by (simp add: ListByCluster_def)
  then show ?thesis by (simp add: sorted_map)
qed

lemma GetByID_Some: "GetByID tbl i = Some n \<Longrightarrow> n \<in> set tbl \<and> nd_ID n = i"
  by (auto simp: GetByID_def dest: find_Some_in)

text \<open>\<open>b != nil && *b\<close> for a \<open>*bool\<close>.\<close>

definition is_true :: "bool option \<Rightarrow> bool" where
  "is_true b = (b = Some True)"

section \<open>Reading the Patroni role\<close>

datatype patroni_error = ErrPatroniStateCorrupt

text \<open>
  \<open>json.Unmarshal\<close> into a \<open>map[string]any\<close>: an object (a repeated key keeps its last value) or
  \<open>null\<close>, which leaves the map nil; anything else is an error.
\<close>

definition unmarshal_map :: "raw_message \<Rightarrow> (string \<rightharpoonup> json) option" where
  "unmarshal_map raw = (case raw of
      Malformed \<Rightarrow> None
    | Encodes (JObj kvs) \<Rightarrow> Some (map_of (rev kvs))
    | Encodes JNull \<Rightarrow> Some Map.empty
    | Encodes _ \<Rightarrow> None)"

definition ExtractPatroniRoleStrict :: "raw_message option \<Rightarrow> patroni_error + string" where
  "ExtractPatroniRoleStrict state = (case state of
      None \<Rightarrow> Inr []
    | Some raw \<Rightarrow>
        (case unmarshal_map raw of
           None \<Rightarrow> Inl ErrPatroniStateCorrupt
         | Some ps \<Rightarrow> (case ps ''role'' of Some (JStr role) \<Rightarrow> Inr role | _ \<Rightarrow> Inr [])))"

definition ExtractPatroniRole :: "raw_message option \<Rightarrow> string" where
  "ExtractPatroniRole state = (case ExtractPatroniRoleStrict state of Inl _ \<Rightarrow> [] | Inr role \<Rightarrow> role)"

definition is_primary_role :: "string \<Rightarrow> bool" where
  "is_primary_role r = (r = ''primary'' \<or> r = ''master'')"

section \<open>Roles\<close>

definition IsDBRole :: "string \<Rightarrow> bool" where
  "IsDBRole role = (role = ''hyperconverged'' \<or> role = ''db_only'')"

definition IsAppRole :: "string \<Rightarrow> bool" where
  "IsAppRole role = (role = ''hyperconverged'' \<or> role = ''app'')"

definition ValidRole :: "string \<Rightarrow> bool" where
  "ValidRole role = (IsDBRole role \<or> IsAppRole role)"

text \<open>The loop of \<open>PrimaryDBNode\<close>; \<open>best\<close> is its accumulator.\<close>

fun primary_db_loop :: "node option \<Rightarrow> node list \<Rightarrow> node option" where
  "primary_db_loop best [] = best"
| "primary_db_loop best (n # ns) =
     (if \<not> IsDBRole (nd_Role n) \<or> nd_AgentStatus n \<noteq> ''connected'' then primary_db_loop best ns
      else if ExtractPatroniRole (nd_PatroniState n) = ''primary'' then Some n
      else primary_db_loop (if best = None then Some n else best) ns)"

definition PrimaryDBNode :: "node list \<Rightarrow> node option" where
  "PrimaryDBNode nodes = primary_db_loop None nodes"

section \<open>Health and state of one node\<close>

definition ComputeNodeHealth ::
  "string \<Rightarrow> string \<Rightarrow> bool option \<Rightarrow> bool option \<Rightarrow> string \<Rightarrow> bool \<Rightarrow> string" where
  "ComputeNodeHealth role agentStatus netboxRunning rqRunning patroniRole patroniConfigured =
     (if agentStatus \<noteq> ''connected'' then ''offline''
      else
        let nb = is_true netboxRunning;
            rq = is_true rqRunning;
            isPrimary = (patroniRole = ''primary'' \<or> patroniRole = ''master'');
            isReplica = (patroniRole = ''replica'' \<or> patroniRole = ''standby'')
        in if role = ''hyperconverged'' then
             (if nb then
                (if \<not> rq then ''unhealthy''
                 else if patroniConfigured \<and> patroniRole \<noteq> [] \<and> \<not> isPrimary then ''unhealthy''
                 else ''healthy'')
              else if patroniConfigured \<and> patroniRole \<noteq> [] \<and> isPrimary then ''unhealthy''
              else ''healthy'')
           else if role = ''app'' then (if nb \<and> \<not> rq then ''unhealthy'' else ''healthy'')
           else if role = ''db_only'' then
             (if patroniConfigured then
                (if patroniRole = [] then ''unhealthy''
                 else if \<not> isPrimary \<and> \<not> isReplica then ''unhealthy''
                 else ''healthy'')
              else ''healthy'')
           else ''healthy'')"

definition ComputeNodeState :: "string \<Rightarrow> bool option \<Rightarrow> string \<Rightarrow> bool \<Rightarrow> string" where
  "ComputeNodeState role netboxRunning patroniRole patroniConfigured =
     (if role = ''hyperconverged'' \<or> role = ''app'' then
        (if is_true netboxRunning then ''active'' else ''standby'')
      else if role = ''db_only'' then
        (if \<not> patroniConfigured then []
         else if patroniRole = ''primary'' \<or> patroniRole = ''master'' then ''active''
         else ''standby'')
      else [])"

section \<open>Health of a cluster\<close>

text \<open>
  The loop of \<open>AggregateClusterHealth\<close> over the three parallel slices; its accumulators are
  \<open>hasHealthyActive\<close>, \<open>allStandbysHealthy\<close> and \<open>standbyCount\<close>.  \<open>None\<close> is the index-out-of-range
  panic of a slice shorter than \<open>nodeRoles\<close>.
\<close>

fun aggregate_loop ::
  "string list \<Rightarrow> string list \<Rightarrow> string list \<Rightarrow> bool \<times> bool \<times> nat \<Rightarrow> (bool \<times> bool \<times> nat) option" where
  "aggregate_loop hs ss [] acc = Some acc"
| "aggregate_loop hs ss (r # rs) (hasActive, allHealthy, standbys) =
     (if r = ''db_only'' then aggregate_loop (drop 1 hs) (drop 1 ss) rs (hasActive, allHealthy, standbys)
      else case ss of
        [] \<Rightarrow> None
      | s # _ \<Rightarrow>
         (if s = ''active'' then
            (case hs of
               [] \<Rightarrow> None
             | h # _ \<Rightarrow> aggregate_loop (drop 1 hs) (drop 1 ss) rs
                 (hasActive \<or> h = ''healthy'', allHealthy, standbys))
          else if s = ''standby'' then
            (case hs of
               [] \<Rightarrow> None
             | h # _ \<Rightarrow> aggregate_loop (drop 1 hs) (drop 1 ss) rs
                 (hasActive, allHealthy \<and> h = ''healthy'', Suc standbys))
          else aggregate_loop (drop 1 hs) (drop 1 ss) rs (hasActive, allHealthy, standbys)))"

definition AggregateClusterHealth ::
  "string list \<Rightarrow> string list \<Rightarrow> string list \<Rightarrow> string option" where
  "AggregateClusterHealth nodeHealths nodeStates nodeRoles =
     (case aggregate_loop nodeHealths nodeStates nodeRoles (False, True, 0) of
        None \<Rightarrow> None
      | Some (hasHealthyActive, allStandbysHealthy, standbyCount) \<Rightarrow>
          Some (if \<not> hasHealthyActive then ''down''
                else if standbyCount > 0 \<and> \<not> allStandbysHealthy then ''degraded''
                else ''healthy''))"

lemmas nodestate_defs [conductor_defs] =
  is_true_def ExtractPatroniRole_def ExtractPatroniRoleStrict_def unmarshal_map_def
  IsDBRole_def IsAppRole_def ValidRole_def is_primary_role_def

section \<open>What the rules promise\<close>

lemma role_strict_corrupt:
  "ExtractPatroniRoleStrict st = Inl e \<longleftrightarrow> (\<exists>raw. st = Some raw \<and> unmarshal_map raw = None)"
  by (cases e) (auto simp: ExtractPatroniRoleStrict_def split: option.splits json.splits)

definition db_candidate :: "node \<Rightarrow> bool" where
  "db_candidate n = (IsDBRole (nd_Role n) \<and> nd_AgentStatus n = ''connected'')"

lemma primary_db_loop_eq:
  "primary_db_loop best ns =
     (case find (\<lambda>n. db_candidate n \<and> ExtractPatroniRole (nd_PatroniState n) = ''primary'') ns of
        Some n \<Rightarrow> Some n
      | None \<Rightarrow> (case best of Some b \<Rightarrow> Some b | None \<Rightarrow> find db_candidate ns))"
  by (induction ns arbitrary: best) (auto simp: db_candidate_def split: option.splits)

text \<open>The node chosen for a backup or a restore.\<close>

theorem PrimaryDBNode_choice:
  "(PrimaryDBNode nodes = None \<longleftrightarrow> \<not> (\<exists>n\<in>set nodes. IsDBRole (nd_Role n) \<and> nd_AgentStatus n = ''connected''))
   \<and> (\<forall>n. PrimaryDBNode nodes = Some n \<longrightarrow>
        n \<in> set nodes \<and> IsDBRole (nd_Role n) \<and> nd_AgentStatus n = ''connected''
        \<and> (ExtractPatroniRole (nd_PatroniState n) = ''primary''
           \<or> \<not> (\<exists>m\<in>set nodes. IsDBRole (nd_Role m) \<and> nd_AgentStatus m = ''connected''
                  \<and> ExtractPatroniRole (nd_PatroniState m) = ''primary'')))"
proof -
  have a: "PrimaryDBNode nodes = None \<longleftrightarrow> \<not> (\<exists>n\<in>set nodes. db_candidate n)"
    by (auto simp: PrimaryDBNode_def primary_db_loop_eq find_None_all split: option.splits
        dest: find_Some_in)
  have b: "n \<in> set nodes \<and> db_candidate n
     \<and> (ExtractPatroniRole (nd_PatroniState n) = ''primary''
        \<or> \<not> (\<exists>m\<in>set nodes. db_candidate m \<and> ExtractPatroniRole (nd_PatroniState m) = ''primary''))"
    if "PrimaryDBNode nodes = Some n" for n
    using that
    by (auto simp: PrimaryDBNode_def primary_db_loop_eq find_None_all split: option.splits
        dest!: find_Some_in)
  show ?thesis using a b unfolding db_candidate_def by blast
qed

definition db_example :: node where
  "db_example =
     \<lparr>nd_ID = 1, nd_ClusterID = 9, nd_Hostname = ''db1'', nd_IPAddress = ''10.0.0.1/24'', nd_Role = ''db_only'',
      nd_FailoverPriority = 10, nd_AgentStatus = ''connected'', nd_PatroniState = None,
      nd_NetboxRunning = None, nd_RQRunning = None, nd_SuppressAutoStart = False, nd_MaintenanceMode = False\<rparr>"

theorem PrimaryDBNode_choice_witness: "PrimaryDBNode [db_example] = Some db_example"
proof -
  have "IsDBRole (nd_Role db_example) \<and> nd_AgentStatus db_example = ''connected''"
    by (simp add: db_example_def IsDBRole_def)
  with PrimaryDBNode_choice [of "[db_example]"] show ?thesis
    by (cases "PrimaryDBNode [db_example]") auto
qed

text \<open>
  The three parallel slices, read as a list of rows.  Every row of an app-tier node counts; the
  accumulators are what a fold over the rows computes.
\<close>

definition app_rows :: "string list \<Rightarrow> string list \<Rightarrow> string list \<Rightarrow> (string \<times> string) list" where
  "app_rows hs ss rs = map snd (filter (\<lambda>(r, _). r \<noteq> ''db_only'') (zip rs (zip hs ss)))"

lemma app_rows_simps [simp]:
  "app_rows [] [] [] = []"
  "app_rows (h # hs) (s # ss) (r # rs) =
     (if r = ''db_only'' then app_rows hs ss rs else (h, s) # app_rows hs ss rs)"
  by (auto simp: app_rows_def)

lemma aggregate_loop_eq:
  assumes "length hs = length rs" and "length ss = length rs"
  shows "aggregate_loop hs ss rs (a, b, c) =
     Some (a \<or> (''healthy'', ''active'') \<in> set (app_rows hs ss rs),
           b \<and> (\<forall>(h, s)\<in>set (app_rows hs ss rs). s = ''standby'' \<longrightarrow> h = ''healthy''),
           c + length (filter (\<lambda>(h, s). s = ''standby'') (app_rows hs ss rs)))"
  using assms
proof (induction rs arbitrary: hs ss a b c)
  case Nil
  then show ?case by (simp add: app_rows_def)
next
  case (Cons r rs)
  from Cons.prems obtain h hs' s ss' where hs: "hs = h # hs'" and ss: "ss = s # ss'"
    and len: "length hs' = length rs" "length ss' = length rs"
    by (metis length_Suc_conv)
  consider (db) "r = ''db_only''" | (active) "r \<noteq> ''db_only''" "s = ''active''"
    | (standby) "r \<noteq> ''db_only''" "s = ''standby''"
    | (other) "r \<noteq> ''db_only''" "s \<noteq> ''active''" "s \<noteq> ''standby''" by blast
  then show ?case
    by cases (auto simp: hs ss Cons.IH [OF len])
qed

lemma filter_standby_pos:
  "0 < length (filter (\<lambda>(h, s). s = ''standby'') rows) \<longleftrightarrow> (\<exists>h. (h, ''standby'') \<in> set rows)"
  by (induction rows) auto

text \<open>cluster health is exactly the documented rule over the app-tier nodes.\<close>

theorem AggregateClusterHealth_spec:
  assumes "length hs = length rs" and "length ss = length rs"
  shows "AggregateClusterHealth hs ss rs = Some
    (if (''healthy'', ''active'') \<notin> set (app_rows hs ss rs) then ''down''
     else if \<exists>h. (h, ''standby'') \<in> set (app_rows hs ss rs) \<and> h \<noteq> ''healthy'' then ''degraded''
     else ''healthy'')"
proof -
  have "(\<exists>h. (h, ''standby'') \<in> set (app_rows hs ss rs) \<and> h \<noteq> ''healthy'') \<longleftrightarrow>
    0 < length (filter (\<lambda>(h, s). s = ''standby'') (app_rows hs ss rs))
    \<and> \<not> (\<forall>(h, s)\<in>set (app_rows hs ss rs). s = ''standby'' \<longrightarrow> h = ''healthy'')"
    unfolding filter_standby_pos by blast
  then show ?thesis
    by (simp add: AggregateClusterHealth_def aggregate_loop_eq [OF assms])
qed

theorem AggregateClusterHealth_spec_witness:
  "AggregateClusterHealth [''healthy'', ''offline'', ''healthy''] [''active'', ''standby'', ''active'']
     [''app'', ''hyperconverged'', ''db_only''] = Some ''degraded''"
  using AggregateClusterHealth_spec [of "[''healthy'', ''offline'', ''healthy'']"
      "[''app'', ''hyperconverged'', ''db_only'']" "[''active'', ''standby'', ''active'']"]
  by simp

end
