(* ===== verification/Oplock.thy ===== *)
theory Oplock
  imports Prelude
begin

text \<open>
  The cluster operation locks of \<open>internal/server/oplock/oplock.go\<close>: one disruptive operation per
  cluster, a second request refused with the name of the running one, and an unlock closure that may
  be called any number of times.  The closures handed out are recorded in order, each with the
  cluster it captured and whether its \<open>sync.Once\<close> has fired; a handle names one of them.
\<close>

datatype busy_error = BusyError string

text \<open>\<open>BusyError.Error\<close>.\<close>

fun busy_message :: "busy_error \<Rightarrow> string" where
  "busy_message (BusyError r) = ''cluster is busy: '' @ r @ '' is in progress''"

record locks =
  lk_running :: "uuid \<rightharpoonup> string"
  lk_closures :: "(uuid \<times> bool) list"

type_synonym unlock_handle = "nat \<times> uuid"

definition New_locks :: locks where
  "New_locks = \<lparr>lk_running = Map.empty, lk_closures = []\<rparr>"

definition TryLock :: "locks \<Rightarrow> uuid \<Rightarrow> string \<Rightarrow> busy_error + unlock_handle \<times> locks" where
  "TryLock l clusterID op = (case lk_running l clusterID of
      Some running \<Rightarrow> Inl (BusyError running)
    | None \<Rightarrow> Inr ((length (lk_closures l), clusterID),
               l\<lparr>lk_running := (lk_running l)(clusterID \<mapsto> op),
                 lk_closures := lk_closures l @ [(clusterID, False)]\<rparr>))"

definition Unlock :: "locks \<Rightarrow> unlock_handle \<Rightarrow> locks" where
  "Unlock l h =
     (if fst h < length (lk_closures l) \<and> lk_closures l ! fst h = (snd h, False)
      then l\<lparr>lk_running := (lk_running l)(snd h := None),
             lk_closures := (lk_closures l)[fst h := (snd h, True)]\<rparr>
      else l)"

section \<open>The contract the clients rely on\<close>

text \<open>
  What a handler that takes the lock may assume, whatever the representation: \<open>held\<close> says which
  operation holds a cluster, \<open>live\<close> which unlock closures have not fired yet.
\<close>

locale cluster_locks =
  fixes try_lock :: "'s \<Rightarrow> 'c \<Rightarrow> string \<Rightarrow> busy_error + 'h \<times> 's"
    and unlock :: "'s \<Rightarrow> 'h \<Rightarrow> 's"
    and held :: "'s \<Rightarrow> 'c \<Rightarrow> string option"
    and issued :: "'s \<Rightarrow> 'h set"
    and live :: "'s \<Rightarrow> 'h set"
    and cluster_of :: "'h \<Rightarrow> 'c"
    and inv :: "'s \<Rightarrow> bool"
  assumes busy: "held s c = Some r \<Longrightarrow> try_lock s c op = Inl (BusyError r)"
    and grant: "inv s \<Longrightarrow> held s c = None \<Longrightarrow>
      \<exists>h s'. try_lock s c op = Inr (h, s') \<and> inv s' \<and> held s' = (held s)(c := Some op)
        \<and> cluster_of h = c \<and> h \<notin> issued s \<and> issued s' = insert h (issued s)
        \<and> live s' = insert h (live s)"
    and live_issued: "inv s \<Longrightarrow> live s \<subseteq> issued s"
    and live_held: "inv s \<Longrightarrow> held s c \<noteq> None \<longleftrightarrow> (\<exists>h\<in>live s. cluster_of h = c)"
    and live_unique: "inv s \<Longrightarrow> h \<in> live s \<Longrightarrow> h' \<in> live s \<Longrightarrow> cluster_of h = cluster_of h' \<Longrightarrow> h = h'"
    and release: "inv s \<Longrightarrow> h \<in> live s \<Longrightarrow>
      inv (unlock s h) \<and> held (unlock s h) = (held s)(cluster_of h := None)
        \<and> live (unlock s h) = live s - {h} \<and> issued (unlock s h) = issued s"
    and release_dead: "inv s \<Longrightarrow> h \<in> issued s \<Longrightarrow> h \<notin> live s \<Longrightarrow> unlock s h = s"
begin

lemma grantE:
  assumes "inv s" and "try_lock s c op = Inr (h, s')"
  obtains "held s c = None" and "held s' = (held s)(c := Some op)" and "cluster_of h = c"
    and "inv s'" and "h \<notin> issued s" and "issued s' = insert h (issued s)" and "live s' = insert h (live s)"
proof (cases "held s c")
  case None
  from grant [OF assms(1) None, of op] assms(2) None that show ?thesis by auto
next
  case (Some r)
  with busy [of s c r op] assms(2) show ?thesis by simp
qed

text \<open>A lock taken and released leaves the clusters held as they were.\<close>

lemma lock_unlock:
  assumes i: "inv s" and t: "try_lock s c op = Inr (h, s')"
  shows "held s c = None" "held s' c = Some op" "inv (unlock s' h)" "held (unlock s' h) = held s"
proof -
  from i t obtain "held s c = None" "held s' = (held s)(c := Some op)" "cluster_of h = c" "inv s'" "h \<in> live s'"
    by (rule grantE) auto
  with release [of s' h] show "held s c = None" "held s' c = Some op" "inv (unlock s' h)" "held (unlock s' h) = held s"
    by auto
qed

text \<open>A handle called again releases nothing, even if another operation took the cluster meanwhile.\<close>

lemma double_unlock:
  assumes i: "inv s" and l: "h \<in> live s"
    and t: "try_lock (unlock s h) (cluster_of h) op = Inr (h2, s2)"
  shows "unlock s2 h = s2 \<and> held s2 (cluster_of h) = Some op"
proof -
  from release [OF i l] have i': "inv (unlock s h)" and lv: "live (unlock s h) = live s - {h}"
    and iss: "issued (unlock s h) = issued s" by auto
  from i' t show ?thesis
  proof (rule grantE)
    assume "held s2 = (held (unlock s h))(cluster_of h := Some op)" and i2: "inv s2"
      and n: "h2 \<notin> issued (unlock s h)" and s2: "issued s2 = insert h2 (issued (unlock s h))"
      and l2: "live s2 = insert h2 (live (unlock s h))"
    from live_issued [OF i] l have "h \<in> issued s" by blast
    with n iss have "h2 \<noteq> h" by auto
    with l2 lv have "h \<notin> live s2" by auto
    moreover have "h \<in> issued s2" using s2 iss \<open>h \<in> issued s\<close> by simp
    ultimately show ?thesis
      using release_dead [OF i2] \<open>held s2 = _\<close> by simp
  qed
qed

end

section \<open>The code's locks keep the contract\<close>

definition lk_issued :: "locks \<Rightarrow> unlock_handle set" where
  "lk_issued l = {h. fst h < length (lk_closures l) \<and> fst (lk_closures l ! fst h) = snd h}"

definition lk_live :: "locks \<Rightarrow> unlock_handle set" where
  "lk_live l = {h. fst h < length (lk_closures l) \<and> lk_closures l ! fst h = (snd h, False)}"

definition lk_inv :: "locks \<Rightarrow> bool" where
  "lk_inv l \<longleftrightarrow>
     (\<forall>c. lk_running l c \<noteq> None \<longleftrightarrow> (\<exists>i<length (lk_closures l). lk_closures l ! i = (c, False)))
   \<and> (\<forall>i j c. i < length (lk_closures l) \<longrightarrow> j < length (lk_closures l)
        \<longrightarrow> lk_closures l ! i = (c, False) \<longrightarrow> lk_closures l ! j = (c, False) \<longrightarrow> i = j)"

lemma lk_inv_New: "lk_inv New_locks"
  by (simp add: lk_inv_def New_locks_def)

lemma lk_inv_free: "lk_inv l \<Longrightarrow> lk_running l c = None \<Longrightarrow> (c, False) \<notin> set (lk_closures l)"
  unfolding lk_inv_def in_set_conv_nth by (metis option.distinct(1))

lemma lk_inv_grant:
  assumes "lk_inv l" and free: "lk_running l c = None"
  shows "lk_inv (l\<lparr>lk_running := (lk_running l)(c \<mapsto> op), lk_closures := lk_closures l @ [(c, False)]\<rparr>)"
proof -
  have nc: "lk_closures l ! i \<noteq> (c, False)" if "i < length (lk_closures l)" for i
    using lk_inv_free [OF assms] that nth_mem by metis
  have "lk_running l d \<noteq> None \<longleftrightarrow> (\<exists>i<length (lk_closures l). lk_closures l ! i = (d, False))" for d
    using assms(1) by (auto simp: lk_inv_def)
  moreover have "i = j" if "i < length (lk_closures l)" "j < length (lk_closures l)"
      "lk_closures l ! i = (d, False)" "lk_closures l ! j = (d, False)" for i j d
    using assms(1) that by (auto simp: lk_inv_def)
  ultimately show ?thesis
    using nc unfolding lk_inv_def
    by (auto simp: nth_append less_Suc_eq split: if_splits)
qed

lemma lk_inv_release:
  assumes inv: "lk_inv l" and i: "i < length (lk_closures l)" "lk_closures l ! i = (c, False)"
  shows "lk_inv (l\<lparr>lk_running := (lk_running l)(c := None), lk_closures := (lk_closures l)[i := (c, True)]\<rparr>)"
proof -
  have run: "lk_running l d \<noteq> None \<longleftrightarrow> (\<exists>i<length (lk_closures l). lk_closures l ! i = (d, False))" for d
    using inv by (auto simp: lk_inv_def)
  have uniq: "k = j" if "k < length (lk_closures l)" "j < length (lk_closures l)"
      "lk_closures l ! k = (d, False)" "lk_closures l ! j = (d, False)" for k j d
    using inv that by (auto simp: lk_inv_def)
  have "\<not> (j < length (lk_closures l) \<and> (lk_closures l)[i := (c, True)] ! j = (c, False))" for j
    using uniq [of j i c] i by (auto simp: nth_list_update split: if_splits)
  moreover have "(\<exists>j<length (lk_closures l). (lk_closures l)[i := (c, True)] ! j = (d, False))
      \<longleftrightarrow> (\<exists>j<length (lk_closures l). lk_closures l ! j = (d, False))" if "d \<noteq> c" for d
    using that i by (metis Pair_inject nth_list_update)
  ultimately show ?thesis
    using run uniq i unfolding lk_inv_def
    by (auto simp: nth_list_update split: if_splits)
qed

interpretation lk: cluster_locks TryLock Unlock lk_running lk_issued lk_live snd lk_inv
proof
  fix s :: locks and c r op
  assume "lk_running s c = Some r"
  then show "TryLock s c op = Inl (BusyError r)" by (simp add: TryLock_def)
next
  fix s :: locks and c op
  assume "lk_inv s" and "lk_running s c = None"
  then have inv: "lk_inv (s\<lparr>lk_running := (lk_running s)(c \<mapsto> op), lk_closures := lk_closures s @ [(c, False)]\<rparr>)"
    by (rule lk_inv_grant)
  show "\<exists>h s'. TryLock s c op = Inr (h, s') \<and> lk_inv s' \<and> lk_running s' = (lk_running s)(c := Some op)
        \<and> snd h = c \<and> h \<notin> lk_issued s \<and> lk_issued s' = insert h (lk_issued s)
        \<and> lk_live s' = insert h (lk_live s)"
    using \<open>lk_running s c = None\<close> inv
    by (auto simp: TryLock_def lk_issued_def lk_live_def nth_append less_Suc_eq)
next
  fix s :: locks assume "lk_inv s" then show "lk_live s \<subseteq> lk_issued s"
    by (auto simp: lk_live_def lk_issued_def)
next
  fix s :: locks and c assume "lk_inv s"
  then have "lk_running s c \<noteq> None \<longleftrightarrow> (\<exists>i<length (lk_closures s). lk_closures s ! i = (c, False))"
    by (simp add: lk_inv_def)
  then show "lk_running s c \<noteq> None \<longleftrightarrow> (\<exists>h\<in>lk_live s. snd h = c)"
    by (auto simp: lk_live_def)
next
  fix s :: locks and h h'
  assume "lk_inv s" "h \<in> lk_live s" "h' \<in> lk_live s" "snd h = snd h'"
  then show "h = h'"
    by (cases h; cases h') (auto simp: lk_live_def lk_inv_def)
next
  fix s :: locks and h
  assume "lk_inv s" and "h \<in> lk_live s"
  then have i: "fst h < length (lk_closures s)" "lk_closures s ! fst h = (snd h, False)"
    by (auto simp: lk_live_def)
  have "lk_live (Unlock s h) = lk_live s - {h}" and "lk_issued (Unlock s h) = lk_issued s"
    using i by (auto simp: lk_live_def lk_issued_def Unlock_def nth_list_update split: if_splits)
  then show "lk_inv (Unlock s h) \<and> lk_running (Unlock s h) = (lk_running s)(snd h := None)
        \<and> lk_live (Unlock s h) = lk_live s - {h} \<and> lk_issued (Unlock s h) = lk_issued s"
    using i lk_inv_release [OF \<open>lk_inv s\<close> i] by (simp add: Unlock_def)
next
  fix s :: locks and h
  assume "h \<in> lk_issued s" "h \<notin> lk_live s"
  then show "Unlock s h = s" by (auto simp: Unlock_def lk_live_def)
qed

section \<open>Every run of requests and releases\<close>

text \<open>
  Any interleaving of \<open>TryLock\<close> calls and of calls to closures handed out earlier, repeated calls
  included.
\<close>

inductive locks_reach :: "locks \<Rightarrow> bool" where
  init: "locks_reach New_locks"
| lock: "locks_reach l \<Longrightarrow> TryLock l c op = Inr (h, l') \<Longrightarrow> locks_reach l'"
| unlock: "locks_reach l \<Longrightarrow> h \<in> lk_issued l \<Longrightarrow> locks_reach (Unlock l h)"

lemma locks_reach_inv: "locks_reach l \<Longrightarrow> lk_inv l"
proof (induction rule: locks_reach.induct)
  case init
  show ?case by (rule lk_inv_New)
next
  case (lock l c op h l')
  from lock.IH lock.hyps(2) show ?case by (rule lk.grantE)
next
  case (unlock l h)
  then show ?case using lk.release [of l h] lk.release_dead [of l h] by (cases "h \<in> lk_live l") auto
qed

text \<open>
  C35: whatever requests and releases came before, a cluster has at most one operation that can still
  release it, a second request is refused with the name of the running one, and once that operation
  has released the cluster the next request gets it; calling the first operation's unlock again then
  does not take the cluster from its new holder.
\<close>

theorem oplock_one_operation:
  assumes "locks_reach l" and "TryLock l c op = Inr (h, l1)"
  shows "TryLock l1 c op2 = Inl (BusyError op)
    \<and> (\<forall>h'\<in>lk_live l1. snd h' = c \<longrightarrow> h' = h)
    \<and> (\<exists>h2 l2. TryLock (Unlock l1 h) c op2 = Inr (h2, l2) \<and> Unlock l2 h = l2 \<and> lk_running l2 c = Some op2)"
proof -
  from locks_reach_inv [OF assms(1)] have inv: "lk_inv l" .
  from inv assms(2) show ?thesis
  proof (rule lk.grantE)
    assume held: "lk_running l1 = (lk_running l)(c := Some op)" and c: "snd h = c" and inv1: "lk_inv l1"
      and live: "lk_live l1 = insert h (lk_live l)"
    then have h: "h \<in> lk_live l1" by simp
    from lk.release [OF inv1 h] c have free: "lk_running (Unlock l1 h) c = None" by simp
    then obtain h2 l2 where g: "TryLock (Unlock l1 h) (snd h) op2 = Inr (h2, l2)"
      by (simp add: TryLock_def c)
    have "h' = h" if "h' \<in> lk_live l1" "snd h' = c" for h'
      using lk.live_unique [OF inv1 that(1) h] that(2) c by simp
    then show ?thesis
      using held g lk.double_unlock [OF inv1 h g] c by (auto simp: lk.busy)
  qed
qed

theorem oplock_one_operation_witness:
  "TryLock (New_locks\<lparr>lk_running := [7 \<mapsto> ''a backup''], lk_closures := [(7, False)]\<rparr>) 7 ''restore''
     = Inl (BusyError ''a backup'')"
proof -
  have "TryLock New_locks 7 ''a backup''
      = Inr ((0, 7), New_locks\<lparr>lk_running := [7 \<mapsto> ''a backup''], lk_closures := [(7, False)]\<rparr>)"
    by (simp add: TryLock_def New_locks_def)
  from oplock_one_operation [OF locks_reach.init this, of "''restore''"] show ?thesis by blast
qed

end
