(* ===== verification/Cron.thy ===== *)
theory Cron
  imports Prelude
begin

unbundle bit_operations_syntax

text \<open>
  The cron schedules of \<open>internal/server/cron/cron.go\<close>: one parser behind \<open>Validate\<close> and \<open>Matches\<close>.
  A parsed expression is five 64-bit masks, one bit per allowed value.  Errors are values; the panic
  of a shift by a negative amount, which a step near \<open>2 ^ 63\<close> runs into, is one of them.
\<close>

datatype cron_error =
    NeedsFiveFields
  | BadStep string
  | NotANumber string
  | Outside int int int
  | RunsBackwards string
  | NegativeShiftPanic
  | NotAStep
  | InField string string cron_error

type_synonym cronSpec = "64 word list"

definition cronFields :: "(string \<times> int \<times> int) list" where
  "cronFields = [(''minute'', 0, 59), (''hour'', 0, 23), (''day'', 1, 31), (''month'', 1, 12),
                 (''weekday'', 0, 7)]"

definition cronNum :: "string \<Rightarrow> int \<Rightarrow> int \<Rightarrow> cron_error + int" where
  "cronNum s lo hi = (case atoi s of
      None \<Rightarrow> Inl (NotANumber s)
    | Some n \<Rightarrow> if n < lo \<or> n > hi then Inl (Outside n lo hi) else Inr n)"

text \<open>The step of a part, and the first and last value of its range (the head of \<open>cronPart\<close>).\<close>

definition cron_step :: "string \<Rightarrow> bool \<Rightarrow> cron_error + int" where
  "cron_step stepStr hasStep =
     (if hasStep then (case atoi stepStr of
          None \<Rightarrow> Inl (BadStep stepStr)
        | Some n \<Rightarrow> if n \<le> 0 then Inl (BadStep stepStr) else Inr n)
      else Inr 1)"

definition cron_range :: "string \<Rightarrow> bool \<Rightarrow> int \<Rightarrow> int \<Rightarrow> cron_error + int \<times> int" where
  "cron_range rng hasStep lo hi =
     (if rng = ''*'' then Inr (lo, hi)
      else case cut rng ''-'' of (a, b, isRange) \<Rightarrow>
        (case cronNum a lo hi of
           Inl e \<Rightarrow> Inl e
         | Inr from \<Rightarrow>
            (if isRange then
               (case cronNum b lo hi of
                  Inl e \<Rightarrow> Inl e
                | Inr to \<Rightarrow> if from > to then Inl (RunsBackwards rng) else Inr (from, to))
             else if \<not> hasStep then Inr (from, from)
             else Inr (from, hi))))"

lemma wrap64_advance:
  assumes "0 < step" "step < 2 ^ 63" "0 \<le> v" "v < 2 ^ 63"
  shows "wrap64 (v + step) = (if v + step < 2 ^ 63 then v + step else v + step - 2 ^ 64)"
  using assms unfolding wrap64_def
  by (auto simp: not_less) (smt (verit, best) mod_pos_pos_trivial minus_mod_self2)

text \<open>
  The loop \<open>for v := from; v <= to; v += step { bits |= 1 << v }\<close>: \<open>v += step\<close> wraps at 64 bits and
  a shift by a negative \<open>v\<close> panics.  The loop is only entered with a positive 64-bit step
  (\<open>cron_step_range\<close>); \<open>NotAStep\<close> stands for any other, which never reaches it.
\<close>

function cron_bits :: "int \<Rightarrow> int \<Rightarrow> int \<Rightarrow> 64 word \<Rightarrow> cron_error + 64 word" where
  "cron_bits step v to bits =
     (if step \<le> 0 \<or> 2 ^ 63 \<le> step \<or> 2 ^ 63 \<le> to then Inl NotAStep
      else if v > to then Inr bits
      else if v < 0 then Inl NegativeShiftPanic
      else cron_bits step (wrap64 (v + step)) to (bits OR push_bit (nat v) 1))"
  by pat_completeness auto

termination
  by (relation "measure (\<lambda>(step, v, to, bits). if v < 0 then 0 else Suc (nat (to + 1 - v)))")
     (auto simp: wrap64_advance)

declare cron_bits.simps [simp del]

definition cronPart :: "string \<Rightarrow> int \<Rightarrow> int \<Rightarrow> cron_error + 64 word" where
  "cronPart part lo hi = (case cut part ''/'' of (rng, stepStr, hasStep) \<Rightarrow>
     (case cron_step stepStr hasStep of
        Inl e \<Rightarrow> Inl e
      | Inr step \<Rightarrow>
         (case cron_range rng hasStep lo hi of
            Inl e \<Rightarrow> Inl e
          | Inr (from, to) \<Rightarrow> cron_bits step from to 0)))"

text \<open>The comma list of one field: the union of its parts, or the first error.\<close>

fun cron_parts :: "int \<Rightarrow> int \<Rightarrow> 64 word \<Rightarrow> string list \<Rightarrow> cron_error + 64 word" where
  "cron_parts lo hi acc [] = Inr acc"
| "cron_parts lo hi acc (p # ps) =
     (case cronPart p lo hi of Inl e \<Rightarrow> Inl e | Inr bits \<Rightarrow> cron_parts lo hi (acc OR bits) ps)"

fun cron_fields :: "(string \<times> int \<times> int) list \<Rightarrow> string list \<Rightarrow> cron_error + cronSpec" where
  "cron_fields ((name, lo, hi) # specs) (f # fs) =
     (case cron_parts lo hi 0 (split_on (CHR '','') f) of
        Inl e \<Rightarrow> Inl (if e = NegativeShiftPanic then e else InField name f e)
      | Inr bits \<Rightarrow> (case cron_fields specs fs of Inl e \<Rightarrow> Inl e | Inr s \<Rightarrow> Inr (bits # s)))"
| "cron_fields _ _ = Inr []"

definition parseCron :: "string \<Rightarrow> cron_error + cronSpec" where
  "parseCron expr = (let fs = Fields expr in
     if length fs \<noteq> 5 then Inl NeedsFiveFields
     else case cron_fields cronFields fs of
        Inl e \<Rightarrow> Inl e
      | Inr s \<Rightarrow> Inr (if (s ! 4) AND push_bit 7 1 \<noteq> 0 then s[4 := (s ! 4) OR 1] else s))"

definition Validate :: "string \<Rightarrow> cron_error option" where
  "Validate expr = (case parseCron expr of Inl e \<Rightarrow> Some e | Inr _ \<Rightarrow> None)"

text \<open>The civil fields of a \<open>time.Time\<close> that a schedule reads.\<close>

record civil =
  c_Minute :: nat
  c_Hour :: nat
  c_Day :: nat
  c_Month :: nat
  c_Weekday :: nat

definition civil_vals :: "civil \<Rightarrow> nat list" where
  "civil_vals t = [c_Minute t, c_Hour t, c_Day t, c_Month t, c_Weekday t]"

definition cron_matches :: "cronSpec \<Rightarrow> civil \<Rightarrow> bool" where
  "cron_matches s t = list_all2 (\<lambda>bits v. bits AND push_bit v 1 \<noteq> 0) s (civil_vals t)"

definition Matches :: "string \<Rightarrow> civil \<Rightarrow> bool" where
  "Matches expr t = (case parseCron expr of Inl _ \<Rightarrow> False | Inr s \<Rightarrow> cron_matches s t)"

text \<open>What \<open>package time\<close> guarantees of those fields.\<close>

definition valid_civil :: "civil \<Rightarrow> bool" where
  "valid_civil t = (c_Minute t \<le> 59 \<and> c_Hour t \<le> 23 \<and> 1 \<le> c_Day t \<and> c_Day t \<le> 31
     \<and> 1 \<le> c_Month t \<and> c_Month t \<le> 12 \<and> c_Weekday t \<le> 6)"

section \<open>The masks\<close>

lemma test_bit_mask: "(w :: 64 word) AND push_bit v 1 \<noteq> 0 \<longleftrightarrow> bit w v"
  by (simp add: bit_iff_and_push_bit_not_eq_0)

lemma bit_or_one: "bit ((w :: 64 word) OR 2 ^ v) n \<longleftrightarrow> bit w n \<or> (n = v \<and> v < 64)"
  by (auto simp: bit_or_iff bit_exp_iff possible_bit_word)

lemma cron_step_range: "cron_step s h = Inr step \<Longrightarrow> 0 < step \<and> step < 2 ^ 63"
  by (auto simp: cron_step_def atoi_def Let_def split: if_splits option.splits list.splits)

lemma cronNum_range: "cronNum s lo hi = Inr n \<Longrightarrow> lo \<le> n \<and> n \<le> hi"
  by (auto simp: cronNum_def split: option.splits if_splits)

lemma cron_range_range:
  "cron_range rng h lo hi = Inr (from, to) \<Longrightarrow> lo \<le> hi \<Longrightarrow> lo \<le> from \<and> from \<le> to \<and> to \<le> hi"
  by (auto simp: cron_range_def dest!: cronNum_range split: if_splits sum.splits prod.splits)

text \<open>The loop sets exactly the bits it passes, while \<open>v + step\<close> stays in range.\<close>

lemma cron_bits_ok:
  assumes "0 < step" "step < 2 ^ 63" "0 \<le> v" "to < 64" and "cron_bits step v to bits = Inr out"
  shows "bit out n \<longleftrightarrow> bit bits n \<or> (int n \<le> to \<and> v \<le> int n \<and> step dvd (int n - v))"
  using assms
proof (induction step v to bits rule: cron_bits.induct)
  case (1 step v to bits)
  show ?case
  proof (cases "v > to")
    case True
    with 1 show ?thesis by (subst (asm) (2) cron_bits.simps) auto
  next
    case False
    with 1 have v: "v < 64" "\<not> v < 0" "\<not> (step \<le> 0 \<or> 2 ^ 63 \<le> step \<or> 2 ^ 63 \<le> to)" by auto
    with 1 False have rec: "cron_bits step (wrap64 (v + step)) to (bits OR push_bit (nat v) 1) = Inr out"
      by (simp add: cron_bits.simps [of step v to bits])
    have w: "wrap64 (v + step) = v + step"
    proof (rule ccontr)
      assume "wrap64 (v + step) \<noteq> v + step"
      with wrap64_advance [of step v] 1 v have "wrap64 (v + step) < 0" by auto
      with rec v 1 False show False by (auto simp: cron_bits.simps [of step "wrap64 (v + step)"] split: if_splits)
    qed
    from 1(1) [OF v(3) False v(2)] 1 rec w
    have "bit out n \<longleftrightarrow> bit (bits OR push_bit (nat v) 1) n
        \<or> (int n \<le> to \<and> v + step \<le> int n \<and> step dvd (int n - (v + step)))" by simp
    moreover have "step dvd (int n - (v + step)) \<longleftrightarrow> step dvd (int n - v)"
      by (metis add_diff_eq diff_diff_add dvd_diff_commute dvd_minus_iff minus_dvd_iff zdvd_zdiffD dvd_diff dvd_refl diff_add_cancel dvd_add_right_iff)
    moreover have "v \<le> int n \<and> step dvd (int n - v) \<Longrightarrow> int n = v \<or> v + step \<le> int n"
      using 1 by (metis add_le_cancel_left diff_add_cancel diff_gt_0_iff_gt dual_order.order_iff_strict le_diff_eq zdvd_imp_le add.commute)
    ultimately show ?thesis
      using v 1(5) False by (auto simp: bit_or_one)
  qed
qed

section \<open>The masks against a direct reading of the schedule\<close>

text \<open>
  The reference: a part allows a value when the value lies in the part's range, a whole number of
  steps from its start; a field allows it when one of its comma-separated parts does.
\<close>

definition part_allows :: "int \<Rightarrow> int \<Rightarrow> string \<Rightarrow> nat \<Rightarrow> bool" where
  "part_allows lo hi part v = (case cut part ''/'' of (rng, stepStr, hasStep) \<Rightarrow>
     (case (cron_step stepStr hasStep, cron_range rng hasStep lo hi) of
        (Inr step, Inr (from, to)) \<Rightarrow> from \<le> int v \<and> int v \<le> to \<and> step dvd (int v - from)
      | _ \<Rightarrow> False))"

definition field_allows :: "int \<Rightarrow> int \<Rightarrow> string \<Rightarrow> nat \<Rightarrow> bool" where
  "field_allows lo hi f v = (\<exists>p\<in>set (split_on (CHR '','') f). part_allows lo hi p v)"

lemma cronPart_bits:
  assumes "0 \<le> lo" "lo \<le> hi" "hi < 64" and "cronPart part lo hi = Inr bits"
  shows "bit bits n \<longleftrightarrow> part_allows lo hi part n"
proof -
  obtain rng st h where c: "cut part ''/'' = (rng, st, h)" by (cases "cut part ''/''") auto
  with assms(4) obtain step fr to where st: "cron_step st h = Inr step"
    and r: "cron_range rng h lo hi = Inr (fr, to)" and b: "cron_bits step fr to 0 = Inr bits"
    by (auto simp: cronPart_def split: sum.splits)
  from cron_step_range [OF st] cron_range_range [OF r assms(2)] assms(1,3)
  have "0 < step" "step < 2 ^ 63" "0 \<le> fr" "to < 64" by auto
  from cron_bits_ok [OF this b] show ?thesis
    by (auto simp: part_allows_def c st r)
qed

lemma part_allows_range: "part_allows lo hi p v \<Longrightarrow> lo \<le> hi \<Longrightarrow> lo \<le> int v \<and> int v \<le> hi"
  by (auto simp: part_allows_def dest!: cron_range_range split: prod.splits sum.splits)

lemma cron_parts_bits:
  assumes "0 \<le> lo" "lo \<le> hi" "hi < 64" and "cron_parts lo hi acc ps = Inr out"
  shows "bit out n \<longleftrightarrow> bit acc n \<or> (\<exists>p\<in>set ps. part_allows lo hi p n)"
  using assms(4)
proof (induction ps arbitrary: acc)
  case (Cons p ps)
  then obtain b where b: "cronPart p lo hi = Inr b" and r: "cron_parts lo hi (acc OR b) ps = Inr out"
    by (auto split: sum.splits)
  from Cons.IH [OF r] cronPart_bits [OF assms(1-3) b] show ?case by (auto simp: bit_or_iff)
qed simp

lemma cron_fields_bits:
  "cron_fields specs fs = Inr s \<Longrightarrow> length fs = length specs
   \<Longrightarrow> \<forall>(nm, lo, hi)\<in>set specs. 0 \<le> lo \<and> lo \<le> hi \<and> hi < 64
   \<Longrightarrow> list_all2 (\<lambda>bits (f, nm, lo, hi). \<forall>n. bit bits n \<longleftrightarrow> field_allows lo hi f n) s (zip fs specs)"
proof (induction specs fs arbitrary: s rule: cron_fields.induct)
  case (1 name lo hi specs f fs)
  then obtain b s' where "cron_parts lo hi 0 (split_on (CHR '','') f) = Inr b"
    and "cron_fields specs fs = Inr s'" and "s = b # s'"
    by (auto split: sum.splits)
  with 1 show ?case using cron_parts_bits [of lo hi 0 "split_on (CHR '','') f" b]
    by (auto simp: field_allows_def)
qed auto

lemma all_less_5: "(\<forall>i<5. P i) \<longleftrightarrow> P 0 \<and> P 1 \<and> P 2 \<and> P 3 \<and> P (4::nat)"
  by (auto simp: less_Suc_eq numeral_eq_Suc)

lemma fields_five:
  assumes "length s = (5::nat)"
  obtains a b c d e where "s = [a, b, c, d, e]"
proof -
  have "s = [s ! 0, s ! 1, s ! 2, s ! 3, s ! 4]"
    using assms by (auto intro!: nth_equalityI simp: less_Suc_eq numeral_eq_Suc)
  then show ?thesis using that by metis
qed

lemma weekday_fold:
  fixes w :: "64 word"
  shows "bit (if w AND push_bit 7 1 \<noteq> 0 then w OR 1 else w) n \<longleftrightarrow> bit w n \<or> (n = 0 \<and> bit w 7)"
  by (auto simp: test_bit_mask bit_or_iff bit_1_iff simp del: push_bit_of_1)

text \<open>
  C38: an accepted schedule matches an instant exactly when each of its five fields allows the
  instant's value by the direct reading, weekday 0 being allowed also where 7 is; the bit masks, the
  union over comma lists and the wrap-around-guarded loop add and lose nothing.
\<close>

theorem Matches_reference:
  assumes ok: "Validate expr = None"
    and fs: "Fields expr = [mi, ho, da, mo, wd]"
  shows "Matches expr t \<longleftrightarrow>
     field_allows 0 59 mi (c_Minute t) \<and> field_allows 0 23 ho (c_Hour t)
   \<and> field_allows 1 31 da (c_Day t) \<and> field_allows 1 12 mo (c_Month t)
   \<and> (field_allows 0 7 wd (c_Weekday t) \<or> (c_Weekday t = 0 \<and> field_allows 0 7 wd 7))"
proof -
  from ok obtain s where s: "parseCron expr = Inr s"
    by (auto simp: Validate_def split: sum.splits)
  then obtain r where r: "cron_fields cronFields [mi, ho, da, mo, wd] = Inr r"
    and sr: "s = (if (r ! 4) AND push_bit 7 1 \<noteq> 0 then r[4 := (r ! 4) OR 1] else r)"
    by (auto simp: parseCron_def fs Let_def split: sum.splits simp del: cron_fields.simps)
  from cron_fields_bits [OF r]
  have l: "list_all2 (\<lambda>bits (f, nm, lo, hi). \<forall>n. bit bits n \<longleftrightarrow> field_allows lo hi f n) r
      (zip [mi, ho, da, mo, wd] cronFields)"
    by (simp add: cronFields_def)
  then have "length r = 5" by (auto dest!: list_all2_lengthD simp: cronFields_def)
  then obtain a b c d e where five: "r = [a, b, c, d, e]" by (rule fields_five)
  have "s = [a, b, c, d, if e AND push_bit 7 1 \<noteq> 0 then e OR 1 else e]"
    using sr five by (simp add: eval_nat_numeral)
  then have "Matches expr t \<longleftrightarrow> bit a (c_Minute t) \<and> bit b (c_Hour t) \<and> bit c (c_Day t) \<and> bit d (c_Month t)
      \<and> bit (if e AND push_bit 7 1 \<noteq> 0 then e OR 1 else e) (c_Weekday t)"
    by (simp add: Matches_def s cron_matches_def civil_vals_def test_bit_mask del: push_bit_of_1)
  then show ?thesis
    using l by (simp add: five cronFields_def weekday_fold del: push_bit_of_1)
qed

theorem Matches_reference_witness:
  "Matches ''*/15 2 * 1-6 7'' \<lparr>c_Minute = 45, c_Hour = 2, c_Day = 9, c_Month = 3, c_Weekday = 0\<rparr>"
proof -
  have "Validate ''*/15 2 * 1-6 7'' = None" by code_simp
  moreover have "Fields ''*/15 2 * 1-6 7'' = [''*/15'', ''2'', ''*'', ''1-6'', ''7'']" by code_simp
  ultimately show ?thesis
    by (subst Matches_reference) (assumption | code_simp)+
qed

text \<open>
  An accepted schedule can match no value outside the range of its field, whatever numbers,
  ranges, steps and lists it is written with.
\<close>

theorem parseCron_bounds:
  assumes "parseCron expr = Inr s"
  shows "length s = 5 \<and> (\<forall>i<5. \<forall>n. bit (s ! i) n \<longrightarrow>
     fst (snd (cronFields ! i)) \<le> int n \<and> int n \<le> snd (snd (cronFields ! i)))
   \<and> (bit (s ! 4) 7 \<longrightarrow> bit (s ! 4) 0)"
proof -
  from assms have n: "length (Fields expr) = 5"
    by (auto simp: parseCron_def Let_def split: if_splits)
  then obtain mi ho da mo wd where fs: "Fields expr = [mi, ho, da, mo, wd]" by (rule fields_five)
  from assms obtain r where r: "cron_fields cronFields [mi, ho, da, mo, wd] = Inr r"
    and sr: "s = (if (r ! 4) AND push_bit 7 1 \<noteq> 0 then r[4 := (r ! 4) OR 1] else r)"
    by (auto simp: parseCron_def fs Let_def split: sum.splits simp del: cron_fields.simps)
  from cron_fields_bits [OF r]
  have l: "list_all2 (\<lambda>bits (f, nm, lo, hi). \<forall>n. bit bits n \<longleftrightarrow> field_allows lo hi f n) r
      (zip [mi, ho, da, mo, wd] cronFields)"
    by (simp add: cronFields_def)
  then have "length r = 5" by (auto dest!: list_all2_lengthD simp: cronFields_def)
  then obtain a b c d e where five: "r = [a, b, c, d, e]" by (rule fields_five)
  have s: "s = [a, b, c, d, if e AND push_bit 7 1 \<noteq> 0 then e OR 1 else e]"
    using sr five by (simp add: eval_nat_numeral)
  have range: "field_allows lo hi f v \<Longrightarrow> lo \<le> hi \<Longrightarrow> lo \<le> int v \<and> int v \<le> hi" for lo hi f v
    by (auto simp: field_allows_def dest: part_allows_range)
  have "bit a n \<Longrightarrow> 0 \<le> int n \<and> int n \<le> 59" "bit b n \<Longrightarrow> 0 \<le> int n \<and> int n \<le> 23"
      "bit c n \<Longrightarrow> 1 \<le> int n \<and> int n \<le> 31" "bit d n \<Longrightarrow> 1 \<le> int n \<and> int n \<le> 12"
      "bit e n \<Longrightarrow> 0 \<le> int n \<and> int n \<le> 7" for n
    using l range [of 0 59 mi n] range [of 0 23 ho n] range [of 1 31 da n] range [of 1 12 mo n]
      range [of 0 7 wd n] by (simp_all add: five cronFields_def)
  then show ?thesis
    unfolding s all_less_5 by (auto simp: cronFields_def weekday_fold simp del: push_bit_of_1)
qed

theorem parseCron_bounds_witness:
  "length [1, 1, 4, 8190, 0x81 :: 64 word] = 5 \<and> parseCron ''0 0 2 * 7'' = Inr [1, 1, 4, 8190, 0x81]"
proof -
  have p: "parseCron ''0 0 2 * 7'' = Inr [1, 1, 4, 8190, 0x81]" by code_simp
  from parseCron_bounds [OF p] p show ?thesis by blast
qed

text \<open>
  a step close to \<open>2 ^ 63\<close> in a field that starts above 0 passes every check of the parser and
  then overflows the loop variable: validating it panics instead of returning an error.
\<close>

theorem Validate_huge_step_panics:
  "Validate ''0 0 */9223372036854775807 * *'' = Some NegativeShiftPanic"
  by code_simp

end
