(* ===== verification/Events.thy ===== *)
theory Events
  imports Prelude
begin

text \<open>
  The structured events of \<open>internal/server/events\<close>: their builder, the severity order, the emitter
  that persists an event and fans it out, and the heartbeat processor that turns two successive
  heartbeats into service events.  An event's random identifier and creation time are left out:
  nothing in the modelled code reads them.
\<close>

record event =
  ev_ClusterID :: "uuid option"
  ev_NodeID :: "uuid option"
  ev_ClusterName :: "string option"
  ev_NodeName :: "string option"
  ev_Category :: string
  ev_Severity :: string
  ev_Code :: string
  ev_Message :: string
  ev_Actor :: string
  ev_Metadata :: "string gomap"

definition New_event :: "string \<Rightarrow> string \<Rightarrow> string \<Rightarrow> string \<Rightarrow> string \<Rightarrow> event" where
  "New_event category severity code message actor =
     \<lparr>ev_ClusterID = None, ev_NodeID = None, ev_ClusterName = None, ev_NodeName = None,
      ev_Category = category, ev_Severity = severity, ev_Code = code, ev_Message = message,
      ev_Actor = actor, ev_Metadata = []\<rparr>"

definition Cluster :: "uuid \<Rightarrow> event \<Rightarrow> event" where
  "Cluster i e = e\<lparr>ev_ClusterID := Some i\<rparr>"

definition Node :: "uuid \<Rightarrow> event \<Rightarrow> event" where
  "Node i e = e\<lparr>ev_NodeID := Some i\<rparr>"

definition Meta :: "string \<Rightarrow> string \<Rightarrow> event \<Rightarrow> event" where
  "Meta k v e = e\<lparr>ev_Metadata := AList.update k v (ev_Metadata e)\<rparr>"

definition ActorSystem :: string where
  "ActorSystem = ''system''"

text \<open>\<open>SeverityOrder[s]\<close>: a name that is not in the map reads as 0.\<close>

definition SeverityOrder :: "string \<Rightarrow> nat" where
  "SeverityOrder s =
     (case map_of [(''debug'', 0), (''info'', 1), (''warn'', 2), (''error'', 3), (''critical'', 4)] s of
        None \<Rightarrow> 0 | Some n \<Rightarrow> n)"

section \<open>The emitter\<close>

text \<open>
  \<open>DefaultEmitter\<close>: the registered sinks, in order, and the optional name resolver, whose answers
  for an unknown identifier are the empty string.
\<close>

record 'sink emitter =
  em_sinks :: "'sink list"
  em_resolver :: "((uuid \<Rightarrow> string) \<times> (uuid \<Rightarrow> string)) option"

datatype 'sink emit_action = Persist event | OnEvent 'sink event

definition RegisterSink :: "'sink \<Rightarrow> 'sink emitter \<Rightarrow> 'sink emitter" where
  "RegisterSink s e = e\<lparr>em_sinks := em_sinks e @ [s]\<rparr>"

definition resolve_name :: "(uuid \<Rightarrow> string) \<Rightarrow> uuid option \<Rightarrow> string option \<Rightarrow> string option" where
  "resolve_name f i known = (case (i, known) of
      (Some u, None) \<Rightarrow> (if f u \<noteq> [] then Some (f u) else None)
    | _ \<Rightarrow> known)"

definition enrich :: "'sink emitter \<Rightarrow> event \<Rightarrow> event" where
  "enrich em ev = (case em_resolver em of
      None \<Rightarrow> ev
    | Some (clusterName, nodeName) \<Rightarrow>
        ev\<lparr>ev_ClusterName := resolve_name clusterName (ev_ClusterID ev) (ev_ClusterName ev),
           ev_NodeName := resolve_name nodeName (ev_NodeID ev) (ev_NodeName ev)\<rparr>)"

text \<open>
  \<open>Emit\<close>: one attempt to persist the event as it came (a failure is only logged), then the enriched
  event to every sink.
\<close>

definition Emit :: "'sink emitter \<Rightarrow> event \<Rightarrow> 'sink emit_action list" where
  "Emit em ev = Persist ev # map (\<lambda>s. OnEvent s (enrich em ev)) (em_sinks em)"

section \<open>Heartbeats\<close>

record heartbeat_input =
  hb_NodeID :: uuid
  hb_ClusterID :: uuid
  hb_Hostname :: string
  hb_Netbox :: bool
  hb_RQ :: bool
  hb_Patroni :: bool
  hb_Postgres :: bool
  hb_Redis :: bool
  hb_Sentinel :: bool
  hb_PatroniRole :: string

record heartbeat_state =
  hs_Netbox :: "bool option"
  hs_RQ :: "bool option"
  hs_Patroni :: "bool option"
  hs_Postgres :: "bool option"
  hs_Redis :: "bool option"
  hs_Sentinel :: "bool option"
  hs_PatroniRole :: string

definition empty_heartbeat_state :: heartbeat_state where
  "empty_heartbeat_state = \<lparr>hs_Netbox = None, hs_RQ = None, hs_Patroni = None, hs_Postgres = None,
     hs_Redis = None, hs_Sentinel = None, hs_PatroniRole = []\<rparr>"

text \<open>The closure \<open>boolTransition\<close>; the format strings end in the host name.\<close>

definition boolTransition ::
  "heartbeat_input \<Rightarrow> bool option \<Rightarrow> bool \<Rightarrow> string \<Rightarrow> string \<Rightarrow> string \<Rightarrow> string \<Rightarrow> event list" where
  "boolTransition hb prev cur startCode stopCode startMsg stopMsg = (case prev of
      None \<Rightarrow> []
    | Some p \<Rightarrow>
        if p = cur then []
        else if cur then
          [Node (hb_NodeID hb) (Cluster (hb_ClusterID hb)
             (New_event ''service'' ''info'' startCode (startMsg @ hb_Hostname hb) ActorSystem))]
        else
          [Node (hb_NodeID hb) (Cluster (hb_ClusterID hb)
             (New_event ''service'' ''error'' stopCode (stopMsg @ hb_Hostname hb) ActorSystem))])"

definition arrow :: string where
  "arrow = [CHR '' '', CHR 0xE2, CHR 0x86, CHR 0x92, CHR '' '']"

definition Process :: "heartbeat_state \<Rightarrow> heartbeat_input \<Rightarrow> event list" where
  "Process prev hb =
     boolTransition hb (hs_Netbox prev) (hb_Netbox hb) ''NBC-SVC-001'' ''NBC-SVC-002''
       ''NetBox started on '' ''NetBox stopped on ''
   @ boolTransition hb (hs_RQ prev) (hb_RQ hb) ''NBC-SVC-003'' ''NBC-SVC-004''
       ''RQ worker started on '' ''RQ worker stopped on ''
   @ boolTransition hb (hs_Patroni prev) (hb_Patroni hb) ''NBC-SVC-005'' ''NBC-SVC-006''
       ''Patroni started on '' ''Patroni stopped on ''
   @ boolTransition hb (hs_Postgres prev) (hb_Postgres hb) ''NBC-SVC-007'' ''NBC-SVC-008''
       ''PostgreSQL became ready on '' ''PostgreSQL became unavailable on ''
   @ boolTransition hb (hs_Redis prev) (hb_Redis hb) ''NBC-SVC-009'' ''NBC-SVC-010''
       ''Redis started on '' ''Redis stopped on ''
   @ boolTransition hb (hs_Sentinel prev) (hb_Sentinel hb) ''NBC-SVC-011'' ''NBC-SVC-012''
       ''Sentinel started on '' ''Sentinel stopped on ''
   @ (if hs_PatroniRole prev \<noteq> [] \<and> hb_PatroniRole hb \<noteq> [] \<and> hs_PatroniRole prev \<noteq> hb_PatroniRole hb
      then [Meta ''new_role'' (hb_PatroniRole hb) (Meta ''prev_role'' (hs_PatroniRole prev)
             (Node (hb_NodeID hb) (Cluster (hb_ClusterID hb)
               (New_event ''ha'' ''info'' ''NBC-HA-006''
                 (''Patroni role changed on '' @ hb_Hostname hb @ '': '' @ hs_PatroniRole prev
                    @ arrow @ hb_PatroniRole hb) ActorSystem))))]
      else [])"

definition Update :: "heartbeat_state \<Rightarrow> heartbeat_input \<Rightarrow> heartbeat_state" where
  "Update s hb = \<lparr>hs_Netbox = Some (hb_Netbox hb), hs_RQ = Some (hb_RQ hb),
     hs_Patroni = Some (hb_Patroni hb), hs_Postgres = Some (hb_Postgres hb),
     hs_Redis = Some (hb_Redis hb), hs_Sentinel = Some (hb_Sentinel hb),
     hs_PatroniRole = hb_PatroniRole hb\<rparr>"

text \<open>A session's heartbeats in order: each is processed against the state the one before left.\<close>

fun process_all :: "heartbeat_state \<Rightarrow> heartbeat_input list \<Rightarrow> event list" where
  "process_all s [] = []"
| "process_all s (hb # hbs) = Process s hb @ process_all (Update s hb) hbs"

lemmas event_defs [conductor_defs] =
  New_event_def Cluster_def Node_def Meta_def ActorSystem_def

section \<open>What they promise\<close>

lemma event_fields [simp]:
  "ev_Code (Node i e) = ev_Code e" "ev_Code (Cluster i e) = ev_Code e" "ev_Code (Meta k v e) = ev_Code e"
  "ev_Code (New_event c s k m a) = k" "ev_Severity (Node i e) = ev_Severity e"
  "ev_Severity (Cluster i e) = ev_Severity e" "ev_Severity (New_event c s k m a) = s"
  "ev_Severity (Meta k v e) = ev_Severity e"
  "ev_Category (Node i e) = ev_Category e" "ev_Category (Cluster i e) = ev_Category e"
  "ev_Category (New_event c s k m a) = c" "ev_Category (Meta k v e) = ev_Category e"
  "ev_NodeID (Node i e) = Some i" "ev_ClusterID (Cluster i e) = Some i"
  "ev_ClusterID (Node j e) = ev_ClusterID e" "ev_NodeID (Cluster j e) = ev_NodeID e"
  "ev_ClusterID (Meta k v e) = ev_ClusterID e" "ev_NodeID (Meta k v e) = ev_NodeID e"
  by (simp_all add: event_defs)

text \<open>The codes of one service among a session's events.\<close>

definition codes_in :: "string \<Rightarrow> string \<Rightarrow> event list \<Rightarrow> bool list" where
  "codes_in start stop es =
     map (\<lambda>e. ev_Code e = start) (filter (\<lambda>e. ev_Code e = start \<or> ev_Code e = stop) es)"

fun alternates :: "bool \<Rightarrow> bool list \<Rightarrow> bool" where
  "alternates b [] = True"
| "alternates b (x # xs) = (x \<noteq> b \<and> alternates x xs)"

lemma codes_in_append: "codes_in a b (xs @ ys) = codes_in a b xs @ codes_in a b ys"
  by (simp add: codes_in_def)

lemma codes_in_boolTransition:
  "codes_in a b (boolTransition hb p cur k1 k2 m1 m2) =
     (case p of None \<Rightarrow> [] | Some q \<Rightarrow> if q = cur then []
        else if (if cur then k1 else k2) \<in> {a, b} then [(if cur then k1 else k2) = a] else [])"
  by (auto simp: boolTransition_def codes_in_def split: option.splits)

lemma netbox_codes:
  "codes_in ''NBC-SVC-001'' ''NBC-SVC-002'' (Process s hb) =
     (case hs_Netbox s of None \<Rightarrow> [] | Some p \<Rightarrow> if p = hb_Netbox hb then [] else [hb_Netbox hb])"
proof -
  have role: "codes_in ''NBC-SVC-001'' ''NBC-SVC-002'' (if b then [Meta k v (Meta k' v' (Node i (Cluster j
      (New_event c sv ''NBC-HA-006'' m a))))] else []) = []" for b k v k' v' i j c sv m a
    by (simp add: codes_in_def)
  show ?thesis
    by (simp only: Process_def codes_in_append codes_in_boolTransition role)
       (simp split: option.split)
qed

lemma netbox_alternates:
  "hs_Netbox s = Some b \<Longrightarrow>
   alternates b (codes_in ''NBC-SVC-001'' ''NBC-SVC-002'' (process_all s hbs))
   \<and> last (b # codes_in ''NBC-SVC-001'' ''NBC-SVC-002'' (process_all s hbs)) = last (b # map hb_Netbox hbs)"
proof (induction hbs arbitrary: s b)
  case Nil
  then show ?case by (simp add: codes_in_def)
next
  case (Cons hb hbs)
  have "hs_Netbox (Update s hb) = Some (hb_Netbox hb)" by (simp add: Update_def)
  from Cons.IH [OF this] Cons.prems show ?case
    by (cases "b = hb_Netbox hb") (simp_all add: codes_in_append netbox_codes)
qed

text \<open>
  over any sequence of heartbeats of one session, the NetBox events raised after the first
  heartbeat strictly alternate between started and stopped, and the last of them (or the first
  heartbeat, when there is none) says what the last heartbeat reported: no transition is missed, none
  is reported twice, and the first heartbeat raises none.
\<close>

theorem heartbeat_events_follow_netbox:
  "alternates (hb_Netbox hb) (codes_in ''NBC-SVC-001'' ''NBC-SVC-002'' (process_all empty_heartbeat_state (hb # hbs)))
   \<and> last (hb_Netbox hb # codes_in ''NBC-SVC-001'' ''NBC-SVC-002'' (process_all empty_heartbeat_state (hb # hbs)))
       = last (map hb_Netbox (hb # hbs))
   \<and> Process empty_heartbeat_state hb = []"
proof -
  have "Process empty_heartbeat_state hb = []"
    by (simp add: Process_def boolTransition_def empty_heartbeat_state_def)
  moreover have "hs_Netbox (Update empty_heartbeat_state hb) = Some (hb_Netbox hb)"
    by (simp add: Update_def)
  ultimately show ?thesis
    using netbox_alternates [of "Update empty_heartbeat_state hb" "hb_Netbox hb" hbs]
    by (simp add: codes_in_append)
qed

end
