(* ===== verification/Failover.thy ===== *)
theory Failover
  imports NodeState Events
begin

text \<open>
  The failover manager of \<open>internal/server/failover/manager.go\<close>: the decisions of failover, failback,
  maintenance moves and the topology check, with every event, SSE message, task dispatch and Patroni
  REST call they make, in order.

  What a handler reads and what answers its calls is a \<open>world\<close>: the node and cluster tables (and
  whether the queries fail), the sessions of the hub, the outcome of a dispatch or an enqueue for each
  node and task, and the reply of each node's Patroni REST API.  Within one handler run the world does
  not change.  Logging is left out; the basic-auth credentials of the REST calls are part of the world.
\<close>

datatype ha_task =
    StartNetbox
  | StopNetbox
  | UpdateDBHost string bool
  | UpdateRedisHost string bool

datatype payload = PBool bool | PStr string | PInt int | PUuid uuid

datatype effect =
    EmitHA event
  | Publish string uuid "payload gomap"
  | Dispatch uuid ha_task
  | Enqueue uuid ha_task
  | PatroniPost string string "string gomap"

datatype rest_reply = RestError string | RestStatus int string

record session_view =
  sv_LastSeen :: instant
  sv_NetboxRunning :: "bool option"

record world =
  w_now :: instant
  w_clusters :: "uuid \<rightharpoonup> cluster"
  w_nodes :: "node list"
  w_list_fails :: bool
  w_get_fails :: bool
  w_session :: "uuid \<rightharpoonup> session_view"
  w_dispatch :: "uuid \<Rightarrow> ha_task \<Rightarrow> string option"
  w_rest :: "string \<Rightarrow> string \<Rightarrow> rest_reply"

definition nodes_of :: "world \<Rightarrow> uuid \<Rightarrow> node list option" where
  "nodes_of w c = (if w_list_fails w then None else Some (ListByCluster (w_nodes w) c))"

definition node_of :: "world \<Rightarrow> uuid \<Rightarrow> node option" where
  "node_of w i = (if w_get_fails w then None else GetByID (w_nodes w) i)"

text \<open>A list whose error the code ignores (\<open>nodes, _ := ...\<close>) reads as nil.\<close>

definition nodes_or_nil :: "world \<Rightarrow> uuid \<Rightarrow> node list" where
  "nodes_or_nil w c = (case nodes_of w c of None \<Rightarrow> [] | Some ns \<Rightarrow> ns)"

definition IsConnected :: "world \<Rightarrow> uuid \<Rightarrow> bool" where
  "IsConnected w i = (w_session w i \<noteq> None)"

section \<open>Events and messages\<close>

record ha_params =
  ha_ClusterID :: uuid
  ha_EventType :: string
  ha_Trigger :: string
  ha_FailedNodeID :: "uuid option"
  ha_FailedNodeName :: string
  ha_TargetNodeID :: "uuid option"
  ha_TargetNodeName :: string
  ha_Success :: bool
  ha_Reason :: string

definition ha_code :: "string \<Rightarrow> bool \<Rightarrow> string \<times> string" where
  "ha_code eventType success =
     (if eventType = ''failover_initiated'' then (''NBC-HA-001'', ''warn'')
      else if eventType = ''failover'' \<and> success then (''NBC-HA-002'', ''info'')
      else if eventType = ''failover'' \<and> \<not> success then (''NBC-HA-003'', ''error'')
      else if eventType = ''failback_initiated'' then (''NBC-HA-004'', ''info'')
      else if eventType = ''failback'' \<and> success then (''NBC-HA-005'', ''info'')
      else if eventType = ''failback'' \<and> \<not> success then (''NBC-HA-003'', ''error'')
      else if eventType = ''maintenance_failover'' then (''NBC-HA-007'', ''warn'')
      else (''NBC-HA-001'', ''warn''))"

definition emitHAEvent :: "ha_params \<Rightarrow> effect" where
  "emitHAEvent p =
     (let (code, severity) = ha_code (ha_EventType p) (ha_Success p);
          parts = (if ha_FailedNodeName p \<noteq> [] then [''from='' @ ha_FailedNodeName p] else [])
                @ (if ha_TargetNodeName p \<noteq> [] then [''to='' @ ha_TargetNodeName p] else [])
                @ (if ha_Trigger p \<noteq> [] then [''trigger='' @ ha_Trigger p] else [])
                @ (if ha_Reason p \<noteq> [] then [''reason='' @ ha_Reason p] else []);
          joined = join '' '' parts;
          msg = (if joined = [] then ha_EventType p else joined);
          nodeID = (if ha_FailedNodeID p = None then ha_TargetNodeID p else ha_FailedNodeID p);
          b = Cluster (ha_ClusterID p) (New_event ''ha'' severity code msg ActorSystem)
      in EmitHA (case nodeID of None \<Rightarrow> b | Some i \<Rightarrow> Node i b))"

text \<open>\<open>publish\<close> sets \<open>cluster_id\<close> and \<open>node_id\<close> in the payload.\<close>

definition publish :: "uuid \<Rightarrow> uuid \<Rightarrow> string \<Rightarrow> payload gomap \<Rightarrow> effect" where
  "publish clusterID nodeID eventType payload =
     Publish eventType nodeID
       (AList.update ''node_id'' (PUuid nodeID) (AList.update ''cluster_id'' (PUuid clusterID) payload))"

section \<open>Helpers\<close>

definition ip_of :: "node \<Rightarrow> string" where
  "ip_of n = fst (cut (nd_IPAddress n) ''/'')"

definition eligible :: "world \<Rightarrow> uuid \<Rightarrow> node \<Rightarrow> bool" where
  "eligible w excludeNodeID n =
     (nd_ID n \<noteq> excludeNodeID
      \<and> \<not> (nd_MaintenanceMode n \<or> nd_SuppressAutoStart n \<or> \<not> IsAppRole (nd_Role n))
      \<and> IsConnected w (nd_ID n))"

text \<open>The test of the second loop of \<open>bestCandidate\<close>: a node whose Patroni state parses and who is healthy.\<close>

definition healthy_candidate :: "node \<Rightarrow> bool" where
  "healthy_candidate n = (case ExtractPatroniRoleStrict (nd_PatroniState n) of
      Inl _ \<Rightarrow> False
    | Inr patroniRole \<Rightarrow>
        ComputeNodeHealth (nd_Role n) ''connected'' (nd_NetboxRunning n) (nd_RQRunning n) patroniRole False
          = ''healthy'')"

text \<open>\<open>None\<close> is a query error; \<open>Some None\<close> is a nil candidate.\<close>

definition bestCandidate :: "world \<Rightarrow> uuid \<Rightarrow> uuid \<Rightarrow> node option option" where
  "bestCandidate w clusterID excludeNodeID = (case nodes_of w clusterID of
      None \<Rightarrow> None
    | Some nodes \<Rightarrow>
        (case filter (eligible w excludeNodeID) nodes of
           [] \<Rightarrow> Some None
         | e # es \<Rightarrow>
            (case find healthy_candidate (e # es) of
               Some n \<Rightarrow> Some (Some n)
             | None \<Rightarrow> Some (Some e))))"

text \<open>The reply to a POST, as \<open>triggerPatroniSwitchover\<close> reads it: an error text, or success.\<close>

definition rest_error :: "string \<Rightarrow> rest_reply \<Rightarrow> string option" where
  "rest_error what reply = (case reply of
      RestError e \<Rightarrow> Some (''patroni '' @ what @ '' request: '' @ e)
    | RestStatus status out \<Rightarrow>
        if status \<noteq> 200 then Some (''patroni '' @ what @ '' returned '' @ itoa status @ '': '' @ trim_space out)
        else None)"

definition connected_primary :: "world \<Rightarrow> node list \<Rightarrow> node option" where
  "connected_primary w nodes =
     find (\<lambda>n. IsConnected w (nd_ID n) \<and> is_primary_role (ExtractPatroniRole (nd_PatroniState n))) nodes"

definition hostname_or_id :: "(uuid \<Rightarrow> string) \<Rightarrow> node list \<Rightarrow> uuid \<Rightarrow> string" where
  "hostname_or_id uuidString nodes i =
     (case find (\<lambda>n. nd_ID n = i) nodes of None \<Rightarrow> uuidString i | Some n \<Rightarrow> nd_Hostname n)"

text \<open>
  The result is the REST calls made, whether a switchover was triggered, and the error.  The string
  form of an identifier, which names a failing node the list does not hold, is a parameter.
\<close>

definition triggerPatroniSwitchover ::
  "(uuid \<Rightarrow> string) \<Rightarrow> world \<Rightarrow> cluster \<Rightarrow> node \<Rightarrow> node list \<Rightarrow> uuid \<Rightarrow> effect list \<times> bool \<times> string option" where
  "triggerPatroniSwitchover uuidString w cluster candidate nodes failingNodeID =
     (if \<not> cl_PatroniConfigured cluster \<or> cl_Mode cluster \<noteq> ''active_standby'' then ([], False, None)
      else case ExtractPatroniRoleStrict (nd_PatroniState candidate) of
        Inl _ \<Rightarrow> ([], False, None)
      | Inr candidateRole \<Rightarrow>
          if candidateRole = ''primary'' \<or> candidateRole = ''master'' \<or> candidateRole = [] then ([], False, None)
          else
           (case connected_primary w nodes of
              Some primary \<Rightarrow>
                let call = PatroniPost (ip_of primary) ''/switchover''
                      [(''leader'', nd_Hostname primary), (''candidate'', nd_Hostname candidate)];
                    err = rest_error ''switchover'' (w_rest w (ip_of primary) ''/switchover'')
                in ([call], err = None, err)
            | None \<Rightarrow>
                let call = PatroniPost (ip_of candidate) ''/failover''
                      [(''master'', hostname_or_id uuidString nodes failingNodeID), (''candidate'', nd_Hostname candidate)];
                    err = rest_error ''failover'' (w_rest w (ip_of candidate) ''/failover'')
                in ([call], err = None, err)))"

definition dispatchDBHostUpdate :: "world \<Rightarrow> node list \<Rightarrow> string \<Rightarrow> effect list" where
  "dispatchDBHostUpdate w nodes newHost =
     map (\<lambda>n. Dispatch (nd_ID n) (UpdateDBHost newHost False)) (filter (\<lambda>n. IsConnected w (nd_ID n)) nodes)"

definition dispatchRedisHostUpdate :: "world \<Rightarrow> node list \<Rightarrow> string \<Rightarrow> effect list" where
  "dispatchRedisHostUpdate w nodes newMasterIP =
     map (\<lambda>n. Dispatch (nd_ID n) (UpdateRedisHost newMasterIP True))
       (filter (\<lambda>n. IsConnected w (nd_ID n) \<and> \<not> (nd_MaintenanceMode n \<or> \<not> IsAppRole (nd_Role n))) nodes)"

text \<open>The host updates that follow a triggered switchover on an always-available app tier.\<close>

definition host_updates :: "world \<Rightarrow> cluster \<Rightarrow> bool \<Rightarrow> node list \<Rightarrow> node \<Rightarrow> effect list" where
  "host_updates w cluster triggered nodes target =
     (if triggered \<and> cl_AppTierAlwaysAvailable cluster
      then dispatchDBHostUpdate w nodes (ip_of target) @ dispatchRedisHostUpdate w nodes (ip_of target)
      else [])"

text \<open>A dispatch is an effect whether it succeeds or not; its error decides what follows.\<close>

definition dispatchServiceTask :: "world \<Rightarrow> node \<Rightarrow> ha_task \<Rightarrow> effect \<times> string option" where
  "dispatchServiceTask w n t = (Dispatch (nd_ID n) t, w_dispatch w (nd_ID n) t)"

definition enqueueForReconnect :: "node \<Rightarrow> ha_task \<Rightarrow> effect" where
  "enqueueForReconnect n t = Enqueue (nd_ID n) t"

section \<open>Failover\<close>

definition heartbeatFreshness :: duration where
  "heartbeatFreshness = 15 * second"

definition recovered :: "world \<Rightarrow> uuid \<Rightarrow> bool" where
  "recovered w i = (case w_session w i of
      None \<Rightarrow> False
    | Some sess \<Rightarrow> w_now w - sv_LastSeen sess \<le> heartbeatFreshness \<and> is_true (sv_NetboxRunning sess))"

text \<open>A connected node of higher priority runs NetBox: the failed node was the standby.\<close>

definition was_standby :: "world \<Rightarrow> uuid \<Rightarrow> node \<Rightarrow> bool" where
  "was_standby w clusterID failedNode = (case nodes_of w clusterID of
      None \<Rightarrow> False
    | Some nodes \<Rightarrow> list_ex (\<lambda>n. nd_ID n \<noteq> nd_ID failedNode
         \<and> nd_FailoverPriority n > nd_FailoverPriority failedNode
         \<and> IsConnected w (nd_ID n) \<and> is_true (nd_NetboxRunning n)) nodes)"

text \<open>The guards of \<open>attemptFailover\<close>, down to the choice of a candidate: the cluster and failed node
  to act on, or nothing.\<close>

definition failover_guards :: "world \<Rightarrow> uuid \<Rightarrow> uuid \<Rightarrow> bool \<Rightarrow> (cluster \<times> node) option" where
  "failover_guards w failedNodeID clusterID checkNetboxRunning =
     (if recovered w failedNodeID then None
      else case w_clusters w clusterID of
        None \<Rightarrow> None
      | Some cluster \<Rightarrow>
          if \<not> cl_AutoFailover cluster \<or> cl_Mode cluster \<noteq> ''active_standby'' then None
          else case node_of w failedNodeID of
            None \<Rightarrow> None
          | Some failedNode \<Rightarrow>
              if checkNetboxRunning \<and> \<not> is_true (nd_NetboxRunning failedNode) then None
              else if nd_MaintenanceMode failedNode then None
              else if was_standby w clusterID failedNode then None
              else Some (cluster, failedNode))"

definition no_candidate_reason :: string where
  "no_candidate_reason = ''no connected candidate node available''"

definition failover_event :: "uuid \<Rightarrow> string \<Rightarrow> node \<Rightarrow> node option \<Rightarrow> string \<Rightarrow> bool \<Rightarrow> string \<Rightarrow> effect" where
  "failover_event clusterID trigger failedNode target eventType success reason =
     emitHAEvent \<lparr>ha_ClusterID = clusterID, ha_EventType = eventType, ha_Trigger = trigger,
       ha_FailedNodeID = Some (nd_ID failedNode), ha_FailedNodeName = nd_Hostname failedNode,
       ha_TargetNodeID = map_option nd_ID target,
       ha_TargetNodeName = (case target of None \<Rightarrow> [] | Some t \<Rightarrow> nd_Hostname t),
       ha_Success = success, ha_Reason = reason\<rparr>"

text \<open>
  The move to a chosen candidate: announce it, move the database primary, queue the stop of the
  failed node, then start the candidate.  The second result is whether the start was dispatched.
\<close>

definition run_failover ::
  "(uuid \<Rightarrow> string) \<Rightarrow> world \<Rightarrow> cluster \<Rightarrow> node \<Rightarrow> node \<Rightarrow> uuid \<Rightarrow> uuid \<Rightarrow> string \<Rightarrow> effect list \<times> bool" where
  "run_failover uuidString w cluster failedNode candidate failedNodeID clusterID trigger =
     (let allNodes = nodes_or_nil w clusterID;
          (calls, triggered, _) = triggerPatroniSwitchover uuidString w cluster candidate allNodes failedNodeID;
          (start, err) = dispatchServiceTask w candidate StartNetbox;
          pre = [failover_event clusterID trigger failedNode (Some candidate) ''failover_initiated'' False []]
              @ calls @ host_updates w cluster triggered allNodes candidate
              @ [enqueueForReconnect failedNode StopNetbox, start]
      in case err of
           Some e \<Rightarrow>
             (pre @ [failover_event clusterID trigger failedNode (Some candidate) ''failover'' False (''dispatch error: '' @ e),
                     publish clusterID failedNodeID ''failover.triggered''
                       [(''success'', PBool False), (''reason'', PStr (''dispatch error: '' @ e)),
                        (''candidate'', PStr (nd_Hostname candidate))]], False)
         | None \<Rightarrow>
             (pre @ [failover_event clusterID trigger failedNode (Some candidate) ''failover'' True [],
                     publish clusterID failedNodeID ''failover.triggered''
                       [(''success'', PBool True), (''failed_node'', PStr (nd_Hostname failedNode)),
                        (''candidate_node'', PStr (nd_Hostname candidate)),
                        (''candidate_priority'', PInt (nd_FailoverPriority candidate))]], True))"

text \<open>
  \<open>attemptFailover\<close> after it has taken its timer out of the map: its effects, and whether it ends by
  arming a failback timer for the failed node (\<open>OnNodeConnect\<close>).
\<close>

definition attemptFailover ::
  "(uuid \<Rightarrow> string) \<Rightarrow> world \<Rightarrow> uuid \<Rightarrow> uuid \<Rightarrow> bool \<Rightarrow> string \<Rightarrow> effect list \<times> bool" where
  "attemptFailover uuidString w failedNodeID clusterID checkNetboxRunning trigger =
     (case failover_guards w failedNodeID clusterID checkNetboxRunning of
        None \<Rightarrow> ([], False)
      | Some (cluster, failedNode) \<Rightarrow>
         (case bestCandidate w clusterID failedNodeID of
            None \<Rightarrow> ([], False)
          | Some None \<Rightarrow>
              ([failover_event clusterID trigger failedNode None ''failover'' False no_candidate_reason,
                publish clusterID failedNodeID ''failover.triggered''
                  [(''success'', PBool False), (''reason'', PStr no_candidate_reason)]], False)
          | Some (Some candidate) \<Rightarrow>
             (case run_failover uuidString w cluster failedNode candidate failedNodeID clusterID trigger of
                (effects, started) \<Rightarrow> (effects, started \<and> IsConnected w failedNodeID))))"

section \<open>Failback\<close>

definition failback_event :: "cluster \<Rightarrow> node \<Rightarrow> node \<Rightarrow> bool \<Rightarrow> string \<Rightarrow> effect" where
  "failback_event cluster source target success reason =
     emitHAEvent \<lparr>ha_ClusterID = cl_ID cluster, ha_EventType = ''failback'', ha_Trigger = ''reconnect'',
       ha_FailedNodeID = Some (nd_ID source), ha_FailedNodeName = nd_Hostname source,
       ha_TargetNodeID = Some (nd_ID target), ha_TargetNodeName = nd_Hostname target,
       ha_Success = success, ha_Reason = reason\<rparr>"

definition failback_message :: "cluster \<Rightarrow> node \<Rightarrow> node \<Rightarrow> effect" where
  "failback_message cluster source target =
     publish (cl_ID cluster) (nd_ID target) ''failback.triggered''
       [(''from_node'', PStr (nd_Hostname source)), (''from_priority'', PInt (nd_FailoverPriority source)),
        (''to_node'', PStr (nd_Hostname target)), (''to_priority'', PInt (nd_FailoverPriority target))]"

definition attemptFailbackAlwaysAvailable ::
  "(uuid \<Rightarrow> string) \<Rightarrow> world \<Rightarrow> cluster \<Rightarrow> node \<Rightarrow> node list \<Rightarrow> effect list" where
  "attemptFailbackAlwaysAvailable uuidString w cluster reconnected nodes =
     (let currentPrimary = find (\<lambda>n. nd_ID n \<noteq> nd_ID reconnected
             \<and> is_primary_role (ExtractPatroniRole (nd_PatroniState n))) nodes;
          start = (let hosts = (case currentPrimary of
                       None \<Rightarrow> []
                     | Some p \<Rightarrow> dispatchDBHostUpdate w [reconnected] (ip_of p)
                               @ dispatchRedisHostUpdate w [reconnected] (ip_of p))
                   in if is_true (nd_NetboxRunning reconnected) then []
                      else hosts @ [fst (dispatchServiceTask w reconnected StartNetbox)])
      in case currentPrimary of
           None \<Rightarrow> start
         | Some p \<Rightarrow>
             if nd_FailoverPriority reconnected > nd_FailoverPriority p then
               (case triggerPatroniSwitchover uuidString w cluster reconnected nodes (nd_ID p) of
                  (calls, triggered, _) \<Rightarrow>
                    calls
                    @ (if triggered then dispatchDBHostUpdate w nodes (ip_of reconnected)
                                       @ dispatchRedisHostUpdate w nodes (ip_of reconnected) else [])
                    @ [failback_event cluster p reconnected triggered [], failback_message cluster p reconnected])
             else start)"

text \<open>The connected node of highest priority; the first one in list order among equals.\<close>

fun highest_connected :: "world \<Rightarrow> node option \<Rightarrow> node list \<Rightarrow> node option" where
  "highest_connected w best [] = best"
| "highest_connected w best (n # ns) =
     (if \<not> IsConnected w (nd_ID n) then highest_connected w best ns
      else highest_connected w
        (case best of None \<Rightarrow> Some n
         | Some b \<Rightarrow> if nd_FailoverPriority n > nd_FailoverPriority b then Some n else Some b) ns)"

definition current_active :: "world \<Rightarrow> node \<Rightarrow> node list \<Rightarrow> node option" where
  "current_active w reconnected nodes =
     find (\<lambda>n. nd_ID n \<noteq> nd_ID reconnected \<and> is_true (nd_NetboxRunning n) \<and> IsConnected w (nd_ID n)) nodes"

definition attemptFailbackActiveStandby ::
  "(uuid \<Rightarrow> string) \<Rightarrow> world \<Rightarrow> cluster \<Rightarrow> node \<Rightarrow> node list \<Rightarrow> effect list" where
  "attemptFailbackActiveStandby uuidString w cluster reconnected nodes =
     (case current_active w reconnected nodes of
        None \<Rightarrow>
          if \<not> cl_AutoFailover cluster then []
          else (case highest_connected w None nodes of
                  None \<Rightarrow> []
                | Some best \<Rightarrow> [fst (dispatchServiceTask w best StartNetbox)])
      | Some active \<Rightarrow>
          if nd_FailoverPriority reconnected \<le> nd_FailoverPriority active then []
          else
            let initiated = emitHAEvent \<lparr>ha_ClusterID = cl_ID cluster, ha_EventType = ''failback_initiated'',
                   ha_Trigger = ''reconnect'', ha_FailedNodeID = None, ha_FailedNodeName = [],
                   ha_TargetNodeID = Some (nd_ID reconnected), ha_TargetNodeName = nd_Hostname reconnected,
                   ha_Success = False, ha_Reason = []\<rparr>;
                (calls, triggered, _) = triggerPatroniSwitchover uuidString w cluster reconnected nodes (nd_ID active);
                (stop, stopErr) = dispatchServiceTask w active StopNetbox;
                (start, startErr) = dispatchServiceTask w reconnected StartNetbox;
                pre = initiated # calls @ host_updates w cluster triggered nodes reconnected @ [stop]
            in case stopErr of
                 Some e \<Rightarrow> pre @ [failback_event cluster active reconnected False (''stop dispatch failed: '' @ e)]
               | None \<Rightarrow>
                  (case startErr of
                     Some e \<Rightarrow> pre @ [start, failback_event cluster active reconnected False (''start dispatch failed: '' @ e)]
                   | None \<Rightarrow> pre @ [start, failback_event cluster active reconnected True [],
                                     failback_message cluster active reconnected]))"

text \<open>\<open>attemptFailback\<close> after it has taken its timer out of the map.\<close>

definition attemptFailback :: "(uuid \<Rightarrow> string) \<Rightarrow> world \<Rightarrow> uuid \<Rightarrow> uuid \<Rightarrow> effect list" where
  "attemptFailback uuidString w nodeID clusterID =
     (if \<not> IsConnected w nodeID then []
      else case w_clusters w clusterID of
        None \<Rightarrow> []
      | Some cluster \<Rightarrow>
          if \<not> cl_AutoFailback cluster \<or> cl_Mode cluster \<noteq> ''active_standby'' then []
          else case node_of w nodeID of
            None \<Rightarrow> []
          | Some reconnected \<Rightarrow>
              if nd_MaintenanceMode reconnected \<or> nd_SuppressAutoStart reconnected then []
              else if \<not> IsAppRole (nd_Role reconnected) then []
              else case nodes_of w clusterID of
                None \<Rightarrow> []
              | Some nodes \<Rightarrow>
                  if cl_AppTierAlwaysAvailable cluster
                  then attemptFailbackAlwaysAvailable uuidString w cluster reconnected nodes
                  else attemptFailbackActiveStandby uuidString w cluster reconnected nodes)"

section \<open>Maintenance and topology\<close>

definition maintenance_event :: "uuid \<Rightarrow> node \<Rightarrow> node option \<Rightarrow> bool \<Rightarrow> string \<Rightarrow> effect" where
  "maintenance_event clusterID node target success reason =
     failover_event clusterID ''maintenance'' node target ''maintenance_failover'' success reason"

definition OnMaintenanceEnabled :: "(uuid \<Rightarrow> string) \<Rightarrow> world \<Rightarrow> uuid \<Rightarrow> uuid \<Rightarrow> effect list" where
  "OnMaintenanceEnabled uuidString w nodeID clusterID =
     (case w_clusters w clusterID of
        None \<Rightarrow> []
      | Some cluster \<Rightarrow>
          if \<not> cl_FailoverOnMaintenance cluster \<or> cl_Mode cluster \<noteq> ''active_standby'' then []
          else case node_of w nodeID of
            None \<Rightarrow> []
          | Some node \<Rightarrow>
              if \<not> is_true (nd_NetboxRunning node) then []
              else case bestCandidate w clusterID nodeID of
                Some (Some candidate) \<Rightarrow>
                  let nodes = nodes_or_nil w clusterID;
                      (calls, triggered, _) = triggerPatroniSwitchover uuidString w cluster candidate nodes nodeID;
                      (stop, stopErr) = dispatchServiceTask w node StopNetbox;
                      (start, startErr) = dispatchServiceTask w candidate StartNetbox;
                      pre = calls @ host_updates w cluster triggered nodes candidate @ [stop]
                  in (case stopErr of
                        Some e \<Rightarrow> pre @ [maintenance_event clusterID node (Some candidate) False (''stop dispatch failed: '' @ e)]
                      | None \<Rightarrow>
                         (case startErr of
                            Some e \<Rightarrow> pre @ [start, maintenance_event clusterID node (Some candidate) False (''start dispatch failed: '' @ e)]
                          | None \<Rightarrow> pre @ [start, maintenance_event clusterID node (Some candidate) True [],
                                publish clusterID nodeID ''failover.triggered''
                                  [(''success'', PBool True), (''reason'', PStr ''maintenance_mode''),
                                   (''failed_node'', PStr (nd_Hostname node)),
                                   (''candidate_node'', PStr (nd_Hostname candidate))]]))
              | _ \<Rightarrow> [maintenance_event clusterID node None False no_candidate_reason])"

text \<open>The last node Patroni reports as leader, connected or not, as the loop leaves \<open>currentLeader\<close>.\<close>

definition reported_leader :: "node list \<Rightarrow> node option" where
  "reported_leader nodes =
     find (\<lambda>n. is_primary_role (ExtractPatroniRole (nd_PatroniState n))) (rev nodes)"

definition CheckTopology :: "(uuid \<Rightarrow> string) \<Rightarrow> world \<Rightarrow> uuid \<Rightarrow> effect list" where
  "CheckTopology uuidString w clusterID =
     (case w_clusters w clusterID of
        None \<Rightarrow> []
      | Some cluster \<Rightarrow>
          if \<not> cl_PatroniConfigured cluster \<or> cl_Mode cluster \<noteq> ''active_standby'' then []
          else case nodes_of w clusterID of
            None \<Rightarrow> []
          | Some nodes \<Rightarrow>
             (case (reported_leader nodes, highest_connected w None nodes) of
                (Some currentLeader, Some highestPriority) \<Rightarrow>
                  if nd_ID currentLeader = nd_ID highestPriority then []
                  else fst (triggerPatroniSwitchover uuidString w cluster highestPriority nodes (nd_ID currentLeader))
              | _ \<Rightarrow> []))"

lemmas failover_parts = failover_event_def failback_event_def failback_message_def maintenance_event_def
  emitHAEvent_def publish_def

section \<open>The choice of a candidate\<close>

lemma bestCandidate_cases:
  "bestCandidate w c x = Some r \<longleftrightarrow> (\<exists>ns. nodes_of w c = Some ns
     \<and> r = (let es = filter (eligible w x) ns in
            case find healthy_candidate es of Some n \<Rightarrow> Some n | None \<Rightarrow> (case es of [] \<Rightarrow> None | e # _ \<Rightarrow> Some e)))"
  by (auto simp: bestCandidate_def Let_def split: option.splits list.splits)

lemma nodes_of_desc:
  "nodes_of w c = Some ns \<Longrightarrow> sorted_wrt (\<lambda>a b. nd_FailoverPriority b \<le> nd_FailoverPriority a) ns"
  by (auto simp: nodes_of_def ListByCluster_desc split: if_splits)

text \<open>
  C36: the candidate is a connected app-tier node of the cluster, other than the excluded one, neither
  in maintenance nor held back; there is none only when no node qualifies; when some eligible node is
  healthy the candidate is healthy and of the highest priority among the healthy ones, and otherwise
  of the highest priority among the eligible ones.  So health is decided before the priority, across all priorities, where the
  comment of \<open>bestCandidate\<close> has the priority first (\<open>health_before_priority\<close>).
\<close>

theorem bestCandidate_spec:
  assumes "bestCandidate w c x = Some r"
  shows "case r of
      None \<Rightarrow> \<not> (\<exists>n\<in>set (w_nodes w). nd_ClusterID n = c \<and> eligible w x n)
    | Some n \<Rightarrow> n \<in> set (w_nodes w) \<and> nd_ClusterID n = c \<and> eligible w x n
        \<and> (\<forall>m\<in>set (w_nodes w). nd_ClusterID m = c \<longrightarrow> eligible w x m \<longrightarrow>
             (healthy_candidate m \<longrightarrow> healthy_candidate n)
           \<and> (healthy_candidate m \<or> \<not> healthy_candidate n \<longrightarrow> nd_FailoverPriority m \<le> nd_FailoverPriority n))"
proof -
  from assms obtain ns where ns: "nodes_of w c = Some ns"
    and r: "r = (let es = filter (eligible w x) ns in
            case find healthy_candidate es of Some n \<Rightarrow> Some n | None \<Rightarrow> (case es of [] \<Rightarrow> None | e # _ \<Rightarrow> Some e))"
    by (auto simp: bestCandidate_cases)
  let ?es = "filter (eligible w x) ns"
  have es: "m \<in> set ?es \<longleftrightarrow> m \<in> set (w_nodes w) \<and> nd_ClusterID m = c \<and> eligible w x m" for m
    using ns by (auto simp: nodes_of_def ListByCluster_set split: if_splits)
  have desc: "sorted_wrt (\<lambda>a b. nd_FailoverPriority b \<le> nd_FailoverPriority a) ?es"
    using nodes_of_desc [OF ns] by (rule sorted_wrt_filter)
  show ?thesis
  proof (cases "find healthy_candidate ?es")
    case None
    then have unhealthy: "\<not> healthy_candidate m" if "m \<in> set ?es" for m
      using that by (simp add: find_None_all)
    show ?thesis
    proof (cases ?es)
      case Nil
      then have "r = None" by (simp add: r)
      moreover have "m \<notin> set ?es" for m using Nil by simp
      ultimately show ?thesis using es by auto
    next
      case (Cons e es')
      then have "r = Some e" using None by (simp add: r Let_def)
      moreover have "nd_FailoverPriority m \<le> nd_FailoverPriority e" if "m \<in> set ?es" for m
        using desc that unfolding Cons by auto
      moreover have "e \<in> set ?es" unfolding Cons by simp
      ultimately show ?thesis using unhealthy unfolding es by auto
    qed
  next
    case (Some n)
    then have "r = Some n" by (simp add: r Let_def)
    moreover have n: "n \<in> set ?es" "healthy_candidate n" using find_Some_in [OF Some] by auto
    moreover have "nd_FailoverPriority m \<le> nd_FailoverPriority n" if "m \<in> set ?es" "healthy_candidate m" for m
      using find_desc_max [OF desc Some that] .
    ultimately show ?thesis unfolding es by auto
  qed
qed

end
