(* ===== verification/FailoverProps.thy ===== *)
theory FailoverProps
  imports Failover
begin

text \<open>
  What the failover manager's decisions guarantee: which starts and stops of NetBox a failover, a
  failback or a maintenance move sends, in which order and under which conditions, what it reports,
  and that it makes at most one call to Patroni.
\<close>

section \<open>Reading an effect list\<close>

text \<open>The starts and stops of NetBox in an effect list, and the codes of its high-availability events.\<close>

fun netbox_action :: "effect \<Rightarrow> bool" where
  "netbox_action (Dispatch _ StartNetbox) = True"
| "netbox_action (Dispatch _ StopNetbox) = True"
| "netbox_action (Enqueue _ _) = True"
| "netbox_action _ = False"

definition netbox_actions :: "effect list \<Rightarrow> effect list" where
  "netbox_actions es = filter netbox_action es"

fun event_code :: "effect \<Rightarrow> string option" where
  "event_code (EmitHA e) = Some (ev_Code e)"
| "event_code _ = None"

definition event_codes :: "effect list \<Rightarrow> string list" where
  "event_codes es = List.map_filter event_code es"

fun is_patroni_call :: "effect \<Rightarrow> bool" where
  "is_patroni_call (PatroniPost _ _ _) = True"
| "is_patroni_call _ = False"

lemma netbox_actions_simps [simp]:
  "netbox_actions [] = []"
  "netbox_actions (e # es) = (if netbox_action e then e # netbox_actions es else netbox_actions es)"
  "netbox_actions (xs @ ys) = netbox_actions xs @ netbox_actions ys"
  by (simp_all add: netbox_actions_def)

lemma event_codes_simps [simp]:
  "event_codes [] = []"
  "event_codes (e # es) = (case event_code e of None \<Rightarrow> event_codes es | Some c \<Rightarrow> c # event_codes es)"
  "event_codes (xs @ ys) = event_codes xs @ event_codes ys"
  by (simp_all add: event_codes_def List.map_filter_def split: option.split)

lemma action_in_set: "netbox_action e \<Longrightarrow> e \<in> set es \<longleftrightarrow> e \<in> set (netbox_actions es)"
  by (simp add: netbox_actions_def)

lemma emitHAEvent_shape: "\<exists>e. emitHAEvent p = EmitHA e \<and> ev_Code e = fst (ha_code (ha_EventType p) (ha_Success p))"
  by (auto simp: emitHAEvent_def Let_def Cluster_def Node_def New_event_def split: prod.splits option.splits)

lemma emitHAEvent_simps [simp]:
  "\<not> netbox_action (emitHAEvent p)" "\<not> is_patroni_call (emitHAEvent p)"
  "event_code (emitHAEvent p) = Some (fst (ha_code (ha_EventType p) (ha_Success p)))"
  using emitHAEvent_shape [of p] by auto

lemma publish_simps [simp]:
  "\<not> netbox_action (publish c i t p)" "\<not> is_patroni_call (publish c i t p)" "event_code (publish c i t p) = None"
  by (simp_all add: publish_def)

lemma failover_event_simps [simp]:
  "\<not> netbox_action (failover_event c t f g ty s r)" "\<not> is_patroni_call (failover_event c t f g ty s r)"
  "event_code (failover_event c t f g ty s r) = Some (fst (ha_code ty s))"
  by (simp_all add: failover_event_def)

lemma failback_event_simps [simp]:
  "\<not> netbox_action (failback_event c a b s r)" "\<not> is_patroni_call (failback_event c a b s r)"
  "event_code (failback_event c a b s r) = Some (fst (ha_code ''failback'' s))"
  "\<not> netbox_action (failback_message c a b)" "\<not> is_patroni_call (failback_message c a b)"
  "event_code (failback_message c a b) = None"
  by (simp_all add: failback_event_def failback_message_def)

lemma host_update_effects:
  "netbox_actions (dispatchDBHostUpdate w ns h) = []" "netbox_actions (dispatchRedisHostUpdate w ns h) = []"
  "event_codes (dispatchDBHostUpdate w ns h) = []" "event_codes (dispatchRedisHostUpdate w ns h) = []"
  "filter is_patroni_call (dispatchDBHostUpdate w ns h) = []"
  "filter is_patroni_call (dispatchRedisHostUpdate w ns h) = []"
  unfolding dispatchDBHostUpdate_def dispatchRedisHostUpdate_def
  by (induction ns) simp_all

lemma host_updates_effects [simp]:
  "netbox_actions (host_updates w c t ns n) = []" "event_codes (host_updates w c t ns n) = []"
  by (simp_all add: host_updates_def host_update_effects)

section \<open>Moving the database primary\<close>

text \<open>
  \<open>triggerPatroniSwitchover\<close> sends at most one request to Patroni; it reports a triggered
  switchover exactly when that request was answered 200; and it sends none when Patroni is not
  managed, when the candidate's role is unknown, or when the candidate is the primary already.  The
  request always names the candidate, and it goes to the connected primary when there is one, and to
  the candidate itself otherwise.
\<close>

theorem triggerPatroniSwitchover_one_call:
  "case triggerPatroniSwitchover u w cl cand ns f of (calls, triggered, err) \<Rightarrow>
     (calls = [] \<and> \<not> triggered \<and> err = None
        \<and> (\<not> cl_PatroniConfigured cl \<or> cl_Mode cl \<noteq> ''active_standby''
            \<or> ExtractPatroniRole (nd_PatroniState cand) \<in> {[], ''primary'', ''master''}))
   \<or> (\<exists>ip path body. calls = [PatroniPost ip path body]
        \<and> (triggered \<longleftrightarrow> (\<exists>out. w_rest w ip path = RestStatus 200 out)) \<and> (triggered \<longleftrightarrow> err = None)
        \<and> map_of body ''candidate'' = Some (nd_Hostname cand)
        \<and> cl_PatroniConfigured cl \<and> cl_Mode cl = ''active_standby''
        \<and> ExtractPatroniRole (nd_PatroniState cand) \<notin> {[], ''primary'', ''master''}
        \<and> (case connected_primary w ns of
             Some p \<Rightarrow> ip = ip_of p \<and> path = ''/switchover'' \<and> map_of body ''leader'' = Some (nd_Hostname p)
           | None \<Rightarrow> ip = ip_of cand \<and> path = ''/failover''))"
  by (auto simp: triggerPatroniSwitchover_def ExtractPatroniRole_def rest_error_def Let_def
      split: sum.splits option.splits rest_reply.splits if_splits)

lemma triggerPatroniSwitchover_call:
  "fst (triggerPatroniSwitchover u w cl cand ns f) = []
   \<or> (\<exists>ip path body. fst (triggerPatroniSwitchover u w cl cand ns f) = [PatroniPost ip path body]
        \<and> map_of body ''candidate'' = Some (nd_Hostname cand)
        \<and> ExtractPatroniRole (nd_PatroniState cand) \<notin> {[], ''primary'', ''master''})"
  by (auto simp: triggerPatroniSwitchover_def ExtractPatroniRole_def Let_def split: sum.splits option.splits)

lemma switchover_calls_effects:
  assumes "triggerPatroniSwitchover u w cl cand ns f = (calls, triggered, err)"
  shows "netbox_actions calls = []" and "event_codes calls = []"
    and "length (filter is_patroni_call calls) \<le> 1"
  using assms by (auto simp: triggerPatroniSwitchover_def Let_def split: sum.splits option.splits if_splits)

section \<open>Failover\<close>

lemma run_failover_effects:
  "netbox_actions (fst (run_failover u w cl fn cand f c t)) = [Enqueue (nd_ID fn) StopNetbox, Dispatch (nd_ID cand) StartNetbox]"
  "event_codes (fst (run_failover u w cl fn cand f c t))
     = [''NBC-HA-001'', if w_dispatch w (nd_ID cand) StartNetbox = None then ''NBC-HA-002'' else ''NBC-HA-003'']"
  "snd (run_failover u w cl fn cand f c t) \<longleftrightarrow> w_dispatch w (nd_ID cand) StartNetbox = None"
proof -
  obtain calls triggered err
    where t: "triggerPatroniSwitchover u w cl cand (nodes_or_nil w c) f = (calls, triggered, err)"
    by (cases "triggerPatroniSwitchover u w cl cand (nodes_or_nil w c) f")
  note unfolded = run_failover_def Let_def dispatchServiceTask_def enqueueForReconnect_def t prod.case
  show "netbox_actions (fst (run_failover u w cl fn cand f c t))
      = [Enqueue (nd_ID fn) StopNetbox, Dispatch (nd_ID cand) StartNetbox]"
    unfolding unfolded by (simp add: switchover_calls_effects [OF t] split: option.split)
  show "event_codes (fst (run_failover u w cl fn cand f c t))
     = [''NBC-HA-001'', if w_dispatch w (nd_ID cand) StartNetbox = None then ''NBC-HA-002'' else ''NBC-HA-003'']"
    unfolding unfolded by (simp add: switchover_calls_effects [OF t] ha_code_def split: option.split)
  show "snd (run_failover u w cl fn cand f c t) \<longleftrightarrow> w_dispatch w (nd_ID cand) StartNetbox = None"
    unfolding unfolded by (simp split: option.split)
qed

lemma failover_guards_Some:
  "failover_guards w f c chk = Some (cl, fn) \<longleftrightarrow>
     \<not> recovered w f \<and> w_clusters w c = Some cl \<and> cl_AutoFailover cl \<and> cl_Mode cl = ''active_standby''
     \<and> node_of w f = Some fn \<and> (chk \<longrightarrow> is_true (nd_NetboxRunning fn)) \<and> \<not> nd_MaintenanceMode fn
     \<and> \<not> was_standby w c fn"
  by (auto simp: failover_guards_def split: option.splits)

lemma node_of_ID: "node_of w i = Some n \<Longrightarrow> nd_ID n = i \<and> n \<in> set (w_nodes w)"
  by (auto simp: node_of_def dest: GetByID_Some split: if_splits)


text \<open>
  A cluster of two application nodes: node 1 (priority 100) has lost its agent while it was active,
  node 2 (priority 50) is connected.
\<close>

definition example_node :: "uuid \<Rightarrow> string \<Rightarrow> int \<Rightarrow> bool \<Rightarrow> node" where
  "example_node i h prio running =
     \<lparr>nd_ID = i, nd_ClusterID = 9, nd_Hostname = h, nd_IPAddress = ''10.0.0.1/24'', nd_Role = ''app'',
      nd_FailoverPriority = prio, nd_AgentStatus = ''connected'', nd_PatroniState = None,
      nd_NetboxRunning = Some running, nd_RQRunning = Some running,
      nd_SuppressAutoStart = False, nd_MaintenanceMode = False\<rparr>"

definition example_cluster :: cluster where
  "example_cluster =
     \<lparr>cl_ID = 9, cl_Name = ''c'', cl_Mode = ''active_standby'', cl_AutoFailover = True, cl_AutoFailback = True,
      cl_AppTierAlwaysAvailable = False, cl_FailoverOnMaintenance = True, cl_FailoverDelaySecs = 30,
      cl_FailbackMultiplier = 3, cl_MediaSyncEnabled = False, cl_ExtraFoldersSyncEnabled = False,
      cl_ExtraSyncFolders = [], cl_FileSyncCron = [], cl_FileSyncScheduleEnabled = False,
      cl_PatroniConfigured = False\<rparr>"

definition example_world :: "node list \<Rightarrow> uuid set \<Rightarrow> world" where
  "example_world ns up =
     \<lparr>w_now = 0, w_clusters = [9 \<mapsto> example_cluster], w_nodes = ns, w_list_fails = False, w_get_fails = False,
      w_session = (\<lambda>i. if i \<in> up then Some \<lparr>sv_LastSeen = 0, sv_NetboxRunning = None\<rparr> else None),
      w_dispatch = (\<lambda>_ _. None), w_rest = (\<lambda>_ _. RestError [])\<rparr>"

lemmas example_defs = example_node_def example_cluster_def example_world_def nodes_of_def node_of_def
  nodes_or_nil_def ListByCluster_def GetByID_def IsConnected_def eligible_def is_true_def IsAppRole_def

definition lost_active :: world where
  "lost_active = example_world [example_node 1 ''n1'' 100 True, example_node 2 ''n2'' 50 False] {2}"

lemma lost_active_guards: "failover_guards lost_active 1 9 True = Some (example_cluster, example_node 1 ''n1'' 100 True)"
  by (simp add: failover_guards_Some lost_active_def example_defs recovered_def was_standby_def)

lemma lost_active_candidate: "bestCandidate lost_active 9 1 = Some (Some (example_node 2 ''n2'' 50 False))"
  by (simp add: bestCandidate_def lost_active_def example_defs healthy_candidate_def ExtractPatroniRoleStrict_def
      ComputeNodeHealth_def)

text \<open>
  Health goes before priority: a healthy node of a lower priority is chosen over an unhealthy one of a higher priority, although the
  comment of \<open>bestCandidate\<close> has the health decide within a priority only.
\<close>

definition unhealthy_first :: world where
  "unhealthy_first = example_world [(example_node 3 ''n3'' 100 True)\<lparr>nd_RQRunning := Some False\<rparr>,
     example_node 2 ''n2'' 50 True] {2, 3}"

lemma health_before_priority: "bestCandidate unhealthy_first 9 1 = Some (Some (example_node 2 ''n2'' 50 True))"
  by (simp add: bestCandidate_def unhealthy_first_def example_defs healthy_candidate_def ExtractPatroniRoleStrict_def ComputeNodeHealth_def)

theorem bestCandidate_spec_witness:
  "nd_ID (example_node 2 ''n2'' 50 False) \<noteq> 1 \<and> IsConnected lost_active 2"
  using bestCandidate_spec [OF lost_active_candidate]
  by (simp add: eligible_def) (simp add: example_node_def)


theorem triggerPatroniSwitchover_one_call_witness:
  "triggerPatroniSwitchover (\<lambda>_. []) lost_active example_cluster (example_node 2 ''n2'' 50 False) [] 1 = ([], False, None)"
  using triggerPatroniSwitchover_one_call [where cl = example_cluster and u = "\<lambda>_. []" and w = lost_active and cand = "example_node 2 ''n2'' 50 False" and ns = "[]" and f = 1]
  by (auto simp: example_cluster_def split: prod.splits)

section \<open>Failback\<close>

lemma always_available_actions:
  "netbox_actions (attemptFailbackAlwaysAvailable u w cl rec ns) \<in> {[], [Dispatch (nd_ID rec) StartNetbox]}"
  "is_true (nd_NetboxRunning rec) \<Longrightarrow> netbox_actions (attemptFailbackAlwaysAvailable u w cl rec ns) = []"
  by (auto simp: attemptFailbackAlwaysAvailable_def Let_def dispatchServiceTask_def host_update_effects
      dest: switchover_calls_effects split: option.splits prod.splits)

lemma active_standby_actions:
  "netbox_actions (attemptFailbackActiveStandby u w cl rec ns) =
     (case current_active w rec ns of
        None \<Rightarrow> (if cl_AutoFailover cl then
                   (case highest_connected w None ns of None \<Rightarrow> [] | Some b \<Rightarrow> [Dispatch (nd_ID b) StartNetbox]) else [])
      | Some a \<Rightarrow>
          if nd_FailoverPriority rec \<le> nd_FailoverPriority a then []
          else if w_dispatch w (nd_ID a) StopNetbox = None
          then [Dispatch (nd_ID a) StopNetbox, Dispatch (nd_ID rec) StartNetbox]
          else [Dispatch (nd_ID a) StopNetbox])"
proof (cases "current_active w rec ns")
  case None
  then show ?thesis
    by (simp add: attemptFailbackActiveStandby_def dispatchServiceTask_def split: option.split)
next
  case (Some a)
  obtain calls triggered err
    where t: "triggerPatroniSwitchover u w cl rec ns (nd_ID a) = (calls, triggered, err)"
    by (cases "triggerPatroniSwitchover u w cl rec ns (nd_ID a)")
  show ?thesis
    using Some unfolding attemptFailbackActiveStandby_def Let_def dispatchServiceTask_def
    by (simp add: t switchover_calls_effects [OF t] split: option.split)
qed

lemma active_standby_stop:
  assumes "Dispatch j StopNetbox \<in> set (netbox_actions (attemptFailbackActiveStandby u w cl rec ns))"
  shows "\<exists>b. current_active w rec ns = Some b \<and> nd_ID b = j \<and> nd_FailoverPriority b < nd_FailoverPriority rec"
proof (cases "current_active w rec ns")
  case None
  with assms show ?thesis
    by (cases "highest_connected w None ns"; cases "cl_AutoFailover cl") (simp_all add: active_standby_actions)
next
  case (Some b)
  with assms show ?thesis
    by (cases "nd_FailoverPriority rec \<le> nd_FailoverPriority b"; cases "w_dispatch w (nd_ID b) StopNetbox")
       (simp_all add: active_standby_actions)
qed

lemma current_active_Some:
  "current_active w rec ns = Some a \<Longrightarrow>
     a \<in> set ns \<and> nd_ID a \<noteq> nd_ID rec \<and> is_true (nd_NetboxRunning a) \<and> IsConnected w (nd_ID a)"
  by (auto simp: current_active_def dest: find_Some_in)

text \<open>The node a failback check concerns, when the check gets as far as looking at its cluster.\<close>

definition failback_node :: "world \<Rightarrow> uuid \<Rightarrow> uuid \<Rightarrow> cluster \<Rightarrow> node \<Rightarrow> node list \<Rightarrow> bool" where
  "failback_node w i c cl rec ns \<longleftrightarrow>
     w_clusters w c = Some cl \<and> cl_AutoFailback cl \<and> cl_Mode cl = ''active_standby'' \<and> node_of w i = Some rec
     \<and> IsConnected w i \<and> IsAppRole (nd_Role rec) \<and> nodes_of w c = Some ns
     \<and> \<not> nd_MaintenanceMode rec \<and> \<not> nd_SuppressAutoStart rec"

lemma attemptFailback_shape:
  "attemptFailback u w i c = [] \<or> (\<exists>cl rec ns. failback_node w i c cl rec ns \<and> nd_ID rec = i
     \<and> attemptFailback u w i c = (if cl_AppTierAlwaysAvailable cl then attemptFailbackAlwaysAvailable u w cl rec ns
          else attemptFailbackActiveStandby u w cl rec ns))"
  by (auto simp: attemptFailback_def failback_node_def dest: node_of_ID split: option.splits)

text \<open>
  C14: a failback check stops NetBox only on another connected node that runs it with a strictly lower
  priority than the returning node, on a cluster that is not always-available, for a connected,
  application-tier returning node that is neither in maintenance nor held back; it starts the
  returning node only after that stop, and only when the stop was dispatched.
\<close>

theorem attemptFailback_stops_lower:
  assumes "Dispatch j StopNetbox \<in> set (attemptFailback u w i c)"
  shows "\<exists>cl rec ns a. failback_node w i c cl rec ns \<and> \<not> cl_AppTierAlwaysAvailable cl
    \<and> a \<in> set ns \<and> nd_ID a = j \<and> j \<noteq> i \<and> IsConnected w j \<and> is_true (nd_NetboxRunning a)
    \<and> nd_FailoverPriority a < nd_FailoverPriority rec
    \<and> netbox_actions (attemptFailback u w i c) =
        (if w_dispatch w j StopNetbox = None then [Dispatch j StopNetbox, Dispatch i StartNetbox]
         else [Dispatch j StopNetbox])"
proof -
  from assms have a: "Dispatch j StopNetbox \<in> set (netbox_actions (attemptFailback u w i c))"
    by (simp flip: action_in_set)
  with attemptFailback_shape [of u w i c] obtain cl rec ns where f: "failback_node w i c cl rec ns" "nd_ID rec = i"
    and e: "attemptFailback u w i c = (if cl_AppTierAlwaysAvailable cl then attemptFailbackAlwaysAvailable u w cl rec ns
          else attemptFailbackActiveStandby u w cl rec ns)" by auto
  from a e always_available_actions(1) [of u w cl rec ns] have n: "\<not> cl_AppTierAlwaysAvailable cl" by auto
  then have act: "netbox_actions (attemptFailback u w i c) = netbox_actions (attemptFailbackActiveStandby u w cl rec ns)"
    by (simp add: e)
  obtain b where b: "current_active w rec ns = Some b" "nd_ID b = j"
    "nd_FailoverPriority b < nd_FailoverPriority rec"
    using active_standby_stop [OF a [unfolded act]] by blast
  have "netbox_actions (attemptFailback u w i c) =
        (if w_dispatch w j StopNetbox = None then [Dispatch j StopNetbox, Dispatch i StartNetbox]
         else [Dispatch j StopNetbox])"
    unfolding act active_standby_actions using b f(2) by simp
  with current_active_Some [OF b(1)] f n b show ?thesis by blast
qed

theorem attemptFailback_stops_lower_witness:
  "nd_FailoverPriority (example_node 2 ''n2'' 50 True) < nd_FailoverPriority (example_node 1 ''n1'' 100 False)
   \<and> netbox_actions (attemptFailback (\<lambda>_. []) (example_world [example_node 1 ''n1'' 100 False,
        example_node 2 ''n2'' 50 True] {1, 2}) 1 9) = [Dispatch 2 StopNetbox, Dispatch 1 StartNetbox]"
proof -
  let ?w = "example_world [example_node 1 ''n1'' 100 False, example_node 2 ''n2'' 50 True] {1, 2}"
  have "netbox_actions (attemptFailback (\<lambda>_. []) ?w 1 9) = [Dispatch 2 StopNetbox, Dispatch 1 StartNetbox]"
    by (simp add: attemptFailback_def active_standby_actions current_active_def example_defs)
  then have "Dispatch 2 StopNetbox \<in> set (attemptFailback (\<lambda>_. []) ?w 1 9)"
    by (simp add: action_in_set)
  from attemptFailback_stops_lower [OF this] show ?thesis
    by (auto simp: example_defs)
qed

text \<open>
  the check of a node that already runs NetBox can start a second one.  When no other node runs
  NetBox, the recovery branch starts the connected node of highest priority without looking at the
  node it was called for, and whatever that node's role, maintenance mode or start suppression: here
  node 2 is running, its own failback check starts node 1, and nothing is stopped.
\<close>

theorem failback_check_starts_second_node:
  "attemptFailback u (example_world [(example_node 1 ''n1'' 100 False)\<lparr>nd_Role := r, nd_MaintenanceMode := m,
       nd_SuppressAutoStart := s\<rparr>, example_node 2 ''n2'' 50 True] {1, 2}) 2 9 = [Dispatch 1 StartNetbox]"
  by (simp add: attemptFailback_def attemptFailbackActiveStandby_def current_active_def dispatchServiceTask_def
      example_defs)

section \<open>Maintenance\<close>

text \<open>
  enabling maintenance moves NetBox only off a node that runs it, in a cluster configured to; the
  candidate is started only after the stop of the node was dispatched, and the move reports exactly one
  event.
\<close>

theorem OnMaintenanceEnabled_moves:
  "(netbox_actions (OnMaintenanceEnabled u w i c), event_codes (OnMaintenanceEnabled u w i c)) \<in> {([], []), ([], [''NBC-HA-007''])}
   \<or> (\<exists>cl n cand. w_clusters w c = Some cl \<and> cl_FailoverOnMaintenance cl \<and> cl_Mode cl = ''active_standby''
       \<and> node_of w i = Some n \<and> is_true (nd_NetboxRunning n) \<and> bestCandidate w c i = Some (Some cand)
       \<and> event_codes (OnMaintenanceEnabled u w i c) = [''NBC-HA-007'']
       \<and> netbox_actions (OnMaintenanceEnabled u w i c) =
           (if w_dispatch w i StopNetbox = None then [Dispatch i StopNetbox, Dispatch (nd_ID cand) StartNetbox]
            else [Dispatch i StopNetbox]))"
proof (cases "\<exists>cl n cand. w_clusters w c = Some cl \<and> cl_FailoverOnMaintenance cl \<and> cl_Mode cl = ''active_standby''
       \<and> node_of w i = Some n \<and> is_true (nd_NetboxRunning n) \<and> bestCandidate w c i = Some (Some cand)")
  case True
  then obtain cl n cand where k: "w_clusters w c = Some cl" "cl_FailoverOnMaintenance cl"
      "cl_Mode cl = ''active_standby''" "node_of w i = Some n" "is_true (nd_NetboxRunning n)"
      "bestCandidate w c i = Some (Some cand)" by blast
  obtain calls triggered err
    where t: "triggerPatroniSwitchover u w cl cand (nodes_or_nil w c) i = (calls, triggered, err)"
    by (cases "triggerPatroniSwitchover u w cl cand (nodes_or_nil w c) i")
  have n: "nd_ID n = i" using node_of_ID [OF k(4)] by simp
  have "netbox_actions (OnMaintenanceEnabled u w i c) =
           (if w_dispatch w i StopNetbox = None then [Dispatch i StopNetbox, Dispatch (nd_ID cand) StartNetbox]
            else [Dispatch i StopNetbox])"
    using k unfolding OnMaintenanceEnabled_def Let_def dispatchServiceTask_def maintenance_event_def
    by (simp add: t n switchover_calls_effects [OF t] split: option.split)
  moreover have "event_codes (OnMaintenanceEnabled u w i c) = [''NBC-HA-007'']"
    using k unfolding OnMaintenanceEnabled_def Let_def dispatchServiceTask_def maintenance_event_def
    by (simp add: t n switchover_calls_effects [OF t] ha_code_def split: option.split)
  ultimately show ?thesis using k by auto
next
  case False
  then have "OnMaintenanceEnabled u w i c = []
      \<or> (\<exists>n. OnMaintenanceEnabled u w i c = [maintenance_event c n None False no_candidate_reason])"
    by (auto simp: OnMaintenanceEnabled_def split: option.splits)
  then show ?thesis by (auto simp: maintenance_event_def ha_code_def)
qed

section \<open>The topology check\<close>

lemma highest_connected_acc:
  "highest_connected w best ns = Some n \<Longrightarrow>
     (n \<in> set ns \<and> IsConnected w (nd_ID n) \<or> best = Some n)
   \<and> (\<forall>m. (m \<in> set ns \<and> IsConnected w (nd_ID m) \<or> best = Some m) \<longrightarrow> nd_FailoverPriority m \<le> nd_FailoverPriority n)"
  by (induction w best ns rule: highest_connected.induct) (fastforce split: if_splits option.splits)+

lemma CheckTopology_shape:
  "CheckTopology u w c = [] \<or> (\<exists>cl ns (l :: node) n. nodes_of w c = Some ns \<and> highest_connected w None ns = Some n
      \<and> CheckTopology u w c = fst (triggerPatroniSwitchover u w cl n ns (nd_ID l)))"
proof (cases "w_clusters w c")
  case (Some cl)
  show ?thesis
  proof (cases "nodes_of w c")
    case ns: (Some ns)
    show ?thesis
    proof (cases "reported_leader ns")
      case l: (Some l)
      show ?thesis
      proof (cases "highest_connected w None ns")
        case n: (Some n)
        show ?thesis
        proof (cases "CheckTopology u w c = []")
          case False
          then have "CheckTopology u w c = fst (triggerPatroniSwitchover u w cl n ns (nd_ID l))"
            by (simp add: CheckTopology_def Some ns l n split: if_splits)
          with ns n show ?thesis by blast
        qed simp
      qed (simp add: CheckTopology_def Some ns l)
    qed (simp add: CheckTopology_def Some ns)
  qed (simp add: CheckTopology_def Some)
qed (simp add: CheckTopology_def)

text \<open>
  the topology check never starts or stops a service; it sends at most one request to Patroni,
  and then the request names a connected node of the cluster of the highest priority among the
  connected ones, which Patroni does not report as leader.
\<close>

theorem CheckTopology_promotes_highest:
  assumes "e \<in> set (CheckTopology u w c)"
  shows "\<exists>ip path body n. CheckTopology u w c = [e] \<and> e = PatroniPost ip path body
    \<and> map_of body ''candidate'' = Some (nd_Hostname n)
    \<and> n \<in> set (w_nodes w) \<and> nd_ClusterID n = c \<and> IsConnected w (nd_ID n)
    \<and> \<not> is_primary_role (ExtractPatroniRole (nd_PatroniState n))
    \<and> (\<forall>m\<in>set (w_nodes w). nd_ClusterID m = c \<longrightarrow> IsConnected w (nd_ID m) \<longrightarrow> nd_FailoverPriority m \<le> nd_FailoverPriority n)"
proof -
  from CheckTopology_shape [of u w c] assms obtain cl ns n and l :: node
    where k: "nodes_of w c = Some ns" "highest_connected w None ns = Some n"
    and e: "CheckTopology u w c = fst (triggerPatroniSwitchover u w cl n ns (nd_ID l))"
    by auto
  have set: "set ns = {n \<in> set (w_nodes w). nd_ClusterID n = c}"
    using k(1) by (auto simp: nodes_of_def ListByCluster_set split: if_splits)
  from e assms triggerPatroniSwitchover_call [of u w cl n ns "nd_ID l"]
  obtain ip path body where "CheckTopology u w c = [PatroniPost ip path body]"
    "map_of body ''candidate'' = Some (nd_Hostname n)" "\<not> is_primary_role (ExtractPatroniRole (nd_PatroniState n))"
    by (auto simp: is_primary_role_def)
  with assms highest_connected_acc [OF k(2)] set show ?thesis by auto
qed

definition topology_example :: world where
  "topology_example =
     (let w = example_world [(example_node 1 ''n1'' 100 False)\<lparr>nd_PatroniState := Some (Encodes (JObj [(''role'', JStr ''replica'')]))\<rparr>,
        (example_node 2 ''n2'' 50 True)\<lparr>nd_PatroniState := Some (Encodes (JObj [(''role'', JStr ''primary'')]))\<rparr>] {1, 2}
      in w\<lparr>w_clusters := [9 \<mapsto> example_cluster\<lparr>cl_PatroniConfigured := True\<rparr>]\<rparr>)"

lemma topology_example_eval:
  "CheckTopology u topology_example 9
     = [PatroniPost ''10.0.0.1'' ''/switchover'' [(''leader'', ''n2''), (''candidate'', ''n1'')]]"
  by (simp add: CheckTopology_def topology_example_def example_defs triggerPatroniSwitchover_def
      reported_leader_def connected_primary_def ExtractPatroniRole_def ExtractPatroniRoleStrict_def
      unmarshal_map_def is_primary_role_def ip_of_def cut_def has_prefix_def Let_def)

theorem CheckTopology_promotes_highest_witness:
  "CheckTopology (\<lambda>_. []) topology_example 9
     = [PatroniPost ''10.0.0.1'' ''/switchover'' [(''leader'', ''n2''), (''candidate'', ''n1'')]]
   \<and> nd_ClusterID (example_node 1 ''n1'' 100 False) = 9"
proof -
  have c: "CheckTopology (\<lambda>_. []) topology_example 9
     = [PatroniPost ''10.0.0.1'' ''/switchover'' [(''leader'', ''n2''), (''candidate'', ''n1'')]]"
    by (simp add: topology_example_eval)
  have "PatroniPost ''10.0.0.1'' ''/switchover'' [(''leader'', ''n2''), (''candidate'', ''n1'')]
      \<in> set (CheckTopology (\<lambda>_. []) topology_example 9)" by (simp add: c)
  from CheckTopology_promotes_highest [OF this] c show ?thesis by (auto simp: example_node_def)
qed

end
