(* ===== verification/FailoverTimers.thy ===== *)
theory FailoverTimers
  imports Failover
begin

text \<open>
  The timers of \<open>internal/server/failover/manager.go\<close>: which failover and failback checks are pending
  for a node, and how connects, disconnects and heartbeats arm and cancel them.  A timer is a number;
  \<open>fm_armed\<close> holds the running ones with their deadline and callback, \<open>fm_failTimers\<close> and
  \<open>fm_failbackTimers\<close> are the manager's maps.  Each operation is split at its critical sections, so that
  a run can interleave them; a timer that expires leaves \<open>fm_armed\<close> before its callback takes the lock.
\<close>

datatype callback =
    FailoverCheck uuid uuid bool string
  | FailbackCheck uuid uuid

record mgr =
  fm_startedAt :: instant
  fm_grace :: duration
  fm_failTimers :: "uuid \<rightharpoonup> nat"
  fm_failbackTimers :: "uuid \<rightharpoonup> nat"
  fm_armed :: "nat \<rightharpoonup> instant \<times> callback"
  fm_next :: nat

definition DefaultGracePeriod :: duration where
  "DefaultGracePeriod = 30 * second"

definition DefaultFailbackMultiplier :: int where
  "DefaultFailbackMultiplier = 3"

definition startupSuppressWindow :: duration where
  "startupSuppressWindow = 30 * second"

definition New_mgr :: "instant \<Rightarrow> mgr" where
  "New_mgr now = \<lparr>fm_startedAt = now, fm_grace = DefaultGracePeriod, fm_failTimers = Map.empty,
     fm_failbackTimers = Map.empty, fm_armed = Map.empty, fm_next = 0\<rparr>"

definition AfterFunc :: "instant \<Rightarrow> duration \<Rightarrow> callback \<Rightarrow> mgr \<Rightarrow> nat \<times> mgr" where
  "AfterFunc now d cb m =
     (fm_next m, m\<lparr>fm_armed := (fm_armed m)(fm_next m \<mapsto> (now + d, cb)), fm_next := Suc (fm_next m)\<rparr>)"

definition StopTimer :: "nat \<Rightarrow> mgr \<Rightarrow> mgr" where
  "StopTimer t m = m\<lparr>fm_armed := (fm_armed m)(t := None)\<rparr>"

text \<open>Stop a node's failback timer and forget it; stop its failover timer; forget that.\<close>

definition cancel_failback :: "uuid \<Rightarrow> mgr \<Rightarrow> mgr" where
  "cancel_failback i m = (case fm_failbackTimers m i of
      None \<Rightarrow> m
    | Some t \<Rightarrow> (StopTimer t m)\<lparr>fm_failbackTimers := (fm_failbackTimers m)(i := None)\<rparr>)"

definition stop_failover :: "uuid \<Rightarrow> mgr \<Rightarrow> mgr" where
  "stop_failover i m = (case fm_failTimers m i of None \<Rightarrow> m | Some t \<Rightarrow> StopTimer t m)"

definition cancel_failover :: "uuid \<Rightarrow> mgr \<Rightarrow> mgr" where
  "cancel_failover i m = (case fm_failTimers m i of
      None \<Rightarrow> m
    | Some t \<Rightarrow> (StopTimer t m)\<lparr>fm_failTimers := (fm_failTimers m)(i := None)\<rparr>)"

definition arm_failover :: "instant \<Rightarrow> duration \<Rightarrow> uuid \<Rightarrow> uuid \<Rightarrow> bool \<Rightarrow> string \<Rightarrow> mgr \<Rightarrow> mgr" where
  "arm_failover now d i c chk trigger m =
     (let (t, m') = AfterFunc now d (FailoverCheck i c chk trigger) (stop_failover i m)
      in m'\<lparr>fm_failTimers := (fm_failTimers m')(i \<mapsto> t)\<rparr>)"

text \<open>The grace period of a cluster; \<open>None\<close> when the cluster cannot be read.\<close>

definition grace_of :: "mgr \<Rightarrow> cluster option \<Rightarrow> duration" where
  "grace_of m cluster = (case cluster of
      Some cl \<Rightarrow> if cl_FailoverDelaySecs cl > 0 then wrap64 (cl_FailoverDelaySecs cl * second) else fm_grace m
    | None \<Rightarrow> fm_grace m)"

definition FailbackDelay :: "mgr \<Rightarrow> cluster option \<Rightarrow> duration" where
  "FailbackDelay m cluster =
     (let multiplier = (case cluster of
            Some cl \<Rightarrow> if cl_FailbackMultiplier cl > 0 then cl_FailbackMultiplier cl else DefaultFailbackMultiplier
          | None \<Rightarrow> DefaultFailbackMultiplier)
      in wrap64 (grace_of m cluster * multiplier))"

definition OnNodeDisconnect :: "instant \<Rightarrow> cluster option \<Rightarrow> uuid \<Rightarrow> uuid \<Rightarrow> mgr \<Rightarrow> mgr" where
  "OnNodeDisconnect now cluster i c m =
     (if now - fm_startedAt m < startupSuppressWindow then m
      else arm_failover now (grace_of m cluster) i c True ''disconnect'' (cancel_failback i m))"

text \<open>The two critical sections of \<open>OnNodeConnect\<close>.\<close>

definition OnNodeConnect_cancel :: "uuid \<Rightarrow> mgr \<Rightarrow> mgr" where
  "OnNodeConnect_cancel i m = cancel_failback i (cancel_failover i m)"

definition OnNodeConnect_arm :: "instant \<Rightarrow> cluster option \<Rightarrow> uuid \<Rightarrow> uuid \<Rightarrow> mgr \<Rightarrow> mgr" where
  "OnNodeConnect_arm now cluster i c m =
     (let (t, m') = AfterFunc now (FailbackDelay m cluster) (FailbackCheck i c) m
      in m'\<lparr>fm_failbackTimers := (fm_failbackTimers m')(i \<mapsto> t)\<rparr>)"

definition OnNodeConnect :: "instant \<Rightarrow> cluster option \<Rightarrow> uuid \<Rightarrow> uuid \<Rightarrow> mgr \<Rightarrow> mgr" where
  "OnNodeConnect now cluster i c m = OnNodeConnect_arm now cluster i c (OnNodeConnect_cancel i m)"

definition OnNetboxStopped :: "instant \<Rightarrow> cluster option \<Rightarrow> uuid \<Rightarrow> uuid \<Rightarrow> mgr \<Rightarrow> mgr" where
  "OnNetboxStopped now cluster i c m =
     arm_failover now (grace_of m cluster) i c False ''heartbeat'' (cancel_failback i m)"

definition OnNetboxStarted :: "uuid \<Rightarrow> mgr \<Rightarrow> mgr" where
  "OnNetboxStarted i m = cancel_failover i m"

text \<open>\<open>OnMaintenanceDisabled\<close> cancels the pending check and starts one at once.\<close>

definition OnMaintenanceDisabled :: "uuid \<Rightarrow> uuid \<Rightarrow> mgr \<Rightarrow> mgr \<times> callback" where
  "OnMaintenanceDisabled i c m = (cancel_failback i m, FailbackCheck i c)"

text \<open>The first step of \<open>attemptFailover\<close> and \<open>attemptFailback\<close>: take the node's timer out of the map.\<close>

fun callback_begin :: "callback \<Rightarrow> mgr \<Rightarrow> mgr" where
  "callback_begin (FailoverCheck i _ _ _) m = m\<lparr>fm_failTimers := (fm_failTimers m)(i := None)\<rparr>"
| "callback_begin (FailbackCheck i _) m = m\<lparr>fm_failbackTimers := (fm_failbackTimers m)(i := None)\<rparr>"

text \<open>What a callback does after that, with \<open>attemptFailover\<close>'s re-arming of the failback timer.\<close>

fun callback_body ::
  "(uuid \<Rightarrow> string) \<Rightarrow> world \<Rightarrow> callback \<Rightarrow> mgr \<Rightarrow> effect list \<times> mgr" where
  "callback_body u w (FailoverCheck i c chk trigger) m =
     (case attemptFailover u w i c chk trigger of
        (es, rearm) \<Rightarrow> (es, if rearm then OnNodeConnect (w_now w) (w_clusters w c) i c m else m))"
| "callback_body u w (FailbackCheck i c) m = (attemptFailback u w i c, m)"

section \<open>Runs\<close>

text \<open>
  A run interleaves these moves.  \<open>Expire t\<close> starts the callback of an armed timer and \<open>Begin k\<close> lets
  the \<open>k\<close>-th started callback take the lock; \<open>Fire t\<close> is the two in one.
\<close>

datatype move =
    Disconnect instant "cluster option" uuid uuid
  | ConnectCancel uuid
  | ConnectArm instant "cluster option" uuid uuid
  | NetboxStopped instant "cluster option" uuid uuid
  | NetboxStarted uuid
  | MaintenanceDisabled uuid uuid
  | Expire nat
  | Begin nat
  | Fire nat

type_synonym mgr_state = "mgr \<times> callback list"

fun move_step :: "move \<Rightarrow> mgr_state \<Rightarrow> mgr_state" where
  "move_step (Disconnect now cl i c) (m, run) = (OnNodeDisconnect now cl i c m, run)"
| "move_step (ConnectCancel i) (m, run) = (OnNodeConnect_cancel i m, run)"
| "move_step (ConnectArm now cl i c) (m, run) = (OnNodeConnect_arm now cl i c m, run)"
| "move_step (NetboxStopped now cl i c) (m, run) = (OnNetboxStopped now cl i c m, run)"
| "move_step (NetboxStarted i) (m, run) = (OnNetboxStarted i m, run)"
| "move_step (MaintenanceDisabled i c) (m, run) =
     (case OnMaintenanceDisabled i c m of (m', cb) \<Rightarrow> (m', run @ [cb]))"
| "move_step (Expire t) (m, run) =
     (case fm_armed m t of None \<Rightarrow> (m, run) | Some (_, cb) \<Rightarrow> (StopTimer t m, run @ [cb]))"
| "move_step (Begin k) (m, run) =
     (if k < length run then (callback_begin (run ! k) m, take k run @ drop (Suc k) run) else (m, run))"
| "move_step (Fire t) (m, run) =
     (case fm_armed m t of None \<Rightarrow> (m, run) | Some (_, cb) \<Rightarrow> (callback_begin cb (StopTimer t m), run))"

definition run_moves :: "instant \<Rightarrow> move list \<Rightarrow> mgr_state" where
  "run_moves now ms = fold move_step ms (New_mgr now, [])"

fun atomic_move :: "move \<Rightarrow> bool" where
  "atomic_move (Expire _) = False"
| "atomic_move (Begin _) = False"
| "atomic_move _ = True"

text \<open>The node an armed timer is a failover check of.\<close>

definition failover_of :: "mgr \<Rightarrow> nat \<rightharpoonup> uuid" where
  "failover_of m t = (case fm_armed m t of Some (_, FailoverCheck i _ _ _) \<Rightarrow> Some i | _ \<Rightarrow> None)"

text \<open>Armed failover checks are exactly those the map names.\<close>

definition fail_tracked :: "mgr \<Rightarrow> bool" where
  "fail_tracked m \<longleftrightarrow>
     (\<forall>t i. failover_of m t = Some i \<longleftrightarrow> fm_failTimers m i = Some t)
   \<and> (\<forall>i t. fm_failbackTimers m i = Some t \<longrightarrow> failover_of m t = None \<and> t < fm_next m)
   \<and> (\<forall>t. fm_next m \<le> t \<longrightarrow> failover_of m t = None)"

lemma failover_of_simps [simp]:
  "failover_of (StopTimer t m) = (failover_of m)(t := None)"
  "failover_of (m\<lparr>fm_failTimers := f\<rparr>) = failover_of m"
  "failover_of (m\<lparr>fm_failbackTimers := f\<rparr>) = failover_of m"
  "failover_of (m\<lparr>fm_armed := (fm_armed m)(t \<mapsto> (d, FailoverCheck i c chk tr)), fm_next := n\<rparr>) = (failover_of m)(t \<mapsto> i)"
  "failover_of (m\<lparr>fm_armed := (fm_armed m)(t \<mapsto> (d, FailbackCheck i c)), fm_next := n\<rparr>) = (failover_of m)(t := None)"
  by (auto simp: failover_of_def StopTimer_def fun_eq_iff)

lemma StopTimer_simps [simp]:
  "fm_failTimers (StopTimer t m) = fm_failTimers m" "fm_failbackTimers (StopTimer t m) = fm_failbackTimers m"
  "fm_next (StopTimer t m) = fm_next m"
  by (simp_all add: StopTimer_def)

lemma fail_tracked_New: "fail_tracked (New_mgr now)"
  by (simp add: fail_tracked_def New_mgr_def failover_of_def)

lemma fail_tracked_cancel_failback:
  assumes "fail_tracked m"
  shows "fail_tracked (cancel_failback i m)"
proof (cases "fm_failbackTimers m i")
  case (Some t)
  with assms have "(failover_of m)(t := None) = failover_of m" by (auto simp: fail_tracked_def fun_upd_idem_iff)
  with assms Some show ?thesis by (auto simp: fail_tracked_def cancel_failback_def)
qed (use assms in \<open>simp add: cancel_failback_def\<close>)

lemma fail_tracked_cancel_failover:
  assumes "fail_tracked m"
  shows "fail_tracked (cancel_failover i m)"
proof (cases "fm_failTimers m i")
  case (Some t)
  with assms show ?thesis by (auto simp: fail_tracked_def cancel_failover_def) (metis option.inject)+
qed (use assms in \<open>simp add: cancel_failover_def\<close>)

text \<open>Arming after a stop is arming after a cancel.\<close>

lemma arm_failover_cancel:
  "arm_failover now d i c chk tr m = arm_failover now d i c chk tr (cancel_failover i m)"
  by (simp add: arm_failover_def stop_failover_def cancel_failover_def AfterFunc_def StopTimer_def split: option.split)

lemma cancel_failover_gone:
  assumes "fail_tracked m"
  shows "fm_failTimers (cancel_failover i m) i = None" "i \<notin> ran (failover_of (cancel_failover i m))"
proof -
  show n: "fm_failTimers (cancel_failover i m) i = None"
    by (simp add: cancel_failover_def split: option.split)
  show "i \<notin> ran (failover_of (cancel_failover i m))"
    using fail_tracked_cancel_failover [OF assms, of i] n by (auto simp: fail_tracked_def ran_def)
qed

lemma fail_tracked_next: "fail_tracked m \<Longrightarrow> fm_failTimers m i \<noteq> Some (fm_next m)"
  by (metis fail_tracked_def option.distinct(1) order_refl)

lemma fail_tracked_failback_next: "fail_tracked m \<Longrightarrow> fm_failbackTimers m i = Some t \<Longrightarrow> t < Suc (fm_next m)"
  by (auto simp: fail_tracked_def intro: less_SucI)

lemma fail_tracked_arm_failover:
  assumes "fail_tracked m"
  shows "fail_tracked (arm_failover now d i c chk tr m)"
proof -
  let ?m = "cancel_failover i m"
  have t: "fail_tracked ?m" by (rule fail_tracked_cancel_failover [OF assms])
  have n: "fm_failTimers ?m i = None" by (rule cancel_failover_gone(1) [OF assms])
  have "fail_tracked (arm_failover now d i c chk tr ?m)"
    using t n fail_tracked_next [OF t] fail_tracked_failback_next [OF t]
    by (auto simp: fail_tracked_def arm_failover_def stop_failover_def AfterFunc_def)
  then show ?thesis by (simp flip: arm_failover_cancel)
qed

lemma fail_tracked_connect_arm:
  assumes "fail_tracked m"
  shows "fail_tracked (OnNodeConnect_arm now cl i c m)"
  using assms fail_tracked_next [OF assms] fail_tracked_failback_next [OF assms]
  by (auto simp: fail_tracked_def OnNodeConnect_arm_def AfterFunc_def)

lemma failover_of_Some: "failover_of m t = Some i \<longleftrightarrow> (\<exists>d c chk tr. fm_armed m t = Some (d, FailoverCheck i c chk tr))"
  by (auto simp: failover_of_def split: option.splits callback.splits)

lemma fail_tracked_fire:
  assumes t: "fail_tracked m" and a: "fm_armed m k = Some (d, cb)"
  shows "fail_tracked (callback_begin cb (StopTimer k m))"
proof (cases cb)
  case (FailoverCheck i c chk tr)
  with a have "failover_of m k = Some i" by (simp add: failover_of_def)
  with t have "fm_failTimers m i = Some k" by (simp add: fail_tracked_def)
  with t show ?thesis by (auto simp: fail_tracked_def FailoverCheck) (metis option.inject)+
next
  case (FailbackCheck i c)
  with a have "failover_of m k = None" by (simp add: failover_of_def)
  then have "(failover_of m)(k := None) = failover_of m" by (simp add: fun_upd_idem)
  with t show ?thesis by (auto simp: fail_tracked_def FailbackCheck)
qed

lemma fail_tracked_step:
  assumes "fail_tracked (fst s)" and "atomic_move mv"
  shows "fail_tracked (fst (move_step mv s))"
proof (cases s)
  case (Pair m run)
  with assms show ?thesis
    by (cases mv)
       (auto simp: OnNodeDisconnect_def OnNodeConnect_cancel_def OnNetboxStopped_def OnNetboxStarted_def
          OnMaintenanceDisabled_def fail_tracked_arm_failover fail_tracked_cancel_failback
          fail_tracked_cancel_failover fail_tracked_connect_arm fail_tracked_fire split: option.splits)
qed

lemma fail_tracked_run:
  "list_all atomic_move ms \<Longrightarrow> fail_tracked (fst s) \<Longrightarrow> fail_tracked (fst (fold move_step ms s))"
  by (induction ms arbitrary: s) (auto simp: fail_tracked_step)

text \<open>
  C32: as long as an expired timer's callback takes the lock before anything else does, every armed
  failover check can be cancelled: whatever connects, disconnects, heartbeats and expiries came
  before, once a node reconnects or reports NetBox running again no failover check of that node is
  armed, and at no time does a node have two.
\<close>

theorem failover_check_cancelled:
  assumes "list_all atomic_move ms" and "run_moves now ms = (m, run)"
  shows "i \<notin> ran (failover_of (OnNodeConnect t cl i c m)) \<and> i \<notin> ran (failover_of (OnNetboxStarted i m))
    \<and> (\<forall>a b. failover_of m a = Some i \<longrightarrow> failover_of m b = Some i \<longrightarrow> a = b)"
proof -
  have tr: "fail_tracked m"
    using fail_tracked_run [OF assms(1), of "(New_mgr now, [])"] assms(2) fail_tracked_New
    by (simp add: run_moves_def)
  let ?m = "OnNodeConnect_cancel i m"
  have t: "fail_tracked ?m" unfolding OnNodeConnect_cancel_def
    by (intro fail_tracked_cancel_failback fail_tracked_cancel_failover tr)
  have "fm_failTimers ?m i = None"
    using cancel_failover_gone(1) [OF tr, of i]
    by (simp add: OnNodeConnect_cancel_def cancel_failback_def split: option.split)
  then have "fm_failTimers (OnNodeConnect t cl i c m) i = None"
    by (simp add: OnNodeConnect_def OnNodeConnect_arm_def AfterFunc_def)
  moreover have "fail_tracked (OnNodeConnect t cl i c m)"
    unfolding OnNodeConnect_def by (rule fail_tracked_connect_arm [OF t])
  ultimately have "i \<notin> ran (failover_of (OnNodeConnect t cl i c m))"
    by (auto simp: fail_tracked_def ran_def)
  moreover have "i \<notin> ran (failover_of (OnNetboxStarted i m))"
    unfolding OnNetboxStarted_def by (rule cancel_failover_gone(2) [OF tr])
  ultimately show ?thesis using tr by (auto simp: fail_tracked_def)
qed

theorem failover_check_cancelled_witness:
  "1 \<notin> ran (failover_of (OnNetboxStarted 1 (OnNetboxStopped 5 None 1 9 (New_mgr 0))))"
proof -
  have "run_moves 0 [NetboxStopped 5 None 1 9] = (OnNetboxStopped 5 None 1 9 (New_mgr 0), [])"
    by (simp add: run_moves_def)
  from failover_check_cancelled [OF _ this, of 1] show ?thesis by simp
qed

text \<open>
  without that, a check can escape.  NetBox stops on node 1, its timer expires, NetBox is reported
  stopped once more before the callback takes the lock, and the callback then removes the new timer's
  entry from the map: the report that NetBox runs again finds nothing to cancel, and the second check
  stays armed.
\<close>

theorem stale_callback_loses_timer:
  "failover_of (fst (run_moves 0 [NetboxStopped 0 None 1 9, Expire 0, NetboxStopped 1 None 1 9, Begin 0,
      NetboxStarted 1])) 1 = Some 1"
  by (simp add: run_moves_def New_mgr_def OnNetboxStopped_def OnNetboxStarted_def arm_failover_def stop_failover_def
      AfterFunc_def cancel_failback_def cancel_failover_def StopTimer_def failover_of_def)

text \<open>
  The stability window before a failback is the grace period times the multiplier, for the
  configured values that fit, and never shorter than the grace period a failover waits.
\<close>

theorem FailbackDelay_at_least_grace:
  assumes "0 < cl_FailoverDelaySecs cl" "0 < cl_FailbackMultiplier cl"
    and "cl_FailoverDelaySecs cl * second * cl_FailbackMultiplier cl < 2 ^ 63"
  shows "FailbackDelay m (Some cl) = cl_FailoverDelaySecs cl * second * cl_FailbackMultiplier cl
    \<and> grace_of m (Some cl) = cl_FailoverDelaySecs cl * second \<and> grace_of m (Some cl) \<le> FailbackDelay m (Some cl)"
proof -
  have p: "0 < cl_FailoverDelaySecs cl * second" using assms(1) by (simp add: second_def)
  have le: "cl_FailoverDelaySecs cl * second * 1 \<le> cl_FailoverDelaySecs cl * second * cl_FailbackMultiplier cl"
    by (rule mult_left_mono) (use p assms(2) in auto)
  have "wrap64 (cl_FailoverDelaySecs cl * second) = cl_FailoverDelaySecs cl * second"
    by (rule wrap64_id) (use p le assms(3) in auto)
  moreover have "wrap64 (cl_FailoverDelaySecs cl * second * cl_FailbackMultiplier cl)
      = cl_FailoverDelaySecs cl * second * cl_FailbackMultiplier cl"
    by (rule wrap64_id) (use p le assms(3) in auto)
  ultimately show ?thesis using assms le by (simp add: FailbackDelay_def grace_of_def)
qed

definition timer_cluster :: cluster where
  "timer_cluster =
     \<lparr>cl_ID = 9, cl_Name = ''c'', cl_Mode = ''active_standby'', cl_AutoFailover = True, cl_AutoFailback = True,
      cl_AppTierAlwaysAvailable = False, cl_FailoverOnMaintenance = True, cl_FailoverDelaySecs = 30,
      cl_FailbackMultiplier = 3, cl_MediaSyncEnabled = False, cl_ExtraFoldersSyncEnabled = False,
      cl_ExtraSyncFolders = [], cl_FileSyncCron = [], cl_FileSyncScheduleEnabled = False,
      cl_PatroniConfigured = False\<rparr>"

theorem FailbackDelay_at_least_grace_witness: "FailbackDelay (New_mgr 0) (Some timer_cluster) = 90 * second"
  using FailbackDelay_at_least_grace [of timer_cluster "New_mgr 0"] by (simp add: timer_cluster_def second_def)

end
