(* ===== verification/SyncPaths.thy ===== *)
theory SyncPaths
  imports Prelude
begin

text \<open>
  Paths below a sync folder and the files on a node's disk, shared by the agent's receiver
  (\<open>internal/agent/executor/filesync.go\<close>) and its repo helper
  (\<open>internal/agent/executor/repohelper.go\<close>).  An absolute path is the list of its components, as
  \<open>filepath.Clean\<close> leaves them; a disk is a map from such paths to contents.
\<close>

type_synonym path = "string list"
type_synonym disk = "path \<rightharpoonup> string"

definition parts :: "string \<Rightarrow> string list" where
  "parts p = filter (\<lambda>c. c \<noteq> [] \<and> c \<noteq> ''.'') (split_on CHR ''/'' p)"

text \<open>
  \<open>filepath.Clean\<close> on components, as a stack: in a relative path \<open>..\<close> at the bottom stays, in an
  absolute one it vanishes.
\<close>

fun push_rel :: "string list \<Rightarrow> string \<Rightarrow> string list" where
  "push_rel st c =
     (if c \<noteq> ''..'' then c # st
      else case st of [] \<Rightarrow> [''..''] | x # xs \<Rightarrow> if x = ''..'' then ''..'' # st else xs)"

fun push_abs :: "string list \<Rightarrow> string \<Rightarrow> string list" where
  "push_abs st c = (if c \<noteq> ''..'' then c # st else tl st)"

declare push_rel.simps [simp del] push_abs.simps [simp del]

definition clean_rel :: "string \<Rightarrow> path" where
  "clean_rel p = rev (foldl push_rel [] (parts p))"

definition clean_abs :: "string list \<Rightarrow> path" where
  "clean_abs cs = rev (foldl push_abs [] cs)"

definition IsAbs :: "string \<Rightarrow> bool" where
  "IsAbs p = has_prefix ''/'' p"

definition IsLocal :: "string \<Rightarrow> bool" where
  "IsLocal p = (p \<noteq> [] \<and> \<not> IsAbs p \<and> (case clean_rel p of [] \<Rightarrow> True | c # _ \<Rightarrow> c \<noteq> ''..''))"

text \<open>\<open>filepath.Clean\<close> and \<open>filepath.Dir\<close> on the paths as text.\<close>

definition Clean :: "string \<Rightarrow> string" where
  "Clean p = (if IsAbs p then CHR ''/'' # join ''/'' (clean_abs (parts p))
              else if clean_rel p = [] then ''.'' else join ''/'' (clean_rel p))"

definition Dir :: "string \<Rightarrow> string" where
  "Dir p = Clean (fst (path_split p))"

text \<open>The text \<open>%q\<close> prints, without its escapes.\<close>

definition quoted :: "string \<Rightarrow> string" where
  "quoted s = [CHR 0x22] @ s @ [CHR 0x22]"

definition syncRelPath :: "string \<Rightarrow> string \<Rightarrow> string + path" where
  "syncRelPath root relPath =
     (if relPath = [] \<or> IsAbs relPath \<or> \<not> IsLocal relPath then Inl (''invalid path: '' @ quoted relPath)
      else Inr (clean_abs (parts root @ parts relPath)))"

text \<open>\<open>path + SyncPartialSuffix\<close>.\<close>

definition SyncPartialSuffix :: string where
  "SyncPartialSuffix = ''.nbc-partial''"

definition partial_of :: "path \<Rightarrow> path" where
  "partial_of q = (if q = [] then [SyncPartialSuffix] else butlast q @ [last q @ SyncPartialSuffix])"

definition is_partial :: "path \<Rightarrow> bool" where
  "is_partial q = (q \<noteq> [] \<and> has_suffix SyncPartialSuffix (last q))"

text \<open>What the disk shows outside partial files.\<close>

definition visible :: "disk \<Rightarrow> disk" where
  "visible fs = (\<lambda>q. if is_partial q then None else fs q)"

lemma partial_of_partial [simp]: "is_partial (partial_of q)"
  by (auto simp: is_partial_def partial_of_def has_suffix_def)

lemma partial_of_neq: "\<not> is_partial q \<Longrightarrow> partial_of q' \<noteq> q"
  using partial_of_partial by metis

lemma partial_of_inj:
  assumes "partial_of q = partial_of q'" and "q \<noteq> []" and "q' \<noteq> []"
  shows "q = q'"
proof -
  from assms have "butlast q = butlast q'" "last q = last q'" by (simp_all add: partial_of_def)
  with assms(2,3) show ?thesis by (metis append_butlast_last_id)
qed

lemma visible_partial [simp]: "visible (fs(partial_of q := v)) = visible fs"
  by (auto simp: visible_def fun_eq_iff)

lemma visible_commit:
  "\<not> is_partial q \<Longrightarrow> visible (fs(partial_of q := None, q \<mapsto> d)) = (visible fs)(q \<mapsto> d)"
  by (auto simp: visible_def fun_eq_iff)

section \<open>Messages between conductor and agents\<close>

record sync_chunk =
  ck_SyncID :: string
  ck_Path :: string
  ck_Index :: int
  ck_Data :: string
  ck_EOF :: bool
  ck_SHA256 :: string
  ck_Gone :: bool
  ck_Err :: string

record finish_result =
  fr_Copied :: int
  fr_Skipped :: int
  fr_Failed :: "string list"
  fr_Errors :: int

section \<open>Hashes in hexadecimal\<close>

definition hex_digit :: "nat \<Rightarrow> char" where
  "hex_digit n = (if n < 10 then char_of (48 + n) else char_of (87 + n))"

definition hex_encode :: "string \<Rightarrow> string" where
  "hex_encode bs = concat (map (\<lambda>c. [hex_digit (of_char c div 16), hex_digit (of_char c mod 16)]) bs)"

lemma hex_digit_plain: "n < 16 \<Longrightarrow> hex_digit n \<noteq> CHR '' '' \<and> hex_digit n \<noteq> CHR 0x0A"
proof -
  assume n: "n < 16"
  show ?thesis
  proof (cases "n < 10")
    case True
    then have "(of_char (hex_digit n) :: nat) = 48 + n" by (simp add: hex_digit_def)
    then show ?thesis by auto
  next
    case False
    with n have "(of_char (hex_digit n) :: nat) = 87 + n" by (simp add: hex_digit_def)
    then show ?thesis by auto
  qed
qed

lemma hex_encode_plain: "CHR '' '' \<notin> set (hex_encode bs) \<and> CHR 0x0A \<notin> set (hex_encode bs)"
proof -
  have "c \<noteq> CHR '' '' \<and> c \<noteq> CHR 0x0A" if c: "c \<in> set (hex_encode bs)" for c
  proof -
    from c obtain b where "c \<in> {hex_digit (of_char b div 16), hex_digit (of_char b mod 16)}"
      unfolding hex_encode_def by auto
    moreover have "(of_char b :: nat) div 16 < 16" using nat_of_char_less_256 [of b] by linarith
    ultimately show ?thesis using hex_digit_plain by auto
  qed
  then show ?thesis by blast
qed

section \<open>No path escapes its folder\<close>

lemma push_abs_base:
  assumes "st = [] \<or> last st \<noteq> ''..''" and "''..'' \<notin> set st" and "push_rel st c = [] \<or> last (push_rel st c) \<noteq> ''..''"
  shows "''..'' \<notin> set (push_rel st c) \<and> push_abs (st @ b) c = push_rel st c @ b"
  using assms by (cases st) (auto simp: push_rel.simps push_abs.simps split: if_splits)

lemma push_rel_bottom:
  assumes "st \<noteq> []" and "last st = ''..''"
  shows "push_rel st c \<noteq> [] \<and> last (push_rel st c) = ''..''"
  using assms by (cases st; cases "tl st") (auto simp: push_rel.simps)

lemma push_all:
  assumes "foldl push_rel [] cs = [] \<or> last (foldl push_rel [] cs) \<noteq> ''..''"
  shows "''..'' \<notin> set (foldl push_rel [] cs) \<and> foldl push_abs b cs = foldl push_rel [] cs @ b"
  using assms
proof (induction cs rule: rev_induct)
  case (snoc c cs)
  let ?st = "foldl push_rel [] cs"
  have "?st = [] \<or> last ?st \<noteq> ''..''"
    using snoc.prems push_rel_bottom [of ?st c] by auto
  with snoc.IH push_abs_base [of ?st c b] snoc.prems this show ?case by simp
qed simp

lemma syncRelPath_base:
  assumes "syncRelPath root rel = Inr q"
  shows "q = clean_abs (parts root) @ clean_rel rel \<and> ''..'' \<notin> set (clean_rel rel)"
proof -
  from assms have q: "q = clean_abs (parts root @ parts rel)"
    and l: "case clean_rel rel of [] \<Rightarrow> True | c # _ \<Rightarrow> c \<noteq> ''..''"
    by (auto simp: syncRelPath_def IsLocal_def split: if_splits)
  let ?st = "foldl push_rel [] (parts rel)"
  have "?st = [] \<or> last ?st \<noteq> ''..''"
  proof (cases "clean_rel rel")
    case Nil
    then show ?thesis by (simp add: clean_rel_def)
  next
    case (Cons c cs)
    then have "?st = rev cs @ [c]" unfolding clean_rel_def by (metis rev.simps(2) rev_rev_ident)
    with l Cons show ?thesis by simp
  qed
  from push_all [OF this, of "foldl push_abs [] (parts root)"] show ?thesis
    by (simp add: q clean_abs_def clean_rel_def)
qed

text \<open>
  a path the conductor names stays in its folder: what \<open>syncRelPath\<close> accepts, joined to an absolute
  root, is the root's path followed by components none of which is \<open>..\<close>.
\<close>

theorem syncRelPath_contained:
  assumes "syncRelPath root rel = Inr q"
  shows "\<exists>cs. q = clean_abs (parts root) @ cs \<and> ''..'' \<notin> set cs \<and> cs = clean_rel rel"
  using syncRelPath_base [OF assms] by blast

theorem syncRelPath_contained_witness:
  "syncRelPath ''/srv/media'' ''a/../b'' = Inr [''srv'', ''media'', ''b'']
   \<and> (\<exists>cs. [''srv'', ''media'', ''b''] = clean_abs (parts ''/srv/media'') @ cs)"
proof -
  have r: "syncRelPath ''/srv/media'' ''a/../b'' = Inr [''srv'', ''media'', ''b'']" by code_simp
  from syncRelPath_contained [OF r] r show ?thesis by blast
qed

end
