(* ===== verification/FileSyncPlan.thy ===== *)
theory FileSyncPlan
  imports SyncPaths
begin

text \<open>
  The planning of a folder sync, \<open>internal/server/filesync/plan.go\<close>: from each node's listing, which
  node sends each file to which others and what each node deletes.  A map the code ranges over is an
  association list, its order the iteration order; a map it only looks up is a function whose default
  is the zero value.  A node is compared by its identifier as a word, which orders as its bytes and as
  its textual form do.
\<close>

record sync_file =
  sf_Path :: string
  sf_Size :: int
  sf_SHA256 :: string
  sf_MTime :: int

text \<open>\<open>queries.FileSyncRecord\<close>: what two-way sync remembers of a folder.\<close>

record sync_record =
  sr_Files :: "(uuid \<times> string gomap) list"
  sr_SyncedAt :: "uuid \<rightharpoonup> instant"
  sr_Deleted :: "(string \<times> bool) list"

record plan =
  pl_sends :: "(uuid \<times> (string \<times> uuid list) list) list"
  pl_copies :: "uuid \<Rightarrow> int"
  pl_bytes :: "uuid \<Rightarrow> int"
  pl_deletes :: "uuid \<Rightarrow> string list"
  pl_files :: "string gomap"
  pl_deleted :: "string list"
  pl_conflicts :: "string list"

type_synonym version = "uuid \<times> sync_file"
type_synonym listing = "(uuid \<times> sync_file list) list"
type_synonym holdings = "(uuid \<times> sync_file gomap) list"

definition newPlan :: plan where
  "newPlan = \<lparr>pl_sends = [], pl_copies = (\<lambda>_. 0), pl_bytes = (\<lambda>_. 0), pl_deletes = (\<lambda>_. []),
     pl_files = [], pl_deleted = [], pl_conflicts = []\<rparr>"

text \<open>A lookup in a map of maps or of lists: a missing key reads as empty.\<close>

definition at_key :: "('k \<times> 'v list) list \<Rightarrow> 'k \<Rightarrow> 'v list" where
  "at_key m k = (case map_of m k of None \<Rightarrow> [] | Some v \<Rightarrow> v)"

definition plan_copy :: "plan \<Rightarrow> uuid \<Rightarrow> uuid \<Rightarrow> sync_file \<Rightarrow> plan" where
  "plan_copy p a b f =
     (let r = at_key (pl_sends p) a
      in p\<lparr>pl_sends := AList.update a (AList.update (sf_Path f) (at_key r (sf_Path f) @ [b]) r) (pl_sends p),
           pl_copies := (pl_copies p)(b := pl_copies p b + 1),
           pl_bytes := (pl_bytes p)(b := wrap64 (pl_bytes p b + sf_Size f))\<rparr>)"

definition plan_delete :: "plan \<Rightarrow> uuid \<Rightarrow> string \<Rightarrow> plan" where
  "plan_delete p n path = p\<lparr>pl_deletes := (pl_deletes p)(n := pl_deletes p n @ [path])\<rparr>"

definition index_file :: "uuid \<Rightarrow> sync_file \<Rightarrow> plan \<times> sync_file gomap \<Rightarrow> plan \<times> sync_file gomap" where
  "index_file node f s =
     (if has_suffix SyncPartialSuffix (sf_Path f) then (plan_delete (fst s) node (sf_Path f), snd s)
      else (fst s, AList.update (sf_Path f) f (snd s)))"

definition plan_index :: "plan \<Rightarrow> uuid \<Rightarrow> sync_file list \<Rightarrow> plan \<times> sync_file gomap" where
  "plan_index p node files = fold (index_file node) files (p, [])"

text \<open>Every node's listing indexed in turn.\<close>

fun index_all :: "plan \<Rightarrow> listing \<Rightarrow> plan \<times> holdings" where
  "index_all p [] = (p, [])"
| "index_all p ((node, files) # ls) =
     (let (p', m) = plan_index p node files; (p'', have) = index_all p' ls in (p'', (node, m) # have))"

definition file_at :: "holdings \<Rightarrow> uuid \<Rightarrow> string \<rightharpoonup> sync_file" where
  "file_at have n path = map_of (at_key have n) path"

text \<open>\<open>have[node][path].SHA256\<close>: empty for a file the node does not hold.\<close>

definition sha_at :: "holdings \<Rightarrow> uuid \<Rightarrow> string \<Rightarrow> string" where
  "sha_at have n path = (case file_at have n path of None \<Rightarrow> [] | Some f \<Rightarrow> sf_SHA256 f)"

definition sortDeletes :: "plan \<Rightarrow> plan" where
  "sortDeletes p = p\<lparr>pl_deletes := (\<lambda>n. sort (pl_deletes p n))\<rparr>"

section \<open>Comparing versions\<close>

definition cmp :: "'a::linorder \<Rightarrow> 'a \<Rightarrow> int" where
  "cmp a b = (if a < b then - 1 else if a = b then 0 else 1)"

fun cmp_or :: "int list \<Rightarrow> int" where
  "cmp_or [] = 0"
| "cmp_or (c # cs) = (if c \<noteq> 0 then c else cmp_or cs)"

text \<open>\<open>slices.MaxFunc\<close>: the first of the largest elements.\<close>

definition max_func :: "('a \<Rightarrow> 'a \<Rightarrow> int) \<Rightarrow> 'a list \<Rightarrow> 'a" where
  "max_func c xs = foldl (\<lambda>m y. if c y m > 0 then y else m) (hd xs) (tl xs)"

definition newer :: "version \<Rightarrow> version \<Rightarrow> int" where
  "newer a b = cmp_or [cmp (sf_MTime (snd a)) (sf_MTime (snd b)),
     cmp (sf_SHA256 (snd a)) (sf_SHA256 (snd b)), cmp (fst a) (fst b)]"

text \<open>\<open>differ\<close>; the caller's slice is not empty.\<close>

fun differ :: "version list \<Rightarrow> bool" where
  "differ [] = False"
| "differ (v # vs) = list_ex (\<lambda>w. sf_SHA256 (snd w) \<noteq> sf_SHA256 (snd v)) vs"

text \<open>The zero \<open>time.Time\<close>, 1 January of year 1.\<close>

definition zero_time :: instant where
  "zero_time = - 62135596800 * second"

definition synced_at :: "sync_record \<Rightarrow> uuid \<Rightarrow> instant" where
  "synced_at rec n = (case sr_SyncedAt rec n of None \<Rightarrow> zero_time | Some t \<Rightarrow> t)"

definition later_synced :: "sync_record \<Rightarrow> version \<Rightarrow> version \<Rightarrow> int" where
  "later_synced rec a b = cmp_or [cmp (synced_at rec (fst a)) (synced_at rec (fst b)), newer a b]"

section \<open>The two-way plan\<close>

definition known_version :: "sync_record \<Rightarrow> string \<Rightarrow> string \<Rightarrow> bool" where
  "known_version rec path sha = list_ex (\<lambda>(_, files). map_of files path = Some sha) (sr_Files rec)"

record classes =
  cs_deleted :: bool
  cs_changed :: "version list"
  cs_kept :: "version list"
  cs_fresh :: "version list"

text \<open>The switch of the inner loop: what one node's copy, or its absence, says about a path.\<close>

definition classify :: "holdings \<Rightarrow> sync_record \<Rightarrow> string \<Rightarrow> uuid \<Rightarrow> classes \<Rightarrow> classes" where
  "classify have rec path node s =
     (case map_of (sr_Files rec) node of
        None \<Rightarrow> (case file_at have node path of
            Some f \<Rightarrow> s\<lparr>cs_fresh := cs_fresh s @ [(node, f)]\<rparr>
          | None \<Rightarrow> s)
      | Some old \<Rightarrow> (case file_at have node path of
            Some f \<Rightarrow> if known_version rec path (sf_SHA256 f) then s\<lparr>cs_kept := cs_kept s @ [(node, f)]\<rparr>
                      else s\<lparr>cs_changed := cs_changed s @ [(node, f)]\<rparr>
          | None \<Rightarrow> if map_of old path \<noteq> None then s\<lparr>cs_deleted := True\<rparr> else s))"

definition path_classes :: "holdings \<Rightarrow> sync_record \<Rightarrow> uuid list \<Rightarrow> string \<Rightarrow> classes" where
  "path_classes have rec nodes path =
     fold (classify have rec path) nodes
       \<lparr>cs_deleted = (map_of (sr_Deleted rec) path = Some True), cs_changed = [], cs_kept = [], cs_fresh = []\<rparr>"

datatype verdict = Spread version bool | Remove | Nothing

definition path_verdict :: "holdings \<Rightarrow> sync_record \<Rightarrow> uuid list \<Rightarrow> string \<Rightarrow> verdict" where
  "path_verdict have rec nodes path =
     (let s = path_classes have rec nodes path
      in if cs_changed s \<noteq> [] then Spread (max_func newer (cs_changed s)) (cs_deleted s \<or> differ (cs_changed s))
         else if cs_deleted s then Remove
         else if cs_kept s \<noteq> [] then Spread (max_func (later_synced rec) (cs_kept s)) False
         else if cs_fresh s \<noteq> [] then Spread (max_func newer (cs_fresh s)) (differ (cs_fresh s))
         else Nothing)"

definition spread_to :: "holdings \<Rightarrow> string \<Rightarrow> version \<Rightarrow> uuid \<Rightarrow> plan \<Rightarrow> plan" where
  "spread_to have path win node p =
     (if sha_at have node path \<noteq> sf_SHA256 (snd win) then plan_copy p (fst win) node (snd win) else p)"

definition remove_from :: "holdings \<Rightarrow> string \<Rightarrow> uuid \<Rightarrow> plan \<Rightarrow> plan" where
  "remove_from have path node p =
     (if file_at have node path \<noteq> None then plan_delete p node path else p)"

definition path_step :: "holdings \<Rightarrow> sync_record \<Rightarrow> uuid list \<Rightarrow> string \<Rightarrow> plan \<Rightarrow> plan" where
  "path_step have rec nodes path p =
     (case path_verdict have rec nodes path of
        Spread win conflict \<Rightarrow>
          fold (spread_to have path win) nodes
            (p\<lparr>pl_conflicts := (if conflict then pl_conflicts p @ [path] else pl_conflicts p),
               pl_files := AList.update path (sf_SHA256 (snd win)) (pl_files p)\<rparr>)
      | Remove \<Rightarrow>
          fold (remove_from have path) nodes (p\<lparr>pl_deleted := pl_deleted p @ [path]\<rparr>)
      | Nothing \<Rightarrow> p)"

text \<open>The paths to look at: what a listed node holds or has on record, and the delete markers.\<close>

definition plan_paths :: "holdings \<Rightarrow> sync_record \<Rightarrow> string list" where
  "plan_paths have rec =
     remdups (concat (map (\<lambda>(node, m). map fst m @ map fst (at_key (sr_Files rec) node)) have)
              @ map fst (sr_Deleted rec))"

definition twoWayPlan :: "listing \<Rightarrow> sync_record \<Rightarrow> plan" where
  "twoWayPlan ls rec =
     (let (p0, have) = index_all newPlan ls;
          p = fold (path_step have rec (map fst ls)) (plan_paths have rec) p0;
          p = sortDeletes p
      in p\<lparr>pl_deleted := sort (pl_deleted p), pl_conflicts := sort (pl_conflicts p)\<rparr>)"

section \<open>The WAL archive of a repository\<close>

definition isIndexFile :: "string \<Rightarrow> bool" where
  "isIndexFile p = (path_base p \<in> {''backup.info'', ''backup.info.copy'', ''archive.info'', ''archive.info.copy''})"

definition isWAL :: "string \<Rightarrow> bool" where
  "isWAL p = (has_prefix ''archive/'' p \<and> count_list p CHR ''/'' \<ge> 3 \<and> \<not> isIndexFile p)"

definition walSegment :: "string \<Rightarrow> string" where
  "walSegment p = (let (dir, base) = path_split p in dir @ fst (cut base ''-''))"

text \<open>What \<open>pgbackrest info --output=json\<close> holds, once parsed.\<close>

record archive_info =
  ai_RepoKey :: int
  ai_ID :: string
  ai_Min :: string

record stanza_info =
  si_Name :: string
  si_Archive :: "archive_info list"
  si_Repo :: "(int \<times> int \<times> string) list"

text \<open>\<open>protocol.PGBackRestRepoReadable\<close>: a repository with no status error, or with no backup yet.\<close>

definition PGBackRestRepoReadable :: "int \<Rightarrow> bool" where
  "PGBackRestRepoReadable code = (code = 0 \<or> code = 2)"

definition oldest_kept :: "int \<Rightarrow> archive_info list \<Rightarrow> string gomap" where
  "oldest_kept repo as =
     fold (\<lambda>a m. if ai_RepoKey a = repo \<and> length (ai_Min a) = 24
                 then AList.update (ai_ID a) (drop 8 (ai_Min a)) m else m) as []"

text \<open>The predicate \<open>walKeep\<close> returns; it is asked about WAL files only, whose path has a third part.\<close>

definition wal_kept :: "string gomap \<Rightarrow> string \<Rightarrow> bool" where
  "wal_kept oldest p =
     (let parts = split_on CHR ''/'' p; seg = last parts
      in case map_of oldest (parts ! 2) of
           None \<Rightarrow> False
         | Some mn \<Rightarrow> length seg \<ge> 24 \<and> mn \<le> take 16 (drop 8 seg))"

definition walKeep :: "stanza_info list option \<Rightarrow> string \<Rightarrow> int \<Rightarrow> string + (string \<Rightarrow> bool)" where
  "walKeep info stanza repo = (case info of
      None \<Rightarrow> Inl ''reading pgbackrest info''
    | Some stanzas \<Rightarrow>
        (case find (\<lambda>st. si_Name st = stanza) stanzas of
           None \<Rightarrow> Inl (''pgbackrest info: no stanza '' @ stanza)
         | Some st \<Rightarrow>
             (case find (\<lambda>(key, code, _). key = repo \<and> \<not> PGBackRestRepoReadable code) (si_Repo st) of
                Some (_, _, message) \<Rightarrow> Inl (''pgbackrest info: repo'' @ itoa repo @ '': '' @ message)
              | None \<Rightarrow> Inr (wal_kept (oldest_kept repo (si_Archive st))))))"

section \<open>The backup plan\<close>

text \<open>The versions of each WAL segment seen so far, and the segments each node holds.\<close>

type_synonym segments = "(string \<times> string list) list \<times> (uuid \<Rightarrow> string list)"

definition note_wal :: "uuid \<Rightarrow> string \<times> sync_file \<Rightarrow> segments \<Rightarrow> segments" where
  "note_wal node pf s =
     (let (path, f) = pf; (versions, holds) = s; seg = walSegment path
      in if isWAL path
         then (AList.update seg (List.insert (path @ '' '' @ sf_SHA256 f) (at_key versions seg)) versions,
               holds(node := List.insert seg (holds node)))
         else s)"

definition all_segments :: "holdings \<Rightarrow> uuid list \<Rightarrow> segments" where
  "all_segments have nodes =
     fold (\<lambda>node. fold (note_wal node) (at_key have node)) nodes ([], \<lambda>_. [])"

definition conflicted_segments :: "(string \<times> string list) list \<Rightarrow> string list" where
  "conflicted_segments versions = map fst (filter (\<lambda>(seg, v). length v > 1) versions)"

definition gather_file ::
  "string list \<Rightarrow> (string \<Rightarrow> bool) \<Rightarrow> uuid \<Rightarrow> string \<times> sync_file \<Rightarrow> version gomap \<Rightarrow> version gomap" where
  "gather_file conflicted keep node pf want =
     (let (path, f) = pf
      in if map_of want path \<noteq> None \<or> \<not> isWAL path \<or> walSegment path \<in> set conflicted then want
         else if has_suffix ''.history'' path \<or> keep path then AList.update path (node, f) want
         else want)"

definition wanted_files ::
  "uuid \<Rightarrow> holdings \<Rightarrow> uuid list \<Rightarrow> string list \<Rightarrow> (string \<Rightarrow> bool) \<Rightarrow> version gomap" where
  "wanted_files source have nodes conflicted keep =
     fold (\<lambda>node. fold (gather_file conflicted keep node) (at_key have node)) nodes
       (map (\<lambda>(path, f). (path, (source, f))) (at_key have source))"

definition mirror_file ::
  "holdings \<Rightarrow> string list \<Rightarrow> (uuid \<Rightarrow> string list) \<Rightarrow> uuid \<Rightarrow> string \<times> version \<Rightarrow> plan \<Rightarrow> plan" where
  "mirror_file have conflicted holds node pv p =
     (let (path, v) = pv
      in if sha_at have node path \<noteq> sf_SHA256 (snd v)
            \<and> \<not> (isWAL path \<and> walSegment path \<in> set (holds node) \<and> walSegment path \<in> set conflicted)
         then plan_copy p (fst v) node (snd v) else p)"

definition expire_file ::
  "version gomap \<Rightarrow> string list \<Rightarrow> uuid \<Rightarrow> string \<times> sync_file \<Rightarrow> plan \<Rightarrow> plan" where
  "expire_file want conflicted node pf p =
     (let path = fst pf
      in if map_of want path = None \<and> \<not> (isWAL path \<and> walSegment path \<in> set conflicted)
         then plan_delete p node path else p)"

definition mirror_node ::
  "uuid \<Rightarrow> holdings \<Rightarrow> string list \<Rightarrow> (uuid \<Rightarrow> string list) \<Rightarrow> version gomap \<Rightarrow> uuid \<Rightarrow> plan \<Rightarrow> plan" where
  "mirror_node source have conflicted holds want node p =
     (let p = fold (mirror_file have conflicted holds node) want p
      in if node = source then p else fold (expire_file want conflicted node) (at_key have node) p)"

definition backupPlan :: "uuid \<Rightarrow> listing \<Rightarrow> (string \<Rightarrow> bool) \<Rightarrow> plan" where
  "backupPlan source ls keep =
     (let nodes = sort (map fst ls);
          (p0, have) = index_all newPlan (map (\<lambda>n. (n, at_key ls n)) nodes);
          (versions, holds) = all_segments have nodes;
          conflicted = conflicted_segments versions;
          want = wanted_files source have nodes conflicted keep;
          p = fold (mirror_node source have conflicted holds want) nodes (p0\<lparr>pl_conflicts := conflicted\<rparr>);
          p = sortDeletes p
      in p\<lparr>pl_conflicts := sort (pl_conflicts p)\<rparr>)"

section \<open>Order and size of the batches\<close>

definition batchBytes :: nat where
  "batchBytes = 2 ^ 20"

text \<open>The order of \<open>sendOrder\<close>: index files after the others, each group by path.\<close>

definition sendOrder :: "(string \<times> uuid list) list \<Rightarrow> string list" where
  "sendOrder routes = sort_key isIndexFile (sort (map fst routes))"

text \<open>The loop of \<open>batches\<close>: the finished groups, the open one, and its size.\<close>

fun batches_loop :: "string list \<Rightarrow> nat \<Rightarrow> string list \<Rightarrow> string list list" where
  "batches_loop cur sz [] = [cur]"
| "batches_loop cur sz (p # ps) =
     (if sz + length p > batchBytes then cur # batches_loop [p] (length p + 4) ps
      else batches_loop (cur @ [p]) (sz + length p + 4) ps)"

fun batches :: "string list \<Rightarrow> string list list" where
  "batches [] = []"
| "batches (p # ps) = batches_loop [p] (length p + 4) ps"

end
