(* ===== verification/FileSyncPlanProps.thy ===== *)
theory FileSyncPlanProps
  imports FileSyncPlan
begin

text \<open>
  What a sync plan achieves: \<open>after_plan\<close> is what a node holds once every copy and every delete of the
  plan has been carried out; a two-way plan makes all listed nodes equal, a backup plan makes them
  copies of the main server's repository.
\<close>

section \<open>Carrying out a plan\<close>

definition receivers :: "plan \<Rightarrow> uuid \<Rightarrow> string \<Rightarrow> uuid list" where
  "receivers p a path = at_key (at_key (pl_sends p) a) path"

definition senders_to :: "plan \<Rightarrow> uuid \<Rightarrow> string \<Rightarrow> uuid list" where
  "senders_to p n path = filter (\<lambda>a. n \<in> set (receivers p a path)) (map fst (pl_sends p))"

text \<open>The content a node has under a path afterwards: copies first, then deletes, as the run does them.\<close>

definition after_plan :: "plan \<Rightarrow> holdings \<Rightarrow> uuid \<Rightarrow> string \<Rightarrow> string option" where
  "after_plan p have n path =
     (if path \<in> set (pl_deletes p n) then None
      else case senders_to p n path of
             a # _ \<Rightarrow> map_option sf_SHA256 (file_at have a path)
           | [] \<Rightarrow> map_option sf_SHA256 (file_at have n path))"

lemma at_key_update: "at_key (AList.update k v m) k' = (if k = k' then v else at_key m k')"
  by (simp add: at_key_def update_conv')

lemma receivers_copy:
  "receivers (plan_copy p a b f) a' path =
     (if a = a' \<and> path = sf_Path f then receivers p a' path @ [b] else receivers p a' path)"
  by (auto simp: receivers_def plan_copy_def Let_def at_key_update)

lemma receivers_nonempty_key: "receivers p a path \<noteq> [] \<Longrightarrow> a \<in> fst ` set (pl_sends p)"
  by (auto simp: receivers_def at_key_def map_of_eq_None_iff split: option.splits if_splits)
     (metis map_of_eq_None_iff option.distinct(1))

lemma senders_to_set: "a \<in> set (senders_to p n path) \<longleftrightarrow> n \<in> set (receivers p a path)"
  using receivers_nonempty_key [of p a path] by (cases "receivers p a path = []") (auto simp: senders_to_def)

text \<open>What the plan says about one path.\<close>

definition view :: "plan \<Rightarrow> string \<Rightarrow> (uuid \<Rightarrow> bool) \<times> (uuid \<Rightarrow> uuid list) \<times> string option" where
  "view p path = (\<lambda>n. path \<in> set (pl_deletes p n), \<lambda>a. receivers p a path, map_of (pl_files p) path)"

lemma view_simps [simp]:
  "view (plan_delete p n path) path' =
     (if path = path' then ((fst (view p path'))(n := True), snd (view p path')) else view p path')"
  "view (p\<lparr>pl_conflicts := cs\<rparr>) path' = view p path'"
  "view (p\<lparr>pl_deleted := cs\<rparr>) path' = view p path'"
  "view (sortDeletes p) path' = view p path'"
  by (auto simp: view_def plan_delete_def receivers_def sortDeletes_def fun_eq_iff)

lemma view_copy:
  "view (plan_copy p a b f) path =
     (if path = sf_Path f
      then (fst (view p path), (fst (snd (view p path)))(a := fst (snd (view p path)) a @ [b]), snd (snd (view p path)))
      else view p path)"
  by (auto simp: view_def receivers_copy fun_eq_iff) (auto simp: plan_copy_def Let_def)

lemma view_files:
  "view (p\<lparr>pl_conflicts := c, pl_files := AList.update path x (pl_files p)\<rparr>) path' =
     (if path' = path then (fst (view p path), fst (snd (view p path)), Some x) else view p path')"
  by (auto simp: view_def receivers_def update_conv')

section \<open>Indexing\<close>

definition paths_ok :: "sync_file gomap \<Rightarrow> bool" where
  "paths_ok m \<longleftrightarrow> (\<forall>path f. map_of m path = Some f \<longrightarrow> sf_Path f = path \<and> \<not> has_suffix SyncPartialSuffix path)"

lemma plan_index_props:
  assumes "paths_ok m"
  shows "paths_ok (snd (fold (index_file node) files (p, m)))
    \<and> (\<not> has_suffix SyncPartialSuffix path \<longrightarrow> view (fst (fold (index_file node) files (p, m))) path = view p path)"
  using assms
proof (induction files arbitrary: p m)
  case (Cons f fs)
  show ?case
  proof (cases "has_suffix SyncPartialSuffix (sf_Path f)")
    case True
    then show ?thesis using Cons by (auto simp: index_file_def)
  next
    case False
    then have "paths_ok (AList.update (sf_Path f) f m)"
      using Cons.prems by (auto simp: paths_ok_def update_conv')
    from Cons.IH [OF this, of p] False show ?thesis by (simp add: index_file_def)
  qed
qed simp

lemma index_all_props:
  assumes "index_all p ls = (p', hv)"
  shows "map fst hv = map fst ls \<and> (\<forall>n m. (n, m) \<in> set hv \<longrightarrow> paths_ok m)
    \<and> (\<not> has_suffix SyncPartialSuffix path \<longrightarrow> view p' path = view p path)"
  using assms
proof (induction ls arbitrary: p p' hv)
  case (Cons l ls)
  obtain n files where l: "l = (n, files)" by (cases l)
  obtain p1 m where i: "plan_index p n files = (p1, m)" by (cases "plan_index p n files")
  obtain p2 h where r: "index_all p1 ls = (p2, h)" by (cases "index_all p1 ls")
  from Cons.prems l i r have e: "p' = p2" "hv = (n, m) # h" by simp_all
  have "paths_ok []" by (simp add: paths_ok_def)
  from plan_index_props [OF this, of n files p path] i
  have "paths_ok m" "\<not> has_suffix SyncPartialSuffix path \<longrightarrow> view p1 path = view p path"
    by (simp_all add: plan_index_def)
  with Cons.IH [OF r] show ?case by (auto simp: e l)
qed simp

lemma file_at_path:
  assumes "index_all p ls = (p', have)" and "file_at have n path = Some f"
  shows "sf_Path f = path" "\<not> has_suffix SyncPartialSuffix path" "n \<in> fst ` set ls"
proof -
  from assms(2) obtain m where m: "map_of have n = Some m" "map_of m path = Some f"
    by (auto simp: file_at_def at_key_def split: option.splits)
  then have nm: "(n, m) \<in> set have" by (simp add: map_of_SomeD)
  with index_all_props [OF assms(1), of path] have "paths_ok m" by blast
  with m show "sf_Path f = path" "\<not> has_suffix SyncPartialSuffix path" by (auto simp: paths_ok_def)
  from nm have "n \<in> fst ` set have" by force
  with index_all_props [OF assms(1), of path] show "n \<in> fst ` set ls" by (metis list.set_map)
qed

section \<open>One path of a two-way plan\<close>

lemma view_spread_to:
  assumes "sf_Path (snd win) = path"
  shows "view (spread_to hv path win n p) path' =
    (if path' = path \<and> sha_at hv n path \<noteq> sf_SHA256 (snd win)
     then (fst (view p path), (fst (snd (view p path)))(fst win := fst (snd (view p path)) (fst win) @ [n]),
           snd (snd (view p path)))
     else view p path')"
  using assms by (auto simp: spread_to_def view_copy)

lemma view_spread:
  assumes "sf_Path (snd win) = path"
  shows "view (fold (spread_to hv path win) nodes p) path' =
    (if path' = path
     then (fst (view p path), (fst (snd (view p path)))(fst win := fst (snd (view p path)) (fst win)
             @ filter (\<lambda>n. sha_at hv n path \<noteq> sf_SHA256 (snd win)) nodes), snd (snd (view p path)))
     else view p path')"
proof (induction nodes arbitrary: p)
  case (Cons n ns)
  show ?case unfolding fold.simps o_apply Cons.IH view_spread_to [OF assms] by (auto simp: fun_eq_iff)
qed simp

lemma view_remove_from:
  "view (remove_from hv path n p) path' =
    (if path' = path \<and> file_at hv n path \<noteq> None then ((fst (view p path))(n := True), snd (view p path))
     else view p path')"
  by (auto simp: remove_from_def)

lemma view_remove:
  "view (fold (remove_from hv path) nodes p) path' =
    (if path' = path
     then (\<lambda>n. fst (view p path) n \<or> n \<in> set nodes \<and> file_at hv n path \<noteq> None, snd (view p path))
     else view p path')"
proof (induction nodes arbitrary: p)
  case (Cons n ns)
  show ?case unfolding fold.simps o_apply Cons.IH view_remove_from by (auto simp: fun_eq_iff)
qed simp

text \<open>The decision about a path as it shows in the plan.\<close>

definition verdict_view :: "holdings \<Rightarrow> uuid list \<Rightarrow> string \<Rightarrow> verdict \<Rightarrow>
    (uuid \<Rightarrow> bool) \<times> (uuid \<Rightarrow> uuid list) \<times> string option" where
  "verdict_view hv nodes path v = (case v of
      Spread win _ \<Rightarrow> (\<lambda>_. False,
        (\<lambda>_. [])(fst win := filter (\<lambda>n. sha_at hv n path \<noteq> sf_SHA256 (snd win)) nodes), Some (sf_SHA256 (snd win)))
    | Remove \<Rightarrow> (\<lambda>n. n \<in> set nodes \<and> file_at hv n path \<noteq> None, \<lambda>_. [], None)
    | Nothing \<Rightarrow> (\<lambda>_. False, \<lambda>_. [], None))"

definition winner_named :: "verdict \<Rightarrow> string \<Rightarrow> bool" where
  "winner_named v path = (case v of Spread win _ \<Rightarrow> sf_Path (snd win) = path | _ \<Rightarrow> True)"

lemma view_step_other:
  assumes "winner_named (path_verdict hv rec nodes path) path" and "path' \<noteq> path"
  shows "view (path_step hv rec nodes path p) path' = view p path'"
  using assms
  by (cases "path_verdict hv rec nodes path")
     (simp_all add: path_step_def view_spread view_remove winner_named_def view_files)

lemma view_step:
  assumes "winner_named (path_verdict hv rec nodes path) path" and "view p path = (\<lambda>_. False, \<lambda>_. [], None)"
  shows "view (path_step hv rec nodes path p) path = verdict_view hv nodes path (path_verdict hv rec nodes path)"
  using assms
  by (cases "path_verdict hv rec nodes path")
     (simp_all add: path_step_def view_spread view_remove winner_named_def view_files verdict_view_def)

lemma view_steps:
  assumes "\<And>path. winner_named (path_verdict hv rec nodes path) path"
    and "distinct ps" and "view p path = (\<lambda>_. False, \<lambda>_. [], None)"
  shows "view (fold (path_step hv rec nodes) ps p) path =
    (if path \<in> set ps then verdict_view hv nodes path (path_verdict hv rec nodes path)
     else (\<lambda>_. False, \<lambda>_. [], None))"
  using assms(2,3)
proof (induction ps arbitrary: p)
  case (Cons q qs)
  have keep: "view (fold (path_step hv rec nodes) qs p') path = view p' path" if "path \<notin> set qs" for p'
    using that by (induction qs arbitrary: p') (auto simp: view_step_other [OF assms(1)])
  show ?case
  proof (cases "q = path")
    case True
    with Cons.prems keep [of "path_step hv rec nodes q p"] show ?thesis
      by (simp add: view_step [OF assms(1)])
  next
    case False
    with Cons.prems have "view (path_step hv rec nodes q p) path = (\<lambda>_. False, \<lambda>_. [], None)"
      by (simp add: view_step_other [OF assms(1)])
    with Cons.IH [OF _ this] Cons.prems False show ?thesis by auto
  qed
qed simp

section \<open>The classes of a path's copies\<close>

definition recorded :: "sync_record \<Rightarrow> uuid \<Rightarrow> bool" where
  "recorded rec n = (map_of (sr_Files rec) n \<noteq> None)"

text \<open>A node whose record has the path and which does not hold it now.\<close>

definition lost :: "holdings \<Rightarrow> sync_record \<Rightarrow> string \<Rightarrow> uuid \<Rightarrow> bool" where
  "lost hv rec path n = (file_at hv n path = None
     \<and> (\<exists>old. map_of (sr_Files rec) n = Some old \<and> map_of old path \<noteq> None))"

lemma classify_simps:
  "cs_deleted (classify hv rec path n s) = (cs_deleted s \<or> lost hv rec path n)"
  "set (cs_changed (classify hv rec path n s)) = set (cs_changed s)
     \<union> {(n', f). n' = n \<and> file_at hv n path = Some f \<and> recorded rec n \<and> \<not> known_version rec path (sf_SHA256 f)}"
  "set (cs_kept (classify hv rec path n s)) = set (cs_kept s)
     \<union> {(n', f). n' = n \<and> file_at hv n path = Some f \<and> recorded rec n \<and> known_version rec path (sf_SHA256 f)}"
  "set (cs_fresh (classify hv rec path n s)) = set (cs_fresh s)
     \<union> {(n', f). n' = n \<and> file_at hv n path = Some f \<and> \<not> recorded rec n}"
  by (auto simp: classify_def lost_def recorded_def split: option.splits)

lemma classes_fold:
  "cs_deleted (fold (classify hv rec path) nodes s) \<longleftrightarrow> cs_deleted s \<or> (\<exists>n\<in>set nodes. lost hv rec path n)"
  "set (cs_changed (fold (classify hv rec path) nodes s)) = set (cs_changed s)
     \<union> {(n, f). n \<in> set nodes \<and> file_at hv n path = Some f \<and> recorded rec n \<and> \<not> known_version rec path (sf_SHA256 f)}"
  "set (cs_kept (fold (classify hv rec path) nodes s)) = set (cs_kept s)
     \<union> {(n, f). n \<in> set nodes \<and> file_at hv n path = Some f \<and> recorded rec n \<and> known_version rec path (sf_SHA256 f)}"
  "set (cs_fresh (fold (classify hv rec path) nodes s)) = set (cs_fresh s)
     \<union> {(n, f). n \<in> set nodes \<and> file_at hv n path = Some f \<and> \<not> recorded rec n}"
  by (induction nodes arbitrary: s) (auto simp: classify_simps)

lemma path_classes_sets:
  "cs_deleted (path_classes hv rec nodes path) \<longleftrightarrow>
     map_of (sr_Deleted rec) path = Some True \<or> (\<exists>n\<in>set nodes. lost hv rec path n)"
  "set (cs_changed (path_classes hv rec nodes path)) =
     {(n, f). n \<in> set nodes \<and> file_at hv n path = Some f \<and> recorded rec n \<and> \<not> known_version rec path (sf_SHA256 f)}"
  "set (cs_kept (path_classes hv rec nodes path)) =
     {(n, f). n \<in> set nodes \<and> file_at hv n path = Some f \<and> recorded rec n \<and> known_version rec path (sf_SHA256 f)}"
  "set (cs_fresh (path_classes hv rec nodes path)) =
     {(n, f). n \<in> set nodes \<and> file_at hv n path = Some f \<and> \<not> recorded rec n}"
  by (simp_all add: path_classes_def classes_fold)

lemma foldl_max_in: "foldl (\<lambda>m y. if c y m > 0 then y else m) x ys \<in> set (x # ys)"
  by (induction ys arbitrary: x) auto

lemma max_func_in: "xs \<noteq> [] \<Longrightarrow> max_func c xs \<in> set xs"
  using foldl_max_in [of c "hd xs" "tl xs"] by (simp add: max_func_def)

lemma max_func_key:
  fixes key :: "'a \<Rightarrow> 'k::linorder"
  assumes up: "\<And>a b. 0 < c a b \<Longrightarrow> key b \<le> key a" and down: "\<And>a b. \<not> 0 < c a b \<Longrightarrow> key a \<le> key b"
    and y: "y \<in> set xs"
  shows "key y \<le> key (max_func c xs)"
proof -
  have "key y \<le> key (foldl (\<lambda>m y. if c y m > 0 then y else m) x ys)" if "y \<in> set (x # ys)" for x ys
    using that
  proof (induction ys arbitrary: x)
    case (Cons z zs)
    have mono: "key x' \<le> key (foldl (\<lambda>m y. if c y m > 0 then y else m) x' ws)" for x' ws
      by (induction ws arbitrary: x') (auto intro: up order_trans)
    show ?case
    proof (cases "y \<in> set zs")
      case True
      with Cons.IH show ?thesis by simp
    next
      case False
      with Cons.prems have "y = x \<or> y = z" by auto
      then have "key y \<le> key (if c z x > 0 then z else x)" using up down by auto
      also have "\<dots> \<le> key (foldl (\<lambda>m y. if c y m > 0 then y else m) (if c z x > 0 then z else x) zs)"
        by (rule mono)
      finally show ?thesis by simp
    qed
  qed simp
  with y show ?thesis by (cases xs) (simp_all add: max_func_def)
qed

lemma newer_mtime:
  "0 < newer a b \<Longrightarrow> sf_MTime (snd b) \<le> sf_MTime (snd a)" "\<not> 0 < newer a b \<Longrightarrow> sf_MTime (snd a) \<le> sf_MTime (snd b)"
  by (auto simp: newer_def cmp_def split: if_splits)

lemma verdict_spread:
  assumes "path_verdict hv rec nodes path = Spread win conflict"
  shows "fst win \<in> set nodes" "file_at hv (fst win) path = Some (snd win)"
proof -
  let ?s = "path_classes hv rec nodes path"
  from assms have "win \<in> set (cs_changed ?s) \<union> set (cs_kept ?s) \<union> set (cs_fresh ?s)"
    using max_func_in by (auto simp: path_verdict_def Let_def split: if_splits)
  then show "fst win \<in> set nodes" "file_at hv (fst win) path = Some (snd win)"
    by (auto simp: path_classes_sets)
qed

lemma verdict_remove:
  assumes "path_verdict hv rec nodes path = Remove"
  shows "map_of (sr_Deleted rec) path = Some True \<or> (\<exists>n\<in>set nodes. lost hv rec path n)"
    and "n \<in> set nodes \<Longrightarrow> file_at hv n path = Some f \<Longrightarrow> recorded rec n \<Longrightarrow> known_version rec path (sf_SHA256 f)"
proof -
  from assms have d: "cs_deleted (path_classes hv rec nodes path)"
    and c: "set (cs_changed (path_classes hv rec nodes path)) = {}"
    by (auto simp: path_verdict_def Let_def split: if_splits)
  from d show "map_of (sr_Deleted rec) path = Some True \<or> (\<exists>n\<in>set nodes. lost hv rec path n)"
    by (simp add: path_classes_sets)
  from c show "n \<in> set nodes \<Longrightarrow> file_at hv n path = Some f \<Longrightarrow> recorded rec n \<Longrightarrow> known_version rec path (sf_SHA256 f)"
    unfolding path_classes_sets by auto
qed

lemma verdict_nothing:
  assumes "path_verdict hv rec nodes path = Nothing" and "n \<in> set nodes"
  shows "file_at hv n path = None"
proof -
  let ?s = "path_classes hv rec nodes path"
  from assms(1) have "set (cs_changed ?s) = {}" "set (cs_kept ?s) = {}" "set (cs_fresh ?s) = {}"
    by (auto simp: path_verdict_def Let_def split: if_splits)
  then have none: "(n, f) \<notin> set (cs_changed ?s)" "(n, f) \<notin> set (cs_kept ?s)" "(n, f) \<notin> set (cs_fresh ?s)" for f
    by simp_all
  show ?thesis
  proof (cases "file_at hv n path")
    case (Some f)
    with none [of f] assms(2) show ?thesis by (simp add: path_classes_sets)
  qed
qed

lemma verdict_changed:
  assumes "m \<in> set nodes" "file_at hv m path = Some f" "recorded rec m" "\<not> known_version rec path (sf_SHA256 f)"
  shows "\<exists>win conflict. path_verdict hv rec nodes path = Spread win conflict \<and> recorded rec (fst win)
    \<and> \<not> known_version rec path (sf_SHA256 (snd win)) \<and> sf_MTime f \<le> sf_MTime (snd win)"
proof -
  let ?c = "cs_changed (path_classes hv rec nodes path)"
  from assms have "(m, f) \<in> set ?c" by (simp add: path_classes_sets)
  then have ne: "?c \<noteq> []" by auto
  obtain w g where w: "max_func newer ?c = (w, g)" by (cases "max_func newer ?c")
  have "(w, g) \<in> set ?c" using max_func_in [OF ne, of newer] by (simp add: w)
  then have c: "recorded rec w" "\<not> known_version rec path (sf_SHA256 g)" by (simp_all add: path_classes_sets(2))
  have "sf_MTime (snd (m, f)) \<le> sf_MTime (snd (max_func newer ?c))"
    by (rule max_func_key [where key = "\<lambda>v. sf_MTime (snd v)", OF newer_mtime(1) newer_mtime(2) \<open>(m, f) \<in> set ?c\<close>])
  then have "sf_MTime f \<le> sf_MTime g" by (simp add: w)
  moreover have "\<exists>conflict. path_verdict hv rec nodes path = Spread (w, g) conflict"
    using ne by (simp add: path_verdict_def Let_def w)
  ultimately show ?thesis using c by fastforce
qed

lemma verdict_winner_named:
  assumes "index_all p ls = (p', hv)"
  shows "winner_named (path_verdict hv rec nodes path) path"
proof (cases "path_verdict hv rec nodes path")
  case (Spread win conflict)
  then show ?thesis using file_at_path(1) [OF assms verdict_spread(2) [OF Spread]] by (simp add: winner_named_def)
qed (simp_all add: winner_named_def)

section \<open>The whole two-way plan\<close>

lemma view_new: "view newPlan path = (\<lambda>_. False, \<lambda>_. [], None)"
  by (simp add: view_def newPlan_def receivers_def at_key_def)

lemma file_at_in_paths: "file_at hv n path = Some f \<Longrightarrow> path \<in> set (plan_paths hv rec)"
proof -
  assume "file_at hv n path = Some f"
  then obtain m where "map_of hv n = Some m" "map_of m path = Some f"
    by (auto simp: file_at_def at_key_def split: option.splits)
  then have "(n, m) \<in> set hv" "path \<in> set (map fst m)"
    by (auto dest: map_of_SomeD intro: rev_image_eqI)
  then show ?thesis by (auto simp: plan_paths_def)
qed

lemma twoWayPlan_view:
  assumes i: "index_all newPlan ls = (p0, hv)" and np: "\<not> has_suffix SyncPartialSuffix path"
  shows "view (twoWayPlan ls rec) path =
    (if path \<in> set (plan_paths hv rec) then verdict_view hv (map fst ls) path (path_verdict hv rec (map fst ls) path)
     else (\<lambda>_. False, \<lambda>_. [], None))"
proof -
  have "view p0 path = (\<lambda>_. False, \<lambda>_. [], None)" using index_all_props [OF i, of path] np view_new by simp
  moreover have "distinct (plan_paths hv rec)" by (simp add: plan_paths_def)
  ultimately have v: "view (fold (path_step hv rec (map fst ls)) (plan_paths hv rec) p0) path =
    (if path \<in> set (plan_paths hv rec) then verdict_view hv (map fst ls) path (path_verdict hv rec (map fst ls) path)
     else (\<lambda>_. False, \<lambda>_. [], None))"
    by (intro view_steps verdict_winner_named [OF i])
  show ?thesis by (simp add: twoWayPlan_def i Let_def v)
qed

lemma after_plan_view:
  "after_plan p hv n path =
     (if fst (view p path) n then None
      else case senders_to p n path of
             a # _ \<Rightarrow> map_option sf_SHA256 (file_at hv a path)
           | [] \<Rightarrow> map_option sf_SHA256 (file_at hv n path))"
  by (simp add: after_plan_def view_def)

lemma senders_view: "a \<in> set (senders_to p n path) \<longleftrightarrow> n \<in> set (fst (snd (view p path)) a)"
  by (simp add: senders_to_set view_def)

lemma after_plan_sender:
  assumes "\<not> fst (view p path) n" and "\<And>a. n \<in> set (fst (snd (view p path)) a) \<longleftrightarrow> a = src \<and> b"
  shows "after_plan p hv n path = map_option sf_SHA256 (file_at hv (if b then src else n) path)"
proof (cases "senders_to p n path")
  case Nil
  then have "a \<notin> set (senders_to p n path)" for a by simp
  then have "\<not> b" using assms(2) senders_view by blast
  with Nil assms(1) show ?thesis by (simp add: after_plan_view)
next
  case (Cons a as)
  then have "a \<in> set (senders_to p n path)" by simp
  then have "a = src \<and> b" using assms(2) senders_view by blast
  with Cons assms(1) show ?thesis by (simp add: after_plan_view)
qed

text \<open>
  C2: a two-way sync converges: after its copies and deletes every listed node holds, under each path
  that is not a leftover partial file, exactly what the plan says every node holds, and nothing where
  the plan has no entry.
\<close>

theorem twoWayPlan_converges:
  assumes i: "index_all newPlan ls = (p0, hv)" and n: "n \<in> fst ` set ls"
    and np: "\<not> has_suffix SyncPartialSuffix path"
    and sums: "\<And>m f. file_at hv m path = Some f \<Longrightarrow> sf_SHA256 f \<noteq> []"
  shows "after_plan (twoWayPlan ls rec) hv n path = map_of (pl_files (twoWayPlan ls rec)) path"
proof -
  let ?p = "twoWayPlan ls rec" and ?v = "path_verdict hv rec (map fst ls) path"
  have n': "n \<in> set (map fst ls)" using n by simp
  have files: "map_of (pl_files ?p) path = snd (snd (view ?p path))" by (simp add: view_def)
  note view = twoWayPlan_view [OF i np, of rec]
  show ?thesis
  proof (cases "path \<in> set (plan_paths hv rec)")
    case False
    then have "file_at hv n path = None" using file_at_in_paths by fastforce
    moreover have "after_plan ?p hv n path = map_option sf_SHA256 (file_at hv (if False then n else n) path)"
      by (rule after_plan_sender) (use False in \<open>simp_all add: view\<close>)
    ultimately show ?thesis using False by (simp add: files view)
  next
    case True
    note view = view [unfolded if_P [OF True]]
    show ?thesis
    proof (cases ?v)
      case (Spread win conflict)
      let ?b = "sha_at hv n path \<noteq> sf_SHA256 (snd win)"
      have w: "file_at hv (fst win) path = Some (snd win)" by (rule verdict_spread(2) [OF Spread])
      have "after_plan ?p hv n path = map_option sf_SHA256 (file_at hv (if ?b then fst win else n) path)"
        by (rule after_plan_sender) (use n' in \<open>auto simp: view Spread verdict_view_def\<close>)
      moreover have "map_option sf_SHA256 (file_at hv (if ?b then fst win else n) path) = Some (sf_SHA256 (snd win))"
        using w sums [OF w] by (auto simp: sha_at_def split: option.splits)
      ultimately show ?thesis by (simp add: files view Spread verdict_view_def)
    next
      case Remove
      show ?thesis
      proof (cases "file_at hv n path")
        case None
        have "after_plan ?p hv n path = map_option sf_SHA256 (file_at hv (if False then n else n) path)"
          by (rule after_plan_sender) (simp_all add: view Remove verdict_view_def None)
        then show ?thesis by (simp add: files view Remove verdict_view_def None)
      next
        case (Some f)
        then show ?thesis using n' by (simp add: after_plan_view files view Remove verdict_view_def)
      qed
    next
      case Nothing
      have "after_plan ?p hv n path = map_option sf_SHA256 (file_at hv (if False then n else n) path)"
        by (rule after_plan_sender) (simp_all add: view Nothing verdict_view_def)
      then show ?thesis using verdict_nothing [OF Nothing n'] by (simp add: files view Nothing verdict_view_def)
    qed
  qed
qed

text \<open>A plan for two nodes: node 1 edited \<open>a\<close> after both had synced it, node 2 deleted \<open>b\<close>.\<close>

definition sample_listing :: listing where
  "sample_listing =
     [(1, [\<lparr>sf_Path = ''a'', sf_Size = 1, sf_SHA256 = ''new'', sf_MTime = 9\<rparr>,
           \<lparr>sf_Path = ''b'', sf_Size = 1, sf_SHA256 = ''bb'', sf_MTime = 1\<rparr>]),
      (2, [\<lparr>sf_Path = ''a'', sf_Size = 1, sf_SHA256 = ''old'', sf_MTime = 1\<rparr>])]"

definition sample_record :: sync_record where
  "sample_record =
     \<lparr>sr_Files = [(1, [(''a'', ''old''), (''b'', ''bb'')]), (2, [(''a'', ''old''), (''b'', ''bb'')])],
      sr_SyncedAt = [1 \<mapsto> 5, 2 \<mapsto> 5], sr_Deleted = []\<rparr>"

definition sample_holdings :: holdings where
  "sample_holdings =
     [(1, [(''a'', \<lparr>sf_Path = ''a'', sf_Size = 1, sf_SHA256 = ''new'', sf_MTime = 9\<rparr>),
           (''b'', \<lparr>sf_Path = ''b'', sf_Size = 1, sf_SHA256 = ''bb'', sf_MTime = 1\<rparr>)]),
      (2, [(''a'', \<lparr>sf_Path = ''a'', sf_Size = 1, sf_SHA256 = ''old'', sf_MTime = 1\<rparr>)])]"

lemma sample_index: "index_all newPlan sample_listing = (newPlan, sample_holdings)"
  by (simp add: sample_listing_def sample_holdings_def plan_index_def index_file_def has_suffix_def SyncPartialSuffix_def)

lemma sample_known:
  "known_version sample_record ''a'' ''old''" "\<not> known_version sample_record ''a'' ''new''"
  "known_version sample_record ''b'' ''bb''"
  by (simp_all add: known_version_def sample_record_def)

lemma sample_not_partial: "\<not> has_suffix SyncPartialSuffix ''a''" "\<not> has_suffix SyncPartialSuffix ''b''"
  by (simp_all add: has_suffix_def SyncPartialSuffix_def)

lemma sample_at:
  "file_at sample_holdings 1 ''a'' = Some \<lparr>sf_Path = ''a'', sf_Size = 1, sf_SHA256 = ''new'', sf_MTime = 9\<rparr>"
  "file_at sample_holdings 2 ''a'' = Some \<lparr>sf_Path = ''a'', sf_Size = 1, sf_SHA256 = ''old'', sf_MTime = 1\<rparr>"
  "file_at sample_holdings 1 ''b'' = Some \<lparr>sf_Path = ''b'', sf_Size = 1, sf_SHA256 = ''bb'', sf_MTime = 1\<rparr>"
  "file_at sample_holdings 2 ''b'' = None"
  "map fst sample_listing = [1, 2]"
  "sr_Deleted sample_record = []"
  "map_of (sr_Files sample_record) 1 = Some [(''a'', ''old''), (''b'', ''bb'')]"
  "map_of (sr_Files sample_record) 2 = Some [(''a'', ''old''), (''b'', ''bb'')]"
  by (simp_all add: sample_holdings_def file_at_def at_key_def sample_listing_def sample_record_def)

lemma sample_verdicts:
  "path_verdict sample_holdings sample_record [1, 2] ''a''
     = Spread (1, \<lparr>sf_Path = ''a'', sf_Size = 1, sf_SHA256 = ''new'', sf_MTime = 9\<rparr>) False"
  "path_verdict sample_holdings sample_record [1, 2] ''b'' = Remove"
  by (simp_all add: path_verdict_def path_classes_def classify_def sample_at sample_known max_func_def Let_def)

lemma sample_sums: "file_at sample_holdings m path = Some f \<Longrightarrow> sf_SHA256 f \<noteq> []"
  by (auto simp: file_at_def at_key_def sample_holdings_def split: option.splits if_splits)

theorem twoWayPlan_converges_witness:
  "after_plan (twoWayPlan sample_listing sample_record) sample_holdings 2 ''a'' = Some ''new''"
proof -
  have "2 \<in> fst ` set sample_listing" by (simp add: sample_listing_def)
  moreover have "snd (snd (view (twoWayPlan sample_listing sample_record) ''a'')) = Some ''new''"
    using sample_verdicts(1) file_at_in_paths [OF sample_at(1), of sample_record]
    by (simp add: twoWayPlan_view [OF sample_index sample_not_partial(1)] sample_at verdict_view_def)
  then have "map_of (pl_files (twoWayPlan sample_listing sample_record)) ''a'' = Some ''new''"
    by (simp add: view_def)
  ultimately show ?thesis
    using twoWayPlan_converges [OF sample_index _ sample_not_partial(1) sample_sums, where n = 2 and rec = sample_record] by simp
qed

text \<open>
  C31: a two-way sync deletes a file only when a delete marker or a node that held it at its last sync
  and has lost it since says so, and never when any node with a record holds a version that no node had
  at its last sync: an edit beats a delete, and a node's first sync deletes nothing.
\<close>

theorem twoWayPlan_deletes_cause:
  assumes i: "index_all newPlan ls = (p0, hv)" and np: "\<not> has_suffix SyncPartialSuffix path"
    and d: "path \<in> set (pl_deletes (twoWayPlan ls rec) n)"
  shows "(map_of (sr_Deleted rec) path = Some True \<or> (\<exists>m\<in>fst ` set ls. recorded rec m \<and> lost hv rec path m))
    \<and> (\<forall>m f. file_at hv m path = Some f \<longrightarrow> recorded rec m \<longrightarrow> known_version rec path (sf_SHA256 f))
    \<and> file_at hv n path \<noteq> None"
proof -
  let ?v = "path_verdict hv rec (map fst ls) path"
  from d have v: "fst (view (twoWayPlan ls rec) path) n" by (simp add: view_def)
  then have "fst (verdict_view hv (map fst ls) path ?v) n"
    by (simp add: twoWayPlan_view [OF i np] split: if_splits)
  then have r: "?v = Remove" "file_at hv n path \<noteq> None"
    by (auto simp: verdict_view_def split: verdict.splits)
  have "known_version rec path (sf_SHA256 f)" if "file_at hv m path = Some f" "recorded rec m" for m f
    using verdict_remove(2) [OF r(1) _ that] file_at_path(3) [OF i that(1)] by simp
  moreover have "map_of (sr_Deleted rec) path = Some True \<or> (\<exists>m\<in>fst ` set ls. recorded rec m \<and> lost hv rec path m)"
    using verdict_remove(1) [OF r(1)] by (auto simp: lost_def recorded_def)
  ultimately show ?thesis using r(2) by blast
qed

theorem twoWayPlan_deletes_cause_witness:
  "''b'' \<in> set (pl_deletes (twoWayPlan sample_listing sample_record) 1)
   \<and> file_at sample_holdings 1 ''b'' \<noteq> None"
proof -
  have "fst (view (twoWayPlan sample_listing sample_record) ''b'') 1"
    using sample_verdicts(2) file_at_in_paths [OF sample_at(3), of sample_record]
    by (simp add: twoWayPlan_view [OF sample_index sample_not_partial(2)] sample_at verdict_view_def)
  then have d: "''b'' \<in> set (pl_deletes (twoWayPlan sample_listing sample_record) 1)" by (simp add: view_def)
  from twoWayPlan_deletes_cause [OF sample_index sample_not_partial(2) d] d show ?thesis by blast
qed

text \<open>
  an edit is never lost to an older copy: when a node with a record holds a version that no node
  had at its last sync, the plan puts everywhere such a version, one at least as new as that edit.
\<close>

theorem twoWayPlan_keeps_newest_edit:
  assumes i: "index_all newPlan ls = (p0, hv)" and f: "file_at hv m path = Some f"
    and e: "recorded rec m" "\<not> known_version rec path (sf_SHA256 f)"
  shows "\<exists>w g. file_at hv w path = Some g \<and> recorded rec w \<and> \<not> known_version rec path (sf_SHA256 g)
    \<and> sf_MTime f \<le> sf_MTime g \<and> map_of (pl_files (twoWayPlan ls rec)) path = Some (sf_SHA256 g)"
proof -
  have m: "m \<in> set (map fst ls)" using file_at_path(3) [OF i f] by simp
  from verdict_changed [OF m f e] obtain win conflict
    where v: "path_verdict hv rec (map fst ls) path = Spread win conflict" and w: "recorded rec (fst win)"
      "\<not> known_version rec path (sf_SHA256 (snd win))" "sf_MTime f \<le> sf_MTime (snd win)" by blast
  have "snd (snd (view (twoWayPlan ls rec) path)) = Some (sf_SHA256 (snd win))"
    using file_at_in_paths [OF f, of rec] by (simp add: twoWayPlan_view [OF i file_at_path(2) [OF i f]] v verdict_view_def)
  then have "map_of (pl_files (twoWayPlan ls rec)) path = Some (sf_SHA256 (snd win))" by (simp add: view_def)
  with w verdict_spread(2) [OF v] show ?thesis by blast
qed

theorem twoWayPlan_keeps_newest_edit_witness:
  "\<exists>w g. file_at sample_holdings w ''a'' = Some g \<and> 9 \<le> sf_MTime g
     \<and> map_of (pl_files (twoWayPlan sample_listing sample_record)) ''a'' = Some (sf_SHA256 g)"
proof -
  let ?f = "\<lparr>sf_Path = ''a'', sf_Size = 1, sf_SHA256 = ''new'', sf_MTime = 9\<rparr>"
  have "file_at sample_holdings 1 ''a'' = Some ?f" by (rule sample_at(1))
  moreover have "recorded sample_record 1" by (simp add: recorded_def sample_record_def)
  ultimately show ?thesis
    using twoWayPlan_keeps_newest_edit [OF sample_index, of 1 "''a''" ?f sample_record] sample_known(2) by auto
qed

end
