(* ===== verification/BackupPlanProps.thy ===== *)
theory BackupPlanProps
  imports FileSyncPlanProps
begin

text \<open>
  What a backup plan does to the repositories: the main server keeps every file it has, the other nodes
  become copies of it, WAL within retention is gathered from wherever it is, and WAL of a segment that
  exists with different contents is left alone.
\<close>

section \<open>Copies and deletes of one node's turn\<close>

definition need_copy :: "holdings \<Rightarrow> string list \<Rightarrow> (uuid \<Rightarrow> string list) \<Rightarrow> uuid \<Rightarrow> string \<Rightarrow> version \<Rightarrow> bool" where
  "need_copy hv cf holds n path v \<longleftrightarrow>
     sha_at hv n path \<noteq> sf_SHA256 (snd v)
     \<and> \<not> (isWAL path \<and> walSegment path \<in> set (holds n) \<and> walSegment path \<in> set cf)"

definition conflicted_path :: "string list \<Rightarrow> string \<Rightarrow> bool" where
  "conflicted_path cf path \<longleftrightarrow> isWAL path \<and> walSegment path \<in> set cf"

lemma mem_copy:
  "m \<in> set (receivers (plan_copy p a b f) a' path) \<longleftrightarrow>
     m \<in> set (receivers p a' path) \<or> (a = a' \<and> path = sf_Path f \<and> m = b)"
  by (auto simp: receivers_copy)

lemma deletes_copy [simp]: "pl_deletes (plan_copy p a b f) = pl_deletes p"
  by (simp add: plan_copy_def Let_def)

lemma receivers_delete [simp]: "receivers (plan_delete p n path) = receivers p"
  by (simp add: plan_delete_def receivers_def fun_eq_iff)

lemma mirror_fold:
  assumes "\<And>path v. (path, v) \<in> set wt \<Longrightarrow> sf_Path (snd v) = path"
  shows "m \<in> set (receivers (fold (mirror_file hv cf holds n) wt p) a path) \<longleftrightarrow>
      m \<in> set (receivers p a path) \<or> (m = n \<and> (\<exists>v. (path, v) \<in> set wt \<and> fst v = a \<and> need_copy hv cf holds n path v))"
    and "pl_deletes (fold (mirror_file hv cf holds n) wt p) = pl_deletes p"
proof -
  have "(m \<in> set (receivers (fold (mirror_file hv cf holds n) ws p) a path) \<longleftrightarrow>
      m \<in> set (receivers p a path) \<or> (m = n \<and> (\<exists>v. (path, v) \<in> set ws \<and> fst v = a \<and> need_copy hv cf holds n path v)))
    \<and> pl_deletes (fold (mirror_file hv cf holds n) ws p) = pl_deletes p" if "set ws \<subseteq> set wt" for ws
    using that
  proof (induction ws arbitrary: p)
    case (Cons w ws)
    obtain q b g where w: "w = (q, (b, g))" by (cases w) auto
    define v where "v = (b, g)"
    with w have w: "w = (q, v)" by simp
    with Cons.prems assms have "sf_Path (snd v) = q" by auto
    then have "m \<in> set (receivers (mirror_file hv cf holds n (q, v) p) a path) \<longleftrightarrow>
        m \<in> set (receivers p a path) \<or> (m = n \<and> path = q \<and> fst v = a \<and> need_copy hv cf holds n path v)"
      and "pl_deletes (mirror_file hv cf holds n (q, v) p) = pl_deletes p"
      by (auto simp: mirror_file_def mem_copy need_copy_def)
    moreover have "(\<exists>u. (path, u) \<in> set (w # ws) \<and> fst u = a \<and> need_copy hv cf holds n path u)
        \<longleftrightarrow> (path = q \<and> fst v = a \<and> need_copy hv cf holds n path v)
          \<or> (\<exists>u. (path, u) \<in> set ws \<and> fst u = a \<and> need_copy hv cf holds n path u)"
      by (simp only: w list.set insert_iff prod.inject) blast
    moreover have "set ws \<subseteq> set wt" using Cons.prems by simp
    ultimately show ?case using Cons.IH [of "mirror_file hv cf holds n w p"]
      by (simp only: fold.simps o_apply w, intro conjI refl, blast)
  qed simp
  from this [of wt] show "m \<in> set (receivers (fold (mirror_file hv cf holds n) wt p) a path) \<longleftrightarrow>
      m \<in> set (receivers p a path) \<or> (m = n \<and> (\<exists>v. (path, v) \<in> set wt \<and> fst v = a \<and> need_copy hv cf holds n path v))"
    and "pl_deletes (fold (mirror_file hv cf holds n) wt p) = pl_deletes p" by auto
qed

lemma expire_fold:
  "path \<in> set (pl_deletes (fold (expire_file wt cf n) hs p) m) \<longleftrightarrow>
      path \<in> set (pl_deletes p m) \<or> (m = n \<and> path \<in> fst ` set hs \<and> map_of wt path = None \<and> \<not> conflicted_path cf path)"
  "receivers (fold (expire_file wt cf n) hs p) = receivers p"
proof -
  have "(path \<in> set (pl_deletes (fold (expire_file wt cf n) hs p) m) \<longleftrightarrow>
      path \<in> set (pl_deletes p m) \<or> (m = n \<and> path \<in> fst ` set hs \<and> map_of wt path = None \<and> \<not> conflicted_path cf path))
    \<and> receivers (fold (expire_file wt cf n) hs p) = receivers p"
  proof (induction hs arbitrary: p)
    case (Cons h hs)
    have "path \<in> set (pl_deletes (expire_file wt cf n h p) m) \<longleftrightarrow>
        path \<in> set (pl_deletes p m) \<or> (m = n \<and> path = fst h \<and> map_of wt path = None \<and> \<not> conflicted_path cf path)"
      and "receivers (expire_file wt cf n h p) = receivers p"
      by (auto simp: expire_file_def Let_def conflicted_path_def plan_delete_def receivers_def fun_eq_iff)
    with Cons show ?case by auto
  qed simp
  then show "path \<in> set (pl_deletes (fold (expire_file wt cf n) hs p) m) \<longleftrightarrow>
      path \<in> set (pl_deletes p m) \<or> (m = n \<and> path \<in> fst ` set hs \<and> map_of wt path = None \<and> \<not> conflicted_path cf path)"
    and "receivers (fold (expire_file wt cf n) hs p) = receivers p" by auto
qed

lemma nodes_fold:
  assumes "\<And>path v. (path, v) \<in> set wt \<Longrightarrow> sf_Path (snd v) = path"
  shows "m \<in> set (receivers (fold (mirror_node src hv cf holds wt) nodes p) a path) \<longleftrightarrow>
      m \<in> set (receivers p a path)
      \<or> (m \<in> set nodes \<and> (\<exists>v. (path, v) \<in> set wt \<and> fst v = a \<and> need_copy hv cf holds m path v))"
    and "path \<in> set (pl_deletes (fold (mirror_node src hv cf holds wt) nodes p) m) \<longleftrightarrow>
      path \<in> set (pl_deletes p m)
      \<or> (m \<in> set nodes \<and> m \<noteq> src \<and> file_at hv m path \<noteq> None \<and> map_of wt path = None \<and> \<not> conflicted_path cf path)"
proof -
  have key: "path \<in> fst ` set (at_key hv m) \<longleftrightarrow> file_at hv m path \<noteq> None"
    by (simp add: file_at_def map_of_eq_None_iff)
  have r: "m \<in> set (receivers (mirror_node src hv cf holds wt n p) a path) \<longleftrightarrow>
      m \<in> set (receivers p a path) \<or> (m = n \<and> (\<exists>v. (path, v) \<in> set wt \<and> fst v = a \<and> need_copy hv cf holds m path v))"
    for n p
    by (auto simp: mirror_node_def Let_def expire_fold mirror_fold [OF assms])
  have d: "path \<in> set (pl_deletes (mirror_node src hv cf holds wt n p) m) \<longleftrightarrow>
      path \<in> set (pl_deletes p m)
      \<or> (m = n \<and> m \<noteq> src \<and> file_at hv m path \<noteq> None \<and> map_of wt path = None \<and> \<not> conflicted_path cf path)" for n p
    using key by (auto simp: mirror_node_def Let_def expire_fold mirror_fold [OF assms])
  show "m \<in> set (receivers (fold (mirror_node src hv cf holds wt) nodes p) a path) \<longleftrightarrow>
      m \<in> set (receivers p a path)
      \<or> (m \<in> set nodes \<and> (\<exists>v. (path, v) \<in> set wt \<and> fst v = a \<and> need_copy hv cf holds m path v))"
    by (induction nodes arbitrary: p) (auto simp: r)
  show "path \<in> set (pl_deletes (fold (mirror_node src hv cf holds wt) nodes p) m) \<longleftrightarrow>
      path \<in> set (pl_deletes p m)
      \<or> (m \<in> set nodes \<and> m \<noteq> src \<and> file_at hv m path \<noteq> None \<and> map_of wt path = None \<and> \<not> conflicted_path cf path)"
    by (induction nodes arbitrary: p) (auto simp: d)
qed

section \<open>What is wanted\<close>

lemma index_all_distinct:
  assumes "index_all p ls = (p', hv)" and "(n, m) \<in> set hv"
  shows "distinct (map fst m)"
proof -
  have i: "distinct (map fst (snd (fold (index_file node) files (p, m))))" if "distinct (map fst m)" for node files p m
    using that by (induction files arbitrary: p m) (simp_all add: index_file_def distinct_update)
  show ?thesis
    using assms
  proof (induction ls arbitrary: p p' hv)
    case (Cons l ls)
    obtain k files where l: "l = (k, files)" by (cases l)
    obtain p1 m1 where a: "plan_index p k files = (p1, m1)" by (cases "plan_index p k files")
    obtain p2 h where r: "index_all p1 ls = (p2, h)" by (cases "index_all p1 ls")
    from Cons.prems l a r have "hv = (k, m1) # h" by simp
    moreover have "distinct (map fst m1)" using i [of "[]" k files p] a by (simp add: plan_index_def)
    ultimately show ?case using Cons.prems(2) Cons.IH [OF r] by auto
  qed simp
qed

lemma at_key_file_at:
  assumes "index_all p ls = (p', hv)"
  shows "(path, f) \<in> set (at_key hv n) \<longleftrightarrow> file_at hv n path = Some f"
proof (cases "map_of hv n")
  case None
  then show ?thesis by (simp add: file_at_def at_key_def)
next
  case (Some m)
  then have "distinct (map fst m)" by (intro index_all_distinct [OF assms]) (rule map_of_SomeD)
  with Some show ?thesis by (simp add: file_at_def at_key_def)
qed

definition want_ok :: "uuid \<Rightarrow> holdings \<Rightarrow> string list \<Rightarrow> (string \<Rightarrow> bool) \<Rightarrow> version gomap \<Rightarrow> bool" where
  "want_ok src hv cf keep wt \<longleftrightarrow>
     distinct (map fst wt)
   \<and> (\<forall>path v. map_of wt path = Some v \<longrightarrow> file_at hv (fst v) path = Some (snd v)
        \<and> (fst v = src \<or> isWAL path \<and> walSegment path \<notin> set cf \<and> (has_suffix ''.history'' path \<or> keep path)))
   \<and> (\<forall>path f. file_at hv src path = Some f \<longrightarrow> map_of wt path = Some (src, f))"

lemma want_okD:
  assumes "want_ok src hv cf keep wt"
  shows "distinct (map fst wt)"
    and "map_of wt path = Some v \<Longrightarrow> file_at hv (fst v) path = Some (snd v)"
    and "file_at hv src path = Some f \<Longrightarrow> map_of wt path = Some (src, f)"
  using assms unfolding want_ok_def by blast+

lemma want_ok_none: "want_ok src hv cf keep wt \<Longrightarrow> map_of wt path = None \<Longrightarrow> file_at hv src path = None"
  using want_okD(3) [of src hv cf keep wt path] by (cases "file_at hv src path") simp_all

lemma want_ok_start:
  assumes "index_all p ls = (p', hv)"
  shows "want_ok src hv cf keep (map (\<lambda>(path, f). (path, (src, f))) (at_key hv src))"
proof -
  have k: "map fst (map (\<lambda>(path, f). (path, (src, f))) (at_key hv src)) = map fst (at_key hv src)" by auto
  have "distinct (map fst (at_key hv src))"
    using index_all_distinct [OF assms, of src] by (auto simp: at_key_def dest: map_of_SomeD split: option.splits)
  moreover have "map_of (map (\<lambda>(path, f). (path, (src, f))) xs) path = map_option (\<lambda>f. (src, f)) (map_of xs path)"
    for xs :: "sync_file gomap" and path by (induction xs) auto
  ultimately show ?thesis unfolding want_ok_def k by (auto simp: file_at_def)
qed

lemma want_ok_gather:
  assumes "want_ok src hv cf keep wt" and "file_at hv node (fst pf) = Some (snd pf)"
  shows "want_ok src hv cf keep (gather_file cf keep node pf wt)"
proof (cases "map_of wt (fst pf) \<noteq> None \<or> \<not> isWAL (fst pf) \<or> walSegment (fst pf) \<in> set cf
    \<or> \<not> (has_suffix ''.history'' (fst pf) \<or> keep (fst pf))")
  case True
  then have "gather_file cf keep node pf wt = wt" by (auto simp: gather_file_def split: prod.splits)
  with assms(1) show ?thesis by simp
next
  case False
  then have g: "gather_file cf keep node pf wt = AList.update (fst pf) (node, snd pf) wt"
    by (auto simp: gather_file_def split: prod.splits)
  have "file_at hv src (fst pf) \<noteq> Some f" for f
    using False assms(1) unfolding want_ok_def by (metis option.distinct(1))
  then have "map_of (AList.update (fst pf) (node, snd pf) wt) path = Some (src, f)"
    if "file_at hv src path = Some f" for path f
    using that assms(1) unfolding want_ok_def by (metis fun_upd_apply update_conv')
  moreover have "distinct (map fst (AList.update (fst pf) (node, snd pf) wt))"
    using assms(1) by (simp add: want_ok_def distinct_update)
  moreover have "file_at hv (fst v) path = Some (snd v)
        \<and> (fst v = src \<or> isWAL path \<and> walSegment path \<notin> set cf \<and> (has_suffix ''.history'' path \<or> keep path))"
    if "map_of (AList.update (fst pf) (node, snd pf) wt) path = Some v" for path v
  proof (cases "path = fst pf")
    case True
    with that False assms(2) show ?thesis by (auto simp: update_conv')
  next
    case ne: False
    with that have "map_of wt path = Some v" by (simp add: update_conv')
    with assms(1) show ?thesis unfolding want_ok_def by blast
  qed
  ultimately show ?thesis unfolding want_ok_def g by blast
qed

lemma wanted_files_ok:
  assumes i: "index_all p ls = (p', hv)"
  shows "want_ok src hv cf keep (wanted_files src hv nodes cf keep)"
proof -
  have one: "want_ok src hv cf keep (fold (gather_file cf keep node) xs wt)"
    if "want_ok src hv cf keep wt" "set xs \<subseteq> set (at_key hv node)" for node xs wt
    using that
  proof (induction xs arbitrary: wt)
    case (Cons pf xs)
    then have "file_at hv node (fst pf) = Some (snd pf)"
      using at_key_file_at [OF i, of "fst pf" "snd pf" node] by simp
    with Cons want_ok_gather show ?case by simp
  qed simp
  have "want_ok src hv cf keep (fold (\<lambda>node. fold (gather_file cf keep node) (at_key hv node)) ns wt)"
    if "want_ok src hv cf keep wt" for ns wt
    using that by (induction ns arbitrary: wt) (simp_all add: one)
  from this [OF want_ok_start [OF i]] show ?thesis unfolding wanted_files_def .
qed

lemma gather_mono: "path \<in> dom (map_of wt) \<Longrightarrow> path \<in> dom (map_of (gather_file cf keep node pf wt))"
  by (auto simp: gather_file_def update_conv' split: prod.splits if_splits)

lemma wanted_files_complete:
  assumes i: "index_all p ls = (p', hv)" and n: "n \<in> set nodes" "file_at hv n path = Some f"
    and w: "isWAL path" "walSegment path \<notin> set cf" "has_suffix ''.history'' path \<or> keep path"
  shows "map_of (wanted_files src hv nodes cf keep) path \<noteq> None"
proof -
  have mono1: "path \<in> dom (map_of (fold (gather_file cf keep node) xs wt))" if "path \<in> dom (map_of wt)" for node xs wt
    using that by (induction xs arbitrary: wt) (simp_all add: gather_mono)
  have hit: "path \<in> dom (map_of (fold (gather_file cf keep node) xs wt))" if "(path, f) \<in> set xs" for node xs wt
    using that
  proof (induction xs arbitrary: wt)
    case (Cons x xs)
    show ?case
    proof (cases "(path, f) \<in> set xs")
      case False
      with Cons.prems have "x = (path, f)" by auto
      then have "path \<in> dom (map_of (gather_file cf keep node x wt))" using w by (auto simp: gather_file_def update_conv')
      from mono1 [OF this] show ?thesis by simp
    qed (simp add: Cons.IH)
  qed simp
  have mono: "path \<in> dom (map_of (fold (\<lambda>node. fold (gather_file cf keep node) (at_key hv node)) ns wt))"
    if "path \<in> dom (map_of wt)" for ns wt
    using that by (induction ns arbitrary: wt) (simp_all add: mono1)
  have "(path, f) \<in> set (at_key hv n)" using at_key_file_at [OF i] n(2) by simp
  then have "path \<in> dom (map_of (fold (\<lambda>node. fold (gather_file cf keep node) (at_key hv node)) ns wt))"
    if "n \<in> set ns" for ns wt
    using that
  proof (induction ns arbitrary: wt)
    case (Cons k ks)
    show ?case
    proof (cases "n = k")
      case True
      then show ?thesis using mono [OF hit [OF Cons.prems(1)]] by simp
    qed (use Cons in simp)
  qed simp
  with n(1) show ?thesis by (simp add: wanted_files_def domIff)
qed

lemma holds_complete:
  assumes i: "index_all p ls = (p', hv)" and n: "n \<in> set nodes" "file_at hv n path = Some f" and w: "isWAL path"
  shows "walSegment path \<in> set (snd (all_segments hv nodes) n)"
proof -
  let ?seg = "walSegment path"
  have mono1: "?seg \<in> set (snd (note_wal k pf s) n)" if "?seg \<in> set (snd s n)" for k pf s
    using that by (auto simp: note_wal_def Let_def split: prod.splits)
  have monof: "?seg \<in> set (snd (fold (note_wal k) xs s) n)" if "?seg \<in> set (snd s n)" for k xs s
    using that by (induction xs arbitrary: s) (simp_all add: mono1)
  have mono: "?seg \<in> set (snd (fold (\<lambda>node. fold (note_wal node) (at_key hv node)) ns s) n)"
    if "?seg \<in> set (snd s n)" for ns s
    using that by (induction ns arbitrary: s) (simp_all add: monof)
  have hit: "?seg \<in> set (snd (fold (note_wal n) xs s) n)" if "(path, f) \<in> set xs" for xs s
    using that
  proof (induction xs arbitrary: s)
    case (Cons x xs)
    show ?case
    proof (cases "(path, f) \<in> set xs")
      case False
      with Cons.prems have "x = (path, f)" by auto
      then have "?seg \<in> set (snd (note_wal n x s) n)" using w by (auto simp: note_wal_def Let_def split: prod.splits)
      from monof [OF this] show ?thesis by simp
    qed (simp add: Cons.IH)
  qed simp
  have "(path, f) \<in> set (at_key hv n)" using at_key_file_at [OF i] n(2) by simp
  then have "?seg \<in> set (snd (fold (\<lambda>node. fold (note_wal node) (at_key hv node)) ns s) n)" if "n \<in> set ns" for ns s
    using that
  proof (induction ns arbitrary: s)
    case (Cons k ks)
    show ?case
    proof (cases "n = k")
      case True
      then show ?thesis using mono [OF hit [OF Cons.prems(1)]] by simp
    qed (use Cons in simp)
  qed simp
  with n(1) show ?thesis by (simp add: all_segments_def)
qed

section \<open>The whole backup plan\<close>

text \<open>
  The pieces of one planning run: the nodes in order, what each holds, the conflicted segments and the
  wanted files.
\<close>

definition backup_run ::
  "uuid \<Rightarrow> listing \<Rightarrow> (string \<Rightarrow> bool) \<Rightarrow> plan \<Rightarrow> holdings \<Rightarrow> string list \<Rightarrow> version gomap \<Rightarrow> bool" where
  "backup_run src ls keep p0 hv cf wt \<longleftrightarrow>
     (let nodes = sort (map fst ls)
      in index_all newPlan (map (\<lambda>n. (n, at_key ls n)) nodes) = (p0, hv)
       \<and> cf = conflicted_segments (fst (all_segments hv nodes)) \<and> wt = wanted_files src hv nodes cf keep)"

lemma backup_facts:
  assumes r: "backup_run src ls keep p0 hv cf wt" and np: "\<not> has_suffix SyncPartialSuffix path"
  shows "want_ok src hv cf keep wt"
    and "m \<in> set (receivers (backupPlan src ls keep) a path) \<longleftrightarrow>
      m \<in> fst ` set ls \<and> (\<exists>v. map_of wt path = Some v \<and> fst v = a
        \<and> need_copy hv cf (snd (all_segments hv (sort (map fst ls)))) m path v)"
    and "path \<in> set (pl_deletes (backupPlan src ls keep) m) \<longleftrightarrow>
      m \<in> fst ` set ls \<and> m \<noteq> src \<and> file_at hv m path \<noteq> None \<and> map_of wt path = None \<and> \<not> conflicted_path cf path"
proof -
  let ?nodes = "sort (map fst ls)"
  obtain vs hd where seg: "all_segments hv ?nodes = (vs, hd)" by (cases "all_segments hv ?nodes")
  from r have i: "index_all newPlan (map (\<lambda>n. (n, at_key ls n)) ?nodes) = (p0, hv)"
    and cf: "cf = conflicted_segments vs" and wt: "wt = wanted_files src hv ?nodes cf keep"
    using seg by (simp_all add: backup_run_def Let_def)
  show ok: "want_ok src hv cf keep wt" unfolding wt by (rule wanted_files_ok [OF i])
  have dist: "(path, v) \<in> set wt \<longleftrightarrow> map_of wt path = Some v" for path v
    using want_okD(1) [OF ok] by simp
  have named: "sf_Path (snd v) = path" if "(path, v) \<in> set wt" for path v
    using that file_at_path(1) [OF i] want_okD(2) [OF ok] unfolding dist by blast
  let ?q = "p0\<lparr>pl_conflicts := cf\<rparr>"
  let ?p = "fold (mirror_node src hv cf hd wt) ?nodes ?q"
  have b: "backupPlan src ls keep = (let p = sortDeletes ?p in p\<lparr>pl_conflicts := sort (pl_conflicts p)\<rparr>)"
    unfolding backupPlan_def Let_def i prod.case seg cf wt by simp
  have "view p0 path = view newPlan path" using index_all_props [OF i, of path] np by blast
  then have "view ?q path = (\<lambda>_. False, \<lambda>_. [], None)" by (simp add: view_new)
  then have blank: "receivers ?q a path = []" "path \<notin> set (pl_deletes ?q m)" for a m
    by (auto simp: view_def fun_eq_iff)
  have rc: "receivers (backupPlan src ls keep) a path = receivers ?p a path"
    by (simp add: b Let_def receivers_def sortDeletes_def)
  have dl: "set (pl_deletes (backupPlan src ls keep) m) = set (pl_deletes ?p m)"
    by (simp add: b Let_def sortDeletes_def)
  show "m \<in> set (receivers (backupPlan src ls keep) a path) \<longleftrightarrow>
      m \<in> fst ` set ls \<and> (\<exists>v. map_of wt path = Some v \<and> fst v = a
        \<and> need_copy hv cf (snd (all_segments hv ?nodes)) m path v)"
  proof -
    have "m \<in> set (receivers ?p a path) \<longleftrightarrow> m \<in> set (receivers ?q a path)
      \<or> (m \<in> set ?nodes \<and> (\<exists>v. (path, v) \<in> set wt \<and> fst v = a \<and> need_copy hv cf hd m path v))"
      by (rule nodes_fold(1)) (rule named)
    moreover have "set ?nodes = fst ` set ls" by simp
    ultimately show ?thesis unfolding rc blank(1) dist seg snd_conv by simp
  qed
  show "path \<in> set (pl_deletes (backupPlan src ls keep) m) \<longleftrightarrow>
      m \<in> fst ` set ls \<and> m \<noteq> src \<and> file_at hv m path \<noteq> None \<and> map_of wt path = None \<and> \<not> conflicted_path cf path"
  proof -
    have "path \<in> set (pl_deletes ?p m) \<longleftrightarrow> path \<in> set (pl_deletes ?q m)
      \<or> (m \<in> set ?nodes \<and> m \<noteq> src \<and> file_at hv m path \<noteq> None \<and> map_of wt path = None \<and> \<not> conflicted_path cf path)"
      by (rule nodes_fold(2)) (rule named)
    moreover have "set ?nodes = fst ` set ls" by simp
    ultimately show ?thesis unfolding dl using blank(2) [of m] by simp
  qed
qed

lemma after_backup:
  assumes r: "backup_run src ls keep p0 hv cf wt" and np: "\<not> has_suffix SyncPartialSuffix path"
    and n: "n \<in> fst ` set ls"
  shows "after_plan (backupPlan src ls keep) hv n path =
    (if n \<noteq> src \<and> file_at hv n path \<noteq> None \<and> map_of wt path = None \<and> \<not> conflicted_path cf path then None
     else case map_of wt path of
       Some v \<Rightarrow> if need_copy hv cf (snd (all_segments hv (sort (map fst ls)))) n path v then Some (sf_SHA256 (snd v))
                 else map_option sf_SHA256 (file_at hv n path)
     | None \<Rightarrow> map_option sf_SHA256 (file_at hv n path))"
proof -
  let ?P = "backupPlan src ls keep" and ?h = "snd (all_segments hv (sort (map fst ls)))"
  note f = backup_facts [OF r np]
  have del: "fst (view ?P path) n \<longleftrightarrow> n \<noteq> src \<and> file_at hv n path \<noteq> None \<and> map_of wt path = None \<and> \<not> conflicted_path cf path"
    using f(3) n by (simp add: view_def)
  have rc: "n \<in> set (fst (snd (view ?P path)) a) \<longleftrightarrow> (\<exists>v. map_of wt path = Some v \<and> fst v = a \<and> need_copy hv cf ?h n path v)" for a
    using f(2) n by (simp add: view_def)
  show ?thesis
  proof (cases "fst (view ?P path) n")
    case True
    with del show ?thesis by (simp add: after_plan_view)
  next
    case False
    show ?thesis
    proof (cases "map_of wt path")
      case None
      have "after_plan ?P hv n path = map_option sf_SHA256 (file_at hv (if False then n else n) path)"
        by (rule after_plan_sender [OF False]) (simp add: rc None)
      with False [unfolded del] None show ?thesis by auto
    next
      case (Some v)
      have w: "file_at hv (fst v) path = Some (snd v)" using want_okD(2) [OF f(1) Some] .
      have "after_plan ?P hv n path = map_option sf_SHA256 (file_at hv (if need_copy hv cf ?h n path v then fst v else n) path)"
        by (rule after_plan_sender [OF False]) (auto simp: rc Some)
      with Some w show ?thesis by simp
    qed
  qed
qed

text \<open>
  C30: the main server's own files come out of a backup sync unchanged, whatever the other nodes hold;
  and WAL that another node holds, that is not in conflict and that retention still covers (or a
  timeline history file) is on the main server afterwards.
\<close>

theorem backupPlan_source_safe:
  assumes r: "backup_run src ls keep p0 hv cf wt" and np: "\<not> has_suffix SyncPartialSuffix path"
    and s: "src \<in> fst ` set ls" and f: "file_at hv n path = Some f"
    and sums: "\<And>m f. file_at hv m path = Some f \<Longrightarrow> sf_SHA256 f \<noteq> []"
    and e: "n = src \<or> isWAL path \<and> walSegment path \<notin> set cf \<and> (has_suffix ''.history'' path \<or> keep path)"
  shows "\<exists>g. after_plan (backupPlan src ls keep) hv src path = Some (sf_SHA256 g)
    \<and> (\<exists>m. file_at hv m path = Some g \<and> (file_at hv src path \<noteq> None \<longrightarrow> m = src))"
proof (cases "file_at hv src path")
  case (Some g)
  have "map_of wt path = Some (src, g)" using want_okD(3) [OF backup_facts(1) [OF r np] Some] .
  moreover have "\<not> need_copy hv cf h src path (src, g)" for h by (simp add: need_copy_def sha_at_def Some)
  ultimately have "after_plan (backupPlan src ls keep) hv src path = Some (sf_SHA256 g)"
    by (simp add: after_backup [OF r np s] Some)
  with Some show ?thesis by blast
next
  case None
  with e f have w: "isWAL path" "walSegment path \<notin> set cf" "has_suffix ''.history'' path \<or> keep path" by auto
  from r have i: "index_all newPlan (map (\<lambda>n. (n, at_key ls n)) (sort (map fst ls))) = (p0, hv)"
    and wt: "wt = wanted_files src hv (sort (map fst ls)) cf keep" by (simp_all add: backup_run_def Let_def)
  have "n \<in> set (sort (map fst ls))" using file_at_path(3) [OF i f] by (simp add: image_image)
  from wanted_files_complete [where src = src and keep = keep and path = path and cf = cf, OF i this f w] obtain v where v: "map_of wt path = Some v" by (auto simp: wt)
  have g: "file_at hv (fst v) path = Some (snd v)" using want_okD(2) [OF backup_facts(1) [OF r np] v] .
  have "need_copy hv cf h src path v" for h using w sums [OF g] by (auto simp: need_copy_def sha_at_def None)
  then have "after_plan (backupPlan src ls keep) hv src path = Some (sf_SHA256 (snd v))"
    by (simp add: after_backup [OF r np s] v)
  with g None show ?thesis by blast
qed

text \<open>
  every other node becomes a copy: outside conflicted WAL it holds, under each path, exactly what the
  main server holds after the same run, and nothing more.
\<close>

theorem backupPlan_mirrors:
  assumes r: "backup_run src ls keep p0 hv cf wt" and np: "\<not> has_suffix SyncPartialSuffix path"
    and s: "src \<in> fst ` set ls" and n: "n \<in> fst ` set ls"
    and sums: "\<And>m f. file_at hv m path = Some f \<Longrightarrow> sf_SHA256 f \<noteq> []"
    and c: "\<not> conflicted_path cf path"
  shows "after_plan (backupPlan src ls keep) hv n path = after_plan (backupPlan src ls keep) hv src path"
proof -
  have *: "after_plan (backupPlan src ls keep) hv m path = map_option (\<lambda>v. sf_SHA256 (snd v)) (map_of wt path)"
    if "m \<in> fst ` set ls" for m
  proof (cases "map_of wt path")
    case None
    then have "file_at hv src path = None" by (rule want_ok_none [OF backup_facts(1) [OF r np]])
    with None c show ?thesis by (auto simp: after_backup [OF r np that])
  next
    case (Some v)
    have g: "file_at hv (fst v) path = Some (snd v)" using want_okD(2) [OF backup_facts(1) [OF r np] Some] .
    have "need_copy hv cf h m path v \<longleftrightarrow> sha_at hv m path \<noteq> sf_SHA256 (snd v)" for h
      using c by (auto simp: need_copy_def conflicted_path_def)
    with Some sums [OF g] show ?thesis by (auto simp: after_backup [OF r np that] sha_at_def split: option.splits)
  qed
  show ?thesis by (simp add: * n s)
qed

text \<open>
  a WAL file of a segment that exists with different contents is neither changed nor deleted on any
  node that holds it.
\<close>

theorem backupPlan_conflicts_untouched:
  assumes r: "backup_run src ls keep p0 hv cf wt" and np: "\<not> has_suffix SyncPartialSuffix path"
    and f: "file_at hv n path = Some f" and c: "isWAL path" "walSegment path \<in> set cf"
  shows "after_plan (backupPlan src ls keep) hv n path = Some (sf_SHA256 f)
    \<and> path \<notin> set (pl_deletes (backupPlan src ls keep) n) \<and> n \<notin> set (receivers (backupPlan src ls keep) a path)"
proof -
  from r have i: "index_all newPlan (map (\<lambda>n. (n, at_key ls n)) (sort (map fst ls))) = (p0, hv)"
    by (simp add: backup_run_def Let_def)
  have n: "n \<in> fst ` set ls" using file_at_path(3) [OF i f] by (simp add: image_image)
  then have "n \<in> set (sort (map fst ls))" by auto
  from holds_complete [OF i this f c(1)] have h: "\<not> need_copy hv cf (snd (all_segments hv (sort (map fst ls)))) n path v" for v
    using c by (simp add: need_copy_def)
  have cp: "conflicted_path cf path" using c by (simp add: conflicted_path_def)
  with h show ?thesis
    by (simp add: after_backup [OF r np n] backup_facts [OF r np] f split: option.split)
qed

section \<open>A concrete run\<close>

definition wal_c :: string where "wal_c = ''archive/s/1/c''"
definition wal_w :: string where "wal_w = ''archive/s/1/w''"

definition wal_file :: "string \<Rightarrow> string \<Rightarrow> sync_file" where
  "wal_file path sha = \<lparr>sf_Path = path, sf_Size = 1, sf_SHA256 = sha, sf_MTime = 1\<rparr>"

text \<open>The main server 1 and node 2 hold different versions of one WAL file; node 2 alone holds another.\<close>

definition backup_listing :: listing where
  "backup_listing = [(1, [wal_file ''x'' ''sx'', wal_file wal_c ''s1'']), (2, [wal_file wal_c ''s2'', wal_file wal_w ''sw''])]"

definition backup_holdings :: holdings where
  "backup_holdings = [(1, [(''x'', wal_file ''x'' ''sx''), (wal_c, wal_file wal_c ''s1'')]),
     (2, [(wal_c, wal_file wal_c ''s2''), (wal_w, wal_file wal_w ''sw'')])]"

lemma wal_paths:
  "isWAL wal_c" "isWAL wal_w" "\<not> isWAL ''x''" "walSegment wal_c = wal_c" "walSegment wal_w = wal_w"
  "wal_c \<noteq> wal_w" "''x'' \<noteq> wal_c" "''x'' \<noteq> wal_w" "\<not> has_suffix SyncPartialSuffix wal_c"
  "\<not> has_suffix SyncPartialSuffix wal_w" "\<not> has_suffix SyncPartialSuffix ''x''"
  by (simp_all add: wal_c_def wal_w_def isWAL_def isIndexFile_def walSegment_def path_split_def path_base_def
      has_prefix_def has_suffix_def SyncPartialSuffix_def cut_def Let_def)

lemma backup_index:
  "index_all newPlan (map (\<lambda>n. (n, at_key backup_listing n)) (sort (map fst backup_listing))) = (newPlan, backup_holdings)"
proof -
  have l: "map (\<lambda>n. (n, at_key backup_listing n)) (sort (map fst backup_listing))
      = [(1, [wal_file ''x'' ''sx'', wal_file wal_c ''s1'']), (2, [wal_file wal_c ''s2'', wal_file wal_w ''sw''])]"
    by (simp add: backup_listing_def at_key_def)
  have i: "plan_index newPlan 1 [wal_file ''x'' ''sx'', wal_file wal_c ''s1'']
      = (newPlan, [(''x'', wal_file ''x'' ''sx''), (wal_c, wal_file wal_c ''s1'')])"
    "plan_index newPlan 2 [wal_file wal_c ''s2'', wal_file wal_w ''sw'']
      = (newPlan, [(wal_c, wal_file wal_c ''s2''), (wal_w, wal_file wal_w ''sw'')])"
    using wal_paths by (simp_all add: plan_index_def index_file_def wal_file_def)
  show ?thesis unfolding l by (simp add: i backup_holdings_def)
qed

lemma backup_at:
  "file_at backup_holdings 1 ''x'' = Some (wal_file ''x'' ''sx'')" "file_at backup_holdings 1 wal_w = None"
  "file_at backup_holdings 2 wal_c = Some (wal_file wal_c ''s2'')"
  "file_at backup_holdings 2 wal_w = Some (wal_file wal_w ''sw'')"
  "file_at backup_holdings m path = Some f \<Longrightarrow> sf_SHA256 f \<noteq> []"
  "sort (map fst backup_listing) = [1, 2]" "1 \<in> fst ` set backup_listing" "2 \<in> fst ` set backup_listing"
  using wal_paths
  by (auto simp: backup_holdings_def backup_listing_def file_at_def at_key_def wal_file_def split: option.splits if_splits)

lemma backup_conflicts:
  "conflicted_segments (fst (all_segments backup_holdings [1, 2])) = [wal_c]"
  using wal_paths
  by (simp add: all_segments_def backup_holdings_def at_key_def note_wal_def wal_file_def Let_def
      conflicted_segments_def)

lemma backup_run_example:
  "backup_run 1 backup_listing keep newPlan backup_holdings [wal_c] (wanted_files 1 backup_holdings [1, 2] [wal_c] keep)"
  unfolding backup_run_def Let_def backup_index by (simp add: backup_at backup_conflicts)

theorem backupPlan_source_safe_witness:
  "\<exists>g m. after_plan (backupPlan 1 backup_listing (\<lambda>_. True)) backup_holdings 1 wal_w = Some (sf_SHA256 g)
     \<and> file_at backup_holdings m wal_w = Some g"
proof -
  have "2 = (1 :: uuid) \<or> isWAL wal_w \<and> walSegment wal_w \<notin> set [wal_c] \<and> (has_suffix ''.history'' wal_w \<or> True)"
    using wal_paths by simp
  from backupPlan_source_safe [where keep = "\<lambda>_. True", OF backup_run_example wal_paths(10) backup_at(7) backup_at(4) _ this]
  show ?thesis using backup_at(5) by blast
qed

theorem backupPlan_mirrors_witness:
  "after_plan (backupPlan 1 backup_listing (\<lambda>_. True)) backup_holdings 2 ''x''
     = after_plan (backupPlan 1 backup_listing (\<lambda>_. True)) backup_holdings 1 ''x''"
proof -
  have "\<not> conflicted_path [wal_c] ''x''" using wal_paths by (simp add: conflicted_path_def)
  from backupPlan_mirrors [OF backup_run_example wal_paths(11) backup_at(7,8,5) this] show ?thesis .
qed

theorem backupPlan_conflicts_untouched_witness:
  "after_plan (backupPlan 1 backup_listing (\<lambda>_. True)) backup_holdings 2 wal_c = Some ''s2''"
proof -
  have "walSegment wal_c \<in> set [wal_c]" by (simp add: wal_paths)
  from backupPlan_conflicts_untouched [OF backup_run_example wal_paths(9) backup_at(3) wal_paths(1) this, where keep = "\<lambda>_. True"]
  show ?thesis by (simp add: wal_file_def)
qed

section \<open>Batches and their order\<close>

lemma batches_loop_concat: "concat (batches_loop cur sz ps) = cur @ ps"
  by (induction cur sz ps rule: batches_loop.induct) auto

text \<open>The size the loop counts is the group's paths, each with its separator.\<close>

definition batch_size :: "string list \<Rightarrow> nat" where
  "batch_size b = sum_list (map (\<lambda>p. length p + 4) b)"

lemma batches_loop_bound:
  assumes "batch_size cur \<le> batchBytes + 4 \<or> length cur = 1" and "cur \<noteq> []" and "b \<in> set (batches_loop cur (batch_size cur) ps)"
  shows "(batch_size b \<le> batchBytes + 4 \<or> length b = 1) \<and> b \<noteq> []"
  using assms
proof (induction ps arbitrary: cur)
  case (Cons p ps)
  have a: "batch_size (cur @ [p]) = batch_size cur + length p + 4" "batch_size [p] = length p + 4"
    by (simp_all add: batch_size_def)
  show ?case
  proof (cases "batch_size cur + length p > batchBytes")
    case True
    with Cons.prems Cons.IH [of "[p]"] a show ?thesis by (auto split: if_splits)
  next
    case False
    with Cons.prems Cons.IH [of "cur @ [p]"] a show ?thesis by auto
  qed
qed simp

text \<open>
  The paths of a batched task are sent completely, once each and in the order given; no batch is
  empty, and a batch exceeds the limit by at most one separator unless a single path does.
\<close>

theorem batches_complete:
  "concat (batches ps) = ps
   \<and> list_all (\<lambda>b. b \<noteq> [] \<and> (length b = 1 \<or> batch_size b \<le> batchBytes + 4)) (batches ps)"
proof (cases ps)
  case (Cons p qs)
  have "batch_size [p] = length p + 4" by (simp add: batch_size_def)
  then show ?thesis using batches_loop_bound [of "[p]" _ qs]
    by (auto simp: Cons batches_loop_concat list_all_iff)
qed simp

text \<open>
  A repository's index files, which name its backups and WAL, are sent after every other file, so
  that a receiver never lists files it does not have yet; all paths are sent, each group in order.
\<close>

theorem sendOrder_index_last:
  "mset (sendOrder routes) = mset (map fst routes)
   \<and> sorted_wrt (\<lambda>a b. \<not> (isIndexFile a \<and> \<not> isIndexFile b)) (sendOrder routes)
   \<and> sorted (filter isIndexFile (sendOrder routes)) \<and> sorted (filter (\<lambda>p. \<not> isIndexFile p) (sendOrder routes))"
proof -
  let ?s = "sort (map fst routes)"
  have "sorted (map isIndexFile (sendOrder routes))" by (simp add: sendOrder_def)
  then have "sorted_wrt (\<lambda>a b. \<not> (isIndexFile a \<and> \<not> isIndexFile b)) (sendOrder routes)"
    unfolding sorted_map by (rule sorted_wrt_mono_rel [rotated]) auto
  moreover have "filter (\<lambda>p. isIndexFile p = v) (sendOrder routes) = filter (\<lambda>p. isIndexFile p = v) ?s" for v
    by (simp add: sendOrder_def sort_key_stable)
  from this [of True] this [of False]
  have "filter isIndexFile (sendOrder routes) = filter isIndexFile ?s"
    "filter (\<lambda>p. \<not> isIndexFile p) (sendOrder routes) = filter (\<lambda>p. \<not> isIndexFile p) ?s" by simp_all
  ultimately show ?thesis
    by (simp add: sendOrder_def sorted_wrt_filter)
qed

end
