(* ===== verification/FileSyncRun.thy ===== *)
theory FileSyncRun
  imports FileSyncPlanProps NodeState Events
begin

text \<open>
  One folder sync, \<open>internal/server/filesync/filesync.go\<close>: its phases with every task they run on the
  agents, the relay that forwards chunks between nodes, and the queue that keeps one sync per folder.
  What the agents and the database answer during a run is a \<open>sync_env\<close>; a task whose dispatch fails or
  whose result is an error is an error answer.  The tasks of a run are its result, in order.
\<close>

record sync_env =
  se_path_test :: "uuid \<Rightarrow> string option"
  se_catalog :: "string + stanza_info list option"
  se_list :: "uuid \<Rightarrow> string + int \<times> int"
  se_listing :: "uuid \<Rightarrow> sync_file list"
  se_record :: "string + sync_record"
  se_receive :: "uuid \<Rightarrow> string option"
  se_send :: "uuid \<Rightarrow> string list \<Rightarrow> string option"
  se_finish :: "uuid \<Rightarrow> string + finish_result"
  se_dropped :: "uuid \<Rightarrow> bool"
  se_delete :: "uuid \<Rightarrow> string list \<Rightarrow> string option"
  se_save :: "string option"

record backup_of =
  bk_Label :: string
  bk_RepoIndex :: int
  bk_Stanza :: string

record job =
  jb_ClusterID :: uuid
  jb_Name :: string
  jb_Root :: string
  jb_Nodes :: "node list"
  jb_Source :: uuid
  jb_Backup :: "backup_of option"

text \<open>\<open>nodeState\<close>: one node through a run; an error means it failed.\<close>

record node_run =
  ns_node :: node
  ns_free :: int
  ns_err :: "string option"
  ns_copied :: int
  ns_deleted :: int

datatype sync_call =
    CallReceive uuid
  | CallSend uuid "string list"
  | CallFinish uuid
  | CallDelete uuid "string list"
  | CallSave "uuid list" "string gomap" "string list"

definition ns_id :: "node_run \<Rightarrow> uuid" where
  "ns_id s = nd_ID (ns_node s)"

definition fail_with :: "string \<Rightarrow> node_run \<Rightarrow> node_run" where
  "fail_with e s = s\<lparr>ns_err := Some e\<rparr>"

text \<open>An error set on the nodes that have none yet, or on one node.\<close>

definition fail_ok :: "string \<Rightarrow> node_run list \<Rightarrow> node_run list" where
  "fail_ok e = map (\<lambda>s. if ns_err s = None then fail_with e s else s)"

definition fail_node :: "uuid \<Rightarrow> string \<Rightarrow> node_run list \<Rightarrow> node_run list" where
  "fail_node i e = map (\<lambda>s. if ns_id s = i then fail_with e s else s)"

definition start_states :: "job \<Rightarrow> node_run list" where
  "start_states job = map (\<lambda>n. \<lparr>ns_node = n, ns_free = 0, ns_err = None, ns_copied = 0, ns_deleted = 0\<rparr>) (jb_Nodes job)"

section \<open>Testing, listing and planning\<close>

text \<open>
  Phase 1 of a backup sync: the storage path test on every node, then the main server's retention,
  which yields the test for WAL to keep.
\<close>

definition test_phase ::
  "sync_env \<Rightarrow> job \<Rightarrow> node_run list \<Rightarrow> node_run list \<times> (string \<Rightarrow> bool) option" where
  "test_phase env job states = (case jb_Backup job of
      None \<Rightarrow> (states, None)
    | Some b \<Rightarrow>
        let states = map (\<lambda>s. case se_path_test env (ns_id s) of
                               None \<Rightarrow> s | Some e \<Rightarrow> fail_with (''path test: '' @ e) s) states
        in case find (\<lambda>s. ns_id s = jb_Source job) states of
             None \<Rightarrow> (states, None)
           | Some src \<Rightarrow>
               if ns_err src \<noteq> None then (states, None)
               else (case se_catalog env of
                       Inl e \<Rightarrow> (fail_node (jb_Source job) e states, None)
                     | Inr info \<Rightarrow>
                        (case walKeep info (bk_Stanza b) (bk_RepoIndex b) of
                           Inl e \<Rightarrow> (fail_node (jb_Source job) e states, None)
                         | Inr keep \<Rightarrow> (states, Some keep))))"

text \<open>\<open>list\<close>: the listing task and the check that every piece of it arrived.\<close>

definition list_node :: "sync_env \<Rightarrow> uuid \<Rightarrow> (string option) \<times> int \<times> int" where
  "list_node env i = (case se_list env i of
      Inl e \<Rightarrow> (Some (''listing: '' @ e), 0, 0)
    | Inr (files, free) \<Rightarrow>
        if int (length (se_listing env i)) \<noteq> files
        then (Some (''listing incomplete: received '' @ itoa (int (length (se_listing env i))) @ '' of ''
                    @ itoa files @ '' entries''), files, free)
        else (None, files, free))"

definition empty_folder :: string where
  "empty_folder = ''folder is empty; left out of this sync (is it mounted?)''"

definition list_phase :: "sync_env \<Rightarrow> job \<Rightarrow> node_run list \<Rightarrow> node_run list" where
  "list_phase env job = map (\<lambda>s.
     if ns_err s \<noteq> None then s
     else (case list_node env (ns_id s) of (err, files, free) \<Rightarrow>
       s\<lparr>ns_free := free,
         ns_err := (if err = None \<and> files = 0 \<and> (jb_Source job = Nil_uuid \<or> ns_id s = jb_Source job)
                    then Some empty_folder else err)\<rparr>))"

definition listed :: "sync_env \<Rightarrow> node_run list \<Rightarrow> listing" where
  "listed env states = map (\<lambda>s. (ns_id s, se_listing env (ns_id s))) (filter (\<lambda>s. ns_err s = None) states)"

text \<open>Phase 3: the plan, or the states of a run that ends here.\<close>

definition plan_phase ::
  "sync_env \<Rightarrow> job \<Rightarrow> (string \<Rightarrow> bool) option \<Rightarrow> node_run list \<Rightarrow> node_run list + plan" where
  "plan_phase env job keep states =
     (let ls = listed env states
      in if jb_Source job \<noteq> Nil_uuid then
           (case find (\<lambda>s. ns_id s = jb_Source job) states of
              None \<Rightarrow> Inl states
            | Some src \<Rightarrow>
                (case ns_err src of
                   Some e \<Rightarrow> Inl (map (\<lambda>s. if ns_id s = ns_id src then s
                       else fail_with (''source '' @ nd_Hostname (ns_node src) @ '': '' @ e) s) states)
                 | None \<Rightarrow> Inr (backupPlan (jb_Source job) ls (case keep of None \<Rightarrow> (\<lambda>_. False) | Some k \<Rightarrow> k))))
         else if ls = [] then Inl states
         else (case se_record env of
                 Inl e \<Rightarrow> Inl (fail_ok (''loading the sync record: '' @ e) states)
               | Inr rec \<Rightarrow> Inr (twoWayPlan ls rec)))"

text \<open>Free space is a 64-bit unsigned number, and so is the need it is compared with.\<close>

definition space_phase :: "plan \<Rightarrow> node_run list \<Rightarrow> node_run list" where
  "space_phase p = map (\<lambda>s.
     let need = pl_bytes p (ns_id s)
     in if ns_err s = None \<and> need mod 2 ^ 64 > ns_free s
        then fail_with (''needs '' @ itoa (need div 2 ^ 20) @ '' MB free, has ''
                        @ itoa (ns_free s div 2 ^ 20) @ '' MB'') s
        else s)"

section \<open>Copying\<close>

definition receive_node :: "sync_env \<Rightarrow> plan \<Rightarrow> node_run \<Rightarrow> sync_call list \<times> node_run \<times> bool" where
  "receive_node env p s =
     (if ns_err s \<noteq> None \<or> pl_copies p (ns_id s) = 0 then ([], s, False)
      else case se_receive env (ns_id s) of
             Some e \<Rightarrow> ([CallReceive (ns_id s)], fail_with e s, False)
           | None \<Rightarrow> ([CallReceive (ns_id s)], s, True))"

fun receive_phase :: "sync_env \<Rightarrow> plan \<Rightarrow> node_run list \<Rightarrow> sync_call list \<times> node_run list \<times> uuid list" where
  "receive_phase env p [] = ([], [], [])"
| "receive_phase env p (s # ss) =
     (let (c, s', r) = receive_node env p s; (cs, ss', rs) = receive_phase env p ss
      in (c @ cs, s' # ss', (if r then ns_id s # rs else rs)))"

text \<open>The files one node sends, each to the receivers that take part.\<close>

definition live_routes :: "uuid list \<Rightarrow> (string \<times> uuid list) list \<Rightarrow> (string \<times> uuid list) list" where
  "live_routes receiving routes =
     filter (\<lambda>(_, to). to \<noteq> []) (map (\<lambda>(path, to). (path, filter (\<lambda>n. n \<in> set receiving) to)) routes)"

text \<open>Batch by batch until one fails; the error, when there is one.\<close>

fun send_batches :: "sync_env \<Rightarrow> uuid \<Rightarrow> string list list \<Rightarrow> sync_call list \<times> string option" where
  "send_batches env a [] = ([], None)"
| "send_batches env a (b # bs) =
     (case se_send env a b of
        Some e \<Rightarrow> ([CallSend a b], Some e)
      | None \<Rightarrow> (let (cs, r) = send_batches env a bs in (CallSend a b # cs, r)))"

definition send_from ::
  "sync_env \<Rightarrow> (uuid \<Rightarrow> string) \<Rightarrow> uuid list \<Rightarrow> plan \<Rightarrow> uuid
     \<Rightarrow> sync_call list \<times> (uuid \<rightharpoonup> string) \<Rightarrow> sync_call list \<times> (uuid \<rightharpoonup> string)" where
  "send_from env hostname receiving p a st =
     (let (calls, sendErr) = st;
          routes = live_routes receiving (at_key (pl_sends p) a);
          (cs, r) = send_batches env a (batches (sendOrder routes))
      in (calls @ cs,
          case r of
            None \<Rightarrow> sendErr
          | Some e \<Rightarrow> (\<lambda>n. if n \<in> set (concat (map snd routes))
                         then Some (hostname a @ '' failed while sending: '' @ e) else sendErr n)))"

definition send_phase ::
  "sync_env \<Rightarrow> (uuid \<Rightarrow> string) \<Rightarrow> uuid list \<Rightarrow> plan \<Rightarrow> sync_call list \<times> (uuid \<rightharpoonup> string)" where
  "send_phase env hostname receiving p =
     fold (send_from env hostname receiving p) (sort (map fst (pl_sends p))) ([], Map.empty)"

text \<open>\<open>finish\<close>: the number of files that arrived and the error that remains.\<close>

definition finish_node :: "sync_env \<Rightarrow> uuid \<Rightarrow> int \<Rightarrow> string option \<Rightarrow> int \<times> string option" where
  "finish_node env i want sendErr =
     (let (copied, err, res) = (case se_finish env i of
            Inl e \<Rightarrow> (0, Some e, \<lparr>fr_Copied = 0, fr_Skipped = 0, fr_Failed = [], fr_Errors = 0\<rparr>)
          | Inr r \<Rightarrow> (fr_Copied r, None, r))
      in (copied,
          if sendErr \<noteq> None then sendErr
          else if se_dropped env i then Some ''cut off for not keeping up; the next sync continues''
          else case err of
            Some e \<Rightarrow> Some (''finishing: '' @ e)
          | None \<Rightarrow>
              if fr_Errors res > 0 then Some (itoa (fr_Errors res) @ '' files failed: '' @ join ''; '' (fr_Failed res))
              else if fr_Copied res + fr_Skipped res \<noteq> want
              then Some (''received '' @ itoa (fr_Copied res + fr_Skipped res) @ '' of '' @ itoa want @ '' files'')
              else None))"

definition finish_phase ::
  "sync_env \<Rightarrow> plan \<Rightarrow> uuid list \<Rightarrow> (uuid \<rightharpoonup> string) \<Rightarrow> node_run list \<Rightarrow> sync_call list \<times> node_run list" where
  "finish_phase env p receiving sendErr states =
     (map (\<lambda>s. CallFinish (ns_id s)) (filter (\<lambda>s. ns_id s \<in> set receiving) states),
      map (\<lambda>s. if ns_id s \<in> set receiving
               then (case finish_node env (ns_id s) (pl_copies p (ns_id s)) (sendErr (ns_id s)) of
                       (copied, err) \<Rightarrow> s\<lparr>ns_copied := copied, ns_err := err\<rparr>)
               else s) states)"

section \<open>Deleting and recording\<close>

fun delete_batches :: "sync_env \<Rightarrow> uuid \<Rightarrow> string list list \<Rightarrow> sync_call list \<times> int \<times> string option" where
  "delete_batches env i [] = ([], 0, None)"
| "delete_batches env i (b # bs) =
     (case se_delete env i b of
        Some e \<Rightarrow> ([CallDelete i b], 0, Some (''deleting: '' @ e))
      | None \<Rightarrow> (let (cs, n, r) = delete_batches env i bs in (CallDelete i b # cs, int (length b) + n, r)))"

definition delete_node :: "sync_env \<Rightarrow> plan \<Rightarrow> node_run \<Rightarrow> sync_call list \<times> node_run" where
  "delete_node env p s =
     (if ns_err s \<noteq> None then ([], s)
      else case delete_batches env (ns_id s) (batches (pl_deletes p (ns_id s))) of
             (cs, n, err) \<Rightarrow> (cs, s\<lparr>ns_deleted := ns_deleted s + n, ns_err := err\<rparr>))"

definition delete_phase :: "sync_env \<Rightarrow> plan \<Rightarrow> node_run list \<Rightarrow> sync_call list \<times> node_run list" where
  "delete_phase env p states =
     (concat (map (\<lambda>s. fst (delete_node env p s)) states), map (\<lambda>s. snd (delete_node env p s)) states)"

definition save_phase :: "sync_env \<Rightarrow> job \<Rightarrow> plan \<Rightarrow> node_run list \<Rightarrow> sync_call list \<times> node_run list" where
  "save_phase env job p states =
     (if jb_Source job \<noteq> Nil_uuid then ([], states)
      else ([CallSave (map ns_id (filter (\<lambda>s. ns_err s = None) states)) (pl_files p) (pl_deleted p)],
            case se_save env of
              None \<Rightarrow> states
            | Some e \<Rightarrow> fail_ok (''saving the sync record: '' @ e) states))"

section \<open>The whole run\<close>

definition hostname_of :: "node_run list \<Rightarrow> uuid \<Rightarrow> string" where
  "hostname_of states i = (case find (\<lambda>s. ns_id s = i) states of None \<Rightarrow> [] | Some s \<Rightarrow> nd_Hostname (ns_node s))"

text \<open>What the run did, the state of each node at its end, and the conflicts it reports.\<close>

definition sync_copy_delete ::
  "sync_env \<Rightarrow> job \<Rightarrow> plan \<Rightarrow> node_run list \<Rightarrow> sync_call list \<times> node_run list" where
  "sync_copy_delete env job p states =
     (let states = space_phase p states;
          (c1, states, receiving) = receive_phase env p states;
          (c2, sendErr) = send_phase env (hostname_of states) receiving p;
          (c3, states) = finish_phase env p receiving sendErr states;
          (c4, states) = delete_phase env p states;
          (c5, states) = save_phase env job p states
      in (c1 @ c2 @ c3 @ c4 @ c5, states))"

definition sync_run :: "sync_env \<Rightarrow> job \<Rightarrow> sync_call list \<times> node_run list \<times> string list" where
  "sync_run env job =
     (let (states, keep) = test_phase env job (start_states job);
          states = list_phase env job states
      in case plan_phase env job keep states of
           Inl final \<Rightarrow> ([], final, [])
         | Inr p \<Rightarrow>
            (case sync_copy_delete env job p states of
               (calls, final) \<Rightarrow> (calls, final, pl_conflicts p)))"

end
