(* ===== verification/FileSyncRunProps.thy ===== *)
theory FileSyncRunProps
  imports FileSyncRun
begin

text \<open>
  What a sync run guarantees whatever the agents answer: a node deletes files only after every copy it
  needed has arrived, and only the nodes that copied and deleted everything are put on record.
\<close>

definition run_plan :: "sync_env \<Rightarrow> job \<Rightarrow> node_run list + plan" where
  "run_plan env job =
     (let (states, keep) = test_phase env job (start_states job) in plan_phase env job keep (list_phase env job states))"

text \<open>Every file the plan sends to a node has arrived there, or there is none.\<close>

definition copies_arrived :: "sync_env \<Rightarrow> plan \<Rightarrow> uuid \<Rightarrow> bool" where
  "copies_arrived env p n \<longleftrightarrow>
     pl_copies p n = 0
   \<or> (se_receive env n = None \<and> se_dropped env n = False
      \<and> (\<exists>r. se_finish env n = Inr r \<and> fr_Errors r \<le> 0 \<and> fr_Copied r + fr_Skipped r = pl_copies p n))"

lemma sync_run_plan:
  "sync_run env job = (calls, final, conf) \<Longrightarrow>
     (calls = [] \<or> (\<exists>p states. run_plan env job = Inr p \<and> sync_copy_delete env job p states = (calls, final)))"
  by (auto simp: sync_run_def run_plan_def Let_def split: prod.splits sum.splits)

lemma receive_phase_ok:
  assumes "receive_phase env p ss = (cs, ss', rs)" and "s \<in> set ss'" and "ns_err s = None"
  shows "pl_copies p (ns_id s) = 0 \<or> ns_id s \<in> set rs"
  using assms
  by (induction ss arbitrary: cs ss' rs)
     (auto simp: receive_node_def fail_with_def split: prod.splits if_splits option.splits)

lemma receive_phase_receivers:
  assumes "receive_phase env p ss = (cs, ss', rs)" and "n \<in> set rs"
  shows "se_receive env n = None"
  using assms
  by (induction ss arbitrary: cs ss' rs)
     (auto simp: receive_node_def split: prod.splits if_splits option.splits)

lemma receive_phase_calls: "receive_phase env p ss = (cs, ss', rs) \<Longrightarrow> set cs \<subseteq> range CallReceive"
  by (induction ss arbitrary: cs ss' rs)
     (auto simp: receive_node_def split: prod.splits if_splits option.splits)

lemma send_batches_calls: "set (fst (send_batches env a bs)) \<subseteq> {CallSend a b |b. True}"
  by (induction bs) (auto split: option.splits prod.splits)

definition is_delete :: "sync_call \<Rightarrow> bool" where
  "is_delete c = (case c of CallDelete _ _ \<Rightarrow> True | _ \<Rightarrow> False)"

definition is_save :: "sync_call \<Rightarrow> bool" where
  "is_save c = (case c of CallSave _ _ _ \<Rightarrow> True | _ \<Rightarrow> False)"

lemma send_from_calls:
  assumes "c \<in> set (fst (send_from env h rs p a st))"
  shows "c \<in> set (fst st) \<or> (\<exists>b. c = CallSend a b)"
proof -
  let ?bs = "batches (sendOrder (live_routes rs (at_key (pl_sends p) a)))"
  have "fst (send_from env h rs p a st) = fst st @ fst (send_batches env a ?bs)"
    by (simp add: send_from_def Let_def split: prod.split)
  with assms send_batches_calls [of env a ?bs] show ?thesis by auto
qed

lemma send_phase_calls:
  assumes "c \<in> set (fst (send_phase env h rs p))"
  shows "\<exists>a b. c = CallSend a b"
proof -
  have "c \<in> set (fst st) \<or> (\<exists>a b. c = CallSend a b)"
    if "c \<in> set (fst (fold (send_from env h rs p) as st))" for as st
    using that
  proof (induction as arbitrary: st)
    case (Cons a as)
    from Cons.IH [of "send_from env h rs p a st"] Cons.prems send_from_calls [of c env h rs p a st]
    show ?case by auto
  qed simp
  from this [of "sort (map fst (pl_sends p))" "([], Map.empty)"] assms show ?thesis
    by (simp add: send_phase_def)
qed

lemma finish_node_ok:
  "snd (finish_node env i want se) = None \<Longrightarrow>
     se_dropped env i = False \<and> (\<exists>r. se_finish env i = Inr r \<and> fr_Errors r \<le> 0 \<and> fr_Copied r + fr_Skipped r = want)"
  by (auto simp: finish_node_def Let_def split: sum.splits if_splits)

lemma finish_phase_ok:
  assumes rcv: "receive_phase env p ss0 = (c1, ss, rs)" and s: "s \<in> set (snd (finish_phase env p rs se ss))"
    and ok: "ns_err s = None"
  shows "copies_arrived env p (ns_id s)"
proof -
  from s obtain s0 where s0: "s0 \<in> set ss" and e: "s = (if ns_id s0 \<in> set rs
               then (case finish_node env (ns_id s0) (pl_copies p (ns_id s0)) (se (ns_id s0)) of
                       (copied, err) \<Rightarrow> s0\<lparr>ns_copied := copied, ns_err := err\<rparr>)
               else s0)" by (auto simp: finish_phase_def)
  show ?thesis
  proof (cases "ns_id s0 \<in> set rs")
    case True
    obtain copied err where f: "finish_node env (ns_id s0) (pl_copies p (ns_id s0)) (se (ns_id s0)) = (copied, err)"
      by (cases "finish_node env (ns_id s0) (pl_copies p (ns_id s0)) (se (ns_id s0))")
    with e True ok have "err = None" "ns_id s = ns_id s0" by (simp_all add: ns_id_def)
    with finish_node_ok [of env "ns_id s0" "pl_copies p (ns_id s0)" "se (ns_id s0)"] f
      receive_phase_receivers [OF rcv True] show ?thesis by (auto simp: copies_arrived_def)
  next
    case False
    with e have "s = s0" by simp
    with receive_phase_ok [OF rcv s0] ok False show ?thesis by (simp add: copies_arrived_def)
  qed
qed

lemma delete_batches_calls:
  "c \<in> set (fst (delete_batches env i bs)) \<Longrightarrow> \<exists>b\<in>set bs. c = CallDelete i b"
  by (induction bs) (auto split: option.splits prod.splits)

lemma delete_batches_ok:
  "snd (snd (delete_batches env i bs)) = None \<Longrightarrow> b \<in> set bs \<Longrightarrow>
     se_delete env i b = None \<and> CallDelete i b \<in> set (fst (delete_batches env i bs))"
  by (induction bs) (auto split: option.splits prod.splits)

lemma batches_concat: "concat (batches ps) = ps"
proof (cases ps)
  case (Cons p qs)
  have "concat (batches_loop cur sz ps) = cur @ ps" for cur sz ps
    by (induction cur sz ps rule: batches_loop.induct) auto
  with Cons show ?thesis by simp
qed simp

lemma save_phase_calls: "c \<in> set (fst (save_phase env job p ss)) \<Longrightarrow> is_save c"
  by (auto simp: save_phase_def is_save_def split: if_splits)

text \<open>The parts of a run that has a plan.\<close>

lemma sync_copy_delete_parts:
  assumes "sync_copy_delete env job p states = (calls, final)"
  obtains ss0 c1 ss rs se c3 ss3 where "receive_phase env p ss0 = (c1, ss, rs)"
    and "finish_phase env p rs se ss = (c3, ss3)"
    and "\<exists>c2. (\<forall>c\<in>set c2. \<exists>a b. c = CallSend a b)
          \<and> calls = c1 @ c2 @ c3 @ fst (delete_phase env p ss3) @ fst (save_phase env job p (snd (delete_phase env p ss3)))"
proof -
  obtain c1 ss rs where r: "receive_phase env p (space_phase p states) = (c1, ss, rs)"
    by (cases "receive_phase env p (space_phase p states)") auto
  obtain c2 se where d: "send_phase env (hostname_of ss) rs p = (c2, se)"
    by (cases "send_phase env (hostname_of ss) rs p")
  obtain c3 ss3 where f: "finish_phase env p rs se ss = (c3, ss3)"
    by (cases "finish_phase env p rs se ss")
  have "\<forall>c\<in>set c2. \<exists>a b. c = CallSend a b"
    using send_phase_calls [of _ env "hostname_of ss" rs p] d by simp
  moreover have "calls = c1 @ c2 @ c3 @ fst (delete_phase env p ss3) @ fst (save_phase env job p (snd (delete_phase env p ss3)))"
    using assms unfolding sync_copy_delete_def Let_def r d f prod.case by (auto split: prod.splits)
  ultimately show thesis using that [OF r f] by blast
qed

lemma delete_phase_call:
  assumes "c \<in> set (fst (delete_phase env p ss))"
  shows "\<exists>s\<in>set ss. ns_err s = None \<and> (\<exists>b\<in>set (batches (pl_deletes p (ns_id s))). c = CallDelete (ns_id s) b)"
proof -
  from assms obtain s where s: "s \<in> set ss" "c \<in> set (fst (delete_node env p s))" by (auto simp: delete_phase_def)
  then have e: "ns_err s = None" by (cases "ns_err s") (simp_all add: delete_node_def)
  with s(2) have "c \<in> set (fst (delete_batches env (ns_id s) (batches (pl_deletes p (ns_id s)))))"
    by (auto simp: delete_node_def split: prod.splits)
  with delete_batches_calls s(1) e show ?thesis by blast
qed

text \<open>
  C21: a run deletes on a node only files its plan deletes there, only when every copy the plan has for
  that node arrived, and after all copying of the run is over: no transfer follows a delete.
\<close>

theorem sync_deletes_after_copies:
  assumes run: "sync_run env job = (calls, final, conf)" and d: "CallDelete n b \<in> set calls"
  shows "\<exists>p. run_plan env job = Inr p \<and> set b \<subseteq> set (pl_deletes p n) \<and> copies_arrived env p n
    \<and> (\<exists>pre post. calls = pre @ post \<and> CallDelete n b \<in> set post \<and> list_all (\<lambda>c. is_delete c \<or> is_save c) post)"
proof -
  from sync_run_plan [OF run] d obtain p states where p: "run_plan env job = Inr p"
    and s: "sync_copy_delete env job p states = (calls, final)" by auto
  from s show ?thesis
  proof (rule sync_copy_delete_parts)
    fix ss0 c1 ss rs se c3 ss3
    assume r: "receive_phase env p ss0 = (c1, ss, rs)" and f: "finish_phase env p rs se ss = (c3, ss3)"
      and "\<exists>c2. (\<forall>c\<in>set c2. \<exists>a b. c = CallSend a b)
          \<and> calls = c1 @ c2 @ c3 @ fst (delete_phase env p ss3) @ fst (save_phase env job p (snd (delete_phase env p ss3)))"
    then obtain c2 where c2: "\<forall>c\<in>set c2. \<exists>a b. c = CallSend a b"
      and calls: "calls = (c1 @ c2 @ c3) @ (fst (delete_phase env p ss3)
            @ fst (save_phase env job p (snd (delete_phase env p ss3))))" by auto
    let ?post = "fst (delete_phase env p ss3) @ fst (save_phase env job p (snd (delete_phase env p ss3)))"
    have c3: "c3 = map (\<lambda>s. CallFinish (ns_id s)) (filter (\<lambda>s. ns_id s \<in> set rs) ss)"
      using f by (simp add: finish_phase_def)
    have "CallDelete n b \<notin> set (c1 @ c2 @ c3)" using receive_phase_calls [OF r] c2 by (auto simp: c3)
    moreover have "CallDelete n b \<notin> set (fst (save_phase env job p (snd (delete_phase env p ss3))))"
      using save_phase_calls by (force simp: is_save_def)
    ultimately have del: "CallDelete n b \<in> set (fst (delete_phase env p ss3))" using d calls by auto
    from delete_phase_call [OF this] obtain s where sn: "s \<in> set ss3" "ns_err s = None" "ns_id s = n"
      and b: "b \<in> set (batches (pl_deletes p n))" by auto
    have "copies_arrived env p n" using finish_phase_ok [OF r, of s se] sn f by simp
    moreover have "set b \<subseteq> set (pl_deletes p n)"
      using b batches_concat [of "pl_deletes p n"] by (metis UN_upper set_concat)
    moreover have "list_all (\<lambda>c. is_delete c \<or> is_save c) ?post"
      using delete_phase_call save_phase_calls by (fastforce simp: list_all_iff is_delete_def)
    moreover have "CallDelete n b \<in> set ?post" using del by simp
    ultimately show ?thesis using p calls by blast
  qed
qed

text \<open>
  a two-way run saves the record once, with the plan's files, and only for nodes that took every
  copy and carried out every delete the plan has for them; a node that failed keeps its last record.
\<close>

theorem sync_records_successes:
  assumes run: "sync_run env job = (calls, final, conf)" and d: "CallSave ids files deleted \<in> set calls"
  shows "\<exists>p. run_plan env job = Inr p \<and> jb_Source job = Nil_uuid \<and> files = pl_files p \<and> deleted = pl_deleted p
    \<and> (\<forall>n\<in>set ids. copies_arrived env p n
         \<and> (\<forall>b\<in>set (batches (pl_deletes p n)). se_delete env n b = None \<and> CallDelete n b \<in> set calls))"
proof -
  from sync_run_plan [OF run] d obtain p states where p: "run_plan env job = Inr p"
    and s: "sync_copy_delete env job p states = (calls, final)" by auto
  from s show ?thesis
  proof (rule sync_copy_delete_parts)
    fix ss0 c1 ss rs se c3 ss3
    assume r: "receive_phase env p ss0 = (c1, ss, rs)" and f: "finish_phase env p rs se ss = (c3, ss3)"
      and "\<exists>c2. (\<forall>c\<in>set c2. \<exists>a b. c = CallSend a b)
          \<and> calls = c1 @ c2 @ c3 @ fst (delete_phase env p ss3) @ fst (save_phase env job p (snd (delete_phase env p ss3)))"
    then obtain c2 where c2: "\<forall>c\<in>set c2. \<exists>a b. c = CallSend a b"
      and calls: "calls = c1 @ c2 @ c3 @ fst (delete_phase env p ss3)
            @ fst (save_phase env job p (snd (delete_phase env p ss3)))" by auto
    have c3: "c3 = map (\<lambda>s. CallFinish (ns_id s)) (filter (\<lambda>s. ns_id s \<in> set rs) ss)"
      using f by (simp add: finish_phase_def)
    have "CallSave ids files deleted \<notin> set (c1 @ c2 @ c3)" using receive_phase_calls [OF r] c2 by (auto simp: c3)
    moreover have "CallSave ids files deleted \<notin> set (fst (delete_phase env p ss3))" using delete_phase_call by blast
    ultimately have "CallSave ids files deleted \<in> set (fst (save_phase env job p (snd (delete_phase env p ss3))))"
      using d calls by auto
    then have src: "jb_Source job = Nil_uuid" and ids: "ids = map ns_id (filter (\<lambda>s. ns_err s = None) (snd (delete_phase env p ss3)))"
      and fd: "files = pl_files p" "deleted = pl_deleted p" by (auto simp: save_phase_def split: if_splits)
    have "copies_arrived env p n \<and> (\<forall>b\<in>set (batches (pl_deletes p n)). se_delete env n b = None \<and> CallDelete n b \<in> set calls)"
      if "n \<in> set ids" for n
    proof -
      from that ids obtain s where s: "s \<in> set ss3" and ok: "ns_err (snd (delete_node env p s)) = None"
        and n: "n = ns_id (snd (delete_node env p s))" by (auto simp: delete_phase_def)
      have e: "ns_err s = None" using ok by (auto simp: delete_node_def split: if_splits)
      obtain cs k err where db: "delete_batches env (ns_id s) (batches (pl_deletes p (ns_id s))) = (cs, k, err)"
        by (cases "delete_batches env (ns_id s) (batches (pl_deletes p (ns_id s)))")
      with ok e n have err: "err = None" and id: "ns_id s = n" by (simp_all add: delete_node_def ns_id_def)
      have "fst (delete_node env p s) = cs" using e db by (simp add: delete_node_def)
      with s have sub: "set cs \<subseteq> set (fst (delete_phase env p ss3))" by (force simp: delete_phase_def)
      have "copies_arrived env p n" using finish_phase_ok [OF r, of s se] s e f id by simp
      moreover have "se_delete env n b = None \<and> CallDelete n b \<in> set calls" if "b \<in> set (batches (pl_deletes p n))" for b
      proof -
        have "se_delete env n b = None \<and> CallDelete n b \<in> set cs"
          using delete_batches_ok [of env n "batches (pl_deletes p n)" b] db err that by (simp add: id)
        with sub calls show ?thesis by auto
      qed
      ultimately show ?thesis by blast
    qed
    with p src fd show ?thesis by blast
  qed
qed

section \<open>A concrete run\<close>

text \<open>Two nodes that had both synced \<open>a\<close> and \<open>b\<close>; node 2 has deleted \<open>b\<close> since.\<close>

definition run_node :: "uuid \<Rightarrow> node" where
  "run_node i =
     \<lparr>nd_ID = i, nd_ClusterID = 9, nd_Hostname = ''h'', nd_IPAddress = [], nd_Role = ''app'',
      nd_FailoverPriority = 1, nd_AgentStatus = ''connected'', nd_PatroniState = None,
      nd_NetboxRunning = None, nd_RQRunning = None, nd_SuppressAutoStart = False, nd_MaintenanceMode = False\<rparr>"

definition run_env :: sync_env where
  "run_env = \<lparr>se_path_test = (\<lambda>_. None), se_catalog = Inl [], se_list = (\<lambda>i. Inr (if i = 1 then 2 else 1, 100)),
     se_listing = (\<lambda>i. if i = 1 then [\<lparr>sf_Path = ''a'', sf_Size = 1, sf_SHA256 = ''x'', sf_MTime = 1\<rparr>,
          \<lparr>sf_Path = ''b'', sf_Size = 1, sf_SHA256 = ''y'', sf_MTime = 1\<rparr>]
        else [\<lparr>sf_Path = ''a'', sf_Size = 1, sf_SHA256 = ''x'', sf_MTime = 1\<rparr>]),
     se_record = Inr \<lparr>sr_Files = [(1, [(''a'', ''x''), (''b'', ''y'')]), (2, [(''a'', ''x''), (''b'', ''y'')])],
        sr_SyncedAt = Map.empty, sr_Deleted = []\<rparr>,
     se_receive = (\<lambda>_. None), se_send = (\<lambda>_ _. None), se_finish = (\<lambda>_. Inl []), se_dropped = (\<lambda>_. False),
     se_delete = (\<lambda>_ _. None), se_save = None\<rparr>"

definition run_job :: job where
  "run_job = \<lparr>jb_ClusterID = 9, jb_Name = ''media'', jb_Root = [], jb_Nodes = [run_node 1, run_node 2],
     jb_Source = 0, jb_Backup = None\<rparr>"

lemma run_calls: "fst (sync_run run_env run_job) = [CallDelete 1 [''b''], CallSave [1, 2] [(''a'', ''x'')] [''b'']]"
  by code_simp

lemma run_result: "sync_run run_env run_job
    = ([CallDelete 1 [''b''], CallSave [1, 2] [(''a'', ''x'')] [''b'']], snd (sync_run run_env run_job))"
  using run_calls by (metis prod.collapse)

theorem sync_deletes_after_copies_witness:
  "\<exists>p. run_plan run_env run_job = Inr p \<and> ''b'' \<in> set (pl_deletes p 1) \<and> copies_arrived run_env p 1"
proof -
  have "CallDelete 1 [''b''] \<in> set (fst (sync_run run_env run_job))" by (simp add: run_calls)
  with sync_deletes_after_copies [where env = run_env and job = run_job and n = 1 and b = "[''b'']"]
  show ?thesis by (cases "sync_run run_env run_job") auto
qed

theorem sync_records_successes_witness:
  "\<exists>p. run_plan run_env run_job = Inr p \<and> pl_files p = [(''a'', ''x'')] \<and> copies_arrived run_env p 2"
proof -
  have "CallSave [1, 2] [(''a'', ''x'')] [''b''] \<in> set (fst (sync_run run_env run_job))" by (simp add: run_calls)
  with sync_records_successes [where env = run_env and job = run_job and ids = "[1, 2]"]
  show ?thesis by (cases "sync_run run_env run_job") fastforce
qed

end
