(* ===== verification/FileSyncRelay.thy ===== *)
theory FileSyncRelay
  imports FileSyncRun
begin

text \<open>
  Around one sync run: the relay of listings and chunks and the queue of runs per folder
  (\<open>internal/server/filesync/filesync.go\<close>), the folders a cluster syncs
  (\<open>internal/server/filesync/jobs.go\<close>), the events a run reports, and the record of two-way sync in
  the database (\<open>internal/server/db/queries/file_sync.go\<close>).
\<close>

section \<open>Relaying chunks\<close>

text \<open>The relay state of a run; \<open>rl_lists\<close> has a key for every participant.\<close>

record relay =
  rl_lists :: "uuid \<rightharpoonup> sync_file list"
  rl_source :: uuid
  rl_routes :: "(string \<times> uuid list) list"
  rl_dropped :: "uuid set"

definition HandleListing :: "uuid \<Rightarrow> sync_file list \<Rightarrow> relay \<Rightarrow> relay" where
  "HandleListing node files r = (case rl_lists r node of
      None \<Rightarrow> r
    | Some l \<Rightarrow> r\<lparr>rl_lists := (rl_lists r)(node \<mapsto> l @ files)\<rparr>)"

text \<open>A chunk message: the node it came from, its path, and whatever else it carries.\<close>

type_synonym 'c chunk = "uuid \<times> string \<times> 'c"

fun deliver :: "(uuid \<Rightarrow> bool) \<Rightarrow> 'c chunk \<Rightarrow> uuid list \<Rightarrow> relay \<Rightarrow> (uuid \<times> 'c chunk) list \<times> relay" where
  "deliver can c [] r = ([], r)"
| "deliver can c (d # ds) r =
     (if can d then (let (out, r') = deliver can c ds r in ((d, c) # out, r'))
      else deliver can c ds (r\<lparr>rl_dropped := insert d (rl_dropped r)\<rparr>))"

text \<open>\<open>can\<close> tells which receivers are connected and take the chunk within the timeout.\<close>

definition HandleChunk :: "(uuid \<Rightarrow> bool) \<Rightarrow> 'c chunk \<Rightarrow> relay \<Rightarrow> (uuid \<times> 'c chunk) list \<times> relay" where
  "HandleChunk can c r =
     (if fst c \<noteq> rl_source r then ([], r)
      else deliver can c (filter (\<lambda>d. d \<notin> rl_dropped r) (at_key (rl_routes r) (fst (snd c)))) r)"

text \<open>The chunks of one batch in the order they arrive.\<close>

fun relay_chunks :: "((uuid \<Rightarrow> bool) \<times> 'c chunk) list \<Rightarrow> relay \<Rightarrow> (uuid \<times> 'c chunk) list \<times> relay" where
  "relay_chunks [] r = ([], r)"
| "relay_chunks ((can, c) # cs) r =
     (let (out, r') = HandleChunk can c r; (outs, r'') = relay_chunks cs r' in (out @ outs, r''))"

definition delivered_to :: "uuid \<Rightarrow> (uuid \<times> 'c chunk) list \<Rightarrow> 'c chunk list" where
  "delivered_to d out = map snd (filter (\<lambda>(x, _). x = d) out)"

text \<open>The chunks of the batch that are meant for a receiver.\<close>

definition meant_for :: "relay \<Rightarrow> uuid \<Rightarrow> ((uuid \<Rightarrow> bool) \<times> 'c chunk) list \<Rightarrow> 'c chunk list" where
  "meant_for r d cs =
     filter (\<lambda>c. fst c = rl_source r \<and> d \<in> set (at_key (rl_routes r) (fst (snd c)))) (map snd cs)"

lemma deliver_frame:
  "rl_source (snd (deliver can c ds r)) = rl_source r" "rl_routes (snd (deliver can c ds r)) = rl_routes r"
  "d \<in> rl_dropped (snd (deliver can c ds r)) \<longleftrightarrow> d \<in> rl_dropped r \<or> (d \<in> set ds \<and> \<not> can d)"
  by (induction ds arbitrary: r) (simp_all add: case_prod_beta Let_def, blast+)

lemma deliver_out:
  "distinct ds \<Longrightarrow> delivered_to d (fst (deliver can c ds r)) = (if d \<in> set ds \<and> can d then [c] else [])"
  by (induction ds arbitrary: r) (auto simp: delivered_to_def case_prod_beta Let_def)

lemma HandleChunk_frame:
  "rl_source (snd (HandleChunk can c r)) = rl_source r" "rl_routes (snd (HandleChunk can c r)) = rl_routes r"
  "rl_dropped r \<subseteq> rl_dropped (snd (HandleChunk can c r))"
  by (auto simp: HandleChunk_def deliver_frame)

lemma relay_chunks_frame: "rl_dropped r \<subseteq> rl_dropped (snd (relay_chunks cs r))"
proof (induction cs r rule: relay_chunks.induct)
  case (2 can c cs r)
  obtain out r' where h: "HandleChunk can c r = (out, r')" by (cases "HandleChunk can c r")
  have "rl_dropped r \<subseteq> rl_dropped r'" using HandleChunk_frame(3) [of r can c] h by simp
  with 2 [OF h [symmetric] refl] h show ?case by (auto simp: case_prod_beta)
qed simp

lemma delivered_append: "delivered_to d (xs @ ys) = delivered_to d xs @ delivered_to d ys"
  by (simp add: delivered_to_def)

lemma dropped_gets_nothing:
  assumes dist: "\<And>path. distinct (at_key (rl_routes r) path)" and "d \<in> rl_dropped r"
  shows "delivered_to d (fst (relay_chunks cs r)) = []"
  using assms
proof (induction cs r rule: relay_chunks.induct)
  case (2 can c cs r)
  obtain out r' where h: "HandleChunk can c r = (out, r')" by (cases "HandleChunk can c r")
  have "delivered_to d out = []"
    using 2(2,3) h deliver_out [of "filter (\<lambda>d. d \<notin> rl_dropped r) (at_key (rl_routes r) (fst (snd c)))" d can c r]
    by (auto simp: HandleChunk_def delivered_to_def split: if_splits)
  moreover have "rl_routes r' = rl_routes r" "d \<in> rl_dropped r'"
    using HandleChunk_frame [where can = can and c = c and r = r] h 2(3) by auto
  ultimately show ?case using 2(1) [OF h [symmetric] refl] 2(2) h by (simp add: delivered_append case_prod_beta)
qed (simp add: delivered_to_def)

text \<open>
  C37: the relay never leaves a gap: what a receiver gets of a batch is an initial part of the chunks
  meant for it, in order, and all of them unless the relay has cut it off, which the run then sees.
\<close>

theorem relay_no_gap:
  assumes dist: "\<And>path. distinct (at_key (rl_routes r) path)" and d: "d \<notin> rl_dropped r"
    and run: "relay_chunks cs r = (out, r')"
  shows "prefix (delivered_to d out) (meant_for r d cs)
    \<and> (d \<notin> rl_dropped r' \<longrightarrow> delivered_to d out = meant_for r d cs)"
  using assms
proof (induction cs r arbitrary: out r' rule: relay_chunks.induct)
  case (1 r)
  then show ?case by (simp add: delivered_to_def meant_for_def)
next
  case (2 can c cs r)
  obtain o1 r1 where h: "HandleChunk can c r = (o1, r1)" by (cases "HandleChunk can c r")
  obtain o2 r2 where t: "relay_chunks cs r1 = (o2, r2)" by (cases "relay_chunks cs r1")
  have e: "out = o1 @ o2" "r' = r2" using 2(4) h t by simp_all
  have fr: "rl_source r1 = rl_source r" "rl_routes r1 = rl_routes r"
    using HandleChunk_frame [where can = can and c = c and r = r] h by simp_all
  have m: "meant_for r1 d cs = meant_for r d cs" by (simp add: meant_for_def fr)
  let ?mine = "fst c = rl_source r \<and> d \<in> set (at_key (rl_routes r) (fst (snd c)))"
  have o1: "delivered_to d o1 = (if ?mine \<and> can d then [c] else [])"
    using h 2(2,3) deliver_out [of "filter (\<lambda>d. d \<notin> rl_dropped r) (at_key (rl_routes r) (fst (snd c)))" d can c r]
    by (auto simp: HandleChunk_def delivered_to_def split: if_splits)
  have r1: "d \<in> rl_dropped r1 \<longleftrightarrow> ?mine \<and> \<not> can d"
    using h 2(3) deliver_frame(3) [of d can c "filter (\<lambda>d. d \<notin> rl_dropped r) (at_key (rl_routes r) (fst (snd c)))" r]
    by (auto simp: HandleChunk_def split: if_splits)
  have mc: "meant_for r d ((can, c) # cs) = (if ?mine then c # meant_for r d cs else meant_for r d cs)"
    by (simp add: meant_for_def)
  show ?case
  proof (cases "d \<in> rl_dropped r1")
    case True
    have "delivered_to d o2 = []" using dropped_gets_nothing [of r1 d cs] True 2(2) t by (simp add: fr)
    moreover have "d \<in> rl_dropped r2" using relay_chunks_frame [of r1 cs] True t by auto
    ultimately show ?thesis using True r1 o1 e by (simp add: delivered_append)
  next
    case False
    from 2(1) [OF h [symmetric] refl _ False t] 2(2) fr
    have "prefix (delivered_to d o2) (meant_for r d cs) \<and> (d \<notin> rl_dropped r2 \<longrightarrow> delivered_to d o2 = meant_for r d cs)"
      by (simp add: m)
    with False r1 o1 e mc show ?thesis by (auto simp: delivered_append)
  qed
qed

theorem relay_no_gap_witness:
  "delivered_to 2 (fst (relay_chunks [(\<lambda>_. True, (1, ''a'', 0 :: nat)), (\<lambda>_. False, (1, ''a'', 1)), (\<lambda>_. True, (1, ''a'', 2))]
     \<lparr>rl_lists = Map.empty, rl_source = 1, rl_routes = [(''a'', [2])], rl_dropped = {}\<rparr>)) = [(1, ''a'', 0)]"
proof -
  let ?r = "\<lparr>rl_lists = Map.empty, rl_source = 1, rl_routes = [(''a'', [2])], rl_dropped = {}\<rparr> :: relay"
  let ?cs = "[(\<lambda>_. True, (1, ''a'', 0 :: nat)), (\<lambda>_. False, (1, ''a'', 1)), (\<lambda>_. True, (1, ''a'', 2))]"
  obtain out r' where o: "relay_chunks ?cs ?r = (out, r')" by (cases "relay_chunks ?cs ?r")
  have "distinct (at_key (rl_routes ?r) path)" for path by (auto simp: at_key_def)
  from relay_no_gap [OF this _ o, of 2] have "prefix (delivered_to 2 out) (meant_for ?r 2 ?cs)" by simp
  moreover have "delivered_to 2 out = [(1, ''a'', 0)]"
    using o by (auto simp: HandleChunk_def at_key_def delivered_to_def split: prod.splits)
  ultimately show ?thesis unfolding o by simp
qed

end
