(* ===== verification/FileSyncService.thy ===== *)
theory FileSyncService
  imports FileSyncRelay
begin

text \<open>
  The queue of folder syncs (\<open>Manager.Start\<close> and \<open>loop\<close>), the folders and jobs of a cluster
  (\<open>jobs.go\<close>), the storage path test and the events a run reports, and the record of two-way sync as
  the database keeps it.
\<close>

section \<open>The queue\<close>

text \<open>
  \<open>qu_active\<close> is the manager's map: a key that is present has a run in progress, and its value is the
  job that waits behind it.  \<open>qu_running\<close> is the goroutines in their loop, each with its current job.
\<close>

record 'j queue =
  qu_active :: "string \<rightharpoonup> 'j option"
  qu_running :: "(string \<times> 'j) list"

definition New_queue :: "'j queue" where
  "New_queue = \<lparr>qu_active = Map.empty, qu_running = []\<rparr>"

datatype start_error = ErrBusy

definition Start :: "string \<Rightarrow> 'j \<Rightarrow> bool \<Rightarrow> 'j queue \<Rightarrow> start_error option \<times> 'j queue" where
  "Start key job que q = (case qu_active q key of
      Some _ \<Rightarrow> if \<not> que then (Some ErrBusy, q)
                else (None, q\<lparr>qu_active := (qu_active q)(key \<mapsto> Some job)\<rparr>)
    | None \<Rightarrow> (None, q\<lparr>qu_active := (qu_active q)(key \<mapsto> None), qu_running := qu_running q @ [(key, job)]\<rparr>))"

text \<open>The goroutine of a key comes to the end of its current run.\<close>

definition loop_next :: "string \<Rightarrow> 'j queue \<Rightarrow> 'j queue" where
  "loop_next key q = (case qu_active q key of
      Some (Some next) \<Rightarrow>
        q\<lparr>qu_active := (qu_active q)(key \<mapsto> None),
          qu_running := map (\<lambda>(k, j). if k = key then (k, next) else (k, j)) (qu_running q)\<rparr>
    | _ \<Rightarrow> q\<lparr>qu_active := (qu_active q)(key := None),
            qu_running := filter (\<lambda>(k, _). k \<noteq> key) (qu_running q)\<rparr>)"

inductive queue_reach :: "'j queue \<Rightarrow> bool" where
  init: "queue_reach New_queue"
| start: "queue_reach q \<Longrightarrow> queue_reach (snd (Start key job que q))"
| finish: "queue_reach q \<Longrightarrow> key \<in> fst ` set (qu_running q) \<Longrightarrow> queue_reach (loop_next key q)"

definition queue_ok :: "'j queue \<Rightarrow> bool" where
  "queue_ok q \<longleftrightarrow> distinct (map fst (qu_running q)) \<and> fst ` set (qu_running q) = dom (qu_active q)"

lemma map_fst_replace: "map fst (map (\<lambda>(k, j). if k = key then (k, n) else (k, j)) xs) = map fst xs"
  by (induction xs) auto

lemma queue_ok_reach: "queue_reach q \<Longrightarrow> queue_ok q"
proof (induction rule: queue_reach.induct)
  case init
  show ?case by (simp add: queue_ok_def New_queue_def)
next
  case (start q key job que)
  then show ?case
    by (auto simp: Start_def queue_ok_def image_iff split: option.splits)
next
  case (finish q key)
  show ?case
  proof (cases "\<exists>next. qu_active q key = Some (Some next)")
    case True
    then obtain next' where n: "qu_active q key = Some (Some next')" by blast
    have "fst ` set (map (\<lambda>(k, j). if k = key then (k, next') else (k, j)) (qu_running q)) = fst ` set (qu_running q)"
      using map_fst_replace [of key next' "qu_running q"] by (metis list.set_map)
    with finish.IH n show ?thesis unfolding loop_next_def queue_ok_def
      by (simp add: map_fst_replace del: map_map set_map) (auto simp: domIff)
  next
    case False
    then have e: "loop_next key q = q\<lparr>qu_active := (qu_active q)(key := None),
        qu_running := filter (\<lambda>(k, _). k \<noteq> key) (qu_running q)\<rparr>"
      by (auto simp: loop_next_def split: option.splits)
    have "distinct (map fst (filter (\<lambda>(k, _). k \<noteq> key) (qu_running q)))"
      using finish.IH by (simp add: queue_ok_def distinct_map_filter)
    moreover have "fst ` set (filter (\<lambda>(k, _). k \<noteq> key) (qu_running q)) = fst ` set (qu_running q) - {key}" by force
    ultimately show ?thesis using finish.IH unfolding e queue_ok_def by auto
  qed
qed

text \<open>
  whatever jobs are started and whenever runs end, a folder never has two syncs at once; a job
  refused is one for a folder that has a sync running; and a job queued last behind a running sync is
  the one that runs when it ends.
\<close>

theorem one_sync_per_folder:
  assumes "queue_reach q"
  shows "distinct (map fst (qu_running q))
    \<and> (Start key job que q = (Some ErrBusy, q) \<longleftrightarrow> \<not> que \<and> key \<in> fst ` set (qu_running q))
    \<and> (key \<in> fst ` set (qu_running q) \<longrightarrow>
         (key, job) \<in> set (qu_running (loop_next key (snd (Start key job True q)))))"
proof -
  from queue_ok_reach [OF assms] have d: "distinct (map fst (qu_running q))"
    and a: "fst ` set (qu_running q) = dom (qu_active q)" by (auto simp: queue_ok_def)
  have "Start key job que q = (Some ErrBusy, q) \<longleftrightarrow> \<not> que \<and> key \<in> fst ` set (qu_running q)"
    unfolding a by (auto simp: Start_def domIff split: option.splits)
  moreover have "(key, job) \<in> set (qu_running (loop_next key (snd (Start key job True q))))"
    if "key \<in> fst ` set (qu_running q)"
  proof -
    from that a obtain w where w: "qu_active q key = Some w" by auto
    from that obtain j where "(key, j) \<in> set (qu_running q)" by auto
    with w show ?thesis by (force simp: Start_def loop_next_def)
  qed
  ultimately show ?thesis using d by blast
qed

theorem one_sync_per_folder_witness:
  "(''f'', 2) \<in> set (qu_running (loop_next ''f'' (snd (Start ''f'' (2 :: nat) True (snd (Start ''f'' 1 False New_queue))))))"
proof -
  have "queue_reach (snd (Start ''f'' (1 :: nat) False New_queue))" by (intro queue_reach.intros)
  from one_sync_per_folder [OF this, of "''f''" 2] show ?thesis by (simp add: Start_def New_queue_def)
qed

section \<open>Jobs\<close>

definition SyncFolders :: "cluster \<Rightarrow> string list" where
  "SyncFolders cl = [] # (if cl_ExtraFoldersSyncEnabled cl then filter (\<lambda>f. f \<noteq> []) (cl_ExtraSyncFolders cl) else [])"

definition BackupJob :: "uuid \<Rightarrow> string \<Rightarrow> int \<Rightarrow> string \<Rightarrow> string \<Rightarrow> node \<Rightarrow> node list \<Rightarrow> job" where
  "BackupJob clusterID label repoIndex posixPath stanza source dests =
     \<lparr>jb_ClusterID = clusterID, jb_Name = ''backups ('' @ label @ '')'', jb_Root = posixPath,
      jb_Nodes = source # dests, jb_Source = nd_ID source,
      jb_Backup = Some \<lparr>bk_Label = label, bk_RepoIndex = repoIndex, bk_Stanza = stanza\<rparr>\<rparr>"

definition MediaJobs :: "cluster \<Rightarrow> node list \<Rightarrow> (uuid \<Rightarrow> bool) \<Rightarrow> string + job list" where
  "MediaJobs cl nodes connected =
     (let peers = filter (\<lambda>n. IsAppRole (nd_Role n) \<and> connected (nd_ID n)) nodes
      in if length peers < 2
         then Inl ''file sync needs at least two connected app-tier or hyperconverged nodes''
         else Inr (map (\<lambda>f. \<lparr>jb_ClusterID = cl_ID cl, jb_Name = (if f = [] then ''media'' else f), jb_Root = f,
                            jb_Nodes = peers, jb_Source = Nil_uuid, jb_Backup = None\<rparr>) (SyncFolders cl)))"

section \<open>Testing a storage path\<close>

datatype path_outcome = PathOk | PathFailed string | PathNoResult string

text \<open>What one node's test adds: its error, the result put on record, and an event.\<close>

definition path_test_node ::
  "uuid \<Rightarrow> string \<Rightarrow> string \<Rightarrow> (uuid \<Rightarrow> bool) \<Rightarrow> (uuid \<Rightarrow> path_outcome) \<Rightarrow> node
     \<Rightarrow> string option \<times> string option \<times> event list" where
  "path_test_node clusterID label path connected outcome n =
     (if \<not> connected (nd_ID n) then (Some ''agent not connected'', None, [])
      else case outcome (nd_ID n) of
        PathNoResult e \<Rightarrow> (Some (''test didn't finish: '' @ e), None, [])
      | PathOk \<Rightarrow> (None, Some [], [])
      | PathFailed e \<Rightarrow> (Some e, Some e,
          [Node (nd_ID n) (Cluster clusterID (New_event ''cluster'' ''error'' ''NBC-CLU-009''
             (''Backup storage '' @ [CHR 0x22] @ label @ [CHR 0x22] @ '' ('' @ path @ '') doesn't work on ''
               @ nd_Hostname n @ '': '' @ e) ActorSystem))]))"

section \<open>Reporting\<close>

definition maxConflictsNamed :: nat where
  "maxConflictsNamed = 10"

definition counts :: "node_run \<Rightarrow> string" where
  "counts s = ''copied '' @ itoa (ns_copied s) @ '', deleted '' @ itoa (ns_deleted s)"

definition report_node :: "job \<Rightarrow> string \<Rightarrow> node_run \<Rightarrow> event list" where
  "report_node job src s =
     (if ns_id s = jb_Source job \<and> ns_err s = None \<and> ns_copied s = 0 then []
      else
        let src = (if ns_id s = jb_Source job then '' (WAL gathered to the main server)'' else src);
            what = ''Sync of '' @ jb_Name job @ src @ '' to '' @ nd_Hostname (ns_node s);
            ev = (case ns_err s of
                None \<Rightarrow> New_event ''cluster'' ''info'' ''NBC-CLU-006'' (what @ '': '' @ counts s) ActorSystem
              | Some e \<Rightarrow> New_event ''cluster'' ''error'' ''NBC-CLU-007''
                            (what @ '' failed ('' @ counts s @ ''): '' @ e) ActorSystem)
        in [Meta ''folder'' (jb_Name job) (Node (ns_id s) (Cluster (jb_ClusterID job) ev))])"

definition report_conflicts :: "job \<Rightarrow> string list \<Rightarrow> event list" where
  "report_conflicts job conflicts =
     (if conflicts = [] then []
      else
        let more = int (length conflicts) - int maxConflictsNamed;
            named = join '', '' (take maxConflictsNamed conflicts)
                    @ (if more > 0 then '' and '' @ itoa more @ '' more'' else []);
            n = itoa (int (length conflicts));
            ev = (if jb_Backup job \<noteq> None
                  then New_event ''cluster'' ''error'' ''NBC-CLU-010''
                    (''Sync of '' @ jb_Name job @ '': '' @ n @ '' WAL files exist with different contents on different nodes ''
                       @ ''(two nodes were primary at once); they were left as they are on every node: '' @ named) ActorSystem
                  else New_event ''cluster'' ''warn'' ''NBC-CLU-008''
                    (''Sync of '' @ jb_Name job @ '': '' @ n @ '' files were changed on more than one node, or changed on ''
                       @ ''one and deleted on another; the newest change was kept: '' @ named) ActorSystem)
        in [Meta ''folder'' (jb_Name job) (Cluster (jb_ClusterID job) ev)])"

definition report :: "job \<Rightarrow> node_run list \<Rightarrow> string list \<Rightarrow> event list" where
  "report job states conflicts =
     (let src = foldl (\<lambda>f s. if ns_id s = jb_Source job then '' from '' @ nd_Hostname (ns_node s) else f) [] states
      in concat (map (report_node job src) states) @ report_conflicts job conflicts)"

section \<open>The record in the database\<close>

text \<open>
  The three tables for one cluster and folder: when each node last synced, the files it held then, and
  the delete markers with the time they were set.
\<close>

record sync_tables =
  tb_nodes :: "(uuid \<times> instant) list"
  tb_files :: "(uuid \<times> string \<times> string) list"
  tb_deletes :: "(string \<times> instant) list"

definition Load :: "sync_tables \<Rightarrow> sync_record" where
  "Load t = \<lparr>sr_Files = map (\<lambda>(n, _). (n, map snd (filter (\<lambda>(m, _). m = n) (tb_files t)))) (tb_nodes t),
     sr_SyncedAt = map_of (tb_nodes t), sr_Deleted = map (\<lambda>(p, _). (p, True)) (tb_deletes t)\<rparr>"

definition save_node :: "instant \<Rightarrow> string gomap \<Rightarrow> uuid \<Rightarrow> sync_tables \<Rightarrow> sync_tables" where
  "save_node now files n t =
     t\<lparr>tb_nodes := AList.update n now (tb_nodes t),
       tb_files := filter (\<lambda>(m, _). m \<noteq> n) (tb_files t) @ map (\<lambda>(p, sha). (n, p, sha)) files\<rparr>"

text \<open>\<open>INSERT ... ON CONFLICT DO NOTHING\<close>.\<close>

definition mark_deleted :: "instant \<Rightarrow> string \<Rightarrow> (string \<times> instant) list \<Rightarrow> (string \<times> instant) list" where
  "mark_deleted now p ds = (if map_of ds p = None then (p, now) # ds else ds)"

definition everyone_synced :: "(uuid \<times> instant) list \<Rightarrow> uuid list \<Rightarrow> instant \<Rightarrow> bool" where
  "everyone_synced nodes members at =
     list_all (\<lambda>m. case map_of nodes m of None \<Rightarrow> False | Some s \<Rightarrow> at \<le> s) members"

text \<open>
  \<open>Save\<close>: \<open>wanted\<close> is the answer of the query that locks the cluster row, \<open>members\<close> the application
  tier of the cluster.
\<close>

definition Save ::
  "instant \<Rightarrow> bool \<Rightarrow> uuid list \<Rightarrow> uuid list \<Rightarrow> string gomap \<Rightarrow> string list \<Rightarrow> sync_tables \<Rightarrow> sync_tables" where
  "Save now wanted members synced files deleted t =
     (if \<not> wanted then t
      else
        let t = fold (save_node now files) synced t;
            ds = fold (mark_deleted now) deleted (tb_deletes t);
            ds = filter (\<lambda>(p, _). p \<notin> fst ` set files) ds;
            ds = filter (\<lambda>(_, at). \<not> everyone_synced (tb_nodes t) members at) ds
        in t\<lparr>tb_deletes := ds\<rparr>)"

lemma fold_save_nodes:
  "map_of (tb_nodes (fold (save_node now files) synced t)) n = (if n \<in> set synced then Some now else map_of (tb_nodes t) n)"
  "tb_deletes (fold (save_node now files) synced t) = tb_deletes t"
  by (induction synced arbitrary: t) (auto simp: save_node_def update_conv')

lemma fold_save_files:
  "filter (\<lambda>(m, _). m = n) (tb_files (fold (save_node now files) synced t)) =
     (if n \<in> set synced then map (\<lambda>(p, sha). (n, p, sha)) files else filter (\<lambda>(m, _). m = n) (tb_files t))"
proof (induction synced arbitrary: t)
  case (Cons s ss)
  have "filter (\<lambda>(m, _). m = n) (tb_files (save_node now files s t)) =
      (if n = s then map (\<lambda>(p, sha). (n, p, sha)) files else filter (\<lambda>(m, _). m = n) (tb_files t))"
    by (auto simp: save_node_def filter_map o_def case_prod_beta filter_empty_conv intro: filter_cong)
  with Cons.IH [of "save_node now files s t"] show ?case by auto
qed simp

lemma mark_deleted_step:
  "map_of (mark_deleted now a ds) p = (if p = a \<and> map_of ds p = None then Some now else map_of ds p)"
  by (auto simp: mark_deleted_def)

lemma mark_deleted_fold:
  "map_of (fold (mark_deleted now) ps ds) p = (if p \<in> set ps \<and> map_of ds p = None then Some now else map_of ds p)"
proof (induction ps arbitrary: ds)
  case (Cons a ps)
  show ?case by (simp add: Cons.IH mark_deleted_step)
qed simp

lemma mark_deleted_new:
  "p \<in> set ps \<Longrightarrow> map_of ds p = None \<Longrightarrow> map_of (fold (mark_deleted now) ps ds) p = Some now"
  by (simp add: mark_deleted_fold)

lemma map_of_map_key: "map_of (map (\<lambda>(n, v). (n, f n)) xs) k = (if k \<in> fst ` set xs then Some (f k) else None)"
  by (induction xs) auto

text \<open>
  what the next sync reads back: each node that synced is on record with exactly the files of the
  plan, a node that did not keeps its record, and a path newly deleted stays marked as long as some
  member of the application tier has not synced since, so that the delete still reaches it.
\<close>

theorem Save_then_Load:
  assumes "map_of (sr_Files (Load (Save now True members synced files deleted t))) n = Some m"
  shows "(n \<in> set synced \<longrightarrow> m = files) \<and> (n \<notin> set synced \<longrightarrow> map_of (sr_Files (Load t)) n = Some m)
    \<and> (p \<in> set deleted \<longrightarrow> map_of (tb_deletes t) p = None \<longrightarrow> p \<notin> fst ` set files \<longrightarrow>
         k \<in> set members \<longrightarrow> k \<notin> set synced \<longrightarrow> (\<forall>at. map_of (tb_nodes t) k = Some at \<longrightarrow> at < now) \<longrightarrow>
         (p, True) \<in> set (sr_Deleted (Load (Save now True members synced files deleted t))))"
proof -
  let ?t = "fold (save_node now files) synced t"
  let ?s = "Save now True members synced files deleted t"
  have s: "tb_nodes ?s = tb_nodes ?t" "tb_files ?s = tb_files ?t"
    "tb_deletes ?s = filter (\<lambda>(_, at). \<not> everyone_synced (tb_nodes ?t) members at)
       (filter (\<lambda>(p, _). p \<notin> fst ` set files) (fold (mark_deleted now) deleted (tb_deletes t)))"
    by (simp_all add: Save_def Let_def fold_save_nodes)
  have f: "map_of (sr_Files (Load u)) n = (if n \<in> fst ` set (tb_nodes u)
      then Some (map snd (filter (\<lambda>(k, _). k = n) (tb_files u))) else None)" for u
    by (simp add: Load_def map_of_map_key)
  have m: "m = map snd (filter (\<lambda>(k, _). k = n) (tb_files ?t))" and k: "n \<in> fst ` set (tb_nodes ?t)"
    using assms by (simp_all add: f s split: if_splits)
  have "m = files" if "n \<in> set synced"
    using m that by (simp add: fold_save_files o_def case_prod_beta)
  moreover have "map_of (sr_Files (Load t)) n = Some m" if "n \<notin> set synced"
  proof -
    have "map_of (tb_nodes ?t) n \<noteq> None" using k by (simp add: map_of_eq_None_iff)
    then have "n \<in> fst ` set (tb_nodes t)" using that by (simp add: fold_save_nodes map_of_eq_None_iff)
    with m that show ?thesis by (simp add: f fold_save_files)
  qed
  moreover have "(p, True) \<in> set (sr_Deleted (Load ?s))"
    if "p \<in> set deleted" "map_of (tb_deletes t) p = None" "p \<notin> fst ` set files" "k \<in> set members"
      "k \<notin> set synced" "\<forall>at. map_of (tb_nodes t) k = Some at \<longrightarrow> at < now"
  proof -
    have "\<not> everyone_synced (tb_nodes ?t) members now"
      using that(4,5,6) by (auto simp: everyone_synced_def list_all_iff fold_save_nodes split: option.splits)
    moreover have "(p, now) \<in> set (fold (mark_deleted now) deleted (tb_deletes t))"
      using mark_deleted_new [OF that(1,2)] by (rule map_of_SomeD)
    ultimately have "(p, now) \<in> set (tb_deletes ?s)" using that(3) by (simp add: s)
    then show ?thesis by (force simp: Load_def)
  qed
  ultimately show ?thesis by blast
qed

theorem Save_then_Load_witness:
  "(''b'', True) \<in> set (sr_Deleted (Load (Save 7 True [1, 2] [1] [(''a'', ''x'')] [''b'']
      \<lparr>tb_nodes = [(1, 3), (2, 3)], tb_files = [], tb_deletes = []\<rparr>)))"
proof -
  have "map_of (sr_Files (Load (Save 7 True [1, 2] [1] [(''a'', ''x'')] [''b'']
      \<lparr>tb_nodes = [(1, 3), (2, 3)], tb_files = [], tb_deletes = []\<rparr>))) 1 = Some [(''a'', ''x'')]"
    by (simp add: Save_def Load_def save_node_def)
  from Save_then_Load [OF this, of "''b''" 2] show ?thesis by simp
qed

end
