(* ===== verification/AgentDisk.thy ===== *)
theory AgentDisk
  imports SyncPaths
begin

text \<open>
  The agent's side of the operating system: the files of a node and the calls the sync code makes on
  them, and \<open>internal/agent/executor/accessrepair.go\<close>, which retries a denied call once after restoring
  the agent's access.  Every call may fail: \<open>os_faults\<close> is the list of failures to come, one entry per
  call (an empty list means that nothing fails any more), and a write that fails may have written some
  of its bytes.  Directories and permissions are not part of the state, so creating a directory, changing
  a mode or removing an empty directory leaves it as it is.
\<close>

datatype os_error = ErrPermission string | ErrNotExist string | ErrOther string string

fun err_text :: "os_error \<Rightarrow> string" where
  "err_text (ErrPermission what) = what @ '': permission denied''"
| "err_text (ErrNotExist what) = what @ '': no such file or directory''"
| "err_text (ErrOther what why) = what @ '': '' @ why"

record os =
  os_disk :: disk
  os_faults :: "(os_error \<times> nat) option list"
  os_ran :: "string list list"
  os_repaired :: "string list"

definition draw :: "os \<Rightarrow> (os_error \<times> nat) option \<times> os" where
  "draw w = (case os_faults w of [] \<Rightarrow> (None, w) | f # fs \<Rightarrow> (f, w\<lparr>os_faults := fs\<rparr>))"

definition os_mkdir :: "os \<Rightarrow> os_error option \<times> os" where
  "os_mkdir w = (case draw w of (f, w) \<Rightarrow> (map_option fst f, w))"

definition os_create :: "path \<Rightarrow> os \<Rightarrow> os_error option \<times> os" where
  "os_create q w = (case draw w of
      (Some f, w) \<Rightarrow> (Some (fst f), w)
    | (None, w) \<Rightarrow> (None, w\<lparr>os_disk := (os_disk w)(q \<mapsto> [])\<rparr>))"

definition append_to :: "path \<Rightarrow> string \<Rightarrow> disk \<Rightarrow> disk" where
  "append_to q b d = (case d q of None \<Rightarrow> d | Some old \<Rightarrow> d(q \<mapsto> old @ b))"

definition os_append :: "path \<Rightarrow> string \<Rightarrow> os \<Rightarrow> os_error option \<times> os" where
  "os_append q b w = (case draw w of
      (Some f, w) \<Rightarrow> (Some (fst f), w\<lparr>os_disk := append_to q (take (snd f) b) (os_disk w)\<rparr>)
    | (None, w) \<Rightarrow> (None, w\<lparr>os_disk := append_to q b (os_disk w)\<rparr>))"

definition os_close :: "os \<Rightarrow> os_error option \<times> os" where
  "os_close w = (case draw w of (f, w) \<Rightarrow> (map_option fst f, w))"

definition os_rename :: "path \<Rightarrow> path \<Rightarrow> os \<Rightarrow> os_error option \<times> os" where
  "os_rename a b w = (case draw w of
      (Some f, w) \<Rightarrow> (Some (fst f), w)
    | (None, w) \<Rightarrow> (case os_disk w a of
          None \<Rightarrow> (Some (ErrNotExist ''rename''), w)
        | Some c \<Rightarrow> (None, w\<lparr>os_disk := (os_disk w)(a := None, b \<mapsto> c)\<rparr>)))"

definition os_remove :: "path \<Rightarrow> os \<Rightarrow> os_error option \<times> os" where
  "os_remove q w = (case draw w of
      (Some f, w) \<Rightarrow> (Some (fst f), w)
    | (None, w) \<Rightarrow> (case os_disk w q of
          None \<Rightarrow> (Some (ErrNotExist ''remove''), w)
        | Some _ \<Rightarrow> (None, w\<lparr>os_disk := (os_disk w)(q := None)\<rparr>)))"

text \<open>A command run with sudo; its output is the text of its failure.\<close>

definition os_command :: "string list \<Rightarrow> os \<Rightarrow> string option \<times> os" where
  "os_command args w = (case draw (w\<lparr>os_ran := os_ran w @ [args]\<rparr>) of
      (f, w) \<Rightarrow> (map_option (\<lambda>f. err_text (fst f)) f, w))"

section \<open>Access repair\<close>

text \<open>\<open>accessFixes\<close> as \<open>SetNetboxPaths\<close> leaves it.\<close>

definition SetNetboxPaths :: "string \<Rightarrow> string \<Rightarrow> string \<Rightarrow> string list list option" where
  "SetNetboxPaths configPath mediaRoot dir =
     (if configPath = [] then None
      else if dir = mediaRoot then
        Some [[''/usr/bin/setfacl'', ''-R'', ''-m'',
               ''u:netbox-agent:rwX,d:u:netbox-agent:rwX,u:netbox:rwX,d:u:netbox:rwX'', mediaRoot]]
      else if dir = Dir configPath then
        Some [[''/usr/bin/chgrp'', ''netbox'', dir], [''/usr/bin/chmod'', ''g+ws'', dir]]
      else None)"

fun run_fixes :: "string list list \<Rightarrow> os \<Rightarrow> (string list \<times> string) option \<times> os" where
  "run_fixes [] w = (None, w)"
| "run_fixes (args # fixes) w = (case os_command args w of
      (Some out, w) \<Rightarrow> (Some (args, out), w)
    | (None, w) \<Rightarrow> run_fixes fixes w)"

text \<open>
  \<open>withAccessRepair\<close>; \<open>tried\<close> is the flag the caller passes (\<open>None\<close> for a nil pointer), and an error that
  wraps another keeps its kind, as \<open>errors.Is\<close> sees it.
\<close>

fun wrap_err :: "string \<Rightarrow> string \<Rightarrow> os_error \<Rightarrow> os_error" where
  "wrap_err pre post (ErrPermission s) = ErrPermission (pre @ s @ post)"
| "wrap_err pre post (ErrNotExist s) = ErrNotExist (pre @ s @ post)"
| "wrap_err pre post (ErrOther s t) = ErrOther (pre @ s) (t @ post)"

definition withAccessRepair ::
  "(string \<Rightarrow> string list list option) \<Rightarrow> string \<Rightarrow> bool option \<Rightarrow> (os \<Rightarrow> os_error option \<times> os) \<Rightarrow> os
     \<Rightarrow> os_error option \<times> bool option \<times> os" where
  "withAccessRepair accessFixes dir tried fn w =
     (case fn w of
        (Some (ErrPermission s), w) \<Rightarrow>
          (case accessFixes (Clean dir) of
             None \<Rightarrow> (Some (ErrPermission s), tried, w)
           | Some fixes \<Rightarrow>
               if tried = Some True then (Some (ErrPermission s), tried, w)
               else
                 let tried = map_option (\<lambda>_. True) tried
                 in (case run_fixes fixes w of
                       (Some (args, out), w) \<Rightarrow>
                         (Some (wrap_err [] ('' (repairing access with `sudo '' @ join '' '' args @ ''` failed: ''
                            @ trim_space out @ '' -- rerun install.sh)'') (ErrPermission s)), tried, w)
                     | (None, w) \<Rightarrow>
                         (case fn (w\<lparr>os_repaired := os_repaired w @ [dir]\<rparr>) of
                            (Some e, w) \<Rightarrow>
                              (Some (wrap_err (''still failing after repairing access to '' @ dir @ '': '') [] e), tried, w)
                          | (None, w) \<Rightarrow> (None, tried, w))))
      | (err, w) \<Rightarrow> (err, tried, w))"

definition TakeRepaired :: "os \<Rightarrow> string list \<times> os" where
  "TakeRepaired w = (os_repaired w, w\<lparr>os_repaired := []\<rparr>)"

section \<open>What the calls change\<close>

text \<open>\<open>only P w w'\<close>: from \<open>w\<close> to \<open>w'\<close> no file outside \<open>P\<close> changed.\<close>

definition only :: "(path \<Rightarrow> bool) \<Rightarrow> os \<Rightarrow> os \<Rightarrow> bool" where
  "only P w w' \<longleftrightarrow> (\<forall>q. \<not> P q \<longrightarrow> os_disk w' q = os_disk w q)"

lemma only_refl [simp, intro]: "only P w w"
  by (simp add: only_def)

lemma only_trans [trans]: "only P w w1 \<Longrightarrow> only P w1 w2 \<Longrightarrow> only P w w2"
  by (simp add: only_def)

lemma draw_disk: "draw w = (f, w') \<Longrightarrow> os_disk w' = os_disk w"
  by (auto simp: draw_def split: list.splits)

lemma os_mkdir_disk: "os_mkdir w = (e, w') \<Longrightarrow> os_disk w' = os_disk w"
  by (auto simp: os_mkdir_def draw_disk split: prod.splits)

lemma os_close_disk: "os_close w = (e, w') \<Longrightarrow> os_disk w' = os_disk w"
  by (auto simp: os_close_def draw_disk split: prod.splits)

lemma os_create_disk:
  "os_create q w = (e, w') \<Longrightarrow> os_disk w' = (if e = None then (os_disk w)(q \<mapsto> []) else os_disk w)"
  by (auto simp: os_create_def dest!: draw_disk split: prod.splits option.splits)

lemma os_append_disk:
  "os_append q b w = (e, w') \<Longrightarrow> \<exists>k. os_disk w' = append_to q (take k b) (os_disk w) \<and> (e = None \<longrightarrow> take k b = b)"
  by (auto simp: os_append_def dest!: draw_disk split: prod.splits option.splits)
     (metis order_refl take_all)

lemma os_rename_disk:
  "os_rename a b w = (e, w') \<Longrightarrow>
     (e \<noteq> None \<and> os_disk w' = os_disk w) \<or> (e = None \<and> (\<exists>c. os_disk w a = Some c \<and> os_disk w' = (os_disk w)(a := None, b \<mapsto> c)))"
  by (auto simp: os_rename_def dest!: draw_disk split: prod.splits option.splits)

lemma os_remove_disk:
  "os_remove q w = (e, w') \<Longrightarrow> os_disk w' = os_disk w \<or> os_disk w' = (os_disk w)(q := None)"
  by (auto simp: os_remove_def dest!: draw_disk split: prod.splits option.splits)

lemma os_command_disk: "os_command args w = (e, w') \<Longrightarrow> os_disk w' = os_disk w"
  by (auto simp: os_command_def dest!: draw_disk split: prod.splits)

lemma run_fixes_disk: "run_fixes fs w = (e, w') \<Longrightarrow> os_disk w' = os_disk w"
  by (induction fs arbitrary: w) (auto dest!: os_command_disk split: prod.splits option.splits)

lemma only_create: "P q \<Longrightarrow> os_create q w = (e, w') \<Longrightarrow> only P w w'"
  by (drule os_create_disk) (auto simp: only_def)

lemma only_append: "P q \<Longrightarrow> os_append q b w = (e, w') \<Longrightarrow> only P w w'"
  by (drule os_append_disk) (auto simp: only_def append_to_def split: option.splits)

lemma only_rename: "P a \<Longrightarrow> P b \<Longrightarrow> os_rename a b w = (e, w') \<Longrightarrow> only P w w'"
  by (drule os_rename_disk) (auto simp: only_def)

lemma only_remove: "P q \<Longrightarrow> os_remove q w = (e, w') \<Longrightarrow> only P w w'"
  by (drule os_remove_disk) (auto simp: only_def)

text \<open>Without faults to come every call succeeds, and none come.\<close>

lemma draw_ok [simp]: "os_faults w = [] \<Longrightarrow> draw w = (None, w)"
  by (simp add: draw_def)

text \<open>
  A repair keeps what the repaired call keeps, and the call it makes last is \<open>fn\<close> itself: a success of
  the whole is a success of \<open>fn\<close>.
\<close>

lemma withAccessRepair_success:
  assumes r: "withAccessRepair accessFixes dir tried fn w = (e, tried', w')"
    and keep: "\<And>w e w'. fn w = (Some e, w') \<Longrightarrow> os_disk w' = os_disk w"
  shows "(e \<noteq> None \<longrightarrow> os_disk w' = os_disk w)
    \<and> (e = None \<longrightarrow> (\<exists>w1. os_disk w1 = os_disk w \<and> fn w1 = (None, w')))"
proof (cases "fn w")
  case (Pair e1 w1)
  show ?thesis
  proof (cases "\<exists>s fx. e1 = Some (ErrPermission s) \<and> accessFixes (Clean dir) = Some fx \<and> tried \<noteq> Some True")
    case False
    have "e = e1 \<and> w' = w1"
    proof (cases "\<exists>s. e1 = Some (ErrPermission s)")
      case True
      with False r Pair show ?thesis
        by (cases "accessFixes (Clean dir)") (auto simp: withAccessRepair_def)
    next
      case no: False
      then consider "e1 = None" | what where "e1 = Some (ErrNotExist what)" | what why where "e1 = Some (ErrOther what why)"
        by (metis not_None_eq os_error.exhaust)
      then have "withAccessRepair accessFixes dir tried fn w = (e1, tried, w1)"
        by cases (simp_all add: withAccessRepair_def Pair)
      with r show ?thesis by simp
    qed
    then have e: "fn w = (e, w')" using Pair by simp
    show ?thesis
    proof (cases e)
      case None
      with e show ?thesis by blast
    next
      case (Some x)
      with e keep have "os_disk w' = os_disk w" by blast
      with Some show ?thesis by simp
    qed
  next
    case True
    then obtain s fx where s: "e1 = Some (ErrPermission s)" "accessFixes (Clean dir) = Some fx" "tried \<noteq> Some True" by blast
    have d1: "os_disk w1 = os_disk w" using keep Pair s by blast
    obtain x w2 where x: "run_fixes fx w1 = (x, w2)" by (cases "run_fixes fx w1")
    have d2: "os_disk w2 = os_disk w" using run_fixes_disk [OF x] d1 by simp
    show ?thesis
    proof (cases x)
      case (Some a)
      then show ?thesis using r Pair s x d2 by (cases a) (auto simp: withAccessRepair_def Let_def)
    next
      case None
      let ?w2 = "w2\<lparr>os_repaired := os_repaired w2 @ [dir]\<rparr>"
      obtain y w3 where y: "fn ?w2 = (y, w3)" by (cases "fn ?w2")
      then have "w' = w3 \<and> (e = None \<longleftrightarrow> y = None)"
        using r Pair s x None by (cases y) (auto simp: withAccessRepair_def Let_def)
      moreover have "y \<noteq> None \<longrightarrow> os_disk w3 = os_disk w" using keep [OF _ , of ?w2] y d2 by (cases y) auto
      moreover have "os_disk ?w2 = os_disk w" using d2 by simp
      ultimately show ?thesis using y by metis
    qed
  qed
qed

end
