(* ===== verification/RepoHelper.thy ===== *)
theory RepoHelper
  imports AgentDisk
begin

text \<open>
  The repo helper, \<open>internal/agent/executor/repohelper.go\<close>: the process the agent runs as postgres to
  write and delete files of a local-disk pgBackRest repo.  Its standard input is a byte string; \<open>sha\<close> is
  the SHA-256 function, as raw bytes, and a hash in progress is the bytes written to it so far.
\<close>

definition syncChunkSize :: nat where
  "syncChunkSize = 64 * 1024"

lemma int_syncChunkSize [code_unfold]: "int syncChunkSize = 65536"
  by (simp add: syncChunkSize_def)

definition pathTestFile :: string where
  "pathTestFile = ''.nbc-path-test''"

definition pathTestValue :: string where
  "pathTestValue = ''netbox-conductor path test'' @ [CHR 0x0A]"

definition createRepoFile :: "path \<Rightarrow> os \<Rightarrow> os_error option \<times> os" where
  "createRepoFile q w = (case os_mkdir w of
      (Some e, w) \<Rightarrow> (Some e, w)
    | (None, w) \<Rightarrow> os_create q w)"

section \<open>Receiving\<close>

text \<open>\<open>hp_h\<close> is \<open>None\<close> as long as no hash was ever made; using it then panics.\<close>

record helper =
  hp_cur :: string
  hp_f :: "path option"
  hp_h :: "string option"
  hp_failed :: "string option"

definition helper_init :: helper where
  "helper_init = \<lparr>hp_cur = [], hp_f = None, hp_h = None, hp_failed = None\<rparr>"

datatype helper_end = HelperEOF | HelperError string | HelperPanic

definition discard :: "helper \<Rightarrow> os \<Rightarrow> helper \<times> os" where
  "discard hp w =
     (hp\<lparr>hp_cur := [], hp_f := None, hp_failed := None\<rparr>,
      case hp_f hp of None \<Rightarrow> w | Some q \<Rightarrow> snd (os_remove q (snd (os_close w))))"

text \<open>The data line of another file than the current one opens that file.\<close>

definition helper_select :: "string \<Rightarrow> string \<Rightarrow> helper \<Rightarrow> os \<Rightarrow> helper \<times> os" where
  "helper_select root rel hp w =
     (if rel = hp_cur hp then (hp, w)
      else case discard hp w of (hp, w) \<Rightarrow>
        (case syncRelPath root rel of
           Inl e \<Rightarrow> (hp\<lparr>hp_cur := rel, hp_failed := Some e\<rparr>, w)
         | Inr q \<Rightarrow>
            (case createRepoFile (partial_of q) w of
               (Some e, w) \<Rightarrow> (hp\<lparr>hp_cur := rel, hp_failed := Some (err_text e), hp_h := Some []\<rparr>, w)
             | (None, w) \<Rightarrow> (hp\<lparr>hp_cur := rel, hp_f := Some (partial_of q), hp_h := Some []\<rparr>, w))))"

text \<open>The bytes of a data line; \<open>None\<close> is a panic on the hash that was never made.\<close>

definition helper_data :: "string \<Rightarrow> helper \<Rightarrow> os \<Rightarrow> (helper \<times> os) option" where
  "helper_data buf hp w =
     (if hp_failed hp \<noteq> None then Some (hp, w)
      else case hp_h hp of
        None \<Rightarrow> None
      | Some h \<Rightarrow>
         (case hp_f hp of
            None \<Rightarrow> Some (hp\<lparr>hp_h := Some (h @ buf), hp_failed := Some ''invalid argument''\<rparr>, w)
          | Some q \<Rightarrow> (case os_append q buf w of (e, w) \<Rightarrow>
              Some (hp\<lparr>hp_h := Some (h @ buf), hp_failed := map_option err_text e\<rparr>, w))))"

text \<open>\<open>strings.TrimSuffix\<close> of the partial file's name: the file's own path.\<close>

definition final_of :: "path \<Rightarrow> path" where
  "final_of q = (let n = take (length (last q) - length SyncPartialSuffix) (last q)
                 in butlast q @ (if n = [] then [] else [n]))"

text \<open>The end of a file: closed, checked and renamed; the reason why not, if any.\<close>

definition helper_finish :: "(string \<Rightarrow> string) \<Rightarrow> string \<Rightarrow> string \<Rightarrow> helper \<Rightarrow> os \<Rightarrow> (helper \<times> os) option" where
  "helper_finish sha sm rel hp w =
     (if rel \<noteq> hp_cur hp then Some (hp\<lparr>hp_failed := Some ''no data received''\<rparr>, w)
      else if hp_failed hp \<noteq> None then Some (hp, w)
      else case hp_h hp of
        None \<Rightarrow> None
      | Some h \<Rightarrow>
         (case hp_f hp of
            None \<Rightarrow> Some (hp\<lparr>hp_failed := Some ''invalid argument''\<rparr>, w)
          | Some q \<Rightarrow>
             (case os_close w of
                (Some e, w) \<Rightarrow> Some (hp\<lparr>hp_failed := Some (err_text e)\<rparr>, w)
              | (None, w) \<Rightarrow>
                 if hex_encode (sha h) \<noteq> sm
                 then Some (hp\<lparr>hp_failed := Some (''checksum mismatch in the helper (got '' @ hex_encode (sha h)
                                @ '', want '' @ sm @ '')'')\<rparr>, w)
                 else (case os_rename q (final_of q) w of
                         (Some e, w) \<Rightarrow> Some (hp\<lparr>hp_failed := Some (err_text e)\<rparr>, w)
                       | (None, w) \<Rightarrow> Some (hp\<lparr>hp_f := None\<rparr>, w)))))"

definition helper_reply :: "helper \<Rightarrow> string" where
  "helper_reply hp = (case hp_failed hp of
      None \<Rightarrow> ''ok''
    | Some e \<Rightarrow> ''err '' @ map (\<lambda>c. if c = CHR 0x0A then CHR '' '' else c) e)"

definition bad_line :: "string \<Rightarrow> helper_end" where
  "bad_line line = HelperError (''bad line '' @ quoted line)"

text \<open>The loop over the lines of the input, up to its end or to the error that ends the process.\<close>

function repo_loop ::
  "(string \<Rightarrow> string) \<Rightarrow> string \<Rightarrow> string \<Rightarrow> helper \<Rightarrow> os \<Rightarrow> string list \<times> helper_end \<times> helper \<times> os" where
  "repo_loop sha root inp hp w =
     (if inp = [] then ([], HelperEOF, hp, w)
      else case cut inp [CHR 0x0A] of (line, rest, nl) \<Rightarrow>
        if \<not> nl then ([], HelperError ''EOF'', hp, w)
        else case cut line '' '' of (op, arg, _) \<Rightarrow>
          if op = ''d'' then
            (case cut arg '' '' of (size', rel, _) \<Rightarrow>
              (case atoi size' of
                 None \<Rightarrow> ([], bad_line line, hp, w)
               | Some n \<Rightarrow>
                  (case helper_select root rel hp w of (hp, w) \<Rightarrow>
                    if n < 0 \<or> n > 4 * int syncChunkSize then ([], bad_line line, hp, w)
                    else if length rest < nat n then ([], HelperError ''unexpected EOF'', hp, w)
                    else (case helper_data (take (nat n) rest) hp w of
                            None \<Rightarrow> ([], HelperPanic, hp, w)
                          | Some (hp, w) \<Rightarrow> repo_loop sha root (drop (nat n) rest) hp w))))
          else if op = ''e'' then
            (case cut arg '' '' of (sm, rel, _) \<Rightarrow>
              (case helper_finish sha sm rel hp w of
                 None \<Rightarrow> ([], HelperPanic, hp, w)
               | Some (hp, w) \<Rightarrow>
                  (case draw w of
                     (Some f, w) \<Rightarrow> ([], HelperError (err_text (fst f)), hp, w)
                   | (None, w) \<Rightarrow>
                      (case discard hp w of (hp', w) \<Rightarrow>
                        (case repo_loop sha root rest hp' w of (rs, r) \<Rightarrow> (helper_reply hp # rs, r))))))
          else if op = ''a'' then (case discard hp w of (hp, w) \<Rightarrow> repo_loop sha root rest hp w)
          else ([], bad_line line, hp, w))"
  by pat_completeness auto
termination
  by (relation "measure (\<lambda>(sha, root, inp, hp, w). length inp)")
     (auto simp: cut_def split: option.splits dest!: index_of_bound)

declare repo_loop.simps [simp del]

text \<open>\<open>repoReceive\<close>: the loop, then the deferred \<open>discard\<close>.\<close>

definition repoReceive :: "(string \<Rightarrow> string) \<Rightarrow> string \<Rightarrow> string \<Rightarrow> os \<Rightarrow> string list \<times> helper_end \<times> os" where
  "repoReceive sha root inp w = (case repo_loop sha root inp helper_init w of
      (rs, x, hp, w) \<Rightarrow> (rs, x, snd (discard hp w)))"

section \<open>Deleting\<close>

fun remove_each ::
  "string \<Rightarrow> (path \<Rightarrow> 'w \<Rightarrow> os_error option \<times> 'w) \<Rightarrow> string list \<Rightarrow> 'w \<Rightarrow> string list \<times> 'w" where
  "remove_each root remove [] w = ([], w)"
| "remove_each root remove (rel # rels) w = (case syncRelPath root rel of
      Inl e \<Rightarrow> (case remove_each root remove rels w of (failed, w) \<Rightarrow> (e # failed, w))
    | Inr q \<Rightarrow> (case remove q w of
         (err, w) \<Rightarrow> (case remove_each root remove rels w of
            (failed, w) \<Rightarrow> (case err of
               None \<Rightarrow> (failed, w)
             | Some (ErrNotExist _) \<Rightarrow> (failed, w)
             | Some e \<Rightarrow> (err_text e # failed, w)))))"

definition removeSyncFiles ::
  "string \<Rightarrow> string list \<Rightarrow> (path \<Rightarrow> 'w \<Rightarrow> os_error option \<times> 'w) \<Rightarrow> 'w \<Rightarrow> string option \<times> 'w" where
  "removeSyncFiles root rels remove w = (case remove_each root remove rels w of
      ([], w) \<Rightarrow> (None, w)
    | (first # failed, w) \<Rightarrow>
        (Some (itoa (int (Suc (length failed))) @ '' of '' @ itoa (int (length rels))
               @ '' deletes failed, first: '' @ first), w))"

section \<open>Which folders are repos\<close>

definition cut_suffix :: "string \<Rightarrow> string \<Rightarrow> string option" where
  "cut_suffix s q = (if has_suffix q s then Some (take (length s - length q) s) else None)"

text \<open>One line of \<open>pgbackrest.conf\<close>, added to the repo types and paths seen so far.\<close>

definition conf_line :: "string \<Rightarrow> string gomap \<times> string gomap \<Rightarrow> string gomap \<times> string gomap" where
  "conf_line line tp = (case cut (trim_space line) ''='' of (key, val, _) \<Rightarrow>
     (case cut_suffix key ''-type'' of
        Some repo \<Rightarrow> (AList.update repo val (fst tp), snd tp)
      | None \<Rightarrow> (case cut_suffix key ''-path'' of
           Some repo \<Rightarrow> (fst tp, AList.update repo (Clean val) (snd tp))
         | None \<Rightarrow> tp)))"

definition checkRepoRoot :: "string + string \<Rightarrow> string \<Rightarrow> string option" where
  "checkRepoRoot conf root = (case conf of
      Inl e \<Rightarrow> Some e
    | Inr text \<Rightarrow>
        (case fold conf_line (split_on CHR 0x0A text) ([], []) of (types, paths) \<Rightarrow>
          if list_ex (\<lambda>(repo, p). p = root \<and> map_of types repo = Some ''posix'') paths then None
          else Some (root @ '' is not a local-disk repo in /etc/pgbackrest/pgbackrest.conf'')))"

section \<open>The helper's operations\<close>

text \<open>The lines \<open>bufio.Scanner\<close> reads with a buffer of at most one megabyte.\<close>

definition drop_cr :: "string \<Rightarrow> string" where
  "drop_cr l = (if l \<noteq> [] \<and> last l = CHR 0x0D then butlast l else l)"

definition scan_lines :: "string \<Rightarrow> string list option" where
  "scan_lines inp =
     (let ls = split_on CHR 0x0A inp;
          ls = (if last ls = [] then butlast ls else ls)
      in if list_ex (\<lambda>l. int (length l) \<ge> 2 ^ 20) ls then None else Some (map drop_cr ls))"

definition write_test :: "path \<Rightarrow> os \<Rightarrow> string option \<times> os" where
  "write_test q w = (case createRepoFile q w of
      (Some e, w) \<Rightarrow> (Some (err_text e), w)
    | (None, w) \<Rightarrow> (case os_append q pathTestValue w of
        (e1, w) \<Rightarrow> (case os_close w of
          (e2, w) \<Rightarrow> (case map err_text (List.map_filter (\<lambda>e. e) [e1, e2]) of
              [] \<Rightarrow> (None, w) | es \<Rightarrow> (Some (join [CHR 0x0A] es), w)))))"

text \<open>
  \<open>conf\<close> is what reading \<open>pgbackrest.conf\<close> gives.  The result is the error of the process, the replies it
  printed, and the disk.
\<close>

definition RepoHelper ::
  "(string \<Rightarrow> string) \<Rightarrow> string + string \<Rightarrow> string list \<Rightarrow> string \<Rightarrow> os \<Rightarrow> string option \<times> string list \<times> os" where
  "RepoHelper sha conf args inp w = (case args of
      [op, dir] \<Rightarrow>
        if \<not> IsAbs dir then (Some ''usage: netbox-agent repo receive|delete|test|untest /ROOT'', [], w)
        else
          let root = Clean dir; test_file = clean_abs (parts root @ [pathTestFile])
          in if op = ''test'' then
               (case draw w of
                  (Some f, w) \<Rightarrow> (Some (err_text (fst f)), [], w)
                | (None, w) \<Rightarrow> (case write_test test_file w of (e, w) \<Rightarrow> (e, [], w)))
             else if op = ''untest'' then
               (case os_remove test_file w of (e, w) \<Rightarrow> (map_option err_text e, [], w))
             else (case checkRepoRoot conf root of
                 Some e \<Rightarrow> (Some e, [], w)
               | None \<Rightarrow>
                  if op = ''receive'' then
                    (case repoReceive sha root inp w of (rs, x, w) \<Rightarrow>
                       ((case x of HelperEOF \<Rightarrow> None | HelperError e \<Rightarrow> Some e | HelperPanic \<Rightarrow> Some ''panic''), rs, w))
                  else if op = ''delete'' then
                    (case scan_lines inp of
                       None \<Rightarrow> (Some ''bufio.Scanner: token too long'', [], w)
                     | Some ls \<Rightarrow> (case removeSyncFiles root (filter (\<lambda>l. l \<noteq> []) ls) os_remove w of (e, w) \<Rightarrow> (e, [], w)))
                  else (Some (''unknown repo operation '' @ quoted op), [], w))
    | _ \<Rightarrow> (Some ''usage: netbox-agent repo receive|delete|test|untest /ROOT'', [], w))"

section \<open>What the helper can touch\<close>

text \<open>The paths the data lines of an input name, up to the first line that ends the process.\<close>

function received_names :: "string \<Rightarrow> string list" where
  "received_names inp =
     (if inp = [] then []
      else case cut inp [CHR 0x0A] of (line, rest, nl) \<Rightarrow>
        if \<not> nl then []
        else case cut line '' '' of (op, arg, _) \<Rightarrow>
          if op = ''d'' then
            (case cut arg '' '' of (size', rel, _) \<Rightarrow>
              (case atoi size' of
                 None \<Rightarrow> []
               | Some n \<Rightarrow> rel # (if n < 0 \<or> n > 4 * int syncChunkSize \<or> length rest < nat n then [] else received_names (drop (nat n) rest))))
          else if op = ''e'' \<or> op = ''a'' then received_names rest
          else [])"
  by pat_completeness auto
termination
  by (relation "measure length") (auto simp: cut_def split: option.splits dest!: index_of_bound)

declare received_names.simps [simp del]

text \<open>
  A property of the helper that every step keeps is kept by the whole loop, on any input; \<open>N\<close> holds of the paths the input
  names.
\<close>

locale helper_invariant =
  fixes sha :: "string \<Rightarrow> string" and root :: string and N :: "string \<Rightarrow> bool" and I :: "helper \<Rightarrow> os \<Rightarrow> bool"
  assumes draw: "I hp w \<Longrightarrow> draw w = (f, w') \<Longrightarrow> I hp w'"
    and discard: "I hp w \<Longrightarrow> discard hp w = (hp', w') \<Longrightarrow> I hp' w'"
    and select: "I hp w \<Longrightarrow> N rel \<Longrightarrow> helper_select root rel hp w = (hp', w') \<Longrightarrow> I hp' w'"
    and data: "I hp w \<Longrightarrow> helper_data buf hp w = Some (hp', w') \<Longrightarrow> I hp' w'"
    and done_line: "I hp w \<Longrightarrow> helper_finish sha sm rel hp w = Some (hp', w') \<Longrightarrow> I hp' w'"
begin

lemma loop:
  "I hp w \<Longrightarrow> repo_loop sha root inp hp w = (rs, x, hp', w') \<Longrightarrow> (\<And>rel. rel \<in> set (received_names inp) \<Longrightarrow> N rel) \<Longrightarrow> I hp' w'"
proof (induction inp arbitrary: hp w rs rule: length_induct)
  case (1 inp)
  obtain line rest nl where c: "cut inp [CHR 0x0A] = (line, rest, nl)" by (cases "cut inp [CHR 0x0A]")
  obtain op arg y where l: "cut line '' '' = (op, arg, y)" by (cases "cut line '' ''")
  obtain u rel z where a: "cut arg '' '' = (u, rel, z)" by (cases "cut arg '' ''")
  have short: "inp \<noteq> [] \<Longrightarrow> nl \<Longrightarrow> length rest < length inp" and "length (drop n rest) \<le> length rest" for n
    using c by (auto simp: cut_def split: option.splits dest!: index_of_bound)
  show ?case
  proof (cases "inp = [] \<or> \<not> nl")
    case True
    then show ?thesis using 1(2,3) c by (cases "inp = []") (auto simp: repo_loop.simps [of sha root inp] repo_loop.simps [of sha root "[]"])
  next
    case False
    then have lt: "length (drop n rest) < length inp" "length rest < length inp" for n using short by auto
    consider (d) "op = ''d''" | (e) "op = ''e''" | (a) "op = ''a''" | (other) "op \<notin> {''d'', ''e'', ''a''}" by auto
    then show ?thesis
    proof cases
      case d
      show ?thesis
      proof (cases "atoi u")
        case None
        then show ?thesis using 1(2,3) c l a d False by (auto simp: repo_loop.simps [of sha root inp])
      next
        case (Some n)
        obtain hp1 w1 where s: "helper_select root rel hp w = (hp1, w1)" by (cases "helper_select root rel hp w")
        have "N rel" by (rule 1(4)) (use c l a d False Some in \<open>simp add: received_names.simps [of inp]\<close>)
        then have I1: "I hp1 w1" using select [OF 1(2) _ s] by blast
        show ?thesis
        proof (cases "n < 0 \<or> n > 4 * int syncChunkSize \<or> length rest < nat n")
          case True
          then show ?thesis using 1(3) c l a d False Some s I1
            by (auto simp: repo_loop.simps [of sha root inp] split: if_splits)
        next
          case ok: False
          show ?thesis
          proof (cases "helper_data (take (nat n) rest) hp1 w1")
            case None
            then show ?thesis using 1(3) c l a d False Some s I1 ok by (auto simp: repo_loop.simps [of sha root inp])
          next
            case (Some p)
            obtain hp2 w2 where p: "p = (hp2, w2)" by (cases p)
            have "repo_loop sha root (drop (nat n) rest) hp2 w2 = (rs, x, hp', w')"
              using 1(3) c l a d False \<open>atoi u = Some n\<close> s ok Some p by (simp add: repo_loop.simps [of sha root inp])
            moreover have "N rel'" if "rel' \<in> set (received_names (drop (nat n) rest))" for rel'
              by (rule 1(4)) (use that c l a d False \<open>atoi u = Some n\<close> ok in \<open>simp add: received_names.simps [of inp]\<close>)
            ultimately show ?thesis using 1(1) lt data [OF I1 Some [unfolded p]] by blast
          qed
        qed
      qed
    next
      case e
      show ?thesis
      proof (cases "helper_finish sha u rel hp w")
        case None
        then show ?thesis using 1(2,3) c l a e False by (auto simp: repo_loop.simps [of sha root inp])
      next
        case (Some p)
        obtain hp1 w1 where p: "p = (hp1, w1)" by (cases p)
        have I1: "I hp1 w1" using done_line [OF 1(2) Some [unfolded p]] .
        obtain f w2 where f: "draw w1 = (f, w2)" by (cases "draw w1")
        have I2: "I hp1 w2" using draw [OF I1 f] .
        show ?thesis
        proof (cases f)
          case (Some g)
          then show ?thesis using 1(3) c l a e False \<open>helper_finish sha u rel hp w = Some p\<close> p f I2
            by (auto simp: repo_loop.simps [of sha root inp])
        next
          case None
          obtain hp3 w3 where d3: "discard hp1 w2 = (hp3, w3)" by (cases "discard hp1 w2")
          obtain rs' r where r: "repo_loop sha root rest hp3 w3 = (rs', r)" by (cases "repo_loop sha root rest hp3 w3")
          have "r = (x, hp', w')" using 1(3) c l a e False Some p f None d3 r
            by (simp add: repo_loop.simps [of sha root inp])
          moreover have "N rel'" if "rel' \<in> set (received_names rest)" for rel'
            by (rule 1(4)) (use that c l e False in \<open>simp add: received_names.simps [of inp]\<close>)
          ultimately show ?thesis using 1(1) lt discard [OF I2 d3] r by blast
        qed
      qed
    next
      case a
      obtain hp1 w1 where d1: "discard hp w = (hp1, w1)" by (cases "discard hp w")
      have "repo_loop sha root rest hp1 w1 = (rs, x, hp', w')"
        using 1(3) c l a False d1 by (simp add: repo_loop.simps [of sha root inp])
      moreover have "N rel'" if "rel' \<in> set (received_names rest)" for rel'
        by (rule 1(4)) (use that c l a False in \<open>simp add: received_names.simps [of inp]\<close>)
      ultimately show ?thesis using 1(1) lt discard [OF 1(2) d1] by blast
    next
      case other
      then show ?thesis using 1(2,3) c l False by (auto simp: repo_loop.simps [of sha root inp])
    qed
  qed
qed

end

end
