(* ===== verification/SyncReceiver.thy ===== *)
theory SyncReceiver
  imports RepoHelper
begin

text \<open>
  The agent's ends of a file transfer, \<open>internal/agent/executor/filesync.go\<close>: streaming a file as
  chunks, and the receiver that writes incoming chunks, either itself or through the repo helper.
\<close>

section \<open>Sending\<close>

text \<open>
  A file opened for reading: the bytes it gives, and the error that ends them (\<open>None\<close> at its end).
  \<open>out k\<close> is the error of sending the \<open>k\<close>-th message.
\<close>

datatype opened = NotThere | CannotOpen string | Opened string "string option"

function send_loop ::
  "(string \<Rightarrow> string) \<Rightarrow> (nat \<Rightarrow> string option) \<Rightarrow> string \<Rightarrow> string \<Rightarrow> string option \<Rightarrow> string \<Rightarrow> string \<Rightarrow> nat
     \<Rightarrow> sync_chunk list \<times> string option" where
  "send_loop sha out syncID rel readErr content sent idx =
     (let buf = take syncChunkSize content;
          c = \<lparr>ck_SyncID = syncID, ck_Path = rel, ck_Index = int idx, ck_Data = buf, ck_EOF = False,
               ck_SHA256 = [], ck_Gone = False, ck_Err = []\<rparr>
      in if length buf = syncChunkSize then
           (case out idx of
              Some e \<Rightarrow> ([c], Some e)
            | None \<Rightarrow> (case send_loop sha out syncID rel readErr (drop syncChunkSize content) (sent @ buf) (Suc idx) of
                (cs, r) \<Rightarrow> (c # cs, r)))
         else (case readErr of
                 None \<Rightarrow> ([c\<lparr>ck_EOF := True, ck_SHA256 := hex_encode (sha (sent @ buf))\<rparr>], out idx)
               | Some e \<Rightarrow> ([c\<lparr>ck_Data := [], ck_EOF := True, ck_Err := e\<rparr>], out idx)))"
  by pat_completeness auto
termination
  by (relation "measure (\<lambda>(sha, out, syncID, rel, readErr, content, sent, idx). length content)")
     (auto simp: syncChunkSize_def)

declare send_loop.simps [simp del]

definition sendSyncFile ::
  "(string \<Rightarrow> string) \<Rightarrow> (nat \<Rightarrow> string option) \<Rightarrow> string \<Rightarrow> string \<Rightarrow> opened \<Rightarrow> sync_chunk list \<times> string option" where
  "sendSyncFile sha out syncID rel file =
     (let end = \<lparr>ck_SyncID = syncID, ck_Path = rel, ck_Index = 0, ck_Data = [], ck_EOF = True,
                 ck_SHA256 = [], ck_Gone = False, ck_Err = []\<rparr>
      in case file of
           NotThere \<Rightarrow> ([end\<lparr>ck_Gone := True\<rparr>], out 0)
         | CannotOpen e \<Rightarrow> ([end\<lparr>ck_Err := e\<rparr>], out 0)
         | Opened content readErr \<Rightarrow> send_loop sha out syncID rel readErr content [] 0)"

text \<open>\<open>files\<close> opens a path; a message number counts on from file to file.\<close>

fun SendSyncFiles ::
  "(string \<Rightarrow> string) \<Rightarrow> (nat \<Rightarrow> string option) \<Rightarrow> (path \<Rightarrow> opened) \<Rightarrow> string \<Rightarrow> string \<Rightarrow> string list
     \<Rightarrow> sync_chunk list \<times> string option" where
  "SendSyncFiles sha out files syncID root [] = ([], None)"
| "SendSyncFiles sha out files syncID root (rel # rels) = (case syncRelPath root rel of
      Inl e \<Rightarrow> ([], Some e)
    | Inr q \<Rightarrow> (case sendSyncFile sha out syncID rel (files q) of
        (cs, Some e) \<Rightarrow> (cs, Some (''sending '' @ rel @ '': '' @ e))
      | (cs, None) \<Rightarrow>
          (case SendSyncFiles sha (\<lambda>k. out (k + length cs)) files syncID root rels of
             (cs', r) \<Rightarrow> (cs @ cs', r))))"

section \<open>Partial files\<close>

text \<open>
  \<open>partialFile\<close> with the way to open one.  \<open>'w\<close> is what lies behind it (the disk, or the disk and the
  helper process) and \<open>'p\<close> the partial file itself; opening may repair access once, which the flag notes.
\<close>

record ('w, 'p) sink =
  sk_open :: "string \<Rightarrow> string \<Rightarrow> path \<Rightarrow> bool \<Rightarrow> 'w \<Rightarrow> (string + 'p) \<times> bool \<times> 'w"
  sk_write :: "'p \<Rightarrow> string \<Rightarrow> 'w \<Rightarrow> (string + 'p) \<times> 'w"
  sk_commit :: "'p \<Rightarrow> 'w \<Rightarrow> string option \<times> 'w"
  sk_abort :: "'p \<Rightarrow> 'w \<Rightarrow> 'w"

text \<open>\<open>localPartial\<close>, named by its destination.\<close>

definition local_create :: "path \<Rightarrow> os \<Rightarrow> os_error option \<times> os" where
  "local_create dest w = (case os_mkdir w of
      (Some e, w) \<Rightarrow> (Some e, w)
    | (None, w) \<Rightarrow> os_create (partial_of dest) w)"

definition local_open ::
  "(string \<Rightarrow> string list list option) \<Rightarrow> string \<Rightarrow> string \<Rightarrow> path \<Rightarrow> bool \<Rightarrow> os \<Rightarrow> (string + path) \<times> bool \<times> os" where
  "local_open accessFixes root rel dest tried w =
     (case withAccessRepair accessFixes root (Some tried) (local_create dest) w of
        (e, tried, w) \<Rightarrow> ((case e of None \<Rightarrow> Inr dest | Some e \<Rightarrow> Inl (err_text e)), tried = Some True, w))"

definition local_write :: "path \<Rightarrow> string \<Rightarrow> os \<Rightarrow> (string + path) \<times> os" where
  "local_write dest b w = (case os_append (partial_of dest) b w of
      (None, w) \<Rightarrow> (Inr dest, w) | (Some e, w) \<Rightarrow> (Inl (err_text e), w))"

definition local_commit :: "path \<Rightarrow> os \<Rightarrow> string option \<times> os" where
  "local_commit dest w = (case os_close w of
      (Some e, w) \<Rightarrow> (Some (err_text e), snd (os_remove (partial_of dest) w))
    | (None, w) \<Rightarrow> (case os_rename (partial_of dest) dest w of
        (Some e, w) \<Rightarrow> (Some (err_text e), snd (os_remove (partial_of dest) w))
      | (None, w) \<Rightarrow> (None, w)))"

definition local_abort :: "path \<Rightarrow> os \<Rightarrow> os" where
  "local_abort dest w = snd (os_remove (partial_of dest) (snd (os_close w)))"

definition local_sink :: "(string \<Rightarrow> string list list option) \<Rightarrow> (os, path) sink" where
  "local_sink accessFixes = \<lparr>sk_open = local_open accessFixes, sk_write = local_write,
     sk_commit = local_commit, sk_abort = local_abort\<rparr>"

text \<open>
  \<open>repoReceiver\<close> and \<open>repoPartial\<close>.  The agent's writer buffers what the helper then reads in the same
  order, so a message counts as read when it is written; after an error on the pipe the writer refuses
  everything (\<open>rw_broken\<close>), and after its end (\<open>rw_exit\<close>) the helper reads nothing more.
\<close>

record repo_world =
  rw_os :: os
  rw_helper :: helper
  rw_exit :: "helper_end option"
  rw_broken :: bool
  rw_faults :: "string option list"

record repo_partial =
  rp_rel :: string
  rp_hash :: string

definition pipe_fault :: "repo_world \<Rightarrow> string option \<times> repo_world" where
  "pipe_fault w =
     (if rw_broken w then (Some ''repo helper: broken pipe'', w)
      else case rw_faults w of
        [] \<Rightarrow> (None, w)
      | f # fs \<Rightarrow> (map_option (\<lambda>e. ''repo helper: '' @ e) f, w\<lparr>rw_faults := fs, rw_broken := f \<noteq> None\<rparr>))"

text \<open>The helper reads a message; when it ends, its deferred \<open>discard\<close> runs.\<close>

definition feed :: "(string \<Rightarrow> string) \<Rightarrow> string \<Rightarrow> string \<Rightarrow> repo_world \<Rightarrow> string list \<times> repo_world" where
  "feed sha root msg w =
     (if rw_exit w \<noteq> None then ([], w)
      else case repo_loop sha root msg (rw_helper w) (rw_os w) of
        (rs, HelperEOF, hp, os) \<Rightarrow> (rs, w\<lparr>rw_helper := hp, rw_os := os\<rparr>)
      | (rs, x, hp, os) \<Rightarrow> (case discard hp os of
          (hp, os) \<Rightarrow> (rs, w\<lparr>rw_helper := hp, rw_os := os, rw_exit := Some x\<rparr>)))"

definition data_line :: "string \<Rightarrow> string \<Rightarrow> string" where
  "data_line b rel = ''d '' @ itoa (int (length b)) @ '' '' @ rel @ [CHR 0x0A] @ b"

definition end_line :: "string \<Rightarrow> string \<Rightarrow> string" where
  "end_line sm rel = ''e '' @ sm @ '' '' @ rel @ [CHR 0x0A]"

definition abort_line :: "string \<Rightarrow> string" where
  "abort_line rel = ''a '' @ rel @ [CHR 0x0A]"

definition repo_open :: "string \<Rightarrow> string \<Rightarrow> path \<Rightarrow> bool \<Rightarrow> repo_world \<Rightarrow> (string + repo_partial) \<times> bool \<times> repo_world" where
  "repo_open root rel dest tried w =
     (if CHR 0x0A \<in> set rel then (Inl (''invalid path: '' @ quoted rel), tried, w)
      else (Inr \<lparr>rp_rel = rel, rp_hash = []\<rparr>, tried, w))"

definition repo_write ::
  "(string \<Rightarrow> string) \<Rightarrow> string \<Rightarrow> repo_partial \<Rightarrow> string \<Rightarrow> repo_world \<Rightarrow> (string + repo_partial) \<times> repo_world" where
  "repo_write sha root p b w = (case pipe_fault w of
      (Some e, w) \<Rightarrow> (Inl e, w)
    | (None, w) \<Rightarrow> (Inr (p\<lparr>rp_hash := rp_hash p @ b\<rparr>), snd (feed sha root (data_line b (rp_rel p)) w)))"

definition cut_err :: "string \<Rightarrow> string option" where
  "cut_err reply = (let r = trim_space reply in if has_prefix ''err '' r then Some (drop 4 r) else None)"

definition repo_commit ::
  "(string \<Rightarrow> string) \<Rightarrow> string \<Rightarrow> repo_partial \<Rightarrow> repo_world \<Rightarrow> string option \<times> repo_world" where
  "repo_commit sha root p w = (case pipe_fault w of
      (Some e, w) \<Rightarrow> (Some e, w)
    | (None, w) \<Rightarrow> (case feed sha root (end_line (hex_encode (sha (rp_hash p))) (rp_rel p)) w of
        (rs, w) \<Rightarrow> (case pipe_fault w of
            (Some e, w) \<Rightarrow> (Some e, w)
          | (None, w) \<Rightarrow> (case rs of
               [] \<Rightarrow> (Some ''repo helper: EOF'', w)
             | reply # _ \<Rightarrow> (cut_err reply, w)))))"

definition repo_abort :: "(string \<Rightarrow> string) \<Rightarrow> string \<Rightarrow> repo_partial \<Rightarrow> repo_world \<Rightarrow> repo_world" where
  "repo_abort sha root p w = (case pipe_fault w of
      (Some _, w) \<Rightarrow> w
    | (None, w) \<Rightarrow> snd (feed sha root (abort_line (rp_rel p)) w))"

definition repo_sink :: "(string \<Rightarrow> string) \<Rightarrow> string \<Rightarrow> (repo_world, repo_partial) sink" where
  "repo_sink sha root = \<lparr>sk_open = (\<lambda>_. repo_open root), sk_write = repo_write sha root,
     sk_commit = repo_commit sha root, sk_abort = repo_abort sha root\<rparr>"

text \<open>The helper's input ends: \<open>close\<close> reports how it ended, \<open>stop\<close> does not.\<close>

definition helper_ends :: "repo_world \<Rightarrow> repo_world" where
  "helper_ends w =
     (if rw_exit w \<noteq> None then w
      else case discard (rw_helper w) (rw_os w) of
        (hp, os) \<Rightarrow> w\<lparr>rw_helper := hp, rw_os := os, rw_exit := Some HelperEOF\<rparr>)"

definition repo_close :: "repo_world \<Rightarrow> string option \<times> repo_world" where
  "repo_close w = (case pipe_fault w of
      (err, w) \<Rightarrow>
        (let w = helper_ends w
         in (case err of
               Some e \<Rightarrow> Some e
             | None \<Rightarrow> if rw_exit w = Some HelperEOF then None else Some ''repo helper: exit status 1'', w)))"

section \<open>Receiving\<close>

definition maxFailedReport :: nat where
  "maxFailedReport = 20"

text \<open>\<open>syncRecv\<close>: one sync, with the file it is writing.  \<open>rc_hash\<close> is what was written to the hash.\<close>

record 'p recv =
  rc_root :: string
  rc_result :: finish_result
  rc_skip :: string
  rc_repairTried :: bool
  rc_path :: string
  rc_tmp :: "'p option"
  rc_hash :: string
  rc_next :: int

definition new_recv :: "string \<Rightarrow> 'p recv" where
  "new_recv root = \<lparr>rc_root = root,
     rc_result = \<lparr>fr_Copied = 0, fr_Skipped = 0, fr_Failed = [], fr_Errors = 0\<rparr>, rc_skip = [],
     rc_repairTried = False, rc_path = [], rc_tmp = None, rc_hash = [], rc_next = 0\<rparr>"

definition note_failure :: "string \<Rightarrow> finish_result \<Rightarrow> finish_result" where
  "note_failure reason r =
     (if reason = [] then r
      else r\<lparr>fr_Errors := fr_Errors r + 1,
             fr_Failed := (if length (fr_Failed r) < maxFailedReport then fr_Failed r @ [reason] else fr_Failed r)\<rparr>)"

definition recv_abort :: "('w, 'p) sink \<Rightarrow> string \<Rightarrow> 'p recv \<Rightarrow> 'w \<Rightarrow> 'p recv \<times> 'w" where
  "recv_abort sk reason s w =
     (s\<lparr>rc_result := note_failure reason (rc_result s), rc_path := [], rc_tmp := None, rc_next := 0\<rparr>,
      case rc_tmp s of None \<Rightarrow> w | Some p \<Rightarrow> sk_abort sk p w)"

text \<open>\<open>chunk\<close>, in three parts: opening the file of a first chunk, writing, and completing the file.\<close>

definition recv_open ::
  "('w, 'p) sink \<Rightarrow> sync_chunk \<Rightarrow> 'p recv \<Rightarrow> 'w \<Rightarrow> string option \<times> 'p recv \<times> 'w" where
  "recv_open sk c s w =
     (if ck_Index c \<noteq> 0 then (None, s, w)
      else case syncRelPath (rc_root s) (ck_Path c) of
        Inl e \<Rightarrow> (Some e, s, w)
      | Inr dest \<Rightarrow> (case sk_open sk (rc_root s) (ck_Path c) dest (rc_repairTried s) w of
          (Inl e, tried, w) \<Rightarrow> (Some e, s\<lparr>rc_repairTried := tried\<rparr>, w)
        | (Inr p, tried, w) \<Rightarrow> (None, s\<lparr>rc_repairTried := tried, rc_path := ck_Path c, rc_tmp := Some p,
              rc_hash := [], rc_next := 0\<rparr>, w)))"

definition recv_write ::
  "('w, 'p) sink \<Rightarrow> sync_chunk \<Rightarrow> 'p recv \<Rightarrow> 'w \<Rightarrow> string option \<times> 'p recv \<times> 'w" where
  "recv_write sk c s w = (case rc_tmp s of
      None \<Rightarrow> (Some ''no file'', s, w)
    | Some p \<Rightarrow> (case sk_write sk p (ck_Data c) w of
         (Inl e, w) \<Rightarrow> (Some e, s, w)
       | (Inr p, w) \<Rightarrow> (None, s\<lparr>rc_tmp := Some p, rc_hash := rc_hash s @ ck_Data c, rc_next := rc_next s + 1\<rparr>, w)))"

definition recv_complete ::
  "(string \<Rightarrow> string) \<Rightarrow> ('w, 'p) sink \<Rightarrow> sync_chunk \<Rightarrow> 'p recv \<Rightarrow> 'w \<Rightarrow> string option \<times> 'p recv \<times> 'w" where
  "recv_complete sha sk c s w =
     (if \<not> ck_EOF c then (None, s, w)
      else
        let got = hex_encode (sha (rc_hash s))
        in if got \<noteq> ck_SHA256 c
           then (Some (''checksum mismatch (got '' @ got @ '', source sent '' @ ck_SHA256 c @ '')''), s, w)
           else case rc_tmp s of
             None \<Rightarrow> (Some ''no file'', s, w)
           | Some p \<Rightarrow> (case sk_commit sk p w of
               (Some e, w) \<Rightarrow> (Some e, s\<lparr>rc_tmp := None\<rparr>, w)
             | (None, w) \<Rightarrow> (None, s\<lparr>rc_tmp := None, rc_path := [], rc_next := 0,
                   rc_result := (rc_result s)\<lparr>fr_Copied := fr_Copied (rc_result s) + 1\<rparr>\<rparr>, w)))"

definition recv_chunk ::
  "(string \<Rightarrow> string) \<Rightarrow> ('w, 'p) sink \<Rightarrow> sync_chunk \<Rightarrow> 'p recv \<Rightarrow> 'w \<Rightarrow> string option \<times> 'p recv \<times> 'w" where
  "recv_chunk sha sk c s w =
     (if ck_Gone c then (None, s\<lparr>rc_result := (rc_result s)\<lparr>fr_Skipped := fr_Skipped (rc_result s) + 1\<rparr>\<rparr>, w)
      else if ck_Err c \<noteq> [] then (Some (''source: '' @ ck_Err c), s, w)
      else if ck_Index c \<noteq> rc_next s \<or> (ck_Index c > 0 \<and> rc_tmp s = None)
      then (Some (''got chunk '' @ itoa (ck_Index c) @ '', expected '' @ itoa (rc_next s)), s, w)
      else case recv_open sk c s w of
        (Some e, s, w) \<Rightarrow> (Some e, s, w)
      | (None, s, w) \<Rightarrow> (case recv_write sk c s w of
          (Some e, s, w) \<Rightarrow> (Some e, s, w)
        | (None, s, w) \<Rightarrow> recv_complete sha sk c s w))"

text \<open>\<open>Chunk\<close> on the sync it is for.\<close>

definition Chunk ::
  "(string \<Rightarrow> string) \<Rightarrow> ('w, 'p) sink \<Rightarrow> sync_chunk \<Rightarrow> 'p recv \<Rightarrow> 'w \<Rightarrow> 'p recv \<times> 'w" where
  "Chunk sha sk c s w =
     (if rc_skip s \<noteq> [] \<and> ck_Path c = rc_skip s
      then (if ck_EOF c then s\<lparr>rc_skip := []\<rparr> else s, w)
      else
        case (if rc_tmp s \<noteq> None \<and> (ck_Index c = 0 \<or> ck_Path c \<noteq> rc_path s)
              then recv_abort sk (rc_path s @ '': incomplete'') s w else (s, w)) of
          (s, w) \<Rightarrow> (case recv_chunk sha sk c s w of
              (None, s, w) \<Rightarrow> (s, w)
            | (Some e, s, w) \<Rightarrow> (case recv_abort sk (ck_Path c @ '': '' @ e) s w of
                (s, w) \<Rightarrow> (if \<not> ck_EOF c then s\<lparr>rc_skip := ck_Path c\<rparr> else s, w))))"

fun recv_all ::
  "(string \<Rightarrow> string) \<Rightarrow> ('w, 'p) sink \<Rightarrow> sync_chunk list \<Rightarrow> 'p recv \<Rightarrow> 'w \<Rightarrow> 'p recv \<times> 'w" where
  "recv_all sha sk [] s w = (s, w)"
| "recv_all sha sk (c # cs) s w = (case Chunk sha sk c s w of (s, w) \<Rightarrow> recv_all sha sk cs s w)"

section \<open>The syncs of an agent\<close>

text \<open>
  \<open>SyncReceiver\<close>: the syncs by identifier, each writing files itself or through its helper.  The disk
  is the agent's; a helper works on it in turn, so it is put into the helper's world for each call.
\<close>

datatype sync_kind = LocalSync "path recv" | RepoSync "repo_partial recv" repo_world

record receiver =
  rv_syncs :: "(string \<times> sync_kind) list"
  rv_os :: os

fun kind_root :: "sync_kind \<Rightarrow> string" where
  "kind_root (LocalSync s) = rc_root s"
| "kind_root (RepoSync s w) = rc_root s"

text \<open>\<open>stop\<close>: what remains is the disk.\<close>

fun stop_sync :: "(string \<Rightarrow> string) \<Rightarrow> (string \<Rightarrow> string list list option) \<Rightarrow> sync_kind \<Rightarrow> os \<Rightarrow> os" where
  "stop_sync sha fixes (LocalSync s) os = snd (recv_abort (local_sink fixes) [] s os)"
| "stop_sync sha fixes (RepoSync s w) os =
     rw_os (helper_ends (snd (recv_abort (repo_sink sha (rc_root s)) [] s (w\<lparr>rw_os := os\<rparr>))))"

text \<open>\<open>started\<close> is the outcome of starting the helper process, with the pipe failures to come.\<close>

definition StartSync ::
  "(string \<Rightarrow> string) \<Rightarrow> (string \<Rightarrow> string list list option) \<Rightarrow> string + string option list \<Rightarrow> string \<Rightarrow> string \<Rightarrow> bool
     \<Rightarrow> receiver \<Rightarrow> (string + string) \<times> receiver" where
  "StartSync sha fixes started syncID root asPostgres r =
     (if syncID = [] \<or> root = [] then (Inl ''sync_id and root are required'', r)
      else
        let same = filter (\<lambda>(_, s). kind_root s = root) (rv_syncs r);
            r = r\<lparr>rv_syncs := filter (\<lambda>(_, s). kind_root s \<noteq> root) (rv_syncs r),
                  rv_os := fold (\<lambda>(_, s). stop_sync sha fixes s) same (rv_os r)\<rparr>
        in if \<not> asPostgres
           then (Inr ''receiving'', r\<lparr>rv_syncs := AList.update syncID (LocalSync (new_recv root)) (rv_syncs r)\<rparr>)
           else case started of
             Inl e \<Rightarrow> (Inl e, r)
           | Inr fs \<Rightarrow> (Inr ''receiving'', r\<lparr>rv_syncs := AList.update syncID (RepoSync (new_recv root)
               \<lparr>rw_os = rv_os r, rw_helper = helper_init, rw_exit = None, rw_broken = False, rw_faults = fs\<rparr>) (rv_syncs r)\<rparr>))"

definition HandleSyncChunk ::
  "(string \<Rightarrow> string) \<Rightarrow> (string \<Rightarrow> string list list option) \<Rightarrow> sync_chunk \<Rightarrow> receiver \<Rightarrow> receiver" where
  "HandleSyncChunk sha fixes c r = (case map_of (rv_syncs r) (ck_SyncID c) of
      None \<Rightarrow> r
    | Some (LocalSync s) \<Rightarrow> (case Chunk sha (local_sink fixes) c s (rv_os r) of
         (s, w) \<Rightarrow> r\<lparr>rv_syncs := AList.update (ck_SyncID c) (LocalSync s) (rv_syncs r), rv_os := w\<rparr>)
    | Some (RepoSync s h) \<Rightarrow> (case Chunk sha (repo_sink sha (rc_root s)) c s (h\<lparr>rw_os := rv_os r\<rparr>) of
         (s, h) \<Rightarrow> r\<lparr>rv_syncs := AList.update (ck_SyncID c) (RepoSync s h) (rv_syncs r), rv_os := rw_os h\<rparr>))"

definition FinishSync ::
  "(string \<Rightarrow> string) \<Rightarrow> (string \<Rightarrow> string list list option) \<Rightarrow> string \<Rightarrow> receiver
     \<Rightarrow> (string + finish_result) \<times> receiver" where
  "FinishSync sha fixes syncID r = (case map_of (rv_syncs r) syncID of
      None \<Rightarrow> (Inl (''unknown sync '' @ syncID), r)
    | Some k \<Rightarrow>
        let r = r\<lparr>rv_syncs := filter (\<lambda>(i, _). i \<noteq> syncID) (rv_syncs r)\<rparr>
        in (case k of
              LocalSync s \<Rightarrow> (case recv_abort (local_sink fixes) [] s (rv_os r) of
                (s, w) \<Rightarrow> (Inr (rc_result s), r\<lparr>rv_os := w\<rparr>))
            | RepoSync s h \<Rightarrow> (case recv_abort (repo_sink sha (rc_root s)) [] s (h\<lparr>rw_os := rv_os r\<rparr>) of
                (s, h) \<Rightarrow> (case repo_close h of
                  (e, h) \<Rightarrow> (Inr (case e of None \<Rightarrow> rc_result s | Some e \<Rightarrow> note_failure e (rc_result s)),
                              r\<lparr>rv_os := rw_os h\<rparr>)))))"

definition StopAll ::
  "(string \<Rightarrow> string) \<Rightarrow> (string \<Rightarrow> string list list option) \<Rightarrow> receiver \<Rightarrow> receiver" where
  "StopAll sha fixes r =
     r\<lparr>rv_syncs := [], rv_os := fold (\<lambda>(_, s). stop_sync sha fixes s) (rv_syncs r) (rv_os r)\<rparr>"

text \<open>\<open>DeleteSyncFiles\<close> of files the agent owns; in a repo it is the helper's \<open>delete\<close>.\<close>

definition DeleteSyncFiles ::
  "(string \<Rightarrow> string) \<Rightarrow> (string \<Rightarrow> string list list option) \<Rightarrow> string + string \<Rightarrow> bool \<Rightarrow> string \<Rightarrow> string list \<Rightarrow> os
     \<Rightarrow> (string + string) \<times> os" where
  "DeleteSyncFiles sha fixes conf asPostgres root paths w =
     (let (err, w) =
        (if asPostgres
         then (case RepoHelper sha conf [''delete'', root] (join [CHR 0x0A] paths) w of (e, _, w) \<Rightarrow> (e, w))
         else (case removeSyncFiles root paths
                 (\<lambda>q (tried, w). case withAccessRepair fixes root (Some tried) (os_remove q) w of
                    (e, t, w) \<Rightarrow> (e, t = Some True, w)) (False, w) of
               (e, _, w) \<Rightarrow> (e, w)))
      in (case err of Some e \<Rightarrow> Inl e | None \<Rightarrow> Inr (''deleted '' @ itoa (int (length paths)) @ '' files''), w))"

end
