(* ===== verification/RepoHelperProps.thy ===== *)
theory RepoHelperProps
  imports RepoHelper
begin

text \<open>
  What the repo helper can do to the disk, whatever it is told and whatever calls fail: it stays strictly below a
  root that \<open>pgbackrest.conf\<close> names as a local-disk repo, unless its input names the root itself; and a file becomes
  visible only complete.
\<close>

text \<open>
  What a call that is given the paths \<open>names\<close> may change: what lies strictly below the root; and, when one of the paths is the root
  itself (such as \<open>.\<close>), the root and the partial file beside it.
\<close>

definition names_root :: "string \<Rightarrow> string list \<Rightarrow> bool" where
  "names_root root names = list_ex (\<lambda>rel. syncRelPath root rel = Inr (clean_abs (parts root))) names"

definition below :: "string \<Rightarrow> string list \<Rightarrow> path \<Rightarrow> bool" where
  "below root names q \<longleftrightarrow> strict_prefix (clean_abs (parts root)) q
     \<or> names_root root names \<and> q \<in> {clean_abs (parts root), partial_of (clean_abs (parts root))}"

definition repo_partial_name :: "string \<Rightarrow> string list \<Rightarrow> path \<Rightarrow> bool" where
  "repo_partial_name root names f \<longleftrightarrow> (\<exists>rel \<in> set names. \<exists>q. syncRelPath root rel = Inr q \<and> f = partial_of q)"

lemma syncRelPath_below:
  assumes "syncRelPath root rel = Inr q" "rel \<in> set names"
  shows "below root names q"
proof (cases "clean_rel rel = []")
  case True
  with assms syncRelPath_base [OF assms(1)] show ?thesis by (auto simp: below_def names_root_def list_ex_iff)
qed (use syncRelPath_base [OF assms(1)] in \<open>simp add: below_def strict_prefix_def\<close>)

lemma partial_below:
  assumes "syncRelPath root rel = Inr q" "rel \<in> set names"
  shows "below root names (partial_of q)"
proof (cases "clean_rel rel = []")
  case True
  with assms syncRelPath_base [OF assms(1)] show ?thesis by (auto simp: below_def names_root_def list_ex_iff)
next
  case False
  with syncRelPath_base [OF assms(1)] have "partial_of q =
      clean_abs (parts root) @ butlast (clean_rel rel) @ [last (clean_rel rel) @ SyncPartialSuffix]"
    by (simp add: partial_of_def butlast_append)
  then show ?thesis by (simp add: below_def strict_prefix_def)
qed

lemma final_partial: "[] \<notin> set q \<Longrightarrow> final_of (partial_of q) = q"
  by (cases q rule: rev_cases) (auto simp: final_of_def partial_of_def SyncPartialSuffix_def Let_def)

lemma clean_parts: "[] \<notin> set (clean_abs (parts root)) \<and> [] \<notin> set (clean_rel rel)"
proof -
  have "[] \<notin> set st \<Longrightarrow> [] \<notin> set cs \<Longrightarrow> [] \<notin> set (foldl push_abs st cs)" for st cs
  proof (induction cs arbitrary: st)
    case (Cons c cs)
    have "[] \<notin> set (push_abs st c)" using Cons.prems by (cases st) (auto simp: push_abs.simps)
    with Cons show ?case by simp
  qed simp
  moreover have "[] \<notin> set st \<Longrightarrow> [] \<notin> set cs \<Longrightarrow> [] \<notin> set (foldl push_rel st cs)" for st cs
  proof (induction cs arbitrary: st)
    case (Cons c cs)
    have "[] \<notin> set (push_rel st c)" using Cons.prems by (cases st) (auto simp: push_rel.simps)
    with Cons show ?case by simp
  qed simp
  moreover have "[] \<notin> set (parts p)" for p by (simp add: parts_def)
  ultimately show ?thesis by (simp add: clean_abs_def clean_rel_def)
qed

lemma syncRelPath_plain: "syncRelPath root rel = Inr q \<Longrightarrow> [] \<notin> set q"
  using clean_parts by (auto dest!: syncRelPath_base)

lemma final_below: "repo_partial_name root names f \<Longrightarrow> below root names (final_of f)"
  using final_partial syncRelPath_plain syncRelPath_below by (fastforce simp: repo_partial_name_def)

lemma name_below: "repo_partial_name root names f \<Longrightarrow> below root names f"
  by (auto simp: repo_partial_name_def partial_below)

section \<open>Each step\<close>

lemma createRepoFile_disk:
  "createRepoFile q w = (e, w') \<Longrightarrow> os_disk w' = (if e = None then (os_disk w)(q \<mapsto> []) else os_disk w)"
  by (auto simp: createRepoFile_def dest!: os_mkdir_disk os_create_disk split: prod.splits option.splits)

lemma discard_state: "discard hp w = (hp', w') \<Longrightarrow> hp' = hp\<lparr>hp_cur := [], hp_f := None, hp_failed := None\<rparr>"
  by (auto simp: discard_def)

lemma discard_disk:
  "discard hp w = (hp', w') \<Longrightarrow>
     os_disk w' = os_disk w \<or> (\<exists>q. hp_f hp = Some q \<and> os_disk w' = (os_disk w)(q := None))"
proof (cases "hp_f hp")
  case (Some q)
  assume d: "discard hp w = (hp', w')"
  obtain e1 w1 where c: "os_close w = (e1, w1)" by (cases "os_close w")
  obtain e2 w2 where r: "os_remove q w1 = (e2, w2)" by (cases "os_remove q w1")
  have "w' = w2" using d Some c r by (simp add: discard_def)
  with os_close_disk [OF c] os_remove_disk [OF r] Some show ?thesis by auto
qed (auto simp: discard_def)

lemma helper_finish_disk:
  assumes "helper_finish sha sm rel hp w = Some (hp', w')"
  shows "(hp_f hp' = hp_f hp \<and> os_disk w' = os_disk w)
    \<or> (\<exists>q c h. hp_f hp = Some q \<and> hp_f hp' = None \<and> hp_failed hp' = None \<and> rel = hp_cur hp \<and> hp_failed hp = None
         \<and> hp_h hp = Some h \<and> hex_encode (sha h) = sm
         \<and> os_disk w q = Some c \<and> os_disk w' = (os_disk w)(q := None, final_of q \<mapsto> c))"
proof (cases "rel \<noteq> hp_cur hp \<or> hp_failed hp \<noteq> None \<or> hp_f hp = None")
  case True
  then show ?thesis using assms by (auto simp: helper_finish_def split: option.splits if_splits)
next
  case False
  then obtain q where q: "hp_f hp = Some q" "hp_failed hp = None" "rel = hp_cur hp" by auto
  from assms q obtain h where h: "hp_h hp = Some h" by (auto simp: helper_finish_def split: option.splits)
  obtain e w1 where cl: "os_close w = (e, w1)" by (cases "os_close w")
  have d: "os_disk w1 = os_disk w" using os_close_disk [OF cl] .
  show ?thesis
  proof (cases "e \<noteq> None \<or> hex_encode (sha h) \<noteq> sm")
    case True
    then show ?thesis using assms q h cl d by (auto simp: helper_finish_def split: option.splits if_splits)
  next
    case ok: False
    obtain e2 w2 where rn: "os_rename q (final_of q) w1 = (e2, w2)" by (cases "os_rename q (final_of q) w1")
    show ?thesis
      using assms q h cl d ok rn os_rename_disk [OF rn] by (auto simp: helper_finish_def split: option.splits)
  qed
qed

lemma helper_select_cases:
  assumes s: "helper_select root rel hp w = (hp', w')"
  obtains (same) "hp' = hp" "w' = w" "rel = hp_cur hp"
  | (fails) hp1 w1 e h where "rel \<noteq> hp_cur hp" "discard hp w = (hp1, w1)" "os_disk w' = os_disk w1"
      "hp' = hp1\<lparr>hp_cur := rel, hp_h := h, hp_failed := Some e\<rparr>"
  | (opened) hp1 w1 q where "rel \<noteq> hp_cur hp" "discard hp w = (hp1, w1)" "syncRelPath root rel = Inr q"
      "os_disk w' = (os_disk w1)(partial_of q \<mapsto> [])"
      "hp' = hp1\<lparr>hp_cur := rel, hp_f := Some (partial_of q), hp_h := Some []\<rparr>"
proof (cases "rel = hp_cur hp")
  case True
  with s show ?thesis by (intro same) (simp_all add: helper_select_def)
next
  case False
  obtain hp1 w1 where d: "discard hp w = (hp1, w1)" by (cases "discard hp w")
  show ?thesis
  proof (cases "syncRelPath root rel")
    case (Inl e)
    show ?thesis
      by (rule fails [OF False d, where h = "hp_h hp1" and e = e]) (use s False d Inl in \<open>auto simp: helper_select_def\<close>)
  next
    case (Inr q)
    obtain e w2 where c: "createRepoFile (partial_of q) w1 = (e, w2)" by (cases "createRepoFile (partial_of q) w1")
    show ?thesis
    proof (cases e)
      case None
      show ?thesis
        by (rule opened [OF False d Inr]) (use s False d Inr c None createRepoFile_disk [OF c] in \<open>auto simp: helper_select_def\<close>)
    next
      case (Some x)
      show ?thesis
        by (rule fails [OF False d, where h = "Some []" and e = "err_text x"])
           (use s False d Inr c Some createRepoFile_disk [OF c] in \<open>auto simp: helper_select_def\<close>)
    qed
  qed
qed

lemma helper_data_cases:
  assumes d: "helper_data buf hp w = Some (hp', w')"
  shows "hp_f hp' = hp_f hp \<and> hp_cur hp' = hp_cur hp
    \<and> ((hp' = hp \<and> w' = w \<and> hp_failed hp \<noteq> None) \<or> (hp_f hp = None \<and> w' = w \<and> hp_failed hp' \<noteq> None)
     \<or> (\<exists>q h k. hp_f hp = Some q \<and> hp_failed hp = None \<and> hp_h hp = Some h \<and> hp_h hp' = Some (h @ buf)
          \<and> os_disk w' = append_to q (take k buf) (os_disk w) \<and> (hp_failed hp' = None \<longrightarrow> take k buf = buf)))"
proof (cases "hp_failed hp \<noteq> None \<or> hp_h hp = None \<or> hp_f hp = None")
  case True
  then show ?thesis using d by (auto simp: helper_data_def split: option.splits if_splits)
next
  case False
  then obtain q h where q: "hp_f hp = Some q" "hp_h hp = Some h" "hp_failed hp = None" by auto
  obtain e w1 where a: "os_append q buf w = (e, w1)" by (cases "os_append q buf w")
  from os_append_disk [OF a] show ?thesis using d q a by (auto simp: helper_data_def)
qed

section \<open>Containment\<close>

definition contained :: "string \<Rightarrow> string list \<Rightarrow> os \<Rightarrow> helper \<Rightarrow> os \<Rightarrow> bool" where
  "contained root names w0 hp w \<longleftrightarrow> (\<forall>f. hp_f hp = Some f \<longrightarrow> repo_partial_name root names f) \<and> only (below root names) w0 w"

lemma contained_only: "only (below root names) w0 w \<Longrightarrow> os_disk w' = os_disk w \<Longrightarrow> only (below root names) w0 w'"
  by (simp add: only_def)

lemma contained_upd: "only (below root names) w0 w \<Longrightarrow> below root names q \<Longrightarrow> os_disk w' = (os_disk w)(q := v) \<Longrightarrow> only (below root names) w0 w'"
  by (auto simp: only_def)

lemma contained_discard: "contained root names w0 hp w \<Longrightarrow> discard hp w = (hp', w') \<Longrightarrow> contained root names w0 hp' w'"
  using discard_disk [of hp w hp' w'] discard_state [of hp w hp' w']
  by (auto simp: contained_def dest!: name_below intro: contained_only contained_upd)

interpretation contained: helper_invariant sha root "\<lambda>rel. rel \<in> set names" "contained root names w0" for sha root names w0
proof
  show "contained root names w0 hp w'" if "contained root names w0 hp w" "draw w = (f, w')" for hp w f w'
    using that draw_disk by (auto simp: contained_def intro: contained_only)
  show "contained root names w0 hp' w'" if "contained root names w0 hp w" "discard hp w = (hp', w')" for hp w hp' w'
    using that by (rule contained_discard)
  show "contained root names w0 hp' w'" if i: "contained root names w0 hp w" and n: "rel \<in> set names" and s: "helper_select root rel hp w = (hp', w')"
    for hp w hp' w' rel
    using s
  proof (cases rule: helper_select_cases)
    case (fails hp1 w1 e h)
    with contained_discard [OF i fails(2)] show ?thesis by (auto simp: contained_def intro: contained_only)
  next
    case (opened hp1 w1 q)
    with contained_discard [OF i opened(2)] partial_below [OF opened(3) n] n show ?thesis
      by (auto simp: contained_def repo_partial_name_def intro: contained_upd)
  qed (use i in simp)
  show "contained root names w0 hp' w'" if i: "contained root names w0 hp w" and d: "helper_data buf hp w = Some (hp', w')"
    for hp w hp' w' buf
    using helper_data_cases [OF d] i name_below
    by (fastforce simp: contained_def append_to_def only_def split: option.splits if_splits)
  show "contained root names w0 hp' w'" if i: "contained root names w0 hp w" and d: "helper_finish sha sm rel hp w = Some (hp', w')"
    for hp w hp' w' sm rel
    using helper_finish_disk [OF d] i name_below final_below
    by (fastforce simp: contained_def only_def split: if_splits)
qed

lemma repoReceive_only:
  assumes "repoReceive sha root inp w = (rs, x, w')" "names = received_names inp"
  shows "only (below root names) w w'"
proof -
  obtain rs' x' hp1 w1 where l: "repo_loop sha root inp helper_init w = (rs', x', hp1, w1)"
    by (cases "repo_loop sha root inp helper_init w")
  have "contained root names w helper_init w" by (simp add: contained_def helper_init_def)
  from contained.loop [OF this l] assms(2) have i: "contained root names w hp1 w1" by blast
  obtain hp2 w2 where d: "discard hp1 w1 = (hp2, w2)" by (cases "discard hp1 w1")
  from contained_discard [OF i d] assms l d show ?thesis by (simp add: repoReceive_def contained_def)
qed

lemma remove_each_only: "remove_each root os_remove rels w = (fs, w') \<Longrightarrow> set rels \<subseteq> set names \<Longrightarrow> only (below root names) w w'"
proof (induction rels arbitrary: w fs w')
  case (Cons rel rels)
  show ?case
  proof (cases "syncRelPath root rel")
    case (Inl e)
    with Cons show ?thesis by (auto split: prod.splits)
  next
    case (Inr q)
    obtain e w1 where r: "os_remove q w = (e, w1)" by (cases "os_remove q w")
    obtain fs' w2 where t: "remove_each root os_remove rels w1 = (fs', w2)" by (cases "remove_each root os_remove rels w1")
    have "w' = w2" using Cons.prems Inr r t by (auto split: option.splits os_error.splits)
    with only_remove [where P = "below root names", OF syncRelPath_below [OF Inr, of names] r] Cons.IH [OF t] Cons.prems(2) show ?thesis by (auto intro: only_trans)
  qed
qed simp

lemma removeSyncFiles_only: "removeSyncFiles root rels os_remove w = (e, w') \<Longrightarrow> set rels \<subseteq> set names \<Longrightarrow> only (below root names) w w'"
  by (auto simp: removeSyncFiles_def split: prod.splits list.splits dest: remove_each_only)

lemma createRepoFile_only: "P q \<Longrightarrow> createRepoFile q w = (e, w') \<Longrightarrow> only P w w'"
  by (drule createRepoFile_disk) (auto simp: only_def)

lemma write_test_only:
  assumes "write_test q w = (e, w')" shows "only ((=) q) w w'"
proof -
  obtain e1 w1 where c: "createRepoFile q w = (e1, w1)" by (cases "createRepoFile q w")
  have o1: "only ((=) q) w w1" by (rule createRepoFile_only [OF refl c])
  obtain e2 w2 where a: "os_append q pathTestValue w1 = (e2, w2)" by (cases "os_append q pathTestValue w1")
  have o2: "only ((=) q) w1 w2" by (rule only_append [OF refl a])
  obtain e3 w3 where l: "os_close w2 = (e3, w3)" by (cases "os_close w2")
  have o3: "only ((=) q) w2 w3" using os_close_disk [OF l] by (simp add: only_def)
  have "w' = (if e1 = None then w3 else w1)"
    using assms c a l by (auto simp: write_test_def split: option.splits list.splits)
  with o1 o2 o3 show ?thesis by (auto intro: only_trans)
qed

definition path_test_path :: "string \<Rightarrow> path" where
  "path_test_path dir = clean_abs (parts (Clean dir) @ [pathTestFile])"

text \<open>The configuration has a repo of type \<open>posix\<close> whose path is the folder.\<close>

definition names_local_repo :: "string + string \<Rightarrow> string \<Rightarrow> bool" where
  "names_local_repo conf root \<longleftrightarrow> (\<exists>conf_text repo v b b'. conf = Inr conf_text
     \<and> (\<exists>l\<in>set (split_on CHR 0x0A conf_text). cut (trim_space l) ''='' = (repo @ ''-path'', v, b)) \<and> Clean v = root
     \<and> (\<exists>l\<in>set (split_on CHR 0x0A conf_text). cut (trim_space l) ''='' = (repo @ ''-type'', ''posix'', b')))"

lemma cut_suffix_Some: "cut_suffix s q = Some r \<Longrightarrow> s = r @ q"
  by (auto simp: cut_suffix_def has_suffix_def split: if_splits) (metis append_take_drop_id)

lemma in_alist_update: "x \<in> set (AList.update k v al) \<Longrightarrow> x = (k, v) \<or> x \<in> set al"
  by (induction al) (auto split: if_splits)

definition conf_seen :: "string set \<Rightarrow> string gomap \<times> string gomap \<Rightarrow> bool" where
  "conf_seen S tp \<longleftrightarrow> (\<forall>repo v. map_of (fst tp) repo = Some v \<longrightarrow> (\<exists>l\<in>S. \<exists>b. cut (trim_space l) ''='' = (repo @ ''-type'', v, b)))
     \<and> (\<forall>(repo, p)\<in>set (snd tp). \<exists>l\<in>S. \<exists>v b. cut (trim_space l) ''='' = (repo @ ''-path'', v, b) \<and> Clean v = p)"

lemma conf_seen_line:
  assumes s: "conf_seen S tp" and l: "l \<in> S" shows "conf_seen S (conf_line l tp)"
proof -
  obtain key val b where c: "cut (trim_space l) ''='' = (key, val, b)" by (cases "cut (trim_space l) ''=''")
  show ?thesis
  proof (cases "cut_suffix key ''-type''")
    case (Some repo)
    with c have e: "conf_line l tp = (AList.update repo val (fst tp), snd tp)" by (simp add: conf_line_def)
    have "cut (trim_space l) ''='' = (repo @ ''-type'', val, b)" using c cut_suffix_Some [OF Some] by simp
    with s l show ?thesis unfolding e conf_seen_def by (fastforce simp: update_conv' split: if_splits)
  next
    case None
    show ?thesis
    proof (cases "cut_suffix key ''-path''")
      case (Some repo)
      with c None have e: "conf_line l tp = (fst tp, AList.update repo (Clean val) (snd tp))" by (simp add: conf_line_def)
      have "cut (trim_space l) ''='' = (repo @ ''-path'', val, b)" using c cut_suffix_Some [OF Some] by simp
      with s l show ?thesis unfolding e conf_seen_def by (fastforce dest: in_alist_update)
    next
      case no: None
      with c None s show ?thesis by (simp add: conf_line_def)
    qed
  qed
qed

lemma conf_seen_fold: "conf_seen S tp \<Longrightarrow> set ls \<subseteq> S \<Longrightarrow> conf_seen S (fold conf_line ls tp)"
proof (induction ls arbitrary: tp)
  case (Cons l ls)
  then have "conf_seen S (conf_line l tp)" using conf_seen_line by simp
  with Cons show ?case by simp
qed simp

lemma checkRepoRoot_names:
  assumes "checkRepoRoot conf root = None" shows "names_local_repo conf root"
proof -
  from assms obtain conf_text where t: "conf = Inr conf_text" by (cases conf) (auto simp: checkRepoRoot_def)
  obtain types paths where f: "fold conf_line (split_on CHR 0x0A conf_text) ([], []) = (types, paths)"
    by (cases "fold conf_line (split_on CHR 0x0A conf_text) ([], [])")
  have "conf_seen (set (split_on CHR 0x0A conf_text)) ([], [])" by (simp add: conf_seen_def)
  from conf_seen_fold [OF this subset_refl] f have s: "conf_seen (set (split_on CHR 0x0A conf_text)) (types, paths)" by simp
  from assms t f obtain repo where r: "(repo, root) \<in> set paths" "map_of types repo = Some ''posix''"
    by (auto simp: checkRepoRoot_def list_ex_iff split: if_splits)
  from s r show ?thesis unfolding names_local_repo_def conf_seen_def t by fastforce
qed

text \<open>The paths an operation is given on its input.\<close>

definition names_given :: "string \<Rightarrow> string \<Rightarrow> string list" where
  "names_given op inp = (if op = ''receive'' then received_names inp else case scan_lines inp of None \<Rightarrow> [] | Some ls \<Rightarrow> ls)"

text \<open>
  C29: whatever the helper is called with and reads on its input, and whatever calls fail, a file it
  changes is the path test file of the folder it was given, in a path test, or else lies strictly below a folder that
  \<open>pgbackrest.conf\<close> names as a local-disk repo.  The one exception: when a path on the input is the folder itself, such as
  \<open>.\<close>, the folder or the partial file beside it, outside the folder, can be changed (\<open>root_path_escapes\<close>).
\<close>

theorem RepoHelper_contained:
  assumes run: "RepoHelper sha conf args inp w = (e, rs, w')" and ch: "os_disk w' q \<noteq> os_disk w q"
  shows "\<exists>op dir. args = [op, dir] \<and> IsAbs dir
    \<and> ((op \<in> {''test'', ''untest''} \<and> q = path_test_path dir)
       \<or> (op \<in> {''receive'', ''delete''} \<and> names_local_repo conf (Clean dir) \<and> below (Clean dir) (names_given op inp) q))"
proof -
  have "\<exists>op dir. args = [op, dir] \<and> IsAbs dir"
    using run ch by (auto simp: RepoHelper_def split: list.splits if_splits)
  then obtain op dir where a: "args = [op, dir]" "IsAbs dir" by blast
  consider (test) "op = ''test''" | (untest) "op = ''untest''" | (rest) "op \<notin> {''test'', ''untest''}" by auto
  then show ?thesis
  proof cases
    case test
    obtain f w1 where f: "draw w = (f, w1)" by (cases "draw w")
    have "f = None" using run ch test a f draw_disk [OF f] by (cases f) (auto simp: RepoHelper_def Let_def)
    moreover obtain e1 w2 where t: "write_test (path_test_path dir) w1 = (e1, w2)"
      by (cases "write_test (path_test_path dir) w1")
    ultimately have "w' = w2" using run test a f by (simp add: RepoHelper_def Let_def path_test_path_def)
    with write_test_only [OF t] ch draw_disk [OF f] have "q = path_test_path dir" unfolding only_def by metis
    with a test show ?thesis by simp
  next
    case untest
    obtain e1 w1 where r: "os_remove (path_test_path dir) w = (e1, w1)" by (cases "os_remove (path_test_path dir) w")
    have "w' = w1" using run untest a r by (simp add: RepoHelper_def Let_def path_test_path_def)
    with only_remove [where P = "(=) (path_test_path dir)", OF refl r] ch have "q = path_test_path dir" unfolding only_def by metis
    with a untest show ?thesis by simp
  next
    case rest
    have c: "checkRepoRoot conf (Clean dir) = None"
      using run ch rest a by (auto simp: RepoHelper_def Let_def split: option.splits)
    have "op \<in> {''receive'', ''delete''} \<and> only (below (Clean dir) (names_given op inp)) w w'"
    proof (cases "op = ''receive''")
      case True
      obtain rs1 x w1 where r: "repoReceive sha (Clean dir) inp w = (rs1, x, w1)"
        by (cases "repoReceive sha (Clean dir) inp w")
      with run rest a c True have "w' = w1" by (simp add: RepoHelper_def Let_def)
      with repoReceive_only [OF r refl] True show ?thesis by (simp add: names_given_def)
    next
      case no: False
      with run ch rest a c have d: "op = ''delete''" by (auto simp: RepoHelper_def Let_def split: if_splits)
      then obtain ls where l: "scan_lines inp = Some ls"
        using run ch rest a c by (auto simp: RepoHelper_def Let_def split: option.splits)
      obtain e1 w1 where r: "removeSyncFiles (Clean dir) (filter (\<lambda>l. l \<noteq> []) ls) os_remove w = (e1, w1)"
        by (cases "removeSyncFiles (Clean dir) (filter (\<lambda>l. l \<noteq> []) ls) os_remove w")
      with run a c d l have "w' = w1" by (simp add: RepoHelper_def Let_def)
      with removeSyncFiles_only [OF r, of ls] d l show ?thesis by (simp add: names_given_def)
    qed
    with ch a checkRepoRoot_names [OF c] show ?thesis by (auto simp: only_def)
  qed
qed

definition sample_conf :: string where
  "sample_conf = ''repo1-type=posix'' @ [CHR 0x0A] @ ''repo1-path=/r''"

theorem RepoHelper_contained_witness:
  "names_local_repo (Inr sample_conf) ''/r'' \<and> strict_prefix [''r''] [''r'', ''a'']"
proof -
  let ?w = "\<lparr>os_disk = [[''r'', ''a''] \<mapsto> ''x''], os_faults = [], os_ran = [], os_repaired = []\<rparr>"
  obtain e rs w' where r: "RepoHelper id (Inr sample_conf) [''delete'', ''/r''] ''a'' ?w = (e, rs, w')"
    by (cases "RepoHelper id (Inr sample_conf) [''delete'', ''/r''] ''a'' ?w")
  have "os_disk (snd (snd (RepoHelper id (Inr sample_conf) [''delete'', ''/r''] ''a'' ?w))) [''r'', ''a''] = None"
    by code_simp
  with r have "os_disk w' [''r'', ''a''] \<noteq> os_disk ?w [''r'', ''a'']" by simp
  from RepoHelper_contained [OF r this]
  have m: "names_local_repo (Inr sample_conf) (Clean ''/r'')" "below (Clean ''/r'') (names_given ''delete'' ''a'') [''r'', ''a'']" by auto
  have "Clean ''/r'' = ''/r''" "clean_abs (parts ''/r'') = [''r'']" "\<not> names_root ''/r'' (names_given ''delete'' ''a'')" by code_simp+
  with m show ?thesis by (simp add: below_def)
qed

text \<open>The path \<open>.\<close> is the root: its partial file is created beside the root.\<close>

lemma root_path_escapes:
  "os_disk (snd (helper_select ''/r/s'' ''.'' helper_init \<lparr>os_disk = Map.empty, os_faults = [], os_ran = [], os_repaired = []\<rparr>))
     [''r'', ''s'' @ SyncPartialSuffix] = Some []"
  by code_simp

end
