(* ===== verification/SyncTransfer.thy ===== *)
theory SyncTransfer
  imports SyncReceiver RepoHelperProps
begin

text \<open>
  What arrives of a file transfer.  The contract of a partial file is a locale: \<open>view\<close> is what the disk
  shows, and \<open>holds p q b w\<close> says that \<open>p\<close> is being written for \<open>q\<close> and has the bytes \<open>b\<close> so far.
  The receiver is proved correct over the contract, and both kinds of partial file meet it.
\<close>

definition put :: "path \<times> string \<Rightarrow> disk \<Rightarrow> disk" where
  "put f v = (if is_partial (fst f) then v else v(fst f \<mapsto> snd f))"

locale partial_sink =
  fixes sk :: "('w, 'p) sink" and root :: string and view :: "'w \<Rightarrow> disk"
    and idle :: "'w \<Rightarrow> bool" and holds :: "'p \<Rightarrow> path \<Rightarrow> string \<Rightarrow> 'w \<Rightarrow> bool" and busy :: "'p \<Rightarrow> 'w \<Rightarrow> bool"
  assumes open_law: "idle w \<Longrightarrow> syncRelPath root rel = Inr q \<Longrightarrow> sk_open sk root rel q t w = (r, t', w') \<Longrightarrow>
      view w' = view w \<and> (case r of Inl _ \<Rightarrow> idle w' | Inr p \<Rightarrow> holds p q [] w')"
    and hold_law: "holds p q b w \<Longrightarrow> busy p w"
    and write_law: "holds p q b w \<Longrightarrow> sk_write sk p d w = (r, w') \<Longrightarrow>
      view w' = view w \<and> (case r of Inl _ \<Rightarrow> busy p w' | Inr p' \<Rightarrow> holds p' q (b @ d) w')"
    and commit_law: "holds p q b w \<Longrightarrow> sk_commit sk p w = (e, w') \<Longrightarrow>
      idle w' \<and> (view w' = put (q, b) (view w) \<or> (e \<noteq> None \<and> view w' = view w))"
    and abort_law: "busy p w \<Longrightarrow> idle (sk_abort sk p w) \<and> view (sk_abort sk p w) = view w"

text \<open>A sink that does not fail.\<close>

locale reliable_sink = partial_sink sk root view idle holds busy
  for sk :: "('w, 'p) sink" and root view idle holds busy +
  fixes reliable :: "'w \<Rightarrow> bool" and ready :: "'p \<Rightarrow> 'w \<Rightarrow> bool"
  assumes sure_open: "idle w \<Longrightarrow> reliable w \<Longrightarrow> syncRelPath root rel = Inr q \<Longrightarrow> CHR 0x0A \<notin> set rel \<Longrightarrow>
      \<exists>p t' w'. sk_open sk root rel q t w = (Inr p, t', w') \<and> reliable w'"
    and sure_write: "reliable w \<Longrightarrow> holds p q b w \<Longrightarrow> length d \<le> syncChunkSize \<Longrightarrow>
      \<exists>p' w'. sk_write sk p d w = (Inr p', w') \<and> reliable w' \<and> ready p' w'"
    and sure_commit: "reliable w \<Longrightarrow> holds p q b w \<Longrightarrow> ready p w \<Longrightarrow> \<exists>w'. sk_commit sk p w = (None, w') \<and> reliable w'"

section \<open>The agent's own partial files\<close>

definition local_view :: "os \<Rightarrow> disk" where
  "local_view w = visible (os_disk w)"

definition local_holds :: "path \<Rightarrow> path \<Rightarrow> string \<Rightarrow> os \<Rightarrow> bool" where
  "local_holds p q b w \<longleftrightarrow> p = q \<and> os_disk w (partial_of q) = Some b"

lemma visible_put:
  "visible (fs(partial_of q := None, q \<mapsto> b)) = put (q, b) (visible fs)"
  by (auto simp: put_def visible_def fun_eq_iff)

lemma local_create_disk:
  "local_create q w = (e, w') \<Longrightarrow> os_disk w' = (if e = None then (os_disk w)(partial_of q \<mapsto> []) else os_disk w)"
  by (auto simp: local_create_def dest!: os_mkdir_disk os_create_disk split: prod.splits option.splits)

lemma local_open_law:
  assumes "local_open af root rel q t w = (r, t', w')"
  shows "local_view w' = local_view w \<and> (case r of Inl _ \<Rightarrow> True | Inr p \<Rightarrow> local_holds p q [] w')"
proof -
  obtain e t1 w1 where o: "withAccessRepair af root (Some t) (local_create q) w = (e, t1, w1)"
    by (cases "withAccessRepair af root (Some t) (local_create q) w")
  have r: "r = (case e of None \<Rightarrow> Inr q | Some e \<Rightarrow> Inl (err_text e))" "w' = w1"
    using assms o by (auto simp: local_open_def split: option.splits)
  have k: "\<And>v x v'. local_create q v = (Some x, v') \<Longrightarrow> os_disk v' = os_disk v"
    using local_create_disk by fastforce
  have m: "(e \<noteq> None \<longrightarrow> os_disk w1 = os_disk w)
      \<and> (e = None \<longrightarrow> (\<exists>v. os_disk v = os_disk w \<and> local_create q v = (None, w1)))"
    using withAccessRepair_success [OF o] k by blast
  show ?thesis
  proof (cases e)
    case (Some x)
    with m r show ?thesis by (simp add: local_view_def)
  next
    case None
    with m obtain v where "os_disk v = os_disk w" "local_create q v = (None, w1)" by blast
    from this(1) local_create_disk [OF this(2)] r None show ?thesis by (simp add: local_view_def local_holds_def)
  qed
qed

lemma local_write_law:
  assumes "local_holds p q b w" and "local_write p d w = (r, w')"
  shows "local_view w' = local_view w \<and> (case r of Inl _ \<Rightarrow> True | Inr p' \<Rightarrow> local_holds p' q (b @ d) w')"
proof -
  obtain e w1 where a: "os_append (partial_of q) d w = (e, w1)" by (cases "os_append (partial_of q) d w")
  have "w' = w1" "r = (case e of None \<Rightarrow> Inr p | Some e \<Rightarrow> Inl (err_text e))"
    using assms a by (auto simp: local_write_def local_holds_def split: option.splits)
  with os_append_disk [OF a] assms(1) show ?thesis
    by (cases e) (auto simp: local_view_def local_holds_def append_to_def)
qed

lemma remove_partial_visible: "visible (os_disk (snd (os_remove (partial_of q) w))) = visible (os_disk w)"
  using os_remove_disk [of "partial_of q" w] by (cases "os_remove (partial_of q) w") auto

lemma local_commit_law:
  assumes "local_holds p q b w" and "local_commit p w = (r, w')"
  shows "local_view w' = put (q, b) (local_view w) \<or> (r \<noteq> None \<and> local_view w' = local_view w)"
proof -
  obtain e w1 where c: "os_close w = (e, w1)" by (cases "os_close w")
  have d: "os_disk w1 = os_disk w" using os_close_disk [OF c] .
  obtain e2 w2 where r: "os_rename (partial_of q) q w1 = (e2, w2)" by (cases "os_rename (partial_of q) q w1")
  from os_rename_disk [OF r] d assms c r show ?thesis
    by (cases e; cases e2) (auto simp: local_commit_def local_holds_def local_view_def remove_partial_visible visible_put)
qed

lemma local_abort_law: "local_view (local_abort p w) = local_view w"
  using os_close_disk [of w] by (cases "os_close w") (auto simp: local_view_def local_abort_def remove_partial_visible)

interpretation local: partial_sink "local_sink af" root local_view "\<lambda>_. True" local_holds "\<lambda>_ _. True" for af root
  by unfold_locales (use local_open_law local_write_law local_commit_law local_abort_law in
      \<open>auto simp: local_sink_def split: sum.splits\<close>)

definition no_faults :: "os \<Rightarrow> bool" where
  "no_faults w \<longleftrightarrow> os_faults w = []"

interpretation local: reliable_sink "local_sink af" root local_view "\<lambda>_. True" local_holds "\<lambda>_ _. True"
  no_faults "\<lambda>_ _. True" for af root
  by unfold_locales
     (auto simp: local_sink_def no_faults_def local_open_def local_create_def withAccessRepair_def os_mkdir_def
        os_create_def local_write_def os_append_def local_commit_def os_close_def os_rename_def local_holds_def)

end
