(* ===== verification/SyncIntegrity.thy ===== *)
theory SyncIntegrity
  imports SyncTransfer
begin

text \<open>
  The receiver over the contract of a partial file: whatever chunks arrive, in whatever order, a file
  changes only as a whole, to the data of a run of its chunks that starts at the first, has no gap, and
  ends with the checksum of all of it.
\<close>

definition data_of :: "sync_chunk list \<Rightarrow> string" where
  "data_of fcs = concat (map ck_Data fcs)"

definition chunk_run :: "string \<Rightarrow> sync_chunk list \<Rightarrow> bool" where
  "chunk_run path fcs \<longleftrightarrow> map ck_Index fcs = map int [0..<length fcs]
     \<and> list_all (\<lambda>c. ck_Path c = path \<and> \<not> ck_Gone c \<and> ck_Err c = []) fcs"

definition open_run :: "string \<Rightarrow> sync_chunk list \<Rightarrow> bool" where
  "open_run path fcs \<longleftrightarrow> chunk_run path fcs \<and> list_all (\<lambda>c. \<not> ck_EOF c) fcs"

definition whole_file :: "(string \<Rightarrow> string) \<Rightarrow> string \<Rightarrow> sync_chunk list \<Rightarrow> bool" where
  "whole_file sha path fcs \<longleftrightarrow> chunk_run path fcs \<and> fcs \<noteq> [] \<and> ck_EOF (last fcs)
     \<and> list_all (\<lambda>c. \<not> ck_EOF c) (butlast fcs) \<and> ck_SHA256 (last fcs) = hex_encode (sha (data_of fcs))"

definition arrived :: "(string \<Rightarrow> string) \<Rightarrow> string \<Rightarrow> sync_chunk list \<Rightarrow> path \<times> string \<Rightarrow> bool" where
  "arrived sha root cs f \<longleftrightarrow>
     (\<exists>path fcs. subseq fcs cs \<and> whole_file sha path fcs \<and> syncRelPath root path = Inr (fst f) \<and> snd f = data_of fcs)"

definition put_all :: "(path \<times> string) list \<Rightarrow> disk \<Rightarrow> disk" where
  "put_all ps v = foldl (\<lambda>v f. put f v) v ps"

lemma put_all_simps [simp]: "put_all [] v = v" "put_all (ps @ [f]) v = put f (put_all ps v)"
  by (simp_all add: put_all_def)

lemma put_all_content: "put_all ps v q = v q \<or> (\<exists>b. (q, b) \<in> set ps \<and> put_all ps v q = Some b)"
  by (induction ps rule: rev_induct) (auto simp: put_def)

lemma chunk_run_snoc:
  assumes "chunk_run path fcs" and "ck_Index c = int (length fcs)" and "ck_Path c = path" and "\<not> ck_Gone c" and "ck_Err c = []"
  shows "chunk_run path (fcs @ [c])"
  using assms by (simp add: chunk_run_def)

lemma data_of_snoc [simp]: "data_of (fcs @ [c]) = data_of fcs @ ck_Data c" "data_of [] = []"
  by (simp_all add: data_of_def)

definition stored :: "(string \<Rightarrow> string) \<Rightarrow> string \<Rightarrow> sync_chunk list \<Rightarrow> disk \<Rightarrow> disk \<Rightarrow> finish_result \<Rightarrow> bool" where
  "stored sha root cs v0 v r \<longleftrightarrow> 0 \<le> fr_Errors r
     \<and> (\<exists>ps. v = put_all ps v0 \<and> list_all (arrived sha root cs) ps \<and> fr_Copied r \<le> int (length ps)
          \<and> (fr_Errors r = 0 \<longrightarrow> fr_Copied r = int (length ps)))"

lemma arrived_mono: "arrived sha root cs f \<Longrightarrow> arrived sha root (cs @ cs') f"
  unfolding arrived_def by (blast intro: list_emb_prefix)

lemma stored_mono: "stored sha root cs v0 v r \<Longrightarrow> stored sha root (cs @ cs') v0 v r"
  unfolding stored_def by (metis (mono_tags, lifting) arrived_mono list.pred_mono_strong)

lemma stored_skip: "stored sha root cs v0 v r \<Longrightarrow> stored sha root cs v0 v (r\<lparr>fr_Skipped := n\<rparr>)"
  by (simp add: stored_def)

lemma stored_copy:
  assumes "stored sha root cs v0 v r" and "arrived sha root cs f"
  shows "stored sha root cs v0 (put f v) (r\<lparr>fr_Copied := fr_Copied r + 1\<rparr>)"
proof -
  from assms(1) obtain ps where "v = put_all ps v0" "list_all (arrived sha root cs) ps" "fr_Copied r \<le> int (length ps)"
    "fr_Errors r = 0 \<longrightarrow> fr_Copied r = int (length ps)" by (auto simp: stored_def)
  with assms show ?thesis by (auto simp: stored_def intro!: exI [of _ "ps @ [f]"])
qed

text \<open>A failure may have stored its file nevertheless: the helper's answer can be lost.\<close>

lemma stored_fail:
  assumes "stored sha root cs v0 v r" and "v' = v \<or> (\<exists>f. arrived sha root cs f \<and> v' = put f v)" and "reason \<noteq> []"
  shows "stored sha root cs v0 v' (note_failure reason r)"
proof -
  from assms(1) obtain ps where ps: "v = put_all ps v0" "list_all (arrived sha root cs) ps" "fr_Copied r \<le> int (length ps)"
    "0 \<le> fr_Errors r" by (auto simp: stored_def)
  from assms(2) show ?thesis
  proof
    assume "v' = v"
    with ps assms(3) show ?thesis by (auto simp: stored_def note_failure_def intro!: exI [of _ ps])
  next
    assume "\<exists>f. arrived sha root cs f \<and> v' = put f v"
    then obtain f where "arrived sha root cs f" "v' = put f v" by blast
    with ps assms(3) show ?thesis by (auto simp: stored_def note_failure_def intro!: exI [of _ "ps @ [f]"])
  qed
qed

context partial_sink
begin

definition writing :: "sync_chunk list \<Rightarrow> 'p recv \<Rightarrow> 'w \<Rightarrow> bool" where
  "writing cs s w \<longleftrightarrow> rc_root s = root \<and> (case rc_tmp s of
      None \<Rightarrow> idle w \<and> rc_next s = 0
    | Some p \<Rightarrow> (\<exists>q fcs. syncRelPath root (rc_path s) = Inr q \<and> holds p q (rc_hash s) w \<and> subseq fcs cs
         \<and> open_run (rc_path s) fcs \<and> rc_hash s = data_of fcs \<and> rc_next s = int (length fcs)))"

definition stoppable :: "'p recv \<Rightarrow> 'w \<Rightarrow> bool" where
  "stoppable s w \<longleftrightarrow> rc_root s = root \<and> (case rc_tmp s of None \<Rightarrow> idle w | Some p \<Rightarrow> busy p w)"

lemma writing_stoppable: "writing cs s w \<Longrightarrow> stoppable s w"
  by (auto simp: writing_def stoppable_def split: option.splits dest: hold_law)

lemma writing_mono: "writing cs s w \<Longrightarrow> writing (cs @ cs') s w"
  unfolding writing_def by (auto split: option.splits)

lemma writing_frame [simp]:
  "writing cs (s\<lparr>rc_result := x\<rparr>) w = writing cs s w" "writing cs (s\<lparr>rc_skip := y\<rparr>) w = writing cs s w"
  by (cases "rc_tmp s"; simp add: writing_def)+

lemma abort_writing:
  assumes "stoppable s w" and "recv_abort sk reason s w = (s', w')"
  shows "writing cs s' w' \<and> view w' = view w \<and> rc_tmp s' = None \<and> rc_result s' = note_failure reason (rc_result s)"
  using assms abort_law by (auto simp: stoppable_def recv_abort_def writing_def split: option.splits)

text \<open>
  One chunk of the file being written.  The file's earlier chunks are among \<open>cs\<close>; with the chunk itself
  they are among \<open>cs @ [c]\<close>.
\<close>

lemma write_complete:
  assumes i: "writing cs s w" and p: "rc_tmp s = Some p" and c: "ck_Index c = rc_next s" "ck_Path c = rc_path s"
      "\<not> ck_Gone c" "ck_Err c = []"
    and st: "stored sha root (cs @ [c]) v0 (view w) (rc_result s)"
    and r: "(case recv_write sk c s w of
          (Some e, s, w) \<Rightarrow> (Some e, s, w)
        | (None, s, w) \<Rightarrow> recv_complete sha sk c s w) = (e, s', w')"
  shows "(e = None \<longrightarrow> writing (cs @ [c]) s' w' \<and> stored sha root (cs @ [c]) v0 (view w') (rc_result s'))
    \<and> (e \<noteq> None \<longrightarrow> stoppable s' w' \<and> rc_result s' = rc_result s
        \<and> (view w' = view w \<or> (\<exists>f. arrived sha root (cs @ [c]) f \<and> view w' = put f (view w))))"
proof -
  from i p obtain q fcs where root: "rc_root s = root" and q: "syncRelPath root (rc_path s) = Inr q"
    and h: "holds p q (rc_hash s) w" and f: "subseq fcs cs" "open_run (rc_path s) fcs" "rc_hash s = data_of fcs"
      "rc_next s = int (length fcs)" by (auto simp: writing_def)
  let ?fcs = "fcs @ [c]"
  have sub: "subseq ?fcs (cs @ [c])" using f(1) by simp
  have run: "chunk_run (rc_path s) ?fcs" using f c by (intro chunk_run_snoc) (simp_all add: open_run_def)
  obtain r1 w1 where wr: "sk_write sk p (ck_Data c) w = (r1, w1)" by (cases "sk_write sk p (ck_Data c) w")
  note wl = write_law [OF h wr]
  show ?thesis
  proof (cases r1)
    case (Inl x)
    have "e = Some x" "s' = s" "w' = w1" using r p wr Inl by (auto simp: recv_write_def)
    with wl Inl root p show ?thesis by (simp add: stoppable_def)
  next
    case (Inr p1)
    let ?s = "s\<lparr>rc_tmp := Some p1, rc_hash := rc_hash s @ ck_Data c, rc_next := rc_next s + 1\<rparr>"
    have rc: "recv_complete sha sk c ?s w1 = (e, s', w')" using r p wr Inr by (simp add: recv_write_def)
    have h1: "holds p1 q (data_of ?fcs) w1" and v1: "view w1 = view w" using wl Inr f by simp_all
    show ?thesis
    proof (cases "ck_EOF c")
      case False
      have "writing (cs @ [c]) ?s w1"
        using root q h1 sub run f c False by (auto simp: writing_def open_run_def intro!: exI [of _ ?fcs])
      moreover have "e = None" "s' = ?s" "w' = w1" using rc False by (simp_all add: recv_complete_def)
      ultimately show ?thesis using st v1 by simp
    next
      case True
      show ?thesis
      proof (cases "hex_encode (sha (data_of ?fcs)) = ck_SHA256 c")
        case False
        with rc True h1 v1 root f show ?thesis
          by (auto simp: recv_complete_def stoppable_def Let_def dest: hold_law)
      next
        case ok: True
        obtain e2 w2 where cm: "sk_commit sk p1 w1 = (e2, w2)" by (cases "sk_commit sk p1 w1")
        have ar: "arrived sha root (cs @ [c]) (q, data_of ?fcs)"
          using sub run q f ok True unfolding arrived_def whole_file_def open_run_def
          by (intro exI [of _ "rc_path s"] exI [of _ ?fcs]) simp
        note cl = commit_law [OF h1 cm]
        show ?thesis
        proof (cases e2)
          case None
          then have "view w2 = put (q, data_of ?fcs) (view w)" "idle w2" using cl v1 by auto
          with stored_copy [OF st ar] rc True ok cm None f root show ?thesis
            by (auto simp: recv_complete_def writing_def)
        next
          case (Some x)
          then have "e = Some x" "s' = ?s\<lparr>rc_tmp := None\<rparr>" "w' = w2"
            using rc True ok cm f by (auto simp: recv_complete_def)
          with cl v1 ar root show ?thesis by (auto simp: stoppable_def)
        qed
      qed
    qed
  qed
qed

text \<open>A chunk after \<open>Chunk\<close>'s first checks: a file in progress is its own.\<close>

lemma chunk_step:
  assumes i: "writing cs s w" and own: "rc_tmp s \<noteq> None \<longrightarrow> ck_Index c \<noteq> 0 \<and> ck_Path c = rc_path s"
    and st: "stored sha root cs v0 (view w) (rc_result s)"
    and r: "recv_chunk sha sk c s w = (e, s', w')"
  shows "(e = None \<longrightarrow> writing (cs @ [c]) s' w' \<and> stored sha root (cs @ [c]) v0 (view w') (rc_result s'))
    \<and> (e \<noteq> None \<longrightarrow> stoppable s' w' \<and> rc_result s' = rc_result s
        \<and> (view w' = view w \<or> (\<exists>f. arrived sha root (cs @ [c]) f \<and> view w' = put f (view w))))"
proof -
  have st': "stored sha root (cs @ [c]) v0 (view w) (rc_result s)" by (rule stored_mono [OF st])
  consider (gone) "ck_Gone c" | (err) "\<not> ck_Gone c" "ck_Err c \<noteq> []"
    | (gap) "\<not> ck_Gone c" "ck_Err c = []" "ck_Index c \<noteq> rc_next s \<or> (ck_Index c > 0 \<and> rc_tmp s = None)"
    | (first) "\<not> ck_Gone c" "ck_Err c = []" "ck_Index c = rc_next s" "ck_Index c = 0" "rc_tmp s = None"
    | (later) p where "\<not> ck_Gone c" "ck_Err c = []" "ck_Index c = rc_next s" "ck_Index c \<noteq> 0" "rc_tmp s = Some p"
    using own i by (cases "rc_tmp s") (auto simp: writing_def)
  then show ?thesis
  proof cases
    case gone
    with r st' writing_mono [OF i, of "[c]"] show ?thesis by (auto simp: recv_chunk_def intro: stored_skip)
  next
    case err
    with r writing_stoppable [OF i] show ?thesis by (auto simp: recv_chunk_def)
  next
    case gap
    with r writing_stoppable [OF i] show ?thesis by (auto simp: recv_chunk_def split: if_splits)
  next
    case (later p)
    have "recv_open sk c s w = (None, s, w)" using later by (simp add: recv_open_def)
    with r later have "(case recv_write sk c s w of
          (Some e, s, w) \<Rightarrow> (Some e, s, w)
        | (None, s, w) \<Rightarrow> recv_complete sha sk c s w) = (e, s', w')" by (simp add: recv_chunk_def)
    from write_complete [OF i later(5,3) _ later(1,2) st' this] own later show ?thesis by simp
  next
    case first
    have root: "rc_root s = root" and id: "idle w" using i first by (simp_all add: writing_def)
    show ?thesis
    proof (cases "syncRelPath root (ck_Path c)")
      case (Inl x)
      with r first root writing_stoppable [OF i] show ?thesis by (auto simp: recv_chunk_def recv_open_def)
    next
      case (Inr q)
      obtain o1 t1 w1 where o: "sk_open sk root (ck_Path c) q (rc_repairTried s) w = (o1, t1, w1)"
        by (cases "sk_open sk root (ck_Path c) q (rc_repairTried s) w")
      note ol = open_law [OF id Inr o]
      show ?thesis
      proof (cases o1)
        case (Inl x)
        then have "e = Some x" "s' = s\<lparr>rc_repairTried := t1\<rparr>" "w' = w1"
          using r first root o \<open>syncRelPath root (ck_Path c) = Inr q\<close> by (auto simp: recv_chunk_def recv_open_def)
        with ol Inl root first show ?thesis by (simp add: stoppable_def)
      next
        case (Inr p)
        let ?s = "s\<lparr>rc_repairTried := t1, rc_path := ck_Path c, rc_tmp := Some p, rc_hash := [], rc_next := 0\<rparr>"
        have i1: "writing cs ?s w1" and v1: "view w1 = view w"
          using ol Inr root \<open>syncRelPath root (ck_Path c) = Inr q\<close>
          by (auto simp: writing_def open_run_def chunk_run_def intro!: exI [of _ "[]"])
        have "recv_open sk c s w = (None, ?s, w1)"
          using first root o Inr \<open>syncRelPath root (ck_Path c) = Inr q\<close> by (simp add: recv_open_def)
        with r first have x: "(case recv_write sk c ?s w1 of
            (Some e, s, w) \<Rightarrow> (Some e, s, w)
          | (None, s, w) \<Rightarrow> recv_complete sha sk c s w) = (e, s', w')" by (simp add: recv_chunk_def)
        from write_complete [OF i1 _ _ _ first(1,2) _ x, of p v0] first st' v1 show ?thesis by simp
      qed
    qed
  qed
qed

lemma Chunk_step:
  assumes i: "writing cs s w" and st: "stored sha root cs v0 (view w) (rc_result s)" and r: "Chunk sha sk c s w = (s', w')"
  shows "writing (cs @ [c]) s' w' \<and> stored sha root (cs @ [c]) v0 (view w') (rc_result s')"
proof (cases "rc_skip s \<noteq> [] \<and> ck_Path c = rc_skip s")
  case True
  with r writing_mono [OF i, of "[c]"] stored_mono [OF st, of "[c]"] show ?thesis by (auto simp: Chunk_def split: if_splits)
next
  case False
  obtain s1 w1 where a: "(if rc_tmp s \<noteq> None \<and> (ck_Index c = 0 \<or> ck_Path c \<noteq> rc_path s)
      then recv_abort sk (rc_path s @ '': incomplete'') s w else (s, w)) = (s1, w1)"
    by (cases "if rc_tmp s \<noteq> None \<and> (ck_Index c = 0 \<or> ck_Path c \<noteq> rc_path s)
      then recv_abort sk (rc_path s @ '': incomplete'') s w else (s, w)")
  have i1: "writing cs s1 w1" and st1: "stored sha root cs v0 (view w1) (rc_result s1)"
    and own: "rc_tmp s1 \<noteq> None \<longrightarrow> ck_Index c \<noteq> 0 \<and> ck_Path c = rc_path s1"
    using a i st abort_writing [OF writing_stoppable [OF i], of "rc_path s @ '': incomplete''" s1 w1 cs]
      stored_fail [OF st, of "view w1" "rc_path s @ '': incomplete''"]
    by (auto split: if_splits)
  obtain e s2 w2 where ch: "recv_chunk sha sk c s1 w1 = (e, s2, w2)" by (cases "recv_chunk sha sk c s1 w1")
  note step = chunk_step [OF i1 own st1 ch]
  show ?thesis
  proof (cases e)
    case None
    then have "s' = s2" "w' = w2" using r False a ch by (simp_all add: Chunk_def)
    with step None show ?thesis by simp
  next
    case (Some x)
    obtain s3 w3 where ab: "recv_abort sk (ck_Path c @ '': '' @ x) s2 w2 = (s3, w3)"
      by (cases "recv_abort sk (ck_Path c @ '': '' @ x) s2 w2")
    have s': "s' = (if \<not> ck_EOF c then s3\<lparr>rc_skip := ck_Path c\<rparr> else s3)" "w' = w3"
      using r False a ch Some ab by (auto simp: Chunk_def)
    from step Some have sp: "stoppable s2 w2" by simp
    note aw = abort_writing [OF sp ab, of "cs @ [c]"]
    have "stored sha root (cs @ [c]) v0 (view w3) (note_failure (ck_Path c @ '': '' @ x) (rc_result s1))"
      by (rule stored_fail [OF stored_mono [OF st1]]) (use step Some aw in auto)
    with aw s' step Some show ?thesis by (auto simp: writing_def)
  qed
qed

lemma recv_all_step:
  assumes "writing cs s w" and "stored sha root cs v0 (view w) (rc_result s)" and "recv_all sha sk cs' s w = (s', w')"
  shows "writing (cs @ cs') s' w' \<and> stored sha root (cs @ cs') v0 (view w') (rc_result s')"
  using assms
proof (induction cs' arbitrary: cs s w)
  case (Cons c cs')
  obtain s1 w1 where c: "Chunk sha sk c s w = (s1, w1)" by (cases "Chunk sha sk c s w")
  from Chunk_step [OF Cons.prems(1,2) c] Cons.IH [of "cs @ [c]" s1 w1] Cons.prems(3) c show ?case by simp
qed simp

lemma received:
  assumes "idle w" and "recv_all sha sk cs (new_recv root) w = (s', w')"
  shows "stored sha root cs (view w) (view w') (rc_result s')"
proof -
  have "writing [] (new_recv root) w" using assms(1) by (simp add: writing_def new_recv_def)
  moreover have "stored sha root [] (view w) (view w) (rc_result (new_recv root))"
    by (auto simp: stored_def new_recv_def intro!: exI [of _ "[]"])
  ultimately have "writing ([] @ cs) s' w' \<and> stored sha root ([] @ cs) (view w) (view w') (rc_result s')"
    using assms(2) by (rule recv_all_step)
  then show ?thesis by simp
qed

end

end
