(* ===== verification/SyncRepoSink.thy ===== *)
theory SyncRepoSink
  imports SyncIntegrity
begin

text \<open>
  The partial file behind the repo helper meets the same contract as the agent's own: the helper reads
  back exactly the messages the agent writes.
\<close>

section \<open>Framing\<close>

lemma atoi_itoa_nat: "atoi (itoa (int n)) = (if int n < 2 ^ 63 then Some (int n) else None)"
proof -
  obtain c r where cr: "nat_digits n = c # r" by (cases "nat_digits n") auto
  with nat_digits_all [of n] have "is_digit c" by simp
  then have "c \<noteq> CHR ''-''" "c \<noteq> CHR ''+''" by (simp_all add: digit_not_sign)
  then show ?thesis
    using cr digits_val_nat [of n] nat_digits_all [of n] by (simp add: atoi_def itoa_def)
qed

lemma itoa_plain: "CHR 0x0A \<notin> set (itoa (int n)) \<and> CHR '' '' \<notin> set (itoa (int n))"
  using nat_digits_all [of n] digit_not_sign by (fastforce simp: itoa_def list_all_iff)

lemma loop_end: "repo_loop sha root [] hp w = ([], HelperEOF, hp, w)"
  by (subst repo_loop.simps) simp

lemma loop_data:
  assumes "CHR 0x0A \<notin> set rel"
  shows "\<exists>x. repo_loop sha root (data_line b rel) hp w =
    (if \<not> int (length b) < 2 ^ 63 then ([], x, hp, w)
     else case helper_select root rel hp w of (hp, w) \<Rightarrow>
       if length b > 4 * syncChunkSize then ([], x, hp, w)
       else case helper_data b hp w of None \<Rightarrow> ([], HelperPanic, hp, w) | Some (hp, w) \<Rightarrow> ([], HelperEOF, hp, w))
    \<and> x \<noteq> HelperEOF"
proof -
  let ?n = "itoa (int (length b))"
  let ?line = "''d '' @ ?n @ '' '' @ rel"
  have "data_line b rel = ?line @ CHR 0x0A # b" by (simp add: data_line_def)
  then have c: "cut (data_line b rel) [CHR 0x0A] = (?line, b, True)"
    using cut_single [of "CHR 0x0A" ?line b] assms itoa_plain [of "length b"] by simp
  have l: "cut ?line '' '' = (''d'', ?n @ '' '' @ rel, True)"
    using cut_single [of "CHR '' ''" "''d''" "?n @ '' '' @ rel"] by simp
  have a: "cut (?n @ '' '' @ rel) '' '' = (?n, rel, True)"
    using cut_single [of "CHR '' ''" ?n rel] itoa_plain [of "length b"] by simp
  have ne: "data_line b rel \<noteq> []" by (simp add: data_line_def)
  have sz: "(4 * int syncChunkSize < int (length b)) = (4 * syncChunkSize < length b)" by linarith
  have nl: "\<not> length b < nat (int (length b))" "\<not> int (length b) < 0" by simp_all
  obtain hp1 w1 where s: "helper_select root rel hp w = (hp1, w1)" by (cases "helper_select root rel hp w")
  from c l a obtain line arg where c: "cut (data_line b rel) [CHR 0x0A] = (line, b, True)"
    and l: "cut line '' '' = (''d'', arg, True)" and a: "cut arg '' '' = (?n, rel, True)" by blast
  show ?thesis
    by (intro exI [of _ "bad_line line"], subst repo_loop.simps)
       (cases "helper_data b hp1 w1"; simp add: c l a ne s sz nl atoi_itoa_nat loop_end bad_line_def case_prod_beta)
qed

lemma loop_finish:
  assumes "CHR 0x0A \<notin> set rel" and "CHR 0x0A \<notin> set sm" and "CHR '' '' \<notin> set sm"
  shows "repo_loop sha root (end_line sm rel) hp w =
    (case helper_finish sha sm rel hp w of
       None \<Rightarrow> ([], HelperPanic, hp, w)
     | Some (hp, w) \<Rightarrow> (case draw w of
          (Some f, w) \<Rightarrow> ([], HelperError (err_text (fst f)), hp, w)
        | (None, w) \<Rightarrow> (case discard hp w of (hp', w) \<Rightarrow> ([helper_reply hp], HelperEOF, hp', w))))"
proof -
  let ?line = "''e '' @ sm @ '' '' @ rel"
  have "end_line sm rel = ?line @ CHR 0x0A # []" by (simp add: end_line_def)
  then have c: "cut (end_line sm rel) [CHR 0x0A] = (?line, [], True)"
    using cut_single [of "CHR 0x0A" ?line "[]"] assms by simp
  have l: "cut ?line '' '' = (''e'', sm @ '' '' @ rel, True)"
    using cut_single [of "CHR '' ''" "''e''" "sm @ '' '' @ rel"] by simp
  have a: "cut (sm @ '' '' @ rel) '' '' = (sm, rel, True)"
    using cut_single [of "CHR '' ''" sm rel] assms by simp
  have ne: "end_line sm rel \<noteq> []" by (simp add: end_line_def)
  from c l a obtain line arg where c: "cut (end_line sm rel) [CHR 0x0A] = (line, [], True)"
    and l: "cut line '' '' = (''e'', arg, True)" and a: "cut arg '' '' = (sm, rel, True)" by blast
  show ?thesis
    by (subst repo_loop.simps) (auto simp: c l a ne loop_end split: option.split prod.split)
qed

lemma loop_abort:
  assumes "CHR 0x0A \<notin> set rel"
  shows "repo_loop sha root (abort_line rel) hp w = (case discard hp w of (hp, w) \<Rightarrow> ([], HelperEOF, hp, w))"
proof -
  let ?line = "''a '' @ rel"
  have "abort_line rel = ?line @ CHR 0x0A # []" by (simp add: abort_line_def)
  then have c: "cut (abort_line rel) [CHR 0x0A] = (?line, [], True)"
    using cut_single [of "CHR 0x0A" ?line "[]"] assms by simp
  have l: "cut ?line '' '' = (''a'', rel, True)"
    using cut_single [of "CHR '' ''" "''a''" rel] by simp
  have ne: "abort_line rel \<noteq> []" by (simp add: abort_line_def)
  from c l obtain line where c: "cut (abort_line rel) [CHR 0x0A] = (line, [], True)"
    and l: "cut line '' '' = (''a'', rel, True)" by blast
  show ?thesis by (subst repo_loop.simps) (simp add: c l ne loop_end case_prod_beta)
qed

section \<open>The state of a transfer\<close>

definition telling :: "string \<Rightarrow> bool" where
  "telling e \<longleftrightarrow> (\<exists>c\<in>set e. \<not> is_space c)"

definition helper_fresh :: "helper \<Rightarrow> bool" where
  "helper_fresh hp \<longleftrightarrow> hp_cur hp = [] \<and> hp_f hp = None \<and> hp_failed hp = None"

definition helper_writes :: "string \<Rightarrow> path \<Rightarrow> string \<Rightarrow> helper \<Rightarrow> os \<Rightarrow> bool" where
  "helper_writes rel q b hp w \<longleftrightarrow>
     (b = [] \<and> helper_fresh hp)
     \<or> (hp_cur hp = rel \<and> (case hp_failed hp of
          Some e \<Rightarrow> telling e
        | None \<Rightarrow> hp_f hp = Some (partial_of q) \<and> hp_h hp = Some b \<and> os_disk w (partial_of q) = Some b))"

text \<open>Nothing more reaches the helper: the pipe is broken or the process has ended.\<close>

definition cut_off :: "repo_world \<Rightarrow> bool" where
  "cut_off w \<longleftrightarrow> rw_broken w \<or> rw_exit w \<noteq> None"

definition clean_names :: "repo_world \<Rightarrow> bool" where
  "clean_names w \<longleftrightarrow> (\<forall>f. hp_f (rw_helper w) = Some f \<longrightarrow> is_partial f)"

definition repo_view :: "repo_world \<Rightarrow> disk" where
  "repo_view w = visible (os_disk (rw_os w))"

definition repo_idle :: "repo_world \<Rightarrow> bool" where
  "repo_idle w \<longleftrightarrow> clean_names w \<and> (cut_off w \<or> helper_fresh (rw_helper w))"

definition repo_busy :: "repo_partial \<Rightarrow> repo_world \<Rightarrow> bool" where
  "repo_busy p w \<longleftrightarrow> clean_names w \<and> CHR 0x0A \<notin> set (rp_rel p)"

definition repo_holds :: "string \<Rightarrow> repo_partial \<Rightarrow> path \<Rightarrow> string \<Rightarrow> repo_world \<Rightarrow> bool" where
  "repo_holds root p q b w \<longleftrightarrow> repo_busy p w \<and> syncRelPath root (rp_rel p) = Inr q \<and> rp_hash p = b
     \<and> (cut_off w \<or> helper_writes (rp_rel p) q b (rw_helper w) (rw_os w))"

lemma discard_partial_view:
  assumes "discard hp w = (hp', w')" and "\<forall>f. hp_f hp = Some f \<longrightarrow> is_partial f"
  shows "visible (os_disk w') = visible (os_disk w) \<and> helper_fresh hp'"
proof -
  have "visible (fs(f := v)) = visible fs" if "is_partial f" for f v and fs :: disk
    using that by (auto simp: visible_def fun_eq_iff)
  with discard_disk [OF assms(1)] discard_state [OF assms(1)] assms(2) show ?thesis
    by (auto simp: helper_fresh_def)
qed

lemma visible_upd: "is_partial f \<Longrightarrow> visible (fs(f := v)) = visible fs"
  by (auto simp: visible_def fun_eq_iff)

lemma pipe_fault_cases:
  assumes "pipe_fault w = (e, w')"
  shows "rw_os w' = rw_os w \<and> rw_helper w' = rw_helper w \<and> rw_exit w' = rw_exit w
    \<and> (if e = None then \<not> rw_broken w \<and> \<not> rw_broken w' else rw_broken w')"
  using assms by (auto simp: pipe_fault_def split: if_splits list.splits)

lemma telling_err [simp]: "telling (err_text e)"
  by (cases e) (auto simp: telling_def is_space_def)

lemma telling_more [simp]: "telling ''no data received''" "telling (''checksum mismatch in the helper (got '' @ x)"
  by (auto simp: telling_def is_space_def)

lemma cut_err_reply:
  assumes "\<And>e. hp_failed hp = Some e \<Longrightarrow> telling e"
  shows "cut_err (helper_reply hp) = None \<longleftrightarrow> hp_failed hp = None"
proof (cases "hp_failed hp")
  case None
  have "cut_err ''ok'' = None" by code_simp
  with None show ?thesis by (simp add: helper_reply_def)
next
  case (Some e)
  let ?f = "\<lambda>c. if c = CHR 0x0A then CHR '' '' else c"
  from assms [OF Some] obtain c where c: "c \<in> set e" "\<not> is_space c" by (auto simp: telling_def)
  then have "c \<in> set (rev (map ?f e))" by (force simp: is_space_def)
  then have "dropWhile is_space (rev (map ?f e) @ rev ''err '') = dropWhile is_space (rev (map ?f e)) @ rev ''err ''"
    using c(2) by (rule dropWhile_append1)
  then have "trim_space (''err '' @ map ?f e) = ''err '' @ rev (dropWhile is_space (rev (map ?f e)))"
    by (simp add: trim_space_def is_space_def)
  moreover have "has_prefix ''err '' (''err '' @ x)" for x by (simp add: has_prefix_def)
  ultimately show ?thesis using Some by (simp only: helper_reply_def cut_err_def Let_def option.simps if_True)
qed

lemma syncRelPath_not_Nil: "syncRelPath root rel = Inr q \<Longrightarrow> rel \<noteq> []"
  by (auto simp: syncRelPath_def)

lemma select_writes:
  assumes hw: "helper_writes rel q b hp w" and q: "syncRelPath root rel = Inr q"
    and s: "helper_select root rel hp w = (hp1, w1)" and cl: "\<forall>f. hp_f hp = Some f \<longrightarrow> is_partial f"
  shows "hp_cur hp1 = rel \<and> (\<forall>f. hp_f hp1 = Some f \<longrightarrow> is_partial f) \<and> visible (os_disk w1) = visible (os_disk w)
    \<and> (case hp_failed hp1 of Some e \<Rightarrow> telling e
        | None \<Rightarrow> hp_f hp1 = Some (partial_of q) \<and> hp_h hp1 = Some b \<and> os_disk w1 (partial_of q) = Some b)"
proof (cases "rel = hp_cur hp")
  case True
  then have e: "hp1 = hp" "w1 = w" using s by (simp_all add: helper_select_def)
  have "\<not> helper_fresh hp" using syncRelPath_not_Nil [OF q] True by (auto simp: helper_fresh_def)
  then show ?thesis unfolding e using hw True cl by (simp add: helper_writes_def)
next
  case False
  with hw have f: "b = []" "helper_fresh hp" by (auto simp: helper_writes_def)
  then have d: "discard hp w = (hp, w)" by (cases hp) (simp add: helper_fresh_def discard_def)
  obtain e w2 where c: "createRepoFile (partial_of q) w = (e, w2)" by (cases "createRepoFile (partial_of q) w")
  show ?thesis using createRepoFile_disk [OF c] s False d q c f
    by (cases e) (auto simp: helper_select_def helper_fresh_def)
qed

lemma data_writes:
  assumes "hp_cur hp = rel" and "case hp_failed hp of Some e \<Rightarrow> telling e
        | None \<Rightarrow> hp_f hp = Some (partial_of q) \<and> hp_h hp = Some b \<and> os_disk w (partial_of q) = Some b"
  shows "\<exists>hp' w'. helper_data d hp w = Some (hp', w') \<and> helper_writes rel q (b @ d) hp' w' \<and> hp_f hp' = hp_f hp
    \<and> hp_cur hp' = rel \<and> visible (os_disk w') = visible (os_disk w)"
proof (cases "hp_failed hp")
  case (Some e)
  with assms show ?thesis by (auto simp: helper_data_def helper_writes_def)
next
  case None
  obtain e w1 where a: "os_append (partial_of q) d w = (e, w1)" by (cases "os_append (partial_of q) d w")
  from os_append_disk [OF a] assms None a show ?thesis
    by (cases e) (auto simp: helper_data_def helper_writes_def append_to_def)
qed

lemma finish_writes:
  assumes hw: "helper_writes rel q b hp w" and q: "syncRelPath root rel = Inr q"
    and cl: "\<forall>f. hp_f hp = Some f \<longrightarrow> is_partial f"
  shows "\<exists>hp' w'. helper_finish sha (hex_encode (sha b)) rel hp w = Some (hp', w')
    \<and> (\<forall>f. hp_f hp' = Some f \<longrightarrow> is_partial f) \<and> (\<forall>e. hp_failed hp' = Some e \<longrightarrow> telling e)
    \<and> visible (os_disk w') = (if hp_failed hp' = None then put (q, b) (visible (os_disk w)) else visible (os_disk w))"
proof (cases "rel = hp_cur hp \<and> hp_failed hp = None")
  case False
  then show ?thesis using hw cl syncRelPath_not_Nil [OF q]
    by (auto simp: helper_finish_def helper_writes_def helper_fresh_def)
next
  case True
  then have "\<not> helper_fresh hp" using syncRelPath_not_Nil [OF q] by (auto simp: helper_fresh_def)
  with hw True have s: "hp_f hp = Some (partial_of q)" "hp_h hp = Some b" "os_disk w (partial_of q) = Some b"
    by (auto simp: helper_writes_def)
  obtain e1 w1 where c: "os_close w = (e1, w1)" by (cases "os_close w")
  obtain e2 w2 where r: "os_rename (partial_of q) q w1 = (e2, w2)" by (cases "os_rename (partial_of q) q w1")
  have fin: "final_of (partial_of q) = q" using syncRelPath_plain [OF q] by (rule final_partial)
  from os_rename_disk [OF r] os_close_disk [OF c] s True c r fin show ?thesis
    by (cases e1; cases e2) (auto simp: helper_finish_def visible_put)
qed

section \<open>The contract\<close>

lemma feed_cut: "cut_off w \<Longrightarrow> \<not> rw_broken w \<Longrightarrow> feed sha root msg w = ([], w)"
  by (simp add: cut_off_def feed_def)

lemma repo_open_law:
  assumes "repo_idle w" and "syncRelPath root rel = Inr q" and "repo_open root' rel q t w = (r, t', w')"
  shows "repo_view w' = repo_view w \<and> (case r of Inl _ \<Rightarrow> repo_idle w' | Inr p \<Rightarrow> repo_holds root p q [] w')"
  using assms by (auto simp: repo_open_def repo_idle_def repo_holds_def repo_busy_def helper_writes_def split: if_splits)

lemma repo_write_law:
  assumes h: "repo_holds root p q b w" and r: "repo_write sha root p d w = (r, w')"
  shows "repo_view w' = repo_view w \<and> (case r of Inl _ \<Rightarrow> repo_busy p w' | Inr p' \<Rightarrow> repo_holds root p' q (b @ d) w')"
proof -
  obtain e w1 where f: "pipe_fault w = (e, w1)" by (cases "pipe_fault w")
  note fc = pipe_fault_cases [OF f]
  from h have b: "clean_names w1" "CHR 0x0A \<notin> set (rp_rel p)" "syncRelPath root (rp_rel p) = Inr q" "rp_hash p = b"
    using fc by (auto simp: repo_holds_def repo_busy_def clean_names_def)
  show ?thesis
  proof (cases e)
    case (Some x)
    with r f fc b show ?thesis by (auto simp: repo_write_def repo_view_def repo_busy_def)
  next
    case None
    let ?p = "p\<lparr>rp_hash := b @ d\<rparr>"
    have rw: "r = Inr ?p" "w' = snd (feed sha root (data_line d (rp_rel p)) w1)"
      using r f None b by (simp_all add: repo_write_def)
    show ?thesis
    proof (cases "cut_off w1")
      case True
      then have "w' = w1" using rw feed_cut None fc by simp
      with rw b True fc show ?thesis by (auto simp: repo_view_def repo_holds_def repo_busy_def)
    next
      case False
      let ?hp = "rw_helper w1" let ?os = "rw_os w1" let ?rel = "rp_rel p"
      have hw: "helper_writes ?rel q b ?hp ?os" using h fc False None by (auto simp: repo_holds_def cut_off_def)
      obtain hp2 os2 where s: "helper_select root ?rel ?hp ?os = (hp2, os2)" by (cases "helper_select root ?rel ?hp ?os")
      note sw' = select_writes [OF hw b(3) s b(1) [unfolded clean_names_def]]
      note sw = sw' [THEN conjunct1] sw' [THEN conjunct2, THEN conjunct1]
        sw' [THEN conjunct2, THEN conjunct2, THEN conjunct1] sw' [THEN conjunct2, THEN conjunct2, THEN conjunct2]
      from data_writes [OF sw(1,4), of d] obtain hp3 os3 where dw: "helper_data d hp2 os2 = Some (hp3, os3)"
        "helper_writes ?rel q (b @ d) hp3 os3" "hp_f hp3 = hp_f hp2" "visible (os_disk os3) = visible (os_disk os2)" by blast
      obtain x where lp0: "repo_loop sha root (data_line d ?rel) ?hp ?os =
          (if \<not> int (length d) < 2 ^ 63 then ([], x, ?hp, ?os)
           else case helper_select root ?rel ?hp ?os of (hp, w) \<Rightarrow>
             if length d > 4 * syncChunkSize then ([], x, hp, w)
             else case helper_data d hp w of None \<Rightarrow> ([], HelperPanic, hp, w) | Some (hp, w) \<Rightarrow> ([], HelperEOF, hp, w))"
        and x: "x \<noteq> HelperEOF"
        using loop_data [OF b(2), of sha root d ?hp ?os] by (elim exE conjE) (rule that)
      have lp: "repo_loop sha root (data_line d ?rel) ?hp ?os =
          (if \<not> int (length d) < 2 ^ 63 then ([], x, ?hp, ?os)
           else if length d > 4 * syncChunkSize then ([], x, hp2, os2) else ([], HelperEOF, hp3, os3))"
        unfolding lp0 by (simp add: s dw(1))
      have ne: "rw_exit w1 = None" using False by (simp add: cut_off_def)
      obtain hp4 os4 y where l: "repo_loop sha root (data_line d ?rel) ?hp ?os = ([], y, hp4, os4)"
        and y: "y = HelperEOF \<longrightarrow> hp4 = hp3 \<and> os4 = os3" and v4: "visible (os_disk os4) = visible (os_disk ?os)"
        and cl4: "\<forall>f. hp_f hp4 = Some f \<longrightarrow> is_partial f"
        using lp x dw sw b(1) by (auto simp: clean_names_def split: if_splits)
      obtain hp5 os5 where dc: "discard hp4 os4 = (hp5, os5)" by (cases "discard hp4 os4")
      from discard_partial_view [OF dc cl4] v4 have v5: "visible (os_disk os5) = visible (os_disk ?os)"
        and c5: "\<forall>f. hp_f hp5 = Some f \<longrightarrow> is_partial f" by (auto simp: helper_fresh_def)
      have w': "w' = (if y = HelperEOF then w1\<lparr>rw_helper := hp4, rw_os := os4\<rparr>
          else w1\<lparr>rw_helper := hp5, rw_os := os5, rw_exit := Some y\<rparr>)"
        using rw(2) ne l dc by (cases y) (simp_all add: feed_def)
      with rw(1) y dw v4 v5 c5 cl4 b fc show ?thesis
        by (auto simp: repo_view_def repo_holds_def repo_busy_def clean_names_def cut_off_def)
    qed
  qed
qed

lemma ended:
  assumes l: "repo_loop sha root msg (rw_helper w) (rw_os w) = (rs, y, hp, os)" and n: "rw_exit w = None"
    and cl: "\<forall>f. hp_f hp = Some f \<longrightarrow> is_partial f"
  shows "fst (feed sha root msg w) = rs \<and> clean_names (snd (feed sha root msg w))
    \<and> repo_view (snd (feed sha root msg w)) = visible (os_disk os)
    \<and> rw_broken (snd (feed sha root msg w)) = rw_broken w
    \<and> (y = HelperEOF \<longrightarrow> rw_helper (snd (feed sha root msg w)) = hp \<and> rw_exit (snd (feed sha root msg w)) = None)
    \<and> (y \<noteq> HelperEOF \<longrightarrow> rw_exit (snd (feed sha root msg w)) \<noteq> None)"
proof -
  obtain hp5 os5 where dc: "discard hp os = (hp5, os5)" by (cases "discard hp os")
  from discard_partial_view [OF dc cl] have "visible (os_disk os5) = visible (os_disk os)" "hp_f hp5 = None"
    by (auto simp: helper_fresh_def)
  with l n cl dc show ?thesis by (cases y) (auto simp: feed_def clean_names_def repo_view_def)
qed

lemma repo_abort_law:
  assumes b: "repo_busy p w"
  shows "repo_idle (repo_abort sha root p w) \<and> repo_view (repo_abort sha root p w) = repo_view w"
proof -
  obtain e w1 where f: "pipe_fault w = (e, w1)" by (cases "pipe_fault w")
  note fc = pipe_fault_cases [OF f]
  show ?thesis
  proof (cases "e \<noteq> None \<or> rw_exit w1 \<noteq> None")
    case True
    then have "repo_abort sha root p w = w1" "cut_off w1"
      using f fc by (cases e; auto simp: repo_abort_def feed_def cut_off_def)+
    with b fc show ?thesis by (simp add: repo_idle_def repo_view_def repo_busy_def clean_names_def)
  next
    case False
    obtain hp os where dc: "discard (rw_helper w1) (rw_os w1) = (hp, os)" by (cases "discard (rw_helper w1) (rw_os w1)")
    have cl: "\<forall>f. hp_f (rw_helper w1) = Some f \<longrightarrow> is_partial f" using b fc by (simp add: repo_busy_def clean_names_def)
    from discard_partial_view [OF dc cl] have d: "visible (os_disk os) = visible (os_disk (rw_os w1))" "helper_fresh hp" by simp_all
    have l: "repo_loop sha root (abort_line (rp_rel p)) (rw_helper w1) (rw_os w1) = ([], HelperEOF, hp, os)"
      using loop_abort [of "rp_rel p" sha root] b dc by (simp add: repo_busy_def)
    have "repo_abort sha root p w = snd (feed sha root (abort_line (rp_rel p)) w1)"
      using False f by (simp add: repo_abort_def)
    with ended [OF l] False d fc show ?thesis by (simp add: repo_idle_def repo_view_def helper_fresh_def)
  qed
qed

lemma repo_commit_law:
  assumes h: "repo_holds root p q b w" and r: "repo_commit sha root p w = (e, w')"
  shows "repo_idle w' \<and> (repo_view w' = put (q, b) (repo_view w) \<or> (e \<noteq> None \<and> repo_view w' = repo_view w))"
proof -
  let ?sm = "hex_encode (sha (rp_hash p))" let ?rel = "rp_rel p"
  obtain e1 w1 where f: "pipe_fault w = (e1, w1)" by (cases "pipe_fault w")
  note fc = pipe_fault_cases [OF f]
  from h have b: "clean_names w1" "CHR 0x0A \<notin> set ?rel" "syncRelPath root ?rel = Inr q" "rp_hash p = b"
    using fc by (auto simp: repo_holds_def repo_busy_def clean_names_def)
  show ?thesis
  proof (cases e1)
    case (Some x)
    with r f fc b show ?thesis by (auto simp: repo_commit_def repo_view_def repo_idle_def cut_off_def)
  next
    case None
    obtain rs w2 where fd: "feed sha root (end_line ?sm ?rel) w1 = (rs, w2)" by (cases "feed sha root (end_line ?sm ?rel) w1")
    obtain e3 w3 where f3: "pipe_fault w2 = (e3, w3)" by (cases "pipe_fault w2")
    note fc3 = pipe_fault_cases [OF f3]
    have r3: "w' = w3" "e = (case e3 of Some x \<Rightarrow> Some x
        | None \<Rightarrow> (case rs of [] \<Rightarrow> Some ''repo helper: EOF'' | reply # _ \<Rightarrow> cut_err reply))"
      using r f None fd f3 by (auto simp: repo_commit_def split: option.splits list.splits)
    have v3: "repo_view w3 = repo_view w2" "clean_names w3 = clean_names w2" "cut_off w2 \<Longrightarrow> cut_off w3"
      "rw_helper w3 = rw_helper w2"
      using fc3 by (auto simp: repo_view_def clean_names_def cut_off_def split: if_splits)
    show ?thesis
    proof (cases "cut_off w1")
      case True
      then have "rs = []" "w2 = w1" using fd feed_cut None fc by simp_all
      with r3 v3 True b fc show ?thesis by (auto simp: repo_idle_def repo_view_def split: option.splits)
    next
      case False
      let ?hp = "rw_helper w1" let ?os = "rw_os w1"
      have hw: "helper_writes ?rel q b ?hp ?os" using h fc False None by (auto simp: repo_holds_def cut_off_def)
      have ne: "rw_exit w1 = None" using False by (simp add: cut_off_def)
      from finish_writes [OF hw b(3) b(1) [unfolded clean_names_def], of sha] obtain hp2 os2 where
        fin: "helper_finish sha ?sm ?rel ?hp ?os = Some (hp2, os2)" and cl2: "\<forall>f. hp_f hp2 = Some f \<longrightarrow> is_partial f"
        and tl: "\<forall>e. hp_failed hp2 = Some e \<longrightarrow> telling e"
        and v2: "visible (os_disk os2) = (if hp_failed hp2 = None then put (q, b) (repo_view w) else repo_view w)"
        using b(4) fc by (auto simp: repo_view_def)
      obtain df os3 where dr: "draw os2 = (df, os3)" by (cases "draw os2")
      obtain hp4 os4 where dc: "discard hp2 os3 = (hp4, os4)" by (cases "discard hp2 os3")
      from discard_partial_view [OF dc cl2] have d4: "visible (os_disk os4) = visible (os_disk os2)" "helper_fresh hp4"
        using draw_disk [OF dr] by simp_all
      have lf: "repo_loop sha root (end_line ?sm ?rel) ?hp ?os =
          (case df of Some f \<Rightarrow> ([], HelperError (err_text (fst f)), hp2, os3)
           | None \<Rightarrow> ([helper_reply hp2], HelperEOF, hp4, os4))"
        using hex_encode_plain [of "sha (rp_hash p)"] fin dr dc by (simp add: loop_finish [OF b(2)] split: option.split)
      show ?thesis
      proof (cases df)
        case (Some x)
        with lf have l: "repo_loop sha root (end_line ?sm ?rel) ?hp ?os = ([], HelperError (err_text (fst x)), hp2, os3)" by simp
        from ended [OF l ne cl2] fd have "rs = []" "clean_names w2" "repo_view w2 = visible (os_disk os3)" "cut_off w2"
          by (auto simp: cut_off_def)
        with r3 v3 v2 draw_disk [OF dr] show ?thesis by (auto simp: repo_idle_def split: option.splits if_splits)
      next
        case None
        with lf have l: "repo_loop sha root (end_line ?sm ?rel) ?hp ?os = ([helper_reply hp2], HelperEOF, hp4, os4)" by simp
        have cl4: "\<forall>f. hp_f hp4 = Some f \<longrightarrow> is_partial f" using d4(2) by (simp add: helper_fresh_def)
        from ended [OF l ne cl4] fd have s2: "rs = [helper_reply hp2]" "clean_names w2" "repo_view w2 = visible (os_disk os2)"
          "rw_helper w2 = hp4" using d4 by auto
        have "e = None \<Longrightarrow> hp_failed hp2 = None"
          using r3(2) s2(1) cut_err_reply [of hp2] tl by (auto split: option.splits)
        with s2 v3 r3(1) v2 d4(2) show ?thesis by (auto simp: repo_idle_def)
      qed
    qed
  qed
qed

interpretation repo: partial_sink "repo_sink sha root" root repo_view repo_idle "repo_holds root" repo_busy for sha root
proof
  show "repo_view w' = repo_view w \<and> (case r of Inl _ \<Rightarrow> repo_idle w' | Inr p \<Rightarrow> repo_holds root p q [] w')"
    if "repo_idle w" "syncRelPath root rel = Inr q" "sk_open (repo_sink sha root) root rel q t w = (r, t', w')"
    for w rel q t r t' w'
    using that repo_open_law by (auto simp: repo_sink_def)
  show "repo_busy p w" if "repo_holds root p q b w" for p q b w using that by (simp add: repo_holds_def)
  show "repo_view w' = repo_view w \<and> (case r of Inl _ \<Rightarrow> repo_busy p w' | Inr p' \<Rightarrow> repo_holds root p' q (b @ d) w')"
    if "repo_holds root p q b w" "sk_write (repo_sink sha root) p d w = (r, w')" for p q b w d r w'
    using that repo_write_law by (simp add: repo_sink_def)
  show "repo_idle w' \<and> (repo_view w' = put (q, b) (repo_view w) \<or> (e \<noteq> None \<and> repo_view w' = repo_view w))"
    if "repo_holds root p q b w" "sk_commit (repo_sink sha root) p w = (e, w')" for p q b w e w'
    using that repo_commit_law by (simp add: repo_sink_def)
  show "repo_idle (sk_abort (repo_sink sha root) p w) \<and> repo_view (sk_abort (repo_sink sha root) p w) = repo_view w"
    if "repo_busy p w" for p w
    using that repo_abort_law by (simp add: repo_sink_def)
qed

end
