(* ===== verification/SyncTransferProps.thy ===== *)
theory SyncTransferProps
  imports SyncRepoSink
begin

text \<open>
  The properties of a file transfer: whole files only, for both kinds of partial file, and the round
  trip from the sender's disk to the receiver's when nothing fails.
\<close>

section \<open>When nothing fails\<close>

lemma recv_all_append:
  "recv_all sha sk (as @ bs) s w = (case recv_all sha sk as s w of (s, w) \<Rightarrow> recv_all sha sk bs s w)"
  by (induction as arbitrary: s w) (simp_all add: case_prod_beta)

lemma send_loop_none: "snd (send_loop sha (\<lambda>_. None) syncID rel None content sent idx) = None"
proof (induction content arbitrary: sent idx rule: length_induct)
  case (1 content)
  have "length (take syncChunkSize content) = syncChunkSize \<Longrightarrow> length (drop syncChunkSize content) < length content"
    by (simp add: syncChunkSize_def)
  with 1 show ?case by (subst send_loop.simps) (auto simp: Let_def case_prod_beta)
qed

context reliable_sink
begin

definition at_chunk :: "string \<Rightarrow> path \<Rightarrow> string \<Rightarrow> nat \<Rightarrow> 'p recv \<Rightarrow> 'w \<Rightarrow> bool" where
  "at_chunk rel q sent idx s w \<longleftrightarrow> rc_root s = root \<and> rc_skip s = [] \<and> rc_next s = int idx \<and> reliable w
     \<and> (if idx = 0 then rc_tmp s = None \<and> idle w \<and> sent = []
        else rc_path s = rel \<and> rc_hash s = sent \<and> (\<exists>p. rc_tmp s = Some p \<and> holds p q sent w))"

lemma sure_opened:
  assumes a: "at_chunk rel q sent idx s w" and q: "syncRelPath root rel = Inr q" "CHR 0x0A \<notin> set rel"
    and c: "ck_Index c = int idx" "ck_Path c = rel"
  shows "\<exists>s1 p w1. recv_open sk c s w = (None, s1, w1) \<and> rc_tmp s1 = Some p \<and> holds p q sent w1 \<and> rc_hash s1 = sent
    \<and> rc_next s1 = int idx \<and> rc_path s1 = rel \<and> reliable w1 \<and> view w1 = view w \<and> rc_root s1 = root \<and> rc_skip s1 = []
    \<and> rc_result s1 = rc_result s"
proof (cases "idx = 0")
  case True
  with a have i: "idle w" "reliable w" "rc_root s = root" "rc_skip s = []" "sent = []" by (auto simp: at_chunk_def)
  from sure_open [OF i(1,2) q, of "rc_repairTried s"] obtain p t' w1 where
    o: "sk_open sk root rel q (rc_repairTried s) w = (Inr p, t', w1)" "reliable w1" by blast
  from open_law [OF i(1) q(1) o(1)] o i q c True show ?thesis by (auto simp: recv_open_def)
next
  case False
  with a c show ?thesis by (auto simp: at_chunk_def recv_open_def)
qed

lemma sure_chunk:
  assumes a: "at_chunk rel q sent idx s w" and q: "syncRelPath root rel = Inr q" "CHR 0x0A \<notin> set rel"
    and c: "ck_Index c = int idx" "ck_Path c = rel" "\<not> ck_Gone c" "ck_Err c = []" "length (ck_Data c) \<le> syncChunkSize"
      "ck_EOF c \<longrightarrow> ck_SHA256 c = hex_encode (sha (sent @ ck_Data c))"
    and r: "Chunk sha sk c s w = (s', w')"
  shows "if ck_EOF c
    then at_chunk rel q [] 0 s' w' \<and> view w' = put (q, sent @ ck_Data c) (view w)
      \<and> rc_result s' = (rc_result s)\<lparr>fr_Copied := fr_Copied (rc_result s) + 1\<rparr>
    else at_chunk rel q (sent @ ck_Data c) (Suc idx) s' w' \<and> view w' = view w \<and> rc_result s' = rc_result s"
proof -
  from sure_opened [OF a q c(1,2)] obtain s1 p w1 where o: "recv_open sk c s w = (None, s1, w1)" "rc_tmp s1 = Some p"
    "holds p q sent w1" "rc_hash s1 = sent" "rc_next s1 = int idx" "rc_path s1 = rel" "reliable w1" "view w1 = view w"
    "rc_root s1 = root" "rc_skip s1 = []" "rc_result s1 = rc_result s" by blast
  from sure_write [OF o(7,3) c(5)] obtain p2 w2 where
    wr: "sk_write sk p (ck_Data c) w1 = (Inr p2, w2)" "reliable w2" "ready p2 w2" by blast
  from write_law [OF o(3) wr(1)] have h2: "holds p2 q (sent @ ck_Data c) w2" "view w2 = view w" using o by simp_all
  let ?s2 = "s1\<lparr>rc_tmp := Some p2, rc_hash := sent @ ck_Data c, rc_next := int idx + 1\<rparr>"
  have w2: "recv_write sk c s1 w1 = (None, ?s2, w2)" using o wr by (simp add: recv_write_def)
  have own: "\<not> (rc_tmp s \<noteq> None \<and> (ck_Index c = 0 \<or> ck_Path c \<noteq> rc_path s))" "rc_skip s = []" "ck_Index c = rc_next s"
    "\<not> (0 < ck_Index c \<and> rc_tmp s = None)"
    using a c by (auto simp: at_chunk_def split: if_splits)
  have nc: "\<not> (ck_Index c \<noteq> rc_next s \<or> (0 < ck_Index c \<and> rc_tmp s = None))" using own by blast
  have ne: "\<not> ck_Err c \<noteq> []" using c(4) by simp
  have rcv: "recv_chunk sha sk c s w = recv_complete sha sk c ?s2 w2"
    unfolding recv_chunk_def if_not_P [OF c(3)] if_not_P [OF nc] if_not_P [OF ne] by (simp add: o(1) w2)
  have ns: "\<not> (rc_skip s \<noteq> [] \<and> ck_Path c = rc_skip s)" using own(2) by simp
  have ch: "Chunk sha sk c s w = (case recv_complete sha sk c ?s2 w2 of
      (None, s, w) \<Rightarrow> (s, w)
    | (Some e, s, w) \<Rightarrow> (case recv_abort sk (ck_Path c @ '': '' @ e) s w of
         (s, w) \<Rightarrow> (if \<not> ck_EOF c then s\<lparr>rc_skip := ck_Path c\<rparr> else s, w)))"
    unfolding Chunk_def if_not_P [OF own(1)] if_not_P [OF ns] by (simp add: rcv)
  show ?thesis
  proof (cases "ck_EOF c")
    case False
    then have "s' = ?s2" "w' = w2" using r ch by (simp_all add: recv_complete_def)
    with False h2 o wr show ?thesis by (simp add: at_chunk_def)
  next
    case True
    from sure_commit [OF wr(2) h2(1) wr(3)] obtain w3 where cm: "sk_commit sk p2 w2 = (None, w3)" "reliable w3" by blast
    from commit_law [OF h2(1) cm(1)] have "idle w3" "view w3 = put (q, sent @ ck_Data c) (view w)" using h2 by auto
    with r ch True c(6) cm o show ?thesis by (auto simp: recv_complete_def at_chunk_def)
  qed
qed

lemma sure_file:
  assumes "at_chunk rel q sent idx s w" and "syncRelPath root rel = Inr q" "CHR 0x0A \<notin> set rel"
    and "recv_all sha sk (fst (send_loop sha (\<lambda>_. None) syncID rel None content sent idx)) s w = (s', w')"
  shows "at_chunk rel q [] 0 s' w' \<and> view w' = put (q, sent @ content) (view w)
    \<and> rc_result s' = (rc_result s)\<lparr>fr_Copied := fr_Copied (rc_result s) + 1\<rparr>"
  using assms
proof (induction content arbitrary: sent idx s w rule: length_induct)
  case (1 content)
  let ?buf = "take syncChunkSize content"
  let ?c = "\<lparr>ck_SyncID = syncID, ck_Path = rel, ck_Index = int idx, ck_Data = ?buf, ck_EOF = False,
               ck_SHA256 = [], ck_Gone = False, ck_Err = []\<rparr>"
  let ?e = "?c\<lparr>ck_EOF := True, ck_SHA256 := hex_encode (sha (sent @ ?buf))\<rparr>"
  show ?case
  proof (cases "length ?buf = syncChunkSize")
    case True
    let ?rest = "drop syncChunkSize content"
    obtain cs r where l: "send_loop sha (\<lambda>_. None) syncID rel None ?rest (sent @ ?buf) (Suc idx) = (cs, r)"
      by (cases "send_loop sha (\<lambda>_. None) syncID rel None ?rest (sent @ ?buf) (Suc idx)")
    have sl: "fst (send_loop sha (\<lambda>_. None) syncID rel None content sent idx) = ?c # cs"
      by (subst send_loop.simps) (simp only: Let_def True l if_True simp_thms option.simps case_prod_conv fst_conv)
    obtain s1 w1 where c: "Chunk sha sk ?c s w = (s1, w1)" by (cases "Chunk sha sk ?c s w")
    from sure_chunk [OF 1(2,3,4) _ _ _ _ _ _ c] have st: "at_chunk rel q (sent @ ?buf) (Suc idx) s1 w1"
      "view w1 = view w" "rc_result s1 = rc_result s" by simp_all
    have "length ?rest < length content" using True by (simp add: syncChunkSize_def)
    moreover have "recv_all sha sk (fst (send_loop sha (\<lambda>_. None) syncID rel None ?rest (sent @ ?buf) (Suc idx))) s1 w1 = (s', w')"
      using 1(5) sl c l by simp
    ultimately show ?thesis using 1(1) st 1(3,4) by (metis append.assoc append_take_drop_id)
  next
    case False
    then have all: "?buf = content" by simp
    have sl: "fst (send_loop sha (\<lambda>_. None) syncID rel None content sent idx) = [?e]"
      by (subst send_loop.simps) (simp only: Let_def False if_False option.simps fst_conv)
    then have c: "Chunk sha sk ?e s w = (s', w')" using 1(5) by (cases "Chunk sha sk ?e s w") simp
    from sure_chunk [OF 1(2,3,4) _ _ _ _ _ _ c] all show ?thesis by simp
  qed
qed

lemma sure_files:
  assumes "at_chunk x y [] 0 s w"
    and "\<forall>rel\<in>set rels. CHR 0x0A \<notin> set rel \<and> syncRelPath root rel = Inr (dest rel)
          \<and> (\<exists>q. syncRelPath src rel = Inr q \<and> files q = Opened (content rel) None)"
    and "SendSyncFiles sha (\<lambda>_. None) files syncID src rels = (cs, r)" and "recv_all sha sk cs s w = (s', w')"
  shows "r = None \<and> view w' = put_all (map (\<lambda>rel. (dest rel, content rel)) rels) (view w)
    \<and> rc_result s' = (rc_result s)\<lparr>fr_Copied := fr_Copied (rc_result s) + int (length rels)\<rparr>"
  using assms
proof (induction rels arbitrary: x y s w cs r)
  case Nil
  then show ?case by simp
next
  case (Cons rel rels)
  then obtain q where q: "syncRelPath src rel = Inr q" "files q = Opened (content rel) None"
    and d: "syncRelPath root rel = Inr (dest rel)" "CHR 0x0A \<notin> set rel" by auto
  let ?l = "send_loop sha (\<lambda>_. None) syncID rel None (content rel) [] 0"
  obtain cs2 r2 where t: "SendSyncFiles sha (\<lambda>_. None) files syncID src rels = (cs2, r2)"
    by (cases "SendSyncFiles sha (\<lambda>_. None) files syncID src rels")
  have l: "?l = (fst ?l, None)" using send_loop_none [of sha syncID rel "content rel" "[]" 0] by (metis prod.collapse)
  have cs: "cs = fst ?l @ cs2" "r = r2"
    using Cons.prems(3) q t by (subst (asm) SendSyncFiles.simps, simp add: sendSyncFile_def, subst (asm) l, simp)+
  obtain s1 w1 where r1: "recv_all sha sk (fst ?l) s w = (s1, w1)" by (cases "recv_all sha sk (fst ?l) s w")
  have a0: "at_chunk rel (dest rel) [] 0 s w" using Cons.prems(1) by (simp add: at_chunk_def)
  from sure_file [OF a0 d r1] have f: "at_chunk rel (dest rel) [] 0 s1 w1" "view w1 = put (dest rel, content rel) (view w)"
    "rc_result s1 = (rc_result s)\<lparr>fr_Copied := fr_Copied (rc_result s) + 1\<rparr>" by simp_all
  have "recv_all sha sk cs2 s1 w1 = (s', w')" using Cons.prems(4) cs r1 by (simp add: recv_all_append)
  from Cons.IH [OF f(1) _ t this] Cons.prems(2) f cs(2) show ?case by (simp add: put_all_def)
qed

lemma sure_transfer:
  assumes "idle w" and "reliable w"
    and "\<forall>rel\<in>set rels. CHR 0x0A \<notin> set rel \<and> syncRelPath root rel = Inr (dest rel)
          \<and> (\<exists>q. syncRelPath src rel = Inr q \<and> files q = Opened (content rel) None)"
    and "SendSyncFiles sha (\<lambda>_. None) files syncID src rels = (cs, r)"
    and "recv_all sha sk cs (new_recv root) w = (s', w')"
  shows "r = None \<and> view w' = put_all (map (\<lambda>rel. (dest rel, content rel)) rels) (view w)
    \<and> rc_result s' = \<lparr>fr_Copied = int (length rels), fr_Skipped = 0, fr_Failed = [], fr_Errors = 0\<rparr>"
proof -
  have "at_chunk [] [] [] 0 (new_recv root) w" using assms(1,2) by (simp add: at_chunk_def new_recv_def)
  from sure_files [OF this assms(3-5)] show ?thesis by (simp add: new_recv_def)
qed

end

section \<open>The helper when nothing fails\<close>

definition repo_sure :: "repo_world \<Rightarrow> bool" where
  "repo_sure w \<longleftrightarrow> rw_faults w = [] \<and> os_faults (rw_os w) = [] \<and> \<not> cut_off w \<and> hp_failed (rw_helper w) = None"

definition repo_ready :: "repo_partial \<Rightarrow> repo_world \<Rightarrow> bool" where
  "repo_ready p w \<longleftrightarrow> hp_cur (rw_helper w) = rp_rel p"

lemma no_pipe_fault: "repo_sure w \<Longrightarrow> pipe_fault w = (None, w)"
  by (simp add: repo_sure_def pipe_fault_def cut_off_def)

lemma sure_select:
  assumes "helper_writes rel q b hp w" and "hp_failed hp = None" and "os_faults w = []" and q: "syncRelPath root rel = Inr q"
  shows "\<exists>hp1 w1. helper_select root rel hp w = (hp1, w1) \<and> hp_cur hp1 = rel \<and> hp_failed hp1 = None \<and> os_faults w1 = []
    \<and> hp_f hp1 = Some (partial_of q) \<and> (\<exists>h. hp_h hp1 = Some h)"
proof (cases "rel = hp_cur hp")
  case True
  then have "\<not> helper_fresh hp" using syncRelPath_not_Nil [OF q] by (auto simp: helper_fresh_def)
  with True assms show ?thesis by (auto simp: helper_writes_def helper_select_def)
next
  case False
  with assms have "helper_fresh hp" by (auto simp: helper_writes_def)
  then have "discard hp w = (hp, w)" by (cases hp) (simp add: helper_fresh_def discard_def)
  with False assms show ?thesis
    by (simp add: helper_select_def createRepoFile_def os_mkdir_def os_create_def)
qed

lemma repo_sure_write:
  assumes s: "repo_sure w" and h: "repo_holds root p q b w" and d: "length d \<le> syncChunkSize"
  shows "\<exists>p' w'. repo_write sha root p d w = (Inr p', w') \<and> repo_sure w' \<and> repo_ready p' w'"
proof -
  let ?rel = "rp_rel p"
  have c: "\<not> cut_off w" and w: "helper_writes ?rel q b (rw_helper w) (rw_os w)" and q: "syncRelPath root ?rel = Inr q"
    and nl: "CHR 0x0A \<notin> set ?rel"
    using s h by (auto simp: repo_sure_def repo_holds_def repo_busy_def)
  from sure_select [OF w _ _ q] s obtain hp1 w1 h1 where sel: "helper_select root ?rel (rw_helper w) (rw_os w) = (hp1, w1)"
    "hp_cur hp1 = ?rel" "hp_failed hp1 = None" "os_faults w1 = []" "hp_f hp1 = Some (partial_of q)" "hp_h hp1 = Some h1"
    by (auto simp: repo_sure_def)
  let ?hp2 = "hp1\<lparr>hp_h := Some (h1 @ d), hp_failed := None\<rparr>" let ?w2 = "w1\<lparr>os_disk := append_to (partial_of q) d (os_disk w1)\<rparr>"
  have dt: "helper_data d hp1 w1 = Some (?hp2, ?w2)" using sel by (simp add: helper_data_def os_append_def)
  obtain x where "repo_loop sha root (data_line d ?rel) (rw_helper w) (rw_os w) =
      (if \<not> int (length d) < 2 ^ 63 then ([], x, rw_helper w, rw_os w)
       else case helper_select root ?rel (rw_helper w) (rw_os w) of (hp, w) \<Rightarrow>
         if length d > 4 * syncChunkSize then ([], x, hp, w)
         else case helper_data d hp w of None \<Rightarrow> ([], HelperPanic, hp, w) | Some (hp, w) \<Rightarrow> ([], HelperEOF, hp, w))"
    and "x \<noteq> HelperEOF"
    using loop_data [OF nl, of sha root d "rw_helper w" "rw_os w"] by (elim exE conjE) (rule that)
  moreover have "int (length d) < 2 ^ 63" "\<not> length d > 4 * syncChunkSize" using d by (simp_all add: syncChunkSize_def)
  ultimately have "repo_loop sha root (data_line d ?rel) (rw_helper w) (rw_os w) = ([], HelperEOF, ?hp2, ?w2)"
    by (simp add: sel(1) dt)
  with c have "feed sha root (data_line d ?rel) w = ([], w\<lparr>rw_helper := ?hp2, rw_os := ?w2\<rparr>)"
    by (simp add: feed_def cut_off_def)
  with no_pipe_fault [OF s] s sel show ?thesis
    by (auto simp: repo_write_def repo_sure_def repo_ready_def cut_off_def)
qed

lemma repo_sure_commit:
  assumes s: "repo_sure w" and h: "repo_holds root p q b w" and rd: "repo_ready p w"
  shows "\<exists>w'. repo_commit sha root p w = (None, w') \<and> repo_sure w'"
proof -
  let ?rel = "rp_rel p" let ?hp = "rw_helper w" let ?os = "rw_os w" let ?sm = "hex_encode (sha b)"
  have c: "\<not> cut_off w" and w: "helper_writes ?rel q b ?hp ?os" and q: "syncRelPath root ?rel = Inr q"
    and nl: "CHR 0x0A \<notin> set ?rel" and b: "rp_hash p = b"
    using s h by (auto simp: repo_sure_def repo_holds_def repo_busy_def)
  have "\<not> helper_fresh ?hp" using syncRelPath_not_Nil [OF q] rd by (auto simp: helper_fresh_def repo_ready_def)
  with w s have st: "hp_f ?hp = Some (partial_of q)" "hp_h ?hp = Some b" "os_disk ?os (partial_of q) = Some b"
    "hp_failed ?hp = None" "hp_cur ?hp = ?rel" "os_faults ?os = []"
    by (auto simp: helper_writes_def repo_sure_def)
  let ?os2 = "?os\<lparr>os_disk := (os_disk ?os)(partial_of q := None, final_of (partial_of q) \<mapsto> b)\<rparr>"
  have fin: "helper_finish sha ?sm ?rel ?hp ?os = Some (?hp\<lparr>hp_f := None\<rparr>, ?os2)"
    using st by (simp add: helper_finish_def os_close_def os_rename_def)
  let ?hp3 = "?hp\<lparr>hp_cur := [], hp_f := None, hp_failed := None\<rparr>"
  have "repo_loop sha root (end_line ?sm ?rel) ?hp ?os = ([helper_reply (?hp\<lparr>hp_f := None\<rparr>)], HelperEOF, ?hp3, ?os2)"
    using hex_encode_plain [of "sha b"] fin st by (simp add: loop_finish [OF nl] discard_def)
  moreover have "helper_reply (?hp\<lparr>hp_f := None\<rparr>) = ''ok''" using st by (simp add: helper_reply_def)
  ultimately have "feed sha root (end_line ?sm ?rel) w = ([''ok''], w\<lparr>rw_helper := ?hp3, rw_os := ?os2\<rparr>)"
    using c by (simp add: feed_def cut_off_def)
  moreover have "repo_sure (w\<lparr>rw_helper := ?hp3, rw_os := ?os2\<rparr>)" using s by (simp add: repo_sure_def cut_off_def)
  moreover have "cut_err ''ok'' = None" by code_simp
  ultimately show ?thesis using no_pipe_fault [OF s] b no_pipe_fault [of "w\<lparr>rw_helper := ?hp3, rw_os := ?os2\<rparr>"]
    by (simp add: repo_commit_def)
qed

interpretation repo: reliable_sink "repo_sink sha root" root repo_view repo_idle "repo_holds root" repo_busy
  repo_sure repo_ready for sha root
proof
  show "\<exists>p t' w'. sk_open (repo_sink sha root) root rel q t w = (Inr p, t', w') \<and> repo_sure w'"
    if "repo_sure w" "CHR 0x0A \<notin> set rel" for w rel q t
    using that by (simp add: repo_sink_def repo_open_def)
  show "\<exists>p' w'. sk_write (repo_sink sha root) p d w = (Inr p', w') \<and> repo_sure w' \<and> repo_ready p' w'"
    if "repo_sure w" "repo_holds root p q b w" "length d \<le> syncChunkSize" for w p q b d
    using that repo_sure_write by (simp add: repo_sink_def)
  show "\<exists>w'. sk_commit (repo_sink sha root) p w = (None, w') \<and> repo_sure w'"
    if "repo_sure w" "repo_holds root p q b w" "repo_ready p w" for w p q b
    using that repo_sure_commit by (simp add: repo_sink_def)
qed

section \<open>The properties\<close>

text \<open>
  C6: the receiver refines the atomic writing of whole files.  Whatever chunks arrive and whatever calls
  fail, what the disk shows changes from start to end by a sequence of whole files put in place, each the
  data of a gapless run of its chunks that ends with the checksum of that data; the files counted as
  copied are at most these, and exactly these when no error is reported.  This holds for files the
  agent writes itself and for files it writes through the repo helper.
\<close>

theorem received_files_whole:
  shows "(recv_all sha (local_sink af) cs (new_recv root) w = (s, w') \<longrightarrow>
      stored sha root cs (local_view w) (local_view w') (rc_result s))
    \<and> (repo_idle v \<longrightarrow> recv_all sha (repo_sink sha root) cs (new_recv root) v = (t, v') \<longrightarrow>
      stored sha root cs (repo_view v) (repo_view v') (rc_result t))"
  using local.received repo.received by blast

definition sample_chunk :: "string \<Rightarrow> nat \<Rightarrow> string \<Rightarrow> string \<Rightarrow> sync_chunk" where
  "sample_chunk path i d sm = \<lparr>ck_SyncID = ''s'', ck_Path = path, ck_Index = int i, ck_Data = d, ck_EOF = sm \<noteq> [],
     ck_SHA256 = sm, ck_Gone = False, ck_Err = []\<rparr>"

definition empty_os :: os where
  "empty_os = \<lparr>os_disk = Map.empty, os_faults = [], os_ran = [], os_repaired = []\<rparr>"

definition empty_repo :: repo_world where
  "empty_repo = \<lparr>rw_os = empty_os, rw_helper = helper_init, rw_exit = None, rw_broken = False, rw_faults = []\<rparr>"

lemma empty_repo_ok: "repo_idle empty_repo \<and> repo_sure empty_repo"
  by (simp add: empty_repo_def empty_os_def repo_idle_def repo_sure_def clean_names_def helper_init_def
      helper_fresh_def cut_off_def)

theorem received_files_whole_witness:
  "stored id ''/r'' [sample_chunk ''a'' 0 ''x'' [], sample_chunk ''a'' 1 ''y'' (hex_encode ''xy''), sample_chunk ''b'' 1 ''z'' []]
     (repo_view empty_repo)
     (repo_view (snd (recv_all id (repo_sink id ''/r'')
        [sample_chunk ''a'' 0 ''x'' [], sample_chunk ''a'' 1 ''y'' (hex_encode ''xy''), sample_chunk ''b'' 1 ''z'' []]
        (new_recv ''/r'') empty_repo)))
     \<lparr>fr_Copied = 1, fr_Skipped = 0, fr_Failed = [''b: got chunk 1, expected 0''], fr_Errors = 1\<rparr>"
proof -
  let ?cs = "[sample_chunk ''a'' 0 ''x'' [], sample_chunk ''a'' 1 ''y'' (hex_encode ''xy''), sample_chunk ''b'' 1 ''z'' []]"
  obtain t v' where r: "recv_all id (repo_sink id ''/r'') ?cs (new_recv ''/r'') empty_repo = (t, v')"
    by (cases "recv_all id (repo_sink id ''/r'') ?cs (new_recv ''/r'') empty_repo")
  have "rc_result (fst (recv_all id (repo_sink id ''/r'') ?cs (new_recv ''/r'') empty_repo)) =
      \<lparr>fr_Copied = 1, fr_Skipped = 0, fr_Failed = [''b: got chunk 1, expected 0''], fr_Errors = 1\<rparr>" by code_simp
  with received_files_whole [of id undefined ?cs "''/r''" empty_os undefined undefined empty_repo t v'] r empty_repo_ok
  show ?thesis by simp
qed

text \<open>
  C19: a transfer in which nothing fails delivers: the files a node sends, each readable at its path under
  the sender's folder, are afterwards what the receiver's disk shows at the same paths under its folder,
  every one is counted as copied, and no error is reported.  Sizes are arbitrary: a file may take any
  number of chunks, and one whose size is a multiple of the chunk size ends with an empty one.
\<close>

theorem transfer_roundtrip:
  assumes files: "\<forall>rel\<in>set rels. CHR 0x0A \<notin> set rel \<and> syncRelPath root rel = Inr (dest rel)
          \<and> (\<exists>q. syncRelPath src rel = Inr q \<and> files q = Opened (content rel) None)"
    and send: "SendSyncFiles sha (\<lambda>_. None) files syncID src rels = (cs, r)"
  shows "r = None
    \<and> (no_faults w \<longrightarrow> recv_all sha (local_sink af) cs (new_recv root) w = (s, w') \<longrightarrow>
        local_view w' = put_all (map (\<lambda>rel. (dest rel, content rel)) rels) (local_view w)
        \<and> rc_result s = \<lparr>fr_Copied = int (length rels), fr_Skipped = 0, fr_Failed = [], fr_Errors = 0\<rparr>)
    \<and> (repo_idle v \<longrightarrow> repo_sure v \<longrightarrow> recv_all sha (repo_sink sha root) cs (new_recv root) v = (t, v') \<longrightarrow>
        repo_view v' = put_all (map (\<lambda>rel. (dest rel, content rel)) rels) (repo_view v)
        \<and> rc_result t = \<lparr>fr_Copied = int (length rels), fr_Skipped = 0, fr_Failed = [], fr_Errors = 0\<rparr>)"
proof -
  obtain s1 w1 where "recv_all sha (local_sink af) cs (new_recv root) empty_os = (s1, w1)"
    by (cases "recv_all sha (local_sink af) cs (new_recv root) empty_os")
  moreover have "no_faults empty_os" by (simp add: no_faults_def empty_os_def)
  ultimately have "r = None" using local.sure_transfer [OF _ _ files send] by blast
  with local.sure_transfer [OF _ _ files send] repo.sure_transfer [OF _ _ files send] show ?thesis by blast
qed

theorem transfer_roundtrip_witness:
  "repo_view (snd (recv_all id (repo_sink id ''/r'')
     (fst (SendSyncFiles id (\<lambda>_. None) (\<lambda>_. Opened ''xy'' None) ''s'' ''/q'' [''a'', ''d/b'']))
     (new_recv ''/r'') empty_repo)) =
   put_all [([''r'', ''a''], ''xy''), ([''r'', ''d'', ''b''], ''xy'')] (repo_view empty_repo)"
proof -
  obtain cs r where c: "SendSyncFiles id (\<lambda>_. None) (\<lambda>_. Opened ''xy'' None) ''s'' ''/q'' [''a'', ''d/b''] = (cs, r)"
    by (cases "SendSyncFiles id (\<lambda>_. None) (\<lambda>_. Opened ''xy'' None) ''s'' ''/q'' [''a'', ''d/b'']")
  let ?dest = "\<lambda>rel. if rel = ''a'' then [''r'', ''a''] else [''r'', ''d'', ''b'']"
  have p: "syncRelPath ''/r'' ''a'' = Inr [''r'', ''a'']" "syncRelPath ''/r'' ''d/b'' = Inr [''r'', ''d'', ''b'']"
    "syncRelPath ''/q'' ''a'' = Inr [''q'', ''a'']" "syncRelPath ''/q'' ''d/b'' = Inr [''q'', ''d'', ''b'']"
    by code_simp+
  have f: "\<forall>rel\<in>set [''a'', ''d/b'']. CHR 0x0A \<notin> set rel \<and> syncRelPath ''/r'' rel = Inr (?dest rel)
      \<and> (\<exists>q. syncRelPath ''/q'' rel = Inr q \<and> Opened ''xy'' None = Opened ((\<lambda>_. ''xy'') rel) None)"
    using p by simp
  obtain t v' where r: "recv_all id (repo_sink id ''/r'') cs (new_recv ''/r'') empty_repo = (t, v')"
    by (cases "recv_all id (repo_sink id ''/r'') cs (new_recv ''/r'') empty_repo")
  from transfer_roundtrip [OF f c, where v = empty_repo and t = t and v' = v'] r empty_repo_ok c show ?thesis by simp
qed

end
