(* ===== verification/BackupRound.thy ===== *)
theory BackupRound
  imports FileSyncPlan
begin

text \<open>
  A backup round on the agent, \<open>internal/agent/executor/pgbackrestops.go\<close>: each storage location is
  checked, then backed up once; a location whose check fails goes to the back of the queue.  The commands
  the agent runs, its clock and its waits are an environment on a world \<open>'w\<close>; what a round did is its
  trace.
\<close>

record backup_params =
  bp_Stanza :: string
  bp_Type :: string
  bp_Repos :: "int list"
  bp_CheckTries :: int
  bp_CheckTimeoutSecs :: int
  bp_CheckRetrySecs :: int
  bp_BackupTimeoutSecs :: int

record backup_result =
  br_Repo :: int
  br_Error :: string

record backup_event =
  be_Repo :: int
  be_Error :: bool
  be_Message :: string

text \<open>
  \<open>en_info\<close> is \<open>pgbackrest info\<close> for a stanza and repo under a time limit: the error and output of the
  command, or its output once parsed (\<open>Inl\<close> the reason when it is no JSON).  \<open>en_backup\<close> is
  \<open>pgbackrest backup\<close> for a stanza, type and repo, \<open>en_sleep\<close> the wait, which ends with an error when the
  context is cancelled.
\<close>

record 'w round_env =
  en_now :: "'w \<Rightarrow> instant"
  en_cancelled :: "'w \<Rightarrow> bool"
  en_info :: "string \<Rightarrow> int \<Rightarrow> duration \<Rightarrow> 'w \<Rightarrow> (string \<times> string + (string + stanza_info list)) \<times> 'w"
  en_backup :: "string \<Rightarrow> string \<Rightarrow> int \<Rightarrow> duration \<Rightarrow> 'w \<Rightarrow> (string \<times> string) option \<times> 'w"
  en_sleep :: "duration \<Rightarrow> 'w \<Rightarrow> string option \<times> 'w"

section \<open>Checking a location\<close>

definition repo_status :: "stanza_info list \<Rightarrow> string \<Rightarrow> int \<Rightarrow> (int \<times> int \<times> string) option" where
  "repo_status info stanza repo =
     find (\<lambda>(key, _, _). key = repo) (concat (map si_Repo (filter (\<lambda>st. si_Name st = stanza) info)))"

definition checkRepo :: "'w round_env \<Rightarrow> string \<Rightarrow> int \<Rightarrow> duration \<Rightarrow> 'w \<Rightarrow> string option \<times> 'w" where
  "checkRepo env stanza repo timeout w = (case en_info env stanza repo timeout w of
      (Inl (e, out), w) \<Rightarrow> (Some (''pgbackrest info: '' @ e @ '': '' @ trim_space out), w)
    | (Inr (Inl e), w) \<Rightarrow> (Some (''reading pgbackrest info: '' @ e), w)
    | (Inr (Inr info), w) \<Rightarrow>
        (case repo_status info stanza repo of
           None \<Rightarrow> Some (''pgbackrest info doesn't list repo '' @ itoa repo @ '' of stanza '' @ stanza)
         | Some (_, code, message) \<Rightarrow>
             if PGBackRestRepoReadable code then None
             else Some (''pgbackrest info: '' @ message @ '' (code '' @ itoa code @ '')''), w))"

definition run_backup :: "'w round_env \<Rightarrow> backup_params \<Rightarrow> int \<Rightarrow> 'w \<Rightarrow> string option \<times> 'w" where
  "run_backup env p repo w = (case en_backup env (bp_Stanza p) (bp_Type p) repo (bp_BackupTimeoutSecs p * second) w of
      (Some (e, out), w) \<Rightarrow> (Some (''pgbackrest backup ('' @ bp_Type p @ '') failed: '' @ e @ '': '' @ trim_space out), w)
    | (None, w) \<Rightarrow> (None, w))"

section \<open>The round\<close>

text \<open>A location in the queue; \<open>None\<close> is the zero time, at which it is ready.\<close>

record loc =
  lc_repo :: int
  lc_fails :: int
  lc_ready :: "instant option"

definition is_ready :: "instant \<Rightarrow> loc \<Rightarrow> bool" where
  "is_ready now l = (case lc_ready l of None \<Rightarrow> True | Some t \<Rightarrow> \<not> now < t)"

fun take_ready :: "instant \<Rightarrow> loc list \<Rightarrow> (loc \<times> loc list) option" where
  "take_ready now [] = None"
| "take_ready now (l # ls) =
     (if is_ready now l then Some (l, ls)
      else map_option (\<lambda>(x, rest). (x, l # rest)) (take_ready now ls))"

definition first_ready :: "loc list \<Rightarrow> instant" where
  "first_ready ls = Min (set (map (\<lambda>l. case lc_ready l of None \<Rightarrow> 0 | Some t \<Rightarrow> t) ls))"

datatype round_step = Checked int bool | BackedUp int bool | Waited

record round =
  rd_results :: "backup_result list"
  rd_events :: "backup_event list"
  rd_trace :: "round_step list"

definition finish_loc :: "int \<Rightarrow> string option \<Rightarrow> round \<Rightarrow> round" where
  "finish_loc repo err r =
     r\<lparr>rd_results := rd_results r @ [\<lparr>br_Repo = repo, br_Error = (case err of None \<Rightarrow> [] | Some e \<Rightarrow> e)\<rparr>],
       rd_events := rd_events r @ (case err of None \<Rightarrow> []
         | Some e \<Rightarrow> [\<lparr>be_Repo = repo, be_Error = True, be_Message = e\<rparr>])\<rparr>"

definition note_step :: "round_step \<Rightarrow> round \<Rightarrow> round" where
  "note_step x r = r\<lparr>rd_trace := rd_trace r @ [x]\<rparr>"

definition retry_message :: "backup_params \<Rightarrow> int \<Rightarrow> string \<Rightarrow> string" where
  "retry_message p fails e = ''check '' @ itoa fails @ '' of '' @ itoa (bp_CheckTries p) @ '' failed, checking again in ''
     @ itoa (bp_CheckRetrySecs p) @ ''s: '' @ e"

text \<open>The turn of a ready location: its outcome, or the location as it goes back into the queue.\<close>

definition turn :: "'w round_env \<Rightarrow> backup_params \<Rightarrow> loc \<Rightarrow> round \<Rightarrow> 'w \<Rightarrow> loc option \<times> round \<times> 'w" where
  "turn env p l r w = (case checkRepo env (bp_Stanza p) (lc_repo l) (bp_CheckTimeoutSecs p * second) w of
      (Some e, w) \<Rightarrow>
        let fails = lc_fails l + 1; r = note_step (Checked (lc_repo l) False) r
        in if fails \<ge> bp_CheckTries p \<or> en_cancelled env w
           then (None, finish_loc (lc_repo l) (Some (''storage location can't be read ('' @ itoa fails
                   @ '' checks failed), not backed up: '' @ e)) r, w)
           else (Some (l\<lparr>lc_fails := fails, lc_ready := Some (en_now env w + bp_CheckRetrySecs p * second)\<rparr>),
                 r\<lparr>rd_events := rd_events r @ [\<lparr>be_Repo = lc_repo l, be_Error = False, be_Message = retry_message p fails e\<rparr>]\<rparr>, w)
    | (None, w) \<Rightarrow>
        (case run_backup env p (lc_repo l) w of
           (err, w) \<Rightarrow> (None, finish_loc (lc_repo l) err
              (note_step (BackedUp (lc_repo l) (err = None)) (note_step (Checked (lc_repo l) True) r)), w)))"

text \<open>The loop; \<open>None\<close> means that the fuel ran out.\<close>

fun round_loop :: "nat \<Rightarrow> 'w round_env \<Rightarrow> backup_params \<Rightarrow> loc list \<Rightarrow> round \<Rightarrow> 'w \<Rightarrow> (round \<times> 'w) option" where
  "round_loop fuel env p [] r w = Some (r, w)"
| "round_loop 0 env p (l # ls) r w = None"
| "round_loop (Suc fuel) env p (l # ls) r w =
     (case take_ready (en_now env w) (l # ls) of
        None \<Rightarrow>
          (case en_sleep env (first_ready (l # ls) - en_now env w) w of
             (Some e, w) \<Rightarrow>
               Some (fold (\<lambda>x. finish_loc (lc_repo x) (Some (''round ended before its backup: '' @ e))) (l # ls) r, w)
           | (None, w) \<Rightarrow> round_loop fuel env p (l # ls) (note_step Waited r) w)
      | Some (x, rest) \<Rightarrow>
          (case turn env p x r w of
             (back, r, w) \<Rightarrow> round_loop fuel env p (rest @ (case back of None \<Rightarrow> [] | Some x \<Rightarrow> [x])) r w))"

definition round_fuel :: "backup_params \<Rightarrow> nat" where
  "round_fuel p = 2 * length (bp_Repos p) * nat (max 1 (bp_CheckTries p))"

definition start_queue :: "backup_params \<Rightarrow> loc list" where
  "start_queue p = map (\<lambda>repo. \<lparr>lc_repo = repo, lc_fails = 0, lc_ready = None\<rparr>) (bp_Repos p)"

definition start_state :: round where
  "start_state = \<lparr>rd_results = [], rd_events = [], rd_trace = []\<rparr>"

definition backupRound :: "'w round_env \<Rightarrow> backup_params \<Rightarrow> 'w \<Rightarrow> ((backup_result list \<times> string option) \<times> round \<times> 'w) option" where
  "backupRound env p w =
     map_option (\<lambda>(r, w).
         let failed = length (filter (\<lambda>x. br_Error x \<noteq> []) (rd_results r))
         in ((rd_results r,
              if failed > 0 then Some (itoa (int failed) @ '' of '' @ itoa (int (length (bp_Repos p)))
                                       @ '' storage locations not backed up'') else None), r, w))
       (round_loop (round_fuel p) env p (start_queue p) start_state w)"

definition RunPGBackRestBackups ::
  "'w round_env \<Rightarrow> backup_params \<Rightarrow> 'w \<Rightarrow> (string + (backup_result list \<times> string option) \<times> round \<times> 'w) option" where
  "RunPGBackRestBackups env p w =
     (if bp_Stanza p = [] then Some (Inl ''stanza is required'')
      else if bp_Type p \<notin> {''full'', ''diff'', ''incr''}
      then Some (Inl (''invalid backup type '' @ [CHR 0x22] @ bp_Type p @ [CHR 0x22] @ '' (must be full|diff|incr)''))
      else case find (\<lambda>r. r < 1 \<or> r > 4) (bp_Repos p) of
        Some r \<Rightarrow> Some (Inl (''invalid repo '' @ itoa r @ '' (must be 1-4)''))
      | None \<Rightarrow> map_option Inr (backupRound env p w))"

section \<open>The queue keeps its locations\<close>

lemma take_ready_Some:
  "take_ready now ls = Some (x, rest) \<Longrightarrow> is_ready now x \<and> mset ls = add_mset x (mset rest)"
  by (induction ls arbitrary: x rest) (auto split: if_splits)

lemma take_ready_None: "take_ready now ls = None \<longleftrightarrow> (\<forall>l\<in>set ls. \<not> is_ready now l)"
  by (induction ls) auto

lemma first_ready_becomes:
  assumes "take_ready now ls = None" and "ls \<noteq> []" and "first_ready ls \<le> now'"
  shows "take_ready now' ls \<noteq> None"
proof -
  let ?f = "\<lambda>l. case lc_ready l of None \<Rightarrow> 0 | Some t \<Rightarrow> t"
  have "first_ready ls \<in> ?f ` set ls"
    unfolding first_ready_def using assms(2) Min_in [of "?f ` set ls"] by simp
  then obtain l where l: "l \<in> set ls" "first_ready ls = ?f l" by auto
  with assms(1) have "lc_ready l \<noteq> None" by (auto simp: take_ready_None is_ready_def split: option.splits)
  with l assms(3) have "is_ready now' l" by (auto simp: is_ready_def)
  with l(1) show ?thesis by (auto simp: take_ready_None)
qed

section \<open>Every round ends, with one outcome per location\<close>

definition tries_of :: "backup_params \<Rightarrow> int" where
  "tries_of p = max 1 (bp_CheckTries p)"

fun concerns :: "int \<Rightarrow> round_step \<Rightarrow> bool" where
  "concerns repo (Checked r _) = (r = repo)"
| "concerns repo (BackedUp r _) = (r = repo)"
| "concerns repo Waited = False"

definition steps_of :: "int \<Rightarrow> round \<Rightarrow> round_step list" where
  "steps_of repo r = filter (concerns repo) (rd_trace r)"

text \<open>
  What a location's outcome says of its steps: failed checks only, and an error; or fewer failed checks
  than allowed, then one good check and directly after it the one backup, whose outcome it is.
\<close>

definition outcome_ok :: "backup_params \<Rightarrow> round_step list \<Rightarrow> backup_result \<Rightarrow> bool" where
  "outcome_ok p tr x \<longleftrightarrow>
     (\<exists>k. int k \<le> tries_of p \<and> tr = replicate k (Checked (br_Repo x) False) \<and> br_Error x \<noteq> [])
     \<or> (\<exists>k b. int k < tries_of p \<and> tr = replicate k (Checked (br_Repo x) False) @ [Checked (br_Repo x) True, BackedUp (br_Repo x) b]
            \<and> (br_Error x = []) = b)"

definition errors_reported :: "round \<Rightarrow> bool" where
  "errors_reported r \<longleftrightarrow> map (\<lambda>e. (be_Repo e, be_Message e)) (filter be_Error (rd_events r))
     = map (\<lambda>x. (br_Repo x, br_Error x)) (filter (\<lambda>x. br_Error x \<noteq> []) (rd_results r))"

definition round_inv :: "backup_params \<Rightarrow> loc list \<Rightarrow> round \<Rightarrow> bool" where
  "round_inv p q r \<longleftrightarrow> mset (map lc_repo q) + mset (map br_Repo (rd_results r)) = mset (bp_Repos p)
     \<and> (\<forall>l\<in>set q. 0 \<le> lc_fails l \<and> lc_fails l < tries_of p
          \<and> steps_of (lc_repo l) r = replicate (nat (lc_fails l)) (Checked (lc_repo l) False))
     \<and> (\<forall>x\<in>set (rd_results r). outcome_ok p (steps_of (br_Repo x) r) x) \<and> errors_reported r"

definition todo :: "backup_params \<Rightarrow> loc list \<Rightarrow> nat" where
  "todo p q = sum_list (map (\<lambda>l. nat (tries_of p - lc_fails l)) q)"

lemma todo_simps [simp]: "todo p [] = 0" "todo p (q @ q') = todo p q + todo p q'"
  "todo p (l # q) = nat (tries_of p - lc_fails l) + todo p q"
  by (simp_all add: todo_def)

lemma todo_mset: "mset q = mset q' \<Longrightarrow> todo p q = todo p q'"
  unfolding todo_def by (metis mset_map sum_mset_sum_list)

lemma steps_of_simps [simp]:
  "steps_of repo (note_step x r) = steps_of repo r @ (if concerns repo x then [x] else [])"
  "steps_of repo (finish_loc n e r) = steps_of repo r"
  "steps_of repo (r\<lparr>rd_events := es\<rparr>) = steps_of repo r"
  by (simp_all add: steps_of_def note_step_def finish_loc_def)

lemma note_step_simps [simp]:
  "rd_results (note_step x r) = rd_results r" "rd_events (note_step x r) = rd_events r"
  by (simp_all add: note_step_def)

lemma errors_note [simp]: "errors_reported (note_step x r) = errors_reported r"
  by (simp add: errors_reported_def)

lemma errors_finish: "errors_reported r \<Longrightarrow> e \<noteq> Some [] \<Longrightarrow> errors_reported (finish_loc n e r)"
  by (cases e) (auto simp: errors_reported_def finish_loc_def)

lemma errors_warn: "errors_reported r \<Longrightarrow> \<not> be_Error e \<Longrightarrow> errors_reported (r\<lparr>rd_events := rd_events r @ [e]\<rparr>)"
  by (simp add: errors_reported_def)

lemma finish_results: "rd_results (finish_loc n e r) =
    rd_results r @ [\<lparr>br_Repo = n, br_Error = (case e of None \<Rightarrow> [] | Some e \<Rightarrow> e)\<rparr>]"
  by (simp add: finish_loc_def)

text \<open>A location is finished: its outcome fits its steps, and the other locations are not concerned.\<close>

lemma round_inv_finish:
  assumes i: "round_inv p (l # q) r" and d: "distinct (bp_Repos p)" and e: "e \<noteq> Some []"
    and st: "\<And>n. n \<noteq> lc_repo l \<Longrightarrow> steps_of n r' = steps_of n r"
    and rr: "rd_results r' = rd_results r" "errors_reported r'"
    and ok: "outcome_ok p (steps_of (lc_repo l) r') \<lparr>br_Repo = lc_repo l, br_Error = (case e of None \<Rightarrow> [] | Some e \<Rightarrow> e)\<rparr>"
  shows "round_inv p q (finish_loc (lc_repo l) e r')"
proof -
  from i have m: "mset (map lc_repo (l # q)) + mset (map br_Repo (rd_results r)) = mset (bp_Repos p)"
    by (simp add: round_inv_def)
  have "mset (map lc_repo (l # q) @ map br_Repo (rd_results r)) = mset (bp_Repos p)" using m by simp
  then have "distinct (map lc_repo (l # q) @ map br_Repo (rd_results r))" using d mset_eq_imp_distinct_iff by blast
  then have o: "\<forall>x\<in>set q. lc_repo x \<noteq> lc_repo l" "\<forall>x\<in>set (rd_results r). br_Repo x \<noteq> lc_repo l"
    by (auto simp: image_iff)
  show ?thesis
    using i m o st rr ok errors_finish [OF rr(2) e] by (auto simp: round_inv_def finish_results)
qed

lemma round_inv_mset: "mset q = mset q' \<Longrightarrow> round_inv p q r \<Longrightarrow> round_inv p q' r"
proof -
  assume m: "mset q = mset q'"
  then have "set q = set q'" "mset (map lc_repo q) = mset (map lc_repo q')" by (auto dest: mset_eq_setD)
  then show "round_inv p q r \<Longrightarrow> round_inv p q' r" by (simp add: round_inv_def)
qed

lemma turn_step:
  assumes i: "round_inv p (l # q) r" and d: "distinct (bp_Repos p)" and t: "turn env p l r w = (back, r', w')"
  shows "round_inv p (q @ (case back of None \<Rightarrow> [] | Some x \<Rightarrow> [x])) r'
    \<and> todo p (q @ (case back of None \<Rightarrow> [] | Some x \<Rightarrow> [x])) < todo p (l # q)"
proof -
  let ?n = "lc_repo l" and ?k = "nat (lc_fails l)"
  from i have l: "0 \<le> lc_fails l" "lc_fails l < tries_of p" "steps_of ?n r = replicate ?k (Checked ?n False)"
    and er: "errors_reported r" by (simp_all add: round_inv_def)
  obtain c w1 where c: "checkRepo env (bp_Stanza p) ?n (bp_CheckTimeoutSecs p * second) w = (c, w1)" by (cases "checkRepo env (bp_Stanza p) ?n (bp_CheckTimeoutSecs p * second) w")
  have one: "replicate ?k (Checked ?n False) @ [Checked ?n False] = replicate (Suc ?k) (Checked ?n False)"
    by (simp add: replicate_append_same)
  have le: "int (Suc ?k) \<le> tries_of p" using l by simp
  show ?thesis
  proof (cases c)
    case (Some e)
    let ?r = "note_step (Checked ?n False) r"
    show ?thesis
    proof (cases "lc_fails l + 1 \<ge> bp_CheckTries p \<or> en_cancelled env w1")
      case True
      have r': "back = None" "\<exists>m. m \<noteq> [] \<and> r' = finish_loc ?n (Some m) ?r"
        using t c Some True by (auto simp: turn_def)
      then obtain m where m: "m \<noteq> []" "r' = finish_loc ?n (Some m) ?r" by blast
      have "round_inv p q (finish_loc ?n (Some m) ?r)"
        by (rule round_inv_finish [OF i d]) (use l er m(1) le one in \<open>auto simp: outcome_ok_def intro!: exI [of _ "Suc ?k"]\<close>)
      with r' m l show ?thesis by simp
    next
      case False
      let ?x = "l\<lparr>lc_fails := lc_fails l + 1, lc_ready := Some (en_now env w1 + bp_CheckRetrySecs p * second)\<rparr>"
      let ?ev = "\<lparr>be_Repo = ?n, be_Error = False, be_Message = retry_message p (lc_fails l + 1) e\<rparr>"
      have ev: "back = Some ?x" "r' = ?r\<lparr>rd_events := rd_events ?r @ [?ev]\<rparr>"
        using t c Some False by (auto simp: turn_def Let_def)
      from i have m: "mset (map lc_repo (l # q) @ map br_Repo (rd_results r)) = mset (bp_Repos p)" by (simp add: round_inv_def)
      then have "distinct (map lc_repo (l # q) @ map br_Repo (rd_results r))" using d mset_eq_imp_distinct_iff by blast
      then have o: "\<forall>x\<in>set q. lc_repo x \<noteq> ?n" "\<forall>x\<in>set (rd_results r). br_Repo x \<noteq> ?n" by (auto simp: image_iff)
      have lt: "lc_fails l + 1 < tries_of p" using False by (auto simp: tries_of_def)
      have "nat (lc_fails l + 1) = Suc ?k" using l by simp
      with i o l one lt ev errors_warn [of ?r ?ev] have "round_inv p (q @ [?x]) r'"
        by (auto simp: round_inv_def)
      with ev lt l show ?thesis by simp
    qed
  next
    case None
    obtain e w2 where b: "run_backup env p ?n w1 = (e, w2)" by (cases "run_backup env p ?n w1")
    let ?r = "note_step (BackedUp ?n (e = None)) (note_step (Checked ?n True) r)"
    have r': "back = None" "r' = finish_loc ?n e ?r" using t c None b by (simp_all add: turn_def)
    have e: "e \<noteq> Some []" using b by (auto simp: run_backup_def split: prod.splits option.splits)
    have "round_inv p q (finish_loc ?n e ?r)"
      by (rule round_inv_finish [OF i d e])
         (use l er e in \<open>auto simp: outcome_ok_def split: option.splits intro!: exI [of _ ?k]\<close>)
    with r' l show ?thesis by simp
  qed
qed

lemma cancel_rest:
  assumes "round_inv p q r" and "distinct (bp_Repos p)" and "m \<noteq> []"
  shows "round_inv p [] (fold (\<lambda>x. finish_loc (lc_repo x) (Some m)) q r)"
  using assms
proof (induction q arbitrary: r)
  case (Cons l q)
  from Cons.prems(1) have l: "0 \<le> lc_fails l" "lc_fails l < tries_of p"
    "steps_of (lc_repo l) r = replicate (nat (lc_fails l)) (Checked (lc_repo l) False)" "errors_reported r"
    by (simp_all add: round_inv_def)
  have "round_inv p q (finish_loc (lc_repo l) (Some m) r)"
    by (rule round_inv_finish [OF Cons.prems(1,2)]) (use l Cons.prems(3) in \<open>auto simp: outcome_ok_def\<close>)
  with Cons show ?case by simp
qed simp

lemma round_loop_returns:
  assumes clock: "\<And>d w w'. en_sleep env d w = (None, w') \<Longrightarrow> en_now env w + d \<le> en_now env w'"
    and d: "distinct (bp_Repos p)"
    and "round_inv p q r" and "2 * todo p q + (if take_ready (en_now env w) q = None \<and> q \<noteq> [] then 1 else 0) \<le> fuel"
  shows "\<exists>r' w'. round_loop fuel env p q r w = Some (r', w') \<and> round_inv p [] r'"
  using assms(3,4)
proof (induction fuel arbitrary: q r w)
  case 0
  then have "todo p q = 0" by simp
  with 0(1) have "q = []" by (cases q) (auto simp: round_inv_def)
  with 0 show ?case by simp
next
  case (Suc fuel)
  show ?case
  proof (cases q)
    case Nil
    with Suc.prems show ?thesis by simp
  next
    case (Cons l ls)
    show ?thesis
    proof (cases "take_ready (en_now env w) q")
      case None
      obtain s w1 where s: "en_sleep env (first_ready q - en_now env w) w = (s, w1)"
        by (cases "en_sleep env (first_ready q - en_now env w) w")
      show ?thesis
      proof (cases s)
        case (Some e)
        have "round_loop (Suc fuel) env p q r w =
            Some (fold (\<lambda>x. finish_loc (lc_repo x) (Some (''round ended before its backup: '' @ e))) q r, w1)"
          using Cons None s Some by simp
        moreover have "round_inv p [] (fold (\<lambda>x. finish_loc (lc_repo x) (Some (''round ended before its backup: '' @ e))) q r)"
          by (rule cancel_rest [OF Suc.prems(1) d]) simp
        ultimately show ?thesis by blast
      next
        case s0: None
        from clock [of "first_ready q - en_now env w" w w1] s s0 have "first_ready q \<le> en_now env w1" by simp
        from first_ready_becomes [OF None _ this] Cons have rd: "take_ready (en_now env w1) q \<noteq> None" by simp
        have "round_inv p q (note_step Waited r)" using Suc.prems(1) by (simp add: round_inv_def)
        have "q \<noteq> []" using Cons by simp
        with Suc.prems(2) None have "2 * todo p q \<le> fuel" by simp
        with Suc.IH [OF \<open>round_inv p q (note_step Waited r)\<close>, of w1] rd
        have "\<exists>r' w'. round_loop fuel env p q (note_step Waited r) w1 = Some (r', w') \<and> round_inv p [] r'" by simp
        moreover have "round_loop (Suc fuel) env p q r w = round_loop fuel env p q (note_step Waited r) w1"
          using Cons None s s0 by simp
        ultimately show ?thesis by simp
      qed
    next
      case (Some a)
      obtain x rest where x: "a = (x, rest)" by (cases a)
      from take_ready_Some [of "en_now env w" q x rest] Some x have m: "mset q = mset (x # rest)" by simp
      obtain bk r1 w1 where t: "turn env p x r w = (bk, r1, w1)" by (cases "turn env p x r w")
      let ?q = "rest @ (case bk of None \<Rightarrow> [] | Some x \<Rightarrow> [x])"
      from turn_step [OF round_inv_mset [OF m Suc.prems(1)] d t]
      have i: "round_inv p ?q r1" and lt: "todo p ?q < todo p q" using todo_mset [OF m] by simp_all
      have "2 * todo p ?q + (if take_ready (en_now env w1) ?q = None \<and> ?q \<noteq> [] then 1 else 0) \<le> fuel"
        using lt Suc.prems(2) by (auto split: if_splits)
      from Suc.IH [OF i this] have "\<exists>r' w'. round_loop fuel env p ?q r1 w1 = Some (r', w') \<and> round_inv p [] r'" .
      moreover have "round_loop (Suc fuel) env p q r w = round_loop fuel env p ?q r1 w1"
        using Cons Some x t by simp
      ultimately show ?thesis by simp
    qed
  qed
qed

lemma backupRound_loop:
  assumes clock: "\<And>d w w'. en_sleep env d w = (None, w') \<Longrightarrow> en_now env w + d \<le> en_now env w'"
    and d: "distinct (bp_Repos p)"
  shows "\<exists>r w'. round_loop (round_fuel p) env p (start_queue p) start_state w = Some (r, w') \<and> round_inv p [] r"
proof -
  have i: "round_inv p (start_queue p) start_state"
    by (auto simp: round_inv_def o_def steps_of_def errors_reported_def tries_of_def start_queue_def start_state_def)
  have t: "todo p (start_queue p) = length (bp_Repos p) * nat (tries_of p)"
    by (simp add: todo_def o_def sum_list_triv start_queue_def)
  have "take_ready (en_now env w) (start_queue p) \<noteq> None \<or> start_queue p = []"
    by (cases "bp_Repos p") (auto simp: is_ready_def start_queue_def)
  with t have "2 * todo p (start_queue p) + (if take_ready (en_now env w) (start_queue p) = None \<and> start_queue p \<noteq> [] then 1 else 0)
      \<le> round_fuel p"
    by (simp add: round_fuel_def tries_of_def)
  from round_loop_returns [OF clock d i this] show ?thesis by blast
qed

text \<open>
  C7: a backup round ends, whatever its checks and backups answer, as long as a wait that is not
  cancelled lasts as long as it was asked to.  Every location has exactly one outcome: it was checked at
  most as often as allowed, backed up at most once and only right after a good check, and its outcome is
  that of the backup, or an error without one.  The round fails exactly when some location did, and every
  error was reported.
\<close>

theorem backupRound_outcomes:
  assumes clock: "\<And>d w w'. en_sleep env d w = (None, w') \<Longrightarrow> en_now env w + d \<le> en_now env w'"
    and d: "distinct (bp_Repos p)"
  shows "\<exists>results err r w'. backupRound env p w = Some ((results, err), r, w')
    \<and> mset (map br_Repo results) = mset (bp_Repos p)
    \<and> (\<forall>x\<in>set results. outcome_ok p (steps_of (br_Repo x) r) x)
    \<and> (err = None \<longleftrightarrow> (\<forall>x\<in>set results. br_Error x = [])) \<and> errors_reported r \<and> rd_results r = results"
proof -
  obtain r' w' where
    l: "round_loop (round_fuel p) env p (start_queue p) start_state w = Some (r', w')" "round_inv p [] r'"
    using backupRound_loop [OF clock d] by blast
  have "length (filter (\<lambda>x. br_Error x \<noteq> []) (rd_results r')) > 0 \<longleftrightarrow> \<not> (\<forall>x\<in>set (rd_results r'). br_Error x = [])"
    by (auto simp: filter_empty_conv)
  with l show ?thesis by (auto simp: backupRound_def Let_def round_inv_def)
qed

text \<open>A world for examples: the time, and the codes that the checks to come report.\<close>

definition round_example :: "(int \<times> int list) round_env" where
  "round_example = \<lparr>en_now = fst, en_cancelled = (\<lambda>_. False),
     en_info = (\<lambda>stanza repo timeout (t, cs). (Inr (Inr [\<lparr>si_Name = stanza, si_Archive = [], si_Repo = [(repo, hd (cs @ [0]), ''x'')]\<rparr>]), (t, tl cs))),
     en_backup = (\<lambda>stanza type repo timeout (t, cs). (if repo = 2 then Some (''e'', []) else None, (t + 5, cs))),
     en_sleep = (\<lambda>d (t, cs). (None, (t + max d 0, cs)))\<rparr>"

definition params_example :: backup_params where
  "params_example = \<lparr>bp_Stanza = ''s'', bp_Type = ''full'', bp_Repos = [1, 2], bp_CheckTries = 3,
     bp_CheckTimeoutSecs = 30, bp_CheckRetrySecs = 60, bp_BackupTimeoutSecs = 600\<rparr>"

theorem backupRound_outcomes_witness:
  "\<exists>results err r w'. backupRound round_example params_example (0, [1]) = Some ((results, err), r, w')
     \<and> mset (map br_Repo results) = mset [1, 2] \<and> err \<noteq> None"
proof -
  have c: "en_now round_example w + d \<le> en_now round_example w'" if "en_sleep round_example d w = (None, w')" for d w w'
    using that by (auto simp: round_example_def split: prod.splits)
  have d: "distinct (bp_Repos params_example)" by (simp add: params_example_def)
  from backupRound_outcomes [OF c d, of "(0, [1])"] obtain results err r w' where
    b: "backupRound round_example params_example (0, [1]) = Some ((results, err), r, w')"
    "mset (map br_Repo results) = mset [1, 2]" by (auto simp: params_example_def)
  have "map_option (\<lambda>x. snd (fst x)) (backupRound round_example params_example (0, [1])) \<noteq> Some None" by code_simp
  with b show ?thesis by auto
qed

end
