(* ===== verification/Hub.thy ===== *)
theory Hub
  imports Prelude
begin

text \<open>
  The registry of agent sessions and task waiters, \<open>internal/server/hub/hub.go\<close> and the session state of
  \<open>session.go\<close>.  A \<open>*Session\<close> is an index into a heap, so that a pointer kept by one goroutine can be
  used after another has evicted the session; closing a closed channel and sending on one are panics.
  The write pump, the pings and the timestamps are left out.
\<close>

datatype panic = CloseOfClosedChannel | SendOnClosedChannel

record 'e session =
  se_NodeID :: uuid
  se_ClusterID :: uuid
  se_NetboxVersion :: string
  se_netboxRunning :: "bool option"
  se_patroniRole :: "string option"
  se_conn_closed :: bool
  se_send :: "'e list"
  se_send_closed :: bool

type_synonym session_ref = nat
type_synonym session_map = "(uuid \<times> session_ref) list"

record 'e hub =
  hb_heap :: "'e session list"
  hb_sessions :: session_map
  hb_stagingSessions :: session_map

definition New_hub :: "'e hub" where
  "New_hub = \<lparr>hb_heap = [], hb_sessions = [], hb_stagingSessions = []\<rparr>"

section \<open>Sessions\<close>

definition sendBuffer :: nat where "sendBuffer = 64"

definition NewSession :: "uuid \<Rightarrow> uuid \<Rightarrow> 'e hub \<Rightarrow> session_ref \<times> 'e hub" where
  "NewSession nodeID clusterID h = (length (hb_heap h), h\<lparr>hb_heap := hb_heap h @
     [\<lparr>se_NodeID = nodeID, se_ClusterID = clusterID, se_NetboxVersion = [], se_netboxRunning = None,
       se_patroniRole = None, se_conn_closed = False, se_send = [], se_send_closed = False\<rparr>]\<rparr>)"

definition sess :: "'e hub \<Rightarrow> session_ref \<Rightarrow> 'e session" where
  "sess h p = hb_heap h ! p"

definition set_sess :: "session_ref \<Rightarrow> ('e session \<Rightarrow> 'e session) \<Rightarrow> 'e hub \<Rightarrow> 'e hub" where
  "set_sess p f h = h\<lparr>hb_heap := (hb_heap h)[p := f (hb_heap h ! p)]\<rparr>"

text \<open>\<open>Send\<close>: a \<open>select\<close> with a send and a default; a send on a closed channel is ready, and panics.\<close>

definition Send :: "'e \<Rightarrow> session_ref \<Rightarrow> 'e hub \<Rightarrow> panic + bool \<times> 'e hub" where
  "Send env p h =
     (if se_send_closed (sess h p) then Inl SendOnClosedChannel
      else if length (se_send (sess h p)) < sendBuffer
      then Inr (True, set_sess p (\<lambda>s. s\<lparr>se_send := se_send s @ [env]\<rparr>) h)
      else Inr (False, h))"

definition close_send :: "session_ref \<Rightarrow> 'e hub \<Rightarrow> panic + 'e hub" where
  "close_send p h =
     (if se_send_closed (sess h p) then Inl CloseOfClosedChannel
      else Inr (set_sess p (\<lambda>s. s\<lparr>se_send_closed := True\<rparr>) h))"

definition Close :: "session_ref \<Rightarrow> 'e hub \<Rightarrow> 'e hub" where
  "Close p = set_sess p (\<lambda>s. s\<lparr>se_conn_closed := True\<rparr>)"

definition SetNetboxRunning :: "session_ref \<Rightarrow> bool option \<Rightarrow> 'e hub \<Rightarrow> (bool option \<times> bool) \<times> 'e hub" where
  "SetNetboxRunning p running h =
     (let old = se_netboxRunning (sess h p);
          oldVal = (old = Some True); newVal = (running = Some True)
      in ((old, (old = None) \<noteq> (running = None) \<or> oldVal \<noteq> newVal),
          set_sess p (\<lambda>s. s\<lparr>se_netboxRunning := running\<rparr>) h))"

definition SetPatroniRole :: "session_ref \<Rightarrow> string \<Rightarrow> 'e hub \<Rightarrow> (string \<times> bool) \<times> 'e hub" where
  "SetPatroniRole p role h =
     (let old = se_patroniRole (sess h p)
      in (((case old of Some r \<Rightarrow> r | None \<Rightarrow> []), old = None), set_sess p (\<lambda>s. s\<lparr>se_patroniRole := Some role\<rparr>) h))"

section \<open>The registry\<close>

definition map_put :: "uuid \<Rightarrow> session_ref \<Rightarrow> session_map \<Rightarrow> session_map" where
  "map_put n p m = (n, p) # AList.delete n m"

definition Register :: "session_ref \<Rightarrow> 'e hub \<Rightarrow> panic + 'e hub" where
  "Register p h =
     (let n = se_NodeID (sess h p); put = (\<lambda>h. h\<lparr>hb_sessions := map_put n p (hb_sessions h)\<rparr>)
      in case map_of (hb_sessions h) n of
           Some old \<Rightarrow> map_sum id (put \<circ> Close old) (close_send old h)
         | None \<Rightarrow> Inr (put h))"

definition Unregister :: "uuid \<Rightarrow> 'e hub \<Rightarrow> panic + 'e hub" where
  "Unregister n h = (case map_of (hb_sessions h) n of
      Some s \<Rightarrow> map_sum id (\<lambda>h. h\<lparr>hb_sessions := AList.delete n (hb_sessions h)\<rparr>) (close_send s h)
    | None \<Rightarrow> Inr h)"

definition UnregisterIfSame :: "uuid \<Rightarrow> session_ref \<Rightarrow> 'e hub \<Rightarrow> bool \<times> 'e hub" where
  "UnregisterIfSame n p h =
     (if map_of (hb_sessions h) n = Some p then (True, h\<lparr>hb_sessions := AList.delete n (hb_sessions h)\<rparr>)
      else (False, h))"

definition Get :: "uuid \<Rightarrow> 'e hub \<Rightarrow> session_ref option" where
  "Get n h = map_of (hb_sessions h) n"

definition IsConnected_hub :: "uuid \<Rightarrow> 'e hub \<Rightarrow> bool" where
  "IsConnected_hub n h = (map_of (hb_sessions h) n \<noteq> None)"

definition ConnectedCount :: "'e hub \<Rightarrow> nat" where
  "ConnectedCount h = length (hb_sessions h)"

definition ConnectedNodeIDs :: "'e hub \<Rightarrow> uuid list" where
  "ConnectedNodeIDs h = map fst (hb_sessions h)"

text \<open>A Go loop over a map closes the channels in any order; each is closed once, so the order does not matter.\<close>

fun close_all :: "session_ref list \<Rightarrow> 'e hub \<Rightarrow> panic + 'e hub" where
  "close_all [] h = Inr h"
| "close_all (p # ps) h = (case close_send p h of Inl e \<Rightarrow> Inl e | Inr h \<Rightarrow> close_all ps h)"

definition DrainAll :: "'e hub \<Rightarrow> panic + 'e hub" where
  "DrainAll h = map_sum id (\<lambda>h. h\<lparr>hb_sessions := [], hb_stagingSessions := []\<rparr>)
     (close_all (map snd (hb_sessions h) @ map snd (hb_stagingSessions h)) h)"

definition RegisterStaging :: "uuid \<Rightarrow> session_ref \<Rightarrow> 'e hub \<Rightarrow> panic + 'e hub" where
  "RegisterStaging n p h =
     (let put = (\<lambda>h. h\<lparr>hb_stagingSessions := map_put n p (hb_stagingSessions h)\<rparr>)
      in case map_of (hb_stagingSessions h) n of
           Some old \<Rightarrow> map_sum id put (close_send old h)
         | None \<Rightarrow> Inr (put h))"

definition UnregisterStaging :: "uuid \<Rightarrow> 'e hub \<Rightarrow> panic + 'e hub" where
  "UnregisterStaging n h = (case map_of (hb_stagingSessions h) n of
      Some s \<Rightarrow> map_sum id (\<lambda>h. h\<lparr>hb_stagingSessions := AList.delete n (hb_stagingSessions h)\<rparr>) (close_send s h)
    | None \<Rightarrow> Inr h)"

definition IsConnectedStaging :: "uuid \<Rightarrow> 'e hub \<Rightarrow> bool" where
  "IsConnectedStaging n h = (map_of (hb_stagingSessions h) n \<noteq> None)"

definition UnregisterCluster :: "uuid \<Rightarrow> 'e hub \<Rightarrow> panic + 'e hub" where
  "UnregisterCluster c h =
     (let gone = (\<lambda>(n, p). se_ClusterID (sess h p) = c)
      in map_sum id (\<lambda>h. h\<lparr>hb_sessions := filter (\<lambda>x. \<not> gone x) (hb_sessions h)\<rparr>)
           (close_all (map snd (filter gone (hb_sessions h))) h))"

section \<open>Waiting for task results\<close>

record 'r watch =
  wa_node :: uuid
  wa_result :: "'r option"
  wa_known :: bool
  wa_lost :: bool

type_synonym 'r watches = "uuid \<rightharpoonup> 'r watch"

definition watchTask :: "uuid \<Rightarrow> uuid \<Rightarrow> 'r watches \<Rightarrow> 'r watches" where
  "watchTask taskID node ws = ws(taskID \<mapsto> \<lparr>wa_node = node, wa_result = None, wa_known = False, wa_lost = False\<rparr>)"

definition unwatch :: "uuid \<Rightarrow> 'r watches \<Rightarrow> 'r watches" where
  "unwatch taskID ws = ws(taskID := None)"

definition ExpectTask :: "uuid \<Rightarrow> 'r watches \<Rightarrow> 'r watches" where
  "ExpectTask taskID = watchTask taskID Nil_uuid"

text \<open>The result channel holds one result; a second one is dropped.\<close>

definition NotifyTaskResult :: "uuid \<Rightarrow> 'r \<Rightarrow> 'r watches \<Rightarrow> 'r watches" where
  "NotifyTaskResult taskID r ws = (case ws taskID of
      Some w \<Rightarrow> if wa_result w = None then ws(taskID \<mapsto> w\<lparr>wa_result := Some r\<rparr>) else ws
    | None \<Rightarrow> ws)"

definition NotifyTaskAck :: "uuid \<Rightarrow> 'r watches \<Rightarrow> 'r watches" where
  "NotifyTaskAck taskID ws = (case ws taskID of Some w \<Rightarrow> ws(taskID \<mapsto> w\<lparr>wa_known := True\<rparr>) | None \<Rightarrow> ws)"

definition heartbeat_watch :: "uuid \<Rightarrow> uuid list \<Rightarrow> uuid \<Rightarrow> 'r watch \<Rightarrow> 'r watch" where
  "heartbeat_watch node tasks taskID w =
     (if wa_node w \<noteq> node then w
      else if taskID \<in> set tasks then w\<lparr>wa_known := True\<rparr>
      else if wa_known w then w\<lparr>wa_lost := True\<rparr> else w)"

definition NotifyHeartbeat :: "uuid \<Rightarrow> uuid list \<Rightarrow> 'r watches \<Rightarrow> 'r watches" where
  "NotifyHeartbeat node tasks ws = (\<lambda>taskID. map_option (heartbeat_watch node tasks taskID) (ws taskID))"

end
