(* ===== verification/HubProps.thy ===== *)
theory HubProps
  imports Hub
begin

text \<open>
  The registry under every interleaving of connects, teardowns, removals, look-ups, sends and status
  writes.  The sections the hub runs under its mutex are the operations \<open>hub_op\<close>; what the code does
  between them without a lock, the sends on a session looked up before and the status writes to the
  database, are separate steps of \<open>server_step\<close>.  The registry never closes a channel twice; a send
  panics only on a session that is no longer its node's; and a status written with no other write of its
  node under way is whether the node has a session.
\<close>

section \<open>Operations on the registry\<close>

text \<open>
  \<open>Connect\<close> and \<open>Teardown\<close> are the beginning and the deferred end of \<open>connectNode\<close> in
  \<open>internal/server/api/handlers/agent.go\<close>, \<open>StagingConnect\<close> and \<open>StagingTeardown\<close> those of
  \<open>connectStagingAgent\<close>.  The first two decide the status of the node that their connection writes next;
  the log is what was decided.
\<close>

datatype 'e hub_op =
    Connect uuid uuid
  | Teardown uuid session_ref
  | Remove uuid
  | RemoveCluster uuid
  | StagingConnect uuid
  | StagingTeardown uuid
  | Drain
  | SendTo uuid 'e

type_synonym status_log = "(uuid \<times> bool) list"

definition connect_node :: "uuid \<Rightarrow> uuid \<Rightarrow> 'e hub \<Rightarrow> panic + session_ref \<times> 'e hub" where
  "connect_node nodeID clusterID h = (case NewSession nodeID clusterID h of
      (p, h) \<Rightarrow> map_sum id (Pair p) (Register p h))"

definition connect_staging :: "uuid \<Rightarrow> 'e hub \<Rightarrow> panic + 'e hub" where
  "connect_staging stagingID h = (case NewSession stagingID Nil_uuid h of (p, h) \<Rightarrow> RegisterStaging stagingID p h)"

definition teardown_node :: "uuid \<Rightarrow> session_ref \<Rightarrow> 'e hub \<Rightarrow> status_log \<times> 'e hub" where
  "teardown_node nodeID p h = (case UnregisterIfSame nodeID p h of
      (True, h) \<Rightarrow> ([(nodeID, False)], h)
    | (False, h) \<Rightarrow> ([], h))"

text \<open>
  \<open>SendRaw\<close>, when nothing happens between its look-up and its send; \<open>LookUp\<close> and \<open>SendHeld\<close> of
  \<open>server_op\<close> below are the two apart.
\<close>

definition SendRaw :: "uuid \<Rightarrow> 'e \<Rightarrow> 'e hub \<Rightarrow> panic + string option \<times> 'e hub" where
  "SendRaw nodeID env h = (case Get nodeID h of
      None \<Rightarrow> Inr (Some ''node is not connected'', h)
    | Some p \<Rightarrow> map_sum id (\<lambda>(ok, h). (if ok then None else Some ''send buffer full for node'', h)) (Send env p h))"

fun hub_step :: "'e hub_op \<Rightarrow> 'e hub \<Rightarrow> panic + status_log \<times> 'e hub" where
  "hub_step (Connect n c) h = map_sum id (\<lambda>(p, h). ([(n, True)], h)) (connect_node n c h)"
| "hub_step (Teardown n p) h = Inr (teardown_node n p h)"
| "hub_step (Remove n) h = map_sum id (Pair []) (Unregister n h)"
| "hub_step (RemoveCluster c) h = map_sum id (Pair []) (UnregisterCluster c h)"
| "hub_step (StagingConnect n) h = map_sum id (Pair []) (connect_staging n h)"
| "hub_step (StagingTeardown n) h = map_sum id (Pair []) (UnregisterStaging n h)"
| "hub_step Drain h = map_sum id (Pair []) (DrainAll h)"
| "hub_step (SendTo n env) h = map_sum id (\<lambda>(_, h). ([], h)) (SendRaw n env h)"

fun run_hub :: "'e hub_op list \<Rightarrow> status_log \<Rightarrow> 'e hub \<Rightarrow> panic + status_log \<times> 'e hub" where
  "run_hub [] log h = Inr (log, h)"
| "run_hub (x # xs) log h = (case hub_step x h of
      Inl e \<Rightarrow> Inl e
    | Inr (new, h) \<Rightarrow> run_hub xs (log @ new) h)"

definition last_status :: "status_log \<Rightarrow> uuid \<Rightarrow> bool option" where
  "last_status log n = map_of (rev log) n"

fun forced :: "'e hub_op \<Rightarrow> bool" where
  "forced (Remove _) = True"
| "forced (RemoveCluster _) = True"
| "forced Drain = True"
| "forced _ = False"

section \<open>The invariant\<close>

definition refs :: "'e hub \<Rightarrow> session_ref list" where
  "refs h = map snd (hb_sessions h) @ map snd (hb_stagingSessions h)"

definition open_ref :: "'e hub \<Rightarrow> session_ref \<Rightarrow> bool" where
  "open_ref h p \<longleftrightarrow> p < length (hb_heap h) \<and> \<not> se_send_closed (sess h p)"

definition hub_ok :: "'e hub \<Rightarrow> bool" where
  "hub_ok h \<longleftrightarrow> distinct (map fst (hb_sessions h)) \<and> distinct (map fst (hb_stagingSessions h))
     \<and> distinct (refs h) \<and> (\<forall>p\<in>set (refs h). open_ref h p)
     \<and> (\<forall>(n, p)\<in>set (hb_sessions h). se_NodeID (sess h p) = n)"

text \<open>\<open>h'\<close> has the same registry as \<open>h\<close>, and the sessions of \<open>keep\<close> are as before but for their buffers.\<close>

definition same_for :: "session_ref set \<Rightarrow> 'e hub \<Rightarrow> 'e hub \<Rightarrow> bool" where
  "same_for keep h h' \<longleftrightarrow> hb_sessions h' = hb_sessions h \<and> hb_stagingSessions h' = hb_stagingSessions h
     \<and> length (hb_heap h) \<le> length (hb_heap h')
     \<and> (\<forall>p\<in>keep. p < length (hb_heap h) \<longrightarrow> se_send_closed (sess h' p) = se_send_closed (sess h p)
          \<and> se_NodeID (sess h' p) = se_NodeID (sess h p))"

lemma same_for_refl [simp]: "same_for keep h h" by (simp add: same_for_def)

lemma same_for_trans: "same_for keep h h' \<Longrightarrow> same_for keep h' h'' \<Longrightarrow> same_for keep h h''"
  unfolding same_for_def by fastforce

lemma nth_update: "xs[p := v] ! q = (if q = p \<and> p < length xs then v else xs ! q)"
  by (cases "p < length xs") (auto simp: nth_list_update list_update_beyond)

lemma same_for_set: "p \<notin> keep \<Longrightarrow> same_for keep h (set_sess p f h)"
  by (auto simp: same_for_def set_sess_def sess_def nth_update)

lemma same_for_buffer: "same_for keep h (set_sess p (\<lambda>s. s\<lparr>se_send := es s\<rparr>) h)"
  by (auto simp: same_for_def set_sess_def sess_def nth_update)

lemma same_for_new: "NewSession n c h = (p, h') \<Longrightarrow> same_for keep h h'"
  by (auto simp: NewSession_def same_for_def sess_def nth_append)

lemma close_send_open:
  assumes "open_ref h p"
  obtains h' where "close_send p h = Inr h'" and "same_for (- {p}) h h'"
  using assms that [of "set_sess p (\<lambda>s. s\<lparr>se_send_closed := True\<rparr>) h"]
  by (simp add: close_send_def open_ref_def same_for_set)

lemma close_all_open:
  assumes "distinct ps" and "\<forall>p\<in>set ps. open_ref h p"
  shows "\<exists>h'. close_all ps h = Inr h' \<and> same_for (- set ps) h h'"
  using assms
proof (induction ps arbitrary: h)
  case (Cons p ps)
  obtain h1 where h1: "close_send p h = Inr h1" "same_for (- {p}) h h1"
    using close_send_open Cons.prems(2) by (metis list.set_intros(1))
  have "\<forall>q\<in>set ps. open_ref h1 q"
    using Cons.prems h1(2) by (auto simp: same_for_def open_ref_def)
  with Cons.IH [of h1] Cons.prems(1) obtain h2 where h2: "close_all ps h1 = Inr h2" "same_for (- set ps) h1 h2" by auto
  have "same_for (- set (p # ps)) h h2"
    using h1(2) h2(2) unfolding same_for_def by fastforce
  with h1(1) h2(1) show ?case by simp
qed simp

text \<open>A registry whose entries were open and stay untouched is in order again.\<close>

lemma hub_okI:
  assumes "hub_ok h" and "same_for keep h h1"
    and "set s \<subseteq> set (hb_sessions h)" "set g \<subseteq> set (hb_stagingSessions h)"
    and "distinct (map fst s)" "distinct (map fst g)" "distinct (map snd s @ map snd g)"
    and "snd ` set s \<subseteq> keep" "snd ` set g \<subseteq> keep"
  shows "hub_ok (h1\<lparr>hb_sessions := s, hb_stagingSessions := g\<rparr>)"
proof -
  let ?h = "h1\<lparr>hb_sessions := s, hb_stagingSessions := g\<rparr>"
  have "p \<in> set (refs h)" if "p \<in> snd ` set s \<union> snd ` set g" for p
    using assms(3,4) that unfolding refs_def set_append set_map by blast
  with assms(1) have o: "open_ref h p" if "p \<in> snd ` set s \<union> snd ` set g" for p
    using that unfolding hub_ok_def by blast
  have k: "p \<in> keep" if "p \<in> snd ` set s \<union> snd ` set g" for p
    using assms(8,9) that by blast
  have s: "sess ?h p = sess h1 p" "refs ?h = map snd s @ map snd g" for p
    by (simp_all add: sess_def refs_def)
  have n: "open_ref ?h p \<and> se_NodeID (sess h1 p) = se_NodeID (sess h p)"
    if "p \<in> snd ` set s \<union> snd ` set g" for p
    using o [OF that] k [OF that] assms(2) by (auto simp: same_for_def open_ref_def sess_def)
  have m: "se_NodeID (sess h1 q) = m" if i: "(m, q) \<in> set s" for m q
  proof -
    from i assms(1,3) have "se_NodeID (sess h q) = m" by (auto simp: hub_ok_def)
    moreover from i have "q \<in> snd ` set s \<union> snd ` set g" by (metis UnI1 imageI snd_conv)
    ultimately show ?thesis using n by metis
  qed
  have "\<forall>p\<in>set (refs ?h). open_ref ?h p" using n unfolding s(2) set_append set_map by blast
  moreover have "\<forall>(n, p)\<in>set (hb_sessions ?h). se_NodeID (sess ?h p) = n" using m s(1) by auto
  ultimately show ?thesis
    using assms(5-7) unfolding hub_ok_def s(2) by simp
qed

lemma hub_ok_add:
  assumes "hub_ok h" and "n \<notin> fst ` set (hb_sessions h)" and "p \<notin> set (refs h)" and "open_ref h p" and "se_NodeID (sess h p) = n"
  shows "hub_ok (h\<lparr>hb_sessions := (n, p) # hb_sessions h\<rparr>)"
  using assms by (auto simp: hub_ok_def refs_def open_ref_def sess_def)

lemma hub_ok_add_staging:
  assumes "hub_ok h" and "n \<notin> fst ` set (hb_stagingSessions h)" and "p \<notin> set (refs h)" and "open_ref h p"
  shows "hub_ok (h\<lparr>hb_stagingSessions := (n, p) # hb_stagingSessions h\<rparr>)"
  using assms by (auto simp: hub_ok_def refs_def open_ref_def sess_def)

lemma hub_ok_same:
  assumes "hub_ok h" and s: "same_for UNIV h h'"
  shows "hub_ok h'"
proof -
  have "hub_ok (h'\<lparr>hb_sessions := hb_sessions h, hb_stagingSessions := hb_stagingSessions h\<rparr>)"
    by (rule hub_okI [OF assms]) (use assms(1) in \<open>simp_all add: hub_ok_def refs_def\<close>)
  also have "h'\<lparr>hb_sessions := hb_sessions h, hb_stagingSessions := hb_stagingSessions h\<rparr> = h'"
    using s by (cases h') (simp add: same_for_def)
  finally show ?thesis .
qed

lemma registered_open:
  assumes "hub_ok h" and "map_of (hb_sessions h) n = Some p \<or> map_of (hb_stagingSessions h) n = Some p"
  shows "open_ref h p \<and> p \<in> set (refs h)"
proof -
  from assms(2) have "(n, p) \<in> set (hb_sessions h) \<union> set (hb_stagingSessions h)" using map_of_SomeD by fast
  then have "p \<in> snd ` (set (hb_sessions h) \<union> set (hb_stagingSessions h))" by (metis imageI snd_conv)
  then have "p \<in> set (refs h)" by (simp add: refs_def image_Un)
  with assms(1) show ?thesis unfolding hub_ok_def by blast
qed

lemma distinct_map_delete: "distinct (map fst m) \<Longrightarrow> distinct (map fst (AList.delete n m))"
  by (induction m) (auto simp: AList.delete_eq)

lemma delete_subset: "set (AList.delete n m) \<subseteq> set m"
  by (auto simp: AList.delete_eq)

lemma delete_forgets:
  assumes d: "distinct (map snd m)" and m: "map_of m n = Some p"
  shows "p \<notin> snd ` set (AList.delete n m)"
proof
  assume "p \<in> snd ` set (AList.delete n m)"
  then obtain k where k: "(k, p) \<in> set m" "k \<noteq> n" by (auto simp: AList.delete_eq)
  from m have "(n, p) \<in> set m" by (rule map_of_SomeD)
  with d k have "(k, p) = (n, p)" unfolding distinct_map inj_on_def by (metis snd_conv)
  with k(2) show False by simp
qed

text \<open>Entries are removed, once their channels are closed or left to their pumps.\<close>

lemma set_same:
  "hb_stagingSessions h = g \<Longrightarrow> h\<lparr>hb_sessions := s, hb_stagingSessions := g\<rparr> = h\<lparr>hb_sessions := s\<rparr>"
  "hb_sessions h = s \<Longrightarrow> h\<lparr>hb_sessions := s, hb_stagingSessions := g\<rparr> = h\<lparr>hb_stagingSessions := g\<rparr>"
  by (cases h; simp)+

lemma distinct_map_sub: "distinct (map f xs) \<Longrightarrow> distinct (map f (filter P xs))"
  by (rule distinct_map_filter)

lemma hub_ok_filter:
  assumes h: "hub_ok h" and same: "same_for (- C) h h1"
    and P: "snd ` set (filter P (hb_sessions h)) \<inter> C = {}" and Q: "snd ` set (filter Q (hb_stagingSessions h)) \<inter> C = {}"
  shows "hub_ok (h1\<lparr>hb_sessions := filter P (hb_sessions h), hb_stagingSessions := filter Q (hb_stagingSessions h)\<rparr>)"
proof (rule hub_okI [OF h same])
  have d: "distinct (map snd (hb_sessions h))" "distinct (map snd (hb_stagingSessions h))"
    "snd ` set (hb_sessions h) \<inter> snd ` set (hb_stagingSessions h) = {}"
    using h by (simp_all add: hub_ok_def refs_def)
  have "snd ` set (filter P (hb_sessions h)) \<subseteq> snd ` set (hb_sessions h)"
    "snd ` set (filter Q (hb_stagingSessions h)) \<subseteq> snd ` set (hb_stagingSessions h)"
    by (simp_all add: image_mono)
  with d(3) have "snd ` set (filter P (hb_sessions h)) \<inter> snd ` set (filter Q (hb_stagingSessions h)) = {}" by blast
  then show "distinct (map snd (filter P (hb_sessions h)) @ map snd (filter Q (hb_stagingSessions h)))"
    unfolding distinct_append set_map using distinct_map_sub [OF d(1)] distinct_map_sub [OF d(2)] by simp
  show "distinct (map fst (filter P (hb_sessions h)))" "distinct (map fst (filter Q (hb_stagingSessions h)))"
    using h distinct_map_sub unfolding hub_ok_def by blast+
  show "snd ` set (filter P (hb_sessions h)) \<subseteq> - C" "snd ` set (filter Q (hb_stagingSessions h)) \<subseteq> - C"
    using P Q by blast+
qed simp_all

lemma refs_apart:
  assumes "hub_ok h"
  shows "map_of (hb_sessions h) n = Some p \<Longrightarrow> p \<notin> snd ` set (hb_stagingSessions h)"
    and "map_of (hb_stagingSessions h) n = Some p \<Longrightarrow> p \<notin> snd ` set (hb_sessions h)"
  using assms by (force simp: hub_ok_def refs_def dest: map_of_SomeD)+

lemma hub_ok_remove:
  assumes h: "hub_ok h" and same: "same_for (- {p}) h h1" and m: "map_of (hb_sessions h) n = Some p"
  shows "hub_ok (h1\<lparr>hb_sessions := AList.delete n (hb_sessions h)\<rparr>)"
proof -
  have d: "distinct (map snd (hb_sessions h))" using h by (simp add: hub_ok_def refs_def)
  have "hub_ok (h1\<lparr>hb_sessions := AList.delete n (hb_sessions h), hb_stagingSessions := hb_stagingSessions h\<rparr>)"
    using hub_ok_filter [OF h same, of "\<lambda>(k, _). n \<noteq> k" "\<lambda>_. True"] delete_forgets [OF d m] refs_apart(1) [OF h m]
    by (simp add: AList.delete_eq)
  with same show ?thesis by (simp add: set_same same_for_def)
qed

lemma hub_ok_remove_staging:
  assumes h: "hub_ok h" and same: "same_for (- {p}) h h1" and m: "map_of (hb_stagingSessions h) n = Some p"
  shows "hub_ok (h1\<lparr>hb_stagingSessions := AList.delete n (hb_stagingSessions h)\<rparr>)"
proof -
  have d: "distinct (map snd (hb_stagingSessions h))" using h by (simp add: hub_ok_def refs_def)
  have "hub_ok (h1\<lparr>hb_sessions := hb_sessions h, hb_stagingSessions := AList.delete n (hb_stagingSessions h)\<rparr>)"
    using hub_ok_filter [OF h same, of "\<lambda>_. True" "\<lambda>(k, _). n \<noteq> k"] delete_forgets [OF d m] refs_apart(2) [OF h m]
    by (simp add: AList.delete_eq)
  with same show ?thesis by (simp add: set_same same_for_def)
qed

section \<open>Every operation keeps it\<close>

lemma NewSession_ok:
  assumes h: "hub_ok h" and n: "NewSession n c h = (p, h0)"
  shows "hub_ok h0" "open_ref h0 p" "p \<notin> set (refs h0)" "se_NodeID (sess h0 p) = n"
    "hb_sessions h0 = hb_sessions h" "hb_stagingSessions h0 = hb_stagingSessions h" "p = length (hb_heap h)"
proof -
  show "hub_ok h0" by (rule hub_ok_same [OF h same_for_new [OF n]])
  from n show p: "p = length (hb_heap h)" and s: "hb_sessions h0 = hb_sessions h"
    "hb_stagingSessions h0 = hb_stagingSessions h" by (auto simp: NewSession_def)
  from n show "open_ref h0 p" "se_NodeID (sess h0 p) = n" by (auto simp: NewSession_def open_ref_def sess_def)
  have "\<forall>q\<in>set (refs h). q < length (hb_heap h)" using h by (auto simp: hub_ok_def open_ref_def)
  moreover have "refs h0 = refs h" using s by (simp add: refs_def)
  ultimately show "p \<notin> set (refs h0)" using p by auto
qed

lemma map_of_put: "map_of (map_put n p m) = (map_of m)(n \<mapsto> p)"
  by (auto simp: map_put_def AList.delete_conv fun_eq_iff)

lemma delete_absent: "map_of m n = None \<Longrightarrow> AList.delete n m = m"
  by (auto simp: AList.delete_eq map_of_eq_None_iff image_iff intro!: filter_True)

lemma connect_node_ok:
  assumes h: "hub_ok h"
  shows "\<exists>p h'. connect_node n c h = Inr (p, h') \<and> hub_ok h' \<and> map_of (hb_sessions h') = (map_of (hb_sessions h))(n \<mapsto> p)
    \<and> p = length (hb_heap h)"
proof -
  obtain p h0 where n: "NewSession n c h = (p, h0)" by (cases "NewSession n c h")
  note N = NewSession_ok [OF h n]
  show ?thesis
  proof (cases "map_of (hb_sessions h0) n")
    case None
    then have "connect_node n c h = Inr (p, h0\<lparr>hb_sessions := map_put n p (hb_sessions h0)\<rparr>)"
      by (simp add: connect_node_def n Register_def N(4) Let_def)
    moreover have "hub_ok (h0\<lparr>hb_sessions := map_put n p (hb_sessions h0)\<rparr>)"
      using hub_ok_add [OF N(1) _ N(3) N(2) N(4)] None by (simp add: map_put_def delete_absent map_of_eq_None_iff)
    ultimately show ?thesis using N(5,7) by (simp add: map_of_put)
  next
    case (Some old)
    have o: "open_ref h0 old" using registered_open [OF N(1)] Some by blast
    obtain h1 where c: "close_send old h0 = Inr h1" "same_for (- {old}) h0 h1" by (rule close_send_open [OF o])
    have k: "same_for (- {old}) h0 (Close old h1)"
      using same_for_trans [OF c(2) same_for_set] by (simp add: Close_def)
    let ?h2 = "(Close old h1)\<lparr>hb_sessions := AList.delete n (hb_sessions h0)\<rparr>"
    have p: "p \<noteq> old" using N(3) registered_open [OF N(1)] Some by blast
    have op: "open_ref (Close old h1) p" "se_NodeID (sess (Close old h1) p) = n"
      using k p N(2,4) unfolding same_for_def open_ref_def by fastforce+
    have s2: "sess ?h2 = sess (Close old h1)" by (simp add: sess_def fun_eq_iff)
    have "hub_ok (?h2\<lparr>hb_sessions := (n, p) # hb_sessions ?h2\<rparr>)"
    proof (rule hub_ok_add)
      show "hub_ok ?h2" by (rule hub_ok_remove [OF N(1) k Some])
      show "n \<notin> fst ` set (hb_sessions ?h2)" by (auto simp: AList.delete_eq)
      have "set (refs ?h2) = snd ` set (AList.delete n (hb_sessions h0)) \<union> snd ` set (hb_stagingSessions h0)"
        using k by (simp add: refs_def same_for_def)
      also have "\<dots> \<subseteq> set (refs h0)"
        using Un_mono [OF image_mono [OF delete_subset, of snd n "hb_sessions h0"] subset_refl] by (simp add: refs_def)
      finally show "p \<notin> set (refs ?h2)" using N(3) by blast
    qed (use op s2 in \<open>simp_all add: open_ref_def\<close>)
    moreover have "connect_node n c h = Inr (p, (Close old h1)\<lparr>hb_sessions := map_put n p (hb_sessions (Close old h1))\<rparr>)"
      by (simp add: connect_node_def n Register_def N(4) Let_def Some c(1))
    moreover have "hb_sessions (Close old h1) = hb_sessions h0" using k by (simp add: same_for_def)
    ultimately show ?thesis using N(5,7) by (simp add: map_of_put map_put_def AList.delete_conv fun_eq_iff)
  qed
qed

lemma connect_staging_ok:
  assumes h: "hub_ok h"
  shows "\<exists>h'. connect_staging n h = Inr h' \<and> hub_ok h' \<and> hb_sessions h' = hb_sessions h"
proof -
  obtain p h0 where n: "NewSession n Nil_uuid h = (p, h0)" by (cases "NewSession n Nil_uuid h")
  note N = NewSession_ok [OF h n]
  show ?thesis
  proof (cases "map_of (hb_stagingSessions h0) n")
    case None
    then have "connect_staging n h = Inr (h0\<lparr>hb_stagingSessions := map_put n p (hb_stagingSessions h0)\<rparr>)"
      by (simp add: connect_staging_def n RegisterStaging_def Let_def)
    moreover have "hub_ok (h0\<lparr>hb_stagingSessions := map_put n p (hb_stagingSessions h0)\<rparr>)"
      using hub_ok_add_staging [OF N(1) _ N(3) N(2)] None by (simp add: map_put_def delete_absent map_of_eq_None_iff)
    ultimately show ?thesis using N(5) by simp
  next
    case (Some old)
    have o: "open_ref h0 old" using registered_open [OF N(1)] Some by blast
    obtain h1 where c: "close_send old h0 = Inr h1" "same_for (- {old}) h0 h1" by (rule close_send_open [OF o])
    let ?h2 = "h1\<lparr>hb_stagingSessions := AList.delete n (hb_stagingSessions h0)\<rparr>"
    have p: "p \<noteq> old" using N(3) registered_open [OF N(1)] Some by blast
    have op: "open_ref h1 p" using c(2) p N(2) unfolding same_for_def open_ref_def by fastforce
    have "hub_ok (?h2\<lparr>hb_stagingSessions := (n, p) # hb_stagingSessions ?h2\<rparr>)"
    proof (rule hub_ok_add_staging)
      show "hub_ok ?h2" by (rule hub_ok_remove_staging [OF N(1) c(2) Some])
      show "n \<notin> fst ` set (hb_stagingSessions ?h2)" by (auto simp: AList.delete_eq)
      have "set (refs ?h2) = snd ` set (hb_sessions h0) \<union> snd ` set (AList.delete n (hb_stagingSessions h0))"
        using c(2) by (simp add: refs_def same_for_def)
      also have "\<dots> \<subseteq> set (refs h0)"
        using Un_mono [OF subset_refl image_mono [OF delete_subset, of snd n "hb_stagingSessions h0"]] by (simp add: refs_def)
      finally show "p \<notin> set (refs ?h2)" using N(3) by blast
      show "open_ref ?h2 p" using op by (simp add: open_ref_def sess_def)
    qed
    moreover have "connect_staging n h = Inr (h1\<lparr>hb_stagingSessions := map_put n p (hb_stagingSessions h1)\<rparr>)"
      by (simp add: connect_staging_def n RegisterStaging_def Let_def Some c(1))
    moreover have "hb_stagingSessions h1 = hb_stagingSessions h0" "hb_sessions h1 = hb_sessions h0"
      using c(2) by (simp_all add: same_for_def)
    ultimately show ?thesis using N(5) by (simp add: map_put_def)
  qed
qed

lemma remove_ok:
  assumes h: "hub_ok h"
  shows "\<exists>h'. Unregister n h = Inr h' \<and> hub_ok h' \<and> map_of (hb_sessions h') = (map_of (hb_sessions h))(n := None)"
proof (cases "map_of (hb_sessions h) n")
  case None
  with h show ?thesis by (auto simp: Unregister_def fun_eq_iff)
next
  case (Some p)
  obtain h1 where c: "close_send p h = Inr h1" "same_for (- {p}) h h1"
    using close_send_open registered_open [OF h] Some by metis
  with hub_ok_remove [OF h c(2) Some] Some show ?thesis
    by (auto simp: Unregister_def same_for_def AList.delete_conv)
qed

lemma staging_teardown_ok:
  assumes h: "hub_ok h"
  shows "\<exists>h'. UnregisterStaging n h = Inr h' \<and> hub_ok h' \<and> hb_sessions h' = hb_sessions h"
proof (cases "map_of (hb_stagingSessions h) n")
  case None
  with h show ?thesis by (simp add: UnregisterStaging_def)
next
  case (Some p)
  obtain h1 where c: "close_send p h = Inr h1" "same_for (- {p}) h h1"
    using close_send_open registered_open [OF h] Some by metis
  with hub_ok_remove_staging [OF h c(2) Some] Some show ?thesis
    by (auto simp: UnregisterStaging_def same_for_def)
qed

lemma teardown_ok:
  assumes h: "hub_ok h"
  shows "\<exists>new h'. teardown_node n p h = (new, h') \<and> hub_ok h'
    \<and> (if map_of (hb_sessions h) n = Some p then new = [(n, False)] \<and> map_of (hb_sessions h') = (map_of (hb_sessions h))(n := None)
       else new = [] \<and> h' = h)"
  using hub_ok_remove [OF h same_for_refl] h
  by (auto simp: teardown_node_def UnregisterIfSame_def AList.delete_conv)

lemma map_of_filter_key: "map_of (filter P m) n \<noteq> None \<Longrightarrow> map_of m n \<noteq> None"
  by (induction m) (auto split: if_splits)

lemma drop_cluster_ok:
  assumes h: "hub_ok h"
  shows "\<exists>h'. UnregisterCluster c h = Inr h' \<and> hub_ok h' \<and> (\<forall>n. map_of (hb_sessions h') n \<noteq> None \<longrightarrow> map_of (hb_sessions h) n \<noteq> None)"
proof -
  define gone where "gone = (\<lambda>(n :: uuid, p). se_ClusterID (sess h p) = c)"
  let ?out = "map snd (filter gone (hb_sessions h))" and ?s = "filter (\<lambda>x. \<not> gone x) (hb_sessions h)"
  have d: "distinct (map snd (hb_sessions h))" "snd ` set (hb_sessions h) \<inter> snd ` set (hb_stagingSessions h) = {}"
    using h by (simp_all add: hub_ok_def refs_def)
  have "set ?out \<subseteq> set (refs h)" by (auto simp: refs_def)
  with h have o: "\<forall>p\<in>set ?out. open_ref h p" unfolding hub_ok_def by blast
  obtain h1 where h1: "close_all ?out h = Inr h1" "same_for (- set ?out) h h1"
    using close_all_open [OF distinct_map_sub [OF d(1)] o] by blast
  have same: "hb_sessions h1 = hb_sessions h" "hb_stagingSessions h1 = hb_stagingSessions h"
    using h1(2) by (simp_all add: same_for_def)
  have u: "UnregisterCluster c h = Inr (h1\<lparr>hb_sessions := ?s\<rparr>)"
    using h1(1) same(1) by (simp add: UnregisterCluster_def Let_def gone_def)
  have "x = y" if "x \<in> set (hb_sessions h)" "y \<in> set (hb_sessions h)" "snd x = snd y" for x y
    using that d(1) by (auto simp: distinct_map inj_on_def)
  then have "snd ` set ?s \<inter> set ?out = {}" by fastforce
  moreover have "set ?out \<subseteq> snd ` set (hb_sessions h)" by (simp add: image_mono)
  then have "snd ` set (hb_stagingSessions h) \<inter> set ?out = {}" using d(2) by blast
  ultimately have "hub_ok (h1\<lparr>hb_sessions := ?s, hb_stagingSessions := hb_stagingSessions h\<rparr>)"
    using hub_ok_filter [OF h h1(2), of "\<lambda>x. \<not> gone x" "\<lambda>_. True"] by simp
  then have "hub_ok (h1\<lparr>hb_sessions := ?s\<rparr>)" using same(2) by (simp add: set_same)
  moreover have "map_of ?s n \<noteq> None \<longrightarrow> map_of (hb_sessions h) n \<noteq> None" for n
    using map_of_filter_key [of "\<lambda>x. \<not> gone x" "hb_sessions h" n] by blast
  ultimately show ?thesis using u by auto
qed

lemma drain_ok:
  assumes h: "hub_ok h"
  shows "\<exists>h'. DrainAll h = Inr h' \<and> hub_ok h' \<and> hb_sessions h' = []"
proof -
  obtain h1 where h1: "close_all (refs h) h = Inr h1" using close_all_open [of "refs h" h] h by (auto simp: hub_ok_def)
  then have "DrainAll h = Inr (h1\<lparr>hb_sessions := [], hb_stagingSessions := []\<rparr>)"
    by (simp add: DrainAll_def refs_def)
  then show ?thesis by (simp add: hub_ok_def refs_def)
qed

lemma send_ok:
  assumes h: "hub_ok h"
  shows "\<exists>e h'. SendRaw n env h = Inr (e, h') \<and> hub_ok h' \<and> hb_sessions h' = hb_sessions h"
proof (cases "Get n h")
  case None
  with h show ?thesis by (simp add: SendRaw_def)
next
  case (Some p)
  have o: "\<not> se_send_closed (sess h p)" using registered_open [OF h] Some by (auto simp: Get_def open_ref_def)
  have "same_for UNIV h (set_sess p (\<lambda>s. s\<lparr>se_send := se_send s @ [env]\<rparr>) h)" by (rule same_for_buffer)
  from hub_ok_same [OF h this] Some o h show ?thesis
    by (auto simp: SendRaw_def Send_def set_sess_def)
qed

definition settled_by :: "bool \<Rightarrow> status_log \<Rightarrow> 'e hub \<Rightarrow> 'e hub \<Rightarrow> bool" where
  "settled_by exact new h h' \<longleftrightarrow> (\<forall>n. case last_status new n of
      Some b \<Rightarrow> IsConnected_hub n h' = b
    | None \<Rightarrow> (IsConnected_hub n h' \<longrightarrow> IsConnected_hub n h) \<and> (exact \<longrightarrow> IsConnected_hub n h' = IsConnected_hub n h))"

lemma hub_step_ok:
  assumes h: "hub_ok h"
  shows "\<exists>new h'. hub_step x h = Inr (new, h') \<and> hub_ok h' \<and> settled_by (\<not> forced x) new h h'"
proof (cases x)
  case (Connect n c)
  with connect_node_ok [OF h, of n c] show ?thesis by (auto simp: settled_by_def last_status_def IsConnected_hub_def)
next
  case (Teardown n p)
  with teardown_ok [OF h, of n p] show ?thesis
    by (auto simp: settled_by_def last_status_def IsConnected_hub_def split: if_splits)
next
  case (Remove n)
  with remove_ok [OF h, of n] show ?thesis by (auto simp: settled_by_def last_status_def IsConnected_hub_def)
next
  case (RemoveCluster c)
  with drop_cluster_ok [OF h, of c] show ?thesis by (auto simp: settled_by_def last_status_def IsConnected_hub_def)
next
  case (StagingConnect n)
  with connect_staging_ok [OF h, of n] show ?thesis by (auto simp: settled_by_def last_status_def IsConnected_hub_def)
next
  case (StagingTeardown n)
  with staging_teardown_ok [OF h, of n] show ?thesis by (auto simp: settled_by_def last_status_def IsConnected_hub_def)
next
  case Drain
  with drain_ok [OF h] show ?thesis by (auto simp: settled_by_def last_status_def IsConnected_hub_def)
next
  case (SendTo n env)
  with send_ok [OF h, of n env] show ?thesis by (auto simp: settled_by_def last_status_def IsConnected_hub_def)
qed

lemma last_status_append: "last_status (log @ new) n = (case last_status new n of Some b \<Rightarrow> Some b | None \<Rightarrow> last_status log n)"
  by (auto simp: last_status_def map_add_def split: option.splits)

definition status_ok :: "bool \<Rightarrow> status_log \<Rightarrow> 'e hub \<Rightarrow> bool" where
  "status_ok exact log h \<longleftrightarrow> (\<forall>n. (IsConnected_hub n h \<longrightarrow> last_status log n = Some True)
     \<and> (exact \<longrightarrow> last_status log n = Some True \<longrightarrow> IsConnected_hub n h))"

lemma status_ok_step:
  assumes s: "status_ok e log h" and n: "settled_by e' new h h'"
  shows "status_ok (e \<and> e') (log @ new) h'"
  unfolding status_ok_def
proof
  fix n
  have S: "IsConnected_hub n h \<longrightarrow> last_status log n = Some True" "e \<longrightarrow> last_status log n = Some True \<longrightarrow> IsConnected_hub n h"
    using s by (simp_all add: status_ok_def)
  have N: "case last_status new n of Some b \<Rightarrow> IsConnected_hub n h' = b
    | None \<Rightarrow> (IsConnected_hub n h' \<longrightarrow> IsConnected_hub n h) \<and> (e' \<longrightarrow> IsConnected_hub n h' = IsConnected_hub n h)"
    using n by (simp add: settled_by_def)
  show "(IsConnected_hub n h' \<longrightarrow> last_status (log @ new) n = Some True)
      \<and> (e \<and> e' \<longrightarrow> last_status (log @ new) n = Some True \<longrightarrow> IsConnected_hub n h')"
  proof (cases "last_status new n")
    case None
    then have l: "last_status (log @ new) n = last_status log n" by (simp add: last_status_append)
    from N None have "IsConnected_hub n h' \<longrightarrow> IsConnected_hub n h" "e' \<longrightarrow> IsConnected_hub n h' = IsConnected_hub n h"
      by simp_all
    with S show ?thesis unfolding l by blast
  next
    case (Some b)
    then have "last_status (log @ new) n = Some b" by (simp add: last_status_append)
    with N Some show ?thesis by simp
  qed
qed

lemma run_hub_ok:
  assumes "hub_ok h" and "status_ok e log h"
  shows "\<exists>log' h'. run_hub xs log h = Inr (log', h') \<and> hub_ok h' \<and> status_ok (e \<and> list_all (\<lambda>x. \<not> forced x) xs) log' h'"
  using assms
proof (induction xs arbitrary: log h e)
  case (Cons x xs)
  obtain new h1 where s: "hub_step x h = Inr (new, h1)" "hub_ok h1" "settled_by (\<not> forced x) new h h1"
    using hub_step_ok [OF Cons.prems(1)] by blast
  from Cons.IH [OF s(2) status_ok_step [OF Cons.prems(2) s(3)]] s(1) show ?case by simp
qed simp

section \<open>Sends and status writes between the locks\<close>

text \<open>
  What the goroutines hold and have still to write: the sessions they looked up or made, with the node
  they are of; the status writes under way, with the session of the connection that makes them; the
  statuses as the database got them.  \<open>sv_decided\<close> is a ghost, the statuses in the order the connections
  decided them, and so is \<open>sv_mixed\<close>, the nodes whose newest status was decided while an older write of
  the node was under way, or was lost.
\<close>

record 'e server =
  sv_hub :: "'e hub"
  sv_held :: "(uuid \<times> session_ref) list"
  sv_writes :: "(session_ref \<times> uuid \<times> bool) list"
  sv_status :: status_log
  sv_decided :: status_log
  sv_mixed :: "uuid list"

definition New_server :: "'e server" where
  "New_server = \<lparr>sv_hub = New_hub, sv_held = [], sv_writes = [], sv_status = [], sv_decided = [], sv_mixed = []\<rparr>"

text \<open>
  \<open>BeatWrite\<close> is the write of \<open>UpdateHeartbeat\<close>, which sets the status to connected; \<open>EndWrite\<close> and
  \<open>LoseWrite\<close> end a write under way, the latter with the error the code drops.
\<close>

datatype 'e server_op =
    Locked "'e hub_op"
  | LookUp uuid
  | SendHeld uuid session_ref 'e
  | BeatWrite uuid session_ref
  | EndWrite nat
  | LoseWrite nat

definition write_under_way :: "'e server \<Rightarrow> uuid \<Rightarrow> bool" where
  "write_under_way s n = (n \<in> set (map (fst \<circ> snd) (sv_writes s)))"

definition mark_mixed :: "bool \<Rightarrow> uuid \<Rightarrow> 'e server \<Rightarrow> 'e server" where
  "mark_mixed m n s = s\<lparr>sv_mixed := (if m then List.insert n (sv_mixed s) else removeAll n (sv_mixed s))\<rparr>"

definition begin_write :: "bool \<Rightarrow> session_ref \<Rightarrow> uuid \<times> bool \<Rightarrow> 'e server \<Rightarrow> 'e server" where
  "begin_write m p w s = (mark_mixed (m \<or> write_under_way s (fst w)) (fst w) s)\<lparr>sv_writes := sv_writes s @ [(p, w)]\<rparr>"

definition end_write :: "nat \<Rightarrow> 'e server \<Rightarrow> 'e server" where
  "end_write k s = s\<lparr>sv_writes := take k (sv_writes s) @ drop (Suc k) (sv_writes s)\<rparr>"

definition writing_session :: "'e hub_op \<Rightarrow> 'e hub \<Rightarrow> session_ref" where
  "writing_session x h = (case x of Teardown _ p \<Rightarrow> p | _ \<Rightarrow> length (hb_heap h))"

definition decide_status :: "'e hub_op \<Rightarrow> status_log \<Rightarrow> 'e hub \<Rightarrow> 'e server \<Rightarrow> 'e server" where
  "decide_status x new h s = fold (begin_write False (writing_session x (sv_hub s))) new
     (s\<lparr>sv_hub := h, sv_decided := sv_decided s @ new,
        sv_held := (case x of Connect n _ \<Rightarrow> (n, length (hb_heap (sv_hub s))) # sv_held s | _ \<Rightarrow> sv_held s)\<rparr>)"

text \<open>
  A connection writes \<open>connected\<close>, then handles its heartbeats one by one, then ends: it takes the next of
  these steps only when its last write is done.
\<close>

fun server_step :: "'e server_op \<Rightarrow> 'e server \<Rightarrow> panic + 'e server" where
  "server_step (Locked x) s =
     (if (case x of Teardown _ p \<Rightarrow> p \<in> set (map fst (sv_writes s)) | _ \<Rightarrow> False) then Inr s
      else map_sum id (\<lambda>(new, h). decide_status x new h s) (hub_step x (sv_hub s)))"
| "server_step (LookUp n) s = Inr (case Get n (sv_hub s) of
      Some p \<Rightarrow> s\<lparr>sv_held := (n, p) # sv_held s\<rparr>
    | None \<Rightarrow> s)"
| "server_step (SendHeld n p env) s =
     (if (n, p) \<in> set (sv_held s) then map_sum id (\<lambda>(_, h). s\<lparr>sv_hub := h\<rparr>) (Send env p (sv_hub s)) else Inr s)"
| "server_step (BeatWrite n p) s = Inr
     (if (n, p) \<in> set (sv_held s) \<and> p \<notin> set (map fst (sv_writes s))
      then begin_write (\<not> IsConnected_hub n (sv_hub s)) p (n, True) s else s)"
| "server_step (EndWrite k) s = Inr
     (if k < length (sv_writes s) then end_write k (s\<lparr>sv_status := sv_status s @ [snd (sv_writes s ! k)]\<rparr>) else s)"
| "server_step (LoseWrite k) s = Inr
     (if k < length (sv_writes s) then end_write k (mark_mixed True (fst (snd (sv_writes s ! k))) s) else s)"

fun run_server :: "'e server_op list \<Rightarrow> 'e server \<Rightarrow> panic + 'e server" where
  "run_server [] s = Inr s"
| "run_server (x # xs) s = (case server_step x s of Inl e \<Rightarrow> Inl e | Inr s \<Rightarrow> run_server xs s)"

definition removes_session :: "'e server_op \<Rightarrow> bool" where
  "removes_session x = (case x of Locked y \<Rightarrow> forced y | _ \<Rightarrow> False)"

definition settled_status :: "'e server \<Rightarrow> uuid \<Rightarrow> bool" where
  "settled_status s n \<longleftrightarrow> \<not> write_under_way s n \<and> n \<notin> set (sv_mixed s)"

section \<open>What the database ends up with\<close>

definition of_node :: "uuid \<Rightarrow> status_log \<Rightarrow> status_log" where
  "of_node n = filter (\<lambda>x. fst x = n)"

lemma of_node_simps [simp]:
  "of_node n [] = []" "of_node n (xs @ ys) = of_node n xs @ of_node n ys"
  "of_node n (x # xs) = (if fst x = n then x # of_node n xs else of_node n xs)"
  by (simp_all add: of_node_def)

lemma last_status_of_node: "last_status log n = last_status (of_node n log) n"
  by (induction log) (auto simp: last_status_def map_add_def split: option.splits)

definition writes_ok :: "'e server \<Rightarrow> bool" where
  "writes_ok s \<longleftrightarrow> (\<forall>n. n \<notin> set (sv_mixed s) \<longrightarrow> length (of_node n (map snd (sv_writes s))) \<le> 1
     \<and> last_status (sv_status s @ map snd (sv_writes s)) n = last_status (sv_decided s) n)"

lemma under_way_of_node: "write_under_way s n \<longleftrightarrow> of_node n (map snd (sv_writes s)) \<noteq> []"
  by (auto simp: write_under_way_def of_node_def filter_empty_conv image_iff)

lemma last_status_one: "last_status [w] n = (if fst w = n then Some (snd w) else None)"
  by (cases w) (simp add: last_status_def)

lemma writes_ok_begin:
  assumes s: "writes_ok s" and m: "\<not> m \<longrightarrow> last_status D (fst w) = Some (snd w)"
    and D: "\<And>n. n \<noteq> fst w \<Longrightarrow> last_status D n = last_status (sv_decided s) n"
  shows "writes_ok (begin_write m p w (s\<lparr>sv_hub := h, sv_decided := D, sv_held := l\<rparr>))"
  unfolding writes_ok_def
proof (intro allI impI)
  let ?s = "begin_write m p w (s\<lparr>sv_hub := h, sv_decided := D, sv_held := l\<rparr>)"
  fix n assume n: "n \<notin> set (sv_mixed ?s)"
  show "length (of_node n (map snd (sv_writes ?s))) \<le> 1
     \<and> last_status (sv_status ?s @ map snd (sv_writes ?s)) n = last_status (sv_decided ?s) n"
  proof (cases "n = fst w")
    case True
    with n have "\<not> m" "of_node n (map snd (sv_writes s)) = []"
      by (auto simp: begin_write_def mark_mixed_def under_way_of_node split: if_splits)
    with True m show ?thesis
      by (simp add: begin_write_def mark_mixed_def last_status_append last_status_one del: append_assoc flip: append_assoc)
  next
    case False
    with n have "n \<notin> set (sv_mixed s)" by (auto simp: begin_write_def mark_mixed_def split: if_splits)
    with s False D [OF False] show ?thesis
      by (simp add: writes_ok_def begin_write_def mark_mixed_def last_status_append last_status_one del: append_assoc flip: append_assoc)
  qed
qed

lemma writes_ok_end:
  assumes s: "writes_ok s" and k: "k < length (sv_writes s)"
  shows "writes_ok (end_write k (s\<lparr>sv_status := sv_status s @ [snd (sv_writes s ! k)]\<rparr>))" (is "writes_ok ?t")
  unfolding writes_ok_def
proof (intro allI impI)
  fix n assume "n \<notin> set (sv_mixed ?t)"
  then have n: "n \<notin> set (sv_mixed s)" by (simp add: end_write_def)
  define a w b where "a = map snd (take k (sv_writes s))" and "w = snd (sv_writes s ! k)"
    and "b = map snd (drop (Suc k) (sv_writes s))"
  have "map snd (sv_writes s) = a @ w # b"
    using id_take_nth_drop [OF k] unfolding a_def w_def b_def by (metis list.simps(9) map_append)
  with s n have o: "length (of_node n (a @ w # b)) \<le> 1"
    "last_status (sv_status s @ a @ w # b) n = last_status (sv_decided s) n" unfolding writes_ok_def by auto
  have t: "map snd (sv_writes ?t) = a @ b" "sv_status ?t = sv_status s @ [w]" "sv_decided ?t = sv_decided s"
    by (simp_all add: end_write_def a_def b_def w_def)
  have "of_node n ((sv_status s @ [w]) @ a @ b) = of_node n (sv_status s @ a @ w # b)"
    using o(1) by (auto split: if_splits)
  then have "last_status ((sv_status s @ [w]) @ a @ b) n = last_status (sv_decided s) n"
    using o(2) last_status_of_node by metis
  moreover have "length (of_node n (a @ b)) \<le> 1" using o(1) by (auto split: if_splits)
  ultimately show "length (of_node n (map snd (sv_writes ?t))) \<le> 1
     \<and> last_status (sv_status ?t @ map snd (sv_writes ?t)) n = last_status (sv_decided ?t) n" unfolding t by blast
qed

lemma writes_ok_lose:
  assumes s: "writes_ok s" and k: "k < length (sv_writes s)"
  shows "writes_ok (end_write k (mark_mixed True (fst (snd (sv_writes s ! k))) s))" (is "writes_ok ?t")
  unfolding writes_ok_def
proof (intro allI impI)
  fix n assume "n \<notin> set (sv_mixed ?t)"
  then have n: "n \<notin> set (sv_mixed s)" "fst (snd (sv_writes s ! k)) \<noteq> n" by (auto simp: end_write_def mark_mixed_def)
  define a w b where "a = map snd (take k (sv_writes s))" and "w = snd (sv_writes s ! k)"
    and "b = map snd (drop (Suc k) (sv_writes s))"
  have "map snd (sv_writes s) = a @ w # b"
    using id_take_nth_drop [OF k] unfolding a_def w_def b_def by (metis list.simps(9) map_append)
  with s n have o: "length (of_node n (a @ w # b)) \<le> 1"
    "last_status (sv_status s @ a @ w # b) n = last_status (sv_decided s) n" unfolding writes_ok_def by auto
  have t: "map snd (sv_writes ?t) = a @ b" "sv_status ?t = sv_status s" "sv_decided ?t = sv_decided s"
    by (simp_all add: end_write_def mark_mixed_def a_def b_def)
  have w: "fst w \<noteq> n" using n(2) by (simp add: w_def)
  then have "of_node n (sv_status s @ a @ b) = of_node n (sv_status s @ a @ w # b)" by simp
  then have "last_status (sv_status s @ a @ b) n = last_status (sv_decided s) n"
    using o(2) last_status_of_node by metis
  moreover have "length (of_node n (a @ b)) \<le> 1" using o(1) w by simp
  ultimately show "length (of_node n (map snd (sv_writes ?t))) \<le> 1
     \<and> last_status (sv_status ?t @ map snd (sv_writes ?t)) n = last_status (sv_decided ?t) n" unfolding t by blast
qed

lemma hub_step_decides_one:
  assumes "hub_step x h = Inr (new, h')"
  shows "new = [] \<or> (\<exists>w. new = [w])"
  using assms by (cases x) (auto simp: teardown_node_def map_sum_def split: sum.splits prod.splits bool.splits)

definition server_ok :: "bool \<Rightarrow> 'e server \<Rightarrow> bool" where
  "server_ok e s \<longleftrightarrow> hub_ok (sv_hub s) \<and> status_ok e (sv_decided s) (sv_hub s) \<and> writes_ok s"

lemma server_ok_decide:
  assumes s: "server_ok e s" and h: "hub_step x (sv_hub s) = Inr (new, h)"
  shows "server_ok (e \<and> \<not> forced x) (decide_status x new h s)"
proof -
  have S: "hub_ok (sv_hub s)" "status_ok e (sv_decided s) (sv_hub s)" "writes_ok s" using s by (simp_all add: server_ok_def)
  from hub_step_ok [OF S(1), of x] h have n: "hub_ok h" "settled_by (\<not> forced x) new (sv_hub s) h" by auto
  have d: "sv_hub (decide_status x new h s) = h \<and> sv_decided (decide_status x new h s) = sv_decided s @ new"
    using hub_step_decides_one [OF h] by (auto simp: decide_status_def begin_write_def mark_mixed_def)
  have "writes_ok (decide_status x new h s)"
    using hub_step_decides_one [OF h]
  proof (elim disjE exE)
    assume "new = []"
    with S(3) show ?thesis by (simp add: decide_status_def writes_ok_def)
  next
    fix w assume w: "new = [w]"
    show ?thesis
      unfolding decide_status_def w
      by (simp, rule writes_ok_begin [OF S(3)]) (simp_all add: last_status_append last_status_one)
  qed
  with n(1) status_ok_step [OF S(2) n(2)] d show ?thesis by (simp add: server_ok_def)
qed

lemma Send_keeps_hub:
  assumes h: "hub_ok h" and s: "Send env p h = Inr (b, h')"
  shows "hub_ok h' \<and> hb_sessions h' = hb_sessions h"
proof -
  have u: "hub_ok (set_sess p (\<lambda>s. s\<lparr>se_send := se_send s @ [env]\<rparr>) h)"
    by (rule hub_ok_same [OF h same_for_buffer])
  from s h u show ?thesis by (auto simp: Send_def set_sess_def split: if_splits)
qed

lemma Send_to_registered:
  assumes "hub_ok h" and "Get n h = Some p"
  shows "\<exists>r. Send env p h = Inr r"
  using registered_open [OF assms(1)] assms(2) by (auto simp: Get_def Send_def open_ref_def)

lemma server_step_ok:
  assumes s: "server_ok e s"
  shows "case server_step x s of
      Inl err \<Rightarrow> err = SendOnClosedChannel \<and> (\<exists>n p env. x = SendHeld n p env \<and> (n, p) \<in> set (sv_held s) \<and> Get n (sv_hub s) \<noteq> Some p)
    | Inr s' \<Rightarrow> server_ok (e \<and> \<not> removes_session x) s'"
proof -
  have S: "hub_ok (sv_hub s)" "status_ok e (sv_decided s) (sv_hub s)" "writes_ok s" using s by (simp_all add: server_ok_def)
  have weak: "server_ok (e \<and> b) s" for b using s by (auto simp: server_ok_def status_ok_def)
  show ?thesis
  proof (cases x)
    case (Locked y)
    obtain new h where h: "hub_step y (sv_hub s) = Inr (new, h)" using hub_step_ok [OF S(1), of y] by blast
    from server_ok_decide [OF s h] weak h Locked show ?thesis by (simp add: removes_session_def)
  next
    case (LookUp n)
    with s show ?thesis by (auto simp: removes_session_def server_ok_def writes_ok_def split: option.split)
  next
    case (SendHeld n p env)
    show ?thesis
    proof (cases "(n, p) \<in> set (sv_held s)")
      case False
      with SendHeld s show ?thesis by (simp add: removes_session_def)
    next
      case held: True
      show ?thesis
      proof (cases "Send env p (sv_hub s)")
        case (Inl err)
        then have "err = SendOnClosedChannel" by (auto simp: Send_def split: if_splits)
        moreover have "Get n (sv_hub s) \<noteq> Some p" using Send_to_registered [OF S(1)] Inl by (metis Inl_Inr_False)
        ultimately show ?thesis using SendHeld held Inl by simp
      next
        case (Inr r)
        obtain b h where r: "r = (b, h)" by (cases r)
        from Send_keeps_hub [OF S(1), of env p b h] Inr r have "hub_ok h" "hb_sessions h = hb_sessions (sv_hub s)" by auto
        with S SendHeld held Inr r show ?thesis
          by (simp add: removes_session_def server_ok_def status_ok_def writes_ok_def IsConnected_hub_def)
      qed
    qed
  next
    case (BeatWrite n p)
    have d: "\<not> \<not> IsConnected_hub n (sv_hub s) \<longrightarrow> last_status (sv_decided s) n = Some True"
      using S(2) by (simp add: status_ok_def)
    have "writes_ok (begin_write (\<not> IsConnected_hub n (sv_hub s)) p (n, True)
        (s\<lparr>sv_hub := sv_hub s, sv_decided := sv_decided s, sv_held := sv_held s\<rparr>))"
      by (rule writes_ok_begin [OF S(3)]) (use d in simp_all)
    with S weak BeatWrite show ?thesis
      by (simp add: removes_session_def server_ok_def begin_write_def mark_mixed_def)
  next
    case (EndWrite k)
    with S weak writes_ok_end [OF S(3), of k] show ?thesis by (simp add: removes_session_def server_ok_def end_write_def)
  next
    case (LoseWrite k)
    with S weak writes_ok_lose [OF S(3), of k] show ?thesis by (simp add: removes_session_def server_ok_def end_write_def mark_mixed_def)
  qed
qed

lemma run_server_ok:
  assumes "server_ok e s"
  shows "case run_server xs s of
      Inl err \<Rightarrow> err = SendOnClosedChannel \<and> (\<exists>pre n p env post s'. xs = pre @ SendHeld n p env # post
        \<and> run_server pre s = Inr s' \<and> (n, p) \<in> set (sv_held s') \<and> Get n (sv_hub s') \<noteq> Some p)
    | Inr s' \<Rightarrow> server_ok (e \<and> list_all (\<lambda>x. \<not> removes_session x) xs) s'"
  using assms
proof (induction xs arbitrary: s e)
  case (Cons x xs)
  note step = server_step_ok [OF Cons.prems, of x]
  show ?case
  proof (cases "server_step x s")
    case (Inl err)
    with step obtain n p env where x: "err = SendOnClosedChannel" "x = SendHeld n p env" "(n, p) \<in> set (sv_held s)"
      "Get n (sv_hub s) \<noteq> Some p" by auto
    then have "x # xs = [] @ SendHeld n p env # xs" "run_server [] s = Inr s" by simp_all
    with x Inl show ?thesis by (simp, blast)
  next
    case (Inr s1)
    with step have s1: "server_ok (e \<and> \<not> removes_session x) s1" by simp
    note IH = Cons.IH [OF s1]
    show ?thesis
    proof (cases "run_server xs s1")
      case Inl': (Inl err)
      with IH obtain pre n p env post s' where p: "err = SendOnClosedChannel" "xs = pre @ SendHeld n p env # post"
        "run_server pre s1 = Inr s'" "(n, p) \<in> set (sv_held s')" "Get n (sv_hub s') \<noteq> Some p" by auto
      then have "x # xs = (x # pre) @ SendHeld n p env # post" "run_server (x # pre) s = Inr s'" using Inr by simp_all
      with p Inl' Inr show ?thesis by (simp, blast)
    next
      case Inr': (Inr s2)
      with IH Inr show ?thesis by simp
    qed
  qed
qed simp


text \<open>
  Node 1 reconnects while its first connection is still there; the old one ends and decides nothing.
  Node 2 comes and goes.
\<close>

definition reconnect_run :: "nat server_op list" where
  "reconnect_run = [Locked (Connect 1 9), EndWrite 0, LookUp 1, SendHeld 1 0 5, Locked (Connect 1 9), EndWrite 0, Locked (Teardown 1 0),
     Locked (Connect 2 9), EndWrite 0, BeatWrite 2 2, EndWrite 0, Locked (Teardown 2 2), EndWrite 0]"


text \<open>
  The status of a node is written after the lock is released: when a node reconnects while the end of its
  last connection has still to write, the late \<open>disconnected\<close> overwrites the \<open>connected\<close> of the new one,
  and stays until a heartbeat writes the status again.
\<close>

lemma late_disconnect_overwrites:
  "map_sum (\<lambda>_. ()) (\<lambda>s. (last_status (sv_status s) 1, IsConnected_hub 1 (sv_hub s), sv_writes s = []))
     (run_server [Locked (Connect 1 9), EndWrite 0, Locked (Teardown 1 0), Locked (Connect 1 9), EndWrite 1, EndWrite 0]
        (New_server :: nat server)) = Inr (Some False, True, True)"
  by code_simp

text \<open>A node that reconnects between the look-up and the send makes the send panic, and the run with it.\<close>

lemma send_to_evicted_session_panics:
  "map_sum id (\<lambda>_. ()) (run_server [Locked (Connect 1 9), LookUp 1, Locked (Connect 1 9), SendHeld 1 0 (5 :: nat)] New_server)
     = Inl SendOnClosedChannel"
  by code_simp

text \<open>
  \<open>SendRaw\<close> looks the session up and sends to it in two steps.  When the node reconnects in between,
  the session it holds has been evicted and its channel closed, and the send panics instead of reporting
  a node that is not connected.
\<close>

theorem stale_session_send_panics:
  assumes "hub_ok h" and "Get n h = Some p" and "connect_node n c h = Inr (q, h')"
  shows "Send env p h' = Inl SendOnClosedChannel \<and> Get n h' = Some q \<and> q \<noteq> p"
proof -
  obtain p' h0 where n: "NewSession n c h = (p', h0)" by (cases "NewSession n c h")
  note N = NewSession_ok [OF assms(1) n]
  have g: "map_of (hb_sessions h0) n = Some p" using assms(2) N(5) by (simp add: Get_def)
  have o: "open_ref h0 p" using registered_open [OF N(1)] g by blast
  have r: "connect_node n c h = Inr (p', (\<lambda>h. h\<lparr>hb_sessions := map_put n p' (hb_sessions h)\<rparr>)
      (Close p (set_sess p (\<lambda>s. s\<lparr>se_send_closed := True\<rparr>) h0)))"
    using g N(4) o by (simp add: connect_node_def n Register_def Let_def close_send_def open_ref_def)
  have "p < length (hb_heap h0)" using o by (simp add: open_ref_def)
  with r assms(3) have "se_send_closed (sess h' p)" by (auto simp: sess_def Close_def set_sess_def)
  moreover from r assms(3) have "q = p'" "map_of (hb_sessions h') n = Some q" by (auto simp: map_of_put)
  moreover have "p' \<noteq> p" using N(3) registered_open [OF N(1)] g by blast
  ultimately show ?thesis by (simp add: Send_def Get_def)
qed

definition one_node_hub :: "nat hub" where
  "one_node_hub = (case run_hub [Connect 1 9] [] New_hub of Inr (_, h) \<Rightarrow> h | Inl _ \<Rightarrow> New_hub)"

theorem stale_session_send_panics_witness:
  "\<exists>q h'. connect_node 1 9 one_node_hub = Inr (q, h') \<and> Send 5 0 h' = Inl SendOnClosedChannel"
proof -
  have i: "hub_ok (New_hub :: nat hub)" "status_ok True [] (New_hub :: nat hub)"
    by (simp_all add: hub_ok_def New_hub_def refs_def status_ok_def IsConnected_hub_def last_status_def)
  have h: "hub_ok one_node_hub" using run_hub_ok [OF i, of "[Connect 1 9]"] by (auto simp: one_node_hub_def)
  from connect_node_ok [OF h] obtain q h' where c: "connect_node 1 9 one_node_hub = Inr (q, h')" by blast
  have "Get 1 one_node_hub = Some 0" by code_simp
  from stale_session_send_panics [OF h this c, of 5] c show ?thesis by blast
qed

end
