(* ===== verification/TaskStore.thy ===== *)
theory TaskStore
  imports Prelude
begin

text \<open>
  The task table of \<open>internal/server/db/queries/task_results.go\<close>, one row per dispatched task and its
  status \<open>queued\<close>, \<open>sent\<close>, \<open>ack\<close>, then \<open>success\<close>, \<open>failure\<close> or \<open>timeout\<close>; the sweeper of
  \<open>internal/server/scheduler/tasks.go\<close>; and which pending tasks a reconnecting agent gets again
  (\<open>connectNode\<close> of \<open>internal/server/api/handlers/agent.go\<close>).  A task's parameters have type \<open>'p\<close>, its
  output \<open>'o\<close>: the JSON text is kept as the value it encodes.
\<close>

record 'o response =
  rp_output :: "'o option"
  rp_error :: string

record ('p, 'o) task_row =
  tr_NodeID :: uuid
  tr_TaskID :: uuid
  tr_TaskType :: string
  tr_Status :: string
  tr_RequestPayload :: 'p
  tr_ResponsePayload :: "'o response option"
  tr_QueuedAt :: instant
  tr_CompletedAt :: "instant option"
  tr_AckTimeoutSecs :: "int option"

type_synonym ('p, 'o) task_table = "('p, 'o) task_row list"

text \<open>\<open>task_id\<close> is unique: a second row for a task is refused.\<close>

definition insert_task ::
  "instant \<Rightarrow> uuid \<Rightarrow> uuid \<Rightarrow> string \<Rightarrow> 'p \<Rightarrow> int option \<Rightarrow> ('p, 'o) task_table \<Rightarrow> string + ('p, 'o) task_table" where
  "insert_task now nodeID taskID taskType payload ack tbl =
     (if taskID \<in> set (map tr_TaskID tbl) then Inl ''duplicate key value violates unique constraint''
      else Inr (tbl @ [\<lparr>tr_NodeID = nodeID, tr_TaskID = taskID, tr_TaskType = taskType, tr_Status = ''queued'',
              tr_RequestPayload = payload, tr_ResponsePayload = None, tr_QueuedAt = now, tr_CompletedAt = None,
              tr_AckTimeoutSecs = ack\<rparr>]))"

definition TaskCreate ::
  "instant \<Rightarrow> uuid \<Rightarrow> uuid \<Rightarrow> string \<Rightarrow> 'p \<Rightarrow> ('p, 'o) task_table \<Rightarrow> string + ('p, 'o) task_table" where
  "TaskCreate now nodeID taskID taskType payload = insert_task now nodeID taskID taskType payload None"

definition CreateWithAckTimeout ::
  "instant \<Rightarrow> uuid \<Rightarrow> uuid \<Rightarrow> string \<Rightarrow> 'p \<Rightarrow> int \<Rightarrow> ('p, 'o) task_table \<Rightarrow> string + ('p, 'o) task_table" where
  "CreateWithAckTimeout now nodeID taskID taskType payload secs =
     insert_task now nodeID taskID taskType payload (Some secs)"

text \<open>\<open>UPDATE ... WHERE task_id = $1\<close>.\<close>

definition update_task :: "uuid \<Rightarrow> (('p, 'o) task_row \<Rightarrow> ('p, 'o) task_row) \<Rightarrow> ('p, 'o) task_table \<Rightarrow> ('p, 'o) task_table" where
  "update_task taskID f = map (\<lambda>r. if tr_TaskID r = taskID then f r else r)"

definition SetSent :: "uuid \<Rightarrow> ('p, 'o) task_table \<Rightarrow> ('p, 'o) task_table" where
  "SetSent taskID = update_task taskID (\<lambda>r. r\<lparr>tr_Status := ''sent''\<rparr>)"

definition SetAck :: "uuid \<Rightarrow> ('p, 'o) task_table \<Rightarrow> ('p, 'o) task_table" where
  "SetAck taskID = update_task taskID (\<lambda>r. r\<lparr>tr_Status := ''ack''\<rparr>)"

definition Complete ::
  "instant \<Rightarrow> uuid \<Rightarrow> bool \<Rightarrow> 'o response \<Rightarrow> ('p, 'o) task_table \<Rightarrow> ('p, 'o) task_table" where
  "Complete now taskID success payload = update_task taskID (\<lambda>r.
     r\<lparr>tr_Status := (if success then ''success'' else ''failure''), tr_ResponsePayload := Some payload,
       tr_CompletedAt := Some now\<rparr>)"

definition MarkOrphaned :: "instant \<Rightarrow> uuid \<Rightarrow> string \<Rightarrow> ('p, 'o) task_table \<Rightarrow> ('p, 'o) task_table" where
  "MarkOrphaned now taskID reason = update_task taskID (\<lambda>r.
     if tr_Status r \<in> {''sent'', ''ack''}
     then r\<lparr>tr_Status := ''timeout'', tr_ResponsePayload := Some \<lparr>rp_output = None, rp_error = reason\<rparr>,
            tr_CompletedAt := Some now\<rparr>
     else r)"

definition GetByTaskID :: "uuid \<Rightarrow> ('p, 'o) task_table \<Rightarrow> ('p, 'o) task_row option" where
  "GetByTaskID taskID tbl = find (\<lambda>r. tr_TaskID r = taskID) tbl"

text \<open>\<open>TimeoutStale\<close>: \<open>COALESCE(ack_timeout_secs, ackTimeout)\<close> for an acknowledged task; also the rows affected.\<close>

definition is_stale :: "instant \<Rightarrow> duration \<Rightarrow> duration \<Rightarrow> duration \<Rightarrow> ('p, 'o) task_row \<Rightarrow> bool" where
  "is_stale now sentTimeout ackTimeout queuedTimeout r =
     (tr_Status r = ''sent'' \<and> tr_QueuedAt r < now - sentTimeout
      \<or> tr_Status r = ''ack'' \<and> tr_QueuedAt r < now - (case tr_AckTimeoutSecs r of Some s \<Rightarrow> s * second | None \<Rightarrow> ackTimeout)
      \<or> tr_Status r = ''queued'' \<and> tr_QueuedAt r < now - queuedTimeout)"

definition TimeoutStale ::
  "instant \<Rightarrow> duration \<Rightarrow> duration \<Rightarrow> duration \<Rightarrow> ('p, 'o) task_table \<Rightarrow> nat \<times> ('p, 'o) task_table" where
  "TimeoutStale now sentTimeout ackTimeout queuedTimeout tbl =
     (length (filter (is_stale now sentTimeout ackTimeout queuedTimeout) tbl),
      map (\<lambda>r. if is_stale now sentTimeout ackTimeout queuedTimeout r
               then r\<lparr>tr_Status := ''timeout'', tr_CompletedAt := Some now\<rparr> else r) tbl)"

definition SentTimeout :: duration where "SentTimeout = 5 * minute"
definition AckTimeout :: duration where "AckTimeout = 10 * minute"
definition QueuedTimeout :: duration where "QueuedTimeout = 30 * minute"

definition sweep :: "instant \<Rightarrow> ('p, 'o) task_table \<Rightarrow> ('p, 'o) task_table" where
  "sweep now tbl = snd (TimeoutStale now SentTimeout AckTimeout QueuedTimeout tbl)"

definition ListPendingByNode :: "uuid \<Rightarrow> ('p, 'o) task_table \<Rightarrow> ('p, 'o) task_row list" where
  "ListPendingByNode nodeID tbl =
     sort_key tr_QueuedAt (filter (\<lambda>r. tr_NodeID r = nodeID \<and> tr_Status r \<in> {''queued'', ''sent''}) tbl)"

section \<open>Tasks of a reconnecting agent\<close>

definition SafeToRetryOnReconnect :: "string \<Rightarrow> bool" where
  "SafeToRetryOnReconnect t =
     (t \<notin> {''pgbackrest.backup'', ''pgbackrest.restore'', ''db.backup'', ''db.restore'', ''exec.run'', ''sync.list'',
           ''sync.send'', ''sync.receive'', ''sync.finish'', ''sync.delete''})"

definition orphan_reason :: string where
  "orphan_reason = ''task was in-flight when agent disconnected; not safe to retry automatically (non-idempotent operation)''"

text \<open>\<open>TaskDispatchPayload\<close>; in the reconnect loop \<open>Session.Send\<close> may refuse it, and its answer is not read.\<close>

record 'p task_dispatch =
  td_TaskID :: uuid
  td_TaskType :: string
  td_Params :: 'p
  td_TimeoutSecs :: int

text \<open>
  One pending task: skipped without parameters (\<open>has_params\<close>, the length of the JSON) or type, orphaned
  when it was sent and is not safe to run twice, else sent, and a queued one advanced.
\<close>

definition resend_task ::
  "instant \<Rightarrow> ('p \<Rightarrow> bool) \<Rightarrow> ('p, 'o) task_row \<Rightarrow> ('p, 'o) task_table \<Rightarrow> 'p task_dispatch list \<times> ('p, 'o) task_table" where
  "resend_task now has_params t tbl =
     (if \<not> has_params (tr_RequestPayload t) \<or> tr_TaskType t = [] then ([], tbl)
      else if tr_Status t = ''sent'' \<and> \<not> SafeToRetryOnReconnect (tr_TaskType t)
      then ([], MarkOrphaned now (tr_TaskID t) orphan_reason tbl)
      else ([\<lparr>td_TaskID = tr_TaskID t, td_TaskType = tr_TaskType t, td_Params = tr_RequestPayload t, td_TimeoutSecs = 60\<rparr>],
            if tr_Status t = ''queued'' then SetSent (tr_TaskID t) tbl else tbl))"

fun resend_tasks ::
  "instant \<Rightarrow> ('p \<Rightarrow> bool) \<Rightarrow> ('p, 'o) task_row list \<Rightarrow> ('p, 'o) task_table \<Rightarrow> 'p task_dispatch list \<times> ('p, 'o) task_table" where
  "resend_tasks now has_params [] tbl = ([], tbl)"
| "resend_tasks now has_params (t # ts) tbl =
     (case resend_task now has_params t tbl of
        (sent, tbl) \<Rightarrow> (case resend_tasks now has_params ts tbl of (later, tbl) \<Rightarrow> (sent @ later, tbl)))"

definition resend_pending ::
  "instant \<Rightarrow> ('p \<Rightarrow> bool) \<Rightarrow> uuid \<Rightarrow> ('p, 'o) task_table \<Rightarrow> 'p task_dispatch list \<times> ('p, 'o) task_table" where
  "resend_pending now has_params nodeID tbl = resend_tasks now has_params (ListPendingByNode nodeID tbl) tbl"

section \<open>Rows and their updates\<close>

lemma update_task_ids [simp]: "(\<And>r. tr_TaskID (f r) = tr_TaskID r) \<Longrightarrow> map tr_TaskID (update_task i f tbl) = map tr_TaskID tbl"
  by (induction tbl) (auto simp: update_task_def)

lemma GetByTaskID_update:
  "(\<And>r. tr_TaskID (f r) = tr_TaskID r) \<Longrightarrow>
   GetByTaskID j (update_task i f tbl) = (if i = j then map_option f (GetByTaskID j tbl) else GetByTaskID j tbl)"
  by (induction tbl) (auto simp: GetByTaskID_def update_task_def)

lemma GetByTaskID_SetSent [simp]: "GetByTaskID j (SetSent i tbl) =
    (if i = j then map_option (\<lambda>r. r\<lparr>tr_Status := ''sent''\<rparr>) (GetByTaskID j tbl) else GetByTaskID j tbl)"
  by (simp add: SetSent_def GetByTaskID_update)

lemma GetByTaskID_SetAck [simp]: "GetByTaskID j (SetAck i tbl) =
    (if i = j then map_option (\<lambda>r. r\<lparr>tr_Status := ''ack''\<rparr>) (GetByTaskID j tbl) else GetByTaskID j tbl)"
  by (simp add: SetAck_def GetByTaskID_update)

lemma GetByTaskID_Complete [simp]: "GetByTaskID j (Complete now i ok p tbl) =
    (if i = j then map_option (\<lambda>r. r\<lparr>tr_Status := (if ok then ''success'' else ''failure''),
        tr_ResponsePayload := Some p, tr_CompletedAt := Some now\<rparr>) (GetByTaskID j tbl) else GetByTaskID j tbl)"
  by (simp add: Complete_def GetByTaskID_update)

lemma GetByTaskID_MarkOrphaned: "GetByTaskID j (MarkOrphaned now i reason tbl) =
    (if i = j then map_option (\<lambda>r. if tr_Status r \<in> {''sent'', ''ack''}
        then r\<lparr>tr_Status := ''timeout'', tr_ResponsePayload := Some \<lparr>rp_output = None, rp_error = reason\<rparr>,
               tr_CompletedAt := Some now\<rparr> else r) (GetByTaskID j tbl) else GetByTaskID j tbl)"
  unfolding MarkOrphaned_def by (rule GetByTaskID_update) simp

lemma GetByTaskID_map:
  assumes "\<And>r. tr_TaskID (f r) = tr_TaskID r"
  shows "GetByTaskID i (map f tbl) = map_option f (GetByTaskID i tbl)"
  by (induction tbl) (auto simp: GetByTaskID_def assms)

lemma GetByTaskID_Some: "GetByTaskID i tbl = Some r \<Longrightarrow> r \<in> set tbl \<and> tr_TaskID r = i"
  by (auto simp: GetByTaskID_def find_Some_iff)

lemma GetByTaskID_distinct:
  "distinct (map tr_TaskID tbl) \<Longrightarrow> r \<in> set tbl \<Longrightarrow> GetByTaskID (tr_TaskID r) tbl = Some r"
proof (induction tbl)
  case (Cons x tbl)
  then show ?case by (cases "tr_TaskID x = tr_TaskID r") (auto simp: GetByTaskID_def image_iff)
qed simp

end
