(* ===== verification/Dispatcher.thy ===== *)
theory Dispatcher
  imports HubProps TaskStore
begin

text \<open>
  Dispatching tasks and following them to their outcome, \<open>internal/server/hub/dispatcher.go\<close>, and what the
  agent's ack, result and heartbeat do to them in \<open>internal/server/api/handlers/agent.go\<close>.  The conductor
  is the registry, the task table and the watches; a database that refuses a query is an argument.  An
  envelope to an agent is its task; task identifiers are kept as UUIDs, whose text form the messages carry.
\<close>

record 'o task_result =
  rs_Success :: bool
  rs_Output :: "'o option"
  rs_ErrorMsg :: string

record ('p, 'o) conductor =
  cd_hub :: "'p task_dispatch hub"
  cd_tasks :: "('p, 'o) task_table"
  cd_watches :: "'o task_result watches"

definition Dispatch_task :: "uuid \<Rightarrow> 'p task_dispatch \<Rightarrow> ('p, 'o) conductor \<Rightarrow> panic + string option \<times> ('p, 'o) conductor" where
  "Dispatch_task nodeID t c =
     map_sum id (\<lambda>(e, h). (e, c\<lparr>cd_hub := h\<rparr>)) (SendRaw nodeID t (cd_hub c))"

text \<open>\<open>create\<close>: the error of the insert, if the database refuses it; \<open>sent\<close>: whether the update to \<open>sent\<close> succeeds.\<close>

definition DispatchTask ::
  "string option \<Rightarrow> bool \<Rightarrow> instant \<Rightarrow> uuid \<Rightarrow> uuid \<Rightarrow> string \<Rightarrow> 'p \<Rightarrow> int \<Rightarrow> int \<Rightarrow> ('p, 'o) conductor
     \<Rightarrow> panic + string option \<times> ('p, 'o) conductor" where
  "DispatchTask create sent now nodeID taskID taskType params timeoutSecs ackTimeoutSecs c =
     (case (case create of Some e \<Rightarrow> Inl e
            | None \<Rightarrow> if ackTimeoutSecs > 0
                then CreateWithAckTimeout now nodeID taskID taskType params ackTimeoutSecs (cd_tasks c)
                else TaskCreate now nodeID taskID taskType params (cd_tasks c)) of
        Inl e \<Rightarrow> Inr (Some (''recording '' @ taskType @ '' task: '' @ e), c)
      | Inr tbl \<Rightarrow>
          (case Dispatch_task nodeID
                  \<lparr>td_TaskID = taskID, td_TaskType = taskType, td_Params = params, td_TimeoutSecs = timeoutSecs\<rparr>
                  (c\<lparr>cd_tasks := tbl\<rparr>) of
             Inl p \<Rightarrow> Inl p
           | Inr (Some e, c) \<Rightarrow> Inr (Some e, c)
           | Inr (None, c) \<Rightarrow> Inr (None, if sent then c\<lparr>cd_tasks := SetSent taskID (cd_tasks c)\<rparr> else c)))"

section \<open>A task followed to its outcome\<close>

record task =
  tk_ID :: uuid
  tk_node :: uuid
  tk_deadline :: instant

definition StartTask ::
  "string option \<Rightarrow> bool \<Rightarrow> instant \<Rightarrow> uuid \<Rightarrow> uuid \<Rightarrow> string \<Rightarrow> 'p \<Rightarrow> int \<Rightarrow> ('p, 'o) conductor
     \<Rightarrow> panic + (string + task) \<times> ('p, 'o) conductor" where
  "StartTask create sent now taskID node taskType params timeoutSecs c =
     map_sum id (\<lambda>(err, c). (case err of
           Some e \<Rightarrow> (Inl e, c\<lparr>cd_watches := unwatch taskID (cd_watches c)\<rparr>)
         | None \<Rightarrow> (Inr \<lparr>tk_ID = taskID, tk_node = node, tk_deadline = now + timeoutSecs * second\<rparr>, c)))
       (DispatchTask create sent now node taskID taskType params timeoutSecs timeoutSecs
          (c\<lparr>cd_watches := watchTask taskID node (cd_watches c)\<rparr>))"

datatype wait_error = TaskError string | ErrNoResult string

type_synonym 'o wait_outcome = "'o option \<times> wait_error option"

definition outcome :: "'o task_result \<Rightarrow> 'o wait_outcome" where
  "outcome r = (rs_Output r, if rs_Success r then None else Some (TaskError (rs_ErrorMsg r)))"

definition orphan :: "instant \<Rightarrow> task \<Rightarrow> string \<Rightarrow> ('p, 'o) conductor \<Rightarrow> 'o wait_outcome \<times> ('p, 'o) conductor" where
  "orphan now t reason c =
     ((None, Some (ErrNoResult reason)), c\<lparr>cd_tasks := MarkOrphaned now (tk_ID t) reason (cd_tasks c)\<rparr>)"

text \<open>
  The cases of the \<open>select\<close> in \<open>Wait\<close>, each with the outcome it returns when it is ready; the watch is
  removed on return.  Go picks any ready case, so \<open>Wait_task\<close> is the list of what the wait may return.
\<close>

definition wait_result :: "task \<Rightarrow> ('p, 'o) conductor \<Rightarrow> ('o wait_outcome \<times> ('p, 'o) conductor) option" where
  "wait_result t c = (case cd_watches c (tk_ID t) of
      Some w \<Rightarrow> map_option (\<lambda>r. (outcome r, c)) (wa_result w)
    | None \<Rightarrow> None)"

definition no_longer_there :: string where
  "no_longer_there = ''the agent no longer has the task and its result never arrived''"

definition never_received :: string where
  "never_received = ''timed out: the agent was away or never received the task''"

definition wait_lost :: "instant \<Rightarrow> task \<Rightarrow> ('p, 'o) conductor \<Rightarrow> ('o wait_outcome \<times> ('p, 'o) conductor) option" where
  "wait_lost now t c = (case cd_watches c (tk_ID t) of
      Some w \<Rightarrow> if wa_lost w
        then Some (case wa_result w of Some r \<Rightarrow> (outcome r, c) | None \<Rightarrow> orphan now t no_longer_there c)
        else None
    | None \<Rightarrow> None)"

definition wait_tick :: "instant \<Rightarrow> task \<Rightarrow> ('p, 'o) conductor \<Rightarrow> ('o wait_outcome \<times> ('p, 'o) conductor) option" where
  "wait_tick now t c = (case cd_watches c (tk_ID t) of
      Some w \<Rightarrow> if now > tk_deadline t \<and> (Get (tk_node t) (cd_hub c) = None \<or> \<not> wa_known w)
        then Some (orphan now t never_received c) else None
    | None \<Rightarrow> None)"

definition Wait_task :: "instant \<Rightarrow> task \<Rightarrow> ('p, 'o) conductor \<Rightarrow> ('o wait_outcome \<times> ('p, 'o) conductor) list" where
  "Wait_task now t c =
     map (\<lambda>(out, c). (out, c\<lparr>cd_watches := unwatch (tk_ID t) (cd_watches c)\<rparr>))
       (map the (filter (\<lambda>x. x \<noteq> None) [wait_result t c, wait_lost now t c, wait_tick now t c]))"

section \<open>Messages of the agent\<close>

datatype 'o message =
    TaskAck uuid
  | TaskResult uuid "'o task_result"
  | Heartbeat "uuid list"
  | OtherMessage

definition handleTaskAck :: "uuid \<Rightarrow> ('p, 'o) conductor \<Rightarrow> ('p, 'o) conductor" where
  "handleTaskAck taskID c =
     c\<lparr>cd_tasks := SetAck taskID (cd_tasks c), cd_watches := NotifyTaskAck taskID (cd_watches c)\<rparr>"

definition handleTaskResult :: "instant \<Rightarrow> uuid \<Rightarrow> 'o task_result \<Rightarrow> ('p, 'o) conductor \<Rightarrow> ('p, 'o) conductor" where
  "handleTaskResult now taskID r c =
     c\<lparr>cd_tasks := Complete now taskID (rs_Success r) \<lparr>rp_output = rs_Output r, rp_error = rs_ErrorMsg r\<rparr> (cd_tasks c),
       cd_watches := NotifyTaskResult taskID r (cd_watches c)\<rparr>"

fun handleInbound :: "instant \<Rightarrow> uuid \<Rightarrow> 'o message \<Rightarrow> ('p, 'o) conductor \<Rightarrow> ('p, 'o) conductor" where
  "handleInbound now node (TaskAck i) c = handleTaskAck i c"
| "handleInbound now node (TaskResult i r) c = handleTaskResult now i r c"
| "handleInbound now node (Heartbeat tasks) c = c\<lparr>cd_watches := NotifyHeartbeat node tasks (cd_watches c)\<rparr>"
| "handleInbound now node OtherMessage c = c"

section \<open>A task completed before it is marked sent\<close>

text \<open>
  \<open>DispatchTask\<close> marks a task sent only after it handed it to the session.  When the agent has acked and
  finished it by then, the task's row goes back to \<open>sent\<close>, whatever its result was: it is pending again, so on
  the agent's next connect it is run a second time, or, when it is not safe to run twice, recorded as
  timed out although its result had arrived.
\<close>

theorem completed_task_reopened:
  assumes row: "GetByTaskID i tbl = Some t" and u: "distinct (map tr_TaskID tbl)"
    and done': "tbl' = SetSent i (Complete now i ok p (SetAck i tbl))"
    and params: "has_params (tr_RequestPayload t)" "tr_TaskType t \<noteq> []"
  shows "\<exists>t'. t' \<in> set (ListPendingByNode (tr_NodeID t) tbl') \<and> tr_TaskID t' = i \<and> tr_ResponsePayload t' = Some p
     \<and> (if SafeToRetryOnReconnect (tr_TaskType t)
        then \<exists>d. resend_task now' has_params t' tbl' = ([d], tbl') \<and> td_TaskID d = i
        else map_option tr_Status (GetByTaskID i (snd (resend_task now' has_params t' tbl'))) = Some ''timeout'')"
proof -
  let ?t = "t\<lparr>tr_Status := ''sent'', tr_ResponsePayload := Some p, tr_CompletedAt := Some now\<rparr>"
  have g: "GetByTaskID i tbl' = Some ?t" unfolding done' using row by simp
  have i: "tr_TaskID t = i" using GetByTaskID_Some [OF row] by simp
  have "?t \<in> set tbl'" using GetByTaskID_Some [OF g] by simp
  then have m: "?t \<in> set (ListPendingByNode (tr_NodeID t) tbl')" by (simp add: ListPendingByNode_def)
  have "if SafeToRetryOnReconnect (tr_TaskType t)
        then \<exists>d. resend_task now' has_params ?t tbl' = ([d], tbl') \<and> td_TaskID d = i
        else map_option tr_Status (GetByTaskID i (snd (resend_task now' has_params ?t tbl'))) = Some ''timeout''"
    using params i by (auto simp: resend_task_def GetByTaskID_MarkOrphaned g)
  with m i show ?thesis by (intro exI [of _ ?t]) simp
qed

definition backup_row :: "(nat, nat) task_row" where
  "backup_row = \<lparr>tr_NodeID = 1, tr_TaskID = 7, tr_TaskType = ''db.backup'', tr_Status = ''queued'', tr_RequestPayload = 4,
     tr_ResponsePayload = None, tr_QueuedAt = 10, tr_CompletedAt = None, tr_AckTimeoutSecs = None\<rparr>"

theorem completed_task_reopened_witness:
  "\<exists>t'. t' \<in> set (ListPendingByNode 1 (SetSent 7 (Complete 20 7 True \<lparr>rp_output = Some 3, rp_error = []\<rparr> (SetAck 7 [backup_row]))))
     \<and> tr_ResponsePayload t' = Some \<lparr>rp_output = Some 3, rp_error = []\<rparr>"
proof -
  have r: "GetByTaskID 7 [backup_row] = Some backup_row" "distinct (map tr_TaskID [backup_row])"
    "tr_TaskType backup_row \<noteq> []" "tr_NodeID backup_row = 1" by (simp_all add: GetByTaskID_def backup_row_def)
  show ?thesis
    using completed_task_reopened [OF r(1,2) refl _ r(3), of "\<lambda>_. True" 20 True "\<lparr>rp_output = Some 3, rp_error = []\<rparr>" 30]
    unfolding r(4) by blast
qed

end
