(* ===== verification/TaskTracking.thy ===== *)
theory TaskTracking
  imports Dispatcher
begin

text \<open>
  A task from its dispatch to its outcome, over the agent, the connection and the conductor.  The agent's
  side is \<open>internal/agent/ws/client.go\<close> and \<open>handleTaskDispatch\<close> of \<open>cmd/agent/main.go\<close>: it lists a task
  before it acks it and until after its result is sent, and the conductor reads a task missing from a
  heartbeat as lost.  Every step of the goroutines involved may interleave, buffers fill up, writes fail,
  connections break and the agent restarts.
\<close>

section \<open>The agent's client\<close>

record 'o agent =
  ag_tasks :: "uuid list"
  ag_outbound :: "'o message list"

definition New_agent :: "'o agent" where
  "New_agent = \<lparr>ag_tasks = [], ag_outbound = []\<rparr>"

definition outboundCap :: nat where "outboundCap = 64"

text \<open>\<open>Send\<close> drops the message when the buffer is full; \<open>SendWait\<close> waits for space until its timeout.\<close>

definition Client_Send :: "'o message \<Rightarrow> 'o agent \<Rightarrow> 'o agent" where
  "Client_Send m a = (if length (ag_outbound a) < outboundCap then a\<lparr>ag_outbound := ag_outbound a @ [m]\<rparr> else a)"

definition Client_SendWait :: "'o message \<Rightarrow> 'o agent \<Rightarrow> 'o agent option" where
  "Client_SendWait m a =
     (if length (ag_outbound a) < outboundCap then Some (a\<lparr>ag_outbound := ag_outbound a @ [m]\<rparr>) else None)"

text \<open>\<open>StartTask\<close> lists the task under the mutex, then sends the ack; \<open>EndTask\<close> sends the result, then unlists it.\<close>

definition start_list :: "uuid \<Rightarrow> 'o agent \<Rightarrow> bool \<times> 'o agent" where
  "start_list i a = (i \<notin> set (ag_tasks a), a\<lparr>ag_tasks := List.insert i (ag_tasks a)\<rparr>)"

definition start_ack :: "uuid \<Rightarrow> 'o agent \<Rightarrow> 'o agent" where
  "start_ack i = Client_Send (TaskAck i)"

definition end_send :: "uuid \<Rightarrow> 'o task_result \<Rightarrow> 'o agent \<Rightarrow> 'o agent option" where
  "end_send i r = Client_SendWait (TaskResult i r)"

definition end_unlist :: "uuid \<Rightarrow> 'o agent \<Rightarrow> 'o agent" where
  "end_unlist i a = a\<lparr>ag_tasks := removeAll i (ag_tasks a)\<rparr>"

definition send_heartbeat :: "'o agent \<Rightarrow> 'o agent" where
  "send_heartbeat a = Client_Send (Heartbeat (ag_tasks a)) a"

text \<open>
  \<open>queueSync\<close>: whether the chunk queue takes the work, and whether the reader counts it as stuck after.
  \<open>now\<close>: it has room; \<open>later\<close>: it gets room within the wait.
\<close>

definition queueSync :: "bool \<Rightarrow> bool \<Rightarrow> bool \<Rightarrow> bool \<times> bool" where
  "queueSync stuck now later = (if stuck then (now, \<not> now) else (now \<or> later, \<not> (now \<or> later)))"

section \<open>The whole system\<close>

text \<open>
  \<open>sy_acking\<close> is the read loop between listing a task and acking it, \<open>sy_running\<close> the tasks queued or
  running, \<open>sy_ending\<close> those between sending the result and unlisting.  The last three fields are a record of
  what happened: the tasks ever dispatched, the results tasks ended with, and the tasks whose result
  was dropped, by a full buffer, a failed write, a broken connection or a restart.
\<close>

record ('p, 'o) system =
  sy_agent :: "'o agent"
  sy_acking :: "(uuid \<times> bool) option"
  sy_running :: "uuid list"
  sy_ending :: "uuid list"
  sy_net :: "'o message list"
  sy_conductor :: "('p, 'o) conductor"
  sy_dispatched :: "uuid set"
  sy_finished :: "(uuid \<times> 'o task_result) set"
  sy_gone :: "uuid set"

fun result_ids :: "'o message list \<Rightarrow> uuid list" where
  "result_ids [] = []"
| "result_ids (TaskResult i r # ms) = i # result_ids ms"
| "result_ids (m # ms) = result_ids ms"

inductive task_system :: "uuid \<Rightarrow> ('p, 'o) system \<Rightarrow> bool" for node where
  init: "cd_watches c = Map.empty \<Longrightarrow> task_system node
     \<lparr>sy_agent = New_agent, sy_acking = None, sy_running = [], sy_ending = [], sy_net = [], sy_conductor = c,
      sy_dispatched = {}, sy_finished = {}, sy_gone = {}\<rparr>"
| watch: "task_system node s \<Longrightarrow> i \<notin> sy_dispatched s \<Longrightarrow>
    task_system node (s\<lparr>sy_conductor := (sy_conductor s)\<lparr>cd_watches := watchTask i n (cd_watches (sy_conductor s))\<rparr>\<rparr>)"
| unwatch: "task_system node s \<Longrightarrow>
    task_system node (s\<lparr>sy_conductor := (sy_conductor s)\<lparr>cd_watches := unwatch i (cd_watches (sy_conductor s))\<rparr>\<rparr>)"
| conductor: "task_system node s \<Longrightarrow> cd_watches c = cd_watches (sy_conductor s) \<Longrightarrow> task_system node (s\<lparr>sy_conductor := c\<rparr>)"
| listing: "task_system node s \<Longrightarrow> sy_acking s = None \<Longrightarrow> start_list i (sy_agent s) = (new, a) \<Longrightarrow>
    task_system node (s\<lparr>sy_agent := a, sy_acking := Some (i, new), sy_dispatched := insert i (sy_dispatched s)\<rparr>)"
| acking: "task_system node s \<Longrightarrow> sy_acking s = Some (i, new) \<Longrightarrow>
    task_system node (s\<lparr>sy_agent := start_ack i (sy_agent s), sy_acking := None,
      sy_running := (if new then i # sy_running s else sy_running s)\<rparr>)"
| finish: "task_system node s \<Longrightarrow> i \<in> set (sy_running s) \<Longrightarrow> end_send i r (sy_agent s) = Some a \<Longrightarrow>
    task_system node (s\<lparr>sy_agent := a, sy_running := remove1 i (sy_running s), sy_ending := i # sy_ending s,
      sy_finished := insert (i, r) (sy_finished s)\<rparr>)"
| finish_dropped: "task_system node s \<Longrightarrow> i \<in> set (sy_running s) \<Longrightarrow> end_send i r (sy_agent s) = None \<Longrightarrow>
    task_system node (s\<lparr>sy_running := remove1 i (sy_running s), sy_ending := i # sy_ending s,
      sy_finished := insert (i, r) (sy_finished s), sy_gone := insert i (sy_gone s)\<rparr>)"
| unlist: "task_system node s \<Longrightarrow> i \<in> set (sy_ending s) \<Longrightarrow>
    task_system node (s\<lparr>sy_agent := end_unlist i (sy_agent s), sy_ending := remove1 i (sy_ending s)\<rparr>)"
| heartbeat: "task_system node s \<Longrightarrow> task_system node (s\<lparr>sy_agent := send_heartbeat (sy_agent s)\<rparr>)"
| other: "task_system node s \<Longrightarrow> task_system node (s\<lparr>sy_agent := Client_Send OtherMessage (sy_agent s)\<rparr>)"
| written: "task_system node s \<Longrightarrow> ag_outbound (sy_agent s) = m # ms \<Longrightarrow>
    task_system node (s\<lparr>sy_agent := (sy_agent s)\<lparr>ag_outbound := ms\<rparr>, sy_net := sy_net s @ [m]\<rparr>)"
| write_failed: "task_system node s \<Longrightarrow> ag_outbound (sy_agent s) = m # ms \<Longrightarrow>
    task_system node (s\<lparr>sy_agent := (sy_agent s)\<lparr>ag_outbound := ms\<rparr>, sy_gone := sy_gone s \<union> set (result_ids [m])\<rparr>)"
| receive: "task_system node s \<Longrightarrow> sy_net s = m # ms \<Longrightarrow>
    task_system node (s\<lparr>sy_net := ms, sy_conductor := handleInbound now node m (sy_conductor s)\<rparr>)"
| disconnect: "task_system node s \<Longrightarrow>
    task_system node (s\<lparr>sy_net := [], sy_gone := sy_gone s \<union> set (result_ids (sy_net s))\<rparr>)"
| restart: "task_system node s \<Longrightarrow>
    task_system node (s\<lparr>sy_agent := New_agent, sy_acking := None, sy_running := [], sy_ending := [],
      sy_gone := sy_gone s \<union> set (ag_tasks (sy_agent s)) \<union> set (result_ids (ag_outbound (sy_agent s)))\<rparr>)"

section \<open>The messages on their way\<close>

text \<open>
  What the messages up to the task's result may say, read in order: once the conductor knows that the agent
  has the task, every heartbeat lists it, and the agent does so to the end.
\<close>

fun tracked :: "uuid \<Rightarrow> bool \<Rightarrow> bool \<Rightarrow> 'o message list \<Rightarrow> bool" where
  "tracked i known has [] = (known \<longrightarrow> has)"
| "tracked i known has (TaskAck j # ms) = tracked i (known \<or> i = j) has ms"
| "tracked i known has (TaskResult j r # ms) = (i = j \<or> tracked i known has ms)"
| "tracked i known has (Heartbeat ts # ms) =
     (if i \<in> set ts then tracked i True has ms else \<not> known \<and> tracked i known has ms)"
| "tracked i known has (OtherMessage # ms) = tracked i known has ms"

fun message_ids :: "'o message \<Rightarrow> uuid set" where
  "message_ids (TaskAck i) = {i}"
| "message_ids (TaskResult i r) = {i}"
| "message_ids (Heartbeat ts) = set ts"
| "message_ids OtherMessage = {}"

lemma result_ids_append [simp]: "result_ids (xs @ ys) = result_ids xs @ result_ids ys"
  by (induction xs rule: result_ids.induct) auto

lemma result_ids_Cons: "result_ids (m # ms) = result_ids [m] @ result_ids ms"
  by (cases m) auto

lemma tracked_result: "i \<in> set (result_ids ms) \<Longrightarrow> tracked i k h ms = tracked i k h' ms"
  by (induction i k h ms rule: tracked.induct) auto

lemma tracked_prefix_result: "i \<in> set (result_ids ms) \<Longrightarrow> tracked i k h (ms @ ns) = tracked i k h ms"
  by (induction i k h ms rule: tracked.induct) auto

lemma tracked_has: "tracked i k h ms \<Longrightarrow> tracked i k True ms"
  by (induction i k h ms rule: tracked.induct) (auto split: if_splits)

lemma tracked_ack: "tracked i k True ms \<Longrightarrow> tracked i k True (ms @ [TaskAck j])"
  by (induction i k True ms rule: tracked.induct) auto

lemma tracked_ack_other: "i \<noteq> j \<Longrightarrow> tracked i k h (ms @ [TaskAck j]) = tracked i k h ms"
  by (induction i k h ms rule: tracked.induct) auto

lemma tracked_add_result: "tracked i k h ms \<Longrightarrow> tracked i k h (ms @ [TaskResult j r])"
  by (induction i k h ms rule: tracked.induct) auto

lemma tracked_own_result: "tracked i k True ms \<Longrightarrow> tracked i k h (ms @ [TaskResult i r])"
  by (induction i k True ms rule: tracked.induct) auto

lemma tracked_other: "tracked i k h (ms @ [OtherMessage]) = tracked i k h ms"
  by (induction i k h ms rule: tracked.induct) auto

lemma tracked_heartbeat: "tracked i k (i \<in> set ts) ms \<Longrightarrow> tracked i k (i \<in> set ts) (ms @ [Heartbeat ts])"
  by (induction i k "i \<in> set ts" ms rule: tracked.induct) auto

lemma tracked_fresh: "\<forall>m\<in>set ms. i \<notin> message_ids m \<Longrightarrow> tracked i False False ms"
proof (induction ms)
  case (Cons m ms)
  then show ?case by (cases m) auto
qed simp

section \<open>Every reachable state\<close>

definition pipe :: "('p, 'o) system \<Rightarrow> 'o message list" where
  "pipe s = sy_net s @ ag_outbound (sy_agent s)"

definition ids_ok :: "('p, 'o) system \<Rightarrow> bool" where
  "ids_ok s \<longleftrightarrow> (\<forall>m\<in>set (pipe s). message_ids m \<subseteq> sy_dispatched s) \<and> set (ag_tasks (sy_agent s)) \<subseteq> sy_dispatched s
     \<and> set (sy_running s) \<subseteq> sy_dispatched s \<and> set (sy_ending s) \<subseteq> sy_dispatched s \<and> fst ` set_option (sy_acking s) \<subseteq> sy_dispatched s"

lemmas agent_steps = start_list_def start_ack_def end_send_def end_unlist_def send_heartbeat_def Client_Send_def
  Client_SendWait_def New_agent_def

lemma ids_ok_reach: "task_system node s \<Longrightarrow> ids_ok s"
proof (induction rule: task_system.induct)
  case (listing s i new a)
  then show ?case by (auto simp: ids_ok_def pipe_def agent_steps)
next
  case (acking s i new)
  then show ?case by (auto simp: ids_ok_def pipe_def agent_steps)
next
  case (finish s i r a)
  then show ?case
    by (auto simp: ids_ok_def pipe_def agent_steps dest: set_mp [OF set_remove1_subset] split: if_splits) blast+
next
  case (finish_dropped s i r)
  then show ?case by (auto simp: ids_ok_def pipe_def dest: set_mp [OF set_remove1_subset])
next
  case (unlist s i)
  then show ?case by (auto simp: ids_ok_def pipe_def agent_steps dest: set_mp [OF set_remove1_subset])
qed (auto simp: ids_ok_def pipe_def agent_steps)

definition results_ok :: "('p, 'o) system \<Rightarrow> bool" where
  "results_ok s \<longleftrightarrow> (\<forall>i r. TaskResult i r \<in> set (pipe s) \<longrightarrow> (i, r) \<in> sy_finished s)
     \<and> (\<forall>i w r. cd_watches (sy_conductor s) i = Some w \<longrightarrow> wa_result w = Some r \<longrightarrow> (i, r) \<in> sy_finished s)"

lemma inbound_watches:
  "cd_watches (handleInbound now node m c) = (case m of
      TaskAck i \<Rightarrow> NotifyTaskAck i (cd_watches c)
    | TaskResult i r \<Rightarrow> NotifyTaskResult i r (cd_watches c)
    | Heartbeat ts \<Rightarrow> NotifyHeartbeat node ts (cd_watches c)
    | OtherMessage \<Rightarrow> cd_watches c)"
  by (cases m) (simp_all add: handleTaskAck_def handleTaskResult_def)

lemma inbound_result:
  "cd_watches (handleInbound now node m c) i = Some w \<Longrightarrow> wa_result w = Some r \<Longrightarrow>
     m = TaskResult i r \<or> (\<exists>w'. cd_watches c i = Some w' \<and> wa_result w' = Some r)"
  by (cases m) (auto simp: handleTaskAck_def handleTaskResult_def NotifyTaskAck_def NotifyTaskResult_def NotifyHeartbeat_def heartbeat_watch_def
      split: option.splits if_splits)

lemma results_ok_reach: "task_system node s \<Longrightarrow> results_ok s"
proof (induction rule: task_system.induct)
  case (receive s m ms now)
  then show ?case by (auto simp: results_ok_def pipe_def dest!: inbound_result)
next
  case (watch s i n)
  then show ?case by (auto simp: results_ok_def pipe_def watchTask_def)
next
  case (unwatch s i)
  then show ?case by (auto simp: results_ok_def pipe_def unwatch_def split: if_splits)
qed (auto simp: results_ok_def pipe_def agent_steps split: if_splits)

text \<open>A message that is lost only takes knowledge away, unless it is the result.\<close>

lemma tracked_unknown: "tracked i True h ms \<Longrightarrow> tracked i k h ms"
proof (induction ms arbitrary: k)
  case (Cons m ms)
  show ?case
  proof (cases m)
    case (TaskAck j)
    with Cons show ?thesis by (cases k; cases "i = j") auto
  qed (use Cons in \<open>auto split: if_splits\<close>)
qed simp

lemma tracked_drop: "tracked i k h (xs @ m # ms) \<Longrightarrow> i \<notin> set (result_ids [m]) \<Longrightarrow> tracked i k h (xs @ ms)"
proof (induction xs arbitrary: k)
  case Nil
  show ?case
  proof (cases m)
    case (TaskAck j)
    with Nil show ?thesis by (cases k; cases "i = j") (auto intro: tracked_unknown)
  qed (use Nil in \<open>auto split: if_splits intro: tracked_unknown\<close>)
next
  case (Cons x xs)
  then show ?case by (cases x) (auto split: if_splits)
qed

lemma tracked_drop_list: "tracked i k h (xs @ ys @ ms) \<Longrightarrow> i \<notin> set (result_ids ys) \<Longrightarrow> tracked i k h (xs @ ms)"
proof (induction ys)
  case (Cons y ys)
  have "tracked i k h (xs @ ys @ ms)"
    using tracked_drop [of i k h xs y "ys @ ms"] Cons.prems result_ids_Cons [of y ys] by simp
  with Cons.IH Cons.prems(2) result_ids_Cons [of y ys] show ?case by simp
qed simp

definition watch_ok :: "uuid \<Rightarrow> ('p, 'o) system \<Rightarrow> uuid \<Rightarrow> 'o task_result watch \<Rightarrow> bool" where
  "watch_ok node s i w \<longleftrightarrow>
     (wa_node w = node \<longrightarrow> tracked i (wa_known w) (i \<in> set (ag_tasks (sy_agent s))) (pipe s))
   \<and> (i \<in> set (sy_ending s) \<longrightarrow> i \<in> set (result_ids (pipe s)))
   \<and> (i \<in> set (sy_running s) \<union> fst ` set_option (sy_acking s) \<longrightarrow>
        i \<in> set (ag_tasks (sy_agent s)) \<or> i \<in> set (result_ids (pipe s)))
   \<and> \<not> wa_lost w"

text \<open>As long as a watched task's result has neither arrived nor been dropped, it is on its way or the agent has the task.\<close>

definition watches_ok :: "uuid \<Rightarrow> ('p, 'o) system \<Rightarrow> bool" where
  "watches_ok node s \<longleftrightarrow> (\<forall>i w. cd_watches (sy_conductor s) i = Some w \<longrightarrow> wa_result w = None \<longrightarrow> i \<notin> sy_gone s
     \<longrightarrow> watch_ok node s i w)"

lemma watches_ok_step:
  assumes "watches_ok node s" and "cd_watches (sy_conductor s') = cd_watches (sy_conductor s)" and "sy_gone s \<subseteq> sy_gone s'"
    and "\<And>i w. i \<notin> sy_gone s' \<Longrightarrow> watch_ok node s i w \<Longrightarrow> watch_ok node s' i w"
  shows "watches_ok node s'"
  using assms unfolding watches_ok_def by (metis subsetD)

lemma watch_ok_listing:
  assumes "start_list j (sy_agent s) = (new, a)" and "sy_acking s = None" and "watch_ok node s i w"
  shows "watch_ok node (s\<lparr>sy_agent := a, sy_acking := Some (j, new), sy_dispatched := d\<rparr>) i w"
  using assms tracked_has [of i "wa_known w" _ "pipe s"]
  by (cases "i = j") (auto simp: watch_ok_def start_list_def pipe_def)

lemma watch_ok_send:
  assumes "tracked i (wa_known w) (i \<in> set (ag_tasks (sy_agent s))) (pipe s @ [m]) \<or> wa_node w \<noteq> node"
    and "watch_ok node s i w"
  shows "watch_ok node (s\<lparr>sy_agent := Client_Send m (sy_agent s)\<rparr>) i w"
  using assms by (auto simp: watch_ok_def Client_Send_def pipe_def)

lemma watch_ok_acking:
  assumes a: "sy_acking s = Some (j, new)" and w: "watch_ok node s i w"
  shows "watch_ok node (s\<lparr>sy_agent := start_ack j (sy_agent s), sy_acking := None,
      sy_running := (if new then j # sy_running s else sy_running s)\<rparr>) i w"
proof -
  have "tracked i (wa_known w) (i \<in> set (ag_tasks (sy_agent s))) (pipe s @ [TaskAck j]) \<or> wa_node w \<noteq> node"
  proof (cases "i = j")
    case True
    with a w have "i \<in> set (ag_tasks (sy_agent s)) \<or> i \<in> set (result_ids (pipe s))" by (simp add: watch_ok_def)
    with w show ?thesis
      using tracked_ack [of i "wa_known w" "pipe s" j] by (auto simp: watch_ok_def tracked_prefix_result)
  next
    case False
    with w show ?thesis by (auto simp: watch_ok_def tracked_ack_other)
  qed
  from watch_ok_send [OF this w] have
    "watch_ok node (s\<lparr>sy_agent := start_ack j (sy_agent s)\<rparr>) i w" by (simp add: start_ack_def)
  with a show ?thesis by (auto simp: watch_ok_def pipe_def)
qed

lemma watch_okI:
  assumes "wa_node w = node \<Longrightarrow> tracked i (wa_known w) (i \<in> set (ag_tasks (sy_agent s))) (pipe s)"
    and "i \<in> set (sy_ending s) \<Longrightarrow> i \<in> set (result_ids (pipe s))"
    and "i \<in> set (sy_running s) \<union> fst ` set_option (sy_acking s) \<Longrightarrow>
        i \<in> set (ag_tasks (sy_agent s)) \<or> i \<in> set (result_ids (pipe s))"
    and "\<not> wa_lost w"
  shows "watch_ok node s i w"
  using assms by (simp add: watch_ok_def)

lemma watch_okD:
  assumes "watch_ok node s i w"
  shows "wa_node w = node \<Longrightarrow> tracked i (wa_known w) (i \<in> set (ag_tasks (sy_agent s))) (pipe s)"
    and "i \<in> set (sy_ending s) \<Longrightarrow> i \<in> set (result_ids (pipe s))"
    and "i \<in> set (sy_running s) \<union> fst ` set_option (sy_acking s) \<Longrightarrow>
        i \<in> set (ag_tasks (sy_agent s)) \<or> i \<in> set (result_ids (pipe s))"
    and "\<not> wa_lost w"
  using assms by (simp_all add: watch_ok_def)

lemma watch_ok_finish:
  assumes "end_send j r (sy_agent s) = Some a" and w: "watch_ok node s i w"
  shows "watch_ok node (s\<lparr>sy_agent := a, sy_running := remove1 j (sy_running s), sy_ending := j # sy_ending s, sy_finished := f\<rparr>) i w"
    (is "watch_ok node ?s i w")
proof (rule watch_okI)
  from assms(1) have a: "a = (sy_agent s)\<lparr>ag_outbound := ag_outbound (sy_agent s) @ [TaskResult j r]\<rparr>"
    by (auto simp: end_send_def Client_SendWait_def split: if_splits)
  then have p: "pipe ?s = pipe s @ [TaskResult j r]" "ag_tasks (sy_agent ?s) = ag_tasks (sy_agent s)" by (simp_all add: pipe_def)
  note W = watch_okD [OF w]
  show "tracked i (wa_known w) (i \<in> set (ag_tasks (sy_agent ?s))) (pipe ?s)" if "wa_node w = node"
    unfolding p by (rule tracked_add_result [OF W(1) [OF that]])
  show "i \<in> set (result_ids (pipe ?s))" if "i \<in> set (sy_ending ?s)"
    using that W(2) unfolding p by auto
  show "i \<in> set (ag_tasks (sy_agent ?s)) \<or> i \<in> set (result_ids (pipe ?s))"
    if "i \<in> set (sy_running ?s) \<union> fst ` set_option (sy_acking ?s)"
  proof -
    from that have "i \<in> set (sy_running s) \<union> fst ` set_option (sy_acking s)"
      by (auto dest: set_mp [OF set_remove1_subset])
    with W(3) show ?thesis unfolding p by auto
  qed
qed (rule watch_okD(4) [OF w])

lemma watch_ok_unlist:
  assumes j: "j \<in> set (sy_ending s)" and w: "watch_ok node s i w"
  shows "watch_ok node (s\<lparr>sy_agent := end_unlist j (sy_agent s), sy_ending := remove1 j (sy_ending s)\<rparr>) i w"
    (is "watch_ok node ?s i w")
proof (rule watch_okI)
  note W = watch_okD [OF w]
  have p: "pipe ?s = pipe s" by (simp add: pipe_def end_unlist_def)
  show "tracked i (wa_known w) (i \<in> set (ag_tasks (sy_agent ?s))) (pipe ?s)" if "wa_node w = node"
  proof (cases "i = j")
    case True
    with j have "i \<in> set (result_ids (pipe s))" using W(2) by simp
    from tracked_result [OF this] W(1) [OF that] show ?thesis unfolding p by blast
  next
    case False
    with W(1) [OF that] show ?thesis unfolding p by (simp add: end_unlist_def)
  qed
  show "i \<in> set (result_ids (pipe ?s))" if "i \<in> set (sy_ending ?s)"
    using that W(2) set_remove1_subset [of j "sy_ending s"] unfolding p by auto
  show "i \<in> set (ag_tasks (sy_agent ?s)) \<or> i \<in> set (result_ids (pipe ?s))"
    if "i \<in> set (sy_running ?s) \<union> fst ` set_option (sy_acking ?s)"
    using that W(2,3) j unfolding p by (cases "i = j") (auto simp: end_unlist_def)
qed (rule watch_okD(4) [OF w])

lemma watch_ok_pipe:
  assumes w: "watch_ok node s i w" and "pipe s = xs @ ys @ zs" and "i \<notin> set (result_ids ys)" and "pipe s' = xs @ zs"
    and "sy_ending s' = sy_ending s" "sy_running s' = sy_running s" "sy_acking s' = sy_acking s"
    "ag_tasks (sy_agent s') = ag_tasks (sy_agent s)"
  shows "watch_ok node s' i w"
proof (rule watch_okI)
  note W = watch_okD [OF w]
  show "tracked i (wa_known w) (i \<in> set (ag_tasks (sy_agent s'))) (pipe s')" if "wa_node w = node"
    using W(1) [OF that] tracked_drop_list assms(2-4,8) by metis
  have r: "i \<in> set (result_ids (pipe s)) \<Longrightarrow> i \<in> set (result_ids (pipe s'))" using assms(2-4) by auto
  show "i \<in> set (result_ids (pipe s'))" if "i \<in> set (sy_ending s')" using that W(2) r assms(5) by simp
  show "i \<in> set (ag_tasks (sy_agent s')) \<or> i \<in> set (result_ids (pipe s'))"
    if "i \<in> set (sy_running s') \<union> fst ` set_option (sy_acking s')" using that W(3) r assms(6-8) by auto
qed (rule watch_okD(4) [OF w])

lemma watch_ok_restart:
  assumes w: "watch_ok node s i w" and g: "i \<notin> set (ag_tasks (sy_agent s))" "i \<notin> set (result_ids (ag_outbound (sy_agent s)))"
  shows "watch_ok node (s\<lparr>sy_agent := New_agent, sy_acking := None, sy_running := [], sy_ending := [], sy_gone := gs\<rparr>) i w"
    (is "watch_ok node ?s i w")
proof (rule watch_okI)
  show "tracked i (wa_known w) (i \<in> set (ag_tasks (sy_agent ?s))) (pipe ?s)" if n: "wa_node w = node"
  proof -
    have "tracked i (wa_known w) False (sy_net s @ ag_outbound (sy_agent s) @ [])"
      using watch_okD(1) [OF w n] g(1) by (simp add: pipe_def)
    from tracked_drop_list [OF this g(2)] show ?thesis by (simp add: pipe_def New_agent_def)
  qed
qed (simp_all add: watch_okD(4) [OF w])

lemma inbound_watch:
  assumes "cd_watches (handleInbound now node m c) i = Some w'" and "wa_result w' = None"
  shows "\<exists>w. cd_watches c i = Some w \<and> wa_result w = None \<and> wa_node w = wa_node w' \<and> i \<notin> set (result_ids [m])
    \<and> w' = (case m of TaskAck j \<Rightarrow> if i = j then w\<lparr>wa_known := True\<rparr> else w
      | Heartbeat ts \<Rightarrow> heartbeat_watch node ts i w | _ \<Rightarrow> w)"
proof (cases m)
  case (TaskAck j)
  with assms show ?thesis by (auto simp: handleTaskAck_def NotifyTaskAck_def split: option.splits if_splits)
next
  case (TaskResult j r)
  with assms show ?thesis by (auto simp: handleTaskResult_def NotifyTaskResult_def split: option.splits if_splits)
next
  case (Heartbeat ts)
  with assms show ?thesis by (auto simp: NotifyHeartbeat_def heartbeat_watch_def)
next
  case OtherMessage
  with assms show ?thesis by simp
qed

lemma watch_step:
  assumes step: "w' = (case m of TaskAck j \<Rightarrow> if i = j then w\<lparr>wa_known := True\<rparr> else w
      | Heartbeat ts \<Rightarrow> heartbeat_watch node ts i w | _ \<Rightarrow> w)" and m: "i \<notin> set (result_ids [m])"
  shows "tracked i (wa_known w) h (m # ms) \<Longrightarrow> wa_node w = node \<Longrightarrow> tracked i (wa_known w') h ms"
    and "tracked i (wa_known w) h (m # ms) \<Longrightarrow> wa_node w = node \<Longrightarrow> wa_lost w' = wa_lost w"
    and "wa_node w \<noteq> node \<Longrightarrow> wa_lost w' = wa_lost w"
proof -
  assume t: "tracked i (wa_known w) h (m # ms)" and n: "wa_node w = node"
  show "tracked i (wa_known w') h ms"
  proof (cases m)
    case (Heartbeat ts)
    with t n step show ?thesis by (cases "i \<in> set ts") (auto simp: heartbeat_watch_def)
  next
    case (TaskAck j)
    with t step show ?thesis by (cases "i = j") simp_all
  qed (use t m step in simp_all)
  show "wa_lost w' = wa_lost w"
  proof (cases m)
    case (Heartbeat ts)
    with t n step show ?thesis by (cases "i \<in> set ts") (simp_all add: heartbeat_watch_def)
  qed (use step in simp_all)
next
  assume "wa_node w \<noteq> node"
  with step show "wa_lost w' = wa_lost w" by (cases m) (simp_all add: heartbeat_watch_def)
qed

lemma watches_ok_receive:
  assumes ok: "watches_ok node s" and n: "sy_net s = m # ms"
  shows "watches_ok node (s\<lparr>sy_net := ms, sy_conductor := handleInbound now node m (sy_conductor s)\<rparr>)" (is "watches_ok node ?s")
  unfolding watches_ok_def
proof (intro allI impI)
  fix i w'
  assume w': "cd_watches (sy_conductor ?s) i = Some w'" and r': "wa_result w' = None" and g: "i \<notin> sy_gone ?s"
  have p: "pipe s = m # pipe ?s" using n by (simp add: pipe_def)
  have same: "ag_tasks (sy_agent ?s) = ag_tasks (sy_agent s)" "sy_ending ?s = sy_ending s" "sy_running ?s = sy_running s"
    "sy_acking ?s = sy_acking s" "sy_gone ?s = sy_gone s" by simp_all
  obtain w where w: "cd_watches (sy_conductor s) i = Some w" "wa_result w = None" "wa_node w = wa_node w'"
    and m: "i \<notin> set (result_ids [m])"
    and step: "w' = (case m of TaskAck j \<Rightarrow> if i = j then w\<lparr>wa_known := True\<rparr> else w
      | Heartbeat ts \<Rightarrow> heartbeat_watch node ts i w | _ \<Rightarrow> w)"
    using inbound_watch [of now node m "sy_conductor s" i w'] w' r' by auto
  have W: "watch_ok node s i w" using ok w g same(5) unfolding watches_ok_def by metis
  note D = watch_okD [OF W]
  have r: "i \<in> set (result_ids (pipe s)) \<Longrightarrow> i \<in> set (result_ids (pipe ?s))"
    using m result_ids_Cons [of m "pipe ?s"] unfolding p by simp
  show "watch_ok node ?s i w'"
  proof (rule watch_okI)
    show "tracked i (wa_known w') (i \<in> set (ag_tasks (sy_agent ?s))) (pipe ?s)" if "wa_node w' = node"
      using that w(3) watch_step(1) [OF step m] D(1) p by simp
    show "i \<in> set (result_ids (pipe ?s))" if "i \<in> set (sy_ending ?s)" using that D(2) r same by simp
    show "i \<in> set (ag_tasks (sy_agent ?s)) \<or> i \<in> set (result_ids (pipe ?s))"
      if "i \<in> set (sy_running ?s) \<union> fst ` set_option (sy_acking ?s)" using that D(3) r same by auto
    show "\<not> wa_lost w'"
      using w(3) watch_step [OF step m] D(1,4) p by (cases "wa_node w = node") simp_all
  qed
qed

lemma watches_ok_watch:
  assumes ok: "watches_ok node s" and ids: "ids_ok s" and j: "j \<notin> sy_dispatched s"
  shows "watches_ok node (s\<lparr>sy_conductor := (sy_conductor s)\<lparr>cd_watches := watchTask j n (cd_watches (sy_conductor s))\<rparr>\<rparr>)"
    (is "watches_ok node ?s")
  unfolding watches_ok_def
proof (intro allI impI)
  fix i w
  assume w: "cd_watches (sy_conductor ?s) i = Some w" "wa_result w = None" "i \<notin> sy_gone ?s"
  show "watch_ok node ?s i w"
  proof (cases "i = j")
    case True
    with w(1) have f: "\<not> wa_known w" "\<not> wa_lost w" by (auto simp: watchTask_def)
    have "\<forall>m\<in>set (pipe s). i \<notin> message_ids m" and o: "i \<notin> set (ag_tasks (sy_agent s))" "i \<notin> set (sy_ending s)"
      "i \<notin> set (sy_running s) \<union> fst ` set_option (sy_acking s)"
      using ids j True unfolding ids_ok_def by blast+
    from tracked_fresh [OF this(1)] f o show ?thesis by (simp add: watch_ok_def pipe_def)
  next
    case False
    with w(1) have "cd_watches (sy_conductor s) i = Some w" by (simp add: watchTask_def)
    with ok w(2,3) have "watch_ok node s i w" by (simp add: watches_ok_def)
    then show ?thesis by (simp add: watch_ok_def pipe_def)
  qed
qed

lemma watches_ok_reach: "task_system node s \<Longrightarrow> watches_ok node s"
proof (induction rule: task_system.induct)
  case (init c)
  then show ?case by (simp add: watches_ok_def)
next
  case (watch s i n)
  show ?case by (rule watches_ok_watch [OF watch.IH ids_ok_reach [OF watch.hyps(1)] watch.hyps(2)])
next
  case (unwatch s i)
  then show ?case by (simp add: watches_ok_def unwatch_def watch_ok_def pipe_def)
next
  case (conductor s c)
  then show ?case by (simp add: watches_ok_def watch_ok_def pipe_def)
next
  case (listing s i new a)
  show ?case by (rule watches_ok_step [OF listing.IH _ _ watch_ok_listing [OF listing.hyps(3,2)]]) simp_all
next
  case (acking s i new)
  show ?case by (rule watches_ok_step [OF acking.IH _ _ watch_ok_acking [OF acking.hyps(2)]]) simp_all
next
  case (finish s i r a)
  show ?case by (rule watches_ok_step [OF finish.IH _ _ watch_ok_finish [OF finish.hyps(3)]]) simp_all
next
  case (finish_dropped s i r)
  show ?case
    by (rule watches_ok_step [OF finish_dropped.IH]) (auto simp: watch_ok_def pipe_def dest: set_mp [OF set_remove1_subset])
next
  case (unlist s i)
  show ?case by (rule watches_ok_step [OF unlist.IH _ _ watch_ok_unlist [OF unlist.hyps(2)]]) simp_all
next
  case (heartbeat s)
  have "watch_ok node (s\<lparr>sy_agent := send_heartbeat (sy_agent s)\<rparr>) i w" if w: "watch_ok node s i w" for i w
    unfolding send_heartbeat_def using watch_ok_send [OF _ w] tracked_heartbeat watch_okD(1) [OF w] by blast
  then show ?case by (rule watches_ok_step [OF heartbeat.IH, rotated 2]) simp_all
next
  case (other s)
  have "watch_ok node (s\<lparr>sy_agent := Client_Send OtherMessage (sy_agent s)\<rparr>) i w" if w: "watch_ok node s i w" for i w
    using watch_ok_send [OF _ w] tracked_other watch_okD(1) [OF w] by blast
  then show ?case by (rule watches_ok_step [OF other.IH, rotated 2]) simp_all
next
  case (written s m ms)
  show ?case
    by (rule watches_ok_step [OF written.IH]) (use written.hyps(2) in \<open>simp_all add: watch_ok_def pipe_def\<close>)
next
  case (write_failed s m ms)
  have "watch_ok node (s\<lparr>sy_agent := (sy_agent s)\<lparr>ag_outbound := ms\<rparr>, sy_gone := sy_gone s \<union> set (result_ids [m])\<rparr>) i w"
    if "i \<notin> sy_gone s \<union> set (result_ids [m])" "watch_ok node s i w" for i w
    by (rule watch_ok_pipe [OF that(2), of "sy_net s" "[m]" ms]) (use that write_failed.hyps(2) in \<open>simp_all add: pipe_def\<close>)
  then show ?case by (rule watches_ok_step [OF write_failed.IH, rotated 2]) simp_all
next
  case (receive s m ms now)
  show ?case by (rule watches_ok_receive [OF receive.IH receive.hyps(2)])
next
  case (disconnect s)
  have "watch_ok node (s\<lparr>sy_net := [], sy_gone := sy_gone s \<union> set (result_ids (sy_net s))\<rparr>) i w"
    if "i \<notin> sy_gone s \<union> set (result_ids (sy_net s))" "watch_ok node s i w" for i w
    by (rule watch_ok_pipe [OF that(2), of "[]" "sy_net s" "ag_outbound (sy_agent s)"]) (use that in \<open>simp_all add: pipe_def\<close>)
  then show ?case by (rule watches_ok_step [OF disconnect.IH, rotated 2]) simp_all
next
  case (restart s)
  show ?case by (rule watches_ok_step [OF restart.IH _ _ watch_ok_restart]) auto
qed

section \<open>What a wait returns\<close>

lemma Wait_task_cases:
  assumes "(out, c') \<in> set (Wait_task now t c)"
  obtains (result) w r where "cd_watches c (tk_ID t) = Some w" "wa_result w = Some r" "out = outcome r"
  | (lost) w where "cd_watches c (tk_ID t) = Some w" "wa_lost w" "wa_result w = None" "out = (None, Some (ErrNoResult no_longer_there))"
  | (tick) w where "cd_watches c (tk_ID t) = Some w" "now > tk_deadline t" "Get (tk_node t) (cd_hub c) = None \<or> \<not> wa_known w"
      "out = (None, Some (ErrNoResult never_received))"
proof (cases "cd_watches c (tk_ID t)")
  case None
  with assms show ?thesis by (simp add: Wait_task_def wait_result_def wait_lost_def wait_tick_def)
next
  case (Some w)
  from assms consider "map_option fst (wait_result t c) = Some out" | "map_option fst (wait_lost now t c) = Some out"
    | "map_option fst (wait_tick now t c) = Some out" unfolding Wait_task_def by (auto split: if_splits)
  then show ?thesis
  proof cases
    case 1
    with Some that(1) show ?thesis by (auto simp: wait_result_def)
  next
    case 2
    with Some that(1,2) show ?thesis
      by (cases "wa_result w") (auto simp: wait_lost_def orphan_def split: if_splits)
  next
    case 3
    with Some that(3) show ?thesis by (auto simp: wait_tick_def orphan_def split: if_splits)
  qed
qed

lemma wait_result_returns: "wait_result t c = Some (out, c1) \<Longrightarrow> \<exists>c'. (out, c') \<in> set (Wait_task now t c)"
  by (intro exI [of _ "c1\<lparr>cd_watches := unwatch (tk_ID t) (cd_watches c1)\<rparr>"]) (simp add: Wait_task_def)

text \<open>
  C10: a wait for a task's outcome returns the result the agent's run of that task ended with; or says that the agent
  no longer has the task, which is so only when the result was dropped on its way, by a buffer that stayed
  full, a failed write, a broken connection or a restart of the agent; or gives up after the task's limit, and
  then only while the agent is away or never showed that it has the task.  This holds for every
  interleaving of the agent's goroutines, its connection and the conductor.
\<close>

theorem Wait_outcome_truthful:
  assumes "task_system node s" and "(out, c') \<in> set (Wait_task now t (sy_conductor s))"
  shows "(\<exists>r. (tk_ID t, r) \<in> sy_finished s \<and> out = outcome r)
     \<or> out = (None, Some (ErrNoResult no_longer_there)) \<and> tk_ID t \<in> sy_gone s
     \<or> out = (None, Some (ErrNoResult never_received)) \<and> now > tk_deadline t
         \<and> (Get (tk_node t) (cd_hub (sy_conductor s)) = None
            \<or> (\<exists>w. cd_watches (sy_conductor s) (tk_ID t) = Some w \<and> \<not> wa_known w))"
  using assms(2)
proof (cases rule: Wait_task_cases)
  case (result w r)
  with results_ok_reach [OF assms(1)] have "(tk_ID t, r) \<in> sy_finished s" unfolding results_ok_def by blast
  with result(3) show ?thesis by blast
next
  case (lost w)
  with watches_ok_reach [OF assms(1)] have "tk_ID t \<in> sy_gone s" by (auto simp: watches_ok_def watch_ok_def)
  with lost show ?thesis by simp
next
  case (tick w)
  then show ?thesis by blast
qed

text \<open>A run for an example: task 7 is watched, dispatched, acked, finished and reported.\<close>

definition example_conductor :: "(nat, nat) conductor" where
  "example_conductor = \<lparr>cd_hub = New_hub, cd_tasks = [], cd_watches = Map.empty\<rparr>"

definition example_result :: "nat task_result" where
  "example_result = \<lparr>rs_Success = True, rs_Output = Some 5, rs_ErrorMsg = []\<rparr>"

lemma example_system:
  "\<exists>s :: (nat, nat) system. task_system 1 s \<and> sy_finished s = {(7, example_result)} \<and> sy_gone s = {}
     \<and> cd_watches (sy_conductor s) 7 = Some \<lparr>wa_node = 1, wa_result = Some example_result, wa_known = True, wa_lost = False\<rparr>"
proof -
  let ?w = "\<lambda>r k. [7 \<mapsto> \<lparr>wa_node = 1, wa_result = r, wa_known = k, wa_lost = False\<rparr>]"
  let ?c = "\<lambda>r k tbl. \<lparr>cd_hub = New_hub, cd_tasks = tbl, cd_watches = ?w r k\<rparr> :: (nat, nat) conductor"
  let ?s = "\<lambda>tasks out ack run en net c d f. \<lparr>sy_agent = \<lparr>ag_tasks = tasks, ag_outbound = out\<rparr>, sy_acking = ack, sy_running = run,
     sy_ending = en, sy_net = net, sy_conductor = c, sy_dispatched = d, sy_finished = f, sy_gone = {}\<rparr>"
  have "task_system 1 (?s [] [] None [] [] [] example_conductor {} {})"
    using task_system.init [of example_conductor 1] by (simp add: New_agent_def example_conductor_def)
  from task_system.watch [OF this, of 7 1] have "task_system 1 (?s [] [] None [] [] [] (?c None False []) {} {})"
    by (simp add: watchTask_def example_conductor_def)
  from task_system.listing [OF this, of 7 True "\<lparr>ag_tasks = [7], ag_outbound = []\<rparr>"]
  have "task_system 1 (?s [7] [] (Some (7, True)) [] [] [] (?c None False []) {7} {})" by (simp add: start_list_def)
  from task_system.acking [OF this, of 7 True]
  have "task_system 1 (?s [7] [TaskAck 7] None [7] [] [] (?c None False []) {7} {})"
    by (simp add: start_ack_def Client_Send_def outboundCap_def)
  from task_system.finish [OF this, of 7 example_result "\<lparr>ag_tasks = [7], ag_outbound = [TaskAck 7, TaskResult 7 example_result]\<rparr>"]
  have "task_system 1 (?s [7] [TaskAck 7, TaskResult 7 example_result] None [] [7] [] (?c None False []) {7} {(7, example_result)})"
    by (simp add: end_send_def Client_SendWait_def outboundCap_def)
  from task_system.written [OF this, of "TaskAck 7" "[TaskResult 7 example_result]"]
  have "task_system 1 (?s [7] [TaskResult 7 example_result] None [] [7] [TaskAck 7] (?c None False []) {7} {(7, example_result)})" by simp
  from task_system.written [OF this, of "TaskResult 7 example_result" "[]"]
  have "task_system 1 (?s [7] [] None [] [7] [TaskAck 7, TaskResult 7 example_result] (?c None False []) {7} {(7, example_result)})" by simp
  from task_system.receive [OF this, of "TaskAck 7" "[TaskResult 7 example_result]" 0]
  have "task_system 1 (?s [7] [] None [] [7] [TaskResult 7 example_result] (?c None True []) {7} {(7, example_result)})"
    by (simp add: handleTaskAck_def SetAck_def update_task_def NotifyTaskAck_def)
  from task_system.receive [OF this, of "TaskResult 7 example_result" "[]" 0]
  have "task_system 1 (?s [7] [] None [] [7] [] (?c (Some example_result) True []) {7} {(7, example_result)})"
    by (simp add: handleTaskResult_def Complete_def update_task_def NotifyTaskResult_def)
  then show ?thesis by (intro exI conjI) (assumption, simp_all)
qed

theorem Wait_outcome_truthful_witness:
  "\<exists>(s :: (nat, nat) system) c'. task_system 1 s
     \<and> ((Some 5, None), c') \<in> set (Wait_task 100 \<lparr>tk_ID = 7, tk_node = 1, tk_deadline = 50\<rparr> (sy_conductor s))
     \<and> (\<exists>r. (7, r) \<in> sy_finished s \<and> (Some 5, None) = outcome r)"
proof -
  obtain s :: "(nat, nat) system" where s: "task_system 1 s" "sy_finished s = {(7, example_result)}"
    "cd_watches (sy_conductor s) 7 = Some \<lparr>wa_node = 1, wa_result = Some example_result, wa_known = True, wa_lost = False\<rparr>"
    using example_system by blast
  obtain c' where w: "((Some 5, None), c') \<in> set (Wait_task 100 \<lparr>tk_ID = 7, tk_node = 1, tk_deadline = 50\<rparr> (sy_conductor s))"
    using wait_result_returns [of "\<lparr>tk_ID = 7, tk_node = 1, tk_deadline = 50\<rparr>" "sy_conductor s" "(Some 5, None)"]
    by (auto simp: wait_result_def s(3) outcome_def example_result_def)
  from Wait_outcome_truthful [OF s(1) w] have "\<exists>r. (7, r) \<in> sy_finished s \<and> (Some 5, None) = outcome r" by simp
  with s(1) w show ?thesis by blast
qed

end
