(* ===== verification/BackupScheduler.thy ===== *)
theory BackupScheduler
  imports BackupRound Dispatcher Oplock Cron Events FileSyncService
begin

text \<open>
  The backup scheduler of \<open>internal/server/scheduler/backupscheduler.go\<close>, with the tables it reads and writes
  (\<open>internal/server/db/queries/backup.go\<close>): which tier is due, starting a round under the cluster's
  operation lock, retrying and skipping it, what its outcome records, the syncs that follow and when a
  node counts as settled.
\<close>

section \<open>Tables\<close>

record backup_target =
  bt_ID :: uuid
  bt_ClusterID :: uuid
  bt_RepoIndex :: int
  bt_Label :: string
  bt_TargetType :: string
  bt_PosixPath :: "string option"
  bt_SyncToNodes :: "uuid list"

definition ListTargets :: "backup_target list \<Rightarrow> uuid \<Rightarrow> backup_target list" where
  "ListTargets tbl c = sort_key bt_RepoIndex (filter (\<lambda>t. bt_ClusterID t = c) tbl)"

definition NextRepoIndex :: "backup_target list \<Rightarrow> uuid \<Rightarrow> int" where
  "NextRepoIndex tbl c =
     (let used = map bt_RepoIndex (filter (\<lambda>t. bt_ClusterID t = c) tbl)
      in case find (\<lambda>i. i \<notin> set used) [1, 2, 3, 4] of Some i \<Rightarrow> i | None \<Rightarrow> 0)"

record backup_schedule =
  sd_ClusterID :: uuid
  sd_Enabled :: bool
  sd_FullBackupCron :: string
  sd_DiffBackupCron :: string
  sd_IncrBackupIntervalHrs :: int
  sd_StanzaName :: "string option"
  sd_StanzaInitialized :: bool
  sd_FirstBackupRun :: bool
  sd_RestoreInProgress :: bool

definition ListEnabled :: "backup_schedule list \<Rightarrow> backup_schedule list" where
  "ListEnabled = filter (\<lambda>s. sd_Enabled s \<and> sd_StanzaInitialized s \<and> \<not> sd_RestoreInProgress s)"

definition update_schedule :: "uuid \<Rightarrow> (backup_schedule \<Rightarrow> backup_schedule) \<Rightarrow> backup_schedule list \<Rightarrow> backup_schedule list" where
  "update_schedule c f = map (\<lambda>s. if sd_ClusterID s = c then f s else s)"

definition SetStanzaInitialized :: "uuid \<Rightarrow> string \<Rightarrow> backup_schedule list \<Rightarrow> backup_schedule list" where
  "SetStanzaInitialized c stanza = update_schedule c (\<lambda>s. s\<lparr>sd_StanzaName := Some stanza, sd_StanzaInitialized := True\<rparr>)"

definition ClearStanzaInitialized :: "uuid \<Rightarrow> backup_schedule list \<Rightarrow> backup_schedule list" where
  "ClearStanzaInitialized c = update_schedule c (\<lambda>s. s\<lparr>sd_StanzaInitialized := False\<rparr>)"

definition SetFirstBackupRun :: "uuid \<Rightarrow> backup_schedule list \<Rightarrow> backup_schedule list" where
  "SetFirstBackupRun c = update_schedule c (\<lambda>s. s\<lparr>sd_FirstBackupRun := True\<rparr>)"

definition SetRestoreInProgress :: "uuid \<Rightarrow> bool \<Rightarrow> backup_schedule list \<Rightarrow> backup_schedule list" where
  "SetRestoreInProgress c b = update_schedule c (\<lambda>s. s\<lparr>sd_RestoreInProgress := b\<rparr>)"

text \<open>The upsert of a cluster's schedule: a new row has the table's defaults.\<close>

definition Upsert_schedule ::
  "uuid \<Rightarrow> bool \<Rightarrow> string \<Rightarrow> string \<Rightarrow> int \<Rightarrow> backup_schedule list \<Rightarrow> backup_schedule list" where
  "Upsert_schedule c enabled full diff incr tbl =
     (if c \<in> set (map sd_ClusterID tbl)
      then update_schedule c (\<lambda>s. s\<lparr>sd_Enabled := enabled, sd_FullBackupCron := full, sd_DiffBackupCron := diff,
             sd_IncrBackupIntervalHrs := incr\<rparr>) tbl
      else tbl @ [\<lparr>sd_ClusterID = c, sd_Enabled = enabled, sd_FullBackupCron = full, sd_DiffBackupCron = diff,
             sd_IncrBackupIntervalHrs = incr, sd_StanzaName = None, sd_StanzaInitialized = False,
             sd_FirstBackupRun = False, sd_RestoreInProgress = False\<rparr>])"

record backup_run =
  rn_ID :: uuid
  rn_ClusterID :: uuid
  rn_BackupType :: string
  rn_RepoIndex :: "int option"
  rn_TaskID :: "uuid option"
  rn_Attempt :: int
  rn_ScheduledAt :: instant
  rn_DispatchedAt :: "instant option"
  rn_Status :: string
  rn_CompletedAt :: "instant option"
  rn_ErrorMessage :: "string option"

type_synonym run_table = "backup_run list"

definition RunCreate :: "uuid \<Rightarrow> uuid \<Rightarrow> string \<Rightarrow> int \<Rightarrow> instant \<Rightarrow> int \<Rightarrow> run_table \<Rightarrow> run_table" where
  "RunCreate runID c backupType repo scheduledAt attempt tbl =
     tbl @ [\<lparr>rn_ID = runID, rn_ClusterID = c, rn_BackupType = backupType, rn_RepoIndex = Some repo, rn_TaskID = None,
             rn_Attempt = attempt, rn_ScheduledAt = scheduledAt, rn_DispatchedAt = None, rn_Status = ''pending'',
             rn_CompletedAt = None, rn_ErrorMessage = None\<rparr>]"

definition update_run :: "uuid \<Rightarrow> (backup_run \<Rightarrow> backup_run) \<Rightarrow> run_table \<Rightarrow> run_table" where
  "update_run i f = map (\<lambda>r. if rn_ID r = i then f r else r)"

definition SetDispatched :: "instant \<Rightarrow> uuid \<Rightarrow> uuid \<Rightarrow> run_table \<Rightarrow> run_table" where
  "SetDispatched now i task = update_run i (\<lambda>r. r\<lparr>rn_TaskID := Some task, rn_Status := ''running'', rn_DispatchedAt := Some now\<rparr>)"

definition SetSuccess :: "instant \<Rightarrow> uuid \<Rightarrow> run_table \<Rightarrow> run_table" where
  "SetSuccess now i = update_run i (\<lambda>r. r\<lparr>rn_Status := ''success'', rn_CompletedAt := Some now\<rparr>)"

definition SetFailed :: "instant \<Rightarrow> uuid \<Rightarrow> string \<Rightarrow> run_table \<Rightarrow> run_table" where
  "SetFailed now i msg = update_run i (\<lambda>r. r\<lparr>rn_Status := ''failed'', rn_CompletedAt := Some now, rn_ErrorMessage := Some msg\<rparr>)"

definition SetAbandoned :: "instant \<Rightarrow> uuid \<Rightarrow> string \<Rightarrow> run_table \<Rightarrow> run_table" where
  "SetAbandoned now i msg =
     update_run i (\<lambda>r. r\<lparr>rn_Status := ''abandoned'', rn_CompletedAt := Some now, rn_ErrorMessage := Some msg\<rparr>)"

section \<open>What is due\<close>

definition tier_due :: "backup_schedule \<Rightarrow> civil \<Rightarrow> string option" where
  "tier_due s now =
     (if sd_StanzaName s = None then None
      else if Matches (sd_FullBackupCron s) now then Some ''full''
      else if Matches (sd_DiffBackupCron s) now then Some ''diff''
      else if sd_IncrBackupIntervalHrs s > 0 \<and> int (c_Hour now) mod sd_IncrBackupIntervalHrs s = 0 \<and> c_Minute now = 0
      then Some ''incr''
      else None)"

text \<open>The rounds a tick fires: cluster, stanza and type.\<close>

definition tick_rounds :: "backup_schedule list \<Rightarrow> civil \<Rightarrow> (uuid \<times> string \<times> string) list" where
  "tick_rounds tbl now =
     concat (map (\<lambda>s. case (tier_due s now, sd_StanzaName s) of
         (Some tier, Some stanza) \<Rightarrow> [(sd_ClusterID s, stanza, tier)]
       | _ \<Rightarrow> []) (ListEnabled tbl))"

section \<open>Rounds\<close>

datatype backup_task = RunBackups backup_params | RunCatalog string

text \<open>The output of a backup task is the JSON of its results; any other output is no such JSON.\<close>

datatype task_output = Results "backup_result list" | OtherOutput string

type_synonym backup_conductor = "(backup_task, task_output) conductor"

definition backupScheduleInterval :: duration where "backupScheduleInterval = minute"
definition backupStartTries :: int where "backupStartTries = 3"
definition backupCheckTries :: int where "backupCheckTries = 3"
definition BackupTimeoutSecs :: int where "BackupTimeoutSecs = 3600"
definition CatalogTimeoutSecs :: int where "CatalogTimeoutSecs = 60"
definition defaultBackupRepoPath :: string where "defaultBackupRepoPath = ''/var/lib/pgbackrest''"

definition roundTimeoutSecs :: "int \<Rightarrow> int" where
  "roundTimeoutSecs n =
     n * (backupCheckTries * CatalogTimeoutSecs + (backupCheckTries - 1) * (backupScheduleInterval div second) + BackupTimeoutSecs)"

text \<open>
  What the scheduler works on.  \<open>sc_rounds\<close> are the goroutines waiting for a round's task, each with the
  cluster, the task and the unlock it will call; \<open>sc_jobs\<close> the sync jobs handed to the file-sync manager.
\<close>

record sched =
  sc_conductor :: backup_conductor
  sc_locks :: locks
  sc_nodes :: "node list"
  sc_targets :: "backup_target list"
  sc_schedules :: "backup_schedule list"
  sc_runs :: run_table
  sc_events :: "event list"
  sc_jobs :: "job list"
  sc_rounds :: "(uuid \<times> task \<times> unlock_handle) list"

text \<open>
  What the calls of one try meet: a database that fails, the identifiers drawn for the task and for each
  location's run, and the time.
\<close>

record try_env =
  te_now :: instant
  te_targets_fail :: bool
  te_nodes_fail :: bool
  te_create :: "string option"
  te_sent :: bool
  te_task :: uuid
  te_run :: "int \<Rightarrow> uuid option"
  te_dispatched :: "int \<Rightarrow> bool"

definition findPrimaryNode :: "bool \<Rightarrow> uuid \<Rightarrow> sched \<Rightarrow> node option" where
  "findPrimaryNode fails c s = (if fails then None else PrimaryDBNode (ListByCluster (sc_nodes s) c))"

definition round_params :: "string \<Rightarrow> string \<Rightarrow> int list \<Rightarrow> backup_params" where
  "round_params stanza backupType repos =
     \<lparr>bp_Stanza = stanza, bp_Type = backupType, bp_Repos = repos, bp_CheckTries = backupCheckTries,
      bp_CheckTimeoutSecs = CatalogTimeoutSecs, bp_CheckRetrySecs = backupScheduleInterval div second,
      bp_BackupTimeoutSecs = BackupTimeoutSecs\<rparr>"

text \<open>A run per location; a run that can't be recorded is only logged.\<close>

definition record_run :: "try_env \<Rightarrow> uuid \<Rightarrow> string \<Rightarrow> instant \<Rightarrow> int \<Rightarrow> int \<Rightarrow> run_table \<Rightarrow> run_table" where
  "record_run e c backupType scheduledAt try repo tbl = (case te_run e repo of
      None \<Rightarrow> tbl
    | Some i \<Rightarrow>
        let tbl = RunCreate i c backupType repo scheduledAt try tbl
        in if te_dispatched e repo then SetDispatched (te_now e) i (te_task e) tbl else tbl)"

definition startRound ::
  "try_env \<Rightarrow> uuid \<Rightarrow> string \<Rightarrow> string \<Rightarrow> instant \<Rightarrow> int \<Rightarrow> sched
     \<Rightarrow> panic + ((string \<times> bool) + (node \<times> uuid)) \<times> sched" where
  "startRound e c stanza backupType scheduledAt try s =
     (let targets = (if te_targets_fail e then [] else ListTargets (sc_targets s) c); repos = map bt_RepoIndex targets
      in if targets = [] then Inr (Inl (''no storage locations'', False), s)
         else case findPrimaryNode (te_nodes_fail e) c s of
           None \<Rightarrow> Inr (Inl (''no connected primary'', True), s)
         | Some primary \<Rightarrow>
             (case TryLock (sc_locks s) c ''a backup'' of
                Inl busy \<Rightarrow> Inr (Inl (busy_message busy, True), s)
              | Inr (unlock, locks) \<Rightarrow>
                  (case StartTask (te_create e) (te_sent e) (te_now e) (te_task e) (nd_ID primary) ''pgbackrest.backup''
                          (RunBackups (round_params stanza backupType repos)) (roundTimeoutSecs (int (length repos)))
                          (sc_conductor s) of
                     Inl p \<Rightarrow> Inl p
                   | Inr (Inl err, cd) \<Rightarrow> Inr (Inl (err, True), s\<lparr>sc_conductor := cd, sc_locks := Unlock locks unlock\<rparr>)
                   | Inr (Inr task, cd) \<Rightarrow>
                       Inr (Inr (primary, tk_ID task),
                            s\<lparr>sc_conductor := cd, sc_locks := locks, sc_rounds := sc_rounds s @ [(c, task, unlock)],
                              sc_runs := fold (record_run e c backupType scheduledAt try) repos (sc_runs s)\<rparr>))))"

definition StartBackups :: "try_env \<Rightarrow> uuid \<Rightarrow> string \<Rightarrow> string \<Rightarrow> instant \<Rightarrow> sched
     \<Rightarrow> panic + (string + (node \<times> uuid)) \<times> sched" where
  "StartBackups e c stanza backupType scheduledAt s =
     map_sum id (\<lambda>(r, s). (map_sum fst id r, s)) (startRound e c stanza backupType scheduledAt 1 s)"

section \<open>Firing a scheduled round\<close>

definition emit_sched :: "event \<Rightarrow> sched \<Rightarrow> sched" where
  "emit_sched ev s = s\<lparr>sc_events := sc_events s @ [ev]\<rparr>"

definition postponed_event :: "uuid \<Rightarrow> string \<Rightarrow> int \<Rightarrow> string \<Rightarrow> event" where
  "postponed_event c backupType try err = Cluster c (New_event ''cluster'' ''warn'' ''NBC-CLU-011''
     (''Scheduled '' @ backupType @ '' backup couldn't start (try '' @ itoa try @ '' of '' @ itoa backupStartTries
      @ ''), trying again in 1m0s: '' @ err) ActorSystem)"

definition abandon_message :: "string \<Rightarrow> string" where
  "abandon_message err = ''not started in '' @ itoa backupStartTries @ '' tries: '' @ err"

definition skipRound :: "try_env \<Rightarrow> uuid \<Rightarrow> string \<Rightarrow> instant \<Rightarrow> string \<Rightarrow> sched \<Rightarrow> sched" where
  "skipRound e c backupType scheduledAt err s =
     (let msg = abandon_message err; targets = (if te_targets_fail e then [] else ListTargets (sc_targets s) c);
          abandon = (\<lambda>t tbl. case te_run e (bt_RepoIndex t) of
              None \<Rightarrow> tbl
            | Some i \<Rightarrow> SetAbandoned (te_now e) i msg (RunCreate i c backupType (bt_RepoIndex t) scheduledAt backupStartTries tbl))
      in emit_sched (Cluster c (New_event ''cluster'' ''error'' ''NBC-CLU-012''
             (''Scheduled '' @ backupType @ '' backup skipped: '' @ msg) ActorSystem))
           (s\<lparr>sc_runs := fold abandon targets (sc_runs s)\<rparr>))"

datatype fired = Started int | NotRetried string | Skipped | Cancelled

text \<open>
  The goroutine of \<open>fireBackup\<close>.  Before each try other goroutines may have changed anything (\<open>world\<close>);
  \<open>stop\<close> tells whether the context ends during the wait after it.  \<open>None\<close> means that the fuel ran out.
\<close>

fun fire_loop ::
  "nat \<Rightarrow> (int \<Rightarrow> try_env) \<Rightarrow> (int \<Rightarrow> sched \<Rightarrow> sched) \<Rightarrow> (int \<Rightarrow> bool) \<Rightarrow> uuid \<Rightarrow> string \<Rightarrow> string \<Rightarrow> instant \<Rightarrow> int \<Rightarrow> sched
     \<Rightarrow> (panic + fired \<times> sched) option" where
  "fire_loop 0 env world stop c stanza backupType scheduledAt try s = None"
| "fire_loop (Suc fuel) env world stop c stanza backupType scheduledAt try s =
     (case startRound (env try) c stanza backupType scheduledAt try (world try s) of
        Inl p \<Rightarrow> Some (Inl p)
      | Inr (Inr _, s) \<Rightarrow> Some (Inr (Started try, s))
      | Inr (Inl (err, retry), s) \<Rightarrow>
          if \<not> retry then Some (Inr (NotRetried err, s))
          else if try = backupStartTries then Some (Inr (Skipped, skipRound (env try) c backupType scheduledAt err s))
          else let s = emit_sched (postponed_event c backupType try err) s
               in if stop try then Some (Inr (Cancelled, s))
                  else fire_loop fuel env world stop c stanza backupType scheduledAt (try + 1) s)"

definition fireBackup ::
  "(int \<Rightarrow> try_env) \<Rightarrow> (int \<Rightarrow> sched \<Rightarrow> sched) \<Rightarrow> (int \<Rightarrow> bool) \<Rightarrow> uuid \<Rightarrow> string \<Rightarrow> string \<Rightarrow> instant \<Rightarrow> sched
     \<Rightarrow> (panic + fired \<times> sched) option" where
  "fireBackup env world stop c stanza backupType scheduledAt =
     fire_loop (nat backupStartTries) env world stop c stanza backupType scheduledAt 1"

end
