(* ===== verification/BackupSync.thy ===== *)
theory BackupSync
  imports BackupScheduler
begin

text \<open>
  After a round, \<open>internal/server/scheduler/backupscheduler.go\<close>: the end of the goroutine that waits for it,
  the outcomes recorded from the task table, the syncs of the locations backed up, and the settle timers
  that decide which nodes take part.
\<close>

section \<open>Settled nodes\<close>

text \<open>
  A \<open>settleTimer\<close> is a number; \<open>sl_armed\<close> are the running timers with the time they fire at, \<open>sl_inflight\<close>
  the callbacks that fired and have not run.
\<close>

record settle =
  sl_settling :: "uuid \<rightharpoonup> nat"
  sl_next :: nat
  sl_settled :: "nat list"
  sl_armed :: "(nat \<times> uuid \<times> uuid \<times> instant) list"
  sl_inflight :: "(nat \<times> uuid \<times> uuid) list"

definition New_settle :: settle where
  "New_settle = \<lparr>sl_settling = Map.empty, sl_next = 0, sl_settled = [], sl_armed = [], sl_inflight = []\<rparr>"

definition stop_timer :: "nat \<Rightarrow> settle \<Rightarrow> settle" where
  "stop_timer i s = s\<lparr>sl_armed := filter (\<lambda>(j, _). j \<noteq> i) (sl_armed s)\<rparr>"

definition settle_connect :: "instant \<Rightarrow> duration \<Rightarrow> uuid \<Rightarrow> uuid \<Rightarrow> settle \<Rightarrow> settle" where
  "settle_connect now delay nodeID clusterID s =
     (let st = sl_next s;
          s = (case sl_settling s nodeID of Some old \<Rightarrow> stop_timer old s | None \<Rightarrow> s)
      in s\<lparr>sl_next := st + 1, sl_settling := (sl_settling s)(nodeID \<mapsto> st),
           sl_armed := sl_armed s @ [(st, nodeID, clusterID, now + delay)]\<rparr>)"

definition settle_disconnect :: "uuid \<Rightarrow> settle \<Rightarrow> settle" where
  "settle_disconnect nodeID s = (case sl_settling s nodeID of
      Some st \<Rightarrow> (stop_timer st s)\<lparr>sl_settling := (sl_settling s)(nodeID := None)\<rparr>
    | None \<Rightarrow> s)"

text \<open>A timer's time comes.\<close>

definition settle_fire :: "instant \<Rightarrow> settle \<Rightarrow> settle" where
  "settle_fire now s =
     s\<lparr>sl_armed := filter (\<lambda>(_, _, _, at). at > now) (sl_armed s),
       sl_inflight := sl_inflight s @ map (\<lambda>(st, n, c, _). (st, n, c)) (filter (\<lambda>(_, _, _, at). at \<le> now) (sl_armed s))\<rparr>"

text \<open>A fired callback runs; the cluster whose backups it then syncs.\<close>

definition settle_callback :: "nat \<times> uuid \<times> uuid \<Rightarrow> settle \<Rightarrow> uuid option \<times> settle" where
  "settle_callback cb s = (case cb of (st, nodeID, clusterID) \<Rightarrow>
     (let current = (sl_settling s nodeID = Some st)
      in (if current then Some clusterID else None,
          s\<lparr>sl_inflight := remove1 cb (sl_inflight s),
            sl_settled := (if current then st # sl_settled s else removeAll st (sl_settled s))\<rparr>)))"

definition settled :: "uuid \<Rightarrow> settle \<Rightarrow> bool" where
  "settled nodeID s = (case sl_settling s nodeID of Some st \<Rightarrow> st \<in> set (sl_settled s) | None \<Rightarrow> False)"

section \<open>Syncing backups\<close>

definition reports_primary :: "node \<Rightarrow> bool" where
  "reports_primary n = (IsDBRole (nd_Role n) \<and> nd_AgentStatus n = ''connected'' \<and> ExtractPatroniRole (nd_PatroniState n) = ''primary'')"

text \<open>The primary is looked for in a loop that gives up when it meets a second one.\<close>

fun one_primary :: "node option \<Rightarrow> node list \<Rightarrow> node option" where
  "one_primary p [] = p"
| "one_primary p (n # ns) =
     (if reports_primary n then (if p \<noteq> None then None else one_primary (Some n) ns) else one_primary p ns)"

definition skip_event :: "backup_target \<Rightarrow> node \<Rightarrow> string \<Rightarrow> event" where
  "skip_event t n why = Meta ''folder'' ''backups'' (Node (nd_ID n) (Cluster (nd_ClusterID n)
     (New_event ''cluster'' ''info'' ''NBC-CLU-015''
        (''Sync of backups ('' @ bt_Label t @ '') to '' @ nd_Hostname n @ '' skipped due to instability: '' @ why
         @ ''; it catches up once settled'') ActorSystem)))"

datatype dest = Dest node | SkipNode node string | NotForNode

definition destination :: "settle \<Rightarrow> backup_target \<Rightarrow> node \<Rightarrow> node \<Rightarrow> dest" where
  "destination st t primary n =
     (if nd_ID n = nd_ID primary \<or> nd_ID n \<notin> set (bt_SyncToNodes t) then NotForNode
      else if \<not> settled (nd_ID primary) st
      then SkipNode n (''the primary, '' @ nd_Hostname primary @ '', hasn't been connected for the failback timer's length yet'')
      else if nd_AgentStatus n \<noteq> ''connected'' then SkipNode n ''its agent isn't connected''
      else if \<not> settled (nd_ID n) st
      then SkipNode n ''its agent hasn't been connected for the failback timer's length yet''
      else Dest n)"

definition target_sync :: "settle \<Rightarrow> string \<Rightarrow> node list \<Rightarrow> node \<Rightarrow> (backup_target \<Rightarrow> bool) \<Rightarrow> backup_target \<Rightarrow> event list \<times> job list" where
  "target_sync st stanza nodes primary pick t =
     (if bt_TargetType t \<noteq> ''posix'' \<or> bt_SyncToNodes t = [] \<or> \<not> pick t then ([], [])
      else let path = (case bt_PosixPath t of None \<Rightarrow> defaultBackupRepoPath
                       | Some p \<Rightarrow> if p = [] then defaultBackupRepoPath else p);
               ds = map (destination st t primary) nodes;
               skips = concat (map (\<lambda>d. case d of SkipNode n why \<Rightarrow> [skip_event t n why] | _ \<Rightarrow> []) ds);
               dests = concat (map (\<lambda>d. case d of Dest n \<Rightarrow> [n] | _ \<Rightarrow> []) ds)
           in (skips, if dests = [] then []
                      else [BackupJob (bt_ClusterID t) (bt_Label t) (bt_RepoIndex t) path stanza primary dests]))"

definition syncBackups ::
  "settle \<Rightarrow> uuid \<Rightarrow> string \<Rightarrow> (backup_target \<Rightarrow> bool) \<Rightarrow> bool \<Rightarrow> bool \<Rightarrow> sched \<Rightarrow> sched" where
  "syncBackups st c stanza pick nodes_fail targets_fail s =
     (let nodes = ListByCluster (sc_nodes s) c
      in if nodes_fail then s
         else case one_primary None nodes of
           None \<Rightarrow> s
         | Some primary \<Rightarrow>
             if targets_fail then s
             else let outs = map (target_sync st stanza nodes primary pick) (ListTargets (sc_targets s) c)
                  in s\<lparr>sc_events := sc_events s @ concat (map fst outs), sc_jobs := sc_jobs s @ concat (map snd outs)\<rparr>)"

definition get_schedule :: "uuid \<Rightarrow> sched \<Rightarrow> backup_schedule option" where
  "get_schedule c s = find (\<lambda>d. sd_ClusterID d = c) (sc_schedules s)"

definition SyncBackups :: "settle \<Rightarrow> uuid \<Rightarrow> bool \<Rightarrow> bool \<Rightarrow> sched \<Rightarrow> sched" where
  "SyncBackups st c nodes_fail targets_fail s = (case get_schedule c s of
      None \<Rightarrow> s
    | Some d \<Rightarrow> (case sd_StanzaName d of
          None \<Rightarrow> s
        | Some stanza \<Rightarrow> if sd_StanzaInitialized d then syncBackups st c stanza (\<lambda>_. True) nodes_fail targets_fail s else s))"

section \<open>The end of a round\<close>

definition parse_results :: "task_output option \<Rightarrow> backup_result list" where
  "parse_results out = (case out of Some (Results rs) \<Rightarrow> rs | _ \<Rightarrow> [])"

definition backed_up :: "backup_result list \<Rightarrow> int list" where
  "backed_up rs = map br_Repo (filter (\<lambda>r. br_Error r = []) rs)"

definition afterBackups ::
  "settle \<Rightarrow> try_env \<Rightarrow> uuid \<Rightarrow> int list \<Rightarrow> sched \<Rightarrow> panic + sched" where
  "afterBackups st e c repos s =
     (if repos = [] then Inr s
      else case get_schedule c s of
        None \<Rightarrow> Inr s
      | Some d \<Rightarrow> (case sd_StanzaName d of
          None \<Rightarrow> Inr s
        | Some stanza \<Rightarrow>
            map_sum id (syncBackups st c stanza (\<lambda>t. bt_RepoIndex t \<in> set repos) (te_nodes_fail e) (te_targets_fail e))
              (case findPrimaryNode (te_nodes_fail e) c s of
                 None \<Rightarrow> Inr s
               | Some primary \<Rightarrow>
                   map_sum id (\<lambda>(_, cd). s\<lparr>sc_conductor := cd\<rparr>)
                     (DispatchTask (te_create e) (te_sent e) (te_now e) (nd_ID primary) (te_task e) ''pgbackrest.catalog''
                        (RunCatalog stanza) 60 0 (sc_conductor s)))))"

text \<open>The goroutine of a round, once \<open>Wait\<close> returned \<open>out\<close> and the conductor \<open>cd\<close>: unlock, then sync.\<close>

definition round_over ::
  "settle \<Rightarrow> try_env \<Rightarrow> uuid \<times> task \<times> unlock_handle \<Rightarrow> task_output wait_outcome \<Rightarrow> backup_conductor \<Rightarrow> sched \<Rightarrow> panic + sched" where
  "round_over st e round out cd s = (case round of (c, task, unlock) \<Rightarrow>
     afterBackups st e c (backed_up (parse_results (fst out)))
       (s\<lparr>sc_conductor := cd, sc_locks := Unlock (sc_locks s) unlock, sc_rounds := remove1 round (sc_rounds s)\<rparr>))"

section \<open>Recorded outcomes\<close>

definition completed_runs :: "(backup_task, task_output) task_table \<Rightarrow> run_table \<Rightarrow> (backup_run \<times> (backup_task, task_output) task_row) list" where
  "completed_runs tasks runs =
     concat (map (\<lambda>r. map (Pair r) (filter (\<lambda>t. rn_TaskID r = Some (tr_TaskID t)
                        \<and> tr_Status t \<in> {''success'', ''failure'', ''timeout''}) tasks))
            (filter (\<lambda>r. rn_Status r = ''running'') runs))"

text \<open>The message of a run; empty means success.  A later result of the same location wins.\<close>

definition run_message :: "backup_run \<Rightarrow> (backup_task, task_output) task_row \<Rightarrow> string" where
  "run_message r t =
     (let p = (case tr_ResponsePayload t of Some p \<Rightarrow> p | None \<Rightarrow> \<lparr>rp_output = None, rp_error = []\<rparr>);
          results = parse_results (rp_output p);
          msg = (if rp_error p \<noteq> [] then rp_error p else ''no outcome for this location'');
          msg = (if tr_Status t = ''timeout'' then ''task timed out: '' @ msg else msg)
      in fold (\<lambda>res msg. if rn_RepoIndex r = Some (br_Repo res) then br_Error res else msg) results msg)"

definition syncCompletedRuns :: "instant \<Rightarrow> (backup_task, task_output) task_table \<Rightarrow> run_table \<Rightarrow> run_table" where
  "syncCompletedRuns now tasks runs =
     fold (\<lambda>(r, t) tbl. let msg = run_message r t
             in if msg = [] then SetSuccess now (rn_ID r) tbl else SetFailed now (rn_ID r) msg tbl)
       (completed_runs tasks runs) runs"

end
