(* ===== verification/BackupProps.thy ===== *)
theory BackupProps
  imports BackupSync
begin

text \<open>
  Backup rounds over time: the cluster's operation lock is held exactly while a round runs, whoever else
  takes and releases locks; and a scheduled round is started, given up or put on record within its tries.
\<close>

section \<open>The lock of a round\<close>

text \<open>
  \<open>others\<close> are the unlock closures of other operations; each may be called any number of times.  \<open>elsewhere\<close>
  is everything the rest of the conductor does to the other parts of the state.
\<close>

inductive sched_reach :: "sched \<Rightarrow> unlock_handle list \<Rightarrow> bool" where
  init: "sc_locks s = New_locks \<Longrightarrow> sc_rounds s = [] \<Longrightarrow> sched_reach s []"
| start: "sched_reach s others \<Longrightarrow> startRound e c stanza backupType scheduledAt try s = Inr (r, s') \<Longrightarrow> sched_reach s' others"
| over: "sched_reach s others \<Longrightarrow> round \<in> set (sc_rounds s) \<Longrightarrow> round_over st e round out cd s = Inr s' \<Longrightarrow> sched_reach s' others"
| lock: "sched_reach s others \<Longrightarrow> op \<noteq> ''a backup'' \<Longrightarrow> TryLock (sc_locks s) c op = Inr (h, l) \<Longrightarrow>
    sched_reach (s\<lparr>sc_locks := l\<rparr>) (h # others)"
| unlock: "sched_reach s others \<Longrightarrow> h \<in> set others \<Longrightarrow> sched_reach (s\<lparr>sc_locks := Unlock (sc_locks s) h\<rparr>) others"
| elsewhere: "sched_reach s others \<Longrightarrow> sc_locks s' = sc_locks s \<Longrightarrow> sc_rounds s' = sc_rounds s \<Longrightarrow> sched_reach s' others"

definition handles :: "(uuid \<times> task \<times> unlock_handle) list \<Rightarrow> unlock_handle list" where
  "handles rs = map (\<lambda>(_, _, h). h) rs"

definition round_locks :: "locks \<Rightarrow> (uuid \<times> task \<times> unlock_handle) list \<Rightarrow> unlock_handle list \<Rightarrow> bool" where
  "round_locks l rs others \<longleftrightarrow> lk_inv l \<and> distinct (handles rs) \<and> set (handles rs) \<subseteq> lk_live l
     \<and> (\<forall>(c, _, h)\<in>set rs. snd h = c) \<and> set others \<subseteq> lk_issued l \<and> set others \<inter> set (handles rs) = {}
     \<and> (\<forall>c. lk_running l c = Some ''a backup'' \<longleftrightarrow> c \<in> fst ` set rs)"

lemma round_locks_start:
  assumes ok: "round_locks l rs others" and t: "TryLock l c ''a backup'' = Inr (h, l')"
  shows "round_locks l' (rs @ [(c, t, h)]) others"
proof -
  have i: "lk_inv l" using ok by (simp add: round_locks_def)
  from i t show ?thesis
  proof (rule lk.grantE)
    assume free: "lk_running l c = None" and run: "lk_running l' = (lk_running l)(c := Some ''a backup'')"
      and h: "snd h = c" and i': "lk_inv l'" and new: "h \<notin> lk_issued l" and iss: "lk_issued l' = insert h (lk_issued l)"
      and live: "lk_live l' = insert h (lk_live l)"
    have "h \<notin> set (handles rs)" using ok new lk.live_issued [OF i] by (auto simp: round_locks_def)
    moreover have "h \<notin> set others" using ok new by (auto simp: round_locks_def)
    ultimately show ?thesis
      using ok run h i' iss live by (auto simp: round_locks_def handles_def image_iff)
  qed
qed

lemma round_locks_start_failed:
  assumes ok: "round_locks l rs others" and t: "TryLock l c ''a backup'' = Inr (h, l')"
  shows "round_locks (Unlock l' h) rs others"
proof -
  have i: "lk_inv l" using ok by (simp add: round_locks_def)
  from i t show ?thesis
  proof (rule lk.grantE)
    assume free: "lk_running l c = None" and run: "lk_running l' = (lk_running l)(c := Some ''a backup'')"
      and h: "snd h = c" and i': "lk_inv l'" and new: "h \<notin> lk_issued l" and iss: "lk_issued l' = insert h (lk_issued l)"
      and live: "lk_live l' = insert h (lk_live l)"
    have "h \<in> lk_live l'" using live by simp
    note R = lk.release [OF i' this]
    have "lk_running (Unlock l' h) = lk_running l" using R run h free by auto
    moreover have "lk_live l \<subseteq> lk_live (Unlock l' h)" using R live new lk.live_issued [OF i] by auto
    moreover have "lk_issued l \<subseteq> lk_issued (Unlock l' h)" using R iss by auto
    ultimately show ?thesis using ok R by (auto simp: round_locks_def)
  qed
qed

lemma round_locks_over:
  assumes ok: "round_locks l rs others" and r: "(c, t, h) \<in> set rs"
  shows "round_locks (Unlock l h) (remove1 (c, t, h) rs) others"
proof -
  have i: "lk_inv l" and d: "distinct (handles rs)" and live: "set (handles rs) \<subseteq> lk_live l"
    and cl: "\<forall>(c, _, h)\<in>set rs. snd h = c" and oth: "set others \<subseteq> lk_issued l" "set others \<inter> set (handles rs) = {}"
    and run: "\<forall>c. lk_running l c = Some ''a backup'' \<longleftrightarrow> c \<in> fst ` set rs"
    using ok by (simp_all add: round_locks_def)
  have drs: "distinct rs" using d by (simp add: handles_def distinct_map)
  have hl: "h \<in> lk_live l" "snd h = c" using r live cl by (force simp: handles_def)+
  note R = lk.release [OF i hl(1)]
  let ?rs = "remove1 (c, t, h) rs"
  have sub: "set ?rs = set rs - {(c, t, h)}" using drs by simp
  have hd: "set (handles ?rs) = set (handles rs) - {h}" and dh: "distinct (handles ?rs)"
  proof -
    have inj: "inj_on (\<lambda>(_, _, h). h) (set rs)" using d by (simp add: handles_def distinct_map)
    have "set (handles ?rs) = (\<lambda>(_, _, h). h) ` (set rs - {(c, t, h)})" using sub by (simp add: handles_def)
    also have "\<dots> = set (handles rs) - (\<lambda>(_, _, h). h) ` {(c, t, h)}"
      using inj_on_image_set_diff [OF inj, of "set rs" "{(c, t, h)}"] r by (simp add: handles_def)
    finally show "set (handles ?rs) = set (handles rs) - {h}" by simp
    have "inj_on (\<lambda>(_, _, h). h) (set ?rs)" using inj_on_subset [OF inj] sub by blast
    with drs show "distinct (handles ?rs)" by (simp add: handles_def distinct_map)
  qed
  have clusters: "fst ` set ?rs = fst ` set rs - {c}"
  proof -
    have "x = (c, t, h)" if xs: "x \<in> set rs" "fst x = c" for x
    proof -
      obtain t' h' where x: "x = (c, t', h')" using xs(2) by (cases x) auto
      have "h' \<in> lk_live l" "snd h' = c" using xs(1) x live cl by (force simp: handles_def)+
      with lk.live_unique [OF i _ hl(1)] hl(2) have "h' = h" by auto
      with xs(1) x r d show ?thesis by (auto simp: handles_def distinct_map inj_on_def)
    qed
    with r show ?thesis unfolding sub by force
  qed
  have "lk_running (Unlock l h) d = Some ''a backup'' \<longleftrightarrow> d \<in> fst ` set ?rs" for d
    using R run hl(2) unfolding clusters by auto
  moreover have "set (handles ?rs) \<subseteq> lk_live (Unlock l h)" using R live hd by auto
  moreover have "set others \<subseteq> lk_issued (Unlock l h)" "set others \<inter> set (handles ?rs) = {}" using R oth hd by auto
  moreover have "\<forall>(c, _, h)\<in>set ?rs. snd h = c" using cl sub by blast
  ultimately show ?thesis using R dh by (simp add: round_locks_def)
qed

lemma round_locks_other_lock:
  assumes ok: "round_locks l rs others" and t: "TryLock l c op = Inr (h, l')" and op: "op \<noteq> ''a backup''"
  shows "round_locks l' rs (h # others)"
proof -
  have i: "lk_inv l" using ok by (simp add: round_locks_def)
  from i t show ?thesis
  proof (rule lk.grantE)
    assume free: "lk_running l c = None" and run: "lk_running l' = (lk_running l)(c := Some op)"
      and i': "lk_inv l'" and new: "h \<notin> lk_issued l" and iss: "lk_issued l' = insert h (lk_issued l)"
      and live: "lk_live l' = insert h (lk_live l)"
    have "h \<notin> set (handles rs)" using ok new lk.live_issued [OF i] by (auto simp: round_locks_def)
    moreover have "lk_running l' d = Some ''a backup'' \<longleftrightarrow> lk_running l d = Some ''a backup''" for d
      using run free op by auto
    ultimately show ?thesis using ok i' iss live by (auto simp: round_locks_def)
  qed
qed

lemma round_locks_other_unlock:
  assumes ok: "round_locks l rs others" and h: "h \<in> set others"
  shows "round_locks (Unlock l h) rs others"
proof (cases "h \<in> lk_live l")
  case False
  have "Unlock l h = l" using lk.release_dead [of l h] ok h False unfolding round_locks_def by blast
  with ok show ?thesis by simp
next
  case True
  have i: "lk_inv l" using ok by (simp add: round_locks_def)
  note R = lk.release [OF i True]
  have n: "h \<notin> set (handles rs)" using ok h by (auto simp: round_locks_def)
  have "lk_running l (snd h) \<noteq> Some ''a backup''"
  proof
    assume "lk_running l (snd h) = Some ''a backup''"
    then have "snd h \<in> fst ` set rs" using ok unfolding round_locks_def by blast
    then obtain t h' where r: "(snd h, t, h') \<in> set rs" by fastforce
    then have m: "h' \<in> set (handles rs)" by (force simp: handles_def)
    moreover have "h' \<in> lk_live l" using ok m unfolding round_locks_def by blast
    moreover have "snd h' = snd h" using ok r unfolding round_locks_def by fast
    ultimately show False using lk.live_unique [OF i _ True] n by metis
  qed
  then have "lk_running (Unlock l h) d = Some ''a backup'' \<longleftrightarrow> lk_running l d = Some ''a backup''" for d
    using R by auto
  moreover have "set (handles rs) \<subseteq> lk_live l" using ok by (simp add: round_locks_def)
  then have "set (handles rs) \<subseteq> lk_live (Unlock l h)" using R n by auto
  moreover have "set others \<subseteq> lk_issued (Unlock l h)" using ok R by (simp add: round_locks_def)
  ultimately show ?thesis using ok R by (simp add: round_locks_def)
qed

lemma startRound_cases:
  assumes "startRound e c stanza backupType scheduledAt try s = Inr (r, s')"
  obtains (not_locked) err where "r = Inl err" "s' = s"
  | (failed) h l err where "TryLock (sc_locks s) c ''a backup'' = Inr (h, l)" "r = Inl (err, True)" "sc_locks s' = Unlock l h"
      "sc_rounds s' = sc_rounds s" "sc_events s' = sc_events s" "sc_runs s' = sc_runs s"
  | (started) h l task primary where "TryLock (sc_locks s) c ''a backup'' = Inr (h, l)" "r = Inr (primary, tk_ID task)" "sc_locks s' = l"
      "sc_rounds s' = sc_rounds s @ [(c, task, h)]" "sc_events s' = sc_events s"
      "sc_runs s' = fold (record_run e c backupType scheduledAt try) (map bt_RepoIndex (ListTargets (sc_targets s) c)) (sc_runs s)"
      "findPrimaryNode (te_nodes_fail e) c s = Some primary"
proof (cases "te_targets_fail e \<or> ListTargets (sc_targets s) c = []")
  case True
  with assms not_locked show ?thesis by (auto simp: startRound_def Let_def split: if_splits)
next
  case targets: False
  show ?thesis
  proof (cases "findPrimaryNode (te_nodes_fail e) c s")
    case None
    with assms not_locked targets show ?thesis by (auto simp: startRound_def Let_def)
  next
    case primary: (Some primary)
    show ?thesis
    proof (cases "TryLock (sc_locks s) c ''a backup''")
      case (Inl busy)
      with assms not_locked targets primary show ?thesis by (auto simp: startRound_def Let_def)
    next
      case (Inr x)
      obtain h l where x: "TryLock (sc_locks s) c ''a backup'' = Inr (h, l)" using Inr by (cases x) auto
      let ?repos = "map bt_RepoIndex (ListTargets (sc_targets s) c)"
      obtain out where out: "StartTask (te_create e) (te_sent e) (te_now e) (te_task e) (nd_ID primary) ''pgbackrest.backup''
          (RunBackups (round_params stanza backupType ?repos)) (roundTimeoutSecs (int (length ?repos))) (sc_conductor s) = out" by simp
      note eq = assms [unfolded startRound_def Let_def] targets primary x out
      show ?thesis
      proof (cases out)
        case (Inl p)
        with eq show ?thesis by simp
      next
        case (Inr y)
        obtain res cd where y: "y = (res, cd)" by (cases y)
        show ?thesis
        proof (cases res)
          case (Inl err)
          with eq Inr y have "r = Inl (err, True)" "s' = s\<lparr>sc_conductor := cd, sc_locks := Unlock l h\<rparr>" by auto
          with failed [OF x] show ?thesis by simp
        next
          case (Inr task)
          with eq \<open>out = Inr y\<close> y have "r = Inr (primary, tk_ID task)"
            "s' = s\<lparr>sc_conductor := cd, sc_locks := l, sc_rounds := sc_rounds s @ [(c, task, h)],
               sc_runs := fold (record_run e c backupType scheduledAt try) ?repos (sc_runs s)\<rparr>" by auto
          with started [OF x, of primary task] primary show ?thesis by simp
        qed
      qed
    qed
  qed
qed

lemma syncBackups_frame [simp]:
  "sc_locks (syncBackups st c stanza pick nf tf s) = sc_locks s" "sc_rounds (syncBackups st c stanza pick nf tf s) = sc_rounds s"
  by (simp_all add: syncBackups_def Let_def split: option.split)

lemma afterBackups_frame:
  assumes "afterBackups st e c repos s = Inr s'"
  shows "sc_locks s' = sc_locks s \<and> sc_rounds s' = sc_rounds s"
  using assms unfolding afterBackups_def
  by (auto simp: map_sum_def split: if_splits option.splits sum.splits)

lemma round_locks_reach: "sched_reach s others \<Longrightarrow> round_locks (sc_locks s) (sc_rounds s) others"
proof (induction rule: sched_reach.induct)
  case (init s)
  then show ?case using lk_inv_New by (simp add: round_locks_def handles_def New_locks_def)
next
  case (start s others e c stanza backupType scheduledAt k r s')
  from start.hyps(2) show ?case
  proof (cases rule: startRound_cases)
    case not_locked
    with start.IH show ?thesis by simp
  next
    case (failed h l err)
    with round_locks_start_failed [OF start.IH failed(1)] show ?thesis by simp
  next
    case (started h l task primary)
    with round_locks_start [OF start.IH started(1)] show ?thesis by simp
  qed
next
  case (over s others round st e out cd s')
  obtain c t h where r: "round = (c, t, h)" by (cases round)
  with over.hyps(3) afterBackups_frame have "sc_locks s' = Unlock (sc_locks s) h" "sc_rounds s' = remove1 (c, t, h) (sc_rounds s)"
    by (fastforce simp: round_over_def)+
  with round_locks_over [OF over.IH, of c t h] over.hyps(2) r show ?case by simp
next
  case (lock s others op c h l)
  from round_locks_other_lock [OF lock.IH lock.hyps(3,2)] show ?case by simp
next
  case (unlock s others h)
  from round_locks_other_unlock [OF unlock.IH unlock.hyps(2)] show ?case by simp
qed simp

text \<open>
  in every reachable state, whoever else takes and releases cluster locks and in whatever order, the
  operation lock of a cluster is held by "a backup" exactly while a backup round of that cluster is waited
  for, and at most one is: a round that could not be started does not keep the lock, and one that runs keeps
  it until its task is over, even when other operations call their unlock functions again.
\<close>

theorem backup_lock_while_round:
  assumes "sched_reach s others"
  shows "(\<forall>c. lk_running (sc_locks s) c = Some ''a backup'' \<longleftrightarrow> (\<exists>t h. (c, t, h) \<in> set (sc_rounds s)))
     \<and> distinct (map fst (sc_rounds s))"
proof -
  have ok: "round_locks (sc_locks s) (sc_rounds s) others" by (rule round_locks_reach [OF assms])
  then have i: "lk_inv (sc_locks s)" and d: "distinct (handles (sc_rounds s))"
    and live: "set (handles (sc_rounds s)) \<subseteq> lk_live (sc_locks s)" and cl: "\<forall>(c, _, h)\<in>set (sc_rounds s). snd h = c"
    and run: "\<forall>c. lk_running (sc_locks s) c = Some ''a backup'' \<longleftrightarrow> c \<in> fst ` set (sc_rounds s)"
    by (simp_all add: round_locks_def)
  have "x = y" if "x \<in> set (sc_rounds s)" "y \<in> set (sc_rounds s)" "fst x = fst y" for x y
  proof -
    obtain c t h c' t' h' where xy: "x = (c, t, h)" "y = (c', t', h')" by (cases x; cases y)
    then have "snd h = snd h'" using bspec [OF cl that(1)] bspec [OF cl that(2)] that(3) by simp
    moreover have "h \<in> set (handles (sc_rounds s))" "h' \<in> set (handles (sc_rounds s))"
      using that xy by (force simp: handles_def)+
    ultimately have "h = h'" using lk.live_unique [OF i] live by blast
    with that xy d show ?thesis by (auto simp: handles_def distinct_map inj_on_def)
  qed
  moreover have "distinct (sc_rounds s)" using d by (simp add: handles_def distinct_map)
  ultimately have "distinct (map fst (sc_rounds s))" by (simp add: distinct_map inj_on_def)
  moreover have "lk_running (sc_locks s) c = Some ''a backup'' \<longleftrightarrow> (\<exists>t h. (c, t, h) \<in> set (sc_rounds s))" for c
    using run by force
  ultimately show ?thesis by blast
qed

text \<open>A cluster for examples: one connected primary, two storage locations.\<close>

definition primary_example :: node where
  "primary_example = \<lparr>nd_ID = 11, nd_ClusterID = 1, nd_Hostname = ''db1'', nd_IPAddress = [], nd_Role = ''db_only'', nd_FailoverPriority = 0,
     nd_AgentStatus = ''connected'', nd_PatroniState = Some (Encodes (JObj [(''role'', JStr ''primary'')])), nd_NetboxRunning = None,
     nd_RQRunning = None, nd_SuppressAutoStart = False, nd_MaintenanceMode = False\<rparr>"

definition target_example :: "uuid \<Rightarrow> int \<Rightarrow> backup_target" where
  "target_example i repo = \<lparr>bt_ID = i, bt_ClusterID = 1, bt_RepoIndex = repo, bt_Label = ''loc'', bt_TargetType = ''posix'',
     bt_PosixPath = None, bt_SyncToNodes = [12]\<rparr>"

definition sched_example :: "locks \<Rightarrow> sched" where
  "sched_example l = \<lparr>sc_conductor = \<lparr>cd_hub = (case connect_node 11 1 New_hub of Inr (_, h) \<Rightarrow> h | Inl _ \<Rightarrow> New_hub), cd_tasks = [],
       cd_watches = Map.empty\<rparr>, sc_locks = l, sc_nodes = [primary_example], sc_targets = [target_example 5 2, target_example 6 1],
     sc_schedules = [], sc_runs = [], sc_events = [], sc_jobs = [], sc_rounds = []\<rparr>"

definition try_example :: "int \<Rightarrow> try_env" where
  "try_example k = \<lparr>te_now = 1000, te_targets_fail = False, te_nodes_fail = False, te_create = None, te_sent = True, te_task = 77,
     te_run = (\<lambda>repo. Some (word_of_int (100 * k + repo))), te_dispatched = (\<lambda>_. True)\<rparr>"

lemma start_example:
  "\<exists>r s'. startRound (try_example 1) 1 ''s'' ''full'' 900 1 (sched_example New_locks) = Inr (r, s') \<and> (\<exists>t h. (1, t, h) \<in> set (sc_rounds s'))"
proof -
  have c: "case startRound (try_example 1) 1 ''s'' ''full'' 900 1 (sched_example New_locks) of
      Inr (r, s') \<Rightarrow> map fst (sc_rounds s') = [1] | Inl _ \<Rightarrow> False"
    by code_simp
  obtain r s' where s: "startRound (try_example 1) 1 ''s'' ''full'' 900 1 (sched_example New_locks) = Inr (r, s')"
    using c by (cases "startRound (try_example 1) 1 ''s'' ''full'' 900 1 (sched_example New_locks)") auto
  with c have "map fst (sc_rounds s') = [1]" by simp
  then have "\<exists>t h. (1, t, h) \<in> set (sc_rounds s')" by (cases "sc_rounds s'") auto
  with s show ?thesis by blast
qed

theorem backup_lock_while_round_witness:
  "\<exists>r s'. startRound (try_example 1) 1 ''s'' ''full'' 900 1 (sched_example New_locks) = Inr (r, s')
     \<and> lk_running (sc_locks s') 1 = Some ''a backup'' \<and> lk_running (sc_locks s') 2 \<noteq> Some ''a backup''"
proof -
  obtain r s' where s: "startRound (try_example 1) 1 ''s'' ''full'' 900 1 (sched_example New_locks) = Inr (r, s')"
    and ex: "\<exists>t h. (1, t, h) \<in> set (sc_rounds s')" using start_example by blast
  have "sched_reach (sched_example New_locks) []" by (rule sched_reach.init) (simp_all add: sched_example_def)
  from sched_reach.start [OF this s] have R: "sched_reach s' []" .
  have c: "case startRound (try_example 1) 1 ''s'' ''full'' 900 1 (sched_example New_locks) of
      Inr (r, s') \<Rightarrow> 2 \<notin> set (map fst (sc_rounds s')) | Inl _ \<Rightarrow> False"
    by code_simp
  with s have "2 \<notin> set (map fst (sc_rounds s'))" by simp
  then have "\<not> (\<exists>t h. (2, t, h) \<in> set (sc_rounds s'))" by force
  with backup_lock_while_round [OF R] ex s show ?thesis by blast
qed

section \<open>Firing a scheduled round\<close>

text \<open>
  When a try can do nothing, when something that may pass is in its way, and what a try that starts the round leaves behind: the
  cluster's lock held, the round waited for, and a run for each location.
\<close>

definition no_locations :: "try_env \<Rightarrow> uuid \<Rightarrow> sched \<Rightarrow> bool" where
  "no_locations e c x \<longleftrightarrow> te_targets_fail e \<or> ListTargets (sc_targets x) c = []"

definition start_task :: "try_env \<Rightarrow> uuid \<Rightarrow> string \<Rightarrow> string \<Rightarrow> sched \<Rightarrow> node \<Rightarrow> panic + (string + task) \<times> backup_conductor" where
  "start_task e c stanza ty x p =
     (let repos = map bt_RepoIndex (ListTargets (sc_targets x) c)
      in StartTask (te_create e) (te_sent e) (te_now e) (te_task e) (nd_ID p) ''pgbackrest.backup'' (RunBackups (round_params stanza ty repos))
           (roundTimeoutSecs (int (length repos))) (sc_conductor x))"

definition hindered :: "try_env \<Rightarrow> uuid \<Rightarrow> string \<Rightarrow> string \<Rightarrow> sched \<Rightarrow> bool" where
  "hindered e c stanza ty x = (case findPrimaryNode (te_nodes_fail e) c x of
      None \<Rightarrow> True
    | Some p \<Rightarrow> lk_running (sc_locks x) c \<noteq> None
        \<or> (case start_task e c stanza ty x p of Inr (Inl err, cd) \<Rightarrow> True | _ \<Rightarrow> False))"

definition round_started :: "try_env \<Rightarrow> uuid \<Rightarrow> string \<Rightarrow> instant \<Rightarrow> int \<Rightarrow> sched \<Rightarrow> sched \<Rightarrow> bool" where
  "round_started e c ty at k x s' \<longleftrightarrow>
     lk_running (sc_locks s') = (lk_running (sc_locks x))(c \<mapsto> ''a backup'') \<and> (\<exists>task h. sc_rounds s' = sc_rounds x @ [(c, task, h)])
     \<and> sc_runs s' = fold (record_run e c ty at k) (map bt_RepoIndex (ListTargets (sc_targets x) c)) (sc_runs x)
     \<and> sc_events s' = sc_events x"

lemma startRound_outcome:
  obtains (none) "no_locations e c x" "startRound e c stanza ty at k x = Inr (Inl (''no storage locations'', False), x)"
  | (hindered) err x1 where "\<not> no_locations e c x" "hindered e c stanza ty x"
      "startRound e c stanza ty at k x = Inr (Inl (err, True), x1)"
  | (panics) p n where "\<not> no_locations e c x" "\<not> hindered e c stanza ty x" "findPrimaryNode (te_nodes_fail e) c x = Some n"
      "start_task e c stanza ty x n = Inl p" "startRound e c stanza ty at k x = Inl p"
  | (started) n i s' where "\<not> no_locations e c x" "\<not> hindered e c stanza ty x" "round_started e c ty at k x s'"
      "startRound e c stanza ty at k x = Inr (Inr (n, i), s')"
proof (cases "no_locations e c x")
  case True
  then show ?thesis using none by (auto simp: no_locations_def startRound_def Let_def)
next
  case locs: False
  then have l: "\<not> te_targets_fail e" "ListTargets (sc_targets x) c \<noteq> []" by (simp_all add: no_locations_def)
  show ?thesis
  proof (cases "findPrimaryNode (te_nodes_fail e) c x")
    case None
    then show ?thesis using hindered [OF locs] l by (simp add: hindered_def startRound_def Let_def)
  next
    case n: (Some n)
    show ?thesis
    proof (cases "lk_running (sc_locks x) c")
      case (Some op)
      then show ?thesis using hindered [OF locs] l n by (simp add: hindered_def startRound_def Let_def TryLock_def)
    next
      case None
      then obtain h lk where lock: "TryLock (sc_locks x) c ''a backup'' = Inr (h, lk)" "lk_running lk = (lk_running (sc_locks x))(c \<mapsto> ''a backup'')"
        by (simp add: TryLock_def)
      note run = l n lock(1) start_task_def startRound_def hindered_def Let_def
      show ?thesis
      proof (cases "start_task e c stanza ty x n")
        case (Inl p)
        then show ?thesis using panics [OF locs _ n Inl] None n by (simp add: run)
      next
        case (Inr y)
        obtain r cd where y: "y = (r, cd)" by (cases y)
        show ?thesis
        proof (cases r)
          case (Inl err)
          then show ?thesis using hindered [OF locs] Inr y None n by (simp add: run)
        next
          case ok: (Inr task)
          have "\<not> hindered e c stanza ty x" using Inr y ok None n by (simp add: hindered_def)
          moreover have s: "startRound e c stanza ty at k x = Inr (Inr (n, tk_ID task), x\<lparr>sc_conductor := cd, sc_locks := lk,
              sc_rounds := sc_rounds x @ [(c, task, h)],
              sc_runs := fold (record_run e c ty at k) (map bt_RepoIndex (ListTargets (sc_targets x) c)) (sc_runs x)\<rparr>)"
            using Inr y ok by (simp add: run)
          ultimately show ?thesis using started [OF locs _ _ s] lock(2) by (simp add: round_started_def)
        qed
      qed
    qed
  qed
qed

text \<open>
  The states the tries of a round meet: the first what the other goroutines make of the state it was fired in; a later
  one, after a try that was hindered and announced so, what they make of that while the wait is not cut short.
\<close>

inductive try_met :: "(int \<Rightarrow> try_env) \<Rightarrow> (int \<Rightarrow> sched \<Rightarrow> sched) \<Rightarrow> (int \<Rightarrow> bool) \<Rightarrow> uuid \<Rightarrow> string \<Rightarrow> string \<Rightarrow> instant \<Rightarrow> sched \<Rightarrow> int \<Rightarrow> sched \<Rightarrow> bool"
  for env world stop c stanza ty at s where
  first: "try_met env world stop c stanza ty at s 1 (world 1 s)"
| again: "try_met env world stop c stanza ty at s k x \<Longrightarrow> k < backupStartTries \<Longrightarrow> \<not> no_locations (env k) c x \<Longrightarrow> hindered (env k) c stanza ty x
    \<Longrightarrow> startRound (env k) c stanza ty at k x = Inr (Inl (err, True), x1) \<Longrightarrow> \<not> stop k
    \<Longrightarrow> try_met env world stop c stanza ty at s (k + 1) (world (k + 1) (emit_sched (postponed_event c ty k err) x1))"

text \<open>What the round comes to, in terms of the state \<open>x\<close> its last try \<open>k\<close> met.\<close>

fun fire_result :: "try_env \<Rightarrow> (int \<Rightarrow> bool) \<Rightarrow> uuid \<Rightarrow> string \<Rightarrow> string \<Rightarrow> instant \<Rightarrow> int \<Rightarrow> sched \<Rightarrow> panic + fired \<times> sched \<Rightarrow> bool" where
  "fire_result e stop c stanza ty at k x (Inl p) \<longleftrightarrow> \<not> no_locations e c x \<and> \<not> hindered e c stanza ty x
     \<and> (\<exists>n. findPrimaryNode (te_nodes_fail e) c x = Some n \<and> start_task e c stanza ty x n = Inl p)"
| "fire_result e stop c stanza ty at k x (Inr (Started j, s')) \<longleftrightarrow> j = k \<and> \<not> no_locations e c x \<and> \<not> hindered e c stanza ty x
     \<and> round_started e c ty at k x s'"
| "fire_result e stop c stanza ty at k x (Inr (NotRetried err, s')) \<longleftrightarrow> no_locations e c x \<and> err = ''no storage locations'' \<and> s' = x"
| "fire_result e stop c stanza ty at k x (Inr (Skipped, s')) \<longleftrightarrow> k = backupStartTries \<and> \<not> no_locations e c x \<and> hindered e c stanza ty x
     \<and> (\<exists>err x1. startRound e c stanza ty at k x = Inr (Inl (err, True), x1) \<and> s' = skipRound e c ty at err x1)"
| "fire_result e stop c stanza ty at k x (Inr (Cancelled, s')) \<longleftrightarrow> k < backupStartTries \<and> stop k \<and> \<not> no_locations e c x \<and> hindered e c stanza ty x
     \<and> (\<exists>err x1. startRound e c stanza ty at k x = Inr (Inl (err, True), x1) \<and> s' = emit_sched (postponed_event c ty k err) x1)"

lemma fire_loop_outcome:
  assumes "k0 + int fuel = backupStartTries + 1" and "k0 \<le> backupStartTries" "1 \<le> k0"
    and "try_met env world stop c stanza ty at s0 k0 (world k0 s)"
  shows "\<exists>res k x. fire_loop fuel env world stop c stanza ty at k0 s = Some res \<and> 1 \<le> k \<and> k \<le> backupStartTries
    \<and> try_met env world stop c stanza ty at s0 k x \<and> fire_result (env k) stop c stanza ty at k x res"
  using assms
proof (induction fuel arbitrary: k0 s)
  case 0
  then show ?case by simp
next
  case (Suc fuel)
  let ?x = "world k0 s"
  note met = Suc.prems(4)
  show ?case
  proof (cases rule: startRound_outcome [of "env k0" c ?x stanza ty at k0])
    case none
    then show ?thesis using met Suc.prems(2,3) by (intro exI [of _ "Inr (NotRetried ''no storage locations'', ?x)"] exI [of _ k0] exI [of _ ?x]) simp
  next
    case (panics p n)
    then show ?thesis using met Suc.prems(2,3) by (intro exI [of _ "Inl p"] exI [of _ k0] exI [of _ ?x]) simp
  next
    case (started n i s')
    then show ?thesis using met Suc.prems(2,3) by (intro exI [of _ "Inr (Started k0, s')"] exI [of _ k0] exI [of _ ?x]) simp
  next
    case (hindered err x1)
    consider "k0 = backupStartTries" | "k0 < backupStartTries" "stop k0" | "k0 < backupStartTries" "\<not> stop k0" using Suc.prems(2) by fastforce
    then show ?thesis
    proof cases
      case 1
      then show ?thesis using hindered met Suc.prems(3)
        by (intro exI [of _ "Inr (Skipped, skipRound (env k0) c ty at err x1)"] exI [of _ k0] exI [of _ ?x]) simp
    next
      case 2
      then show ?thesis using hindered met Suc.prems(3)
        by (intro exI [of _ "Inr (Cancelled, emit_sched (postponed_event c ty k0 err) x1)"] exI [of _ k0] exI [of _ ?x]) simp
    next
      case 3
      let ?s = "emit_sched (postponed_event c ty k0 err) x1"
      have e: "fire_loop (Suc fuel) env world stop c stanza ty at k0 s = fire_loop fuel env world stop c stanza ty at (k0 + 1) ?s"
        using hindered(3) 3 by simp
      have "k0 + 1 + int fuel = backupStartTries + 1" "k0 + 1 \<le> backupStartTries" "1 \<le> k0 + 1" using Suc.prems 3 by simp_all
      from Suc.IH [OF this try_met.again [OF met 3(1) hindered 3(2)]] show ?thesis unfolding e .
    qed
  qed
qed

text \<open>What a skipped round leaves on record.\<close>

definition abandoned :: "uuid \<Rightarrow> int \<Rightarrow> backup_run \<Rightarrow> bool" where
  "abandoned i repo r \<longleftrightarrow> rn_ID r = i \<and> rn_RepoIndex r = Some repo \<and> rn_Status r = ''abandoned'' \<and> rn_Attempt r = backupStartTries
     \<and> rn_ErrorMessage r \<noteq> None"

lemma abandon_step:
  "\<exists>r\<in>set (SetAbandoned now i msg (RunCreate i c ty repo at backupStartTries tbl)). abandoned i repo r"
  by (auto simp: SetAbandoned_def update_run_def RunCreate_def abandoned_def)

lemma abandon_keeps:
  assumes "\<exists>r\<in>set tbl. abandoned j k r"
  shows "\<exists>r\<in>set (SetAbandoned now i msg (RunCreate i c ty repo at backupStartTries tbl)). abandoned j k r"
proof -
  from assms obtain r where r: "r \<in> set tbl" "abandoned j k r" by blast
  let ?f = "\<lambda>r. if rn_ID r = i then r\<lparr>rn_Status := ''abandoned'', rn_CompletedAt := Some now, rn_ErrorMessage := Some msg\<rparr> else r"
  have "abandoned j k (?f r)" using r(2) by (simp add: abandoned_def)
  moreover have "?f r \<in> set (SetAbandoned now i msg (RunCreate i c ty repo at backupStartTries tbl))"
    using r(1) by (auto simp: SetAbandoned_def update_run_def RunCreate_def)
  ultimately show ?thesis by blast
qed

lemma abandon_fold:
  assumes "t \<in> set ts \<and> te_run e (bt_RepoIndex t) = Some i \<or> (\<exists>r\<in>set tbl. abandoned i (bt_RepoIndex t) r)"
  shows "\<exists>r\<in>set (fold (\<lambda>t tbl. case te_run e (bt_RepoIndex t) of None \<Rightarrow> tbl
      | Some i \<Rightarrow> SetAbandoned (te_now e) i msg (RunCreate i c ty (bt_RepoIndex t) at backupStartTries tbl)) ts tbl).
    abandoned i (bt_RepoIndex t) r"
  using assms
proof (induction ts arbitrary: tbl)
  case (Cons x ts)
  let ?tbl = "case te_run e (bt_RepoIndex x) of None \<Rightarrow> tbl
      | Some i \<Rightarrow> SetAbandoned (te_now e) i msg (RunCreate i c ty (bt_RepoIndex x) at backupStartTries tbl)"
  have "t \<in> set ts \<and> te_run e (bt_RepoIndex t) = Some i \<or> (\<exists>r\<in>set ?tbl. abandoned i (bt_RepoIndex t) r)"
  proof (cases "te_run e (bt_RepoIndex x)")
    case None
    with Cons.prems show ?thesis by auto
  next
    case (Some a)
    show ?thesis
    proof (cases "t = x \<and> a = i")
      case True
      with Some abandon_step [where i = i and repo = "bt_RepoIndex t"] show ?thesis by simp
    next
      case False
      with Some Cons.prems abandon_keeps [where tbl = tbl and j = i and k = "bt_RepoIndex t" and now = "te_now e" and i = a and msg = msg
          and c = c and ty = ty and at = at and repo = "bt_RepoIndex x"] show ?thesis by auto
    qed
  qed
  from Cons.IH [OF this] show ?case by simp
qed simp

lemma skipRound_spec:
  "sc_events (skipRound e c ty at err s) \<noteq> [] \<and> ev_Code (last (sc_events (skipRound e c ty at err s))) = ''NBC-CLU-012''
     \<and> ev_Severity (last (sc_events (skipRound e c ty at err s))) = ''error''
     \<and> sc_targets (skipRound e c ty at err s) = sc_targets s"
  by (simp add: skipRound_def emit_sched_def Let_def Cluster_def New_event_def)

lemma skipRound_runs:
  assumes "\<not> te_targets_fail e" and "t \<in> set (ListTargets (sc_targets s) c)" and "te_run e (bt_RepoIndex t) = Some i"
  shows "\<exists>r\<in>set (sc_runs (skipRound e c ty at err s)). abandoned i (bt_RepoIndex t) r"
  using assms abandon_fold [where t = t and ts = "ListTargets (sc_targets s) c" and e = e and i = i and tbl = "sc_runs s"] by (simp add: skipRound_def emit_sched_def Let_def)


definition busy_locks :: locks where
  "busy_locks = (case TryLock New_locks 1 ''a restore'' of Inr (_, l) \<Rightarrow> l | Inl _ \<Rightarrow> New_locks)"



text \<open>A query of the locations that fails counts as no locations: the scheduled round is given up without another try or a record.\<close>

lemma failed_query_gives_up:
  assumes "te_targets_fail (env 1)"
  shows "fireBackup env world stop c stanza ty at s = Some (Inr (NotRetried ''no storage locations'', world 1 s))"
  using assms by (simp add: fireBackup_def backupStartTries_def numeral_eq_Suc startRound_def Let_def)

end
