(* ===== verification/BackupTime.thy ===== *)
theory BackupTime
  imports BackupScheduler
begin

text \<open>
  How long a round may take: every check, the waits between the checks and the backups, against the limit
  that \<open>roundTimeoutSecs\<close> of \<open>internal/server/scheduler/backupscheduler.go\<close> gives the task.
\<close>

text \<open>
  How long a command that is stopped has to exit (\<open>internal/agent/executor/command.go\<close>).  The commands and waits of an
  environment keep their limits, the commands with up to \<open>g\<close> more, and time does not go back.
\<close>

definition commandStopGrace :: duration where "commandStopGrace = 10 * second"

definition timely :: "duration \<Rightarrow> 'w round_env \<Rightarrow> bool" where
  "timely g env \<longleftrightarrow>
     (\<forall>stanza repo lim w x w'. en_info env stanza repo lim w = (x, w') \<longrightarrow>
        en_now env w \<le> en_now env w' \<and> en_now env w' \<le> en_now env w + max 0 lim + max 0 g)
   \<and> (\<forall>stanza type repo lim w x w'. en_backup env stanza type repo lim w = (x, w') \<longrightarrow>
        en_now env w \<le> en_now env w' \<and> en_now env w' \<le> en_now env w + max 0 lim + max 0 g)
   \<and> (\<forall>d w x w'. en_sleep env d w = (x, w') \<longrightarrow>
        en_now env w \<le> en_now env w' \<and> en_now env w' \<le> en_now env w + max 0 d
        \<and> (x = None \<longrightarrow> en_now env w + d \<le> en_now env w'))"

section \<open>The time a location may still take\<close>

definition check_time :: "duration \<Rightarrow> backup_params \<Rightarrow> int" where "check_time g p = max 0 (bp_CheckTimeoutSecs p * second) + max 0 g"
definition retry_time :: "backup_params \<Rightarrow> int" where "retry_time p = max 0 (bp_CheckRetrySecs p * second)"
definition backup_time :: "duration \<Rightarrow> backup_params \<Rightarrow> int" where "backup_time g p = max 0 (bp_BackupTimeoutSecs p * second) + max 0 g"

definition budget :: "duration \<Rightarrow> backup_params \<Rightarrow> int \<Rightarrow> int" where
  "budget g p k = (tries_of p - k) * check_time g p + (tries_of p - k - (if k = 0 then 1 else 0)) * retry_time p + backup_time g p"

lemma times_nonneg: "0 \<le> check_time g p" "0 \<le> retry_time p" "0 \<le> backup_time g p"
  by (simp_all add: check_time_def retry_time_def backup_time_def)

lemma budget_next: "0 \<le> k \<Longrightarrow> budget g p k = check_time g p + (if k = 0 then 0 else retry_time p) + budget g p (k + 1)"
  by (auto simp: budget_def algebra_simps)

lemma budget_last:
  assumes "0 \<le> k" and "k < tries_of p"
  shows "check_time g p + (if k = 0 then 0 else retry_time p) + backup_time g p \<le> budget g p k"
proof -
  have c: "check_time g p \<le> (tries_of p - k) * check_time g p"
    using mult_right_mono [of 1 "tries_of p - k" "check_time g p"] assms times_nonneg(1) [of g] by simp
  show ?thesis
  proof (cases "k = 0")
    case True
    have "0 \<le> (tries_of p - 1) * retry_time p" using assms True times_nonneg(2) by simp
    with c True show ?thesis by (simp add: budget_def)
  next
    case False
    have "retry_time p \<le> (tries_of p - k) * retry_time p"
      using mult_right_mono [of 1 "tries_of p - k" "retry_time p"] assms times_nonneg(2) by simp
    with c False show ?thesis by (simp add: budget_def)
  qed
qed

definition queue_budget :: "duration \<Rightarrow> backup_params \<Rightarrow> loc list \<Rightarrow> int" where
  "queue_budget g p q = sum_list (map (\<lambda>l. budget g p (lc_fails l)) q)"

lemma queue_budget_simps [simp]: "queue_budget g p [] = 0" "queue_budget g p (l # q) = budget g p (lc_fails l) + queue_budget g p q"
  "queue_budget g p (q @ q') = queue_budget g p q + queue_budget g p q'"
  by (simp_all add: queue_budget_def)

lemma queue_budget_mset: "mset q = mset q' \<Longrightarrow> queue_budget g p q = queue_budget g p q'"
  unfolding queue_budget_def by (metis mset_map sum_mset_sum_list)

text \<open>A queued location has failed fewer times than allowed, and one that failed is ready within the retry time.\<close>

definition loc_ok :: "backup_params \<Rightarrow> instant \<Rightarrow> loc \<Rightarrow> bool" where
  "loc_ok p now l \<longleftrightarrow> 0 \<le> lc_fails l \<and> lc_fails l < tries_of p
     \<and> (case lc_ready l of None \<Rightarrow> True | Some t \<Rightarrow> t \<le> now + retry_time p \<and> 0 < lc_fails l)"

lemma loc_ok_later: "loc_ok p now l \<Longrightarrow> now \<le> now' \<Longrightarrow> loc_ok p now' l"
  by (auto simp: loc_ok_def split: option.splits)

lemma budget_nonneg: "loc_ok p now l \<Longrightarrow> 0 \<le> budget g p (lc_fails l)"
  using budget_last [of "lc_fails l" p g] times_nonneg(1,3) [of g p] times_nonneg(2) [of p] by (auto simp: loc_ok_def split: if_splits)

lemma queue_budget_nonneg: "\<forall>l\<in>set q. loc_ok p now l \<Longrightarrow> 0 \<le> queue_budget g p q"
  by (induction q) (auto intro!: add_nonneg_nonneg intro: budget_nonneg)

lemma checkRepo_time:
  "timely g env \<Longrightarrow> checkRepo env stanza repo lim w = (c, w1) \<Longrightarrow> en_now env w \<le> en_now env w1 \<and> en_now env w1 \<le> en_now env w + max 0 lim + max 0 g"
  by (cases "en_info env stanza repo lim w")
     (auto simp: checkRepo_def timely_def split: sum.splits option.splits prod.splits if_splits)

lemma run_backup_time:
  "timely g env \<Longrightarrow> run_backup env p repo w = (e, w1) \<Longrightarrow> en_now env w \<le> en_now env w1 \<and> en_now env w1 \<le> en_now env w + backup_time g p"
  by (cases "en_backup env (bp_Stanza p) (bp_Type p) repo (bp_BackupTimeoutSecs p * second) w")
     (auto simp: run_backup_def timely_def backup_time_def add.assoc split: option.splits)

lemma turn_time:
  assumes t: "timely g env" and l: "loc_ok p (en_now env w) l" and step: "turn env p l r w = (back, r', w1)"
  shows "en_now env w \<le> en_now env w1"
    and "en_now env w1 + queue_budget g p (case back of None \<Rightarrow> [] | Some x \<Rightarrow> [x])
      \<le> en_now env w + budget g p (lc_fails l) - (if lc_fails l = 0 then 0 else retry_time p)"
    and "\<forall>x\<in>set (case back of None \<Rightarrow> [] | Some x \<Rightarrow> [x]). loc_ok p (en_now env w1) x"
proof -
  let ?k = "lc_fails l"
  have k: "0 \<le> ?k" "?k < tries_of p" using l by (simp_all add: loc_ok_def)
  obtain c w0 where c: "checkRepo env (bp_Stanza p) (lc_repo l) (bp_CheckTimeoutSecs p * second) w = (c, w0)" by fastforce
  from checkRepo_time [OF t c] have C: "en_now env w \<le> en_now env w0" "en_now env w0 \<le> en_now env w + check_time g p"
    by (simp_all add: check_time_def)
  have "en_now env w \<le> en_now env w1 \<and> en_now env w1 + queue_budget g p (case back of None \<Rightarrow> [] | Some x \<Rightarrow> [x])
      \<le> en_now env w + budget g p ?k - (if ?k = 0 then 0 else retry_time p)
      \<and> (\<forall>x\<in>set (case back of None \<Rightarrow> [] | Some x \<Rightarrow> [x]). loc_ok p (en_now env w1) x)"
  proof (cases c)
    case (Some e)
    show ?thesis
    proof (cases "?k + 1 \<ge> bp_CheckTries p \<or> en_cancelled env w0")
      case True
      with step c Some have "back = None" "w1 = w0" by (auto simp: turn_def)
      with C budget_last [OF k, of g] times_nonneg(3) [of g p] show ?thesis by (auto split: if_splits)
    next
      case False
      with step c Some have b: "w1 = w0"
        "back = Some (l\<lparr>lc_fails := ?k + 1, lc_ready := Some (en_now env w0 + bp_CheckRetrySecs p * second)\<rparr>)"
        by (auto simp: turn_def Let_def)
      have "?k + 1 < tries_of p" using False by (auto simp: tries_of_def)
      with b k C budget_next [OF k(1), of g p] show ?thesis by (auto simp: loc_ok_def retry_time_def)
    qed
  next
    case None
    obtain e w2 where b: "run_backup env p (lc_repo l) w0 = (e, w2)" by fastforce
    with step c None have "back = None" "w1 = w2" by (auto simp: turn_def)
    with run_backup_time [OF t b] C budget_last [OF k, of g] show ?thesis by (auto split: if_splits)
  qed
  then show "en_now env w \<le> en_now env w1"
    and "en_now env w1 + queue_budget g p (case back of None \<Rightarrow> [] | Some x \<Rightarrow> [x])
      \<le> en_now env w + budget g p ?k - (if ?k = 0 then 0 else retry_time p)"
    and "\<forall>x\<in>set (case back of None \<Rightarrow> [] | Some x \<Rightarrow> [x]). loc_ok p (en_now env w1) x" by blast+
qed

section \<open>A round ends within the time of its locations\<close>

lemma first_ready_le:
  assumes "take_ready now q = None" and "q \<noteq> []" and "\<forall>l\<in>set q. loc_ok p now l"
  shows "first_ready q \<le> now + retry_time p" and "\<forall>l\<in>set q. 0 < lc_fails l"
proof -
  let ?f = "\<lambda>l. case lc_ready l of None \<Rightarrow> 0 | Some t \<Rightarrow> t"
  have r: "\<exists>t. lc_ready l = Some t" if "l \<in> set q" for l
    using that assms(1) by (auto simp: take_ready_None is_ready_def split: option.splits)
  then show "\<forall>l\<in>set q. 0 < lc_fails l" using assms(3) by (fastforce simp: loc_ok_def)
  have "first_ready q \<in> ?f ` set q"
    unfolding first_ready_def using assms(2) Min_in [of "?f ` set q"] by simp
  then obtain l where l: "l \<in> set q" "first_ready q = ?f l" by auto
  with r [OF l(1)] assms(3) show "first_ready q \<le> now + retry_time p" by (auto simp: loc_ok_def)
qed

lemma budget_retry:
  assumes "loc_ok p now l" and "0 < lc_fails l"
  shows "retry_time p \<le> budget g p (lc_fails l)"
  using assms budget_last [of "lc_fails l" p g] times_nonneg(1,3) [of g p] times_nonneg(2) [of p] by (simp add: loc_ok_def)

lemma queue_budget_retry:
  assumes "q \<noteq> []" and "\<forall>l\<in>set q. loc_ok p now l" and "\<forall>l\<in>set q. 0 < lc_fails l"
  shows "retry_time p \<le> queue_budget g p q"
proof (cases q)
  case (Cons l ls)
  with assms budget_retry [of p now l g] queue_budget_nonneg [of ls p now g] show ?thesis by simp
qed (use assms in simp)

lemma round_loop_time:
  assumes t: "timely g env" and "\<forall>l\<in>set q. loc_ok p (en_now env w) l"
    and "waited \<Longrightarrow> q \<noteq> [] \<and> take_ready (en_now env w) q \<noteq> None \<and> (\<forall>l\<in>set q. 0 < lc_fails l)"
    and "round_loop fuel env p q r w = Some (r', w')"
  shows "en_now env w' \<le> en_now env w + queue_budget g p q - (if waited then retry_time p else 0)"
  using assms(2-4)
proof (induction fuel arbitrary: q r w waited)
  case 0
  then show ?case by (cases q) auto
next
  case (Suc fuel)
  show ?case
  proof (cases q)
    case Nil
    with Suc.prems show ?thesis by auto
  next
    case (Cons l ls)
    show ?thesis
    proof (cases "take_ready (en_now env w) q")
      case None
      have nw: "\<not> waited" using Suc.prems(2) None by blast
      obtain s w1 where s: "en_sleep env (first_ready q - en_now env w) w = (s, w1)" by fastforce
      note fr = first_ready_le [OF None _ Suc.prems(1)]
      have S: "en_now env w \<le> en_now env w1" "en_now env w1 \<le> en_now env w + retry_time p"
        "s = None \<Longrightarrow> first_ready q \<le> en_now env w1"
        using t s fr(1) Cons times_nonneg(2) [of p] unfolding timely_def by fastforce+
      have later: "\<forall>l\<in>set q. loc_ok p (en_now env w1) l" using Suc.prems(1) S(1) loc_ok_later by blast
      show ?thesis
      proof (cases s)
        case (Some e)
        with Suc.prems(3) Cons None s have "w' = w1" by simp
        with S queue_budget_retry [OF _ Suc.prems(1) fr(2), of g] Cons nw show ?thesis by simp
      next
        case s0: None
        have rd: "take_ready (en_now env w1) q \<noteq> None" using first_ready_becomes [OF None _ S(3) [OF s0]] Cons by simp
        have "round_loop fuel env p q (note_step Waited r) w1 = Some (r', w')" using Suc.prems(3) Cons None s s0 by simp
        from Suc.IH [OF later _ this, of True] rd fr(2) Cons S(2) nw show ?thesis by simp
      qed
    next
      case (Some a)
      obtain x rest where a: "a = (x, rest)" by (cases a)
      from take_ready_Some [of "en_now env w" q x rest] Some a have m: "mset q = mset (x # rest)" by simp
      then have sq: "set q = insert x (set rest)" using mset_eq_setD [OF m] by simp
      obtain bk r1 w1 where tu: "turn env p x r w = (bk, r1, w1)" by (cases "turn env p x r w") auto
      have lx: "loc_ok p (en_now env w) x" using Suc.prems(1) sq by simp
      note T = turn_time [OF t lx tu]
      let ?q = "rest @ (case bk of None \<Rightarrow> [] | Some x \<Rightarrow> [x])"
      have "\<forall>l\<in>set ?q. loc_ok p (en_now env w1) l"
        using T(3) Suc.prems(1) sq loc_ok_later [OF _ T(1)] unfolding set_append by blast
      moreover have "round_loop fuel env p ?q r1 w1 = Some (r', w')" using Suc.prems(3) Cons Some a tu by simp
      ultimately have b: "en_now env w' \<le> en_now env w1 + queue_budget g p ?q"
        using Suc.IH [of ?q w1 False] by simp
      have "waited \<Longrightarrow> lc_fails x \<noteq> 0" using Suc.prems(2) sq by auto
      with b T(2) queue_budget_mset [OF m, of g p] times_nonneg(2) [of p] show ?thesis
        by (cases "lc_fails x = 0") (auto split: if_splits)
    qed
  qed
qed

lemma round_time:
  assumes t: "timely g env" and d: "distinct repos" and g: "0 \<le> g"
  shows "\<exists>out r w'. backupRound env (round_params stanza backupType repos) w = Some (out, r, w')
    \<and> en_now env w' \<le> en_now env w + roundTimeoutSecs (int (length repos)) * second + 4 * int (length repos) * g"
proof -
  let ?p = "round_params stanza backupType repos"
  have p: "tries_of ?p = 3" "bp_Repos ?p = repos" "retry_time ?p = 60 * second" "check_time g ?p = 60 * second + g"
    "backup_time g ?p = 3600 * second + g"
    using g by (simp_all add: round_params_def tries_of_def backupCheckTries_def retry_time_def check_time_def backup_time_def
        CatalogTimeoutSecs_def BackupTimeoutSecs_def backupScheduleInterval_def minute_def second_def)
  have clock: "\<And>d w w'. en_sleep env d w = (None, w') \<Longrightarrow> en_now env w + d \<le> en_now env w'"
    using t unfolding timely_def by blast
  obtain r w' where l: "round_loop (round_fuel ?p) env ?p (start_queue ?p) start_state w = Some (r, w')"
    using backupRound_loop [OF clock, of ?p w] d p(2) by auto
  have ok: "\<forall>l\<in>set (start_queue ?p). loc_ok ?p (en_now env w) l" by (auto simp: start_queue_def loc_ok_def p(1))
  have "queue_budget g ?p (start_queue ?p) = int (length repos) * budget g ?p 0"
    by (simp add: queue_budget_def start_queue_def p(2) o_def sum_list_triv)
  moreover have "budget g ?p 0 = (3 * 60 + 2 * 60 + 3600) * second + 4 * g" by (simp add: budget_def p)
  moreover have "int (length repos) * ((3 * 60 + 2 * 60 + 3600) * second + 4 * g) =
      roundTimeoutSecs (int (length repos)) * second + 4 * int (length repos) * g"
    by (simp add: roundTimeoutSecs_def backupCheckTries_def CatalogTimeoutSecs_def BackupTimeoutSecs_def
        backupScheduleInterval_def minute_def second_def algebra_simps)
  ultimately have b: "queue_budget g ?p (start_queue ?p) = roundTimeoutSecs (int (length repos)) * second + 4 * int (length repos) * g"
    by (simp only:)
  have "en_now env w' \<le> en_now env w + queue_budget g ?p (start_queue ?p)" using round_loop_time [OF t ok _ l, of False] by simp
  then have "en_now env w' \<le> en_now env w + roundTimeoutSecs (int (length repos)) * second + 4 * int (length repos) * g"
    unfolding b by (simp only: add.assoc)
  with l show ?thesis by (auto simp: backupRound_def Let_def)
qed

text \<open>
  C34: a round with the parameters the scheduler sends, whose commands end within their limits and the 10 seconds that
  \<open>Command\<close> gives a command it stops, ends within the limit the scheduler sets for the task and 40 seconds for each location
  (three checks and a backup), whatever fails in it: however the checks, retries and backups of the locations interleave, each location
  adds at most all its checks, the waits between them and its backup.  When no command needs the 10 seconds, it ends
  within the limit itself; when some do, it can outlast it (\<open>stopped_commands_outlast_limit\<close>).
\<close>

theorem round_within_task_limit:
  assumes "timely commandStopGrace env" and "distinct repos"
  shows "\<exists>out r w'. backupRound env (round_params stanza backupType repos) w = Some (out, r, w')
    \<and> en_now env w' \<le> en_now env w + roundTimeoutSecs (int (length repos)) * second + 4 * int (length repos) * commandStopGrace
    \<and> (timely 0 env \<longrightarrow> en_now env w' \<le> en_now env w + roundTimeoutSecs (int (length repos)) * second)"
proof -
  have "0 \<le> commandStopGrace" by (simp add: commandStopGrace_def second_def)
  from round_time [OF assms this, of stanza backupType w] obtain out r w' where
    b: "backupRound env (round_params stanza backupType repos) w = Some (out, r, w')"
      "en_now env w' \<le> en_now env w + roundTimeoutSecs (int (length repos)) * second + 4 * int (length repos) * commandStopGrace"
    by blast
  have "en_now env w' \<le> en_now env w + roundTimeoutSecs (int (length repos)) * second" if "timely 0 env"
    using round_time [OF that assms(2), of stanza backupType w] b(1) by auto
  with b show ?thesis by blast
qed

text \<open>An environment for an example: checks of location 2 fail twice, backups take 100 seconds.\<close>

definition slow_env :: "(int \<times> nat) round_env" where
  "slow_env = \<lparr>en_now = fst, en_cancelled = (\<lambda>_. False),
     en_info = (\<lambda>stanza repo lim (t, n). if repo = 2 \<and> n < 2 then (Inl (''e'', []), (t + max 0 lim, n + 1))
        else (Inr (Inr [\<lparr>si_Name = stanza, si_Archive = [], si_Repo = [(repo, 0, [])]\<rparr>]), (t, n))),
     en_backup = (\<lambda>stanza type repo lim (t, n). (None, (t + max 0 lim, n))),
     en_sleep = (\<lambda>d (t, n). (None, (t + max 0 d, n)))\<rparr>"

lemma slow_env_timely: "timely 0 slow_env"
  by (auto simp: timely_def slow_env_def split: if_splits)

lemma timely_more: "timely 0 env \<Longrightarrow> 0 \<le> g \<Longrightarrow> timely g env"
  unfolding timely_def by (fastforce intro: order_trans)

theorem round_within_task_limit_witness:
  "\<exists>out r w'. backupRound slow_env (round_params ''s'' ''full'' [2, 1]) (0, 0) = Some (out, r, w')
     \<and> fst w' \<le> roundTimeoutSecs 2 * second"
proof -
  have "timely commandStopGrace slow_env"
    by (rule timely_more [OF slow_env_timely]) (simp add: commandStopGrace_def second_def)
  moreover have "distinct [2, 1 :: int]" by simp
  ultimately obtain out r w' where b: "backupRound slow_env (round_params ''s'' ''full'' [2, 1]) (0, 0) = Some (out, r, w')"
    "timely 0 slow_env \<longrightarrow> en_now slow_env w' \<le> en_now slow_env (0, 0) + roundTimeoutSecs (int (length [2, 1 :: int])) * second"
    using round_within_task_limit [of slow_env "[2, 1]" "''s''" "''full''" "(0, 0)"] by blast
  have "en_now slow_env = fst" by (simp add: slow_env_def)
  with b slow_env_timely show ?thesis by simp
qed

text \<open>A location whose commands are all stopped at their limits and use the 10 seconds: the round outlasts the limit of its task.\<close>

definition stopped_env :: "(int \<times> nat) round_env" where
  "stopped_env = slow_env
     \<lparr>en_info := (\<lambda>stanza repo lim (t, n). if n < 2 then (Inl (''e'', []), (t + lim + commandStopGrace, n + 1))
        else (Inr (Inr [\<lparr>si_Name = stanza, si_Archive = [], si_Repo = [(repo, 0, [])]\<rparr>]), (t + lim + commandStopGrace, n))),
      en_backup := (\<lambda>stanza type repo lim (t, n). (Some (''stopped'', []), (t + lim + commandStopGrace, n)))\<rparr>"

lemma stopped_commands_outlast_limit:
  "case backupRound stopped_env (round_params ''s'' ''full'' [1]) (0, 0) of
     None \<Rightarrow> False | Some (out, r, w') \<Rightarrow> fst w' = roundTimeoutSecs 1 * second + 4 * commandStopGrace"
  by code_simp

end
