(* ===== verification/BackupSyncProps.thy ===== *)
theory BackupSyncProps
  imports BackupProps
begin

text \<open>
  What follows a round: a node is settled exactly while its agent has been connected for its settle delay,
  backups spread only from the one settled primary to settled nodes, and a run is recorded as a success
  exactly when the agent's round backed its location up.
\<close>

section \<open>Settled means connected for the whole delay\<close>

text \<open>
  The connects and disconnects of the agents, the timers and their callbacks, in any order.  The map holds
  for every connected node when it connected and its delay.
\<close>

type_synonym since = "uuid \<rightharpoonup> instant \<times> duration"

inductive settle_reach :: "instant \<Rightarrow> settle \<Rightarrow> since \<Rightarrow> bool" where
  start: "settle_reach now New_settle Map.empty"
| connect: "settle_reach now s g \<Longrightarrow> settle_reach now (settle_connect now delay n c s) (g(n \<mapsto> (now, delay)))"
| disconnect: "settle_reach now s g \<Longrightarrow> settle_reach now (settle_disconnect n s) (g(n := None))"
| fire: "settle_reach now s g \<Longrightarrow> settle_reach now (settle_fire now s) g"
| callback: "settle_reach now s g \<Longrightarrow> cb \<in> set (sl_inflight s) \<Longrightarrow> settle_reach now (snd (settle_callback cb s)) g"
| later: "settle_reach now s g \<Longrightarrow> now \<le> now' \<Longrightarrow> settle_reach now' s g"

definition elapsed :: "instant \<Rightarrow> since \<Rightarrow> uuid \<Rightarrow> bool" where
  "elapsed now g n \<longleftrightarrow> (\<exists>t d. g n = Some (t, d) \<and> t + d \<le> now)"

text \<open>The timer \<open>i\<close> belongs to no node but \<open>n\<close>.\<close>

definition only_of :: "settle \<Rightarrow> nat \<Rightarrow> uuid \<Rightarrow> bool" where
  "only_of s i n \<longleftrightarrow> i < sl_next s \<and> (\<forall>m. sl_settling s m = Some i \<longrightarrow> m = n)"

lemma only_ofD:
  "only_of s i n \<Longrightarrow> i < sl_next s"
  "only_of s i n \<Longrightarrow> sl_settling s m = Some i \<Longrightarrow> m = n"
  unfolding only_of_def by blast+

lemma only_ofI: "i < sl_next s \<Longrightarrow> (\<And>m. sl_settling s m = Some i \<Longrightarrow> m = n) \<Longrightarrow> only_of s i n"
  unfolding only_of_def by blast

definition settle_inv :: "instant \<Rightarrow> settle \<Rightarrow> since \<Rightarrow> bool" where
  "settle_inv now s g \<longleftrightarrow> dom (sl_settling s) = dom g
     \<and> (\<forall>n i. sl_settling s n = Some i \<longrightarrow> only_of s i n
          \<and> ((\<exists>c at. (i, n, c, at) \<in> set (sl_armed s)) \<or> (\<exists>c. (i, n, c) \<in> set (sl_inflight s)) \<or> i \<in> set (sl_settled s)))
     \<and> (\<forall>i n c at. (i, n, c, at) \<in> set (sl_armed s) \<longrightarrow> only_of s i n
          \<and> (sl_settling s n = Some i \<longrightarrow> (\<exists>t d. g n = Some (t, d) \<and> at = t + d)))
     \<and> (\<forall>i n c. (i, n, c) \<in> set (sl_inflight s) \<longrightarrow> only_of s i n \<and> (sl_settling s n = Some i \<longrightarrow> elapsed now g n))
     \<and> (\<forall>i\<in>set (sl_settled s). i < sl_next s \<and> (\<forall>n. sl_settling s n = Some i \<longrightarrow> elapsed now g n))"

lemma settle_invD:
  assumes "settle_inv now s g"
  shows "dom (sl_settling s) = dom g"
    "sl_settling s n = Some i \<Longrightarrow> only_of s i n"
    "sl_settling s n = Some i \<Longrightarrow>
       (\<exists>c at. (i, n, c, at) \<in> set (sl_armed s)) \<or> (\<exists>c. (i, n, c) \<in> set (sl_inflight s)) \<or> i \<in> set (sl_settled s)"
    "(i, n, c, at) \<in> set (sl_armed s) \<Longrightarrow> only_of s i n"
    "(i, n, c, at) \<in> set (sl_armed s) \<Longrightarrow> sl_settling s n = Some i \<Longrightarrow> \<exists>t d. g n = Some (t, d) \<and> at = t + d"
    "(i, n, c) \<in> set (sl_inflight s) \<Longrightarrow> only_of s i n"
    "(i, n, c) \<in> set (sl_inflight s) \<Longrightarrow> sl_settling s n = Some i \<Longrightarrow> elapsed now g n"
    "i \<in> set (sl_settled s) \<Longrightarrow> i < sl_next s"
    "i \<in> set (sl_settled s) \<Longrightarrow> sl_settling s n = Some i \<Longrightarrow> elapsed now g n"
  using assms unfolding settle_inv_def by blast+

lemma settle_invI:
  assumes "dom (sl_settling s) = dom g"
    "\<And>n i. sl_settling s n = Some i \<Longrightarrow> only_of s i n"
    "\<And>n i. sl_settling s n = Some i \<Longrightarrow>
       (\<exists>c at. (i, n, c, at) \<in> set (sl_armed s)) \<or> (\<exists>c. (i, n, c) \<in> set (sl_inflight s)) \<or> i \<in> set (sl_settled s)"
    "\<And>i n c at. (i, n, c, at) \<in> set (sl_armed s) \<Longrightarrow> only_of s i n"
    "\<And>i n c at. (i, n, c, at) \<in> set (sl_armed s) \<Longrightarrow> sl_settling s n = Some i \<Longrightarrow> \<exists>t d. g n = Some (t, d) \<and> at = t + d"
    "\<And>i n c. (i, n, c) \<in> set (sl_inflight s) \<Longrightarrow> only_of s i n"
    "\<And>i n c. (i, n, c) \<in> set (sl_inflight s) \<Longrightarrow> sl_settling s n = Some i \<Longrightarrow> elapsed now g n"
    "\<And>i. i \<in> set (sl_settled s) \<Longrightarrow> i < sl_next s"
    "\<And>i n. i \<in> set (sl_settled s) \<Longrightarrow> sl_settling s n = Some i \<Longrightarrow> elapsed now g n"
  shows "settle_inv now s g"
  unfolding settle_inv_def by (intro conjI allI impI ballI) (rule assms(1) | (rule assms, assumption+))+

lemma stop_timer_simps [simp]:
  "sl_settling (stop_timer i s) = sl_settling s" "sl_next (stop_timer i s) = sl_next s"
  "sl_settled (stop_timer i s) = sl_settled s" "sl_inflight (stop_timer i s) = sl_inflight s"
  "sl_armed (stop_timer i s) = filter (\<lambda>(j, _). j \<noteq> i) (sl_armed s)"
  by (simp_all add: stop_timer_def)

lemma settle_connect_fields:
  fixes s :: settle and now delay :: int and n c :: uuid
  defines "s' \<equiv> settle_connect now delay n c s"
  shows "sl_settling s' = (sl_settling s)(n \<mapsto> sl_next s)" "sl_next s' = sl_next s + 1"
    "sl_settled s' = sl_settled s" "sl_inflight s' = sl_inflight s"
    "set (sl_armed s') = insert (sl_next s, n, c, now + delay) {(j, x). (j, x) \<in> set (sl_armed s) \<and> sl_settling s n \<noteq> Some j}"
  unfolding s'_def by (auto simp: settle_connect_def Let_def split: option.splits)

lemma settle_inv_connect:
  assumes i: "settle_inv now s g"
  shows "settle_inv now (settle_connect now delay n c s) (g(n \<mapsto> (now, delay)))"
proof -
  note d = settle_invD [OF i]
  define s' where "s' = settle_connect now delay n c s"
  note f = settle_connect_fields [of now delay n c s, folded s'_def]
  have lt: "sl_settling s m \<noteq> Some (sl_next s)" for m using only_ofD(1) [OF d(2) [of m "sl_next s"]] by blast
  have st: "sl_settling s' m = Some j \<longleftrightarrow> (if m = n then j = sl_next s else sl_settling s m = Some j)" for m j
    by (auto simp: f(1))
  have o: "only_of s' j m" if a: "only_of s j m" for j m
    by (rule only_ofI) (use only_ofD [OF a] in \<open>auto simp: st f(2) split: if_splits\<close>)
  have on: "only_of s' (sl_next s) n" by (rule only_ofI) (auto simp: st f(2) lt split: if_splits)
  have old: "m \<noteq> n \<and> sl_settling s m = Some j" if "sl_settling s' m = Some j" "j < sl_next s" for m j
    using that by (auto simp: st split: if_splits)
  note lo = only_ofD(1)
  have arm: "(j, x) \<in> set (sl_armed s') \<longleftrightarrow> (j, x) = (sl_next s, n, c, now + delay) \<or> (j, x) \<in> set (sl_armed s) \<and> sl_settling s n \<noteq> Some j" for j x
    by (auto simp: f(5))
  have e: "elapsed now (g(n \<mapsto> (now, delay))) m" if "elapsed now g m" "m \<noteq> n" for m using that by (auto simp: elapsed_def)
  show "settle_inv now s' (g(n \<mapsto> (now, delay)))"
  proof (rule settle_invI)
    show "dom (sl_settling s') = dom (g(n \<mapsto> (now, delay)))" using d(1) by (simp add: f(1))
    show "only_of s' j m" if a: "sl_settling s' m = Some j" for m j
    proof (cases "m = n")
      case True
      with a on show ?thesis by (simp add: st)
    next
      case False
      with a o [OF d(2)] show ?thesis by (simp add: st)
    qed
    show "(\<exists>k at. (j, m, k, at) \<in> set (sl_armed s')) \<or> (\<exists>k. (j, m, k) \<in> set (sl_inflight s')) \<or> j \<in> set (sl_settled s')"
      if a: "sl_settling s' m = Some j" for m j
    proof (cases "m = n")
      case True
      with a have "(j, m, c, now + delay) \<in> set (sl_armed s')" by (simp add: st arm)
      then show ?thesis by blast
    next
      case False
      with a have m: "sl_settling s m = Some j" by (simp add: st)
      have "sl_settling s n \<noteq> Some j" using only_ofD(2) [OF d(2) [OF m]] False by blast
      then have "(j, m, k, at) \<in> set (sl_armed s')" if "(j, m, k, at) \<in> set (sl_armed s)" for k at using that by (simp add: arm)
      then show ?thesis using d(3) [OF m] f(3,4) by metis
    qed
    show "only_of s' j m" if a: "(j, m, k, at) \<in> set (sl_armed s')" for j m k at
    proof -
      from a have "j = sl_next s \<and> m = n \<or> (j, m, k, at) \<in> set (sl_armed s)" unfolding arm by blast
      then show ?thesis using on o [OF d(4)] by metis
    qed
    show "\<exists>t d. (g(n \<mapsto> (now, delay))) m = Some (t, d) \<and> at = t + d"
      if a: "(j, m, k, at) \<in> set (sl_armed s')" "sl_settling s' m = Some j" for j m k at
    proof (cases "j = sl_next s")
      case True
      with a(2) lt have "m = n" by (auto simp: st split: if_splits)
      moreover have "(j, m, k, at) \<notin> set (sl_armed s)" using True lo [OF d(4)] by blast
      with a(1) have "at = now + delay" unfolding arm by blast
      ultimately show ?thesis by simp
    next
      case False
      with a(1) have m: "(j, m, k, at) \<in> set (sl_armed s)" by (auto simp: arm)
      from old [OF a(2) lo [OF d(4) [OF m]]] d(5) [OF m] show ?thesis by simp
    qed
    show "only_of s' j m" if "(j, m, k) \<in> set (sl_inflight s')" for j m k
      using o [OF d(6) [of j m k]] that by (simp add: f(4))
    show "elapsed now (g(n \<mapsto> (now, delay))) m" if "(j, m, k) \<in> set (sl_inflight s')" "sl_settling s' m = Some j" for j m k
      using old [OF that(2) lo [OF d(6)]] d(7) [of j m k] that(1) e [of m] by (auto simp: f(4))
    show "j < sl_next s'" if "j \<in> set (sl_settled s')" for j using d(8) [of j] that by (simp add: f(2,3))
    show "elapsed now (g(n \<mapsto> (now, delay))) m" if "j \<in> set (sl_settled s')" "sl_settling s' m = Some j" for j m
      using old [OF that(2) d(8)] d(9) [of j m] that(1) e [of m] by (auto simp: f(3))
  qed
qed

lemma settle_inv_disconnect:
  assumes i: "settle_inv now s g"
  shows "settle_inv now (settle_disconnect n s) (g(n := None))"
proof (cases "sl_settling s n")
  case None
  with settle_invD(1) [OF i] have "g n = None" by blast
  then have "g(n := None) = g" by auto
  with i None show ?thesis by (simp add: settle_disconnect_def)
next
  case (Some a)
  note d = settle_invD [OF i]
  have s': "settle_disconnect n s = (stop_timer a s)\<lparr>sl_settling := (sl_settling s)(n := None)\<rparr>"
    using Some by (simp add: settle_disconnect_def)
  have o: "only_of (settle_disconnect n s) j m" if a: "only_of s j m" for j m
    unfolding s' by (rule only_ofI) (use only_ofD [OF a] in \<open>auto split: if_splits\<close>)
  have e: "elapsed now (g(n := None)) m" if "elapsed now g m" "m \<noteq> n" for m using that by (auto simp: elapsed_def)
  have ne: "m \<noteq> n \<and> sl_settling s m = Some j" if "sl_settling (settle_disconnect n s) m = Some j" for m j
    using that unfolding s' by (auto split: if_splits)
  have arm: "(j, x) \<in> set (sl_armed (settle_disconnect n s)) \<longleftrightarrow> (j, x) \<in> set (sl_armed s) \<and> j \<noteq> a" for j x
    unfolding s' by auto
  have other: "sl_inflight (settle_disconnect n s) = sl_inflight s" "sl_settled (settle_disconnect n s) = sl_settled s"
    "sl_next (settle_disconnect n s) = sl_next s" unfolding s' by simp_all
  show ?thesis
  proof (rule settle_invI)
    show "dom (sl_settling (settle_disconnect n s)) = dom (g(n := None))" using d(1) unfolding s' by auto
    show "(\<exists>c at. (j, m, c, at) \<in> set (sl_armed (settle_disconnect n s))) \<or> (\<exists>c. (j, m, c) \<in> set (sl_inflight (settle_disconnect n s)))
        \<or> j \<in> set (sl_settled (settle_disconnect n s))" if "sl_settling (settle_disconnect n s) m = Some j" for m j
    proof -
      from ne [OF that] have m: "m \<noteq> n" "sl_settling s m = Some j" by auto
      have "j \<noteq> a" using only_ofD(2) [OF d(2) [OF Some]] m by blast
      then have "(j, m, k, at) \<in> set (sl_armed (settle_disconnect n s))" if "(j, m, k, at) \<in> set (sl_armed s)" for k at
        using that by (simp add: arm)
      then show ?thesis using d(3) [OF m(2)] other by metis
    qed
    show "\<exists>t d. (g(n := None)) m = Some (t, d) \<and> at = t + d"
      if "(j, m, c, at) \<in> set (sl_armed (settle_disconnect n s))" "sl_settling (settle_disconnect n s) m = Some j" for j m c at
      using that(1) ne [OF that(2)] d(5) [of j m c at] by (auto simp: arm)
  qed (use ne d o e in \<open>auto simp: arm other\<close>)
qed

lemma settle_fire_sets:
  "(i, n, c, at) \<in> set (sl_armed (settle_fire now s)) \<longleftrightarrow> (i, n, c, at) \<in> set (sl_armed s) \<and> now < at"
  "(i, n, c) \<in> set (sl_inflight (settle_fire now s)) \<longleftrightarrow>
     (i, n, c) \<in> set (sl_inflight s) \<or> (\<exists>at. (i, n, c, at) \<in> set (sl_armed s) \<and> at \<le> now)"
  "sl_settling (settle_fire now s) = sl_settling s" "sl_next (settle_fire now s) = sl_next s"
  "sl_settled (settle_fire now s) = sl_settled s"
  by (auto simp: settle_fire_def image_iff)

lemma settle_inv_fire:
  assumes i: "settle_inv now s g"
  shows "settle_inv now (settle_fire now s) g"
proof -
  note d = settle_invD [OF i] and f = settle_fire_sets
  have o: "only_of (settle_fire now s) j m = only_of s j m" for j m by (simp add: only_of_def f)
  show ?thesis
  proof (rule settle_invI)
    show "(\<exists>c at. (j, m, c, at) \<in> set (sl_armed (settle_fire now s))) \<or> (\<exists>c. (j, m, c) \<in> set (sl_inflight (settle_fire now s)))
        \<or> j \<in> set (sl_settled (settle_fire now s))" if "sl_settling (settle_fire now s) m = Some j" for m j
      using d(3) [of m j] that unfolding f by (meson not_less)
    show "elapsed now g m" if a: "(j, m, c) \<in> set (sl_inflight (settle_fire now s))" "sl_settling (settle_fire now s) m = Some j" for j m c
      using a d(5) [of j m c] d(7) [of j m c] unfolding f elapsed_def by blast
    show "only_of (settle_fire now s) j m" if "(j, m, c) \<in> set (sl_inflight (settle_fire now s))" for j m c
      using that d(4) [of j m c] d(6) [of j m c] unfolding f o by blast
  qed (use d in \<open>auto simp: f o\<close>)
qed

lemma settle_inv_callback:
  assumes i: "settle_inv now s g" and cb: "cb \<in> set (sl_inflight s)"
  shows "settle_inv now (snd (settle_callback cb s)) g"
proof -
  obtain a n c where cb': "cb = (a, n, c)" by (cases cb)
  define s' where "s' = snd (settle_callback cb s)"
  note d = settle_invD [OF i]
  have f: "sl_settling s' = sl_settling s" "sl_next s' = sl_next s" "sl_armed s' = sl_armed s"
    "sl_inflight s' = remove1 cb (sl_inflight s)"
    "sl_settled s' = (if sl_settling s n = Some a then a # sl_settled s else removeAll a (sl_settled s))"
    by (simp_all add: s'_def settle_callback_def cb' Let_def)
  have o: "only_of s' j m = only_of s j m" for j m by (simp add: only_of_def f)
  have own: "m = n \<and> j = a" if "sl_settling s m = Some a" "j = a" for m j
    using that only_ofD(2) [OF d(6) [OF cb [unfolded cb']]] by blast
  have cbn: "only_of s a n" using d(6) cb cb' by blast
  show "settle_inv now s' g"
  proof (rule settle_invI)
    show "(\<exists>c at. (j, m, c, at) \<in> set (sl_armed s')) \<or> (\<exists>c. (j, m, c) \<in> set (sl_inflight s')) \<or> j \<in> set (sl_settled s')"
      if a: "sl_settling s' m = Some j" for m j
    proof (cases "j = a")
      case True
      with a own f have "j \<in> set (sl_settled s')" by auto
      then show ?thesis by blast
    next
      case False
      have "(j, m, k) \<in> set (sl_inflight s')" if "(j, m, k) \<in> set (sl_inflight s)" for k
        using that False by (simp add: f cb' in_set_remove1)
      moreover have "j \<in> set (sl_settled s')" if "j \<in> set (sl_settled s)" using that False by (simp add: f)
      ultimately show ?thesis using d(3) [of m j] a unfolding f(1,3) by blast
    qed
    show "elapsed now g m" if a: "j \<in> set (sl_settled s')" "sl_settling s' m = Some j" for j m
    proof (cases "j \<in> set (sl_settled s)")
      case True
      with d(9) a(2) f(1) show ?thesis by simp
    next
      case False
      with a(1) have j: "j = a" "sl_settling s n = Some a" by (auto simp: f(5) split: if_splits)
      with a(2) own f(1) have "m = n" by auto
      with d(7) [OF cb [unfolded cb'] j(2)] show ?thesis by simp
    qed
    show "j < sl_next s'" if "j \<in> set (sl_settled s')" for j
      using that d(8) [of j] only_ofD(1) [OF cbn] by (auto simp: f split: if_splits)
    show "only_of s' j m" if "(j, m, k) \<in> set (sl_inflight s')" for j m k
      using d(6) [of j m k] that notin_set_remove1 [of "(j, m, k)" "sl_inflight s" cb] unfolding f o by blast
    show "elapsed now g m" if "(j, m, k) \<in> set (sl_inflight s')" "sl_settling s' m = Some j" for j m k
      using d(7) [of j m k] that notin_set_remove1 [of "(j, m, k)" "sl_inflight s" cb] unfolding f by blast
  qed (use d in \<open>simp_all add: f o\<close>)
qed

lemma settle_inv_later: "settle_inv now s g \<Longrightarrow> now \<le> now' \<Longrightarrow> settle_inv now' s g"
  unfolding settle_inv_def elapsed_def by (meson order_trans)

lemma settle_reach_inv: "settle_reach now s g \<Longrightarrow> settle_inv now s g"
proof (induction rule: settle_reach.induct)
  case (start now)
  show ?case by (simp add: settle_inv_def New_settle_def)
qed (blast intro: settle_inv_connect settle_inv_disconnect settle_inv_fire settle_inv_callback settle_inv_later)+

lemma settled_elapsed: "settle_reach now s g \<Longrightarrow> settled n s \<Longrightarrow> elapsed now g n"
  using settle_invD(9) [OF settle_reach_inv] by (auto simp: settled_def split: option.splits)

text \<open>
  a node counts as settled only while its agent is connected and only once it has been connected for
  the whole of its settle delay, since its latest connect; and once no timer is overdue and no callback is
  waiting, every node connected that long is settled.
\<close>

theorem settled_iff_elapsed:
  assumes "settle_reach now s g"
  shows "(settled n s \<longrightarrow> (\<exists>t d. g n = Some (t, d) \<and> t + d \<le> now))
    \<and> (sl_inflight s = [] \<and> (\<forall>(_, _, _, at)\<in>set (sl_armed s). now < at) \<longrightarrow>
         (settled n s \<longleftrightarrow> (\<exists>t d. g n = Some (t, d) \<and> t + d \<le> now)))"
proof -
  note i = settle_reach_inv [OF assms]
  have "settled n s" if idle: "sl_inflight s = []" "\<forall>(_, _, _, at)\<in>set (sl_armed s). now < at" and "elapsed now g n"
  proof -
    from \<open>elapsed now g n\<close> obtain t d where td: "g n = Some (t, d)" "t + d \<le> now" unfolding elapsed_def by blast
    then have "n \<in> dom (sl_settling s)" unfolding settle_invD(1) [OF i] by blast
    then obtain j where j: "sl_settling s n = Some j" by blast
    have "(j, n, c, at) \<notin> set (sl_armed s)" for c at
    proof
      assume a: "(j, n, c, at) \<in> set (sl_armed s)"
      from settle_invD(5) [OF i a j] td have "at \<le> now" by auto
      with idle(2) a show False by auto
    qed
    with settle_invD(3) [OF i j] idle(1) have "j \<in> set (sl_settled s)" by simp
    with j show ?thesis by (simp add: settled_def)
  qed
  with settled_elapsed [OF assms] show ?thesis unfolding elapsed_def by blast
qed

text \<open>
  Node 11 connects at 10, is gone, and connects again at 13; node 12 connects then too, both with a delay
  of 5.  At 18 their timers fire.
\<close>

definition settle_connected :: settle where
  "settle_connected = settle_connect 13 5 12 1 (settle_connect 13 5 11 1 (settle_disconnect 11 (settle_connect 10 5 11 1 New_settle)))"

definition settle_example :: settle where
  "settle_example = snd (settle_callback (2, 12, 1) (snd (settle_callback (1, 11, 1) (settle_fire 18 settle_connected))))"

lemma settle_example_reach: "settle_reach 18 settle_example [11 \<mapsto> (13, 5), 12 \<mapsto> (13, 5)]"
proof -
  let ?a = "settle_connect 10 5 11 1 New_settle" and ?g = "[11 \<mapsto> (13::int, 5::int), 12 \<mapsto> (13, 5)]"
  have "settle_reach 10 ?a (Map.empty(11 \<mapsto> (10, 5)))" by (rule settle_reach.connect [OF settle_reach.start])
  then have "settle_reach 13 ?a (Map.empty(11 \<mapsto> (10, 5)))" by (rule settle_reach.later) simp
  from settle_reach.connect [OF settle_reach.connect [OF settle_reach.disconnect [OF this, of 11], of 5 11 1], of 5 12 1]
  have "settle_reach 13 settle_connected ?g" by (simp add: settle_connected_def)
  then have "settle_reach 18 settle_connected ?g" by (rule settle_reach.later) simp
  then have f: "settle_reach 18 (settle_fire 18 settle_connected) ?g" by (rule settle_reach.fire)
  have "(1, 11, 1) \<in> set (sl_inflight (settle_fire 18 settle_connected))" by code_simp
  from settle_reach.callback [OF f this] have c: "settle_reach 18 (snd (settle_callback (1, 11, 1) (settle_fire 18 settle_connected))) ?g" .
  have "(2, 12, 1) \<in> set (sl_inflight (snd (settle_callback (1, 11, 1) (settle_fire 18 settle_connected))))" by code_simp
  from settle_reach.callback [OF c this] show ?thesis by (simp add: settle_example_def)
qed

theorem settled_iff_elapsed_witness: "settled 11 settle_example \<and> \<not> settled 8 settle_example"
proof -
  have a: "sl_inflight settle_example = []" "sl_armed settle_example = []" by code_simp+
  from settled_iff_elapsed [OF settle_example_reach, of 11] settled_iff_elapsed [OF settle_example_reach, of 8] a
  show ?thesis by simp
qed

section \<open>Backups spread from the settled primary\<close>

lemma one_primary_Some:
  "one_primary p ns = Some x \<longleftrightarrow> (case p of None \<Rightarrow> filter reports_primary ns = [x] | Some y \<Rightarrow> filter reports_primary ns = [] \<and> x = y)"
proof (induction ns arbitrary: p)
  case (Cons n ns)
  then show ?case by (cases p) auto
qed (auto split: option.splits)

lemma destination_Dest:
  assumes "destination st t primary n = Dest m"
  shows "m = n" "nd_ID n \<noteq> nd_ID primary" "nd_ID n \<in> set (bt_SyncToNodes t)" "settled (nd_ID primary) st"
    "nd_AgentStatus n = ''connected''" "settled (nd_ID n) st"
  using assms by (auto simp: destination_def split: if_splits)

lemma destination_cases:
  assumes "nd_ID n \<noteq> nd_ID primary" and "nd_ID n \<in> set (bt_SyncToNodes t)"
  shows "destination st t primary n = Dest n \<or> (\<exists>why. destination st t primary n = SkipNode n why)"
  using assms by (auto simp: destination_def)

lemma nonempty_iff_member: "xs \<noteq> [] \<longleftrightarrow> (\<exists>x. x \<in> set xs)"
  by (cases xs) auto

lemma dests_set: "n \<in> set (concat (map (\<lambda>d. case d of Dest n \<Rightarrow> [n] | _ \<Rightarrow> []) ds)) \<longleftrightarrow> Dest n \<in> set ds"
  by (induction ds) (auto split: dest.splits)

lemma destination_Dest_iff: "Dest n \<in> set (map (destination st t primary) nodes) \<longleftrightarrow> n \<in> set nodes \<and> destination st t primary n = Dest n"
  using destination_Dest(1) [OF sym] by force

definition good_job :: "settle \<Rightarrow> node list \<Rightarrow> node \<Rightarrow> (backup_target \<Rightarrow> bool) \<Rightarrow> backup_target \<Rightarrow> job \<Rightarrow> bool" where
  "good_job st nodes primary pick t j \<longleftrightarrow> bt_TargetType t = ''posix'' \<and> pick t \<and> jb_ClusterID j = bt_ClusterID t
     \<and> map_option bk_RepoIndex (jb_Backup j) = Some (bt_RepoIndex t) \<and> jb_Root j \<noteq> [] \<and> jb_Source j = nd_ID primary
     \<and> (\<exists>ds. jb_Nodes j = primary # ds \<and> ds \<noteq> [] \<and> settled (nd_ID primary) st
          \<and> (\<forall>n\<in>set ds. n \<in> set nodes \<and> nd_ID n \<in> set (bt_SyncToNodes t) \<and> nd_ID n \<noteq> nd_ID primary
               \<and> nd_AgentStatus n = ''connected'' \<and> settled (nd_ID n) st))"

lemma defaultPath: "(case bt_PosixPath t of None \<Rightarrow> defaultBackupRepoPath | Some p \<Rightarrow> if p = [] then defaultBackupRepoPath else p) \<noteq> []"
  by (simp add: defaultBackupRepoPath_def split: option.splits)

lemma target_sync_job:
  assumes j: "j \<in> set (snd (target_sync st stanza nodes primary pick t))"
  shows "good_job st nodes primary pick t j"
proof -
  let ?ds = "concat (map (\<lambda>d. case d of Dest n \<Rightarrow> [n] | _ \<Rightarrow> []) (map (destination st t primary) nodes))"
  from j have p: "bt_TargetType t = ''posix''" "pick t" "?ds \<noteq> []"
    and job: "j = BackupJob (bt_ClusterID t) (bt_Label t) (bt_RepoIndex t)
      (case bt_PosixPath t of None \<Rightarrow> defaultBackupRepoPath | Some p \<Rightarrow> if p = [] then defaultBackupRepoPath else p) stanza primary ?ds"
    by (simp_all add: target_sync_def Let_def split: if_splits)
  have ds: "n \<in> set nodes \<and> destination st t primary n = Dest n" if "n \<in> set ?ds" for n
    using that unfolding dests_set destination_Dest_iff .
  from p(3) obtain n where "n \<in> set ?ds" unfolding nonempty_iff_member by blast
  then have "settled (nd_ID primary) st" using ds destination_Dest(4) by blast
  moreover have "n \<in> set nodes \<and> nd_ID n \<in> set (bt_SyncToNodes t) \<and> nd_ID n \<noteq> nd_ID primary
      \<and> nd_AgentStatus n = ''connected'' \<and> settled (nd_ID n) st" if "n \<in> set ?ds" for n
    using ds [OF that] destination_Dest(2,3,5,6) [of st t primary n n] by simp
  ultimately have "\<exists>ds. primary # ?ds = primary # ds \<and> ds \<noteq> [] \<and> settled (nd_ID primary) st
      \<and> (\<forall>n\<in>set ds. n \<in> set nodes \<and> nd_ID n \<in> set (bt_SyncToNodes t) \<and> nd_ID n \<noteq> nd_ID primary
           \<and> nd_AgentStatus n = ''connected'' \<and> settled (nd_ID n) st)" using p(3) by blast
  moreover have "jb_Nodes j = primary # ?ds" "jb_ClusterID j = bt_ClusterID t" "jb_Root j \<noteq> []" "jb_Source j = nd_ID primary"
    "map_option bk_RepoIndex (jb_Backup j) = Some (bt_RepoIndex t)"
    unfolding job BackupJob_def by (simp_all only: job.select_convs option.map backup_of.select_convs defaultPath not_False_eq_True)
  ultimately show ?thesis using p(1,2) unfolding good_job_def by metis
qed

lemma target_sync_covers:
  assumes t: "bt_TargetType t = ''posix''" "pick t" and n: "n \<in> set nodes" "nd_ID n \<in> set (bt_SyncToNodes t)" "nd_ID n \<noteq> nd_ID primary"
  shows "(\<exists>j\<in>set (snd (target_sync st stanza nodes primary pick t)). n \<in> set (jb_Nodes j) \<and> map_option bk_RepoIndex (jb_Backup j) = Some (bt_RepoIndex t))
    \<or> (\<exists>why. skip_event t n why \<in> set (fst (target_sync st stanza nodes primary pick t)))"
proof -
  let ?dests = "concat (map (\<lambda>d. case d of Dest n \<Rightarrow> [n] | _ \<Rightarrow> []) (map (destination st t primary) nodes))"
  let ?skips = "concat (map (\<lambda>d. case d of SkipNode n why \<Rightarrow> [skip_event t n why] | _ \<Rightarrow> []) (map (destination st t primary) nodes))"
  have "bt_SyncToNodes t \<noteq> []" using n(2) by auto
  then have ts: "fst (target_sync st stanza nodes primary pick t) = ?skips"
    "?dests \<noteq> [] \<Longrightarrow> snd (target_sync st stanza nodes primary pick t) = [BackupJob (bt_ClusterID t) (bt_Label t) (bt_RepoIndex t)
       (case bt_PosixPath t of None \<Rightarrow> defaultBackupRepoPath | Some p \<Rightarrow> if p = [] then defaultBackupRepoPath else p) stanza primary ?dests]"
    using t by (simp_all add: target_sync_def Let_def)
  show ?thesis
  proof (cases "destination st t primary n = Dest n")
    case True
    with n(1) have m: "n \<in> set ?dests" unfolding dests_set destination_Dest_iff by blast
    then have "?dests \<noteq> []" unfolding nonempty_iff_member by blast
    from ts(2) [OF this] m show ?thesis by (simp add: BackupJob_def)
  next
    case False
    with destination_cases [OF n(3,2)] obtain why where "destination st t primary n = SkipNode n why" by blast
    with n(1) have "skip_event t n why \<in> set ?skips" by force
    with ts(1) show ?thesis by metis
  qed
qed

text \<open>
  C22: a sync of backups is started only from the one connected node that Patroni reports as primary, and
  only when it has been connected for its whole settle delay, to other nodes the location is synced to that
  are connected and have been for their delay; and when there is such a single primary, every other node of a
  picked local-disk location takes part in its sync or is named in an event that says why it is left out.
\<close>

theorem syncBackups_from_settled_primary:
  assumes reach: "settle_reach now st g" and s': "s' = syncBackups st c stanza pick nodes_fail targets_fail s"
  shows "\<exists>js es. sc_jobs s' = sc_jobs s @ js \<and> sc_events s' = sc_events s @ es
    \<and> (\<forall>j\<in>set js. \<exists>t primary ds. t \<in> set (ListTargets (sc_targets s) c) \<and> bt_TargetType t = ''posix'' \<and> pick t
         \<and> map_option bk_RepoIndex (jb_Backup j) = Some (bt_RepoIndex t) \<and> jb_Source j = nd_ID primary \<and> jb_Nodes j = primary # ds
         \<and> filter reports_primary (ListByCluster (sc_nodes s) c) = [primary] \<and> elapsed now g (nd_ID primary) \<and> ds \<noteq> []
         \<and> (\<forall>n\<in>set ds. n \<in> set (ListByCluster (sc_nodes s) c) \<and> nd_ID n \<in> set (bt_SyncToNodes t) \<and> nd_ID n \<noteq> nd_ID primary
              \<and> nd_AgentStatus n = ''connected'' \<and> elapsed now g (nd_ID n)))
    \<and> (\<not> nodes_fail \<and> \<not> targets_fail \<longrightarrow> (\<forall>primary. filter reports_primary (ListByCluster (sc_nodes s) c) = [primary] \<longrightarrow>
         (\<forall>t\<in>set (ListTargets (sc_targets s) c). \<forall>n\<in>set (ListByCluster (sc_nodes s) c).
            bt_TargetType t = ''posix'' \<and> pick t \<and> nd_ID n \<in> set (bt_SyncToNodes t) \<and> nd_ID n \<noteq> nd_ID primary \<longrightarrow>
              (\<exists>j\<in>set js. n \<in> set (jb_Nodes j) \<and> map_option bk_RepoIndex (jb_Backup j) = Some (bt_RepoIndex t))
              \<or> (\<exists>why. skip_event t n why \<in> set es))))"
proof (cases "nodes_fail \<or> targets_fail \<or> one_primary None (ListByCluster (sc_nodes s) c) = None")
  case True
  then have "s' = s" by (auto simp: s' syncBackups_def Let_def split: option.splits)
  moreover have "nodes_fail \<or> targets_fail \<or> filter reports_primary (ListByCluster (sc_nodes s) c) \<noteq> [primary]" for primary
    using True one_primary_Some [of None "ListByCluster (sc_nodes s) c" primary] by auto
  ultimately show ?thesis by (intro exI [of _ "[]"]) auto
next
  case False
  let ?nodes = "ListByCluster (sc_nodes s) c"
  from False obtain primary where p: "one_primary None ?nodes = Some primary" by auto
  then have f: "filter reports_primary ?nodes = [primary]" by (simp add: one_primary_Some)
  let ?outs = "map (target_sync st stanza ?nodes primary pick) (ListTargets (sc_targets s) c)"
  have eq: "sc_jobs s' = sc_jobs s @ concat (map snd ?outs)" "sc_events s' = sc_events s @ concat (map fst ?outs)"
    using False p by (simp_all add: s' syncBackups_def Let_def)
  have jobs: "\<exists>t\<in>set (ListTargets (sc_targets s) c). good_job st ?nodes primary pick t j" if "j \<in> set (concat (map snd ?outs))" for j
    using that target_sync_job by fastforce
  have el: "elapsed now g n" if "settled n st" for n using settled_elapsed [OF reach that] .
  have safe: "\<exists>t primary ds. t \<in> set (ListTargets (sc_targets s) c) \<and> bt_TargetType t = ''posix'' \<and> pick t
         \<and> map_option bk_RepoIndex (jb_Backup j) = Some (bt_RepoIndex t) \<and> jb_Source j = nd_ID primary \<and> jb_Nodes j = primary # ds
         \<and> filter reports_primary ?nodes = [primary] \<and> elapsed now g (nd_ID primary) \<and> ds \<noteq> []
         \<and> (\<forall>n\<in>set ds. n \<in> set ?nodes \<and> nd_ID n \<in> set (bt_SyncToNodes t) \<and> nd_ID n \<noteq> nd_ID primary
              \<and> nd_AgentStatus n = ''connected'' \<and> elapsed now g (nd_ID n))" if "j \<in> set (concat (map snd ?outs))" for j
    using jobs [OF that] f el unfolding good_job_def by metis
  have all: "(\<exists>j\<in>set (concat (map snd ?outs)). n \<in> set (jb_Nodes j) \<and> map_option bk_RepoIndex (jb_Backup j) = Some (bt_RepoIndex t))
      \<or> (\<exists>why. skip_event t n why \<in> set (concat (map fst ?outs)))"
    if t: "t \<in> set (ListTargets (sc_targets s) c)" "bt_TargetType t = ''posix''" "pick t"
      and n: "n \<in> set ?nodes" "nd_ID n \<in> set (bt_SyncToNodes t)" "nd_ID n \<noteq> nd_ID primary" for t n
    using target_sync_covers [where st = st and stanza = stanza and pick = pick and t = t and primary = primary, OF t(2,3) n] t(1) by fastforce
  show ?thesis using eq safe all f by (intro exI [of _ "concat (map snd ?outs)"] exI [of _ "concat (map fst ?outs)"]) auto
qed

definition standby_example :: node where
  "standby_example = primary_example\<lparr>nd_ID := 12, nd_Hostname := ''db2'', nd_PatroniState := None\<rparr>"

definition sync_example :: sched where
  "sync_example = (sched_example New_locks)\<lparr>sc_nodes := [primary_example, standby_example]\<rparr>"

theorem syncBackups_from_settled_primary_witness:
  "\<exists>j\<in>set (sc_jobs (syncBackups settle_example 1 ''s'' (\<lambda>t. bt_RepoIndex t = 2) False False sync_example)).
     standby_example \<in> set (jb_Nodes j) \<and> jb_Source j = 11"
proof -
  let ?s' = "syncBackups settle_example 1 ''s'' (\<lambda>t. bt_RepoIndex t = 2) False False sync_example"
  have f: "filter reports_primary (ListByCluster (sc_nodes sync_example) 1) = [primary_example]"
    and st: "standby_example \<in> set (ListByCluster (sc_nodes sync_example) 1)"
    and tg: "target_example 5 2 \<in> set (ListTargets (sc_targets sync_example) 1)"
    and e: "sc_events ?s' = []" "sc_jobs sync_example = []" by code_simp+
  from syncBackups_from_settled_primary [OF settle_example_reach, of ?s' 1 "''s''" "\<lambda>t. bt_RepoIndex t = 2" False False sync_example]
  obtain js es where js: "sc_jobs ?s' = sc_jobs sync_example @ js" "sc_events ?s' = sc_events sync_example @ es"
    and safe: "\<forall>j\<in>set js. \<exists>primary. jb_Source j = nd_ID primary
      \<and> filter reports_primary (ListByCluster (sc_nodes sync_example) 1) = [primary]"
    and all: "\<forall>primary. filter reports_primary (ListByCluster (sc_nodes sync_example) 1) = [primary] \<longrightarrow>
         (\<forall>t\<in>set (ListTargets (sc_targets sync_example) 1). \<forall>n\<in>set (ListByCluster (sc_nodes sync_example) 1).
            bt_TargetType t = ''posix'' \<and> bt_RepoIndex t = 2 \<and> nd_ID n \<in> set (bt_SyncToNodes t) \<and> nd_ID n \<noteq> nd_ID primary \<longrightarrow>
              (\<exists>j\<in>set js. n \<in> set (jb_Nodes j) \<and> map_option bk_RepoIndex (jb_Backup j) = Some (bt_RepoIndex t))
              \<or> (\<exists>why. skip_event t n why \<in> set es))" by blast
  have "es = []" using js(2) e(1) by simp
  moreover have "bt_TargetType (target_example 5 2) = ''posix'' \<and> bt_RepoIndex (target_example 5 2) = 2
      \<and> nd_ID standby_example \<in> set (bt_SyncToNodes (target_example 5 2)) \<and> nd_ID standby_example \<noteq> nd_ID primary_example"
    by (simp add: target_example_def standby_example_def primary_example_def)
  ultimately obtain j where j: "j \<in> set js" "standby_example \<in> set (jb_Nodes j)" using all f tg st by fastforce
  from safe j(1) f have "jb_Source j = nd_ID primary_example" by auto
  with j js(1) e(2) show ?thesis by (auto simp: primary_example_def)
qed

section \<open>A run is recorded as what its round did\<close>

lemma backed_up_iff:
  assumes "round_inv p [] r" and "x \<in> set (rd_results r)"
  shows "br_Error x = [] \<longleftrightarrow> BackedUp (br_Repo x) True \<in> set (rd_trace r)"
proof -
  have "BackedUp (br_Repo x) True \<in> set (rd_trace r) \<longleftrightarrow> BackedUp (br_Repo x) True \<in> set (steps_of (br_Repo x) r)"
    by (simp add: steps_of_def)
  moreover have "outcome_ok p (steps_of (br_Repo x) r) x" using assms by (simp add: round_inv_def)
  ultimately show ?thesis by (auto simp: outcome_ok_def)
qed

lemma message_of_location:
  "x \<in> set rs \<Longrightarrow> distinct (map br_Repo rs) \<Longrightarrow>
     fold (\<lambda>res msg. if Some (br_Repo x) = Some (br_Repo res) then br_Error res else msg) rs msg = br_Error x"
proof (induction rs arbitrary: msg)
  case (Cons y rs)
  have other: "fold (\<lambda>res msg. if Some k = Some (br_Repo res) then br_Error res else msg) zs msg = msg"
    if "k \<notin> br_Repo ` set zs" for k zs msg using that by (induction zs) auto
  show ?case
  proof (cases "x = y")
    case True
    with Cons.prems other [of "br_Repo x" rs] show ?thesis by simp
  next
    case False
    with Cons show ?thesis by simp
  qed
qed simp

text \<open>Updates of rows by their identifiers, one after the other, act on each row alone.\<close>

lemma fold_update_run:
  assumes "\<And>c r. rn_ID (g c r) = rn_ID r"
  shows "fold (\<lambda>c. update_run (k c) (g c)) cs tbl = map (\<lambda>r. fold g (filter (\<lambda>c. k c = rn_ID r) cs) r) tbl"
proof (induction cs arbitrary: tbl)
  case (Cons c cs)
  have "fold (\<lambda>c. update_run (k c) (g c)) (c # cs) tbl
      = map (\<lambda>r. fold g (filter (\<lambda>c. k c = rn_ID r) cs) r) (update_run (k c) (g c) tbl)"
    using Cons.IH by simp
  then show ?case by (simp add: update_run_def assms)
qed simp

definition settle_run :: "instant \<Rightarrow> backup_run \<times> (backup_task, task_output) task_row \<Rightarrow> backup_run \<Rightarrow> backup_run" where
  "settle_run now c r = (let msg = run_message (fst c) (snd c)
     in if msg = [] then r\<lparr>rn_Status := ''success'', rn_CompletedAt := Some now\<rparr>
        else r\<lparr>rn_Status := ''failed'', rn_CompletedAt := Some now, rn_ErrorMessage := Some msg\<rparr>)"

lemma syncCompletedRuns_eq:
  "syncCompletedRuns now tasks runs =
     map (\<lambda>r. fold (settle_run now) (filter (\<lambda>c. rn_ID (fst c) = rn_ID r) (completed_runs tasks runs)) r) runs"
proof -
  have "(\<lambda>(r, t) tbl. let msg = run_message r t
             in if msg = [] then SetSuccess now (rn_ID r) tbl else SetFailed now (rn_ID r) msg tbl)
      = (\<lambda>c. update_run (rn_ID (fst c)) (settle_run now c))"
    by (auto simp: fun_eq_iff SetSuccess_def SetFailed_def settle_run_def Let_def update_run_def)
  moreover have "rn_ID (settle_run now c r) = rn_ID r" for c r by (simp add: settle_run_def Let_def)
  ultimately show ?thesis unfolding syncCompletedRuns_def by (simp add: fold_update_run)
qed

lemma filter_unique: "distinct (map f xs) \<Longrightarrow> x \<in> set xs \<Longrightarrow> P x \<Longrightarrow> (\<And>y. P y \<Longrightarrow> f y = f x) \<Longrightarrow> filter P xs = [x]"
proof (induction xs)
  case (Cons y xs)
  show ?case
  proof (cases "x = y")
    case True
    have "\<not> P z" if "z \<in> set xs" for z
    proof
      assume "P z"
      then have "f z = f y" using Cons.prems(4) True by blast
      with that Cons.prems(1) show False by (metis distinct.simps(2) imageI list.set_map list.simps(9))
    qed
    then have "filter P xs = []" by (simp add: filter_empty_conv)
    then show ?thesis unfolding True [symmetric] using Cons.prems(3) by (metis filter.simps(2))
  next
    case False
    with Cons.prems have "x \<in> set xs" by simp
    moreover have "\<not> P y"
    proof
      assume "P y"
      then have "f y = f x" by (rule Cons.prems(4))
      with \<open>x \<in> set xs\<close> Cons.prems(1) show False by (metis distinct.simps(2) imageI list.set_map list.simps(9))
    qed
    moreover have "distinct (map f xs)" using Cons.prems(1) by simp
    ultimately show ?thesis using Cons.IH [OF _ _ Cons.prems(3,4)] by (metis filter.simps(2))
  qed
qed simp

lemma completed_run_unique:
  assumes r: "distinct (map rn_ID runs)" "r \<in> set runs" "rn_Status r = ''running''" "rn_TaskID r = Some (tr_TaskID t)"
    and t: "distinct (map tr_TaskID tasks)" "t \<in> set tasks" "tr_Status t \<in> {''success'', ''failure'', ''timeout''}"
  shows "filter (\<lambda>c. rn_ID (fst c) = rn_ID r) (completed_runs tasks runs) = [(r, t)]"
proof -
  let ?ts = "\<lambda>r. filter (\<lambda>t. rn_TaskID r = Some (tr_TaskID t) \<and> tr_Status t \<in> {''success'', ''failure'', ''timeout''}) tasks"
  have ts: "?ts r = [t]" by (rule filter_unique [OF t(1,2)]) (use r(4) t(3) in auto)
  have "filter (\<lambda>c. rn_ID (fst c) = k) (concat (map (\<lambda>r. map (Pair r) (?ts r)) rs))
      = concat (map (\<lambda>r. map (Pair r) (?ts r)) (filter (\<lambda>r. rn_ID r = k) rs))" for k rs
    by (induction rs) (auto simp: filter_map o_def)
  note split = this
  have "filter (\<lambda>x. rn_ID x = rn_ID r) (filter (\<lambda>r. rn_Status r = ''running'') runs) = [r]"
    using filter_unique [OF r(1,2), of "\<lambda>x. rn_Status x = ''running'' \<and> rn_ID x = rn_ID r"] r(3) by simp
  then show ?thesis unfolding completed_runs_def split using ts by simp
qed

text \<open>
  C23: a run is recorded as a success exactly when the agent's round backed its location up: whatever the
  checks and backups of the round came to, once its task has ended with the result of the round, the sweep
  marks the run ``success'' if the trace of the round has a good backup of that location, ``failed'' otherwise.
\<close>

theorem run_recorded_as_backed_up:
  assumes clock: "\<And>d w w'. en_sleep env d w = (None, w') \<Longrightarrow> en_now env w + d \<le> en_now env w'"
    and d: "distinct (bp_Repos p)" and repo: "repo \<in> set (bp_Repos p)"
    and out: "backupRound env p w = Some ((results, err), round, w')"
    and t: "distinct (map tr_TaskID tasks)" "t \<in> set tasks" "tr_Status t = (if err = None then ''success'' else ''failure'')"
      "tr_ResponsePayload t = Some \<lparr>rp_output = Some (Results results), rp_error = (case err of None \<Rightarrow> [] | Some e \<Rightarrow> e)\<rparr>"
    and r: "distinct (map rn_ID runs)" "r \<in> set runs" "rn_Status r = ''running''" "rn_TaskID r = Some (tr_TaskID t)"
      "rn_RepoIndex r = Some repo"
  shows "\<exists>r'\<in>set (syncCompletedRuns now tasks runs). rn_ID r' = rn_ID r \<and> rn_RepoIndex r' = Some repo \<and> rn_CompletedAt r' = Some now
    \<and> rn_Status r' = (if BackedUp repo True \<in> set (rd_trace round) then ''success'' else ''failed'')"
proof -
  obtain r0 w0 where l: "round_loop (round_fuel p) env p (start_queue p) start_state w = Some (r0, w0)" "round_inv p [] r0"
    using backupRound_loop [OF clock d] by blast
  with out have eq: "round = r0" "results = rd_results r0" by (auto simp: backupRound_def Let_def)
  from l(2) have m: "mset (map br_Repo results) = mset (bp_Repos p)" by (simp add: round_inv_def eq)
  then have "distinct (map br_Repo results)" using d mset_eq_imp_distinct_iff by blast
  moreover from m repo have "repo \<in> br_Repo ` set results" by (metis list.set_map mset_eq_setD)
  then obtain x where x: "x \<in> set results" "br_Repo x = repo" by blast
  ultimately have msg: "run_message r t = br_Error x"
    using message_of_location [of x results] r(5) t(4) by (simp add: run_message_def Let_def parse_results_def)
  have "br_Error x = [] \<longleftrightarrow> BackedUp repo True \<in> set (rd_trace round)" using backed_up_iff [OF l(2), of x] x eq by simp
  moreover have "filter (\<lambda>c. rn_ID (fst c) = rn_ID r) (completed_runs tasks runs) = [(r, t)]"
    by (rule completed_run_unique [OF r(1-4) t(1,2)]) (use t(3) in simp)
  then have "settle_run now (r, t) r \<in> set (syncCompletedRuns now tasks runs)"
    unfolding syncCompletedRuns_eq using r(2) by force
  ultimately show ?thesis using r(5) msg by (intro bexI [of _ "settle_run now (r, t) r"]) (simp_all add: settle_run_def)
qed

text \<open>The task and the runs of the example round of \<open>BackupRound\<close>: location 1 is backed up, the backup of 2 fails.\<close>

definition task_example :: "backup_result list \<Rightarrow> string option \<Rightarrow> (backup_task, task_output) task_row" where
  "task_example results err = \<lparr>tr_NodeID = 11, tr_TaskID = 77, tr_TaskType = ''pgbackrest.backup'',
     tr_Status = (if err = None then ''success'' else ''failure''), tr_RequestPayload = RunBackups params_example,
     tr_ResponsePayload = Some \<lparr>rp_output = Some (Results results), rp_error = (case err of None \<Rightarrow> [] | Some e \<Rightarrow> e)\<rparr>,
     tr_QueuedAt = 0, tr_CompletedAt = Some 5, tr_AckTimeoutSecs = None\<rparr>"

definition run_example :: "int \<Rightarrow> backup_run" where
  "run_example repo = \<lparr>rn_ID = word_of_int repo, rn_ClusterID = 1, rn_BackupType = ''full'', rn_RepoIndex = Some repo, rn_TaskID = Some 77,
     rn_Attempt = 1, rn_ScheduledAt = 0, rn_DispatchedAt = Some 0, rn_Status = ''running'', rn_CompletedAt = None, rn_ErrorMessage = None\<rparr>"

theorem run_recorded_as_backed_up_witness:
  "\<exists>results err round w'. backupRound round_example params_example (0, [1]) = Some ((results, err), round, w')
     \<and> (\<exists>r'\<in>set (syncCompletedRuns 9 [task_example results err] [run_example 1, run_example 2]). rn_RepoIndex r' = Some 1 \<and> rn_Status r' = ''success'')
     \<and> (\<exists>r'\<in>set (syncCompletedRuns 9 [task_example results err] [run_example 1, run_example 2]). rn_RepoIndex r' = Some 2 \<and> rn_Status r' = ''failed'')"
proof -
  have clock: "en_now round_example w + d \<le> en_now round_example w'" if "en_sleep round_example d w = (None, w')" for d w w'
    using that by (auto simp: round_example_def split: prod.splits)
  have d: "distinct (bp_Repos params_example)" "(1::int) \<in> set (bp_Repos params_example)" "(2::int) \<in> set (bp_Repos params_example)"
    by (simp_all add: params_example_def)
  have c: "case backupRound round_example params_example (0, [1]) of
      Some (_, round, _) \<Rightarrow> BackedUp 1 True \<in> set (rd_trace round) \<and> BackedUp 2 True \<notin> set (rd_trace round) | None \<Rightarrow> False" by code_simp
  then obtain results err round w' where out: "backupRound round_example params_example (0, [1]) = Some ((results, err), round, w')"
    by (cases "backupRound round_example params_example (0, [1])") auto
  let ?t = "task_example results err" and ?runs = "[run_example 1, run_example 2]"
  have t: "distinct (map tr_TaskID [?t])" "?t \<in> set [?t]" "tr_Status ?t = (if err = None then ''success'' else ''failure'')"
    "tr_ResponsePayload ?t = Some \<lparr>rp_output = Some (Results results), rp_error = (case err of None \<Rightarrow> [] | Some e \<Rightarrow> e)\<rparr>"
    by (simp_all add: task_example_def)
  have r: "distinct (map rn_ID ?runs)" by (simp add: run_example_def)
  have run: "rn_Status (run_example k) = ''running''" "rn_TaskID (run_example k) = Some (tr_TaskID ?t)" "rn_RepoIndex (run_example k) = Some k" for k
    by (simp_all add: run_example_def task_example_def)
  have one: "\<exists>r'\<in>set (syncCompletedRuns 9 [?t] ?runs). rn_ID r' = rn_ID (run_example 1) \<and> rn_RepoIndex r' = Some 1 \<and> rn_CompletedAt r' = Some 9
      \<and> rn_Status r' = (if BackedUp 1 True \<in> set (rd_trace round) then ''success'' else ''failed'')"
    by (rule run_recorded_as_backed_up [OF clock d(1,2) out t r _ run]) simp_all
  have two: "\<exists>r'\<in>set (syncCompletedRuns 9 [?t] ?runs). rn_ID r' = rn_ID (run_example 2) \<and> rn_RepoIndex r' = Some 2 \<and> rn_CompletedAt r' = Some 9
      \<and> rn_Status r' = (if BackedUp 2 True \<in> set (rd_trace round) then ''success'' else ''failed'')"
    by (rule run_recorded_as_backed_up [OF clock d(1,3) out t r _ run]) simp_all
  from c out have "BackedUp 1 True \<in> set (rd_trace round)" "BackedUp 2 True \<notin> set (rd_trace round)" by simp_all
  with one two out show ?thesis by auto
qed

end
