(* ===== verification/Alerts.thy ===== *)
theory Alerts
  imports Events
begin

text \<open>
  The alert engine of \<open>internal/server/alerting\<close> with the rows it keeps
  (\<open>internal/server/db/queries/alert_states.go\<close>, \<open>alert_rules.go\<close>, \<open>alert_schedules.go\<close>): matching events,
  metrics and schedules against rules, firing, re-alerting, escalating and resolving.  A \<open>float64\<close> is a
  value of a linear order \<open>'f\<close> (the metrics are never NaN).
\<close>

section \<open>Rules and schedules\<close>

record 'f alert_rule =
  al_ID :: uuid
  al_Name :: string
  al_Enabled :: bool
  al_Categories :: "string list"
  al_Codes :: "string list"
  al_MinSeverity :: string
  al_MessageRegex :: "string option"
  al_MetricField :: "string option"
  al_MetricOperator :: "string option"
  al_MetricValue :: "'f option"
  al_ClusterID :: "uuid option"
  al_NodeID :: "uuid option"
  al_FireMode :: string
  al_ReAlertMins :: "int option"
  al_MaxReAlerts :: "int option"
  al_NotifyOnClear :: bool
  al_EscalateAfterMins :: "int option"
  al_EscalateTransportID :: "uuid option"
  al_ScheduleID :: "uuid option"
  al_TransportIDs :: "uuid list"

record schedule_window =
  wd_Days :: "int list"
  wd_Start :: string
  wd_End :: string

record alert_schedule =
  as_ID :: uuid
  as_Timezone :: string
  as_Windows :: "schedule_window list"

section \<open>Matching\<close>

text \<open>\<open>regexp\<close> is a parameter: whether an expression matches a text, \<open>None\<close> if it doesn't compile.\<close>

definition code_matches :: "string \<Rightarrow> string \<Rightarrow> bool" where
  "code_matches code c =
     (if has_suffix ''-'' c then has_prefix c code else code = c \<or> has_prefix (c @ ''-'') code)"

definition MatchesEvent :: "(string \<Rightarrow> string \<Rightarrow> bool option) \<Rightarrow> 'f alert_rule \<Rightarrow> event \<Rightarrow> bool" where
  "MatchesEvent regexp rule ev =
     (if al_Categories rule \<noteq> [] \<and> ev_Category ev \<notin> set (al_Categories rule) then False
      else if al_Codes rule \<noteq> [] \<and> \<not> list_ex (code_matches (ev_Code ev)) (al_Codes rule) then False
      else if al_MinSeverity rule \<noteq> [] \<and> SeverityOrder (ev_Severity ev) < SeverityOrder (al_MinSeverity rule) then False
      else if al_ClusterID rule \<noteq> None \<and> ev_ClusterID ev \<noteq> al_ClusterID rule then False
      else if al_NodeID rule \<noteq> None \<and> ev_NodeID ev \<noteq> al_NodeID rule then False
      else case al_MessageRegex rule of
        None \<Rightarrow> True
      | Some re \<Rightarrow> re = [] \<or> regexp re (ev_Message ev) = Some True)"

record 'f heartbeat =
  hr_NodeID :: uuid
  hr_ClusterID :: uuid
  hr_LoadAvg1 :: "'f option"
  hr_LoadAvg5 :: "'f option"
  hr_MemUsedPct :: "'f option"
  hr_DiskUsedPct :: "'f option"
  hr_ReplicationLagBytes :: "int option"

text \<open>\<open>to_float\<close> is the conversion of an \<open>int64\<close>.\<close>

definition metric_value :: "(int \<Rightarrow> 'f) \<Rightarrow> string \<Rightarrow> 'f heartbeat \<Rightarrow> 'f option" where
  "metric_value to_float field hb =
     (if field = ''disk_used_pct'' then hr_DiskUsedPct hb
      else if field = ''load_avg_1'' then hr_LoadAvg1 hb
      else if field = ''load_avg_5'' then hr_LoadAvg5 hb
      else if field = ''mem_used_pct'' then hr_MemUsedPct hb
      else if field = ''replication_lag_bytes'' then map_option to_float (hr_ReplicationLagBytes hb)
      else None)"

definition compare_metric :: "string \<Rightarrow> 'f::linorder \<Rightarrow> 'f \<Rightarrow> bool" where
  "compare_metric operator x threshold =
     (if operator = ''>'' then x > threshold
      else if operator = ''>='' then x \<ge> threshold
      else if operator = ''<'' then x < threshold
      else if operator = ''<='' then x \<le> threshold
      else operator = ''=='' \<and> x = threshold)"

definition MatchesMetric :: "(int \<Rightarrow> 'f::linorder) \<Rightarrow> 'f alert_rule \<Rightarrow> 'f heartbeat option \<Rightarrow> bool" where
  "MatchesMetric to_float rule hb = (case (al_MetricField rule, al_MetricOperator rule, al_MetricValue rule, hb) of
      (Some field, Some operator, Some threshold, Some hb) \<Rightarrow>
        (case metric_value to_float field hb of
           None \<Rightarrow> False
         | Some x \<Rightarrow> compare_metric operator x threshold)
    | _ \<Rightarrow> False)"

text \<open>The weekday (0 is Sunday), hour and minute an instant has in UTC.\<close>

definition utc_clock :: "instant \<Rightarrow> int \<times> int \<times> int" where
  "utc_clock t = (let m = t div minute in ((m div 1440 + 4) mod 7, m div 60 mod 24, m mod 60))"

text \<open>\<open>Format("15:04")\<close>.\<close>

definition two_digits :: "int \<Rightarrow> string" where
  "two_digits n = [char_of (48 + nat n div 10), char_of (48 + nat n mod 10)]"

definition hhmm :: "int \<Rightarrow> int \<Rightarrow> string" where
  "hhmm h m = two_digits h @ '':'' @ two_digits m"

definition in_window :: "int \<Rightarrow> string \<Rightarrow> schedule_window \<Rightarrow> bool" where
  "in_window dow now w =
     (dow \<in> set (wd_Days w)
      \<and> (if wd_End w > wd_Start w then now \<ge> wd_Start w \<and> now < wd_End w
         else now \<ge> wd_Start w \<or> now < wd_End w))"

text \<open>The time zones are a parameter: the clock of a zone, \<open>None\<close> for a zone that can't be loaded.\<close>

definition MatchesSchedule ::
  "(string \<Rightarrow> (instant \<Rightarrow> int \<times> int \<times> int) option) \<Rightarrow> 'f alert_rule \<Rightarrow> alert_schedule option \<Rightarrow> instant \<Rightarrow> bool" where
  "MatchesSchedule zones rule schedule now = (case (al_ScheduleID rule, schedule) of
      (Some _, Some s) \<Rightarrow>
        (case (case zones (as_Timezone s) of None \<Rightarrow> utc_clock | Some z \<Rightarrow> z) now of
           (dow, h, m) \<Rightarrow> list_ex (in_window dow (hhmm h m)) (as_Windows s))
    | _ \<Rightarrow> True)"

section \<open>Alert states\<close>

record alert_state =
  st_ID :: uuid
  st_RuleID :: uuid
  st_ClusterID :: "uuid option"
  st_NodeID :: "uuid option"
  st_State :: string
  st_ReAlertCount :: int
  st_Escalated :: bool
  st_FirstFiredAt :: instant
  st_LastFiredAt :: instant
  st_LastAlertedAt :: "instant option"
  st_ResolvedAt :: "instant option"
  st_AcknowledgedAt :: "instant option"
  st_AcknowledgedBy :: "uuid option"

type_synonym state_table = "alert_state list"

text \<open>
  The unique index of the table is on the rule and the scope of the unresolved rows, and reads a missing
  identifier as the nil one.
\<close>

definition index_key :: "uuid \<Rightarrow> uuid option \<Rightarrow> uuid option \<Rightarrow> uuid \<times> uuid \<times> uuid" where
  "index_key r c n = (r, case c of None \<Rightarrow> Nil_uuid | Some c \<Rightarrow> c, case n of None \<Rightarrow> Nil_uuid | Some n \<Rightarrow> n)"

definition state_key :: "alert_state \<Rightarrow> uuid \<times> uuid \<times> uuid" where
  "state_key s = index_key (st_RuleID s) (st_ClusterID s) (st_NodeID s)"

definition unresolved :: "alert_state \<Rightarrow> bool" where
  "unresolved s = (st_State s \<noteq> ''resolved'')"

definition New_state :: "instant \<Rightarrow> uuid \<Rightarrow> uuid \<Rightarrow> uuid option \<Rightarrow> uuid option \<Rightarrow> alert_state" where
  "New_state now i r c n =
     \<lparr>st_ID = i, st_RuleID = r, st_ClusterID = c, st_NodeID = n, st_State = ''active'', st_ReAlertCount = 0,
      st_Escalated = False, st_FirstFiredAt = now, st_LastFiredAt = now, st_LastAlertedAt = None,
      st_ResolvedAt = None, st_AcknowledgedAt = None, st_AcknowledgedBy = None\<rparr>"

text \<open>The row and whether it is new; \<open>i\<close> is the identifier drawn for a new one.\<close>

definition UpsertActive ::
  "instant \<Rightarrow> uuid \<Rightarrow> uuid \<Rightarrow> uuid option \<Rightarrow> uuid option \<Rightarrow> state_table \<Rightarrow> (string + alert_state \<times> bool) \<times> state_table" where
  "UpsertActive now i r c n tbl =
     (if \<not> list_ex (\<lambda>s. unresolved s \<and> state_key s = index_key r c n) tbl
      then (Inr (New_state now i r c n, True), tbl @ [New_state now i r c n])
      else case find (\<lambda>s. st_RuleID s = r \<and> st_ClusterID s = c \<and> st_NodeID s = n \<and> unresolved s) tbl of
        None \<Rightarrow> (Inl ''no rows in result set'', tbl)
      | Some s \<Rightarrow> (Inr (s, False), tbl))"

definition update_states :: "(alert_state \<Rightarrow> bool) \<Rightarrow> (alert_state \<Rightarrow> alert_state) \<Rightarrow> state_table \<Rightarrow> state_table" where
  "update_states P f = map (\<lambda>s. if P s then f s else s)"

definition MarkAlerted :: "instant \<Rightarrow> uuid \<Rightarrow> state_table \<Rightarrow> state_table" where
  "MarkAlerted now i = update_states (\<lambda>s. st_ID s = i)
     (\<lambda>s. s\<lparr>st_LastFiredAt := now, st_LastAlertedAt := Some now, st_ReAlertCount := st_ReAlertCount s + 1\<rparr>)"

definition MarkEscalated :: "uuid \<Rightarrow> state_table \<Rightarrow> state_table" where
  "MarkEscalated i = update_states (\<lambda>s. st_ID s = i) (\<lambda>s. s\<lparr>st_Escalated := True\<rparr>)"

text \<open>The rows that \<open>Resolve\<close> resolves, and the table after it.\<close>

definition Resolve ::
  "instant \<Rightarrow> uuid \<Rightarrow> uuid option \<Rightarrow> uuid option \<Rightarrow> state_table \<Rightarrow> alert_state option \<times> state_table" where
  "Resolve now r c n tbl =
     (let P = (\<lambda>s. st_RuleID s = r \<and> st_ClusterID s = c \<and> st_NodeID s = n \<and> st_State s = ''active'');
          f = (\<lambda>s. s\<lparr>st_State := ''resolved'', st_ResolvedAt := Some now\<rparr>)
      in (map_option f (find P tbl), update_states P f tbl))"

definition ResolveByID :: "instant \<Rightarrow> uuid \<Rightarrow> state_table \<Rightarrow> state_table" where
  "ResolveByID now i = update_states (\<lambda>s. st_ID s = i \<and> unresolved s)
     (\<lambda>s. s\<lparr>st_State := ''resolved'', st_ResolvedAt := Some now\<rparr>)"

text \<open>
  \<open>Acknowledge\<close> has no condition on the state: a resolved row becomes unresolved again, which the unique index
  refuses when its scope has another unresolved row.
\<close>

definition Acknowledge :: "instant \<Rightarrow> uuid \<Rightarrow> uuid \<Rightarrow> state_table \<Rightarrow> string option \<times> state_table" where
  "Acknowledge now i user tbl =
     (let tbl' = update_states (\<lambda>s. st_ID s = i)
            (\<lambda>s. s\<lparr>st_State := ''acknowledged'', st_AcknowledgedAt := Some now, st_AcknowledgedBy := Some user\<rparr>) tbl
      in if distinct (map state_key (filter unresolved tbl')) then (None, tbl')
         else (Some ''duplicate key value violates unique constraint'', tbl))"

definition ListActive :: "state_table \<Rightarrow> state_table" where
  "ListActive tbl = sort_key (\<lambda>s. - st_FirstFiredAt s) (filter unresolved tbl)"

end
