(* ===== verification/AlertEngine.thy ===== *)
theory AlertEngine
  imports Alerts
begin

text \<open>
  The engine of \<open>internal/server/alerting/engine.go\<close>: the queue of events, the rules it works with, and its
  loops.  Each call to the alert-state table is atomic, as is an event and a timer tick: the loops meet only
  in that table.  Besides what the code keeps, the engine records why it notified (\<open>eg_calls\<close>), what was
  handed to which transport (\<open>eg_sent\<close>), and the notifications whose row was not updated, since the engine drops the
  errors of these updates (\<open>eg_lost\<close>).
\<close>

record transport =
  tp_ID :: uuid
  tp_Name :: string
  tp_Type :: string
  tp_Enabled :: bool

datatype cause = Occurrence | Fired uuid | ReAlert uuid | Escalate uuid | Cleared uuid

record 'f engine =
  eg_queue :: "event list"
  eg_rules :: "'f alert_rule list"
  eg_schedules :: "uuid \<rightharpoonup> alert_schedule"
  eg_states :: state_table
  eg_calls :: "(cause \<times> 'f alert_rule \<times> event \<times> bool) list"
  eg_sent :: "(transport \<times> 'f alert_rule \<times> event \<times> bool) list"
  eg_lost :: "cause list"

text \<open>
  What the engine relies on: regular expressions, time zones, the conversion of integers to floats and their
  \<open>%g\<close> form, names of clusters and nodes; and for one tick or event the time, the identifiers drawn for new
  states (by rule), the rows read from other tables, and which calls to the database fail.
\<close>

record 'f alert_env =
  an_regexp :: "string \<Rightarrow> string \<Rightarrow> bool option"
  an_zones :: "string \<Rightarrow> (instant \<Rightarrow> int \<times> int \<times> int) option"
  an_to_float :: "int \<Rightarrow> 'f"
  an_format :: "'f \<Rightarrow> string"
  an_resolver :: "((uuid \<Rightarrow> string) \<times> (uuid \<Rightarrow> string)) option"
  an_now :: instant
  an_new :: "uuid \<Rightarrow> uuid"
  an_transport :: "uuid \<rightharpoonup> transport"
  an_heartbeat :: "uuid \<rightharpoonup> 'f heartbeat"
  an_upsert_fails :: "uuid \<Rightarrow> bool"
  an_mark_fails :: "cause \<Rightarrow> bool"
  an_resolve_fails :: "uuid \<Rightarrow> bool"
  an_list_fails :: bool

definition New_engine :: "'f engine" where
  "New_engine = \<lparr>eg_queue = [], eg_rules = [], eg_schedules = Map.empty, eg_states = [], eg_calls = [], eg_sent = [], eg_lost = []\<rparr>"

definition eventCap :: nat where "eventCap = 512"

definition OnEvent_alert :: "event \<Rightarrow> 'f engine \<Rightarrow> 'f engine" where
  "OnEvent_alert ev e = (if length (eg_queue e) < eventCap then e\<lparr>eg_queue := eg_queue e @ [ev]\<rparr> else e)"

text \<open>The rules \<open>ListEnabled\<close> returns (\<open>None\<close>: it failed) and the schedules that can be loaded.\<close>

definition ListEnabledRules :: "'f alert_rule list \<Rightarrow> 'f alert_rule list" where
  "ListEnabledRules tbl = sort_key al_Name (filter al_Enabled tbl)"

definition reloadRules :: "'f alert_rule list option \<Rightarrow> (uuid \<rightharpoonup> alert_schedule) \<Rightarrow> 'f engine \<Rightarrow> 'f engine" where
  "reloadRules rules schedule e = (case rules of
      None \<Rightarrow> e
    | Some rs \<Rightarrow> e\<lparr>eg_rules := rs,
        eg_schedules := (\<lambda>i. if Some i \<in> set (map al_ScheduleID rs) then schedule i else None)\<rparr>)"

section \<open>Notifying\<close>

definition dispatchToTransports ::
  "'f alert_env \<Rightarrow> cause \<Rightarrow> 'f alert_rule \<Rightarrow> event \<Rightarrow> bool \<Rightarrow> 'f engine \<Rightarrow> 'f engine" where
  "dispatchToTransports env cause rule ev isResolve e =
     e\<lparr>eg_calls := eg_calls e @ [(cause, rule, ev, isResolve)],
       eg_sent := eg_sent e @ map (\<lambda>t. (t, rule, ev, isResolve))
         (filter tp_Enabled (List.map_filter (an_transport env) (al_TransportIDs rule)))\<rparr>"

definition fireAlert :: "'f alert_env \<Rightarrow> 'f alert_rule \<Rightarrow> event \<Rightarrow> bool \<Rightarrow> 'f engine \<Rightarrow> 'f engine" where
  "fireAlert env rule ev isResolve e =
     (if al_FireMode rule = ''every_occurrence'' then dispatchToTransports env Occurrence rule ev isResolve e
      else if an_upsert_fails env (al_ID rule) then e
      else case UpsertActive (an_now env) (an_new env (al_ID rule)) (al_ID rule) (ev_ClusterID ev) (ev_NodeID ev) (eg_states e) of
        (Inl err, _) \<Rightarrow> e
      | (Inr (state, isNew), tbl) \<Rightarrow>
          if isNew then
            (let e' = dispatchToTransports env (Fired (st_ID state)) rule ev False (e\<lparr>eg_states := tbl\<rparr>)
             in if an_mark_fails env (Fired (st_ID state)) then e'\<lparr>eg_lost := eg_lost e' @ [Fired (st_ID state)]\<rparr>
                else e'\<lparr>eg_states := MarkAlerted (an_now env) (st_ID state) (eg_states e')\<rparr>)
          else e\<lparr>eg_states := tbl\<rparr>)"

definition rule_schedule :: "'f engine \<Rightarrow> 'f alert_rule \<Rightarrow> alert_schedule option" where
  "rule_schedule e rule = Option.bind (al_ScheduleID rule) (eg_schedules e)"

text \<open>\<open>processEvent\<close> works on the rules and schedules it read when it began.\<close>

definition processEvent :: "'f alert_env \<Rightarrow> event \<Rightarrow> 'f engine \<Rightarrow> 'f engine" where
  "processEvent env ev e0 =
     fold (\<lambda>rule e.
         if \<not> MatchesEvent (an_regexp env) rule ev then e
         else if \<not> MatchesSchedule (an_zones env) rule (rule_schedule e0 rule) (an_now env) then e
         else fireAlert env rule ev False e)
       (eg_rules e0) e0"

definition take_event :: "'f alert_env \<Rightarrow> 'f engine \<Rightarrow> 'f engine" where
  "take_event env e = (case eg_queue e of [] \<Rightarrow> e | ev # evs \<Rightarrow> processEvent env ev (e\<lparr>eg_queue := evs\<rparr>))"

section \<open>Re-alerts and escalation\<close>

definition syntheticEvent :: "'f alert_env \<Rightarrow> 'f alert_rule \<Rightarrow> alert_state \<Rightarrow> string \<Rightarrow> event" where
  "syntheticEvent env rule state message =
     enrich \<lparr>em_sinks = ([] :: unit list), em_resolver = an_resolver env\<rparr>
       ((New_event (case al_Categories rule of [] \<Rightarrow> [] | c # _ \<Rightarrow> c)
           (if al_MinSeverity rule = [] then ''info'' else al_MinSeverity rule)
           (case al_Codes rule of [] \<Rightarrow> [] | c # _ \<Rightarrow> c) message ActorSystem)
        \<lparr>ev_ClusterID := st_ClusterID state, ev_NodeID := st_NodeID state\<rparr>)"

definition realert_due :: "instant \<Rightarrow> 'f alert_rule \<Rightarrow> alert_state \<Rightarrow> bool" where
  "realert_due now rule state =
     (al_FireMode rule = ''re_alert''
      \<and> (case (al_ReAlertMins rule, st_LastAlertedAt state) of
           (Some mins, Some t) \<Rightarrow>
             (case al_MaxReAlerts rule of None \<Rightarrow> True | Some m \<Rightarrow> st_ReAlertCount state < m)
             \<and> now > t + mins * minute
         | _ \<Rightarrow> False))"

definition realert :: "'f alert_env \<Rightarrow> 'f alert_rule \<Rightarrow> alert_state \<Rightarrow> 'f engine \<Rightarrow> 'f engine" where
  "realert env rule state e =
     (if \<not> realert_due (an_now env) rule state then e
      else let ev = syntheticEvent env rule state
                 (''Re-alert #'' @ itoa (st_ReAlertCount state + 1) @ '': '' @ al_Name rule @ '' still active'');
               e' = dispatchToTransports env (ReAlert (st_ID state)) rule ev False e
           in if an_mark_fails env (ReAlert (st_ID state)) then e'\<lparr>eg_lost := eg_lost e' @ [ReAlert (st_ID state)]\<rparr>
              else e'\<lparr>eg_states := MarkAlerted (an_now env) (st_ID state) (eg_states e')\<rparr>)"

text \<open>The transport an escalation goes to, when it is due.\<close>

definition escalation :: "'f alert_env \<Rightarrow> 'f alert_rule \<Rightarrow> alert_state \<Rightarrow> (int \<times> transport) option" where
  "escalation env rule state =
     (if st_Escalated state then None
      else case (al_EscalateAfterMins rule, al_EscalateTransportID rule) of
        (Some mins, Some tid) \<Rightarrow>
          if an_now env > st_FirstFiredAt state + mins * minute
          then (case an_transport env tid of None \<Rightarrow> None | Some t \<Rightarrow> if tp_Enabled t then Some (mins, t) else None)
          else None
      | _ \<Rightarrow> None)"

definition escalate :: "'f alert_env \<Rightarrow> 'f alert_rule \<Rightarrow> alert_state \<Rightarrow> 'f engine \<Rightarrow> 'f engine" where
  "escalate env rule state e = (case escalation env rule state of
      None \<Rightarrow> e
    | Some (mins, t) \<Rightarrow>
        let ev = syntheticEvent env rule state
              (''Escalation: '' @ al_Name rule @ '' has been active for '' @ itoa mins @ '' minutes'');
            e' = e\<lparr>eg_calls := eg_calls e @ [(Escalate (st_ID state), rule, ev, False)], eg_sent := eg_sent e @ [(t, rule, ev, False)]\<rparr>
        in if an_mark_fails env (Escalate (st_ID state)) then e'\<lparr>eg_lost := eg_lost e' @ [Escalate (st_ID state)]\<rparr>
           else e'\<lparr>eg_states := MarkEscalated (st_ID state) (eg_states e')\<rparr>)"

text \<open>\<open>ruleMap\<close>: a later rule with the same identifier wins.\<close>

definition rule_of :: "'f alert_rule list \<Rightarrow> uuid \<Rightarrow> 'f alert_rule option" where
  "rule_of rules i = find (\<lambda>r. al_ID r = i) (rev rules)"

definition processTimers :: "'f alert_env \<Rightarrow> 'f engine \<Rightarrow> 'f engine" where
  "processTimers env e0 =
     (if an_list_fails env then e0
      else fold (\<lambda>state e. case rule_of (eg_rules e0) (st_RuleID state) of
             None \<Rightarrow> e
           | Some rule \<Rightarrow> escalate env rule state (realert env rule state e))
         (ListActive (eg_states e0)) e0)"

section \<open>Metrics\<close>

definition metric_event :: "'f heartbeat \<Rightarrow> 'f alert_rule \<Rightarrow> string \<Rightarrow> string \<Rightarrow> event" where
  "metric_event hb rule field message =
     (New_event ''service'' (al_MinSeverity rule) (''metric:'' @ field) message ActorSystem)
       \<lparr>ev_ClusterID := Some (hr_ClusterID hb), ev_NodeID := Some (hr_NodeID hb)\<rparr>"

definition metric_message :: "'f alert_env \<Rightarrow> 'f alert_rule \<Rightarrow> string \<Rightarrow> string" where
  "metric_message env rule field = (case (al_MetricOperator rule, al_MetricValue rule) of
      (Some op, Some x) \<Rightarrow> ''Metric alert: '' @ field @ '' '' @ op @ '' '' @ an_format env x
    | _ \<Rightarrow> [])"

definition processMetric :: "('f::linorder) alert_env \<Rightarrow> (uuid \<rightharpoonup> alert_schedule) \<Rightarrow> 'f alert_rule \<Rightarrow> 'f engine \<Rightarrow> 'f engine" where
  "processMetric env schedules rule e = (case (al_MetricField rule, al_NodeID rule) of
      (Some field, Some node) \<Rightarrow>
        if \<not> MatchesSchedule (an_zones env) rule (Option.bind (al_ScheduleID rule) schedules) (an_now env) then e
        else (case an_heartbeat env node of
           None \<Rightarrow> e
         | Some hb \<Rightarrow>
             if MatchesMetric (an_to_float env) rule (Some hb)
             then fireAlert env rule (metric_event hb rule field (metric_message env rule field)) False e
             else if an_resolve_fails env (al_ID rule) then e
             else case Resolve (an_now env) (al_ID rule) (Some (hr_ClusterID hb)) (Some (hr_NodeID hb)) (eg_states e) of
               (None, _) \<Rightarrow> e
             | (Some s, tbl) \<Rightarrow>
                 let e' = e\<lparr>eg_states := tbl\<rparr>
                 in if al_NotifyOnClear rule
                    then dispatchToTransports env (Cleared (st_ID s)) rule
                           (metric_event hb rule field (''Resolved: '' @ field @ '' is back within threshold'')) True e'
                    else e')
    | _ \<Rightarrow> e)"

definition processMetrics :: "('f::linorder) alert_env \<Rightarrow> 'f engine \<Rightarrow> 'f engine" where
  "processMetrics env e0 = fold (processMetric env (eg_schedules e0)) (eg_rules e0) e0"

definition timer_tick :: "('f::linorder) alert_env \<Rightarrow> 'f alert_env \<Rightarrow> 'f engine \<Rightarrow> 'f engine" where
  "timer_tick env env' e = processMetrics env' (processTimers env e)"

end
