(* ===== verification/AlertProps.thy ===== *)
theory AlertProps
  imports AlertEngine
begin

text \<open>
  How often an alert notifies, over all histories of the engine: events, ticks, reloads, resolutions and
  acknowledgements in any order.
\<close>

section \<open>Histories\<close>

text \<open>
  The rules loaded satisfy \<open>ok\<close>.  Every operation may draw identifiers for new states that are new and
  differ between rules.  Any call to the database may fail.
\<close>

definition env_ok :: "'f alert_env \<Rightarrow> 'f engine \<Rightarrow> bool" where
  "env_ok env e \<longleftrightarrow> (\<forall>r. an_new env r \<notin> st_ID ` set (eg_states e)) \<and> inj (an_new env)"

inductive alert_reach :: "(('f::linorder) alert_rule \<Rightarrow> bool) \<Rightarrow> 'f engine \<Rightarrow> bool" for ok where
  start: "alert_reach ok New_engine"
| reload: "alert_reach ok e \<Longrightarrow> \<forall>rs. rules = Some rs \<longrightarrow> distinct (map al_ID rs) \<and> (\<forall>r\<in>set rs. ok r)
    \<Longrightarrow> alert_reach ok (reloadRules rules schedules e)"
| event: "alert_reach ok e \<Longrightarrow> alert_reach ok (OnEvent_alert ev e)"
| taken: "alert_reach ok e \<Longrightarrow> env_ok env e \<Longrightarrow> alert_reach ok (take_event env e)"
| timers: "alert_reach ok e \<Longrightarrow> env_ok env e \<Longrightarrow> alert_reach ok (processTimers env e)"
| metrics: "alert_reach ok e \<Longrightarrow> env_ok env e \<Longrightarrow> alert_reach ok (processMetrics env e)"
| resolve: "alert_reach ok e \<Longrightarrow> alert_reach ok (e\<lparr>eg_states := ResolveByID now i (eg_states e)\<rparr>)"
| acknowledge: "alert_reach ok e \<Longrightarrow> alert_reach ok (e\<lparr>eg_states := snd (Acknowledge now i user (eg_states e))\<rparr>)"

definition calls_of :: "cause \<Rightarrow> (cause \<times> 'f alert_rule \<times> event \<times> bool) list \<Rightarrow> nat" where
  "calls_of c calls = length (filter (\<lambda>x. fst x = c) calls)"

lemma calls_of_simps [simp]:
  "calls_of c [] = 0" "calls_of c (xs @ ys) = calls_of c xs + calls_of c ys"
  "calls_of c [(d, x)] = (if d = c then 1 else 0)"
  by (simp_all add: calls_of_def)

text \<open>Every rule with the identifier that may be loaded and re-alerts has at most the limit \<open>m\<close>.\<close>

definition limit :: "('f alert_rule \<Rightarrow> bool) \<Rightarrow> uuid \<Rightarrow> int \<Rightarrow> bool" where
  "limit ok i m \<longleftrightarrow> (\<forall>r. ok r \<and> al_ID r = i \<and> al_FireMode r = ''re_alert'' \<longrightarrow> (\<exists>k\<le>m. al_MaxReAlerts r = Some k))"

text \<open>
  What the row of a state says of the notifications about it: its counter and its flag lag behind by the notifications whose
  update was lost.
\<close>

definition row_ok :: "('f alert_rule \<Rightarrow> bool) \<Rightarrow> (cause \<times> 'f alert_rule \<times> event \<times> bool) list \<Rightarrow> cause list \<Rightarrow> alert_state \<Rightarrow> bool" where
  "row_ok ok calls lost s \<longleftrightarrow> calls_of (Fired (st_ID s)) calls = 1
     \<and> (if st_LastAlertedAt s = None then 0 else 1) + int (calls_of (ReAlert (st_ID s)) calls)
         = st_ReAlertCount s + int (count_list lost (ReAlert (st_ID s)))
     \<and> (st_LastAlertedAt s = None \<longrightarrow> st_ReAlertCount s = 0)
     \<and> calls_of (Escalate (st_ID s)) calls = (if st_Escalated s then 1 else 0) + count_list lost (Escalate (st_ID s))
     \<and> (\<forall>m. limit ok (st_RuleID s) m \<longrightarrow> st_ReAlertCount s \<le> max 1 m)"

definition unseen :: "(cause \<times> 'f alert_rule \<times> event \<times> bool) list \<Rightarrow> cause list \<Rightarrow> uuid \<Rightarrow> bool" where
  "unseen calls lost i \<longleftrightarrow> calls_of (Fired i) calls = 0 \<and> calls_of (ReAlert i) calls = 0 \<and> calls_of (Escalate i) calls = 0
     \<and> count_list lost (ReAlert i) = 0 \<and> count_list lost (Escalate i) = 0"

definition alert_inv :: "('f alert_rule \<Rightarrow> bool) \<Rightarrow> 'f engine \<Rightarrow> bool" where
  "alert_inv ok e \<longleftrightarrow> distinct (map st_ID (eg_states e)) \<and> distinct (map state_key (filter unresolved (eg_states e)))
     \<and> (\<forall>s\<in>set (eg_states e). row_ok ok (eg_calls e) (eg_lost e) s)
     \<and> (\<forall>i. i \<notin> st_ID ` set (eg_states e) \<longrightarrow> unseen (eg_calls e) (eg_lost e) i)
     \<and> distinct (map al_ID (eg_rules e)) \<and> (\<forall>r\<in>set (eg_rules e). ok r)"

lemma alert_invD:
  assumes "alert_inv ok e"
  shows "distinct (map st_ID (eg_states e))" "distinct (map state_key (filter unresolved (eg_states e)))"
    "s \<in> set (eg_states e) \<Longrightarrow> row_ok ok (eg_calls e) (eg_lost e) s" "i \<notin> st_ID ` set (eg_states e) \<Longrightarrow> unseen (eg_calls e) (eg_lost e) i"
    "distinct (map al_ID (eg_rules e))" "r \<in> set (eg_rules e) \<Longrightarrow> ok r"
  using assms unfolding alert_inv_def by blast+

section \<open>Updates of one row\<close>

lemma update_states_ids:
  assumes "\<And>s. st_ID (f s) = st_ID s" shows "map st_ID (update_states P f tbl) = map st_ID tbl"
  by (simp add: update_states_def o_def assms if_distrib cong: if_cong)

lemma map_ids_set: "map st_ID t = map st_ID u \<Longrightarrow> st_ID ` set t = st_ID ` set u"
  by (metis list.set_map)

lemma update_states_keys:
  assumes "\<And>s. P s \<Longrightarrow> unresolved (f s) = unresolved s \<and> state_key (f s) = state_key s"
  shows "map state_key (filter unresolved (update_states P f tbl)) = map state_key (filter unresolved tbl)"
  using assms by (induction tbl) (auto simp: update_states_def)

text \<open>Rows that become resolved leave the index.\<close>

lemma update_states_resolved:
  assumes "\<And>s. P s \<Longrightarrow> \<not> unresolved (f s)"
  shows "filter unresolved (update_states P f tbl) = filter (\<lambda>s. unresolved s \<and> \<not> P s) tbl"
  using assms by (induction tbl) (auto simp: update_states_def)

lemma distinct_filter_map: "distinct (map f (filter P xs)) \<Longrightarrow> distinct (map f (filter (\<lambda>x. P x \<and> Q x) xs))"
  by (induction xs) (auto split: if_splits)

lemma distinct_resolved:
  assumes "distinct (map state_key (filter unresolved tbl))" and "\<And>s. P s \<Longrightarrow> \<not> unresolved (f s)"
  shows "distinct (map state_key (filter unresolved (update_states P f tbl)))"
  using distinct_filter_map [OF assms(1), of "\<lambda>s. \<not> P s"] update_states_resolved [of P f tbl] assms(2) by simp

lemma in_update_states: "s \<in> set (update_states P f tbl) \<longleftrightarrow> (\<exists>x\<in>set tbl. s = (if P x then f x else x))"
  by (auto simp: update_states_def)

text \<open>An update that keeps what the counts are about.\<close>

lemma inv_update:
  assumes i: "alert_inv ok e"
    and f: "\<And>s. st_ID (f s) = st_ID s" "\<And>s. P s \<Longrightarrow> row_ok ok (eg_calls e) (eg_lost e) s \<Longrightarrow> row_ok ok (eg_calls e) (eg_lost e) (f s)"
    and k: "distinct (map state_key (filter unresolved (update_states P f (eg_states e))))"
  shows "alert_inv ok (e\<lparr>eg_states := update_states P f (eg_states e)\<rparr>)"
proof -
  note ids = update_states_ids [of f P "eg_states e", OF f(1)]
  have "row_ok ok (eg_calls e) (eg_lost e) s" if "s \<in> set (update_states P f (eg_states e))" for s
    using that i f(2) by (auto simp: in_update_states alert_inv_def)
  moreover have "st_ID ` set (update_states P f (eg_states e)) = st_ID ` set (eg_states e)" by (rule map_ids_set [OF ids])
  ultimately show ?thesis using i k ids by (simp add: alert_inv_def)
qed

lemma row_ok_state: "row_ok ok calls lost (s\<lparr>st_State := x\<rparr>) = row_ok ok calls lost s"
  "row_ok ok calls lost (s\<lparr>st_ResolvedAt := y\<rparr>) = row_ok ok calls lost s"
  "row_ok ok calls lost (s\<lparr>st_AcknowledgedAt := y\<rparr>) = row_ok ok calls lost s"
  "row_ok ok calls lost (s\<lparr>st_AcknowledgedBy := z\<rparr>) = row_ok ok calls lost s"
  by (simp_all add: row_ok_def)

lemma inv_resolve_by_id:
  assumes "alert_inv ok e" shows "alert_inv ok (e\<lparr>eg_states := ResolveByID now i (eg_states e)\<rparr>)"
  unfolding ResolveByID_def
  by (rule inv_update [OF assms _ _ distinct_resolved [OF alert_invD(2) [OF assms]]]) (simp_all add: row_ok_state unresolved_def)

lemma inv_acknowledge:
  assumes "alert_inv ok e" shows "alert_inv ok (e\<lparr>eg_states := snd (Acknowledge now i user (eg_states e))\<rparr>)"
proof -
  let ?f = "\<lambda>s. s\<lparr>st_State := ''acknowledged'', st_AcknowledgedAt := Some now, st_AcknowledgedBy := Some user\<rparr>"
  let ?t = "update_states (\<lambda>s. st_ID s = i) ?f (eg_states e)"
  show ?thesis
  proof (cases "distinct (map state_key (filter unresolved ?t))")
    case True
    have "alert_inv ok (e\<lparr>eg_states := ?t\<rparr>)" by (rule inv_update [OF assms _ _ True]) (simp_all add: row_ok_state)
    with True show ?thesis by (simp add: Acknowledge_def Let_def)
  next
    case False
    with assms show ?thesis by (simp add: Acknowledge_def Let_def)
  qed
qed

lemma Resolve_table: "snd (Resolve now r c n tbl) = update_states
    (\<lambda>s. st_RuleID s = r \<and> st_ClusterID s = c \<and> st_NodeID s = n \<and> st_State s = ''active'')
    (\<lambda>s. s\<lparr>st_State := ''resolved'', st_ResolvedAt := Some now\<rparr>) tbl"
  by (simp add: Resolve_def Let_def)

lemma inv_resolve:
  assumes "alert_inv ok e" shows "alert_inv ok (e\<lparr>eg_states := snd (Resolve now r c n (eg_states e))\<rparr>)"
  unfolding Resolve_table
  by (rule inv_update [OF assms _ _ distinct_resolved [OF alert_invD(2) [OF assms]]]) (simp_all add: row_ok_state unresolved_def)

section \<open>Notifications\<close>

text \<open>Causes that no count is about.\<close>

lemma inv_other_call:
  assumes "alert_inv ok e" and "c = Occurrence \<or> (\<exists>i. c = Cleared i)"
  shows "alert_inv ok (dispatchToTransports env c rule ev b e)"
  using assms by (auto simp: alert_inv_def dispatchToTransports_def row_ok_def unseen_def)

text \<open>A call about the row \<open>i\<close>, together with an update of that row; or the update was lost.\<close>

lemma inv_call:
  assumes i: "alert_inv ok e" and c: "c = ReAlert i \<or> c = Escalate i" "set l \<subseteq> {c}" and mem: "i \<in> st_ID ` set (eg_states e)"
    and f: "\<And>s. st_ID (f s) = st_ID s" "\<And>s. unresolved (f s) = unresolved s \<and> state_key (f s) = state_key s"
    and r: "\<And>s. s \<in> set (eg_states e) \<Longrightarrow> st_ID s = i \<Longrightarrow> row_ok ok (eg_calls e @ [(c, x)]) (eg_lost e @ l) (f s)"
  shows "alert_inv ok (e\<lparr>eg_calls := eg_calls e @ [(c, x)], eg_sent := sent, eg_lost := eg_lost e @ l,
    eg_states := update_states (\<lambda>s. st_ID s = i) f (eg_states e)\<rparr>)"
proof -
  let ?P = "\<lambda>s. st_ID s = i"
  note ids = update_states_ids [of f ?P "eg_states e", OF f(1)]
  have keys: "map state_key (filter unresolved (update_states ?P f (eg_states e))) = map state_key (filter unresolved (eg_states e))"
    by (rule update_states_keys) (use f(2) in simp)
  have l: "count_list l d = 0" if "d \<noteq> c" for d using c(2) that by (auto simp: count_list_0_iff)
  have rows: "row_ok ok (eg_calls e @ [(c, x)]) (eg_lost e @ l) s" if s: "s \<in> set (update_states ?P f (eg_states e))" for s
  proof -
    from s obtain y where y: "y \<in> set (eg_states e)" "s = (if ?P y then f y else y)" by (auto simp: in_update_states)
    show ?thesis
    proof (cases "?P y")
      case True
      with r y show ?thesis by simp
    next
      case False
      with alert_invD(3) [OF i y(1)] y(2) c(1) l show ?thesis by (auto simp: row_ok_def)
    qed
  qed
  have unseen': "unseen (eg_calls e @ [(c, x)]) (eg_lost e @ l) j" if "j \<notin> st_ID ` set (update_states ?P f (eg_states e))" for j
    using that alert_invD(4) [OF i, of j] mem c(1) l unfolding map_ids_set [OF ids] by (auto simp: unseen_def)
  show ?thesis using i ids keys rows unseen' by (simp add: alert_inv_def)
qed

lemma update_states_same [simp]: "update_states P (\<lambda>s. s) tbl = tbl"
  by (simp add: update_states_def)

lemma realert_states:
  "eg_states (realert env rule s e) = eg_states e
   \<or> eg_states (realert env rule s e) = MarkAlerted (an_now env) (st_ID s) (eg_states e)"
  "eg_rules (realert env rule s e) = eg_rules e" "eg_rules (escalate env rule s e) = eg_rules e"
  by (auto simp: realert_def escalate_def Let_def dispatchToTransports_def split: option.splits)

lemma inv_realert:
  assumes i: "alert_inv ok e" and s: "s \<in> set (eg_states e)" and r: "ok rule" "al_ID rule = st_RuleID s"
  shows "alert_inv ok (realert env rule s e)"
proof (cases "realert_due (an_now env) rule s")
  case True
  let ?f = "\<lambda>x. x\<lparr>st_LastFiredAt := an_now env, st_LastAlertedAt := Some (an_now env), st_ReAlertCount := st_ReAlertCount x + 1\<rparr>"
  let ?ev = "syntheticEvent env rule s (''Re-alert #'' @ itoa (st_ReAlertCount s + 1) @ '': '' @ al_Name rule @ '' still active'')"
  let ?c = "ReAlert (st_ID s)" and ?sent = "eg_sent (dispatchToTransports env (ReAlert (st_ID s)) rule ?ev False e)"
  have below: "st_ReAlertCount s < k" if "limit ok (st_RuleID s) k" for k
    using that True r by (auto simp: limit_def realert_due_def split: option.splits)
  have marked: "st_LastAlertedAt s \<noteq> None" using True by (auto simp: realert_due_def split: option.splits)
  have own: "x = s" if "x \<in> set (eg_states e)" "st_ID x = st_ID s" for x
    using that s alert_invD(1) [OF i] by (simp add: distinct_map inj_on_def)
  have mem: "st_ID s \<in> st_ID ` set (eg_states e)" using s by simp
  show ?thesis
  proof (cases "an_mark_fails env ?c")
    case lost: True
    have row: "row_ok ok (eg_calls e @ [(?c, rule, ?ev, False)]) (eg_lost e @ [?c]) x" if "x \<in> set (eg_states e)" "st_ID x = st_ID s" for x
      using alert_invD(3) [OF i s] own [OF that] marked by (auto simp: row_ok_def)
    have e: "realert env rule s e = e\<lparr>eg_calls := eg_calls e @ [(?c, rule, ?ev, False)], eg_sent := ?sent, eg_lost := eg_lost e @ [?c],
        eg_states := update_states (\<lambda>x. st_ID x = st_ID s) (\<lambda>x. x) (eg_states e)\<rparr>"
      using True lost by (simp add: realert_def Let_def dispatchToTransports_def)
    show ?thesis unfolding e by (rule inv_call [OF i _ _ mem]) (use row in auto)
  next
    case False
    have row: "row_ok ok (eg_calls e @ [(?c, rule, ?ev, False)]) (eg_lost e @ []) (?f x)" if "x \<in> set (eg_states e)" "st_ID x = st_ID s" for x
      using alert_invD(3) [OF i s] below own [OF that] marked by (fastforce simp: row_ok_def)
    have e: "realert env rule s e = e\<lparr>eg_calls := eg_calls e @ [(?c, rule, ?ev, False)], eg_sent := ?sent, eg_lost := eg_lost e @ [],
        eg_states := update_states (\<lambda>x. st_ID x = st_ID s) ?f (eg_states e)\<rparr>"
      using True False by (simp add: realert_def Let_def dispatchToTransports_def MarkAlerted_def)
    show ?thesis unfolding e by (rule inv_call [OF i _ _ mem]) (use row in \<open>auto simp: unresolved_def state_key_def\<close>)
  qed
next
  case False
  with i show ?thesis by (simp add: realert_def)
qed

lemma inv_escalate:
  assumes i: "alert_inv ok e" and s: "s' \<in> set (eg_states e)" "st_ID s' = st_ID s" "st_Escalated s' = st_Escalated s"
  shows "alert_inv ok (escalate env rule s e)"
proof (cases "escalation env rule s")
  case None
  with i show ?thesis by (simp add: escalate_def)
next
  case (Some a)
  obtain mins t where a: "a = (mins, t)" by (cases a)
  let ?ev = "syntheticEvent env rule s (''Escalation: '' @ al_Name rule @ '' has been active for '' @ itoa mins @ '' minutes'')"
  let ?c = "Escalate (st_ID s)" and ?sent = "eg_sent e @ [(t, rule, ?ev, False)]"
  have new: "\<not> st_Escalated s" using Some by (auto simp: escalation_def)
  note old = alert_invD(3) [OF i s(1)]
  have own: "x = s'" if "x \<in> set (eg_states e)" "st_ID x = st_ID s" for x
    using that s alert_invD(1) [OF i] by (simp add: distinct_map inj_on_def)
  have mem: "st_ID s \<in> st_ID ` set (eg_states e)" using s(1,2) by (metis image_eqI)
  show ?thesis
  proof (cases "an_mark_fails env ?c")
    case True
    have row: "row_ok ok (eg_calls e @ [(?c, rule, ?ev, False)]) (eg_lost e @ [?c]) x" if "x \<in> set (eg_states e)" "st_ID x = st_ID s" for x
      using old s(2,3) own [OF that] by (auto simp: row_ok_def)
    have e: "escalate env rule s e = e\<lparr>eg_calls := eg_calls e @ [(?c, rule, ?ev, False)], eg_sent := ?sent, eg_lost := eg_lost e @ [?c],
        eg_states := update_states (\<lambda>x. st_ID x = st_ID s) (\<lambda>x. x) (eg_states e)\<rparr>"
      using Some a True by (simp add: escalate_def Let_def)
    show ?thesis unfolding e by (rule inv_call [OF i _ _ mem]) (use row in auto)
  next
    case False
    have row: "row_ok ok (eg_calls e @ [(?c, rule, ?ev, False)]) (eg_lost e @ []) (x\<lparr>st_Escalated := True\<rparr>)"
      if "x \<in> set (eg_states e)" "st_ID x = st_ID s" for x
      using old s(2,3) new own [OF that] by (auto simp: row_ok_def)
    have e: "escalate env rule s e = e\<lparr>eg_calls := eg_calls e @ [(?c, rule, ?ev, False)], eg_sent := ?sent, eg_lost := eg_lost e @ [],
        eg_states := update_states (\<lambda>x. st_ID x = st_ID s) (\<lambda>x. x\<lparr>st_Escalated := True\<rparr>) (eg_states e)\<rparr>"
      using Some a False by (simp add: escalate_def Let_def MarkEscalated_def)
    show ?thesis unfolding e by (rule inv_call [OF i _ _ mem]) (use row in \<open>simp_all add: unresolved_def state_key_def\<close>)
  qed
qed

lemma rule_of_Some: "rule_of rules i = Some r \<Longrightarrow> r \<in> set rules \<and> al_ID r = i"
  unfolding rule_of_def by (metis (mono_tags, lifting) find_Some_iff nth_mem set_rev)

text \<open>A tick: the rows still to come are as they were listed.\<close>

lemma inv_timer_fold:
  assumes "alert_inv ok e" and "distinct (map st_ID ss)" and "\<And>s. s \<in> set ss \<Longrightarrow> s \<in> set (eg_states e)"
    and "eg_rules e = rules"
  shows "alert_inv ok (fold (\<lambda>state e. case rule_of rules (st_RuleID state) of
      None \<Rightarrow> e | Some rule \<Rightarrow> escalate env rule state (realert env rule state e)) ss e)"
  using assms
proof (induction ss arbitrary: e)
  case (Cons s ss)
  let ?step = "case rule_of rules (st_RuleID s) of None \<Rightarrow> e | Some rule \<Rightarrow> escalate env rule s (realert env rule s e)"
  have "alert_inv ok ?step \<and> eg_rules ?step = rules \<and> (\<forall>x\<in>set ss. x \<in> set (eg_states ?step))"
  proof (cases "rule_of rules (st_RuleID s)")
    case None
    with Cons.prems show ?thesis by simp
  next
    case (Some rule)
    with rule_of_Some Cons.prems(4) have r: "rule \<in> set (eg_rules e)" "al_ID rule = st_RuleID s" by blast+
    note ok = alert_invD(6) [OF Cons.prems(1) r(1)]
    have s: "s \<in> set (eg_states e)" using Cons.prems(3) by simp
    let ?e1 = "realert env rule s e"
    have i1: "alert_inv ok ?e1" by (rule inv_realert [OF Cons.prems(1) s ok r(2)])
    have "\<exists>s'\<in>set (MarkAlerted (an_now env) (st_ID s) (eg_states e)). st_ID s' = st_ID s \<and> st_Escalated s' = st_Escalated s"
    proof
      let ?s = "s\<lparr>st_LastFiredAt := an_now env, st_LastAlertedAt := Some (an_now env), st_ReAlertCount := st_ReAlertCount s + 1\<rparr>"
      show "?s \<in> set (MarkAlerted (an_now env) (st_ID s) (eg_states e))"
        unfolding MarkAlerted_def in_update_states by (rule bexI [OF _ s]) simp
    qed simp
    with realert_states(1) [of env rule s e] s
    have "\<exists>s'\<in>set (eg_states ?e1). st_ID s' = st_ID s \<and> st_Escalated s' = st_Escalated s" by auto
    then obtain s' where s': "s' \<in> set (eg_states ?e1)" "st_ID s' = st_ID s" "st_Escalated s' = st_Escalated s" by blast
    have i2: "alert_inv ok (escalate env rule s ?e1)" by (rule inv_escalate [OF i1 s'])
    have keep: "x \<in> set (eg_states (escalate env rule s ?e1))" if x: "x \<in> set ss" for x
    proof -
      have "st_ID s \<notin> st_ID ` set ss" using Cons.prems(2) by simp
      then have ne: "st_ID x \<noteq> st_ID s" using x by (metis image_eqI)
      have "x \<in> set (eg_states e)" using x Cons.prems(3) by simp
      with ne realert_states(1) [of env rule s e] have x1: "x \<in> set (eg_states ?e1)"
        by (auto simp: MarkAlerted_def in_update_states intro!: bexI [of _ x])
      have "eg_states (escalate env rule s ?e1) = eg_states ?e1 \<or> eg_states (escalate env rule s ?e1) = MarkEscalated (st_ID s) (eg_states ?e1)"
        by (auto simp: escalate_def Let_def split: option.splits)
      with x1 ne show ?thesis by (auto simp: MarkEscalated_def in_update_states intro!: bexI [of _ x])
    qed
    show ?thesis using i2 keep Some Cons.prems(4) by (simp add: realert_states)
  qed
  with Cons.IH [of ?step] Cons.prems(2) show ?case by simp
qed simp

lemma inv_timers:
  assumes i: "alert_inv ok e"
  shows "alert_inv ok (processTimers env e)"
proof (cases "an_list_fails env")
  case False
  have d: "distinct (map st_ID (ListActive (eg_states e)))"
  proof -
    have "distinct (map st_ID (filter unresolved (eg_states e)))"
      using distinct_filter_map [of st_ID "\<lambda>_. True" "eg_states e" unresolved] alert_invD(1) [OF i] by simp
    then show ?thesis unfolding ListActive_def by (metis distinct_map distinct_sort set_sort)
  qed
  have "s \<in> set (eg_states e)" if "s \<in> set (ListActive (eg_states e))" for s using that by (simp add: ListActive_def)
  from inv_timer_fold [OF i d this refl] False show ?thesis by (simp add: processTimers_def)
qed (use i in \<open>simp add: processTimers_def\<close>)

section \<open>Firing\<close>

definition state_ids :: "'f engine \<Rightarrow> uuid set" where
  "state_ids e = st_ID ` set (eg_states e)"

lemma inv_fire:
  assumes i: "alert_inv ok e" and fresh: "an_new env (al_ID rule) \<notin> state_ids e"
  shows "alert_inv ok (fireAlert env rule ev b e)
    \<and> state_ids (fireAlert env rule ev b e) \<subseteq> insert (an_new env (al_ID rule)) (state_ids e)
    \<and> eg_rules (fireAlert env rule ev b e) = eg_rules e"
proof (cases "al_FireMode rule = ''every_occurrence'' \<or> an_upsert_fails env (al_ID rule)")
  case True
  then have "fireAlert env rule ev b e = e \<or> fireAlert env rule ev b e = dispatchToTransports env Occurrence rule ev b e"
    by (auto simp: fireAlert_def)
  with i inv_other_call [OF i, of Occurrence env rule ev b] show ?thesis by (auto simp: state_ids_def dispatchToTransports_def)
next
  case no: False
  let ?up = "UpsertActive (an_now env) (an_new env (al_ID rule)) (al_ID rule) (ev_ClusterID ev) (ev_NodeID ev) (eg_states e)"
  let ?new = "New_state (an_now env) (an_new env (al_ID rule)) (al_ID rule) (ev_ClusterID ev) (ev_NodeID ev)"
  let ?i = "an_new env (al_ID rule)"
  show ?thesis
  proof (cases "list_ex (\<lambda>s. unresolved s \<and> state_key s = index_key (al_ID rule) (ev_ClusterID ev) (ev_NodeID ev)) (eg_states e)")
    case True
    then have "(\<exists>x. ?up = (Inl x, eg_states e)) \<or> (\<exists>s. ?up = (Inr (s, False), eg_states e))"
      by (auto simp: UpsertActive_def split: option.splits)
    then have "fireAlert env rule ev b e = e" using no by (auto simp: fireAlert_def)
    with i show ?thesis by auto
  next
    case False
    then have up: "?up = (Inr (?new, True), eg_states e @ [?new])" by (simp add: UpsertActive_def)
    let ?mark = "\<lambda>x. if an_mark_fails env (Fired ?i) then x
      else x\<lparr>st_LastFiredAt := an_now env, st_LastAlertedAt := Some (an_now env), st_ReAlertCount := st_ReAlertCount x + 1\<rparr>"
    let ?lost = "if an_mark_fails env (Fired ?i) then [Fired ?i] else []"
    have id: "st_ID ?new = ?i" by (simp add: New_state_def)
    have old: "st_ID s \<noteq> ?i" if "s \<in> set (eg_states e)" for s using that fresh unfolding state_ids_def by (metis image_eqI)
    then have "update_states (\<lambda>x. st_ID x = ?i) f (eg_states e) = eg_states e" for f by (auto simp: update_states_def intro!: map_idI)
    then have tbl: "\<not> an_mark_fails env (Fired ?i) \<Longrightarrow> MarkAlerted (an_now env) ?i (eg_states e @ [?new]) = eg_states e @ [?mark ?new]"
      using id by (simp add: MarkAlerted_def update_states_def)
    let ?e' = "fireAlert env rule ev b e"
    have e': "eg_states ?e' = eg_states e @ [?mark ?new]" "eg_calls ?e' = eg_calls e @ [(Fired ?i, rule, ev, False)]"
      "eg_rules ?e' = eg_rules e" "eg_lost ?e' = eg_lost e @ ?lost"
      using no up tbl id by (auto simp: fireAlert_def Let_def dispatchToTransports_def)
    have key: "state_key (?mark ?new) = index_key (al_ID rule) (ev_ClusterID ev) (ev_NodeID ev)" "unresolved (?mark ?new)"
      by (simp_all add: New_state_def state_key_def unresolved_def)
    have keys: "distinct (map state_key (filter unresolved (eg_states ?e')))"
      using alert_invD(2) [OF i] False key unfolding e' by (auto simp: list_ex_iff)
    have uns: "unseen (eg_calls e) (eg_lost e) ?i" using alert_invD(4) [OF i] fresh by (simp add: state_ids_def)
    have rows: "row_ok ok (eg_calls ?e') (eg_lost ?e') s" if "s \<in> set (eg_states ?e')" for s
    proof (cases "s \<in> set (eg_states e)")
      case True
      with alert_invD(3) [OF i True] old [OF True] show ?thesis unfolding e' by (auto simp: row_ok_def)
    next
      case False
      with that have "s = ?mark ?new" unfolding e' by simp
      with uns show ?thesis unfolding e' by (simp add: row_ok_def unseen_def New_state_def le_max_iff_disj)
    qed
    have id': "st_ID (?mark ?new) = ?i" using id by simp
    have "unseen (eg_calls ?e') (eg_lost ?e') j" if "j \<notin> st_ID ` set (eg_states ?e')" for j
      using that alert_invD(4) [OF i, of j] id' unfolding e' by (auto simp: unseen_def split: if_splits)
    moreover have "distinct (map st_ID (eg_states ?e'))" using alert_invD(1) [OF i] fresh id unfolding e' state_ids_def by simp
    moreover have "state_ids ?e' \<subseteq> insert ?i (state_ids e)" unfolding state_ids_def e' by (auto simp: id)
    ultimately show ?thesis using keys rows alert_invD(5,6) [OF i] e'(3) by (simp add: alert_inv_def)
  qed
qed

text \<open>A pass over the rules, each of which creates at most the state whose identifier it drew.\<close>

lemma inv_rule_fold:
  assumes step: "\<And>rule e. alert_inv ok e \<Longrightarrow> an_new env (al_ID rule) \<notin> state_ids e \<Longrightarrow>
      alert_inv ok (step rule e) \<and> state_ids (step rule e) \<subseteq> insert (an_new env (al_ID rule)) (state_ids e)"
    and i: "alert_inv ok e" and d: "distinct (map al_ID rs)" and inj: "inj (an_new env)"
    and fresh: "\<And>r. r \<in> set rs \<Longrightarrow> an_new env (al_ID r) \<notin> state_ids e"
  shows "alert_inv ok (fold step rs e)"
  using i d fresh
proof (induction rs arbitrary: e)
  case (Cons r rs)
  have s: "alert_inv ok (step r e)" "state_ids (step r e) \<subseteq> insert (an_new env (al_ID r)) (state_ids e)"
    using step [OF Cons.prems(1) Cons.prems(3)] by simp_all
  have "an_new env (al_ID x) \<notin> state_ids (step r e)" if x: "x \<in> set rs" for x
  proof -
    have "al_ID r \<notin> al_ID ` set rs" using Cons.prems(2) by simp
    then have "al_ID x \<noteq> al_ID r" using x by (metis image_eqI)
    then have "an_new env (al_ID x) \<noteq> an_new env (al_ID r)" using inj by (simp add: inj_eq)
    with s(2) Cons.prems(3) [of x] x show ?thesis by auto
  qed
  with Cons.IH [OF s(1)] Cons.prems(2) show ?case by simp
qed simp

lemma env_okD:
  assumes "env_ok env e" shows "an_new env r \<notin> state_ids e" "inj (an_new env)"
  using assms by (simp_all add: env_ok_def state_ids_def)

lemma inv_event:
  assumes i: "alert_inv ok e" and env: "env_ok env e" shows "alert_inv ok (processEvent env ev e)"
  unfolding processEvent_def
  by (rule inv_rule_fold [OF _ i alert_invD(5) [OF i] env_okD(2) [OF env]])
     (use inv_fire [of ok _ env _ ev False] env_okD(1) [OF env] in auto)

lemma inv_queue: "alert_inv ok (e\<lparr>eg_queue := q\<rparr>) = alert_inv ok e" by (simp add: alert_inv_def)

lemma env_ok_queue: "env_ok env (e\<lparr>eg_queue := q\<rparr>) = env_ok env e" by (simp add: env_ok_def)

lemma inv_metric:
  assumes i: "alert_inv ok e" and fresh: "an_new env (al_ID rule) \<notin> state_ids e"
  shows "alert_inv ok (processMetric env sch rule e)
    \<and> state_ids (processMetric env sch rule e) \<subseteq> insert (an_new env (al_ID rule)) (state_ids e)"
proof -
  have clear: "alert_inv ok (e\<lparr>eg_states := tbl\<rparr>) \<and> state_ids (e\<lparr>eg_states := tbl\<rparr>) = state_ids e"
    if "Resolve now r c n (eg_states e) = (x, tbl)" for now r c n x tbl
  proof -
    from that have tbl: "tbl = snd (Resolve now r c n (eg_states e))" by simp
    have "state_ids (e\<lparr>eg_states := tbl\<rparr>) = state_ids e"
      unfolding tbl Resolve_table state_ids_def by (simp add: map_ids_set [OF update_states_ids])
    with inv_resolve [OF i] show ?thesis unfolding tbl by blast
  qed
  have sent: "alert_inv ok (dispatchToTransports env (Cleared j) rule ev True (e\<lparr>eg_states := tbl\<rparr>))
      \<and> state_ids (dispatchToTransports env (Cleared j) rule ev True (e\<lparr>eg_states := tbl\<rparr>)) = state_ids e"
    if "Resolve now r c n (eg_states e) = (x, tbl)" for now r c n x tbl j ev
    using clear [OF that] inv_other_call [of ok "e\<lparr>eg_states := tbl\<rparr>" "Cleared j" env rule ev True]
    by (simp add: state_ids_def dispatchToTransports_def)
  show ?thesis
    using i inv_fire [OF i fresh] clear sent
    by (auto simp: processMetric_def Let_def split: option.splits prod.splits if_splits)
qed

lemma inv_metrics:
  assumes i: "alert_inv ok e" and env: "env_ok env e" shows "alert_inv ok (processMetrics env e)"
  unfolding processMetrics_def
  by (rule inv_rule_fold [OF _ i alert_invD(5) [OF i] env_okD(2) [OF env]])
     (use inv_metric [where env = env] env_okD(1) [OF env] in auto)

lemma alert_reach_inv: "alert_reach ok e \<Longrightarrow> alert_inv ok e"
proof (induction rule: alert_reach.induct)
  case start
  show ?case by (simp add: alert_inv_def New_engine_def unseen_def)
next
  case (reload e rules schedules)
  then show ?case by (auto simp: alert_inv_def reloadRules_def split: option.splits)
next
  case (event e ev)
  then show ?case by (simp add: OnEvent_alert_def inv_queue)
next
  case (taken e env)
  then show ?case by (auto simp: take_event_def inv_queue env_ok_queue intro!: inv_event split: list.splits)
next
  case (timers e env)
  then show ?case using inv_timers by blast
qed (simp_all add: inv_metrics inv_resolve_by_id inv_acknowledge)

text \<open>
  C13: over any history, in which any call to the database may fail, an alert state is announced once, escalated at most once,
  and re-alerted at most once less often than the limit of its rule says (a rule that does not re-alert: never), except
  that a notification whose update of the row was lost is not counted: one more may follow for each of them
  (\<open>lost_updates_repeat\<close>).  A rule has at most one unresolved state per cluster and node, so nothing is announced again
  before it is resolved.
\<close>

theorem alert_notifies_within_limits:
  assumes "alert_reach ok e" and "s \<in> set (eg_states e)"
  shows "calls_of (Fired (st_ID s)) (eg_calls e) = 1
    \<and> calls_of (Escalate (st_ID s)) (eg_calls e) \<le> 1 + count_list (eg_lost e) (Escalate (st_ID s))
    \<and> (\<forall>m. limit ok (st_RuleID s) m \<longrightarrow>
         int (calls_of (ReAlert (st_ID s)) (eg_calls e)) \<le> max 0 (m - 1) + int (count_list (eg_lost e) (ReAlert (st_ID s))))
    \<and> (\<forall>s'\<in>set (eg_states e). unresolved s \<and> unresolved s' \<and> state_key s' = state_key s \<longrightarrow> s' = s)"
proof -
  note i = alert_reach_inv [OF assms(1)]
  note row = alert_invD(3) [OF i assms(2), unfolded row_ok_def]
  have "int (calls_of (ReAlert (st_ID s)) (eg_calls e)) \<le> max 0 (m - 1) + int (count_list (eg_lost e) (ReAlert (st_ID s)))"
    if "limit ok (st_RuleID s) m" for m
  proof -
    have "st_ReAlertCount s \<le> max 1 m" using row that by blast
    then show ?thesis using row by (cases "st_LastAlertedAt s = None") auto
  qed
  moreover have "s' = s" if "s' \<in> set (eg_states e)" "unresolved s" "unresolved s'" "state_key s' = state_key s" for s'
    using alert_invD(2) [OF i] assms(2) that by (simp add: distinct_map inj_on_def)
  ultimately show ?thesis using row by auto
qed

text \<open>A rule for examples: it re-alerts every minute, at most twice; and an event it matches.\<close>

definition rule_example :: "int alert_rule" where
  "rule_example = \<lparr>al_ID = 5, al_Name = ''r'', al_Enabled = True, al_Categories = [], al_Codes = [''NBC-HA''], al_MinSeverity = ''warn'',
     al_MessageRegex = None, al_MetricField = None, al_MetricOperator = None, al_MetricValue = None, al_ClusterID = None,
     al_NodeID = None, al_FireMode = ''re_alert'', al_ReAlertMins = Some 1, al_MaxReAlerts = Some 2, al_NotifyOnClear = True,
     al_EscalateAfterMins = Some 3, al_EscalateTransportID = Some 9, al_ScheduleID = None, al_TransportIDs = [9]\<rparr>"

definition alert_event :: event where
  "alert_event = Node 7 (Cluster 1 (New_event ''ha'' ''error'' ''NBC-HA-003'' ''m'' ActorSystem))"

definition alert_env_example :: "instant \<Rightarrow> uuid \<Rightarrow> int alert_env" where
  "alert_env_example now base = \<lparr>an_regexp = (\<lambda>_ _. None), an_zones = (\<lambda>_. None), an_to_float = (\<lambda>x. x), an_format = itoa, an_resolver = None,
     an_now = now, an_new = (\<lambda>r. r + base), an_transport = (\<lambda>i. Some \<lparr>tp_ID = i, tp_Name = ''t'', tp_Type = ''email'', tp_Enabled = True\<rparr>),
     an_heartbeat = (\<lambda>_. None), an_upsert_fails = (\<lambda>_. False), an_mark_fails = (\<lambda>_. False), an_resolve_fails = (\<lambda>_. False), an_list_fails = False\<rparr>"

definition fired_example :: "int engine" where
  "fired_example = take_event (alert_env_example 0 100) (OnEvent_alert alert_event (reloadRules (Some [rule_example]) Map.empty New_engine))"

definition alert_example :: "int engine" where
  "alert_example = processTimers (alert_env_example (10 * minute) 200) (processTimers (alert_env_example (5 * minute) 200) fired_example)"

lemma env_example_ok: "base \<noteq> 0 \<Longrightarrow> (\<And>r. r + base \<notin> state_ids e) \<Longrightarrow> env_ok (alert_env_example now base) e"
  by (simp add: env_ok_def alert_env_example_def inj_def state_ids_def)

theorem alert_notifies_within_limits_witness:
  "\<exists>s\<in>set (eg_states fired_example). calls_of (Fired (st_ID s)) (eg_calls fired_example) = 1
     \<and> int (calls_of (ReAlert (st_ID s)) (eg_calls fired_example)) \<le> 1"
proof -
  let ?ok = "\<lambda>r. r = rule_example"
  have "alert_reach ?ok (reloadRules (Some [rule_example]) Map.empty New_engine)"
    by (rule alert_reach.reload [OF alert_reach.start]) simp
  from alert_reach.event [OF this, of alert_event]
  have r: "alert_reach ?ok (OnEvent_alert alert_event (reloadRules (Some [rule_example]) Map.empty New_engine))" .
  have "env_ok (alert_env_example 0 100) (OnEvent_alert alert_event (reloadRules (Some [rule_example]) Map.empty New_engine))"
    by (rule env_example_ok) (simp_all add: state_ids_def OnEvent_alert_def reloadRules_def New_engine_def)
  from alert_reach.taken [OF r this] have R: "alert_reach ?ok fired_example" by (simp add: fired_example_def)
  have "map (\<lambda>s. st_RuleID s = 5) (eg_states fired_example) = [True]" by code_simp
  then obtain s where s: "s \<in> set (eg_states fired_example)" "st_RuleID s = 5" by (cases "eg_states fired_example") auto
  have "limit ?ok 5 2" by (auto simp: limit_def rule_example_def)
  moreover have "eg_lost fired_example = []" by code_simp
  ultimately have "calls_of (Fired (st_ID s)) (eg_calls fired_example) = 1
     \<and> int (calls_of (ReAlert (st_ID s)) (eg_calls fired_example)) \<le> 1"
    using alert_notifies_within_limits [OF R s(1)] s by auto
  with s(1) show ?thesis by blast
qed

text \<open>With a limit of two re-alerts, two ticks that are due send one re-alert, and call it the second.\<close>

lemma max_re_alerts_example:
  "map (\<lambda>(c, _, ev, _). (c, ev_Message ev)) (eg_calls alert_example) =
     [(Fired 105, ''m''), (ReAlert 105, ''Re-alert #2: r still active''), (Escalate 105, ''Escalation: r has been active for 3 minutes'')]"
  by code_simp

text \<open>
  The engine drops the errors of its updates.  While they fail, an alert is escalated at every tick; and an alert whose first
  update failed is never re-alerted, since the time it was announced is missing.
\<close>

definition lost_example :: "int engine" where
  "lost_example = (let env = (\<lambda>now. (alert_env_example now 200)\<lparr>an_mark_fails := (\<lambda>_. True)\<rparr>)
     in processTimers (env (11 * minute)) (processTimers (env (10 * minute)) fired_example))"

lemma lost_updates_repeat:
  "map fst (eg_calls lost_example) = [Fired 105, ReAlert 105, Escalate 105, ReAlert 105, Escalate 105]"
  "eg_lost lost_example = [ReAlert 105, Escalate 105, ReAlert 105, Escalate 105]"
  by code_simp+

lemma unmarked_alert_never_repeats: "st_LastAlertedAt s = None \<Longrightarrow> realert env rule s e = e"
  by (simp add: realert_def realert_due_def split: option.split)

section \<open>Acknowledged alerts\<close>

lemma find_unique:
  assumes x: "x \<in> set xs" "P x" and u: "\<And>y. y \<in> set xs \<Longrightarrow> P y \<Longrightarrow> y = x"
  shows "find P xs = Some x"
proof (cases "find P xs")
  case None
  with x show ?thesis by (simp add: find_None_iff)
next
  case (Some y)
  then have "y \<in> set xs" "P y" by (metis (mono_tags, lifting) find_Some_iff nth_mem)+
  then have "y = x" by (rule u)
  with Some show ?thesis by simp
qed

text \<open>
  once a metric alert is acknowledged, the engine neither clears nor announces it again, whatever the
  metric does: \<open>Resolve\<close> looks for active rows only, and an acknowledged row still keeps its scope from firing.
\<close>

theorem acknowledged_alert_is_stuck:
  assumes reach: "alert_reach ok e" and s: "s \<in> set (eg_states e)" "st_State s = ''active''"
    and e': "e' = e\<lparr>eg_states := snd (Acknowledge now (st_ID s) user (eg_states e))\<rparr>"
    and rule: "al_ID rule = st_RuleID s" "al_FireMode rule \<noteq> ''every_occurrence''"
    and hb: "\<And>n hb. an_heartbeat env n = Some hb \<Longrightarrow> st_ClusterID s = Some (hr_ClusterID hb) \<and> st_NodeID s = Some (hr_NodeID hb)"
  shows "processMetric env sch rule e' = e' \<and> (\<exists>s'\<in>set (eg_states e'). st_ID s' = st_ID s \<and> st_State s' = ''acknowledged'')"
proof -
  note i = alert_reach_inv [OF reach]
  let ?f = "\<lambda>s. s\<lparr>st_State := ''acknowledged'', st_AcknowledgedAt := Some now, st_AcknowledgedBy := Some user\<rparr>"
  let ?t = "update_states (\<lambda>x. st_ID x = st_ID s) ?f (eg_states e)"
  have own: "x = s" if "x \<in> set (eg_states e)" "st_ID x = st_ID s" for x
    using that s alert_invD(1) [OF i] by (simp add: distinct_map inj_on_def)
  have "map state_key (filter unresolved ?t) = map state_key (filter unresolved (eg_states e))"
  proof -
    have "?t = update_states (\<lambda>x. x = s) ?f (eg_states e)" using own s by (auto simp: update_states_def)
    moreover have "map state_key (filter unresolved (update_states (\<lambda>x. x = s) ?f (eg_states e))) = map state_key (filter unresolved (eg_states e))"
      by (rule update_states_keys) (use s(2) in \<open>simp add: unresolved_def state_key_def\<close>)
    ultimately show ?thesis by simp
  qed
  with alert_invD(2) [OF i] have tbl: "eg_states e' = ?t" by (simp add: e' Acknowledge_def Let_def)
  have i': "alert_inv ok e'" unfolding e' by (rule inv_acknowledge [OF i])
  have fs: "?f s \<in> set (eg_states e')" unfolding tbl in_update_states by (rule bexI [OF _ s(1)]) simp
  have only: "y = ?f s" if "y \<in> set (eg_states e')" "unresolved y" "state_key y = state_key s" for y
  proof -
    have "unresolved (?f s)" "state_key (?f s) = state_key s" by (simp_all add: unresolved_def state_key_def)
    with that fs alert_invD(2) [OF i'] show ?thesis by (simp add: distinct_map inj_on_def)
  qed
  have up: "UpsertActive t j (al_ID rule) (st_ClusterID s) (st_NodeID s) (eg_states e') = (Inr (?f s, False), eg_states e')" for t j
  proof -
    have "list_ex (\<lambda>x. unresolved x \<and> state_key x = index_key (al_ID rule) (st_ClusterID s) (st_NodeID s)) (eg_states e')"
      unfolding list_ex_iff by (rule bexI [OF _ fs]) (simp add: unresolved_def state_key_def rule)
    moreover have "find (\<lambda>x. st_RuleID x = al_ID rule \<and> st_ClusterID x = st_ClusterID s \<and> st_NodeID x = st_NodeID s \<and> unresolved x) (eg_states e') = Some (?f s)"
      by (rule find_unique [OF fs]) (use only rule in \<open>simp_all add: unresolved_def state_key_def\<close>)
    ultimately show ?thesis by (simp add: UpsertActive_def)
  qed
  have fire: "fireAlert env rule ev b e' = e'" if "ev_ClusterID ev = st_ClusterID s" "ev_NodeID ev = st_NodeID s" for ev b
    using up that rule(2) by (simp add: fireAlert_def)
  have res: "fst (Resolve t (al_ID rule) (st_ClusterID s) (st_NodeID s) (eg_states e')) = None" for t
  proof -
    have "\<not> (st_RuleID x = al_ID rule \<and> st_ClusterID x = st_ClusterID s \<and> st_NodeID x = st_NodeID s \<and> st_State x = ''active'')"
      if x: "x \<in> set (eg_states e')" for x
    proof
      assume a: "st_RuleID x = al_ID rule \<and> st_ClusterID x = st_ClusterID s \<and> st_NodeID x = st_NodeID s \<and> st_State x = ''active''"
      with only [OF x] rule(1) have "x = ?f s" by (simp add: unresolved_def state_key_def)
      with a show False by simp
    qed
    then show ?thesis by (simp add: Resolve_def Let_def find_None_iff)
  qed
  have "processMetric env sch rule e' = e'"
  proof -
    have "(case Resolve t (al_ID rule) (Some (hr_ClusterID hb)) (Some (hr_NodeID hb)) (eg_states e') of (None, _) \<Rightarrow> e' | (Some s, tbl) \<Rightarrow> g s tbl) = e'"
      if "an_heartbeat env n = Some hb" for t n hb g
      using res [of t] hb [OF that] by (cases "Resolve t (al_ID rule) (Some (hr_ClusterID hb)) (Some (hr_NodeID hb)) (eg_states e')") simp
    moreover have "fireAlert env rule (metric_event hb rule f m) False e' = e'" if "an_heartbeat env n = Some hb" for n hb f m
      by (rule fire) (use hb [OF that] in \<open>simp_all add: metric_event_def\<close>)
    ultimately show ?thesis by (auto simp: processMetric_def split: option.splits)
  qed
  with fs show ?thesis by (intro conjI bexI [of _ "?f s"]) simp_all
qed

text \<open>A load alert of node 7 fires at a load of 9 and is acknowledged; then the load is 1.\<close>

definition metric_rule :: "int alert_rule" where
  "metric_rule = rule_example\<lparr>al_Codes := [], al_FireMode := ''once'', al_NodeID := Some 7, al_MetricField := Some ''load_avg_1'',
     al_MetricOperator := Some ''>'', al_MetricValue := Some 5\<rparr>"

definition load_env :: "int \<Rightarrow> uuid \<Rightarrow> int alert_env" where
  "load_env load base = (alert_env_example 0 base)\<lparr>an_heartbeat := [7 \<mapsto> \<lparr>hr_NodeID = 7, hr_ClusterID = 1, hr_LoadAvg1 = Some load,
     hr_LoadAvg5 = None, hr_MemUsedPct = None, hr_DiskUsedPct = None, hr_ReplicationLagBytes = None\<rparr>]\<rparr>"

definition load_example :: "int engine" where
  "load_example = processMetrics (load_env 9 100) (reloadRules (Some [metric_rule]) Map.empty New_engine)"

theorem acknowledged_alert_is_stuck_witness:
  "\<exists>s\<in>set (eg_states load_example). \<exists>e'. e' = load_example\<lparr>eg_states := snd (Acknowledge 4 (st_ID s) 3 (eg_states load_example))\<rparr>
     \<and> processMetric (load_env 1 200) Map.empty metric_rule e' = e' \<and> processMetric (load_env 9 200) Map.empty metric_rule e' = e'"
proof -
  let ?ok = "\<lambda>r. r = metric_rule"
  have r: "alert_reach ?ok (reloadRules (Some [metric_rule]) Map.empty New_engine)"
    by (rule alert_reach.reload [OF alert_reach.start]) simp
  have "env_ok (load_env 9 100) (reloadRules (Some [metric_rule]) Map.empty New_engine)"
    by (simp add: env_ok_def load_env_def alert_env_example_def inj_def reloadRules_def New_engine_def)
  from alert_reach.metrics [OF r this] have R: "alert_reach ?ok load_example" by (simp add: load_example_def)
  have "map (\<lambda>s. st_RuleID s = 5 \<and> st_State s = ''active'' \<and> st_ClusterID s = Some 1 \<and> st_NodeID s = Some 7) (eg_states load_example) = [True]"
    by code_simp
  then obtain s where s: "s \<in> set (eg_states load_example)" "st_RuleID s = 5" "st_State s = ''active''" "st_ClusterID s = Some 1" "st_NodeID s = Some 7"
    by (cases "eg_states load_example") auto
  have rule: "al_ID metric_rule = st_RuleID s" "al_FireMode metric_rule \<noteq> ''every_occurrence''"
    using s(2) by (simp_all add: metric_rule_def rule_example_def)
  have hb: "st_ClusterID s = Some (hr_ClusterID hb) \<and> st_NodeID s = Some (hr_NodeID hb)"
    if "an_heartbeat (load_env l b) n = Some hb" for l b n hb
    using that s by (auto simp: load_env_def split: if_splits)
  let ?e = "load_example\<lparr>eg_states := snd (Acknowledge 4 (st_ID s) 3 (eg_states load_example))\<rparr>"
  have "processMetric (load_env l 200) Map.empty metric_rule ?e = ?e" for l
    by (rule conjunct1 [OF acknowledged_alert_is_stuck [OF R s(1,3) refl rule hb]])
  with s(1) show ?thesis by blast
qed

end
