(* ===== verification/AlertSchedule.thy ===== *)
theory AlertSchedule
  imports Alerts
begin

text \<open>
  The windows of an alert schedule: the comparison of clock strings is that of the minutes of the day, and
  the part of an overnight window after midnight belongs to the same weekday, not to the next.
\<close>

lemma char_less_iff: "char_of (48 + a) < (char_of (48 + b) :: char) \<longleftrightarrow> a < b" if "a < 10" "b < (10::nat)"
  using that by (simp add: less_char_def)

lemma char_eq_iff: "char_of (48 + a) = (char_of (48 + b) :: char) \<longleftrightarrow> a = b" if "a < 10" "b < (10::nat)"
  using that by (metis add_left_cancel char_of_eq_iff less_char_def nat_neq_iff char_less_iff)

text \<open>Two-digit numbers, with whatever follows them, compare as numbers.\<close>

lemma two_digits_less:
  assumes "0 \<le> a" "a < 100" "0 \<le> b" "b < 100"
  shows "two_digits a @ s < two_digits b @ t \<longleftrightarrow> a < b \<or> a = b \<and> s < t"
proof -
  define x y where "x = nat a" and "y = nat b"
  have xy: "a = int x" "b = int y" "x < 100" "y < 100" using assms by (simp_all add: x_def y_def)
  then have d: "x div 10 < 10" "x mod 10 < 10" "y div 10 < 10" "y mod 10 < 10" by simp_all
  have "two_digits a @ s < two_digits b @ t \<longleftrightarrow>
      x div 10 < y div 10 \<or> x div 10 = y div 10 \<and> (x mod 10 < y mod 10 \<or> x mod 10 = y mod 10 \<and> s < t)"
    using d by (simp add: two_digits_def xy char_less_iff char_eq_iff)
  also have "\<dots> \<longleftrightarrow> x < y \<or> x = y \<and> s < t"
    using div_mult_mod_eq [of x 10] div_mult_mod_eq [of y 10] d by linarith
  finally show ?thesis by (simp add: xy)
qed

definition minutes :: "int \<Rightarrow> int \<Rightarrow> int" where
  "minutes h m = 60 * h + m"

definition clock_ok :: "int \<Rightarrow> int \<Rightarrow> bool" where
  "clock_ok h m \<longleftrightarrow> 0 \<le> h \<and> h < 24 \<and> 0 \<le> m \<and> m < 60"

lemma hhmm_less:
  assumes "clock_ok h m" and "clock_ok h' m'"
  shows "hhmm h m < hhmm h' m' \<longleftrightarrow> minutes h m < minutes h' m'"
proof -
  have "hhmm h m < hhmm h' m' \<longleftrightarrow> h < h' \<or> h = h' \<and> two_digits m @ [] < two_digits m' @ []"
    using assms two_digits_less [of h h' "'':'' @ two_digits m" "'':'' @ two_digits m'"]
    by (simp add: hhmm_def clock_ok_def)
  also have "\<dots> \<longleftrightarrow> h < h' \<or> h = h' \<and> m < m'"
    using assms by (subst two_digits_less) (simp_all add: clock_ok_def)
  also have "\<dots> \<longleftrightarrow> minutes h m < minutes h' m'" using assms by (auto simp: minutes_def clock_ok_def)
  finally show ?thesis .
qed

lemma hhmm_le: "clock_ok h m \<Longrightarrow> clock_ok h' m' \<Longrightarrow> hhmm h m \<le> hhmm h' m' \<longleftrightarrow> minutes h m \<le> minutes h' m'"
  using hhmm_less [of h' m' h m] by (simp add: linorder_not_less [symmetric])

lemma utc_clock_ok: "utc_clock t = (d, h, m) \<Longrightarrow> clock_ok h m \<and> 0 \<le> d \<and> d < 7"
  by (auto simp: utc_clock_def clock_ok_def Let_def)

text \<open>A window by numbers: days, and the minutes of the day it begins and ends at.\<close>

fun in_minutes :: "int \<Rightarrow> int \<Rightarrow> int list \<times> int \<times> int \<Rightarrow> bool" where
  "in_minutes dow t (days, from_min, to_min) \<longleftrightarrow> dow \<in> set days
     \<and> (if from_min < to_min then from_min \<le> t \<and> t < to_min else from_min \<le> t \<or> t < to_min)"

definition window_of :: "int list \<times> (int \<times> int) \<times> (int \<times> int) \<Rightarrow> schedule_window" where
  "window_of w = (case w of (days, (h, m), (h', m')) \<Rightarrow> \<lparr>wd_Days = days, wd_Start = hhmm h m, wd_End = hhmm h' m'\<rparr>)"

text \<open>
  a rule with a schedule matches at an instant exactly when, on the clock of the schedule's zone (UTC when the zone
  cannot be loaded), the weekday is listed in a window whose minutes of the day cover the time; a window that ends
  no later than it begins covers the day's minutes from its begin on and before its end.  The comparison of the
  clock strings is that of the numbers.
\<close>

theorem MatchesSchedule_minutes:
  assumes rule: "al_ScheduleID rule = Some i"
    and s: "as_Windows s = map window_of ws"
    and ws: "\<And>days h m h' m'. (days, (h, m), (h', m')) \<in> set ws \<Longrightarrow> clock_ok h m \<and> clock_ok h' m'"
    and zone: "zones (as_Timezone s) = zone" "\<And>z. zone = Some z \<Longrightarrow> (case z now of (d, h, m) \<Rightarrow> clock_ok h m)"
  shows "MatchesSchedule zones rule (Some s) now \<longleftrightarrow>
    (case (case zone of None \<Rightarrow> utc_clock now | Some z \<Rightarrow> z now) of (dow, h, m) \<Rightarrow>
       \<exists>(days, (a, b), (a', b'))\<in>set ws. in_minutes dow (minutes h m) (days, minutes a b, minutes a' b'))"
proof -
  obtain dow h m where c: "(case zone of None \<Rightarrow> utc_clock now | Some z \<Rightarrow> z now) = (dow, h, m)"
    by (cases "case zone of None \<Rightarrow> utc_clock now | Some z \<Rightarrow> z now")
  have "clock_ok h m" using c zone(2) utc_clock_ok by (cases zone) fastforce+
  then have w: "in_window dow (hhmm h m) (window_of w) \<longleftrightarrow>
      (case w of (days, (a, b), (a', b')) \<Rightarrow> in_minutes dow (minutes h m) (days, minutes a b, minutes a' b'))"
    if "w \<in> set ws" for w
    using ws that by (cases w) (auto simp: in_window_def window_of_def hhmm_less hhmm_le)
  have "MatchesSchedule zones rule (Some s) now \<longleftrightarrow> (\<exists>w\<in>set ws. in_window dow (hhmm h m) (window_of w))"
    using rule s zone(1) c by (auto simp: MatchesSchedule_def list_ex_iff split: option.splits)
  also have "\<dots> \<longleftrightarrow> (\<exists>w\<in>set ws. case w of (days, (a, b), (a', b')) \<Rightarrow> in_minutes dow (minutes h m) (days, minutes a b, minutes a' b'))"
    using w by blast
  finally show ?thesis unfolding c by (simp add: case_prod_beta)
qed

definition weekday_rule :: "int alert_rule" where
  "weekday_rule = \<lparr>al_ID = 5, al_Name = ''r'', al_Enabled = True, al_Categories = [], al_Codes = [], al_MinSeverity = [], al_MessageRegex = None,
     al_MetricField = None, al_MetricOperator = None, al_MetricValue = None, al_ClusterID = None, al_NodeID = None, al_FireMode = ''once'',
     al_ReAlertMins = None, al_MaxReAlerts = None, al_NotifyOnClear = True, al_EscalateAfterMins = None, al_EscalateTransportID = None,
     al_ScheduleID = Some 2, al_TransportIDs = []\<rparr>"

text \<open>Fridays from 22:00 to 02:00; instants are on 1 January 1970, a Thursday, and the days after it.\<close>

definition night_schedule :: alert_schedule where
  "night_schedule = \<lparr>as_ID = 2, as_Timezone = ''UTC'', as_Windows = map window_of [([5], (22, 0), (2, 0))]\<rparr>"

theorem MatchesSchedule_minutes_witness:
  "MatchesSchedule (\<lambda>_. None) weekday_rule (Some night_schedule) ((1440 + 23 * 60) * minute)"
proof -
  have c: "utc_clock (2820 * minute) = (5, 23, 0)" by (simp add: utc_clock_def Let_def minute_def second_def)
  have w: "clock_ok h m \<and> clock_ok h' m'" if "(days, (h, m), (h', m')) \<in> set [([5::int], (22::int, 0::int), (2::int, 0::int))]" for days h m h' m'
    using that by (auto simp: clock_ok_def)
  have r: "al_ScheduleID weekday_rule = Some 2" by (simp add: weekday_rule_def)
  have s: "as_Windows night_schedule = map window_of [([5], (22, 0), (2, 0))]" by (simp add: night_schedule_def)
  show ?thesis
    by (subst MatchesSchedule_minutes [where zones = "\<lambda>_. None" and zone = None, OF r s w]) (simp_all add: c minutes_def)
qed

text \<open>One in the morning after that Friday is outside, one in the morning of the Friday itself inside.\<close>

lemma overnight_window_wrong_day:
  "\<not> MatchesSchedule (\<lambda>_. None) weekday_rule (Some night_schedule) ((2 * 1440 + 60) * minute)"
  "MatchesSchedule (\<lambda>_. None) weekday_rule (Some night_schedule) ((1440 + 60) * minute)"
  by code_simp+

end
