(* ===== verification/Crypto.thy ===== *)
theory Crypto
  imports SyncPaths
begin

text \<open>
  \<open>internal/server/crypto/encrypt.go\<close>: the master key and the encryption of stored secrets, with the
  encodings the callers use (\<open>encoding/hex\<close>, \<open>encoding/base64\<close>).  AES-GCM is a parameter, \<open>seal\<close> and
  \<open>unseal\<close> on key, nonce and text.
\<close>

section \<open>Base64\<close>

definition b64_alphabet :: string where
  "b64_alphabet = ''ABCDEFGHIJKLMNOPQRSTUVWXYZabcdefghijklmnopqrstuvwxyz0123456789+/''"

definition b64_char :: "nat \<Rightarrow> char" where
  "b64_char n = b64_alphabet ! n"

definition b64_value :: "char \<Rightarrow> nat option" where
  "b64_value c = map_of (zip b64_alphabet [0..<64]) c"

text \<open>\<open>StdEncoding.EncodeToString\<close>.\<close>

fun b64_encode :: "string \<Rightarrow> string" where
  "b64_encode [] = []"
| "b64_encode [a] = (let x = of_char a in [b64_char (x div 4), b64_char (x mod 4 * 16), CHR ''='', CHR ''=''])"
| "b64_encode [a, b] = (let x = of_char a; y = of_char b in
     [b64_char (x div 4), b64_char (x mod 4 * 16 + y div 16), b64_char (y mod 16 * 4), CHR ''=''])"
| "b64_encode (a # b # c # s) = (let x = of_char a; y = of_char b; z = of_char c in
     [b64_char (x div 4), b64_char (x mod 4 * 16 + y div 16), b64_char (y mod 16 * 4 + z div 64), b64_char (z mod 64)]
     @ b64_encode s)"

definition b64_bytes :: "nat \<Rightarrow> nat \<Rightarrow> nat \<Rightarrow> nat \<Rightarrow> string" where
  "b64_bytes p q r s = [char_of (p * 4 + q div 16), char_of (q mod 16 * 16 + r div 4), char_of (r mod 4 * 64 + s)]"

text \<open>\<open>StdEncoding.DecodeString\<close>: line breaks are skipped, padding is required, spare bits are ignored.\<close>

fun b64_groups :: "string \<Rightarrow> string option" where
  "b64_groups [] = Some []"
| "b64_groups (a # b # c # d # s) = (case (b64_value a, b64_value b) of
      (Some p, Some q) \<Rightarrow>
        if c = CHR ''='' then (if d = CHR ''='' \<and> s = [] then Some (take 1 (b64_bytes p q 0 0)) else None)
        else (case b64_value c of
           None \<Rightarrow> None
         | Some r \<Rightarrow>
             if d = CHR ''='' then (if s = [] then Some (take 2 (b64_bytes p q r 0)) else None)
             else (case b64_value d of
                None \<Rightarrow> None
              | Some v \<Rightarrow> map_option ((@) (b64_bytes p q r v)) (b64_groups s)))
    | _ \<Rightarrow> None)"
| "b64_groups _ = None"

definition b64_decode :: "string \<Rightarrow> string option" where
  "b64_decode s = b64_groups (filter (\<lambda>c. c \<noteq> CHR 0x0A \<and> c \<noteq> CHR 0x0D) s)"

lemma b64_value_char: "n < 64 \<Longrightarrow> b64_value (b64_char n) = Some n"
proof -
  assume n: "n < 64"
  have d: "distinct b64_alphabet" "length b64_alphabet = 64" by (simp_all add: b64_alphabet_def)
  have "map_of (zip b64_alphabet [0..<64]) (b64_alphabet ! n) = Some ([0..<64] ! n)"
    by (rule map_of_zip_nth) (use d n in simp_all)
  with n show ?thesis by (simp add: b64_value_def b64_char_def)
qed

lemma b64_char_plain: "n < 64 \<Longrightarrow> b64_char n \<noteq> CHR ''='' \<and> b64_char n \<noteq> CHR 0x0A \<and> b64_char n \<noteq> CHR 0x0D"
proof -
  assume "n < 64"
  then have "b64_char n \<in> set b64_alphabet" unfolding b64_char_def by (intro nth_mem) (simp add: b64_alphabet_def)
  moreover have "CHR ''='' \<notin> set b64_alphabet" "CHR 0x0A \<notin> set b64_alphabet" "CHR 0x0D \<notin> set b64_alphabet"
    by (simp_all add: b64_alphabet_def)
  ultimately show ?thesis by metis
qed

lemma byte_less: "of_char c < (256 :: nat)"
  by (rule nat_of_char_less_256)

lemma b64_index: "x < 256 \<Longrightarrow> x div 4 < 64" "y < 256 \<Longrightarrow> x mod 4 * 16 + y div 16 < 64"
  "z < 256 \<Longrightarrow> y mod 16 * 4 + z div 64 < 64" "x mod 4 * 16 < 64" "y mod 16 * 4 < 64" "z mod 64 < 64" for x y z :: nat
proof -
  show "x div 4 < 64" if "x < 256" using that by simp
  have "x mod 4 < 4" "y mod 16 < 16" by simp_all
  then show "x mod 4 * 16 + y div 16 < 64" if "y < 256" using that by (simp add: less_mult_imp_div_less)
  show "y mod 16 * 4 + z div 64 < 64" if "z < 256" using that \<open>y mod 16 < 16\<close> by linarith
  show "x mod 4 * 16 < 64" "y mod 16 * 4 < 64" "z mod 64 < 64" using \<open>x mod 4 < 4\<close> \<open>y mod 16 < 16\<close> by linarith+
qed

lemma b64_bytes_of:
  fixes x y z :: nat assumes "y < 256" "z < 256"
  shows "b64_bytes (x div 4) (x mod 4 * 16 + y div 16) (y mod 16 * 4 + z div 64) (z mod 64) = [char_of x, char_of y, char_of z]"
proof -
  have "y div 16 < 16" "z div 64 < 4" using assms by simp_all
  then have "x div 4 * 4 + (x mod 4 * 16 + y div 16) div 16 = x"
    "(x mod 4 * 16 + y div 16) mod 16 * 16 + (y mod 16 * 4 + z div 64) div 4 = y"
    "(y mod 16 * 4 + z div 64) mod 4 * 64 + z mod 64 = z"
    using div_mult_mod_eq [of x 4] div_mult_mod_eq [of y 16] div_mult_mod_eq [of z 64] by simp_all
  then show ?thesis by (simp add: b64_bytes_def)
qed

lemma b64_groups_encode: "b64_groups (b64_encode s) = Some s"
proof (induction s rule: b64_encode.induct)
  case (2 a)
  have "b64_bytes (of_char a div 4) (of_char a mod 4 * 16 + 0 div 16) (0 mod 16 * 4 + 0 div 64) (0 mod 64) = [char_of (of_char a :: nat), char_of (0 :: nat), char_of (0 :: nat)]"
    by (rule b64_bytes_of) (simp_all add: byte_less)
  then show ?case by (simp add: Let_def b64_value_char b64_index byte_less)
next
  case (3 a b)
  have "b64_bytes (of_char a div 4) (of_char a mod 4 * 16 + of_char b div 16) (of_char b mod 16 * 4 + 0 div 64) (0 mod 64) = [char_of (of_char a :: nat), char_of (of_char b :: nat), char_of (0 :: nat)]"
    by (rule b64_bytes_of) (simp_all add: byte_less)
  then show ?case by (simp add: Let_def b64_value_char b64_index byte_less b64_char_plain)
next
  case (4 a b c s)
  have "b64_bytes (of_char a div 4) (of_char a mod 4 * 16 + of_char b div 16) (of_char b mod 16 * 4 + of_char c div 64) (of_char c mod 64)
      = [char_of (of_char a :: nat), char_of (of_char b :: nat), char_of (of_char c :: nat)]"
    by (rule b64_bytes_of) (simp_all add: byte_less)
  with 4 show ?case by (simp add: Let_def b64_value_char b64_index byte_less b64_char_plain)
qed simp

lemma b64_encode_plain: "filter (\<lambda>c. c \<noteq> CHR 0x0A \<and> c \<noteq> CHR 0x0D) (b64_encode s) = b64_encode s"
  by (induction s rule: b64_encode.induct) (simp_all add: Let_def b64_char_plain b64_index byte_less)

lemma b64_encode_Nil [simp]: "b64_encode s = [] \<longleftrightarrow> s = []"
  by (cases s rule: b64_encode.cases) (simp_all add: Let_def)

lemma b64_roundtrip [simp]: "b64_decode (b64_encode s) = Some s"
  by (simp add: b64_decode_def b64_encode_plain b64_groups_encode)

section \<open>Hexadecimal\<close>

definition hex_value :: "char \<Rightarrow> nat option" where
  "hex_value c = (let n = of_char c in
     if 48 \<le> n \<and> n \<le> 57 then Some (n - 48)
     else if 97 \<le> n \<and> n \<le> 102 then Some (n - 87)
     else if 65 \<le> n \<and> n \<le> 70 then Some (n - 55)
     else None)"

text \<open>\<open>hex.DecodeString\<close>: an odd length or a character that is no digit is an error.\<close>

fun hex_decode :: "string \<Rightarrow> string option" where
  "hex_decode [] = Some []"
| "hex_decode [_] = None"
| "hex_decode (a # b # s) = (case (hex_value a, hex_value b) of
      (Some x, Some y) \<Rightarrow> map_option ((#) (char_of (16 * x + y))) (hex_decode s)
    | _ \<Rightarrow> None)"

lemma hex_value_digit: "n < 16 \<Longrightarrow> hex_value (hex_digit n) = Some n"
proof (cases "n < 10")
  case True
  then have "(of_char (hex_digit n) :: nat) = 48 + n" by (simp add: hex_digit_def)
  with True show ?thesis by (simp add: hex_value_def)
next
  case False
  moreover assume n: "n < 16"
  ultimately have "(of_char (hex_digit n) :: nat) = 87 + n" by (simp add: hex_digit_def)
  with n False show ?thesis by (simp add: hex_value_def)
qed

lemma hex_encode_simps [simp]:
  "hex_encode [] = []"
  "hex_encode (c # s) = hex_digit (of_char c div 16) # hex_digit (of_char c mod 16) # hex_encode s"
  by (simp_all add: hex_encode_def)

lemma length_hex_encode: "length (hex_encode s) = 2 * length s"
  by (induction s) simp_all

lemma hex_roundtrip [simp]: "hex_decode (hex_encode s) = Some s"
proof (induction s)
  case (Cons c s)
  have "(of_char c :: nat) div 16 < 16" using nat_of_char_less_256 [of c] by linarith
  then show ?case using Cons by (simp add: hex_value_digit mult.commute)
qed simp

section \<open>The master key\<close>

definition keySize :: nat where "keySize = 32"
definition nonceSize :: nat where "nonceSize = 12"

text \<open>A path of the disk holds nothing, a readable file, or something that cannot be read.\<close>

datatype disk_file = Absent | Unreadable | Content string

type_synonym key_disk = "string \<Rightarrow> disk_file"

datatype key_error = KE_hex | KE_length | KE_read | KE_random | KE_write

definition trim_newline :: "string \<Rightarrow> string" where
  "trim_newline s = (if s \<noteq> [] \<and> last s = CHR 0x0A then butlast s else s)"

definition ParseMasterKey :: "string \<Rightarrow> key_error + string" where
  "ParseMasterKey s = (case hex_decode (trim_newline s) of
      None \<Rightarrow> Inl KE_hex
    | Some raw \<Rightarrow> if length raw \<noteq> keySize then Inl KE_length else Inr raw)"

definition key_file_text :: "string \<Rightarrow> string" where
  "key_file_text k = hex_encode k @ [CHR 0x0A]"

text \<open>\<open>io.ReadFull(rand.Reader, buf)\<close>: the \<open>n\<close> bytes drawn, or a failure.\<close>

type_synonym random = "nat \<Rightarrow> string option"

definition GenerateMasterKey :: "random \<Rightarrow> key_error + string" where
  "GenerateMasterKey rnd = (case rnd keySize of None \<Rightarrow> Inl KE_random | Some k \<Rightarrow> Inr k)"

text \<open>\<open>written\<close> is what the disk holds after \<open>os.WriteFile\<close>, with whether it succeeded.\<close>

definition generateAndSave :: "random \<Rightarrow> (string \<Rightarrow> string \<Rightarrow> key_disk \<Rightarrow> key_disk \<times> bool) \<Rightarrow> string \<Rightarrow> key_disk
    \<Rightarrow> (key_error + string) \<times> key_disk" where
  "generateAndSave rnd written path d = (case GenerateMasterKey rnd of
      Inl e \<Rightarrow> (Inl e, d)
    | Inr k \<Rightarrow> (let (d', ok) = written path (key_file_text k) d in (if ok then Inr k else Inl KE_write, d')))"

definition loadFromFile :: "random \<Rightarrow> (string \<Rightarrow> string \<Rightarrow> key_disk \<Rightarrow> key_disk \<times> bool) \<Rightarrow> string \<Rightarrow> bool \<Rightarrow> key_disk
    \<Rightarrow> (key_error + string) \<times> key_disk" where
  "loadFromFile rnd written path creating d = (case d path of
      Content s \<Rightarrow> (ParseMasterKey s, d)
    | Absent \<Rightarrow> if creating then generateAndSave rnd written path d else (Inl KE_read, d)
    | Unreadable \<Rightarrow> (Inl KE_read, d))"

definition default_key_path :: string where "default_key_path = ''/etc/netbox-conductor/master.key''"

text \<open>The environment variables, empty when unset.\<close>

type_synonym getenv = "string \<Rightarrow> string"

definition LoadMasterKey :: "getenv \<Rightarrow> random \<Rightarrow> (string \<Rightarrow> string \<Rightarrow> key_disk \<Rightarrow> key_disk \<times> bool) \<Rightarrow> bool \<Rightarrow> key_disk
    \<Rightarrow> (key_error + string) \<times> key_disk" where
  "LoadMasterKey env rnd written creating d =
     (let path = env ''NETBOX_CONDUCTOR_MASTER_KEY_FILE''; hexKey = env ''NETBOX_CONDUCTOR_MASTER_KEY'' in
      if path \<noteq> [] then loadFromFile rnd written path creating d
      else if hexKey \<noteq> [] then (ParseMasterKey hexKey, d)
      else loadFromFile rnd written default_key_path creating d)"

lemma trim_newline_text [simp]: "trim_newline (s @ [CHR 0x0A]) = s"
  by (simp add: trim_newline_def)

lemma ParseMasterKey_text: "length k = keySize \<Longrightarrow> ParseMasterKey (key_file_text k) = Inr k"
  by (simp add: ParseMasterKey_def key_file_text_def)

lemma ParseMasterKey_length: "ParseMasterKey s = Inr k \<Longrightarrow> length k = keySize"
  by (simp add: ParseMasterKey_def split: option.splits if_splits)

section \<open>Encryption\<close>

text \<open>AES-256-GCM: \<open>seal\<close> of key, nonce and plaintext, \<open>unseal\<close> of key, nonce and ciphertext.\<close>

type_synonym seal = "string \<Rightarrow> string \<Rightarrow> string \<Rightarrow> string"
type_synonym unseal = "string \<Rightarrow> string \<Rightarrow> string \<Rightarrow> string option"

definition Encrypt :: "seal \<Rightarrow> random \<Rightarrow> string \<Rightarrow> string \<Rightarrow> string option" where
  "Encrypt sl rnd key plaintext = (case rnd nonceSize of
      None \<Rightarrow> None
    | Some nonce \<Rightarrow> Some (nonce @ sl key nonce plaintext))"

definition Decrypt :: "unseal \<Rightarrow> string \<Rightarrow> string \<Rightarrow> string option" where
  "Decrypt us key d = (if length d < nonceSize then None else us key (take nonceSize d) (drop nonceSize d))"

text \<open>Tokens are stored as the hexadecimal SHA-256 of the token.\<close>

definition HashToken :: "(string \<Rightarrow> string) \<Rightarrow> string \<Rightarrow> string" where
  "HashToken sha256 token = hex_encode (sha256 token)"

definition GenerateToken :: "random \<Rightarrow> nat \<Rightarrow> string option" where
  "GenerateToken rnd byteLen = map_option hex_encode (rnd byteLen)"

text \<open>What the code relies on: the random source fills the buffer, and the cipher opens what it sealed.\<close>

definition rand_fills :: "random \<Rightarrow> bool" where
  "rand_fills rnd \<longleftrightarrow> (\<forall>n s. rnd n = Some s \<longrightarrow> length s = n)"

definition aead :: "seal \<Rightarrow> unseal \<Rightarrow> bool" where
  "aead sl us \<longleftrightarrow> (\<forall>k n p. length k = keySize \<longrightarrow> length n = nonceSize \<longrightarrow> us k n (sl k n p) = Some p)"

lemma Decrypt_Encrypt:
  assumes "aead sl us" "rand_fills rnd" "length k = keySize" "Encrypt sl rnd k p = Some c"
  shows "Decrypt us k c = Some p" "c \<noteq> []"
proof -
  from assms(4) obtain n where n: "rnd nonceSize = Some n" "c = n @ sl k n p"
    by (auto simp: Encrypt_def split: option.splits)
  from assms(2) n(1) have l: "length n = nonceSize" by (auto simp: rand_fills_def)
  with assms(1,3) n(2) show "Decrypt us k c = Some p" by (simp add: Decrypt_def aead_def)
  from l n(2) show "c \<noteq> []" by (auto simp: nonceSize_def)
qed

section \<open>A cipher for examples\<close>

text \<open>A cipher that puts the key and the nonce in front of the text.\<close>

definition mark_seal :: seal where
  "mark_seal k n p = k @ n @ p"

definition mark_unseal :: unseal where
  "mark_unseal k n c = (if take (length k + length n) c = k @ n then Some (drop (length k + length n) c) else None)"

definition zeros :: random where
  "zeros n = Some (replicate n CHR ''z'')"

lemma mark_aead: "aead mark_seal mark_unseal"
  by (simp add: aead_def mark_seal_def mark_unseal_def)

lemma zeros_fill: "rand_fills zeros"
  by (simp add: rand_fills_def zeros_def)

end
