(* ===== verification/KeyRotation.thy ===== *)
theory KeyRotation
  imports Crypto
begin

text \<open>
  \<open>cmd/rotate-key/main.go\<close>: the rotation of the master key.  The state is the disk and the encrypted columns of the
  database; \<open>rotate_key\<close> gives every state the tool leaves behind, in order, so that a crash at any point is a prefix
  of its trace.
\<close>

section \<open>The encrypted columns\<close>

datatype secret_column =
    Credentials_password_enc | Users_totp_secret_enc
  | Targets_s3_key_id_enc | Targets_s3_secret_enc | Targets_gcs_key_enc | Targets_azure_key_enc | Targets_sftp_private_key_enc

text \<open>The rows of a column: the id and the value, \<open>None\<close> for NULL.\<close>

type_synonym enc_column = "(nat \<times> string option) list"
type_synonym secrets_db = "secret_column \<Rightarrow> enc_column"

text \<open>The order of the statements of \<open>main\<close>, each column with whether it holds base64 text.\<close>

definition rotated_columns :: "(secret_column \<times> bool) list" where
  "rotated_columns =
     [(Credentials_password_enc, False), (Users_totp_secret_enc, False),
      (Targets_s3_key_id_enc, True), (Targets_s3_secret_enc, True), (Targets_gcs_key_enc, True),
      (Targets_azure_key_enc, True), (Targets_sftp_private_key_enc, True)]"

datatype rotate_error =
    RE_old_key | RE_new_key | RE_save | RE_connect | RE_begin
  | RE_query | RE_decode | RE_decrypt | RE_encrypt | RE_update | RE_commit | RE_rename

text \<open>What the surroundings answer.  The \<open>t\<close>-th draw and statement of the transaction are indexed by \<open>t\<close>.
  A commit that fails may still have been applied by the database.\<close>

datatype commit_outcome = Commit_done | Commit_error bool

record rotate_env =
  rt_Env :: getenv
  rt_KeyRandom :: random
  rt_Open :: bool
  rt_Written :: nat
  rt_Sync :: bool
  rt_Connect :: bool
  rt_Begin :: bool
  rt_Query :: "nat \<Rightarrow> bool"
  rt_Random :: "nat \<Rightarrow> random"
  rt_Exec :: "nat \<Rightarrow> bool"
  rt_Commit :: commit_outcome
  rt_Rename :: bool
  rt_seal :: seal
  rt_unseal :: unseal

section \<open>Re-encrypting a column\<close>

definition update_row :: "nat \<Rightarrow> string \<Rightarrow> enc_column \<Rightarrow> enc_column" where
  "update_row i v col = map (\<lambda>r. if fst r = i then (i, Some v) else r) col"

fun reencrypt_rows :: "rotate_env \<Rightarrow> string \<Rightarrow> string \<Rightarrow> bool \<Rightarrow> (nat \<times> string) list \<Rightarrow> enc_column \<Rightarrow> nat
    \<Rightarrow> rotate_error + (enc_column \<times> nat)" where
  "reencrypt_rows E old new b64 [] col t = Inr (col, t)"
| "reencrypt_rows E old new b64 ((i, enc) # items) col t =
     (if enc = [] then reencrypt_rows E old new b64 items col t
      else case (if b64 then b64_decode enc else Some enc) of
        None \<Rightarrow> Inl RE_decode
      | Some ciphertext \<Rightarrow> (case Decrypt (rt_unseal E) old ciphertext of
          None \<Rightarrow> Inl RE_decrypt
        | Some plaintext \<Rightarrow> (case Encrypt (rt_seal E) (rt_Random E t) new plaintext of
            None \<Rightarrow> Inl RE_encrypt
          | Some reencrypted \<Rightarrow>
              if \<not> rt_Exec E t then Inl RE_update
              else reencrypt_rows E old new b64 items
                     (update_row i (if b64 then b64_encode reencrypted else reencrypted) col) (Suc t))))"

definition rows_of :: "enc_column \<Rightarrow> (nat \<times> string) list" where
  "rows_of col = List.map_filter (\<lambda>r. map_option (Pair (fst r)) (snd r)) col"

definition reencryptColumn :: "rotate_env \<Rightarrow> string \<Rightarrow> string \<Rightarrow> bool \<Rightarrow> enc_column \<Rightarrow> nat
    \<Rightarrow> rotate_error + (enc_column \<times> nat \<times> nat)" where
  "reencryptColumn E old new b64 col t =
     (if \<not> rt_Query E t then Inl RE_query
      else case reencrypt_rows E old new b64 (rows_of col) col t of
        Inl e \<Rightarrow> Inl e
      | Inr (col', t') \<Rightarrow> Inr (col', length (rows_of col), t'))"

text \<open>The transaction: the columns in order, with the number of rows counted.\<close>

fun rotate_columns :: "rotate_env \<Rightarrow> string \<Rightarrow> string \<Rightarrow> (secret_column \<times> bool) list \<Rightarrow> secrets_db \<Rightarrow> nat \<Rightarrow> nat
    \<Rightarrow> rotate_error + (secrets_db \<times> nat)" where
  "rotate_columns E old new [] db tot t = Inr (db, tot)"
| "rotate_columns E old new ((c, b64) # cs) db tot t =
     (case reencryptColumn E old new b64 (db c) t of
        Inl e \<Rightarrow> Inl e
      | Inr (col, n, t') \<Rightarrow> rotate_columns E old new cs (db(c := col)) (tot + n) t')"

section \<open>The keys\<close>

definition newKeyPath :: "getenv \<Rightarrow> string" where
  "newKeyPath env =
     (let path = env ''NEW_MASTER_KEY_FILE'' in
      if path \<noteq> [] then path
      else let p = env ''NETBOX_CONDUCTOR_MASTER_KEY_FILE'' @ ''.new'' in
        if p = ''.new'' then ''/etc/netbox-conductor/master.key.new'' else p)"

definition loadOrGenerateNewKey :: "rotate_env \<Rightarrow> key_disk \<Rightarrow> key_error + (string \<times> string \<times> bool)" where
  "loadOrGenerateNewKey E d =
     (let path = newKeyPath (rt_Env E); hexKey = rt_Env E ''NEW_MASTER_KEY'' in
      if hexKey \<noteq> [] then
        (case ParseMasterKey hexKey of Inl e \<Rightarrow> Inl e | Inr k \<Rightarrow> Inr (k, path, False))
      else case d path of
        Content s \<Rightarrow> (case ParseMasterKey s of Inl e \<Rightarrow> Inl e | Inr k \<Rightarrow> Inr (k, path, True))
      | _ \<Rightarrow> (case GenerateMasterKey (rt_KeyRandom E) of Inl e \<Rightarrow> Inl e | Inr k \<Rightarrow> Inr (k, path, False)))"

text \<open>\<open>writeKeyFile\<close>: the disks it leaves behind (after the exclusive creation, after the write) and whether it
  succeeded.  A failed write has stored a part of the text.\<close>

definition writeKeyFile :: "rotate_env \<Rightarrow> string \<Rightarrow> string \<Rightarrow> key_disk \<Rightarrow> key_disk list \<times> bool" where
  "writeKeyFile E path key d =
     (if d path \<noteq> Absent \<or> \<not> rt_Open E then ([], False)
      else ([d(path := Content []), d(path := Content (take (rt_Written E) (key_file_text key)))],
            length (key_file_text key) \<le> rt_Written E \<and> rt_Sync E))"

definition oldKey :: "rotate_env \<Rightarrow> key_disk \<Rightarrow> key_error + string" where
  "oldKey E d = fst (LoadMasterKey (rt_Env E) (rt_KeyRandom E) (\<lambda>_ _ d. (d, False)) False d)"

definition destPath :: "getenv \<Rightarrow> string" where
  "destPath env = (let p = env ''NETBOX_CONDUCTOR_MASTER_KEY_FILE'' in if p = [] then default_key_path else p)"

definition rename_file :: "string \<Rightarrow> string \<Rightarrow> key_disk \<Rightarrow> key_disk" where
  "rename_file p q d = (d(p := Absent))(q := d p)"

section \<open>The tool\<close>

record rotate_world =
  rw_disk :: key_disk
  rw_db :: secrets_db

text \<open>The part of \<open>main\<close> from the connection on.\<close>

definition rotate_database :: "rotate_env \<Rightarrow> bool \<Rightarrow> string \<Rightarrow> string \<Rightarrow> string \<Rightarrow> rotate_world
    \<Rightarrow> rotate_world list \<times> rotate_error option" where
  "rotate_database E inPlace old new path w =
     (if \<not> rt_Connect E then ([], Some RE_connect)
      else if \<not> rt_Begin E then ([], Some RE_begin)
      else case rotate_columns E old new rotated_columns (rw_db w) 0 0 of
        Inl e \<Rightarrow> ([], Some e)
      | Inr (db, tot) \<Rightarrow>
          let w' = w\<lparr>rw_db := db\<rparr> in
          (case rt_Commit E of
             Commit_error applied \<Rightarrow> ([if applied then w' else w], Some RE_commit)
           | Commit_done \<Rightarrow>
               if \<not> inPlace then ([w'], None)
               else if \<not> rt_Rename E then ([w'], Some RE_rename)
               else ([w', w'\<lparr>rw_disk := rename_file path (destPath (rt_Env E)) (rw_disk w')\<rparr>], None)))"

definition rotate_key :: "rotate_env \<Rightarrow> bool \<Rightarrow> rotate_world \<Rightarrow> rotate_world list \<times> rotate_error option" where
  "rotate_key E inPlace w =
     (case oldKey E (rw_disk w) of
        Inl _ \<Rightarrow> ([w], Some RE_old_key)
      | Inr old \<Rightarrow>
     (case loadOrGenerateNewKey E (rw_disk w) of
        Inl _ \<Rightarrow> ([w], Some RE_new_key)
      | Inr (new, path, fromFile) \<Rightarrow>
          let (ds, saved) = (if fromFile then ([], True) else writeKeyFile E path new (rw_disk w));
              ws = w # map (\<lambda>d. w\<lparr>rw_disk := d\<rparr>) ds
          in if \<not> saved then (ws, Some RE_save)
             else let (ws', res) = rotate_database E inPlace old new path (last ws) in (ws @ ws', res)))"

section \<open>What a column means under a key\<close>

definition plain :: "unseal \<Rightarrow> bool \<Rightarrow> string \<Rightarrow> string \<Rightarrow> string option" where
  "plain us b64 k v = (if v = [] then Some []
     else Option.bind (if b64 then b64_decode v else Some v) (Decrypt us k))"

text \<open>The rows of a column, each with what the value decrypts to: \<open>None\<close> for NULL, \<open>Some None\<close> when it cannot be read.\<close>

definition plain_column :: "unseal \<Rightarrow> bool \<Rightarrow> string \<Rightarrow> enc_column \<Rightarrow> (nat \<times> string option option) list" where
  "plain_column us b64 k col = map (\<lambda>r. (fst r, map_option (plain us b64 k) (snd r))) col"

definition is_b64 :: "secret_column \<Rightarrow> bool" where
  "is_b64 c = (c \<noteq> Credentials_password_enc \<and> c \<noteq> Users_totp_secret_enc)"

definition secrets :: "unseal \<Rightarrow> string \<Rightarrow> secrets_db \<Rightarrow> secret_column \<Rightarrow> (nat \<times> string option option) list" where
  "secrets us k db c = plain_column us (is_b64 c) k (db c)"

text \<open>A key the conductor can be started with: it is in a file of the disk or in the environment.\<close>

definition key_available :: "getenv \<Rightarrow> key_disk \<Rightarrow> string \<Rightarrow> bool" where
  "key_available env d k \<longleftrightarrow>
     (\<exists>p s. d p = Content s \<and> ParseMasterKey s = Inr k) \<or> ParseMasterKey (env ''NETBOX_CONDUCTOR_MASTER_KEY'') = Inr k"

definition rotate_laws :: "rotate_env \<Rightarrow> bool" where
  "rotate_laws E \<longleftrightarrow> aead (rt_seal E) (rt_unseal E) \<and> rand_fills (rt_KeyRandom E) \<and> (\<forall>t. rand_fills (rt_Random E t))"

section \<open>Lemmas\<close>

lemma rows_of_simps [simp]:
  "rows_of [] = []"
  "rows_of ((i, None) # col) = rows_of col"
  "rows_of ((i, Some v) # col) = (i, v) # rows_of col"
  by (simp_all add: rows_of_def map_filter_simps)

lemma rows_of_keys: "fst ` set (rows_of col) \<subseteq> fst ` set col"
proof (induction col)
  case (Cons r col)
  then show ?case by (cases r; cases "snd r") auto
qed simp

lemma rows_of_distinct: "distinct (map fst col) \<Longrightarrow> distinct (map fst (rows_of col))"
proof (induction col)
  case (Cons r col)
  then show ?case using rows_of_keys [of col] by (cases r; cases "snd r") auto
qed simp

lemma rows_of_lookup:
  "distinct (map fst col) \<Longrightarrow> (i, v) \<in> set col \<Longrightarrow> map_of (rows_of col) i = v"
proof (induction col)
  case (Cons r col)
  show ?case
  proof (cases "r = (i, v)")
    case True
    moreover have "i \<notin> fst ` set (rows_of col)" using True Cons.prems rows_of_keys [of col] by auto
    ultimately show ?thesis by (cases v) (auto simp: map_of_eq_None_iff)
  next
    case False
    then have "(i, v) \<in> set col" using Cons.prems by auto
    moreover from this have "fst r \<noteq> i" using Cons.prems by (auto simp: rev_image_eqI)
    ultimately show ?thesis using Cons by (cases r; cases "snd r") auto
  qed
qed simp

text \<open>The loop replaces each non-empty value by one that means the same under the new key.\<close>

definition replaced :: "(nat \<times> string) list \<Rightarrow> (nat \<Rightarrow> string) \<Rightarrow> nat \<times> string option \<Rightarrow> nat \<times> string option" where
  "replaced items nv r = (case map_of items (fst r) of
      Some e \<Rightarrow> if e = [] then r else (fst r, Some (nv (fst r)))
    | None \<Rightarrow> r)"

lemma replaced_step:
  assumes "i \<notin> fst ` set items" "e \<noteq> []"
  shows "map (replaced items nv) (update_row i v col) = map (replaced ((i, e) # items) (nv(i := v))) col"
proof -
  have "map_of items i = None" using assms(1) by (simp add: map_of_eq_None_iff)
  with assms(2) show ?thesis by (simp add: update_row_def replaced_def split: option.splits)
qed

lemma replaced_skip:
  assumes "i \<notin> fst ` set items"
  shows "replaced ((i, []) # items) nv = replaced items nv"
proof -
  have "map_of items i = None" using assms by (simp add: map_of_eq_None_iff)
  then show ?thesis by (simp add: fun_eq_iff replaced_def split: option.splits)
qed

lemma reencrypt_rows_spec:
  assumes L: "rotate_laws E" "length new = keySize"
  shows "reencrypt_rows E old new b64 items col t = Inr (col', t') \<Longrightarrow> distinct (map fst items) \<Longrightarrow>
    \<exists>nv. col' = map (replaced items nv) col \<and>
      (\<forall>(i, e) \<in> set items. e \<noteq> [] \<longrightarrow>
         nv i \<noteq> [] \<and> plain (rt_unseal E) b64 new (nv i) = plain (rt_unseal E) b64 old e \<and> plain (rt_unseal E) b64 old e \<noteq> None)"
proof (induction items arbitrary: col t)
  case Nil
  then show ?case by (intro exI [of _ "\<lambda>_. []"]) (simp add: replaced_def)
next
  case (Cons r items)
  obtain i e where r: "r = (i, e)" by (cases r)
  from Cons.prems(2) r have nd: "i \<notin> fst ` set items" "distinct (map fst items)" by auto
  show ?case
  proof (cases "e = []")
    case True
    with Cons r nd show ?thesis by (simp add: replaced_skip)
  next
    case False
    from Cons.prems(1) r False obtain ct p c where steps:
      "(if b64 then b64_decode e else Some e) = Some ct" "Decrypt (rt_unseal E) old ct = Some p"
      "Encrypt (rt_seal E) (rt_Random E t) new p = Some c"
      "reencrypt_rows E old new b64 items (update_row i (if b64 then b64_encode c else c) col) (Suc t) = Inr (col', t')"
      by (auto split: option.splits if_splits)
    let ?v = "if b64 then b64_encode c else c"
    have laws: "aead (rt_seal E) (rt_unseal E)" "rand_fills (rt_Random E t)" using L(1) by (simp_all add: rotate_laws_def)
    note enc = Decrypt_Encrypt [OF laws L(2) steps(3)]
    have v: "?v \<noteq> []" using enc(2) by simp
    have m: "plain (rt_unseal E) b64 new ?v = Some p" "plain (rt_unseal E) b64 old e = Some p"
      using enc v False steps(1,2) by (auto simp: plain_def)
    from Cons.IH [OF steps(4) nd(2)] obtain nv where
      nv: "col' = map (replaced items nv) (update_row i ?v col)"
        "\<forall>(i, e) \<in> set items. e \<noteq> [] \<longrightarrow> nv i \<noteq> [] \<and>
           plain (rt_unseal E) b64 new (nv i) = plain (rt_unseal E) b64 old e \<and> plain (rt_unseal E) b64 old e \<noteq> None" by blast
    have "j \<noteq> i" if "(j, f) \<in> set items" for j f using that nd(1) by (auto simp: rev_image_eqI)
    then have "\<forall>(j, f) \<in> set items. (nv(i := ?v)) j = nv j" by auto
    with nv(2) v m have "\<forall>(j, f) \<in> set ((i, e) # items). f \<noteq> [] \<longrightarrow> (nv(i := ?v)) j \<noteq> [] \<and>
        plain (rt_unseal E) b64 new ((nv(i := ?v)) j) = plain (rt_unseal E) b64 old f \<and> plain (rt_unseal E) b64 old f \<noteq> None"
      by (simp add: case_prod_unfold)
    moreover have "col' = map (replaced ((i, e) # items) (nv(i := ?v))) col"
      unfolding nv(1) by (rule replaced_step [OF nd(1) False])
    ultimately show ?thesis unfolding r by blast
  qed
qed

text \<open>A column that could be rotated means under the new key what it meant under the old one, and all of it is readable.\<close>

lemma reencryptColumn_spec:
  assumes L: "rotate_laws E" "length new = keySize" and d: "distinct (map fst col)"
    and R: "reencryptColumn E old new b64 col t = Inr (col', n, t')"
  shows "plain_column (rt_unseal E) b64 new col' = plain_column (rt_unseal E) b64 old col"
    "(i, Some None) \<notin> set (plain_column (rt_unseal E) b64 new col')"
    "map fst col' = map fst col"
proof -
  from R have "reencrypt_rows E old new b64 (rows_of col) col t = Inr (col', t')"
    by (auto simp: reencryptColumn_def split: if_splits sum.splits)
  from reencrypt_rows_spec [OF L this rows_of_distinct [OF d]] obtain nv where
    col': "col' = map (replaced (rows_of col) nv) col" and
    nv: "\<And>i e. (i, e) \<in> set (rows_of col) \<Longrightarrow> e \<noteq> [] \<Longrightarrow> nv i \<noteq> [] \<and>
      plain (rt_unseal E) b64 new (nv i) = plain (rt_unseal E) b64 old e \<and> plain (rt_unseal E) b64 old e \<noteq> None" by fastforce
  have row: "fst (replaced (rows_of col) nv r) = fst r \<and>
      map_option (plain (rt_unseal E) b64 new) (snd (replaced (rows_of col) nv r)) = map_option (plain (rt_unseal E) b64 old) (snd r) \<and>
      map_option (plain (rt_unseal E) b64 old) (snd r) \<noteq> Some None" if r: "r \<in> set col" for r
  proof -
    have look: "map_of (rows_of col) (fst r) = snd r" using rows_of_lookup [OF d] r by (cases r) auto
    show ?thesis
    proof (cases "snd r")
      case None
      with look show ?thesis by (simp add: replaced_def)
    next
      case (Some e)
      with look have "(fst r, e) \<in> set (rows_of col)" by (simp add: map_of_SomeD)
      with nv [of "fst r" e] look Some show ?thesis by (cases "e = []") (auto simp: replaced_def plain_def)
    qed
  qed
  then show pc: "plain_column (rt_unseal E) b64 new col' = plain_column (rt_unseal E) b64 old col"
    by (auto simp: plain_column_def col')
  show "(i, Some None) \<notin> set (plain_column (rt_unseal E) b64 new col')"
  proof
    assume "(i, Some None) \<in> set (plain_column (rt_unseal E) b64 new col')"
    then have "(i, Some None) \<in> set (plain_column (rt_unseal E) b64 old col)" by (simp only: pc)
    then obtain r where "r \<in> set col" "Some None = map_option (plain (rt_unseal E) b64 old) (snd r)"
      unfolding plain_column_def by (auto simp del: map_option_eq_Some)
    with row show False by metis
  qed
  show "map fst col' = map fst col" using row by (auto simp: col')
qed

lemma rotate_columns_spec:
  assumes L: "rotate_laws E" "length new = keySize"
  shows "rotate_columns E old new cs db n t = Inr (db', n') \<Longrightarrow> \<forall>c b. (c, b) \<in> set cs \<longrightarrow> b = is_b64 c \<Longrightarrow>
    distinct (map fst cs) \<Longrightarrow> \<forall>c. distinct (map fst (db c)) \<Longrightarrow>
    (if c \<in> fst ` set cs
     then secrets (rt_unseal E) new db' c = secrets (rt_unseal E) old db c \<and> (i, Some None) \<notin> set (secrets (rt_unseal E) new db' c)
     else db' c = db c)"
proof (induction cs arbitrary: db n t)
  case (Cons r cs)
  obtain c0 b where r: "r = (c0, b)" by (cases r)
  from Cons.prems(1) obtain col m t1 where R: "reencryptColumn E old new b (db c0) t = Inr (col, m, t1)"
    and rest: "rotate_columns E old new cs (db(c0 := col)) (n + m) t1 = Inr (db', n')"
    by (auto simp: r split: sum.splits)
  from Cons.prems(2) r have b: "b = is_b64 c0" and b': "\<forall>c b. (c, b) \<in> set cs \<longrightarrow> b = is_b64 c" by auto
  from Cons.prems(3) r have nd: "c0 \<notin> fst ` set cs" "distinct (map fst cs)" by auto
  have d0: "distinct (map fst (db c0))" using Cons.prems(4) by blast
  note spec = reencryptColumn_spec [OF L d0 R]
  have d: "\<forall>c. distinct (map fst ((db(c0 := col)) c))" using Cons.prems(4) spec(3) d0 by simp
  note ih = Cons.IH [OF rest b' nd(2) d]
  show ?case
  proof (cases "c = c0")
    case True
    with ih nd(1) have "db' c0 = col" by simp
    with True spec(1,2) r b show ?thesis by (simp add: secrets_def)
  next
    case False
    then have eq: "(db(c0 := col)) c = db c" "\<And>us k. secrets us k (db(c0 := col)) c = secrets us k db c"
      "(c \<in> fst ` set (r # cs)) = (c \<in> fst ` set cs)"
      by (simp_all add: secrets_def r)
    show ?thesis using ih unfolding eq .
  qed
qed simp

lemma rotated_all:
  "c \<in> fst ` set rotated_columns" "(c, b) \<in> set rotated_columns \<Longrightarrow> b = is_b64 c" "distinct (map fst rotated_columns)"
  by (cases c; simp add: rotated_columns_def) (auto simp: rotated_columns_def is_b64_def)

lemma rotate_all_columns:
  assumes "rotate_laws E" "length new = keySize" "\<forall>c. distinct (map fst (db c))"
    "rotate_columns E old new rotated_columns db 0 0 = Inr (db', n)"
  shows "secrets (rt_unseal E) new db' = secrets (rt_unseal E) old db" "(i, Some None) \<notin> set (secrets (rt_unseal E) new db' c)"
proof -
  have all: "secrets (rt_unseal E) new db' c = secrets (rt_unseal E) old db c \<and> (i, Some None) \<notin> set (secrets (rt_unseal E) new db' c)"
    for c i
    using rotate_columns_spec [OF assms(1,2,4) _ rotated_all(3) assms(3), of c i] rotated_all(1,2) by metis
  show "secrets (rt_unseal E) new db' = secrets (rt_unseal E) old db" using all by blast
  show "(i, Some None) \<notin> set (secrets (rt_unseal E) new db' c)" using all by blast
qed

text \<open>What the new key and the disk are when the database is touched.\<close>

lemma oldKey_available: "oldKey E d = Inr old \<Longrightarrow> key_available (rt_Env E) d old"
  by (auto simp: oldKey_def LoadMasterKey_def loadFromFile_def key_available_def Let_def split: if_splits disk_file.splits)

lemma oldKey_file:
  "oldKey E d = Inr old \<Longrightarrow> (\<exists>s. d (destPath (rt_Env E)) = Content s) \<or> ParseMasterKey (rt_Env E ''NETBOX_CONDUCTOR_MASTER_KEY'') = Inr old"
  by (auto simp: oldKey_def LoadMasterKey_def loadFromFile_def destPath_def Let_def split: if_splits disk_file.splits)

lemma key_available_mono:
  "key_available env d k \<Longrightarrow> (\<And>p s. d p = Content s \<Longrightarrow> d' p = Content s) \<Longrightarrow> key_available env d' k"
  unfolding key_available_def by blast

lemma new_key_length:
  "rotate_laws E \<Longrightarrow> loadOrGenerateNewKey E d = Inr (k, path, fromFile) \<Longrightarrow> length k = keySize"
  by (auto simp: loadOrGenerateNewKey_def GenerateMasterKey_def rotate_laws_def rand_fills_def Let_def
    dest: ParseMasterKey_length split: if_splits sum.splits disk_file.splits option.splits)

lemma new_key_from_file:
  "loadOrGenerateNewKey E d = Inr (k, path, True) \<Longrightarrow> \<exists>s. d path = Content s \<and> ParseMasterKey s = Inr k"
  by (auto simp: loadOrGenerateNewKey_def Let_def split: if_splits sum.splits disk_file.splits)

lemma writeKeyFile_keeps:
  "writeKeyFile E path k d = (ds, ok) \<Longrightarrow> d' \<in> set ds \<Longrightarrow> d p = Content s \<Longrightarrow> d' p = Content s"
  by (auto simp: writeKeyFile_def split: if_splits)

lemma writeKeyFile_done:
  "writeKeyFile E path k d = (ds, True) \<Longrightarrow> ds \<noteq> [] \<and> last ds path = Content (key_file_text k)"
  by (auto simp: writeKeyFile_def split: if_splits)

lemma rename_file_keeps: "d p = Content s \<Longrightarrow> rename_file p q d q = Content s"
  by (simp add: rename_file_def)

text \<open>The stages of the tool: before the connection only the new key file appears.\<close>

lemma rotate_key_stages:
  assumes "rotate_laws E" "oldKey E (rw_disk w) = Inr old"
  obtains ws e where "rotate_key E inPlace w = (ws, Some e)"
      "\<And>w' p s. w' \<in> set ws \<Longrightarrow> rw_db w' = rw_db w \<and> (rw_disk w p = Content s \<longrightarrow> rw_disk w' p = Content s)"
  | ws new path w1 ws' res where "rotate_key E inPlace w = (ws @ ws', res)" "ws \<noteq> []" "last ws = w1"
      "\<And>w' p s. w' \<in> set ws \<Longrightarrow> rw_db w' = rw_db w \<and> (rw_disk w p = Content s \<longrightarrow> rw_disk w' p = Content s)"
      "\<exists>s. rw_disk w1 path = Content s \<and> ParseMasterKey s = Inr new" "length new = keySize"
      "rotate_database E inPlace old new path w1 = (ws', res)"
proof (cases "loadOrGenerateNewKey E (rw_disk w)")
  case (Inl e)
  with assms(2) show ?thesis by (intro that(1) [of "[w]" RE_new_key]) (auto simp: rotate_key_def)
next
  case (Inr k)
  obtain new path fromFile where k: "k = (new, path, fromFile)" by (cases k)
  obtain ds saved where ds: "(if fromFile then ([], True) else writeKeyFile E path new (rw_disk w)) = (ds, saved)"
    by (cases "if fromFile then ([], True) else writeKeyFile E path new (rw_disk w)")
  let ?ws = "w # map (\<lambda>d. w\<lparr>rw_disk := d\<rparr>) ds"
  have len: "length new = keySize" using new_key_length assms(1) Inr k by blast
  have keep: "rw_db w' = rw_db w \<and> (rw_disk w p = Content s \<longrightarrow> rw_disk w' p = Content s)" if "w' \<in> set ?ws" for w' p s
    using that ds writeKeyFile_keeps [of E path new "rw_disk w" ds saved] by (cases fromFile) auto
  show ?thesis
  proof (cases saved)
    case False
    then have run: "rotate_key E inPlace w = (?ws, Some RE_save)"
      using assms(2) Inr k ds by (simp add: rotate_key_def Let_def)
    show ?thesis by (rule that(1) [OF run]) (use keep in blast)
  next
    case True
    obtain ws' res where R: "rotate_database E inPlace old new path (last ?ws) = (ws', res)" by fastforce
    have stored: "\<exists>s. rw_disk (last ?ws) path = Content s \<and> ParseMasterKey s = Inr new"
    proof (cases fromFile)
      case True
      with ds Inr k new_key_from_file show ?thesis by fastforce
    next
      case False
      with ds True writeKeyFile_done [of E path new "rw_disk w" ds] ParseMasterKey_text [OF len]
      show ?thesis by (auto simp: last_map)
    qed
    have run: "rotate_key E inPlace w = (?ws @ ws', res)"
      using assms(2) Inr k ds R True by (simp add: rotate_key_def Let_def)
    show ?thesis by (rule that(2) [OF run _ refl _ stored len R]) (use keep in blast)+
  qed
qed

text \<open>The database part: the rows are the old ones or all re-encrypted, and the new key stays readable.\<close>

lemma rotate_database_worlds:
  assumes L: "rotate_laws E" "length new = keySize" and d: "\<forall>c. distinct (map fst (rw_db w1 c))"
    and R: "rotate_database E inPlace old new path w1 = (ws', res)" and w': "w' \<in> set ws'"
    and stored: "rw_disk w1 path = Content s" "ParseMasterKey s = Inr new"
  shows "w' = w1 \<and> res \<noteq> None \<or>
    (secrets (rt_unseal E) new (rw_db w') = secrets (rt_unseal E) old (rw_db w1) \<and>
      (\<forall>i c. (i, Some None) \<notin> set (secrets (rt_unseal E) new (rw_db w') c)) \<and> (\<exists>r. rw_disk w' r = Content s))"
proof (cases "rotate_columns E old new rotated_columns (rw_db w1) 0 0")
  case (Inl e)
  with R w' show ?thesis by (auto simp: rotate_database_def split: if_splits)
next
  case (Inr r)
  obtain db n where r: "r = (db, n)" by (cases r)
  note spec = rotate_all_columns [OF L d Inr [unfolded r]]
  have "w' = w1 \<and> res \<noteq> None \<or> rw_db w' = db \<and> (\<exists>r. rw_disk w' r = Content s)"
  proof -
    have ex: "(\<exists>r. rw_disk w1 r = Content s) = True" "(\<exists>r. rename_file path q (rw_disk w1) r = Content s) = True" for q
      using stored(1) rename_file_keeps [of "rw_disk w1" path s q] by blast+
    from R w' Inr r show ?thesis
      by (auto simp: rotate_database_def Let_def ex split: if_splits commit_outcome.splits)
  qed
  with spec show ?thesis by auto
qed

lemma rotate_database_done:
  assumes L: "rotate_laws E" "length new = keySize" and d: "\<forall>c. distinct (map fst (rw_db w1 c))"
    and R: "rotate_database E inPlace old new path w1 = (ws', None)"
    and stored: "rw_disk w1 path = Content s" "ParseMasterKey s = Inr new"
  shows "ws' \<noteq> [] \<and> rw_disk (last ws') (if inPlace then destPath (rt_Env E) else path) = Content s"
  using R stored by (auto simp: rotate_database_def Let_def rename_file_def split: if_splits commit_outcome.splits sum.splits)

lemma oldKey_dest:
  assumes "rt_Env E ''NETBOX_CONDUCTOR_MASTER_KEY'' = [] \<or> rt_Env E ''NETBOX_CONDUCTOR_MASTER_KEY_FILE'' \<noteq> []"
    "d (destPath (rt_Env E)) = Content s"
  shows "oldKey E d = ParseMasterKey s"
  using assms by (auto simp: oldKey_def LoadMasterKey_def loadFromFile_def destPath_def Let_def split: if_splits)

end
