(* ===== verification/KeyRotationProps.thy ===== *)
theory KeyRotationProps
  imports KeyRotation
begin

text \<open>
  What the rotation of the master key (\<open>KeyRotation\<close>) guarantees: no crash or failure loses a secret, a rotation that
  reports success leaves every secret readable with the key the conductor starts with, and a value that cannot be
  decrypted stops it before anything changes.
\<close>

section \<open>A concrete rotation\<close>

definition old_key_example :: string where "old_key_example = replicate 32 CHR ''o''"

definition old_value :: "string \<Rightarrow> string" where
  "old_value p = replicate 12 CHR ''y'' @ mark_seal old_key_example (replicate 12 CHR ''y'') p"

definition rotate_example :: rotate_env where
  "rotate_example = \<lparr>rt_Env = (\<lambda>v. if v = ''NETBOX_CONDUCTOR_MASTER_KEY_FILE'' then ''/k'' else []), rt_KeyRandom = zeros,
     rt_Open = True, rt_Written = 65, rt_Sync = True, rt_Connect = True, rt_Begin = True, rt_Query = (\<lambda>_. True),
     rt_Random = (\<lambda>_. zeros), rt_Exec = (\<lambda>_. True), rt_Commit = Commit_done, rt_Rename = True,
     rt_seal = mark_seal, rt_unseal = mark_unseal\<rparr>"

definition world_example :: "string \<Rightarrow> rotate_world" where
  "world_example v = \<lparr>rw_disk = (\<lambda>p. if p = ''/k'' then Content (key_file_text old_key_example) else Absent),
     rw_db = (\<lambda>c. case c of Credentials_password_enc \<Rightarrow> [(1, Some v), (2, None)]
        | Targets_s3_secret_enc \<Rightarrow> [(7, Some (b64_encode (old_value ''s3'')))] | _ \<Rightarrow> [])\<rparr>"

lemma rotate_example_laws: "rotate_laws rotate_example"
  by (simp add: rotate_laws_def rotate_example_def mark_aead zeros_fill)

lemma world_example_ids: "\<forall>c. distinct (map fst (rw_db (world_example v) c))"
  by (auto simp: world_example_def split: secret_column.splits)

lemma world_example_key: "oldKey rotate_example (rw_disk (world_example v)) = Inr old_key_example"
proof -
  have "length old_key_example = keySize" by (simp add: old_key_example_def keySize_def)
  from ParseMasterKey_text [OF this] show ?thesis
    by (simp add: oldKey_def LoadMasterKey_def loadFromFile_def rotate_example_def world_example_def)
qed

lemma new_key_example: "loadOrGenerateNewKey rotate_example (rw_disk (world_example v)) = Inr (replicate 32 CHR ''z'', ''/k.new'', False)"
  by (simp add: loadOrGenerateNewKey_def rotate_example_def newKeyPath_def world_example_def GenerateMasterKey_def zeros_def keySize_def)

lemma columns_example:
  "case rotate_columns rotate_example old_key_example (replicate 32 CHR ''z'') rotated_columns (rw_db (world_example (old_value ''pw''))) 0 0 of Inr (db, n) \<Rightarrow> n = 2 | _ \<Rightarrow> False"
proof -
  have D: "Decrypt mark_unseal old_key_example (old_value p) = Some p" for p
    by (simp add: Decrypt_def old_value_def mark_seal_def mark_unseal_def nonceSize_def old_key_example_def)
  have N: "old_value p \<noteq> []" for p by (simp add: old_value_def)
  show ?thesis
    by (simp add: rotated_columns_def reencryptColumn_def rotate_example_def world_example_def N D Encrypt_def zeros_def)
qed

lemma columns_junk:
  "rotate_columns rotate_example old_key_example (replicate 32 CHR ''z'') rotated_columns (rw_db (world_example ''junk'')) 0 0 = Inl RE_decrypt"
  by (simp add: rotated_columns_def reencryptColumn_def rotate_example_def world_example_def Decrypt_def nonceSize_def)

lemma rotate_example_run:
  "snd (rotate_key rotate_example True (world_example (old_value ''pw''))) = None"
  "length (fst (rotate_key rotate_example True (world_example (old_value ''pw'')))) = 5"
proof -
  let ?w = "world_example (old_value ''pw'')"
  have "length (key_file_text (replicate 32 CHR ''z'')) = 65" by (simp add: key_file_text_def length_hex_encode)
  then have W: "\<exists>d1 d2. writeKeyFile rotate_example ''/k.new'' (replicate 32 CHR ''z'') (rw_disk ?w) = ([d1, d2], True)"
    by (simp add: writeKeyFile_def rotate_example_def world_example_def)
  obtain db n where C: "rotate_columns rotate_example old_key_example (replicate 32 CHR ''z'') rotated_columns (rw_db ?w) 0 0 = Inr (db, n)"
    using columns_example by (auto split: sum.splits)
  have env: "rt_Connect rotate_example" "rt_Begin rotate_example" "rt_Commit rotate_example = Commit_done" "rt_Rename rotate_example"
    by (simp_all add: rotate_example_def)
  from W show "snd (rotate_key rotate_example True ?w) = None"
    by (auto simp: rotate_key_def world_example_key new_key_example rotate_database_def C env Let_def)
  from W show "length (fst (rotate_key rotate_example True ?w)) = 5"
    by (auto simp: rotate_key_def world_example_key new_key_example rotate_database_def C env Let_def)
qed

section \<open>Properties\<close>

text \<open>C3: At every point of a key rotation, whatever fails, writes partially or has an unknown outcome, the conductor can
  still be started with a key, on disk or in its environment, under which every stored secret reads as before.\<close>

theorem rotation_never_loses_secrets:
  assumes "rotate_laws E" and "\<forall>c. distinct (map fst (rw_db w c))" and "oldKey E (rw_disk w) = Inr old"
    and "w' \<in> set (fst (rotate_key E inPlace w))"
  shows "\<exists>k. key_available (rt_Env E) (rw_disk w') k \<and> secrets (rt_unseal E) k (rw_db w') = secrets (rt_unseal E) old (rw_db w)"
proof -
  have old: "key_available (rt_Env E) (rw_disk w) old" by (rule oldKey_available [OF assms(3)])
  have kept: ?thesis if "rw_db w' = rw_db w" "\<And>p s. rw_disk w p = Content s \<longrightarrow> rw_disk w' p = Content s"
    using key_available_mono [OF old] that by metis
  from assms(1,3) show ?thesis
  proof (cases rule: rotate_key_stages [where inPlace = inPlace])
    case (1 ws e)
    with assms(4) have "w' \<in> set ws" by simp
    with 1(2) kept show ?thesis by blast
  next
    case (2 ws new path w1 ws' res)
    have w1: "rw_db w1 = rw_db w" "\<And>p s. rw_disk w p = Content s \<longrightarrow> rw_disk w1 p = Content s"
      using 2(2,3) 2(4) [of w1] by auto
    from 2(5) obtain s where s: "rw_disk w1 path = Content s" "ParseMasterKey s = Inr new" by blast
    consider "w' \<in> set ws" | "w' \<in> set ws'" using assms(4) 2(1) by auto
    then show ?thesis
    proof cases
      case 1
      with 2(4) kept show ?thesis by blast
    next
      case 2
      have d: "\<forall>c. distinct (map fst (rw_db w1 c))" using assms(2) w1(1) by simp
      from rotate_database_worlds [OF assms(1) \<open>length new = keySize\<close> d \<open>rotate_database E inPlace old new path w1 = (ws', res)\<close> 2 s]
      show ?thesis
      proof (elim disjE conjE exE)
        assume "w' = w1"
        with w1 kept show ?thesis by simp
      next
        fix r assume "secrets (rt_unseal E) new (rw_db w') = secrets (rt_unseal E) old (rw_db w1)" "rw_disk w' r = Content s"
        with s(2) w1(1) show ?thesis unfolding key_available_def by metis
      qed
    qed
  qed
qed

theorem rotation_never_loses_secrets_witness:
  "\<exists>k. key_available (rt_Env rotate_example) (rw_disk (fst (rotate_key rotate_example True (world_example (old_value ''pw''))) ! 3)) k \<and>
    secrets (rt_unseal rotate_example) k (rw_db (fst (rotate_key rotate_example True (world_example (old_value ''pw''))) ! 3)) = secrets (rt_unseal rotate_example) old_key_example (rw_db (world_example (old_value ''pw'')))"
proof -
  have "fst (rotate_key rotate_example True (world_example (old_value ''pw''))) ! 3 \<in> set (fst (rotate_key rotate_example True (world_example (old_value ''pw''))))"
    using rotate_example_run(2) by (intro nth_mem) simp
  then show ?thesis
    using rotation_never_loses_secrets [of rotate_example "world_example (old_value ''pw'')" old_key_example] rotate_example_laws world_example_ids world_example_key
     by metis
qed

text \<open>An in-place rotation that reports success leaves a disk from which the conductor loads a key under which every
  stored secret reads as before the rotation, none of them unreadable.\<close>

theorem rotation_in_place_restarts:
  assumes "rotate_laws E" and "\<forall>c. distinct (map fst (rw_db w c))" and "oldKey E (rw_disk w) = Inr old"
    and "rt_Env E ''NETBOX_CONDUCTOR_MASTER_KEY'' = [] \<or> rt_Env E ''NETBOX_CONDUCTOR_MASTER_KEY_FILE'' \<noteq> []"
    and "rotate_key E True w = (ws, None)"
  shows "\<exists>k. oldKey E (rw_disk (last ws)) = Inr k \<and> secrets (rt_unseal E) k (rw_db (last ws)) = secrets (rt_unseal E) old (rw_db w) \<and>
    (\<forall>c i. (i, Some None) \<notin> set (secrets (rt_unseal E) k (rw_db (last ws)) c))"
  using assms(1,3)
proof (cases rule: rotate_key_stages [where inPlace = True])
  case (1 ws1 e)
  with assms(5) show ?thesis by simp
next
  case (2 ws1 new path w1 ws' res)
  have w1: "rw_db w1 = rw_db w" using 2(2,3) 2(4) [of w1] by auto
  from 2(5) obtain s where s: "rw_disk w1 path = Content s" "ParseMasterKey s = Inr new" by blast
  from 2(1) assms(5) have R: "ws = ws1 @ ws'" "rotate_database E True old new path w1 = (ws', None)" using 2(7) by auto
  have d: "\<forall>c. distinct (map fst (rw_db w1 c))" using assms(2) w1 by simp
  from rotate_database_done [OF assms(1) 2(6) d R(2) s]
  have fin: "ws' \<noteq> []" "rw_disk (last ws') (destPath (rt_Env E)) = Content s" by simp_all
  from rotate_database_worlds [OF assms(1) 2(6) d R(2) last_in_set [OF fin(1)] s]
  have "secrets (rt_unseal E) new (rw_db (last ws')) = secrets (rt_unseal E) old (rw_db w1)"
    "\<forall>i c. (i, Some None) \<notin> set (secrets (rt_unseal E) new (rw_db (last ws')) c)" by blast+
  moreover have "oldKey E (rw_disk (last ws)) = Inr new"
    using oldKey_dest [where d = "rw_disk (last ws')", OF assms(4) fin(2)] fin(1) R(1) s(2) by simp
  ultimately show ?thesis using R(1) fin(1) w1 by auto
qed

theorem rotation_in_place_restarts_witness:
  "\<exists>ws k. rotate_key rotate_example True (world_example (old_value ''pw'')) = (ws, None) \<and> oldKey rotate_example (rw_disk (last ws)) = Inr k \<and>
    secrets (rt_unseal rotate_example) k (rw_db (last ws)) = secrets (rt_unseal rotate_example) old_key_example (rw_db (world_example (old_value ''pw'')))"
proof -
  obtain ws where ws: "rotate_key rotate_example True (world_example (old_value ''pw'')) = (ws, None)"
    using rotate_example_run(1) by (metis prod.collapse)
  have "rt_Env rotate_example ''NETBOX_CONDUCTOR_MASTER_KEY_FILE'' \<noteq> []" by (simp add: rotate_example_def)
  with rotation_in_place_restarts [OF rotate_example_laws world_example_ids world_example_key _ ws] ws
  show ?thesis by blast
qed

text \<open>A stored secret that the current key does not decrypt stops the rotation: it reports an error and the database
  is never changed.\<close>

theorem unreadable_secret_stops_rotation:
  assumes "rotate_laws E" and "\<forall>c. distinct (map fst (rw_db w c))" and "oldKey E (rw_disk w) = Inr old"
    and "(i, Some None) \<in> set (secrets (rt_unseal E) old (rw_db w) c)"
  shows "snd (rotate_key E inPlace w) \<noteq> None \<and> rw_db ` set (fst (rotate_key E inPlace w)) \<subseteq> {rw_db w}"
  using assms(1,3)
proof (cases rule: rotate_key_stages [where inPlace = inPlace])
  case (1 ws e)
  then show ?thesis by auto
next
  case (2 ws new path w1 ws' res)
  have w1: "rw_db w1 = rw_db w" using 2(2,3) 2(4) [of w1] by auto
  from 2(5) obtain s where s: "rw_disk w1 path = Content s" "ParseMasterKey s = Inr new" by blast
  have d: "\<forall>c. distinct (map fst (rw_db w1 c))" using assms(2) w1 by simp
  have "w' = w1 \<and> res \<noteq> None" if "w' \<in> set ws'" for w'
    using rotate_database_worlds [OF assms(1) 2(6) d 2(7) that s] assms(4) w1 by metis
  moreover have "res \<noteq> None \<or> ws' \<noteq> []"
    using rotate_database_done [OF assms(1) 2(6) d _ s, of inPlace old ws'] 2(7) by (cases res) auto
  ultimately have "res \<noteq> None" "\<forall>w' \<in> set ws'. w' = w1" by (metis last_in_set, blast)
  with 2(1,4) w1 show ?thesis by auto
qed

theorem unreadable_secret_stops_rotation_witness:
  "snd (rotate_key rotate_example True (world_example ''junk'')) \<noteq> None \<and>
   rw_db ` set (fst (rotate_key rotate_example True (world_example ''junk''))) \<subseteq> {rw_db (world_example ''junk'')}"
proof -
  have "(1, Some None) \<in> set (secrets (rt_unseal rotate_example) old_key_example (rw_db (world_example ''junk'')) Credentials_password_enc)"
    by (simp add: secrets_def plain_column_def plain_def is_b64_def rotate_example_def world_example_def Decrypt_def nonceSize_def)
  from unreadable_secret_stops_rotation [OF rotate_example_laws world_example_ids world_example_key this]
  show ?thesis .
qed

end
