(* ===== verification/BackupConf.thy ===== *)
theory BackupConf
  imports BackupScheduler RepoHelper Crypto
begin

text \<open>
  Backup storage locations: the rows of \<open>backup_targets\<close> (\<open>internal/server/db/queries/backup.go\<close>), the handlers that
  create, change and list them (\<open>internal/server/api/handlers/backup.go\<close>) and the \<open>pgbackrest.conf\<close> rendered from them
  (\<open>internal/server/configgen/pgbackrest.go\<close>).  \<open>BackupScheduler.backup_target\<close> has the columns the rounds read; a
  location has all of them.
\<close>

section \<open>Rows\<close>

text \<open>The columns of the kinds of storage, nullable; the ones ending in \<open>Enc\<close> hold base64 ciphertext.\<close>

record storage =
  sg_PosixPath :: "string option"
  sg_S3Bucket :: "string option"
  sg_S3Region :: "string option"
  sg_S3Endpoint :: "string option"
  sg_S3KeyIDEnc :: "string option"
  sg_S3SecretEnc :: "string option"
  sg_GCSBucket :: "string option"
  sg_GCSKeyEnc :: "string option"
  sg_AzureAccount :: "string option"
  sg_AzureContainer :: "string option"
  sg_AzureKeyEnc :: "string option"
  sg_SFTPHost :: "string option"
  sg_SFTPPort :: "int option"
  sg_SFTPUser :: "string option"
  sg_SFTPPrivateKeyEnc :: "string option"
  sg_SFTPPath :: "string option"

record location =
  lo_ID :: uuid
  lo_ClusterID :: uuid
  lo_RepoIndex :: int
  lo_Label :: string
  lo_TargetType :: string
  lo_Storage :: storage
  lo_RecoveryDays :: int
  lo_SyncToNodes :: "uuid list"
  lo_PathCheck :: "string gomap"
  lo_CreatedAt :: instant
  lo_UpdatedAt :: instant

definition target_of :: "location \<Rightarrow> backup_target" where
  "target_of l = \<lparr>bt_ID = lo_ID l, bt_ClusterID = lo_ClusterID l, bt_RepoIndex = lo_RepoIndex l, bt_Label = lo_Label l,
     bt_TargetType = lo_TargetType l, bt_PosixPath = sg_PosixPath (lo_Storage l), bt_SyncToNodes = lo_SyncToNodes l\<rparr>"

definition ListLocations :: "location list \<Rightarrow> uuid \<Rightarrow> location list" where
  "ListLocations tbl c = sort_key lo_RepoIndex (filter (\<lambda>l. lo_ClusterID l = c) tbl)"

definition GetLocation :: "location list \<Rightarrow> uuid \<Rightarrow> location option" where
  "GetLocation tbl i = find (\<lambda>l. lo_ID l = i) tbl"

record create_params =
  cp_ClusterID :: uuid
  cp_RepoIndex :: int
  cp_Label :: string
  cp_TargetType :: string
  cp_Storage :: storage
  cp_RecoveryDays :: int
  cp_SyncToNodes :: "uuid list"

text \<open>The table's constraints: the slot and the label are unique in a cluster, the slot is 1 to 4, the type known.\<close>

definition location_allowed :: "location list \<Rightarrow> location \<Rightarrow> bool" where
  "location_allowed tbl l \<longleftrightarrow>
     1 \<le> lo_RepoIndex l \<and> lo_RepoIndex l \<le> 4 \<and>
     lo_TargetType l \<in> {''posix'', ''s3'', ''gcs'', ''azure'', ''sftp''} \<and>
     list_all (\<lambda>r. lo_ID r \<noteq> lo_ID l \<and>
       (lo_ClusterID r = lo_ClusterID l \<longrightarrow> lo_RepoIndex r \<noteq> lo_RepoIndex l \<and> lo_Label r \<noteq> lo_Label l)) tbl"

text \<open>\<open>new_id\<close> is the default the database draws; \<open>None\<close> is a violated constraint.\<close>

definition CreateLocation :: "instant \<Rightarrow> uuid \<Rightarrow> create_params \<Rightarrow> location list \<Rightarrow> (location \<times> location list) option" where
  "CreateLocation now new_id p tbl =
     (let l = \<lparr>lo_ID = new_id, lo_ClusterID = cp_ClusterID p, lo_RepoIndex = cp_RepoIndex p, lo_Label = cp_Label p,
            lo_TargetType = cp_TargetType p, lo_Storage = cp_Storage p, lo_RecoveryDays = cp_RecoveryDays p,
            lo_SyncToNodes = cp_SyncToNodes p, lo_PathCheck = [], lo_CreatedAt = now, lo_UpdatedAt = now\<rparr>
      in if location_allowed tbl l then Some (l, tbl @ [l]) else None)"

record update_params =
  up_ID :: uuid
  up_Label :: string
  up_Storage :: storage
  up_RecoveryDays :: int
  up_SyncToNodes :: "uuid list"

definition update_location :: "instant \<Rightarrow> update_params \<Rightarrow> location \<Rightarrow> location" where
  "update_location now p l = l\<lparr>lo_Label := up_Label p,
     lo_PathCheck := (if sg_PosixPath (lo_Storage l) \<noteq> sg_PosixPath (up_Storage p) then [] else lo_PathCheck l),
     lo_Storage := up_Storage p, lo_RecoveryDays := up_RecoveryDays p, lo_SyncToNodes := up_SyncToNodes p,
     lo_UpdatedAt := now\<rparr>"

definition UpdateLocation :: "instant \<Rightarrow> update_params \<Rightarrow> location list \<Rightarrow> (location \<times> location list) option" where
  "UpdateLocation now p tbl = (case GetLocation tbl (up_ID p) of
      None \<Rightarrow> None
    | Some l \<Rightarrow> let l' = update_location now p l in
        if list_ex (\<lambda>r. lo_ID r \<noteq> lo_ID l \<and> lo_ClusterID r = lo_ClusterID l \<and> lo_Label r = lo_Label l') tbl then None
        else Some (l', map (\<lambda>r. if lo_ID r = up_ID p then update_location now p r else r) tbl))"

definition DeleteLocation :: "uuid \<Rightarrow> location list \<Rightarrow> location list" where
  "DeleteLocation i = filter (\<lambda>l. lo_ID l \<noteq> i)"

definition SetPathCheck :: "uuid \<Rightarrow> string gomap \<Rightarrow> location list \<Rightarrow> location list" where
  "SetPathCheck i results =
     map (\<lambda>l. if lo_ID l = i then l\<lparr>lo_PathCheck := fold (\<lambda>(k, v). AList.update k v) results (lo_PathCheck l)\<rparr> else l)"

section \<open>Requests\<close>

record target_request =
  rq_Label :: string
  rq_TargetType :: string
  rq_SyncToNodes :: "uuid list"
  rq_RecoveryDays :: int
  rq_PosixPath :: string
  rq_S3Bucket :: string
  rq_S3Region :: string
  rq_S3Endpoint :: string
  rq_S3KeyID :: string
  rq_S3Secret :: string
  rq_GCSBucket :: string
  rq_GCSKey :: string
  rq_AzureAccount :: string
  rq_AzureContainer :: string
  rq_AzureKey :: string
  rq_SFTPHost :: string
  rq_SFTPPort :: int
  rq_SFTPUser :: string
  rq_SFTPPrivateKey :: string
  rq_SFTPPath :: string

definition no_storage :: storage where
  "no_storage = \<lparr>sg_PosixPath = None, sg_S3Bucket = None, sg_S3Region = None, sg_S3Endpoint = None, sg_S3KeyIDEnc = None, sg_S3SecretEnc = None, sg_GCSBucket = None, sg_GCSKeyEnc = None, sg_AzureAccount = None, sg_AzureContainer = None, sg_AzureKeyEnc = None, sg_SFTPHost = None, sg_SFTPPort = None, sg_SFTPUser = None, sg_SFTPPrivateKeyEnc = None, sg_SFTPPath = None\<rparr>"

definition strPtr :: "string \<Rightarrow> string option" where
  "strPtr s = (if s = [] then None else Some s)"

definition intPtr :: "int \<Rightarrow> int option" where
  "intPtr n = (if n = 0 then None else Some n)"

text \<open>The encryptor: its cipher, its key, and the \<open>t\<close>-th draw of random bytes.\<close>

record encryptor =
  ec_seal :: seal
  ec_unseal :: unseal
  ec_key :: string
  ec_random :: "nat \<Rightarrow> random"

definition encPtr :: "encryptor \<Rightarrow> string \<Rightarrow> nat \<Rightarrow> (string option \<times> nat) option" where
  "encPtr E s t = (if s = [] then Some (None, t)
     else case Encrypt (ec_seal E) (ec_random E t) (ec_key E) s of
       None \<Rightarrow> None
     | Some raw \<Rightarrow> Some (Some (b64_encode raw), Suc t))"

definition encryptTargetCredentials :: "encryptor \<Rightarrow> target_request \<Rightarrow> nat \<Rightarrow> (storage \<times> nat) option" where
  "encryptTargetCredentials E rq t =
     Option.bind (encPtr E (rq_S3KeyID rq) t) (\<lambda>(keyid, t).
     Option.bind (encPtr E (rq_S3Secret rq) t) (\<lambda>(secret, t).
     Option.bind (encPtr E (rq_GCSKey rq) t) (\<lambda>(gcs, t).
     Option.bind (encPtr E (rq_AzureKey rq) t) (\<lambda>(azure, t).
     Option.bind (encPtr E (rq_SFTPPrivateKey rq) t) (\<lambda>(sftp, t).
       Some (\<lparr>sg_PosixPath = strPtr (rq_PosixPath rq), sg_S3Bucket = strPtr (rq_S3Bucket rq),
              sg_S3Region = strPtr (rq_S3Region rq), sg_S3Endpoint = strPtr (rq_S3Endpoint rq),
              sg_S3KeyIDEnc = keyid, sg_S3SecretEnc = secret,
              sg_GCSBucket = strPtr (rq_GCSBucket rq), sg_GCSKeyEnc = gcs,
              sg_AzureAccount = strPtr (rq_AzureAccount rq), sg_AzureContainer = strPtr (rq_AzureContainer rq),
              sg_AzureKeyEnc = azure, sg_SFTPHost = strPtr (rq_SFTPHost rq), sg_SFTPPort = intPtr (rq_SFTPPort rq),
              sg_SFTPUser = strPtr (rq_SFTPUser rq), sg_SFTPPrivateKeyEnc = sftp, sg_SFTPPath = strPtr (rq_SFTPPath rq)\<rparr>, t))))))"

definition overlay :: "'a option \<Rightarrow> 'a option \<Rightarrow> 'a option" where
  "overlay new old = (if new \<noteq> None then new else old)"

definition overlay_storage :: "storage \<Rightarrow> storage \<Rightarrow> storage" where
  "overlay_storage new old = \<lparr>
    sg_PosixPath = overlay (sg_PosixPath new) (sg_PosixPath old),
    sg_S3Bucket = overlay (sg_S3Bucket new) (sg_S3Bucket old),
    sg_S3Region = overlay (sg_S3Region new) (sg_S3Region old),
    sg_S3Endpoint = overlay (sg_S3Endpoint new) (sg_S3Endpoint old),
    sg_S3KeyIDEnc = overlay (sg_S3KeyIDEnc new) (sg_S3KeyIDEnc old),
    sg_S3SecretEnc = overlay (sg_S3SecretEnc new) (sg_S3SecretEnc old),
    sg_GCSBucket = overlay (sg_GCSBucket new) (sg_GCSBucket old),
    sg_GCSKeyEnc = overlay (sg_GCSKeyEnc new) (sg_GCSKeyEnc old),
    sg_AzureAccount = overlay (sg_AzureAccount new) (sg_AzureAccount old),
    sg_AzureContainer = overlay (sg_AzureContainer new) (sg_AzureContainer old),
    sg_AzureKeyEnc = overlay (sg_AzureKeyEnc new) (sg_AzureKeyEnc old),
    sg_SFTPHost = overlay (sg_SFTPHost new) (sg_SFTPHost old),
    sg_SFTPPort = overlay (sg_SFTPPort new) (sg_SFTPPort old),
    sg_SFTPUser = overlay (sg_SFTPUser new) (sg_SFTPUser old),
    sg_SFTPPrivateKeyEnc = overlay (sg_SFTPPrivateKeyEnc new) (sg_SFTPPrivateKeyEnc old),
    sg_SFTPPath = overlay (sg_SFTPPath new) (sg_SFTPPath old)\<rparr>"

text \<open>A handler's failure: the status and the message.\<close>

type_synonym http_error = "int \<times> string"

text \<open>\<open>body\<close> is the parsed request body, \<open>None\<close> when it does not bind.\<close>

definition bindCreateTarget :: "encryptor \<Rightarrow> target_request option \<Rightarrow> uuid \<Rightarrow> nat \<Rightarrow> http_error + create_params" where
  "bindCreateTarget E body clusterID t = (case body of
      None \<Rightarrow> Inl (400, ''label and target_type are required'')
    | Some rq \<Rightarrow>
        if rq_Label rq = [] \<or> rq_TargetType rq = [] then Inl (400, ''label and target_type are required'')
        else (case encryptTargetCredentials E rq t of
            None \<Rightarrow> Inl (500, ''failed to encrypt credentials'')
          | Some (sg, _) \<Rightarrow> Inr \<lparr>cp_ClusterID = clusterID, cp_RepoIndex = 0, cp_Label = rq_Label rq, cp_TargetType = rq_TargetType rq,
              cp_Storage = sg, cp_RecoveryDays = (if rq_RecoveryDays rq = 0 then 14 else rq_RecoveryDays rq),
              cp_SyncToNodes = rq_SyncToNodes rq\<rparr>))"

definition bindUpdateTarget :: "encryptor \<Rightarrow> target_request option \<Rightarrow> location \<Rightarrow> nat \<Rightarrow> http_error + update_params" where
  "bindUpdateTarget E body existing t = (case body of
      None \<Rightarrow> Inl (400, ''invalid request body'')
    | Some rq \<Rightarrow>
        (case encryptTargetCredentials E rq t of
            None \<Rightarrow> Inl (500, ''failed to encrypt credentials'')
          | Some (sg, _) \<Rightarrow> Inr \<lparr>up_ID = lo_ID existing, up_Label = (if rq_Label rq = [] then lo_Label existing else rq_Label rq),
              up_Storage = overlay_storage sg (lo_Storage existing),
              up_RecoveryDays = (if rq_RecoveryDays rq = 0 then lo_RecoveryDays existing else rq_RecoveryDays rq),
              up_SyncToNodes = rq_SyncToNodes rq\<rparr>))"

section \<open>Handlers\<close>

text \<open>What a handler starts or emits besides its answer: the path test of \<open>testPathInBackground\<close>, an event.\<close>

datatype location_effect = TestPathInBackground location | EmitEvent event

definition testPathInBackground :: "location \<Rightarrow> location_effect list" where
  "testPathInBackground l = (if lo_TargetType l \<noteq> ''posix'' then [] else [TestPathInBackground l])"

text \<open>
  What a request sees: whether its identifiers parse and the database's queries succeed, the clock, the identifier
  drawn, and the actor of its events.
\<close>

record location_env =
  le_ClusterID :: "uuid option"
  le_TargetID :: "uuid option"
  le_Body :: "target_request option"
  le_Now :: instant
  le_NewID :: uuid
  le_IndexQuery :: bool
  le_Write :: bool
  le_Emitter :: bool
  le_Actor :: string
  le_Tick :: nat

definition NextIndex :: "location list \<Rightarrow> uuid \<Rightarrow> int" where
  "NextIndex tbl c = NextRepoIndex (map target_of tbl) c"

definition CreateBackupTarget :: "encryptor \<Rightarrow> location_env \<Rightarrow> location list
    \<Rightarrow> (http_error + location) \<times> location_effect list \<times> location list" where
  "CreateBackupTarget E env tbl = (case le_ClusterID env of
      None \<Rightarrow> (Inl (400, ''invalid cluster id''), [], tbl)
    | Some c \<Rightarrow> (case bindCreateTarget E (le_Body env) c (le_Tick env) of
        Inl e \<Rightarrow> (Inl e, [], tbl)
      | Inr p \<Rightarrow>
          if \<not> le_IndexQuery env \<or> NextIndex tbl c = 0
          then (Inl (409, ''maximum of 4 storage locations already configured''), [], tbl)
          else (case (if le_Write env then CreateLocation (le_Now env) (le_NewID env) (p\<lparr>cp_RepoIndex := NextIndex tbl c\<rparr>) tbl else None) of
              None \<Rightarrow> (Inl (500, ''failed to create backup target''), [], tbl)
            | Some (l, tbl') \<Rightarrow>
                (Inr l, testPathInBackground l @
                  (if le_Emitter env then [EmitEvent (Cluster c (New_event ''config'' ''info'' ''NBC-CFG-003''
                      (''Backup storage location added: '' @ lo_Label l) (le_Actor env)))] else []), tbl'))))"

definition UpdateBackupTarget :: "encryptor \<Rightarrow> location_env \<Rightarrow> location list
    \<Rightarrow> (http_error + location) \<times> location_effect list \<times> location list" where
  "UpdateBackupTarget E env tbl = (case le_ClusterID env of
      None \<Rightarrow> (Inl (400, ''invalid cluster id''), [], tbl)
    | Some c \<Rightarrow> (case le_TargetID env of
        None \<Rightarrow> (Inl (400, ''invalid target id''), [], tbl)
      | Some i \<Rightarrow> (case (if le_IndexQuery env then GetLocation tbl i else None) of
          None \<Rightarrow> (Inl (404, ''backup target not found''), [], tbl)
        | Some existing \<Rightarrow>
            if lo_ClusterID existing \<noteq> c then (Inl (404, ''backup target not found''), [], tbl)
            else (case bindUpdateTarget E (le_Body env) existing (le_Tick env) of
                Inl e \<Rightarrow> (Inl e, [], tbl)
              | Inr p \<Rightarrow> (case (if le_Write env then UpdateLocation (le_Now env) p tbl else None) of
                    None \<Rightarrow> (Inl (500, ''failed to update backup target''), [], tbl)
                  | Some (l, tbl') \<Rightarrow> (Inr l, testPathInBackground l, tbl'))))))"

section \<open>What a response shows\<close>

definition strVal :: "string option \<Rightarrow> string" where
  "strVal s = (case s of None \<Rightarrow> [] | Some v \<Rightarrow> v)"

definition intVal :: "int option \<Rightarrow> int" where
  "intVal s = (case s of None \<Rightarrow> 0 | Some v \<Rightarrow> v)"

text \<open>\<open>uuid_text\<close> and \<open>rfc3339\<close> format identifiers and times; an object is a list of its members.\<close>

definition serializeTarget :: "(uuid \<Rightarrow> string) \<Rightarrow> (instant \<Rightarrow> string) \<Rightarrow> location \<Rightarrow> json" where
  "serializeTarget uuid_text rfc3339 l = (let sg = lo_Storage l in
     JObj ([(''id'', JStr (uuid_text (lo_ID l))), (''cluster_id'', JStr (uuid_text (lo_ClusterID l))),
            (''repo_index'', JNum (lo_RepoIndex l)), (''label'', JStr (lo_Label l)), (''target_type'', JStr (lo_TargetType l)),
            (''recovery_days'', JNum (lo_RecoveryDays l)), (''sync_to_nodes'', JArr (map (JStr \<circ> uuid_text) (lo_SyncToNodes l))),
            (''path_check'', JObj (map (\<lambda>(k, v). (k, JStr v)) (lo_PathCheck l))),
            (''created_at'', JStr (rfc3339 (lo_CreatedAt l))), (''updated_at'', JStr (rfc3339 (lo_UpdatedAt l)))] @
       (if lo_TargetType l = ''posix'' then [(''posix_path'', JStr (strVal (sg_PosixPath sg)))]
        else if lo_TargetType l = ''s3'' then
          [(''s3_bucket'', JStr (strVal (sg_S3Bucket sg))), (''s3_region'', JStr (strVal (sg_S3Region sg))),
           (''s3_endpoint'', JStr (strVal (sg_S3Endpoint sg))), (''s3_key_id_set'', JBool (sg_S3KeyIDEnc sg \<noteq> None)),
           (''s3_secret_set'', JBool (sg_S3SecretEnc sg \<noteq> None))]
        else if lo_TargetType l = ''gcs'' then
          [(''gcs_bucket'', JStr (strVal (sg_GCSBucket sg))), (''gcs_key_set'', JBool (sg_GCSKeyEnc sg \<noteq> None))]
        else if lo_TargetType l = ''azure'' then
          [(''azure_account'', JStr (strVal (sg_AzureAccount sg))), (''azure_container'', JStr (strVal (sg_AzureContainer sg))),
           (''azure_key_set'', JBool (sg_AzureKeyEnc sg \<noteq> None))]
        else if lo_TargetType l = ''sftp'' then
          [(''sftp_host'', JStr (strVal (sg_SFTPHost sg))), (''sftp_port'', JNum (intVal (sg_SFTPPort sg))),
           (''sftp_user'', JStr (strVal (sg_SFTPUser sg))), (''sftp_path'', JStr (strVal (sg_SFTPPath sg))),
           (''sftp_private_key_set'', JBool (sg_SFTPPrivateKeyEnc sg \<noteq> None))]
        else [])))"

definition serializeTargets :: "(uuid \<Rightarrow> string) \<Rightarrow> (instant \<Rightarrow> string) \<Rightarrow> location list \<Rightarrow> json" where
  "serializeTargets uuid_text rfc3339 ls = JArr (map (serializeTarget uuid_text rfc3339) ls)"

section \<open>Rendering \<open>pgbackrest.conf\<close>\<close>

record repo_conf =
  rc_Index :: int
  rc_RepoType :: string
  rc_PosixPath :: string
  rc_S3Bucket :: string
  rc_S3Region :: string
  rc_S3Endpoint :: string
  rc_S3KeyID :: string
  rc_S3Secret :: string
  rc_GCSBucket :: string
  rc_GCSKey :: string
  rc_AzureAccount :: string
  rc_AzureContainer :: string
  rc_AzureKey :: string
  rc_SFTPHost :: string
  rc_SFTPPort :: int
  rc_SFTPUser :: string
  rc_SFTPPrivateKey :: string
  rc_SFTPPath :: string
  rc_RetentionDays :: int

definition repoPrefix :: "int \<Rightarrow> string" where
  "repoPrefix i = ''repo'' @ itoa i"

definition repo_defaults :: "repo_conf \<Rightarrow> repo_conf" where
  "repo_defaults r = r\<lparr>rc_RetentionDays := (if rc_RetentionDays r = 0 then 14 else rc_RetentionDays r),
     rc_SFTPPort := (if rc_RepoType r = ''sftp'' \<and> rc_SFTPPort r = 0 then 22 else rc_SFTPPort r)\<rparr>"

text \<open>The keys and values the template writes for a repo, in order.\<close>

definition repo_options :: "repo_conf \<Rightarrow> (string \<times> string) list" where
  "repo_options r =
     [(''type'', rc_RepoType r)] @
     (if rc_RepoType r = ''posix'' then [(''path'', rc_PosixPath r)] else []) @
     (if rc_RepoType r = ''s3'' then
        [(''s3-bucket'', rc_S3Bucket r), (''s3-region'', rc_S3Region r)] @
        (if rc_S3Endpoint r \<noteq> [] then [(''s3-endpoint'', rc_S3Endpoint r)] else []) @
        [(''s3-key'', rc_S3KeyID r), (''s3-key-secret'', rc_S3Secret r)] else []) @
     (if rc_RepoType r = ''gcs'' then [(''gcs-bucket'', rc_GCSBucket r), (''gcs-key'', rc_GCSKey r)] else []) @
     (if rc_RepoType r = ''azure'' then
        [(''azure-account'', rc_AzureAccount r), (''azure-container'', rc_AzureContainer r), (''azure-key'', rc_AzureKey r)] else []) @
     (if rc_RepoType r = ''sftp'' then
        [(''sftp-host'', rc_SFTPHost r), (''sftp-port'', itoa (rc_SFTPPort r)), (''sftp-user'', rc_SFTPUser r),
         (''sftp-private-key-file'', ''/etc/pgbackrest/repo'' @ itoa (rc_Index r) @ ''-sftp.key''), (''path'', rc_SFTPPath r)] else []) @
     [(''retention-full-type'', ''time''), (''retention-full'', itoa (rc_RetentionDays r))]"

definition option_line :: "repo_conf \<Rightarrow> string \<times> string \<Rightarrow> string" where
  "option_line r o' = repoPrefix (rc_Index r) @ ''-'' @ fst o' @ ''='' @ snd o'"

definition repo_lines :: "repo_conf \<Rightarrow> string list" where
  "repo_lines r = map (option_line r) (repo_options r) @ [[]]"

text \<open>The lines of the rendered file; an empty line follows each repo.  The dash of the header is UTF-8.\<close>

definition header_line :: string where
  "header_line = ''# Generated by netbox-conductor '' @ [CHR 0xE2, CHR 0x80, CHR 0x94] @ '' do not edit manually.''"

definition render_lines :: "string \<Rightarrow> string \<Rightarrow> repo_conf list \<Rightarrow> string list" where
  "render_lines stanza dataDir rs =
     [header_line, ''[global]''] @ concat (map repo_lines rs) @ [''['' @ stanza @ '']'', ''pg1-path='' @ dataDir, []]"

definition RenderPGBackRest :: "string \<Rightarrow> string \<Rightarrow> repo_conf list \<Rightarrow> string" where
  "RenderPGBackRest stanza dataDir rs =
     join [CHR 0x0A] (render_lines stanza (if dataDir = [] then ''/var/lib/postgresql/17/main'' else dataDir) (map repo_defaults rs))"

definition decryptField :: "encryptor \<Rightarrow> string option \<Rightarrow> string" where
  "decryptField E v = (case v of
      None \<Rightarrow> []
    | Some b \<Rightarrow> (case b64_decode b of
        None \<Rightarrow> []
      | Some raw \<Rightarrow> (case Decrypt (ec_unseal E) (ec_key E) raw of None \<Rightarrow> [] | Some p \<Rightarrow> p)))"

definition conf_of_location :: "encryptor \<Rightarrow> location \<Rightarrow> repo_conf" where
  "conf_of_location E l = (let ty = lo_TargetType l; sg = lo_Storage l;
       str = (\<lambda>k f. if ty = k then strVal (f sg) else []); dec = (\<lambda>k f. if ty = k then decryptField E (f sg) else []) in
     \<lparr>rc_Index = lo_RepoIndex l, rc_RepoType = ty,
      rc_PosixPath = str ''posix'' sg_PosixPath,
      rc_S3Bucket = str ''s3'' sg_S3Bucket, rc_S3Region = str ''s3'' sg_S3Region, rc_S3Endpoint = str ''s3'' sg_S3Endpoint,
      rc_S3KeyID = dec ''s3'' sg_S3KeyIDEnc, rc_S3Secret = dec ''s3'' sg_S3SecretEnc,
      rc_GCSBucket = str ''gcs'' sg_GCSBucket, rc_GCSKey = dec ''gcs'' sg_GCSKeyEnc,
      rc_AzureAccount = str ''azure'' sg_AzureAccount, rc_AzureContainer = str ''azure'' sg_AzureContainer,
      rc_AzureKey = dec ''azure'' sg_AzureKeyEnc,
      rc_SFTPHost = str ''sftp'' sg_SFTPHost, rc_SFTPPort = (if ty = ''sftp'' then intVal (sg_SFTPPort sg) else 0),
      rc_SFTPUser = str ''sftp'' sg_SFTPUser, rc_SFTPPrivateKey = dec ''sftp'' sg_SFTPPrivateKeyEnc,
      rc_SFTPPath = str ''sftp'' sg_SFTPPath, rc_RetentionDays = lo_RecoveryDays l\<rparr>)"

definition renderPGBackRestConf :: "encryptor \<Rightarrow> string \<Rightarrow> location list \<Rightarrow> string" where
  "renderPGBackRestConf E stanza ls = RenderPGBackRest stanza [] (map (conf_of_location E) ls)"

end
