(* ===== verification/BackupConfProps.thy ===== *)
theory BackupConfProps
  imports BackupConf RepoHelperProps
begin

text \<open>
  What the storage locations of \<open>BackupConf\<close> guarantee: a cluster's slots, the credentials' way from the request to
  \<open>pgbackrest.conf\<close> and not into a response, and that the repo helper reads the rendered file as it was meant.
\<close>

section \<open>The rendered file, line by line\<close>

lemma split_by_plain: "(\<forall>x\<in>set xs. \<not> P x) \<Longrightarrow> split_by P xs = [xs]"
  by (induction xs) auto

lemma split_by_append_plain: "(\<forall>x\<in>set xs. \<not> P x) \<Longrightarrow> P y \<Longrightarrow> split_by P (xs @ y # ys) = xs # split_by P ys"
  by (induction xs) auto

lemma split_on_join:
  assumes "ls \<noteq> []" "\<And>l. l \<in> set ls \<Longrightarrow> c \<notin> set l"
  shows "split_on c (join [c] ls) = ls"
  using assms
proof (induction "[c]" ls rule: join.induct)
  case (2 x)
  then show ?case by (auto simp: split_on_def intro!: split_by_plain)
next
  case (3 x y ys)
  have x: "\<forall>d \<in> set x. \<not> c = d" using 3(3) by auto
  have "split_on c (join [c] (y # ys)) = y # ys" by (rule 3(1)) (use 3(3) in simp_all)
  with split_by_append_plain [OF x refl, of "join [c] (y # ys)"] show ?case by (simp add: split_on_def)
qed simp

lemma index_of_char: "c \<notin> set k \<Longrightarrow> index_of [c] (k @ c # v) = Some (length k)"
  by (induction k) (auto simp: has_prefix_def)

lemma cut_char: "c \<notin> set k \<Longrightarrow> cut (k @ c # v) [c] = (k, v, True)"
  by (simp add: cut_def index_of_char)

lemma trim_space_id: "s \<noteq> [] \<Longrightarrow> \<not> is_space (hd s) \<Longrightarrow> \<not> is_space (last s) \<Longrightarrow> trim_space s = s"
proof -
  assume a: "s \<noteq> []" "\<not> is_space (hd s)" "\<not> is_space (last s)"
  from a(1,2) have d: "dropWhile is_space s = s" by (cases s) auto
  from a(1,3) have "dropWhile is_space (rev s) = rev s" by (cases s rule: rev_cases) auto
  with d show ?thesis by (simp add: trim_space_def)
qed

text \<open>A value the file keeps as it is: without line breaks, not ending in a space.\<close>

definition conf_value :: "string \<Rightarrow> bool" where
  "conf_value v \<longleftrightarrow> CHR 0x0A \<notin> set v \<and> (v = [] \<or> \<not> is_space (last v))"

lemma repoPrefix_simps [simp]:
  "repoPrefix 1 = ''repo1''" "repoPrefix 2 = ''repo2''" "repoPrefix 3 = ''repo3''" "repoPrefix 4 = ''repo4''"
  by code_simp+

lemma slot_cases:
  fixes i :: int assumes "1 \<le> i" "i \<le> 4" obtains "i = 1" | "i = 2" | "i = 3" | "i = 4"
proof -
  from assms have "i = 1 \<or> i = 2 \<or> i = 3 \<or> i = 4" by presburger
  then show ?thesis using that by blast
qed

lemma repoPrefix_values: "1 \<le> i \<Longrightarrow> i \<le> 4 \<Longrightarrow> repoPrefix i \<in> {''repo1'', ''repo2'', ''repo3'', ''repo4''}"
  by (erule (1) slot_cases) simp_all

lemma repoPrefix_inj:
  assumes "1 \<le> i" "i \<le> 4" "1 \<le> j" "j \<le> 4" shows "repoPrefix i = repoPrefix j \<longleftrightarrow> i = j"
  using assms(1,2)
proof (cases rule: slot_cases)
  case 1 with assms(3,4) show ?thesis by (cases rule: slot_cases) simp_all
next
  case 2 with assms(3,4) show ?thesis by (cases rule: slot_cases) simp_all
next
  case 3 with assms(3,4) show ?thesis by (cases rule: slot_cases) simp_all
next
  case 4 with assms(3,4) show ?thesis by (cases rule: slot_cases) simp_all
qed

text \<open>The effect of one option line on what the repo helper has read.\<close>

lemma conf_line_option:
  assumes i: "1 \<le> rc_Index r" "rc_Index r \<le> 4" and k: "CHR ''='' \<notin> set k" and v: "conf_value v"
  shows "conf_line (option_line r (k, v)) tp =
    (case cut_suffix (repoPrefix (rc_Index r) @ ''-'' @ k) ''-type'' of
       Some repo \<Rightarrow> (AList.update repo v (fst tp), snd tp)
     | None \<Rightarrow> (case cut_suffix (repoPrefix (rc_Index r) @ ''-'' @ k) ''-path'' of
         Some repo \<Rightarrow> (fst tp, AList.update repo (Clean v) (snd tp))
       | None \<Rightarrow> tp))"
proof -
  let ?key = "repoPrefix (rc_Index r) @ ''-'' @ k"
  have eq: "option_line r (k, v) = ?key @ CHR ''='' # v" by (simp add: option_line_def)
  have pre: "CHR ''='' \<notin> set ?key" using repoPrefix_values [OF i] k by auto
  have "hd (?key @ CHR ''='' # v) = CHR ''r''" using repoPrefix_values [OF i] by auto
  moreover have "\<not> is_space (last (?key @ CHR ''='' # v))" using v by (auto simp: conf_value_def is_space_def)
  ultimately have "trim_space (option_line r (k, v)) = ?key @ CHR ''='' # v"
    unfolding eq by (intro trim_space_id) (auto simp: is_space_def)
  moreover have "cut (?key @ CHR ''='' # v) ''='' = (?key, v, True)" by (rule cut_char [OF pre])
  ultimately show ?thesis unfolding conf_line_def by (simp only: prod.case)
qed

text \<open>The keys the template can write, and what each changes.\<close>

definition option_keys :: "string list" where
  "option_keys = [''type'', ''path'', ''s3-bucket'', ''s3-region'', ''s3-endpoint'', ''s3-key'', ''s3-key-secret'', ''gcs-bucket'',
     ''gcs-key'', ''azure-account'', ''azure-container'', ''azure-key'', ''sftp-host'', ''sftp-port'', ''sftp-user'',
     ''sftp-private-key-file'', ''retention-full-type'', ''retention-full'']"

definition option_effect :: "string \<Rightarrow> string \<times> string \<Rightarrow> string gomap \<times> string gomap \<Rightarrow> string gomap \<times> string gomap" where
  "option_effect q o' tp =
     (if fst o' = ''type'' then (AList.update q (snd o') (fst tp), snd tp)
      else if fst o' = ''retention-full-type'' then (AList.update (q @ ''-retention-full'') (snd o') (fst tp), snd tp)
      else if fst o' = ''path'' then (fst tp, AList.update q (Clean (snd o')) (snd tp))
      else tp)"

lemma option_key_suffix:
  assumes "q \<in> {''repo1'', ''repo2'', ''repo3'', ''repo4''}" "k \<in> set option_keys"
  shows "CHR ''='' \<notin> set k"
    "cut_suffix (q @ ''-'' @ k) ''-type'' =
       (if k = ''type'' then Some q else if k = ''retention-full-type'' then Some (q @ ''-retention-full'') else None)"
    "cut_suffix (q @ ''-'' @ k) ''-path'' = (if k = ''path'' then Some q else None)"
proof -
  have all: "list_all (\<lambda>k. list_all (\<lambda>q. CHR ''='' \<notin> set k \<and> cut_suffix (q @ ''-'' @ k) ''-type'' =
       (if k = ''type'' then Some q else if k = ''retention-full-type'' then Some (q @ ''-retention-full'') else None) \<and>
       cut_suffix (q @ ''-'' @ k) ''-path'' = (if k = ''path'' then Some q else None))
      [''repo1'', ''repo2'', ''repo3'', ''repo4'']) option_keys"
    by code_simp
  from assms(1) have "q \<in> set [''repo1'', ''repo2'', ''repo3'', ''repo4'']" by simp
  with all assms(2) show "CHR ''='' \<notin> set k"
    "cut_suffix (q @ ''-'' @ k) ''-type'' =
       (if k = ''type'' then Some q else if k = ''retention-full-type'' then Some (q @ ''-retention-full'') else None)"
    "cut_suffix (q @ ''-'' @ k) ''-path'' = (if k = ''path'' then Some q else None)"
    unfolding list_all_iff by blast+
qed

lemma fold_options:
  assumes i: "1 \<le> rc_Index r" "rc_Index r \<le> 4"
  shows "\<forall>(k, v) \<in> set os. k \<in> set option_keys \<and> conf_value v \<Longrightarrow>
    fold conf_line (map (option_line r) os) tp = fold (option_effect (repoPrefix (rc_Index r))) os tp"
proof (induction os arbitrary: tp)
  case (Cons x os)
  obtain k v where x: "x = (k, v)" by (cases x)
  with Cons.prems have kv: "k \<in> set option_keys" "conf_value v" by auto
  note suf = option_key_suffix [OF repoPrefix_values [OF i] kv(1)]
  have "conf_line (option_line r x) tp = option_effect (repoPrefix (rc_Index r)) x tp"
    unfolding x conf_line_option [OF i suf(1) kv(2)] option_effect_def suf(2,3) by (simp split: if_splits)
  with Cons show ?case by simp
qed simp

lemma repo_option_keys: "(k, v) \<in> set (repo_options r) \<Longrightarrow> k \<in> set option_keys"
  by (auto simp: repo_options_def option_keys_def split: if_splits)

definition repo_path :: "repo_conf \<Rightarrow> string option" where
  "repo_path r = (if rc_RepoType r = ''posix'' then Some (rc_PosixPath r)
     else if rc_RepoType r = ''sftp'' then Some (rc_SFTPPath r) else None)"

definition repo_values :: "repo_conf \<Rightarrow> bool" where
  "repo_values r \<longleftrightarrow> (\<forall>(k, v) \<in> set (repo_options r). conf_value v)"

lemma conf_line_empty: "conf_line [] tp = tp"
  by (simp add: conf_line_def trim_space_def cut_def cut_suffix_def has_suffix_def)

lemma fold_repo:
  assumes i: "1 \<le> rc_Index r" "rc_Index r \<le> 4" and v: "repo_values r"
  shows "fold conf_line (repo_lines r) (ty, pa) =
    (AList.update (repoPrefix (rc_Index r) @ ''-retention-full'') ''time'' (AList.update (repoPrefix (rc_Index r)) (rc_RepoType r) ty),
     case repo_path r of None \<Rightarrow> pa | Some p \<Rightarrow> AList.update (repoPrefix (rc_Index r)) (Clean p) pa)"
proof -
  have all: "\<forall>(k, v) \<in> set (repo_options r). k \<in> set option_keys \<and> conf_value v"
    using v repo_option_keys [of _ _ r] by (auto simp: repo_values_def)
  have "fold (option_effect q) (repo_options r) (ty, pa) =
    (AList.update (q @ ''-retention-full'') ''time'' (AList.update q (rc_RepoType r) ty),
     case repo_path r of None \<Rightarrow> pa | Some p \<Rightarrow> AList.update q (Clean p) pa)" for q
    by (simp add: repo_options_def repo_path_def option_effect_def)
  with fold_options [OF i all, of "(ty, pa)"] show ?thesis by (simp add: repo_lines_def conf_line_empty)
qed

text \<open>What has been read after the repos: their types, and the paths of the ones that have one.\<close>

lemma set_update_new: "k \<notin> fst ` set al \<Longrightarrow> set (AList.update k v al) = insert (k, v) (set al)"
  by (induction al) auto

definition repo_key :: "string \<Rightarrow> bool" where
  "repo_key q = (take 4 q = ''repo'')"

definition conf_read :: "repo_conf list \<Rightarrow> string gomap \<times> string gomap \<Rightarrow> bool" where
  "conf_read rs tp \<longleftrightarrow>
     (\<forall>r \<in> set rs. map_of (fst tp) (repoPrefix (rc_Index r)) = Some (rc_RepoType r)) \<and>
     set (snd tp) = {(repoPrefix (rc_Index r), Clean p) |r p. r \<in> set rs \<and> repo_path r = Some p} \<and>
     (\<forall>q. map_of (fst tp) q \<noteq> None \<longrightarrow> repo_key q)"

lemma repoPrefix_key: "1 \<le> i \<Longrightarrow> i \<le> 4 \<Longrightarrow> repo_key (repoPrefix i) \<and> repo_key (repoPrefix i @ x) \<and> length (repoPrefix i) = 5"
  using repoPrefix_values [of i] by (auto simp: repo_key_def)

lemma fold_repos:
  assumes "\<forall>r \<in> set rs. 1 \<le> rc_Index r \<and> rc_Index r \<le> 4 \<and> repo_values r" "distinct (map rc_Index rs)"
  shows "conf_read rs (fold conf_line (concat (map repo_lines rs)) ([], []))"
  using assms
proof (induction rs rule: rev_induct)
  case Nil
  then show ?case by (simp add: conf_read_def)
next
  case (snoc r rs)
  obtain ty pa where tp: "fold conf_line (concat (map repo_lines rs)) ([], []) = (ty, pa)" by fastforce
  have ih: "conf_read rs (ty, pa)" using snoc tp by simp
  have i: "1 \<le> rc_Index r" "rc_Index r \<le> 4" "repo_values r" using snoc.prems(1) by simp_all
  let ?q = "repoPrefix (rc_Index r)"
  have other: "repoPrefix (rc_Index r') \<noteq> ?q" "repoPrefix (rc_Index r') \<noteq> ?q @ ''-retention-full''" if r': "r' \<in> set rs" for r'
  proof -
    have "1 \<le> rc_Index r'" "rc_Index r' \<le> 4" "rc_Index r' \<noteq> rc_Index r" using snoc.prems r' by (auto simp: rev_image_eqI)
    then show "repoPrefix (rc_Index r') \<noteq> ?q" "repoPrefix (rc_Index r') \<noteq> ?q @ ''-retention-full''"
      using repoPrefix_inj [of "rc_Index r'" "rc_Index r"] i repoPrefix_key [of "rc_Index r'"] repoPrefix_key [of "rc_Index r"]
      by (auto dest: arg_cong [where f = length])
  qed
  have new: "?q \<notin> fst ` set pa"
  proof
    assume "?q \<in> fst ` set pa"
    then obtain r' where "r' \<in> set rs" "?q = repoPrefix (rc_Index r')" using ih by (auto simp: conf_read_def)
    with other(1) [of r'] show False by simp
  qed
  have q: "?q \<noteq> ?q @ ''-retention-full''" by simp
  have key: "repo_key ?q" "repo_key (?q @ ''-retention-full'')" using repoPrefix_key [OF i(1,2)] by simp_all
  have run: "fold conf_line (concat (map repo_lines (rs @ [r]))) ([], []) =
      (AList.update (?q @ ''-retention-full'') ''time'' (AList.update ?q (rc_RepoType r) ty),
       case repo_path r of None \<Rightarrow> pa | Some p \<Rightarrow> AList.update ?q (Clean p) pa)"
    using tp fold_repo [OF i] by simp
  show ?case
    unfolding run conf_read_def
  proof (intro conjI ballI allI impI)
    fix r' assume "r' \<in> set (rs @ [r])"
    then show "map_of (fst (AList.update (?q @ ''-retention-full'') ''time'' (AList.update ?q (rc_RepoType r) ty),
       case repo_path r of None \<Rightarrow> pa | Some p \<Rightarrow> AList.update ?q (Clean p) pa)) (repoPrefix (rc_Index r')) = Some (rc_RepoType r')"
      using ih other q by (auto simp: conf_read_def update_conv')
  next
    show "set (snd (AList.update (?q @ ''-retention-full'') ''time'' (AList.update ?q (rc_RepoType r) ty),
       case repo_path r of None \<Rightarrow> pa | Some p \<Rightarrow> AList.update ?q (Clean p) pa)) =
      {(repoPrefix (rc_Index r'), Clean p) |r' p. r' \<in> set (rs @ [r]) \<and> repo_path r' = Some p}"
      using ih new by (cases "repo_path r") (auto simp: conf_read_def set_update_new)
  next
    fix k assume "map_of (fst (AList.update (?q @ ''-retention-full'') ''time'' (AList.update ?q (rc_RepoType r) ty),
       case repo_path r of None \<Rightarrow> pa | Some p \<Rightarrow> AList.update ?q (Clean p) pa)) k \<noteq> None"
    then show "repo_key k" using ih key by (auto simp: conf_read_def update_conv' split: if_splits)
  qed
qed

text \<open>The lines around the repos.\<close>

lemma conf_line_cut:
  "cut (trim_space l) ''='' = (key, v, b) \<Longrightarrow> cut_suffix key ''-type'' = None \<Longrightarrow> cut_suffix key ''-path'' = None \<Longrightarrow> conf_line l tp = tp"
  by (simp add: conf_line_def)

lemma conf_line_header: "conf_line header_line tp = tp" "conf_line ''[global]'' tp = tp"
proof -
  have "case cut (trim_space header_line) ''='' of (k, _, _) \<Rightarrow> cut_suffix k ''-type'' = None \<and> cut_suffix k ''-path'' = None"
    "case cut (trim_space ''[global]'') ''='' of (k, _, _) \<Rightarrow> cut_suffix k ''-type'' = None \<and> cut_suffix k ''-path'' = None"
    by code_simp+
  then show "conf_line header_line tp = tp" "conf_line ''[global]'' tp = tp" by (auto intro: conf_line_cut)
qed

lemma conf_line_pg1:
  "conf_line ''pg1-path=/var/lib/postgresql/17/main'' tp = (fst tp, AList.update ''pg1'' (Clean ''/var/lib/postgresql/17/main'') (snd tp))"
proof -
  have "cut (trim_space ''pg1-path=/var/lib/postgresql/17/main'') ''='' = (''pg1-path'', ''/var/lib/postgresql/17/main'', True)"
    "cut_suffix ''pg1-path'' ''-type'' = None" "cut_suffix ''pg1-path'' ''-path'' = Some ''pg1''"
    by code_simp+
  then show ?thesis by (simp add: conf_line_def)
qed

text \<open>The stanza's line changes at most one entry, whose name starts with a bracket.\<close>

lemma conf_line_stanza:
  obtains "conf_line (''['' @ stanza @ '']'') tp = tp"
  | q v where "conf_line (''['' @ stanza @ '']'') tp = (AList.update (CHR ''['' # q) v (fst tp), snd tp)"
  | q v where "conf_line (''['' @ stanza @ '']'') tp = (fst tp, AList.update (CHR ''['' # q) v (snd tp))"
proof -
  let ?l = "''['' @ stanza @ '']''"
  have t: "trim_space ?l = ?l" by (rule trim_space_id) (auto simp: is_space_def)
  obtain key v b where c: "cut ?l ''='' = (key, v, b)" by (cases "cut ?l ''=''")
  then have key: "\<exists>k. key = CHR ''['' # k"
    by (auto simp: cut_def has_prefix_def split: option.splits)
  have head: "\<exists>q'. q = CHR ''['' # q'" if "cut_suffix key suf = Some q" "hd suf = CHR ''-''" "suf \<noteq> []" for q suf
    using key cut_suffix_Some [OF that(1)] that(2,3) by (cases q; cases suf) auto
  show ?thesis
  proof (cases "cut_suffix key ''-type''")
    case (Some q)
    with head [of "''-type''" q] obtain q' where "q = CHR ''['' # q'" by auto
    with Some t c show ?thesis by (intro that(2) [of q' v]) (simp add: conf_line_def)
  next
    case None
    show ?thesis
    proof (cases "cut_suffix key ''-path''")
      case (Some q)
      with head [of "''-path''" q] obtain q' where "q = CHR ''['' # q'" by auto
      with Some None t c show ?thesis by (intro that(3) [of q' "Clean v"]) (simp add: conf_line_def)
    next
      case no: None
      with None t c show ?thesis by (intro that(1)) (simp add: conf_line_def)
    qed
  qed
qed

lemma conf_check_keys:
  assumes read: "conf_read rs (ty, pa)"
    and ty': "\<And>q. repo_key q \<Longrightarrow> map_of ty' q = map_of ty q" and pa': "\<And>q p. repo_key q \<Longrightarrow> (q, p) \<in> set pa' \<longleftrightarrow> (q, p) \<in> set pa"
    and out: "\<And>q p. (q, p) \<in> set pa' \<Longrightarrow> \<not> repo_key q \<Longrightarrow> map_of ty' q = None"
    and slots: "\<forall>r \<in> set rs. 1 \<le> rc_Index r \<and> rc_Index r \<le> 4"
  shows "list_ex (\<lambda>(repo, p). p = root \<and> map_of ty' repo = Some ''posix'') pa' \<longleftrightarrow>
    (\<exists>r \<in> set rs. rc_RepoType r = ''posix'' \<and> root = Clean (rc_PosixPath r))"
proof
  assume "list_ex (\<lambda>(repo, p). p = root \<and> map_of ty' repo = Some ''posix'') pa'"
  then obtain q where q: "(q, root) \<in> set pa'" "map_of ty' q = Some ''posix''" by (auto simp: list_ex_iff)
  then have k: "repo_key q" using out [of q root] by (cases "repo_key q") auto
  then have "(q, root) \<in> set pa" using pa' q(1) by blast
  then obtain r p where r: "r \<in> set rs" "q = repoPrefix (rc_Index r)" "root = Clean p" "repo_path r = Some p"
    using read by (auto simp: conf_read_def)
  moreover have "rc_RepoType r = ''posix''" using read r(1,2) q(2) ty' [OF k] by (auto simp: conf_read_def)
  ultimately show "\<exists>r \<in> set rs. rc_RepoType r = ''posix'' \<and> root = Clean (rc_PosixPath r)"
    by (auto simp: repo_path_def)
next
  assume "\<exists>r \<in> set rs. rc_RepoType r = ''posix'' \<and> root = Clean (rc_PosixPath r)"
  then obtain r where r: "r \<in> set rs" "rc_RepoType r = ''posix''" "root = Clean (rc_PosixPath r)" by blast
  let ?q = "repoPrefix (rc_Index r)"
  have k: "repo_key ?q" using repoPrefix_key slots r(1) by blast
  have "repo_path r = Some (rc_PosixPath r)" using r(2) by (simp add: repo_path_def)
  then have "(?q, root) \<in> set pa" using read r(1,3) by (auto simp: conf_read_def)
  then have "(?q, root) \<in> set pa'" using pa' [OF k] by blast
  moreover have "map_of ty' ?q = Some ''posix''" using ty' [OF k] read r(1,2) by (auto simp: conf_read_def)
  ultimately show "list_ex (\<lambda>(repo, p). p = root \<and> map_of ty' repo = Some ''posix'') pa'"
    by (auto simp: list_ex_iff)
qed

lemma not_repo_key: "\<not> repo_key (CHR ''['' # q)" "\<not> repo_key ''pg1''"
  by (simp_all add: repo_key_def)

lemma in_update_other: "q \<noteq> k \<Longrightarrow> (q, p) \<in> set (AList.update k v al) \<longleftrightarrow> (q, p) \<in> set al"
  by (induction al) auto

lemma conf_read_paths: "conf_read rs (ty, pa) \<Longrightarrow> \<forall>r \<in> set rs. 1 \<le> rc_Index r \<and> rc_Index r \<le> 4 \<Longrightarrow> (q, p) \<in> set pa \<Longrightarrow> repo_key q"
  using repoPrefix_key by (auto simp: conf_read_def)

text \<open>The whole file.\<close>

lemma render_check:
  assumes slots: "\<forall>r \<in> set rs. 1 \<le> rc_Index r \<and> rc_Index r \<le> 4 \<and> repo_values r" and d: "distinct (map rc_Index rs)"
    and ls: "ls = render_lines stanza ''/var/lib/postgresql/17/main'' rs"
    and f: "fold conf_line ls ([], []) = (ty', pa')"
  shows "list_ex (\<lambda>(repo, p). p = root \<and> map_of ty' repo = Some ''posix'') pa' \<longleftrightarrow>
    (\<exists>r \<in> set rs. rc_RepoType r = ''posix'' \<and> root = Clean (rc_PosixPath r))"
proof -
  obtain ty pa where tp: "fold conf_line (concat (map repo_lines rs)) ([], []) = (ty, pa)" by fastforce
  have read: "conf_read rs (ty, pa)" using fold_repos [OF slots d] tp by simp
  have slots': "\<forall>r \<in> set rs. 1 \<le> rc_Index r \<and> rc_Index r \<le> 4" using slots by simp
  have none: "map_of ty q = None" if "\<not> repo_key q" for q using read that by (auto simp: conf_read_def)
  note keys = conf_read_paths [OF read slots']
  obtain ty1 pa1 where st: "conf_line (''['' @ stanza @ '']'') (ty, pa) = (ty1, pa1)" by fastforce
  have out: "ty' = ty1" "pa' = AList.update ''pg1'' (Clean ''/var/lib/postgresql/17/main'') pa1"
    using f st tp unfolding ls render_lines_def
    by (simp_all add: conf_line_header conf_line_pg1 [simplified] conf_line_empty)
  show ?thesis
  proof (rule conf_check_keys [OF read _ _ _ slots'])
    fix q assume k: "repo_key q"
    then have nq: "q \<noteq> ''pg1''" "\<And>x. q \<noteq> CHR ''['' # x" using not_repo_key by blast+
    show "map_of ty' q = map_of ty q"
      using st nq(2) out(1) by (cases rule: conf_line_stanza [of stanza "(ty, pa)"]) (auto simp: update_conv')
    fix p
    show "(q, p) \<in> set pa' \<longleftrightarrow> (q, p) \<in> set pa"
      using st nq out(2) by (cases rule: conf_line_stanza [of stanza "(ty, pa)"]) (auto simp: in_update_other)
  next
    fix q p assume qp: "(q, p) \<in> set pa'" "\<not> repo_key q"
    show "map_of ty' q = None"
    proof (cases rule: conf_line_stanza [of stanza "(ty, pa)"])
      case 1
      with st out(1) none [OF qp(2)] show ?thesis by simp
    next
      case (2 k v)
      with st have pa1: "pa1 = pa" "ty1 = AList.update (CHR ''['' # k) v ty" by simp_all
      have "q = ''pg1''"
      proof (rule ccontr)
        assume "q \<noteq> ''pg1''"
        from qp(1) have "(q, p) \<in> set pa" unfolding out(2) pa1(1) in_update_other [OF \<open>q \<noteq> ''pg1''\<close>] .
        from keys [OF this] qp(2) show False by simp
      qed
      then have "q \<noteq> CHR ''['' # k" by simp
      with none [OF qp(2)] show ?thesis unfolding out(1) pa1(2) by (simp add: update_conv')
    next
      case (3 k v)
      with st out(1) none [OF qp(2)] show ?thesis by simp
    qed
  qed
qed

lemma option_line_plain:
  assumes "1 \<le> rc_Index r" "rc_Index r \<le> 4" "(k, v) \<in> set (repo_options r)" "conf_value v"
  shows "CHR 0x0A \<notin> set (option_line r (k, v))"
proof -
  have "list_all (\<lambda>k. CHR 0x0A \<notin> set k) option_keys" by code_simp
  then have "CHR 0x0A \<notin> set k" using repo_option_keys [OF assms(3)] by (simp add: list_all_iff)
  moreover have "CHR 0x0A \<notin> set (repoPrefix (rc_Index r))" using repoPrefix_values [OF assms(1,2)] by auto
  ultimately show ?thesis using assms(4) by (simp add: option_line_def conf_value_def)
qed

lemma render_lines_plain:
  assumes "\<forall>r \<in> set rs. 1 \<le> rc_Index r \<and> rc_Index r \<le> 4 \<and> repo_values r" "CHR 0x0A \<notin> set stanza"
    and "l \<in> set (render_lines stanza ''/var/lib/postgresql/17/main'' rs)"
  shows "CHR 0x0A \<notin> set l"
proof -
  have "CHR 0x0A \<notin> set l" if "r \<in> set rs" "l \<in> set (repo_lines r)" for r
  proof -
    from that(1) assms(1) have i: "1 \<le> rc_Index r" "rc_Index r \<le> 4" and v: "\<And>k v. (k, v) \<in> set (repo_options r) \<Longrightarrow> conf_value v"
      by (auto simp: repo_values_def)
    from that(2) consider "l = []" | k v where "(k, v) \<in> set (repo_options r)" "l = option_line r (k, v)"
      by (auto simp: repo_lines_def)
    then show ?thesis using option_line_plain [OF i] v by cases auto
  qed
  with assms(2,3) show ?thesis by (auto simp: render_lines_def header_line_def)
qed

lemma conf_of_location_fields:
  "rc_Index (repo_defaults (conf_of_location E l)) = lo_RepoIndex l"
  "rc_RepoType (repo_defaults (conf_of_location E l)) = lo_TargetType l"
  "lo_TargetType l = ''posix'' \<Longrightarrow> rc_PosixPath (repo_defaults (conf_of_location E l)) = strVal (sg_PosixPath (lo_Storage l))"
  by (simp_all add: repo_defaults_def conf_of_location_def Let_def)

definition encryptor_laws :: "encryptor \<Rightarrow> bool" where
  "encryptor_laws E \<longleftrightarrow> aead (ec_seal E) (ec_unseal E) \<and> (\<forall>t. rand_fills (ec_random E t)) \<and> length (ec_key E) = keySize"

section \<open>Examples\<close>

definition enc_example :: encryptor where
  "enc_example = \<lparr>ec_seal = mark_seal, ec_unseal = mark_unseal, ec_key = replicate 32 CHR ''k'', ec_random = (\<lambda>_. zeros)\<rparr>"

lemma enc_example_laws: "encryptor_laws enc_example"
  by (simp add: encryptor_laws_def enc_example_def mark_aead zeros_fill keySize_def)

definition request_example :: target_request where
  "request_example = \<lparr>rq_Label = ''offsite'', rq_TargetType = ''s3'', rq_SyncToNodes = [], rq_RecoveryDays = 0, rq_PosixPath = [],
     rq_S3Bucket = ''bk'', rq_S3Region = ''eu'', rq_S3Endpoint = [], rq_S3KeyID = ''id'', rq_S3Secret = ''pw'',
     rq_GCSBucket = [], rq_GCSKey = [], rq_AzureAccount = [], rq_AzureContainer = [], rq_AzureKey = [],
     rq_SFTPHost = [], rq_SFTPPort = 0, rq_SFTPUser = [], rq_SFTPPrivateKey = [], rq_SFTPPath = []\<rparr>"

definition location_example :: location where
  "location_example = \<lparr>lo_ID = 1, lo_ClusterID = 5, lo_RepoIndex = 1, lo_Label = ''disk'', lo_TargetType = ''posix'',
     lo_Storage = no_storage\<lparr>sg_PosixPath := Some ''/var/backups''\<rparr>, lo_RecoveryDays = 7, lo_SyncToNodes = [], lo_PathCheck = [],
     lo_CreatedAt = 0, lo_UpdatedAt = 0\<rparr>"

definition env_example :: location_env where
  "env_example = \<lparr>le_ClusterID = Some 5, le_TargetID = Some 1, le_Body = Some request_example, le_Now = 9, le_NewID = 2,
     le_IndexQuery = True, le_Write = True, le_Emitter = False, le_Actor = ''admin'', le_Tick = 0\<rparr>"

lemmas example_defs = enc_example_def request_example_def location_example_def env_example_def no_storage_def

section \<open>Properties\<close>

text \<open>
  C11: the file rendered for a cluster's locations (whose values have no line breaks and no space at the end) makes the
  repo helper of a node accept a folder exactly when it is the path of one of the local-disk locations.
\<close>

theorem rendered_conf_names_local_roots:
  assumes d: "distinct (map lo_RepoIndex ls)" and stanza: "CHR 0x0A \<notin> set stanza"
    and slots: "\<forall>l \<in> set ls. 1 \<le> lo_RepoIndex l \<and> lo_RepoIndex l \<le> 4 \<and> repo_values (repo_defaults (conf_of_location E l))"
  shows "checkRepoRoot (Inr (renderPGBackRestConf E stanza ls)) root = None \<longleftrightarrow>
    (\<exists>l \<in> set ls. lo_TargetType l = ''posix'' \<and> root = Clean (strVal (sg_PosixPath (lo_Storage l))))"
proof -
  let ?rs = "map repo_defaults (map (conf_of_location E) ls)"
  have slots': "\<forall>r \<in> set ?rs. 1 \<le> rc_Index r \<and> rc_Index r \<le> 4 \<and> repo_values r"
    using slots by (simp add: conf_of_location_fields)
  have "map rc_Index ?rs = map lo_RepoIndex ls" by (simp add: conf_of_location_fields)
  with d have d': "distinct (map rc_Index ?rs)" by (simp only:)
  let ?ls = "render_lines stanza ''/var/lib/postgresql/17/main'' ?rs"
  have "split_on CHR 0x0A (join [CHR 0x0A] ?ls) = ?ls"
    by (rule split_on_join) (use render_lines_plain [OF slots' stanza] in \<open>auto simp: render_lines_def\<close>)
  then have lines: "split_on CHR 0x0A (renderPGBackRestConf E stanza ls) = ?ls"
    by (simp add: renderPGBackRestConf_def RenderPGBackRest_def)
  obtain ty pa where f: "fold conf_line ?ls ([], []) = (ty, pa)" by fastforce
  have "(\<exists>r \<in> set ?rs. rc_RepoType r = ''posix'' \<and> root = Clean (rc_PosixPath r)) \<longleftrightarrow>
      (\<exists>l \<in> set ls. lo_TargetType l = ''posix'' \<and> root = Clean (strVal (sg_PosixPath (lo_Storage l))))"
    by (auto simp: conf_of_location_fields)
  with render_check [OF slots' d' refl f, of root] show ?thesis
    by (simp add: checkRepoRoot_def lines f del: map_map)
qed

theorem rendered_conf_names_local_roots_witness:
  "checkRepoRoot (Inr (renderPGBackRestConf enc_example ''nb'' [location_example])) ''/var/backups'' = None"
proof -
  have v: "repo_values (repo_defaults (conf_of_location enc_example location_example))"
    by code_simp
  have c: "Clean ''/var/backups'' = ''/var/backups''" by code_simp
  have "checkRepoRoot (Inr (renderPGBackRestConf enc_example ''nb'' [location_example])) ''/var/backups'' = None \<longleftrightarrow>
    (\<exists>l \<in> set [location_example]. lo_TargetType l = ''posix'' \<and> ''/var/backups'' = Clean (strVal (sg_PosixPath (lo_Storage l))))"
    by (rule rendered_conf_names_local_roots) (use v in \<open>simp_all add: location_example_def\<close>)
  with c show ?thesis by (simp add: location_example_def no_storage_def strVal_def)
qed

section \<open>Credentials\<close>

lemma encPtr_decrypts:
  assumes "encryptor_laws E" "encPtr E s t = Some (v, t')"
  shows "decryptField E v = s" "v = None \<longleftrightarrow> s = []"
proof -
  have L: "aead (ec_seal E) (ec_unseal E)" "rand_fills (ec_random E t)" "length (ec_key E) = keySize"
    using assms(1) by (simp_all add: encryptor_laws_def)
  show "decryptField E v = s" "v = None \<longleftrightarrow> s = []"
    using assms(2) Decrypt_Encrypt(1) [OF L] by (auto simp: encPtr_def decryptField_def split: if_splits option.splits)
qed

lemma strPtr_val [simp]: "strVal (strPtr s) = s" "strPtr s = None \<longleftrightarrow> s = []"
  by (auto simp: strVal_def strPtr_def)

lemma intPtr_val [simp]: "intVal (intPtr n) = n" "intPtr n = None \<longleftrightarrow> n = 0"
  by (auto simp: intVal_def intPtr_def)

text \<open>What a stored row of columns means: every column, the encrypted ones decrypted.\<close>

definition storage_means :: "encryptor \<Rightarrow> storage \<Rightarrow> target_request \<Rightarrow> bool" where
  "storage_means E sg rq \<longleftrightarrow>
     strVal (sg_PosixPath sg) = rq_PosixPath rq \<and> strVal (sg_S3Bucket sg) = rq_S3Bucket rq \<and>
     strVal (sg_S3Region sg) = rq_S3Region rq \<and> strVal (sg_S3Endpoint sg) = rq_S3Endpoint rq \<and>
     decryptField E (sg_S3KeyIDEnc sg) = rq_S3KeyID rq \<and> decryptField E (sg_S3SecretEnc sg) = rq_S3Secret rq \<and>
     strVal (sg_GCSBucket sg) = rq_GCSBucket rq \<and> decryptField E (sg_GCSKeyEnc sg) = rq_GCSKey rq \<and>
     strVal (sg_AzureAccount sg) = rq_AzureAccount rq \<and> strVal (sg_AzureContainer sg) = rq_AzureContainer rq \<and>
     decryptField E (sg_AzureKeyEnc sg) = rq_AzureKey rq \<and> strVal (sg_SFTPHost sg) = rq_SFTPHost rq \<and>
     intVal (sg_SFTPPort sg) = rq_SFTPPort rq \<and> strVal (sg_SFTPUser sg) = rq_SFTPUser rq \<and>
     decryptField E (sg_SFTPPrivateKeyEnc sg) = rq_SFTPPrivateKey rq \<and> strVal (sg_SFTPPath sg) = rq_SFTPPath rq"

lemma encryptTargetCredentials_means:
  assumes L: "encryptor_laws E" and e: "encryptTargetCredentials E rq t = Some (sg, t')"
  shows "storage_means E sg rq"
    "sg_S3KeyIDEnc sg = None \<longleftrightarrow> rq_S3KeyID rq = []" "sg_S3SecretEnc sg = None \<longleftrightarrow> rq_S3Secret rq = []"
    "sg_GCSKeyEnc sg = None \<longleftrightarrow> rq_GCSKey rq = []" "sg_AzureKeyEnc sg = None \<longleftrightarrow> rq_AzureKey rq = []"
    "sg_SFTPPrivateKeyEnc sg = None \<longleftrightarrow> rq_SFTPPrivateKey rq = []"
proof -
  from e obtain k1 t1 k2 t2 k3 t3 k4 t4 k5 t5 where s:
    "encPtr E (rq_S3KeyID rq) t = Some (k1, t1)" "encPtr E (rq_S3Secret rq) t1 = Some (k2, t2)"
    "encPtr E (rq_GCSKey rq) t2 = Some (k3, t3)" "encPtr E (rq_AzureKey rq) t3 = Some (k4, t4)"
    "encPtr E (rq_SFTPPrivateKey rq) t4 = Some (k5, t5)"
    by (auto simp: encryptTargetCredentials_def bind_eq_Some_conv)
  note d = encPtr_decrypts [OF L s(1)] encPtr_decrypts [OF L s(2)] encPtr_decrypts [OF L s(3)]
    encPtr_decrypts [OF L s(4)] encPtr_decrypts [OF L s(5)]
  from e have sg: "sg_S3KeyIDEnc sg = k1" "sg_S3SecretEnc sg = k2" "sg_GCSKeyEnc sg = k3" "sg_AzureKeyEnc sg = k4"
    "sg_SFTPPrivateKeyEnc sg = k5" "storage_means E sg rq"
    by (auto simp: encryptTargetCredentials_def s storage_means_def d)
  then show "storage_means E sg rq"
    "sg_S3KeyIDEnc sg = None \<longleftrightarrow> rq_S3KeyID rq = []" "sg_S3SecretEnc sg = None \<longleftrightarrow> rq_S3Secret rq = []"
    "sg_GCSKeyEnc sg = None \<longleftrightarrow> rq_GCSKey rq = []" "sg_AzureKeyEnc sg = None \<longleftrightarrow> rq_AzureKey rq = []"
    "sg_SFTPPrivateKeyEnc sg = None \<longleftrightarrow> rq_SFTPPrivateKey rq = []"
    using d by simp_all
qed

text \<open>The repo section the rendered file has for what a request describes.\<close>

definition conf_of_request :: "target_request \<Rightarrow> string \<Rightarrow> int \<Rightarrow> int \<Rightarrow> repo_conf" where
  "conf_of_request rq ty idx days = (let str = (\<lambda>k v. if ty = k then v else []) in
     \<lparr>rc_Index = idx, rc_RepoType = ty, rc_PosixPath = str ''posix'' (rq_PosixPath rq),
      rc_S3Bucket = str ''s3'' (rq_S3Bucket rq), rc_S3Region = str ''s3'' (rq_S3Region rq),
      rc_S3Endpoint = str ''s3'' (rq_S3Endpoint rq), rc_S3KeyID = str ''s3'' (rq_S3KeyID rq), rc_S3Secret = str ''s3'' (rq_S3Secret rq),
      rc_GCSBucket = str ''gcs'' (rq_GCSBucket rq), rc_GCSKey = str ''gcs'' (rq_GCSKey rq),
      rc_AzureAccount = str ''azure'' (rq_AzureAccount rq), rc_AzureContainer = str ''azure'' (rq_AzureContainer rq),
      rc_AzureKey = str ''azure'' (rq_AzureKey rq),
      rc_SFTPHost = str ''sftp'' (rq_SFTPHost rq), rc_SFTPPort = (if ty = ''sftp'' then rq_SFTPPort rq else 0),
      rc_SFTPUser = str ''sftp'' (rq_SFTPUser rq), rc_SFTPPrivateKey = str ''sftp'' (rq_SFTPPrivateKey rq),
      rc_SFTPPath = str ''sftp'' (rq_SFTPPath rq), rc_RetentionDays = days\<rparr>)"

lemma storage_means_conf:
  "storage_means E (lo_Storage l) rq \<Longrightarrow> conf_of_location E l = conf_of_request rq (lo_TargetType l) (lo_RepoIndex l) (lo_RecoveryDays l)"
  by (simp add: storage_means_def conf_of_location_def conf_of_request_def Let_def)

text \<open>What an update means: each blank field of the request stands for the stored one.\<close>

definition keep :: "string \<Rightarrow> string \<Rightarrow> string" where
  "keep v old = (if v = [] then old else v)"

definition merged :: "encryptor \<Rightarrow> storage \<Rightarrow> target_request \<Rightarrow> target_request" where
  "merged E sg rq = rq\<lparr>
     rq_PosixPath := keep (rq_PosixPath rq) (strVal (sg_PosixPath sg)), rq_S3Bucket := keep (rq_S3Bucket rq) (strVal (sg_S3Bucket sg)),
     rq_S3Region := keep (rq_S3Region rq) (strVal (sg_S3Region sg)), rq_S3Endpoint := keep (rq_S3Endpoint rq) (strVal (sg_S3Endpoint sg)),
     rq_S3KeyID := keep (rq_S3KeyID rq) (decryptField E (sg_S3KeyIDEnc sg)),
     rq_S3Secret := keep (rq_S3Secret rq) (decryptField E (sg_S3SecretEnc sg)),
     rq_GCSBucket := keep (rq_GCSBucket rq) (strVal (sg_GCSBucket sg)), rq_GCSKey := keep (rq_GCSKey rq) (decryptField E (sg_GCSKeyEnc sg)),
     rq_AzureAccount := keep (rq_AzureAccount rq) (strVal (sg_AzureAccount sg)),
     rq_AzureContainer := keep (rq_AzureContainer rq) (strVal (sg_AzureContainer sg)),
     rq_AzureKey := keep (rq_AzureKey rq) (decryptField E (sg_AzureKeyEnc sg)),
     rq_SFTPHost := keep (rq_SFTPHost rq) (strVal (sg_SFTPHost sg)),
     rq_SFTPPort := (if rq_SFTPPort rq = 0 then intVal (sg_SFTPPort sg) else rq_SFTPPort rq),
     rq_SFTPUser := keep (rq_SFTPUser rq) (strVal (sg_SFTPUser sg)),
     rq_SFTPPrivateKey := keep (rq_SFTPPrivateKey rq) (decryptField E (sg_SFTPPrivateKeyEnc sg)),
     rq_SFTPPath := keep (rq_SFTPPath rq) (strVal (sg_SFTPPath sg))\<rparr>"

lemma overlay_str: "overlay (strPtr v) old = (if v = [] then old else Some v)"
  by (auto simp: overlay_def strPtr_def)

lemma overlay_val: "strVal (overlay v old) = (if v = None then strVal old else strVal v)"
  "intVal (overlay n oldn) = (if n = None then intVal oldn else intVal n)"
  "decryptField E (overlay v old) = (if v = None then decryptField E old else decryptField E v)"
  by (simp_all add: overlay_def)

lemma plain_storage:
  assumes "encryptTargetCredentials E rq t = Some (sg, t')"
  shows "sg_PosixPath sg = strPtr (rq_PosixPath rq)" "sg_S3Bucket sg = strPtr (rq_S3Bucket rq)" "sg_S3Region sg = strPtr (rq_S3Region rq)"
    "sg_S3Endpoint sg = strPtr (rq_S3Endpoint rq)" "sg_GCSBucket sg = strPtr (rq_GCSBucket rq)"
    "sg_AzureAccount sg = strPtr (rq_AzureAccount rq)" "sg_AzureContainer sg = strPtr (rq_AzureContainer rq)"
    "sg_SFTPHost sg = strPtr (rq_SFTPHost rq)" "sg_SFTPPort sg = intPtr (rq_SFTPPort rq)" "sg_SFTPUser sg = strPtr (rq_SFTPUser rq)"
    "sg_SFTPPath sg = strPtr (rq_SFTPPath rq)"
  using assms by (auto simp: encryptTargetCredentials_def bind_eq_Some_conv)

lemma overlay_means:
  assumes L: "encryptor_laws E" and e: "encryptTargetCredentials E rq t = Some (sg, t')"
  shows "storage_means E (overlay_storage sg old) (merged E old rq)"
  unfolding storage_means_def merged_def overlay_storage_def
  by (simp add: overlay_val plain_storage [OF e] keep_def encryptTargetCredentials_means(2-) [OF L e])
     (use encryptTargetCredentials_means(1) [OF L e] in \<open>simp add: storage_means_def\<close>)

text \<open>
  a location that is created takes a free slot of its cluster, and its section of the rendered \<open>pgbackrest.conf\<close> is
  what the request said, credentials included, although the database only ever holds them encrypted.
\<close>

theorem created_location_renders_request:
  assumes "encryptor_laws E" and "le_Body env = Some rq"
    and "CreateBackupTarget E env tbl = (Inr l, effs, tbl')"
  shows "conf_of_location E l = conf_of_request rq (rq_TargetType rq) (lo_RepoIndex l) (if rq_RecoveryDays rq = 0 then 14 else rq_RecoveryDays rq)
    \<and> lo_RepoIndex l \<in> {1..4} \<and> (\<forall>r \<in> set tbl. lo_ClusterID r = lo_ClusterID l \<longrightarrow> lo_RepoIndex r \<noteq> lo_RepoIndex l) \<and> tbl' = tbl @ [l]"
proof -
  from assms(2,3) obtain c sg t' p where p: "le_ClusterID env = Some c"
    "encryptTargetCredentials E rq (le_Tick env) = Some (sg, t')" "bindCreateTarget E (Some rq) c (le_Tick env) = Inr p"
    "CreateLocation (le_Now env) (le_NewID env) (p\<lparr>cp_RepoIndex := NextIndex tbl c\<rparr>) tbl = Some (l, tbl')"
    by (auto simp: CreateBackupTarget_def bindCreateTarget_def split: option.splits sum.splits if_splits prod.splits)
  from p(2,3) have q: "cp_Storage p = sg" "cp_TargetType p = rq_TargetType rq"
    "cp_RecoveryDays p = (if rq_RecoveryDays rq = 0 then 14 else rq_RecoveryDays rq)"
    by (auto simp: bindCreateTarget_def split: if_splits)
  from p(4) have l: "lo_Storage l = cp_Storage p" "lo_TargetType l = cp_TargetType p" "lo_RecoveryDays l = cp_RecoveryDays p"
    "location_allowed tbl l" "tbl' = tbl @ [l]"
    by (auto simp: CreateLocation_def Let_def split: if_splits)
  have "storage_means E (lo_Storage l) rq" using encryptTargetCredentials_means(1) [OF assms(1) p(2)] l(1) q(1) by simp
  from storage_means_conf [OF this] l q show ?thesis by (auto simp: location_allowed_def list_all_iff)
qed

theorem created_location_renders_request_witness:
  "\<exists>l effs tbl'. CreateBackupTarget enc_example env_example [location_example] = (Inr l, effs, tbl') \<and>
     conf_of_location enc_example l = conf_of_request request_example ''s3'' (lo_RepoIndex l) 14 \<and> lo_RepoIndex l = 2"
proof -
  have "isl (fst (CreateBackupTarget enc_example env_example [location_example])) = False"
    "case fst (CreateBackupTarget enc_example env_example [location_example]) of Inr l \<Rightarrow> lo_RepoIndex l = 2 | _ \<Rightarrow> False"
    by code_simp+
  then obtain l effs tbl' where c: "CreateBackupTarget enc_example env_example [location_example] = (Inr l, effs, tbl')" "lo_RepoIndex l = 2"
    by (cases "CreateBackupTarget enc_example env_example [location_example]") (auto split: sum.splits)
  have "le_Body env_example = Some request_example" by (simp add: env_example_def)
  from created_location_renders_request [OF enc_example_laws this c(1)] c
  show ?thesis by (auto simp: request_example_def)
qed

text \<open>
  after an update the rendered section of a location has the request's values, and the stored ones, credentials
  included, where the request left a field blank; its slot and type never change.
\<close>

theorem updated_location_keeps_blank_fields:
  assumes "encryptor_laws E" and "le_Body env = Some rq" and "le_TargetID env = Some i" and "GetLocation tbl i = Some old"
    and "UpdateBackupTarget E env tbl = (Inr l, effs, tbl')"
  shows "conf_of_location E l = conf_of_request (merged E (lo_Storage old) rq) (lo_TargetType old) (lo_RepoIndex old)
    (if rq_RecoveryDays rq = 0 then lo_RecoveryDays old else rq_RecoveryDays rq)"
proof -
  from assms(2-5) obtain sg t' p where p: "encryptTargetCredentials E rq (le_Tick env) = Some (sg, t')"
    "bindUpdateTarget E (Some rq) old (le_Tick env) = Inr p" "UpdateLocation (le_Now env) p tbl = Some (l, tbl')"
    by (auto simp: UpdateBackupTarget_def bindUpdateTarget_def split: option.splits sum.splits if_splits prod.splits)
  have "lo_ID old = i" using assms(4) by (auto simp: GetLocation_def find_Some_iff)
  with p(1,2) have q: "up_ID p = i" "up_Storage p = overlay_storage sg (lo_Storage old)"
    "up_RecoveryDays p = (if rq_RecoveryDays rq = 0 then lo_RecoveryDays old else rq_RecoveryDays rq)"
    by (auto simp: bindUpdateTarget_def)
  from p(3) q(1) assms(4) have l: "l = update_location (le_Now env) p old"
    by (auto simp: UpdateLocation_def Let_def split: if_splits)
  have "storage_means E (lo_Storage l) (merged E (lo_Storage old) rq)"
    using overlay_means [OF assms(1) p(1)] l q(2) by (simp add: update_location_def)
  from storage_means_conf [OF this] l q(3) show ?thesis by (simp add: update_location_def)
qed

theorem updated_location_keeps_blank_fields_witness:
  "\<exists>l effs tbl'. UpdateBackupTarget enc_example env_example [location_example] = (Inr l, effs, tbl') \<and>
     conf_of_location enc_example l = conf_of_request (merged enc_example (lo_Storage location_example) request_example) ''posix'' 1 7"
proof -
  have "isl (fst (UpdateBackupTarget enc_example env_example [location_example])) = False" by code_simp
  then obtain l effs tbl' where c: "UpdateBackupTarget enc_example env_example [location_example] = (Inr l, effs, tbl')"
    by (metis sum.collapse(2) prod.collapse)
  have e: "le_Body env_example = Some request_example" "le_TargetID env_example = Some 1" "GetLocation [location_example] 1 = Some location_example"
    by (simp_all add: env_example_def GetLocation_def location_example_def)
  from updated_location_keeps_blank_fields [OF enc_example_laws e c] c
  show ?thesis by (auto simp: location_example_def request_example_def)
qed

section \<open>Slots\<close>

definition slots_ok :: "location list \<Rightarrow> bool" where
  "slots_ok tbl \<longleftrightarrow> distinct (map lo_ID tbl) \<and> distinct (map (\<lambda>l. (lo_ClusterID l, lo_RepoIndex l)) tbl) \<and>
     distinct (map (\<lambda>l. (lo_ClusterID l, lo_Label l)) tbl) \<and> (\<forall>l \<in> set tbl. 1 \<le> lo_RepoIndex l \<and> lo_RepoIndex l \<le> 4)"

lemma slots_ok_Create:
  assumes "slots_ok tbl" shows "slots_ok (snd (snd (CreateBackupTarget E env tbl)))"
proof -
  have "slots_ok (tbl @ [l])" if "location_allowed tbl l" for l
    using assms that by (auto simp: slots_ok_def location_allowed_def list_all_iff)
  then show ?thesis using assms
    by (auto simp: CreateBackupTarget_def CreateLocation_def Let_def split: option.splits sum.splits if_splits)
qed

lemma distinct_update_label:
  assumes "distinct (map (\<lambda>l. (lo_ClusterID l, lo_Label l)) tbl)" "distinct (map lo_ID tbl)" "l \<in> set tbl"
    "\<forall>r \<in> set tbl. lo_ID r \<noteq> lo_ID l \<longrightarrow> lo_ClusterID r = lo_ClusterID l \<longrightarrow> lo_Label r \<noteq> lo_Label (f l)"
    "\<And>r. lo_ClusterID (f r) = lo_ClusterID r"
  shows "distinct (map (\<lambda>l. (lo_ClusterID l, lo_Label l)) (map (\<lambda>r. if lo_ID r = lo_ID l then f r else r) tbl))"
proof -
  have inj: "inj_on lo_ID (set tbl)" "inj_on (\<lambda>l. (lo_ClusterID l, lo_Label l)) (set tbl)" and d: "distinct tbl"
    using assms(1,2) by (simp_all add: distinct_map)
  have one: "r = l" if "r \<in> set tbl" "lo_ID r = lo_ID l" for r using inj_onD [OF inj(1) that(2,1) assms(3)] .
  have differ: False if "r \<in> set tbl" "r \<noteq> l" "(lo_ClusterID r, lo_Label r) = (lo_ClusterID l, lo_Label (f l))" for r
    using assms(4) one that by auto
  have "inj_on (\<lambda>r. (lo_ClusterID (if lo_ID r = lo_ID l then f r else r), lo_Label (if lo_ID r = lo_ID l then f r else r))) (set tbl)"
  proof (rule inj_onI)
    fix r s assume rs: "r \<in> set tbl" "s \<in> set tbl"
      and eq: "(lo_ClusterID (if lo_ID r = lo_ID l then f r else r), lo_Label (if lo_ID r = lo_ID l then f r else r))
        = (lo_ClusterID (if lo_ID s = lo_ID l then f s else s), lo_Label (if lo_ID s = lo_ID l then f s else s))"
    consider "lo_ID r = lo_ID l" "lo_ID s = lo_ID l" | "lo_ID r = lo_ID l" "lo_ID s \<noteq> lo_ID l"
      | "lo_ID r \<noteq> lo_ID l" "lo_ID s = lo_ID l" | "lo_ID r \<noteq> lo_ID l" "lo_ID s \<noteq> lo_ID l" by blast
    then show "r = s"
    proof cases
      case 1 with one rs show ?thesis by metis
    next
      case 2 with one [OF rs(1)] eq assms(5) differ [OF rs(2)] show ?thesis by auto
    next
      case 3 with one [OF rs(2)] eq assms(5) differ [OF rs(1)] show ?thesis by auto
    next
      case 4 with eq inj_onD [OF inj(2) _ rs] show ?thesis by simp
    qed
  qed
  with d show ?thesis by (simp add: distinct_map o_def)
qed

lemma slots_ok_Update:
  assumes ok: "slots_ok tbl" shows "slots_ok (snd (snd (UpdateBackupTarget E env tbl)))"
proof -
  have "slots_ok tbl'" if u: "UpdateLocation now p tbl = Some (l', tbl')" for now p l' tbl'
  proof -
    from u obtain l where l: "GetLocation tbl (up_ID p) = Some l"
      "\<not> list_ex (\<lambda>r. lo_ID r \<noteq> lo_ID l \<and> lo_ClusterID r = lo_ClusterID l \<and> lo_Label r = lo_Label (update_location now p l)) tbl"
      "tbl' = map (\<lambda>r. if lo_ID r = up_ID p then update_location now p r else r) tbl"
      by (auto simp: UpdateLocation_def Let_def split: option.splits if_splits)
    from l(1) have i: "l \<in> set tbl" "lo_ID l = up_ID p" by (auto simp: GetLocation_def find_Some_iff)
    have same: "map g tbl' = map g tbl" if "\<And>r. g (update_location now p r) = g r" for g :: "location \<Rightarrow> 'g"
      unfolding l(3) using that by simp
    have "distinct (map (\<lambda>l. (lo_ClusterID l, lo_Label l)) tbl')"
      unfolding l(3) i(2) [symmetric]
      by (rule distinct_update_label) (use ok i l(2) in \<open>auto simp: slots_ok_def list_ex_iff update_location_def\<close>)
    moreover have "map lo_ID tbl' = map lo_ID tbl" "map (\<lambda>l. (lo_ClusterID l, lo_RepoIndex l)) tbl' = map (\<lambda>l. (lo_ClusterID l, lo_RepoIndex l)) tbl"
      by (rule same, simp add: update_location_def)+
    moreover have "\<forall>l \<in> set tbl'. 1 \<le> lo_RepoIndex l \<and> lo_RepoIndex l \<le> 4"
      unfolding l(3) using ok by (auto simp: slots_ok_def update_location_def)
    ultimately show ?thesis using ok by (simp add: slots_ok_def)
  qed
  with ok show ?thesis
    by (auto simp: UpdateBackupTarget_def split: option.splits sum.splits if_splits)
qed

lemma slots_ok_Delete: "slots_ok tbl \<Longrightarrow> slots_ok (DeleteLocation i tbl)"
  by (auto simp: slots_ok_def DeleteLocation_def distinct_map_filter)

lemma cluster_slots:
  assumes "slots_ok tbl"
  shows "distinct (map lo_RepoIndex (filter (\<lambda>l. lo_ClusterID l = c) tbl))"
    "set (map lo_RepoIndex (filter (\<lambda>l. lo_ClusterID l = c) tbl)) \<subseteq> {1, 2, 3, 4}"
proof -
  have "distinct (map (\<lambda>l. (lo_ClusterID l, lo_RepoIndex l)) tbl) \<Longrightarrow> distinct (map lo_RepoIndex (filter (\<lambda>l. lo_ClusterID l = c) tbl))"
    by (induction tbl) (auto simp: rev_image_eqI)
  with assms show "distinct (map lo_RepoIndex (filter (\<lambda>l. lo_ClusterID l = c) tbl))" by (simp add: slots_ok_def)
  have "x \<in> {1, 2, 3, 4}" if "1 \<le> x" "x \<le> 4" for x :: int using slot_cases [OF that] by blast
  with assms show "set (map lo_RepoIndex (filter (\<lambda>l. lo_ClusterID l = c) tbl)) \<subseteq> {1, 2, 3, 4}"
    by (auto simp: slots_ok_def)
qed

text \<open>
  creating, updating and deleting locations keeps the slots of every cluster apart and within 1 to 4; a cluster never
  has more than four, and a creation is refused for want of a slot exactly when it has four.
\<close>

theorem location_slots:
  assumes "slots_ok tbl"
  shows "slots_ok (snd (snd (CreateBackupTarget E env tbl))) \<and> slots_ok (snd (snd (UpdateBackupTarget E env tbl))) \<and>
    slots_ok (DeleteLocation i tbl) \<and> length (ListLocations tbl c) \<le> 4 \<and> (NextIndex tbl c = 0 \<longleftrightarrow> length (ListLocations tbl c) = 4)"
proof -
  let ?u = "map lo_RepoIndex (filter (\<lambda>l. lo_ClusterID l = c) tbl)"
  have n: "length (ListLocations tbl c) = card (set ?u)"
    using distinct_card [OF cluster_slots(1) [OF assms, of c]] by (simp add: ListLocations_def)
  have "card (set ?u) \<le> card {1, 2, 3, 4 :: int}" by (rule card_mono) (use cluster_slots(2) [OF assms] in simp_all)
  then have le: "length (ListLocations tbl c) \<le> 4" using n by simp
  have "map bt_RepoIndex (filter (\<lambda>t. bt_ClusterID t = c) (map target_of tbl)) = ?u"
    by (simp add: filter_map o_def target_of_def)
  then have z: "NextIndex tbl c = 0 \<longleftrightarrow> {1, 2, 3, 4} \<subseteq> set ?u"
    by (simp only: NextIndex_def NextRepoIndex_def Let_def) (auto simp: find_None_iff)
  have "{1, 2, 3, 4} \<subseteq> set ?u \<longleftrightarrow> card (set ?u) = 4"
  proof
    assume "{1, 2, 3, 4} \<subseteq> set ?u"
    then have "set ?u = {1, 2, 3, 4}" using cluster_slots(2) [OF assms, of c] by blast
    then show "card (set ?u) = 4" by (simp only:) simp
  next
    assume "card (set ?u) = 4"
    then have "set ?u = {1, 2, 3, 4}" by (intro card_subset_eq) (use cluster_slots(2) [OF assms, of c] in simp_all)
    then show "{1, 2, 3, 4} \<subseteq> set ?u" by blast
  qed
  with z n le slots_ok_Create slots_ok_Update slots_ok_Delete assms show ?thesis by simp
qed

theorem location_slots_witness:
  "length (ListLocations [location_example] 5) \<le> 4 \<and> (NextIndex [location_example] 5 = 0 \<longleftrightarrow> length (ListLocations [location_example] 5) = 4) \<and>
   slots_ok (snd (snd (CreateBackupTarget enc_example env_example [location_example])))"
proof -
  have "slots_ok [location_example]" by (simp add: slots_ok_def location_example_def)
  from location_slots [OF this, of enc_example env_example 0 5] show ?thesis by blast
qed

text \<open>A response does not depend on the stored credentials, only on whether they are set.\<close>

lemma serializeTarget_hides_secrets:
  assumes "k1 = None \<longleftrightarrow> sg_S3KeyIDEnc (lo_Storage l) = None" "k2 = None \<longleftrightarrow> sg_S3SecretEnc (lo_Storage l) = None"
    "k3 = None \<longleftrightarrow> sg_GCSKeyEnc (lo_Storage l) = None" "k4 = None \<longleftrightarrow> sg_AzureKeyEnc (lo_Storage l) = None"
    "k5 = None \<longleftrightarrow> sg_SFTPPrivateKeyEnc (lo_Storage l) = None"
  shows "serializeTarget u t (l\<lparr>lo_Storage := (lo_Storage l)\<lparr>sg_S3KeyIDEnc := k1, sg_S3SecretEnc := k2, sg_GCSKeyEnc := k3,
      sg_AzureKeyEnc := k4, sg_SFTPPrivateKeyEnc := k5\<rparr>\<rparr>) = serializeTarget u t l"
  using assms by (simp add: serializeTarget_def Let_def)

end
