(* ===== verification/PatroniConfig.thy ===== *)
theory PatroniConfig
  imports NodeState
begin

text \<open>
  The Patroni configuration as the conductor treats it: canonical comparison, the diff it sends as a PATCH, the merge of
  the design it manages and the check that an edit respects it (\<open>api/handlers/patronirest.go\<close>,
  \<open>api/handlers/patroni.go\<close>, \<open>db/queries/patroni_design.go\<close>), and the table of snapshots
  (\<open>db/queries/patroni_snapshots.go\<close>).  A \<open>map[string]any\<close> is the association list of its members; the order of the
  list is the order in which a \<open>range\<close> over the map happens to go.
\<close>

type_synonym members = "(string \<times> json) list"

section \<open>Canonical form\<close>

lemma json_members_size [termination_simp]: "(k, v) \<in> set ms \<Longrightarrow> size v < Suc (size_list (size_prod (\<lambda>_. 0) size) ms)"
  by (induction ms) auto

text \<open>The value with the members of every object in the order of their keys, as \<open>json.Marshal\<close> prints maps.\<close>

fun canon :: "json \<Rightarrow> json" where
  "canon (JObj ms) = JObj (sort_key fst (map (\<lambda>m. (fst m, canon (snd m))) ms))"
| "canon (JArr vs) = JArr (map canon vs)"
| "canon v = v"

text \<open>\<open>None\<close> is the empty string of text that does not parse; two such texts compare equal.\<close>

definition canonicalJSON :: "raw_message \<Rightarrow> json option" where
  "canonicalJSON r = (case r of Malformed \<Rightarrow> None | Encodes v \<Rightarrow> Some (canon v))"

section \<open>The difference sent to Patroni\<close>

function diffObjects :: "members \<Rightarrow> members \<Rightarrow> members" where
  "diffObjects cur intended =
     concat (map (\<lambda>(k, iv). case map_of cur k of
         None \<Rightarrow> [(k, iv)]
       | Some cv \<Rightarrow> (case (iv, cv) of
             (JObj im, JObj cm) \<Rightarrow> (let sub = diffObjects cm im in if sub \<noteq> [] then [(k, JObj sub)] else [])
           | _ \<Rightarrow> if canon iv \<noteq> canon cv then [(k, iv)] else [])) intended)
     @ map (\<lambda>k. (k, JNull)) (filter (\<lambda>k. k \<notin> fst ` set intended) (map fst cur))"
  by auto
termination
proof (relation "measure (\<lambda>(_, i). size_list (size_prod (\<lambda>_. 0) size) i)", goal_cases)
  case (2 cur intended x k iv a y im x6)
  then show ?case using json_members_size [of k iv intended] by auto
qed simp

declare diffObjects.simps [simp del]

definition diffPatroniConfig :: "members \<Rightarrow> members \<Rightarrow> members option" where
  "diffPatroniConfig cur intended = (let patch = diffObjects cur intended in if patch = [] then None else Some patch)"

section \<open>The design\<close>

function deepMerge :: "members \<Rightarrow> members \<Rightarrow> members" where
  "deepMerge dst src =
     map (\<lambda>(k, dv). (k, case map_of src k of
         None \<Rightarrow> dv
       | Some sv \<Rightarrow> (case (dv, sv) of (JObj dm, JObj sm) \<Rightarrow> JObj (deepMerge dm sm) | _ \<Rightarrow> sv))) dst
     @ filter (\<lambda>m. fst m \<notin> fst ` set dst) src"
  by auto
termination
proof (relation "measure (\<lambda>(d, _). size_list (size_prod (\<lambda>_. 0) size) d)", goal_cases)
  case (2 dst src x k dv a y dm x6)
  then show ?case using json_members_size [of k dv dst] by auto
qed simp

declare deepMerge.simps [simp del]

text \<open>The dotted path of the first designed field that an intended configuration lacks or changes; empty if none.\<close>

definition dotted :: "string \<Rightarrow> string \<Rightarrow> string" where
  "dotted pre k = (if pre \<noteq> [] then pre @ ''.'' @ k else k)"

fun findDesignViolation :: "string \<Rightarrow> members \<Rightarrow> members \<Rightarrow> string" where
  "findDesignViolation pre [] intended = []"
| "findDesignViolation pre ((k, dv) # designed) intended =
     (let path = dotted pre k in
      case map_of intended k of
        None \<Rightarrow> path
      | Some iv \<Rightarrow> (case (dv, iv) of
            (JObj dm, JObj im) \<Rightarrow>
              (let v = findDesignViolation path dm im in if v \<noteq> [] then v else findDesignViolation pre designed intended)
          | _ \<Rightarrow> if canon dv \<noteq> canon iv then path else findDesignViolation pre designed intended))"

text \<open>\<open>cluster_patroni_designs\<close>: one row per cluster.\<close>

type_synonym designs = "uuid \<rightharpoonup> raw_message"

definition members_of :: "raw_message \<Rightarrow> members option" where
  "members_of r = (case r of Encodes (JObj ms) \<Rightarrow> Some ms | Encodes JNull \<Rightarrow> Some [] | _ \<Rightarrow> None)"

definition Upsert_design :: "uuid \<Rightarrow> raw_message \<Rightarrow> designs \<Rightarrow> designs" where
  "Upsert_design c new_fields ds = (case members_of new_fields of
      None \<Rightarrow> ds
    | Some new \<Rightarrow>
        let base = (case ds c of None \<Rightarrow> [] | Some r \<Rightarrow> (case members_of r of None \<Rightarrow> [] | Some ms \<Rightarrow> ms))
        in ds(c \<mapsto> Encodes (JObj (deepMerge base new))))"

section \<open>Snapshots\<close>

record snapshot =
  sp_ID :: uuid
  sp_ClusterID :: uuid
  sp_CapturedAt :: instant
  sp_Source :: string
  sp_Config :: raw_message
  sp_IsActive :: bool

text \<open>The rows of a cluster, newest first.\<close>

definition snapshots_of :: "snapshot list \<Rightarrow> uuid \<Rightarrow> snapshot list" where
  "snapshots_of tbl c = sort_key (\<lambda>s. - sp_CapturedAt s) (filter (\<lambda>s. sp_ClusterID s = c) tbl)"

definition List_snapshots :: "snapshot list \<Rightarrow> uuid \<Rightarrow> snapshot list" where
  "List_snapshots tbl c = take 10 (snapshots_of tbl c)"

definition GetActive :: "snapshot list \<Rightarrow> uuid \<Rightarrow> snapshot option" where
  "GetActive tbl c = find (\<lambda>s. sp_ClusterID s = c \<and> sp_IsActive s) tbl"

definition Prune :: "uuid \<Rightarrow> snapshot list \<Rightarrow> snapshot list" where
  "Prune c tbl = filter (\<lambda>s. sp_ClusterID s \<noteq> c \<or> sp_ID s \<in> sp_ID ` set (List_snapshots tbl c)) tbl"

text \<open>\<open>new_id\<close> and \<open>now\<close> are the column defaults.\<close>

definition new_snapshot :: "uuid \<Rightarrow> instant \<Rightarrow> uuid \<Rightarrow> string \<Rightarrow> raw_message \<Rightarrow> bool \<Rightarrow> snapshot" where
  "new_snapshot new_id now c source config active =
     \<lparr>sp_ID = new_id, sp_ClusterID = c, sp_CapturedAt = now, sp_Source = source, sp_Config = config, sp_IsActive = active\<rparr>"

definition Insert_snapshot :: "uuid \<Rightarrow> instant \<Rightarrow> uuid \<Rightarrow> string \<Rightarrow> raw_message \<Rightarrow> snapshot list \<Rightarrow> snapshot list" where
  "Insert_snapshot new_id now c source config tbl = tbl @ [new_snapshot new_id now c source config False]"

definition clear_active :: "uuid \<Rightarrow> snapshot list \<Rightarrow> snapshot list" where
  "clear_active c = map (\<lambda>s. if sp_ClusterID s = c then s\<lparr>sp_IsActive := False\<rparr> else s)"

definition InsertActive :: "uuid \<Rightarrow> instant \<Rightarrow> uuid \<Rightarrow> string \<Rightarrow> raw_message \<Rightarrow> snapshot list \<Rightarrow> snapshot list" where
  "InsertActive new_id now c source config tbl = clear_active c tbl @ [new_snapshot new_id now c source config True]"

text \<open>The unique index on the active rows of a cluster.\<close>

definition one_active :: "snapshot list \<Rightarrow> bool" where
  "one_active tbl \<longleftrightarrow> distinct (map sp_ClusterID (filter sp_IsActive tbl))"

text \<open>The second update has no condition on the cluster; a transaction the index refuses changes nothing.\<close>

definition SetActive :: "uuid \<Rightarrow> uuid \<Rightarrow> snapshot list \<Rightarrow> snapshot list" where
  "SetActive i c tbl =
     (let tbl' = map (\<lambda>s. if sp_ID s = i then s\<lparr>sp_IsActive := True\<rparr> else s) (clear_active c tbl)
      in if one_active tbl' then tbl' else tbl)"

section \<open>Recording what Patroni has\<close>

text \<open>What a call of Patroni's REST API gives: an error, after which the call may or may not have been applied, or a
  status and a body.\<close>

datatype rest_answer = Rest_error bool | Rest_reply int raw_message

definition rest_ok :: "rest_answer \<Rightarrow> bool" where
  "rest_ok a = (case a of Rest_error _ \<Rightarrow> False | Rest_reply st _ \<Rightarrow> st < 300)"

text \<open>The body of a reply with status 200.\<close>

definition rest_200 :: "rest_answer \<Rightarrow> raw_message option" where
  "rest_200 a = (case a of Rest_reply st body \<Rightarrow> if st = 200 then Some body else None | _ \<Rightarrow> None)"

text \<open>The answers of \<open>GET /config\<close> and of the database around a snapshot, and the defaults of a new row.\<close>

record snap_env =
  se_Get :: rest_answer
  se_List :: bool
  se_Insert :: bool
  se_Prune :: bool
  se_NewID :: uuid
  se_Now :: instant

definition prune_if :: "bool \<Rightarrow> uuid \<Rightarrow> snapshot list \<Rightarrow> snapshot list" where
  "prune_if ok c tbl = (if ok then Prune c tbl else tbl)"

definition insert_and_prune :: "snap_env \<Rightarrow> uuid \<Rightarrow> string \<Rightarrow> raw_message \<Rightarrow> snapshot list \<Rightarrow> snapshot list" where
  "insert_and_prune e c source body tbl =
     (if se_Insert e then prune_if (se_Prune e) c (Insert_snapshot (se_NewID e) (se_Now e) c source body tbl) else tbl)"

definition snapshotPatroniConfig :: "snap_env \<Rightarrow> uuid \<Rightarrow> string \<Rightarrow> snapshot list \<Rightarrow> snapshot list" where
  "snapshotPatroniConfig e c source tbl = (case rest_200 (se_Get e) of
      None \<Rightarrow> tbl
    | Some body \<Rightarrow>
        (case (if se_List e then List_snapshots tbl c else []) of
           [] \<Rightarrow> insert_and_prune e c source body tbl
         | newest # rest \<Rightarrow>
             (case find sp_IsActive (newest # rest) of
                Some active \<Rightarrow>
                  if canonicalJSON body = canonicalJSON (sp_Config active) then tbl
                  else prune_if (se_Prune e) c
                    (if se_Insert e then Insert_snapshot (se_NewID e) (se_Now e) c ''discovered'' body tbl else tbl)
              | None \<Rightarrow>
                  if canonicalJSON body = canonicalJSON (sp_Config newest) then tbl
                  else insert_and_prune e c source body tbl)))"

definition recordPostChangeSnapshot :: "snap_env \<Rightarrow> uuid \<Rightarrow> string \<Rightarrow> snapshot list \<Rightarrow> snapshot list" where
  "recordPostChangeSnapshot e c source tbl = (case rest_200 (se_Get e) of
      None \<Rightarrow> tbl
    | Some body \<Rightarrow>
        if se_Insert e then prune_if (se_Prune e) c (InsertActive (se_NewID e) (se_Now e) c source body tbl) else tbl)"

definition setActiveForDesigned :: "snap_env \<Rightarrow> uuid \<Rightarrow> raw_message \<Rightarrow> snapshot list \<Rightarrow> snapshot list" where
  "setActiveForDesigned e c intended tbl =
     (case (if se_List e then List_snapshots tbl c else []) of
        most # _ \<Rightarrow>
          if sp_Source most = ''user-revert'' \<and> canonicalJSON (sp_Config most) = canonicalJSON intended
          then prune_if (se_Prune e) c (if se_Insert e then SetActive (sp_ID most) c tbl else tbl)
          else recordPostChangeSnapshot e c ''user-revert'' tbl
      | [] \<Rightarrow> recordPostChangeSnapshot e c ''user-revert'' tbl)"

text \<open>\<open>finalizeSnapshot\<close>, on a request with its source and the snapshot it names, if any.\<close>

definition finalizeSnapshot :: "snap_env \<Rightarrow> uuid \<Rightarrow> string \<Rightarrow> uuid option \<Rightarrow> raw_message \<Rightarrow> snapshot list \<Rightarrow> snapshot list" where
  "finalizeSnapshot e c source snapshotID intended tbl = (case snapshotID of
      Some i \<Rightarrow> prune_if (se_Prune e) c (if se_Insert e then SetActive i c tbl else tbl)
    | None \<Rightarrow>
        if source = ''user-revert'' then setActiveForDesigned e c intended tbl
        else recordPostChangeSnapshot e c source tbl)"

end
