(* ===== verification/PatroniConfigProps.thy ===== *)
theory PatroniConfigProps
  imports PatroniConfig
begin

text \<open>
  The PATCH computed by \<open>diffPatroniConfig\<close> leads to the intended configuration, the design check is exactly "merging
  the design changes nothing", and what holds of the snapshots of a cluster.
\<close>

section \<open>Objects as maps\<close>

fun wf_json :: "json \<Rightarrow> bool" where
  "wf_json (JObj ms) = (distinct (map fst ms) \<and> (\<forall>m \<in> set ms. wf_json (snd m)))"
| "wf_json (JArr vs) = (\<forall>v \<in> set vs. wf_json v)"
| "wf_json _ = True"

text \<open>No member of an object, at any depth, is null: Patroni cannot store one.\<close>

fun no_null :: "json \<Rightarrow> bool" where
  "no_null (JObj ms) = (\<forall>m \<in> set ms. no_null (snd m))"
| "no_null JNull = False"
| "no_null _ = True"

lemma map_of_canon: "map_of (map (\<lambda>m. (fst m, canon (snd m))) ms) k = map_option canon (map_of ms k)"
  by (induction ms) auto

lemma sort_members_eq:
  fixes a b :: "(string \<times> json) list"
  assumes "distinct (map fst a)" "distinct (map fst b)"
  shows "sort_key fst a = sort_key fst b \<longleftrightarrow> set a = set b"
proof
  assume "sort_key fst a = sort_key fst b"
  then show "set a = set b" by (metis set_sort)
next
  assume s: "set a = set b"
  show "sort_key fst a = sort_key fst b"
  proof (rule map_sorted_distinct_set_unique [where f = fst])
    show "inj_on fst (set (sort_key fst a) \<union> set (sort_key fst b))" using assms(1) s by (simp add: distinct_map)
    have "mset (map fst (sort_key fst xs)) = mset (map fst xs)" for xs :: "(string \<times> json) list"
      by simp
    then show "distinct (map fst (sort_key fst a))" "distinct (map fst (sort_key fst b))"
      using assms by (metis mset_eq_imp_distinct_iff)+
  qed (use s in simp_all)
qed

lemma canon_obj_eq:
  assumes "distinct (map fst a)" "distinct (map fst b)"
  shows "canon (JObj a) = canon (JObj b) \<longleftrightarrow> (\<forall>k. map_option canon (map_of a k) = map_option canon (map_of b k))"
proof -
  let ?f = "map (\<lambda>m. (fst m, canon (snd m)))"
  have d: "distinct (map fst (?f a))" "distinct (map fst (?f b))" using assms by (simp_all add: o_def)
  have "canon (JObj a) = canon (JObj b) \<longleftrightarrow> set (?f a) = set (?f b)" using sort_members_eq [OF d] by simp
  also have "\<dots> \<longleftrightarrow> map_of (?f a) = map_of (?f b)" using map_of_inject_set [OF d] by simp
  also have "\<dots> \<longleftrightarrow> (\<forall>k. map_option canon (map_of a k) = map_option canon (map_of b k))"
    by (simp add: fun_eq_iff map_of_canon)
  finally show ?thesis .
qed

lemma canon_obj_shape: "canon (JObj a) = canon v \<Longrightarrow> \<exists>b. v = JObj b"
  by (cases v) auto

lemma wf_member: "wf_json (JObj ms) \<Longrightarrow> map_of ms k = Some v \<Longrightarrow> wf_json v"
  by (auto dest: map_of_SomeD)

section \<open>Applying a patch\<close>

text \<open>JSON merge patch, RFC 7386: what a PATCH of the configuration does.\<close>

definition obj_members :: "json \<Rightarrow> members" where
  "obj_members v = (case v of JObj ms \<Rightarrow> ms | _ \<Rightarrow> [])"

function mergePatch :: "json \<Rightarrow> json \<Rightarrow> json" where
  "mergePatch t p = (case p of
      JObj pm \<Rightarrow> JObj (
        concat (map (\<lambda>(k, v). case map_of pm k of
            None \<Rightarrow> [(k, v)]
          | Some pv \<Rightarrow> if pv = JNull then [] else [(k, mergePatch v pv)]) (obj_members t))
        @ concat (map (\<lambda>(k, pv). if k \<in> fst ` set (obj_members t) \<or> pv = JNull then [] else [(k, mergePatch JNull pv)]) pm))
    | _ \<Rightarrow> p)"
  by auto
termination
  by (relation "measure (\<lambda>(_, p). size p)") (auto dest: map_of_SomeD simp: json_members_size)

declare mergePatch.simps [simp del]

lemma mergePatch_other: "(\<And>pm. p \<noteq> JObj pm) \<Longrightarrow> mergePatch t p = p"
  by (cases p) (auto simp: mergePatch.simps)

text \<open>Lists built member by member.\<close>

definition picked :: "(string \<Rightarrow> 'a \<Rightarrow> 'b option) \<Rightarrow> (string \<times> 'a) list \<Rightarrow> (string \<times> 'b) list" where
  "picked g xs = concat (map (\<lambda>(k, v). case g k v of None \<Rightarrow> [] | Some w \<Rightarrow> [(k, w)]) xs)"

lemma picked_Cons: "picked g ((k, v) # xs) = (case g k v of None \<Rightarrow> [] | Some w \<Rightarrow> [(k, w)]) @ picked g xs"
  by (simp add: picked_def)

lemma picked_keys: "fst ` set (picked g xs) \<subseteq> fst ` set xs"
  by (force simp: picked_def split: option.splits)

lemma picked_distinct: "distinct (map fst xs) \<Longrightarrow> distinct (map fst (picked g xs))"
proof (induction xs)
  case (Cons x xs)
  then show ?case using picked_keys [of g xs] by (cases x) (auto simp: picked_Cons split: option.splits)
qed (simp add: picked_def)

lemma map_of_picked: "distinct (map fst xs) \<Longrightarrow> map_of (picked g xs) k = Option.bind (map_of xs k) (g k)"
proof (induction xs)
  case (Cons x xs)
  obtain j v where x: "x = (j, v)" by (cases x)
  have "map_of (picked g xs) j = None" if "j \<notin> fst ` set xs"
    using that picked_keys [of g xs] by (auto simp: map_of_eq_None_iff)
  with Cons x show ?case by (auto simp: picked_Cons split: option.splits)
qed (simp add: picked_def)

lemma mergePatch_members:
  assumes "distinct (map fst (obj_members t))" "distinct (map fst pm)"
  shows "\<exists>ms. mergePatch t (JObj pm) = JObj ms \<and> distinct (map fst ms) \<and>
    (\<forall>k. map_of ms k = (case map_of pm k of
        None \<Rightarrow> map_of (obj_members t) k
      | Some pv \<Rightarrow> if pv = JNull then None
          else Some (mergePatch (case map_of (obj_members t) k of None \<Rightarrow> JNull | Some v \<Rightarrow> v) pv)))"
proof -
  let ?f = "\<lambda>k v. case map_of pm k of None \<Rightarrow> Some v | Some pv \<Rightarrow> if pv = JNull then None else Some (mergePatch v pv)"
  let ?g = "\<lambda>k pv. if k \<in> fst ` set (obj_members t) \<or> pv = JNull then None else Some (mergePatch JNull pv)"
  let ?ms = "picked ?f (obj_members t) @ picked ?g pm"
  have eq: "mergePatch t (JObj pm) = JObj ?ms"
    unfolding picked_def
    by (subst mergePatch.simps, simp, intro arg_cong2 [where f = "(@)"] arg_cong [where f = concat] map_cong refl)
      (auto split: option.splits)
  have g: "fst ` set (picked ?g pm) \<inter> fst ` set (obj_members t) = {}"
    by (auto simp: picked_def rev_image_eqI split: if_splits)
  have d: "distinct (map fst ?ms)"
    using picked_distinct [OF assms(1), of ?f] picked_distinct [OF assms(2), of ?g] picked_keys [of ?f "obj_members t"] g
    by auto
  have look: "map_of ?ms k = (case map_of pm k of
        None \<Rightarrow> map_of (obj_members t) k
      | Some pv \<Rightarrow> if pv = JNull then None
          else Some (mergePatch (case map_of (obj_members t) k of None \<Rightarrow> JNull | Some v \<Rightarrow> v) pv))" for k
  proof (cases "map_of (obj_members t) k")
    case None
    then have "k \<notin> fst ` set (obj_members t)" by (simp add: map_of_eq_None_iff)
    with None show ?thesis
      by (simp add: map_add_def map_of_picked [OF assms(1)] map_of_picked [OF assms(2)] split: option.split)
  next
    case (Some v)
    then have "k \<in> fst ` set (obj_members t)" by (metis domI dom_map_of_conv_image_fst)
    with Some show ?thesis
      by (simp add: map_add_def map_of_picked [OF assms(1)] map_of_picked [OF assms(2)] split: option.split)
  qed
  from eq d look show ?thesis by blast
qed

text \<open>A value without nulls, merged onto something that is no object, is that value.\<close>

lemma merge_fresh:
  "wf_json v \<Longrightarrow> no_null v \<Longrightarrow> obj_members t = [] \<Longrightarrow> canon (mergePatch t v) = canon v"
proof (induction v arbitrary: t)
  case (JObj pm)
  have d: "distinct (map fst (obj_members t))" "distinct (map fst pm)" using JObj.prems by simp_all
  obtain ms where ms: "mergePatch t (JObj pm) = JObj ms" "distinct (map fst ms)"
    "\<And>k. map_of ms k = (case map_of pm k of None \<Rightarrow> map_of (obj_members t) k
      | Some pv \<Rightarrow> if pv = JNull then None
          else Some (mergePatch (case map_of (obj_members t) k of None \<Rightarrow> JNull | Some v \<Rightarrow> v) pv))"
    using mergePatch_members [OF d] by blast
  have "map_option canon (map_of ms k) = map_option canon (map_of pm k)" for k
  proof (cases "map_of pm k")
    case None
    with ms(3) JObj.prems(3) show ?thesis by simp
  next
    case (Some v)
    then have m: "(k, v) \<in> set pm" by (rule map_of_SomeD)
    then have w: "wf_json v" "no_null v" using JObj.prems by auto
    then have "v \<noteq> JNull" by auto
    moreover have "canon (mergePatch JNull v) = canon v"
      using JObj.IH [of "(k, v)" v JNull] m w by (simp add: obj_members_def)
    ultimately show ?thesis using ms(3) Some JObj.prems(3) by simp
  qed
  with canon_obj_eq [OF ms(2) d(2)] show ?case unfolding ms(1) by blast
qed (simp_all add: mergePatch_other)

section \<open>The difference\<close>

definition diff_member :: "members \<Rightarrow> string \<Rightarrow> json \<Rightarrow> json option" where
  "diff_member cur k iv = (case map_of cur k of
       None \<Rightarrow> Some iv
     | Some cv \<Rightarrow> (case (iv, cv) of
           (JObj im, JObj cm) \<Rightarrow> (let sub = diffObjects cm im in if sub \<noteq> [] then Some (JObj sub) else None)
         | _ \<Rightarrow> if canon iv \<noteq> canon cv then Some iv else None))"

lemma diffObjects_picked:
  "diffObjects cur intended = picked (diff_member cur) intended
     @ map (\<lambda>k. (k, JNull)) (filter (\<lambda>k. k \<notin> fst ` set intended) (map fst cur))"
  unfolding picked_def
  by (subst diffObjects.simps, intro arg_cong2 [where f = "(@)"] arg_cong [where f = concat] map_cong refl)
    (auto simp: diff_member_def Let_def split: option.splits json.splits)

lemma map_of_const: "map_of (map (\<lambda>k. (k, c)) ks) k = (if k \<in> set ks then Some c else None)"
  by (induction ks) auto

lemma diffObjects_members:
  assumes "distinct (map fst cur)" "distinct (map fst intended)"
  shows "distinct (map fst (diffObjects cur intended))"
    "map_of (diffObjects cur intended) k = (case map_of intended k of
        None \<Rightarrow> if map_of cur k = None then None else Some JNull
      | Some iv \<Rightarrow> diff_member cur k iv)"
proof -
  let ?gone = "map (\<lambda>k. (k, JNull)) (filter (\<lambda>k. k \<notin> fst ` set intended) (map fst cur))"
  have gone: "map_of ?gone k = (if k \<in> fst ` set cur \<and> k \<notin> fst ` set intended then Some JNull else None)" for k
    by (simp add: map_of_const)
  show "distinct (map fst (diffObjects cur intended))"
    using picked_distinct [OF assms(2), of "diff_member cur"] picked_keys [of "diff_member cur" intended] assms(1)
    by (auto simp: diffObjects_picked o_def)
  show "map_of (diffObjects cur intended) k = (case map_of intended k of
        None \<Rightarrow> if map_of cur k = None then None else Some JNull
      | Some iv \<Rightarrow> diff_member cur k iv)"
  proof (cases "map_of intended k")
    case None
    then have n: "k \<notin> fst ` set intended" by (simp add: map_of_eq_None_iff)
    then have p: "map_of (picked (diff_member cur) intended) k = None"
      using picked_keys [of "diff_member cur" intended] by (auto simp: map_of_eq_None_iff)
    have c: "k \<in> fst ` set cur \<longleftrightarrow> map_of cur k \<noteq> None" by (simp add: map_of_eq_None_iff)
    show ?thesis by (simp add: diffObjects_picked map_add_def None p gone n c)
  next
    case (Some iv)
    then have "k \<in> fst ` set intended" by (metis domI dom_map_of_conv_image_fst)
    then have "map_of ?gone k = None" using gone by simp
    with Some show ?thesis by (simp add: diffObjects_picked map_add_def map_of_picked [OF assms(2)] split: option.split)
  qed
qed

lemma diff_empty:
  assumes "diffObjects cur intended = []" "distinct (map fst cur)" "distinct (map fst intended)"
    "\<And>k im cm. map_of intended k = Some (JObj im) \<Longrightarrow> map_of cur k = Some (JObj cm) \<Longrightarrow> diffObjects cm im = [] \<Longrightarrow> canon (JObj cm) = canon (JObj im)"
  shows "canon (JObj cur) = canon (JObj intended)"
proof -
  have "map_option canon (map_of cur k) = map_option canon (map_of intended k)" for k
  proof -
    have none: "(case map_of intended k of None \<Rightarrow> if map_of cur k = None then None else Some JNull
        | Some iv \<Rightarrow> diff_member cur k iv) = None"
      using diffObjects_members(2) [OF assms(2,3), of k] assms(1) by simp
    show ?thesis
    proof (cases "map_of intended k")
      case None
      with none show ?thesis by (simp split: if_splits)
    next
      case (Some iv)
      with none obtain cv where cv: "map_of cur k = Some cv" by (auto simp: diff_member_def split: option.splits)
      show ?thesis
      proof (cases "\<exists>im cm. iv = JObj im \<and> cv = JObj cm")
        case True
        with none Some cv assms(4) [of k] show ?thesis by (auto simp: diff_member_def Let_def split: if_splits)
      next
        case False
        with none Some cv show ?thesis by (auto simp: diff_member_def split: if_splits json.splits)
      qed
    qed
  qed
  with canon_obj_eq [OF assms(2,3)] show ?thesis by blast
qed

lemma diff_merge:
  "wf_json (JObj cur) \<Longrightarrow> wf_json (JObj intended) \<Longrightarrow> no_null (JObj intended) \<Longrightarrow>
   canon (mergePatch (JObj cur) (JObj (diffObjects cur intended))) = canon (JObj intended)"
proof (induction cur intended rule: diffObjects.induct)
  case (1 cur intended)
  have d: "distinct (map fst cur)" "distinct (map fst intended)" using "1.prems" by simp_all
  note dm = diffObjects_members [OF d]
  have dc: "distinct (map fst (obj_members (JObj cur)))" using d(1) by (simp add: obj_members_def)
  have oc: "obj_members (JObj cur) = cur" by (simp add: obj_members_def)
  from mergePatch_members [OF dc dm(1), unfolded oc] obtain ms where
    ms: "mergePatch (JObj cur) (JObj (diffObjects cur intended)) = JObj ms" "distinct (map fst ms)" and
    look: "\<And>k. map_of ms k = (case map_of (diffObjects cur intended) k of
        None \<Rightarrow> map_of cur k
      | Some pv \<Rightarrow> if pv = JNull then None
          else Some (mergePatch (case map_of cur k of None \<Rightarrow> JNull | Some v \<Rightarrow> v) pv))"
    by blast
  have "map_option canon (map_of ms k) = map_option canon (map_of intended k)" for k
  proof (cases "map_of intended k")
    case None
    then show ?thesis by (simp add: look dm(2))
  next
    case (Some iv)
    have w: "wf_json iv" "no_null iv" using "1.prems"(2,3) map_of_SomeD [OF Some] by auto
    then have nn: "iv \<noteq> JNull" by auto
    show ?thesis
    proof (cases "map_of cur k")
      case None
      have "canon (mergePatch JNull iv) = canon iv" using merge_fresh [OF w] by (simp add: obj_members_def)
      with Some None nn show ?thesis by (simp add: look dm(2) diff_member_def)
    next
      case cv: (Some cv)
      show ?thesis
      proof (cases "\<exists>im cm. iv = JObj im \<and> cv = JObj cm")
        case True
        then obtain im cm where o: "iv = JObj im" "cv = JObj cm" by blast
        have wc: "wf_json (JObj cm)" using "1.prems"(1) cv o(2) wf_member by metis
        have ih: "canon (mergePatch (JObj cm) (JObj (diffObjects cm im))) = canon (JObj im)"
          using "1.IH" [OF map_of_SomeD [OF Some] refl cv refl o] wc w o(1) by simp
        show ?thesis
        proof (cases "diffObjects cm im = []")
          case True
          have "mergePatch (JObj cm) (JObj []) = JObj cm"
            by (subst mergePatch.simps) (simp add: obj_members_def case_prod_unfold)
          with ih True have "canon cv = canon iv" using o by simp
          with Some cv o True show ?thesis by (simp add: look dm(2) diff_member_def)
        next
          case False
          with Some cv o ih show ?thesis by (simp add: look dm(2) diff_member_def Let_def)
        qed
      next
        case False
        have dmk: "diff_member cur k iv = (if canon iv \<noteq> canon cv then Some iv else None)"
          using False cv by (auto simp: diff_member_def split: json.splits)
        have "canon (mergePatch cv iv) = canon iv"
        proof (cases "\<exists>im. iv = JObj im")
          case True
          with False have "obj_members cv = []" by (auto simp: obj_members_def split: json.splits)
          with merge_fresh [OF w] show ?thesis by simp
        next
          case no: False
          then show ?thesis by (simp add: mergePatch_other)
        qed
        with Some cv nn dmk show ?thesis by (simp add: look dm(2))
      qed
    qed
  qed
  with canon_obj_eq [OF ms(2) d(2)] show ?case unfolding ms(1) by blast
qed

lemma diff_empty_iff:
  "wf_json (JObj cur) \<Longrightarrow> wf_json (JObj intended) \<Longrightarrow> diffObjects cur intended = [] \<longleftrightarrow> canon (JObj cur) = canon (JObj intended)"
proof (induction cur intended rule: diffObjects.induct)
  case (1 cur intended)
  have d: "distinct (map fst cur)" "distinct (map fst intended)" using "1.prems" by simp_all
  have ih: "diffObjects cm im = [] \<longleftrightarrow> canon (JObj cm) = canon (JObj im)"
    if "map_of intended k = Some (JObj im)" "map_of cur k = Some (JObj cm)" for k im cm
    using "1.IH" [OF map_of_SomeD [OF that(1)] refl that(2) refl refl refl] that wf_member "1.prems" by metis
  show ?case
  proof
    assume "diffObjects cur intended = []"
    then show "canon (JObj cur) = canon (JObj intended)" by (rule diff_empty [OF _ d]) (use ih in blast)
  next
    assume "canon (JObj cur) = canon (JObj intended)"
    then have eq: "\<And>k. map_option canon (map_of cur k) = map_option canon (map_of intended k)"
      using canon_obj_eq [OF d] by blast
    have "map_of (diffObjects cur intended) k = None" for k
    proof (cases "map_of intended k")
      case None
      with eq [of k] show ?thesis by (simp add: diffObjects_members [OF d])
    next
      case (Some iv)
      with eq [of k] obtain cv where cv: "map_of cur k = Some cv" "canon cv = canon iv" by (cases "map_of cur k") auto
      have "diff_member cur k iv = None"
      proof (cases "\<exists>im cm. iv = JObj im \<and> cv = JObj cm")
        case True
        then obtain im cm where o: "iv = JObj im" "cv = JObj cm" by blast
        with ih [of k im cm] Some cv have "diffObjects cm im = []" by simp
        with o cv show ?thesis by (simp add: diff_member_def)
      next
        case False
        with cv show ?thesis by (auto simp: diff_member_def split: json.splits)
      qed
      with Some show ?thesis by (simp add: diffObjects_members [OF d])
    qed
    then show "diffObjects cur intended = []" by (metis map_of_eq_empty_iff)
  qed
qed

section \<open>The design\<close>

text \<open>Whether a configuration has every designed leaf.\<close>

function holds :: "json \<Rightarrow> json \<Rightarrow> bool" where
  "holds d i = (case (d, i) of
      (JObj dm, JObj im) \<Rightarrow> list_all (\<lambda>(k, dv). case map_of im k of None \<Rightarrow> False | Some iv \<Rightarrow> holds dv iv) dm
    | _ \<Rightarrow> canon d = canon i)"
  by auto
termination
  by (relation "measure (\<lambda>(d, _). size d)") (auto simp: json_members_size)

declare holds.simps [simp del]

lemma holds_obj: "holds (JObj dm) (JObj im) \<longleftrightarrow> (\<forall>(k, dv) \<in> set dm. \<exists>iv. map_of im k = Some iv \<and> holds dv iv)"
  by (subst holds.simps) (auto simp: list_all_iff split: option.splits)

lemma holds_other: "\<not> (\<exists>dm im. d = JObj dm \<and> i = JObj im) \<Longrightarrow> holds d i \<longleftrightarrow> canon d = canon i"
  by (subst holds.simps) (auto split: json.splits)

lemma dotted_named: "k \<noteq> [] \<Longrightarrow> dotted pre k \<noteq> []"
  by (simp add: dotted_def)

lemma violation_iff:
  "pre \<noteq> [] \<or> [] \<notin> fst ` set designed \<Longrightarrow> findDesignViolation pre designed intended = [] \<longleftrightarrow> holds (JObj designed) (JObj intended)"
proof (induction designed arbitrary: pre intended rule: measure_induct_rule [where f = "size_list (size_prod (\<lambda>_. 0) size)"])
  case (less designed)
  show ?case
  proof (cases designed)
    case Nil
    then show ?thesis by (simp add: holds_obj)
  next
    case (Cons m rest)
    obtain k dv where m: "m = (k, dv)" by (cases m)
    have path: "dotted pre k \<noteq> []" using less.prems Cons m by (auto simp: dotted_def)
    have ihr: "findDesignViolation pre rest intended = [] \<longleftrightarrow> holds (JObj rest) (JObj intended)"
      by (rule less.IH) (use less.prems Cons m in auto)
    have split: "holds (JObj designed) (JObj intended) \<longleftrightarrow>
        (\<exists>iv. map_of intended k = Some iv \<and> holds dv iv) \<and> holds (JObj rest) (JObj intended)"
      by (simp add: holds_obj Cons m)
    show ?thesis
    proof (cases "map_of intended k")
      case None
      with path split show ?thesis by (simp add: Let_def Cons m)
    next
      case (Some iv)
      show ?thesis
      proof (cases "\<exists>dm im. dv = JObj dm \<and> iv = JObj im")
        case True
        then obtain dm im where o: "dv = JObj dm" "iv = JObj im" by blast
        have "findDesignViolation (dotted pre k) dm im = [] \<longleftrightarrow> holds dv iv"
          unfolding o by (rule less.IH) (use path o Cons m in auto)
        then show ?thesis unfolding split using Some o ihr by (simp add: Let_def Cons m)
      next
        case False
        have sub: "holds dv iv \<longleftrightarrow> canon dv = canon iv" by (rule holds_other [OF False])
        have "findDesignViolation pre designed intended =
            (if canon dv \<noteq> canon iv then dotted pre k else findDesignViolation pre rest intended)"
          using False Some by (auto simp: Cons m Let_def split: json.splits)
        then show ?thesis unfolding split using Some sub ihr path by simp
      qed
    qed
  qed
qed

text \<open>Merging.\<close>

definition merge_member :: "members \<Rightarrow> string \<Rightarrow> json \<Rightarrow> json" where
  "merge_member src k dv = (case map_of src k of
       None \<Rightarrow> dv
     | Some sv \<Rightarrow> (case (dv, sv) of (JObj dm, JObj sm) \<Rightarrow> JObj (deepMerge dm sm) | _ \<Rightarrow> sv))"

lemma deepMerge_eq:
  "deepMerge dst src = map (\<lambda>(k, dv). (k, merge_member src k dv)) dst @ filter (\<lambda>m. fst m \<notin> fst ` set dst) src"
  by (subst deepMerge.simps) (auto simp: merge_member_def split: option.splits)

lemma in_keys: "(k, v) \<in> set ms \<Longrightarrow> k \<in> fst ` set ms"
  by force

lemma deepMerge_keys: "distinct (map fst dst) \<Longrightarrow> distinct (map fst src) \<Longrightarrow> distinct (map fst (deepMerge dst src))"
  by (auto simp: deepMerge_eq distinct_map_filter o_def case_prod_unfold dest: in_keys)

lemma deepMerge_members:
  "map_of (deepMerge dst src) k = (case map_of dst k of None \<Rightarrow> map_of src k | Some dv \<Rightarrow> Some (merge_member src k dv))"
proof -
  have a: "map_of (map (\<lambda>(k, dv). (k, merge_member src k dv)) dst) k = map_option (merge_member src k) (map_of dst k)"
    by (induction dst) auto
  have b: "map_of (filter (\<lambda>m. fst m \<notin> fst ` set dst) src) k = (if k \<in> fst ` set dst then None else map_of src k)"
    by (induction src) (auto dest: in_keys)
  have c: "k \<in> fst ` set dst \<longleftrightarrow> map_of dst k \<noteq> None" by (simp add: map_of_eq_None_iff)
  show ?thesis
    by (cases "map_of dst k") (simp_all add: deepMerge_eq map_add_def a b c split: option.split)
qed

text \<open>A configuration has the design exactly when merging the design into it changes nothing.\<close>

lemma holds_iff_merge:
  "wf_json (JObj designed) \<Longrightarrow> wf_json (JObj intended) \<Longrightarrow>
   holds (JObj designed) (JObj intended) \<longleftrightarrow> canon (JObj (deepMerge intended designed)) = canon (JObj intended)"
proof (induction designed arbitrary: intended rule: measure_induct_rule [where f = "size_list (size_prod (\<lambda>_. 0) size)"])
  case (less designed)
  have d: "distinct (map fst designed)" "distinct (map fst intended)" using less.prems by simp_all
  have member: "(map_option canon (map_of (deepMerge intended designed) k) = map_option canon (map_of intended k)) \<longleftrightarrow>
      (case map_of designed k of None \<Rightarrow> True | Some dv \<Rightarrow> \<exists>iv. map_of intended k = Some iv \<and> holds dv iv)" for k
  proof (cases "map_of designed k")
    case None
    then show ?thesis by (simp add: deepMerge_members merge_member_def split: option.split)
  next
    case (Some dv)
    show ?thesis
    proof (cases "map_of intended k")
      case None
      with Some show ?thesis by (simp add: deepMerge_members)
    next
      case iv: (Some iv)
      show ?thesis
      proof (cases "\<exists>dm im. dv = JObj dm \<and> iv = JObj im")
        case True
        then obtain dm im where o: "dv = JObj dm" "iv = JObj im" by blast
        have "size_list (size_prod (\<lambda>_. 0) size) dm < size_list (size_prod (\<lambda>_. 0) size) designed"
          using json_members_size [OF map_of_SomeD [OF Some]] o by simp
        from less.IH [OF this, of im] have "holds dv iv \<longleftrightarrow> canon (JObj (deepMerge im dm)) = canon (JObj im)"
          using wf_member [OF less.prems(1) Some] wf_member [OF less.prems(2) iv] o by simp
        with Some iv o show ?thesis by (simp add: deepMerge_members merge_member_def)
      next
        case False
        then have "merge_member designed k iv = dv" using Some by (auto simp: merge_member_def split: json.splits)
        with Some iv holds_other [OF False] show ?thesis by (simp add: deepMerge_members)
      qed
    qed
  qed
  have "holds (JObj designed) (JObj intended) \<longleftrightarrow>
      (\<forall>k. case map_of designed k of None \<Rightarrow> True | Some dv \<Rightarrow> \<exists>iv. map_of intended k = Some iv \<and> holds dv iv)"
    unfolding holds_obj using map_of_eq_Some_iff [OF d(1)] by (auto split: option.splits)
  also have "\<dots> \<longleftrightarrow> (\<forall>k. map_option canon (map_of (deepMerge intended designed) k) = map_option canon (map_of intended k))"
    using member by simp
  also have "\<dots> \<longleftrightarrow> canon (JObj (deepMerge intended designed)) = canon (JObj intended)"
    using canon_obj_eq [OF deepMerge_keys [OF d(2,1)] d(2)] by simp
  finally show ?case .
qed

lemma holds_refl: "wf_json v \<Longrightarrow> holds v v"
proof (induction v rule: measure_induct_rule [where f = size])
  case (less v)
  show ?case
  proof (cases "\<exists>ms. v = JObj ms")
    case True
    then obtain ms where v: "v = JObj ms" by blast
    have "\<exists>iv. map_of ms k = Some iv \<and> holds w iv" if m: "(k, w) \<in> set ms" for k w
    proof -
      have "map_of ms k = Some w" using m less.prems v by simp
      moreover have "holds w w" using less.IH [of w] m less.prems v json_members_size [OF m] by auto
      ultimately show ?thesis by blast
    qed
    then show ?thesis unfolding v holds_obj by blast
  next
    case False
    then show ?thesis by (subst holds_other) auto
  qed
qed

text \<open>What holds a merged design holds what was merged into it.\<close>

lemma holds_merged:
  "wf_json (JObj new) \<Longrightarrow> wf_json (JObj base) \<Longrightarrow> holds (JObj (deepMerge base new)) (JObj i) \<Longrightarrow> holds (JObj new) (JObj i)"
proof (induction new arbitrary: base i rule: measure_induct_rule [where f = "size_list (size_prod (\<lambda>_. 0) size)"])
  case (less new)
  have d: "distinct (map fst new)" "distinct (map fst base)" using less.prems by simp_all
  show ?case
    unfolding holds_obj
  proof clarify
    fix k dv assume m: "(k, dv) \<in> set new"
    then have look: "map_of new k = Some dv" using d(1) by simp
    have w: "wf_json dv" using wf_member [OF less.prems(1) look] .
    obtain mv where mv: "map_of (deepMerge base new) k = Some mv"
      by (cases "map_of base k") (auto simp: deepMerge_members look)
    then obtain iv where iv: "map_of i k = Some iv" "holds mv iv"
      using less.prems(3) map_of_SomeD [OF mv] unfolding holds_obj by fastforce
    have "holds dv iv"
    proof (cases "\<exists>bm dm. map_of base k = Some (JObj bm) \<and> dv = JObj dm")
      case True
      then obtain bm dm where o: "map_of base k = Some (JObj bm)" "dv = JObj dm" by blast
      with mv look have mv': "mv = JObj (deepMerge bm dm)" by (simp add: deepMerge_members merge_member_def)
      show ?thesis
      proof (cases "\<exists>im. iv = JObj im")
        case True
        then obtain im where im: "iv = JObj im" by blast
        have "size_list (size_prod (\<lambda>_. 0) size) dm < size_list (size_prod (\<lambda>_. 0) size) new"
          using json_members_size [OF m] o by simp
        from less.IH [OF this, of bm im] show ?thesis
          using w wf_member [OF less.prems(2) o(1)] iv(2) o im mv' by simp
      next
        case False
        with iv(2) mv' have "canon (JObj (deepMerge bm dm)) = canon iv" by (simp add: holds_other)
        with False canon_obj_shape show ?thesis by metis
      qed
    next
      case False
      then have "mv = dv"
        using mv look by (auto simp: deepMerge_members merge_member_def split: option.splits json.splits)
      with iv show ?thesis by simp
    qed
    with iv(1) show "\<exists>iv. map_of i k = Some iv \<and> holds dv iv" by blast
  qed
qed

lemma wf_deepMerge: "wf_json (JObj base) \<Longrightarrow> wf_json (JObj new) \<Longrightarrow> wf_json (JObj (deepMerge base new))"
proof (induction new arbitrary: base rule: measure_induct_rule [where f = "size_list (size_prod (\<lambda>_. 0) size)"])
  case (less new)
  have d: "distinct (map fst new)" "distinct (map fst base)" using less.prems by simp_all
  have "wf_json v" if m: "(k, v) \<in> set (deepMerge base new)" for k v
  proof -
    have look: "map_of (deepMerge base new) k = Some v" using m deepMerge_keys [OF d(2,1)] by simp
    show ?thesis
    proof (cases "\<exists>bm dm. map_of base k = Some (JObj bm) \<and> map_of new k = Some (JObj dm)")
      case True
      then obtain bm dm where o: "map_of base k = Some (JObj bm)" "map_of new k = Some (JObj dm)" by blast
      have "size_list (size_prod (\<lambda>_. 0) size) dm < size_list (size_prod (\<lambda>_. 0) size) new"
        using json_members_size [OF map_of_SomeD [OF o(2)]] by simp
      note smaller = this
      have v: "v = JObj (deepMerge bm dm)" using look o by (simp add: deepMerge_members merge_member_def)
      show ?thesis unfolding v
        by (rule less.IH [OF smaller wf_member [OF less.prems(1) o(1)] wf_member [OF less.prems(2) o(2)]])
    next
      case False
      then have "map_of base k = Some v \<or> map_of new k = Some v"
        using look by (auto simp: deepMerge_members merge_member_def split: option.splits json.splits)
      then show ?thesis using wf_member less.prems by blast
    qed
  qed
  then show ?case using deepMerge_keys [OF d(2,1)] by force
qed

section \<open>Properties\<close>

text \<open>
  C8: the PATCH the conductor computes for an intended configuration, merged into the current one as Patroni merges,
  gives the intended configuration; no PATCH is sent exactly when the two are already the same.
\<close>

theorem deploy_patch_reaches_intended:
  assumes "wf_json (JObj cur)" and "wf_json (JObj intended)" and "no_null (JObj intended)"
  shows "case diffPatroniConfig cur intended of
      None \<Rightarrow> canon (JObj cur) = canon (JObj intended)
    | Some patch \<Rightarrow> canon (JObj cur) \<noteq> canon (JObj intended) \<and> canon (mergePatch (JObj cur) (JObj patch)) = canon (JObj intended)"
  using diff_merge [OF assms] diff_empty_iff [OF assms(1,2)] by (simp add: diffPatroniConfig_def Let_def)

definition cur_example :: members where
  "cur_example = [(''ttl'', JNum 30), (''postgresql'', JObj [(''parameters'', JObj [(''archive_mode'', JStr ''on''), (''x'', JNum 1)])])]"

definition intended_example :: members where
  "intended_example = [(''postgresql'', JObj [(''parameters'', JObj [(''archive_mode'', JStr ''on''), (''y'', JNum 2)])])]"

theorem deploy_patch_reaches_intended_witness:
  "\<exists>patch. diffPatroniConfig cur_example intended_example = Some patch \<and>
     canon (mergePatch (JObj cur_example) (JObj patch)) = canon (JObj intended_example)"
proof -
  have w: "wf_json (JObj cur_example)" "wf_json (JObj intended_example)" "no_null (JObj intended_example)"
    by (simp_all add: cur_example_def intended_example_def)
  have "diffPatroniConfig cur_example intended_example \<noteq> None" by code_simp
  then show ?thesis using deploy_patch_reaches_intended [OF w] by (auto split: option.splits)
qed

text \<open>
  C18: the check of a user's edit reports no violation exactly when merging the conductor's design into the edited
  configuration would change nothing of it.
\<close>

theorem edit_check_is_design_merge:
  assumes "wf_json (JObj designed)" and "wf_json (JObj intended)" and "[] \<notin> fst ` set designed"
  shows "findDesignViolation [] designed intended = [] \<longleftrightarrow> canon (JObj (deepMerge intended designed)) = canon (JObj intended)"
  using violation_iff [of "[]" designed intended] holds_iff_merge [OF assms(1,2)] assms(3) by simp

theorem edit_check_is_design_merge_witness:
  "findDesignViolation [] [(''ttl'', JNum 30)] cur_example = [] \<longleftrightarrow> canon (JObj (deepMerge cur_example [(''ttl'', JNum 30)])) = canon (JObj cur_example)"
proof -
  have "wf_json (JObj [(''ttl'', JNum 30)])" "wf_json (JObj cur_example)" "[] \<notin> fst ` set [(''ttl'', JNum 30 :: json)]"
    by (simp_all add: cur_example_def)
  from edit_check_is_design_merge [OF this] show ?thesis .
qed

text \<open>
  once an operation has added its fields to a cluster's design, every edit that passes the check has those fields as
  the operation set them, whatever the design held before.
\<close>

theorem designed_fields_enforced:
  assumes "wf_json (JObj new)" and "wf_json (JObj base)" and "ds c = Some (Encodes (JObj base))"
    and "[] \<notin> fst ` set new \<union> fst ` set base" and "wf_json (JObj intended)"
    and "Upsert_design c (Encodes (JObj new)) ds c = Some (Encodes (JObj design))" and "findDesignViolation [] design intended = []"
  shows "canon (JObj (deepMerge intended new)) = canon (JObj intended)"
proof -
  have design: "design = deepMerge base new" using assms(3,6) by (simp add: Upsert_design_def members_of_def Let_def)
  have "[] \<notin> fst ` set design" using assms(4) unfolding design deepMerge_eq by force
  with violation_iff [of "[]" design intended] assms(7) have "holds (JObj design) (JObj intended)" by simp
  with holds_merged [OF assms(1,2)] design have "holds (JObj new) (JObj intended)" by blast
  with holds_iff_merge [OF assms(1,5)] show ?thesis by simp
qed

definition archive_fields :: members where
  "archive_fields = [(''postgresql'', JObj [(''parameters'', JObj [(''archive_mode'', JStr ''on''), (''archive_command'', JStr ''c'')])])]"

theorem designed_fields_enforced_witness:
  "canon (JObj (deepMerge (deepMerge cur_example archive_fields) archive_fields)) = canon (JObj (deepMerge cur_example archive_fields))"
proof (rule designed_fields_enforced [where c = 0 and base = "[(''ttl'', JNum 30)]" and ds = "[0 \<mapsto> Encodes (JObj [(''ttl'', JNum 30)])]"
    and design = "deepMerge [(''ttl'', JNum 30)] archive_fields"])
  show "wf_json (JObj archive_fields)" "wf_json (JObj [(''ttl'', JNum 30)])"
    by (simp_all add: archive_fields_def)
  show "[0 \<mapsto> Encodes (JObj [(''ttl'', JNum 30)])] 0 = Some (Encodes (JObj [(''ttl'', JNum 30)]))" by simp
  show "[] \<notin> fst ` set archive_fields \<union> fst ` set [(''ttl'', JNum 30 :: json)]" by (simp add: archive_fields_def)
  show "wf_json (JObj (deepMerge cur_example archive_fields))"
    by (rule wf_deepMerge) (simp_all add: cur_example_def archive_fields_def)
  show "Upsert_design 0 (Encodes (JObj archive_fields)) [0 \<mapsto> Encodes (JObj [(''ttl'', JNum 30)])] 0
      = Some (Encodes (JObj (deepMerge [(''ttl'', JNum 30)] archive_fields)))"
    by (simp add: Upsert_design_def members_of_def archive_fields_def)
  show "findDesignViolation [] (deepMerge [(''ttl'', JNum 30)] archive_fields) (deepMerge cur_example archive_fields) = []"
    by code_simp
qed

end
