(* ===== verification/PatroniSnapshots.thy ===== *)
theory PatroniSnapshots
  imports PatroniConfig
begin

text \<open>
  The history of a cluster's Patroni configuration (\<open>PatroniConfig\<close>): at most one snapshot of a cluster is active
  whatever the conductor records, the configuration recorded after a change is the active one, and restoring a snapshot
  that no longer exists leaves the cluster without one.
\<close>

lemma one_active_filter: "one_active tbl \<Longrightarrow> one_active (filter P tbl)"
proof -
  have "filter sp_IsActive (filter P tbl) = filter P (filter sp_IsActive tbl)" by (simp add: conj_commute)
  moreover assume "one_active tbl"
  ultimately show ?thesis by (simp only: one_active_def distinct_map_filter)
qed

lemma one_active_Insert: "one_active tbl \<Longrightarrow> one_active (Insert_snapshot i t c source config tbl)"
  by (simp add: one_active_def Insert_snapshot_def new_snapshot_def)

lemma filter_clear_active: "filter sp_IsActive (clear_active c tbl) = filter (\<lambda>s. sp_ClusterID s \<noteq> c) (filter sp_IsActive tbl)"
  by (induction tbl) (auto simp: clear_active_def)

lemma clear_active_none: "r \<in> set (clear_active c tbl) \<Longrightarrow> \<not> (sp_ClusterID r = c \<and> sp_IsActive r)"
proof (induction tbl)
  case (Cons s tbl)
  then show ?case by (cases "sp_ClusterID s = c") (auto simp: clear_active_def)
qed (simp add: clear_active_def)

lemma one_active_clear: "one_active tbl \<Longrightarrow> one_active (clear_active c tbl)"
  unfolding one_active_def filter_clear_active by (rule distinct_map_filter)

lemma one_active_InsertActive:
  assumes "one_active tbl" shows "one_active (InsertActive i t c source config tbl)"
proof -
  have "filter sp_IsActive (InsertActive i t c source config tbl)
      = filter (\<lambda>s. sp_ClusterID s \<noteq> c) (filter sp_IsActive tbl) @ [new_snapshot i t c source config True]"
    by (simp add: InsertActive_def filter_clear_active new_snapshot_def)
  moreover have "distinct (map sp_ClusterID (filter (\<lambda>s. sp_ClusterID s \<noteq> c) (filter sp_IsActive tbl)))"
    using assms unfolding one_active_def by (rule distinct_map_filter)
  moreover have "sp_ClusterID (new_snapshot i t c source config True) = c" by (simp add: new_snapshot_def)
  ultimately show ?thesis unfolding one_active_def by auto
qed

lemma one_active_SetActive: "one_active tbl \<Longrightarrow> one_active (SetActive i c tbl)"
  by (simp add: SetActive_def Let_def)

lemma one_active_prune: "one_active tbl \<Longrightarrow> one_active (prune_if ok c tbl)"
  by (simp add: prune_if_def Prune_def one_active_filter)

lemmas one_active_steps = one_active_prune one_active_Insert one_active_InsertActive one_active_SetActive

lemma one_active_record: "one_active tbl \<Longrightarrow> one_active (recordPostChangeSnapshot e c source tbl)"
  by (simp add: recordPostChangeSnapshot_def one_active_steps split: option.split)

text \<open>
  whatever Patroni and the database answer, taking a snapshot before a change, recording the one after it and
  finishing a deploy or a revert keep at most one active snapshot per cluster.
\<close>

theorem snapshots_one_active:
  assumes "one_active tbl"
  shows "one_active (snapshotPatroniConfig e c source tbl) \<and> one_active (recordPostChangeSnapshot e c source tbl) \<and>
    one_active (finalizeSnapshot e c source snapshotID intended tbl)"
proof (intro conjI)
  show "one_active (snapshotPatroniConfig e c source tbl)"
    using assms by (simp add: snapshotPatroniConfig_def insert_and_prune_def one_active_steps split: option.split list.split)
  show "one_active (recordPostChangeSnapshot e c source tbl)" by (rule one_active_record [OF assms])
  show "one_active (finalizeSnapshot e c source snapshotID intended tbl)"
    using assms by (simp add: finalizeSnapshot_def setActiveForDesigned_def one_active_steps one_active_record split: option.split list.split)
qed

definition snap_example :: "snapshot list" where
  "snap_example = [new_snapshot 1 10 7 ''user-edit'' (Encodes (JObj [])) True, new_snapshot 2 20 8 ''user-edit'' (Encodes (JObj [])) True]"

definition snap_env_example :: snap_env where
  "snap_env_example = \<lparr>se_Get = Rest_reply 200 (Encodes (JObj [(''ttl'', JNum 30)])), se_List = True, se_Insert = True, se_Prune = True,
     se_NewID = 3, se_Now = 30\<rparr>"

theorem snapshots_one_active_witness:
  "one_active (snapshotPatroniConfig snap_env_example 7 ''user-edit'' snap_example) \<and>
   one_active (recordPostChangeSnapshot snap_env_example 7 ''user-edit'' snap_example) \<and>
   one_active (finalizeSnapshot snap_env_example 7 ''user-edit'' (Some 2) Malformed snap_example)"
proof -
  have "one_active snap_example" by (simp add: snap_example_def one_active_def new_snapshot_def)
  from snapshots_one_active [OF this] show ?thesis by blast
qed

text \<open>The newest row of a cluster is among the ten that are listed and kept.\<close>

lemma newest_listed:
  assumes "s \<in> set tbl" "sp_ClusterID s = c" "\<And>r. r \<in> set tbl \<Longrightarrow> sp_ClusterID r = c \<Longrightarrow> r \<noteq> s \<Longrightarrow> sp_CapturedAt r < sp_CapturedAt s"
  shows "s \<in> set (List_snapshots tbl c)"
proof -
  let ?l = "snapshots_of tbl c"
  have s: "s \<in> set ?l" using assms(1,2) by (simp add: snapshots_of_def)
  then obtain h t where l: "?l = h # t" by (cases ?l) auto
  have "sorted (map (\<lambda>s. - sp_CapturedAt s) ?l)" by (simp add: snapshots_of_def)
  with s l have le: "sp_CapturedAt s \<le> sp_CapturedAt h" by auto
  have "h \<in> set ?l" using l by simp
  then have "h \<in> set tbl" "sp_ClusterID h = c" by (simp_all add: snapshots_of_def)
  with le assms(3) [of h] have "h = s" by (metis linorder_not_less)
  then show ?thesis using l by (simp add: List_snapshots_def)
qed

text \<open>
  after a change that Patroni confirms and the database stores, the cluster's active snapshot is the new one, with the
  configuration Patroni returned.
\<close>

theorem recorded_snapshot_is_active:
  assumes "se_Get e = Rest_reply 200 body" and "se_Insert e" and "\<And>r. r \<in> set tbl \<Longrightarrow> sp_CapturedAt r < se_Now e"
  shows "GetActive (recordPostChangeSnapshot e c source tbl) c = Some (new_snapshot (se_NewID e) (se_Now e) c source body True)"
proof -
  let ?s = "new_snapshot (se_NewID e) (se_Now e) c source body True"
  let ?t = "clear_active c tbl @ [?s]"
  have none: "\<not> (sp_ClusterID r = c \<and> sp_IsActive r)" if "r \<in> set (clear_active c tbl)" for r
    using clear_active_none [OF that] .
  have "?s \<in> set (List_snapshots ?t c)"
  proof (rule newest_listed)
    fix r assume "r \<in> set ?t" "sp_ClusterID r = c" "r \<noteq> ?s"
    then have "r \<in> set (clear_active c tbl)" by simp
    then obtain q where "q \<in> set tbl" "sp_CapturedAt r = sp_CapturedAt q" by (auto simp: clear_active_def)
    with assms(3) [of q] show "sp_CapturedAt r < sp_CapturedAt ?s" by (simp add: new_snapshot_def)
  qed (simp_all add: new_snapshot_def)
  then have keep: "sp_ID ?s \<in> sp_ID ` set (List_snapshots ?t c)" by simp
  have f: "find (\<lambda>s. sp_ClusterID s = c \<and> sp_IsActive s) (filter P (clear_active c tbl) @ [?s]) = Some ?s" for P
  proof -
    have n: "find (\<lambda>s. sp_ClusterID s = c \<and> sp_IsActive s) (filter P (clear_active c tbl)) = None"
      using none by (auto simp: find_None_iff)
    have app: "find Q xs = None \<Longrightarrow> find Q (xs @ ys) = find Q ys" for Q :: "snapshot \<Rightarrow> bool" and xs ys
      by (induction xs) (auto split: if_splits)
    show ?thesis using app [OF n, of "[?s]"] by (simp add: new_snapshot_def)
  qed
  have "recordPostChangeSnapshot e c source tbl = prune_if (se_Prune e) c ?t"
    using assms(1,2) by (simp add: recordPostChangeSnapshot_def rest_200_def InsertActive_def)
  moreover have "\<exists>P. prune_if (se_Prune e) c ?t = filter P (clear_active c tbl) @ [?s]"
    using keep by (cases "se_Prune e") (auto simp: prune_if_def Prune_def intro: exI [of _ "\<lambda>_. True"])
  ultimately show ?thesis using f by (auto simp: GetActive_def)
qed

theorem recorded_snapshot_is_active_witness:
  "GetActive (recordPostChangeSnapshot snap_env_example 7 ''user-edit'' snap_example) 7
     = Some (new_snapshot 3 30 7 ''user-edit'' (Encodes (JObj [(''ttl'', JNum 30)])) True)"
proof -
  have e: "se_Get snap_env_example = Rest_reply 200 (Encodes (JObj [(''ttl'', JNum 30)]))" "se_Insert snap_env_example"
    by (simp_all add: snap_env_example_def)
  have "\<And>r. r \<in> set snap_example \<Longrightarrow> sp_CapturedAt r < se_Now snap_env_example"
    by (auto simp: snap_env_example_def snap_example_def new_snapshot_def)
  from recorded_snapshot_is_active [OF e this, where c = 7 and source = "''user-edit''"] show ?thesis
    by (simp add: snap_env_example_def)
qed

text \<open>
  a deploy that names a snapshot which has been pruned since (or never existed) clears the active flag and sets no
  other: the cluster is left without an active snapshot.
\<close>

theorem unknown_snapshot_clears_active:
  assumes "se_Insert e" and "i \<notin> sp_ID ` set tbl" and "one_active tbl"
  shows "GetActive (finalizeSnapshot e c source (Some i) intended tbl) c = None"
proof -
  have "map (\<lambda>s. if sp_ID s = i then s\<lparr>sp_IsActive := True\<rparr> else s) (clear_active c tbl) = clear_active c tbl"
  proof (rule map_idI)
    fix s assume "s \<in> set (clear_active c tbl)"
    then obtain r where "r \<in> set tbl" "sp_ID s = sp_ID r" by (auto simp: clear_active_def)
    with assms(2) show "(if sp_ID s = i then s\<lparr>sp_IsActive := True\<rparr> else s) = s" by auto
  qed
  then have "SetActive i c tbl = clear_active c tbl" using one_active_clear [OF assms(3), of c] by (simp add: SetActive_def)
  with assms(1) have eq: "finalizeSnapshot e c source (Some i) intended tbl = prune_if (se_Prune e) c (clear_active c tbl)"
    by (simp add: finalizeSnapshot_def)
  have "set (prune_if (se_Prune e) c (clear_active c tbl)) \<subseteq> set (clear_active c tbl)" by (auto simp: prune_if_def Prune_def)
  then show ?thesis unfolding eq GetActive_def find_None_iff using clear_active_none by blast
qed

theorem unknown_snapshot_clears_active_witness:
  "GetActive snap_example 7 \<noteq> None \<and> GetActive (finalizeSnapshot snap_env_example 7 ''user-edit'' (Some 9) Malformed snap_example) 7 = None"
proof
  show "GetActive snap_example 7 \<noteq> None" by (simp add: GetActive_def snap_example_def new_snapshot_def)
  show "GetActive (finalizeSnapshot snap_env_example 7 ''user-edit'' (Some 9) Malformed snap_example) 7 = None"
    by (rule unknown_snapshot_clears_active)
      (simp_all add: snap_env_example_def snap_example_def new_snapshot_def one_active_def)
qed

end
