(* ===== verification/PatroniDeploy.thy ===== *)
theory PatroniDeploy
  imports PatroniConfig Failover Oplock
begin

text \<open>
  Changing the Patroni configuration of a cluster (\<open>api/handlers/patroni.go\<close>): the handler that accepts an edit or a
  revert, and the background deploy that patches the configuration, restarts the nodes that need it while Patroni is
  paused, and resumes it.  The calls the deploy makes are recorded in order with whether Patroni accepted them.
\<close>

section \<open>Patroni's health\<close>

text \<open>\<open>json.Unmarshal\<close> into a struct with \<open>state\<close>, \<open>role\<close> and \<open>pending_restart\<close>: an absent or null member keeps its zero
  value, one of another type is an error.\<close>

record health =
  hl_State :: string
  hl_Role :: string
  hl_PendingRestart :: bool

definition str_member :: "string \<Rightarrow> members \<Rightarrow> string option" where
  "str_member k ms = (case map_of ms k of None \<Rightarrow> Some [] | Some JNull \<Rightarrow> Some [] | Some (JStr s) \<Rightarrow> Some s | _ \<Rightarrow> None)"

definition bool_member :: "string \<Rightarrow> members \<Rightarrow> bool option" where
  "bool_member k ms = (case map_of ms k of None \<Rightarrow> Some False | Some JNull \<Rightarrow> Some False | Some (JBool b) \<Rightarrow> Some b | _ \<Rightarrow> None)"

definition health_of :: "raw_message \<Rightarrow> health option" where
  "health_of r = Option.bind (members_of r) (\<lambda>ms.
     Option.bind (str_member ''state'' ms) (\<lambda>st.
     Option.bind (str_member ''role'' ms) (\<lambda>ro.
     Option.bind (bool_member ''pending_restart'' ms) (\<lambda>p.
       Some \<lparr>hl_State = st, hl_Role = ro, hl_PendingRestart = p\<rparr>))))"

text \<open>The poll for pending restarts decodes only that member.\<close>

definition pending_of :: "raw_message \<Rightarrow> bool option" where
  "pending_of r = Option.bind (members_of r) (bool_member ''pending_restart'')"

section \<open>The surroundings of a deploy\<close>

record deploy_env =
  dv_Snap :: snap_env
  dv_FinalSnap :: snap_env
  dv_Get :: rest_answer
  dv_DesignQuery :: bool
  dv_Patch :: rest_answer
  dv_Pause :: rest_answer
  dv_Resume :: rest_answer
  dv_Health :: "nat \<Rightarrow> string \<Rightarrow> rest_answer"
  dv_Rounds :: nat
  dv_Restart :: "string \<Rightarrow> rest_answer"
  dv_After :: "string \<Rightarrow> nat \<Rightarrow> rest_answer"
  dv_AfterRounds :: "string \<Rightarrow> nat"

record patch_request =
  pr_Config :: "json option"
  pr_Source :: string
  pr_SnapshotID :: "uuid option"

datatype deploy_act = DPatch members bool | DPause bool | DRestart string bool | DResume bool

record deploy_job =
  dj_Status :: string
  dj_Error :: string
  dj_Paused :: bool

definition set_job :: "string \<Rightarrow> string \<Rightarrow> bool \<Rightarrow> deploy_job" where
  "set_job status err paused = \<lparr>dj_Status = status, dj_Error = err, dj_Paused = paused\<rparr>"

section \<open>Polling\<close>

text \<open>One round over the nodes; \<open>pending\<close> are the host names not yet cleared.\<close>

definition poll_node :: "(string \<Rightarrow> rest_answer) \<Rightarrow> node \<Rightarrow> string list \<Rightarrow> string list" where
  "poll_node answer n pending =
     (if nd_Hostname n \<notin> set pending then pending
      else case rest_200 (answer (ip_of n)) of
        None \<Rightarrow> pending
      | Some body \<Rightarrow> if pending_of body = Some False then removeAll (nd_Hostname n) pending else pending)"

text \<open>\<open>rounds\<close> is how many rounds begin before the deadline.\<close>

fun poll_rounds :: "deploy_env \<Rightarrow> node list \<Rightarrow> nat \<Rightarrow> nat \<Rightarrow> string list \<Rightarrow> string list" where
  "poll_rounds E nodes k 0 pending = pending"
| "poll_rounds E nodes k (Suc rounds) pending =
     (let pending' = fold (poll_node (dv_Health E k)) nodes pending
      in if pending' = [] then [] else poll_rounds E nodes (Suc k) rounds pending')"

definition pollPendingRestart :: "deploy_env \<Rightarrow> node list \<Rightarrow> string list" where
  "pollPendingRestart E nodes = poll_rounds E nodes 0 (dv_Rounds E) (remdups (map nd_Hostname nodes))"

definition restarted_as :: "string \<Rightarrow> rest_answer \<Rightarrow> bool" where
  "restarted_as role a = (case rest_200 a of
      None \<Rightarrow> False
    | Some body \<Rightarrow> (case health_of body of
        None \<Rightarrow> False
      | Some h \<Rightarrow> hl_State h = ''running'' \<and> \<not> hl_PendingRestart h \<and> hl_Role h = role))"

definition restartAndWait :: "deploy_env \<Rightarrow> string \<Rightarrow> string \<Rightarrow> bool" where
  "restartAndWait E ip role =
     (rest_ok (dv_Restart E ip) \<and> list_ex (\<lambda>k. restarted_as role (dv_After E ip k)) [0..<dv_AfterRounds E ip])"

section \<open>The deploy\<close>

definition restart_act :: "deploy_env \<Rightarrow> string \<Rightarrow> deploy_act" where
  "restart_act E ip = DRestart ip (rest_ok (dv_Restart E ip))"

text \<open>The restarts: the pending replicas in order, then the primary if none of them failed.\<close>

definition restart_nodes :: "deploy_env \<Rightarrow> node list \<Rightarrow> string \<Rightarrow> string list \<Rightarrow> deploy_act list \<times> bool" where
  "restart_nodes E nodes primaryIP pending =
     (let affected = filter (\<lambda>n. nd_Hostname n \<in> set pending) nodes;
          replicas = map ip_of (filter (\<lambda>n. ip_of n \<noteq> primaryIP) affected);
          primary = filter (\<lambda>n. ip_of n = primaryIP) affected;
          failed = list_ex (\<lambda>ip. \<not> restartAndWait E ip ''replica'') replicas
      in if failed \<or> primary = [] then (map (restart_act E) replicas, failed)
         else (map (restart_act E) replicas @ [restart_act E primaryIP], \<not> restartAndWait E primaryIP ''primary''))"

text \<open>The configuration to reach: the edit, or the design when reverting.\<close>

definition intended_config :: "deploy_env \<Rightarrow> designs \<Rightarrow> uuid \<Rightarrow> patch_request \<Rightarrow> string + raw_message" where
  "intended_config E ds c rq =
     (if pr_Source rq = ''user-revert'' then
        (case (if dv_DesignQuery E then ds c else None) of
           None \<Rightarrow> Inl ''failed to fetch designed config''
         | Some r \<Rightarrow> if members_of r = None then Inl ''failed to parse designed config'' else Inr r)
      else (case pr_Config rq of
           None \<Rightarrow> Inl ''failed to parse request config''
         | Some v \<Rightarrow> if members_of (Encodes v) = None then Inl ''failed to parse request config'' else Inr (Encodes v)))"

text \<open>What follows a PATCH that Patroni accepted.\<close>

definition finish_deploy :: "deploy_env \<Rightarrow> uuid \<Rightarrow> node list \<Rightarrow> string \<Rightarrow> patch_request \<Rightarrow> raw_message \<Rightarrow> snapshot list
    \<Rightarrow> deploy_job \<times> deploy_act list \<times> snapshot list" where
  "finish_deploy E c nodes primaryIP rq intended snaps =
     (let done' = finalizeSnapshot (dv_FinalSnap E) c (pr_Source rq) (pr_SnapshotID rq) intended snaps;
          pending = pollPendingRestart E nodes
      in if pending = [] then (set_job ''ok'' [] False, [], done')
         else if \<not> rest_ok (dv_Pause E) then
           (set_job ''fail'' ''failed to pause Patroni before restart'' False, [DPause False], snaps)
         else (case restart_nodes E nodes primaryIP pending of
             (acts, True) \<Rightarrow>
               (set_job ''fail'' ''PostgreSQL restart failed: cluster left in paused state'' True, DPause True # acts, snaps)
           | (acts, False) \<Rightarrow>
               if \<not> rest_ok (dv_Resume E) then
                 (set_job ''fail'' ''cluster restarted but Patroni resume failed: cluster left in paused state'' True,
                  DPause True # acts @ [DResume False], snaps)
               else (set_job ''ok'' [] False, DPause True # acts @ [DResume True], done')))"

definition runPatroniDeploy :: "deploy_env \<Rightarrow> designs \<Rightarrow> uuid \<Rightarrow> node list \<Rightarrow> string \<Rightarrow> patch_request \<Rightarrow> snapshot list
    \<Rightarrow> deploy_job \<times> deploy_act list \<times> snapshot list" where
  "runPatroniDeploy E ds c nodes primaryIP rq snaps0 =
     (let snaps = snapshotPatroniConfig (dv_Snap E) c (pr_Source rq) snaps0 in
      case rest_200 (dv_Get E) of
        None \<Rightarrow> (set_job ''fail'' ''failed to fetch current Patroni config'' False, [], snaps)
      | Some body \<Rightarrow> (case members_of body of
          None \<Rightarrow> (set_job ''fail'' ''failed to parse current Patroni config'' False, [], snaps)
        | Some cur \<Rightarrow> (case intended_config E ds c rq of
            Inl e \<Rightarrow> (set_job ''fail'' e False, [], snaps)
          | Inr intended \<Rightarrow> (case diffPatroniConfig cur (the (members_of intended)) of
              None \<Rightarrow> (set_job ''ok'' [] False, [],
                finalizeSnapshot (dv_FinalSnap E) c (pr_Source rq) (pr_SnapshotID rq) intended snaps)
            | Some patch \<Rightarrow>
                if \<not> rest_ok (dv_Patch E) then (set_job ''fail'' ''PATCH /config failed'' False, [DPatch patch False], snaps)
                else (case finish_deploy E c nodes primaryIP rq intended snaps of
                   (job, acts, snaps') \<Rightarrow> (job, DPatch patch True # acts, snaps'))))))"

section \<open>The handler\<close>

record patch_env =
  pe_ClusterID :: "uuid option"
  pe_Body :: "patch_request option"
  pe_Nodes :: "node list option"
  pe_Design :: bool

record deploy_world =
  dw_Locks :: locks
  dw_Designs :: designs
  dw_Snapshots :: "snapshot list"
  dw_Jobs :: "(uuid \<times> deploy_job) list"

text \<open>A deploy that was started: what the goroutine captured.\<close>

record started_deploy =
  sy_ClusterID :: uuid
  sy_Job :: uuid
  sy_Nodes :: "node list"
  sy_PrimaryIP :: string
  sy_Request :: patch_request
  sy_Unlock :: unlock_handle

definition design_violation :: "patch_env \<Rightarrow> designs \<Rightarrow> uuid \<Rightarrow> patch_request \<Rightarrow> string" where
  "design_violation env ds c rq =
     (case (if pe_Design env then ds c else None, pr_Config rq) of
        (Some design, Some v) \<Rightarrow> (case (members_of design, members_of (Encodes v)) of
            (Some d, Some i) \<Rightarrow> findDesignViolation [] d i
          | _ \<Rightarrow> [])
      | _ \<Rightarrow> [])"

definition PatchPatroniConfig :: "patch_env \<Rightarrow> uuid \<Rightarrow> deploy_world \<Rightarrow> ((int \<times> string) + started_deploy) \<times> deploy_world" where
  "PatchPatroniConfig env jobID w = (case pe_ClusterID env of
      None \<Rightarrow> (Inl (400, ''invalid cluster id''), w)
    | Some c \<Rightarrow> (case pe_Body env of
        None \<Rightarrow> (Inl (400, ''invalid request body''), w)
      | Some rq0 \<Rightarrow>
          let rq = (if pr_Source rq0 = [] then rq0\<lparr>pr_Source := ''user-edit''\<rparr> else rq0) in
          if pr_Source rq \<noteq> ''user-edit'' \<and> pr_Source rq \<noteq> ''user-revert''
          then (Inl (400, ''source must be user-edit or user-revert''), w)
          else if pr_Source rq = ''user-edit'' \<and> pr_Config rq = None then (Inl (400, ''config is required for user-edit''), w)
          else if pr_Source rq = ''user-edit'' \<and> (case pr_Config rq of Some (JObj _) \<Rightarrow> False | _ \<Rightarrow> True)
          then (Inl (400, ''config must be a JSON object''), w)
          else (case pe_Nodes env of
              None \<Rightarrow> (Inl (500, ''failed to list nodes''), w)
            | Some nodes \<Rightarrow> (case PrimaryDBNode nodes of
                None \<Rightarrow> (Inl (503, ''no connected primary node found''), w)
              | Some primary \<Rightarrow>
                  let violation = (if pr_Source rq = ''user-edit'' then design_violation env (dw_Designs w) c rq else []) in
                  if violation \<noteq> []
                  then (Inl (400, ''The field '' @ violation @ '' is managed by the conductor and cannot be set directly.''), w)
                  else (case TryLock (dw_Locks w) c ''a Patroni config deploy'' of
                      Inl e \<Rightarrow> (Inl (409, busy_message e), w)
                    | Inr (unlock, lk) \<Rightarrow>
                        (Inr \<lparr>sy_ClusterID = c, sy_Job = jobID, sy_Nodes = nodes, sy_PrimaryIP = ip_of primary, sy_Request = rq, sy_Unlock = unlock\<rparr>,
                         w\<lparr>dw_Locks := lk, dw_Jobs := AList.update jobID (set_job ''pending'' [] False) (dw_Jobs w)\<rparr>))))))"

text \<open>The goroutine: the deploy, then the lock's release.\<close>

definition run_deploy :: "deploy_env \<Rightarrow> started_deploy \<Rightarrow> deploy_world \<Rightarrow> deploy_act list \<times> deploy_world" where
  "run_deploy E s w =
     (case runPatroniDeploy E (dw_Designs w) (sy_ClusterID s) (sy_Nodes s) (sy_PrimaryIP s) (sy_Request s) (dw_Snapshots w) of
        (job, acts, snaps) \<Rightarrow>
          (acts, w\<lparr>dw_Snapshots := snaps, dw_Jobs := AList.update (sy_Job s) job (dw_Jobs w), dw_Locks := Unlock (dw_Locks w) (sy_Unlock s)\<rparr>))"

definition GetPatroniDeployStatus :: "uuid \<Rightarrow> deploy_world \<Rightarrow> (int \<times> string) + deploy_job" where
  "GetPatroniDeployStatus jobID w = (case map_of (dw_Jobs w) jobID of None \<Rightarrow> Inl (404, ''job not found'') | Some j \<Rightarrow> Inr j)"

end
