(* ===== verification/PatroniDeployProps.thy ===== *)
theory PatroniDeployProps
  imports PatroniDeploy
begin

text \<open>
  What a deploy of a Patroni configuration (\<open>PatroniDeploy\<close>) guarantees: restarts only under a pause and in order, a job
  that tells the truth about the pause, the cluster's lock released; and what a node without Patroni does to it.
\<close>

section \<open>The calls a deploy makes\<close>

text \<open>The cluster is paused after a pause Patroni accepted, until a resume it accepted.\<close>

fun left_paused :: "bool \<Rightarrow> deploy_act list \<Rightarrow> bool" where
  "left_paused p [] = p"
| "left_paused p (DPause ok # acts) = left_paused (p \<or> ok) acts"
| "left_paused p (DResume ok # acts) = left_paused (p \<and> \<not> ok) acts"
| "left_paused p (_ # acts) = left_paused p acts"

text \<open>Every restart happens while the cluster is paused.\<close>

fun restarts_paused :: "bool \<Rightarrow> deploy_act list \<Rightarrow> bool" where
  "restarts_paused p [] = True"
| "restarts_paused p (DPause ok # acts) = restarts_paused (p \<or> ok) acts"
| "restarts_paused p (DResume ok # acts) = restarts_paused (p \<and> \<not> ok) acts"
| "restarts_paused p (DRestart ip ok # acts) = (p \<and> restarts_paused p acts)"
| "restarts_paused p (DPatch m ok # acts) = restarts_paused p acts"

lemma restart_acts:
  "left_paused p (map (restart_act E) ips @ acts) = left_paused p acts"
  "restarts_paused True (map (restart_act E) ips @ acts) = restarts_paused True acts"
  by (induction ips) (simp_all add: restart_act_def)

lemma restart_nodes_acts: "restart_nodes E nodes p pending = (acts, failed) \<Longrightarrow> \<exists>ips. acts = map (restart_act E) ips"
  by (auto simp: restart_nodes_def Let_def split: if_splits
      intro: exI [of _ "map ip_of xs @ [p]" for xs] exI [of _ "map ip_of xs" for xs])

text \<open>The four ways a deploy ends after its PATCH.\<close>

lemma finish_deploy_cases:
  assumes "finish_deploy E c nodes p rq intended snaps = (job, acts, snaps')"
  obtains "job = set_job ''ok'' [] False" "acts = []" "pollPendingRestart E nodes = []"
  | "dj_Status job = ''fail''" "\<not> dj_Paused job" "acts = [DPause False]"
  | ips where "dj_Status job = ''fail''" "dj_Paused job" "acts = DPause True # map (restart_act E) ips"
      "restart_nodes E nodes p (pollPendingRestart E nodes) = (map (restart_act E) ips, True)"
  | ips where "dj_Status job = ''fail''" "dj_Paused job" "acts = DPause True # map (restart_act E) ips @ [DResume False]"
      "restart_nodes E nodes p (pollPendingRestart E nodes) = (map (restart_act E) ips, False)"
  | ips where "job = set_job ''ok'' [] False" "acts = DPause True # map (restart_act E) ips @ [DResume True]"
      "restart_nodes E nodes p (pollPendingRestart E nodes) = (map (restart_act E) ips, False)"
proof -
  obtain ra failed where ra: "restart_nodes E nodes p (pollPendingRestart E nodes) = (ra, failed)" by fastforce
  obtain ips where ips: "ra = map (restart_act E) ips" using restart_nodes_acts [OF ra] by blast
  show ?thesis
  proof (cases "pollPendingRestart E nodes = []")
    case True
    with assms that(1) show ?thesis by (auto simp: finish_deploy_def Let_def)
  next
    case pending: False
    show ?thesis
    proof (cases "rest_ok (dv_Pause E)")
      case False
      with assms pending that(2) show ?thesis by (auto simp: finish_deploy_def set_job_def Let_def)
    next
      case pause: True
      show ?thesis
      proof (cases failed)
        case True
        with assms pending pause ra ips that(3) [of ips] show ?thesis by (auto simp: finish_deploy_def set_job_def Let_def)
      next
        case False
        with assms pending pause ra ips that(4,5) [of ips] show ?thesis
          by (auto simp: finish_deploy_def set_job_def Let_def split: if_splits)
      qed
    qed
  qed
qed

lemma runPatroniDeploy_cases:
  assumes "runPatroniDeploy E ds c nodes p rq snaps0 = (job, acts, snaps')"
  obtains "\<not> dj_Paused job" "acts = []" "dj_Status job \<in> {''ok'', ''fail''}"
  | patch where "job = set_job ''fail'' ''PATCH /config failed'' False" "acts = [DPatch patch False]"
  | patch intended snaps acts' where "acts = DPatch patch True # acts'"
      "finish_deploy E c nodes p rq intended snaps = (job, acts', snaps')"
  using assms
  by (auto simp: runPatroniDeploy_def set_job_def Let_def split: option.splits sum.splits if_splits prod.splits)

lemma runPatroniDeploy_reports:
  assumes "runPatroniDeploy E ds c nodes p rq snaps0 = (job, acts, snaps')"
  shows "restarts_paused False acts" "dj_Paused job = left_paused False acts" "dj_Status job \<in> {''ok'', ''fail''}"
    "dj_Status job = ''ok'' \<Longrightarrow> \<not> left_paused False acts"
proof -
  have "restarts_paused False acts \<and> dj_Paused job = left_paused False acts \<and> dj_Status job \<in> {''ok'', ''fail''} \<and>
    (dj_Status job = ''ok'' \<longrightarrow> \<not> left_paused False acts)"
    using assms
  proof (cases rule: runPatroniDeploy_cases)
    case 1
    then show ?thesis by auto
  next
    case (2 patch)
    then show ?thesis by (simp add: set_job_def)
  next
    case (3 patch intended snaps acts')
    from 3(2) show ?thesis
      by (cases rule: finish_deploy_cases) (use 3(1) restart_acts [where acts = "[]"] in \<open>auto simp: set_job_def restart_acts\<close>)
  qed
  then show "restarts_paused False acts" "dj_Paused job = left_paused False acts" "dj_Status job \<in> {''ok'', ''fail''}"
    "dj_Status job = ''ok'' \<Longrightarrow> \<not> left_paused False acts" by blast+
qed

section \<open>Properties\<close>

text \<open>
  whatever Patroni answers, a deploy restarts PostgreSQL only while Patroni has confirmed the pause; it ends as done or
  failed, the job says "paused" exactly when Patroni was left paused, and a deploy that reports success never leaves it so.
\<close>

theorem deploy_reports_pause:
  assumes "runPatroniDeploy E ds c nodes p rq snaps0 = (job, acts, snaps')"
  shows "restarts_paused False acts \<and> dj_Paused job = left_paused False acts \<and> dj_Status job \<in> {''ok'', ''fail''} \<and>
    (dj_Status job = ''ok'' \<longrightarrow> \<not> left_paused False acts)"
  using runPatroniDeploy_reports [OF assms] by blast

text \<open>
  PostgreSQL on the primary is restarted last, and only when every replica that needed a restart came back as one.
\<close>

theorem primary_restarted_last:
  assumes "restart_nodes E nodes primaryIP pending = (acts, failed)"
    and "DRestart primaryIP ok \<in> set acts"
  shows "\<exists>ips. acts = map (restart_act E) ips @ [restart_act E primaryIP] \<and> primaryIP \<notin> set ips \<and>
    (\<forall>ip \<in> set ips. restartAndWait E ip ''replica'') \<and>
    set ips = ip_of ` {n \<in> set nodes. nd_Hostname n \<in> set pending \<and> ip_of n \<noteq> primaryIP}"
proof -
  let ?aff = "filter (\<lambda>n. nd_Hostname n \<in> set pending) nodes"
  let ?ips = "map ip_of (filter (\<lambda>n. ip_of n \<noteq> primaryIP) ?aff)"
  have out: "primaryIP \<notin> set ?ips" by auto
  then have no: "DRestart primaryIP ok \<notin> set (map (restart_act E) ?ips)" by (auto simp: restart_act_def)
  with assms have acts: "acts = map (restart_act E) ?ips @ [restart_act E primaryIP]"
    and ok: "\<not> list_ex (\<lambda>ip. \<not> restartAndWait E ip ''replica'') ?ips"
    by (auto simp only: restart_nodes_def Let_def split: if_splits prod.splits)
  from ok have "\<forall>ip \<in> set ?ips. restartAndWait E ip ''replica''" by (auto simp: list_ex_iff)
  moreover have "set ?ips = ip_of ` {n \<in> set nodes. nd_Hostname n \<in> set pending \<and> ip_of n \<noteq> primaryIP}" by auto
  ultimately show ?thesis using acts out by blast
qed

text \<open>A host name stays pending when the node of that name never answers.\<close>

lemma poll_keeps:
  assumes "\<And>n k. n \<in> set nodes \<Longrightarrow> nd_Hostname n = h \<Longrightarrow> rest_200 (dv_Health E k (ip_of n)) = None" "h \<in> set pending"
  shows "h \<in> set (poll_rounds E nodes k rounds pending)"
  using assms(2)
proof (induction rounds arbitrary: k pending)
  case (Suc rounds)
  have "h \<in> set (fold (poll_node (dv_Health E k)) ns pending)" if "set ns \<subseteq> set nodes" for ns
    using that Suc.prems
  proof (induction ns arbitrary: pending)
    case (Cons n ns)
    have "h \<in> set (poll_node (dv_Health E k) n pending)"
      using assms(1) [of n k] Cons.prems by (auto simp: poll_node_def split: option.split)
    with Cons show ?case by simp
  qed simp
  from this [of nodes] have "h \<in> set (fold (poll_node (dv_Health E k)) nodes pending)" by simp
  with Suc.IH [OF this] show ?case by (auto simp: Let_def)
qed simp

text \<open>
  C39: a cluster with a node that does not run Patroni (its REST API is never reachable, as on an application-only node)
  cannot be reconfigured: the deploy waits for that node, pauses the cluster to restart it, fails, and leaves the cluster
  paused although Patroni accepted the configuration.
\<close>

theorem deploy_with_app_node_leaves_paused:
  assumes run: "runPatroniDeploy E ds c nodes p rq snaps0 = (job, acts, snaps')"
    and patched: "DPatch patch True \<in> set acts" and pause: "rest_ok (dv_Pause E)"
    and n: "n \<in> set nodes" "ip_of n \<noteq> p" and names: "\<And>m. m \<in> set nodes \<Longrightarrow> nd_Hostname m = nd_Hostname n \<Longrightarrow> m = n"
    and silent: "\<And>k. rest_200 (dv_Health E k (ip_of n)) = None" "\<not> rest_ok (dv_Restart E (ip_of n))"
  shows "dj_Status job = ''fail'' \<and> dj_Paused job \<and> DRestart (ip_of n) False \<in> set acts \<and> (\<forall>ok. DResume ok \<notin> set acts)"
  using run
proof (cases rule: runPatroniDeploy_cases)
  case 1
  with patched show ?thesis by simp
next
  case (2 patch)
  with patched show ?thesis by simp
next
  case (3 patch intended snaps acts')
  have pend: "nd_Hostname n \<in> set (pollPendingRestart E nodes)"
    unfolding pollPendingRestart_def by (rule poll_keeps) (use silent(1) names n(1) in auto)
  let ?aff = "filter (\<lambda>m. nd_Hostname m \<in> set (pollPendingRestart E nodes)) nodes"
  let ?ips = "map ip_of (filter (\<lambda>m. ip_of m \<noteq> p) ?aff)"
  have ips: "ip_of n \<in> set ?ips" using n pend by auto
  have "\<not> restartAndWait E (ip_of n) ''replica''" using silent(2) by (simp add: restartAndWait_def)
  with ips have "list_ex (\<lambda>ip. \<not> restartAndWait E ip ''replica'') ?ips" unfolding list_ex_iff by blast
  then have R: "restart_nodes E nodes p (pollPendingRestart E nodes) = (map (restart_act E) ?ips, True)"
    by (simp only: restart_nodes_def Let_def) simp
  have "DRestart (ip_of n) False = restart_act E (ip_of n)" using silent(2) by (simp add: restart_act_def)
  with ips have mem: "DRestart (ip_of n) False \<in> set (map (restart_act E) ?ips)" by (metis (mono_tags) image_eqI list.set_map)
  obtain ips where ips: "restart_nodes E nodes p (pollPendingRestart E nodes) = (map (restart_act E) ips, True)"
      "DRestart (ip_of n) False \<in> set (map (restart_act E) ips)"
    using R mem by blast
  have "pollPendingRestart E nodes \<noteq> []" using pend by auto
  with 3(2) pause ips(1) have job: "dj_Status job = ''fail''" "dj_Paused job" "acts' = DPause True # map (restart_act E) ips"
    by (auto simp: finish_deploy_def set_job_def Let_def)
  have "DResume ok \<notin> set (map (restart_act E) ips)" for ok by (auto simp: restart_act_def)
  with job 3(1) ips(2) show ?thesis by simp
qed

text \<open>
  an accepted edit holds the cluster's lock until its deploy has ended; then the lock is free again, the job has its
  final status, and no other cluster's lock was touched.
\<close>

theorem deploy_releases_cluster:
  assumes "lk_inv (dw_Locks w)" and "PatchPatroniConfig env jobID w = (Inr s, w1)" and "run_deploy E s w1 = (acts, w2)"
  shows "lk_running (dw_Locks w1) (sy_ClusterID s) = Some ''a Patroni config deploy'' \<and>
    lk_running (dw_Locks w2) = lk_running (dw_Locks w) \<and> lk_inv (dw_Locks w2) \<and>
    (\<exists>job. GetPatroniDeployStatus jobID w2 = Inr job \<and> dj_Status job \<in> {''ok'', ''fail''} \<and> dj_Paused job = left_paused False acts)"
proof -
  from assms(2) obtain lk where lk: "TryLock (dw_Locks w) (sy_ClusterID s) ''a Patroni config deploy'' = Inr (sy_Unlock s, lk)"
    "dw_Locks w1 = lk" "sy_Job s = jobID"
    by (auto simp: PatchPatroniConfig_def Let_def split: option.splits sum.splits if_splits)
  obtain job snaps where run: "runPatroniDeploy E (dw_Designs w1) (sy_ClusterID s) (sy_Nodes s) (sy_PrimaryIP s) (sy_Request s) (dw_Snapshots w1)
      = (job, acts, snaps)" and w2: "dw_Locks w2 = Unlock lk (sy_Unlock s)" "dw_Jobs w2 = AList.update jobID job (dw_Jobs w1)"
    using assms(3) lk(2,3) by (auto simp: run_deploy_def split: prod.splits)
  from runPatroniDeploy_reports [OF run] w2(2) have "GetPatroniDeployStatus jobID w2 = Inr job" "dj_Status job \<in> {''ok'', ''fail''}"
    "dj_Paused job = left_paused False acts"
    by (simp_all add: GetPatroniDeployStatus_def update_conv')
  with lk.lock_unlock [OF assms(1) lk(1)] lk(2) w2(1) show ?thesis by simp
qed

section \<open>Examples\<close>

definition deploy_node :: "uuid \<Rightarrow> string \<Rightarrow> string \<Rightarrow> string \<Rightarrow> string \<Rightarrow> node" where
  "deploy_node i host ip role prole = \<lparr>nd_ID = i, nd_ClusterID = 7, nd_Hostname = host, nd_IPAddress = ip, nd_Role = role,
     nd_FailoverPriority = 1, nd_AgentStatus = ''connected'', nd_PatroniState = Some (Encodes (JObj [(''role'', JStr prole)])),
     nd_NetboxRunning = None, nd_RQRunning = None, nd_SuppressAutoStart = False, nd_MaintenanceMode = False\<rparr>"

definition app_node :: node where
  "app_node = deploy_node 3 ''app'' ''10.0.0.3/24'' ''app'' []"

definition deploy_nodes :: "node list" where
  "deploy_nodes = [deploy_node 1 ''db1'' ''10.0.0.1/24'' ''db_only'' ''primary'',
     deploy_node 2 ''db2'' ''10.0.0.2/24'' ''db_only'' ''replica'', app_node]"

definition healthy :: "bool \<Rightarrow> string \<Rightarrow> rest_answer" where
  "healthy pending ip = (if ip = ''10.0.0.3'' then Rest_error False
     else Rest_reply 200 (Encodes (JObj [(''state'', JStr ''running''), (''pending_restart'', JBool pending),
        (''role'', JStr (if ip = ''10.0.0.1'' then ''primary'' else ''replica''))])))"

definition deploy_example :: "deploy_env" where
  "deploy_example = (let snap = \<lparr>se_Get = Rest_error False, se_List = True, se_Insert = True, se_Prune = True, se_NewID = 9, se_Now = 1\<rparr> in
     \<lparr>dv_Snap = snap, dv_FinalSnap = snap, dv_Get = Rest_reply 200 (Encodes (JObj [(''ttl'', JNum 30)])), dv_DesignQuery = True,
      dv_Patch = Rest_reply 200 Malformed, dv_Pause = Rest_reply 200 Malformed, dv_Resume = Rest_reply 200 Malformed,
      dv_Health = (\<lambda>_. healthy True), dv_Rounds = 2,
      dv_Restart = (\<lambda>ip. if ip = ''10.0.0.3'' then Rest_error False else Rest_reply 200 Malformed),
      dv_After = (\<lambda>ip _. healthy False ip), dv_AfterRounds = (\<lambda>_. 2)\<rparr>)"

definition edit_example :: patch_request where
  "edit_example = \<lparr>pr_Config = Some (JObj [(''ttl'', JNum 60)]), pr_Source = ''user-edit'', pr_SnapshotID = None\<rparr>"

definition deploy_run :: "node list \<Rightarrow> deploy_job \<times> deploy_act list \<times> snapshot list" where
  "deploy_run nodes = runPatroniDeploy deploy_example Map.empty 7 nodes ''10.0.0.1'' edit_example []"

lemma deploy_run_two: "fst (snd (deploy_run (take 2 deploy_nodes)))
    = [DPatch [(''ttl'', JNum 60)] True, DPause True, DRestart ''10.0.0.2'' True, DRestart ''10.0.0.1'' True, DResume True]"
  by code_simp

theorem deploy_reports_pause_witness:
  "\<exists>job acts snaps. deploy_run deploy_nodes = (job, acts, snaps) \<and> restarts_paused False acts \<and> dj_Paused job = left_paused False acts"
proof -
  obtain job acts snaps where r: "deploy_run deploy_nodes = (job, acts, snaps)" by (metis prod_cases3)
  from deploy_reports_pause [OF r [unfolded deploy_run_def]] r show ?thesis by blast
qed

theorem primary_restarted_last_witness:
  "\<exists>ips. fst (restart_nodes deploy_example (take 2 deploy_nodes) ''10.0.0.1'' [''db1'', ''db2''])
     = map (restart_act deploy_example) ips @ [restart_act deploy_example ''10.0.0.1'']"
proof -
  obtain acts failed where r: "restart_nodes deploy_example (take 2 deploy_nodes) ''10.0.0.1'' [''db1'', ''db2''] = (acts, failed)" by fastforce
  have "list_ex (\<lambda>a. a = DRestart ''10.0.0.1'' True) (fst (restart_nodes deploy_example (take 2 deploy_nodes) ''10.0.0.1'' [''db1'', ''db2'']))"
    by code_simp
  with r have "DRestart ''10.0.0.1'' True \<in> set acts" by (auto simp: list_ex_iff)
  from primary_restarted_last [OF r this] r show ?thesis by auto
qed

theorem deploy_with_app_node_leaves_paused_witness:
  "\<exists>job acts snaps. deploy_run deploy_nodes = (job, acts, snaps) \<and> dj_Status job = ''fail'' \<and> dj_Paused job \<and> (\<forall>ok. DResume ok \<notin> set acts)"
proof -
  obtain job acts snaps where r: "deploy_run deploy_nodes = (job, acts, snaps)" by (metis prod_cases3)
  have "list_ex (\<lambda>a. a = DPatch [(''ttl'', JNum 60)] True) (fst (snd (deploy_run deploy_nodes)))" by code_simp
  then have patched: "DPatch [(''ttl'', JNum 60)] True \<in> set acts" using r by (auto simp: list_ex_iff)
  have ip: "ip_of app_node = ''10.0.0.3''" by code_simp
  have pause: "rest_ok (dv_Pause deploy_example)" by code_simp
  have n: "app_node \<in> set deploy_nodes" "ip_of app_node \<noteq> ''10.0.0.1''" using ip by (simp_all add: deploy_nodes_def)
  have names: "m = app_node" if "m \<in> set deploy_nodes" "nd_Hostname m = nd_Hostname app_node" for m
    using that by (auto simp: deploy_nodes_def app_node_def deploy_node_def)
  have silent: "rest_200 (dv_Health deploy_example k (ip_of app_node)) = None" "\<not> rest_ok (dv_Restart deploy_example (ip_of app_node))" for k
    by (simp_all add: ip deploy_example_def healthy_def Let_def rest_200_def rest_ok_def)
  from deploy_with_app_node_leaves_paused [OF r [unfolded deploy_run_def] patched pause n names silent] r
  show ?thesis by blast
qed

theorem deploy_releases_cluster_witness:
  "\<exists>s w1 acts w2. PatchPatroniConfig \<lparr>pe_ClusterID = Some 7, pe_Body = Some edit_example, pe_Nodes = Some deploy_nodes, pe_Design = True\<rparr> 5
       \<lparr>dw_Locks = New_locks, dw_Designs = Map.empty, dw_Snapshots = [], dw_Jobs = []\<rparr> = (Inr s, w1) \<and>
     run_deploy deploy_example s w1 = (acts, w2) \<and> lk_running (dw_Locks w1) (sy_ClusterID s) \<noteq> None \<and>
     lk_running (dw_Locks w2) = Map.empty"
proof -
  let ?env = "\<lparr>pe_ClusterID = Some 7, pe_Body = Some edit_example, pe_Nodes = Some deploy_nodes, pe_Design = True\<rparr>"
  let ?w = "\<lparr>dw_Locks = New_locks, dw_Designs = Map.empty, dw_Snapshots = [], dw_Jobs = []\<rparr>"
  have "isl (fst (PatchPatroniConfig ?env 5 ?w)) = False" by code_simp
  then obtain s w1 where p: "PatchPatroniConfig ?env 5 ?w = (Inr s, w1)" by (metis sum.collapse(2) prod.collapse)
  obtain acts w2 where d: "run_deploy deploy_example s w1 = (acts, w2)" by fastforce
  have "lk_inv (dw_Locks ?w)" by (simp add: lk_inv_New)
  from deploy_releases_cluster [OF this p d] p d show ?thesis by (auto simp: New_locks_def)
qed

end
