(* ===== verification/BackupRestore.thy ===== *)
theory BackupRestore
  imports BackupConf PatroniDeploy
begin

text \<open>
  The whole-cluster restore, \<open>ClusterRestore\<close> of \<open>internal/server/api/handlers/backup.go\<close>: the handler, which pauses
  Patroni, stops the replicas and starts the restore, and the background job, which waits for the restore, reinitialises
  the replicas, resumes Patroni and waits for them.  Every call is recorded in order with its outcome.
\<close>

section \<open>What a restore does\<close>

text \<open>
  The marks of \<open>restore_in_progress\<close>, the pause and resume Patroni accepted or not, the stop task of a replica and the
  restore task dispatched or not, and the results waited for.
\<close>

datatype restore_act =
    RMark bool | RPause bool | RStop uuid bool | RStart uuid bool
  | RStopped uuid bool | RRestored bool | RPrimaryReady bool | RReinit uuid bool | RResume bool | RReplicaBack uuid bool

record restore_request =
  rr_TargetTime :: string
  rr_RestoreNodeID :: string
  rr_RestoreCmd :: string

text \<open>
  What the request and the job meet.  \<open>rs_PrimaryPolls\<close> and \<open>rs_ReplicaPolls\<close> count the polls after the first one that
  begin before their context ends (two and five minutes, five seconds apart).
\<close>

record restore_env =
  rs_ClusterID :: "uuid option"
  rs_Body :: "restore_request option"
  rs_TimeOK :: "string \<Rightarrow> bool"
  rs_ScheduleQuery :: bool
  rs_Nodes :: "node list option"
  rs_ParseID :: "string \<Rightarrow> uuid option"
  rs_MarkSet :: bool
  rs_MarkClear :: bool
  rs_Pause :: rest_answer
  rs_Dispatch :: "uuid \<Rightarrow> string option"
  rs_Start :: "string option"
  rs_StopDone :: "uuid \<Rightarrow> bool"
  rs_Restore :: "string option"
  rs_Primary :: "nat \<Rightarrow> rest_answer"
  rs_PrimaryPolls :: nat
  rs_Reinit :: "uuid \<Rightarrow> rest_answer"
  rs_Resume :: rest_answer
  rs_Replica :: "uuid \<Rightarrow> nat \<Rightarrow> rest_answer"
  rs_ReplicaPolls :: "uuid \<Rightarrow> nat"

record restore_world =
  rw_Locks :: locks
  rw_Schedules :: "backup_schedule list"

definition GetSchedule :: "uuid \<Rightarrow> backup_schedule list \<Rightarrow> backup_schedule option" where
  "GetSchedule c tbl = find (\<lambda>s. sd_ClusterID s = c) tbl"

definition dbRoleNodes :: "node list \<Rightarrow> node list" where
  "dbRoleNodes nodes = filter (\<lambda>n. IsDBRole (nd_Role n)) nodes"

text \<open>Setting the mark: its error is ignored.\<close>

definition mark_restore :: "bool \<Rightarrow> uuid \<Rightarrow> bool \<Rightarrow> restore_world \<Rightarrow> restore_world" where
  "mark_restore ok c b w = (if ok then w\<lparr>rw_Schedules := SetRestoreInProgress c b (rw_Schedules w)\<rparr> else w)"

text \<open>The node that restores.\<close>

definition restore_node :: "restore_env \<Rightarrow> node list \<Rightarrow> string \<Rightarrow> http_error + node" where
  "restore_node E nodes override =
     (if override \<noteq> [] then
        (case rs_ParseID E override of
           None \<Rightarrow> Inl (400, ''invalid restore_node_id'')
         | Some i \<Rightarrow> (case find (\<lambda>n. nd_ID n = i) (dbRoleNodes nodes) of
             None \<Rightarrow> Inl (400, ''restore_node_id not found in cluster db nodes'')
           | Some n \<Rightarrow> Inr n))
      else (case PrimaryDBNode nodes of
          None \<Rightarrow> Inl (409, ''no connected primary node found; specify restore_node_id to pick an online node'')
        | Some n \<Rightarrow> Inr n))"

text \<open>What the background job captured.\<close>

record restore_job =
  rj_ClusterID :: uuid
  rj_Node :: node
  rj_Replicas :: "node list"
  rj_Stops :: "uuid list"
  rj_Unlock :: unlock_handle

definition answered :: "rest_answer \<Rightarrow> bool" where
  "answered a = (rest_200 a \<noteq> None)"

definition poll_until :: "(nat \<Rightarrow> rest_answer) \<Rightarrow> nat \<Rightarrow> bool" where
  "poll_until answer later = list_ex (\<lambda>k. answered (answer k)) [0..<Suc later]"

text \<open>An HTTP call without error counts as made, whatever its status.\<close>

definition called :: "rest_answer \<Rightarrow> bool" where
  "called a = (case a of Rest_error _ \<Rightarrow> False | Rest_reply _ _ \<Rightarrow> True)"

text \<open>The handler once it has the lock, whose handle is \<open>h\<close>: without a job, it releases it on return.\<close>

definition release_restore :: "unlock_handle \<Rightarrow> restore_world \<Rightarrow> restore_world" where
  "release_restore h w = w\<lparr>rw_Locks := Unlock (rw_Locks w) h\<rparr>"

definition stop_replicas :: "restore_env \<Rightarrow> node list \<Rightarrow> restore_act list" where
  "stop_replicas E replicas = map (\<lambda>m. RStop (nd_ID m) (rs_Dispatch E (nd_ID m) = None)) replicas"

definition restore_start :: "restore_env \<Rightarrow> uuid \<Rightarrow> unlock_handle \<Rightarrow> node \<Rightarrow> node list \<Rightarrow> restore_world
    \<Rightarrow> (http_error + unit) \<times> restore_act list \<times> restore_job option \<times> restore_world" where
  "restore_start E c h n nodes w =
     (let w' = mark_restore (rs_MarkSet E) c True w; undo = release_restore h (mark_restore (rs_MarkClear E) c False w');
          replicas = filter (\<lambda>m. nd_ID m \<noteq> nd_ID n) (dbRoleNodes nodes); pre = [RMark True, RPause True] @ stop_replicas E replicas
      in if \<not> rest_ok (rs_Pause E) then (Inl (502, ''patroni pause failed''), [RMark True, RPause False, RMark False], None, undo)
         else if rs_Start E \<noteq> None then (Inr (), pre @ [RStart (nd_ID n) False, RMark False], None, undo)
         else (Inr (), pre @ [RStart (nd_ID n) True],
               Some \<lparr>rj_ClusterID = c, rj_Node = n, rj_Replicas = replicas,
                     rj_Stops = map nd_ID (filter (\<lambda>m. rs_Dispatch E (nd_ID m) = None) replicas), rj_Unlock = h\<rparr>, w'))"

definition restore_locked :: "restore_env \<Rightarrow> uuid \<Rightarrow> unlock_handle \<Rightarrow> restore_request \<Rightarrow> restore_world
    \<Rightarrow> (http_error + unit) \<times> restore_act list \<times> restore_job option \<times> restore_world" where
  "restore_locked E c h rq w = (case rs_Nodes E of
      None \<Rightarrow> (Inl (500, ''failed to list nodes''), [], None, release_restore h w)
    | Some nodes \<Rightarrow>
        if dbRoleNodes nodes = [] then (Inl (409, ''no database nodes found in cluster''), [], None, release_restore h w)
        else (case restore_node E nodes (rr_RestoreNodeID rq) of
            Inl e \<Rightarrow> (Inl e, [], None, release_restore h w)
          | Inr n \<Rightarrow> restore_start E c h n nodes w))"

text \<open>What is checked before the lock: the cluster, the request and its time, and that no restore is marked.\<close>

definition restore_checks :: "restore_env \<Rightarrow> backup_schedule list \<Rightarrow> http_error + (uuid \<times> restore_request)" where
  "restore_checks E tbl = (case rs_ClusterID E of
      None \<Rightarrow> Inl (400, ''invalid cluster id'')
    | Some c \<Rightarrow> (case rs_Body E of
        None \<Rightarrow> Inl (400, ''invalid request body'')
      | Some rq \<Rightarrow>
          if rr_TargetTime rq = [] then Inl (400, ''target_time is required (RFC3339 UTC)'')
          else if \<not> rs_TimeOK E (rr_TargetTime rq) then Inl (400, ''target_time must be RFC3339 format'')
          else (case (if rs_ScheduleQuery E then GetSchedule c tbl else None) of
              None \<Rightarrow> Inl (409, ''backups not yet configured for this cluster'')
            | Some s \<Rightarrow>
                if sd_StanzaName s = None then Inl (409, ''backups not yet configured for this cluster'')
                else if sd_RestoreInProgress s then Inl (409, ''a restore is already in progress for this cluster'')
                else Inr (c, rq))))"

definition ClusterRestore :: "restore_env \<Rightarrow> restore_world
    \<Rightarrow> (http_error + unit) \<times> restore_act list \<times> restore_job option \<times> restore_world" where
  "ClusterRestore E w = (case restore_checks E (rw_Schedules w) of
      Inl e \<Rightarrow> (Inl e, [], None, w)
    | Inr (c, rq) \<Rightarrow> (case TryLock (rw_Locks w) c ''a restore'' of
        Inl e \<Rightarrow> (Inl (409, busy_message e), [], None, w)
      | Inr (h, lk) \<Rightarrow> restore_locked E c h rq (w\<lparr>rw_Locks := lk\<rparr>)))"

text \<open>The background job.\<close>

definition run_restore :: "restore_env \<Rightarrow> restore_job \<Rightarrow> restore_world \<Rightarrow> restore_act list \<times> restore_world" where
  "run_restore E j w =
     (let done' = (\<lambda>w. release_restore (rj_Unlock j) (mark_restore (rs_MarkClear E) (rj_ClusterID j) False w));
          stopped = map (\<lambda>i. RStopped i (rs_StopDone E i)) (rj_Stops j)
      in if rs_Restore E \<noteq> None then (stopped @ [RRestored False, RMark False], done' w)
         else if \<not> poll_until (rs_Primary E) (rs_PrimaryPolls E)
         then (stopped @ [RRestored True, RPrimaryReady False, RMark False], done' w)
         else (stopped @ [RRestored True, RPrimaryReady True]
               @ map (\<lambda>m. RReinit (nd_ID m) (called (rs_Reinit E (nd_ID m)))) (rj_Replicas j)
               @ [RResume (rest_ok (rs_Resume E))]
               @ map (\<lambda>m. RReplicaBack (nd_ID m) (poll_until (rs_Replica E (nd_ID m)) (rs_ReplicaPolls E (nd_ID m)))) (rj_Replicas j)
               @ [RMark False], done' w))"

text \<open>A request with its job, run to the end: the response, every call, and the world left behind.\<close>

definition restore_run :: "restore_env \<Rightarrow> restore_world \<Rightarrow> (http_error + unit) \<times> restore_act list \<times> restore_world" where
  "restore_run E w = (case ClusterRestore E w of
      (resp, acts, None, w') \<Rightarrow> (resp, acts, w')
    | (resp, acts, Some j, w') \<Rightarrow> (case run_restore E j w' of (acts', w'') \<Rightarrow> (resp, acts @ acts', w'')))"

end
