(* ===== verification/BackupRestoreProps.thy ===== *)
theory BackupRestoreProps
  imports BackupRestore PatroniDeployProps
begin

text \<open>
  What a restore guarantees (\<open>BackupRestore\<close>): the order of its calls, that it always gives the cluster back to the
  other operations, and when it leaves Patroni paused.
\<close>

text \<open>The phases of a restore, in order.\<close>

fun phase :: "restore_act \<Rightarrow> nat" where
  "phase (RMark b) = (if b then 0 else 10)"
| "phase (RPause _) = 1"
| "phase (RStop _ _) = 2"
| "phase (RStart _ _) = 3"
| "phase (RStopped _ _) = 4"
| "phase (RRestored _) = 5"
| "phase (RPrimaryReady _) = 6"
| "phase (RReinit _ _) = 7"
| "phase (RResume _) = 8"
| "phase (RReplicaBack _ _) = 9"

text \<open>
  The calls that rebuild the replicas and give them back to Patroni, and those that stop PostgreSQL: on the replicas, and
  on the restoring node as part of the restore.
\<close>

fun rebuilds_replica :: "restore_act \<Rightarrow> bool" where
  "rebuilds_replica (RReinit _ _) = True"
| "rebuilds_replica (RResume _) = True"
| "rebuilds_replica (RReplicaBack _ _) = True"
| "rebuilds_replica _ = False"

fun stops_postgres :: "restore_act \<Rightarrow> bool" where
  "stops_postgres (RStop _ _) = True"
| "stops_postgres (RStart _ _) = True"
| "stops_postgres _ = False"

text \<open>Before the restore starts on a node, a stop was sent to each other database node, or its dispatch failed.\<close>

definition stops_sent :: "node list \<Rightarrow> restore_act list \<Rightarrow> bool" where
  "stops_sent nodes acts \<longleftrightarrow> (\<forall>n ok. RStart n ok \<in> set acts \<longrightarrow>
     (\<forall>m \<in> set (dbRoleNodes nodes). nd_ID m = n \<or> (\<exists>b. RStop (nd_ID m) b \<in> set acts)))"

lemma sorted_phase_map: "(\<And>x. phase (f x) = k) \<Longrightarrow> sorted (map phase (map f xs))"
  by (induction xs) auto

lemma run_restore_phases:
  "sorted (map phase (fst (run_restore E j w)))" "\<forall>a \<in> set (fst (run_restore E j w)). 4 \<le> phase a"
  "a \<in> set (fst (run_restore E j w)) \<Longrightarrow> rebuilds_replica a \<Longrightarrow>
     RRestored True \<in> set (fst (run_restore E j w)) \<and> RPrimaryReady True \<in> set (fst (run_restore E j w))"
  "a \<in> set (fst (run_restore E j w)) \<Longrightarrow> \<not> stops_postgres a"
  by (auto simp: run_restore_def Let_def sorted_append sorted_phase_map simp del: map_map split: if_splits)

text \<open>How a request can end: refused, given back at once, or with a job that holds the lock.\<close>

lemma restore_checks_ok:
  "restore_checks E tbl = Inr (c, rq) \<Longrightarrow> \<exists>s. GetSchedule c tbl = Some s \<and> \<not> sd_RestoreInProgress s"
  by (auto simp: restore_checks_def split: option.splits if_splits)

lemma ClusterRestore_cases:
  assumes "ClusterRestore E w = (resp, acts, job, w1)"
  obtains "acts = []" "job = None" "w1 = w"
  | c h lk where "acts = []" "job = None" "TryLock (rw_Locks w) c ''a restore'' = Inr (h, lk)" "w1 = release_restore h (w\<lparr>rw_Locks := lk\<rparr>)"
  | c h lk s n nodes where "TryLock (rw_Locks w) c ''a restore'' = Inr (h, lk)"
      "GetSchedule c (rw_Schedules w) = Some s" "\<not> sd_RestoreInProgress s" "rs_Nodes E = Some nodes"
      "restore_start E c h n nodes (w\<lparr>rw_Locks := lk\<rparr>) = (resp, acts, job, w1)"
proof (cases "restore_checks E (rw_Schedules w)")
  case (Inl e)
  with assms that(1) show ?thesis by (simp add: ClusterRestore_def)
next
  case (Inr x)
  obtain c rq where x: "x = (c, rq)" by (cases x)
  show ?thesis
  proof (cases "TryLock (rw_Locks w) c ''a restore''")
    case (Inl e)
    with assms Inr x that(1) show ?thesis by (simp add: ClusterRestore_def)
  next
    case lock: (Inr y)
    obtain h lk where y: "y = (h, lk)" by (cases y)
    from assms Inr x lock y have L: "restore_locked E c h rq (w\<lparr>rw_Locks := lk\<rparr>) = (resp, acts, job, w1)"
      by (simp add: ClusterRestore_def)
    obtain s where s: "GetSchedule c (rw_Schedules w) = Some s" "\<not> sd_RestoreInProgress s"
      using restore_checks_ok Inr x by blast
    note lk = lock [unfolded y]
    from L consider "acts = []" "job = None" "w1 = release_restore h (w\<lparr>rw_Locks := lk\<rparr>)"
      | n nodes where "rs_Nodes E = Some nodes" "restore_start E c h n nodes (w\<lparr>rw_Locks := lk\<rparr>) = (resp, acts, job, w1)"
      by (auto simp: restore_locked_def split: option.splits if_splits sum.splits)
    then show ?thesis using that(2) [OF _ _ lk] that(3) [OF lk s] by cases
  qed
qed

lemma restore_start_acts:
  assumes "restore_start E c h n nodes w = (resp, acts, job, w1)"
  shows "sorted (map phase acts)" "job \<noteq> None \<Longrightarrow> \<forall>a \<in> set acts. phase a \<le> 3"
    "a \<in> set acts \<Longrightarrow> stops_postgres a \<Longrightarrow> RPause True \<in> set acts" "a \<in> set acts \<Longrightarrow> \<not> rebuilds_replica a"
    "RPause True \<in> set acts \<longleftrightarrow> rest_ok (rs_Pause E)" "RResume ok \<notin> set acts"
    "job = None \<longleftrightarrow> \<not> rest_ok (rs_Pause E) \<or> rs_Start E \<noteq> None"
  using assms by (auto simp: restore_start_def Let_def stop_replicas_def sorted_append sorted_phase_map simp del: map_map split: if_splits)

lemma restore_start_stops:
  assumes "restore_start E c h n nodes w = (resp, acts, job, w1)"
  shows "stops_sent nodes acts"
proof -
  have "RStop (nd_ID m) (rs_Dispatch E (nd_ID m) = None) \<in> set acts" if "RStart k ok \<in> set acts" "m \<in> set (dbRoleNodes nodes)" "nd_ID m \<noteq> nd_ID n" for m k ok
    using assms that by (auto simp: restore_start_def Let_def stop_replicas_def split: if_splits)
  moreover have "k = nd_ID n" if "RStart k ok \<in> set acts" for k ok
    using assms that by (auto simp: restore_start_def Let_def stop_replicas_def split: if_splits)
  ultimately show ?thesis unfolding stops_sent_def by blast
qed

lemma stops_sent_more:
  assumes "stops_sent nodes acts" "list_all (\<lambda>a. \<not> stops_postgres a) acts'"
  shows "stops_sent nodes (acts @ acts')"
proof -
  have "RStart n ok \<notin> set acts'" for n ok using assms(2) by (auto simp: list_all_iff)
  then show ?thesis using assms(1) unfolding stops_sent_def set_append by blast
qed

lemma run_restore_resume:
  "RPause True \<notin> set (fst (run_restore E j w))"
  "RResume True \<in> set (fst (run_restore E j w)) \<longleftrightarrow>
     rs_Restore E = None \<and> poll_until (rs_Primary E) (rs_PrimaryPolls E) \<and> rest_ok (rs_Resume E)"
  by (auto simp: run_restore_def Let_def)

lemma mark_restore_undo:
  assumes "distinct (map sd_ClusterID (rw_Schedules w))" "GetSchedule c (rw_Schedules w) = Some s" "\<not> sd_RestoreInProgress s"
  shows "rw_Schedules (mark_restore True c False (mark_restore b c True (w\<lparr>rw_Locks := lk\<rparr>))) = rw_Schedules w"
proof -
  from assms(2) have s: "s \<in> set (rw_Schedules w)" "sd_ClusterID s = c" by (auto simp: GetSchedule_def find_Some_iff)
  have "r = s" if "r \<in> set (rw_Schedules w)" "sd_ClusterID r = c" for r
    using that s assms(1) by (auto simp: distinct_map inj_on_def)
  then have "sd_RestoreInProgress r = False" if "r \<in> set (rw_Schedules w)" "sd_ClusterID r = c" for r
    using that assms(3) by blast
  then show ?thesis
    by (auto simp: mark_restore_def SetRestoreInProgress_def update_schedule_def intro!: map_idI)
qed

lemma mark_restore_locks [simp]: "rw_Locks (mark_restore ok c b w) = rw_Locks w"
  by (simp add: mark_restore_def)

lemma release_restore_fields [simp]:
  "rw_Locks (release_restore h w) = Unlock (rw_Locks w) h" "rw_Schedules (release_restore h w) = rw_Schedules w"
  by (simp_all add: release_restore_def)

section \<open>Properties\<close>

text \<open>
  however a restore goes, once its request and its job are over the cluster's lock is free for the next operation and
  no restore is marked in progress any more (as long as the write that clears the mark succeeds).
\<close>

theorem restore_gives_cluster_back:
  assumes "lk_inv (rw_Locks w)" and "distinct (map sd_ClusterID (rw_Schedules w))" and "rs_MarkClear E"
    and "restore_run E w = (resp, acts, w')"
  shows "lk_inv (rw_Locks w') \<and> lk_running (rw_Locks w') = lk_running (rw_Locks w) \<and> rw_Schedules w' = rw_Schedules w"
proof -
  obtain resp1 acts1 job w1 where C: "ClusterRestore E w = (resp1, acts1, job, w1)" by (metis prod_cases4)
  from C show ?thesis
  proof (cases rule: ClusterRestore_cases)
    case 1
    with assms(1,4) C show ?thesis by (auto simp: restore_run_def)
  next
    case (2 c h lk)
    with assms(4) C lk.lock_unlock [OF assms(1) 2(3)] show ?thesis by (auto simp: restore_run_def)
  next
    case (3 c h lk s n nodes)
    note undo = mark_restore_undo [OF assms(2) 3(2,3)]
    note free = lk.lock_unlock [OF assms(1) 3(1)]
    show ?thesis
    proof (cases job)
      case None
      with assms(4) C have "w' = w1" by (simp add: restore_run_def)
      with 3(5) None assms(3) undo free show ?thesis by (auto simp: restore_start_def Let_def split: if_splits)
    next
      case (Some j)
      with 3(5) have j: "rj_ClusterID j = c" "rj_Unlock j = h" "w1 = mark_restore (rs_MarkSet E) c True (w\<lparr>rw_Locks := lk\<rparr>)"
        by (auto simp: restore_start_def Let_def split: if_splits)
      have "w' = release_restore h (mark_restore True c False w1)"
        using assms(3,4) C Some j(1,2) by (auto simp: restore_run_def run_restore_def Let_def split: if_splits)
      with j(3) undo free show ?thesis by simp
    qed
  qed
qed

text \<open>
  C17: the calls of a restore come in its order: PostgreSQL is stopped on no node, and nothing is restored, before Patroni
  confirmed the pause; the restore starts only after a stop of PostgreSQL was sent to each other database node - or its
  dispatch failed, and without waiting for any (\<open>restore_goes_on_unstopped\<close>); and no replica is reinitialised and Patroni is
  not resumed before the restore succeeded and the primary holds the leader lock.
\<close>

theorem restore_in_order:
  assumes "restore_run E w = (resp, acts, w')"
  shows "sorted (map phase acts) \<and> (\<forall>a \<in> set acts. stops_postgres a \<longrightarrow> RPause True \<in> set acts) \<and>
    (\<forall>nodes. rs_Nodes E = Some nodes \<longrightarrow> stops_sent nodes acts) \<and>
    (\<forall>a \<in> set acts. rebuilds_replica a \<longrightarrow> RRestored True \<in> set acts \<and> RPrimaryReady True \<in> set acts)"
proof -
  obtain resp1 acts1 job w1 where C: "ClusterRestore E w = (resp1, acts1, job, w1)" by (metis prod_cases4)
  from C show ?thesis
  proof (cases rule: ClusterRestore_cases)
    case (3 c h lk s n nodes)
    note A = restore_start_acts [OF 3(5)]
    show ?thesis
    proof (cases job)
      case None
      with assms C A restore_start_stops [OF 3(5)] 3(4) show ?thesis by (auto simp: restore_run_def)
    next
      case (Some j)
      with assms C have acts: "acts = acts1 @ fst (run_restore E j w1)" by (auto simp: restore_run_def split: prod.splits)
      have "list_all (\<lambda>a. \<not> stops_postgres a) (fst (run_restore E j w1))" using run_restore_phases(4) by (auto simp: list_all_iff)
      then have stops: "stops_sent nodes acts" unfolding acts by (rule stops_sent_more [OF restore_start_stops [OF 3(5)]])
      have "\<forall>a \<in> set acts1. phase a \<le> 3" using A(2) Some by blast
      then have "sorted (map phase acts)"
        using A(1) run_restore_phases(1,2) [of E j w1] by (force simp: acts sorted_append)
      then show ?thesis using A(3,4) run_restore_phases(3,4) [of _ E j w1] stops 3(4) by (auto simp: acts)
    qed
  qed (use assms C in \<open>auto simp: restore_run_def stops_sent_def\<close>)
qed

text \<open>
  once a restore has paused Patroni, Patroni is resumed exactly when the restore was dispatched and succeeded, the
  primary came back and the resume itself was accepted; in every other case the cluster is left paused with its replicas
  stopped although the conductor no longer counts a restore as running.
\<close>

theorem restore_resumes_iff:
  assumes "restore_run E w = (resp, acts, w')" and "RPause True \<in> set acts"
  shows "RResume True \<in> set acts \<longleftrightarrow>
    rs_Start E = None \<and> rs_Restore E = None \<and> poll_until (rs_Primary E) (rs_PrimaryPolls E) \<and> rest_ok (rs_Resume E)"
proof -
  obtain resp1 acts1 job w1 where C: "ClusterRestore E w = (resp1, acts1, job, w1)" by (metis prod_cases4)
  from C show ?thesis
  proof (cases rule: ClusterRestore_cases)
    case (3 c h lk s n nodes)
    note A = restore_start_acts [OF 3(5)]
    show ?thesis
    proof (cases job)
      case None
      with assms C A(5-7) show ?thesis by (auto simp: restore_run_def)
    next
      case (Some j)
      with assms C have acts: "acts = acts1 @ fst (run_restore E j w1)" by (auto simp: restore_run_def split: prod.splits)
      show ?thesis using A(6,7) Some run_restore_resume(2) [of E j w1] by (auto simp: acts)
    qed
  qed (use assms C in \<open>auto simp: restore_run_def\<close>)
qed

section \<open>Examples\<close>

definition restore_example :: "string option \<Rightarrow> restore_env" where
  "restore_example err = \<lparr>rs_ClusterID = Some 7, rs_Body = Some \<lparr>rr_TargetTime = ''2025-04-15T18:30:00Z'', rr_RestoreNodeID = [], rr_RestoreCmd = []\<rparr>,
     rs_TimeOK = (\<lambda>_. True), rs_ScheduleQuery = True,
     rs_Nodes = Some [deploy_node 1 ''db1'' ''10.0.0.1/24'' ''db_only'' ''primary'', deploy_node 2 ''db2'' ''10.0.0.2/24'' ''db_only'' ''replica''],
     rs_ParseID = (\<lambda>_. None), rs_MarkSet = True, rs_MarkClear = True, rs_Pause = Rest_reply 200 Malformed, rs_Dispatch = (\<lambda>_. None),
     rs_Start = None, rs_StopDone = (\<lambda>_. True), rs_Restore = err, rs_Primary = (\<lambda>k. Rest_reply (if k < 2 then 503 else 200) Malformed),
     rs_PrimaryPolls = 24, rs_Reinit = (\<lambda>_. Rest_reply 200 Malformed), rs_Resume = Rest_reply 200 Malformed,
     rs_Replica = (\<lambda>_ _. Rest_reply 200 Malformed), rs_ReplicaPolls = (\<lambda>_. 60)\<rparr>"

definition restore_world_example :: restore_world where
  "restore_world_example = \<lparr>rw_Locks = New_locks, rw_Schedules = [\<lparr>sd_ClusterID = 7, sd_Enabled = True, sd_FullBackupCron = [],
     sd_DiffBackupCron = [], sd_IncrBackupIntervalHrs = 1, sd_StanzaName = Some ''nb'', sd_StanzaInitialized = True,
     sd_FirstBackupRun = True, sd_RestoreInProgress = False\<rparr>]\<rparr>"

lemma restore_example_acts:
  "fst (snd (restore_run (restore_example None) restore_world_example)) =
     [RMark True, RPause True, RStop 2 True, RStart 1 True, RStopped 2 True, RRestored True, RPrimaryReady True,
      RReinit 2 True, RResume True, RReplicaBack 2 True, RMark False]"
  "fst (snd (restore_run (restore_example (Some ''e'')) restore_world_example)) =
     [RMark True, RPause True, RStop 2 True, RStart 1 True, RStopped 2 True, RRestored False, RMark False]"
  by code_simp+

text \<open>The restore has started by the time the stops are waited for, and goes on when a replica did not stop.\<close>

lemma restore_goes_on_unstopped:
  "fst (snd (restore_run ((restore_example None)\<lparr>rs_StopDone := (\<lambda>_. False)\<rparr>) restore_world_example)) =
     [RMark True, RPause True, RStop 2 True, RStart 1 True, RStopped 2 False, RRestored True, RPrimaryReady True,
      RReinit 2 True, RResume True, RReplicaBack 2 True, RMark False]"
  by code_simp

theorem restore_gives_cluster_back_witness:
  "\<exists>resp acts w'. restore_run (restore_example (Some ''e'')) restore_world_example = (resp, acts, w') \<and>
     lk_running (rw_Locks w') = Map.empty \<and> rw_Schedules w' = rw_Schedules restore_world_example"
proof -
  obtain resp acts w' where r: "restore_run (restore_example (Some ''e'')) restore_world_example = (resp, acts, w')" by (metis prod_cases3)
  have "lk_inv (rw_Locks restore_world_example)" "distinct (map sd_ClusterID (rw_Schedules restore_world_example))"
    "rs_MarkClear (restore_example (Some ''e''))"
    by (simp_all add: restore_world_example_def restore_example_def lk_inv_New)
  from restore_gives_cluster_back [OF this r] r show ?thesis
    by (auto simp: restore_world_example_def New_locks_def)
qed

theorem restore_in_order_witness:
  "sorted (map phase (fst (snd (restore_run (restore_example None) restore_world_example)))) \<and>
   list_all (\<lambda>a. rebuilds_replica a \<longrightarrow>
      RRestored True \<in> set (fst (snd (restore_run (restore_example None) restore_world_example))))
    (fst (snd (restore_run (restore_example None) restore_world_example)))"
proof -
  obtain resp acts w' where r: "restore_run (restore_example None) restore_world_example = (resp, acts, w')" by (metis prod_cases3)
  from restore_in_order [OF r] r show ?thesis by (simp add: list_all_iff)
qed

theorem restore_resumes_iff_witness:
  "RResume True \<notin> set (fst (snd (restore_run (restore_example (Some ''e'')) restore_world_example)))"
proof -
  obtain resp acts w' where r: "restore_run (restore_example (Some ''e'')) restore_world_example = (resp, acts, w')" by (metis prod_cases3)
  then have p: "RPause True \<in> set acts" using restore_example_acts(2) by simp
  from restore_resumes_iff [OF r p] r show ?thesis by (simp add: restore_example_def)
qed

end
