(* ===== verification/BackupEnable.thy ===== *)
theory BackupEnable
  imports BackupRestore
begin

text \<open>
  Turning backups on and off (\<open>internal/server/api/handlers/backup.go\<close>): \<open>EnableBackups\<close>, which pushes pgbackrest.conf,
  writes the archive settings to the Patroni configuration, restarts PostgreSQL where that is needed and creates the
  stanza; \<open>DisableBackups\<close> and \<open>DeleteBackupTarget\<close>, which remove the settings again; and the handlers that only push,
  test, list or save (\<open>PushBackupConfig\<close>, \<open>TestBackupPath\<close>, \<open>GetBackupCatalog\<close>, \<open>PutBackupSchedule\<close>).  Every call of a
  run is recorded in order with its outcome.
\<close>

section \<open>What the handlers work on\<close>

record backup_world =
  bw_Locks :: locks
  bw_Schedules :: "backup_schedule list"
  bw_Locations :: "location list"
  bw_Designs :: designs
  bw_Snapshots :: "snapshot list"

text \<open>
  The calls of a run: a configuration pushed to a node or not, the pause and the resume of Patroni, a check of a node and
  its result, a PATCH, a restart, the design stored or not, the stanza task dispatched, its result, the stanza marked as
  initialised, and the events.
\<close>

datatype enable_act =
    EConfigure uuid string bool | EPause bool | ECheck uuid bool | EPatch json bool | ERestart uuid bool | EDesign bool
  | EStanzaCreate uuid bool | EStanzaDone bool | EInitialized | EResume bool | ENote string string

definition release_backup :: "unlock_handle \<Rightarrow> backup_world \<Rightarrow> backup_world" where
  "release_backup h w = w\<lparr>bw_Locks := Unlock (bw_Locks w) h\<rparr>"

section \<open>Changes of the Patroni configuration\<close>

text \<open>
  \<open>patroniDCSChange\<close>: the snapshot before, the PATCH, and the snapshot after one that was accepted.  The PATCH's row in the
  task table is left out: it changes nothing of what the callers do.
\<close>

definition patroniDCSChange ::
  "snap_env \<Rightarrow> rest_answer \<Rightarrow> snap_env \<Rightarrow> uuid \<Rightarrow> string \<Rightarrow> snapshot list \<Rightarrow> rest_answer \<times> snapshot list" where
  "patroniDCSChange before patch after c source snaps =
     (let snaps = snapshotPatroniConfig before c source snaps
      in (patch, if rest_ok patch then recordPostChangeSnapshot after c source snaps else snaps))"

definition archive_settings :: "json \<Rightarrow> json \<Rightarrow> json" where
  "archive_settings mode command =
     JObj [(''postgresql'', JObj [(''parameters'', JObj [(''archive_mode'', mode), (''archive_command'', command)])])]"

definition disablePatch :: json where
  "disablePatch = archive_settings JNull JNull"

definition archive_command :: "string \<Rightarrow> string" where
  "archive_command stanza = ''pgbackrest --stanza='' @ stanza @ '' archive-push %p''"

definition archivePatch :: "string \<Rightarrow> json" where
  "archivePatch stanza = archive_settings (JStr ''on'') (JStr (archive_command stanza))"

section \<open>Turning archiving off\<close>

record disable_env =
  dz_ClusterID :: "uuid option"
  dz_TargetID :: "uuid option"
  dz_Nodes :: "node list option"
  dz_Query :: bool
  dz_Delete :: bool
  dz_Before :: snap_env
  dz_Patch :: rest_answer
  dz_After :: snap_env
  dz_Clear :: bool

definition disableArchiving :: "disable_env \<Rightarrow> uuid \<Rightarrow> backup_world \<Rightarrow> bool \<times> enable_act list \<times> backup_world" where
  "disableArchiving E c w =
     (case patroniDCSChange (dz_Before E) (dz_Patch E) (dz_After E) c ''disable-archiving'' (bw_Snapshots w) of
        (patch, snaps) \<Rightarrow>
          (rest_ok patch, [EPatch disablePatch (rest_ok patch)],
           w\<lparr>bw_Snapshots := snaps,
             bw_Schedules := (if rest_ok patch \<and> dz_Clear E then ClearStanzaInitialized c (bw_Schedules w) else bw_Schedules w)\<rparr>))"

definition DisableBackups :: "disable_env \<Rightarrow> backup_world \<Rightarrow> (http_error + unit) \<times> enable_act list \<times> backup_world" where
  "DisableBackups E w = (case dz_ClusterID E of
      None \<Rightarrow> (Inl (400, ''invalid cluster id''), [], w)
    | Some c \<Rightarrow> (case TryLock (bw_Locks w) c ''Disable Backups'' of
        Inl e \<Rightarrow> (Inl (409, busy_message e), [], w)
      | Inr (h, lk) \<Rightarrow>
          let w' = w\<lparr>bw_Locks := lk\<rparr> in
          (case dz_Nodes E of
             None \<Rightarrow> (Inl (500, ''failed to list nodes''), [], release_backup h w')
           | Some nodes \<Rightarrow> (case PrimaryDBNode nodes of
               None \<Rightarrow> (Inl (503, ''no connected primary node found''), [], release_backup h w')
             | Some _ \<Rightarrow> (case disableArchiving E c w' of
                 (ok, acts, w'') \<Rightarrow>
                   (if ok then Inr () else Inl (502, ''failed to disable archiving''), acts, release_backup h w''))))))"

text \<open>
  Removing a location.  The last one also turns archiving off: then the lock is held from before the delete until the
  background job ends, which only runs if a primary is connected.  A list that cannot be read counts as empty.
\<close>

definition delete_location :: "disable_env \<Rightarrow> uuid \<Rightarrow> uuid \<Rightarrow> bool \<Rightarrow> backup_world
    \<Rightarrow> (http_error + unit) \<times> enable_act list \<times> backup_world" where
  "delete_location E c i lastTarget w =
     (if \<not> dz_Delete E then (Inl (500, ''failed to delete backup target''), [], w)
      else let w' = w\<lparr>bw_Locations := DeleteLocation i (bw_Locations w)\<rparr> in
        if lastTarget \<and> PrimaryDBNode (case dz_Nodes E of None \<Rightarrow> [] | Some nodes \<Rightarrow> nodes) \<noteq> None
        then (case disableArchiving E c w' of (_, acts, w'') \<Rightarrow> (Inr (), acts, w''))
        else (Inr (), [], w'))"

definition DeleteBackupTarget :: "disable_env \<Rightarrow> backup_world \<Rightarrow> (http_error + unit) \<times> enable_act list \<times> backup_world" where
  "DeleteBackupTarget E w = (case dz_ClusterID E of
      None \<Rightarrow> (Inl (400, ''invalid cluster id''), [], w)
    | Some c \<Rightarrow> (case dz_TargetID E of
        None \<Rightarrow> (Inl (400, ''invalid target id''), [], w)
      | Some i \<Rightarrow> (case (if dz_Query E then GetLocation (bw_Locations w) i else None) of
          None \<Rightarrow> (Inl (404, ''backup target not found''), [], w)
        | Some existing \<Rightarrow>
            if lo_ClusterID existing \<noteq> c then (Inl (404, ''backup target not found''), [], w)
            else if length (ListLocations (bw_Locations w) c) = 1
            then (case TryLock (bw_Locks w) c ''Disable Backups'' of
                Inl e \<Rightarrow> (Inl (409, busy_message e), [], w)
              | Inr (h, lk) \<Rightarrow> (case delete_location E c i True (w\<lparr>bw_Locks := lk\<rparr>) of
                  (resp, acts, w') \<Rightarrow> (resp, acts, release_backup h w')))
            else delete_location E c i False w)))"

section \<open>Turning backups on\<close>

text \<open>
  What the request and its job meet.  A check or a restart of a node is its first, second or third: the answers are
  numbered.  \<open>en_Scope\<close> is the cluster's Patroni scope, which is the stanza's name.
\<close>

record enable_env =
  en_ClusterID :: "uuid option"
  en_Scope :: "string option"
  en_Targets :: bool
  en_Nodes :: "node list option"
  en_ScheduleQuery :: bool
  en_Upsert :: bool
  en_Configure :: "uuid \<Rightarrow> string option"
  en_Before :: snap_env
  en_Pause :: rest_answer
  en_Config :: "nat \<Rightarrow> rest_answer"
  en_Health :: "uuid \<Rightarrow> nat \<Rightarrow> rest_answer"
  en_Patch :: "nat \<Rightarrow> rest_answer"
  en_Restart :: "uuid \<Rightarrow> nat \<Rightarrow> rest_answer"
  en_Design :: bool
  en_After :: snap_env
  en_ScheduleAgain :: bool
  en_StanzaStart :: "string option"
  en_StanzaDone :: bool
  en_SetStanza :: bool
  en_Resume :: rest_answer

text \<open>\<open>cfg.Postgresql.Parameters[k]\<close> of the decoded configuration.\<close>

definition obj_member :: "string \<Rightarrow> members \<Rightarrow> members option" where
  "obj_member k ms = (case map_of ms k of None \<Rightarrow> Some [] | Some JNull \<Rightarrow> Some [] | Some (JObj xs) \<Rightarrow> Some xs | _ \<Rightarrow> None)"

definition pg_parameters :: "raw_message \<Rightarrow> members option" where
  "pg_parameters r = Option.bind (members_of r) (\<lambda>ms. Option.bind (obj_member ''postgresql'' ms) (obj_member ''parameters''))"

definition archive_in_config :: "string \<Rightarrow> rest_answer \<Rightarrow> bool" where
  "archive_in_config stanza a = (case Option.bind (rest_200 a) pg_parameters of
      None \<Rightarrow> False
    | Some ps \<Rightarrow> map_of ps ''archive_mode'' = Some (JStr ''on'') \<and>
        map_of ps ''archive_command'' = Some (JStr (archive_command stanza)))"

definition no_restart_pending :: "rest_answer \<Rightarrow> bool" where
  "no_restart_pending a = (Option.bind (rest_200 a) pending_of = Some False)"

definition archiveOK :: "enable_env \<Rightarrow> string \<Rightarrow> bool \<Rightarrow> uuid \<Rightarrow> nat \<Rightarrow> bool" where
  "archiveOK E stanza checkDCS n k =
     ((checkDCS \<longrightarrow> archive_in_config stanza (en_Config E k)) \<and> no_restart_pending (en_Health E n k))"

definition maxAttempts :: nat where "maxAttempts = 3"

text \<open>The primary's loop: \<open>None\<close> when a failed call ended the job, else whether a check succeeded.\<close>

fun primary_attempts :: "enable_env \<Rightarrow> string \<Rightarrow> node \<Rightarrow> nat \<Rightarrow> nat \<Rightarrow> enable_act list \<times> bool option" where
  "primary_attempts E stanza p 0 k = ([], Some False)"
| "primary_attempts E stanza p (Suc left) k =
     (let n = nd_ID p in
      if archiveOK E stanza True n k then ([ECheck n True], Some True)
      else if \<not> rest_ok (en_Patch E k) then
        ([ECheck n False, EPatch (archivePatch stanza) False,
          ENote ''warn'' (''Failed to write archive settings to Patroni DCS on '' @ nd_Hostname p)], None)
      else if \<not> rest_ok (en_Restart E n k) then
        ([ECheck n False, EPatch (archivePatch stanza) True, ERestart n False,
          ENote ''warn'' (''PostgreSQL restart failed on primary '' @ nd_Hostname p @ '' while enabling WAL archiving'')], None)
      else (case primary_attempts E stanza p left (Suc k) of
          (acts, r) \<Rightarrow> ([ECheck n False, EPatch (archivePatch stanza) True, ERestart n True] @ acts, r)))"

text \<open>A replica's loop: a failed restart only ends the loop.\<close>

fun replica_attempts :: "enable_env \<Rightarrow> string \<Rightarrow> node \<Rightarrow> nat \<Rightarrow> nat \<Rightarrow> enable_act list \<times> bool" where
  "replica_attempts E stanza r 0 k = ([], False)"
| "replica_attempts E stanza r (Suc left) k =
     (let n = nd_ID r in
      if archiveOK E stanza False n k then ([ECheck n True], True)
      else if \<not> rest_ok (en_Restart E n k) then
        ([ECheck n False, ERestart n False,
          ENote ''warn'' (''PostgreSQL restart failed on replica '' @ nd_Hostname r @ '' while applying archive_mode'')], False)
      else (case replica_attempts E stanza r left (Suc k) of
          (acts, ok) \<Rightarrow> ([ECheck n False, ERestart n True] @ acts, ok)))"

definition replica_run :: "enable_env \<Rightarrow> string \<Rightarrow> node \<Rightarrow> enable_act list" where
  "replica_run E stanza r = (case replica_attempts E stanza r maxAttempts 0 of
      (acts, ok) \<Rightarrow> acts @
        [if ok then ENote ''info'' (''WAL archiving applied to replica '' @ nd_Hostname r)
         else ENote ''warn'' (''WAL archiving could not be confirmed on replica '' @ nd_Hostname r)])"

text \<open>Steps 5 and 6: the stanza.\<close>

definition stanza_step :: "enable_env \<Rightarrow> uuid \<Rightarrow> string \<Rightarrow> node \<Rightarrow> backup_world \<Rightarrow> enable_act list \<times> backup_world" where
  "stanza_step E c stanza p w =
     (if (case (if en_ScheduleAgain E then GetSchedule c (bw_Schedules w) else None) of Some s \<Rightarrow> sd_StanzaInitialized s | None \<Rightarrow> False)
      then ([], w)
      else if en_StanzaStart E \<noteq> None then
        ([EStanzaCreate (nd_ID p) False, ENote ''warn'' (''pgBackRest stanza-create dispatch failed on '' @ nd_Hostname p)], w)
      else if \<not> en_StanzaDone E then
        ([EStanzaCreate (nd_ID p) True, EStanzaDone False, ENote ''warn'' (''pgBackRest stanza-create failed on '' @ nd_Hostname p)], w)
      else ([EStanzaCreate (nd_ID p) True, EStanzaDone True, EInitialized,
             ENote ''info'' (''pgBackRest stanza '' @ stanza @ '' created: backups enabled'')],
            if en_SetStanza E then w\<lparr>bw_Schedules := SetStanzaInitialized c stanza (bw_Schedules w)\<rparr> else w))"

text \<open>What the background job captured, and its steps between pause and resume.\<close>

record enable_job =
  ej_ClusterID :: uuid
  ej_Stanza :: string
  ej_Primary :: node
  ej_Replicas :: "node list"
  ej_Unlock :: unlock_handle

definition enable_confirmed :: "enable_env \<Rightarrow> enable_job \<Rightarrow> backup_world \<Rightarrow> enable_act list \<times> backup_world" where
  "enable_confirmed E j w =
     (let c = ej_ClusterID j; stanza = ej_Stanza j; p = ej_Primary j;
          w1 = w\<lparr>bw_Designs := (if en_Design E then Upsert_design c (Encodes (archivePatch stanza)) (bw_Designs w) else bw_Designs w),
                 bw_Snapshots := recordPostChangeSnapshot (en_After E) c ''configure-backups'' (bw_Snapshots w)\<rparr>
      in (case stanza_step E c stanza p w1 of
            (acts, w2) \<Rightarrow>
              (ENote ''info'' (''WAL archiving active on primary '' @ nd_Hostname p) # concat (map (replica_run E stanza) (ej_Replicas j))
                 @ EDesign (en_Design E) # acts, w2)))"

definition enable_steps :: "enable_env \<Rightarrow> enable_job \<Rightarrow> backup_world \<Rightarrow> enable_act list \<times> backup_world" where
  "enable_steps E j w = (case primary_attempts E (ej_Stanza j) (ej_Primary j) maxAttempts 0 of
      (acts, None) \<Rightarrow> (acts, w)
    | (acts, Some False) \<Rightarrow>
        (acts @ [ENote ''warn'' (''WAL archiving could not be confirmed on primary '' @ nd_Hostname (ej_Primary j))], w)
    | (acts, Some True) \<Rightarrow> (case enable_confirmed E j w of (acts', w') \<Rightarrow> (acts @ acts', w')))"

text \<open>The deferred calls of the job run in the reverse order: the resume, then the unlock.\<close>

definition run_enable :: "enable_env \<Rightarrow> enable_job \<Rightarrow> backup_world \<Rightarrow> enable_act list \<times> backup_world" where
  "run_enable E j w =
     (let w' = w\<lparr>bw_Snapshots := snapshotPatroniConfig (en_Before E) (ej_ClusterID j) ''configure-backups'' (bw_Snapshots w)\<rparr>
      in (case enable_steps E j w' of
            (acts, w'') \<Rightarrow> (EPause (rest_ok (en_Pause E)) # acts @ [EResume (rest_ok (en_Resume E))], release_backup (ej_Unlock j) w'')))"

definition DefaultFullBackupCron :: string where "DefaultFullBackupCron = ''0 1 * * 0''"
definition DefaultDiffBackupCron :: string where "DefaultDiffBackupCron = ''0 1 * * 1-6''"

text \<open>A schedule row is made if there is none, so that the stanza can be marked on it.\<close>

definition ensure_schedule :: "enable_env \<Rightarrow> uuid \<Rightarrow> backup_world \<Rightarrow> backup_world option" where
  "ensure_schedule E c w =
     (if (if en_ScheduleQuery E then GetSchedule c (bw_Schedules w) else None) \<noteq> None then Some w
      else if en_Upsert E
      then Some (w\<lparr>bw_Schedules := Upsert_schedule c True DefaultFullBackupCron DefaultDiffBackupCron 1 (bw_Schedules w)\<rparr>)
      else None)"

definition configure_nodes :: "(uuid \<Rightarrow> string option) \<Rightarrow> string \<Rightarrow> node list \<Rightarrow> enable_act list" where
  "configure_nodes dispatch conf nodes = map (\<lambda>n. EConfigure (nd_ID n) conf (dispatch (nd_ID n) = None)) nodes"

text \<open>With a primary connected the job runs and owns the lock; without one the handler answers 202 all the same.\<close>

definition enable_locked :: "encryptor \<Rightarrow> enable_env \<Rightarrow> uuid \<Rightarrow> unlock_handle \<Rightarrow> backup_world
    \<Rightarrow> (http_error + unit) \<times> enable_act list \<times> enable_job option \<times> backup_world" where
  "enable_locked enc E c h w = (case en_Scope E of
      None \<Rightarrow> (Inl (404, ''cluster not found''), [], None, release_backup h w)
    | Some stanza \<Rightarrow>
        let targets = (if en_Targets E then ListLocations (bw_Locations w) c else []) in
        if targets = [] then
          (Inl (409, ''add at least one backup storage location before enabling backups''), [], None, release_backup h w)
        else (case en_Nodes E of
            None \<Rightarrow> (Inl (500, ''failed to list nodes''), [], None, release_backup h w)
          | Some nodes \<Rightarrow>
              if dbRoleNodes nodes = [] then (Inl (409, ''no database nodes found in cluster''), [], None, release_backup h w)
              else (case ensure_schedule E c w of
                  None \<Rightarrow> (Inl (500, ''failed to initialize backup schedule''), [], None, release_backup h w)
                | Some w' \<Rightarrow>
                    let acts = configure_nodes (en_Configure E) (renderPGBackRestConf enc stanza targets) (dbRoleNodes nodes)
                               @ [ENote ''info'' ''Backup configuration pushed to cluster nodes: activating WAL archiving'']
                    in (case PrimaryDBNode nodes of
                          None \<Rightarrow> (Inr (), acts, None, release_backup h w')
                        | Some p \<Rightarrow>
                            (Inr (), acts,
                             Some \<lparr>ej_ClusterID = c, ej_Stanza = stanza, ej_Primary = p,
                                   ej_Replicas = filter (\<lambda>n. nd_ID n \<noteq> nd_ID p) (dbRoleNodes nodes), ej_Unlock = h\<rparr>, w')))))"

definition EnableBackups :: "encryptor \<Rightarrow> enable_env \<Rightarrow> backup_world
    \<Rightarrow> (http_error + unit) \<times> enable_act list \<times> enable_job option \<times> backup_world" where
  "EnableBackups enc E w = (case en_ClusterID E of
      None \<Rightarrow> (Inl (400, ''invalid cluster id''), [], None, w)
    | Some c \<Rightarrow> (case TryLock (bw_Locks w) c ''Enable Backups'' of
        Inl e \<Rightarrow> (Inl (409, busy_message e), [], None, w)
      | Inr (h, lk) \<Rightarrow> enable_locked enc E c h (w\<lparr>bw_Locks := lk\<rparr>)))"

text \<open>A request with its job, run to the end.\<close>

definition enable_run :: "encryptor \<Rightarrow> enable_env \<Rightarrow> backup_world \<Rightarrow> (http_error + unit) \<times> enable_act list \<times> backup_world" where
  "enable_run enc E w = (case EnableBackups enc E w of
      (resp, acts, None, w') \<Rightarrow> (resp, acts, w')
    | (resp, acts, Some j, w') \<Rightarrow> (case run_enable E j w' of (acts', w'') \<Rightarrow> (resp, acts @ acts', w'')))"

end
