(* ===== verification/BackupEnableProps.thy ===== *)
theory BackupEnableProps
  imports BackupEnable BackupConfProps PatroniConfigProps PatroniDeployProps
begin

text \<open>
  What turning backups on and off guarantees (\<open>BackupEnable\<close>): the lock and Patroni's pause are always given back, a node
  is restarted at most three times and a replica only once the primary archives, the stanza is marked only when it exists;
  and where the code falls short: a third restart is never checked, and turning backups off leaves the design in place.
\<close>

section \<open>The calls of a run\<close>

fun is_restart :: "uuid \<Rightarrow> enable_act \<Rightarrow> bool" where
  "is_restart n (ERestart m _) = (m = n)"
| "is_restart n _ = False"

text \<open>Calls an attempt loop on node \<open>n\<close> makes, calls before the job, and the calls of the stanza step.\<close>

fun attempt_of :: "uuid \<Rightarrow> enable_act \<Rightarrow> bool" where
  "attempt_of n (ECheck m _) = (m = n)"
| "attempt_of n (EPatch _ _) = True"
| "attempt_of n (ERestart m _) = (m = n)"
| "attempt_of n (ENote _ _) = True"
| "attempt_of n _ = False"

fun quiet :: "enable_act \<Rightarrow> bool" where
  "quiet (EConfigure _ _ _) = True"
| "quiet (ENote _ _) = True"
| "quiet _ = False"

fun brackets :: "enable_act \<Rightarrow> bool" where
  "brackets (EPause _) = True"
| "brackets (EResume _) = True"
| "brackets _ = False"

fun stanza_act :: "uuid \<Rightarrow> enable_act \<Rightarrow> bool" where
  "stanza_act n (EStanzaCreate m _) = (m = n)"
| "stanza_act n (EStanzaDone _) = True"
| "stanza_act n EInitialized = True"
| "stanza_act n (ENote _ _) = True"
| "stanza_act n _ = False"

definition restarts :: "uuid \<Rightarrow> enable_act list \<Rightarrow> nat" where
  "restarts n acts = length (filter (is_restart n) acts)"

lemma restarts_simps [simp]:
  "restarts n [] = 0" "restarts n (a # acts) = (if is_restart n a then 1 else 0) + restarts n acts"
  "restarts n (acts @ acts') = restarts n acts + restarts n acts'"
  by (simp_all add: restarts_def)

lemma attempt_of_other: "attempt_of m a \<Longrightarrow> n \<noteq> m \<Longrightarrow> \<not> is_restart n a"
  by (cases a) auto

lemma no_restarts: "(\<And>a. a \<in> set acts \<Longrightarrow> \<not> is_restart n a) \<Longrightarrow> restarts n acts = 0"
  by (simp add: restarts_def filter_empty_conv)

lemma primary_attempts_acts:
  assumes "primary_attempts E stanza p left k = (acts, r)"
  shows "list_all (attempt_of (nd_ID p)) acts" "restarts (nd_ID p) acts \<le> left"
    "r = Some True \<longleftrightarrow> ECheck (nd_ID p) True \<in> set acts"
  using assms
  by (induction E stanza p left k arbitrary: acts r rule: primary_attempts.induct)
     (auto simp: Let_def split: if_splits prod.splits)

lemma replica_attempts_acts:
  assumes "replica_attempts E stanza m left k = (acts, ok)"
  shows "list_all (attempt_of (nd_ID m)) acts" "restarts (nd_ID m) acts \<le> left"
  using assms
  by (induction E stanza m left k arbitrary: acts ok rule: replica_attempts.induct)
     (auto simp: Let_def split: if_splits prod.splits)

lemma replica_run_acts: "list_all (attempt_of (nd_ID m)) (replica_run E stanza m)" "restarts (nd_ID m) (replica_run E stanza m) \<le> maxAttempts"
  using replica_attempts_acts [of E stanza m maxAttempts 0] by (auto simp: replica_run_def split: prod.splits)

lemma replicas_acts:
  "a \<in> set (concat (map (replica_run E stanza) ms)) \<Longrightarrow> \<exists>m \<in> set ms. attempt_of (nd_ID m) a"
  using replica_run_acts(1) by (fastforce simp: list_all_iff)

lemma replicas_restarts:
  "distinct (map nd_ID ms) \<Longrightarrow> restarts n (concat (map (replica_run E stanza) ms)) \<le> (if n \<in> nd_ID ` set ms then maxAttempts else 0)"
proof (induction ms)
  case (Cons m ms)
  have m: "restarts n (replica_run E stanza m) \<le> (if n = nd_ID m then maxAttempts else 0)"
  proof (cases "n = nd_ID m")
    case False
    have "restarts n (replica_run E stanza m) = 0"
      by (rule no_restarts) (use replica_run_acts(1) [of m E stanza] attempt_of_other [OF _ False] in \<open>auto simp: list_all_iff\<close>)
    then show ?thesis by simp
  qed (simp add: replica_run_acts)
  show ?case using Cons m by (auto split: if_splits)
qed simp

lemma stanza_step_acts:
  assumes "stanza_step E c stanza p w = (acts, w')"
  shows "list_all (stanza_act (nd_ID p)) acts" "EInitialized \<in> set acts \<Longrightarrow> EStanzaDone True \<in> set acts \<and> EStanzaCreate (nd_ID p) True \<in> set acts"
    "EInitialized \<notin> set acts \<Longrightarrow> bw_Schedules w' = bw_Schedules w" "bw_Locks w' = bw_Locks w" "bw_Designs w' = bw_Designs w"
  using assms by (auto simp: stanza_step_def split: if_splits)

text \<open>The steps of a job: either the primary never passes its check and nothing is recorded, or it passes first of all.\<close>

lemma enable_steps_cases:
  assumes "enable_steps E j w = (acts, w')"
  obtains "list_all (attempt_of (nd_ID (ej_Primary j))) acts" "restarts (nd_ID (ej_Primary j)) acts \<le> maxAttempts"
      "ECheck (nd_ID (ej_Primary j)) True \<notin> set acts" "w' = w"
  | A m S where "acts = A @ m # concat (map (replica_run E (ej_Stanza j)) (ej_Replicas j)) @ EDesign (en_Design E) # S" "quiet m"
      "list_all (attempt_of (nd_ID (ej_Primary j))) A" "restarts (nd_ID (ej_Primary j)) A \<le> maxAttempts"
      "ECheck (nd_ID (ej_Primary j)) True \<in> set A" "list_all (stanza_act (nd_ID (ej_Primary j))) S"
      "EInitialized \<in> set S \<Longrightarrow> EStanzaDone True \<in> set S \<and> EStanzaCreate (nd_ID (ej_Primary j)) True \<in> set S"
      "EInitialized \<notin> set S \<Longrightarrow> bw_Schedules w' = bw_Schedules w" "bw_Locks w' = bw_Locks w"
proof -
  obtain A r where A: "primary_attempts E (ej_Stanza j) (ej_Primary j) maxAttempts 0 = (A, r)" by fastforce
  note a = primary_attempts_acts [OF A]
  show ?thesis
  proof (cases "r = Some True")
    case True
    obtain S w2 where S: "stanza_step E (ej_ClusterID j) (ej_Stanza j) (ej_Primary j)
        (w\<lparr>bw_Designs := (if en_Design E then Upsert_design (ej_ClusterID j) (Encodes (archivePatch (ej_Stanza j))) (bw_Designs w) else bw_Designs w),
           bw_Snapshots := recordPostChangeSnapshot (en_After E) (ej_ClusterID j) ''configure-backups'' (bw_Snapshots w)\<rparr>) = (S, w2)"
      by fastforce
    show ?thesis
      by (rule that(2) [where A = A and S = S]) (use assms A a S True stanza_step_acts [OF S] in
          \<open>auto simp: enable_steps_def enable_confirmed_def Let_def\<close>)
  next
    case False
    then show ?thesis
      by (intro that(1)) (use assms A a in \<open>auto simp: enable_steps_def split: option.splits bool.splits\<close>)
  qed
qed

lemma attempt_not_bracket: "attempt_of n a \<Longrightarrow> \<not> brackets a" "stanza_act n a \<Longrightarrow> \<not> brackets a" "quiet a \<Longrightarrow> \<not> brackets a"
  by (cases a; simp)+

lemma enable_steps_brackets:
  assumes "enable_steps E j w = (acts, w')"
  shows "list_all (\<lambda>a. \<not> brackets a) acts" "bw_Locks w' = bw_Locks w"
proof -
  from assms have "list_all (\<lambda>a. \<not> brackets a) acts \<and> bw_Locks w' = bw_Locks w"
  proof (cases rule: enable_steps_cases)
    case 1
    then show ?thesis by (simp add: list_all_iff) (meson attempt_not_bracket)
  next
    case (2 A m S)
    have "\<not> brackets a" if a: "a \<in> set acts" for a
    proof -
      from a 2(1) consider "a \<in> set A" | "a = m" | "a \<in> set (concat (map (replica_run E (ej_Stanza j)) (ej_Replicas j)))"
        | "a = EDesign (en_Design E)" | "a \<in> set S" by (simp del: set_concat) blast
      then show ?thesis
      proof cases
        case 3
        then show ?thesis using replicas_acts attempt_not_bracket(1) by blast
      qed (use 2(2,3,6) attempt_not_bracket in \<open>auto simp: list_all_iff\<close>)
    qed
    with 2 show ?thesis by (simp add: list_all_iff)
  qed
  then show "list_all (\<lambda>a. \<not> brackets a) acts" "bw_Locks w' = bw_Locks w" by blast+
qed

lemma enable_locked_cases:
  assumes "enable_locked enc E c h w = (resp, acts, job, w')"
  shows "list_all quiet acts"
    "(job = None \<and> bw_Locks w' = Unlock (bw_Locks w) h) \<or> (\<exists>j. job = Some j \<and> ej_Unlock j = h \<and> bw_Locks w' = bw_Locks w)"
proof -
  have e: "bw_Locks v = bw_Locks w" if "ensure_schedule E c w = Some v" for v
    using that by (auto simp: ensure_schedule_def split: if_splits)
  have q: "list_all quiet (configure_nodes d conf ns)" for d conf ns
    by (auto simp: configure_nodes_def list_all_iff)
  from assms e show "list_all quiet acts" "(job = None \<and> bw_Locks w' = Unlock (bw_Locks w) h)
      \<or> (\<exists>j. job = Some j \<and> ej_Unlock j = h \<and> bw_Locks w' = bw_Locks w)"
    by (auto simp: enable_locked_def release_backup_def Let_def q split: option.splits if_splits)
qed

lemma run_enable_acts:
  assumes "run_enable E j w = (acts, w')"
  obtains mid w1 where "enable_steps E j (w\<lparr>bw_Snapshots := snapshotPatroniConfig (en_Before E) (ej_ClusterID j) ''configure-backups'' (bw_Snapshots w)\<rparr>) = (mid, w1)"
    "acts = EPause (rest_ok (en_Pause E)) # mid @ [EResume (rest_ok (en_Resume E))]" "w' = release_backup (ej_Unlock j) w1"
  using assms by (auto simp: run_enable_def Let_def split: prod.splits)

lemma prefix_before: "xs @ a # ys = pre @ post \<Longrightarrow> a \<notin> set pre \<Longrightarrow> set pre \<subseteq> set xs"
  by (auto simp: append_eq_append_conv2 Cons_eq_append_conv)

section \<open>Properties\<close>

text \<open>
  however turning backups on goes, the cluster's lock is free again at its end, and Patroni is touched only between
  one pause and one attempt to resume it, which comes last.
\<close>

theorem enable_gives_cluster_back:
  assumes "lk_inv (bw_Locks w)" and "enable_run enc E w = (resp, acts, w')"
  shows "lk_inv (bw_Locks w') \<and> lk_running (bw_Locks w') = lk_running (bw_Locks w) \<and>
    (list_all quiet acts \<or> (\<exists>pre mid. acts = pre @ EPause (rest_ok (en_Pause E)) # mid @ [EResume (rest_ok (en_Resume E))] \<and>
       list_all quiet pre \<and> list_all (\<lambda>a. \<not> brackets a) mid))"
proof -
  obtain resp1 acts1 job w1 where B: "EnableBackups enc E w = (resp1, acts1, job, w1)" by (metis prod_cases4)
  show ?thesis
  proof (cases "\<exists>c h lk. en_ClusterID E = Some c \<and> TryLock (bw_Locks w) c ''Enable Backups'' = Inr (h, lk)")
    case False
    with B have "acts1 = []" "job = None" "w1 = w"
      by (auto simp: EnableBackups_def split: option.splits sum.splits)
    with assms B show ?thesis by (auto simp: enable_run_def)
  next
    case True
    then obtain c h lk where lock: "en_ClusterID E = Some c" "TryLock (bw_Locks w) c ''Enable Backups'' = Inr (h, lk)" by blast
    with B have L: "enable_locked enc E c h (w\<lparr>bw_Locks := lk\<rparr>) = (resp1, acts1, job, w1)" by (simp add: EnableBackups_def)
    note free = lk.lock_unlock [OF assms(1) lock(2)]
    note q = enable_locked_cases [OF L]
    show ?thesis
    proof (cases job)
      case None
      with assms(2) B q free show ?thesis by (auto simp: enable_run_def)
    next
      case (Some j)
      with q(2) have j: "ej_Unlock j = h" "bw_Locks w1 = lk" by auto
      obtain acts2 where r: "run_enable E j w1 = (acts2, w')" "acts = acts1 @ acts2"
        using assms(2) B Some by (auto simp: enable_run_def split: prod.splits)
      from r(1) show ?thesis
      proof (rule run_enable_acts)
        fix mid v
        assume S: "enable_steps E j (w1\<lparr>bw_Snapshots := snapshotPatroniConfig (en_Before E) (ej_ClusterID j) ''configure-backups'' (bw_Snapshots w1)\<rparr>) = (mid, v)"
          and a: "acts2 = EPause (rest_ok (en_Pause E)) # mid @ [EResume (rest_ok (en_Resume E))]" and w': "w' = release_backup (ej_Unlock j) v"
        from enable_steps_brackets [OF S] j free w' have "lk_inv (bw_Locks w')" "lk_running (bw_Locks w') = lk_running (bw_Locks w)"
          by (simp_all add: release_backup_def)
        then show ?thesis using q(1) enable_steps_brackets(1) [OF S] r(2) a by blast
      qed
    qed
  qed
qed

text \<open>
  C28: turning backups on restarts no node more than three times, and a replica only after the primary passed its check
  with archiving on; the design is extended and the stanza created only then, and the stanza is marked as initialised only
  after its task succeeded.
\<close>

theorem enable_restarts_safely:
  assumes "run_enable E j w = (acts, w')" and "distinct (map nd_ID (ej_Primary j # ej_Replicas j))"
  shows "restarts n acts \<le> 3 \<and>
    (\<forall>xs ok ys. acts = xs @ ERestart n ok # ys \<and> n \<noteq> nd_ID (ej_Primary j) \<longrightarrow> ECheck (nd_ID (ej_Primary j)) True \<in> set xs) \<and>
    (\<forall>ok. EDesign ok \<in> set acts \<or> EStanzaCreate n ok \<in> set acts \<longrightarrow> ECheck (nd_ID (ej_Primary j)) True \<in> set acts) \<and>
    (bw_Schedules w' \<noteq> bw_Schedules w \<longrightarrow> EStanzaDone True \<in> set acts \<and> EStanzaCreate (nd_ID (ej_Primary j)) True \<in> set acts)"
  using assms(1)
proof (rule run_enable_acts)
  let ?p = "nd_ID (ej_Primary j)"
  fix mid v
  assume S: "enable_steps E j (w\<lparr>bw_Snapshots := snapshotPatroniConfig (en_Before E) (ej_ClusterID j) ''configure-backups'' (bw_Snapshots w)\<rparr>) = (mid, v)"
    and acts: "acts = EPause (rest_ok (en_Pause E)) # mid @ [EResume (rest_ok (en_Resume E))]" and w': "w' = release_backup (ej_Unlock j) v"
  have other: "restarts n A = 0" if "list_all (attempt_of ?p) A" "n \<noteq> ?p" for A
    by (rule no_restarts) (use that attempt_of_other in \<open>auto simp: list_all_iff\<close>)
  have sched: "bw_Schedules w' = bw_Schedules v" by (simp add: w' release_backup_def)
  from S show ?thesis
  proof (cases rule: enable_steps_cases)
    case 1
    have none: "a \<notin> set mid" if "\<not> attempt_of ?p a" for a using 1(1) that by (auto simp: list_all_iff)
    have "restarts n mid \<le> 3" using other [OF 1(1)] 1(2) by (cases "n = ?p") (auto simp: maxAttempts_def)
    then have "restarts n acts \<le> 3" by (simp add: acts)
    moreover have "ERestart n ok \<notin> set acts" if "n \<noteq> ?p" for ok using none that by (auto simp: acts)
    then have "ECheck ?p True \<in> set xs" if "acts = xs @ ERestart n ok # ys" "n \<noteq> ?p" for xs ok ys
      using that by (metis in_set_conv_decomp)
    moreover have "\<not> (EDesign ok \<in> set acts \<or> EStanzaCreate n ok \<in> set acts)" for ok using none by (auto simp: acts)
    moreover have "bw_Schedules w' = bw_Schedules w" using sched 1(4) by simp
    ultimately show ?thesis by blast
  next
    case (2 A m Z)
    let ?R = "concat (map (replica_run E (ej_Stanza j)) (ej_Replicas j))"
    have z: "restarts n Z = 0" "\<not> is_restart n m"
      using 2(2,6) by (auto intro!: no_restarts simp: list_all_iff elim: is_restart.elims, (fastforce elim: is_restart.elims)+)
    have rep: "restarts n ?R \<le> (if n \<in> nd_ID ` set (ej_Replicas j) then 3 else 0)"
      using replicas_restarts [of "ej_Replicas j" n E "ej_Stanza j"] assms(2) by (auto simp: maxAttempts_def)
    have three: "restarts n acts \<le> 3"
      using rep z 2(1,4) other [OF 2(3)] assms(2) by (cases "n = ?p") (auto simp: acts maxAttempts_def split: if_splits)
    have "ECheck ?p True \<in> set xs" if x: "acts = xs @ ERestart n ok # ys" and np: "n \<noteq> ?p" for xs ok ys
    proof -
      let ?pre = "EPause (rest_ok (en_Pause E)) # A" and ?post = "m # ?R @ EDesign (en_Design E) # Z @ [EResume (rest_ok (en_Resume E))]"
      have nin: "ERestart n ok \<notin> set ?pre" using 2(3) np by (auto simp: list_all_iff)
      have "xs @ ERestart n ok # ys = ?pre @ ?post" using x acts 2(1) by simp
      from prefix_before [OF this nin] have "set ?pre \<subseteq> set xs" .
      with 2(5) show ?thesis by auto
    qed
    moreover have "EInitialized \<in> set Z" if "bw_Schedules w' \<noteq> bw_Schedules w" using that 2(8) sched by auto
    ultimately show ?thesis using three 2(1,5,7) acts by auto
  qed
qed

text \<open>The primary's three attempts when Patroni accepts every call.\<close>

lemma primary_attempts_accepted:
  assumes "\<And>k. rest_ok (en_Patch E k)" "\<And>k. rest_ok (en_Restart E (nd_ID p) k)" "primary_attempts E stanza p left k = (acts, r)"
  shows "r = Some (\<exists>i \<in> {k..<k + left}. archiveOK E stanza True (nd_ID p) i)"
    "r = Some False \<Longrightarrow> acts = concat (replicate left [ECheck (nd_ID p) False, EPatch (archivePatch stanza) True, ERestart (nd_ID p) True])"
proof -
  have "r = Some (\<exists>i \<in> {k..<k + left}. archiveOK E stanza True (nd_ID p) i) \<and>
    (r = Some False \<longrightarrow> acts = concat (replicate left [ECheck (nd_ID p) False, EPatch (archivePatch stanza) True, ERestart (nd_ID p) True]))"
    using assms
  proof (induction left arbitrary: k acts r)
    case (Suc left)
    have split: "{k..<k + Suc left} = insert k {Suc k..<Suc k + left}" by auto
    show ?case
    proof (cases "archiveOK E stanza True (nd_ID p) k")
      case True
      with Suc.prems show ?thesis by (auto simp: Let_def intro!: bexI [of _ k])
    next
      case False
      obtain acts' r' where rec: "primary_attempts E stanza p left (Suc k) = (acts', r')" by fastforce
      have "(\<exists>i \<in> {k..<k + Suc left}. archiveOK E stanza True (nd_ID p) i) \<longleftrightarrow> (\<exists>i \<in> {Suc k..<Suc k + left}. archiveOK E stanza True (nd_ID p) i)"
        unfolding split using False by blast
      with Suc.prems False rec Suc.IH [OF Suc.prems(1,2) rec] show ?thesis by (auto simp: Let_def)
    qed
  qed simp
  then show "r = Some (\<exists>i \<in> {k..<k + left}. archiveOK E stanza True (nd_ID p) i)"
    "r = Some False \<Longrightarrow> acts = concat (replicate left [ECheck (nd_ID p) False, EPatch (archivePatch stanza) True, ERestart (nd_ID p) True])"
    by blast+
qed

text \<open>
  with every call of the primary accepted, turning backups on goes on exactly when one of its first three checks
  succeeds; what the third restart brought is never looked at: the archive settings are then in the Patroni configuration
  and the primary was restarted three times, yet neither the design nor the schedule is changed.
\<close>

theorem third_restart_is_not_checked:
  assumes "\<And>k. rest_ok (en_Patch E k)" and "\<And>k. rest_ok (en_Restart E (nd_ID (ej_Primary j)) k)" and "run_enable E j w = (acts, w')"
  shows "(ECheck (nd_ID (ej_Primary j)) True \<in> set acts \<longleftrightarrow> (\<exists>k < 3. archiveOK E (ej_Stanza j) True (nd_ID (ej_Primary j)) k)) \<and>
    (\<not> (\<exists>k < 3. archiveOK E (ej_Stanza j) True (nd_ID (ej_Primary j)) k) \<longrightarrow>
       EPatch (archivePatch (ej_Stanza j)) True \<in> set acts \<and> restarts (nd_ID (ej_Primary j)) acts = 3 \<and>
       bw_Designs w' = bw_Designs w \<and> bw_Schedules w' = bw_Schedules w)"
proof -
  let ?p = "nd_ID (ej_Primary j)"
  obtain A r where A: "primary_attempts E (ej_Stanza j) (ej_Primary j) maxAttempts 0 = (A, r)" by fastforce
  note acc = primary_attempts_accepted [OF assms(1,2) A]
  have three: "(\<exists>i \<in> {0..<0 + maxAttempts}. archiveOK E (ej_Stanza j) True ?p i) \<longleftrightarrow> (\<exists>k < 3. archiveOK E (ej_Stanza j) True ?p k)"
    by (auto simp: maxAttempts_def)
  from assms(3) show ?thesis
  proof (rule run_enable_acts)
    fix mid v
    assume S: "enable_steps E j (w\<lparr>bw_Snapshots := snapshotPatroniConfig (en_Before E) (ej_ClusterID j) ''configure-backups'' (bw_Snapshots w)\<rparr>) = (mid, v)"
      and acts: "acts = EPause (rest_ok (en_Pause E)) # mid @ [EResume (rest_ok (en_Resume E))]" and w': "w' = release_backup (ej_Unlock j) v"
    show ?thesis
    proof (cases "r = Some False")
      case True
      have a: "A = concat (replicate 3 [ECheck ?p False, EPatch (archivePatch (ej_Stanza j)) True, ERestart ?p True])"
        using acc(2) [OF True] by (simp add: maxAttempts_def)
      obtain msg where m: "mid = A @ [ENote ''warn'' msg]" and v: "bw_Designs v = bw_Designs w" "bw_Schedules v = bw_Schedules w"
        using S A True by (auto simp: enable_steps_def)
      have "\<not> (\<exists>k < 3. archiveOK E (ej_Stanza j) True ?p k)" using acc(1) True three by simp
      moreover have "restarts ?p acts = 3" "EPatch (archivePatch (ej_Stanza j)) True \<in> set acts" "ECheck ?p True \<notin> set acts"
        by (simp_all add: acts m a numeral_3_eq_3)
      ultimately show ?thesis using v w' by (simp add: release_backup_def)
    next
      case False
      then have "\<exists>k < 3. archiveOK E (ej_Stanza j) True ?p k" "r = Some True" using acc(1) three by auto
      moreover have "ECheck ?p True \<in> set A" using primary_attempts_acts(3) [OF A] \<open>r = Some True\<close> by simp
      ultimately show ?thesis using S A acts by (auto simp: enable_steps_def split: prod.splits)
    qed
  qed
qed

text \<open>An edit that passes the design check of a design extended with the archive settings has archiving on.\<close>

lemma holds_archive:
  assumes "holds (archive_settings mode command) (JObj im)" and "canon mode = JStr m"
  shows "\<exists>ps. pg_parameters (Encodes (JObj im)) = Some ps \<and> map_of ps ''archive_mode'' = Some (JStr m)"
proof -
  have obj: "\<exists>b. v = JObj b" if "holds (JObj a) v" for a v
    using that canon_obj_shape by (cases v) (auto simp: holds_other)
  have str: "v = JStr m" if "holds mode v" for v
  proof -
    have "\<not> (\<exists>dm. mode = JObj dm)" using assms(2) by auto
    then have "canon v = JStr m" using that assms(2) by (simp add: holds_other)
    then show ?thesis by (cases v) auto
  qed
  from assms(1) obtain v1 where v1: "map_of im ''postgresql'' = Some v1"
      "holds (JObj [(''parameters'', JObj [(''archive_mode'', mode), (''archive_command'', command)])]) v1"
    by (auto simp: archive_settings_def holds_obj)
  with obj obtain pm where pm: "v1 = JObj pm" by blast
  with v1 obtain v2 where v2: "map_of pm ''parameters'' = Some v2" "holds (JObj [(''archive_mode'', mode), (''archive_command'', command)]) v2"
    by (auto simp: holds_obj)
  with obj obtain ps where ps: "v2 = JObj ps" by blast
  with v2 str obtain "map_of ps ''archive_mode'' = Some (JStr m)" by (auto simp: holds_obj)
  then show ?thesis using v1 v2 pm ps by (simp add: pg_parameters_def members_of_def obj_member_def)
qed

lemma DisableBackups_designs: "DisableBackups E w = (resp, acts, w') \<Longrightarrow> bw_Designs w' = bw_Designs w"
  by (auto simp: DisableBackups_def disableArchiving_def release_backup_def Let_def split: option.splits sum.splits prod.splits)

text \<open>
  turning backups off takes the archive settings out of the Patroni configuration but not out of the design that
  turning them on extended: afterwards every edit of the configuration without \<open>archive_mode\<close>, the one Patroni
  has included, is refused as a change of a field the conductor manages.
\<close>

theorem edits_refused_after_disable:
  assumes "bw_Designs w = Upsert_design c (Encodes (archivePatch stanza)) ds" and "ds c = Some (Encodes (JObj base))"
    and "wf_json (JObj base)" and "[] \<notin> fst ` set base"
    and "DisableBackups E w = (Inr (), acts, w')" and "dw_Designs dw = bw_Designs w'"
    and "pe_ClusterID env = Some c" and "pe_Body env = Some rq" and "pr_Source rq = ''user-edit''" and "pr_Config rq = Some (JObj im)"
    and "pe_Nodes env = Some nodes" and "PrimaryDBNode nodes = Some p" and "pe_Design env"
    and "\<And>ps. pg_parameters (Encodes (JObj im)) = Some ps \<Longrightarrow> map_of ps ''archive_mode'' \<noteq> Some (JStr ''on'')"
  shows "\<exists>field. field \<noteq> [] \<and> PatchPatroniConfig env i dw
    = (Inl (400, ''The field '' @ field @ '' is managed by the conductor and cannot be set directly.''), dw)"
proof -
  define new where "new = [(''postgresql'', JObj [(''parameters'', JObj [(''archive_mode'', JStr ''on''), (''archive_command'', JStr (archive_command stanza))])])]"
  have new: "archivePatch stanza = JObj new" "wf_json (JObj new)" "[] \<notin> fst ` set new"
    by (simp_all add: new_def archivePatch_def archive_settings_def)
  have design: "dw_Designs dw c = Some (Encodes (JObj (deepMerge base new)))"
    using assms(1,2,6) DisableBackups_designs [OF assms(5)] new(1) by (simp add: Upsert_design_def members_of_def Let_def)
  have named: "[] \<notin> fst ` set (deepMerge base new)" using assms(4) new(3) unfolding deepMerge_eq by force
  have "\<not> holds (JObj (deepMerge base new)) (JObj im)"
  proof
    assume "holds (JObj (deepMerge base new)) (JObj im)"
    then have "holds (archivePatch stanza) (JObj im)" using holds_merged [OF new(2) assms(3)] new(1) by simp
    with holds_archive [of "JStr ''on''" _ im "''on''"] assms(14) show False by (auto simp: archivePatch_def)
  qed
  then have "findDesignViolation [] (deepMerge base new) im \<noteq> []" using violation_iff [of "[]"] named by blast
  then show ?thesis
    using assms(7-13) design by (auto simp: PatchPatroniConfig_def design_violation_def members_of_def Let_def)
qed

section \<open>Examples\<close>

text \<open>A cluster of two database nodes whose first \<open>n\<close> checks of the primary find the archive settings missing.\<close>

definition snap_off :: snap_env where
  "snap_off = \<lparr>se_Get = Rest_error False, se_List = True, se_Insert = True, se_Prune = True, se_NewID = 9, se_Now = 1\<rparr>"

definition enable_nodes :: "node list" where
  "enable_nodes = [deploy_node 1 ''db1'' ''10.0.0.1/24'' ''db_only'' ''primary'', deploy_node 2 ''db2'' ''10.0.0.2/24'' ''db_only'' ''replica'']"

definition enable_example :: "nat \<Rightarrow> enable_env" where
  "enable_example n = \<lparr>en_ClusterID = Some 7, en_Scope = Some ''nb'', en_Targets = True, en_Nodes = Some enable_nodes, en_ScheduleQuery = True,
     en_Upsert = True, en_Configure = (\<lambda>_. None), en_Before = snap_off, en_Pause = Rest_reply 200 Malformed,
     en_Config = (\<lambda>k. Rest_reply 200 (Encodes (if k < n then JObj [] else archivePatch ''nb''))),
     en_Health = (\<lambda>_ _. Rest_reply 200 (Encodes (JObj [(''pending_restart'', JBool False)]))), en_Patch = (\<lambda>_. Rest_reply 200 Malformed),
     en_Restart = (\<lambda>_ _. Rest_reply 200 Malformed), en_Design = True, en_After = snap_off, en_ScheduleAgain = True, en_StanzaStart = None,
     en_StanzaDone = True, en_SetStanza = True, en_Resume = Rest_reply 200 Malformed\<rparr>"

definition enable_world :: backup_world where
  "enable_world = \<lparr>bw_Locks = New_locks, bw_Schedules = [], bw_Locations = [location_example\<lparr>lo_ClusterID := 7\<rparr>],
     bw_Designs = [7 \<mapsto> Encodes (JObj [(''ttl'', JNum 30)])], bw_Snapshots = []\<rparr>"

definition job_example :: enable_job where
  "job_example = \<lparr>ej_ClusterID = 7, ej_Stanza = ''nb'', ej_Primary = enable_nodes ! 0, ej_Replicas = [enable_nodes ! 1], ej_Unlock = (0, 7)\<rparr>"

lemma enable_example_acts:
  "filter (\<lambda>a. case a of ENote _ _ \<Rightarrow> False | _ \<Rightarrow> True) (fst (run_enable (enable_example 1) job_example enable_world))
     = [EPause True, ECheck 1 False, EPatch (archivePatch ''nb'') True, ERestart 1 True, ECheck 1 True, ECheck 2 True, EDesign True,
        EStanzaCreate 1 True, EStanzaDone True, EInitialized, EResume True]"
  by code_simp

theorem enable_gives_cluster_back_witness:
  "\<exists>resp acts w'. enable_run enc_example (enable_example 1) enable_world = (resp, acts, w') \<and> lk_running (bw_Locks w') = Map.empty"
proof -
  obtain resp acts w' where r: "enable_run enc_example (enable_example 1) enable_world = (resp, acts, w')" by (metis prod_cases3)
  have "lk_inv (bw_Locks enable_world)" by (simp add: enable_world_def lk_inv_New)
  from enable_gives_cluster_back [OF this r] r show ?thesis by (simp add: enable_world_def New_locks_def)
qed

theorem enable_restarts_safely_witness:
  "restarts 1 (fst (run_enable (enable_example 1) job_example enable_world)) \<le> 3"
proof -
  obtain acts w' where r: "run_enable (enable_example 1) job_example enable_world = (acts, w')" by fastforce
  have "distinct (map nd_ID (ej_Primary job_example # ej_Replicas job_example))" by code_simp
  from enable_restarts_safely [OF r this, of 1] r show ?thesis by simp
qed

text \<open>The third restart brings the archive settings into effect, and the run ends as a failure all the same.\<close>

theorem third_restart_is_not_checked_witness:
  "archiveOK (enable_example 3) ''nb'' True 1 3 \<and>
   bw_Schedules (snd (run_enable (enable_example 3) job_example enable_world)) = bw_Schedules enable_world"
proof -
  obtain acts w' where r: "run_enable (enable_example 3) job_example enable_world = (acts, w')" by fastforce
  have ok: "rest_ok (en_Patch (enable_example 3) k)" "rest_ok (en_Restart (enable_example 3) (nd_ID (ej_Primary job_example)) k)" for k
    by (simp_all add: enable_example_def rest_ok_def)
  have "\<not> archiveOK (enable_example 3) (ej_Stanza job_example) True (nd_ID (ej_Primary job_example)) k" if "k < 3" for k
    using that by (simp add: archiveOK_def archive_in_config_def enable_example_def rest_200_def pg_parameters_def members_of_def obj_member_def)
  moreover have "archiveOK (enable_example 3) ''nb'' True 1 3" by code_simp
  ultimately show ?thesis using third_restart_is_not_checked [OF ok r] r by auto
qed

definition disable_example :: disable_env where
  "disable_example = \<lparr>dz_ClusterID = Some 7, dz_TargetID = None, dz_Nodes = Some enable_nodes, dz_Query = True, dz_Delete = True,
     dz_Before = snap_off, dz_Patch = Rest_reply 200 Malformed, dz_After = snap_off, dz_Clear = True\<rparr>"

definition enabled_world :: backup_world where
  "enabled_world = enable_world\<lparr>bw_Designs := Upsert_design 7 (Encodes (archivePatch ''nb'')) (bw_Designs enable_world)\<rparr>"

definition later_edit :: patch_env where
  "later_edit = \<lparr>pe_ClusterID = Some 7, pe_Body = Some edit_example, pe_Nodes = Some enable_nodes, pe_Design = True\<rparr>"

theorem edits_refused_after_disable_witness:
  "\<exists>acts w' field. DisableBackups disable_example enabled_world = (Inr (), acts, w') \<and> field \<noteq> [] \<and>
     fst (PatchPatroniConfig later_edit 1 \<lparr>dw_Locks = New_locks, dw_Designs = bw_Designs w', dw_Snapshots = [], dw_Jobs = []\<rparr>)
       = Inl (400, ''The field '' @ field @ '' is managed by the conductor and cannot be set directly.'')"
proof -
  have "fst (DisableBackups disable_example enabled_world) = Inr ()" by code_simp
  then obtain acts w' where d: "DisableBackups disable_example enabled_world = (Inr (), acts, w')" by (metis prod.collapse)
  let ?dw = "\<lparr>dw_Locks = New_locks, dw_Designs = bw_Designs w', dw_Snapshots = [], dw_Jobs = []\<rparr>"
  have "PrimaryDBNode enable_nodes \<noteq> None" by code_simp
  then obtain p where p: "PrimaryDBNode enable_nodes = Some p" by blast
  have "\<exists>field. field \<noteq> [] \<and> PatchPatroniConfig later_edit 1 ?dw
      = (Inl (400, ''The field '' @ field @ '' is managed by the conductor and cannot be set directly.''), ?dw)"
    by (rule edits_refused_after_disable [where stanza = "''nb''" and c = 7 and ds = "bw_Designs enable_world"
          and base = "[(''ttl'', JNum 30)]" and rq = edit_example and im = "[(''ttl'', JNum 60)]", OF _ _ _ _ d _ _ _ _ _ _ p])
       (simp_all add: enabled_world_def enable_world_def later_edit_def edit_example_def pg_parameters_def members_of_def obj_member_def)
  with d show ?thesis by auto
qed

end
