(* ===== verification/BackupHandlers.thy ===== *)
theory BackupHandlers
  imports BackupEnable BackupSync TaskStore
begin

text \<open>
  The remaining operations on backups of \<open>internal/server/api/handlers/backup.go\<close>: saving the schedule, pushing the
  configuration, testing a path, fetching the catalog and starting a backup by hand; the PATCH of the Patroni
  configuration that leaves a row in the task table (\<open>api/handlers/patronirest.go\<close>); and what holds of every schedule row
  the operations can store.
\<close>

section \<open>The schedule\<close>

record schedule_request =
  sq_Enabled :: bool
  sq_FullBackupCron :: string
  sq_DiffBackupCron :: string
  sq_IncrBackupIntervalHrs :: int

definition schedule_defaults :: "schedule_request \<Rightarrow> schedule_request" where
  "schedule_defaults r = r
     \<lparr>sq_FullBackupCron := (if sq_FullBackupCron r = [] then DefaultFullBackupCron else sq_FullBackupCron r),
      sq_DiffBackupCron := (if sq_DiffBackupCron r = [] then DefaultDiffBackupCron else sq_DiffBackupCron r),
      sq_IncrBackupIntervalHrs := (if sq_IncrBackupIntervalHrs r \<le> 0 then 1 else sq_IncrBackupIntervalHrs r)\<rparr>"

text \<open>An expression that is not valid is refused; one whose check panics ends in the server's recovery, a 500.\<close>

definition cron_refused :: "string \<Rightarrow> string \<Rightarrow> http_error option" where
  "cron_refused label expr = (case Validate expr of
      None \<Rightarrow> None
    | Some e \<Rightarrow> Some (if e = NegativeShiftPanic then (500, ''Internal Server Error'') else (400, label)))"

text \<open>\<open>ok\<close> tells whether the database takes the write; its check lets an interval be 1 to 24.\<close>

definition PutBackupSchedule :: "uuid option \<Rightarrow> schedule_request option \<Rightarrow> bool \<Rightarrow> backup_schedule list
    \<Rightarrow> (http_error + unit) \<times> backup_schedule list" where
  "PutBackupSchedule cid body ok tbl = (case cid of
      None \<Rightarrow> (Inl (400, ''invalid cluster id''), tbl)
    | Some c \<Rightarrow> (case body of
        None \<Rightarrow> (Inl (400, ''invalid request body''), tbl)
      | Some r0 \<Rightarrow>
          let r = schedule_defaults r0 in
          (case cron_refused ''full backup schedule'' (sq_FullBackupCron r) of
             Some e \<Rightarrow> (Inl e, tbl)
           | None \<Rightarrow> (case cron_refused ''differential backup schedule'' (sq_DiffBackupCron r) of
               Some e \<Rightarrow> (Inl e, tbl)
             | None \<Rightarrow>
                 if ok \<and> sq_IncrBackupIntervalHrs r \<le> 24
                 then (Inr (), Upsert_schedule c (sq_Enabled r) (sq_FullBackupCron r) (sq_DiffBackupCron r) (sq_IncrBackupIntervalHrs r) tbl)
                 else (Inl (500, ''failed to save backup schedule''), tbl)))))"

definition serializeSchedule :: "(uuid \<Rightarrow> string) \<Rightarrow> string \<Rightarrow> backup_schedule option \<Rightarrow> json" where
  "serializeSchedule show_id updated s = (case s of
      None \<Rightarrow> JNull
    | Some s \<Rightarrow> JObj ([(''cluster_id'', JStr (show_id (sd_ClusterID s))), (''enabled'', JBool (sd_Enabled s)),
        (''full_backup_cron'', JStr (sd_FullBackupCron s)), (''diff_backup_cron'', JStr (sd_DiffBackupCron s)),
        (''incr_backup_interval_hrs'', JNum (sd_IncrBackupIntervalHrs s)), (''stanza_initialized'', JBool (sd_StanzaInitialized s)),
        (''first_backup_run'', JBool (sd_FirstBackupRun s)), (''restore_in_progress'', JBool (sd_RestoreInProgress s)),
        (''updated_at'', JStr updated)]
        @ (case sd_StanzaName s of None \<Rightarrow> [] | Some n \<Rightarrow> [(''stanza_name'', JStr n)])))"

section \<open>Handlers that only dispatch\<close>

text \<open>The push of the configuration to every database node.\<close>

definition PushBackupConfig :: "encryptor \<Rightarrow> enable_env \<Rightarrow> location list \<Rightarrow> http_error + enable_act list" where
  "PushBackupConfig enc E tbl = (case en_ClusterID E of
      None \<Rightarrow> Inl (400, ''invalid cluster id'')
    | Some c \<Rightarrow> (case en_Scope E of
        None \<Rightarrow> Inl (404, ''cluster not found'')
      | Some stanza \<Rightarrow>
          let targets = (if en_Targets E then ListLocations tbl c else []) in
          if targets = [] then Inl (409, ''no backup storage locations configured'')
          else (case en_Nodes E of
              None \<Rightarrow> Inl (500, ''failed to list nodes'')
            | Some nodes \<Rightarrow> Inr (configure_nodes (en_Configure E) (renderPGBackRestConf enc stanza targets) (dbRoleNodes nodes)))))"

text \<open>A path test: the task sent to a node, or why it was skipped.\<close>

datatype test_result = Test_sent uuid | Test_skipped uuid string

definition test_node :: "(uuid \<Rightarrow> string option) \<Rightarrow> node \<Rightarrow> test_result" where
  "test_node dispatch n =
     (if nd_MaintenanceMode n then Test_skipped (nd_ID n) ''maintenance''
      else if nd_AgentStatus n \<noteq> ''connected'' then Test_skipped (nd_ID n) ''offline''
      else if dispatch (nd_ID n) \<noteq> None then Test_skipped (nd_ID n) ''offline''
      else Test_sent (nd_ID n))"

definition TestBackupPath :: "uuid option \<Rightarrow> string option \<Rightarrow> node list option \<Rightarrow> (uuid \<Rightarrow> string option) \<Rightarrow> http_error + test_result list" where
  "TestBackupPath cid path nodes dispatch =
     (if cid = None then Inl (400, ''invalid cluster id'')
      else if path = None \<or> path = Some [] then Inl (400, ''path is required'')
      else (case nodes of
          None \<Rightarrow> Inl (500, ''failed to list nodes'')
        | Some ns \<Rightarrow> Inr (map (test_node dispatch) (filter (\<lambda>n. IsDBRole (nd_Role n)) ns))))"

text \<open>The stanza a request needs: one only exists once backups were turned on.\<close>

definition stanza_of :: "bool \<Rightarrow> backup_schedule list \<Rightarrow> uuid \<Rightarrow> http_error + string" where
  "stanza_of ok tbl c = (case (if ok then GetSchedule c tbl else None) of
      None \<Rightarrow> Inl (409, ''backups not yet configured for this cluster'')
    | Some s \<Rightarrow> (case sd_StanzaName s of
        None \<Rightarrow> Inl (409, ''backups not yet configured for this cluster'')
      | Some stanza \<Rightarrow> Inr stanza))"

definition GetBackupCatalog :: "uuid option \<Rightarrow> bool \<Rightarrow> node list option \<Rightarrow> (uuid \<Rightarrow> string option) \<Rightarrow> backup_schedule list
    \<Rightarrow> http_error + (uuid \<times> string)" where
  "GetBackupCatalog cid ok nodes dispatch tbl = (case cid of
      None \<Rightarrow> Inl (400, ''invalid cluster id'')
    | Some c \<Rightarrow> (case stanza_of ok tbl c of
        Inl e \<Rightarrow> Inl e
      | Inr stanza \<Rightarrow> (case nodes of
          None \<Rightarrow> Inl (500, ''failed to list nodes'')
        | Some ns \<Rightarrow> (case PrimaryDBNode ns of
            None \<Rightarrow> Inl (409, ''no connected database node found'')
          | Some p \<Rightarrow>
              if dispatch (nd_ID p) \<noteq> None then Inl (409, ''primary node is not connected'') else Inr (nd_ID p, stanza)))))"

text \<open>A backup by hand: one try of a round, whatever its outcome.\<close>

definition backup_type :: "string \<Rightarrow> string" where
  "backup_type t = (if t = [] then ''full'' else t)"

definition RunBackup :: "uuid option \<Rightarrow> string option \<Rightarrow> bool \<Rightarrow> try_env \<Rightarrow> sched \<Rightarrow> panic + (http_error + (node \<times> uuid)) \<times> sched" where
  "RunBackup cid body ok e s = (case cid of
      None \<Rightarrow> Inr (Inl (400, ''invalid cluster id''), s)
    | Some c \<Rightarrow> (case body of
        None \<Rightarrow> Inr (Inl (400, ''invalid request body''), s)
      | Some t \<Rightarrow>
          if backup_type t \<notin> {''full'', ''diff'', ''incr''} then Inr (Inl (400, ''type must be full, diff, or incr''), s)
          else (case stanza_of ok (sc_schedules s) c of
              Inl er \<Rightarrow> Inr (Inl er, s)
            | Inr stanza \<Rightarrow> (case StartBackups e c stanza (backup_type t) (te_now e) s of
                Inl p \<Rightarrow> Inl p
              | Inr (Inl msg, s') \<Rightarrow> Inr (Inl (409, msg), s')
              | Inr (Inr r, s') \<Rightarrow> Inr (Inr r, s')))))"

section \<open>The PATCH with its row\<close>

text \<open>
  \<open>create\<close> and \<open>complete\<close> tell whether the writes of the row succeed (the row's state between them is not observed); without a
  row the PATCH is sent all the same.
\<close>

definition patch_type :: "string \<Rightarrow> string" where
  "patch_type source = (if source \<noteq> [] then ''patroni.dcs.patch.'' @ source else ''patroni.dcs.patch'')"

definition patroniPATCHConfigAudited ::
  "instant \<Rightarrow> uuid \<Rightarrow> uuid \<Rightarrow> string \<Rightarrow> 'p \<Rightarrow> bool \<Rightarrow> bool \<Rightarrow> (rest_answer \<Rightarrow> 'o response) \<Rightarrow> rest_answer
     \<Rightarrow> ('p, 'o) task_table \<Rightarrow> rest_answer \<times> ('p, 'o) task_table" where
  "patroniPATCHConfigAudited now nodeID taskID source body create complete show answer tbl =
     (if nodeID = 0 \<or> \<not> create then (answer, tbl)
      else (case TaskCreate now nodeID taskID (patch_type source) body tbl of
          Inl _ \<Rightarrow> (answer, tbl)
        | Inr tbl' \<Rightarrow>
            let tbl' = SetSent taskID tbl'
            in (answer, if complete then Complete now taskID (rest_ok answer) (show answer) tbl' else tbl')))"

text \<open>The row it leaves says whether Patroni took the change; the rows of other tasks stay as they are.\<close>

lemma audited_patch_row:
  assumes "nodeID \<noteq> 0" "taskID \<notin> set (map tr_TaskID tbl)"
  shows "\<exists>row. patroniPATCHConfigAudited now nodeID taskID source body True True show answer tbl = (answer, tbl @ [row]) \<and>
    tr_TaskID row = taskID \<and> tr_Status row = (if rest_ok answer then ''success'' else ''failure'') \<and> tr_TaskType row = patch_type source"
proof -
  have "map (\<lambda>r. if tr_TaskID r = taskID then f r else r) tbl = tbl" for f :: "('a, 'b) task_row \<Rightarrow> ('a, 'b) task_row"
    using assms(2) by (auto intro!: map_idI)
  with assms show ?thesis
    by (simp add: patroniPATCHConfigAudited_def TaskCreate_def insert_task_def SetSent_def Complete_def update_task_def Let_def)
qed

section \<open>Every row that can be stored\<close>

definition schedule_ok :: "backup_schedule \<Rightarrow> bool" where
  "schedule_ok s \<longleftrightarrow> Validate (sd_FullBackupCron s) = None \<and> Validate (sd_DiffBackupCron s) = None \<and>
     1 \<le> sd_IncrBackupIntervalHrs s \<and> sd_IncrBackupIntervalHrs s \<le> 24 \<and> (sd_StanzaInitialized s \<longrightarrow> sd_StanzaName s \<noteq> None)"

text \<open>The table after any of the operations that write it, from empty.\<close>

inductive schedule_reach :: "backup_schedule list \<Rightarrow> bool" where
  empty: "schedule_reach []"
| put: "schedule_reach tbl \<Longrightarrow> schedule_reach (snd (PutBackupSchedule cid body ok tbl))"
| enable: "schedule_reach (bw_Schedules w) \<Longrightarrow> ensure_schedule E c w = Some w' \<Longrightarrow> schedule_reach (bw_Schedules w')"
| initialized: "schedule_reach tbl \<Longrightarrow> schedule_reach (SetStanzaInitialized c stanza tbl)"
| cleared: "schedule_reach tbl \<Longrightarrow> schedule_reach (ClearStanzaInitialized c tbl)"
| first_run: "schedule_reach tbl \<Longrightarrow> schedule_reach (SetFirstBackupRun c tbl)"
| restore: "schedule_reach tbl \<Longrightarrow> schedule_reach (SetRestoreInProgress c b tbl)"

lemma update_schedule_ok:
  "(\<And>s. schedule_ok s \<Longrightarrow> schedule_ok (f s)) \<Longrightarrow> list_all schedule_ok tbl \<Longrightarrow> list_all schedule_ok (update_schedule c f tbl)"
  by (auto simp: list_all_iff update_schedule_def)

lemma update_schedule_ids: "(\<And>s. sd_ClusterID (f s) = sd_ClusterID s) \<Longrightarrow> map sd_ClusterID (update_schedule c f tbl) = map sd_ClusterID tbl"
  by (simp add: update_schedule_def)

lemma schedule_marks_ok:
  assumes "list_all schedule_ok tbl \<and> distinct (map sd_ClusterID tbl)"
  shows "list_all schedule_ok (SetStanzaInitialized c stanza tbl) \<and> distinct (map sd_ClusterID (SetStanzaInitialized c stanza tbl))"
    "list_all schedule_ok (ClearStanzaInitialized c tbl) \<and> distinct (map sd_ClusterID (ClearStanzaInitialized c tbl))"
    "list_all schedule_ok (SetFirstBackupRun c tbl) \<and> distinct (map sd_ClusterID (SetFirstBackupRun c tbl))"
    "list_all schedule_ok (SetRestoreInProgress c b tbl) \<and> distinct (map sd_ClusterID (SetRestoreInProgress c b tbl))"
  unfolding SetStanzaInitialized_def ClearStanzaInitialized_def SetFirstBackupRun_def SetRestoreInProgress_def
  using assms by (auto simp: update_schedule_ids schedule_ok_def intro!: update_schedule_ok simp del: list.set_map)

lemma Upsert_schedule_ok:
  assumes "Validate full = None" "Validate diff = None" "1 \<le> incr" "incr \<le> 24" "list_all schedule_ok tbl"
  shows "list_all schedule_ok (Upsert_schedule c enabled full diff incr tbl)"
  unfolding Upsert_schedule_def
  using assms by (auto simp: schedule_ok_def intro!: update_schedule_ok)

lemma Upsert_schedule_ids:
  "distinct (map sd_ClusterID tbl) \<Longrightarrow> distinct (map sd_ClusterID (Upsert_schedule c enabled full diff incr tbl))"
  by (auto simp: Upsert_schedule_def update_schedule_ids simp del: list.set_map)

lemma cron_refused_None: "cron_refused label expr = None \<longleftrightarrow> Validate expr = None"
  by (simp add: cron_refused_def split: option.splits)

lemma default_crons: "Validate DefaultFullBackupCron = None" "Validate DefaultDiffBackupCron = None"
  by code_simp+

lemma schedule_defaults_incr: "1 \<le> sq_IncrBackupIntervalHrs (schedule_defaults r)"
  by (simp add: schedule_defaults_def)

lemma PutBackupSchedule_effect:
  "snd (PutBackupSchedule cid body ok tbl) = tbl \<or>
     (\<exists>c (r :: schedule_request). Validate (sq_FullBackupCron r) = None \<and> Validate (sq_DiffBackupCron r) = None \<and>
        1 \<le> sq_IncrBackupIntervalHrs r \<and> sq_IncrBackupIntervalHrs r \<le> 24 \<and> snd (PutBackupSchedule cid body ok tbl) =
          Upsert_schedule c (sq_Enabled r) (sq_FullBackupCron r) (sq_DiffBackupCron r) (sq_IncrBackupIntervalHrs r) tbl)"
proof (cases "\<exists>c r0. cid = Some c \<and> body = Some r0")
  case True
  then obtain c r0 where cb: "cid = Some c" "body = Some r0" by blast
  obtain r where r: "schedule_defaults r0 = r" by blast
  have "1 \<le> sq_IncrBackupIntervalHrs r" using schedule_defaults_incr [of r0] r by simp
  note incr = this
  show ?thesis
  proof (cases "Validate (sq_FullBackupCron r) = None \<and> Validate (sq_DiffBackupCron r) = None \<and> ok \<and> sq_IncrBackupIntervalHrs r \<le> 24")
    case True
    then have "snd (PutBackupSchedule cid body ok tbl) =
        Upsert_schedule c (sq_Enabled r) (sq_FullBackupCron r) (sq_DiffBackupCron r) (sq_IncrBackupIntervalHrs r) tbl"
      by (simp add: PutBackupSchedule_def cb r Let_def cron_refused_def)
    with True incr show ?thesis by blast
  next
    case False
    then have "snd (PutBackupSchedule cid body ok tbl) = tbl"
      by (auto simp: PutBackupSchedule_def cb r Let_def cron_refused_def split: option.splits)
    then show ?thesis by blast
  qed
qed (auto simp: PutBackupSchedule_def split: option.splits)

lemma schedule_reach_ok: "schedule_reach tbl \<Longrightarrow> list_all schedule_ok tbl \<and> distinct (map sd_ClusterID tbl)"
proof (induction rule: schedule_reach.induct)
  case (put tbl cid body ok)
  then show ?case using PutBackupSchedule_effect [of cid body ok tbl] Upsert_schedule_ok Upsert_schedule_ids by metis
next
  case (enable w E c w')
  have "bw_Schedules w' = bw_Schedules w \<or>
      bw_Schedules w' = Upsert_schedule c True DefaultFullBackupCron DefaultDiffBackupCron 1 (bw_Schedules w)"
    using enable.hyps by (auto simp: ensure_schedule_def split: if_splits)
  with enable.IH Upsert_schedule_ok [OF default_crons, of 1] Upsert_schedule_ids show ?case by auto
qed (simp_all add: schedule_marks_ok)

text \<open>
  C26: whatever is saved, turned on or off, run or restored, every stored schedule has two expressions that parse, an
  interval of 1 to 24 hours and, once its stanza counts as initialised, a stanza's name, and no cluster has two: so a tick
  of the scheduler fires at most one round for a cluster.
\<close>

theorem stored_schedules_well_formed:
  assumes "schedule_reach tbl"
  shows "list_all schedule_ok tbl \<and> distinct (map fst (tick_rounds tbl now))"
proof -
  from schedule_reach_ok [OF assms] have ok: "list_all schedule_ok tbl" and d: "distinct (map sd_ClusterID tbl)" by auto
  have fires: "map fst (tick_rounds rows now) = map sd_ClusterID (filter (\<lambda>s. sd_Enabled s \<and> sd_StanzaInitialized s \<and>
      \<not> sd_RestoreInProgress s \<and> tier_due s now \<noteq> None \<and> sd_StanzaName s \<noteq> None) rows)" for rows
    by (induction rows) (auto simp: tick_rounds_def ListEnabled_def split: option.splits)
  show ?thesis unfolding fires using ok d by (simp add: distinct_map_filter)
qed

theorem stored_schedules_well_formed_witness:
  "\<exists>tbl. schedule_reach tbl \<and> map sd_IncrBackupIntervalHrs tbl = [4] \<and> list_all schedule_ok tbl"
proof -
  let ?rq = "\<lparr>sq_Enabled = True, sq_FullBackupCron = [], sq_DiffBackupCron = ''0 2 * * 1,3'', sq_IncrBackupIntervalHrs = 4\<rparr>"
  have r: "schedule_reach (snd (PutBackupSchedule (Some 7) (Some ?rq) True []))" by (intro schedule_reach.intros)
  have "map sd_IncrBackupIntervalHrs (snd (PutBackupSchedule (Some 7) (Some ?rq) True [])) = [4]" by code_simp
  with r stored_schedules_well_formed [OF r, of undefined] show ?thesis by auto
qed

end
