(* ===== verification/ConfigureFailover.thy ===== *)
theory ConfigureFailover
  imports PatroniDeploy
begin

text \<open>
  Configure Failover (\<open>ConfigureFailover\<close> of \<open>internal/server/api/handlers/patroni.go\<close>): the handler saves the settings,
  chooses the primary, stops NetBox elsewhere and sets Patroni up on the primary; the background job waits until Patroni
  has elected it, writes the cluster's Patroni configuration and then sets up one replica after another.  Every call is
  recorded in order with its outcome; the warnings of the response are left out.  The branches for clusters of another mode than active/standby are left out, since
  the handler refuses those clusters.
\<close>

section \<open>Tasks and calls\<close>

datatype cf_task =
    StopNetboxTask | ReplicatorRole | SuperuserRole | DBBackup | StopPostgresql | InstallPatroni | WritePatroniConf
  | RestartPatroni | StopSentinel | RedisBindAll | RedisRequirepass | UpdateDBHost string | WriteConfig bool

text \<open>
  A credential made, the witness started, a task dispatched to a node or not, the primary elected, the leader checked, the
  restart for pending changes, the PATCH of the configuration, the design stored, the set-up of a replica finished, its
  reinitialisation accepted, its streaming verified, an event, and the cluster marked as configured.
\<close>

datatype cf_act =
    CCredential string bool | CWitness bool | CTask uuid cf_task bool | CElected bool | CCheckTopology | CRestartPending
  | CPatch json bool | CDesign bool | CSetup uuid bool | CReinit uuid bool | CStreaming uuid bool | CNote string string | CConfigured bool

record cf_request =
  cq_AutoFailover :: bool
  cq_AutoFailback :: bool
  cq_AppTierAlwaysAvailable :: bool
  cq_FailoverOnMaintenance :: bool
  cq_FailoverDelaySecs :: int
  cq_FailbackMultiplier :: int
  cq_SaveBackup :: bool
  cq_PrimaryNodeID :: string

definition cf_defaults :: "cf_request \<Rightarrow> cf_request" where
  "cf_defaults r = r
     \<lparr>cq_FailoverDelaySecs := (if cq_FailoverDelaySecs r < 10 then 10 else cq_FailoverDelaySecs r),
      cq_FailbackMultiplier := (if cq_FailbackMultiplier r \<le> 0 then 3 else cq_FailbackMultiplier r)\<rparr>"

text \<open>The settings of the failover manager; the address of the VIP and the name of the Sentinel master are left out.\<close>

definition UpdateFailoverSettings :: "uuid \<Rightarrow> cf_request \<Rightarrow> cluster list \<Rightarrow> cluster list" where
  "UpdateFailoverSettings c r = map (\<lambda>cl. if cl_ID cl = c then cl
     \<lparr>cl_AutoFailover := cq_AutoFailover r, cl_AutoFailback := cq_AutoFailback r,
      cl_AppTierAlwaysAvailable := cq_AppTierAlwaysAvailable r, cl_FailoverOnMaintenance := cq_FailoverOnMaintenance r,
      cl_FailoverDelaySecs := cq_FailoverDelaySecs r, cl_FailbackMultiplier := cq_FailbackMultiplier r\<rparr> else cl)"

definition SetPatroniConfigured :: "uuid \<Rightarrow> cluster list \<Rightarrow> cluster list" where
  "SetPatroniConfigured c = map (\<lambda>cl. if cl_ID cl = c then cl\<lparr>cl_PatroniConfigured := True\<rparr> else cl)"

text \<open>
  What the request and the job meet.  The polls of a loop are numbered; \<open>cf_ElectPolls\<close> and \<open>cf_StreamPolls\<close> count those
  that begin before their deadline, and \<open>cf_Ended\<close> tells whether the job's own limit has passed before a replica is
  reinitialised.
\<close>

record cf_env =
  cf_ClusterID :: "uuid option"
  cf_Body :: "cf_request option"
  cf_Cluster :: bool
  cf_Nodes :: "node list option"
  cf_Save :: bool
  cf_HasCred :: "string \<Rightarrow> bool"
  cf_Generate :: "string \<Rightarrow> bool"
  cf_RedisPassword :: bool
  cf_ParseID :: "string \<Rightarrow> uuid option"
  cf_Witness :: "bool option"
  cf_Dispatch :: "uuid \<Rightarrow> cf_task \<Rightarrow> string option"
  cf_Template :: bool
  cf_RenderPatroni :: "uuid \<Rightarrow> bool"
  cf_RenderConfig :: "uuid \<Rightarrow> bool"
  cf_Primary :: "nat \<Rightarrow> rest_answer"
  cf_ElectPolls :: nat
  cf_Before :: snap_env
  cf_Patch :: rest_answer
  cf_Design :: bool
  cf_After :: snap_env
  cf_TaskDone :: "uuid \<Rightarrow> cf_task \<Rightarrow> bool"
  cf_Ended :: "uuid \<Rightarrow> bool"
  cf_Reinit :: "uuid \<Rightarrow> rest_answer"
  cf_View :: "uuid \<Rightarrow> nat \<Rightarrow> rest_answer"
  cf_StreamPolls :: "uuid \<Rightarrow> nat"
  cf_Mark :: bool

record cf_world =
  cw_Locks :: locks
  cw_Clusters :: "cluster list"
  cw_Designs :: designs
  cw_Snapshots :: "snapshot list"

definition release_cf :: "unlock_handle \<Rightarrow> cf_world \<Rightarrow> cf_world" where
  "release_cf h w = w\<lparr>cw_Locks := Unlock (cw_Locks w) h\<rparr>"

section \<open>Choosing the primary\<close>

definition reported_primary :: "node \<Rightarrow> bool" where
  "reported_primary n = (IsDBRole (nd_Role n) \<and> ExtractPatroniRole (nd_PatroniState n) = ''primary'')"

definition runs_netbox :: "node \<Rightarrow> bool" where
  "runs_netbox n = (IsDBRole (nd_Role n) \<and> nd_NetboxRunning n = Some True \<and> nd_AgentStatus n = ''connected'')"

fun highest_running :: "node option \<Rightarrow> node list \<Rightarrow> node option" where
  "highest_running best [] = best"
| "highest_running best (n # ns) =
     highest_running (if runs_netbox n \<and> (case best of None \<Rightarrow> True | Some b \<Rightarrow> nd_FailoverPriority n > nd_FailoverPriority b)
                      then Some n else best) ns"

definition choose_primary :: "cf_env \<Rightarrow> node list \<Rightarrow> string \<Rightarrow> (int \<times> string) + node" where
  "choose_primary E nodes override =
     (if override \<noteq> [] then
        (case cf_ParseID E override of
           None \<Rightarrow> Inl (400, ''invalid primary_node_id'')
         | Some i \<Rightarrow> (case find (\<lambda>n. nd_ID n = i) nodes of
             None \<Rightarrow> Inl (400, ''primary_node_id does not belong to this cluster'')
           | Some n \<Rightarrow> if IsDBRole (nd_Role n) then Inr n else Inl (400, ''primary_node_id must be a hyperconverged or db_only node'')))
      else (case find reported_primary nodes of
          Some n \<Rightarrow> Inr n
        | None \<Rightarrow> (case highest_running None nodes of
            Some n \<Rightarrow> Inr n
          | None \<Rightarrow> Inl (409, ''cannot identify primary node''))))"

section \<open>Dispatching\<close>

definition dispatched :: "cf_env \<Rightarrow> uuid \<Rightarrow> cf_task \<Rightarrow> bool" where
  "dispatched E n t = (cf_Dispatch E n t = None)"

definition task_act :: "cf_env \<Rightarrow> node \<Rightarrow> cf_task \<Rightarrow> cf_act" where
  "task_act E n t = CTask (nd_ID n) t (dispatched E (nd_ID n) t)"

text \<open>\<open>dispatchPatroniForNode\<close>: the calls, and the tasks of the references it returns, \<open>None\<close> for one without a task.\<close>

definition dispatchPatroniForNode :: "cf_env \<Rightarrow> node \<Rightarrow> cf_act list \<times> cf_task option list" where
  "dispatchPatroniForNode E n =
     (let ok = dispatched E (nd_ID n); ref = (\<lambda>t. if ok t then Some t else None) in
      if \<not> ok StopPostgresql then ([task_act E n StopPostgresql], [None])
      else if \<not> ok InstallPatroni then (map (task_act E n) [StopPostgresql, InstallPatroni], [Some StopPostgresql, None])
      else if \<not> cf_RenderPatroni E (nd_ID n)
      then (map (task_act E n) [StopPostgresql, InstallPatroni], [Some StopPostgresql, Some InstallPatroni, None])
      else (map (task_act E n) [StopPostgresql, InstallPatroni, WritePatroniConf, RestartPatroni],
            map ref [StopPostgresql, InstallPatroni, WritePatroniConf, RestartPatroni]))"

text \<open>The Redis tasks of a node, and its configuration.\<close>

definition dispatchRedis :: "cf_env \<Rightarrow> cf_request \<Rightarrow> node \<Rightarrow> cf_act list" where
  "dispatchRedis E rq n =
     task_act E n StopSentinel
     # (if cq_AppTierAlwaysAvailable rq then [task_act E n RedisBindAll] else [])
     @ (if cf_RedisPassword E then [task_act E n RedisRequirepass] else [])"

definition dispatchConfigForNode :: "cf_env \<Rightarrow> node \<Rightarrow> bool \<Rightarrow> cf_act list" where
  "dispatchConfigForNode E n restartAfter =
     (if \<not> cf_Template E \<or> \<not> cf_RenderConfig E (nd_ID n) then [] else [task_act E n (WriteConfig restartAfter)])"

section \<open>The handler\<close>

definition make_credentials :: "cf_env \<Rightarrow> cf_act list" where
  "make_credentials E =
     map (\<lambda>k. CCredential k (cf_Generate E k))
       (filter (\<lambda>k. \<not> cf_HasCred E k) [''postgres_superuser'', ''postgres_replication'', ''patroni_rest_password'', ''redis_tasks_password''])"

text \<open>What the handler dispatches once it knows the primary \<open>p\<close>, in order.\<close>

definition cf_stop_others :: "cf_env \<Rightarrow> node list \<Rightarrow> node \<Rightarrow> cf_act list" where
  "cf_stop_others E nodes p = map (\<lambda>n. task_act E n StopNetboxTask) (filter (\<lambda>n. nd_ID n \<noteq> nd_ID p) nodes)"

definition cf_role_tasks :: "cf_env \<Rightarrow> cf_request \<Rightarrow> node \<Rightarrow> cf_act list" where
  "cf_role_tasks E rq p = map (task_act E p) ([ReplicatorRole, SuperuserRole] @ (if cq_SaveBackup rq then [DBBackup] else []))"

definition cf_primary_tasks :: "cf_env \<Rightarrow> cf_request \<Rightarrow> node list \<Rightarrow> node \<Rightarrow> cf_act list" where
  "cf_primary_tasks E rq nodes p =
     cf_role_tasks E rq p
     @ fst (dispatchPatroniForNode E p)
     @ dispatchRedis E rq p
     @ (if cq_AppTierAlwaysAvailable rq then map (\<lambda>n. task_act E n (UpdateDBHost (ip_of p))) nodes else [])
     @ dispatchConfigForNode E p True"

text \<open>What the background job captured.\<close>

record cf_job =
  cj_ClusterID :: uuid
  cj_Request :: cf_request
  cj_Primary :: node
  cj_Replicas :: "node list"
  cj_AppNodes :: "node list"
  cj_Unlock :: unlock_handle

definition cf_start :: "cf_env \<Rightarrow> uuid \<Rightarrow> unlock_handle \<Rightarrow> cf_request \<Rightarrow> node list \<Rightarrow> node \<Rightarrow> cf_act list \<Rightarrow> cf_world
    \<Rightarrow> ((int \<times> string) + node) \<times> cf_act list \<times> cf_job option \<times> cf_world" where
  "cf_start E c h rq nodes p acts w =
     (let replicas = filter (\<lambda>n. nd_ID n \<noteq> nd_ID p \<and> IsDBRole (nd_Role n)) nodes;
          apps = filter (\<lambda>n. nd_ID n \<noteq> nd_ID p \<and> \<not> IsDBRole (nd_Role n)) nodes;
          started = (replicas \<noteq> [] \<or> apps \<noteq> []);
          w' = (if cf_Mark E then w\<lparr>cw_Clusters := SetPatroniConfigured c (cw_Clusters w)\<rparr> else w)
      in (Inr p,
          acts @ (case cf_Witness E of None \<Rightarrow> [] | Some ok \<Rightarrow> [CWitness ok])
          @ cf_stop_others E nodes p @ cf_primary_tasks E rq nodes p @ [CConfigured (cf_Mark E)],
          if started then Some \<lparr>cj_ClusterID = c, cj_Request = rq, cj_Primary = p, cj_Replicas = replicas, cj_AppNodes = apps, cj_Unlock = h\<rparr>
          else None,
          if started then w' else release_cf h w'))"

definition cf_locked :: "cf_env \<Rightarrow> uuid \<Rightarrow> unlock_handle \<Rightarrow> cf_request \<Rightarrow> cf_world
    \<Rightarrow> ((int \<times> string) + node) \<times> cf_act list \<times> cf_job option \<times> cf_world" where
  "cf_locked E c h rq w =
     (case (if cf_Cluster E then find (\<lambda>cl. cl_ID cl = c) (cw_Clusters w) else None) of
        None \<Rightarrow> (Inl (404, ''cluster not found''), [], None, release_cf h w)
      | Some cl \<Rightarrow>
          if cl_Mode cl \<noteq> ''active_standby''
          then (Inl (400, ''Configure Failover is only available for active_standby clusters''), [], None, release_cf h w)
          else (case cf_Nodes E of
              None \<Rightarrow> (Inl (500, ''failed to list nodes''), [], None, release_cf h w)
            | Some nodes \<Rightarrow>
                if length nodes < 2
                then (Inl (400, ''cluster must have at least 2 nodes before configuring failover''), [], None, release_cf h w)
                else if \<not> list_ex (\<lambda>n. IsDBRole (nd_Role n)) nodes
                then (Inl (400, ''cluster has no database node (hyperconverged or db_only)''), [], None, release_cf h w)
                else if \<not> cf_Save E then (Inl (500, ''failed to save failover settings''), [], None, release_cf h w)
                else let w' = w\<lparr>cw_Clusters := UpdateFailoverSettings c rq (cw_Clusters w)\<rparr>; acts = make_credentials E in
                  (case choose_primary E nodes (cq_PrimaryNodeID rq) of
                     Inl e \<Rightarrow> (Inl e, acts, None, release_cf h w')
                   | Inr p \<Rightarrow> cf_start E c h rq nodes p acts w')))"

definition ConfigureFailover :: "cf_env \<Rightarrow> cf_world \<Rightarrow> ((int \<times> string) + node) \<times> cf_act list \<times> cf_job option \<times> cf_world" where
  "ConfigureFailover E w = (case cf_ClusterID E of
      None \<Rightarrow> (Inl (400, ''invalid cluster id''), [], None, w)
    | Some c \<Rightarrow> (case cf_Body E of
        None \<Rightarrow> (Inl (400, ''invalid request body''), [], None, w)
      | Some rq \<Rightarrow> (case TryLock (cw_Locks w) c ''Configure Failover'' of
          Inl e \<Rightarrow> (Inl (409, busy_message e), [], None, w)
        | Inr (h, lk) \<Rightarrow> cf_locked E c h (cf_defaults rq) (w\<lparr>cw_Locks := lk\<rparr>))))"

section \<open>The background job\<close>

text \<open>The decoded \<open>state\<close> of an answer; a body that does not decode leaves it empty.\<close>

definition leader_running :: "rest_answer \<Rightarrow> bool" where
  "leader_running a = (case rest_200 a of
      None \<Rightarrow> False
    | Some body \<Rightarrow> Option.bind (members_of body) (str_member ''state'') = Some ''running'')"

definition primary_elected :: "cf_env \<Rightarrow> bool" where
  "primary_elected E = list_ex (\<lambda>k. leader_running (cf_Primary E k)) [0..<cf_ElectPolls E]"

definition configPatch :: json where
  "configPatch = JObj
     [(''ttl'', JNum 30), (''loop_wait'', JNum 10), (''retry_timeout'', JNum 10), (''maximum_lag_on_failover'', JNum 1048576),
      (''failsafe_mode'', JBool True),
      (''postgresql'', JObj [(''use_pg_rewind'', JBool True), (''use_slots'', JBool True),
         (''parameters'', JObj [(''wal_level'', JStr ''replica''), (''hot_standby'', JStr ''on''), (''max_wal_senders'', JNum 5),
            (''max_replication_slots'', JNum 5), (''wal_log_hints'', JStr ''on'')])])]"

text \<open>The names and states of the members in the answer of \<open>GET /cluster\<close>; the first of a name counts.\<close>

definition member_state :: "json \<Rightarrow> (string \<times> string) option" where
  "member_state v = (case v of
      JObj ms \<Rightarrow> Option.bind (str_member ''name'' ms) (\<lambda>n. Option.bind (str_member ''state'' ms) (\<lambda>s. Some (n, s)))
    | JNull \<Rightarrow> Some ([], [])
    | _ \<Rightarrow> None)"

definition member_states :: "raw_message \<Rightarrow> (string \<times> string) list option" where
  "member_states r = Option.bind (members_of r) (\<lambda>ms. (case map_of ms ''members'' of
      None \<Rightarrow> Some [] | Some JNull \<Rightarrow> Some []
    | Some (JArr vs) \<Rightarrow>
        if list_all (\<lambda>v. member_state v \<noteq> None) vs then Some (map (\<lambda>v. the (member_state v)) vs) else None
    | _ \<Rightarrow> None))"

definition streaming :: "string \<Rightarrow> rest_answer \<Rightarrow> bool" where
  "streaming host a = (case Option.bind (rest_200 a) member_states of
      None \<Rightarrow> False | Some ms \<Rightarrow> map_of ms host = Some ''streaming'')"

definition streaming_verified :: "cf_env \<Rightarrow> node \<Rightarrow> bool" where
  "streaming_verified E n =
     (\<not> cf_Ended E (nd_ID n) \<and> list_ex (\<lambda>k. streaming (nd_Hostname n) (cf_View E (nd_ID n) k)) [0..<cf_StreamPolls E (nd_ID n)])"

text \<open>Every task of the set-up was dispatched and succeeded before the deadline.\<close>

definition replica_set_up :: "cf_env \<Rightarrow> node \<Rightarrow> bool" where
  "replica_set_up E n = list_all (\<lambda>t. case t of None \<Rightarrow> False | Some t \<Rightarrow> cf_TaskDone E (nd_ID n) t) (snd (dispatchPatroniForNode E n))"

definition cf_replica :: "cf_env \<Rightarrow> cf_request \<Rightarrow> node \<Rightarrow> cf_act list" where
  "cf_replica E rq n =
     (let i = nd_ID n; setup = fst (dispatchPatroniForNode E n) in
      if \<not> replica_set_up E n then
        setup @ [CSetup i False, CNote ''warn'' (''replica '' @ nd_Hostname n @ '' Patroni setup failed or did not finish'')]
      else let setup = setup @ [CSetup i True] in
        if \<not> cf_Ended E i \<and> \<not> rest_ok (cf_Reinit E i) then
          setup @ [CReinit i False, CNote ''warn'' (''replica '' @ nd_Hostname n @ '' reinitialize failed or refused'')]
        else let reinit = (if cf_Ended E i then [] else [CReinit i True]) in
          if \<not> streaming_verified E n then
            setup @ reinit @ [CStreaming i False, CNote ''warn'' (''replica '' @ nd_Hostname n @ '' did not reach streaming state'')]
          else setup @ reinit @ [CStreaming i True] @ dispatchRedis E rq n
                 @ dispatchConfigForNode E n (cq_AppTierAlwaysAvailable rq))"

definition cf_configured :: "cf_env \<Rightarrow> cf_job \<Rightarrow> cf_world \<Rightarrow> cf_act list \<times> cf_world" where
  "cf_configured E j w =
     (let c = cj_ClusterID j; snaps = snapshotPatroniConfig (cf_Before E) c ''configure-failover'' (cw_Snapshots w) in
      if \<not> rest_ok (cf_Patch E)
      then ([CPatch configPatch False, CNote ''warn'' ''failed to apply DCS config (ttl, failover params) on primary''], w\<lparr>cw_Snapshots := snaps\<rparr>)
      else ([CPatch configPatch True, CDesign (cf_Design E)],
            w\<lparr>cw_Designs := (if cf_Design E then Upsert_design c (Encodes configPatch) (cw_Designs w) else cw_Designs w),
              cw_Snapshots := recordPostChangeSnapshot (cf_After E) c ''configure-failover'' snaps\<rparr>))"

definition run_cf :: "cf_env \<Rightarrow> cf_job \<Rightarrow> cf_world \<Rightarrow> cf_act list \<times> cf_world" where
  "run_cf E j w =
     (if \<not> primary_elected E then
        ([CElected False, CNote ''error'' ''replica Patroni configuration timed out waiting for primary election''], release_cf (cj_Unlock j) w)
      else (case cf_configured E j w of (acts, w') \<Rightarrow>
          ([CElected True, CCheckTopology, CRestartPending] @ acts @ concat (map (cf_replica E (cj_Request j)) (cj_Replicas j))
             @ concat (map (\<lambda>n. dispatchConfigForNode E n (cq_AppTierAlwaysAvailable (cj_Request j))) (cj_AppNodes j)),
           release_cf (cj_Unlock j) w')))"

text \<open>A request with its job, run to the end.\<close>

definition cf_run :: "cf_env \<Rightarrow> cf_world \<Rightarrow> ((int \<times> string) + node) \<times> cf_act list \<times> cf_world" where
  "cf_run E w = (case ConfigureFailover E w of
      (resp, acts, None, w') \<Rightarrow> (resp, acts, w')
    | (resp, acts, Some j, w') \<Rightarrow> (case run_cf E j w' of (acts', w'') \<Rightarrow> (resp, acts @ acts', w'')))"

section \<open>The limit of the job\<close>

text \<open>The waits of the job, in seconds, and its limit, their sum with nothing to spare for its dispatches and queries.\<close>

definition cfPollTimeout :: int where "cfPollTimeout = 10"
definition cfPollSleep :: int where "cfPollSleep = 5"
definition cfSnapshotTimeout :: int where "cfSnapshotTimeout = 10"
definition cfPrimaryElectWait :: int where "cfPrimaryElectWait = 90"
definition cfPrimaryRestartCall :: int where "cfPrimaryRestartCall = 30"
definition cfPrimaryRestartWait :: int where "cfPrimaryRestartWait = 5"
definition cfPrimaryReadyWait :: int where "cfPrimaryReadyWait = 60"
definition cfDCSPatchCall :: int where "cfDCSPatchCall = 15"
definition cfReplicaUpWait :: int where "cfReplicaUpWait = 60"
definition cfReinitCall :: int where "cfReinitCall = 15"
definition cfStreamingWait :: int where "cfStreamingWait = 120"

definition cfJobBudget :: "int \<Rightarrow> int" where
  "cfJobBudget replicas =
     (let overrun = cfPollTimeout + cfPollSleep;
          primary = cfPrimaryElectWait + overrun + cfPrimaryRestartCall + cfPrimaryRestartWait + cfPrimaryReadyWait + overrun
                    + 2 * cfSnapshotTimeout + cfDCSPatchCall;
          perReplica = cfReplicaUpWait + overrun + cfReinitCall + cfStreamingWait + overrun
      in primary + replicas * perReplica)"

end
