(* ===== verification/ConfigureFailoverProps.thy ===== *)
theory ConfigureFailoverProps
  imports ConfigureFailover PatroniDeployProps
begin

text \<open>
  What Configure Failover guarantees (\<open>ConfigureFailover\<close>): the order in which nodes are touched, that the cluster's lock
  comes back, and what follows when a stop cannot be sent or the primary it picks is not connected.
\<close>

section \<open>Calls guarded by earlier ones\<close>

text \<open>Every call of a trace meets a condition on the calls before it.\<close>

fun guarded :: "('a \<Rightarrow> 'a list \<Rightarrow> bool) \<Rightarrow> 'a list \<Rightarrow> 'a list \<Rightarrow> bool" where
  "guarded P seen [] = True"
| "guarded P seen (a # as) = (P a seen \<and> guarded P (seen @ [a]) as)"

lemma guarded_append: "guarded P seen (xs @ ys) \<longleftrightarrow> guarded P seen xs \<and> guarded P (seen @ xs) ys"
  by (induction xs arbitrary: seen) auto

lemma guarded_all:
  assumes mono: "\<And>a s s'. P a s \<Longrightarrow> set s \<subseteq> set s' \<Longrightarrow> P a s'" and "set seen \<subseteq> set seen'" and "\<forall>a \<in> set as. P a seen"
  shows "guarded P seen' as"
  using assms(2,3)
proof (induction as arbitrary: seen')
  case (Cons a as)
  have "guarded P (seen' @ [a]) as" by (rule Cons.IH) (use Cons.prems in auto)
  moreover have "P a seen'" by (rule mono [OF _ Cons.prems(1)]) (use Cons.prems in simp)
  ultimately show ?case by simp
qed simp

lemma guarded_concat:
  assumes "\<And>x seen'. x \<in> set xs \<Longrightarrow> set seen \<subseteq> set seen' \<Longrightarrow> guarded P seen' (f x)" and "set seen \<subseteq> set seen'"
  shows "guarded P seen' (concat (map f xs))"
  using assms
proof (induction xs arbitrary: seen')
  case (Cons x xs)
  have "guarded P (seen' @ f x) (concat (map f xs))" by (rule Cons.IH) (use Cons.prems in auto)
  then show ?case using Cons.prems by (simp add: guarded_append)
qed simp

text \<open>When a call of Configure Failover may come: \<open>p\<close> is the primary, \<open>nodes\<close> the cluster.\<close>

definition patroni_tasks :: "cf_task list" where
  "patroni_tasks = [StopPostgresql, InstallPatroni, WritePatroniConf, RestartPatroni]"

text \<open>
  A stop of NetBox was sent to every other node, or its dispatch failed and was reported: the code only warns of a failed
  dispatch, and waits for no stop to finish.
\<close>

definition stop_tried :: "node list \<Rightarrow> node \<Rightarrow> cf_act list \<Rightarrow> bool" where
  "stop_tried nodes p seen =
     list_all (\<lambda>n. nd_ID n = nd_ID p \<or> list_ex (\<lambda>ok. CTask (nd_ID n) StopNetboxTask ok \<in> set seen) [False, True]) nodes"

definition is_db :: "node list \<Rightarrow> uuid \<Rightarrow> bool" where
  "is_db nodes i = list_ex (\<lambda>n. nd_ID n = i \<and> IsDBRole (nd_Role n)) nodes"

fun settles :: "cf_task \<Rightarrow> bool" where
  "settles StopSentinel = True"
| "settles RedisBindAll = True"
| "settles RedisRequirepass = True"
| "settles (WriteConfig _) = True"
| "settles _ = False"

text \<open>
  The tasks a node other than the primary may get: the stop of NetBox at any time; before the election apart from it only the address of the
  primary's database, once the stops were sent; the tasks of Patroni after the election; its Redis and NetBox configuration after the election
  and, on a database node, once it was seen streaming; no others.
\<close>

definition other_allowed :: "node list \<Rightarrow> node \<Rightarrow> uuid \<Rightarrow> cf_task \<Rightarrow> cf_act list \<Rightarrow> bool" where
  "other_allowed nodes p n t seen =
     (if t \<in> set patroni_tasks then CElected True \<in> set seen
      else if settles t then CElected True \<in> set seen \<and> (is_db nodes n \<longrightarrow> CStreaming n True \<in> set seen)
      else t = StopNetboxTask \<or> (t = UpdateDBHost (ip_of p) \<and> stop_tried nodes p seen))"

fun cf_allowed :: "node list \<Rightarrow> node \<Rightarrow> cf_act \<Rightarrow> cf_act list \<Rightarrow> bool" where
  "cf_allowed nodes p (CTask n t ok) seen =
     (if n = nd_ID p then t \<noteq> StopNetboxTask \<and> stop_tried nodes p seen else other_allowed nodes p n t seen)"
| "cf_allowed nodes p (CReinit n ok) seen = (n \<noteq> nd_ID p \<and> CSetup n True \<in> set seen)"
| "cf_allowed nodes p (CStreaming n ok) seen = (CSetup n True \<in> set seen)"
| "cf_allowed nodes p (CPatch v ok) seen = (CElected True \<in> set seen)"
| "cf_allowed nodes p _ seen = True"

text \<open>No node is told to stop NetBox once the primary was given a task.\<close>

fun task_of :: "uuid \<Rightarrow> cf_act \<Rightarrow> bool" where
  "task_of p (CTask n t ok) = (n = p)"
| "task_of p _ = False"

fun stops_netbox :: "cf_act \<Rightarrow> bool" where
  "stops_netbox (CTask n t ok) = (t = StopNetboxTask)"
| "stops_netbox _ = False"

definition stops_first :: "uuid \<Rightarrow> cf_act list \<Rightarrow> bool" where
  "stops_first p = sorted_wrt (\<lambda>a b. \<not> (task_of p a \<and> stops_netbox b))"

lemma stops_first_none: "list_all (\<lambda>a. \<not> stops_netbox a) as \<Longrightarrow> stops_first p as"
  unfolding stops_first_def by (induction as) (auto simp: list_all_iff)

lemma stops_first_append:
  assumes "list_all (\<lambda>a. \<not> task_of p a) xs" "list_all (\<lambda>a. \<not> stops_netbox a) ys"
  shows "stops_first p (xs @ ys)"
proof -
  have "stops_first p xs" using assms(1) unfolding stops_first_def by (induction xs) auto
  then show ?thesis using assms stops_first_none [OF assms(2)] by (auto simp: stops_first_def sorted_wrt_append list_all_iff)
qed

lemma stop_tried_mono: "stop_tried nodes p s \<Longrightarrow> set s \<subseteq> set s' \<Longrightarrow> stop_tried nodes p s'"
  unfolding stop_tried_def list_all_iff list_ex_iff by blast

lemma cf_allowed_mono: "cf_allowed nodes p a s \<Longrightarrow> set s \<subseteq> set s' \<Longrightarrow> cf_allowed nodes p a s'"
proof (cases a)
  case (CTask n t ok)
  assume "cf_allowed nodes p a s" "set s \<subseteq> set s'"
  then show ?thesis using CTask stop_tried_mono [of nodes p s s'] by (cases "n = nd_ID p") (auto simp: other_allowed_def)
qed auto

lemma dispatchPatroni_tasks:
  "a \<in> set (fst (dispatchPatroniForNode E n)) \<Longrightarrow> \<exists>t ok. a = CTask (nd_ID n) t ok \<and> t \<in> set patroni_tasks \<and> t \<noteq> StopNetboxTask"
  by (auto simp: dispatchPatroniForNode_def patroni_tasks_def task_act_def Let_def split: if_splits)

lemma dispatchRedis_tasks:
  "a \<in> set (dispatchRedis E rq n) \<Longrightarrow> \<exists>t ok. a = CTask (nd_ID n) t ok \<and> settles t \<and> t \<notin> set patroni_tasks \<and> t \<noteq> StopNetboxTask"
  by (auto simp: dispatchRedis_def task_act_def patroni_tasks_def split: if_splits)

lemma dispatchConfig_tasks:
  "a \<in> set (dispatchConfigForNode E n b) \<Longrightarrow> \<exists>t ok. a = CTask (nd_ID n) t ok \<and> settles t \<and> t \<notin> set patroni_tasks \<and> t \<noteq> StopNetboxTask"
  by (auto simp: dispatchConfigForNode_def task_act_def patroni_tasks_def split: if_splits)

lemma guarded_now:
  assumes "\<And>a. a \<in> set as \<Longrightarrow> cf_allowed nodes p a seen"
  shows "guarded (cf_allowed nodes p) seen as"
  by (rule guarded_all [OF cf_allowed_mono order_refl]) (use assms in blast)+

lemma replica_tasks_guarded:
  assumes "nd_ID r \<noteq> nd_ID p" "CElected True \<in> set seen"
  shows "guarded (cf_allowed nodes p) seen (fst (dispatchPatroniForNode E r))"
proof (rule guarded_now)
  fix a assume "a \<in> set (fst (dispatchPatroniForNode E r))"
  then obtain t ok where a: "a = CTask (nd_ID r) t ok" "t \<in> set patroni_tasks" by (blast dest: dispatchPatroni_tasks)
  then show "cf_allowed nodes p a seen" using assms by (simp add: other_allowed_def)
qed

lemma replica_settles_guarded:
  assumes "nd_ID r \<noteq> nd_ID p" "CElected True \<in> set seen" "is_db nodes (nd_ID r) \<Longrightarrow> CStreaming (nd_ID r) True \<in> set seen"
  shows "guarded (cf_allowed nodes p) seen (dispatchRedis E rq r)" "guarded (cf_allowed nodes p) seen (dispatchConfigForNode E r b)"
proof -
  have "cf_allowed nodes p a seen" if "\<exists>t ok. a = CTask (nd_ID r) t ok \<and> settles t \<and> t \<notin> set patroni_tasks \<and> t \<noteq> StopNetboxTask" for a
    using that assms by (auto simp: other_allowed_def)
  then show "guarded (cf_allowed nodes p) seen (dispatchRedis E rq r)" "guarded (cf_allowed nodes p) seen (dispatchConfigForNode E r b)"
    by (blast intro: guarded_now dest: dispatchRedis_tasks dispatchConfig_tasks)+
qed

lemma cf_replica_guarded:
  assumes p: "nd_ID r \<noteq> nd_ID p" and e: "CElected True \<in> set seen"
  shows "guarded (cf_allowed nodes p) seen (cf_replica E rq r)"
proof -
  let ?set_up_calls = "fst (dispatchPatroniForNode E r)" and ?G = "guarded (cf_allowed nodes p)"
  have s: "?G seen ?set_up_calls" by (rule replica_tasks_guarded [OF p e])
  let ?a = "?set_up_calls @ [CSetup (nd_ID r) True]"
  have a: "?G seen ?a" using s by (simp add: guarded_append)
  let ?re = "if cf_Ended E (nd_ID r) then [] else [CReinit (nd_ID r) True]"
  have re: "?G (seen @ ?a) (?re @ [CStreaming (nd_ID r) b])" for b using p by simp
  have rest: "?G (seen @ ?a @ ?re @ [CStreaming (nd_ID r) True]) (dispatchRedis E rq r @ dispatchConfigForNode E r b)" for b
    unfolding guarded_append by (intro conjI replica_settles_guarded [OF p]) (use e in simp_all)
  have full: "?G seen (?a @ ?re @ [CStreaming (nd_ID r) True] @ dispatchRedis E rq r @ dispatchConfigForNode E r b)" for b
  proof -
    have "?G seen (?a @ ((?re @ [CStreaming (nd_ID r) True]) @ (dispatchRedis E rq r @ dispatchConfigForNode E r b)))"
      unfolding guarded_append [of _ _ ?a] guarded_append [of _ _ "?re @ [CStreaming (nd_ID r) True]"] using a re rest [of b] by simp
    then show ?thesis by simp
  qed
  show ?thesis
  proof (cases "replica_set_up E r")
    case False
    then show ?thesis using s by (simp add: cf_replica_def Let_def guarded_append)
  next
    case up: True
    show ?thesis
    proof (cases "\<not> cf_Ended E (nd_ID r) \<and> \<not> rest_ok (cf_Reinit E (nd_ID r))")
      case True
      then show ?thesis using up s p by (simp add: cf_replica_def Let_def guarded_append)
    next
      case reinit: False
      show ?thesis
      proof (cases "streaming_verified E r")
        case False
        then have "cf_replica E rq r = ?a @ ?re @ [CStreaming (nd_ID r) False, CNote ''warn'' (''replica '' @ nd_Hostname r @ '' did not reach streaming state'')]"
          using up reinit by (simp add: cf_replica_def Let_def)
        then show ?thesis using s p by (auto simp: guarded_append)
      next
        case True
        then have "cf_replica E rq r = ?a @ ?re @ [CStreaming (nd_ID r) True] @ dispatchRedis E rq r
            @ dispatchConfigForNode E r (cq_AppTierAlwaysAvailable rq)"
          using up reinit by (simp add: cf_replica_def Let_def)
        then show ?thesis using full by presburger
      qed
    qed
  qed
qed

section \<open>How a request ends\<close>

lemma cf_locked_cases:
  assumes "cf_locked E c h rq w = (resp, acts, job, w')"
  obtains (refused) e where "resp = Inl e" "job = None" "cw_Locks w' = Unlock (cw_Locks w) h"
  | (started) nodes p v where "cf_Nodes E = Some nodes" "choose_primary E nodes (cq_PrimaryNodeID rq) = Inr p"
      "cf_start E c h rq nodes p (make_credentials E) v = (resp, acts, job, w')" "cw_Locks v = cw_Locks w"
proof (cases "(\<exists>e. resp = Inl e) \<and> job = None \<and> cw_Locks w' = Unlock (cw_Locks w) h")
  case True
  then show ?thesis using refused by blast
next
  case no: False
  let ?cl = "if cf_Cluster E then find (\<lambda>cl. cl_ID cl = c) (cw_Clusters w) else None"
  from no assms obtain cl where cl: "?cl = Some cl" by (cases ?cl) (auto simp: cf_locked_def release_cf_def)
  from no assms cl have m: "cl_Mode cl = ''active_standby''" by (auto simp: cf_locked_def release_cf_def split: if_splits)
  from no assms cl m obtain nodes where n: "cf_Nodes E = Some nodes" by (cases "cf_Nodes E") (auto simp: cf_locked_def release_cf_def split: if_splits)
  have g: "\<not> length nodes < 2" "list_ex (\<lambda>n. IsDBRole (nd_Role n)) nodes" "cf_Save E"
    using no assms unfolding cf_locked_def cl n option.case m by (auto simp: release_cf_def split: if_splits)
  have l: "(case choose_primary E nodes (cq_PrimaryNodeID rq) of
             Inl e \<Rightarrow> (Inl e, make_credentials E, None, release_cf h (w\<lparr>cw_Clusters := UpdateFailoverSettings c rq (cw_Clusters w)\<rparr>))
           | Inr p \<Rightarrow> cf_start E c h rq nodes p (make_credentials E) (w\<lparr>cw_Clusters := UpdateFailoverSettings c rq (cw_Clusters w)\<rparr>)) = (resp, acts, job, w')"
    using assms g unfolding cf_locked_def cl n option.case m Let_def by simp
  obtain p where p: "choose_primary E nodes (cq_PrimaryNodeID rq) = Inr p"
  proof (cases "choose_primary E nodes (cq_PrimaryNodeID rq)")
    case (Inl e)
    with l have "resp = Inl e" "job = None" "cw_Locks w' = Unlock (cw_Locks w) h" by (auto simp: release_cf_def)
    with no show ?thesis by blast
  qed (rule that)
  with l have "cf_start E c h rq nodes p (make_credentials E) (w\<lparr>cw_Clusters := UpdateFailoverSettings c rq (cw_Clusters w)\<rparr>) = (resp, acts, job, w')"
    by simp
  then show ?thesis by (rule started [OF n p]) simp
qed

lemma cf_start_parts:
  assumes "cf_start E c h rq nodes p acts w = (resp, acts', job, w')"
  shows "resp = Inr p"
    "acts' = acts @ (case cf_Witness E of None \<Rightarrow> [] | Some ok \<Rightarrow> [CWitness ok]) @ cf_stop_others E nodes p
       @ cf_primary_tasks E rq nodes p @ [CConfigured (cf_Mark E)]"
    "cw_Locks w' = (case job of None \<Rightarrow> Unlock (cw_Locks w) h | Some j \<Rightarrow> cw_Locks w)"
    "job = Some j \<Longrightarrow> cj_Unlock j = h \<and> cj_Request j = rq
       \<and> cj_Replicas j = filter (\<lambda>n. nd_ID n \<noteq> nd_ID p \<and> IsDBRole (nd_Role n)) nodes
       \<and> cj_AppNodes j = filter (\<lambda>n. nd_ID n \<noteq> nd_ID p \<and> \<not> IsDBRole (nd_Role n)) nodes"
  using assms by (auto simp: cf_start_def release_cf_def Let_def split: if_splits)

section \<open>The order of the calls\<close>

lemma stops_are_tried: "set (cf_stop_others E nodes p) \<subseteq> set seen \<Longrightarrow> stop_tried nodes p seen"
proof -
  assume s: "set (cf_stop_others E nodes p) \<subseteq> set seen"
  have "CTask (nd_ID n) StopNetboxTask (dispatched E (nd_ID n) StopNetboxTask) \<in> set seen" if "n \<in> set nodes" "nd_ID n \<noteq> nd_ID p" for n
    using that s by (auto simp: cf_stop_others_def task_act_def)
  then show ?thesis unfolding stop_tried_def list_all_iff list_ex_iff by (metis (full_types) list.set_intros(1,2))
qed

lemma start_guarded:
  "guarded (cf_allowed nodes p) [] (make_credentials E @ (case cf_Witness E of None \<Rightarrow> [] | Some ok \<Rightarrow> [CWitness ok])
     @ cf_stop_others E nodes p @ cf_primary_tasks E rq nodes p @ [CConfigured b])"
proof -
  let ?G = "guarded (cf_allowed nodes p)" and ?pre = "make_credentials E @ (case cf_Witness E of None \<Rightarrow> [] | Some ok \<Rightarrow> [CWitness ok])"
  have pre: "?G [] ?pre" by (rule guarded_now) (auto simp: make_credentials_def split: option.splits)
  have stop: "?G seen (cf_stop_others E nodes p)" for seen
    by (rule guarded_now) (auto simp: cf_stop_others_def task_act_def patroni_tasks_def other_allowed_def)
  have prim: "?G seen (cf_primary_tasks E rq nodes p)" if "set (cf_stop_others E nodes p) \<subseteq> set seen" for seen
  proof (rule guarded_now)
    fix a assume a: "a \<in> set (cf_primary_tasks E rq nodes p)"
    note o = stops_are_tried [OF that]
    from a consider (role) "a \<in> set (cf_role_tasks E rq p)" | (pat) "a \<in> set (fst (dispatchPatroniForNode E p))"
      | (redis) "a \<in> set (dispatchRedis E rq p)" | (host) n where "a = task_act E n (UpdateDBHost (ip_of p))"
      | (conf) "a \<in> set (dispatchConfigForNode E p True)"
      by (auto simp: cf_primary_tasks_def split: if_splits)
    then show "cf_allowed nodes p a seen"
    proof cases
      case role then show ?thesis using o by (auto simp: cf_role_tasks_def task_act_def split: if_splits)
    next
      case pat then show ?thesis using o dispatchPatroni_tasks [OF pat] by (auto simp: patroni_tasks_def)
    next
      case redis then show ?thesis using o dispatchRedis_tasks [OF redis] by auto
    next
      case host then show ?thesis using o by (simp add: task_act_def patroni_tasks_def other_allowed_def)
    next
      case conf then show ?thesis using o dispatchConfig_tasks [OF conf] by auto
    qed
  qed
  have "?G [] (?pre @ cf_stop_others E nodes p @ cf_primary_tasks E rq nodes p @ [CConfigured b])"
    unfolding guarded_append [of _ _ ?pre] guarded_append [of _ _ "cf_stop_others E nodes p"] guarded_append [of _ _ "cf_primary_tasks E rq nodes p"]
    using pre stop prim [of "([] @ ?pre) @ cf_stop_others E nodes p"] by auto
  then show ?thesis by simp
qed

lemma not_db: "distinct (map nd_ID nodes) \<Longrightarrow> n \<in> set nodes \<Longrightarrow> \<not> IsDBRole (nd_Role n) \<Longrightarrow> \<not> is_db nodes (nd_ID n)"
  unfolding is_db_def list_ex_iff by (metis distinct_map inj_on_eq_iff)

lemma job_guarded:
  assumes "run_cf E j w = (acts, w')" "distinct (map nd_ID nodes)"
    and "cj_Replicas j = filter (\<lambda>n. nd_ID n \<noteq> nd_ID p \<and> IsDBRole (nd_Role n)) nodes"
    and "cj_AppNodes j = filter (\<lambda>n. nd_ID n \<noteq> nd_ID p \<and> \<not> IsDBRole (nd_Role n)) nodes"
  shows "guarded (cf_allowed nodes p) seen acts"
proof (cases "primary_elected E")
  case False
  then show ?thesis using assms(1) by (auto simp: run_cf_def)
next
  case True
  obtain conf v where c: "cf_configured E j w = (conf, v)" by fastforce
  let ?G = "guarded (cf_allowed nodes p)"
  let ?reps = "concat (map (cf_replica E (cj_Request j)) (cj_Replicas j))"
  let ?apps = "concat (map (\<lambda>n. dispatchConfigForNode E n (cq_AppTierAlwaysAvailable (cj_Request j))) (cj_AppNodes j))"
  let ?head = "[CElected True, CCheckTopology, CRestartPending]"
  have acts: "acts = ?head @ conf @ ?reps @ ?apps" using assms(1) True c by (simp add: run_cf_def)
  have conf: "?G seen' conf" if "CElected True \<in> set seen'" for seen'
  proof (rule guarded_now)
    fix a assume "a \<in> set conf"
    then show "cf_allowed nodes p a seen'" using c that by (auto simp: cf_configured_def Let_def split: if_splits)
  qed
  have reps: "?G seen' ?reps" if "CElected True \<in> set seen'" for seen'
  proof (rule guarded_concat [OF _ order_refl])
    fix r s assume "r \<in> set (cj_Replicas j)" "set seen' \<subseteq> set s"
    then show "?G s (cf_replica E (cj_Request j) r)" using that assms(3) by (intro cf_replica_guarded) auto
  qed
  have apps: "?G seen' ?apps" if "CElected True \<in> set seen'" for seen'
  proof (rule guarded_concat [OF _ order_refl])
    fix n s assume n: "n \<in> set (cj_AppNodes j)" "set seen' \<subseteq> set s"
    then have "\<not> is_db nodes (nd_ID n)" using assms(2,4) not_db by auto
    then show "?G s (dispatchConfigForNode E n (cq_AppTierAlwaysAvailable (cj_Request j)))"
      using n that assms(4) by (intro replica_settles_guarded) auto
  qed
  show ?thesis unfolding acts guarded_append [of _ _ ?head] guarded_append [of _ _ conf] guarded_append [of _ _ ?reps]
    using conf reps apps by simp
qed

lemma start_stops_first:
  "stops_first (nd_ID p) (make_credentials E @ (case cf_Witness E of None \<Rightarrow> [] | Some ok \<Rightarrow> [CWitness ok])
     @ cf_stop_others E nodes p @ cf_primary_tasks E rq nodes p @ [CConfigured b])"
proof -
  let ?pre = "make_credentials E @ (case cf_Witness E of None \<Rightarrow> [] | Some ok \<Rightarrow> [CWitness ok]) @ cf_stop_others E nodes p"
  have "list_all (\<lambda>a. \<not> task_of (nd_ID p) a) ?pre"
    by (auto simp: list_all_iff make_credentials_def cf_stop_others_def task_act_def split: option.splits)
  moreover have "list_all (\<lambda>a. \<not> stops_netbox a) (cf_primary_tasks E rq nodes p @ [CConfigured b])"
  proof -
    have "\<not> stops_netbox a" if "a \<in> set (cf_primary_tasks E rq nodes p)" for a
      using that dispatchPatroni_tasks [of a E p] dispatchRedis_tasks [of a E rq p] dispatchConfig_tasks [of a E p True]
      by (auto simp: cf_primary_tasks_def cf_role_tasks_def task_act_def split: if_splits)
    then show ?thesis by (auto simp: list_all_iff)
  qed
  ultimately have "stops_first (nd_ID p) (?pre @ cf_primary_tasks E rq nodes p @ [CConfigured b])" by (rule stops_first_append)
  then show ?thesis by simp
qed

lemma job_stops_none: "run_cf E j w = (acts, w') \<Longrightarrow> list_all (\<lambda>a. \<not> stops_netbox a) acts"
proof -
  have rep: "\<not> stops_netbox a" if r: "a \<in> set (cf_replica E rq r)" for a rq r
  proof -
    from r consider (other) "\<not> stops_netbox a" | (pat) "a \<in> set (fst (dispatchPatroniForNode E r))"
      | (redis) "a \<in> set (dispatchRedis E rq r)" | (conf) b where "a \<in> set (dispatchConfigForNode E r b)"
      by (auto simp: cf_replica_def Let_def split: if_splits)
    then show ?thesis
    proof cases
      case pat then show ?thesis using dispatchPatroni_tasks by fastforce
    next
      case redis then show ?thesis using dispatchRedis_tasks by fastforce
    next
      case conf then show ?thesis using dispatchConfig_tasks by fastforce
    qed simp
  qed
  have app: "\<not> stops_netbox a" if "a \<in> set (dispatchConfigForNode E n b)" for a n b
    using that dispatchConfig_tasks by fastforce
  assume "run_cf E j w = (acts, w')"
  then show ?thesis using rep app by (auto simp: run_cf_def cf_configured_def list_all_iff Let_def split: if_splits prod.splits)
qed

text \<open>
  C4: A request that is accepted, with its job, \<open>p\<close> the primary it chose.  Before the first task reaches the primary a stop of NetBox was sent to every
  other node - or its dispatch failed, which the code only reports - and none is sent after it; the primary is never told to stop NetBox.
  Before the election the other nodes get nothing but that stop and, in the always-available mode, the address of the
  primary's database; they get Patroni tasks only after the primary was elected, a reinitialisation and a check of
  streaming only after their set-up finished, and their Redis and NetBox configuration only after the election and, on a
  database node, after it was seen streaming; the DCS is patched only after the election.
\<close>

theorem failover_set_up_in_order:
  assumes "cf_run E w = (Inr p, acts, w')" "cf_Nodes E = Some nodes" "distinct (map nd_ID nodes)"
  shows "guarded (cf_allowed nodes p) [] acts \<and> stops_first (nd_ID p) acts"
proof -
  obtain resp acts0 job v where h: "ConfigureFailover E w = (resp, acts0, job, v)" by (metis prod_cases4)
  have resp: "resp = Inr p" using assms(1) h by (auto simp: cf_run_def split: option.splits prod.splits)
  with h obtain c hd lk rq where l: "cf_locked E c hd rq (w\<lparr>cw_Locks := lk\<rparr>) = (Inr p, acts0, job, v)"
    by (auto simp: ConfigureFailover_def split: option.splits sum.splits prod.splits)
  from l show ?thesis
  proof (cases rule: cf_locked_cases)
    case (started ns q v')
    note parts = cf_start_parts [OF started(3)]
    have n: "ns = nodes" "q = p" using started(1) assms(2) parts(1) by simp_all
    have g: "guarded (cf_allowed nodes p) [] acts0" "stops_first (nd_ID p) acts0"
      unfolding parts(2) n by (rule start_guarded start_stops_first)+
    show ?thesis
    proof (cases job)
      case None
      then show ?thesis using assms(1) h g by (simp add: cf_run_def)
    next
      case (Some j)
      obtain acts1 v1 where r: "run_cf E j v = (acts1, v1)" by fastforce
      have "guarded (cf_allowed nodes p) acts0 acts1"
        by (rule job_guarded [OF r assms(3)]) (use parts(4) [OF Some] n in simp_all)
      moreover have "acts = acts0 @ acts1" using assms(1) h Some r by (simp add: cf_run_def)
      moreover have "stops_first (nd_ID p) (acts0 @ acts1)"
        using g(2) stops_first_none [OF job_stops_none [OF r]] job_stops_none [OF r]
        by (auto simp: stops_first_def sorted_wrt_append list_all_iff)
      ultimately show ?thesis using g by (simp add: guarded_append)
    qed
  qed simp
qed

section \<open>The lock\<close>

text \<open>Whatever happens, once the request and its job are over the cluster's lock is the one that was there before.\<close>

lemma run_cf_locks: "cw_Locks (snd (run_cf E j w)) = Unlock (cw_Locks w) (cj_Unlock j)"
  by (auto simp: run_cf_def cf_configured_def release_cf_def Let_def split: if_splits prod.splits)

lemma failover_lock:
  assumes "cf_run E w = (resp, acts, w')"
  shows "cw_Locks w' = cw_Locks w
    \<or> (\<exists>c h lk. TryLock (cw_Locks w) c ''Configure Failover'' = Inr (h, lk) \<and> cw_Locks w' = Unlock lk h)"
proof -
  obtain resp0 acts0 job v where h: "ConfigureFailover E w = (resp0, acts0, job, v)" by (metis prod_cases4)
  from h consider (early) "job = None" "cw_Locks v = cw_Locks w"
    | (locked) c hd lk rq where "TryLock (cw_Locks w) c ''Configure Failover'' = Inr (hd, lk)"
        "cf_locked E c hd rq (w\<lparr>cw_Locks := lk\<rparr>) = (resp0, acts0, job, v)"
    by (auto simp: ConfigureFailover_def split: option.splits sum.splits prod.splits)
  then show ?thesis
  proof cases
    case early
    then show ?thesis using assms h by (simp add: cf_run_def)
  next
    case locked
    have "cw_Locks w' = Unlock lk hd"
      using locked(2)
    proof (cases rule: cf_locked_cases)
      case (refused e)
      then show ?thesis using assms h by (simp add: cf_run_def)
    next
      case (started ns q v')
      note parts = cf_start_parts [OF started(3)]
      show ?thesis
      proof (cases job)
        case None
        then show ?thesis using assms h parts(3) started(4) by (simp add: cf_run_def)
      next
        case (Some j)
        then have "w' = snd (run_cf E j v)" using assms h by (auto simp: cf_run_def split: prod.splits)
        then show ?thesis using parts(3,4) Some started(4) by (simp add: run_cf_locks)
      qed
    qed
    with locked(1) show ?thesis by blast
  qed
qed

section \<open>A run for examples\<close>

definition cf_request_example :: cf_request where
  "cf_request_example = \<lparr>cq_AutoFailover = True, cq_AutoFailback = False, cq_AppTierAlwaysAvailable = False, cq_FailoverOnMaintenance = False,
     cq_FailoverDelaySecs = 5, cq_FailbackMultiplier = 0, cq_SaveBackup = True, cq_PrimaryNodeID = []\<rparr>"

definition cf_example :: "node list \<Rightarrow> cf_env" where
  "cf_example nodes = (let snap = \<lparr>se_Get = Rest_error False, se_List = True, se_Insert = True, se_Prune = True, se_NewID = 9, se_Now = 1\<rparr> in
     \<lparr>cf_ClusterID = Some 7, cf_Body = Some cf_request_example, cf_Cluster = True, cf_Nodes = Some nodes, cf_Save = True,
      cf_HasCred = (\<lambda>_. False), cf_Generate = (\<lambda>_. True), cf_RedisPassword = True, cf_ParseID = (\<lambda>_. None), cf_Witness = None,
      cf_Dispatch = (\<lambda>_ _. None), cf_Template = True, cf_RenderPatroni = (\<lambda>_. True), cf_RenderConfig = (\<lambda>_. True),
      cf_Primary = (\<lambda>k. if k = 0 then Rest_error True else Rest_reply 200 (Encodes (JObj [(''state'', JStr ''running'')]))), cf_ElectPolls = 3,
      cf_Before = snap, cf_Patch = Rest_reply 200 Malformed, cf_Design = True, cf_After = snap, cf_TaskDone = (\<lambda>_ _. True), cf_Ended = (\<lambda>_. False),
      cf_Reinit = (\<lambda>_. Rest_reply 200 Malformed),
      cf_View = (\<lambda>_ k. Rest_reply 200 (Encodes (JObj [(''members'', JArr [JObj [(''name'', JStr ''db2''),
                   (''state'', JStr (if k = 0 then ''creating replica'' else ''streaming''))]])]))),
      cf_StreamPolls = (\<lambda>_. 2), cf_Mark = True\<rparr>)"

definition cf_cluster_example :: cluster where
  "cf_cluster_example = \<lparr>cl_ID = 7, cl_Name = ''c'', cl_Mode = ''active_standby'', cl_AutoFailover = False, cl_AutoFailback = False,
     cl_AppTierAlwaysAvailable = False, cl_FailoverOnMaintenance = False, cl_FailoverDelaySecs = 30, cl_FailbackMultiplier = 3,
     cl_MediaSyncEnabled = False, cl_ExtraFoldersSyncEnabled = False, cl_ExtraSyncFolders = [], cl_FileSyncCron = [],
     cl_FileSyncScheduleEnabled = False, cl_PatroniConfigured = False\<rparr>"

definition cf_world_example :: cf_world where
  "cf_world_example = \<lparr>cw_Locks = New_locks, cw_Clusters = [cf_cluster_example], cw_Designs = Map.empty, cw_Snapshots = []\<rparr>"

lemma cf_example_choice: "choose_primary (cf_example deploy_nodes) deploy_nodes [] = Inr (hd deploy_nodes)"
  by code_simp

lemma cf_example_run: "\<exists>acts w'. cf_run (cf_example deploy_nodes) cf_world_example = (Inr (hd deploy_nodes), acts, w')
    \<and> CStreaming 2 True \<in> set acts"
proof -
  obtain resp acts w' where r: "cf_run (cf_example deploy_nodes) cf_world_example = (resp, acts, w')" by (metis prod_cases3)
  have "case cf_run (cf_example deploy_nodes) cf_world_example of (resp, acts, w') \<Rightarrow>
      (case resp of Inl e \<Rightarrow> False | Inr p \<Rightarrow> p = hd deploy_nodes) \<and> list_ex (\<lambda>a. a = CStreaming 2 True) acts" by code_simp
  with r show ?thesis by (auto simp: list_ex_iff split: sum.splits)
qed

theorem failover_set_up_in_order_witness:
  "\<exists>acts w'. cf_run (cf_example deploy_nodes) cf_world_example = (Inr (hd deploy_nodes), acts, w') \<and> CStreaming 2 True \<in> set acts \<and>
     guarded (cf_allowed deploy_nodes (hd deploy_nodes)) [] acts \<and> stops_first 1 acts"
proof -
  obtain acts w' where r: "cf_run (cf_example deploy_nodes) cf_world_example = (Inr (hd deploy_nodes), acts, w')" "CStreaming 2 True \<in> set acts"
    using cf_example_run by blast
  have "cf_Nodes (cf_example deploy_nodes) = Some deploy_nodes" by (simp add: cf_example_def Let_def)
  moreover have "distinct (map nd_ID deploy_nodes)" "nd_ID (hd deploy_nodes) = 1" by code_simp+
  ultimately show ?thesis using failover_set_up_in_order [OF r(1)] r by auto
qed

text \<open>A stop whose dispatch fails holds nothing up: the primary is set up all the same.\<close>

definition cf_unreachable_example :: cf_env where
  "cf_unreachable_example = (cf_example deploy_nodes)
     \<lparr>cf_Dispatch := (\<lambda>n t. if n = 2 \<and> t = StopNetboxTask then Some ''not stored'' else None)\<rparr>"

lemma failed_stop_goes_on:
  "case cf_run cf_unreachable_example cf_world_example of (resp, acts, w') \<Rightarrow>
     CTask 2 StopNetboxTask False \<in> set acts \<and> CTask 1 RestartPatroni True \<in> set acts"
  by code_simp

text \<open>
  The primary is the first database node that last reported itself as one, whether or not it is still connected; NetBox is
  then stopped on all the others, the connected ones too.
\<close>

lemma disconnected_primary_chosen:
  assumes "db1 = (hd deploy_nodes)\<lparr>nd_AgentStatus := ''disconnected''\<rparr>" "db2 = (deploy_nodes ! 1)\<lparr>nd_AgentStatus := ''connected'', nd_NetboxRunning := Some True\<rparr>"
  shows "choose_primary E [db1, db2] [] = Inr db1" "cf_stop_others E [db1, db2] db1 = [task_act E db2 StopNetboxTask]"
proof -
  have "reported_primary db1" "nd_ID db1 \<noteq> nd_ID db2" unfolding assms by code_simp+
  then show "choose_primary E [db1, db2] [] = Inr db1" "cf_stop_others E [db1, db2] db1 = [task_act E db2 StopNetboxTask]"
    by (simp_all add: choose_primary_def cf_stop_others_def)
qed

text \<open>A request refused for want of a primary has changed the settings already.\<close>

lemma refused_request_saves_settings:
  assumes "cf_Cluster E" "find (\<lambda>cl. cl_ID cl = c) (cw_Clusters w) = Some cl" "cl_Mode cl = ''active_standby''"
    and "cf_Nodes E = Some nodes" "2 \<le> length nodes" "list_ex (\<lambda>n. IsDBRole (nd_Role n)) nodes" "cf_Save E"
    and "choose_primary E nodes (cq_PrimaryNodeID rq) = Inl e"
  shows "\<exists>acts w'. cf_locked E c h rq w = (Inl e, acts, None, w') \<and> cw_Clusters w' = UpdateFailoverSettings c rq (cw_Clusters w)"
  using assms by (simp add: cf_locked_def release_cf_def Let_def)

end
