(* ===== verification/RateLimit.thy ===== *)
theory RateLimit
  imports Prelude
begin

text \<open>
  \<open>internal/server/api/middleware/ratelimit.go\<close>: the budget of login attempts a client address has on a route, and the
  sweep that forgets expired budgets.  A bucket is an object that the map of keys (route and address) points to; a request
  first loads or stores the pointer and then takes the bucket's mutex, and the sweep first looks whether a bucket has
  expired and then deletes its key.  Each of these is a step of its own here, and the steps of other requests come in between.
\<close>

definition loginMaxAttempts :: int where "loginMaxAttempts = 10"
definition loginWindow :: duration where "loginWindow = minute"

record login_bucket =
  bk_attempts :: int
  bk_resetAt :: instant

text \<open>\<open>allow\<close>, with the bucket's mutex held.\<close>

definition bucket_allow :: "instant \<Rightarrow> login_bucket \<Rightarrow> bool \<times> login_bucket" where
  "bucket_allow now b =
     (let b = (if bk_resetAt b < now then \<lparr>bk_attempts = 0, bk_resetAt = now + loginWindow\<rparr> else b);
          b = b\<lparr>bk_attempts := bk_attempts b + 1\<rparr>
      in (bk_attempts b \<le> loginMaxAttempts, b))"

section \<open>The limiter and its steps\<close>

text \<open>A request between its two steps: its key, the bucket it holds, and when it loaded it.\<close>

record login_call =
  lc_Key :: string
  lc_Bucket :: nat
  lc_Loaded :: instant

text \<open>The map of keys, the buckets, the requests between their steps, and the key the sweep is about to delete.\<close>

record limiter =
  lm_buckets :: "string \<rightharpoonup> nat"
  lm_heap :: "login_bucket list"
  lm_calls :: "nat \<rightharpoonup> login_call"
  lm_sweep :: "string option"

definition New_limiter :: limiter where
  "New_limiter = \<lparr>lm_buckets = Map.empty, lm_heap = [], lm_calls = Map.empty, lm_sweep = None\<rparr>"

definition LoadOrStore :: "string \<Rightarrow> login_bucket \<Rightarrow> limiter \<Rightarrow> nat \<times> limiter" where
  "LoadOrStore key b L = (case lm_buckets L key of
      Some p \<Rightarrow> (p, L)
    | None \<Rightarrow> (length (lm_heap L), L\<lparr>lm_buckets := (lm_buckets L)(key \<mapsto> length (lm_heap L)), lm_heap := lm_heap L @ [b]\<rparr>))"

text \<open>
  The steps of \<open>LoginRateLimit\<close> for the request \<open>i\<close>, at the time \<open>t\<close>.  The bucket it would store was made with the time
  \<open>made\<close> read before.  What the second step answers is the verdict.
\<close>

definition login_load :: "instant \<Rightarrow> nat \<Rightarrow> string \<Rightarrow> string \<Rightarrow> instant \<Rightarrow> limiter \<Rightarrow> limiter" where
  "login_load t i path ip made L =
     (if lm_calls L i \<noteq> None then L
      else let key = path @ ''|'' @ ip in
        case LoadOrStore key \<lparr>bk_attempts = 0, bk_resetAt = made + loginWindow\<rparr> L of
          (p, L') \<Rightarrow> L'\<lparr>lm_calls := (lm_calls L')(i \<mapsto> \<lparr>lc_Key = key, lc_Bucket = p, lc_Loaded = t\<rparr>)\<rparr>)"

record verdict =
  vd_Key :: string
  vd_Bucket :: nat
  vd_Loaded :: instant
  vd_Decided :: instant
  vd_Passed :: bool

definition login_allow :: "instant \<Rightarrow> nat \<Rightarrow> limiter \<Rightarrow> verdict list \<times> limiter" where
  "login_allow t i L = (case lm_calls L i of
      None \<Rightarrow> ([], L)
    | Some c \<Rightarrow> (case bucket_allow t (lm_heap L ! lc_Bucket c) of (ok, b) \<Rightarrow>
        ([\<lparr>vd_Key = lc_Key c, vd_Bucket = lc_Bucket c, vd_Loaded = lc_Loaded c, vd_Decided = t, vd_Passed = ok\<rparr>],
         L\<lparr>lm_heap := (lm_heap L)[lc_Bucket c := b], lm_calls := (lm_calls L)(i := None)\<rparr>)))"

text \<open>The sweep looks at one key after the other: whether its bucket expired before the time \<open>now\<close> read at the start of the
  round, and then the deletion.\<close>

definition sweep_check :: "instant \<Rightarrow> string \<Rightarrow> limiter \<Rightarrow> limiter" where
  "sweep_check now key L = (case (lm_sweep L, lm_buckets L key) of
      (None, Some p) \<Rightarrow> if bk_resetAt (lm_heap L ! p) < now then L\<lparr>lm_sweep := Some key\<rparr> else L
    | _ \<Rightarrow> L)"

definition sweep_delete :: "limiter \<Rightarrow> limiter" where
  "sweep_delete L = (case lm_sweep L of
      None \<Rightarrow> L
    | Some key \<Rightarrow> L\<lparr>lm_buckets := (lm_buckets L)(key := None), lm_sweep := None\<rparr>)"

section \<open>A history of steps\<close>

text \<open>The steps of any requests and of the sweep, in any order, each with its time.\<close>

datatype limiter_event =
    Load instant nat string string instant | Allow instant nat | SweepCheck instant string instant | SweepDelete instant

fun event_time :: "limiter_event \<Rightarrow> instant" where
  "event_time (Load t i path ip made) = t"
| "event_time (Allow t i) = t"
| "event_time (SweepCheck t key now) = t"
| "event_time (SweepDelete t) = t"

fun limiter_step :: "limiter_event \<Rightarrow> limiter \<Rightarrow> verdict list \<times> limiter" where
  "limiter_step (Load t i path ip made) L = ([], login_load t i path ip made L)"
| "limiter_step (Allow t i) L = login_allow t i L"
| "limiter_step (SweepCheck t key now) L = ([], sweep_check now key L)"
| "limiter_step (SweepDelete t) L = ([], sweep_delete L)"

fun verdicts :: "limiter_event list \<Rightarrow> limiter \<Rightarrow> verdict list" where
  "verdicts [] L = []"
| "verdicts (e # es) L = fst (limiter_step e L) @ verdicts es (snd (limiter_step e L))"

fun limiter_run :: "limiter_event list \<Rightarrow> limiter \<Rightarrow> limiter" where
  "limiter_run [] L = L"
| "limiter_run (e # es) L = limiter_run es (snd (limiter_step e L))"

text \<open>The attempts with a key that loaded and passed from \<open>a\<close> to \<open>b\<close>, and the deletions of the key in that time.\<close>

definition passed_in :: "string \<Rightarrow> instant \<Rightarrow> instant \<Rightarrow> verdict list \<Rightarrow> verdict list" where
  "passed_in key a b = filter (\<lambda>v. vd_Key v = key \<and> vd_Passed v \<and> a \<le> vd_Loaded v \<and> vd_Decided v \<le> b)"

fun deletes :: "string \<Rightarrow> limiter_event \<Rightarrow> limiter \<Rightarrow> bool" where
  "deletes key (SweepDelete t) L = (lm_sweep L = Some key)"
| "deletes key _ L = False"

fun deletions :: "string \<Rightarrow> instant \<Rightarrow> instant \<Rightarrow> limiter_event list \<Rightarrow> limiter \<Rightarrow> nat" where
  "deletions key a b [] L = 0"
| "deletions key a b (e # es) L =
     (if deletes key e L \<and> a \<le> event_time e \<and> event_time e \<le> b then 1 else 0) + deletions key a b es (snd (limiter_step e L))"

lemma verdicts_append: "verdicts (es @ es') L = verdicts es L @ verdicts es' (limiter_run es L)"
  by (induction es arbitrary: L) auto

lemma deletions_append: "deletions key a b (es @ es') L = deletions key a b es L + deletions key a b es' (limiter_run es L)"
  by (induction es arbitrary: L) auto

section \<open>What a bucket has left\<close>

text \<open>The attempts a bucket lets through from \<open>a\<close> until \<open>b\<close>: those of its window, and those of the next one when that can
  open by \<open>b\<close>.\<close>

definition window_left :: "instant \<Rightarrow> instant \<Rightarrow> login_bucket \<Rightarrow> nat" where
  "window_left a b k = (if bk_resetAt k < a then 10 else nat (10 - bk_attempts k) + (if bk_resetAt k < b then 10 else 0))"

lemma allow_left:
  assumes "a \<le> t" "t \<le> b" "b \<le> a + loginWindow" "bucket_allow t k = (ok, k')"
  shows "(if ok then 1 else 0) + window_left a b k' \<le> window_left a b k"
  using assms by (auto simp: bucket_allow_def window_left_def loginMaxAttempts_def Let_def loginWindow_def minute_def second_def split: if_splits)

lemma window_left_bound: "0 \<le> bk_attempts k \<Longrightarrow> window_left a b k \<le> 20"
  by (auto simp: window_left_def nat_le_iff)

text \<open>Pointers lead to buckets, counters are not negative, and requests loaded by the time \<open>t\<close>.\<close>

definition limiter_ok :: "instant \<Rightarrow> limiter \<Rightarrow> bool" where
  "limiter_ok t L \<longleftrightarrow> (\<forall>key p. lm_buckets L key = Some p \<longrightarrow> p < length (lm_heap L))
     \<and> (\<forall>i c. lm_calls L i = Some c \<longrightarrow> lc_Bucket c < length (lm_heap L) \<and> lc_Loaded c \<le> t)
     \<and> (\<forall>k \<in> set (lm_heap L). 0 \<le> bk_attempts k)"

lemma limiter_ok_New: "limiter_ok t New_limiter"
  by (simp add: limiter_ok_def New_limiter_def)

lemma allow_attempts: "bucket_allow t k = (ok, k') \<Longrightarrow> 0 \<le> bk_attempts k \<Longrightarrow> 0 \<le> bk_attempts k'"
  by (auto simp: bucket_allow_def Let_def)

lemma limiter_ok_load: "limiter_ok t L \<Longrightarrow> t \<le> t' \<Longrightarrow> limiter_ok t' (login_load t' i path ip made L)"
  by (fastforce simp: limiter_ok_def login_load_def LoadOrStore_def Let_def split: option.splits if_splits)

lemma limiter_ok_allow:
  assumes "limiter_ok t L" "t \<le> t'"
  shows "limiter_ok t' (snd (login_allow t' i L))"
proof (cases "lm_calls L i")
  case None
  then show ?thesis using assms by (force simp: limiter_ok_def login_allow_def)
next
  case (Some c)
  obtain ok k where k: "bucket_allow t' (lm_heap L ! lc_Bucket c) = (ok, k)" by fastforce
  have "0 \<le> bk_attempts k" by (rule allow_attempts [OF k]) (use assms(1) Some in \<open>auto simp: limiter_ok_def\<close>)
  then have "\<forall>x \<in> set ((lm_heap L)[lc_Bucket c := k]). 0 \<le> bk_attempts x"
    using assms(1) set_update_subset_insert [of "lm_heap L" "lc_Bucket c" k] by (auto simp: limiter_ok_def)
  then show ?thesis using assms Some k by (force simp: limiter_ok_def login_allow_def split: if_splits)
qed

lemma limiter_ok_step: "limiter_ok t L \<Longrightarrow> t \<le> event_time e \<Longrightarrow> limiter_ok (event_time e) (snd (limiter_step e L))"
proof (cases e)
  case (SweepCheck t' key now)
  moreover assume "limiter_ok t L" "t \<le> event_time e"
  ultimately show ?thesis by (force simp: limiter_ok_def sweep_check_def split: option.splits)
next
  case (SweepDelete t')
  moreover assume "limiter_ok t L" "t \<le> event_time e"
  ultimately show ?thesis by (force simp: limiter_ok_def sweep_delete_def split: option.splits)
qed (simp_all add: limiter_ok_load limiter_ok_allow)


section \<open>One bucket\<close>

definition bucket_left :: "instant \<Rightarrow> instant \<Rightarrow> limiter \<Rightarrow> nat \<Rightarrow> nat" where
  "bucket_left a b L p = (if p < length (lm_heap L) then window_left a b (lm_heap L ! p) else 20)"

abbreviation of_bucket :: "instant \<Rightarrow> nat \<Rightarrow> verdict \<Rightarrow> bool" where
  "of_bucket b p v \<equiv> vd_Bucket v = p \<and> vd_Passed v \<and> vd_Decided v \<le> b"

lemma step_verdict:
  assumes "v \<in> set (fst (limiter_step e L))"
  obtains t i c where "e = Allow t i" "lm_calls L i = Some c" "vd_Decided v = event_time e" "vd_Key v = lc_Key c" "vd_Bucket v = lc_Bucket c"
    "vd_Loaded v = lc_Loaded c"
  using assms by (cases e) (auto simp: login_allow_def split: option.splits prod.splits)

lemma late_verdicts: "sorted (map event_time es) \<Longrightarrow> \<forall>e \<in> set es. b < event_time e \<Longrightarrow> v \<in> set (verdicts es L) \<Longrightarrow> b < vd_Decided v"
proof (induction es arbitrary: L)
  case (Cons e es)
  from Cons.prems(3) consider "v \<in> set (fst (limiter_step e L))" | "v \<in> set (verdicts es (snd (limiter_step e L)))" by auto
  then show ?case
  proof cases
    case 1
    then show ?thesis by (rule step_verdict) (use Cons.prems(2) in auto)
  qed (use Cons in auto)
qed simp

lemma load_left: "bucket_left a b (login_load t i path ip made L) p \<le> bucket_left a b L p"
  by (auto simp: bucket_left_def login_load_def LoadOrStore_def Let_def nth_append window_left_bound not_less_eq
      split: option.splits)

lemma sweep_left: "bucket_left a b (sweep_check now key L) p = bucket_left a b L p" "bucket_left a b (sweep_delete L) p = bucket_left a b L p"
  by (simp_all add: bucket_left_def sweep_check_def sweep_delete_def split: option.split)

lemma allow_step_left:
  assumes "limiter_ok s L" "a \<le> t" "t \<le> b" "b \<le> a + loginWindow"
  shows "length (filter (of_bucket b p) (fst (login_allow t i L))) + bucket_left a b (snd (login_allow t i L)) p \<le> bucket_left a b L p"
proof (cases "lm_calls L i")
  case (Some c)
  obtain ok k where k: "bucket_allow t (lm_heap L ! lc_Bucket c) = (ok, k)" by fastforce
  have "lc_Bucket c < length (lm_heap L)" using assms(1) Some by (auto simp: limiter_ok_def)
  then show ?thesis using allow_left [OF assms(2-4) k] Some k assms(3)
    by (cases "p = lc_Bucket c") (auto simp: login_allow_def bucket_left_def split: if_splits)
qed (simp add: login_allow_def)

lemma one_bucket:
  assumes "b \<le> a + loginWindow" "sorted (map event_time es)" "\<forall>e \<in> set es. a \<le> event_time e \<and> s \<le> event_time e" "limiter_ok s L"
  shows "length (filter (of_bucket b p) (verdicts es L)) \<le> bucket_left a b L p"
  using assms(2-4)
proof (induction es arbitrary: L s)
  case (Cons e es)
  show ?case
  proof (cases "b < event_time e")
    case True
    with Cons.prems(1) have "\<forall>x \<in> set (e # es). b < event_time x" by auto
    from late_verdicts [OF Cons.prems(1) this] have "filter (of_bucket b p) (verdicts (e # es) L) = []"
      by (fastforce simp: filter_empty_conv)
    then show ?thesis by (metis le0 list.size(3))
  next
    case False
    let ?L = "snd (limiter_step e L)"
    have "length (filter (of_bucket b p) (verdicts es ?L)) \<le> bucket_left a b ?L p"
      by (rule Cons.IH [of "event_time e"]) (use Cons.prems limiter_ok_step [OF Cons.prems(3)] in auto)
    moreover have "length (filter (of_bucket b p) (fst (limiter_step e L))) + bucket_left a b ?L p \<le> bucket_left a b L p"
    proof (cases e)
      case (Allow t i)
      then show ?thesis using allow_step_left [OF Cons.prems(3) _ _ assms(1), of t p i] Cons.prems(2) False by simp
    qed (use load_left sweep_left in simp_all)
    ultimately show ?thesis by simp
  qed
qed simp

section \<open>The buckets a key has\<close>

text \<open>The buckets that requests with the key hold which loaded since \<open>a\<close>, and the one the key leads to.\<close>

definition held :: "string \<Rightarrow> instant \<Rightarrow> limiter \<Rightarrow> nat set" where
  "held key a L = {lc_Bucket c | i c. lm_calls L i = Some c \<and> lc_Key c = key \<and> a \<le> lc_Loaded c}
     \<union> {p. lm_buckets L key = Some p}"

definition unkeyed :: "string \<Rightarrow> limiter \<Rightarrow> nat" where
  "unkeyed key L = (if lm_buckets L key = None then 1 else 0)"

lemma held_load:
  "\<exists>X. held key a (login_load t i path ip made L) \<subseteq> held key a L \<union> X
     \<and> finite X \<and> card X + unkeyed key (login_load t i path ip made L) \<le> unkeyed key L"
proof (cases "lm_calls L i = None \<and> path @ ''|'' @ ip = key \<and> lm_buckets L key = None")
  case True
  then show ?thesis
    by (intro exI [of _ "{length (lm_heap L)}"]) (auto simp: held_def unkeyed_def login_load_def LoadOrStore_def Let_def split: if_splits)
next
  case False
  then show ?thesis
    by (intro exI [of _ "{}"]) (auto simp: held_def unkeyed_def login_load_def LoadOrStore_def Let_def split: option.splits if_splits)
qed

lemma held_step:
  "\<exists>X. held key a (snd (limiter_step e L)) \<subseteq> held key a L \<union> X
     \<and> finite X \<and> card X + unkeyed key (snd (limiter_step e L)) \<le> unkeyed key L + (if deletes key e L then 1 else 0)"
proof (cases e)
  case (Load t i path ip made)
  then show ?thesis using held_load [of key a t i path ip made L] by simp
next
  case (Allow t i)
  then show ?thesis
    by (intro exI [of _ "{}"]) (auto simp: held_def unkeyed_def login_allow_def split: option.splits prod.splits if_splits)
next
  case (SweepCheck t k now)
  then show ?thesis
    by (intro exI [of _ "{}"]) (auto simp: held_def unkeyed_def sweep_check_def split: option.splits)
next
  case (SweepDelete t)
  then show ?thesis
    by (intro exI [of _ "{}"]) (auto simp: held_def unkeyed_def sweep_delete_def split: option.splits if_splits)
qed

definition buckets_used :: "string \<Rightarrow> instant \<Rightarrow> instant \<Rightarrow> limiter_event list \<Rightarrow> limiter \<Rightarrow> nat set" where
  "buckets_used key a b es L = vd_Bucket ` set (passed_in key a b (verdicts es L))"

lemma buckets_used_bound:
  assumes "sorted (map event_time es)" "\<forall>e \<in> set es. a \<le> event_time e" "held key a L \<subseteq> X" "finite X"
  shows "card (buckets_used key a b es L \<union> X) \<le> card X + unkeyed key L + deletions key a b es L"
  using assms
proof (induction es arbitrary: L X)
  case Nil
  then show ?case by (simp add: buckets_used_def passed_in_def)
next
  case (Cons e es)
  show ?case
  proof (cases "b < event_time e")
    case True
    with Cons.prems(1) have "\<forall>x \<in> set (e # es). b < event_time x" by auto
    from late_verdicts [OF Cons.prems(1) this] have "buckets_used key a b (e # es) L = {}"
      by (fastforce simp: buckets_used_def passed_in_def)
    then show ?thesis by simp
  next
    case False
    let ?L = "snd (limiter_step e L)"
    from held_step [of key a e L] obtain Y where y: "held key a ?L \<subseteq> held key a L \<union> Y" "finite Y"
      "card Y + unkeyed key ?L \<le> unkeyed key L + (if deletes key e L then 1 else 0)" by blast
    have now: "vd_Bucket ` set (passed_in key a b (fst (limiter_step e L))) \<subseteq> X"
    proof
      fix p assume "p \<in> vd_Bucket ` set (passed_in key a b (fst (limiter_step e L)))"
      then obtain v where v: "v \<in> set (fst (limiter_step e L))" "vd_Key v = key" "a \<le> vd_Loaded v" "p = vd_Bucket v"
        by (auto simp: passed_in_def)
      from v(1) show "p \<in> X" by (rule step_verdict) (use v(2-4) Cons.prems(3) in \<open>auto simp: held_def\<close>)
    qed
    have "card (buckets_used key a b es ?L \<union> (X \<union> Y)) \<le> card (X \<union> Y) + unkeyed key ?L + deletions key a b es ?L"
      by (rule Cons.IH) (use Cons.prems y in auto)
    moreover have "card (X \<union> Y) \<le> card X + card Y" by (rule card_Un_le)
    moreover have "buckets_used key a b (e # es) L \<union> X \<subseteq> buckets_used key a b es ?L \<union> (X \<union> Y)"
      using now by (auto simp: buckets_used_def passed_in_def)
    moreover have "finite (buckets_used key a b es ?L \<union> (X \<union> Y))" using Cons.prems(4) y(2) by (simp add: buckets_used_def)
    ultimately have "card (buckets_used key a b (e # es) L \<union> X) \<le> card X + card Y + unkeyed key ?L + deletions key a b es ?L"
      by (meson add_mono card_mono le_trans order_refl)
    then show ?thesis using y(3) False Cons.prems(2) by (auto split: if_splits)
  qed
qed

section \<open>The bound\<close>

lemma filter_length_mono: "(\<And>x. P x \<Longrightarrow> Q x) \<Longrightarrow> length (filter P xs) \<le> length (filter Q xs)"
  by (induction xs) auto

lemma length_by_bucket:
  assumes "finite P" "\<forall>x \<in> set xs. f x \<in> P" "\<And>p. length (filter (\<lambda>x. f x = p) xs) \<le> n"
  shows "length xs \<le> n * card P"
proof -
  have "length xs = (\<Sum>p \<in> P. length (filter (\<lambda>x. f x = p) xs))"
    using assms(2)
  proof (induction xs)
    case (Cons x xs)
    then have "(\<Sum>p \<in> P. length (filter (\<lambda>y. f y = p) (x # xs))) = (\<Sum>p \<in> P. (if f x = p then 1 else 0) + length (filter (\<lambda>y. f y = p) xs))"
      by (intro sum.cong) auto
    also have "\<dots> = 1 + length xs" using Cons assms(1) by (simp add: sum.distrib)
    finally show ?case by simp
  qed simp
  also have "\<dots> \<le> (\<Sum>p \<in> P. n)" by (intro sum_mono assms(3))
  finally show ?thesis by (simp add: mult.commute)
qed

lemma window_bound:
  assumes "b \<le> a + loginWindow" "sorted (map event_time es)" "\<forall>e \<in> set es. a \<le> event_time e \<and> s \<le> event_time e" "limiter_ok s L" "s < a"
  shows "length (passed_in key a b (verdicts es L)) \<le> 20 * (1 + deletions key a b es L)"
proof -
  let ?vs = "passed_in key a b (verdicts es L)" and ?P = "buckets_used key a b es L"
  have h: "held key a L = {p. lm_buckets L key = Some p}" using assms(4,5) by (fastforce simp: held_def limiter_ok_def)
  then have f: "finite (held key a L)" "card (held key a L) + unkeyed key L \<le> 1"
    by (cases "lm_buckets L key"; simp add: unkeyed_def)+
  have "card (?P \<union> held key a L) \<le> card (held key a L) + unkeyed key L + deletions key a b es L"
    by (rule buckets_used_bound [OF assms(2) _ order_refl f(1)]) (use assms(3) in auto)
  moreover have "card ?P \<le> card (?P \<union> held key a L)" by (rule card_mono) (simp_all add: f(1) buckets_used_def)
  ultimately have P: "card ?P \<le> 1 + deletions key a b es L" using f(2) by linarith
  have "length (filter (\<lambda>v. vd_Bucket v = p) ?vs) \<le> 20" for p
  proof -
    have "length (filter (\<lambda>v. vd_Bucket v = p) ?vs) \<le> length (filter (of_bucket b p) (verdicts es L))"
      unfolding passed_in_def filter_filter by (rule filter_length_mono) simp
    also have "\<dots> \<le> bucket_left a b L p" by (rule one_bucket [OF assms(1-4)])
    also have "\<dots> \<le> 20" using assms(4) by (auto simp: bucket_left_def limiter_ok_def intro!: window_left_bound)
    finally show ?thesis .
  qed
  then have "length ?vs \<le> 20 * card ?P" by (intro length_by_bucket) (auto simp: buckets_used_def)
  also have "\<dots> \<le> 20 * (1 + deletions key a b es L)" using P by (rule mult_le_mono2)
  finally show ?thesis .
qed


lemma late_rest: "sorted (map event_time es) \<Longrightarrow> \<forall>e \<in> set (dropWhile (\<lambda>e. event_time e < a) es). a \<le> event_time e"
  by (induction es) auto

lemma limiter_ok_run:
  "limiter_ok s L \<Longrightarrow> sorted (map event_time es) \<Longrightarrow> \<forall>e \<in> set es. s \<le> event_time e \<and> event_time e < a \<Longrightarrow> s < a
    \<Longrightarrow> \<exists>s' < a. s \<le> s' \<and> limiter_ok s' (limiter_run es L)"
proof (induction es arbitrary: s L)
  case (Cons e es)
  have "limiter_ok (event_time e) (snd (limiter_step e L))" using Cons.prems by (intro limiter_ok_step [of s]) auto
  then have "\<exists>s' < a. event_time e \<le> s' \<and> limiter_ok s' (limiter_run es (snd (limiter_step e L)))" using Cons.prems by (intro Cons.IH) auto
  then show ?case using Cons.prems(3) by (auto intro: order_trans)
qed auto

lemma early_verdicts:
  "limiter_ok s L \<Longrightarrow> sorted (map event_time es) \<Longrightarrow> \<forall>e \<in> set es. s \<le> event_time e \<and> event_time e < a
    \<Longrightarrow> v \<in> set (verdicts es L) \<Longrightarrow> vd_Loaded v < a"
proof (induction es arbitrary: s L)
  case (Cons e es)
  have ok: "limiter_ok (event_time e) (snd (limiter_step e L))" using Cons.prems by (intro limiter_ok_step [of s]) auto
  from Cons.prems(4) consider "v \<in> set (fst (limiter_step e L))" | "v \<in> set (verdicts es (snd (limiter_step e L)))" by auto
  then show ?case
  proof cases
    case 1
    then show ?thesis by (rule step_verdict) (use Cons.prems(1,3) in \<open>fastforce simp: limiter_ok_def\<close>)
  next
    case 2
    show ?thesis by (rule Cons.IH [OF ok _ _ 2]) (use Cons.prems in auto)
  qed
qed simp

text \<open>
  C25: However the steps of attempts and of the sweep interleave: of the attempts of one address on one route that load their
  bucket and are decided within a minute, at most 20 get through the limit (10 per window, and a minute meets at most two
  windows of a bucket), and at most another 20 for each time the sweep deletes the key in that minute.  A deletion can hit a
  bucket that was reset after the sweep had looked at it (\<open>sweep_forgets_reset\<close>).
\<close>

theorem login_attempts_bounded:
  assumes "sorted (map event_time es)" "b \<le> a + loginWindow"
  shows "length (passed_in key a b (verdicts es New_limiter)) \<le> 20 * (1 + deletions key a b es New_limiter)"
proof -
  obtain s where s: "s < a" "\<forall>e \<in> set es. s \<le> event_time e"
  proof (cases es)
    case Nil
    then show ?thesis using that [of "a - 1"] by simp
  next
    case (Cons e es')
    then show ?thesis using that [of "min (a - 1) (event_time e)"] assms(1) by (auto simp: min_le_iff_disj)
  qed
  let ?early = "\<lambda>e. event_time e < a"
  let ?es1 = "takeWhile ?early es" and ?es2 = "dropWhile ?early es"
  have split: "es = ?es1 @ ?es2" by simp
  then have srt: "sorted (map event_time ?es1)" "sorted (map event_time ?es2)"
    using assms(1) by (metis map_append sorted_append)+
  have e1: "\<forall>e \<in> set ?es1. s \<le> event_time e \<and> event_time e < a" using s(2) by (auto dest: set_takeWhileD)
  have e2: "\<forall>e \<in> set ?es2. a \<le> event_time e" by (rule late_rest [OF assms(1)])
  let ?L = "limiter_run ?es1 New_limiter"
  from limiter_ok_run [OF limiter_ok_New srt(1) e1 s(1)] obtain s' where s': "s' < a" "limiter_ok s' ?L" by blast
  have "passed_in key a b (verdicts ?es1 New_limiter) = []"
    using early_verdicts [OF limiter_ok_New srt(1) e1] by (fastforce simp: passed_in_def filter_empty_conv)
  then have "passed_in key a b (verdicts es New_limiter) = passed_in key a b (verdicts ?es2 ?L)"
    by (subst split, subst verdicts_append) (simp add: passed_in_def)
  moreover have "length (passed_in key a b (verdicts ?es2 ?L)) \<le> 20 * (1 + deletions key a b ?es2 ?L)"
    by (rule window_bound [OF assms(2) srt(2) _ s'(2,1)]) (use e2 s'(1) in force)
  moreover have "deletions key a b ?es2 ?L \<le> deletions key a b es New_limiter"
    by (subst (2) split, subst deletions_append) simp
  ultimately show ?thesis by simp
qed

section \<open>Examples\<close>

text \<open>An attempt whose two steps follow one another.\<close>

definition attempt :: "instant \<Rightarrow> nat \<Rightarrow> limiter_event list" where
  "attempt t i = [Load t i [] [] t, Allow t i]"

definition attempts_example :: "limiter_event list" where
  "attempts_example = concat (map (attempt 0) [0..<12])"

theorem login_attempts_bounded_witness:
  "length (passed_in ''|'' 0 loginWindow (verdicts attempts_example New_limiter)) = 10 \<and>
   length (passed_in ''|'' 5 (5 + loginWindow) (verdicts attempts_example New_limiter)) \<le> 20"
proof
  show "length (passed_in ''|'' 0 loginWindow (verdicts attempts_example New_limiter)) = 10" by code_simp
  have "sorted (map event_time attempts_example)" by code_simp
  from login_attempts_bounded [OF this order_refl, of "''|''" 5]
  show "length (passed_in ''|'' 5 (5 + loginWindow) (verdicts attempts_example New_limiter)) \<le> 20"
    unfolding attempts_example_def by (simp add: attempt_def upt_conv_Cons)
qed

text \<open>
  The sweep finds a bucket expired; ten attempts open its next window and use it up; only then the sweep deletes it, and ten
  more attempts pass with a bucket of their own: thirty within a minute that starts with the ten of the window before.
\<close>

definition race_example :: "limiter_event list" where
  "race_example = Load 0 99 [] [] 0 # concat (map (attempt (30 * second)) [0..<10])
     @ [SweepCheck (61 * second) ''|'' (61 * second)] @ concat (map (attempt (61 * second)) [0..<10])
     @ [SweepDelete (62 * second)] @ concat (map (attempt (62 * second)) [0..<12])"

lemma sweep_forgets_reset:
  "length (passed_in ''|'' (30 * second) (90 * second) (verdicts race_example New_limiter)) = 30"
  "deletions ''|'' (30 * second) (90 * second) race_example New_limiter = 1"
  by code_simp+

end
