(* ===== verification/Auth.thy ===== *)
theory Auth
  imports RateLimit Crypto
begin

text \<open>
  Signing in to the conductor: the users and refresh tokens (\<open>internal/server/db/queries/users.go\<close>), the signed tokens
  (\<open>internal/server/api/jwtutil/jwt.go\<close>), the handlers of \<open>internal/server/api/handlers/auth.go\<close> and the middleware that
  guards the routes (\<open>internal/server/api/middleware/auth.go\<close>, \<open>router.go\<close>).  The libraries for JWT, bcrypt and TOTP, the
  hash and the cipher are the parameters of \<open>auth_env\<close>; a request reads the clock once.
\<close>

section \<open>Users and refresh tokens\<close>

record account =
  us_ID :: uuid
  us_Username :: string
  us_PasswordHash :: string
  us_Role :: string
  us_TOTPSecretEnc :: string
  us_TOTPEnabled :: bool
  us_CreatedAt :: instant
  us_LastLoginAt :: "instant option"

record refresh_row =
  rf_UserID :: uuid
  rf_TokenHash :: string
  rf_IssuedAt :: instant
  rf_ExpiresAt :: instant
  rf_RevokedAt :: "instant option"

text \<open>The code accepted last at login per user, and until when it may not be used again.\<close>

record used_totp =
  ut_code :: string
  ut_until :: instant

record auth_state =
  as_Users :: "account list"
  as_Refresh :: "refresh_row list"
  as_totpUsed :: "(uuid \<times> used_totp) list"

definition GetByUsername :: "string \<Rightarrow> auth_state \<Rightarrow> account option" where
  "GetByUsername n st = find (\<lambda>u. us_Username u = n) (as_Users st)"

definition GetUserByID :: "uuid \<Rightarrow> auth_state \<Rightarrow> account option" where
  "GetUserByID i st = find (\<lambda>u. us_ID u = i) (as_Users st)"

definition validRoles :: "string list" where
  "validRoles = [''admin'', ''operator'', ''viewer'']"

text \<open>The table refuses a name that is taken, an identifier that is taken and a role it does not know.\<close>

definition CreateAccount :: "uuid \<Rightarrow> instant \<Rightarrow> string \<Rightarrow> string \<Rightarrow> string \<Rightarrow> auth_state \<Rightarrow> (account \<times> auth_state) option" where
  "CreateAccount i now n hash role st =
     (let u = \<lparr>us_ID = i, us_Username = n, us_PasswordHash = hash, us_Role = role, us_TOTPSecretEnc = [], us_TOTPEnabled = False,
               us_CreatedAt = now, us_LastLoginAt = None\<rparr>
      in if list_ex (\<lambda>v. us_Username v = n \<or> us_ID v = i) (as_Users st) \<or> role \<notin> set validRoles then None
         else Some (u, st\<lparr>as_Users := as_Users st @ [u]\<rparr>))"

definition update_account :: "uuid \<Rightarrow> (account \<Rightarrow> account) \<Rightarrow> auth_state \<Rightarrow> auth_state" where
  "update_account i f st = st\<lparr>as_Users := map (\<lambda>u. if us_ID u = i then f u else u) (as_Users st)\<rparr>"

definition UpdateLastLogin :: "uuid \<Rightarrow> instant \<Rightarrow> auth_state \<Rightarrow> auth_state" where
  "UpdateLastLogin i now = update_account i (\<lambda>u. u\<lparr>us_LastLoginAt := Some now\<rparr>)"

definition UpdateRole :: "uuid \<Rightarrow> string \<Rightarrow> auth_state \<Rightarrow> auth_state" where
  "UpdateRole i r = update_account i (\<lambda>u. u\<lparr>us_Role := r\<rparr>)"

definition UpdatePassword :: "uuid \<Rightarrow> string \<Rightarrow> auth_state \<Rightarrow> auth_state" where
  "UpdatePassword i h = update_account i (\<lambda>u. u\<lparr>us_PasswordHash := h\<rparr>)"

definition SetTOTP :: "uuid \<Rightarrow> string \<Rightarrow> auth_state \<Rightarrow> auth_state" where
  "SetTOTP i s = update_account i (\<lambda>u. u\<lparr>us_TOTPSecretEnc := s, us_TOTPEnabled := True\<rparr>)"

definition ClearTOTP :: "uuid \<Rightarrow> auth_state \<Rightarrow> auth_state" where
  "ClearTOTP i = update_account i (\<lambda>u. u\<lparr>us_TOTPSecretEnc := [], us_TOTPEnabled := False\<rparr>)"

text \<open>Deleting a user deletes its refresh tokens.\<close>

definition DeleteAccount :: "uuid \<Rightarrow> auth_state \<Rightarrow> auth_state" where
  "DeleteAccount i st = st\<lparr>as_Users := filter (\<lambda>u. us_ID u \<noteq> i) (as_Users st),
     as_Refresh := filter (\<lambda>r. rf_UserID r \<noteq> i) (as_Refresh st)\<rparr>"

definition CreateRefresh :: "uuid \<Rightarrow> string \<Rightarrow> instant \<Rightarrow> instant \<Rightarrow> auth_state \<Rightarrow> auth_state option" where
  "CreateRefresh i h now expires st =
     (if list_ex (\<lambda>r. rf_TokenHash r = h) (as_Refresh st) \<or> GetUserByID i st = None then None
      else Some (st\<lparr>as_Refresh := as_Refresh st
        @ [\<lparr>rf_UserID = i, rf_TokenHash = h, rf_IssuedAt = now, rf_ExpiresAt = expires, rf_RevokedAt = None\<rparr>]\<rparr>))"

definition GetValid :: "instant \<Rightarrow> string \<Rightarrow> auth_state \<Rightarrow> refresh_row option" where
  "GetValid now h st = find (\<lambda>r. rf_TokenHash r = h \<and> rf_RevokedAt r = None \<and> now < rf_ExpiresAt r) (as_Refresh st)"

definition Revoke :: "instant \<Rightarrow> string \<Rightarrow> auth_state \<Rightarrow> auth_state" where
  "Revoke now h st = st\<lparr>as_Refresh := map (\<lambda>r. if rf_TokenHash r = h then r\<lparr>rf_RevokedAt := Some now\<rparr> else r) (as_Refresh st)\<rparr>"

definition RevokeAllForUser :: "instant \<Rightarrow> uuid \<Rightarrow> auth_state \<Rightarrow> auth_state" where
  "RevokeAllForUser now i st = st\<lparr>as_Refresh :=
     map (\<lambda>r. if rf_UserID r = i \<and> rf_RevokedAt r = None then r\<lparr>rf_RevokedAt := Some now\<rparr> else r) (as_Refresh st)\<rparr>"

section \<open>Signed tokens\<close>

definition AccessTokenTTL :: duration where "AccessTokenTTL = 15 * minute"
definition RefreshTokenTTL :: duration where "RefreshTokenTTL = 7 * 24 * 60 * minute"
definition refreshTokenLen :: nat where "refreshTokenLen = 48"
definition TOTPPendingTTL :: duration where "TOTPPendingTTL = 5 * minute"
definition TOTPEnrollTTL :: duration where "TOTPEnrollTTL = 10 * minute"
definition totpValidity :: duration where "totpValidity = 90 * second"

text \<open>
  The claims of the three kinds of token; a field that a kind does not have is empty.  Reading a token as another kind
  keeps the fields they share.
\<close>

record claims =
  jc_UserID :: string
  jc_Username :: string
  jc_Role :: string
  jc_Secret :: string
  jc_Type :: string
  jc_IssuedAt :: instant
  jc_ExpiresAt :: instant

text \<open>
  The libraries: dates as a token stores them, signing with the server's secret and reading a token back at an instant;
  bcrypt's comparison; the TOTP check of a code against a secret; SHA-256, the cipher and the key of stored secrets; and
  the text of an identifier.
\<close>

record auth_env =
  ae_Date :: "instant \<Rightarrow> instant"
  ae_Sign :: "claims \<Rightarrow> string option"
  ae_Read :: "instant \<Rightarrow> string \<Rightarrow> claims option"
  ae_Compare :: "string \<Rightarrow> string \<Rightarrow> bool"
  ae_TOTP :: "instant \<Rightarrow> string \<Rightarrow> string \<Rightarrow> bool"
  ae_SHA256 :: "string \<Rightarrow> string"
  ae_Seal :: seal
  ae_Unseal :: unseal
  ae_Key :: string
  ae_String :: "uuid \<Rightarrow> string"
  ae_ParseID :: "string \<Rightarrow> uuid option"

definition IssueAccess :: "auth_env \<Rightarrow> instant \<Rightarrow> uuid \<Rightarrow> string \<Rightarrow> string \<Rightarrow> string option" where
  "IssueAccess E now i n r = ae_Sign E \<lparr>jc_UserID = ae_String E i, jc_Username = n, jc_Role = r, jc_Secret = [], jc_Type = ''access'',
     jc_IssuedAt = ae_Date E now, jc_ExpiresAt = ae_Date E (now + AccessTokenTTL)\<rparr>"

definition ParseAccess :: "auth_env \<Rightarrow> instant \<Rightarrow> string \<Rightarrow> claims option" where
  "ParseAccess E now raw = (case ae_Read E now raw of
      None \<Rightarrow> None | Some c \<Rightarrow> if jc_Type c \<noteq> ''access'' then None else Some c)"

definition IssueTOTPPending :: "auth_env \<Rightarrow> instant \<Rightarrow> uuid \<Rightarrow> string option" where
  "IssueTOTPPending E now i = ae_Sign E \<lparr>jc_UserID = ae_String E i, jc_Username = [], jc_Role = [], jc_Secret = [],
     jc_Type = ''totp_pending'', jc_IssuedAt = ae_Date E now, jc_ExpiresAt = ae_Date E (now + TOTPPendingTTL)\<rparr>"

definition ParseTOTPPending :: "auth_env \<Rightarrow> instant \<Rightarrow> string \<Rightarrow> uuid option" where
  "ParseTOTPPending E now raw = (case ae_Read E now raw of
      None \<Rightarrow> None | Some c \<Rightarrow> if jc_Type c \<noteq> ''totp_pending'' then None else ae_ParseID E (jc_UserID c))"

definition IssueTOTPEnroll :: "auth_env \<Rightarrow> instant \<Rightarrow> uuid \<Rightarrow> string \<Rightarrow> string option" where
  "IssueTOTPEnroll E now i s = ae_Sign E \<lparr>jc_UserID = ae_String E i, jc_Username = [], jc_Role = [], jc_Secret = s,
     jc_Type = ''totp_enroll'', jc_IssuedAt = ae_Date E now, jc_ExpiresAt = ae_Date E (now + TOTPEnrollTTL)\<rparr>"

definition ParseTOTPEnroll :: "auth_env \<Rightarrow> instant \<Rightarrow> string \<Rightarrow> (uuid \<times> string) option" where
  "ParseTOTPEnroll E now raw = (case ae_Read E now raw of
      None \<Rightarrow> None
    | Some c \<Rightarrow> if jc_Type c \<noteq> ''totp_enroll'' then None else map_option (\<lambda>i. (i, jc_Secret c)) (ae_ParseID E (jc_UserID c)))"

definition GenerateRefreshToken :: "random \<Rightarrow> string option" where
  "GenerateRefreshToken rnd = GenerateToken rnd refreshTokenLen"

section \<open>Requests and answers\<close>

datatype auth_query =
    QGetByUsername | QGetByID | QCreate | QList | QUpdateLastLogin | QDelete | QUpdateRole | QUpdatePassword
  | QSetTOTP | QClearTOTP | QCreateRefresh | QGetValid | QRevoke | QRevokeAll

text \<open>What a request meets: the clock, the queries that fail, a new bcrypt hash, random bytes, a new TOTP secret, a new
  identifier, and whether the limit of attempts lets it through.\<close>

record auth_call =
  ac_Now :: instant
  ac_Fails :: "auth_query \<Rightarrow> bool"
  ac_Hash :: "string option"
  ac_Random :: random
  ac_Secret :: "string option"
  ac_NewID :: uuid
  ac_Allowed :: bool

text \<open>What is shown of a user.\<close>

record user_item =
  ui_ID :: uuid
  ui_Username :: string
  ui_Role :: string
  ui_CreatedAt :: instant
  ui_LastLoginAt :: "instant option"

definition toUserListItem :: "account \<Rightarrow> user_item" where
  "toUserListItem u = \<lparr>ui_ID = us_ID u, ui_Username = us_Username u, ui_Role = us_Role u, ui_CreatedAt = us_CreatedAt u,
     ui_LastLoginAt = us_LastLoginAt u\<rparr>"

text \<open>The answers: an error with its status, a pending token, both tokens, an access token, nothing, users, the data of an
  enrolment and the TOTP status.\<close>

datatype auth_answer =
    ARefused int string | APending string | ATokens string string | AAccess string | ANoContent
  | AUsers "user_item list" | AUser user_item | AMe uuid string string | AEnroll string string | ATOTP bool

text \<open>The bodies are \<open>None\<close> when they do not bind.\<close>

datatype auth_route =
    RLogin "(string \<times> string) option"
  | RRefresh "string option"
  | RLogout "string option"
  | RVerifyTOTP "(string \<times> string) option"
  | RMe
  | RChangePassword "(string \<times> string) option"
  | RTOTPStatus
  | REnrollTOTP
  | RConfirmTOTP "(string \<times> string) option"
  | RDisableTOTP "string option"
  | RListUsers
  | RCreateUser "(string \<times> string \<times> string) option"
  | RUpdateUserRole string "string option"
  | RDeleteUser string

text \<open>What the JWT middleware puts in the context.\<close>

record auth_ctx =
  cx_UserID :: string
  cx_Username :: string
  cx_Role :: string

text \<open>A query that may fail.\<close>

definition ask :: "auth_call \<Rightarrow> auth_query \<Rightarrow> 'a option \<Rightarrow> 'a option" where
  "ask q k v = (if ac_Fails q k then None else v)"

text \<open>A change of which the error is ignored.\<close>

definition try_query :: "auth_call \<Rightarrow> auth_query \<Rightarrow> (auth_state \<Rightarrow> auth_state) \<Rightarrow> auth_state \<Rightarrow> auth_state" where
  "try_query q k f st = (if ac_Fails q k then st else f st)"

text \<open>\<open>List\<close>: by name.\<close>

definition ListUsers_rows :: "auth_state \<Rightarrow> account list" where
  "ListUsers_rows st = sort_key us_Username (as_Users st)"

section \<open>Signing in\<close>

definition issueFullTokens :: "auth_env \<Rightarrow> auth_call \<Rightarrow> account \<Rightarrow> auth_state \<Rightarrow> auth_answer \<times> auth_state" where
  "issueFullTokens E q u st = (case IssueAccess E (ac_Now q) (us_ID u) (us_Username u) (us_Role u) of
      None \<Rightarrow> (ARefused 500 ''could not issue token'', st)
    | Some access \<Rightarrow> (case GenerateRefreshToken (ac_Random q) of
        None \<Rightarrow> (ARefused 500 ''could not generate refresh token'', st)
      | Some raw \<Rightarrow> (case ask q QCreateRefresh (CreateRefresh (us_ID u) (HashToken (ae_SHA256 E) raw) (ac_Now q) (ac_Now q + RefreshTokenTTL) st) of
          None \<Rightarrow> (ARefused 500 ''could not store refresh token'', st)
        | Some st' \<Rightarrow> (ATokens access raw, try_query q QUpdateLastLogin (UpdateLastLogin (us_ID u) (ac_Now q)) st'))))"

definition Login :: "auth_env \<Rightarrow> auth_call \<Rightarrow> (string \<times> string) option \<Rightarrow> auth_state \<Rightarrow> auth_answer \<times> auth_state" where
  "Login E q body st = (case body of
      None \<Rightarrow> (ARefused 400 ''invalid request body'', st)
    | Some (name, pw) \<Rightarrow> (case ask q QGetByUsername (GetByUsername name st) of
        None \<Rightarrow> (ARefused 401 ''invalid credentials'', st)
      | Some u \<Rightarrow>
          if \<not> ae_Compare E (us_PasswordHash u) pw then (ARefused 401 ''invalid credentials'', st)
          else if us_TOTPEnabled u then (case IssueTOTPPending E (ac_Now q) (us_ID u) of
              None \<Rightarrow> (ARefused 500 ''could not issue totp token'', st)
            | Some t \<Rightarrow> (APending t, st))
          else issueFullTokens E q u st))"

definition Refresh :: "auth_env \<Rightarrow> auth_call \<Rightarrow> string option \<Rightarrow> auth_state \<Rightarrow> auth_answer \<times> auth_state" where
  "Refresh E q body st = (case body of
      None \<Rightarrow> (ARefused 400 ''invalid request body'', st)
    | Some raw \<Rightarrow> (case ask q QGetValid (GetValid (ac_Now q) (HashToken (ae_SHA256 E) raw) st) of
        None \<Rightarrow> (ARefused 401 ''invalid or expired refresh token'', st)
      | Some r \<Rightarrow> (case ask q QGetByID (GetUserByID (rf_UserID r) st) of
          None \<Rightarrow> (ARefused 401 ''user not found'', st)
        | Some u \<Rightarrow> (case IssueAccess E (ac_Now q) (us_ID u) (us_Username u) (us_Role u) of
            None \<Rightarrow> (ARefused 500 ''could not issue token'', st)
          | Some access \<Rightarrow> (AAccess access, st)))))"

definition Logout :: "auth_env \<Rightarrow> auth_call \<Rightarrow> string option \<Rightarrow> auth_state \<Rightarrow> auth_answer \<times> auth_state" where
  "Logout E q body st = (ANoContent, case body of
      None \<Rightarrow> st
    | Some raw \<Rightarrow> if raw = [] then st else try_query q QRevoke (Revoke (ac_Now q) (HashToken (ae_SHA256 E) raw)) st)"

definition code_spent :: "instant \<Rightarrow> uuid \<Rightarrow> string \<Rightarrow> auth_state \<Rightarrow> bool" where
  "code_spent now i code st = (case map_of (as_totpUsed st) i of
      None \<Rightarrow> False | Some l \<Rightarrow> ut_code l = code \<and> now < ut_until l)"

definition spend_code :: "instant \<Rightarrow> uuid \<Rightarrow> string \<Rightarrow> auth_state \<Rightarrow> auth_state" where
  "spend_code now i code st = st\<lparr>as_totpUsed := AList.update i \<lparr>ut_code = code, ut_until = now + totpValidity\<rparr> (as_totpUsed st)\<rparr>"

definition VerifyTOTP :: "auth_env \<Rightarrow> auth_call \<Rightarrow> (string \<times> string) option \<Rightarrow> auth_state \<Rightarrow> auth_answer \<times> auth_state" where
  "VerifyTOTP E q body st = (case body of
      None \<Rightarrow> (ARefused 400 ''totp_token and code are required'', st)
    | Some (tok, code) \<Rightarrow>
        if tok = [] \<or> code = [] then (ARefused 400 ''totp_token and code are required'', st)
        else (case ParseTOTPPending E (ac_Now q) tok of
          None \<Rightarrow> (ARefused 401 ''invalid or expired totp_token'', st)
        | Some i \<Rightarrow> (case ask q QGetByID (GetUserByID i st) of
            None \<Rightarrow> (ARefused 401 ''TOTP not configured for user'', st)
          | Some u \<Rightarrow>
              if \<not> us_TOTPEnabled u \<or> us_TOTPSecretEnc u = [] then (ARefused 401 ''TOTP not configured for user'', st)
              else (case Decrypt (ae_Unseal E) (ae_Key E) (us_TOTPSecretEnc u) of
                None \<Rightarrow> (ARefused 500 ''failed to read TOTP secret'', st)
              | Some secret \<Rightarrow>
                  if \<not> ae_TOTP E (ac_Now q) code secret then (ARefused 401 ''invalid TOTP code'', st)
                  else if code_spent (ac_Now q) i code st then (ARefused 401 ''TOTP code already used'', st)
                  else issueFullTokens E q u (spend_code (ac_Now q) i code st)))))"

section \<open>The account of the caller\<close>

definition Me :: "auth_env \<Rightarrow> auth_call \<Rightarrow> auth_ctx \<Rightarrow> auth_state \<Rightarrow> auth_answer" where
  "Me E q cx st = (case ae_ParseID E (cx_UserID cx) of
      None \<Rightarrow> ARefused 401 ''invalid user context''
    | Some i \<Rightarrow> (case ask q QGetByID (GetUserByID i st) of
        None \<Rightarrow> ARefused 404 ''user not found''
      | Some u \<Rightarrow> AMe (us_ID u) (us_Username u) (us_Role u)))"

definition validatePassword :: "string \<Rightarrow> bool" where
  "validatePassword pw = (8 \<le> length pw)"

definition ChangePassword :: "auth_env \<Rightarrow> auth_call \<Rightarrow> auth_ctx \<Rightarrow> (string \<times> string) option \<Rightarrow> auth_state \<Rightarrow> auth_answer \<times> auth_state" where
  "ChangePassword E q cx body st = (case ae_ParseID E (cx_UserID cx) of
      None \<Rightarrow> (ARefused 401 ''invalid user context'', st)
    | Some i \<Rightarrow> (case body of
        None \<Rightarrow> (ARefused 400 ''invalid request body'', st)
      | Some (old, new) \<Rightarrow>
          if \<not> validatePassword new then (ARefused 400 ''password must be at least 8 characters'', st)
          else (case ask q QGetByID (GetUserByID i st) of
            None \<Rightarrow> (ARefused 404 ''user not found'', st)
          | Some u \<Rightarrow>
              if \<not> ae_Compare E (us_PasswordHash u) old then (ARefused 401 ''current password is incorrect'', st)
              else (case ac_Hash q of
                None \<Rightarrow> (ARefused 500 ''failed to hash password'', st)
              | Some h \<Rightarrow>
                  if ac_Fails q QUpdatePassword then (ARefused 500 ''failed to update password'', st)
                  else (ANoContent, try_query q QRevokeAll (RevokeAllForUser (ac_Now q) i) (UpdatePassword i h st))))))"

definition callerID :: "auth_env \<Rightarrow> auth_ctx \<Rightarrow> uuid" where
  "callerID E cx = (case ae_ParseID E (cx_UserID cx) of None \<Rightarrow> Nil_uuid | Some i \<Rightarrow> i)"

definition TOTPStatus :: "auth_env \<Rightarrow> auth_call \<Rightarrow> auth_ctx \<Rightarrow> auth_state \<Rightarrow> auth_answer" where
  "TOTPStatus E q cx st = (case ask q QGetByID (GetUserByID (callerID E cx) st) of
      None \<Rightarrow> ARefused 404 ''user not found''
    | Some u \<Rightarrow> ATOTP (us_TOTPEnabled u))"

text \<open>The key's URL, which holds the same secret, is left out of the answer.\<close>

definition EnrollTOTP :: "auth_env \<Rightarrow> auth_call \<Rightarrow> auth_ctx \<Rightarrow> auth_state \<Rightarrow> auth_answer" where
  "EnrollTOTP E q cx st = (case ask q QGetByID (GetUserByID (callerID E cx) st) of
      None \<Rightarrow> ARefused 404 ''user not found''
    | Some u \<Rightarrow> (case ac_Secret q of
        None \<Rightarrow> ARefused 500 ''failed to generate TOTP secret''
      | Some s \<Rightarrow> (case IssueTOTPEnroll E (ac_Now q) (callerID E cx) s of
          None \<Rightarrow> ARefused 500 ''failed to issue enrollment token''
        | Some t \<Rightarrow> AEnroll s t)))"

definition ConfirmTOTP :: "auth_env \<Rightarrow> auth_call \<Rightarrow> auth_ctx \<Rightarrow> (string \<times> string) option \<Rightarrow> auth_state \<Rightarrow> auth_answer \<times> auth_state" where
  "ConfirmTOTP E q cx body st = (case body of
      None \<Rightarrow> (ARefused 400 ''enrollment_token and code are required'', st)
    | Some (tok, code) \<Rightarrow>
        if tok = [] \<or> code = [] then (ARefused 400 ''enrollment_token and code are required'', st)
        else (case ParseTOTPEnroll E (ac_Now q) tok of
          None \<Rightarrow> (ARefused 400 ''invalid or expired enrollment_token'', st)
        | Some (i, secret) \<Rightarrow>
            if i \<noteq> callerID E cx then (ARefused 403 ''enrollment token belongs to a different user'', st)
            else if \<not> ae_TOTP E (ac_Now q) code secret then (ARefused 401 ''invalid TOTP code'', st)
            else (case Encrypt (ae_Seal E) (ac_Random q) (ae_Key E) secret of
              None \<Rightarrow> (ARefused 500 ''failed to encrypt TOTP secret'', st)
            | Some s \<Rightarrow>
                if ac_Fails q QSetTOTP then (ARefused 500 ''failed to save TOTP secret'', st)
                else (ATOTP True, SetTOTP (callerID E cx) s st))))"

definition DisableTOTP :: "auth_env \<Rightarrow> auth_call \<Rightarrow> auth_ctx \<Rightarrow> string option \<Rightarrow> auth_state \<Rightarrow> auth_answer \<times> auth_state" where
  "DisableTOTP E q cx body st =
     (if body = None \<or> body = Some [] then (ARefused 400 ''password is required'', st)
      else (case ask q QGetByID (GetUserByID (callerID E cx) st) of
        None \<Rightarrow> (ARefused 404 ''user not found'', st)
      | Some u \<Rightarrow>
          if \<not> ae_Compare E (us_PasswordHash u) (the body) then (ARefused 401 ''incorrect password'', st)
          else if ac_Fails q QClearTOTP then (ARefused 500 ''failed to disable TOTP'', st)
          else (ATOTP False, ClearTOTP (callerID E cx) st)))"

section \<open>Managing users\<close>

definition ListUsers :: "auth_call \<Rightarrow> auth_state \<Rightarrow> auth_answer" where
  "ListUsers q st = (if ac_Fails q QList then ARefused 500 ''failed to list users'' else AUsers (map toUserListItem (ListUsers_rows st)))"

definition CreateUser :: "auth_call \<Rightarrow> (string \<times> string \<times> string) option \<Rightarrow> auth_state \<Rightarrow> auth_answer \<times> auth_state" where
  "CreateUser q body st = (case body of
      None \<Rightarrow> (ARefused 400 ''invalid request body'', st)
    | Some (name, pw, role) \<Rightarrow>
        if name = [] \<or> pw = [] then (ARefused 400 ''username and password are required'', st)
        else if \<not> validatePassword pw then (ARefused 400 ''password must be at least 8 characters'', st)
        else if role \<notin> set validRoles then (ARefused 400 ''role must be admin, operator, or viewer'', st)
        else (case ac_Hash q of
          None \<Rightarrow> (ARefused 500 ''failed to hash password'', st)
        | Some h \<Rightarrow> (case ask q QCreate (CreateAccount (ac_NewID q) (ac_Now q) name h role st) of
            None \<Rightarrow> (ARefused 409 ''username already exists'', st)
          | Some (u, st') \<Rightarrow> (AUser (toUserListItem u), st'))))"

definition UpdateUserRole :: "auth_env \<Rightarrow> auth_call \<Rightarrow> string \<Rightarrow> string option \<Rightarrow> auth_state \<Rightarrow> auth_answer \<times> auth_state" where
  "UpdateUserRole E q target body st = (case ae_ParseID E target of
      None \<Rightarrow> (ARefused 400 ''invalid user id'', st)
    | Some i \<Rightarrow> (case body of
        None \<Rightarrow> (ARefused 400 ''invalid request body'', st)
      | Some role \<Rightarrow>
          if role \<notin> set validRoles then (ARefused 400 ''role must be admin, operator, or viewer'', st)
          else if ac_Fails q QUpdateRole then (ARefused 500 ''failed to update role'', st)
          else (ANoContent, UpdateRole i role st)))"

definition DeleteUser :: "auth_env \<Rightarrow> auth_call \<Rightarrow> auth_ctx \<Rightarrow> string \<Rightarrow> auth_state \<Rightarrow> auth_answer \<times> auth_state" where
  "DeleteUser E q cx target st = (case ae_ParseID E target of
      None \<Rightarrow> (ARefused 400 ''invalid user id'', st)
    | Some i \<Rightarrow>
        if cx_UserID cx = ae_String E i then (ARefused 400 ''cannot delete your own account'', st)
        else if ac_Fails q QDelete then (ARefused 500 ''failed to delete user'', st)
        else (ANoContent, DeleteAccount i st))"

section \<open>Routes\<close>

definition bearer_token :: "string \<Rightarrow> string option" where
  "bearer_token header = (if has_prefix ''Bearer '' header then Some (drop 7 header) else None)"

definition JWT :: "auth_env \<Rightarrow> instant \<Rightarrow> string \<Rightarrow> (int \<times> string) + auth_ctx" where
  "JWT E now header = (case bearer_token header of
      None \<Rightarrow> Inl (401, ''missing bearer token'')
    | Some raw \<Rightarrow> (case ParseAccess E now raw of
        None \<Rightarrow> Inl (401, ''invalid token'')
      | Some c \<Rightarrow> Inr \<lparr>cx_UserID = jc_UserID c, cx_Username = jc_Username c, cx_Role = jc_Role c\<rparr>))"

fun role_rank :: "string \<Rightarrow> int" where
  "role_rank r = (if r = ''viewer'' then 1 else if r = ''operator'' then 2 else if r = ''admin'' then 3 else 0)"

definition roleAtLeast :: "string \<Rightarrow> string \<Rightarrow> bool" where
  "roleAtLeast have' need = (role_rank need \<le> role_rank have')"

definition RequireRole :: "string \<Rightarrow> auth_ctx \<Rightarrow> (int \<times> string) option" where
  "RequireRole minRole cx = (if roleAtLeast (cx_Role cx) minRole then None else Some (403, ''insufficient permissions''))"

text \<open>
  A handler behind the limit of login attempts, behind the JWT, and behind a role.  Whether the limit lets the request through
  (\<open>RateLimit\<close>) is given with the call, since other requests run between its steps.
\<close>

definition limited :: "auth_call \<Rightarrow> (auth_state \<Rightarrow> auth_answer \<times> auth_state) \<Rightarrow> auth_state \<Rightarrow> auth_answer \<times> auth_state" where
  "limited q h st = (if ac_Allowed q then h st else (ARefused 429 ''too many login attempts'', st))"

definition protected :: "auth_env \<Rightarrow> auth_call \<Rightarrow> string \<Rightarrow> (auth_ctx \<Rightarrow> auth_state \<Rightarrow> auth_answer \<times> auth_state) \<Rightarrow> auth_state
    \<Rightarrow> auth_answer \<times> auth_state" where
  "protected E q header h st = (case JWT E (ac_Now q) header of Inl (code, m) \<Rightarrow> (ARefused code m, st) | Inr cx \<Rightarrow> h cx st)"

definition needs_role :: "string \<Rightarrow> (auth_ctx \<Rightarrow> auth_state \<Rightarrow> auth_answer \<times> auth_state) \<Rightarrow> auth_ctx \<Rightarrow> auth_state
    \<Rightarrow> auth_answer \<times> auth_state" where
  "needs_role minRole h cx st = (case RequireRole minRole cx of Some (code, m) \<Rightarrow> (ARefused code m, st) | None \<Rightarrow> h cx st)"

text \<open>The routes of \<open>router.go\<close>: the \<open>Authorization\<close> header, and the route with its body.\<close>

definition serve :: "auth_env \<Rightarrow> auth_call \<Rightarrow> string \<Rightarrow> auth_route \<Rightarrow> auth_state \<Rightarrow> auth_answer \<times> auth_state" where
  "serve E q header route = (case route of
      RLogin b \<Rightarrow> limited q (Login E q b)
    | RRefresh b \<Rightarrow> Refresh E q b
    | RLogout b \<Rightarrow> Logout E q b
    | RVerifyTOTP b \<Rightarrow> limited q (VerifyTOTP E q b)
    | RMe \<Rightarrow> protected E q header (\<lambda>cx st. (Me E q cx st, st))
    | RChangePassword b \<Rightarrow> protected E q header (\<lambda>cx. ChangePassword E q cx b)
    | RTOTPStatus \<Rightarrow> protected E q header (\<lambda>cx st. (TOTPStatus E q cx st, st))
    | REnrollTOTP \<Rightarrow> protected E q header (\<lambda>cx st. (EnrollTOTP E q cx st, st))
    | RConfirmTOTP b \<Rightarrow> protected E q header (\<lambda>cx. ConfirmTOTP E q cx b)
    | RDisableTOTP b \<Rightarrow> protected E q header (\<lambda>cx. DisableTOTP E q cx b)
    | RListUsers \<Rightarrow> protected E q header (needs_role ''admin'' (\<lambda>cx st. (ListUsers q st, st)))
    | RCreateUser b \<Rightarrow> protected E q header (needs_role ''admin'' (\<lambda>cx. CreateUser q b))
    | RUpdateUserRole t b \<Rightarrow> protected E q header (needs_role ''admin'' (\<lambda>cx. UpdateUserRole E q t b))
    | RDeleteUser t \<Rightarrow> protected E q header (needs_role ''admin'' (\<lambda>cx. DeleteUser E q cx t)))"

end
