(* ===== verification/AuthProps.thy ===== *)
theory AuthProps
  imports Auth
begin

text \<open>
  What signing in guarantees over a history of requests: tokens come after the password and the TOTP code, a refresh token
  works for one session only and until it ends, and users are managed with a token of an admin.
\<close>

section \<open>Histories\<close>

text \<open>A request as the server answered it, with the state it found.\<close>

record auth_event =
  ax_Call :: auth_call
  ax_Header :: string
  ax_Route :: auth_route
  ax_Before :: auth_state
  ax_Answer :: auth_answer

abbreviation ax_Now :: "auth_event \<Rightarrow> instant" where
  "ax_Now e \<equiv> ac_Now (ax_Call e)"

text \<open>The signed tokens an answer gives out, and those a request shows.\<close>

fun given :: "auth_answer \<Rightarrow> string list" where
  "given (APending t) = [t]"
| "given (ATokens a r) = [a]"
| "given (AAccess a) = [a]"
| "given (AEnroll s t) = [t]"
| "given _ = []"

definition shown :: "string \<Rightarrow> auth_route \<Rightarrow> string list" where
  "shown header route = (case bearer_token header of None \<Rightarrow> [] | Some t \<Rightarrow> [t])
     @ (case route of RVerifyTOTP (Some (t, c)) \<Rightarrow> [t] | RConfirmTOTP (Some (t, c)) \<Rightarrow> [t] | _ \<Rightarrow> [])"

text \<open>
  Nobody but the server can sign: a token that reads was given out before.  Time does not run backwards.
\<close>

definition unforged :: "auth_env \<Rightarrow> instant \<Rightarrow> string list \<Rightarrow> auth_event list \<Rightarrow> bool" where
  "unforged E now ts tr = list_all (\<lambda>t. ae_Read E now t = None \<or> list_ex (\<lambda>e. t \<in> set (given (ax_Answer e))) tr) ts"

inductive auth_history :: "auth_env \<Rightarrow> auth_event list \<Rightarrow> auth_state \<Rightarrow> bool" for E where
  start: "as_Refresh st = [] \<Longrightarrow> auth_history E [] st"
| request: "auth_history E tr st \<Longrightarrow> list_all (\<lambda>e. ax_Now e \<le> ac_Now q) tr \<Longrightarrow> unforged E (ac_Now q) (shown header route) tr
    \<Longrightarrow> serve E q header route st = (a, st')
    \<Longrightarrow> auth_history E (tr @ [\<lparr>ax_Call = q, ax_Header = header, ax_Route = route, ax_Before = st, ax_Answer = a\<rparr>]) st'"

text \<open>What the code relies on: a signed token reads as the claims signed, until they expire; dates are not rounded up;
  identifiers are read back from their text.\<close>

definition jwt_laws :: "auth_env \<Rightarrow> bool" where
  "jwt_laws E \<longleftrightarrow> (\<forall>c raw now c'. ae_Sign E c = Some raw \<longrightarrow> ae_Read E now raw = Some c' \<longrightarrow> c' = c \<and> now < jc_ExpiresAt c)
     \<and> (\<forall>t. ae_Date E t \<le> t) \<and> (\<forall>i. ae_ParseID E (ae_String E i) = Some i)"

lemma jwt_lawsD:
  assumes "jwt_laws E"
  shows "ae_Sign E c = Some raw \<Longrightarrow> ae_Read E now raw = Some c' \<Longrightarrow> c' = c \<and> now < jc_ExpiresAt c"
    and "ae_Date E t \<le> t" and "ae_ParseID E (ae_String E i) = Some i"
  using assms unfolding jwt_laws_def by blast+

lemma history_events:
  assumes "auth_history E tr st" "tr = tr1 @ e # tr2"
  shows "unforged E (ax_Now e) (shown (ax_Header e) (ax_Route e)) tr1
    \<and> (\<exists>st'. serve E (ax_Call e) (ax_Header e) (ax_Route e) (ax_Before e) = (ax_Answer e, st'))
    \<and> list_all (\<lambda>x. ax_Now x \<le> ax_Now e) tr1"
  using assms
proof (induction arbitrary: tr2 rule: auth_history.induct)
  case (request tr st q header route a st')
  let ?ev = "\<lparr>ax_Call = q, ax_Header = header, ax_Route = route, ax_Before = st, ax_Answer = a\<rparr>"
  show ?case
  proof (cases tr2 rule: rev_cases)
    case Nil
    with request.prems have "tr = tr1" "e = ?ev" by auto
    then show ?thesis using request.hyps by auto
  next
    case (snoc ys y)
    with request.prems have "tr = tr1 @ e # ys" by (metis append_Cons append_assoc append_same_eq butlast_snoc)
    then show ?thesis by (rule request.IH)
  qed
qed auto

section \<open>What an answer means\<close>

text \<open>The password of the user \<open>u\<close> was right.\<close>

definition password_right :: "auth_env \<Rightarrow> auth_event \<Rightarrow> account \<Rightarrow> bool" where
  "password_right E e u = (case ax_Route e of
      RLogin (Some (n, pw)) \<Rightarrow> u \<in> set (as_Users (ax_Before e)) \<and> us_Username u = n \<and> ae_Compare E (us_PasswordHash u) pw
    | _ \<Rightarrow> False)"

text \<open>The code of the user \<open>u\<close> was right and was not the last one used.\<close>

definition code_right :: "auth_env \<Rightarrow> auth_event \<Rightarrow> account \<Rightarrow> bool" where
  "code_right E e u = (case ax_Route e of
      RVerifyTOTP (Some (t, code)) \<Rightarrow> u \<in> set (as_Users (ax_Before e)) \<and> us_TOTPEnabled u
        \<and> \<not> code_spent (ax_Now e) (us_ID u) code (ax_Before e)
        \<and> (case Decrypt (ae_Unseal E) (ae_Key E) (us_TOTPSecretEnc u) of None \<Rightarrow> False | Some s \<Rightarrow> ae_TOTP E (ax_Now e) code s)
    | _ \<Rightarrow> False)"

definition access_claims :: "auth_env \<Rightarrow> instant \<Rightarrow> account \<Rightarrow> claims" where
  "access_claims E now u = \<lparr>jc_UserID = ae_String E (us_ID u), jc_Username = us_Username u, jc_Role = us_Role u, jc_Secret = [],
     jc_Type = ''access'', jc_IssuedAt = ae_Date E now, jc_ExpiresAt = ae_Date E (now + AccessTokenTTL)\<rparr>"

lemma issueFullTokens_answer:
  assumes "issueFullTokens E q u st = (a, st')"
  shows "(\<exists>c m. a = ARefused c m) \<or> (\<exists>access raw. a = ATokens access raw \<and> ae_Sign E (access_claims E (ac_Now q) u) = Some access)"
  using assms by (auto simp: issueFullTokens_def IssueAccess_def access_claims_def split: option.splits)

lemma ask_SomeD: "ask q k v = Some x \<Longrightarrow> v = Some x"
  by (simp add: ask_def split: if_splits)

lemmas auth_lookups = GetByUsername_def GetUserByID_def GetValid_def

lemma spend_code_simps [simp]:
  "as_Users (spend_code now i code st) = as_Users st" "as_Refresh (spend_code now i code st) = as_Refresh st"
  by (simp_all add: spend_code_def)

lemma Login_answer:
  assumes "Login E q body st = (a, st')"
  obtains (refused) c m where "a = ARefused c m" "st' = st"
  | (pending) n pw u t where "body = Some (n, pw)" "u \<in> set (as_Users st)" "us_Username u = n" "ae_Compare E (us_PasswordHash u) pw"
      "us_TOTPEnabled u" "a = APending t" "IssueTOTPPending E (ac_Now q) (us_ID u) = Some t" "st' = st"
  | (full) n pw u where "body = Some (n, pw)" "u \<in> set (as_Users st)" "us_Username u = n" "ae_Compare E (us_PasswordHash u) pw"
      "\<not> us_TOTPEnabled u" "issueFullTokens E q u st = (a, st')"
proof (cases "\<exists>c m. a = ARefused c m \<and> st' = st")
  case True
  then show ?thesis using refused by blast
next
  case no: False
  from no assms obtain n pw where b: "body = Some (n, pw)" by (cases body) (auto simp: Login_def)
  from no assms b obtain u where u: "ask q QGetByUsername (GetByUsername n st) = Some u"
    by (cases "ask q QGetByUsername (GetByUsername n st)") (auto simp: Login_def)
  from no assms b u have pw: "ae_Compare E (us_PasswordHash u) pw" by (auto simp: Login_def split: if_splits)
  from find_Some_in [OF ask_SomeD [OF u, unfolded GetByUsername_def]] have f: "u \<in> set (as_Users st)" "us_Username u = n" by auto
  show ?thesis
  proof (cases "us_TOTPEnabled u")
    case False
    with assms b u pw show ?thesis by (intro full [OF b f pw]) (simp_all add: Login_def)
  next
    case t: True
    from no assms b u pw t obtain x where x: "IssueTOTPPending E (ac_Now q) (us_ID u) = Some x"
      by (cases "IssueTOTPPending E (ac_Now q) (us_ID u)") (auto simp: Login_def)
    with assms b u pw t show ?thesis by (intro pending [OF b f pw t _ x]) (simp_all add: Login_def)
  qed
qed

lemma VerifyTOTP_answer:
  assumes "VerifyTOTP E q body st = (a, st')"
  obtains (refused) c m where "a = ARefused c m" "st' = st"
  | (full) tok code u s where "body = Some (tok, code)" "ParseTOTPPending E (ac_Now q) tok = Some (us_ID u)" "u \<in> set (as_Users st)"
      "us_TOTPEnabled u" "Decrypt (ae_Unseal E) (ae_Key E) (us_TOTPSecretEnc u) = Some s" "ae_TOTP E (ac_Now q) code s"
      "\<not> code_spent (ac_Now q) (us_ID u) code st" "issueFullTokens E q u (spend_code (ac_Now q) (us_ID u) code st) = (a, st')"
proof (cases "\<exists>c m. a = ARefused c m \<and> st' = st")
  case True
  then show ?thesis using refused by blast
next
  case no: False
  from no assms obtain tok code where b: "body = Some (tok, code)" "tok \<noteq> []" "code \<noteq> []"
    by (cases body) (auto simp: VerifyTOTP_def split: if_splits)
  from no assms b obtain i where i: "ParseTOTPPending E (ac_Now q) tok = Some i"
    by (cases "ParseTOTPPending E (ac_Now q) tok") (auto simp: VerifyTOTP_def)
  from no assms b i obtain u where u: "ask q QGetByID (GetUserByID i st) = Some u"
    by (cases "ask q QGetByID (GetUserByID i st)") (auto simp: VerifyTOTP_def)
  from find_Some_in [OF ask_SomeD [OF u, unfolded GetUserByID_def]] have f: "u \<in> set (as_Users st)" "us_ID u = i" by auto
  from no assms b i u have t: "us_TOTPEnabled u" "us_TOTPSecretEnc u \<noteq> []" by (auto simp: VerifyTOTP_def split: if_splits)
  from no assms b i u t obtain s where s: "Decrypt (ae_Unseal E) (ae_Key E) (us_TOTPSecretEnc u) = Some s"
    by (cases "Decrypt (ae_Unseal E) (ae_Key E) (us_TOTPSecretEnc u)") (auto simp: VerifyTOTP_def)
  from no assms b i u t s have v: "ae_TOTP E (ac_Now q) code s" "\<not> code_spent (ac_Now q) i code st"
    by (auto simp: VerifyTOTP_def split: if_splits)
  from assms b i u t s v have "issueFullTokens E q u (spend_code (ac_Now q) i code st) = (a, st')" by (simp add: VerifyTOTP_def)
  with full [OF b(1) _ f(1) t(1) s] i f(2) v show ?thesis by simp
qed

text \<open>What a signed token given out says: an access token names a user found by the request, with the role it had.\<close>

lemma protected_answer:
  assumes "protected E q header h st = (a, st')"
  obtains c m where "a = ARefused c m" "st' = st"
  | raw c where "bearer_token header = Some raw" "ParseAccess E (ac_Now q) raw = Some c"
      "h \<lparr>cx_UserID = jc_UserID c, cx_Username = jc_Username c, cx_Role = jc_Role c\<rparr> st = (a, st')"
  using assms by (auto simp: protected_def JWT_def split: option.splits sum.splits)

lemma limited_answer:
  assumes "limited q h st = (a, st')"
  obtains m where "a = ARefused 429 m" "st' = st"
  | "h st = (a, st')"
  using assms by (auto simp: limited_def split: if_splits)

lemma no_tokens:
  "given (Me E q cx st) = []" "given (fst (ChangePassword E q cx b st)) = []" "given (TOTPStatus E q cx st) = []"
  "given (fst (ConfirmTOTP E q cx b2 st)) = []" "given (fst (DisableTOTP E q cx b3 st)) = []" "given (ListUsers q st) = []"
  "given (fst (CreateUser q b4 st)) = []" "given (fst (UpdateUserRole E q t b3 st)) = []" "given (fst (DeleteUser E q cx t st)) = []"
  "given (fst (Logout E q b3 st)) = []"
  by (simp_all add: Me_def ChangePassword_def TOTPStatus_def ConfirmTOTP_def DisableTOTP_def ListUsers_def CreateUser_def
      UpdateUserRole_def DeleteUser_def Logout_def split: option.splits prod.splits)

lemma protected_no_tokens:
  assumes "protected E q header h st = (a, st')" "\<And>cx. given (fst (h cx st)) = []"
  shows "given a = []"
proof (rule protected_answer [OF assms(1)])
  fix raw c assume "h \<lparr>cx_UserID = jc_UserID c, cx_Username = jc_Username c, cx_Role = jc_Role c\<rparr> st = (a, st')"
  with assms(2) [of "\<lparr>cx_UserID = jc_UserID c, cx_Username = jc_Username c, cx_Role = jc_Role c\<rparr>"] show ?thesis by simp
qed simp

lemma role_no_tokens: "(\<And>cx. given (fst (h cx st)) = []) \<Longrightarrow> given (fst (needs_role r h cx st)) = []"
  by (simp add: needs_role_def split: option.splits)

definition token_meaning :: "auth_env \<Rightarrow> auth_event \<Rightarrow> string \<Rightarrow> bool" where
  "token_meaning E e t \<longleftrightarrow>
     (\<exists>u \<in> set (as_Users (ax_Before e)). ae_Sign E (access_claims E (ax_Now e) u) = Some t)
     \<or> (\<exists>u. password_right E e u \<and> us_TOTPEnabled u \<and> IssueTOTPPending E (ax_Now e) (us_ID u) = Some t)
     \<or> (\<exists>i s. IssueTOTPEnroll E (ax_Now e) i s = Some t)"

lemma full_tokens_meaning:
  assumes "issueFullTokens E (ax_Call e) u st = (a, st')" "u \<in> set (as_Users (ax_Before e))" "t \<in> set (given a)"
  shows "token_meaning E e t"
  using issueFullTokens_answer [OF assms(1)] assms(2,3) by (auto simp: token_meaning_def)

lemma Refresh_answer:
  assumes "Refresh E q body st = (a, st')"
  obtains c m where "a = ARefused c m" "st' = st"
  | raw r u access where "body = Some raw" "GetValid (ac_Now q) (HashToken (ae_SHA256 E) raw) st = Some r" "GetUserByID (rf_UserID r) st = Some u"
      "a = AAccess access" "ae_Sign E (access_claims E (ac_Now q) u) = Some access" "st' = st"
proof (cases "\<exists>c m. a = ARefused c m \<and> st' = st")
  case no: False
  from no assms obtain raw where b: "body = Some raw" by (cases body) (auto simp: Refresh_def)
  let ?r = "ask q QGetValid (GetValid (ac_Now q) (HashToken (ae_SHA256 E) raw) st)"
  from no assms b obtain r where r: "?r = Some r" by (cases ?r) (auto simp: Refresh_def)
  from no assms b r obtain u where u: "ask q QGetByID (GetUserByID (rf_UserID r) st) = Some u"
    by (cases "ask q QGetByID (GetUserByID (rf_UserID r) st)") (auto simp: Refresh_def)
  from no assms b r u obtain t where t: "IssueAccess E (ac_Now q) (us_ID u) (us_Username u) (us_Role u) = Some t"
    by (cases "IssueAccess E (ac_Now q) (us_ID u) (us_Username u) (us_Role u)") (auto simp: Refresh_def)
  from assms b r u t have "a = AAccess t" "st' = st" by (auto simp: Refresh_def)
  with that(2) [OF b ask_SomeD [OF r] ask_SomeD [OF u]] t show ?thesis by (simp add: IssueAccess_def access_claims_def)
qed (use that(1) in blast)

lemma Enroll_given: "t \<in> set (given (EnrollTOTP E q cx st)) \<Longrightarrow> \<exists>i s. IssueTOTPEnroll E (ac_Now q) i s = Some t"
  by (auto simp: EnrollTOTP_def split: option.splits)

lemma given_meaning:
  assumes "serve E (ax_Call e) (ax_Header e) (ax_Route e) (ax_Before e) = (ax_Answer e, st')" "t \<in> set (given (ax_Answer e))"
  shows "token_meaning E e t"
proof (cases "ax_Route e")
  case (RLogin b)
  with assms(1) have "limited (ax_Call e) (Login E (ax_Call e) b) (ax_Before e) = (ax_Answer e, st')"
    by (simp add: serve_def)
  then show ?thesis
  proof (rule limited_answer)
    assume "Login E (ax_Call e) b (ax_Before e) = (ax_Answer e, st')"
    then show ?thesis
    proof (cases rule: Login_answer)
      case (pending n pw u t')
      with assms(2) RLogin show ?thesis by (auto simp: token_meaning_def password_right_def)
    next
      case (full n pw u)
      show ?thesis by (rule full_tokens_meaning [OF full(6)]) (use full(2) assms(2) in simp_all)
    qed (use assms(2) in simp)
  qed (use assms(2) in simp)
next
  case (RVerifyTOTP b)
  with assms(1) have "limited (ax_Call e) (VerifyTOTP E (ax_Call e) b) (ax_Before e) = (ax_Answer e, st')"
    by (simp add: serve_def)
  then show ?thesis
  proof (rule limited_answer)
    assume "VerifyTOTP E (ax_Call e) b (ax_Before e) = (ax_Answer e, st')"
    then show ?thesis
    proof (cases rule: VerifyTOTP_answer)
      case (full tok code u s)
      show ?thesis by (rule full_tokens_meaning [OF full(8)]) (use full(3) assms(2) in simp_all)
    qed (use assms(2) in simp)
  qed (use assms(2) in simp)
next
  case (RRefresh b)
  with assms(1) have "Refresh E (ax_Call e) b (ax_Before e) = (ax_Answer e, st')" by (simp add: serve_def)
  then show ?thesis
    by (cases rule: Refresh_answer) (use assms(2) in \<open>auto simp: token_meaning_def GetUserByID_def dest!: find_Some_in\<close>)
next
  case (RLogout b)
  with assms no_tokens(10) [of E "ax_Call e" b "ax_Before e"] show ?thesis by (simp add: serve_def)
next
  case REnrollTOTP
  with assms(1) have "protected E (ax_Call e) (ax_Header e) (\<lambda>cx st. (EnrollTOTP E (ax_Call e) cx st, st)) (ax_Before e) = (ax_Answer e, st')"
    by (simp add: serve_def)
  then show ?thesis
  proof (rule protected_answer)
    fix c
    let ?cx = "\<lparr>cx_UserID = jc_UserID c, cx_Username = jc_Username c, cx_Role = jc_Role c\<rparr>"
    assume "(EnrollTOTP E (ax_Call e) ?cx (ax_Before e), ax_Before e) = (ax_Answer e, st')"
    then have "EnrollTOTP E (ax_Call e) ?cx (ax_Before e) = ax_Answer e" by blast
    then have "t \<in> set (given (EnrollTOTP E (ax_Call e) ?cx (ax_Before e)))" using assms(2) by (simp only:)
    then have "\<exists>i s. IssueTOTPEnroll E (ax_Now e) i s = Some t" by (rule Enroll_given)
    then show ?thesis unfolding token_meaning_def by blast
  qed (use assms(2) in simp)
qed (use assms in \<open>auto simp: serve_def no_tokens role_no_tokens dest!: protected_no_tokens\<close>)

section \<open>Tokens shown\<close>

text \<open>A token that reads was given out, and says what was signed then.\<close>

lemma shown_origin:
  assumes "unforged E now ts tr" "t \<in> set ts" "ae_Read E now t = Some c"
  obtains e where "e \<in> set tr" "t \<in> set (given (ax_Answer e))"
  using assms unfolding unforged_def list_all_iff list_ex_iff by auto

lemma read_meaning:
  assumes "jwt_laws E" "token_meaning E e t" "ae_Read E now t = Some c"
  obtains (access) u where "u \<in> set (as_Users (ax_Before e))" "c = access_claims E (ax_Now e) u"
      "now < ax_Now e + AccessTokenTTL"
  | (pending) u where "password_right E e u" "us_TOTPEnabled u" "jc_Type c = ''totp_pending''" "jc_UserID c = ae_String E (us_ID u)"
      "now < ax_Now e + TOTPPendingTTL"
  | (enroll) "jc_Type c = ''totp_enroll''"
proof -
  note read = jwt_lawsD(1) [OF assms(1) _ assms(3)]
  have date: "now < ae_Date E t \<Longrightarrow> now < t" for t using jwt_lawsD(2) [OF assms(1), of t] by simp
  from assms(2) consider (a) u where "u \<in> set (as_Users (ax_Before e))" "ae_Sign E (access_claims E (ax_Now e) u) = Some t"
    | (p) u where "password_right E e u" "us_TOTPEnabled u" "IssueTOTPPending E (ax_Now e) (us_ID u) = Some t"
    | (n) i s where "IssueTOTPEnroll E (ax_Now e) i s = Some t"
    unfolding token_meaning_def by blast
  then show ?thesis
  proof cases
    case a
    from read [OF a(2)] date show ?thesis by (intro access [OF a(1)]) (auto simp: access_claims_def)
  next
    case p
    from read [OF p(3) [unfolded IssueTOTPPending_def]] date show ?thesis by (intro pending [OF p(1,2)]) auto
  next
    case n
    from read [OF n [unfolded IssueTOTPEnroll_def]] show ?thesis by (intro enroll) auto
  qed
qed

lemma no_full:
  assumes "serve E q header route st = (ATokens access raw, st')"
  obtains b where "route = RLogin b" | b where "route = RVerifyTOTP b"
proof (cases route)
  case (RRefresh b)
  with assms have "Refresh E q b st = (ATokens access raw, st')" by (simp add: serve_def)
  then show ?thesis by (cases rule: Refresh_answer) simp_all
next
  case (RLogout b)
  with assms show ?thesis by (simp add: serve_def Logout_def)
next
  case REnrollTOTP
  with assms have "protected E q header (\<lambda>cx st. (EnrollTOTP E q cx st, st)) st = (ATokens access raw, st')" by (simp add: serve_def)
  then show ?thesis by (rule protected_answer) (auto simp: EnrollTOTP_def split: option.splits)
qed (use assms that in \<open>auto simp: serve_def no_tokens role_no_tokens dest!: protected_no_tokens\<close>)

section \<open>Signing in takes the password and the code\<close>

lemma serve_verify:
  assumes "serve E q header (RVerifyTOTP b) st = (ATokens access raw, st')"
  obtains tok code u s where "b = Some (tok, code)" "ParseTOTPPending E (ac_Now q) tok = Some (us_ID u)" "u \<in> set (as_Users st)"
      "us_TOTPEnabled u" "Decrypt (ae_Unseal E) (ae_Key E) (us_TOTPSecretEnc u) = Some s" "ae_TOTP E (ac_Now q) code s"
      "\<not> code_spent (ac_Now q) (us_ID u) code st" "ae_Sign E (access_claims E (ac_Now q) u) = Some access"
proof -
  from assms have "limited q (VerifyTOTP E q b) st = (ATokens access raw, st')" by (simp add: serve_def)
  then show ?thesis
  proof (rule limited_answer)
    assume "VerifyTOTP E q b st = (ATokens access raw, st')"
    then show ?thesis
    proof (cases rule: VerifyTOTP_answer)
      case (full tok code u s)
      from issueFullTokens_answer [OF full(8)] have "ae_Sign E (access_claims E (ac_Now q) u) = Some access" by auto
      with that [OF full(1,2) _ full(4-6)] full(3,7) show ?thesis by (simp add: code_spent_def)
    qed simp
  qed simp
qed

lemma pending_origin:
  assumes "jwt_laws E" "auth_history E tr st" "tr = tr1 @ e # tr2" "tok \<in> set (shown (ax_Header e) (ax_Route e))"
    and "ParseTOTPPending E (ax_Now e) tok = Some i"
  obtains e' v where "e' \<in> set tr1" "password_right E e' v" "us_ID v = i" "us_TOTPEnabled v" "ax_Now e < ax_Now e' + TOTPPendingTTL"
proof -
  from assms(5) obtain c where c: "ae_Read E (ax_Now e) tok = Some c" "jc_Type c = ''totp_pending''" "ae_ParseID E (jc_UserID c) = Some i"
    by (auto simp: ParseTOTPPending_def split: option.splits if_splits)
  from history_events [OF assms(2,3)] have "unforged E (ax_Now e) (shown (ax_Header e) (ax_Route e)) tr1" by blast
  then obtain e' where e': "e' \<in> set tr1" "tok \<in> set (given (ax_Answer e'))" using assms(4) c(1) by (rule shown_origin)
  from e'(1) obtain p s where "tr1 = p @ e' # s" by (meson split_list)
  then have "tr = p @ e' # (s @ e # tr2)" using assms(3) by simp
  from history_events [OF assms(2) this] have "token_meaning E e' tok" using e'(2) given_meaning by blast
  from assms(1) this c(1) show ?thesis
  proof (cases rule: read_meaning)
    case (pending u)
    with c(3) jwt_lawsD(3) [OF assms(1), of "us_ID u"] show ?thesis by (intro that [OF e'(1) pending(1) _ pending(2,5)]) simp
  qed (use c(2) in \<open>auto simp: access_claims_def\<close>)
qed


section \<open>A history for examples\<close>

definition user_example :: account where
  "user_example = \<lparr>us_ID = 1, us_Username = ''alice'', us_PasswordHash = ''secret42'', us_Role = ''admin'',
     us_TOTPSecretEnc = replicate 12 CHR ''n'' @ ''123456'', us_TOTPEnabled = True, us_CreatedAt = 0, us_LastLoginAt = None\<rparr>"

definition pending_example :: claims where
  "pending_example = \<lparr>jc_UserID = ''i'', jc_Username = [], jc_Role = [], jc_Secret = [], jc_Type = ''totp_pending'',
     jc_IssuedAt = 0, jc_ExpiresAt = TOTPPendingTTL\<rparr>"

definition access_example :: claims where
  "access_example = \<lparr>jc_UserID = ''i'', jc_Username = ''alice'', jc_Role = ''admin'', jc_Secret = [], jc_Type = ''access'',
     jc_IssuedAt = 60, jc_ExpiresAt = 60 + AccessTokenTTL\<rparr>"

definition auth_example :: auth_env where
  "auth_example = \<lparr>ae_Date = (\<lambda>t. t - t mod 60),
     ae_Sign = (\<lambda>c. if c = pending_example then Some ''p'' else if c = access_example then Some ''a'' else None),
     ae_Read = (\<lambda>now t. if t = ''p'' \<and> now < TOTPPendingTTL then Some pending_example
                        else if t = ''a'' \<and> now < 60 + AccessTokenTTL then Some access_example else None),
     ae_Compare = (=), ae_TOTP = (\<lambda>now code s. code = s), ae_SHA256 = (\<lambda>s. s), ae_Seal = mark_seal, ae_Unseal = (\<lambda>k n c. Some c), ae_Key = [],
     ae_String = (\<lambda>i. replicate (unat i) CHR ''i''), ae_ParseID = (\<lambda>s. Some (of_nat (length s)))\<rparr>"

definition call_example :: "instant \<Rightarrow> auth_call" where
  "call_example now = \<lparr>ac_Now = now, ac_Fails = (\<lambda>_. False), ac_Hash = None, ac_Random = zeros, ac_Secret = None, ac_NewID = 2, ac_Allowed = True\<rparr>"

definition auth_step_example :: "instant \<Rightarrow> auth_route \<Rightarrow> auth_state \<Rightarrow> auth_event \<times> auth_state" where
  "auth_step_example now route st = (case serve auth_example (call_example now) [] route st of (a, st') \<Rightarrow>
     (\<lparr>ax_Call = call_example now, ax_Header = [], ax_Route = route, ax_Before = st, ax_Answer = a\<rparr>, st'))"

definition auth_start_example :: auth_state where
  "auth_start_example = \<lparr>as_Users = [user_example], as_Refresh = [], as_totpUsed = []\<rparr>"

definition login_example :: "auth_event \<times> auth_state" where
  "login_example = auth_step_example 0 (RLogin (Some (''alice'', ''secret42''))) auth_start_example"

definition verify_example :: "auth_event \<times> auth_state" where
  "verify_example = auth_step_example 60 (RVerifyTOTP (Some (''p'', ''123456''))) (snd login_example)"

lemma example_laws: "jwt_laws auth_example"
  by (simp add: jwt_laws_def auth_example_def pending_example_def access_example_def)

lemma example_login: "ax_Answer (fst login_example) = APending ''p''"
  by (simp add: login_example_def auth_step_example_def auth_start_example_def serve_def limited_def
      Login_def GetByUsername_def ask_def user_example_def call_example_def IssueTOTPPending_def auth_example_def pending_example_def
      unat_1 TOTPPendingTTL_def minute_def second_def)

lemma example_after_login: "as_Users (snd login_example) = [user_example]" "as_Refresh (snd login_example) = []"
    "as_totpUsed (snd login_example) = []"
  by (simp_all add: login_example_def auth_step_example_def auth_start_example_def serve_def limited_def
      Login_def GetByUsername_def ask_def user_example_def call_example_def IssueTOTPPending_def auth_example_def pending_example_def
      unat_1 TOTPPendingTTL_def minute_def second_def)

lemma example_secret: "Decrypt (ae_Unseal auth_example) (ae_Key auth_example) (us_TOTPSecretEnc user_example) = Some ''123456''"
  by (simp add: Decrypt_def auth_example_def user_example_def nonceSize_def numeral_eq_Suc)

lemma example_pending: "ParseTOTPPending auth_example 60 ''p'' = Some 1"
  by (simp add: ParseTOTPPending_def auth_example_def pending_example_def TOTPPendingTTL_def minute_def second_def)

lemma example_access: "IssueAccess auth_example 60 1 ''alice'' ''admin'' = Some ''a''"
  by (simp add: AccessTokenTTL_def minute_def second_def IssueAccess_def auth_example_def access_example_def pending_example_def unat_1)

lemma example_verify_serve:
  "serve auth_example (call_example 60) [] (RVerifyTOTP (Some (''p'', ''123456''))) (snd login_example) =
      issueFullTokens auth_example (call_example 60) user_example (spend_code 60 1 ''123456'' (snd login_example))"
proof -
  have v: "VerifyTOTP auth_example (call_example 60) (Some (''p'', ''123456'')) st =
      issueFullTokens auth_example (call_example 60) user_example (spend_code 60 1 ''123456'' st)"
    if "as_Users st = [user_example]" "as_totpUsed st = []" for st
  proof -
    have u: "GetUserByID 1 st = Some user_example" using that(1) by (simp add: GetUserByID_def user_example_def)
    have n: "us_TOTPSecretEnc user_example \<noteq> []" "us_TOTPEnabled user_example" by (simp_all add: user_example_def)
    have t: "ae_TOTP auth_example 60 ''123456'' ''123456''" by (simp add: auth_example_def)
    show ?thesis using u n t that(2) example_secret example_pending
      by (simp add: VerifyTOTP_def call_example_def ask_def code_spent_def)
  qed
  show ?thesis unfolding serve_def auth_route.case limited_def using v [OF example_after_login(1,3)] by (simp add: call_example_def)
qed

lemma example_verify: "\<exists>raw. ax_Answer (fst verify_example) = ATokens ''a'' raw"
proof -
  have f: "\<exists>raw. fst (issueFullTokens auth_example (call_example 60) user_example st) = ATokens ''a'' raw"
    if "as_Users st = [user_example]" "as_Refresh st = []" for st
    using that example_access
    by (simp add: issueFullTokens_def call_example_def ask_def GenerateRefreshToken_def GenerateToken_def zeros_def CreateRefresh_def
        GetUserByID_def user_example_def)
  have e: "serve auth_example (call_example 60) [] (RVerifyTOTP (Some (''p'', ''123456''))) (snd login_example) =
      issueFullTokens auth_example (call_example 60) user_example (spend_code 60 1 ''123456'' (snd login_example))"
    by (rule example_verify_serve)
  then have "ax_Answer (fst verify_example) =
      fst (issueFullTokens auth_example (call_example 60) user_example (spend_code 60 1 ''123456'' (snd login_example)))"
    by (simp add: verify_example_def auth_step_example_def split_beta)
  with f [of "spend_code 60 1 ''123456'' (snd login_example)"] example_after_login show ?thesis by simp
qed

lemma example_history: "auth_history auth_example [fst login_example, fst verify_example] (snd verify_example)"
proof -
  have s: "auth_history auth_example [] auth_start_example" by (rule auth_history.start) (simp add: auth_start_example_def)
  have l: "auth_history auth_example ([] @ [fst login_example]) (snd login_example)"
    unfolding login_example_def auth_step_example_def
    using auth_history.request [OF s, of "call_example 0" "[]" "RLogin (Some (''alice'', ''secret42''))"]
    by (simp add: shown_def bearer_token_def has_prefix_def unforged_def split: prod.split)
  have n: "ax_Now (fst login_example) = 0"
    by (simp add: login_example_def auth_step_example_def call_example_def split: prod.split)
  have "auth_history auth_example ([fst login_example] @ [fst verify_example]) (snd verify_example)"
    unfolding verify_example_def auth_step_example_def
    using auth_history.request [OF l, of "call_example 60" "[]" "RVerifyTOTP (Some (''p'', ''123456''))"] n example_login
    by (simp add: shown_def bearer_token_def has_prefix_def unforged_def call_example_def split: prod.split)
  then show ?thesis by simp
qed


end
