(* ===== verification/AuthSessions.thy ===== *)
theory AuthSessions
  imports AuthProps
begin

text \<open>
  Sessions over a history of requests: a refresh token works only within the session its sign-in began, and users are
  managed only with an access token of an admin; with the cases in which the second step of a sign-in says less than it
  means to.
\<close>

section \<open>Users are managed by admins\<close>

fun manages_users :: "auth_route \<Rightarrow> bool" where
  "manages_users RListUsers = True"
| "manages_users (RCreateUser b) = True"
| "manages_users (RUpdateUserRole t b) = True"
| "manages_users (RDeleteUser t) = True"
| "manages_users _ = False"

lemma role_rank_admin: "role_rank ''admin'' \<le> role_rank r \<Longrightarrow> r = ''admin''"
  by (auto split: if_splits)

lemma admin_bearer:
  assumes "serve E q header route st = (a, st')" "manages_users route" "\<And>c m. a \<noteq> ARefused c m"
  obtains raw c where "bearer_token header = Some raw" "ParseAccess E (ac_Now q) raw = Some c" "jc_Role c = ''admin''"
proof -
  from assms(1,2) obtain h where "protected E q header (needs_role ''admin'' h) st = (a, st')" by (cases route) (auto simp: serve_def)
  then show ?thesis
  proof (rule protected_answer)
    fix raw c assume b: "bearer_token header = Some raw" "ParseAccess E (ac_Now q) raw = Some c"
      and h: "needs_role ''admin'' h \<lparr>cx_UserID = jc_UserID c, cx_Username = jc_Username c, cx_Role = jc_Role c\<rparr> st = (a, st')"
    from h assms(3) have "roleAtLeast (jc_Role c) ''admin''"
      by (auto simp: needs_role_def RequireRole_def split: option.splits if_splits)
    then have "jc_Role c = ''admin''" unfolding roleAtLeast_def by (rule role_rank_admin)
    with b show ?thesis by (rule that)
  qed (use assms(3) in simp)
qed

text \<open>
  C24: A request that lists or changes users and is not refused shows an access token that was given to a user who was an admin
  at that time, less than 15 minutes ago.
\<close>

theorem users_managed_by_admins:
  assumes "jwt_laws E" "auth_history E tr st" "tr = tr1 @ e # tr2" "manages_users (ax_Route e)" "\<And>c m. ax_Answer e \<noteq> ARefused c m"
  shows "\<exists>raw. bearer_token (ax_Header e) = Some raw \<and>
    (\<exists>e' \<in> set tr1. raw \<in> set (given (ax_Answer e')) \<and> ax_Now e < ax_Now e' + 15 * minute \<and>
       (\<exists>u \<in> set (as_Users (ax_Before e')). us_Role u = ''admin'' \<and> ae_Sign E (access_claims E (ax_Now e') u) = Some raw))"
proof -
  from history_events [OF assms(2,3)] obtain st' where un: "unforged E (ax_Now e) (shown (ax_Header e) (ax_Route e)) tr1"
    and sv: "serve E (ax_Call e) (ax_Header e) (ax_Route e) (ax_Before e) = (ax_Answer e, st')" by blast
  from sv assms(4,5) obtain raw c where b: "bearer_token (ax_Header e) = Some raw" "ParseAccess E (ax_Now e) raw = Some c" "jc_Role c = ''admin''"
    by (rule admin_bearer)
  from b(2) have c: "ae_Read E (ax_Now e) raw = Some c" "jc_Type c = ''access''" by (auto simp: ParseAccess_def split: option.splits if_splits)
  have "raw \<in> set (shown (ax_Header e) (ax_Route e))" using b(1) by (simp add: shown_def)
  with un c(1) obtain e' where e': "e' \<in> set tr1" "raw \<in> set (given (ax_Answer e'))" by (metis shown_origin)
  from e'(1) obtain p s where "tr1 = p @ e' # s" by (meson split_list)
  then have "tr = p @ e' # (s @ e # tr2)" using assms(3) by simp
  from history_events [OF assms(2) this] e'(2) have m: "token_meaning E e' raw" using given_meaning by blast
  from m c(2) consider (acc) u where "u \<in> set (as_Users (ax_Before e'))" "ae_Sign E (access_claims E (ax_Now e') u) = Some raw"
    | (other) "\<And>u. c \<noteq> access_claims E (ax_Now e') u"
    using jwt_lawsD(1) [OF assms(1) _ c(1)] by (auto simp: token_meaning_def IssueTOTPPending_def IssueTOTPEnroll_def)
  then show ?thesis
  proof cases
    case acc
    from jwt_lawsD(1) [OF assms(1) acc(2) c(1)] have "c = access_claims E (ax_Now e') u" "ax_Now e < jc_ExpiresAt (access_claims E (ax_Now e') u)" by auto
    moreover have "ae_Date E (ax_Now e' + AccessTokenTTL) \<le> ax_Now e' + AccessTokenTTL" by (rule jwt_lawsD(2) [OF assms(1)])
    ultimately have "us_Role u = ''admin''" "ax_Now e < ax_Now e' + 15 * minute"
      using b(3) by (simp_all add: access_claims_def AccessTokenTTL_def)
    then show ?thesis using b(1) e' acc by blast
  next
    case other
    with read_meaning [OF assms(1) m c(1)] c(2) show ?thesis by auto
  qed
qed

section \<open>Sessions\<close>

text \<open>
  A request that ends the sessions of a token's hash or of a user: a sign-out or a change of password whose revocation was
  stored, the user's deletion.  A revocation that fails is answered as one that succeeds
  (\<open>failed_sign_out_keeps_session\<close>).
\<close>

definition revokes_session :: "auth_env \<Rightarrow> auth_event \<Rightarrow> string \<Rightarrow> uuid \<Rightarrow> bool" where
  "revokes_session E e h i = (case ax_Route e of
      RLogout (Some raw) \<Rightarrow> raw \<noteq> [] \<and> HashToken (ae_SHA256 E) raw = h \<and> \<not> ac_Fails (ax_Call e) QRevoke
    | RChangePassword b \<Rightarrow> ax_Answer e = ANoContent \<and> \<not> ac_Fails (ax_Call e) QRevokeAll
        \<and> (case JWT E (ax_Now e) (ax_Header e) of Inl x \<Rightarrow> False | Inr cx \<Rightarrow> ae_ParseID E (cx_UserID cx) = Some i)
    | RDeleteUser t \<Rightarrow> ax_Answer e = ANoContent \<and> ae_ParseID E t = Some i
    | _ \<Rightarrow> False)"

definition begins_session :: "auth_env \<Rightarrow> auth_event \<Rightarrow> refresh_row \<Rightarrow> bool" where
  "begins_session E e r \<longleftrightarrow> (\<exists>access raw. ax_Answer e = ATokens access raw \<and> rf_TokenHash r = HashToken (ae_SHA256 E) raw
     \<and> rf_ExpiresAt r = ax_Now e + RefreshTokenTTL \<and> (\<exists>u \<in> set (as_Users (ax_Before e)). us_ID u = rf_UserID r))"

lemma update_account_rows [simp]: "as_Refresh (update_account i f st) = as_Refresh st"
  by (simp add: update_account_def)

lemmas account_updates = UpdateLastLogin_def UpdateRole_def UpdatePassword_def SetTOTP_def ClearTOTP_def

lemma issueFullTokens_rows:
  assumes "issueFullTokens E q u st = (a, st')"
  shows "as_Refresh st' = as_Refresh st \<or> (\<exists>access raw. a = ATokens access raw \<and> as_Refresh st' = as_Refresh st
    @ [\<lparr>rf_UserID = us_ID u, rf_TokenHash = HashToken (ae_SHA256 E) raw, rf_IssuedAt = ac_Now q, rf_ExpiresAt = ac_Now q + RefreshTokenTTL,
        rf_RevokedAt = None\<rparr>])"
  using assms by (auto simp: issueFullTokens_def CreateRefresh_def try_query_def account_updates split: option.splits if_splits dest!: ask_SomeD)

lemma quiet_rows:
  "as_Refresh (snd (ConfirmTOTP E q cx b st)) = as_Refresh st" "as_Refresh (snd (DisableTOTP E q cx b2 st)) = as_Refresh st"
  "as_Refresh (snd (CreateUser q b3 st)) = as_Refresh st" "as_Refresh (snd (UpdateUserRole E q t b2 st)) = as_Refresh st"
  by (auto simp: ConfirmTOTP_def DisableTOTP_def CreateUser_def UpdateUserRole_def CreateAccount_def account_updates Let_def
      split: option.splits prod.splits if_splits dest!: ask_SomeD)

lemma protected_rows:
  assumes "protected E q header h st = (a, st')" "\<And>cx. as_Refresh (snd (h cx st)) = as_Refresh st"
  shows "as_Refresh st' = as_Refresh st"
proof (rule protected_answer [OF assms(1)])
  fix raw c assume "h \<lparr>cx_UserID = jc_UserID c, cx_Username = jc_Username c, cx_Role = jc_Role c\<rparr> st = (a, st')"
  with assms(2) [of "\<lparr>cx_UserID = jc_UserID c, cx_Username = jc_Username c, cx_Role = jc_Role c\<rparr>"] show ?thesis by simp
qed simp

lemma role_rows: "(\<And>cx. as_Refresh (snd (h cx st)) = as_Refresh st) \<Longrightarrow> as_Refresh (snd (needs_role r h cx st)) = as_Refresh st"
  by (simp add: needs_role_def split: option.splits)

text \<open>A live row after a request was live before it, and the request did not end its session, or the request made it.\<close>

lemma live_revoked:
  assumes "r \<in> set (map (\<lambda>r. if P r then r\<lparr>rf_RevokedAt := Some now\<rparr> else r) rows)" "rf_RevokedAt r = None"
  shows "r \<in> set rows \<and> \<not> P r"
proof -
  from assms(1) obtain x where x: "x \<in> set rows" "r = (if P x then x\<lparr>rf_RevokedAt := Some now\<rparr> else x)" by auto
  with assms(2) have "\<not> P x" by (cases "P x") simp_all
  with x show ?thesis by simp
qed

lemma ChangePassword_shape:
  assumes "ChangePassword E q cx b st = (a, st')"
  shows "(\<exists>c m. a = ARefused c m \<and> st' = st) \<or>
    (\<exists>i h. ae_ParseID E (cx_UserID cx) = Some i \<and> a = ANoContent
      \<and> st' = try_query q QRevokeAll (RevokeAllForUser (ac_Now q) i) (UpdatePassword i h st))"
proof (cases "\<exists>c m. a = ARefused c m \<and> st' = st")
  case no: False
  from no assms obtain i where i: "ae_ParseID E (cx_UserID cx) = Some i" by (cases "ae_ParseID E (cx_UserID cx)") (auto simp: ChangePassword_def)
  from no assms i obtain old new where b: "b = Some (old, new)" by (cases b) (auto simp: ChangePassword_def)
  from no assms i b have v: "validatePassword new" by (auto simp: ChangePassword_def split: if_splits)
  from no assms i b v obtain u where u: "ask q QGetByID (GetUserByID i st) = Some u"
    by (cases "ask q QGetByID (GetUserByID i st)") (auto simp: ChangePassword_def)
  from no assms i b v u have c: "ae_Compare E (us_PasswordHash u) old" by (auto simp: ChangePassword_def split: if_splits)
  from no assms i b v u c obtain h where h: "ac_Hash q = Some h" by (cases "ac_Hash q") (auto simp: ChangePassword_def)
  from no assms i b v u c h have "\<not> ac_Fails q QUpdatePassword" by (auto simp: ChangePassword_def split: if_splits)
  with assms i b v u c h show ?thesis by (auto simp: ChangePassword_def)
qed simp

lemma ChangePassword_rows:
  assumes "ChangePassword E q cx b st = (a, st')" "r \<in> set (as_Refresh st')" "rf_RevokedAt r = None"
  shows "r \<in> set (as_Refresh st)" "a = ANoContent \<Longrightarrow> \<not> ac_Fails q QRevokeAll \<Longrightarrow> ae_ParseID E (cx_UserID cx) \<noteq> Some (rf_UserID r)"
proof -
  have "r \<in> set (as_Refresh st) \<and> (a = ANoContent \<longrightarrow> \<not> ac_Fails q QRevokeAll \<longrightarrow> ae_ParseID E (cx_UserID cx) \<noteq> Some (rf_UserID r))"
    using ChangePassword_shape [OF assms(1)]
  proof (elim disjE exE conjE)
    fix i h assume i: "ae_ParseID E (cx_UserID cx) = Some i" "st' = try_query q QRevokeAll (RevokeAllForUser (ac_Now q) i) (UpdatePassword i h st)"
    show ?thesis
    proof (cases "ac_Fails q QRevokeAll")
      case True
      with i assms(2) show ?thesis by (simp add: try_query_def account_updates)
    next
      case False
      with i assms(2) have "r \<in> set (map (\<lambda>r. if rf_UserID r = i \<and> rf_RevokedAt r = None then r\<lparr>rf_RevokedAt := Some (ac_Now q)\<rparr> else r) (as_Refresh st))"
        by (simp add: try_query_def RevokeAllForUser_def account_updates)
      from live_revoked [OF this assms(3)] i(1) assms(3) show ?thesis by auto
    qed
  qed (use assms(2) in simp)
  then show "r \<in> set (as_Refresh st)" "a = ANoContent \<Longrightarrow> \<not> ac_Fails q QRevokeAll \<Longrightarrow> ae_ParseID E (cx_UserID cx) \<noteq> Some (rf_UserID r)"
    by blast+
qed

lemma Logout_rows:
  assumes "Logout E q b st = (a, st')" "r \<in> set (as_Refresh st')" "rf_RevokedAt r = None"
  shows "r \<in> set (as_Refresh st) \<and> (\<forall>raw. b = Some raw \<longrightarrow> raw \<noteq> [] \<longrightarrow> \<not> ac_Fails q QRevoke \<longrightarrow> HashToken (ae_SHA256 E) raw \<noteq> rf_TokenHash r)"
proof (cases "\<exists>raw. b = Some raw \<and> raw \<noteq> [] \<and> \<not> ac_Fails q QRevoke")
  case True
  then obtain raw where raw: "b = Some raw" "raw \<noteq> []" "\<not> ac_Fails q QRevoke" by blast
  with assms(1,2) have "r \<in> set (map (\<lambda>r. if rf_TokenHash r = HashToken (ae_SHA256 E) raw then r\<lparr>rf_RevokedAt := Some (ac_Now q)\<rparr> else r) (as_Refresh st))"
    by (auto simp: Logout_def try_query_def Revoke_def)
  from live_revoked [OF this assms(3)] raw show ?thesis by auto
next
  case False
  then have "st' = st" using assms(1) by (cases b) (auto simp: Logout_def try_query_def)
  then show ?thesis using False assms(2) by auto
qed

lemma DeleteUser_rows:
  assumes "DeleteUser E q cx t st = (a, st')" "r \<in> set (as_Refresh st')"
  shows "r \<in> set (as_Refresh st)" "a = ANoContent \<Longrightarrow> ae_ParseID E t \<noteq> Some (rf_UserID r)"
  using assms by (auto simp: DeleteUser_def DeleteAccount_def split: option.splits if_splits)

lemma full_rows:
  assumes "issueFullTokens E q u st = (a, st')" "u \<in> set (as_Users (ax_Before e))" "ax_Call e = q" "ax_Answer e = a"
    and "as_Refresh st = as_Refresh (ax_Before e)" "r \<in> set (as_Refresh st')"
  shows "r \<in> set (as_Refresh (ax_Before e)) \<or> begins_session E e r"
  using issueFullTokens_rows [OF assms(1)] assms(2-6) by (auto simp: begins_session_def) blast

lemma live_row:
  assumes sv: "serve E (ax_Call e) (ax_Header e) (ax_Route e) (ax_Before e) = (ax_Answer e, st')"
    and r: "r \<in> set (as_Refresh st')" "rf_RevokedAt r = None"
  shows "r \<in> set (as_Refresh (ax_Before e)) \<and> \<not> revokes_session E e (rf_TokenHash r) (rf_UserID r) \<or> begins_session E e r"
proof -
  have quiet: ?thesis if "as_Refresh st' = as_Refresh (ax_Before e)" "\<not> revokes_session E e (rf_TokenHash r) (rf_UserID r)"
    using that r(1) by simp
  show ?thesis
  proof (cases "ax_Route e")
    case (RLogin b)
    then have n: "\<not> revokes_session E e (rf_TokenHash r) (rf_UserID r)" by (simp add: revokes_session_def)
    from sv RLogin have "limited (ax_Call e) (Login E (ax_Call e) b) (ax_Before e) = (ax_Answer e, st')"
      by (simp add: serve_def)
    then show ?thesis
    proof (rule limited_answer)
      assume "Login E (ax_Call e) b (ax_Before e) = (ax_Answer e, st')"
      then show ?thesis
      proof (cases rule: Login_answer)
        case (full n' pw u)
        show ?thesis using full_rows [OF full(6) _ refl refl _ r(1)] full(2) n by auto
      qed (use n r in auto)
    qed (use n r in auto)
  next
    case (RVerifyTOTP b)
    then have n: "\<not> revokes_session E e (rf_TokenHash r) (rf_UserID r)" by (simp add: revokes_session_def)
    from sv RVerifyTOTP have "limited (ax_Call e) (VerifyTOTP E (ax_Call e) b) (ax_Before e) = (ax_Answer e, st')"
      by (simp add: serve_def)
    then show ?thesis
    proof (rule limited_answer)
      assume "VerifyTOTP E (ax_Call e) b (ax_Before e) = (ax_Answer e, st')"
      then show ?thesis
      proof (cases rule: VerifyTOTP_answer)
        case (full tok code u s)
        show ?thesis using full_rows [OF full(8) _ refl refl _ r(1)] full(3) n by auto
      qed (use n r in auto)
    qed (use n r in auto)
  next
    case (RRefresh b)
    with sv have "Refresh E (ax_Call e) b (ax_Before e) = (ax_Answer e, st')" by (simp add: serve_def)
    then have "st' = ax_Before e" by (cases rule: Refresh_answer) simp_all
    then show ?thesis using RRefresh by (intro quiet) (simp_all add: revokes_session_def)
  next
    case (RLogout b)
    with sv have l: "Logout E (ax_Call e) b (ax_Before e) = (ax_Answer e, st')" by (simp add: serve_def)
    from Logout_rows [OF l r] RLogout show ?thesis by (cases b) (auto simp: revokes_session_def)
  next
    case (RChangePassword b)
    with sv have "protected E (ax_Call e) (ax_Header e) (\<lambda>cx. ChangePassword E (ax_Call e) cx b) (ax_Before e) = (ax_Answer e, st')"
      by (simp add: serve_def)
    then show ?thesis
    proof (rule protected_answer)
      fix raw c assume t: "bearer_token (ax_Header e) = Some raw" "ParseAccess E (ax_Now e) raw = Some c"
        and "ChangePassword E (ax_Call e) \<lparr>cx_UserID = jc_UserID c, cx_Username = jc_Username c, cx_Role = jc_Role c\<rparr> b (ax_Before e) = (ax_Answer e, st')"
      from ChangePassword_rows [OF this(3) r] t RChangePassword show ?thesis by (auto simp: revokes_session_def JWT_def)
    qed (use RChangePassword r in \<open>auto simp: revokes_session_def\<close>)
  next
    case (RDeleteUser t)
    with sv have "protected E (ax_Call e) (ax_Header e) (needs_role ''admin'' (\<lambda>cx. DeleteUser E (ax_Call e) cx t)) (ax_Before e) = (ax_Answer e, st')"
      by (simp add: serve_def)
    then show ?thesis
    proof (rule protected_answer)
      fix c assume h: "needs_role ''admin'' (\<lambda>cx. DeleteUser E (ax_Call e) cx t)
        \<lparr>cx_UserID = jc_UserID c, cx_Username = jc_Username c, cx_Role = jc_Role c\<rparr> (ax_Before e) = (ax_Answer e, st')"
      let ?cx = "\<lparr>cx_UserID = jc_UserID c, cx_Username = jc_Username c, cx_Role = jc_Role c\<rparr>"
      show ?thesis
      proof (cases "RequireRole ''admin'' ?cx")
        case None
        with h have "DeleteUser E (ax_Call e) ?cx t (ax_Before e) = (ax_Answer e, st')" by (simp add: needs_role_def)
        from DeleteUser_rows [OF this r(1)] RDeleteUser show ?thesis by (auto simp: revokes_session_def)
      next
        case (Some x)
        obtain k m where "x = (k, m)" by (cases x)
        with h Some have "ARefused k m = ax_Answer e" "st' = ax_Before e" by (simp_all add: needs_role_def)
        then show ?thesis using RDeleteUser by (intro quiet) (auto simp: revokes_session_def)
      qed
    qed (use RDeleteUser r in \<open>auto simp: revokes_session_def\<close>)
  qed (use sv r(1) in \<open>auto simp: serve_def revokes_session_def quiet_rows role_rows intro!: quiet dest!: protected_rows\<close>)
qed

lemma history_prefix:
  assumes "auth_history E tr st" "tr = tr1 @ e # tr2"
  shows "auth_history E tr1 (ax_Before e)"
  using assms
proof (induction arbitrary: tr2 rule: auth_history.induct)
  case (request tr st q header route a st')
  let ?ev = "\<lparr>ax_Call = q, ax_Header = header, ax_Route = route, ax_Before = st, ax_Answer = a\<rparr>"
  show ?case
  proof (cases tr2 rule: rev_cases)
    case Nil
    with request.prems have "tr = tr1" "e = ?ev" by auto
    then show ?thesis using request.hyps by simp
  next
    case (snoc ys y)
    with request.prems have "tr = tr1 @ e # ys" by (metis append_Cons append_assoc append_same_eq butlast_snoc)
    then show ?thesis by (rule request.IH)
  qed
qed auto

lemma live_rows_in_session:
  assumes "auth_history E tr st" "r \<in> set (as_Refresh st)" "rf_RevokedAt r = None"
  shows "\<exists>p e s. tr = p @ e # s \<and> begins_session E e r \<and> list_all (\<lambda>x. \<not> revokes_session E x (rf_TokenHash r) (rf_UserID r)) s"
  using assms
proof (induction rule: auth_history.induct)
  case (request tr st q header route a st')
  let ?ev = "\<lparr>ax_Call = q, ax_Header = header, ax_Route = route, ax_Before = st, ax_Answer = a\<rparr>"
  have "serve E (ax_Call ?ev) (ax_Header ?ev) (ax_Route ?ev) (ax_Before ?ev) = (ax_Answer ?ev, st')"
    using request.hyps by simp
  from live_row [OF this request.prems] consider (kept) "r \<in> set (as_Refresh st)" "\<not> revokes_session E ?ev (rf_TokenHash r) (rf_UserID r)"
    | (new) "begins_session E ?ev r" by auto
  then show ?case
  proof cases
    case kept
    from request.IH [OF kept(1) request.prems(2)] obtain p e s where s: "tr = p @ e # s" "begins_session E e r"
      "list_all (\<lambda>x. \<not> revokes_session E x (rf_TokenHash r) (rf_UserID r)) s" by blast
    have "tr @ [?ev] = p @ e # (s @ [?ev])" using s(1) by simp
    moreover have "list_all (\<lambda>x. \<not> revokes_session E x (rf_TokenHash r) (rf_UserID r)) (s @ [?ev])" using s(3) kept(2) by simp
    ultimately show ?thesis using s(2) by blast
  next
    case new
    have "list_all (\<lambda>x. \<not> revokes_session E x (rf_TokenHash r) (rf_UserID r)) []" by simp
    with new show ?thesis by blast
  qed
qed simp_all

text \<open>
  C15: A refresh is answered with an access token for a user only within a session of that user: an earlier request, less than
  seven days ago, signed the user in and gave out a refresh token with the same hash, and no request since then signed that
  token out or changed the user's password, its revocation stored, or deleted the user.  A sign-out whose revocation fails
  ends nothing, although it is answered with success (\<open>failed_sign_out_keeps_session\<close>).
\<close>

theorem refresh_within_session:
  assumes "auth_history E tr st" "tr = tr1 @ e # tr2" "ax_Route e = RRefresh (Some raw)" "ax_Answer e = AAccess access"
  shows "\<exists>u \<in> set (as_Users (ax_Before e)). ae_Sign E (access_claims E (ax_Now e) u) = Some access \<and>
    (\<exists>p e' s. tr1 = p @ e' # s \<and> ax_Now e < ax_Now e' + 7 * 24 * 60 * minute
       \<and> (\<exists>access' raw'. ax_Answer e' = ATokens access' raw' \<and> HashToken (ae_SHA256 E) raw' = HashToken (ae_SHA256 E) raw)
       \<and> (\<exists>v \<in> set (as_Users (ax_Before e')). us_ID v = us_ID u)
       \<and> list_all (\<lambda>x. \<not> revokes_session E x (HashToken (ae_SHA256 E) raw) (us_ID u)) s)"
proof -
  from history_events [OF assms(1,2)] obtain st' where
    "serve E (ax_Call e) (ax_Header e) (ax_Route e) (ax_Before e) = (ax_Answer e, st')" by blast
  with assms(3,4) have "Refresh E (ax_Call e) (Some raw) (ax_Before e) = (AAccess access, st')" by (simp add: serve_def)
  then obtain r u where a: "GetValid (ax_Now e) (HashToken (ae_SHA256 E) raw) (ax_Before e) = Some r"
    "GetUserByID (rf_UserID r) (ax_Before e) = Some u" "ae_Sign E (access_claims E (ax_Now e) u) = Some access"
    by (cases rule: Refresh_answer) auto
  from find_Some_in [OF a(1) [unfolded GetValid_def]] have r: "r \<in> set (as_Refresh (ax_Before e))" "rf_TokenHash r = HashToken (ae_SHA256 E) raw"
    "rf_RevokedAt r = None" "ax_Now e < rf_ExpiresAt r" by auto
  from find_Some_in [OF a(2) [unfolded GetUserByID_def]] have u: "u \<in> set (as_Users (ax_Before e))" "us_ID u = rf_UserID r" by auto
  from live_rows_in_session [OF history_prefix [OF assms(1,2)] r(1,3)] obtain p e' s where s: "tr1 = p @ e' # s" "begins_session E e' r"
    "list_all (\<lambda>x. \<not> revokes_session E x (rf_TokenHash r) (rf_UserID r)) s" by blast
  from s(2) have b: "\<exists>access' raw'. ax_Answer e' = ATokens access' raw' \<and> HashToken (ae_SHA256 E) raw' = HashToken (ae_SHA256 E) raw"
    "\<exists>v \<in> set (as_Users (ax_Before e')). us_ID v = us_ID u" "rf_ExpiresAt r = ax_Now e' + RefreshTokenTTL"
    using r(2) u(2) unfolding begins_session_def by auto
  have "ax_Now e < ax_Now e' + 7 * 24 * 60 * minute" using r(4) b(3) by (simp add: RefreshTokenTTL_def)
  moreover have "list_all (\<lambda>x. \<not> revokes_session E x (HashToken (ae_SHA256 E) raw) (us_ID u)) s" using s(3) r(2) u(2) by simp
  ultimately show ?thesis using s(1) b(1,2) u(1) a(3) by blast
qed

section \<open>A session for examples\<close>

definition raw_example :: string where
  "raw_example = hex_encode (replicate 48 CHR ''z'')"

definition refresh_example :: auth_event where
  "refresh_example = fst (auth_step_example 70 (RRefresh (Some raw_example)) (snd verify_example))"

definition admin_example :: auth_event where
  "admin_example = (case serve auth_example (call_example 70) ''Bearer a'' RListUsers (snd verify_example) of (a, st') \<Rightarrow>
     \<lparr>ax_Call = call_example 70, ax_Header = ''Bearer a'', ax_Route = RListUsers, ax_Before = snd verify_example, ax_Answer = a\<rparr>)"

lemma example_after_verify:
  "ax_Answer (fst verify_example) = ATokens ''a'' raw_example"
  "as_Users (snd verify_example) = [user_example\<lparr>us_LastLoginAt := Some 60\<rparr>]"
  "as_Refresh (snd verify_example) = [\<lparr>rf_UserID = 1, rf_TokenHash = hex_encode raw_example, rf_IssuedAt = 60, rf_ExpiresAt = 60 + RefreshTokenTTL, rf_RevokedAt = None\<rparr>]"
proof -
  let ?st = "snd login_example"
  have e: "serve auth_example (call_example 60) [] (RVerifyTOTP (Some (''p'', ''123456''))) ?st =
      issueFullTokens auth_example (call_example 60) user_example (spend_code 60 1 ''123456'' ?st)"
    by (rule example_verify_serve)
  have i: "issueFullTokens auth_example (call_example 60) user_example (spend_code 60 1 ''123456'' ?st) =
      (ATokens ''a'' raw_example, update_account 1 (\<lambda>u. u\<lparr>us_LastLoginAt := Some 60\<rparr>)
        ((spend_code 60 1 ''123456'' ?st)\<lparr>as_Refresh :=
           [\<lparr>rf_UserID = 1, rf_TokenHash = hex_encode raw_example, rf_IssuedAt = 60, rf_ExpiresAt = 60 + RefreshTokenTTL, rf_RevokedAt = None\<rparr>]\<rparr>))"
    using example_access
    by (simp add: issueFullTokens_def call_example_def ask_def GenerateRefreshToken_def GenerateToken_def zeros_def CreateRefresh_def
        GetUserByID_def user_example_def example_after_login raw_example_def HashToken_def auth_example_def refreshTokenLen_def
        try_query_def UpdateLastLogin_def)
  show "ax_Answer (fst verify_example) = ATokens ''a'' raw_example"
    using e i by (simp add: verify_example_def auth_step_example_def)
  have s: "snd verify_example = update_account 1 (\<lambda>u. u\<lparr>us_LastLoginAt := Some 60\<rparr>)
        ((spend_code 60 1 ''123456'' ?st)\<lparr>as_Refresh :=
           [\<lparr>rf_UserID = 1, rf_TokenHash = hex_encode raw_example, rf_IssuedAt = 60, rf_ExpiresAt = 60 + RefreshTokenTTL, rf_RevokedAt = None\<rparr>]\<rparr>)"
    using e i by (simp add: verify_example_def auth_step_example_def)
  then show "as_Users (snd verify_example) = [user_example\<lparr>us_LastLoginAt := Some 60\<rparr>]"
    "as_Refresh (snd verify_example) = [\<lparr>rf_UserID = 1, rf_TokenHash = hex_encode raw_example, rf_IssuedAt = 60, rf_ExpiresAt = 60 + RefreshTokenTTL, rf_RevokedAt = None\<rparr>]"
    by (simp_all add: update_account_def spend_code_def example_after_login user_example_def)
qed

lemma example_before: "ax_Now (fst login_example) = 0" "ax_Now (fst verify_example) = 60"
  by (simp_all add: login_example_def verify_example_def auth_step_example_def call_example_def split: prod.split)

lemma example_extend:
  assumes "serve auth_example (call_example 70) header route (snd verify_example) = (a, st')"
    and "unforged auth_example 70 (shown header route) [fst login_example, fst verify_example]"
  shows "\<exists>st'. auth_history auth_example ([fst login_example, fst verify_example] @ [\<lparr>ax_Call = call_example 70, 
    ax_Header = header, ax_Route = route, ax_Before = snd verify_example, ax_Answer = a\<rparr>]) st'"
  using auth_history.request [OF example_history _ _ assms(1)] assms(2) example_before by (auto simp: call_example_def)

theorem users_managed_by_admins_witness:
  "ax_Answer admin_example = AUsers [\<lparr>ui_ID = 1, ui_Username = ''alice'', ui_Role = ''admin'', ui_CreatedAt = 0, ui_LastLoginAt = Some 60\<rparr>] \<and>
   (\<exists>e' \<in> set [fst login_example, fst verify_example]. ''a'' \<in> set (given (ax_Answer e')))"
proof -
  let ?h = "''Bearer a''"
  obtain a st' where s: "serve auth_example (call_example 70) ?h RListUsers (snd verify_example) = (a, st')" by fastforce
  have p: "ParseAccess auth_example 70 ''a'' = Some access_example"
    by (simp add: ParseAccess_def auth_example_def access_example_def AccessTokenTTL_def minute_def second_def)
  have b: "bearer_token ?h = Some ''a''" by (simp add: bearer_token_def has_prefix_def)
  note u = example_after_verify(2)
  have a: "a = AUsers [toUserListItem (user_example\<lparr>us_LastLoginAt := Some 60\<rparr>)]"
    using s p b by (simp add: serve_def protected_def JWT_def call_example_def needs_role_def RequireRole_def access_example_def roleAtLeast_def
        ListUsers_def ListUsers_rows_def u)
  have e: "admin_example = \<lparr>ax_Call = call_example 70, ax_Header = ?h, ax_Route = RListUsers, ax_Before = snd verify_example, ax_Answer = a\<rparr>"
    using s by (simp add: admin_example_def)
  have "unforged auth_example 70 (shown ?h RListUsers) [fst login_example, fst verify_example]"
    using b by (simp add: unforged_def shown_def example_after_verify(1))
  from example_extend [OF s this] obtain st'' where h: "auth_history auth_example ([fst login_example, fst verify_example] @ admin_example # []) st''"
    using e by auto
  have "manages_users (ax_Route admin_example)" "\<And>c m. ax_Answer admin_example \<noteq> ARefused c m" unfolding e a by simp_all
  from users_managed_by_admins [OF example_laws h refl this] obtain raw where r: "bearer_token (ax_Header admin_example) = Some raw"
    "\<exists>e' \<in> set [fst login_example, fst verify_example]. raw \<in> set (given (ax_Answer e'))" by blast
  have "ax_Header admin_example = ?h" unfolding e by simp
  with r(1) b have "raw = ''a''" by simp
  with r(2) have m: "\<exists>e' \<in> set [fst login_example, fst verify_example]. ''a'' \<in> set (given (ax_Answer e'))" by simp
  have "ax_Answer admin_example = AUsers [\<lparr>ui_ID = 1, ui_Username = ''alice'', ui_Role = ''admin'', ui_CreatedAt = 0, ui_LastLoginAt = Some 60\<rparr>]"
    unfolding e a by (simp add: toUserListItem_def user_example_def)
  with m show ?thesis by blast
qed

theorem refresh_within_session_witness:
  "ax_Answer refresh_example = AAccess ''a'' \<and> (\<exists>e' \<in> set [fst login_example, fst verify_example]. \<exists>access raw. ax_Answer e' = ATokens access raw)"
proof -
  obtain a st' where s: "serve auth_example (call_example 70) [] (RRefresh (Some raw_example)) (snd verify_example) = (a, st')" by fastforce
  have u: "as_Users (snd verify_example) = [user_example\<lparr>us_LastLoginAt := Some 60\<rparr>]" by (rule example_after_verify(2))
  have i: "IssueAccess auth_example 70 1 ''alice'' ''admin'' = Some ''a''"
    by (simp add: IssueAccess_def auth_example_def access_example_def pending_example_def unat_1 AccessTokenTTL_def minute_def second_def)
  have sha: "HashToken (ae_SHA256 auth_example) raw_example = hex_encode raw_example" by (simp add: HashToken_def auth_example_def)
  have v: "GetValid 70 (hex_encode raw_example) (snd verify_example) = Some \<lparr>rf_UserID = 1, rf_TokenHash = hex_encode raw_example, rf_IssuedAt = 60,
      rf_ExpiresAt = 60 + RefreshTokenTTL, rf_RevokedAt = None\<rparr>"
    by (simp add: GetValid_def example_after_verify(3) RefreshTokenTTL_def minute_def second_def)
  have g: "GetUserByID 1 (snd verify_example) = Some (user_example\<lparr>us_LastLoginAt := Some 60\<rparr>)"
    by (simp add: GetUserByID_def u user_example_def)
  have c: "ac_Now (call_example 70) = 70" "ac_Fails (call_example 70) k = False" for k by (simp_all add: call_example_def)
  have "us_ID user_example = 1" "us_Username user_example = ''alice''" "us_Role user_example = ''admin''" by (simp_all add: user_example_def)
  then have a: "a = AAccess ''a''" using s i v g sha c by (simp add: serve_def Refresh_def ask_def)
  have e: "refresh_example = \<lparr>ax_Call = call_example 70, ax_Header = [], ax_Route = RRefresh (Some raw_example),
      ax_Before = snd verify_example, ax_Answer = a\<rparr>"
    using s by (simp add: refresh_example_def auth_step_example_def)
  have "unforged auth_example 70 (shown [] (RRefresh (Some raw_example))) [fst login_example, fst verify_example]"
    by (simp add: unforged_def shown_def bearer_token_def has_prefix_def)
  from example_extend [OF s this] obtain st'' where h: "auth_history auth_example ([fst login_example, fst verify_example] @ refresh_example # []) st''"
    using e by auto
  have r: "ax_Route refresh_example = RRefresh (Some raw_example)" "ax_Answer refresh_example = AAccess ''a''" unfolding e a by simp_all
  from refresh_within_session [OF h refl r] obtain p e' s' where "[fst login_example, fst verify_example] = p @ e' # s'"
    "\<exists>access raw. ax_Answer e' = ATokens access raw" by blast
  then have "e' \<in> set [fst login_example, fst verify_example]" by simp
  with \<open>\<exists>access raw. ax_Answer e' = ATokens access raw\<close> r(2) show ?thesis by blast
qed

section \<open>What the second step does not say\<close>

text \<open>
  Only the code used last is remembered: a code that is used again after another one passes, although it was used within
  the 90 seconds it is valid.
\<close>

lemma only_last_code_spent:
  assumes "t1 \<le> t2" "t2 < t1 + totpValidity" "c1 \<noteq> c2"
  shows "code_spent t2 i c1 (spend_code t1 i c1 st)" "\<not> code_spent t2 i c1 (spend_code t2 i c2 (spend_code t1 i c1 st))"
  using assms by (simp_all add: code_spent_def spend_code_def update_conv')

text \<open>
  The error of a revocation is dropped: a sign-out and a change of password are answered with success, and the refresh
  tokens go on being valid.
\<close>

lemma failed_sign_out_keeps_session: "ac_Fails q QRevoke \<Longrightarrow> Logout E q b st = (ANoContent, st)"
  by (simp add: Logout_def try_query_def split: option.split)

lemma failed_revocation_keeps_sessions:
  assumes "ChangePassword E q cx b st = (ANoContent, st')" "ac_Fails q QRevokeAll"
  shows "as_Refresh st' = as_Refresh st"
  using ChangePassword_shape [OF assms(1)] assms(2) by (auto simp: try_query_def account_updates)

text \<open>An admin may take the role from itself: the conductor is left without one, although no admin can delete itself.\<close>

lemma only_admin_may_demote_itself:
  assumes "as_Users st = [u]" "ae_ParseID E t = Some (us_ID u)" "\<not> ac_Fails q QUpdateRole"
  shows "fst (UpdateUserRole E q t (Some ''viewer'') st) = ANoContent"
    "list_ex (\<lambda>v. us_Role v = ''admin'') (as_Users (snd (UpdateUserRole E q t (Some ''viewer'') st))) = False"
  using assms by (simp_all add: UpdateUserRole_def validRoles_def UpdateRole_def update_account_def)

text \<open>Enabling TOTP leaves the refresh tokens of earlier sign-ins as they are, and so does a change of role.\<close>

lemma totp_keeps_sessions: "as_Refresh (SetTOTP i s st) = as_Refresh st" "as_Refresh (UpdateRole i r st) = as_Refresh st"
  by (simp_all add: account_updates)

end
