(* ===== verification/NetboxConfig.thy ===== *)
theory NetboxConfig
  imports Failover SyncPaths
begin

text \<open>
  \<open>internal/server/configgen/netbox.go\<close>: rendering of NetBox's \<open>configuration.py\<close> from a stored template.  Of
  \<open>text/template\<close> the actions that templates of the conductor use are modelled: \<open>{{.Field}}\<close>, \<open>{{if .Field}}\<close> and
  \<open>{{end}}\<close>, with their trim markers; any other action counts as one that does not parse.
\<close>

section \<open>Strings\<close>

text \<open>\<open>strings.ReplaceAll\<close> of a non-empty string; the number counts the characters of a match still to be skipped.\<close>

fun replace_from :: "string \<Rightarrow> string \<Rightarrow> nat \<Rightarrow> string \<Rightarrow> string" where
  "replace_from old new k [] = []"
| "replace_from old new (Suc k) (c # s) = replace_from old new k s"
| "replace_from old new 0 (c # s) =
     (if has_prefix old (c # s) then new @ replace_from old new (length old - 1) s else c # replace_from old new 0 s)"

definition ReplaceAll :: "string \<Rightarrow> string \<Rightarrow> string \<Rightarrow> string" where
  "ReplaceAll s old new = replace_from old new 0 s"

text \<open>\<open>%q\<close> of a string of printable characters.\<close>

definition quoted :: "string \<Rightarrow> string" where
  "quoted s = CHR 0x22 # concat (map (\<lambda>c. if c = CHR 0x22 \<or> c = CHR 0x5C then [CHR 0x5C, c] else [c]) s) @ [CHR 0x22]"

definition toPyList :: "string list \<Rightarrow> string" where
  "toPyList ss = (if ss = [] then ''[]'' else ''['' @ join '', '' (map quoted ss) @ '']'')"

text \<open>The address cut at its last colon.\<close>

definition sentinel_part :: "string \<Rightarrow> string" where
  "sentinel_part addr = (let (port, host) = (takeWhile (\<lambda>c. c \<noteq> CHR '':'') (rev addr), dropWhile (\<lambda>c. c \<noteq> CHR '':'') (rev addr)) in
     if host = [] then ''('' @ quoted addr @ '', 26379)''
     else ''('' @ quoted (rev (tl host)) @ '', '' @ rev port @ '')'')"

definition sentinelsPy :: "string list \<Rightarrow> string" where
  "sentinelsPy addrs = ''['' @ join '', '' (map sentinel_part addrs) @ '']''"

section \<open>Templates\<close>

datatype piece = PText string | PField string | PIf string | PEnd

definition tmpl_space :: "char \<Rightarrow> bool" where
  "tmpl_space c = (c \<in> {CHR '' '', CHR 0x09, CHR 0x0A, CHR 0x0D})"

definition ident_char :: "char \<Rightarrow> bool" where
  "ident_char c = (let n = (of_char c :: nat) in 48 \<le> n \<and> n \<le> 57 \<or> 65 \<le> n \<and> n \<le> 90 \<or> n = 95 \<or> 97 \<le> n \<and> n \<le> 122)"

definition field_name :: "string \<Rightarrow> string option" where
  "field_name w = (case w of [] \<Rightarrow> None
     | c # f \<Rightarrow> if c = CHR ''.'' \<and> f \<noteq> [] \<and> list_all ident_char f \<and> \<not> is_digit (hd f) then Some f else None)"

text \<open>The text between the braces: the trim markers and the action.\<close>

definition action_of :: "string list \<Rightarrow> piece option" where
  "action_of ws = (case ws of
      [w] \<Rightarrow> if w = ''end'' then Some PEnd else map_option PField (field_name w)
    | [w, v] \<Rightarrow> if w = ''if'' then map_option PIf (field_name v) else None
    | _ \<Rightarrow> None)"

definition tmpl_action :: "string \<Rightarrow> (bool \<times> piece \<times> bool) option" where
  "tmpl_action body =
     (let lt = (case body of a # b # _ \<Rightarrow> a = CHR ''-'' \<and> tmpl_space b | _ \<Rightarrow> False);
          body1 = (if lt then tl body else body);
          rt = (case rev body1 of a # b # _ \<Rightarrow> a = CHR ''-'' \<and> tmpl_space b | _ \<Rightarrow> False);
          body2 = (if rt then butlast body1 else body1)
      in map_option (\<lambda>p. (lt, p, rt)) (action_of (Fields body2)))"

definition trim_right :: "string \<Rightarrow> string" where
  "trim_right s = rev (dropWhile tmpl_space (rev s))"

fun trim_head :: "piece list \<Rightarrow> piece list" where
  "trim_head (PText t # ps) = PText (dropWhile tmpl_space t) # ps"
| "trim_head ps = ps"

function tmpl_lex :: "string \<Rightarrow> piece list option" where
  "tmpl_lex s = (case index_of ''{{'' s of
      None \<Rightarrow> Some [PText s]
    | Some i \<Rightarrow> (case index_of ''}}'' (drop (i + 2) s) of
        None \<Rightarrow> None
      | Some j \<Rightarrow> (case tmpl_action (take j (drop (i + 2) s)) of
          None \<Rightarrow> None
        | Some (lt, p, rt) \<Rightarrow>
            map_option (\<lambda>ps. PText (if lt then trim_right (take i s) else take i s) # p # (if rt then trim_head ps else ps))
              (tmpl_lex (drop (i + j + 4) s)))))"
  by pat_completeness auto
termination
proof (relation "measure length")
  fix s i j a b lt p rt
  assume "index_of ''{{'' s = Some i"
  then have "i + 2 \<le> length s" using index_of_bound [of "''{{''" s i] by simp
  then show "(drop (i + j + 4) s, s) \<in> measure length" by auto
qed simp

declare tmpl_lex.simps [simp del]

datatype tmpl_value = VStr string | VInt int | VBool bool | VList "string list"

fun print_value :: "tmpl_value \<Rightarrow> string" where
  "print_value (VStr s) = s"
| "print_value (VInt i) = itoa i"
| "print_value (VBool b) = (if b then ''true'' else ''false'')"
| "print_value (VList ss) = ''['' @ join '' '' ss @ '']''"

fun truth_value :: "tmpl_value \<Rightarrow> bool" where
  "truth_value (VStr s) = (s \<noteq> [])"
| "truth_value (VInt i) = (i \<noteq> 0)"
| "truth_value (VBool b) = b"
| "truth_value (VList ss) = (ss \<noteq> [])"

text \<open>The conditions of the open \<open>if\<close>s, innermost first.\<close>

fun tmpl_exec :: "(string \<Rightarrow> tmpl_value option) \<Rightarrow> bool list \<Rightarrow> piece list \<Rightarrow> string option" where
  "tmpl_exec data st [] = (if st = [] then Some [] else None)"
| "tmpl_exec data st (PText t # ps) = map_option ((@) (if list_all id st then t else [])) (tmpl_exec data st ps)"
| "tmpl_exec data st (PField f # ps) =
     (if list_all id st then (case data f of None \<Rightarrow> None | Some v \<Rightarrow> map_option ((@) (print_value v)) (tmpl_exec data st ps))
      else tmpl_exec data st ps)"
| "tmpl_exec data st (PIf f # ps) =
     (if list_all id st then (case data f of None \<Rightarrow> None | Some v \<Rightarrow> tmpl_exec data (truth_value v # st) ps)
      else tmpl_exec data (False # st) ps)"
| "tmpl_exec data st (PEnd # ps) = (case st of [] \<Rightarrow> None | _ # st' \<Rightarrow> tmpl_exec data st' ps)"

section \<open>Rendering\<close>

record render_input =
  ri_SecretKey :: string
  ri_APITokenPepper :: string
  ri_DBHost :: string
  ri_DBPort :: int
  ri_DBName :: string
  ri_DBUser :: string
  ri_DBPassword :: string
  ri_AllowedHosts :: "string list"
  ri_RedisHost :: string
  ri_RedisTasksPassword :: string
  ri_RedisCachingPassword :: string
  ri_SentinelAddrs :: "string list"
  ri_PatroniScope :: string
  ri_NetboxVersion :: string

definition render_defaults :: "render_input \<Rightarrow> render_input" where
  "render_defaults r = r
     \<lparr>ri_DBPort := (if ri_DBPort r = 0 then 5432 else ri_DBPort r),
      ri_RedisHost := (if ri_RedisHost r = [] then ''127.0.0.1'' else ri_RedisHost r),
      ri_SentinelAddrs := (if ri_SentinelAddrs r = [] then [''127.0.0.1:26379''] else ri_SentinelAddrs r)\<rparr>"

text \<open>The fields a template may name.\<close>

definition render_data :: "render_input \<Rightarrow> string \<Rightarrow> tmpl_value option" where
  "render_data r = map_of
     [(''SecretKey'', VStr (ri_SecretKey r)), (''APITokenPepper'', VStr (ri_APITokenPepper r)), (''DBHost'', VStr (ri_DBHost r)),
      (''DBPort'', VInt (ri_DBPort r)), (''DBName'', VStr (ri_DBName r)), (''DBUser'', VStr (ri_DBUser r)),
      (''DBPassword'', VStr (ri_DBPassword r)), (''AllowedHosts'', VList (ri_AllowedHosts r)), (''RedisHost'', VStr (ri_RedisHost r)),
      (''RedisTasksPassword'', VStr (ri_RedisTasksPassword r)), (''RedisCachingPassword'', VStr (ri_RedisCachingPassword r)),
      (''SentinelAddrs'', VList (ri_SentinelAddrs r)), (''PatroniScope'', VStr (ri_PatroniScope r)),
      (''NetboxVersion'', VStr (ri_NetboxVersion r)), (''AllowedHostsPy'', VStr (toPyList (ri_AllowedHosts r))),
      (''SentinelsPy'', VStr (sentinelsPy (ri_SentinelAddrs r))), (''IsFourX'', VBool (has_prefix ''4'' (ri_NetboxVersion r)))]"

text \<open>\<open>tick\<close> puts single quotes for tildes.\<close>

definition tick :: "string \<Rightarrow> string" where
  "tick s = map (\<lambda>c. if c = CHR ''~'' then CHR 0x27 else c) s"

definition legacy_pepper :: string where
  "legacy_pepper = tick ''{0: ~{{.APITokenPepper}}~}''"

definition Render_text :: "string \<Rightarrow> render_input \<Rightarrow> string option" where
  "Render_text tmplSrc r =
     Option.bind (tmpl_lex (ReplaceAll tmplSrc legacy_pepper ''{{.APITokenPepper}}'')) (tmpl_exec (render_data (render_defaults r)) [])"

text \<open>The content with its hash; \<open>None\<close> for a template that does not parse or run.\<close>

definition Render :: "(string \<Rightarrow> string) \<Rightarrow> string \<Rightarrow> render_input \<Rightarrow> (string \<times> string) option" where
  "Render sha256 tmplSrc r = map_option (\<lambda>content. (content, hex_encode (sha256 content))) (Render_text tmplSrc r)"

text \<open>The braces from a position to the one that closes them: the number of characters.\<close>

fun brace_len :: "nat \<Rightarrow> nat \<Rightarrow> string \<Rightarrow> nat option" where
  "brace_len n depth [] = None"
| "brace_len n depth (c # s) =
     (if c = CHR ''{'' then brace_len (Suc n) (Suc depth) s
      else if c = CHR ''}'' then (if depth = 1 then Some (Suc n) else brace_len (Suc n) (depth - 1) s)
      else brace_len (Suc n) depth s)"

definition findRedisBlock :: "string \<Rightarrow> (nat \<times> nat) option" where
  "findRedisBlock src = (case index_of ''REDIS = {'' src of
      None \<Rightarrow> None
    | Some i \<Rightarrow> map_option (\<lambda>n. (i, i + n)) (brace_len 0 0 (drop i src)))"

definition unlines :: "string list \<Rightarrow> string" where
  "unlines ls = join [CHR 0x0A] ls"

definition redisHostBlock :: string where
  "redisHostBlock = tick (unlines [
     ''REDIS = {'',
     ''    ~tasks~: {'',
     ''        ~HOST~: ~{{.RedisHost}}~,'',
     ''        ~PORT~: 6379,'',
     ''        ~PASSWORD~: ~{{.RedisTasksPassword}}~,'',
     ''        ~DATABASE~: 0,'',
     ''        ~SSL~: False,'',
     ''    },'',
     ''    ~caching~: {'',
     ''        ~HOST~: ~{{.RedisHost}}~,'',
     ''        ~PORT~: 6379,'',
     ''        ~PASSWORD~: ~{{.RedisCachingPassword}}~,'',
     ''        ~DATABASE~: 1,'',
     ''        ~SSL~: False,'',
     ''    },'',
     ''}''])"

definition MigrateRedisToHost :: "string \<Rightarrow> string" where
  "MigrateRedisToHost src = (case findRedisBlock src of
      None \<Rightarrow> src
    | Some (a, b) \<Rightarrow> let block = take (b - a) (drop a src) in
        if \<not> contains block ''SENTINELS'' \<and> contains block (tick ''~HOST~'') then src
        else take a src @ redisHostBlock @ drop b src)"

definition DefaultTemplate :: string where
  "DefaultTemplate = tick (unlines [
     ''# Generated by netbox-conductor '' @ [CHR 0xE2, CHR 0x80, CHR 0x94] @ '' do not edit manually.'',
     ''# Edit the template in the Configuration tab, then re-push to apply changes.'',
     [],
     ''###########################################################'',
     ''# Django'',
     ''###########################################################'',
     [],
     ''ALLOWED_HOSTS = {{.AllowedHostsPy}}'',
     [],
     ''SECRET_KEY = ~{{.SecretKey}}~'',
     ''{{- if .IsFourX}}'',
     ''API_TOKEN_PEPPERS = {{.APITokenPepper}}'',
     ''{{- end}}'',
     [],
     ''DEBUG = False'',
     [],
     ''###########################################################'',
     ''# Database (Patroni primary)'',
     ''###########################################################'',
     [],
     ''DATABASE = {'',
     ''    ~ENGINE~: ~django.db.backends.postgresql~,'',
     ''    ~NAME~: ~{{.DBName}}~,'',
     ''    ~USER~: ~{{.DBUser}}~,'',
     ''    ~PASSWORD~: ~{{.DBPassword}}~,'',
     ''    ~HOST~: ~{{.DBHost}}~,'',
     ''    ~PORT~: ~{{.DBPort}}~,'',
     ''    ~CONN_MAX_AGE~: 300,'',
     ''}'',
     [],
     ''###########################################################'',
     ''# Redis'',
     ''###########################################################'',
     [],
     ''REDIS = {'',
     ''    ~tasks~: {'',
     ''        ~HOST~: ~{{.RedisHost}}~,'',
     ''        ~PORT~: 6379,'',
     ''        ~PASSWORD~: ~{{.RedisTasksPassword}}~,'',
     ''        ~DATABASE~: 0,'',
     ''        ~SSL~: False,'',
     ''    },'',
     ''    ~caching~: {'',
     ''        ~HOST~: ~{{.RedisHost}}~,'',
     ''        ~PORT~: 6379,'',
     ''        ~PASSWORD~: ~{{.RedisCachingPassword}}~,'',
     ''        ~DATABASE~: 1,'',
     ''        ~SSL~: False,'',
     ''    },'',
     ''}'',
     [],
     ''###########################################################'',
     ''# Logging'',
     ''###########################################################'',
     [],
     ''LOGGING = {'',
     ''    ~version~: 1,'',
     ''    ~disable_existing_loggers~: False,'',
     ''    ~handlers~: {'',
     ''        ~console~: {'',
     ''            ~class~: ~logging.StreamHandler~,'',
     ''        },'',
     ''    },'',
     ''    ~root~: {'',
     ''        ~handlers~: [~console~],'',
     ''    },'',
     ''}'',
     []])"

end
