(* ===== verification/ConfigHandlers.thy ===== *)
theory ConfigHandlers
  imports NetboxConfig Crypto
begin

text \<open>
  Versions of NetBox's configuration and how they reach the nodes: \<open>internal/server/api/handlers/configs.go\<close>,
  \<open>credentials.go\<close>, the rows of \<open>internal/server/db/queries/configs.go\<close> and \<open>credentials.go\<close>, and the check the agent
  makes before it writes (\<open>checkSHA256\<close> of \<open>internal/agent/executor/configwriter.go\<close>).
\<close>

section \<open>Rows\<close>

record credential =
  ce_ClusterID :: uuid
  ce_Kind :: string
  ce_Username :: string
  ce_PasswordEnc :: string
  ce_DBName :: "string option"
  ce_CreatedAt :: instant
  ce_RotatedAt :: "instant option"

record netbox_config =
  cn_ID :: uuid
  cn_ClusterID :: uuid
  cn_Version :: int
  cn_ConfigTemplate :: string
  cn_RenderedHash :: "string option"
  cn_PushedAt :: "instant option"
  cn_PushStatus :: "string option"

record config_override =
  co_ConfigID :: uuid
  co_NodeID :: uuid
  co_Key :: string
  co_Value :: string

text \<open>What rendering reads of a cluster besides its mode and settings.\<close>

record render_cluster =
  rc_Cluster :: cluster
  rc_VIP :: "string option"
  rc_PatroniScope :: string
  rc_NetboxVersion :: string

record config_world =
  fw_Clusters :: "render_cluster list"
  fw_Nodes :: "node list"
  fw_Creds :: "credential list"
  fw_Configs :: "netbox_config list"
  fw_Overrides :: "config_override list"

definition GetByKind :: "uuid \<Rightarrow> string \<Rightarrow> credential list \<Rightarrow> credential option" where
  "GetByKind c k = find (\<lambda>ce. ce_ClusterID ce = c \<and> ce_Kind ce = k)"

definition UpsertCredential :: "instant \<Rightarrow> uuid \<Rightarrow> string \<Rightarrow> string \<Rightarrow> string \<Rightarrow> string option \<Rightarrow> credential list \<Rightarrow> credential list" where
  "UpsertCredential now c k user enc db ces =
     (if GetByKind c k ces = None
      then ces @ [\<lparr>ce_ClusterID = c, ce_Kind = k, ce_Username = user, ce_PasswordEnc = enc, ce_DBName = db, ce_CreatedAt = now, ce_RotatedAt = None\<rparr>]
      else map (\<lambda>ce. if ce_ClusterID ce = c \<and> ce_Kind ce = k
        then ce\<lparr>ce_Username := user, ce_PasswordEnc := enc, ce_DBName := db, ce_RotatedAt := Some now\<rparr> else ce) ces)"

definition cluster_versions :: "uuid \<Rightarrow> netbox_config list \<Rightarrow> int list" where
  "cluster_versions c cfgs = map cn_Version (filter (\<lambda>f. cn_ClusterID f = c) cfgs)"

definition GetLatest :: "uuid \<Rightarrow> netbox_config list \<Rightarrow> netbox_config option" where
  "GetLatest c cfgs = (case sort_key (\<lambda>f. - cn_Version f) (filter (\<lambda>f. cn_ClusterID f = c) cfgs) of [] \<Rightarrow> None | f # _ \<Rightarrow> Some f)"

definition GetByVersion :: "uuid \<Rightarrow> int \<Rightarrow> netbox_config list \<Rightarrow> netbox_config option" where
  "GetByVersion c v = find (\<lambda>f. cn_ClusterID f = c \<and> cn_Version f = v)"

definition CreateConfig :: "uuid \<Rightarrow> uuid \<Rightarrow> string \<Rightarrow> netbox_config list \<Rightarrow> netbox_config \<times> netbox_config list" where
  "CreateConfig i c tmpl cfgs =
     (let f = \<lparr>cn_ID = i, cn_ClusterID = c, cn_Version = foldl max 0 (cluster_versions c cfgs) + 1, cn_ConfigTemplate = tmpl,
               cn_RenderedHash = None, cn_PushedAt = None, cn_PushStatus = None\<rparr>
      in (f, cfgs @ [f]))"

definition UpdatePushStatus :: "instant \<Rightarrow> uuid \<Rightarrow> string \<Rightarrow> string \<Rightarrow> netbox_config list \<Rightarrow> netbox_config list" where
  "UpdatePushStatus now i status hash = map (\<lambda>f. if cn_ID f = i
     then f\<lparr>cn_PushStatus := Some status, cn_RenderedHash := Some hash, cn_PushedAt := Some now\<rparr> else f)"

definition ListOverrides :: "uuid \<Rightarrow> config_override list \<Rightarrow> config_override list" where
  "ListOverrides i ovs = sort_key co_NodeID (sort_key co_Key (filter (\<lambda>o'. co_ConfigID o' = i) ovs))"

section \<open>Credentials\<close>

definition validCredKinds :: "string list" where
  "validCredKinds = [''postgres_superuser'', ''postgres_replication'', ''netbox_db_user'', ''redis_tasks_password'', ''redis_caching_password'',
     ''netbox_secret_key'', ''netbox_api_token_pepper'', ''patroni_rest_password'']"

definition autoGenDefaults :: "(string \<times> string \<times> string option) list" where
  "autoGenDefaults = [(''postgres_superuser'', ''postgres'', None), (''postgres_replication'', ''replicator'', None),
     (''netbox_db_user'', ''netbox'', Some ''netbox''), (''redis_tasks_password'', [], None), (''patroni_rest_password'', ''patroni'', None)]"

text \<open>What a request meets: the queries, by kind of credential and by node, the random bytes of a generated credential by its
  kind, the identifier of a new row, and the outcome of a dispatch.\<close>

record config_env =
  fe_Now :: instant
  fe_NewID :: uuid
  fe_Seal :: seal
  fe_Unseal :: unseal
  fe_Key :: string
  fe_SHA256 :: "string \<Rightarrow> string"
  fe_Random :: "string \<Rightarrow> random"
  fe_Nonce :: "string \<Rightarrow> random"
  fe_Cluster :: bool
  fe_Cred :: "string \<Rightarrow> bool"
  fe_Creds :: bool
  fe_Store :: "string \<Rightarrow> bool"
  fe_List :: bool
  fe_Node :: "uuid \<Rightarrow> bool"
  fe_Latest :: bool
  fe_Version :: bool
  fe_Create :: bool
  fe_Overrides :: bool
  fe_Push :: bool
  fe_Dispatch :: "uuid \<Rightarrow> string option"

definition generateCredential :: "config_env \<Rightarrow> uuid \<Rightarrow> string \<Rightarrow> string \<Rightarrow> string option \<Rightarrow> credential list \<Rightarrow> (string \<times> credential list) option" where
  "generateCredential E c kind user db ces = (case GenerateToken (fe_Random E kind) 32 of
      None \<Rightarrow> None
    | Some raw \<Rightarrow> (case Encrypt (fe_Seal E) (fe_Nonce E kind) (fe_Key E) raw of
        None \<Rightarrow> None
      | Some enc \<Rightarrow> if fe_Store E kind then Some (raw, UpsertCredential (fe_Now E) c kind user enc db ces) else None))"

text \<open>The generated passwords so far and the table; the flag is false when a credential could not be generated.\<close>

fun generate_kinds :: "config_env \<Rightarrow> uuid \<Rightarrow> (string \<times> string \<times> string option) list \<Rightarrow> credential list
    \<Rightarrow> bool \<times> (string \<times> string) list \<times> credential list" where
  "generate_kinds E c [] ces = (True, [], ces)"
| "generate_kinds E c ((kind, user, db) # defs) ces = (case generateCredential E c kind user db ces of
      None \<Rightarrow> (False, [], ces)
    | Some (raw, ces') \<Rightarrow> (case generate_kinds E c defs ces' of (ok, out, ces'') \<Rightarrow> (ok, (kind, raw) # out, ces'')))"

definition GenerateCredentials :: "config_env \<Rightarrow> uuid option \<Rightarrow> bool \<Rightarrow> credential list \<Rightarrow> ((int \<times> string) + (string \<times> string) list) \<times> credential list" where
  "GenerateCredentials E cid missingOnly ces = (case cid of
      None \<Rightarrow> (Inl (400, ''invalid cluster id''), ces)
    | Some c \<Rightarrow>
        if missingOnly \<and> \<not> fe_Creds E then (Inl (500, ''failed to list credentials''), ces)
        else (case generate_kinds E c (filter (\<lambda>(k, _). \<not> (missingOnly \<and> GetByKind c k ces \<noteq> None)) autoGenDefaults) ces of
            (False, _, ces') \<Rightarrow> (Inl (500, ''failed to generate credential''), ces')
          | (True, out, ces') \<Rightarrow> (Inr out, ces')))"

text \<open>The characters a value must not have: quotes, backslashes, spaces and control characters.\<close>

definition unsafe_char :: "char \<Rightarrow> bool" where
  "unsafe_char c = (let n = (of_char c :: nat) in c \<in> {CHR 0x27, CHR 0x22, CHR 0x5C} \<or> is_space c \<or> n < 32 \<or> n = 127)"

definition UpsertCred :: "config_env \<Rightarrow> uuid option \<Rightarrow> string \<Rightarrow> (string \<times> string \<times> string option) option \<Rightarrow> credential list
    \<Rightarrow> ((int \<times> string) + credential) \<times> credential list" where
  "UpsertCred E cid kind body ces = (case cid of
      None \<Rightarrow> (Inl (400, ''invalid cluster id''), ces)
    | Some c \<Rightarrow>
        if kind \<notin> set validCredKinds then (Inl (400, ''invalid credential kind''), ces)
        else (case body of
            None \<Rightarrow> (Inl (400, ''invalid request body''), ces)
          | Some (user, pw, db) \<Rightarrow>
              if pw = [] then (Inl (400, ''password is required''), ces)
              else if kind \<noteq> ''netbox_api_token_pepper'' \<and> list_ex unsafe_char pw
              then (Inl (400, ''password must not contain quotes, backslashes, spaces or control characters''), ces)
              else (case Encrypt (fe_Seal E) (fe_Nonce E kind) (fe_Key E) pw of
                  None \<Rightarrow> (Inl (500, ''failed to encrypt password''), ces)
                | Some enc \<Rightarrow>
                    if \<not> fe_Store E kind then (Inl (500, ''failed to save credential''), ces)
                    else let ces' = UpsertCredential (fe_Now E) c kind user enc db ces in
                      (case (if fe_Cred E kind then GetByKind c kind ces' else None) of
                         None \<Rightarrow> (Inl (500, ''failed to fetch saved credential''), ces')
                       | Some ce \<Rightarrow> (Inr ce, ces')))))"

section \<open>The input of a rendering\<close>

definition cred_of :: "config_env \<Rightarrow> config_world \<Rightarrow> uuid \<Rightarrow> string \<Rightarrow> credential option" where
  "cred_of E w c kind = (if fe_Cred E kind then GetByKind c kind (fw_Creds w) else None)"

definition secret_of :: "config_env \<Rightarrow> config_world \<Rightarrow> uuid \<Rightarrow> string \<Rightarrow> string option" where
  "secret_of E w c kind = Option.bind (cred_of E w c kind) (\<lambda>ce. Decrypt (fe_Unseal E) (fe_Key E) (ce_PasswordEnc ce))"

definition text_of :: "string option \<Rightarrow> string" where
  "text_of o' = (case o' of None \<Rightarrow> [] | Some s \<Rightarrow> s)"

definition render_pepper :: "string \<Rightarrow> string" where
  "render_pepper v =
     (let p = (if v \<noteq> [] \<and> \<not> has_prefix ''{'' v then tick ''{0: ~'' @ v @ tick ''~}'' else v) in if p = [] then ''{}'' else p)"

definition primary_ip :: "node list \<Rightarrow> string" where
  "primary_ip ns = (case find (\<lambda>n. ExtractPatroniRole (nd_PatroniState n) \<in> {''primary'', ''master''}) ns of
      None \<Rightarrow> [] | Some n \<Rightarrow> ip_of n)"

definition renderInputFor :: "config_env \<Rightarrow> config_world \<Rightarrow> uuid \<Rightarrow> uuid \<Rightarrow> string + render_input" where
  "renderInputFor E w c nodeID =
     (case (if fe_Cluster E then find (\<lambda>rc. cl_ID (rc_Cluster rc) = c) (fw_Clusters w) else None) of
        None \<Rightarrow> Inl ''cluster not found''
      | Some rc \<Rightarrow>
          (let cl = rc_Cluster rc;
               db = cred_of E w c ''netbox_db_user'';
               redis = text_of (secret_of E w c ''redis_tasks_password'');
               allNodes = (if fe_List E then ListByCluster (fw_Nodes w) c else []);
               shared = (cl_Mode cl = ''active_standby'' \<and> cl_AppTierAlwaysAvailable cl);
               hosts = (if nodeID \<noteq> Nil_uuid
                  then (case (if fe_Node E nodeID then GetByID (fw_Nodes w) nodeID else None) of
                      None \<Rightarrow> [] | Some n \<Rightarrow> [nd_Hostname n, ip_of n])
                  else (case allNodes of [] \<Rightarrow> [] | n # _ \<Rightarrow> [nd_Hostname n, ip_of n]))
           in Inr \<lparr>ri_SecretKey = text_of (secret_of E w c ''netbox_secret_key''),
               ri_APITokenPepper = render_pepper (text_of (secret_of E w c ''netbox_api_token_pepper'')),
               ri_DBHost = (if shared then (if primary_ip allNodes \<noteq> [] then primary_ip allNodes
                                            else case allNodes of [] \<Rightarrow> [] | n # _ \<Rightarrow> ip_of n)
                            else ''127.0.0.1''),
               ri_DBPort = 5432,
               ri_DBName = (case db of None \<Rightarrow> ''netbox'' | Some ce \<Rightarrow> (case ce_DBName ce of None \<Rightarrow> ''netbox'' | Some d \<Rightarrow> d)),
               ri_DBUser = (case db of None \<Rightarrow> ''netbox'' | Some ce \<Rightarrow> ce_Username ce),
               ri_DBPassword = text_of (secret_of E w c ''netbox_db_user''),
               ri_AllowedHosts = hosts @ (case rc_VIP rc of None \<Rightarrow> [] | Some v \<Rightarrow> [v]),
               ri_RedisHost = (if shared then primary_ip allNodes else []),
               ri_RedisTasksPassword = redis, ri_RedisCachingPassword = redis,
               ri_SentinelAddrs = map (\<lambda>n. ip_of n @ '':26379'') (filter (\<lambda>n. IsAppRole (nd_Role n)) allNodes),
               ri_PatroniScope = rc_PatroniScope rc, ri_NetboxVersion = rc_NetboxVersion rc\<rparr>))"

section \<open>Pushing a version\<close>

text \<open>A \<open>config.write\<close> task: the node, the content, its hash, and whether NetBox is restarted.\<close>

record write_task =
  wt_Node :: uuid
  wt_Content :: string
  wt_Sha256 :: string
  wt_Restart :: bool

datatype push_status = Pushed | PushOffline string | PushError string

definition override_text :: "config_override list \<Rightarrow> uuid \<Rightarrow> string" where
  "override_text ovs n = concat (map (\<lambda>o'. [CHR 0x0A] @ co_Key o' @ '' = '' @ co_Value o' @ [CHR 0x0A]) (filter (\<lambda>o'. co_NodeID o' = n) ovs))"

text \<open>One node: what is reported of it, and the task.\<close>

definition push_node :: "config_env \<Rightarrow> config_world \<Rightarrow> uuid \<Rightarrow> string \<Rightarrow> config_override list \<Rightarrow> bool \<Rightarrow> uuid \<Rightarrow> push_status \<times> write_task option" where
  "push_node E w c tmpl ovs restart n = (case renderInputFor E w c n of
      Inl e \<Rightarrow> (PushError e, None)
    | Inr input \<Rightarrow> (case Render (fe_SHA256 E) tmpl input of
        None \<Rightarrow> (PushError ''render error'', None)
      | Some (content, sha) \<Rightarrow>
          (let t = \<lparr>wt_Node = n, wt_Content = content @ override_text ovs n, wt_Sha256 = sha, wt_Restart = restart\<rparr>
           in case fe_Dispatch E n of Some e \<Rightarrow> (PushOffline e, None) | None \<Rightarrow> (Pushed, Some t))))"

definition overall :: "(push_status \<times> write_task option) list \<Rightarrow> string" where
  "overall rs = (let k = length (filter (\<lambda>(s, t). s = Pushed) rs) in
     if k = 0 then ''failed'' else if k < length rs then ''partial'' else ''success'')"

text \<open>The configuration as saved and pushed, the overall status, and for every node its status and task.\<close>

type_synonym push_answer = "(int \<times> string) + (netbox_config \<times> string \<times> (push_status \<times> write_task option) list)"

definition pushed_rows :: "config_env \<Rightarrow> netbox_config \<Rightarrow> string \<Rightarrow> config_world \<Rightarrow> config_world" where
  "pushed_rows E f st w = (if fe_Push E then w\<lparr>fw_Configs := UpdatePushStatus (fe_Now E) (cn_ID f) st [] (fw_Configs w)\<rparr> else w)"

definition Push :: "config_env \<Rightarrow> uuid option \<Rightarrow> int option \<Rightarrow> bool \<Rightarrow> config_world \<Rightarrow> push_answer \<times> config_world" where
  "Push E cid ver restartAfter w = (case cid of
      None \<Rightarrow> (Inl (400, ''invalid cluster id''), w)
    | Some c \<Rightarrow> (case ver of
        None \<Rightarrow> (Inl (400, ''invalid version''), w)
      | Some v \<Rightarrow> (case (if fe_Version E then GetByVersion c v (fw_Configs w) else None) of
          None \<Rightarrow> (Inl (404, ''config version not found''), w)
        | Some f \<Rightarrow>
            if \<not> fe_List E then (Inl (500, ''failed to list nodes''), w)
            else (let ovs = (if fe_Overrides E then ListOverrides (cn_ID f) (fw_Overrides w) else []);
                      rs = map (\<lambda>n. push_node E w c (cn_ConfigTemplate f) ovs (restartAfter \<and> nd_NetboxRunning n = Some True) (nd_ID n))
                             (ListByCluster (fw_Nodes w) c)
                  in (Inr (f, overall rs, rs), pushed_rows E f (overall rs) w)))))"

section \<open>Syncing one node's configuration to others\<close>

definition strip_kinds :: "(string \<times> string) list" where
  "strip_kinds = [(''netbox_secret_key'', ''{{.SecretKey}}''), (''netbox_api_token_pepper'', ''{{.APITokenPepper}}''),
     (''netbox_db_user'', ''{{.DBPassword}}''), (''redis_tasks_password'', ''{{.RedisTasksPassword}}''),
     (''redis_caching_password'', ''{{.RedisCachingPassword}}'')]"

definition strip_one :: "config_env \<Rightarrow> config_world \<Rightarrow> uuid \<Rightarrow> string \<Rightarrow> string \<times> string \<Rightarrow> string" where
  "strip_one E w c s kp = (case secret_of E w c (fst kp) of
      None \<Rightarrow> s
    | Some p \<Rightarrow> if p = [] then s else ReplaceAll s p (snd kp))"

definition stripSecrets :: "config_env \<Rightarrow> config_world \<Rightarrow> uuid \<Rightarrow> string \<Rightarrow> string" where
  "stripSecrets E w c content = foldl (strip_one E w c) content strip_kinds"

text \<open>The destinations are parsed identifiers; \<open>None\<close> is one that does not parse.\<close>

definition sync_node :: "config_env \<Rightarrow> config_world \<Rightarrow> uuid \<Rightarrow> string \<Rightarrow> bool \<Rightarrow> uuid option \<Rightarrow> push_status \<times> write_task option" where
  "sync_node E w c tmpl restart dest = (case dest of
      None \<Rightarrow> (PushError ''invalid node id'', None)
    | Some n \<Rightarrow> (case (if fe_Node E n then GetByID (fw_Nodes w) n else None) of
        None \<Rightarrow> (PushError ''node not found'', None)
      | Some nd \<Rightarrow> if nd_ClusterID nd \<noteq> c then (PushError ''node not found'', None) else push_node E w c tmpl [] restart n))"

definition SyncConfig :: "config_env \<Rightarrow> uuid option \<Rightarrow> (string \<times> uuid option list \<times> bool) option \<Rightarrow> config_world \<Rightarrow> push_answer \<times> config_world" where
  "SyncConfig E cid body w = (case cid of
      None \<Rightarrow> (Inl (400, ''invalid cluster id''), w)
    | Some c \<Rightarrow> (case body of
        None \<Rightarrow> (Inl (400, ''content and destination_node_ids are required''), w)
      | Some (content, dests, restart) \<Rightarrow>
          if content = [] \<or> dests = [] then (Inl (400, ''content and destination_node_ids are required''), w)
          else if \<not> fe_Create E then (Inl (500, ''failed to save config template''), w)
          else (case CreateConfig (fe_NewID E) c (stripSecrets E w c content) (fw_Configs w) of (f, cfgs) \<Rightarrow>
              let w' = w\<lparr>fw_Configs := cfgs\<rparr>; rs = map (sync_node E w' c (cn_ConfigTemplate f) restart) dests
              in (Inr (f, overall rs, rs), pushed_rows E f (overall rs) w'))))"

section \<open>Saving and showing\<close>

definition SaveConfig :: "config_env \<Rightarrow> uuid option \<Rightarrow> string option \<Rightarrow> config_world \<Rightarrow> ((int \<times> string) + netbox_config) \<times> config_world" where
  "SaveConfig E cid body w = (case cid of
      None \<Rightarrow> (Inl (400, ''invalid cluster id''), w)
    | Some c \<Rightarrow>
        if body = None \<or> body = Some [] then (Inl (400, ''config_template is required''), w)
        else if \<not> fe_Create E then (Inl (500, ''failed to save config''), w)
        else (case CreateConfig (fe_NewID E) c (the body) (fw_Configs w) of (f, cfgs) \<Rightarrow> (Inr f, w\<lparr>fw_Configs := cfgs\<rparr>)))"

definition GetOrCreate :: "config_env \<Rightarrow> uuid option \<Rightarrow> config_world
    \<Rightarrow> ((int \<times> string) + (netbox_config \<times> bool \<times> config_override list)) \<times> config_world" where
  "GetOrCreate E cid w = (case cid of
      None \<Rightarrow> (Inl (400, ''invalid cluster id''), w)
    | Some c \<Rightarrow> (let shown = (\<lambda>f. if fe_Overrides E then ListOverrides (cn_ID f) (fw_Overrides w) else []) in
        (case (if fe_Latest E then GetLatest c (fw_Configs w) else None) of
           Some f \<Rightarrow> (Inr (f, False, shown f), w)
         | None \<Rightarrow>
             if \<not> fe_Cluster E \<or> find (\<lambda>rc. cl_ID (rc_Cluster rc) = c) (fw_Clusters w) = None then (Inl (404, ''cluster not found''), w)
             else if \<not> fe_Create E then (Inl (500, ''failed to create default config''), w)
             else (case CreateConfig (fe_NewID E) c DefaultTemplate (fw_Configs w) of (f, cfgs) \<Rightarrow>
                 (Inr (f, True, shown f), w\<lparr>fw_Configs := cfgs\<rparr>)))))"

text \<open>The template of the request, or the latest one; \<open>Some None\<close> for a node id that does not parse.\<close>

definition Preview :: "config_env \<Rightarrow> uuid option \<Rightarrow> string \<Rightarrow> uuid option option \<Rightarrow> config_world \<Rightarrow> (int \<times> string) + (string \<times> string)" where
  "Preview E cid tmpl node w = (case cid of
      None \<Rightarrow> Inl (400, ''invalid cluster id'')
    | Some c \<Rightarrow> (case (if tmpl \<noteq> [] then Some tmpl
                     else map_option cn_ConfigTemplate (if fe_Latest E then GetLatest c (fw_Configs w) else None)) of
        None \<Rightarrow> Inl (404, ''no config saved yet'')
      | Some src \<Rightarrow> (case (case node of None \<Rightarrow> Some Nil_uuid | Some i \<Rightarrow> i) of
          None \<Rightarrow> Inl (400, ''invalid node_id'')
        | Some n \<Rightarrow> (case renderInputFor E w c n of
            Inl e \<Rightarrow> Inl (500, e)
          | Inr input \<Rightarrow> (case Render (fe_SHA256 E) src input of
              None \<Rightarrow> Inl (400, ''template render error'')
            | Some r \<Rightarrow> Inr r)))))"

section \<open>The agent\<close>

definition checkSHA256 :: "(string \<Rightarrow> string) \<Rightarrow> string \<Rightarrow> string \<Rightarrow> bool" where
  "checkSHA256 sha256 content want = (want = [] \<or> hex_encode (sha256 content) = want)"

end
