(* ===== verification/ConfigSync.thy ===== *)
theory ConfigSync
  imports ConfigHandlers
begin

text \<open>
  Syncing a configuration: the template that is saved holds none of the cluster's secrets, and rendering it gives the
  source's content back.  A text is read as characters and placeholders; replacing a secret works on the characters only
  when the secret does not meet a placeholder.
\<close>

section \<open>Texts with placeholders\<close>

datatype tok = Lit char | Hole string

definition hole_text :: "string \<Rightarrow> string" where
  "hole_text f = ''{{.'' @ f @ ''}}''"

fun flat :: "tok list \<Rightarrow> string" where
  "flat [] = []"
| "flat (Lit c # ts) = c # flat ts"
| "flat (Hole f # ts) = hole_text f @ flat ts"

fun meaning :: "(string \<Rightarrow> string) \<Rightarrow> tok list \<Rightarrow> string" where
  "meaning v [] = []"
| "meaning v (Lit c # ts) = c # meaning v ts"
| "meaning v (Hole f # ts) = v f @ meaning v ts"

definition lits :: "string \<Rightarrow> tok list" where
  "lits s = map Lit s"

lemma lits_simps [simp]: "lits [] = []" "lits (c # s) = Lit c # lits s" "length (lits s) = length s"
  by (simp_all add: lits_def)

lemma flat_append [simp]: "flat (xs @ ys) = flat xs @ flat ys"
  by (induction xs rule: flat.induct) auto

lemma flat_lits [simp]: "flat (lits s) = s"
  by (induction s) auto

lemma meaning_append [simp]: "meaning v (xs @ ys) = meaning v xs @ meaning v ys"
  by (induction v xs rule: meaning.induct) auto

lemma meaning_lits [simp]: "meaning v (lits s) = s"
  by (induction s) auto

section \<open>Replacing in the characters\<close>

definition lit_match :: "string \<Rightarrow> tok list \<Rightarrow> bool" where
  "lit_match p ts = (take (length p) ts = lits p)"

fun rep :: "string \<Rightarrow> string \<Rightarrow> nat \<Rightarrow> tok list \<Rightarrow> tok list" where
  "rep p f k [] = []"
| "rep p f (Suc k) (t # ts) = rep p f k ts"
| "rep p f 0 (Hole g # ts) = Hole g # rep p f 0 ts"
| "rep p f 0 (Lit c # ts) = (if lit_match p (Lit c # ts) then Hole f # rep p f (length p - 1) ts else Lit c # rep p f 0 ts)"

lemma rep_skip: "rep p f k ts = rep p f 0 (drop k ts)"
proof (induction k arbitrary: ts)
  case (Suc k)
  then show ?case by (cases ts) auto
qed simp

lemma replace_skip: "replace_from old new k s = replace_from old new 0 (drop k s)"
proof (induction k arbitrary: s)
  case (Suc k)
  then show ?case by (cases s) auto
qed simp

lemma lit_match_split: "lit_match p ts \<Longrightarrow> ts = lits p @ drop (length p) ts"
  by (metis append_take_drop_id lit_match_def)

lemma rep_match:
  assumes "p \<noteq> []" "lit_match p (Lit c # ts)"
  shows "\<exists>q rest. p = c # q \<and> ts = lits q @ rest \<and> (\<forall>f. rep p f 0 (Lit c # ts) = Hole f # rep p f 0 rest)
    \<and> (\<forall>new. replace_from p new (length p - 1) (flat ts) = replace_from p new 0 (flat rest))"
proof -
  obtain d q where p: "p = d # q" using assms(1) by (cases p) auto
  obtain rest where rest: "rest = drop (length q) ts" by blast
  have "Lit c # ts = Lit d # lits q @ rest" using lit_match_split [OF assms(2)] p rest by simp
  then have e: "p = c # q" "ts = lits q @ rest" using p by auto
  have f: "flat ts = q @ flat rest" unfolding e(2) by simp
  have l: "length p - 1 = length q" using e(1) by simp
  have "rep p f 0 (Lit c # ts) = Hole f # rep p f 0 rest" for f
    using assms(2) rep_skip [of p f "length q" ts] l rest by simp
  moreover have "replace_from p new (length p - 1) (flat ts) = replace_from p new 0 (flat rest)" for new
    unfolding l f using replace_skip [of p new "length q" "q @ flat rest"] by simp
  ultimately show ?thesis using e by blast
qed

lemma meaning_rep:
  assumes "p \<noteq> []" "v f = p"
  shows "meaning v (rep p f 0 ts) = meaning v ts"
proof (induction ts rule: length_induct)
  case (1 ts)
  show ?case
  proof (cases ts)
    case (Cons t us)
    show ?thesis
    proof (cases t)
      case (Hole g)
      then show ?thesis using Cons 1 by simp
    next
      case (Lit c)
      show ?thesis
      proof (cases "lit_match p ts")
        case True
        then have "lit_match p (Lit c # us)" using Cons Lit by simp
        then obtain q rest where m: "p = c # q" "us = lits q @ rest" "\<forall>f. rep p f 0 (Lit c # us) = Hole f # rep p f 0 rest"
            "\<forall>new. replace_from p new (length p - 1) (flat us) = replace_from p new 0 (flat rest)" using rep_match [OF assms(1)] by blast
        have "length rest < length ts" using m(2) Cons by simp
        then have "meaning v (rep p f 0 rest) = meaning v rest" using 1 by blast
        then have "meaning v (rep p f 0 ts) = p @ meaning v rest" using m(3) Cons Lit assms(2) by simp
        then show ?thesis using Cons Lit m(1,2) by simp
      next
        case False
        then show ?thesis using Cons Lit 1 by simp
      qed
    qed
  qed simp
qed

section \<open>Replacing in the text\<close>

text \<open>A secret meets a placeholder when a match of it could begin inside the placeholder.\<close>

definition meets :: "string \<Rightarrow> string \<Rightarrow> bool" where
  "meets p ph = list_ex (\<lambda>k. has_prefix p (drop k ph) \<or> has_prefix (drop k ph) p) [0..<length ph]"

definition apart :: "string \<Rightarrow> tok list \<Rightarrow> bool" where
  "apart p ts = list_all (\<lambda>t. case t of Lit c \<Rightarrow> True | Hole g \<Rightarrow> \<not> meets p (hole_text g)) ts"

lemma prefix_append_cases: "has_prefix p (a @ z) \<Longrightarrow> has_prefix p a \<or> has_prefix a p"
  by (metis append_eq_append_conv2 has_prefix_iff)

lemma no_match_hole: "\<not> meets p ph \<Longrightarrow> k < length ph \<Longrightarrow> \<not> has_prefix p (drop k ph @ z)"
  using prefix_append_cases unfolding meets_def list_ex_iff by fastforce

lemma replace_pass: "(\<And>k. k < length x \<Longrightarrow> \<not> has_prefix p (drop k x @ z)) \<Longrightarrow> replace_from p q 0 (x @ z) = x @ replace_from p q 0 z"
proof (induction x)
  case (Cons c x)
  have "\<not> has_prefix p (c # x @ z)" using Cons.prems [of 0] by simp
  moreover have "replace_from p q 0 (x @ z) = x @ replace_from p q 0 z"
    by (rule Cons.IH) (use Cons.prems [of "Suc _"] in auto)
  ultimately show ?case by simp
qed simp

lemma prefix_lits: "has_prefix q (flat ts) \<Longrightarrow> CHR ''{'' \<notin> set q \<Longrightarrow> lit_match q ts"
proof (induction q arbitrary: ts)
  case (Cons c q)
  show ?case
  proof (cases ts)
    case Nil
    then show ?thesis using Cons.prems(1) by (simp add: has_prefix_def)
  next
    case ts: (Cons t us)
    show ?thesis
    proof (cases t)
      case (Lit d)
      then have "d = c" "has_prefix q (flat us)" using Cons.prems(1) ts by (auto simp: has_prefix_def)
      moreover have "lit_match q us" by (rule Cons.IH) (use \<open>has_prefix q (flat us)\<close> Cons.prems(2) in auto)
      ultimately show ?thesis using ts Lit by (simp add: lit_match_def)
    next
      case (Hole g)
      then show ?thesis using Cons.prems ts by (auto simp: has_prefix_def hole_text_def)
    qed
  qed
qed (simp add: lit_match_def)

lemma match_lits:
  assumes "p \<noteq> []" "CHR ''{'' \<notin> set (tl p)"
  shows "has_prefix p (flat (Lit c # ts)) \<longleftrightarrow> lit_match p (Lit c # ts)"
proof -
  obtain d q where p: "p = d # q" using assms(1) by (cases p) auto
  have "lit_match q ts \<Longrightarrow> has_prefix q (flat ts)"
    using lit_match_split [of q ts] by (metis flat_append flat_lits has_prefix_iff)
  moreover have "has_prefix q (flat ts) \<Longrightarrow> lit_match q ts" using assms(2) p by (intro prefix_lits) auto
  ultimately show ?thesis using p by (auto simp: has_prefix_def lit_match_def)
qed

lemma flat_rep:
  assumes "p \<noteq> []" "CHR ''{'' \<notin> set (tl p)" "apart p ts"
  shows "replace_from p (hole_text f) 0 (flat ts) = flat (rep p f 0 ts)"
  using assms(3)
proof (induction ts rule: length_induct)
  case (1 ts)
  show ?case
  proof (cases ts)
    case (Cons t us)
    then have us: "apart p us" using 1(2) by (simp add: apart_def)
    show ?thesis
    proof (cases t)
      case (Hole g)
      then have "\<not> meets p (hole_text g)" using 1(2) Cons by (simp add: apart_def)
      then have "replace_from p (hole_text f) 0 (hole_text g @ flat us) = hole_text g @ replace_from p (hole_text f) 0 (flat us)"
        by (intro replace_pass no_match_hole)
      then show ?thesis using Cons Hole us 1(1) by simp
    next
      case (Lit c)
      note m = match_lits [OF assms(1,2), of c us]
      show ?thesis
      proof (cases "lit_match p (Lit c # us)")
        case True
        then obtain q rest where q: "p = c # q" "us = lits q @ rest" "\<forall>f. rep p f 0 (Lit c # us) = Hole f # rep p f 0 rest"
            "\<forall>new. replace_from p new (length p - 1) (flat us) = replace_from p new 0 (flat rest)" using rep_match [OF assms(1)] by blast
        have "apart p rest" using us q(2) by (simp add: apart_def)
        moreover have "length rest < length ts" using q(2) Cons by simp
        ultimately have ih: "replace_from p (hole_text f) 0 (flat rest) = flat (rep p f 0 rest)" using 1(1) by blast
        have "has_prefix p (c # flat us)" using True m by simp
        then have "replace_from p (hole_text f) 0 (flat ts) = hole_text f @ replace_from p (hole_text f) (length p - 1) (flat us)"
          using Cons Lit by simp
        then show ?thesis using q(3,4) ih Cons Lit by (simp del: rep.simps)
      next
        case False
        then show ?thesis using m Cons Lit us 1(1) by simp
      qed
    qed
  qed simp
qed

section \<open>What is gone\<close>

fun occurs :: "string \<Rightarrow> tok list \<Rightarrow> bool" where
  "occurs p [] = False"
| "occurs p (t # ts) = (lit_match p (t # ts) \<or> occurs p ts)"

lemma lits_of_rep: "p \<noteq> [] \<Longrightarrow> lit_match q (rep p f 0 ts) \<Longrightarrow> lit_match q ts"
proof (induction q arbitrary: ts)
  case (Cons c q)
  show ?case
  proof (cases ts)
    case Nil
    then show ?thesis using Cons.prems by (simp add: lit_match_def)
  next
    case ts: (Cons t us)
    show ?thesis
    proof (cases t)
      case (Hole g)
      then show ?thesis using Cons.prems ts by (simp add: lit_match_def)
    next
      case (Lit d)
      with Cons.prems ts have "\<not> lit_match p (Lit d # us)" by (auto simp: lit_match_def)
      with Cons.prems ts Lit have "d = c" "lit_match q (rep p f 0 us)" by (auto simp: lit_match_def)
      with Cons.IH Cons.prems(1) ts Lit show ?thesis by (simp add: lit_match_def)
    qed
  qed
qed (simp add: lit_match_def)

lemma occurs_rep:
  assumes "p \<noteq> []" "q \<noteq> []" "occurs q (rep p f 0 ts)"
  shows "occurs q ts"
  using assms(3)
proof (induction ts rule: length_induct)
  case (1 ts)
  show ?case
  proof (cases ts)
    case (Cons t us)
    show ?thesis
    proof (cases "lit_match q (rep p f 0 ts)")
      case True
      then have "lit_match q ts" by (rule lits_of_rep [OF assms(1)])
      then show ?thesis using Cons by simp
    next
      case no: False
      show ?thesis
      proof (cases t)
        case (Hole g)
        then have "occurs q (rep p f 0 us)" using 1(2) no Cons by simp
        then show ?thesis using 1(1) Cons by simp
      next
        case (Lit c)
        show ?thesis
        proof (cases "lit_match p (Lit c # us)")
          case True
          then obtain r rest where r: "p = c # r" "us = lits r @ rest" "\<forall>f. rep p f 0 (Lit c # us) = Hole f # rep p f 0 rest"
            "\<forall>new. replace_from p new (length p - 1) (flat us) = replace_from p new 0 (flat rest)" using rep_match [OF assms(1)] by blast
          have "occurs q (rep p f 0 rest)" using 1(2) no Cons Lit r(3) by (simp del: rep.simps)
          moreover have "length rest < length ts" using r(2) Cons by simp
          ultimately have o': "occurs q rest" using 1(1) by blast
          have "occurs q (lits x @ rest)" for x using o' by (induction x) simp_all
          then show ?thesis using Cons r(2) by simp
        next
          case False
          then have "occurs q (rep p f 0 us)" using 1(2) no Cons Lit by simp
          then show ?thesis using 1(1) Cons by simp
        qed
      qed
    qed
  qed (use 1(2) in simp)
qed

lemma replaced_gone: "p \<noteq> [] \<Longrightarrow> \<not> occurs p (rep p f 0 ts)"
proof (induction ts rule: length_induct)
  case (1 ts)
  show ?case
  proof (cases ts)
    case (Cons t us)
    show ?thesis
    proof (cases t)
      case (Hole g)
      then show ?thesis using 1 Cons by (cases p) (auto simp: lit_match_def)
    next
      case (Lit c)
      show ?thesis
      proof (cases "lit_match p (Lit c # us)")
        case True
        then obtain r rest where r: "p = c # r" "us = lits r @ rest" "\<forall>f. rep p f 0 (Lit c # us) = Hole f # rep p f 0 rest"
            "\<forall>new. replace_from p new (length p - 1) (flat us) = replace_from p new 0 (flat rest)" using rep_match [OF 1(2)] by blast
        have "length rest < length ts" using r(2) Cons by simp
        then have "\<not> occurs p (rep p f 0 rest)" using 1 by blast
        then show ?thesis using Cons Lit r(1) r(3) by (simp add: lit_match_def del: rep.simps)
      next
        case False
        have "\<not> lit_match p (rep p f 0 ts)" using False lits_of_rep [OF 1(2)] Cons Lit by blast
        then show ?thesis using 1 Cons Lit False by simp
      qed
    qed
  qed simp
qed

section \<open>Occurrences in the text\<close>

lemma contains_Cons: "contains (c # s) p \<longleftrightarrow> has_prefix p (c # s) \<or> contains s p"
  by (auto simp: contains_def)

lemma contains_Nil: "contains [] p \<longleftrightarrow> p = []"
  by (simp add: contains_def)

lemma occurs_lits: "p \<noteq> [] \<Longrightarrow> occurs p (lits s) \<Longrightarrow> contains s p"
proof (induction s)
  case (Cons c s)
  have "lit_match p (lits (c # s)) \<Longrightarrow> has_prefix p (c # s)"
    using lit_match_split [of p "lits (c # s)"] flat_append flat_lits by (metis has_prefix_iff)
  with Cons show ?case by (auto simp: contains_Cons)
qed simp

lemma contains_pass: "(\<And>k. k < length x \<Longrightarrow> \<not> has_prefix p (drop k x @ z)) \<Longrightarrow> contains (x @ z) p \<Longrightarrow> contains z p"
proof (induction x)
  case (Cons c x)
  have "\<not> has_prefix p (c # x @ z)" using Cons.prems(1) [of 0] by simp
  then have "contains (x @ z) p" using Cons.prems(2) by (simp add: contains_Cons)
  then show ?case by (rule Cons.IH [rotated]) (use Cons.prems(1) [of "Suc _"] in auto)
qed simp

lemma contains_flat:
  assumes "p \<noteq> []" "CHR ''{'' \<notin> set (tl p)"
  shows "apart p ts \<Longrightarrow> contains (flat ts) p \<Longrightarrow> occurs p ts"
proof (induction ts rule: flat.induct)
  case 1
  then show ?case using assms(1) by (simp add: contains_Nil)
next
  case (2 c ts)
  then show ?case using match_lits [OF assms, of c ts] by (auto simp: contains_Cons apart_def)
next
  case (3 f ts)
  then have "\<not> meets p (hole_text f)" by (simp add: apart_def)
  then have "contains (flat ts) p" using 3(3) by (auto intro: contains_pass [OF no_match_hole])
  then show ?case using 3 by (simp add: apart_def)
qed

lemma replace_none: "\<not> contains s old \<Longrightarrow> ReplaceAll s old new = s"
proof (induction s)
  case (Cons c s)
  then show ?case by (simp add: ReplaceAll_def contains_Cons)
qed (simp add: ReplaceAll_def)

section \<open>Rendering a text with placeholders\<close>

text \<open>An opening brace right before a placeholder would change how the template reads.\<close>

fun open_hole :: "tok list \<Rightarrow> bool" where
  "open_hole [] = False"
| "open_hole (t # ts) = (t = Lit (CHR ''{'') \<and> (case ts of Hole f # us \<Rightarrow> True | _ \<Rightarrow> False) \<or> open_hole ts)"

lemma open_hole_lits: "open_hole ts \<Longrightarrow> open_hole (lits x @ ts)"
  by (induction x) auto

lemma occurs_after: "occurs p ts \<Longrightarrow> occurs p (lits x @ ts)"
  by (induction x) auto

lemma open_hole_rep:
  assumes "p \<noteq> []"
  shows "\<not> open_hole ts \<Longrightarrow> \<not> occurs (CHR ''{'' # p) ts \<Longrightarrow> \<not> open_hole (rep p f 0 ts)"
proof (induction ts rule: length_induct)
  case (1 ts)
  show ?case
  proof (cases ts)
    case (Cons t us)
    show ?thesis
    proof (cases t)
      case (Hole g)
      then show ?thesis using 1 Cons by simp
    next
      case (Lit c)
      show ?thesis
      proof (cases "lit_match p (Lit c # us)")
        case True
        then obtain r rest where r: "p = c # r" "us = lits r @ rest" "\<forall>f. rep p f 0 (Lit c # us) = Hole f # rep p f 0 rest"
          using rep_match [OF assms] by blast
        have "\<not> open_hole rest" "\<not> occurs (CHR ''{'' # p) rest"
          using 1(2,3) Cons r(2) open_hole_lits [of rest r] occurs_after [of "CHR ''{'' # p" rest r] by auto
        moreover have "length rest < length ts" using r(2) Cons by simp
        ultimately have "\<not> open_hole (rep p f 0 rest)" using 1(1) by blast
        then show ?thesis using Cons Lit r(3) by (simp del: rep.simps)
      next
        case False
        have ih: "\<not> open_hole (rep p f 0 us)" using 1 Cons by simp
        have "\<not> (c = CHR ''{'' \<and> (case rep p f 0 us of Hole f # us \<Rightarrow> True | _ \<Rightarrow> False))"
        proof (cases us)
          case us: (Cons u vs)
          show ?thesis
          proof (cases u)
            case (Hole g)
            then show ?thesis using 1(2) Cons Lit us by auto
          next
            case (Lit d)
            have "lit_match p us \<Longrightarrow> c \<noteq> CHR ''{''"
              using 1(3) Cons \<open>t = Lit c\<close> by (auto simp: lit_match_def)
            then show ?thesis using us Lit by auto
          qed
        qed simp
        then show ?thesis using Cons Lit False ih by auto
      qed
    qed
  qed simp
qed

lemma first_hole:
  "\<not> occurs ''{{'' (lits x @ Hole f # us) \<Longrightarrow> \<not> open_hole (lits x @ Hole f # us) \<Longrightarrow> index_of ''{{'' (x @ hole_text f @ z) = Some (length x)"
proof (induction x)
  case Nil
  then show ?case by (simp add: hole_text_def has_prefix_def)
next
  case (Cons c x)
  have "\<not> has_prefix ''{{'' (c # x @ hole_text f @ z)"
    using Cons.prems by (cases x) (auto simp: has_prefix_def lit_match_def)
  then show ?case using Cons by simp
qed

lemma no_hole: "\<not> occurs ''{{'' (lits x) \<Longrightarrow> index_of ''{{'' x = None"
proof (induction x)
  case (Cons c x)
  have "\<not> has_prefix ''{{'' (c # x)" using Cons.prems by (cases x) (auto simp: has_prefix_def lit_match_def)
  then show ?case using Cons by simp
qed simp

definition plain_field :: "string \<Rightarrow> bool" where
  "plain_field f \<longleftrightarrow> CHR ''}'' \<notin> set f \<and> tmpl_action (CHR ''.'' # f) = Some (False, PField f, False)"

lemma closing: "CHR ''}'' \<notin> set f \<Longrightarrow> index_of ''}}'' (f @ ''}}'' @ z) = Some (length f)"
  by (induction f) (auto simp: has_prefix_def)

lemma lex_hole:
  assumes "plain_field f" "\<not> occurs ''{{'' (lits x @ Hole f # us)" "\<not> open_hole (lits x @ Hole f # us)"
  shows "tmpl_lex (x @ hole_text f @ z) = map_option (\<lambda>ps. PText x # PField f # ps) (tmpl_lex z)"
proof -
  have i: "index_of ''{{'' (x @ hole_text f @ z) = Some (length x)" by (rule first_hole [OF assms(2,3)])
  have d: "drop (length x + 2) (x @ hole_text f @ z) = (CHR ''.'' # f) @ ''}}'' @ z" by (simp add: hole_text_def)
  have j: "index_of ''}}'' (drop (length x + 2) (x @ hole_text f @ z)) = Some (length (CHR ''.'' # f))"
    unfolding d by (rule closing) (use assms(1) in \<open>simp add: plain_field_def\<close>)
  have a: "tmpl_action (take (length (CHR ''.'' # f)) (drop (length x + 2) (x @ hole_text f @ z))) = Some (False, PField f, False)"
    unfolding d using assms(1) by (simp add: plain_field_def)
  have r: "drop (length x + length (CHR ''.'' # f) + 4) (x @ hole_text f @ z) = z" by (simp add: hole_text_def eval_nat_numeral)
  show ?thesis by (subst tmpl_lex.simps) (simp only: i j a r option.case prod.case if_False append_eq_conv_conj [symmetric], simp)
qed

lemma exec_flat:
  assumes "\<And>f. Hole f \<in> set ts \<Longrightarrow> plain_field f \<and> (\<exists>x. data f = Some x \<and> print_value x = v f)" "\<not> occurs ''{{'' ts" "\<not> open_hole ts"
  shows "Option.bind (tmpl_lex (flat ts)) (tmpl_exec data []) = Some (meaning v ts)"
  using assms
proof (induction ts rule: length_induct)
  case (1 ts)
  show ?case
  proof (cases "\<exists>x f us. ts = lits x @ Hole f # us")
    case True
    then obtain x f us where ts: "ts = lits x @ Hole f # us" by blast
    obtain y where f: "plain_field f" "data f = Some y" "print_value y = v f" using 1(2) [of f] ts by auto
    have us: "\<not> occurs ''{{'' us" "\<not> open_hole us"
      using 1(3,4) ts occurs_after [of "''{{''" "Hole f # us" x] open_hole_lits [of "Hole f # us" x] by auto
    have "Option.bind (tmpl_lex (flat us)) (tmpl_exec data []) = Some (meaning v us)"
      using 1(1) 1(2) us ts by simp
    then obtain ps where ps: "tmpl_lex (flat us) = Some ps" "tmpl_exec data [] ps = Some (meaning v us)"
      by (cases "tmpl_lex (flat us)") auto
    have "tmpl_lex (flat ts) = Some (PText x # PField f # ps)"
      using lex_hole [OF f(1), of x us "flat us"] 1(3,4) ts ps(1) by simp
    then show ?thesis using ts f ps(2) by simp
  next
    case False
    have "\<exists>x. ts = lits x" using False
    proof (induction ts)
      case (Cons t ts)
      have "\<not> (\<exists>x f us. ts = lits x @ Hole f # us)"
      proof
        assume "\<exists>x f us. ts = lits x @ Hole f # us"
        then obtain x f us where "ts = lits x @ Hole f # us" by blast
        moreover obtain c where "t = Lit c" using Cons.prems by (cases t) (metis append_Nil lits_simps(1))+
        ultimately have "t # ts = lits (c # x) @ Hole f # us" by simp
        then show False using Cons.prems by blast
      qed
      then obtain x where x: "ts = lits x" using Cons.IH by blast
      obtain c where "t = Lit c" using Cons.prems by (cases t) (metis append_Nil lits_simps(1))+
      with x have "t # ts = lits (c # x)" by simp
      then show ?case by blast
    qed (metis lits_simps(1))
    then obtain x where x: "ts = lits x" by blast
    then have "tmpl_lex (flat ts) = Some [PText x]" using no_hole [of x] 1(3) by (subst tmpl_lex.simps) simp
    then show ?thesis using x by simp
  qed
qed

section \<open>Stripping the secrets\<close>

definition strip_fields :: "(string \<times> string) list" where
  "strip_fields = [(''netbox_secret_key'', ''SecretKey''), (''netbox_api_token_pepper'', ''APITokenPepper''), (''netbox_db_user'', ''DBPassword''),
     (''redis_tasks_password'', ''RedisTasksPassword''), (''redis_caching_password'', ''RedisCachingPassword'')]"

lemma strip_kinds_fields: "strip_kinds = map (\<lambda>(k, f). (k, hole_text f)) strip_fields"
  by (simp add: strip_kinds_def strip_fields_def hole_text_def)

lemma strip_fields_plain: "list_all (\<lambda>(k, f). plain_field f) strip_fields"
  by (simp add: plain_field_def) code_simp

text \<open>The cluster's secrets the sync reads, with the fields that stand for them.\<close>

definition strip_secrets :: "config_env \<Rightarrow> config_world \<Rightarrow> uuid \<Rightarrow> (string \<times> string) list" where
  "strip_secrets E w c = concat (map (\<lambda>(k, f). case secret_of E w c k of None \<Rightarrow> [] | Some p \<Rightarrow> if p = [] then [] else [(p, f)]) strip_fields)"

text \<open>
  The values stored for these kinds, whether or not the sync could read them; and that it can: a query or a decryption that
  fails is taken for a credential that is not set.  The queries for one kind, in the strip and in the renderings, succeed or fail together.
\<close>

definition stored_secrets :: "config_env \<Rightarrow> config_world \<Rightarrow> uuid \<Rightarrow> string list" where
  "stored_secrets E w c = concat (map (\<lambda>(k, f). case Option.bind (GetByKind c k (fw_Creds w)) (\<lambda>ce. Decrypt (fe_Unseal E) (fe_Key E) (ce_PasswordEnc ce)) of
     None \<Rightarrow> [] | Some p \<Rightarrow> if p = [] then [] else [p]) strip_fields)"

definition secrets_read :: "config_env \<Rightarrow> config_world \<Rightarrow> uuid \<Rightarrow> bool" where
  "secrets_read E w c = list_all (\<lambda>(k, f). case GetByKind c k (fw_Creds w) of
     None \<Rightarrow> True | Some ce \<Rightarrow> fe_Cred E k \<and> Decrypt (fe_Unseal E) (fe_Key E) (ce_PasswordEnc ce) \<noteq> None) strip_fields"

lemma stored_secrets_stripped:
  assumes "secrets_read E w c"
  shows "stored_secrets E w c = map fst (strip_secrets E w c)"
proof -
  have "secret_of E w c k = Option.bind (GetByKind c k (fw_Creds w)) (\<lambda>ce. Decrypt (fe_Unseal E) (fe_Key E) (ce_PasswordEnc ce))"
    if "(k, f) \<in> set strip_fields" for k f
    using that assms by (auto simp: secrets_read_def secret_of_def cred_of_def list_all_iff split: option.splits)
  then have "map (\<lambda>(k, f). map fst (case secret_of E w c k of None \<Rightarrow> [] | Some p \<Rightarrow> if p = [] then [] else [(p, f)])) strip_fields
    = map (\<lambda>(k, f). case Option.bind (GetByKind c k (fw_Creds w)) (\<lambda>ce. Decrypt (fe_Unseal E) (fe_Key E) (ce_PasswordEnc ce)) of
     None \<Rightarrow> [] | Some p \<Rightarrow> if p = [] then [] else [p]) strip_fields"
    by (auto split: option.splits)
  moreover have "map fst (strip_secrets E w c)
    = concat (map (\<lambda>(k, f). map fst (case secret_of E w c k of None \<Rightarrow> [] | Some p \<Rightarrow> if p = [] then [] else [(p, f)])) strip_fields)"
    unfolding strip_secrets_def map_concat by (simp add: comp_def case_prod_beta')
  ultimately show ?thesis unfolding stored_secrets_def by (simp only:)
qed

lemma foldl_strip:
  "foldl (strip_one E w c) s (map (\<lambda>(k, f). (k, hole_text f)) kfs) =
   foldl (\<lambda>s (p, f). ReplaceAll s p (hole_text f)) s
     (concat (map (\<lambda>(k, f). case secret_of E w c k of None \<Rightarrow> [] | Some p \<Rightarrow> if p = [] then [] else [(p, f)]) kfs))"
  by (induction kfs arbitrary: s) (auto simp: strip_one_def split: option.splits prod.splits)

lemma stripSecrets_fold: "stripSecrets E w c content = foldl (\<lambda>s (p, f). ReplaceAll s p (hole_text f)) content (strip_secrets E w c)"
  unfolding stripSecrets_def strip_kinds_fields foldl_strip strip_secrets_def ..

text \<open>
  What makes a content fit for syncing: the secrets stored for the cluster can be read, it has no template action of its own, no secret stands right after an opening
  brace, and no secret could be taken for a part of a placeholder; the pepper is a dictionary, the Redis passwords do not
  differ, and the text of old templates around the pepper does not come about.
\<close>

definition strip_safe :: "string \<Rightarrow> string \<Rightarrow> bool" where
  "strip_safe content p \<longleftrightarrow> CHR ''{'' \<notin> set (tl p) \<and> list_all (\<lambda>(k, g). \<not> meets p (hole_text g)) strip_fields \<and> \<not> contains content (CHR ''{'' # p)"

definition strippable :: "config_env \<Rightarrow> config_world \<Rightarrow> uuid \<Rightarrow> string \<Rightarrow> bool" where
  "strippable E w c content \<longleftrightarrow> secrets_read E w c \<and> \<not> contains content ''{{'' \<and> list_all (\<lambda>(p, f). strip_safe content p) (strip_secrets E w c)
     \<and> (let p = text_of (secret_of E w c ''netbox_api_token_pepper'') in p = [] \<or> has_prefix ''{'' p)
     \<and> text_of (secret_of E w c ''redis_caching_password'') \<in> {[], text_of (secret_of E w c ''redis_tasks_password'')}
     \<and> \<not> contains (stripSecrets E w c content) legacy_pepper"

text \<open>The placeholders of a text are those of \<open>strip_fields\<close>.\<close>

definition strip_holes :: "tok list \<Rightarrow> bool" where
  "strip_holes ts = list_all (\<lambda>t. case t of Lit c \<Rightarrow> True | Hole g \<Rightarrow> g \<in> snd ` set strip_fields) ts"

lemma strip_holes_rep: "strip_holes ts \<Longrightarrow> f \<in> snd ` set strip_fields \<Longrightarrow> strip_holes (rep p f k ts)"
  by (induction p f k ts rule: rep.induct) (auto simp: strip_holes_def)

lemma holes_apart: "strip_holes ts \<Longrightarrow> strip_safe content p \<Longrightarrow> apart p ts"
  by (fastforce simp: strip_holes_def apart_def strip_safe_def list_all_iff split: tok.splits)

lemma strip_all:
  assumes "list_all (\<lambda>(p, f). p \<noteq> [] \<and> f \<in> snd ` set strip_fields \<and> strip_safe content p) pfs"
    and "strip_holes ts" "\<not> occurs ''{{'' ts" "\<not> open_hole ts" "list_all (\<lambda>(p, f). \<not> occurs (CHR ''{'' # p) ts) pfs"
  shows "\<exists>us. foldl (\<lambda>s (p, f). ReplaceAll s p (hole_text f)) (flat ts) pfs = flat us \<and> strip_holes us \<and> \<not> occurs ''{{'' us \<and> \<not> open_hole us
    \<and> (\<forall>v. (\<forall>(p, f) \<in> set pfs. v f = p) \<longrightarrow> meaning v us = meaning v ts)
    \<and> (\<forall>(p, f) \<in> set pfs. \<not> occurs p us) \<and> (\<forall>q. q \<noteq> [] \<longrightarrow> occurs q us \<longrightarrow> occurs q ts)"
  using assms
proof (induction pfs arbitrary: ts)
  case (Cons pf pfs)
  obtain p f where pf: "pf = (p, f)" by fastforce
  have p: "p \<noteq> []" "f \<in> snd ` set strip_fields" "strip_safe content p" using Cons.prems(1) pf by simp_all
  let ?ts = "rep p f 0 ts"
  have brace: "CHR ''{'' \<notin> set (tl p)" using p(3) by (simp add: strip_safe_def)
  have e: "ReplaceAll (flat ts) p (hole_text f) = flat ?ts"
    unfolding ReplaceAll_def by (rule flat_rep [OF p(1) brace holes_apart [OF Cons.prems(2) p(3)]])
  have keep: "occurs q ?ts \<Longrightarrow> occurs q ts" if "q \<noteq> []" for q using occurs_rep [OF p(1) that] .
  have "strip_holes ?ts" by (rule strip_holes_rep [OF Cons.prems(2) p(2)])
  moreover have "\<not> occurs ''{{'' ?ts" using keep Cons.prems(3) by blast
  moreover have "\<not> open_hole ?ts" by (rule open_hole_rep [OF p(1) Cons.prems(4)]) (use Cons.prems(5) pf in simp)
  moreover have "list_all (\<lambda>(p, f). \<not> occurs (CHR ''{'' # p) ?ts) pfs"
    using Cons.prems(5) keep by (auto simp: list_all_iff)
  ultimately obtain us where us: "foldl (\<lambda>s (p, f). ReplaceAll s p (hole_text f)) (flat ?ts) pfs = flat us" "strip_holes us"
    "\<not> occurs ''{{'' us" "\<not> open_hole us" "\<forall>v. (\<forall>(p, f) \<in> set pfs. v f = p) \<longrightarrow> meaning v us = meaning v ?ts"
    "\<forall>(p, f) \<in> set pfs. \<not> occurs p us" "\<forall>q. q \<noteq> [] \<longrightarrow> occurs q us \<longrightarrow> occurs q ?ts"
    using Cons.IH [of ?ts] Cons.prems(1) by auto
  have gone: "\<not> occurs p us" using us(7) p(1) replaced_gone [OF p(1)] by blast
  have means: "meaning v us = meaning v ts" if "\<forall>(p, f) \<in> set (pf # pfs). v f = p" for v
    using us(5) that meaning_rep [where v = v and f = f, OF p(1)] pf by simp
  have back': "occurs q us \<Longrightarrow> occurs q ts" if "q \<noteq> []" for q using us(7) keep that by blast
  have "foldl (\<lambda>s (p, f). ReplaceAll s p (hole_text f)) (flat ts) (pf # pfs) = flat us" using us(1) e pf by simp
  moreover have "\<forall>(p, f) \<in> set (pf # pfs). \<not> occurs p us" using us(6) gone pf by simp
  ultimately show ?case using us(2-4) means back' by blast
qed auto

section \<open>What the destinations write\<close>

lemma strip_secrets_in:
  assumes "(p, f) \<in> set (strip_secrets E w c)"
  shows "p \<noteq> []" "\<exists>k. (k, f) \<in> set strip_fields \<and> secret_of E w c k = Some p"
proof -
  from assms obtain k where "(k, f) \<in> set strip_fields" "secret_of E w c k = Some p" "p \<noteq> []"
    unfolding strip_secrets_def by (fastforce split: option.splits if_splits)
  then show "p \<noteq> []" "\<exists>k. (k, f) \<in> set strip_fields \<and> secret_of E w c k = Some p" by blast+
qed

lemma no_open_hole: "\<not> open_hole (lits s)"
  by (induction s) (auto simp: lits_def split: list.splits)

lemma stripped:
  assumes "strippable E w c content"
  shows "\<exists>us. stripSecrets E w c content = flat us \<and> strip_holes us \<and> \<not> occurs ''{{'' us \<and> \<not> open_hole us
    \<and> (\<forall>v. (\<forall>(p, f) \<in> set (strip_secrets E w c). v f = p) \<longrightarrow> meaning v us = content)
    \<and> (\<forall>(p, f) \<in> set (strip_secrets E w c). \<not> occurs p us)"
proof -
  have safe: "\<not> contains content ''{{''" "list_all (\<lambda>(p, f). strip_safe content p) (strip_secrets E w c)"
    using assms by (simp_all add: strippable_def)
  have "f \<in> snd ` set strip_fields" if "(p, f) \<in> set (strip_secrets E w c)" for p f
    using strip_secrets_in(2) [OF that] by force
  then have pre: "list_all (\<lambda>(p, f). p \<noteq> [] \<and> f \<in> snd ` set strip_fields \<and> strip_safe content p) (strip_secrets E w c)"
    using strip_secrets_in(1) safe(2) unfolding list_all_iff by fast
  have h0: "strip_holes (lits content)" by (simp add: strip_holes_def lits_def list_all_iff)
  have b0: "\<not> occurs ''{{'' (lits content)" using occurs_lits [of "''{{''"] safe(1) by auto
  have c0: "list_all (\<lambda>(p, f). \<not> occurs (CHR ''{'' # p) (lits content)) (strip_secrets E w c)"
    using safe(2) occurs_lits unfolding list_all_iff strip_safe_def by fastforce
  from strip_all [OF pre h0 b0 no_open_hole c0] show ?thesis unfolding stripSecrets_fold by simp blast
qed

lemma stripped_no_secret:
  assumes "strippable E w c content" "(p, f) \<in> set (strip_secrets E w c)"
  shows "\<not> contains (stripSecrets E w c content) p"
proof -
  from stripped [OF assms(1)] obtain us where us: "stripSecrets E w c content = flat us" "strip_holes us"
    "\<forall>(p, f) \<in> set (strip_secrets E w c). \<not> occurs p us" by blast
  have s: "strip_safe content p" using assms unfolding strippable_def list_all_iff by blast
  have "\<not> occurs p us" using us(3) assms(2) by blast
  then show ?thesis
    using contains_flat [OF strip_secrets_in(1) [OF assms(2)] _ holes_apart [OF us(2) s]] s us(1) by (auto simp: strip_safe_def)
qed

lemma rendered_secrets:
  assumes "renderInputFor E w c n = Inr r"
  shows "ri_SecretKey r = text_of (secret_of E w c ''netbox_secret_key'')"
    "ri_APITokenPepper r = render_pepper (text_of (secret_of E w c ''netbox_api_token_pepper''))"
    "ri_DBPassword r = text_of (secret_of E w c ''netbox_db_user'')"
    "ri_RedisTasksPassword r = text_of (secret_of E w c ''redis_tasks_password'')"
    "ri_RedisCachingPassword r = text_of (secret_of E w c ''redis_tasks_password'')"
  using assms by (cases "if fe_Cluster E then find (\<lambda>rc. cl_ID (rc_Cluster rc) = c) (fw_Clusters w) else None";
    force simp: renderInputFor_def Let_def)+

lemma text_of_Some [simp]: "text_of (Some p) = p"
  by (simp add: text_of_def)

lemma strippable_pepper:
  "strippable E w c content \<Longrightarrow> secret_of E w c ''netbox_api_token_pepper'' = Some p \<Longrightarrow> p \<noteq> [] \<Longrightarrow> render_pepper p = p"
  by (simp add: strippable_def render_pepper_def Let_def)

lemma strippable_caching:
  "strippable E w c content \<Longrightarrow> secret_of E w c ''redis_caching_password'' = Some p \<Longrightarrow> p \<noteq> []
    \<Longrightarrow> text_of (secret_of E w c ''redis_tasks_password'') = p"
  by (simp add: strippable_def)

lemma render_data_fields:
  "render_data r ''SecretKey'' = Some (VStr (ri_SecretKey r))"
  "render_data r ''APITokenPepper'' = Some (VStr (ri_APITokenPepper r))"
  "render_data r ''DBPassword'' = Some (VStr (ri_DBPassword r))"
  "render_data r ''RedisTasksPassword'' = Some (VStr (ri_RedisTasksPassword r))"
  "render_data r ''RedisCachingPassword'' = Some (VStr (ri_RedisCachingPassword r))"
  by (simp_all add: render_data_def)

lemma render_defaults_secrets [simp]:
  "ri_SecretKey (render_defaults r) = ri_SecretKey r" "ri_APITokenPepper (render_defaults r) = ri_APITokenPepper r"
  "ri_DBPassword (render_defaults r) = ri_DBPassword r" "ri_RedisTasksPassword (render_defaults r) = ri_RedisTasksPassword r"
  "ri_RedisCachingPassword (render_defaults r) = ri_RedisCachingPassword r"
  by (simp_all add: render_defaults_def)

lemma render_fields:
  assumes "renderInputFor E w c n = Inr r" "(k, f) \<in> set strip_fields" "secret_of E w c k = Some p" "p \<noteq> []" "strippable E w c content"
  shows "\<exists>x. render_data (render_defaults r) f = Some x \<and> print_value x = p"
proof -
  from assms(2) consider "k = ''netbox_secret_key''" "f = ''SecretKey''" | "k = ''netbox_api_token_pepper''" "f = ''APITokenPepper''"
    | "k = ''netbox_db_user''" "f = ''DBPassword''" | "k = ''redis_tasks_password''" "f = ''RedisTasksPassword''"
    | "k = ''redis_caching_password''" "f = ''RedisCachingPassword''" unfolding strip_fields_def by fastforce
  then show ?thesis
  proof cases
    case 2
    then show ?thesis using assms(3) rendered_secrets(2) [OF assms(1)] strippable_pepper [OF assms(5) _ assms(4)]
      by (simp add: render_data_fields)
  next
    case 5
    then show ?thesis using assms(3) rendered_secrets(5) [OF assms(1)] strippable_caching [OF assms(5) _ assms(4)]
      by (simp add: render_data_fields)
  qed (use assms(3) rendered_secrets [OF assms(1)] in \<open>simp_all add: render_data_fields\<close>)
qed

lemma Render_stripped:
  assumes "renderInputFor E w c n = Inr r" "strippable E w c content"
  shows "Render_text (stripSecrets E w c content) r = Some content"
proof -
  let ?d = "render_data (render_defaults r)"
  define v where "v f = (case ?d f of None \<Rightarrow> [] | Some x \<Rightarrow> print_value x)" for f
  from stripped [OF assms(2)] obtain us where us: "stripSecrets E w c content = flat us" "strip_holes us"
    "\<not> occurs ''{{'' us" "\<not> open_hole us" "\<forall>v. (\<forall>(p, f) \<in> set (strip_secrets E w c). v f = p) \<longrightarrow> meaning v us = content" by blast
  have "v f = p" if "(p, f) \<in> set (strip_secrets E w c)" for p f
  proof -
    from strip_secrets_in(2) [OF that] obtain k where "(k, f) \<in> set strip_fields" "secret_of E w c k = Some p" by blast
    from render_fields [OF assms(1) this strip_secrets_in(1) [OF that] assms(2)] show ?thesis by (auto simp: v_def)
  qed
  then have content: "meaning v us = content" using us(5) by blast
  have fields: "plain_field f \<and> (\<exists>x. ?d f = Some x \<and> print_value x = v f)" if "Hole f \<in> set us" for f
  proof -
    have f: "f \<in> snd ` set strip_fields" using that us(2) unfolding strip_holes_def list_all_iff by fastforce
    then have "plain_field f" using strip_fields_plain unfolding list_all_iff by fastforce
    moreover from f have "\<exists>x. ?d f = Some x" unfolding strip_fields_def by (auto simp: render_data_fields)
    ultimately show ?thesis by (auto simp: v_def)
  qed
  have "Option.bind (tmpl_lex (flat us)) (tmpl_exec ?d []) = Some content"
    using exec_flat [of us ?d v, OF fields us(3,4)] content by simp
  moreover have "\<not> contains (stripSecrets E w c content) legacy_pepper" using assms(2) by (simp add: strippable_def)
  ultimately show ?thesis using us(1) by (simp add: Render_text_def replace_none)
qed

lemma push_node_content:
  assumes "push_node E w c tmpl [] restart n = (s, Some t)"
  obtains r content where "renderInputFor E w c n = Inr r" "Render_text tmpl r = Some content"
    "t = \<lparr>wt_Node = n, wt_Content = content, wt_Sha256 = hex_encode (fe_SHA256 E content), wt_Restart = restart\<rparr>"
  using assms by (auto simp: push_node_def Render_def override_text_def Let_def split: sum.splits option.splits)

lemma secret_of_configs: "secret_of E (w\<lparr>fw_Configs := x\<rparr>) c k = secret_of E w c k"
  by (simp add: secret_of_def cred_of_def)

lemma strippable_configs: "strippable E (w\<lparr>fw_Configs := x\<rparr>) c content = strippable E w c content"
    "stripSecrets E (w\<lparr>fw_Configs := x\<rparr>) c content = stripSecrets E w c content"
    "strip_secrets E (w\<lparr>fw_Configs := x\<rparr>) c = strip_secrets E w c"
proof -
  have o': "strip_one E (w\<lparr>fw_Configs := x\<rparr>) c = strip_one E w c" by (intro ext) (simp add: strip_one_def secret_of_configs)
  show "stripSecrets E (w\<lparr>fw_Configs := x\<rparr>) c content = stripSecrets E w c content"
    "strip_secrets E (w\<lparr>fw_Configs := x\<rparr>) c = strip_secrets E w c"
    by (simp_all add: stripSecrets_def o' strip_secrets_def secret_of_configs)
  then show "strippable E (w\<lparr>fw_Configs := x\<rparr>) c content = strippable E w c content"
    by (simp add: strippable_def secret_of_configs secrets_read_def)
qed

text \<open>What the answer shows of one destination: nothing was sent, or the given content with a hash that fits it.\<close>

definition sent_exactly :: "config_env \<Rightarrow> string \<Rightarrow> push_status \<times> write_task option \<Rightarrow> bool" where
  "sent_exactly E content r = (case snd r of None \<Rightarrow> fst r \<noteq> Pushed
     | Some t \<Rightarrow> wt_Content t = content \<and> checkSHA256 (fe_SHA256 E) (wt_Content t) (wt_Sha256 t))"

lemma pushed_exactly:
  assumes "strippable E w c content"
  shows "sent_exactly E content (push_node E w c (stripSecrets E w c content) [] restart n)"
proof (cases "push_node E w c (stripSecrets E w c content) [] restart n")
  case (Pair s o')
  show ?thesis
  proof (cases o')
    case None
    with Pair show ?thesis by (auto simp: sent_exactly_def push_node_def Let_def split: sum.splits option.splits)
  next
    case (Some t)
    with Pair obtain r content' where r: "renderInputFor E w c n = Inr r"
      "Render_text (stripSecrets E w c content) r = Some content'"
      "t = \<lparr>wt_Node = n, wt_Content = content', wt_Sha256 = hex_encode (fe_SHA256 E content'), wt_Restart = restart\<rparr>"
      using push_node_content by blast
    have "content' = content" using Render_stripped [OF r(1) assms] r(2) by simp
    then show ?thesis using Pair Some r(3) by (simp add: sent_exactly_def checkSHA256_def)
  qed
qed

lemma synced_exactly:
  "strippable E w c content \<Longrightarrow> sent_exactly E content (sync_node E w c (stripSecrets E w c content) restart d)"
proof -
  assume s: "strippable E w c content"
  let ?r = "sync_node E w c (stripSecrets E w c content) restart d"
  have "(\<exists>e. ?r = (PushError e, None)) \<or> (\<exists>n. ?r = push_node E w c (stripSecrets E w c content) [] restart n)"
    by (auto simp: sync_node_def split: option.splits)
  then consider e where "?r = (PushError e, None)" | n where "?r = push_node E w c (stripSecrets E w c content) [] restart n" by blast
  then show ?thesis
  proof cases
    case 1
    then show ?thesis by (simp add: sent_exactly_def)
  next
    case 2
    show ?thesis unfolding 2 by (rule pushed_exactly [OF s])
  qed
qed


text \<open>
  Two nodes of cluster 9, its secret key and its database password; the sealed bytes are the password itself behind a
  nonce, and the hash is the text's length.
\<close>

definition cs_cred :: "string \<Rightarrow> string \<Rightarrow> credential" where
  "cs_cred k p = \<lparr>ce_ClusterID = 9, ce_Kind = k, ce_Username = ''netbox'', ce_PasswordEnc = replicate 12 CHR ''n'' @ p, ce_DBName = None,
     ce_CreatedAt = 0, ce_RotatedAt = None\<rparr>"

definition cs_cluster :: cluster where
  "cs_cluster =
     \<lparr>cl_ID = 9, cl_Name = ''c'', cl_Mode = ''active_standby'', cl_AutoFailover = True, cl_AutoFailback = True,
      cl_AppTierAlwaysAvailable = False, cl_FailoverOnMaintenance = True, cl_FailoverDelaySecs = 30,
      cl_FailbackMultiplier = 3, cl_MediaSyncEnabled = False, cl_ExtraFoldersSyncEnabled = False,
      cl_ExtraSyncFolders = [], cl_FileSyncCron = [], cl_FileSyncScheduleEnabled = False,
      cl_PatroniConfigured = False\<rparr>"

definition cs_node :: "uuid \<Rightarrow> node" where
  "cs_node i = \<lparr>nd_ID = i, nd_ClusterID = 9, nd_Hostname = ''n'', nd_IPAddress = ''10.0.0.1'', nd_Role = ''app'',
     nd_FailoverPriority = 1, nd_AgentStatus = ''connected'', nd_PatroniState = None, nd_NetboxRunning = Some True,
     nd_RQRunning = Some True, nd_SuppressAutoStart = False, nd_MaintenanceMode = False\<rparr>"

definition cs_world :: config_world where
  "cs_world = \<lparr>fw_Clusters = [\<lparr>rc_Cluster = cs_cluster, rc_VIP = None, rc_PatroniScope = ''s'', rc_NetboxVersion = ''4''\<rparr>],
     fw_Nodes = [cs_node 1, cs_node 2], fw_Creds = [cs_cred ''netbox_secret_key'' ''k3y'', cs_cred ''netbox_db_user'' ''pw''],
     fw_Configs = [], fw_Overrides = [\<lparr>co_ConfigID = 5, co_NodeID = 2, co_Key = ''A'', co_Value = ''1''\<rparr>]\<rparr>"

definition cs_env :: config_env where
  "cs_env = \<lparr>fe_Now = 7, fe_NewID = 5, fe_Seal = (\<lambda>_ _ p. p), fe_Unseal = (\<lambda>_ _ p. Some p), fe_Key = ''k'',
     fe_SHA256 = (\<lambda>s. [char_of (length s)]), fe_Random = (\<lambda>_ _. None), fe_Nonce = (\<lambda>_ _. None), fe_Cluster = True,
     fe_Cred = (\<lambda>_. True), fe_Creds = True, fe_Store = (\<lambda>_. True), fe_List = True, fe_Node = (\<lambda>_. True), fe_Latest = True,
     fe_Version = True, fe_Create = True, fe_Overrides = True, fe_Push = True, fe_Dispatch = (\<lambda>_. None)\<rparr>"

definition cs_sync :: "push_answer \<times> config_world" where
  "cs_sync = SyncConfig cs_env (Some 9) (Some (''K=k3y P=pw'', [Some 2, Some 8], True)) cs_world"

definition cs_saved :: netbox_config where
  "cs_saved = \<lparr>cn_ID = 5, cn_ClusterID = 9, cn_Version = 1, cn_ConfigTemplate = ''K={{.SecretKey}} P={{.DBPassword}}'',
     cn_RenderedHash = None, cn_PushedAt = None, cn_PushStatus = None\<rparr>"

definition cs_results :: "(push_status \<times> write_task option) list" where
  "cs_results = [(Pushed, Some \<lparr>wt_Node = 2, wt_Content = ''K=k3y P=pw'', wt_Sha256 = ''0a'', wt_Restart = True\<rparr>),
     (PushError ''node not found'', None)]"

lemma cs_sync_run: "fst cs_sync = Inr (cs_saved, ''partial'', cs_results)"
  by code_simp

lemma cs_strippable: "strippable cs_env cs_world 9 ''K=k3y P=pw''"
  by code_simp


text \<open>A query that fails is taken for a credential that is not set: the version saved holds the password.\<close>

lemma unread_secret_saved:
  "stripSecrets (cs_env\<lparr>fe_Cred := (\<lambda>k. k \<noteq> ''netbox_db_user'')\<rparr>) cs_world 9 ''K=k3y P=pw'' = ''K={{.SecretKey}} P=pw''"
  by code_simp

section \<open>Versions and pushes\<close>

text \<open>The hash of a pushed task is that of the rendered template, before the node's overrides are appended.\<close>

lemma push_hash:
  assumes "push_node E w c tmpl ovs restart n = (s, Some t)"
  obtains content where "wt_Content t = content @ override_text ovs n" "wt_Sha256 t = hex_encode (fe_SHA256 E content)"
  using assms by (auto simp: push_node_def Render_def Let_def split: sum.splits option.splits)

lemma overridden_node_refuses:
  "list_all (\<lambda>(s, t). case t of None \<Rightarrow> False | Some t \<Rightarrow> s = Pushed \<and> \<not> checkSHA256 (fe_SHA256 cs_env) (wt_Content t) (wt_Sha256 t))
     [push_node cs_env cs_world 9 ''D = 1'' (fw_Overrides cs_world) False 2]"
  by code_simp

text \<open>A cached Redis password of its own is taken out of a synced text, and the other Redis password put in its place.\<close>

lemma caching_password_replaced:
  "snd (push_node cs_env (cs_world\<lparr>fw_Creds := [cs_cred ''redis_tasks_password'' ''tt'', cs_cred ''redis_caching_password'' ''cc'']\<rparr>) 9
     (stripSecrets cs_env (cs_world\<lparr>fw_Creds := [cs_cred ''redis_tasks_password'' ''tt'', cs_cred ''redis_caching_password'' ''cc'']\<rparr>) 9 ''P=cc'')
     [] False 2) = Some \<lparr>wt_Node = 2, wt_Content = ''P=tt'', wt_Sha256 = ''04'', wt_Restart = False\<rparr>"
  by code_simp

text \<open>The sync replaces a secret wherever it stands: a password that is a word of the file takes the word with it.\<close>

lemma short_password_leaks_into_text:
  "stripSecrets cs_env (cs_world\<lparr>fw_Creds := [cs_cred ''netbox_db_user'' ''netbox'']\<rparr>) 9 ''USER=netbox'' = ''USER={{.DBPassword}}''"
  by code_simp

lemma foldl_max_bounds: "(m :: int) \<le> foldl max m xs" "x \<in> set xs \<Longrightarrow> x \<le> foldl max m xs"
proof (induction xs arbitrary: m)
  case (Cons y ys)
  { case 1 then show ?case using Cons.IH(1) [of "max m y"] by simp }
  { case 2 then show ?case using Cons.IH [of "max m y"] by auto }
qed auto

lemma sort_key_insort_least:
  "(\<And>x. x \<in> set xs \<Longrightarrow> k y < k x) \<Longrightarrow> sort_key k (xs @ [y]) = y # sort_key k xs"
proof (induction xs)
  case (Cons x xs)
  then have "sort_key k (xs @ [y]) = y # sort_key k xs" "k y < k x" by simp_all
  then show ?case by (auto dest: leD)
qed simp

lemma find_append_new: "find P xs = None \<Longrightarrow> P y \<Longrightarrow> find P (xs @ [y]) = Some y"
  by (induction xs) auto

text \<open>
  A saved configuration has a higher version than any other of its cluster: it is the latest one and the one its version
  number finds, and what other clusters see is unchanged.
\<close>

theorem saved_version_is_latest:
  assumes "SaveConfig E (Some c) body w = (Inr f, w')"
  shows "GetLatest c (fw_Configs w') = Some f \<and> GetByVersion c (cn_Version f) (fw_Configs w') = Some f \<and> body = Some (cn_ConfigTemplate f)
    \<and> list_all (\<lambda>v. v < cn_Version f) (cluster_versions c (fw_Configs w))
    \<and> (d = c \<or> GetLatest d (fw_Configs w') = GetLatest d (fw_Configs w))"
proof -
  have f: "fw_Configs w' = fw_Configs w @ [f]" "cn_ClusterID f = c" "body = Some (cn_ConfigTemplate f)"
    "cn_Version f = foldl max 0 (cluster_versions c (fw_Configs w)) + 1"
    using assms by (auto simp: SaveConfig_def CreateConfig_def Let_def split: if_splits)
  have less: "v < cn_Version f" if "v \<in> set (cluster_versions c (fw_Configs w))" for v
    using foldl_max_bounds(2) [OF that, of 0] f(4) by simp
  have "sort_key (\<lambda>g. - cn_Version g) (filter (\<lambda>g. cn_ClusterID g = c) (fw_Configs w) @ [f])
      = f # sort_key (\<lambda>g. - cn_Version g) (filter (\<lambda>g. cn_ClusterID g = c) (fw_Configs w))"
    by (rule sort_key_insort_least) (use less in \<open>auto simp: cluster_versions_def\<close>)
  then have "GetLatest c (fw_Configs w') = Some f" using f(1,2) by (simp add: GetLatest_def)
  moreover have "find (\<lambda>g. cn_ClusterID g = c \<and> cn_Version g = cn_Version f) (fw_Configs w) = None"
    using less by (force simp: find_None_iff cluster_versions_def)
  then have "GetByVersion c (cn_Version f) (fw_Configs w') = Some f" using f(1,2) by (simp add: GetByVersion_def find_append_new)
  moreover have "d = c \<or> GetLatest d (fw_Configs w') = GetLatest d (fw_Configs w)" using f(1,2) by (simp add: GetLatest_def)
  ultimately show ?thesis using f(3) less by (simp add: list_all_iff)
qed

definition cs_next :: netbox_config where
  "cs_next = \<lparr>cn_ID = 5, cn_ClusterID = 9, cn_Version = 2, cn_ConfigTemplate = ''T'', cn_RenderedHash = None, cn_PushedAt = None, cn_PushStatus = None\<rparr>"

lemma cs_save_run: "SaveConfig cs_env (Some 9) (Some ''T'') (cs_world\<lparr>fw_Configs := [cs_saved\<lparr>cn_ID := 4\<rparr>]\<rparr>)
    = (Inr cs_next, cs_world\<lparr>fw_Configs := [cs_saved\<lparr>cn_ID := 4\<rparr>, cs_next]\<rparr>)"
  by (simp add: SaveConfig_def CreateConfig_def cluster_versions_def cs_saved_def cs_next_def cs_env_def Let_def)

theorem saved_version_is_latest_witness:
  "GetLatest 9 [cs_saved\<lparr>cn_ID := 4\<rparr>, cs_next] = Some cs_next \<and> cn_Version cs_next = 2"
  using saved_version_is_latest [OF cs_save_run, where d = 9] by (simp add: cs_next_def)

end
