(* ===== verification/Inventory.thy ===== *)
theory Inventory
  imports HubProps Cron FileSyncService Crypto
begin

text \<open>
  The inventory of the conductor: clusters, nodes and the tokens of their agents (the rows of
  \<open>internal/server/db/queries/clusters.go\<close>, \<open>nodes.go\<close> and \<open>staging.go\<close>) and the handlers of clusters and nodes
  (\<open>internal/server/api/handlers/clusters.go\<close>, \<open>nodes.go\<close>).  What a handler does to the registry of sessions is a list of
  operations of \<open>Hub\<close>, carried out after it.
\<close>

section \<open>Tables\<close>

record agent_token =
  gt_NodeID :: uuid
  gt_TokenHash :: string
  gt_IssuedAt :: instant
  gt_RevokedAt :: "instant option"
  gt_LastUsedAt :: "instant option"

record reg_token =
  rg_NodeID :: uuid
  rg_TokenHash :: string
  rg_ExpiresAt :: instant
  rg_UsedAt :: "instant option"

record staging_token =
  sk_ID :: uuid
  sk_TokenHash :: string
  sk_Label :: string
  sk_CreatedAt :: instant
  sk_ExpiresAt :: instant
  sk_UsedAt :: "instant option"

record staging_agent =
  sg_ID :: uuid
  sg_Hostname :: string
  sg_IPAddress :: string
  sg_AgentVersion :: string
  sg_TokenHash :: string
  sg_Status :: string
  sg_LastSeenAt :: "instant option"
  sg_CreatedAt :: instant

record inventory =
  iv_Clusters :: "cluster list"
  iv_Nodes :: "node list"
  iv_Tokens :: "agent_token list"
  iv_RegTokens :: "reg_token list"
  iv_StagingTokens :: "staging_token list"
  iv_StagingAgents :: "staging_agent list"

definition empty_inventory :: inventory where
  "empty_inventory = \<lparr>iv_Clusters = [], iv_Nodes = [], iv_Tokens = [], iv_RegTokens = [], iv_StagingTokens = [], iv_StagingAgents = []\<rparr>"

datatype inv_query =
    QClusterGet | QClusterCreate | QClusterUpdate | QClusterDelete | QKeepFolders
  | QNodeGet | QNodeList | QNodeCreate | QNodeUpdate | QNodeSuppress | QNodeMaintenance | QNodeDelete | QNextPriority | QNodeStatus
  | QTokenGet | QTokenCreate | QTokenRevoke | QTokenTouch | QRegConsume
  | QStagingCreate | QStagingConsume | QStagingDelete | QStagingList
  | QAgentCreate | QAgentGet | QAgentList | QAgentByToken | QAgentStatus | QAgentDelete

text \<open>
  What does not change between requests: the hash of tokens, the text PostgreSQL gives an address of type \<open>inet\<close> (\<open>None\<close> for a
  text that is none), and the address of the conductor.
\<close>

record inv_env =
  ie_SHA256 :: "string \<Rightarrow> string"
  ie_Inet :: "string \<Rightarrow> string option"
  ie_ServerURL :: string

text \<open>What a request meets: the clock, the queries that fail, random bytes and the identifier of a new row.\<close>

record inv_call =
  iq_Now :: instant
  iq_Fails :: "inv_query \<Rightarrow> bool"
  iq_Random :: random
  iq_NewID :: uuid

definition inv_ask :: "inv_call \<Rightarrow> inv_query \<Rightarrow> 'a option \<Rightarrow> 'a option" where
  "inv_ask q k v = (if iq_Fails q k then None else v)"

definition inv_try :: "inv_call \<Rightarrow> inv_query \<Rightarrow> (inventory \<Rightarrow> inventory) \<Rightarrow> inventory \<Rightarrow> inventory" where
  "inv_try q k f db = (if iq_Fails q k then db else f db)"

type_synonym 'a inv_answer = "(int \<times> string) + 'a"

section \<open>Rows of clusters\<close>

definition ClusterByID :: "uuid \<Rightarrow> inventory \<Rightarrow> cluster option" where
  "ClusterByID i db = find (\<lambda>c. cl_ID c = i) (iv_Clusters db)"

definition clusterModes :: "string list" where
  "clusterModes = [''active_standby'', ''ha'']"

text \<open>A new row with the defaults of its columns; a name or identifier that is taken and a mode the table does not know are refused.\<close>

definition InsertCluster :: "uuid \<Rightarrow> string \<Rightarrow> string \<Rightarrow> inventory \<Rightarrow> (cluster \<times> inventory) option" where
  "InsertCluster i name mode db =
     (let c = \<lparr>cl_ID = i, cl_Name = name, cl_Mode = mode, cl_AutoFailover = True, cl_AutoFailback = True,
               cl_AppTierAlwaysAvailable = False, cl_FailoverOnMaintenance = True, cl_FailoverDelaySecs = 30, cl_FailbackMultiplier = 3,
               cl_MediaSyncEnabled = False, cl_ExtraFoldersSyncEnabled = False, cl_ExtraSyncFolders = [],
               cl_FileSyncCron = ''*/30 * * * *'', cl_FileSyncScheduleEnabled = False, cl_PatroniConfigured = False\<rparr>
      in if list_ex (\<lambda>d. cl_Name d = name \<or> cl_ID d = i) (iv_Clusters db) \<or> mode \<notin> set clusterModes then None
         else Some (c, db\<lparr>iv_Clusters := iv_Clusters db @ [c]\<rparr>))"

definition update_cluster :: "uuid \<Rightarrow> (cluster \<Rightarrow> cluster) \<Rightarrow> inventory \<Rightarrow> inventory" where
  "update_cluster i f db = db\<lparr>iv_Clusters := map (\<lambda>c. if cl_ID c = i then f c else c) (iv_Clusters db)\<rparr>"

text \<open>Deleting nodes deletes their tokens, deleting a cluster its nodes.\<close>

definition drop_nodes :: "(node \<Rightarrow> bool) \<Rightarrow> inventory \<Rightarrow> inventory" where
  "drop_nodes P db =
     (let gone = map nd_ID (filter P (iv_Nodes db)) in db
      \<lparr>iv_Nodes := filter (\<lambda>n. \<not> P n) (iv_Nodes db),
       iv_Tokens := filter (\<lambda>t. gt_NodeID t \<notin> set gone) (iv_Tokens db),
       iv_RegTokens := filter (\<lambda>t. rg_NodeID t \<notin> set gone) (iv_RegTokens db)\<rparr>)"

definition delete_cluster_row :: "uuid \<Rightarrow> inventory \<Rightarrow> inventory" where
  "delete_cluster_row i db = drop_nodes (\<lambda>n. nd_ClusterID n = i) (db\<lparr>iv_Clusters := filter (\<lambda>c. cl_ID c \<noteq> i) (iv_Clusters db)\<rparr>)"

section \<open>Rows of nodes\<close>

definition NodeByID :: "uuid \<Rightarrow> inventory \<Rightarrow> node option" where
  "NodeByID i db = GetByID (iv_Nodes db) i"

definition InsertNode :: "inv_env \<Rightarrow> uuid \<Rightarrow> uuid \<Rightarrow> string \<Rightarrow> string \<Rightarrow> string \<Rightarrow> int \<Rightarrow> inventory \<Rightarrow> (node \<times> inventory) option" where
  "InsertNode E i c host ip role prio db = (case ie_Inet E ip of
      None \<Rightarrow> None
    | Some ip' \<Rightarrow>
        (let n = \<lparr>nd_ID = i, nd_ClusterID = c, nd_Hostname = host, nd_IPAddress = ip', nd_Role = role, nd_FailoverPriority = prio,
                  nd_AgentStatus = ''unknown'', nd_PatroniState = None, nd_NetboxRunning = None, nd_RQRunning = None,
                  nd_SuppressAutoStart = False, nd_MaintenanceMode = False\<rparr>
         in if list_ex (\<lambda>m. nd_ID m = i \<or> (nd_ClusterID m = c \<and> nd_Hostname m = host)) (iv_Nodes db) \<or> \<not> ValidRole role
               \<or> ClusterByID c db = None then None
            else Some (n, db\<lparr>iv_Nodes := iv_Nodes db @ [n]\<rparr>)))"

definition update_node :: "uuid \<Rightarrow> (node \<Rightarrow> node) \<Rightarrow> inventory \<Rightarrow> inventory" where
  "update_node i f db = db\<lparr>iv_Nodes := map (\<lambda>n. if nd_ID n = i then f n else n) (iv_Nodes db)\<rparr>"

text \<open>\<open>UpdateNode\<close>: \<open>COALESCE($2, hostname)\<close> and so on; an unknown identifier gives no row.\<close>

record node_update =
  nu_Hostname :: "string option"
  nu_IPAddress :: "string option"
  nu_Role :: "string option"
  nu_FailoverPriority :: "int option"
  nu_SuppressAutoStart :: "bool option"

definition or_else :: "'a option \<Rightarrow> 'a \<Rightarrow> 'a" where
  "or_else o' d = (case o' of None \<Rightarrow> d | Some x \<Rightarrow> x)"

definition coalesced :: "inv_env \<Rightarrow> node_update \<Rightarrow> node \<Rightarrow> node option" where
  "coalesced E u n = (case (case nu_IPAddress u of None \<Rightarrow> Some (nd_IPAddress n) | Some ip \<Rightarrow> ie_Inet E ip) of
      None \<Rightarrow> None
    | Some ip \<Rightarrow> Some (n\<lparr>nd_Hostname := or_else (nu_Hostname u) (nd_Hostname n), nd_IPAddress := ip,
        nd_Role := or_else (nu_Role u) (nd_Role n), nd_FailoverPriority := or_else (nu_FailoverPriority u) (nd_FailoverPriority n)\<rparr>))"

definition UpdateNode :: "inv_env \<Rightarrow> uuid \<Rightarrow> node_update \<Rightarrow> inventory \<Rightarrow> inventory option" where
  "UpdateNode E i u db = (case NodeByID i db of
      None \<Rightarrow> None
    | Some n \<Rightarrow> (case coalesced E u n of
        None \<Rightarrow> None
      | Some n' \<Rightarrow>
          if list_ex (\<lambda>m. nd_ID m \<noteq> i \<and> nd_ClusterID m = nd_ClusterID n' \<and> nd_Hostname m = nd_Hostname n') (iv_Nodes db)
             \<or> \<not> ValidRole (nd_Role n') then None
          else Some (update_node i (\<lambda>_. n') db)))"

definition SetSuppressAutoStart :: "uuid \<Rightarrow> bool \<Rightarrow> inventory \<Rightarrow> inventory" where
  "SetSuppressAutoStart i b = update_node i (\<lambda>n. n\<lparr>nd_SuppressAutoStart := b\<rparr>)"

definition SetMaintenanceMode :: "uuid \<Rightarrow> bool \<Rightarrow> inventory \<Rightarrow> inventory" where
  "SetMaintenanceMode i b = update_node i (\<lambda>n. n\<lparr>nd_MaintenanceMode := b, nd_SuppressAutoStart := b\<rparr>)"

definition UpdateAgentStatus :: "uuid \<Rightarrow> string \<Rightarrow> inventory \<Rightarrow> inventory" where
  "UpdateAgentStatus i s = update_node i (\<lambda>n. n\<lparr>nd_AgentStatus := s\<rparr>)"

definition MarkAllUnknown :: "inventory \<Rightarrow> inventory" where
  "MarkAllUnknown db = db\<lparr>iv_Nodes := map (\<lambda>n. n\<lparr>nd_AgentStatus := ''unknown''\<rparr>) (iv_Nodes db)\<rparr>"

definition DeleteNodeRow :: "uuid \<Rightarrow> inventory \<Rightarrow> inventory" where
  "DeleteNodeRow i = drop_nodes (\<lambda>n. nd_ID n = i)"

text \<open>\<open>GREATEST(1, COALESCE(MIN(failover_priority), 101) - 1)\<close>.\<close>

definition NextPriority :: "uuid \<Rightarrow> inventory \<Rightarrow> int" where
  "NextPriority c db = (case map nd_FailoverPriority (filter (\<lambda>n. nd_ClusterID n = c) (iv_Nodes db)) of
      [] \<Rightarrow> 100
    | p # ps \<Rightarrow> max 1 (foldl min p ps - 1))"

section \<open>Rows of agent tokens\<close>

definition CreateToken :: "uuid \<Rightarrow> string \<Rightarrow> instant \<Rightarrow> inventory \<Rightarrow> inventory option" where
  "CreateToken i h now db =
     (if list_ex (\<lambda>t. gt_TokenHash t = h) (iv_Tokens db) \<or> NodeByID i db = None then None
      else Some (db\<lparr>iv_Tokens := iv_Tokens db
        @ [\<lparr>gt_NodeID = i, gt_TokenHash = h, gt_IssuedAt = now, gt_RevokedAt = None, gt_LastUsedAt = None\<rparr>]\<rparr>))"

definition ValidToken :: "string \<Rightarrow> inventory \<Rightarrow> agent_token option" where
  "ValidToken h db = find (\<lambda>t. gt_TokenHash t = h \<and> gt_RevokedAt t = None) (iv_Tokens db)"

definition TouchToken :: "instant \<Rightarrow> string \<Rightarrow> inventory \<Rightarrow> inventory" where
  "TouchToken now h db = db\<lparr>iv_Tokens := map (\<lambda>t. if gt_TokenHash t = h then t\<lparr>gt_LastUsedAt := Some now\<rparr> else t) (iv_Tokens db)\<rparr>"

definition RevokeTokens :: "instant \<Rightarrow> uuid \<Rightarrow> inventory \<Rightarrow> inventory" where
  "RevokeTokens now i db = db\<lparr>iv_Tokens :=
     map (\<lambda>t. if gt_NodeID t = i \<and> gt_RevokedAt t = None then t\<lparr>gt_RevokedAt := Some now\<rparr> else t) (iv_Tokens db)\<rparr>"

text \<open>\<open>Consume\<close>: the row is marked as used and returned.\<close>

definition ConsumeRegToken :: "instant \<Rightarrow> string \<Rightarrow> inventory \<Rightarrow> (reg_token \<times> inventory) option" where
  "ConsumeRegToken now h db = (case find (\<lambda>t. rg_TokenHash t = h \<and> rg_UsedAt t = None \<and> now < rg_ExpiresAt t) (iv_RegTokens db) of
      None \<Rightarrow> None
    | Some t \<Rightarrow> Some (t, db\<lparr>iv_RegTokens :=
        map (\<lambda>t. if rg_TokenHash t = h \<and> rg_UsedAt t = None \<and> now < rg_ExpiresAt t then t\<lparr>rg_UsedAt := Some now\<rparr> else t) (iv_RegTokens db)\<rparr>))"

definition CreateStagingRow :: "uuid \<Rightarrow> string \<Rightarrow> string \<Rightarrow> instant \<Rightarrow> instant \<Rightarrow> inventory \<Rightarrow> (staging_token \<times> inventory) option" where
  "CreateStagingRow i h label now expires db =
     (let t = \<lparr>sk_ID = i, sk_TokenHash = h, sk_Label = label, sk_CreatedAt = now, sk_ExpiresAt = expires, sk_UsedAt = None\<rparr>
      in if list_ex (\<lambda>u. sk_TokenHash u = h \<or> sk_ID u = i) (iv_StagingTokens db) then None
         else Some (t, db\<lparr>iv_StagingTokens := iv_StagingTokens db @ [t]\<rparr>))"

definition staging_open :: "instant \<Rightarrow> string \<Rightarrow> staging_token \<Rightarrow> bool" where
  "staging_open now h t = (sk_TokenHash t = h \<and> sk_UsedAt t = None \<and> now < sk_ExpiresAt t)"

definition ConsumeStaging :: "instant \<Rightarrow> string \<Rightarrow> inventory \<Rightarrow> (staging_token \<times> inventory) option" where
  "ConsumeStaging now h db = (case find (staging_open now h) (iv_StagingTokens db) of
      None \<Rightarrow> None
    | Some t \<Rightarrow> Some (t, db\<lparr>iv_StagingTokens :=
        map (\<lambda>t. if staging_open now h t then t\<lparr>sk_UsedAt := Some now\<rparr> else t) (iv_StagingTokens db)\<rparr>))"

definition ListStaging :: "inventory \<Rightarrow> staging_token list" where
  "ListStaging db = sort_key (\<lambda>t. - sk_CreatedAt t) (iv_StagingTokens db)"

section \<open>Rows of agents that wait for a cluster\<close>

definition CreateAgentRow :: "uuid \<Rightarrow> string \<Rightarrow> string \<Rightarrow> string \<Rightarrow> string \<Rightarrow> instant \<Rightarrow> inventory \<Rightarrow> (staging_agent \<times> inventory) option" where
  "CreateAgentRow i host ip ver h now db =
     (let a = \<lparr>sg_ID = i, sg_Hostname = host, sg_IPAddress = ip, sg_AgentVersion = ver, sg_TokenHash = h, sg_Status = ''connected'',
               sg_LastSeenAt = None, sg_CreatedAt = now\<rparr>
      in if list_ex (\<lambda>b. sg_TokenHash b = h \<or> sg_ID b = i) (iv_StagingAgents db) then None
         else Some (a, db\<lparr>iv_StagingAgents := iv_StagingAgents db @ [a]\<rparr>))"

definition AgentByID :: "uuid \<Rightarrow> inventory \<Rightarrow> staging_agent option" where
  "AgentByID i db = find (\<lambda>a. sg_ID a = i) (iv_StagingAgents db)"

definition AgentByTokenHash :: "string \<Rightarrow> inventory \<Rightarrow> staging_agent option" where
  "AgentByTokenHash h db = find (\<lambda>a. sg_TokenHash a = h) (iv_StagingAgents db)"

definition UpdateStagingStatus :: "uuid \<Rightarrow> string \<Rightarrow> instant \<Rightarrow> inventory \<Rightarrow> inventory" where
  "UpdateStagingStatus i s now db = db\<lparr>iv_StagingAgents :=
     map (\<lambda>a. if sg_ID a = i then a\<lparr>sg_Status := s, sg_LastSeenAt := Some now\<rparr> else a) (iv_StagingAgents db)\<rparr>"

definition DeleteAgentRow :: "uuid \<Rightarrow> inventory \<Rightarrow> inventory" where
  "DeleteAgentRow i db = db\<lparr>iv_StagingAgents := filter (\<lambda>a. sg_ID a \<noteq> i) (iv_StagingAgents db)\<rparr>"

definition ListAgents :: "inventory \<Rightarrow> staging_agent list" where
  "ListAgents db = sort_key (\<lambda>a. - sg_CreatedAt a) (iv_StagingAgents db)"

section \<open>Clusters\<close>

definition letter :: "char \<Rightarrow> bool" where
  "letter c = (let n = (of_char c :: nat) in 65 \<le> n \<and> n \<le> 90 \<or> 97 \<le> n \<and> n \<le> 122)"

text \<open>The expression \<open>^[a-zA-Z][a-zA-Z0-9_-]{0,62}$\<close>.\<close>

definition validClusterName :: "string \<Rightarrow> bool" where
  "validClusterName s = (case s of [] \<Rightarrow> False
     | c # r \<Rightarrow> letter c \<and> list_all (\<lambda>d. letter d \<or> is_digit d \<or> d = CHR ''_'' \<or> d = CHR ''-'') r \<and> length r \<le> 62)"

text \<open>\<open>Create\<close>, on the name and the mode of a request that can be read.\<close>

definition CreateCluster :: "inv_call \<Rightarrow> (string \<times> string) option \<Rightarrow> inventory \<Rightarrow> cluster inv_answer \<times> inventory" where
  "CreateCluster q body db = (case body of
      None \<Rightarrow> (Inl (400, ''invalid request body''), db)
    | Some (name, mode) \<Rightarrow>
        if \<not> validClusterName name then (Inl (400, ''cluster name must start with a letter''), db)
        else if mode \<notin> set clusterModes then (Inl (400, ''mode must be active_standby or ha''), db)
        else (case inv_ask q QClusterCreate (InsertCluster (iq_NewID q) name mode db) of
            None \<Rightarrow> (Inl (409, ''cluster name already exists''), db)
          | Some (c, db') \<Rightarrow> (Inr c, db')))"

record failover_request =
  fq_AutoFailover :: bool
  fq_AutoFailback :: bool
  fq_AppTierAlwaysAvailable :: bool
  fq_FailoverOnMaintenance :: bool
  fq_FailoverDelaySecs :: int
  fq_FailbackMultiplier :: int

definition failover_settings :: "failover_request \<Rightarrow> cluster \<Rightarrow> cluster" where
  "failover_settings r c = c
     \<lparr>cl_AutoFailover := fq_AutoFailover r, cl_AutoFailback := fq_AutoFailback r,
      cl_AppTierAlwaysAvailable := fq_AppTierAlwaysAvailable r, cl_FailoverOnMaintenance := fq_FailoverOnMaintenance r,
      cl_FailoverDelaySecs := (if fq_FailoverDelaySecs r < 10 then 10 else fq_FailoverDelaySecs r),
      cl_FailbackMultiplier := (if fq_FailbackMultiplier r \<le> 0 then 3 else fq_FailbackMultiplier r)\<rparr>"

definition PatchFailoverSettings :: "inv_call \<Rightarrow> uuid option \<Rightarrow> failover_request option \<Rightarrow> inventory \<Rightarrow> cluster inv_answer \<times> inventory" where
  "PatchFailoverSettings q cid body db = (case cid of
      None \<Rightarrow> (Inl (400, ''invalid cluster id''), db)
    | Some i \<Rightarrow> (case body of
        None \<Rightarrow> (Inl (400, ''invalid request body''), db)
      | Some r \<Rightarrow>
          if iq_Fails q QClusterUpdate then (Inl (404, ''cluster not found''), db)
          else (let db' = update_cluster i (failover_settings r) db in
            (case inv_ask q QClusterGet (ClusterByID i db') of
               None \<Rightarrow> (Inl (500, ''failed to fetch updated cluster''), db')
             | Some c \<Rightarrow> (Inr c, db')))))"

text \<open>\<open>Delete\<close>; the witness, its data and the log directory of the cluster are left out.\<close>

definition DeleteCluster :: "inv_call \<Rightarrow> uuid option \<Rightarrow> inventory \<Rightarrow> unit inv_answer \<times> 'e hub_op list \<times> inventory" where
  "DeleteCluster q cid db = (case cid of
      None \<Rightarrow> (Inl (400, ''invalid cluster id''), [], db)
    | Some i \<Rightarrow> (case inv_ask q QClusterGet (ClusterByID i db) of
        None \<Rightarrow> (Inl (404, ''cluster not found''), [], db)
      | Some _ \<Rightarrow>
          if iq_Fails q QClusterDelete then (Inl (500, ''failed to delete cluster''), [RemoveCluster i], db)
          else (Inr (), [RemoveCluster i], delete_cluster_row i db)))"

record media_request =
  mq_MediaSyncEnabled :: bool
  mq_ExtraFoldersSyncEnabled :: bool
  mq_ExtraSyncFolders :: "string list"
  mq_FileSyncCron :: string
  mq_FileSyncScheduleEnabled :: bool

definition media_settings :: "media_request \<Rightarrow> cluster \<Rightarrow> cluster" where
  "media_settings r c = c
     \<lparr>cl_MediaSyncEnabled := mq_MediaSyncEnabled r, cl_ExtraFoldersSyncEnabled := mq_ExtraFoldersSyncEnabled r,
      cl_ExtraSyncFolders := mq_ExtraSyncFolders r, cl_FileSyncCron := trim_space (mq_FileSyncCron r),
      cl_FileSyncScheduleEnabled := mq_FileSyncScheduleEnabled r\<rparr>"

text \<open>The answer carries the folders whose sync record is kept.\<close>

definition UpdateMediaSyncSettings :: "inv_call \<Rightarrow> uuid option \<Rightarrow> media_request option \<Rightarrow> inventory
    \<Rightarrow> (cluster \<times> string list) inv_answer \<times> inventory" where
  "UpdateMediaSyncSettings q cid body db = (case cid of
      None \<Rightarrow> (Inl (400, ''invalid cluster id''), db)
    | Some i \<Rightarrow> (case body of
        None \<Rightarrow> (Inl (400, ''invalid request body''), db)
      | Some r \<Rightarrow> (case Validate (trim_space (mq_FileSyncCron r)) of
          Some e \<Rightarrow> (Inl (400, ''sync schedule''), db)
        | None \<Rightarrow>
            if iq_Fails q QClusterUpdate then (Inl (404, ''cluster not found''), db)
            else (let db' = update_cluster i (media_settings r) db in
              (case inv_ask q QClusterGet (ClusterByID i db') of
                 None \<Rightarrow> (Inl (500, ''failed to fetch updated cluster''), db')
               | Some c \<Rightarrow>
                   if iq_Fails q QKeepFolders then (Inl (500, ''failed to update the file sync record''), db')
                   else (Inr (c, SyncFolders c), db'))))))"

text \<open>\<open>Status\<close>: of each node the status, the health and the state, and the health of the cluster.\<close>

record node_status =
  ns_NodeID :: uuid
  ns_AgentStatus :: string
  ns_PatroniRole :: string
  ns_Health :: string
  ns_State :: string

definition node_status_of :: "cluster \<Rightarrow> (uuid \<Rightarrow> bool) \<Rightarrow> node \<Rightarrow> node_status" where
  "node_status_of c conn n =
     (let status = (if conn (nd_ID n) then ''connected'' else nd_AgentStatus n); role = ExtractPatroniRole (nd_PatroniState n) in
      \<lparr>ns_NodeID = nd_ID n, ns_AgentStatus = status, ns_PatroniRole = role,
       ns_Health = ComputeNodeHealth (nd_Role n) status (nd_NetboxRunning n) (nd_RQRunning n) role (cl_PatroniConfigured c),
       ns_State = ComputeNodeState (nd_Role n) (nd_NetboxRunning n) role (cl_PatroniConfigured c)\<rparr>)"

definition ClusterStatus :: "inv_call \<Rightarrow> 'e hub \<Rightarrow> uuid option \<Rightarrow> inventory \<Rightarrow> (string option \<times> node_status list) inv_answer" where
  "ClusterStatus q h cid db = (case cid of
      None \<Rightarrow> Inl (400, ''invalid cluster id'')
    | Some i \<Rightarrow> (case inv_ask q QClusterGet (ClusterByID i db) of
        None \<Rightarrow> Inl (404, ''cluster not found'')
      | Some c \<Rightarrow>
          if iq_Fails q QNodeList then Inl (500, ''failed to list nodes'')
          else (let ns = ListByCluster (iv_Nodes db) i; ss = map (node_status_of c (\<lambda>n. n \<in> set (ConnectedNodeIDs h))) ns
            in Inr (AggregateClusterHealth (map ns_Health ss) (map ns_State ss) (map nd_Role ns), ss))))"

section \<open>Nodes\<close>

text \<open>\<open>computeHealth\<close>; the last two arguments are whether Patroni runs and whether a Patroni state is stored.\<close>

definition computeHealth :: "string \<Rightarrow> bool option \<Rightarrow> bool option \<Rightarrow> bool option \<Rightarrow> bool \<Rightarrow> string" where
  "computeHealth status netboxRunning rqRunning patroniRunning patroniConnected =
     (if status \<noteq> ''connected'' then ''offline''
      else if patroniRunning = Some True \<and> \<not> patroniConnected then ''degraded''
      else if netboxRunning = Some True \<and> rqRunning = Some True then ''healthy''
      else ''degraded'')"

text \<open>A node as it is shown: its row, its live status and its health; \<open>patroni\<close> is whether a node runs Patroni.\<close>

definition node_shown :: "'e hub \<Rightarrow> (uuid \<Rightarrow> bool option) \<Rightarrow> node \<Rightarrow> node \<times> string" where
  "node_shown h patroni n =
     (let n' = (if Get (nd_ID n) h \<noteq> None then n\<lparr>nd_AgentStatus := ''connected''\<rparr> else n) in
      (n', computeHealth (nd_AgentStatus n') (nd_NetboxRunning n) (nd_RQRunning n) (patroni (nd_ID n)) (nd_PatroniState n \<noteq> None)))"

definition ListNodes :: "inv_call \<Rightarrow> 'e hub \<Rightarrow> (uuid \<Rightarrow> bool option) \<Rightarrow> uuid option \<Rightarrow> inventory \<Rightarrow> (node \<times> string) list inv_answer" where
  "ListNodes q h patroni cid db = (case cid of
      None \<Rightarrow> Inl (400, ''invalid cluster id'')
    | Some i \<Rightarrow> if iq_Fails q QNodeList then Inl (500, ''failed to list nodes'')
        else Inr (map (node_shown h patroni) (ListByCluster (iv_Nodes db) i)))"

text \<open>\<open>Get\<close> and \<open>Status\<close>.\<close>

definition GetNode :: "inv_call \<Rightarrow> 'e hub \<Rightarrow> (uuid \<Rightarrow> bool option) \<Rightarrow> uuid option \<Rightarrow> inventory \<Rightarrow> (node \<times> string) inv_answer" where
  "GetNode q h patroni nid db = (case nid of
      None \<Rightarrow> Inl (400, ''invalid node id'')
    | Some i \<Rightarrow> (case inv_ask q QNodeGet (NodeByID i db) of
        None \<Rightarrow> Inl (404, ''node not found'')
      | Some n \<Rightarrow> Inr (node_shown h patroni n)))"

text \<open>\<open>Create\<close>, on the host name, address, role and priority of the request; the SSH port is left out.\<close>

definition CreateNode :: "inv_env \<Rightarrow> inv_call \<Rightarrow> uuid option \<Rightarrow> (string \<times> string \<times> string \<times> int) option \<Rightarrow> inventory
    \<Rightarrow> node inv_answer \<times> inventory" where
  "CreateNode E q cid body db = (case cid of
      None \<Rightarrow> (Inl (400, ''invalid cluster id''), db)
    | Some c \<Rightarrow> (case body of
        None \<Rightarrow> (Inl (400, ''invalid request body''), db)
      | Some (host, ip, role, prio) \<Rightarrow>
          if host = [] then (Inl (400, ''hostname is required''), db)
          else if ip = [] then (Inl (400, ''ip_address is required''), db)
          else if \<not> ValidRole role then (Inl (400, ''role must be hyperconverged, app, or db_only''), db)
          else if prio = 0 \<and> iq_Fails q QNextPriority then (Inl (500, ''failed to assign failover priority''), db)
          else (case inv_ask q QNodeCreate
                       (InsertNode E (iq_NewID q) c host ip role (if prio = 0 then NextPriority c db else prio) db) of
              None \<Rightarrow> (Inl (409, ''hostname already exists in this cluster''), db)
            | Some (n, db') \<Rightarrow> (Inr n, db'))))"

definition identity_change :: "node_update \<Rightarrow> bool" where
  "identity_change u = (nu_Hostname u \<noteq> None \<or> nu_IPAddress u \<noteq> None \<or> nu_Role u \<noteq> None \<or> nu_FailoverPriority u \<noteq> None)"

text \<open>The second part of \<open>Update\<close>: the flag, and the answer.\<close>

definition finish_update :: "inv_call \<Rightarrow> uuid \<Rightarrow> node_update \<Rightarrow> inventory \<Rightarrow> node inv_answer \<times> inventory" where
  "finish_update q i u db =
     (if nu_SuppressAutoStart u \<noteq> None \<and> iq_Fails q QNodeSuppress then (Inl (404, ''node not found''), db)
      else (let db' = (case nu_SuppressAutoStart u of None \<Rightarrow> db | Some b \<Rightarrow> SetSuppressAutoStart i b db) in
        (case inv_ask q QNodeGet (NodeByID i db') of
           None \<Rightarrow> (Inl (404, ''node not found''), db')
         | Some n \<Rightarrow> (Inr n, db'))))"

definition UpdateNodeHandler :: "inv_env \<Rightarrow> inv_call \<Rightarrow> uuid option \<Rightarrow> node_update option \<Rightarrow> inventory \<Rightarrow> node inv_answer \<times> inventory" where
  "UpdateNodeHandler E q nid body db = (case nid of
      None \<Rightarrow> (Inl (400, ''invalid node id''), db)
    | Some i \<Rightarrow> (case body of
        None \<Rightarrow> (Inl (400, ''invalid request body''), db)
      | Some u \<Rightarrow>
          if \<not> identity_change u then finish_update q i u db
          else if nu_Hostname u = Some [] then (Inl (400, ''hostname cannot be empty''), db)
          else if nu_IPAddress u = Some [] then (Inl (400, ''ip_address cannot be empty''), db)
          else if (case nu_Role u of None \<Rightarrow> False | Some r \<Rightarrow> \<not> ValidRole r)
          then (Inl (400, ''role must be hyperconverged, app, or db_only''), db)
          else (case inv_ask q QNodeUpdate (UpdateNode E i u db) of
              None \<Rightarrow> (Inl (409, ''update failed: hostname may already exist in this cluster''), db)
            | Some db' \<Rightarrow> finish_update q i u db')))"

text \<open>\<open>Delete\<close>: the tokens are revoked first, then the session is closed, then the row goes.\<close>

definition DeleteNode :: "inv_call \<Rightarrow> uuid option \<Rightarrow> inventory \<Rightarrow> unit inv_answer \<times> 'e hub_op list \<times> inventory" where
  "DeleteNode q nid db = (case nid of
      None \<Rightarrow> (Inl (400, ''invalid node id''), [], db)
    | Some i \<Rightarrow>
        (let db' = inv_try q QTokenRevoke (RevokeTokens (iq_Now q) i) db in
         if iq_Fails q QNodeDelete then (Inl (404, ''node not found''), [hub_op.Remove i], db')
         else (Inr (), [hub_op.Remove i], DeleteNodeRow i db')))"

text \<open>\<open>SetMaintenance\<close>: the node, and whether the failover manager is told that maintenance begins or that it ends.\<close>

definition SetMaintenance :: "inv_call \<Rightarrow> uuid option \<Rightarrow> bool option \<Rightarrow> inventory \<Rightarrow> (node \<times> bool) inv_answer \<times> inventory" where
  "SetMaintenance q nid body db = (case nid of
      None \<Rightarrow> (Inl (400, ''invalid node id''), db)
    | Some i \<Rightarrow> (case body of
        None \<Rightarrow> (Inl (400, ''invalid request body''), db)
      | Some b \<Rightarrow>
          if iq_Fails q QNodeMaintenance then (Inl (404, ''node not found''), db)
          else (let db' = SetMaintenanceMode i b db in
            (case inv_ask q QNodeGet (NodeByID i db') of
               None \<Rightarrow> (Inl (500, ''failed to fetch node''), db')
             | Some n \<Rightarrow> (Inr (n, b), db')))))"

text \<open>\<open>ServiceAction\<close>: the task the end of the route's path names; \<open>disp\<close> is the outcome of its dispatch.\<close>

definition action_task :: "string \<Rightarrow> string option" where
  "action_task path =
     (if has_suffix ''/start-netbox'' path then Some ''service.start.netbox''
      else if has_suffix ''/stop-netbox'' path then Some ''service.stop.netbox''
      else if has_suffix ''/restart-netbox'' path then Some ''service.restart.netbox''
      else if has_suffix ''/restart-rq'' path then Some ''service.restart.rq''
      else None)"

definition ServiceAction :: "'e hub \<Rightarrow> (uuid \<Rightarrow> string \<Rightarrow> string option) \<Rightarrow> uuid option \<Rightarrow> string \<Rightarrow> (uuid \<times> string) inv_answer" where
  "ServiceAction h disp nid path = (case nid of
      None \<Rightarrow> Inl (400, ''invalid node id'')
    | Some i \<Rightarrow> (case action_task path of
        None \<Rightarrow> Inl (400, ''unknown service action'')
      | Some t \<Rightarrow>
          if Get i h = None then Inl (409, ''node is not connected'')
          else (case disp i t of Some e \<Rightarrow> Inl (409, ''dispatch failed: '' @ e) | None \<Rightarrow> Inr (i, t))))"

text \<open>The number of rows or lines a request asks for (\<open>Tasks\<close>, \<open>GetLogs\<close>).\<close>

definition limit_of :: "int \<Rightarrow> int \<Rightarrow> string \<Rightarrow> int" where
  "limit_of dflt upper s = (case atoi s of None \<Rightarrow> dflt | Some n \<Rightarrow> if 0 < n \<and> n \<le> upper then n else dflt)"

end
