(* ===== verification/AgentIdentity.thy ===== *)
theory AgentIdentity
  imports Inventory
begin

text \<open>
  Who an agent is: registration with a one-time token, the pool of agents that wait for a cluster, their assignment to a
  node, and the check of the token an agent connects with (\<open>internal/server/api/handlers/agent.go\<close>, \<open>staging.go\<close> and the
  tokens of \<open>nodes.go\<close>); and the requests of \<open>Inventory\<close> and this theory as steps of one history.
\<close>

section \<open>Tokens\<close>

text \<open>A token with the hash to store for it.\<close>

definition newAgentToken :: "inv_env \<Rightarrow> inv_call \<Rightarrow> (string \<times> string) option" where
  "newAgentToken E q = map_option (\<lambda>raw. (raw, HashToken (ie_SHA256 E) raw)) (GenerateToken (iq_Random q) 48)"

text \<open>\<open>strings.NewReplacer\<close> with the two schemes; the number counts the characters of a match still to be skipped.\<close>

fun ws_scheme :: "nat \<Rightarrow> string \<Rightarrow> string" where
  "ws_scheme k [] = []"
| "ws_scheme (Suc k) (c # s) = ws_scheme k s"
| "ws_scheme 0 (c # s) =
     (if has_prefix ''https://'' (c # s) then ''wss://'' @ ws_scheme 7 s
      else if has_prefix ''http://'' (c # s) then ''ws://'' @ ws_scheme 6 s
      else c # ws_scheme 0 s)"

definition ws_url :: "inv_env \<Rightarrow> string" where
  "ws_url E = ws_scheme 0 (if ie_ServerURL E = [] then ''https://your-conductor'' else ie_ServerURL E)"

definition reissueAgentToken :: "inv_env \<Rightarrow> inv_call \<Rightarrow> uuid \<Rightarrow> inventory \<Rightarrow> (string \<times> string) option \<times> inventory" where
  "reissueAgentToken E q i db =
     (let db' = inv_try q QTokenRevoke (RevokeTokens (iq_Now q) i) db in
      case newAgentToken E q of
        None \<Rightarrow> (None, db')
      | Some (raw, h) \<Rightarrow> (case inv_ask q QTokenCreate (CreateToken i h (iq_Now q) db') of
          None \<Rightarrow> (None, db')
        | Some db'' \<Rightarrow> (Some (raw, ws_url E), db'')))"

text \<open>The node with its new token and the address agents connect to.\<close>

definition GenerateRegToken :: "inv_env \<Rightarrow> inv_call \<Rightarrow> uuid option \<Rightarrow> inventory \<Rightarrow> (uuid \<times> string \<times> string) inv_answer \<times> inventory" where
  "GenerateRegToken E q nid db = (case nid of
      None \<Rightarrow> (Inl (400, ''invalid node id''), db)
    | Some i \<Rightarrow> (case inv_ask q QNodeGet (NodeByID i db) of
        None \<Rightarrow> (Inl (404, ''node not found''), db)
      | Some n \<Rightarrow> (case reissueAgentToken E q i db of
          (None, db') \<Rightarrow> (Inl (500, ''failed to issue token''), db')
        | (Some (raw, url), db') \<Rightarrow> (Inr (nd_ID n, raw, url @ ''/api/v1/agent/connect''), db'))))"

section \<open>Registration\<close>

text \<open>\<open>Register\<close>, on a request that can be read: its node identifier, \<open>None\<close> if it is none, and its one-time token.\<close>

definition RegisterAgent :: "inv_env \<Rightarrow> inv_call \<Rightarrow> (uuid option \<times> string) option \<Rightarrow> inventory \<Rightarrow> (uuid \<times> string) inv_answer \<times> inventory" where
  "RegisterAgent E q body db = (case body of
      None \<Rightarrow> (Inl (400, ''invalid request''), db)
    | Some (None, _) \<Rightarrow> (Inl (400, ''invalid node_id''), db)
    | Some (Some i, tok) \<Rightarrow>
        (case inv_ask q QRegConsume (ConsumeRegToken (iq_Now q) (HashToken (ie_SHA256 E) tok) db) of
           None \<Rightarrow> (Inl (401, ''invalid or expired registration token''), db)
         | Some (t, db') \<Rightarrow>
             if rg_NodeID t \<noteq> i then (Inl (401, ''token/node mismatch''), db')
             else (case newAgentToken E q of
                 None \<Rightarrow> (Inl (500, ''token generation failed''), db')
               | Some (raw, h) \<Rightarrow> (case inv_ask q QTokenCreate (CreateToken i h (iq_Now q) db') of
                   None \<Rightarrow> (Inl (500, ''token storage failed''), db')
                 | Some db'' \<Rightarrow> (Inr (i, raw), db'')))))"

text \<open>\<open>StagingRegister\<close>, on the staging token, the host name, the address and the version of the agent.\<close>

definition StagingRegister :: "inv_env \<Rightarrow> inv_call \<Rightarrow> (string \<times> string \<times> string \<times> string) option \<Rightarrow> inventory
    \<Rightarrow> (uuid \<times> string) inv_answer \<times> inventory" where
  "StagingRegister E q body db = (case body of
      None \<Rightarrow> (Inl (400, ''invalid request''), db)
    | Some (tok, host, ip, ver) \<Rightarrow>
        if tok = [] \<or> host = [] then (Inl (400, ''staging_token and hostname are required''), db)
        else (case inv_ask q QStagingConsume (ConsumeStaging (iq_Now q) (HashToken (ie_SHA256 E) tok) db) of
            None \<Rightarrow> (Inl (401, ''invalid or expired staging token''), db)
          | Some (_, db') \<Rightarrow> (case newAgentToken E q of
              None \<Rightarrow> (Inl (500, ''token generation failed''), db')
            | Some (raw, h) \<Rightarrow> (case inv_ask q QAgentCreate (CreateAgentRow (iq_NewID q) host ip ver h (iq_Now q) db') of
                None \<Rightarrow> (Inl (500, ''agent registration failed''), db')
              | Some (a, db'') \<Rightarrow> (Inr (sg_ID a, raw), db'')))))"

section \<open>Connections\<close>

datatype agent_identity = ANode node | AStaging staging_agent

text \<open>The hello of an agent has the identifier, \<open>None\<close> if it is none, and the token.\<close>

definition authenticate :: "inv_env \<Rightarrow> inv_call \<Rightarrow> uuid option \<Rightarrow> string \<Rightarrow> inventory \<Rightarrow> agent_identity option" where
  "authenticate E q nid tok db = (case nid of
      None \<Rightarrow> None
    | Some i \<Rightarrow>
        (let h = HashToken (ie_SHA256 E) tok;
             staged = (case inv_ask q QAgentByToken (AgentByTokenHash h db) of
                 None \<Rightarrow> None
               | Some a \<Rightarrow> if sg_ID a = i then Some (AStaging a) else None)
         in case inv_ask q QTokenGet (ValidToken h db) of
              None \<Rightarrow> staged
            | Some t \<Rightarrow>
                if gt_NodeID t \<noteq> i then staged
                else (case inv_ask q QNodeGet (NodeByID i db) of None \<Rightarrow> staged | Some n \<Rightarrow> Some (ANode n))))"

text \<open>The beginning of a session (\<open>Connect\<close>, \<open>connectNode\<close>, \<open>connectStagingAgent\<close>).\<close>

definition ConnectAgent :: "inv_env \<Rightarrow> inv_call \<Rightarrow> uuid option \<Rightarrow> string \<Rightarrow> inventory
    \<Rightarrow> agent_identity option \<times> 'e hub_op list \<times> inventory" where
  "ConnectAgent E q nid tok db = (case authenticate E q nid tok db of
      None \<Rightarrow> (None, [], db)
    | Some (ANode n) \<Rightarrow> (Some (ANode n), [Connect (nd_ID n) (nd_ClusterID n)],
        inv_try q QTokenTouch (TouchToken (iq_Now q) (HashToken (ie_SHA256 E) tok))
          (inv_try q QNodeStatus (UpdateAgentStatus (nd_ID n) ''connected'') db))
    | Some (AStaging a) \<Rightarrow> (Some (AStaging a), [StagingConnect (sg_ID a)],
        inv_try q QAgentStatus (UpdateStagingStatus (sg_ID a) ''connected'' (iq_Now q)) db))"

text \<open>The end of a session: of a node's, unless a reconnect has replaced it, and of a waiting agent's.\<close>

definition EndNodeSession :: "inv_call \<Rightarrow> uuid \<Rightarrow> session_ref \<Rightarrow> 'e hub \<Rightarrow> inventory \<Rightarrow> 'e hub_op list \<times> inventory" where
  "EndNodeSession q i p h db = ([Teardown i p],
     if Get i h = Some p then inv_try q QNodeStatus (UpdateAgentStatus i ''disconnected'') db else db)"

definition EndStagingSession :: "inv_call \<Rightarrow> uuid \<Rightarrow> inventory \<Rightarrow> 'e hub_op list \<times> inventory" where
  "EndStagingSession q i db = ([StagingTeardown i], inv_try q QAgentStatus (UpdateStagingStatus i ''disconnected'' (iq_Now q)) db)"

text \<open>\<open>SyncConfig\<close> of an agent: the sync settings of its cluster, for a bearer token.\<close>

definition AgentSyncConfig :: "inv_env \<Rightarrow> inv_call \<Rightarrow> string option \<Rightarrow> inventory \<Rightarrow> (bool \<times> bool \<times> string list) inv_answer" where
  "AgentSyncConfig E q bearer db = (case bearer of
      None \<Rightarrow> Inl (401, ''bearer token required'')
    | Some raw \<Rightarrow>
        if raw = [] then Inl (401, ''bearer token required'')
        else (case inv_ask q QTokenGet (ValidToken (HashToken (ie_SHA256 E) raw) db) of
            None \<Rightarrow> Inl (401, ''invalid or revoked token'')
          | Some t \<Rightarrow> (case inv_ask q QNodeGet (NodeByID (gt_NodeID t) db) of
              None \<Rightarrow> Inl (404, ''node not found'')
            | Some n \<Rightarrow> (case inv_ask q QClusterGet (ClusterByID (nd_ClusterID n) db) of
                None \<Rightarrow> Inl (404, ''cluster not found'')
              | Some c \<Rightarrow> Inr (cl_MediaSyncEnabled c, cl_ExtraFoldersSyncEnabled c, cl_ExtraSyncFolders c)))))"

section \<open>The pool of waiting agents\<close>

definition hour :: duration where "hour = 60 * minute"

text \<open>\<open>CreateStagingToken\<close>, on the label and the hours of the request: a duration is a 64-bit number of nanoseconds.\<close>

definition CreateStagingToken :: "inv_env \<Rightarrow> inv_call \<Rightarrow> (string \<times> int) option \<Rightarrow> inventory \<Rightarrow> (staging_token \<times> string) inv_answer \<times> inventory" where
  "CreateStagingToken E q body db = (case body of
      None \<Rightarrow> (Inl (400, ''invalid request''), db)
    | Some (label, hours) \<Rightarrow>
        (let expires = iq_Now q + wrap64 ((if hours \<le> 0 then 24 else hours) * hour) in
         case GenerateToken (iq_Random q) 48 of
           None \<Rightarrow> (Inl (500, ''token generation failed''), db)
         | Some raw \<Rightarrow> (case inv_ask q QStagingCreate
               (CreateStagingRow (iq_NewID q) (HashToken (ie_SHA256 E) raw) label (iq_Now q) expires db) of
             None \<Rightarrow> (Inl (500, ''token storage failed''), db)
           | Some (t, db') \<Rightarrow> (Inr (t, raw), db'))))"

definition DeleteStagingToken :: "inv_call \<Rightarrow> uuid option \<Rightarrow> inventory \<Rightarrow> unit inv_answer \<times> inventory" where
  "DeleteStagingToken q tid db = (case tid of
      None \<Rightarrow> (Inl (400, ''invalid token id''), db)
    | Some i \<Rightarrow> if iq_Fails q QStagingDelete then (Inl (500, ''failed to delete token''), db)
        else (Inr (), db\<lparr>iv_StagingTokens := filter (\<lambda>t. sk_ID t \<noteq> i) (iv_StagingTokens db)\<rparr>))"

definition ListStagingTokens :: "inv_call \<Rightarrow> inventory \<Rightarrow> staging_token list inv_answer" where
  "ListStagingTokens q db = (if iq_Fails q QStagingList then Inl (500, ''failed to list staging tokens'') else Inr (ListStaging db))"

definition ListStagingAgents :: "inv_call \<Rightarrow> 'e hub \<Rightarrow> inventory \<Rightarrow> (staging_agent \<times> bool) list inv_answer" where
  "ListStagingAgents q h db = (if iq_Fails q QAgentList then Inl (500, ''failed to list staging agents'')
     else Inr (map (\<lambda>a. (a, IsConnectedStaging (sg_ID a) h)) (ListAgents db)))"

definition DeleteStagingAgent :: "inv_call \<Rightarrow> uuid option \<Rightarrow> inventory \<Rightarrow> unit inv_answer \<times> 'e hub_op list \<times> inventory" where
  "DeleteStagingAgent q aid db = (case aid of
      None \<Rightarrow> (Inl (400, ''invalid agent id''), [], db)
    | Some i \<Rightarrow> if iq_Fails q QAgentDelete then (Inl (500, ''failed to delete staging agent''), [StagingTeardown i], db)
        else (Inr (), [StagingTeardown i], DeleteAgentRow i db))"

text \<open>
  \<open>AssignStagingAgent\<close>, on the cluster (empty, unreadable or an identifier), the role and the priority of the request.  The
  token of the agent becomes one of the node; without that the node is taken back.
\<close>

datatype cluster_field = NoCluster | BadCluster | InCluster uuid

definition AssignStagingAgent :: "inv_env \<Rightarrow> inv_call \<Rightarrow> uuid option \<Rightarrow> (cluster_field \<times> string \<times> int) option \<Rightarrow> inventory
    \<Rightarrow> node inv_answer \<times> 'e hub_op list \<times> inventory" where
  "AssignStagingAgent E q aid body db = (case aid of
      None \<Rightarrow> (Inl (400, ''invalid agent id''), [], db)
    | Some i \<Rightarrow> (case body of
        None \<Rightarrow> (Inl (400, ''invalid request''), [], db)
      | Some (NoCluster, _) \<Rightarrow> (Inl (400, ''cluster_id is required''), [], db)
      | Some (BadCluster, _) \<Rightarrow> (Inl (400, ''invalid cluster_id''), [], db)
      | Some (InCluster c, role, prio) \<Rightarrow> (case inv_ask q QAgentGet (AgentByID i db) of
          None \<Rightarrow> (Inl (404, ''staging agent not found''), [], db)
        | Some a \<Rightarrow> (case inv_ask q QNodeCreate (InsertNode E (iq_NewID q) c (sg_Hostname a) (sg_IPAddress a)
                        (if role = [] then ''hyperconverged'' else role) (if prio \<le> 0 then 100 else prio) db) of
            None \<Rightarrow> (Inl (500, ''failed to create node''), [], db)
          | Some (n, db') \<Rightarrow> (case inv_ask q QTokenCreate (CreateToken (nd_ID n) (sg_TokenHash a) (iq_Now q) db') of
              None \<Rightarrow> (Inl (500, ''failed to migrate agent token''), [], inv_try q QNodeDelete (DeleteNodeRow (nd_ID n)) db')
            | Some db'' \<Rightarrow> (Inr n, [StagingTeardown i], inv_try q QAgentDelete (DeleteAgentRow i) db''))))))"

section \<open>Requests\<close>

datatype inv_op =
    OCreateCluster "(string \<times> string) option"
  | OPatchFailover "uuid option" "failover_request option"
  | OMediaSync "uuid option" "media_request option"
  | ODeleteCluster "uuid option"
  | OCreateNode "uuid option" "(string \<times> string \<times> string \<times> int) option"
  | OUpdateNode "uuid option" "node_update option"
  | OMaintenance "uuid option" "bool option"
  | ODeleteNode "uuid option"
  | OGenerate "uuid option"
  | ORegister "(uuid option \<times> string) option"
  | OCreateStaging "(string \<times> int) option"
  | ODeleteStaging "uuid option"
  | OStagingRegister "(string \<times> string \<times> string \<times> string) option"
  | OAssign "uuid option" "(cluster_field \<times> string \<times> int) option"
  | ODeleteAgent "uuid option"
  | OConnect "uuid option" string
  | OEndNode uuid session_ref
  | OEndStaging uuid

datatype inv_result =
    GFailed int string
  | GDone
  | GStagingToken staging_token string
  | GAgentToken uuid string
  | GStagingAgent uuid string
  | GAssigned node
  | GConnected "agent_identity option"

fun done_or :: "('a \<Rightarrow> inv_result) \<Rightarrow> 'a inv_answer \<Rightarrow> inv_result" where
  "done_or f (Inl (c, m)) = GFailed c m"
| "done_or f (Inr x) = f x"

fun inv_step :: "inv_env \<Rightarrow> inv_call \<Rightarrow> 'e hub \<Rightarrow> inv_op \<Rightarrow> inventory \<Rightarrow> inv_result \<times> 'e hub_op list \<times> inventory" where
  "inv_step E q h (OCreateCluster b) db = (case CreateCluster q b db of (a, db') \<Rightarrow> (done_or (\<lambda>_. GDone) a, [], db'))"
| "inv_step E q h (OPatchFailover i b) db = (case PatchFailoverSettings q i b db of (a, db') \<Rightarrow> (done_or (\<lambda>_. GDone) a, [], db'))"
| "inv_step E q h (OMediaSync i b) db = (case UpdateMediaSyncSettings q i b db of (a, db') \<Rightarrow> (done_or (\<lambda>_. GDone) a, [], db'))"
| "inv_step E q h (ODeleteCluster i) db = (case DeleteCluster q i db of (a, ops, db') \<Rightarrow> (done_or (\<lambda>_. GDone) a, ops, db'))"
| "inv_step E q h (OCreateNode i b) db = (case CreateNode E q i b db of (a, db') \<Rightarrow> (done_or (\<lambda>_. GDone) a, [], db'))"
| "inv_step E q h (OUpdateNode i b) db = (case UpdateNodeHandler E q i b db of (a, db') \<Rightarrow> (done_or (\<lambda>_. GDone) a, [], db'))"
| "inv_step E q h (OMaintenance i b) db = (case SetMaintenance q i b db of (a, db') \<Rightarrow> (done_or (\<lambda>_. GDone) a, [], db'))"
| "inv_step E q h (ODeleteNode i) db = (case DeleteNode q i db of (a, ops, db') \<Rightarrow> (done_or (\<lambda>_. GDone) a, ops, db'))"
| "inv_step E q h (OGenerate i) db = (case GenerateRegToken E q i db of (a, db') \<Rightarrow> (done_or (\<lambda>(n, raw, _). GAgentToken n raw) a, [], db'))"
| "inv_step E q h (ORegister b) db = (case RegisterAgent E q b db of (a, db') \<Rightarrow> (done_or (\<lambda>(n, raw). GAgentToken n raw) a, [], db'))"
| "inv_step E q h (OCreateStaging b) db = (case CreateStagingToken E q b db of (a, db') \<Rightarrow> (done_or (\<lambda>(t, raw). GStagingToken t raw) a, [], db'))"
| "inv_step E q h (ODeleteStaging i) db = (case DeleteStagingToken q i db of (a, db') \<Rightarrow> (done_or (\<lambda>_. GDone) a, [], db'))"
| "inv_step E q h (OStagingRegister b) db = (case StagingRegister E q b db of (a, db') \<Rightarrow> (done_or (\<lambda>(i, raw). GStagingAgent i raw) a, [], db'))"
| "inv_step E q h (OAssign i b) db = (case AssignStagingAgent E q i b db of (a, ops, db') \<Rightarrow> (done_or GAssigned a, ops, db'))"
| "inv_step E q h (ODeleteAgent i) db = (case DeleteStagingAgent q i db of (a, ops, db') \<Rightarrow> (done_or (\<lambda>_. GDone) a, ops, db'))"
| "inv_step E q h (OConnect i tok) db = (case ConnectAgent E q i tok db of (a, ops, db') \<Rightarrow> (GConnected a, ops, db'))"
| "inv_step E q h (OEndNode i p) db = (case EndNodeSession q i p h db of (ops, db') \<Rightarrow> (GDone, ops, db'))"
| "inv_step E q h (OEndStaging i) db = (case EndStagingSession q i db of (ops, db') \<Rightarrow> (GDone, ops, db'))"

end
