(* ===== verification/AgentIdentityProps.thy ===== *)
theory AgentIdentityProps
  imports AgentIdentity
begin

text \<open>
  Histories of requests, and the invariant of the rows: every request keeps them well formed.
\<close>

section \<open>Histories\<close>

text \<open>A request as it was answered, with the state it found.\<close>

record inv_event =
  ve_Call :: inv_call
  ve_Op :: inv_op
  ve_Before :: inventory
  ve_Result :: inv_result

inductive inv_history :: "inv_env \<Rightarrow> inv_event list \<Rightarrow> inventory \<Rightarrow> bool" for E where
  start: "inv_history E [] empty_inventory"
| request: "inv_history E tr db \<Longrightarrow> inv_step E q (h :: nat hub) x db = (r, ops, db')
    \<Longrightarrow> inv_history E (tr @ [\<lparr>ve_Call = q, ve_Op = x, ve_Before = db, ve_Result = r\<rparr>]) db'"
| restart: "inv_history E tr db \<Longrightarrow> inv_history E tr (MarkAllUnknown db)"

section \<open>Well-formed rows\<close>

definition cluster_ok :: "cluster \<Rightarrow> bool" where
  "cluster_ok c \<longleftrightarrow> validClusterName (cl_Name c) \<and> cl_Mode c \<in> set clusterModes \<and> 10 \<le> cl_FailoverDelaySecs c
     \<and> 0 < cl_FailbackMultiplier c \<and> Validate (cl_FileSyncCron c) = None"

definition node_ok :: "inventory \<Rightarrow> node \<Rightarrow> bool" where
  "node_ok db n \<longleftrightarrow> nd_Hostname n \<noteq> [] \<and> ValidRole (nd_Role n) \<and> nd_AgentStatus n \<in> {''connected'', ''disconnected'', ''unknown''}
     \<and> nd_ClusterID n \<in> cl_ID ` set (iv_Clusters db)"

definition inventory_ok :: "inventory \<Rightarrow> bool" where
  "inventory_ok db \<longleftrightarrow> distinct (map cl_ID (iv_Clusters db)) \<and> distinct (map cl_Name (iv_Clusters db)) \<and> list_all cluster_ok (iv_Clusters db)
     \<and> distinct (map nd_ID (iv_Nodes db)) \<and> distinct (map (\<lambda>n. (nd_ClusterID n, nd_Hostname n)) (iv_Nodes db)) \<and> list_all (node_ok db) (iv_Nodes db)
     \<and> list_all (\<lambda>t. gt_NodeID t \<in> nd_ID ` set (iv_Nodes db)) (iv_Tokens db) \<and> distinct (map gt_TokenHash (iv_Tokens db))
     \<and> list_all (\<lambda>a. sg_Hostname a \<noteq> []) (iv_StagingAgents db)"

lemma map_key:
  assumes "\<And>x. k (f x) = k x"
  shows "map k (map (\<lambda>x. if P x then f x else x) xs) = map k xs" "k ` set (map (\<lambda>x. if P x then f x else x) xs) = k ` set xs"
proof -
  show m: "map k (map (\<lambda>x. if P x then f x else x) xs) = map k xs" using assms by simp
  show "k ` set (map (\<lambda>x. if P x then f x else x) xs) = k ` set xs" using arg_cong [OF m, of set] by (metis list.set_map)
qed

lemma still_in: "t \<in> k ` A \<Longrightarrow> t \<notin> k ` {x \<in> A. P x} \<Longrightarrow> t \<in> k ` {x \<in> A. \<not> P x}"
  by auto

lemma inv_ask_Some: "inv_ask q k v = Some x \<Longrightarrow> v = Some x \<and> \<not> iq_Fails q k"
  by (simp add: inv_ask_def split: if_splits)

lemma inv_try_cases: "inv_try q k f db = db \<or> inv_try q k f db = f db"
  by (simp add: inv_try_def)

lemma default_cron: "Validate ''*/30 * * * *'' = None"
  by code_simp

lemma ok_InsertCluster:
  assumes "inventory_ok db" "InsertCluster i name mode db = Some (c, db')" "validClusterName name"
  shows "inventory_ok db'"
proof -
  from assms(2) have db': "db' = db\<lparr>iv_Clusters := iv_Clusters db @ [c]\<rparr>" and c: "cl_ID c = i" "cl_Name c = name" "cl_Mode c = mode"
      "cl_FailoverDelaySecs c = 30" "cl_FailbackMultiplier c = 3" "cl_FileSyncCron c = ''*/30 * * * *''" "mode \<in> set clusterModes"
    and fresh: "\<not> list_ex (\<lambda>d. cl_Name d = name \<or> cl_ID d = i) (iv_Clusters db)"
    by (auto simp: InsertCluster_def Let_def split: if_splits)
  have "cluster_ok c" using c assms(3) default_cron by (simp add: cluster_ok_def)
  then show ?thesis using assms(1) fresh c(1,2)
    unfolding db' inventory_ok_def node_ok_def by (auto simp: list_ex_iff list_all_iff)
qed

lemma ok_update_cluster:
  assumes "inventory_ok db" "\<And>c. cl_ID (f c) = cl_ID c" "\<And>c. cl_Name (f c) = cl_Name c" "\<And>c. cluster_ok c \<Longrightarrow> cluster_ok (f c)"
  shows "inventory_ok (update_cluster i f db)"
proof -
  define cs where "cs = map (\<lambda>c. if cl_ID c = i then f c else c) (iv_Clusters db)"
  have u: "update_cluster i f db = db\<lparr>iv_Clusters := cs\<rparr>" by (simp add: update_cluster_def cs_def)
  have k: "map cl_ID cs = map cl_ID (iv_Clusters db)" "map cl_Name cs = map cl_Name (iv_Clusters db)"
    "cl_ID ` set cs = cl_ID ` set (iv_Clusters db)"
    unfolding cs_def by (rule map_key; simp add: assms(2,3))+
  have "list_all cluster_ok cs" if "list_all cluster_ok (iv_Clusters db)"
    using that assms(4) by (auto simp: cs_def list_all_iff)
  then show ?thesis using assms(1) unfolding u inventory_ok_def node_ok_def by (simp add: k)
qed

lemma ok_filter_nodes:
  assumes "inventory_ok db"
  shows "distinct (map nd_ID (filter P (iv_Nodes db)))" "distinct (map (\<lambda>n. (nd_ClusterID n, nd_Hostname n)) (filter P (iv_Nodes db)))"
    "list_all (node_ok db) (filter P (iv_Nodes db))" "distinct (map gt_TokenHash (filter R (iv_Tokens db)))"
    "list_all (\<lambda>t. gt_NodeID t \<in> nd_ID ` {n \<in> set (iv_Nodes db). \<not> P n})
       (filter (\<lambda>t. gt_NodeID t \<notin> nd_ID ` {n \<in> set (iv_Nodes db). P n}) (iv_Tokens db))"
proof -
  from assms have a: "distinct (map nd_ID (iv_Nodes db))" "distinct (map (\<lambda>n. (nd_ClusterID n, nd_Hostname n)) (iv_Nodes db))"
    "list_all (node_ok db) (iv_Nodes db)" "distinct (map gt_TokenHash (iv_Tokens db))"
    "list_all (\<lambda>t. gt_NodeID t \<in> nd_ID ` set (iv_Nodes db)) (iv_Tokens db)"
    unfolding inventory_ok_def by blast+
  show "distinct (map nd_ID (filter P (iv_Nodes db)))" by (rule distinct_map_filter [OF a(1)])
  show "distinct (map (\<lambda>n. (nd_ClusterID n, nd_Hostname n)) (filter P (iv_Nodes db)))" by (rule distinct_map_filter [OF a(2)])
  show "distinct (map gt_TokenHash (filter R (iv_Tokens db)))" by (rule distinct_map_filter [OF a(4)])
  show "list_all (node_ok db) (filter P (iv_Nodes db))" using a(3) by (simp add: list_all_iff)
  show "list_all (\<lambda>t. gt_NodeID t \<in> nd_ID ` {n \<in> set (iv_Nodes db). \<not> P n})
       (filter (\<lambda>t. gt_NodeID t \<notin> nd_ID ` {n \<in> set (iv_Nodes db). P n}) (iv_Tokens db))"
    unfolding list_all_iff
  proof
    fix t assume t: "t \<in> set (filter (\<lambda>t. gt_NodeID t \<notin> nd_ID ` {n \<in> set (iv_Nodes db). P n}) (iv_Tokens db))"
    then have "gt_NodeID t \<in> nd_ID ` set (iv_Nodes db)" "gt_NodeID t \<notin> nd_ID ` {n \<in> set (iv_Nodes db). P n}"
      using a(5) by (simp_all add: list_all_iff)
    then show "gt_NodeID t \<in> nd_ID ` {n \<in> set (iv_Nodes db). \<not> P n}" by (rule still_in)
  qed
qed

lemma ok_drop_nodes:
  assumes "inventory_ok db"
  shows "inventory_ok (drop_nodes P db)"
proof -
  note f = ok_filter_nodes(4) [OF assms] ok_filter_nodes(1-3) [OF assms, where P = "\<lambda>n. \<not> P n"] ok_filter_nodes(5) [OF assms, where P = P]
  have "drop_nodes P db = db\<lparr>iv_Nodes := filter (\<lambda>n. \<not> P n) (iv_Nodes db),
      iv_Tokens := filter (\<lambda>t. gt_NodeID t \<notin> nd_ID ` {n \<in> set (iv_Nodes db). P n}) (iv_Tokens db),
      iv_RegTokens := filter (\<lambda>t. rg_NodeID t \<notin> nd_ID ` {n \<in> set (iv_Nodes db). P n}) (iv_RegTokens db)\<rparr>"
    by (simp add: drop_nodes_def Let_def)
  then show ?thesis using assms f unfolding inventory_ok_def node_ok_def by (simp del: distinct_map)
qed

lemma ok_delete_cluster:
  assumes "inventory_ok db"
  shows "inventory_ok (delete_cluster_row i db)"
proof -
  note f = ok_filter_nodes(4) [OF assms] ok_filter_nodes(1-3) [OF assms, where P = "\<lambda>n. nd_ClusterID n \<noteq> i"] ok_filter_nodes(5) [OF assms, where P = "\<lambda>n. nd_ClusterID n = i"]
  let ?cs = "filter (\<lambda>c. cl_ID c \<noteq> i) (iv_Clusters db)"
  have c: "distinct (map cl_ID ?cs)" "distinct (map cl_Name ?cs)" "list_all cluster_ok ?cs" "list_all (\<lambda>a. sg_Hostname a \<noteq> []) (iv_StagingAgents db)"
    using assms unfolding inventory_ok_def by (auto simp: list_all_iff intro: distinct_map_filter simp del: distinct_map)
  have d: "delete_cluster_row i db = db\<lparr>iv_Clusters := ?cs, iv_Nodes := filter (\<lambda>n. nd_ClusterID n \<noteq> i) (iv_Nodes db),
      iv_Tokens := filter (\<lambda>t. gt_NodeID t \<notin> nd_ID ` {n \<in> set (iv_Nodes db). nd_ClusterID n = i}) (iv_Tokens db),
      iv_RegTokens := filter (\<lambda>t. rg_NodeID t \<notin> nd_ID ` {n \<in> set (iv_Nodes db). nd_ClusterID n = i}) (iv_RegTokens db)\<rparr>"
    by (simp add: drop_nodes_def delete_cluster_row_def Let_def)
  have "list_all (node_ok (delete_cluster_row i db)) (filter (\<lambda>n. nd_ClusterID n \<noteq> i) (iv_Nodes db))"
    using f(4) unfolding d node_ok_def by (auto simp: list_all_iff)
  then show ?thesis using c f unfolding inventory_ok_def d by (simp del: distinct_map)
qed

lemma ok_InsertNode:
  assumes "inventory_ok db" "InsertNode E i c host ip role prio db = Some (n, db')" "host \<noteq> []"
  shows "inventory_ok db'"
proof -
  from assms(2) have db': "db' = db\<lparr>iv_Nodes := iv_Nodes db @ [n]\<rparr>" and n: "nd_ID n = i" "nd_ClusterID n = c" "nd_Hostname n = host"
      "nd_AgentStatus n = ''unknown''" "ValidRole (nd_Role n)" and c: "ClusterByID c db \<noteq> None"
    and fresh: "\<not> list_ex (\<lambda>m. nd_ID m = i \<or> nd_ClusterID m = c \<and> nd_Hostname m = host) (iv_Nodes db)"
    by (auto simp: InsertNode_def Let_def split: if_splits option.splits)
  from c have "c \<in> cl_ID ` set (iv_Clusters db)" by (auto simp: ClusterByID_def find_None_iff)
  then have "node_ok db' n" using n assms(3) unfolding db' node_ok_def by simp
  then show ?thesis using assms(1) fresh n(1-3)
    unfolding db' inventory_ok_def node_ok_def by (auto simp: list_ex_iff list_all_iff)
qed

lemma ok_update_node:
  assumes "inventory_ok db" "\<And>n. nd_ID (f n) = nd_ID n" "\<And>n. nd_ClusterID (f n) = nd_ClusterID n" "\<And>n. nd_Hostname (f n) = nd_Hostname n"
    "\<And>n. nd_Role (f n) = nd_Role n" "\<And>n. nd_AgentStatus (f n) \<in> {nd_AgentStatus n, ''connected'', ''disconnected''}"
  shows "inventory_ok (update_node i f db)"
proof -
  define ns where "ns = map (\<lambda>n. if nd_ID n = i then f n else n) (iv_Nodes db)"
  have u: "update_node i f db = db\<lparr>iv_Nodes := ns\<rparr>" by (simp add: update_node_def ns_def)
  have k: "map nd_ID ns = map nd_ID (iv_Nodes db)" "nd_ID ` set ns = nd_ID ` set (iv_Nodes db)"
    "map (\<lambda>n. (nd_ClusterID n, nd_Hostname n)) ns = map (\<lambda>n. (nd_ClusterID n, nd_Hostname n)) (iv_Nodes db)"
    unfolding ns_def by (rule map_key; simp add: assms(2-4))+
  have "node_ok db (f n)" if "node_ok db n" for n
    using that assms(3-5) assms(6) [of n] unfolding node_ok_def by auto
  then have "list_all (node_ok db) ns" if "list_all (node_ok db) (iv_Nodes db)"
    using that by (auto simp: list_all_iff ns_def)
  then show ?thesis using assms(1) unfolding u inventory_ok_def node_ok_def by (simp add: k del: distinct_map)
qed

lemma distinct_replace:
  assumes "distinct (map k xs)" "distinct (map l xs)" "\<not> list_ex (\<lambda>m. k m \<noteq> i \<and> l m = l y) xs"
  shows "distinct (map l (map (\<lambda>m. if k m = i then y else m) xs))"
  using assms
proof (induction xs)
  case (Cons m ms)
  let ?g = "\<lambda>m. if k m = i then y else m"
  have IH: "distinct (map l (map ?g ms))" using Cons by simp
  have "l (?g m) \<notin> l ` set (map ?g ms)"
  proof
    assume "l (?g m) \<in> l ` set (map ?g ms)"
    then obtain x where x: "x \<in> set ms" "l (?g m) = l (?g x)" by auto
    have "k m \<notin> k ` set ms" "l m \<notin> l ` set ms" using Cons.prems(1,2) by simp_all
    then have "k x \<noteq> k m" "l m \<noteq> l x" using x(1) by (metis imageI)+
    then show False using x Cons.prems(3) by (auto simp: list_ex_iff split: if_splits)
  qed
  then have "distinct (l (?g m) # map l (map ?g ms))" using IH by (simp only: distinct.simps list.set_map) blast
  then show ?case by (simp only: list.map)
qed simp

lemma ok_UpdateNode:
  assumes "inventory_ok db" "UpdateNode E i u db = Some db'" "nu_Hostname u \<noteq> Some []"
  shows "inventory_ok db'"
proof -
  from assms(2) obtain n n' where n: "NodeByID i db = Some n" "coalesced E u n = Some n'" and db': "db' = update_node i (\<lambda>_. n') db"
    and free: "\<not> list_ex (\<lambda>m. nd_ID m \<noteq> i \<and> nd_ClusterID m = nd_ClusterID n' \<and> nd_Hostname m = nd_Hostname n') (iv_Nodes db)" "ValidRole (nd_Role n')"
    by (auto simp: UpdateNode_def split: option.splits if_splits)
  have in_n: "n \<in> set (iv_Nodes db)" "nd_ID n = i" using n(1) GetByID_Some unfolding NodeByID_def by blast+
  have n': "nd_ID n' = i" "nd_ClusterID n' = nd_ClusterID n" "nd_AgentStatus n' = nd_AgentStatus n"
    "nd_Hostname n' = or_else (nu_Hostname u) (nd_Hostname n)" using n(2) in_n(2) by (auto simp: coalesced_def split: option.splits)
  have ok_n: "node_ok db n" using assms(1) in_n(1) unfolding inventory_ok_def by (auto simp: list_all_iff)
  then have ok: "node_ok db n'" using n' free(2) assms(3) unfolding node_ok_def by (auto simp: or_else_def split: option.splits)
  define ns where "ns = map (\<lambda>m. if nd_ID m = i then n' else m) (iv_Nodes db)"
  have ids: "map nd_ID ns = map nd_ID (iv_Nodes db)" using n'(1) by (simp add: ns_def)
  then have ids': "nd_ID ` set ns = nd_ID ` set (iv_Nodes db)" by (metis list.set_map)
  have d: "distinct (map nd_ID (iv_Nodes db))" "distinct (map (\<lambda>n. (nd_ClusterID n, nd_Hostname n)) (iv_Nodes db))"
    "list_all (node_ok db) (iv_Nodes db)" using assms(1) unfolding inventory_ok_def by blast+
  have names: "distinct (map (\<lambda>n. (nd_ClusterID n, nd_Hostname n)) ns)"
    unfolding ns_def by (rule distinct_replace [OF d(1,2)]) (use free(1) in \<open>simp add: list_ex_iff\<close>)
  have all: "list_all (node_ok db) ns" using d(3) ok by (auto simp: ns_def list_all_iff)
  have u: "db' = db\<lparr>iv_Nodes := ns\<rparr>" by (simp add: db' update_node_def ns_def)
  show ?thesis using assms(1) names all unfolding u inventory_ok_def node_ok_def by (simp add: ids ids' del: distinct_map)
qed

lemma ok_CreateToken:
  assumes "inventory_ok db" "CreateToken i h now db = Some db'"
  shows "inventory_ok db'"
proof -
  from assms(2) obtain n where n: "NodeByID i db = Some n" and fresh: "\<not> list_ex (\<lambda>t. gt_TokenHash t = h) (iv_Tokens db)"
    and db': "db' = db\<lparr>iv_Tokens := iv_Tokens db
        @ [\<lparr>gt_NodeID = i, gt_TokenHash = h, gt_IssuedAt = now, gt_RevokedAt = None, gt_LastUsedAt = None\<rparr>]\<rparr>"
    by (auto simp: CreateToken_def split: if_splits)
  have "i \<in> nd_ID ` set (iv_Nodes db)" using n GetByID_Some unfolding NodeByID_def by blast
  moreover have "h \<notin> gt_TokenHash ` set (iv_Tokens db)" using fresh by (auto simp: list_ex_iff)
  ultimately show ?thesis using assms(1) unfolding db' inventory_ok_def node_ok_def by simp
qed

lemma ok_token_rows:
  assumes "inventory_ok db" "\<And>t. gt_NodeID (f t) = gt_NodeID t" "\<And>t. gt_TokenHash (f t) = gt_TokenHash t"
  shows "inventory_ok (db\<lparr>iv_Tokens := map f (iv_Tokens db)\<rparr>)"
proof -
  have "map gt_TokenHash (map f ts) = map gt_TokenHash ts" for ts using assms(3) by simp
  moreover have "list_all (\<lambda>t. gt_NodeID t \<in> S) (map f ts) = list_all (\<lambda>t. gt_NodeID t \<in> S) ts" for ts S
    using assms(2) by (simp add: list_all_iff)
  ultimately show ?thesis using assms(1) unfolding inventory_ok_def node_ok_def by (simp del: list.map_comp map_map)
qed

lemma ok_RevokeTokens: "inventory_ok db \<Longrightarrow> inventory_ok (RevokeTokens now i db)"
  unfolding RevokeTokens_def by (rule ok_token_rows) auto

lemma ok_TouchToken: "inventory_ok db \<Longrightarrow> inventory_ok (TouchToken now h db)"
  unfolding TouchToken_def by (rule ok_token_rows) auto

lemma ok_other_rows:
  "inventory_ok db \<Longrightarrow> inventory_ok (db\<lparr>iv_RegTokens := r\<rparr>)" "inventory_ok db \<Longrightarrow> inventory_ok (db\<lparr>iv_StagingTokens := s\<rparr>)"
  "inventory_ok db \<Longrightarrow> list_all (\<lambda>a. sg_Hostname a \<noteq> []) as \<Longrightarrow> inventory_ok (db\<lparr>iv_StagingAgents := as\<rparr>)"
  unfolding inventory_ok_def node_ok_def by simp_all

lemma ok_agents: "inventory_ok db \<Longrightarrow> list_all (\<lambda>a. sg_Hostname a \<noteq> []) (iv_StagingAgents db)"
  by (simp add: inventory_ok_def)

lemma ok_agent_rows: "inventory_ok db \<Longrightarrow> inventory_ok (UpdateStagingStatus i s now db)" "inventory_ok db \<Longrightarrow> inventory_ok (DeleteAgentRow i db)"
  unfolding UpdateStagingStatus_def DeleteAgentRow_def
  using ok_agents by (auto intro!: ok_other_rows(3) simp: list_all_iff)

lemma ok_inv_try: "inventory_ok db \<Longrightarrow> inventory_ok (f db) \<Longrightarrow> inventory_ok (inv_try q k f db)"
  by (simp add: inv_try_def)

lemma ok_agent_status: "inventory_ok db \<Longrightarrow> s \<in> {''connected'', ''disconnected''} \<Longrightarrow> inventory_ok (UpdateAgentStatus i s db)"
  unfolding UpdateAgentStatus_def by (rule ok_update_node) auto

lemma ok_flags: "inventory_ok db \<Longrightarrow> inventory_ok (SetSuppressAutoStart i b db)" "inventory_ok db \<Longrightarrow> inventory_ok (SetMaintenanceMode i b db)"
  unfolding SetSuppressAutoStart_def SetMaintenanceMode_def by (rule ok_update_node; simp)+

lemma ok_MarkAllUnknown: "inventory_ok db \<Longrightarrow> inventory_ok (MarkAllUnknown db)"
  unfolding MarkAllUnknown_def inventory_ok_def node_ok_def
  by (auto simp: list_all_iff comp_def image_image)

section \<open>Every request keeps the rows well formed\<close>

lemma ok_failover_settings: "cluster_ok c \<Longrightarrow> cluster_ok (failover_settings r c)"
  by (simp add: cluster_ok_def failover_settings_def)

lemma ok_media_settings: "cluster_ok c \<Longrightarrow> Validate (trim_space (mq_FileSyncCron r)) = None \<Longrightarrow> cluster_ok (media_settings r c)"
  by (simp add: cluster_ok_def media_settings_def)

lemma ok_cluster_requests:
  assumes "inventory_ok db"
  shows "CreateCluster q b db = (a, db') \<Longrightarrow> inventory_ok db'"
    and "PatchFailoverSettings q i fr db = (a', db') \<Longrightarrow> inventory_ok db'"
    and "UpdateMediaSyncSettings q i mr db = (a'', db') \<Longrightarrow> inventory_ok db'"
    and "DeleteCluster q i db = (x, ops, db') \<Longrightarrow> inventory_ok db'"
proof -
  show "CreateCluster q b db = (a, db') \<Longrightarrow> inventory_ok db'"
    using assms ok_InsertCluster by (auto simp: CreateCluster_def split: option.splits if_splits dest!: inv_ask_Some)
  have f: "inventory_ok (update_cluster i (failover_settings r) db)" for i r
    by (rule ok_update_cluster [OF assms _ _ ok_failover_settings]) (simp_all add: failover_settings_def)
  show "PatchFailoverSettings q i fr db = (a', db') \<Longrightarrow> inventory_ok db'"
    using assms f by (auto simp: PatchFailoverSettings_def Let_def split: option.splits if_splits)
  have m: "inventory_ok (update_cluster i (media_settings r) db)" if "Validate (trim_space (mq_FileSyncCron r)) = None" for i r
    by (rule ok_update_cluster [OF assms _ _ ok_media_settings [OF _ that]]) (simp_all add: media_settings_def)
  show "UpdateMediaSyncSettings q i mr db = (a'', db') \<Longrightarrow> inventory_ok db'"
    using assms m by (auto simp: UpdateMediaSyncSettings_def Let_def split: option.splits if_splits)
  show "DeleteCluster q i db = (x, ops, db') \<Longrightarrow> inventory_ok db'"
    using assms ok_delete_cluster by (auto simp: DeleteCluster_def split: option.splits if_splits)
qed

lemma ok_finish_update: "inventory_ok db \<Longrightarrow> finish_update q i u db = (a, db') \<Longrightarrow> inventory_ok db'"
  using ok_flags(1) by (auto simp: finish_update_def Let_def split: option.splits if_splits)

lemma update_cases:
  assumes "UpdateNodeHandler E q n u db = (a, db')"
  shows "db' = db \<or> (\<exists>i v. finish_update q i v db = (a, db'))
    \<or> (\<exists>i v db1. UpdateNode E i v db = Some db1 \<and> nu_Hostname v \<noteq> Some [] \<and> finish_update q i v db1 = (a, db'))"
proof (cases n)
  case None
  then show ?thesis using assms by (simp add: UpdateNodeHandler_def)
next
  case n: (Some i)
  show ?thesis
  proof (cases u)
    case None
    then show ?thesis using assms n by (simp add: UpdateNodeHandler_def)
  next
    case u: (Some v)
    note h = assms [unfolded UpdateNodeHandler_def n u option.case]
    show ?thesis
    proof (cases "identity_change v")
      case False
      then have "finish_update q i v db = (a, db')" using h by simp
      then show ?thesis by blast
    next
      case True
      show ?thesis
      proof (cases "inv_ask q QNodeUpdate (UpdateNode E i v db)")
        case None
        then have "db' = db" using h True by (simp split: if_splits)
        then show ?thesis by blast
      next
        case (Some db1)
        then have "db' = db \<or> nu_Hostname v \<noteq> Some [] \<and> finish_update q i v db1 = (a, db')" using h True by (simp split: if_splits)
        then show ?thesis using inv_ask_Some [OF Some] by blast
      qed
    qed
  qed
qed

lemma ok_UpdateNodeHandler: "inventory_ok db \<Longrightarrow> UpdateNodeHandler E q n u db = (a, db') \<Longrightarrow> inventory_ok db'"
  using update_cases ok_finish_update ok_UpdateNode by blast

lemma ok_node_requests:
  assumes "inventory_ok db"
  shows "CreateNode E q c b db = (a, db') \<Longrightarrow> inventory_ok db'"
    and "UpdateNodeHandler E q n u db = (a, db') \<Longrightarrow> inventory_ok db'"
    and "SetMaintenance q n m db = (a', db') \<Longrightarrow> inventory_ok db'"
    and "DeleteNode q n db = (x, ops, db') \<Longrightarrow> inventory_ok db'"
proof -
  show "CreateNode E q c b db = (a, db') \<Longrightarrow> inventory_ok db'"
    using assms ok_InsertNode by (auto simp: CreateNode_def split: option.splits if_splits prod.splits dest!: inv_ask_Some)
  show "UpdateNodeHandler E q n u db = (a, db') \<Longrightarrow> inventory_ok db'" by (rule ok_UpdateNodeHandler [OF assms])
  show "SetMaintenance q n m db = (a', db') \<Longrightarrow> inventory_ok db'"
    using assms ok_flags(2) by (auto simp: SetMaintenance_def Let_def split: option.splits if_splits)
  have "inventory_ok (DeleteNodeRow i (inv_try q QTokenRevoke (RevokeTokens t i) db))" "inventory_ok (inv_try q QTokenRevoke (RevokeTokens t i) db)" for i t
    unfolding DeleteNodeRow_def using assms by (auto intro: ok_drop_nodes ok_inv_try ok_RevokeTokens)
  then show "DeleteNode q n db = (x, ops, db') \<Longrightarrow> inventory_ok db'"
    using assms by (auto simp: DeleteNode_def Let_def split: option.splits if_splits)
qed

lemma ok_token_requests:
  assumes "inventory_ok db"
  shows "GenerateRegToken E q n db = (a, db') \<Longrightarrow> inventory_ok db'"
    and "RegisterAgent E q b db = (a', db') \<Longrightarrow> inventory_ok db'"
    and "CreateStagingToken E q s db = (a'', db') \<Longrightarrow> inventory_ok db'"
    and "DeleteStagingToken q n db = (x, db') \<Longrightarrow> inventory_ok db'"
proof -
  have "inventory_ok db'" if "reissueAgentToken E q i db = (o', db')" for i o' db'
    using that ok_inv_try [where k = QTokenRevoke and q = q and f = "RevokeTokens (iq_Now q) i", OF assms ok_RevokeTokens [OF assms]] ok_CreateToken
    by (auto simp: reissueAgentToken_def Let_def split: option.splits prod.splits dest!: inv_ask_Some)
  then show "GenerateRegToken E q n db = (a, db') \<Longrightarrow> inventory_ok db'"
    using assms by (auto simp: GenerateRegToken_def split: option.splits prod.splits)
  have c: "inventory_ok db1" if "ConsumeRegToken now h db = Some (t, db1)" for now h t db1
    using that assms ok_other_rows(1) by (auto simp: ConsumeRegToken_def split: option.splits)
  show "RegisterAgent E q b db = (a', db') \<Longrightarrow> inventory_ok db'"
    using assms c ok_CreateToken by (auto simp: RegisterAgent_def split: option.splits prod.splits if_splits dest!: inv_ask_Some) blast+
  show "CreateStagingToken E q s db = (a'', db') \<Longrightarrow> inventory_ok db'"
    using assms ok_other_rows(2)
    by (auto simp: CreateStagingToken_def CreateStagingRow_def Let_def split: option.splits prod.splits if_splits dest!: inv_ask_Some)
  show "DeleteStagingToken q n db = (x, db') \<Longrightarrow> inventory_ok db'"
    using assms ok_other_rows(2) by (auto simp: DeleteStagingToken_def split: option.splits if_splits)
qed

text \<open>How an assignment ends: nothing changed, the node was taken back, or the node has the token.\<close>

lemma assign_cases:
  assumes "AssignStagingAgent E q n body db = (r, ops, db')"
  shows "(\<exists>c m. r = Inl (c, m)) \<and> db' = db
    \<or> (\<exists>i a j d role prio m db1. n = Some i \<and> AgentByID i db = Some a \<and> InsertNode E j d (sg_Hostname a) (sg_IPAddress a) role prio db = Some (m, db1)
      \<and> ((\<exists>c m. r = Inl (c, m)) \<and> db' = inv_try q QNodeDelete (DeleteNodeRow (nd_ID m)) db1
         \<or> r = Inr m \<and> (\<exists>db2. CreateToken (nd_ID m) (sg_TokenHash a) (iq_Now q) db1 = Some db2 \<and> db' = inv_try q QAgentDelete (DeleteAgentRow i) db2)))"
proof (cases n)
  case None
  then show ?thesis using assms by (auto simp: AssignStagingAgent_def)
next
  case n: (Some i)
  show ?thesis
  proof (cases body)
    case None
    then show ?thesis using assms n by (auto simp: AssignStagingAgent_def)
  next
    case (Some p)
    obtain f role prio where p: "p = (f, role, prio)" using prod_cases3 by blast
    show ?thesis
    proof (cases f)
      case (InCluster d)
      note h = assms [unfolded AssignStagingAgent_def n Some p InCluster option.case prod.case cluster_field.case]
      show ?thesis
      proof (cases "inv_ask q QAgentGet (AgentByID i db)")
        case None
        then show ?thesis using h by auto
      next
        case a: (Some a)
        let ?ins = "InsertNode E (iq_NewID q) d (sg_Hostname a) (sg_IPAddress a) (if role = [] then ''hyperconverged'' else role)
            (if prio \<le> 0 then 100 else prio) db"
        note h = h [unfolded a option.case]
        show ?thesis
        proof (cases "inv_ask q QNodeCreate ?ins")
          case None
          then show ?thesis using h by auto
        next
          case (Some x)
          obtain m db1 where x: "x = (m, db1)" by fastforce
          note h = h [unfolded Some x option.case prod.case]
          have f: "AgentByID i db = Some a" "?ins = Some (m, db1)" using inv_ask_Some [OF a] inv_ask_Some [OF Some] x by simp_all
          show ?thesis
          proof (cases "inv_ask q QTokenCreate (CreateToken (nd_ID m) (sg_TokenHash a) (iq_Now q) db1)")
            case None
            then have "(\<exists>c m. r = Inl (c, m)) \<and> db' = inv_try q QNodeDelete (DeleteNodeRow (nd_ID m)) db1" using h by auto
            then show ?thesis using n f by blast
          next
            case (Some db2)
            then have "r = Inr m \<and> db' = inv_try q QAgentDelete (DeleteAgentRow i) db2" using h by simp
            then show ?thesis using n f inv_ask_Some [OF Some] by blast
          qed
        qed
      qed
    qed (use assms n Some p in \<open>auto simp: AssignStagingAgent_def\<close>)
  qed
qed

lemma ok_agent_requests:
  assumes "inventory_ok db"
  shows "StagingRegister E q b db = (a, db') \<Longrightarrow> inventory_ok db'"
    and "DeleteStagingAgent q n db = (x, ops, db') \<Longrightarrow> inventory_ok db'"
    and "AssignStagingAgent E q n c db = (a', ops, db') \<Longrightarrow> inventory_ok db'"
    and "ConnectAgent E q n tok db = (r, ops, db') \<Longrightarrow> inventory_ok db'"
    and "EndNodeSession q i p h db = (ops, db') \<Longrightarrow> inventory_ok db'"
    and "EndStagingSession q i db = (ops, db') \<Longrightarrow> inventory_ok db'"
proof -
  have c: "inventory_ok db1" if "ConsumeStaging now h db = Some (t, db1)" for now h t db1
    using that assms ok_other_rows(2) by (auto simp: ConsumeStaging_def split: option.splits)
  have n: "inventory_ok db2" if "inventory_ok db1" "CreateAgentRow i host ip ver h now db1 = Some (a, db2)" "host \<noteq> []" for db1 db2 i host ip ver h now a
    using that ok_other_rows(3) [of db1 "iv_StagingAgents db1 @ [a]"] ok_agents [of db1]
    by (auto simp: CreateAgentRow_def Let_def split: if_splits)
  show "StagingRegister E q b db = (a, db') \<Longrightarrow> inventory_ok db'"
    using assms c n by (auto simp: StagingRegister_def split: option.splits prod.splits if_splits dest!: inv_ask_Some) blast+
  show "DeleteStagingAgent q n db = (x, ops, db') \<Longrightarrow> inventory_ok db'"
    using assms ok_agent_rows(2) by (auto simp: DeleteStagingAgent_def split: option.splits if_splits)
  have s: "inventory_ok (inv_try q QAgentStatus (UpdateStagingStatus i s t) db)" for i s t
    using assms by (auto intro: ok_inv_try ok_agent_rows(1))
  have m: "inventory_ok (inv_try q QNodeStatus (UpdateAgentStatus i ''connected'') db)" "inventory_ok (inv_try q QNodeStatus (UpdateAgentStatus i ''disconnected'') db)" for i
    using assms by (auto intro!: ok_inv_try ok_agent_status)
  have touch: "inventory_ok (inv_try q QTokenTouch (TouchToken t x) d)" if "inventory_ok d" for t x d
    by (rule ok_inv_try [where f = "TouchToken t x", OF that ok_TouchToken [OF that]])
  show "ConnectAgent E q n tok db = (r, ops, db') \<Longrightarrow> inventory_ok db'"
    using assms s touch [OF m(1)] by (auto simp: ConnectAgent_def split: option.splits agent_identity.splits)
  show "EndNodeSession q i p h db = (ops, db') \<Longrightarrow> inventory_ok db'"
    using assms m(2) by (auto simp: EndNodeSession_def split: if_splits)
  show "EndStagingSession q i db = (ops, db') \<Longrightarrow> inventory_ok db'"
    using s by (auto simp: EndStagingSession_def)
  have host: "sg_Hostname a \<noteq> []" if "AgentByID i db = Some a" for i a
    using that ok_agents [OF assms] by (auto simp: AgentByID_def list_all_iff dest: find_Some_in)
  show "AssignStagingAgent E q n c db = (a', ops, db') \<Longrightarrow> inventory_ok db'"
  proof -
    assume h: "AssignStagingAgent E q n c db = (a', ops, db')"
    from assign_cases [OF h] have "db' = db \<or> (\<exists>i a j d role prio m db1. AgentByID i db = Some a
      \<and> InsertNode E j d (sg_Hostname a) (sg_IPAddress a) role prio db = Some (m, db1)
      \<and> (db' = inv_try q QNodeDelete (DeleteNodeRow (nd_ID m)) db1
         \<or> (\<exists>db2. CreateToken (nd_ID m) (sg_TokenHash a) (iq_Now q) db1 = Some db2 \<and> db' = inv_try q QAgentDelete (DeleteAgentRow i) db2)))"
      by (metis (no_types))
    then consider "db' = db" | i a j d role prio m db1 where "AgentByID i db = Some a"
      "InsertNode E j d (sg_Hostname a) (sg_IPAddress a) role prio db = Some (m, db1)"
      "db' = inv_try q QNodeDelete (DeleteNodeRow (nd_ID m)) db1
         \<or> (\<exists>db2. CreateToken (nd_ID m) (sg_TokenHash a) (iq_Now q) db1 = Some db2 \<and> db' = inv_try q QAgentDelete (DeleteAgentRow i) db2)" by blast
    then show ?thesis
    proof cases
      case 2
      have 1: "inventory_ok db1" by (rule ok_InsertNode [OF assms 2(2) host [OF 2(1)]])
      have "inventory_ok (inv_try q QNodeDelete (DeleteNodeRow k) db1)" for k
        unfolding DeleteNodeRow_def by (rule ok_inv_try [where f = "drop_nodes (\<lambda>n. nd_ID n = k)", OF 1 ok_drop_nodes [OF 1]])
      moreover have "inventory_ok (inv_try q QAgentDelete (DeleteAgentRow k) db2)" if "CreateToken i' h now db1 = Some db2" for k i' h now db2
        using ok_CreateToken [OF 1 that] by (intro ok_inv_try ok_agent_rows(2))
      ultimately show ?thesis using 2(3) by blast
    qed (simp add: assms)
  qed
qed

lemma ok_step: "inventory_ok db \<Longrightarrow> inv_step E q h x db = (r, ops, db') \<Longrightarrow> inventory_ok db'"
  by (cases x) (auto split: prod.splits dest: ok_cluster_requests ok_node_requests ok_token_requests ok_agent_requests)

lemma history_ok: "inv_history E tr db \<Longrightarrow> inventory_ok db"
proof (induction rule: inv_history.induct)
  case start
  show ?case by (simp add: inventory_ok_def empty_inventory_def)
next
  case (request tr db h x q r ops db')
  then show ?case using ok_step by blast
next
  case (restart tr db)
  show ?case by (rule ok_MarkAllUnknown [OF restart.IH])
qed

text \<open>
  C27: The rows are well formed whatever requests come, in any order and with any query failing: names, identifiers and token
  hashes are unique, every node has a host name, a valid role and an existing cluster, every cluster a valid name, mode,
  failover delay and sync schedule, and every token belongs to a node.
\<close>

theorem inventory_well_formed:
  assumes "inv_history E tr db"
  shows "inventory_ok db"
  using assms by (rule history_ok)

end
