(* ===== verification/AgentTokens.thy ===== *)
theory AgentTokens
  imports AgentIdentityProps
begin

text \<open>
  The tokens of the agents over a history of requests: an agent is taken for a node only with a token that was given out for
  that node and not revoked since, and for a waiting agent only with the token it registered with.
\<close>

section \<open>What a token row says of the past\<close>

text \<open>The agent \<open>a\<close> was registered with a token of the hash \<open>h\<close>.\<close>

definition registered :: "inv_env \<Rightarrow> uuid \<Rightarrow> string \<Rightarrow> inv_event list \<Rightarrow> bool" where
  "registered E a h tr = list_ex (\<lambda>e. case ve_Result e of
     GStagingAgent b raw \<Rightarrow> b = a \<and> HashToken (ie_SHA256 E) raw = h | _ \<Rightarrow> False) tr"

text \<open>
  The request gave node \<open>i\<close> a token of the hash \<open>h\<close>: the token was answered for the node, or an agent that had registered
  with it was assigned to become the node.
\<close>

definition gave :: "inv_env \<Rightarrow> uuid \<Rightarrow> string \<Rightarrow> inv_event list \<Rightarrow> inv_event \<Rightarrow> bool" where
  "gave E i h tr e = (case ve_Result e of
      GAgentToken j raw \<Rightarrow> j = i \<and> HashToken (ie_SHA256 E) raw = h
    | GAssigned n \<Rightarrow> nd_ID n = i \<and> (case ve_Op e of OAssign (Some a) _ \<Rightarrow> registered E a h tr | _ \<Rightarrow> False)
    | _ \<Rightarrow> False)"

text \<open>The request ended the tokens of node \<open>i\<close>.\<close>

definition revoked :: "uuid \<Rightarrow> inv_event \<Rightarrow> bool" where
  "revoked i e = (case ve_Op e of
      OGenerate (Some j) \<Rightarrow> j = i \<and> \<not> iq_Fails (ve_Call e) QTokenRevoke \<and> ve_Result e \<noteq> GFailed 404 ''node not found''
    | ODeleteNode (Some j) \<Rightarrow> j = i \<and> (\<not> iq_Fails (ve_Call e) QTokenRevoke \<or> ve_Result e = GDone)
    | ODeleteCluster (Some c) \<Rightarrow> ve_Result e = GDone \<and> (case NodeByID i (ve_Before e) of None \<Rightarrow> False | Some n \<Rightarrow> nd_ClusterID n = c)
    | _ \<Rightarrow> False)"

definition issued :: "inv_env \<Rightarrow> uuid \<Rightarrow> string \<Rightarrow> inv_event list \<Rightarrow> bool" where
  "issued E i h tr \<longleftrightarrow> (\<exists>tr1 e tr2. tr = tr1 @ e # tr2 \<and> gave E i h tr1 e \<and> list_all (\<lambda>x. \<not> revoked i x) tr2)"

text \<open>The tokens in force, and the agents in the pool, each with the hash of its token.\<close>

definition live :: "inventory \<Rightarrow> (uuid \<times> string) set" where
  "live db = (\<lambda>t. (gt_NodeID t, gt_TokenHash t)) ` {t \<in> set (iv_Tokens db). gt_RevokedAt t = None}"

definition pool :: "inventory \<Rightarrow> (uuid \<times> string) set" where
  "pool db = (\<lambda>a. (sg_ID a, sg_TokenHash a)) ` set (iv_StagingAgents db)"

lemma live_cong: "iv_Tokens db' = iv_Tokens db \<Longrightarrow> live db' = live db"
  by (simp add: live_def)

lemma pool_cong: "iv_StagingAgents db' = iv_StagingAgents db \<Longrightarrow> pool db' = pool db"
  by (simp add: pool_def)

lemma live_Revoke: "live (RevokeTokens now i db) = {p \<in> live db. fst p \<noteq> i}"
  unfolding live_def RevokeTokens_def by (force split: if_splits)

lemma live_iff: "(i, h) \<in> live db \<longleftrightarrow> list_ex (\<lambda>t. gt_NodeID t = i \<and> gt_TokenHash t = h \<and> gt_RevokedAt t = None) (iv_Tokens db)"
  by (auto simp: live_def list_ex_iff)

lemma list_ex_mapped: "list_ex P (map f xs) = list_ex (\<lambda>x. P (f x)) xs"
  by (induction xs) auto

lemma live_Touch: "live (TouchToken now h db) = live db"
proof -
  let ?f = "\<lambda>t. if gt_TokenHash t = h then t\<lparr>gt_LastUsedAt := Some now\<rparr> else t"
  have f: "gt_NodeID (?f t) = gt_NodeID t" "gt_TokenHash (?f t) = gt_TokenHash t" "gt_RevokedAt (?f t) = gt_RevokedAt t" for t by simp_all
  have r: "iv_Tokens (TouchToken now h db) = map ?f (iv_Tokens db)" by (simp add: TouchToken_def)
  have "(i, k) \<in> live (TouchToken now h db) \<longleftrightarrow> (i, k) \<in> live db" for i k
    unfolding live_iff r list_ex_mapped by (simp only: f)
  then show ?thesis by (simp add: set_eq_iff)
qed

lemma live_Create: "CreateToken i h now db = Some db' \<Longrightarrow> live db' = insert (i, h) (live db)"
  unfolding live_def CreateToken_def by (force split: if_splits)

lemma live_drop: "live (drop_nodes P db) = {p \<in> live db. fst p \<notin> nd_ID ` {n \<in> set (iv_Nodes db). P n}}"
  unfolding live_def drop_nodes_def by (force simp: Let_def)

lemma live_drop_sub: "live (drop_nodes P db) \<subseteq> live db"
  unfolding live_drop by blast

lemma pool_drop: "pool (drop_nodes P db) = pool db"
  by (rule pool_cong) (simp add: drop_nodes_def Let_def)

lemma live_delete_cluster: "live (delete_cluster_row i db) = {p \<in> live db. fst p \<notin> nd_ID ` {n \<in> set (iv_Nodes db). nd_ClusterID n = i}}"
  unfolding delete_cluster_row_def live_drop by (simp add: live_def)

section \<open>Requests that leave the tokens alone\<close>

lemmas inv_rows = InsertCluster_def update_cluster_def InsertNode_def update_node_def UpdateNode_def SetSuppressAutoStart_def
  SetMaintenanceMode_def UpdateAgentStatus_def CreateStagingRow_def ConsumeStaging_def ConsumeRegToken_def CreateAgentRow_def
  UpdateStagingStatus_def DeleteAgentRow_def

lemmas inv_splits = option.splits if_splits prod.splits sum.splits

lemma rows_updates [simp]:
  "iv_Tokens (update_cluster i f db) = iv_Tokens db" "iv_StagingAgents (update_cluster i f db) = iv_StagingAgents db"
  "iv_Tokens (update_node i g db) = iv_Tokens db" "iv_StagingAgents (update_node i g db) = iv_StagingAgents db"
  "iv_StagingAgents (RevokeTokens t i db) = iv_StagingAgents db" "iv_StagingAgents (TouchToken t h db) = iv_StagingAgents db"
  "iv_Tokens (UpdateStagingStatus i s t db) = iv_Tokens db" "iv_Tokens (DeleteAgentRow i db) = iv_Tokens db"
  by (simp_all add: update_cluster_def update_node_def RevokeTokens_def TouchToken_def UpdateStagingStatus_def DeleteAgentRow_def)

lemma rows_inserts:
  "InsertCluster i name mode db = Some (c, db1) \<Longrightarrow> iv_Tokens db1 = iv_Tokens db \<and> iv_StagingAgents db1 = iv_StagingAgents db"
  "InsertNode E i d host ip role prio db = Some (m, db1) \<Longrightarrow> iv_Tokens db1 = iv_Tokens db \<and> iv_StagingAgents db1 = iv_StagingAgents db"
  "UpdateNode E i u db = Some db1 \<Longrightarrow> iv_Tokens db1 = iv_Tokens db \<and> iv_StagingAgents db1 = iv_StagingAgents db"
  "CreateToken i h now db = Some db1 \<Longrightarrow> iv_StagingAgents db1 = iv_StagingAgents db"
  "ConsumeRegToken now h db = Some (t, db1) \<Longrightarrow> iv_Tokens db1 = iv_Tokens db \<and> iv_StagingAgents db1 = iv_StagingAgents db"
  "ConsumeStaging now h db = Some (s, db1) \<Longrightarrow> iv_Tokens db1 = iv_Tokens db \<and> iv_StagingAgents db1 = iv_StagingAgents db"
  "CreateStagingRow i h label now expires db = Some (s, db1) \<Longrightarrow> iv_Tokens db1 = iv_Tokens db \<and> iv_StagingAgents db1 = iv_StagingAgents db"
  "CreateAgentRow i host ip ver h now db = Some (a, db1) \<Longrightarrow> iv_Tokens db1 = iv_Tokens db
     \<and> iv_StagingAgents db1 = iv_StagingAgents db @ [a] \<and> sg_ID a = i \<and> sg_TokenHash a = h"
  by (auto simp: InsertCluster_def InsertNode_def UpdateNode_def CreateToken_def ConsumeRegToken_def ConsumeStaging_def CreateStagingRow_def
      CreateAgentRow_def Let_def split: option.splits if_splits)

lemma inv_try_rows:
  "(\<And>x. iv_Tokens (f x) = iv_Tokens x) \<Longrightarrow> iv_Tokens (inv_try q k f db) = iv_Tokens db"
  "(\<And>x. iv_StagingAgents (f x) = iv_StagingAgents x) \<Longrightarrow> iv_StagingAgents (inv_try q k f db) = iv_StagingAgents db"
  by (simp_all add: inv_try_def)

text \<open>The tokens in force after a request were so before, and the request did not end them, or it gave them out.\<close>

definition fresh_live :: "inv_env \<Rightarrow> inv_event \<Rightarrow> (uuid \<times> string) set" where
  "fresh_live E e = (case ve_Result e of
      GAgentToken j raw \<Rightarrow> {(j, HashToken (ie_SHA256 E) raw)}
    | GAssigned n \<Rightarrow> (case ve_Op e of OAssign (Some a) _ \<Rightarrow> {(nd_ID n, h) |h. (a, h) \<in> pool (ve_Before e)} | _ \<Rightarrow> {})
    | _ \<Rightarrow> {})"

definition fresh_pool :: "inv_env \<Rightarrow> inv_event \<Rightarrow> (uuid \<times> string) set" where
  "fresh_pool E e = (case ve_Result e of GStagingAgent b raw \<Rightarrow> {(b, HashToken (ie_SHA256 E) raw)} | _ \<Rightarrow> {})"

definition explained :: "inv_env \<Rightarrow> inv_event \<Rightarrow> inventory \<Rightarrow> bool" where
  "explained E e db' \<longleftrightarrow> live db' \<subseteq> {p \<in> live (ve_Before e). \<not> revoked (fst p) e} \<union> fresh_live E e
     \<and> pool db' \<subseteq> pool (ve_Before e) \<union> fresh_pool E e"

lemma explained_same:
  assumes "iv_Tokens db' = iv_Tokens (ve_Before e)" "iv_StagingAgents db' = iv_StagingAgents (ve_Before e)" "\<And>i. \<not> revoked i e"
  shows "explained E e db'"
proof -
  have "live db' = live (ve_Before e)" by (rule live_cong [OF assms(1)])
  moreover have "pool db' = pool (ve_Before e)" by (rule pool_cong [OF assms(2)])
  ultimately show ?thesis using assms(3) by (simp add: explained_def)
qed

abbreviation event_of :: "inv_call \<Rightarrow> inv_op \<Rightarrow> inventory \<Rightarrow> inv_result \<Rightarrow> inv_event" where
  "event_of q x db r \<equiv> \<lparr>ve_Call = q, ve_Op = x, ve_Before = db, ve_Result = r\<rparr>"


lemma quiet_cluster1:
  "CreateCluster q b db = (a, db') \<Longrightarrow> iv_Tokens db' = iv_Tokens db \<and> iv_StagingAgents db' = iv_StagingAgents db"
  by (auto simp: CreateCluster_def split: option.splits if_splits prod.splits dest!: inv_ask_Some dest: rows_inserts(1))

lemma quiet_cluster2:
  "PatchFailoverSettings q i fr db = (a, db') \<Longrightarrow> iv_Tokens db' = iv_Tokens db \<and> iv_StagingAgents db' = iv_StagingAgents db"
  by (auto simp: PatchFailoverSettings_def Let_def split: option.splits if_splits)

lemma quiet_cluster3:
  "UpdateMediaSyncSettings q i mr db = (a', db') \<Longrightarrow> iv_Tokens db' = iv_Tokens db \<and> iv_StagingAgents db' = iv_StagingAgents db"
  by (auto simp: UpdateMediaSyncSettings_def Let_def split: option.splits if_splits)

lemma quiet_node1:
  "CreateNode E q i nb db = (n, db') \<Longrightarrow> iv_Tokens db' = iv_Tokens db \<and> iv_StagingAgents db' = iv_StagingAgents db"
  by (auto simp: CreateNode_def split: option.splits if_splits prod.splits dest!: inv_ask_Some dest: rows_inserts(2))

lemma quiet_node2:
  "SetMaintenance q i m db = (n', db') \<Longrightarrow> iv_Tokens db' = iv_Tokens db \<and> iv_StagingAgents db' = iv_StagingAgents db"
  by (auto simp: SetMaintenance_def SetMaintenanceMode_def Let_def split: option.splits if_splits)

lemma quiet_node3:
  "EndNodeSession q j p h db = (ops, db') \<Longrightarrow> iv_Tokens db' = iv_Tokens db \<and> iv_StagingAgents db' = iv_StagingAgents db"
  by (auto simp: EndNodeSession_def UpdateAgentStatus_def inv_try_def split: if_splits)

lemma quiet_staging1:
  "CreateStagingToken E q s db = (k, db') \<Longrightarrow> iv_Tokens db' = iv_Tokens db \<and> iv_StagingAgents db' = iv_StagingAgents db"
  by (auto simp: CreateStagingToken_def Let_def split: option.splits prod.splits dest!: inv_ask_Some dest: rows_inserts(7))

lemma quiet_staging2:
  "DeleteStagingToken q i db = (x, db') \<Longrightarrow> iv_Tokens db' = iv_Tokens db \<and> iv_StagingAgents db' = iv_StagingAgents db"
  by (auto simp: DeleteStagingToken_def split: option.splits if_splits)


lemma quiet_finish: "finish_update q i u db = (a, db') \<Longrightarrow> iv_Tokens db' = iv_Tokens db \<and> iv_StagingAgents db' = iv_StagingAgents db"
  by (auto simp: finish_update_def SetSuppressAutoStart_def Let_def split: option.splits if_splits)

lemma quiet_update:
  assumes "UpdateNodeHandler E q i u db = (a, db')"
  shows "iv_Tokens db' = iv_Tokens db \<and> iv_StagingAgents db' = iv_StagingAgents db"
proof -
  from update_cases [OF assms] consider "db' = db" | i v where "finish_update q i v db = (a, db')"
    | i v db1 where "UpdateNode E i v db = Some db1" "finish_update q i v db1 = (a, db')" by blast
  then show ?thesis
  proof cases
    case 2
    then show ?thesis by (rule quiet_finish)
  next
    case 3
    show ?thesis using rows_inserts(3) [OF 3(1)] quiet_finish [OF 3(2)] by simp
  qed simp
qed

section \<open>Requests that give out or end tokens\<close>

lemma newAgentToken_hash: "newAgentToken E q = Some (raw, h) \<Longrightarrow> h = HashToken (ie_SHA256 E) raw"
  by (auto simp: newAgentToken_def)

lemma live_tried: "live (inv_try q QTokenRevoke (RevokeTokens now i) db) = {p \<in> live db. iq_Fails q QTokenRevoke \<or> fst p \<noteq> i}"
  by (simp add: inv_try_def live_Revoke)

lemma pool_tried: "pool (inv_try q QTokenRevoke (RevokeTokens now i) db) = pool db"
  by (rule pool_cong) (simp add: inv_try_def)

lemma pool_Create: "CreateToken i h now db = Some db' \<Longrightarrow> pool db' = pool db"
  by (rule pool_cong) (rule rows_inserts(4))

lemma reissue_cases:
  assumes "reissueAgentToken E q i db = (t, db')"
  shows "pool db' = pool db" "t = None \<Longrightarrow> live db' = {p \<in> live db. iq_Fails q QTokenRevoke \<or> fst p \<noteq> i}"
    "t = Some (raw, url) \<Longrightarrow> live db' = insert (i, HashToken (ie_SHA256 E) raw) {p \<in> live db. iq_Fails q QTokenRevoke \<or> fst p \<noteq> i}"
proof -
  define db1 where "db1 = inv_try q QTokenRevoke (RevokeTokens (iq_Now q) i) db"
  have l: "live db1 = {p \<in> live db. iq_Fails q QTokenRevoke \<or> fst p \<noteq> i}" and p: "pool db1 = pool db"
    unfolding db1_def by (rule live_tried, rule pool_tried)
  have "t = None \<and> db' = db1 \<or> (\<exists>raw h. newAgentToken E q = Some (raw, h) \<and> t = Some (raw, ws_url E) \<and> CreateToken i h (iq_Now q) db1 = Some db')"
    using assms by (auto simp: reissueAgentToken_def Let_def db1_def split: option.splits prod.splits dest!: inv_ask_Some)
  then consider "t = None" "db' = db1" | raw' h where "h = HashToken (ie_SHA256 E) raw'" "t = Some (raw', ws_url E)" "CreateToken i h (iq_Now q) db1 = Some db'"
    using newAgentToken_hash by blast
  then show "pool db' = pool db" "t = None \<Longrightarrow> live db' = {p \<in> live db. iq_Fails q QTokenRevoke \<or> fst p \<noteq> i}"
    "t = Some (raw, url) \<Longrightarrow> live db' = insert (i, HashToken (ie_SHA256 E) raw) {p \<in> live db. iq_Fails q QTokenRevoke \<or> fst p \<noteq> i}"
    by (cases; simp add: l p live_Create pool_Create)+
qed

lemma NodeByID_Some: "NodeByID i db = Some n \<Longrightarrow> n \<in> set (iv_Nodes db) \<and> nd_ID n = i"
  using GetByID_Some unfolding NodeByID_def by blast

lemma explained_generate:
  assumes "GenerateRegToken E q n db = (a, db')"
  shows "explained E (event_of q (OGenerate n) db (done_or (\<lambda>(n, raw, _). GAgentToken n raw) a)) db'"
proof (cases n)
  case None
  then show ?thesis using assms by (intro explained_same) (auto simp: GenerateRegToken_def revoked_def)
next
  case n: (Some i)
  note h = assms [unfolded GenerateRegToken_def n option.case]
  show ?thesis
  proof (cases "inv_ask q QNodeGet (NodeByID i db)")
    case None
    then show ?thesis using h n by (intro explained_same) (auto simp: revoked_def)
  next
    case (Some m)
    have m: "nd_ID m = i" using NodeByID_Some inv_ask_Some [OF Some] by blast
    obtain t db1 where t: "reissueAgentToken E q i db = (t, db1)" by fastforce
    note c = reissue_cases [OF t]
    show ?thesis
    proof (cases t)
      case None
      then have "a = Inl (500, ''failed to issue token'')" "db' = db1" using h Some t by simp_all
      then show ?thesis using c(1) c(2) [OF None] n by (auto simp: explained_def revoked_def)
    next
      case s: (Some p)
      obtain raw url where p: "p = (raw, url)" by fastforce
      have "a = Inr (nd_ID m, raw, url @ ''/api/v1/agent/connect'')" "db' = db1" using h Some t s p by simp_all
      then show ?thesis using c(1) c(3) [OF s [unfolded p]] n m by (auto simp: explained_def revoked_def fresh_live_def)
    qed
  qed
qed

lemma register_cases:
  assumes "RegisterAgent E q b db = (a, db')"
  shows "(\<exists>c m. a = Inl (c, m)) \<and> live db' = live db \<and> pool db' = pool db
    \<or> (\<exists>i raw. a = Inr (i, raw) \<and> live db' = insert (i, HashToken (ie_SHA256 E) raw) (live db) \<and> pool db' = pool db)"
proof -
  have "(\<exists>c m. a = Inl (c, m)) \<and> (db' = db \<or> (\<exists>now h t. ConsumeRegToken now h db = Some (t, db')))
    \<or> (\<exists>now h t db1 i raw k. ConsumeRegToken now h db = Some (t, db1) \<and> newAgentToken E q = Some (raw, k) \<and> a = Inr (i, raw)
      \<and> CreateToken i k (iq_Now q) db1 = Some db')"
    using assms by (auto simp: RegisterAgent_def split: option.splits prod.splits if_splits dest!: inv_ask_Some)
  moreover have "live db1 = live db \<and> pool db1 = pool db" if "ConsumeRegToken now h db = Some (t, db1)" for now h t db1
    using rows_inserts(5) [OF that] live_cong pool_cong by blast
  ultimately show ?thesis using newAgentToken_hash live_Create pool_Create by (elim disjE exE conjE) (simp, metis, metis)
qed

lemma explained_register:
  assumes "RegisterAgent E q b db = (a, db')"
  shows "explained E (event_of q (ORegister b) db (done_or (\<lambda>(n, raw). GAgentToken n raw) a)) db'"
  using register_cases [OF assms] by (auto simp: explained_def revoked_def fresh_live_def)


lemma staging_register_cases:
  assumes "StagingRegister E q b db = (a, db')"
  shows "(\<exists>c m. a = Inl (c, m)) \<and> live db' = live db \<and> pool db' = pool db
    \<or> (\<exists>i raw. a = Inr (i, raw) \<and> live db' = live db \<and> pool db' = insert (i, HashToken (ie_SHA256 E) raw) (pool db))"
proof -
  have "(\<exists>c m. a = Inl (c, m)) \<and> (db' = db \<or> (\<exists>now h t. ConsumeStaging now h db = Some (t, db')))
    \<or> (\<exists>now h t db1 i host ip ver raw k s. ConsumeStaging now h db = Some (t, db1) \<and> newAgentToken E q = Some (raw, k) \<and> a = Inr (sg_ID s, raw)
      \<and> CreateAgentRow i host ip ver k (iq_Now q) db1 = Some (s, db'))"
    using assms by (auto simp: StagingRegister_def split: option.splits prod.splits if_splits dest!: inv_ask_Some)
  moreover have c: "live db1 = live db \<and> pool db1 = pool db" if "ConsumeStaging now h db = Some (t, db1)" for now h t db1
    using rows_inserts(6) [OF that] live_cong pool_cong by blast
  moreover have "live db2 = live db1 \<and> pool db2 = insert (sg_ID s, k) (pool db1)"
    if "CreateAgentRow i host ip ver k now db1 = Some (s, db2)" for i host ip ver k now db1 s db2
    using rows_inserts(8) [OF that] live_cong [of db2 db1] by (simp add: pool_def)
  ultimately show ?thesis using newAgentToken_hash by (elim disjE exE conjE) (simp, metis, metis)
qed

lemma explained_staging_register:
  assumes "StagingRegister E q b db = (a, db')"
  shows "explained E (event_of q (OStagingRegister b) db (done_or (\<lambda>(i, raw). GStagingAgent i raw) a)) db'"
  using staging_register_cases [OF assms] by (auto simp: explained_def revoked_def fresh_live_def fresh_pool_def)

lemma rows_deleted: "live (DeleteAgentRow i db) = live db" "pool (DeleteAgentRow i db) \<subseteq> pool db"
  "live (DeleteNodeRow i db) \<subseteq> live db" "pool (DeleteNodeRow i db) = pool db"
proof -
  show "live (DeleteAgentRow i db) = live db" by (rule live_cong) simp
  show "pool (DeleteAgentRow i db) \<subseteq> pool db" by (auto simp: pool_def DeleteAgentRow_def)
  show "live (DeleteNodeRow i db) \<subseteq> live db" unfolding DeleteNodeRow_def by (rule live_drop_sub)
  show "pool (DeleteNodeRow i db) = pool db" unfolding DeleteNodeRow_def by (rule pool_drop)
qed

lemma tried_deleted: "live (inv_try q k (DeleteAgentRow i) db) = live db" "pool (inv_try q k (DeleteAgentRow i) db) \<subseteq> pool db"
  "live (inv_try q k (DeleteNodeRow i) db) \<subseteq> live db" "pool (inv_try q k (DeleteNodeRow i) db) = pool db"
  by (simp_all add: inv_try_def rows_deleted)

lemma in_pool: "AgentByID i db = Some a \<Longrightarrow> (i, sg_TokenHash a) \<in> pool db"
  using find_Some_in [of "\<lambda>a. sg_ID a = i" "iv_StagingAgents db" a] by (auto simp: AgentByID_def pool_def)

lemma assignE:
  assumes "AssignStagingAgent E q n b db = (a, ops, db')"
  obtains (refused) c e where "a = Inl (c, e)" "db' = db"
    | (undone) c e and s :: staging_agent and j d role prio m db1 where "a = Inl (c, e)"
      "InsertNode E j d (sg_Hostname s) (sg_IPAddress s) role prio db = Some (m, db1)" "db' = inv_try q QNodeDelete (DeleteNodeRow (nd_ID m)) db1"
    | (assigned) i s j d role prio m db1 db2 where "n = Some i" "AgentByID i db = Some s" "a = Inr m"
      "InsertNode E j d (sg_Hostname s) (sg_IPAddress s) role prio db = Some (m, db1)"
      "CreateToken (nd_ID m) (sg_TokenHash s) (iq_Now q) db1 = Some db2" "db' = inv_try q QAgentDelete (DeleteAgentRow i) db2"
proof -
  from assign_cases [OF assms] consider "(\<exists>c e. a = Inl (c, e)) \<and> db' = db"
    | i s j d role prio m db1 where "n = Some i" "AgentByID i db = Some s"
      "InsertNode E j d (sg_Hostname s) (sg_IPAddress s) role prio db = Some (m, db1)"
      "(\<exists>c e. a = Inl (c, e)) \<and> db' = inv_try q QNodeDelete (DeleteNodeRow (nd_ID m)) db1
         \<or> a = Inr m \<and> (\<exists>db2. CreateToken (nd_ID m) (sg_TokenHash s) (iq_Now q) db1 = Some db2 \<and> db' = inv_try q QAgentDelete (DeleteAgentRow i) db2)"
    by (elim disjE exE conjE) blast+
  then show ?thesis
  proof cases
    case 1
    then show ?thesis using refused by blast
  next
    case 2
    from 2(4) show ?thesis
    proof (elim disjE exE conjE)
      show ?thesis if "a = Inl (c, e)" "db' = inv_try q QNodeDelete (DeleteNodeRow (nd_ID m)) db1" for c e by (rule undone [OF that(1) 2(3) that(2)])
      show ?thesis if "a = Inr m" "CreateToken (nd_ID m) (sg_TokenHash s) (iq_Now q) db1 = Some db2"
          "db' = inv_try q QAgentDelete (DeleteAgentRow i) db2" for db2
        by (rule assigned [OF 2(1,2) that(1) 2(3) that(2,3)])
    qed
  qed
qed

lemma explained_assign:
  assumes "AssignStagingAgent E q n b db = (a, ops, db')"
  shows "explained E (event_of q (OAssign n b) db (done_or GAssigned a)) db'"
  using assms
proof (cases rule: assignE)
  case refused
  then show ?thesis by (auto simp: explained_def revoked_def)
next
  case (undone c e s j d role prio m db1)
  have "live db' \<subseteq> live db" "pool db' = pool db"
    unfolding undone(3) tried_deleted(4) using rows_inserts(2) [OF undone(2)] live_cong [of db1 db] pool_cong [of db1 db]
      tried_deleted(3) [of q QNodeDelete "nd_ID m" db1] by simp_all
  then show ?thesis using undone(1) by (auto simp: explained_def revoked_def)
next
  case (assigned i s j d role prio m db1 db2)
  have "live db' = insert (nd_ID m, sg_TokenHash s) (live db)" "pool db' \<subseteq> pool db"
    unfolding assigned(6) tried_deleted(1) using rows_inserts(2) [OF assigned(4)] live_cong [of db1 db] pool_cong [of db1 db]
      live_Create [OF assigned(5)] pool_Create [OF assigned(5)] tried_deleted(2) [of q QAgentDelete i db2] by simp_all
  then show ?thesis using assigned(1,3) in_pool [OF assigned(2)] by (auto simp: explained_def revoked_def fresh_live_def)
qed

lemma explained_delete_node:
  assumes "DeleteNode q n db = (a, ops, db')" "inventory_ok db"
  shows "explained E (event_of q (ODeleteNode n) db (done_or (\<lambda>_. GDone) a)) db'"
proof (cases n)
  case None
  then show ?thesis using assms(1) by (intro explained_same) (auto simp: DeleteNode_def revoked_def)
next
  case n: (Some i)
  define db1 where "db1 = inv_try q QTokenRevoke (RevokeTokens (iq_Now q) i) db"
  have l: "live db1 = {p \<in> live db. iq_Fails q QTokenRevoke \<or> fst p \<noteq> i}" and p: "pool db1 = pool db"
    unfolding db1_def by (rule live_tried, rule pool_tried)
  have ns: "iv_Nodes db1 = iv_Nodes db" by (simp add: db1_def inv_try_def RevokeTokens_def)
  have known: "fst x \<in> nd_ID ` set (iv_Nodes db)" if "x \<in> live db" for x
    using that assms(2) by (auto simp: inventory_ok_def live_def list_all_iff)
  have "(fst x \<in> nd_ID ` {n \<in> set (iv_Nodes db). nd_ID n = i}) = (fst x = i)" if "x \<in> live db" for x
    using known [OF that] by force
  then have d: "live (DeleteNodeRow i db1) = {p \<in> live db. fst p \<noteq> i}"
    unfolding DeleteNodeRow_def live_drop l ns by blast
  show ?thesis
  proof (cases "iq_Fails q QNodeDelete")
    case True
    then have "a = Inl (404, ''node not found'')" "db' = db1" using assms(1) n by (simp_all add: DeleteNode_def db1_def Let_def)
    then show ?thesis using l p n by (auto simp: explained_def revoked_def)
  next
    case False
    then have "a = Inr ()" "db' = DeleteNodeRow i db1" using assms(1) n by (simp_all add: DeleteNode_def db1_def Let_def)
    then show ?thesis using d p rows_deleted(4) n by (auto simp: explained_def revoked_def)
  qed
qed


lemma explained_delete_cluster:
  assumes "DeleteCluster q c db = (a, ops, db')"
  shows "explained E (event_of q (ODeleteCluster c) db (done_or (\<lambda>_. GDone) a)) db'"
proof -
  consider (refused) k e where "a = Inl (k, e)" "db' = db" | (gone) i where "c = Some i" "a = Inr ()" "db' = delete_cluster_row i db"
    using assms by (auto simp: DeleteCluster_def split: option.splits if_splits)
  then show ?thesis
  proof cases
    case refused
    then show ?thesis by (auto simp: explained_def revoked_def split: option.splits)
  next
    case gone
    have "pool db' = pool db" unfolding gone(3) delete_cluster_row_def pool_drop by (simp add: pool_def)
    moreover have "\<not> (case NodeByID j db of None \<Rightarrow> False | Some n \<Rightarrow> nd_ClusterID n = i)" if "(j, h) \<in> live db'" for j h
      using that NodeByID_Some [of j db] unfolding gone(3) live_delete_cluster by (force split: option.splits)
    moreover have "live db' \<subseteq> live db" unfolding gone(3) live_delete_cluster by blast
    ultimately show ?thesis using gone(1,2) by (auto simp: explained_def revoked_def)
  qed
qed

lemma explained_delete_agent:
  assumes "DeleteStagingAgent q n db = (a, ops, db')"
  shows "explained E (event_of q (ODeleteAgent n) db (done_or (\<lambda>_. GDone) a)) db'"
proof -
  have "db' = db \<or> (\<exists>i. db' = DeleteAgentRow i db)"
    using assms by (auto simp: DeleteStagingAgent_def split: option.splits if_splits)
  then have "live db' = live db" "pool db' \<subseteq> pool db" by (auto simp: rows_deleted(1) dest: rows_deleted(2) [THEN subsetD])
  then show ?thesis by (auto simp: explained_def revoked_def)
qed

lemma pool_status: "pool (UpdateStagingStatus i s now db) = pool db"
proof -
  have "iv_StagingAgents (UpdateStagingStatus i s now db)
      = map (\<lambda>a. if sg_ID a = i then a\<lparr>sg_Status := s, sg_LastSeenAt := Some now\<rparr> else a) (iv_StagingAgents db)"
    by (simp add: UpdateStagingStatus_def)
  then show ?thesis unfolding pool_def by (simp only:) (rule map_key(2), simp)
qed

lemma sessions_keep:
  "ConnectAgent E q n tok db = (o', ops, db') \<Longrightarrow> live db' = live db \<and> pool db' = pool db"
  "EndStagingSession q i db = (ops', db') \<Longrightarrow> live db' = live db \<and> pool db' = pool db"
proof -
  have s: "live (inv_try q k (UpdateStagingStatus i s now) db) = live db" "pool (inv_try q k (UpdateStagingStatus i s now) db) = pool db" for k i s now db
    by (simp_all add: inv_try_def pool_status live_cong [OF rows_updates(7)])
  have n: "live (inv_try q k (UpdateAgentStatus i s) db) = live db" "pool (inv_try q k (UpdateAgentStatus i s) db) = pool db" for k i s db
    by (simp_all add: inv_try_def UpdateAgentStatus_def live_cong [OF rows_updates(3)] pool_cong [OF rows_updates(4)])
  have t: "live (inv_try q k (TouchToken now h) db) = live db" "pool (inv_try q k (TouchToken now h) db) = pool db" for k now h db
    by (simp_all add: inv_try_def live_Touch pool_cong [OF rows_updates(6)])
  show "ConnectAgent E q n tok db = (o', ops, db') \<Longrightarrow> live db' = live db \<and> pool db' = pool db"
    by (auto simp: ConnectAgent_def s n t split: option.splits agent_identity.splits)
  show "EndStagingSession q i db = (ops', db') \<Longrightarrow> live db' = live db \<and> pool db' = pool db"
    by (auto simp: EndStagingSession_def s)
qed

lemma explained_kept: "live db' = live (ve_Before e) \<Longrightarrow> pool db' = pool (ve_Before e) \<Longrightarrow> (\<And>i. \<not> revoked i e) \<Longrightarrow> explained E e db'"
  by (simp add: explained_def)

lemma explained_quiet: "iv_Tokens db' = iv_Tokens db \<and> iv_StagingAgents db' = iv_StagingAgents db
    \<Longrightarrow> (\<And>i. \<not> revoked i (event_of q x db r)) \<Longrightarrow> explained E (event_of q x db r) db'"
  by (rule explained_same) simp_all

lemmas explained_requests = explained_generate explained_register explained_staging_register explained_assign explained_delete_cluster
  explained_delete_agent

lemmas quiet_requests = quiet_cluster1 quiet_cluster2 quiet_cluster3 quiet_node1 quiet_node2 quiet_update quiet_staging1 quiet_staging2

lemma step_explained:
  assumes "inventory_ok db" "inv_step E q h x db = (r, ops, db')"
  shows "explained E (event_of q x db r) db'"
proof (cases x)
  case (OCreateCluster b)
  show ?thesis using assms(2) quiet_cluster1 unfolding OCreateCluster by (intro explained_quiet) (fastforce simp: revoked_def split: prod.splits)+
next
  case (OPatchFailover i b)
  show ?thesis using assms(2) quiet_cluster2 unfolding OPatchFailover by (intro explained_quiet) (fastforce simp: revoked_def split: prod.splits)+
next
  case (OMediaSync i b)
  show ?thesis using assms(2) quiet_cluster3 unfolding OMediaSync by (intro explained_quiet) (fastforce simp: revoked_def split: prod.splits)+
next
  case (ODeleteCluster i)
  show ?thesis using assms(2) explained_delete_cluster unfolding ODeleteCluster by (auto split: prod.splits)
next
  case (OCreateNode i b)
  show ?thesis using assms(2) quiet_node1 unfolding OCreateNode by (intro explained_quiet) (fastforce simp: revoked_def split: prod.splits)+
next
  case (OUpdateNode i b)
  show ?thesis using assms(2) quiet_update unfolding OUpdateNode by (intro explained_quiet) (fastforce simp: revoked_def split: prod.splits)+
next
  case (OMaintenance i b)
  show ?thesis using assms(2) quiet_node2 unfolding OMaintenance by (intro explained_quiet) (fastforce simp: revoked_def split: prod.splits)+
next
  case (ODeleteNode i)
  show ?thesis using assms explained_delete_node unfolding ODeleteNode by (auto split: prod.splits)
next
  case (OGenerate i)
  show ?thesis using assms(2) explained_generate unfolding OGenerate by (auto split: prod.splits)
next
  case (ORegister b)
  show ?thesis using assms(2) explained_register unfolding ORegister by (auto split: prod.splits)
next
  case (OCreateStaging b)
  show ?thesis using assms(2) quiet_staging1 unfolding OCreateStaging by (intro explained_quiet) (fastforce simp: revoked_def split: prod.splits)+
next
  case (ODeleteStaging i)
  show ?thesis using assms(2) quiet_staging2 unfolding ODeleteStaging by (intro explained_quiet) (fastforce simp: revoked_def split: prod.splits)+
next
  case (OStagingRegister b)
  show ?thesis using assms(2) explained_staging_register unfolding OStagingRegister by (auto split: prod.splits)
next
  case (OAssign i b)
  show ?thesis using assms(2) explained_assign unfolding OAssign by (auto split: prod.splits)
next
  case (ODeleteAgent i)
  show ?thesis using assms(2) explained_delete_agent unfolding ODeleteAgent by (auto split: prod.splits)
next
  case (OConnect i tok)
  show ?thesis using assms(2) sessions_keep(1) unfolding OConnect by (intro explained_kept) (fastforce simp: revoked_def split: prod.splits)+
next
  case (OEndNode i p)
  show ?thesis using assms(2) quiet_node3 unfolding OEndNode by (intro explained_quiet) (fastforce simp: revoked_def split: prod.splits)+
next
  case (OEndStaging i)
  show ?thesis using assms(2) sessions_keep(2) unfolding OEndStaging by (intro explained_kept) (fastforce simp: revoked_def split: prod.splits)+
qed

section \<open>Histories\<close>

lemma registered_snoc: "registered E a h tr \<Longrightarrow> registered E a h (tr @ [e])"
  by (simp add: registered_def)

lemma issued_snoc: "issued E i h tr \<Longrightarrow> \<not> revoked i e \<Longrightarrow> issued E i h (tr @ [e])"
  unfolding issued_def
proof (elim exE conjE)
  fix tr1 g tr2 assume "\<not> revoked i e" "tr = tr1 @ g # tr2" "gave E i h tr1 g" "list_all (\<lambda>x. \<not> revoked i x) tr2"
  then have "tr @ [e] = tr1 @ g # (tr2 @ [e])" "gave E i h tr1 g" "list_all (\<lambda>x. \<not> revoked i x) (tr2 @ [e])" by simp_all
  then show "\<exists>tr1 g tr2. tr @ [e] = tr1 @ g # tr2 \<and> gave E i h tr1 g \<and> list_all (\<lambda>x. \<not> revoked i x) tr2" by blast
qed

lemma issued_now: "gave E i h tr e \<Longrightarrow> issued E i h (tr @ [e])"
  unfolding issued_def by (intro exI [of _ tr] exI [of _ e] exI [of _ "[]"]) simp

lemma fresh_live_gave:
  assumes "(i, h) \<in> fresh_live E e" "\<And>a k. (a, k) \<in> pool (ve_Before e) \<Longrightarrow> registered E a k tr"
  shows "gave E i h tr e"
  using assms unfolding fresh_live_def gave_def by (auto split: inv_result.splits inv_op.splits option.splits)

lemma fresh_pool_registered: "(a, h) \<in> fresh_pool E e \<Longrightarrow> registered E a h (tr @ [e])"
  unfolding fresh_pool_def registered_def by (auto split: inv_result.splits)

lemma tokens_explained:
  assumes "inv_history E tr db"
  shows "(\<forall>i h. (i, h) \<in> live db \<longrightarrow> issued E i h tr) \<and> (\<forall>a h. (a, h) \<in> pool db \<longrightarrow> registered E a h tr)"
  using assms
proof (induction rule: inv_history.induct)
  case start
  show ?case by (simp add: live_def pool_def empty_inventory_def)
next
  case (request tr db q h x r ops db')
  let ?e = "event_of q x db r"
  have x: "explained E ?e db'" by (rule step_explained [OF history_ok [OF request(1)] request(2)])
  have pool: "registered E a k tr" if "(a, k) \<in> pool (ve_Before ?e)" for a k using request(3) that by simp
  have "issued E i k (tr @ [?e])" if p: "(i, k) \<in> live db'" for i k
  proof -
    from x p have "(i, k) \<in> live db \<and> \<not> revoked i ?e \<or> (i, k) \<in> fresh_live E ?e" unfolding explained_def by auto
    then show ?thesis using request(3) issued_snoc issued_now fresh_live_gave [OF _ pool] by blast
  qed
  moreover have "registered E a k (tr @ [?e])" if p: "(a, k) \<in> pool db'" for a k
  proof -
    from x p have "(a, k) \<in> pool db \<or> (a, k) \<in> fresh_pool E ?e" unfolding explained_def by auto
    then show ?thesis using request(3) registered_snoc fresh_pool_registered by blast
  qed
  ultimately show ?case by blast
next
  case (restart tr db)
  have "live (MarkAllUnknown db) = live db" by (rule live_cong) (simp add: MarkAllUnknown_def)
  moreover have "pool (MarkAllUnknown db) = pool db" by (rule pool_cong) (simp add: MarkAllUnknown_def)
  ultimately show ?case using restart.IH by simp
qed

lemma authenticate_rows:
  assumes "authenticate E q nid tok db = Some x"
  shows "(case x of ANode n \<Rightarrow> nid = Some (nd_ID n) \<and> n \<in> set (iv_Nodes db) \<and> (nd_ID n, HashToken (ie_SHA256 E) tok) \<in> live db
    | AStaging a \<Rightarrow> nid = Some (sg_ID a) \<and> (sg_ID a, HashToken (ie_SHA256 E) tok) \<in> pool db)"
proof -
  obtain i where nid: "nid = Some i" using assms by (cases nid) (auto simp: authenticate_def)
  let ?h = "HashToken (ie_SHA256 E) tok"
  define staged where "staged = (case inv_ask q QAgentByToken (AgentByTokenHash ?h db) of None \<Rightarrow> None
    | Some a \<Rightarrow> if sg_ID a = i then Some (AStaging a) else None)"
  have "Some x = (case inv_ask q QTokenGet (ValidToken ?h db) of None \<Rightarrow> staged
    | Some t \<Rightarrow> if gt_NodeID t \<noteq> i then staged else (case inv_ask q QNodeGet (NodeByID i db) of None \<Rightarrow> staged | Some n \<Rightarrow> Some (ANode n)))"
    using assms unfolding nid authenticate_def Let_def staged_def option.case by (rule sym)
  then have a: "staged = Some x \<or> (\<exists>t n. ValidToken ?h db = Some t \<and> gt_NodeID t = i \<and> NodeByID i db = Some n \<and> x = ANode n)"
    by (auto split: option.splits if_splits dest!: inv_ask_Some)
  then consider "staged = Some x" | t n where "ValidToken ?h db = Some t" "gt_NodeID t = i" "NodeByID i db = Some n" "x = ANode n" by blast
  then show ?thesis
  proof cases
    case 1
    then obtain a where a: "AgentByTokenHash ?h db = Some a" "sg_ID a = i" "x = AStaging a"
      by (auto simp: staged_def split: option.splits if_splits dest!: inv_ask_Some)
    then have "a \<in> set (iv_StagingAgents db)" "sg_TokenHash a = ?h"
      unfolding AgentByTokenHash_def using find_Some_in [of "\<lambda>a. sg_TokenHash a = ?h"] by auto
    then show ?thesis using a nid by (auto simp: pool_def)
  next
    case 2
    then have "t \<in> set (iv_Tokens db)" "gt_TokenHash t = ?h" "gt_RevokedAt t = None"
      unfolding ValidToken_def using find_Some_in [of "\<lambda>t. gt_TokenHash t = ?h \<and> gt_RevokedAt t = None"] by auto
    then show ?thesis using 2 nid NodeByID_Some [OF 2(3)] by (force simp: live_def)
  qed
qed

text \<open>
  C9: An agent is taken for a node only if the node exists and the token it shows was given out for this node earlier, in an
  answer to a request for the node or to a waiting agent that was then assigned to become it, and the tokens of the node were
  not ended since, by a new token, by deleting the node or by deleting its cluster; it is taken for a waiting agent only with
  the token that agent got when it registered.  This holds after every history of requests, restarts and failing queries.
\<close>

theorem agent_token_authentic:
  assumes "inv_history E tr db" "authenticate E q nid tok db = Some x"
  shows "case x of ANode n \<Rightarrow> nid = Some (nd_ID n) \<and> n \<in> set (iv_Nodes db) \<and> issued E (nd_ID n) (HashToken (ie_SHA256 E) tok) tr
    | AStaging a \<Rightarrow> nid = Some (sg_ID a) \<and> registered E (sg_ID a) (HashToken (ie_SHA256 E) tok) tr"
  using tokens_explained [OF assms(1)] authenticate_rows [OF assms(2)] by (auto split: agent_identity.splits)

section \<open>An example\<close>

definition id_env :: inv_env where
  "id_env = \<lparr>ie_SHA256 = (\<lambda>s. s), ie_Inet = (\<lambda>s. if s = [] then None else Some (s @ ''/32'')), ie_ServerURL = ''https://c''\<rparr>"

definition id_call :: "instant \<Rightarrow> uuid \<Rightarrow> inv_call" where
  "id_call now i = \<lparr>iq_Now = now, iq_Fails = (\<lambda>_. False), iq_Random = (\<lambda>_. Some [char_of (nat now)]), iq_NewID = i\<rparr>"

definition id_next :: "inv_event list \<times> inventory \<Rightarrow> inv_call \<times> inv_op \<Rightarrow> inv_event list \<times> inventory" where
  "id_next s p = (case (s, p) of ((tr, db), (q, x)) \<Rightarrow>
     (case inv_step id_env q (New_hub :: nat hub) x db of (r, _, db') \<Rightarrow> (tr @ [event_of q x db r], db')))"

definition id_run :: "(inv_call \<times> inv_op) list \<Rightarrow> inv_event list \<times> inventory" where
  "id_run ps = foldl id_next ([], empty_inventory) ps"

lemma id_run_history: "inv_history id_env (fst (id_run ps)) (snd (id_run ps))"
proof (induction ps rule: rev_induct)
  case Nil
  show ?case by (simp add: id_run_def inv_history.start)
next
  case (snoc p ps)
  obtain tr db where s: "id_run ps = (tr, db)" by fastforce
  obtain q x where p: "p = (q, x)" by fastforce
  obtain r ops db' where i: "inv_step id_env q (New_hub :: nat hub) x db = (r, ops, db')" using prod_cases3 by blast
  have "id_run (ps @ [p]) = (tr @ [event_of q x db r], db')"
    using s p i by (simp add: id_run_def id_next_def)
  then show ?case using inv_history.request [OF _ i] snoc s by simp
qed

lemma id_run_length: "length (fst (id_run ps)) = length ps"
  by (induction ps rule: rev_induct) (simp_all add: id_run_def id_next_def split_beta)

definition id_token :: "nat \<Rightarrow> string" where
  "id_token n = hex_encode [char_of n]"

text \<open>A cluster, a staging token, an agent that registers with it, and its assignment to the cluster.\<close>

definition id_steps :: "(inv_call \<times> inv_op) list" where
  "id_steps =
     [(id_call 1 1, OCreateCluster (Some (''main'', ''ha''))),
      (id_call 2 2, OCreateStaging (Some (''rack'', 0))),
      (id_call 3 3, OStagingRegister (Some (id_token 2, ''n1'', ''10.0.0.1'', ''1.0''))),
      (id_call 4 4, OAssign (Some 3) (Some (InCluster 1, [], 0)))]"

definition id_node :: node where
  "id_node = \<lparr>nd_ID = 4, nd_ClusterID = 1, nd_Hostname = ''n1'', nd_IPAddress = ''10.0.0.1/32'', nd_Role = ''hyperconverged'', nd_FailoverPriority = 100,
     nd_AgentStatus = ''unknown'', nd_PatroniState = None, nd_NetboxRunning = None, nd_RQRunning = None, nd_SuppressAutoStart = False,
     nd_MaintenanceMode = False\<rparr>"

lemma id_authenticates: "authenticate id_env (id_call 5 5) (Some 4) (id_token 3) (snd (id_run id_steps)) = Some (ANode id_node)"
  by code_simp

lemma id_nodes: "iv_Nodes (snd (id_run id_steps)) = [id_node]"
  by code_simp

theorem inventory_well_formed_witness:
  "inv_history id_env (fst (id_run id_steps)) (snd (id_run id_steps)) \<and> iv_Nodes (snd (id_run id_steps)) = [id_node]
   \<and> inventory_ok (snd (id_run id_steps))"
  using inventory_well_formed [OF id_run_history [of id_steps]] id_run_history [of id_steps] id_nodes by blast

theorem agent_token_authentic_witness:
  "inv_history id_env (fst (id_run id_steps)) (snd (id_run id_steps))
   \<and> authenticate id_env (id_call 5 5) (Some 4) (id_token 3) (snd (id_run id_steps)) = Some (ANode id_node)
   \<and> issued id_env 4 (HashToken (ie_SHA256 id_env) (id_token 3)) (fst (id_run id_steps))"
  using agent_token_authentic [OF id_run_history id_authenticates] id_run_history id_authenticates
  by (simp add: id_node_def)

end
