(* ===== verification/StagingTokens.thy ===== *)
theory StagingTokens
  imports AgentTokens
begin

text \<open>
  A staging token registers one agent, and what the handlers of tokens and nodes do not do: no one-time registration token
  is ever made, an expiry of many hours wraps around, a revocation that fails is not noticed, and the end of maintenance
  clears a flag an operator set.
\<close>

section \<open>Requests that leave the one-time tokens alone\<close>

definition kept :: "inventory \<Rightarrow> inventory \<Rightarrow> bool" where
  "kept db db' \<longleftrightarrow> iv_StagingTokens db' = iv_StagingTokens db \<and> (iv_RegTokens db = [] \<longrightarrow> iv_RegTokens db' = [])"

lemma kept_refl [simp, intro]: "kept db db"
  by (simp add: kept_def)

lemma kept_trans: "kept a b \<Longrightarrow> kept b c \<Longrightarrow> kept a c"
  by (simp add: kept_def)

lemma kept_rows [simp, intro]:
  "kept db (update_cluster i f db)" "kept db (update_node i g db)" "kept db (RevokeTokens t i db)" "kept db (TouchToken t h db)"
  "kept db (UpdateStagingStatus i s t db)" "kept db (DeleteAgentRow i db)" "kept db (drop_nodes P db)" "kept db (DeleteNodeRow i db)"
  "kept db (delete_cluster_row i db)" "kept db (MarkAllUnknown db)" "kept db (SetSuppressAutoStart i b db)" "kept db (SetMaintenanceMode i b db)"
  "kept db (UpdateAgentStatus i s db)"
  by (simp_all add: kept_def update_cluster_def update_node_def RevokeTokens_def TouchToken_def UpdateStagingStatus_def DeleteAgentRow_def
      drop_nodes_def DeleteNodeRow_def delete_cluster_row_def MarkAllUnknown_def SetSuppressAutoStart_def SetMaintenanceMode_def
      UpdateAgentStatus_def Let_def)

lemma tried_rows:
  "kept db (inv_try q k (RevokeTokens t i) db)" "kept db (inv_try q k (DeleteNodeRow i) db)" "kept db (inv_try q k (DeleteAgentRow i) db)"
  "kept db (inv_try q k (TouchToken t h) db)" "kept db (inv_try q k (UpdateAgentStatus i s) db)"
  "kept db (inv_try q k (UpdateStagingStatus i s t) db)"
  by (simp_all add: inv_try_def)

lemma kept_inserts:
  "InsertCluster i name mode db = Some (c, db1) \<Longrightarrow> kept db db1"
  "InsertNode E i d host ip role prio db = Some (m, db1) \<Longrightarrow> kept db db1"
  "UpdateNode E i u db = Some db1 \<Longrightarrow> kept db db1"
  "CreateToken i h now db = Some db1 \<Longrightarrow> kept db db1"
  "ConsumeRegToken now h db = Some (t, db1) \<Longrightarrow> kept db db1"
  "CreateAgentRow i host ip ver h now db = Some (a, db1) \<Longrightarrow> kept db db1"
  by (auto simp: kept_def InsertCluster_def InsertNode_def UpdateNode_def CreateToken_def ConsumeRegToken_def CreateAgentRow_def
      update_node_def Let_def split: option.splits if_splits)

lemma kept_cluster_requests:
  "CreateCluster q b db = (a, db') \<Longrightarrow> kept db db'"
  "PatchFailoverSettings q i fr db = (a, db') \<Longrightarrow> kept db db'"
  "UpdateMediaSyncSettings q i mr db = (a', db') \<Longrightarrow> kept db db'"
  "DeleteCluster q i db = (x, ops, db') \<Longrightarrow> kept db db'"
  subgoal by (auto simp: CreateCluster_def split: option.splits if_splits prod.splits dest!: inv_ask_Some dest: kept_inserts(1))
  subgoal by (auto simp: PatchFailoverSettings_def Let_def split: option.splits if_splits)
  subgoal by (auto simp: UpdateMediaSyncSettings_def Let_def split: option.splits if_splits)
  subgoal by (auto simp: DeleteCluster_def split: option.splits if_splits)
  done

lemma kept_finish: "finish_update q i u db = (a, db') \<Longrightarrow> kept db db'"
  by (auto simp: finish_update_def Let_def split: option.splits if_splits)

lemma kept_update:
  assumes "UpdateNodeHandler E q n u db = (a, db')"
  shows "kept db db'"
proof -
  from update_cases [OF assms] consider "db' = db" | i v where "finish_update q i v db = (a, db')"
    | i v db1 where "UpdateNode E i v db = Some db1" "finish_update q i v db1 = (a, db')" by blast
  then show ?thesis
  proof cases
    case 2
    then show ?thesis by (rule kept_finish)
  next
    case 3
    show ?thesis by (rule kept_trans [OF kept_inserts(3) [OF 3(1)] kept_finish [OF 3(2)]])
  qed simp
qed

lemma kept_node_requests:
  "CreateNode E q c b db = (a, db') \<Longrightarrow> kept db db'"
  "SetMaintenance q n m db = (a', db') \<Longrightarrow> kept db db'"
  "DeleteNode q n db = (x, ops, db') \<Longrightarrow> kept db db'"
  "EndNodeSession q j p h db = (rs, db') \<Longrightarrow> kept db db'"
  subgoal by (auto simp: CreateNode_def split: option.splits if_splits prod.splits dest!: inv_ask_Some dest: kept_inserts(2))
  subgoal by (auto simp: SetMaintenance_def Let_def split: option.splits if_splits)
  subgoal by (auto simp: DeleteNode_def Let_def tried_rows intro: kept_trans [OF tried_rows(1)] split: option.splits if_splits)
  subgoal by (auto simp: EndNodeSession_def tried_rows split: if_splits)
  done

lemma kept_reissue:
  assumes "reissueAgentToken E q i db = (t, d)"
  shows "kept db d"
proof -
  let ?db1 = "inv_try q QTokenRevoke (RevokeTokens (iq_Now q) i) db"
  have "d = ?db1 \<or> (\<exists>h. CreateToken i h (iq_Now q) ?db1 = Some d)"
    using assms by (auto simp: reissueAgentToken_def Let_def split: option.splits prod.splits dest!: inv_ask_Some)
  then show ?thesis using tried_rows(1) kept_trans [OF tried_rows(1) kept_inserts(4)] by blast
qed

lemma kept_token_requests:
  assumes "GenerateRegToken E q n db = (a, db') \<or> RegisterAgent E q b db = (a', db')"
  shows "kept db db'"
proof -
  have "db' = db \<or> (\<exists>i t. reissueAgentToken E q i db = (t, db'))" if "GenerateRegToken E q n db = (a, db')"
    using that by (auto simp: GenerateRegToken_def split: option.splits prod.splits)
  moreover have "db' = db \<or> (\<exists>now h t. ConsumeRegToken now h db = Some (t, db'))
      \<or> (\<exists>now h t db1 i k. ConsumeRegToken now h db = Some (t, db1) \<and> CreateToken i k now db1 = Some db')" if "RegisterAgent E q b db = (a', db')"
    using that by (auto simp: RegisterAgent_def split: option.splits prod.splits if_splits dest!: inv_ask_Some)
  ultimately consider "db' = db" | i t where "reissueAgentToken E q i db = (t, db')" | now h t where "ConsumeRegToken now h db = Some (t, db')"
    | now h t db1 i k where "ConsumeRegToken now h db = Some (t, db1)" "CreateToken i k now db1 = Some db'"
    using assms by blast
  then show ?thesis
  proof cases
    case 4
    then show ?thesis by (rule kept_trans [OF kept_inserts(5) kept_inserts(4)])
  qed (simp, erule kept_reissue, erule kept_inserts(5))
qed

lemma kept_assign:
  assumes "AssignStagingAgent E q n c db = (a, ops, db')"
  shows "kept db db'"
  using assms
proof (cases rule: assignE)
  case (undone c e s j d role prio m db1)
  then show ?thesis using kept_trans [OF kept_inserts(2) tried_rows(2)] by blast
next
  case (assigned i s j d role prio m db1 db2)
  then show ?thesis using kept_trans [OF kept_trans [OF kept_inserts(2) kept_inserts(4)] tried_rows(3)] by blast
qed simp

lemma kept_session_requests:
  "DeleteStagingAgent q n db = (x, ops, db') \<Longrightarrow> kept db db'"
  "ConnectAgent E q n tok db = (r, ops, db') \<Longrightarrow> kept db db'"
  "EndStagingSession q i db = (ops, db') \<Longrightarrow> kept db db'"
  subgoal by (auto simp: DeleteStagingAgent_def split: option.splits if_splits)
  subgoal by (auto simp: ConnectAgent_def tried_rows intro: kept_trans [OF tried_rows(5) tried_rows(4)] split: option.splits agent_identity.splits)
  subgoal by (auto simp: EndStagingSession_def tried_rows)
  done

lemma staging_register_rows:
  assumes "StagingRegister E q b db = (a, db')"
  obtains (refused) c e where "a = Inl (c, e)" "iv_StagingTokens db' = iv_StagingTokens db" "iv_RegTokens db' = iv_RegTokens db"
    | (used) tok host ip ver t db1 where "b = Some (tok, host, ip, ver)" "ConsumeStaging (iq_Now q) (HashToken (ie_SHA256 E) tok) db = Some (t, db1)"
      "iv_StagingTokens db' = iv_StagingTokens db1" "iv_RegTokens db' = iv_RegTokens db"
proof -
  have c: "iv_StagingTokens db2 = iv_StagingTokens db1 \<and> iv_RegTokens db2 = iv_RegTokens db1"
    if "CreateAgentRow i host ip ver k now db1 = Some (s, db2)" for i host ip ver k now db1 s db2
    using that by (auto simp: CreateAgentRow_def Let_def split: if_splits)
  have r: "iv_RegTokens db1 = iv_RegTokens db" if "ConsumeStaging now h db = Some (t, db1)" for now h t db1
    using that by (auto simp: ConsumeStaging_def split: option.splits)
  have "(\<exists>c e. a = Inl (c, e)) \<and> db' = db
    \<or> (\<exists>tok host ip ver t db1. b = Some (tok, host, ip, ver) \<and> ConsumeStaging (iq_Now q) (HashToken (ie_SHA256 E) tok) db = Some (t, db1)
      \<and> (db' = db1 \<or> (\<exists>i h p v k now s. CreateAgentRow i h p v k now db1 = Some (s, db'))))"
    using assms by (auto simp: StagingRegister_def split: option.splits prod.splits if_splits dest!: inv_ask_Some)
  then show ?thesis
  proof (elim disjE exE conjE)
    show ?thesis if "a = Inl (c, e)" "db' = db" for c e using refused that by blast
    show ?thesis if "b = Some (tok, host, ip, ver)" "ConsumeStaging (iq_Now q) (HashToken (ie_SHA256 E) tok) db = Some (t, db1)" "db' = db1"
      for tok host ip ver t db1 using used [OF that(1,2)] that(3) r [OF that(2)] by simp
    show ?thesis if "b = Some (tok, host, ip, ver)" "ConsumeStaging (iq_Now q) (HashToken (ie_SHA256 E) tok) db = Some (t, db1)"
        "CreateAgentRow i h p v k now db1 = Some (s, db')" for tok host ip ver t db1 i h p v k now s
      using used [OF that(1,2)] c [OF that(3)] r [OF that(2)] by simp
  qed
qed

section \<open>Every request, on the one-time tokens\<close>

definition about_staging :: "inv_op \<Rightarrow> bool" where
  "about_staging x = (case x of OCreateStaging _ \<Rightarrow> True | ODeleteStaging _ \<Rightarrow> True | OStagingRegister _ \<Rightarrow> True | _ \<Rightarrow> False)"

lemma step_kept: "inv_step E q h x db = (r, ops, db') \<Longrightarrow> \<not> about_staging x \<Longrightarrow> kept db db'"
  by (cases x) (auto simp: about_staging_def split: prod.splits
      dest: kept_cluster_requests kept_update kept_node_requests kept_token_requests [OF disjI1] kept_token_requests [OF disjI2] kept_assign
        kept_session_requests)

lemma step_registration: "inv_step E q h x db = (r, ops, db') \<Longrightarrow> iv_RegTokens db = [] \<Longrightarrow> iv_RegTokens db' = []"
proof (cases "about_staging x")
  case False
  assume "inv_step E q h x db = (r, ops, db')" "iv_RegTokens db = []"
  then show ?thesis using step_kept [OF _ False, of E q h db r ops db'] by (simp add: kept_def)
next
  case True
  assume s: "inv_step E q h x db = (r, ops, db')" "iv_RegTokens db = []"
  have c: "iv_RegTokens d = iv_RegTokens db" if "CreateStagingToken E q b db = (a, d)" for b a d
    using that by (auto simp: CreateStagingToken_def CreateStagingRow_def Let_def split: option.splits prod.splits if_splits dest!: inv_ask_Some)
  have e: "iv_RegTokens d = iv_RegTokens db" if "DeleteStagingToken q i db = (a, d)" for i a d
    using that by (auto simp: DeleteStagingToken_def split: option.splits if_splits)
  have u: "iv_RegTokens d = iv_RegTokens db" if "StagingRegister E q b db = (a, d)" for b a d
    using that by (cases rule: staging_register_rows) auto
  show ?thesis using True s by (cases x) (auto simp: about_staging_def split: prod.splits dest: c e u)
qed

text \<open>No request makes a one-time registration token, so no agent can register with one.\<close>

lemma no_registration_tokens: "inv_history E tr db \<Longrightarrow> iv_RegTokens db = []"
proof (induction rule: inv_history.induct)
  case start
  show ?case by (simp add: empty_inventory_def)
next
  case (request tr db q h x r ops db')
  then show ?case using step_registration by blast
next
  case (restart tr db)
  then show ?case by (simp add: MarkAllUnknown_def)
qed

lemma registration_never_succeeds:
  assumes "inv_history E tr db" "RegisterAgent E q b db = (a, db')"
  shows "(\<exists>c m. a = Inl (c, m)) \<and> db' = db"
  using assms(2) no_registration_tokens [OF assms(1)]
  by (auto simp: RegisterAgent_def ConsumeRegToken_def inv_ask_def split: option.splits prod.splits if_splits)

section \<open>A staging token registers one agent\<close>

text \<open>The request made the staging token \<open>t\<close>; the request registered an agent with a staging token of the hash \<open>h\<close>.\<close>

definition staging_made :: "inv_env \<Rightarrow> staging_token \<Rightarrow> inv_event \<Rightarrow> bool" where
  "staging_made E t e = (case ve_Result e of GStagingToken u raw \<Rightarrow> u = t \<and> HashToken (ie_SHA256 E) raw = sk_TokenHash t | _ \<Rightarrow> False)"

definition staging_used :: "inv_env \<Rightarrow> string \<Rightarrow> inv_event \<Rightarrow> bool" where
  "staging_used E h e = (case ve_Result e of
      GStagingAgent _ _ \<Rightarrow> (case ve_Op e of OStagingRegister (Some (tok, _)) \<Rightarrow> HashToken (ie_SHA256 E) tok = h | _ \<Rightarrow> False)
    | _ \<Rightarrow> False)"

definition staging_unused :: "inv_env \<Rightarrow> staging_token \<Rightarrow> inv_event list \<Rightarrow> bool" where
  "staging_unused E t tr \<longleftrightarrow> (\<exists>tr1 g tr2. tr = tr1 @ g # tr2 \<and> staging_made E t g \<and> list_all (\<lambda>x. \<not> staging_used E (sk_TokenHash t) x) tr2)"

text \<open>A row that is open after a request was open before and is not the one the request used, or the request made it.\<close>

definition staging_step :: "inv_env \<Rightarrow> inv_event \<Rightarrow> inventory \<Rightarrow> bool" where
  "staging_step E e db' \<longleftrightarrow> distinct (map sk_TokenHash (iv_StagingTokens db'))
     \<and> list_all (\<lambda>t. sk_UsedAt t \<noteq> None \<or> t \<in> set (iv_StagingTokens (ve_Before e)) \<and> \<not> staging_used E (sk_TokenHash t) e
         \<or> staging_made E t e) (iv_StagingTokens db')"

lemma staging_step_kept:
  assumes "distinct (map sk_TokenHash (iv_StagingTokens db))" "iv_StagingTokens db' = iv_StagingTokens db" "\<And>h. \<not> staging_used E h (event_of q x db r)"
  shows "staging_step E (event_of q x db r) db'"
  using assms by (simp add: staging_step_def list_all_iff)

lemma ConsumeStaging_rows:
  assumes "ConsumeStaging now h db = Some (t, db')" "distinct (map sk_TokenHash (iv_StagingTokens db))"
  shows "distinct (map sk_TokenHash (iv_StagingTokens db'))" "t \<in> set (iv_StagingTokens db)" "staging_open now h t"
    "list_all (\<lambda>u. sk_UsedAt u \<noteq> None \<or> u \<in> set (iv_StagingTokens db) \<and> sk_TokenHash u \<noteq> h) (iv_StagingTokens db')"
proof -
  let ?f = "\<lambda>u. if staging_open now h u then u\<lparr>sk_UsedAt := Some now\<rparr> else u"
  from assms(1) have f: "find (staging_open now h) (iv_StagingTokens db) = Some t" and r: "iv_StagingTokens db' = map ?f (iv_StagingTokens db)"
    by (auto simp: ConsumeStaging_def split: option.splits)
  show t: "t \<in> set (iv_StagingTokens db)" "staging_open now h t" using find_Some_in [OF f] by simp_all
  have "map sk_TokenHash (map ?f (iv_StagingTokens db)) = map sk_TokenHash (iv_StagingTokens db)" by (rule map_key(1)) simp
  then show "distinct (map sk_TokenHash (iv_StagingTokens db'))" using assms(2) by (simp only: r)
  have "sk_TokenHash u \<noteq> h \<or> staging_open now h u" if "u \<in> set (iv_StagingTokens db)" for u
    using that t assms(2) by (metis distinct_map inj_onD staging_open_def)
  then show "list_all (\<lambda>u. sk_UsedAt u \<noteq> None \<or> u \<in> set (iv_StagingTokens db) \<and> sk_TokenHash u \<noteq> h) (iv_StagingTokens db')"
    unfolding r list_all_iff by auto
qed

lemma not_used: "\<not> about_staging x \<Longrightarrow> \<not> staging_used E h (event_of q x db r)"
  by (cases x) (auto simp: staging_used_def about_staging_def split: inv_result.splits)

lemma staging_step_create:
  assumes "distinct (map sk_TokenHash (iv_StagingTokens db))" "CreateStagingToken E q b db = (a, db')"
  shows "staging_step E (event_of q (OCreateStaging b) db (done_or (\<lambda>(t, raw). GStagingToken t raw) a)) db'"
proof -
  have unused: "\<not> staging_used E h (event_of q (OCreateStaging b) db r)" for h r by (auto simp: staging_used_def split: inv_result.splits)
  have "db' = db \<or> (\<exists>raw i label now expires t. a = Inr (t, raw)
      \<and> CreateStagingRow i (HashToken (ie_SHA256 E) raw) label now expires db = Some (t, db'))"
    using assms(2) by (auto simp: CreateStagingToken_def Let_def split: option.splits prod.splits dest!: inv_ask_Some)
  then consider "db' = db" | raw i label now expires t where "a = Inr (t, raw)"
    "CreateStagingRow i (HashToken (ie_SHA256 E) raw) label now expires db = Some (t, db')" by blast
  then show ?thesis
  proof cases
    case 1
    then show ?thesis using assms(1) unused by (intro staging_step_kept) simp_all
  next
    case 2
    have r: "iv_StagingTokens db' = iv_StagingTokens db @ [t]" "sk_TokenHash t = HashToken (ie_SHA256 E) raw"
      "HashToken (ie_SHA256 E) raw \<notin> sk_TokenHash ` set (iv_StagingTokens db)"
      using 2(2) by (auto simp: CreateStagingRow_def Let_def list_ex_iff split: if_splits)
    then have "distinct (map sk_TokenHash (iv_StagingTokens db'))" using assms(1) by simp
    moreover have "staging_made E t (event_of q (OCreateStaging b) db (GStagingToken t raw))" using r(2) by (simp add: staging_made_def)
    ultimately show ?thesis using unused unfolding staging_step_def 2(1) r(1) by (auto simp: list_all_iff)
  qed
qed

lemma staging_step_delete:
  assumes "distinct (map sk_TokenHash (iv_StagingTokens db))" "DeleteStagingToken q i db = (a, db')"
  shows "staging_step E (event_of q (ODeleteStaging i) db r) db'"
proof -
  have "\<not> staging_used E h (event_of q (ODeleteStaging i) db r)" for h by (auto simp: staging_used_def split: inv_result.splits)
  moreover have "db' = db \<or> (\<exists>j. iv_StagingTokens db' = filter (\<lambda>t. sk_ID t \<noteq> j) (iv_StagingTokens db))"
    using assms(2) by (auto simp: DeleteStagingToken_def split: option.splits if_splits)
  ultimately show ?thesis using assms(1) by (auto simp: staging_step_def list_all_iff intro: distinct_map_filter)
qed

lemma staging_step_register:
  assumes "distinct (map sk_TokenHash (iv_StagingTokens db))" "StagingRegister E q b db = (a, db')"
  shows "staging_step E (event_of q (OStagingRegister b) db (done_or (\<lambda>(i, raw). GStagingAgent i raw) a)) db'"
  using assms(2)
proof (cases rule: staging_register_rows)
  case refused
  then show ?thesis using assms(1) by (intro staging_step_kept) (auto simp: staging_used_def)
next
  case (used tok host ip ver t db1)
  note c = ConsumeStaging_rows [OF used(2) assms(1)]
  have "\<not> staging_used E k (event_of q (OStagingRegister b) db r)" if "k \<noteq> HashToken (ie_SHA256 E) tok" for k r
    using that used(1) by (auto simp: staging_used_def split: inv_result.splits)
  then show ?thesis using c(1,4) unfolding staging_step_def used(3) list_all_iff by auto
qed

lemma staging_stepped:
  assumes "distinct (map sk_TokenHash (iv_StagingTokens db))" "inv_step E q h x db = (r, ops, db')"
  shows "staging_step E (event_of q x db r) db'"
proof (cases "about_staging x")
  case False
  have "iv_StagingTokens db' = iv_StagingTokens db" using step_kept [OF assms(2) False] by (simp add: kept_def)
  then show ?thesis by (rule staging_step_kept [OF assms(1) _ not_used [OF False]])
next
  case True
  then show ?thesis using assms(2)
    by (cases x) (auto simp: about_staging_def split: prod.splits
        intro: staging_step_create [OF assms(1)] staging_step_delete [OF assms(1)] staging_step_register [OF assms(1)])
qed

lemma unused_snoc: "staging_unused E t tr \<Longrightarrow> \<not> staging_used E (sk_TokenHash t) e \<Longrightarrow> staging_unused E t (tr @ [e])"
  unfolding staging_unused_def
proof (elim exE conjE)
  fix tr1 g tr2
  assume "\<not> staging_used E (sk_TokenHash t) e" "tr = tr1 @ g # tr2" "staging_made E t g" "list_all (\<lambda>x. \<not> staging_used E (sk_TokenHash t) x) tr2"
  then have "tr @ [e] = tr1 @ g # (tr2 @ [e])" "staging_made E t g" "list_all (\<lambda>x. \<not> staging_used E (sk_TokenHash t) x) (tr2 @ [e])" by simp_all
  then show "\<exists>tr1 g tr2. tr @ [e] = tr1 @ g # tr2 \<and> staging_made E t g \<and> list_all (\<lambda>x. \<not> staging_used E (sk_TokenHash t) x) tr2" by blast
qed

lemma unused_new: "staging_made E t e \<Longrightarrow> staging_unused E t (tr @ [e])"
  unfolding staging_unused_def by (intro exI [of _ tr] exI [of _ e] exI [of _ "[]"]) simp

lemma staging_rows:
  assumes "inv_history E tr db"
  shows "distinct (map sk_TokenHash (iv_StagingTokens db))
    \<and> (\<forall>t. t \<in> set (iv_StagingTokens db) \<longrightarrow> sk_UsedAt t = None \<longrightarrow> staging_unused E t tr)"
  using assms
proof (induction rule: inv_history.induct)
  case start
  show ?case by (simp add: empty_inventory_def)
next
  case (request tr db q h x r ops db')
  have s: "staging_step E (event_of q x db r) db'" by (rule staging_stepped [OF _ request(2)]) (use request(3) in blast)
  have "staging_unused E t (tr @ [event_of q x db r])" if t: "t \<in> set (iv_StagingTokens db')" "sk_UsedAt t = None" for t
  proof -
    from s t have "t \<in> set (iv_StagingTokens db) \<and> \<not> staging_used E (sk_TokenHash t) (event_of q x db r) \<or> staging_made E t (event_of q x db r)"
      by (auto simp: staging_step_def list_all_iff)
    then show ?thesis using request(3) t(2) unused_snoc unused_new by blast
  qed
  then show ?case using s unfolding staging_step_def by blast
next
  case (restart tr db)
  then show ?case by (simp add: MarkAllUnknown_def)
qed

lemma history_split:
  assumes "inv_history E trs d" "trs = tr @ e # tr'"
  shows "\<exists>h ops db. inv_history E tr (ve_Before e) \<and> inv_step E (ve_Call e) (h :: nat hub) (ve_Op e) (ve_Before e) = (ve_Result e, ops, db)"
  using assms
proof (induction arbitrary: tr' rule: inv_history.induct)
  case (request trs db q h x r ops db')
  show ?case
  proof (cases tr' rule: rev_cases)
    case Nil
    then have "trs = tr" "e = event_of q x db r" using request.prems by simp_all
    then show ?thesis using request.hyps by auto
  next
    case (snoc l z)
    then have "trs = tr @ e # l" using request.prems by simp
    then show ?thesis by (rule request.IH)
  qed
qed simp_all

text \<open>
  C16: Every agent that registers shows a staging token that an earlier request made, that had not expired, and that no request
  between the two registered an agent with: a staging token admits one agent, after every history of requests, restarts and
  failing queries.
\<close>

theorem staging_token_admits_one:
  assumes "inv_history E (tr @ e # tr') db" "ve_Op e = OStagingRegister (Some (tok, host, ip, ver))" "ve_Result e = GStagingAgent i raw"
  shows "\<exists>t tr1 g tr2. tr = tr1 @ g # tr2 \<and> staging_made E t g \<and> sk_TokenHash t = HashToken (ie_SHA256 E) tok
    \<and> iq_Now (ve_Call e) < sk_ExpiresAt t \<and> list_all (\<lambda>x. \<not> staging_used E (HashToken (ie_SHA256 E) tok) x) tr2"
proof -
  from history_split [OF assms(1) refl] obtain h ops db1 where p: "inv_history E tr (ve_Before e)"
    and s: "inv_step E (ve_Call e) (h :: nat hub) (ve_Op e) (ve_Before e) = (ve_Result e, ops, db1)" by blast
  from s assms(2,3) obtain a where "StagingRegister E (ve_Call e) (Some (tok, host, ip, ver)) (ve_Before e) = (a, db1)" "a = Inr (i, raw)"
    by (auto split: prod.splits elim!: done_or.elims)
  then obtain t db2 where c: "ConsumeStaging (iq_Now (ve_Call e)) (HashToken (ie_SHA256 E) tok) (ve_Before e) = Some (t, db2)"
    by (auto elim: staging_register_rows)
  note r = staging_rows [OF p]
  note t = ConsumeStaging_rows(2,3) [OF c conjunct1 [OF r]]
  from t have "sk_TokenHash t = HashToken (ie_SHA256 E) tok" "iq_Now (ve_Call e) < sk_ExpiresAt t" "sk_UsedAt t = None"
    by (simp_all add: staging_open_def)
  moreover from this r t(1) have "staging_unused E t tr" by blast
  ultimately show ?thesis unfolding staging_unused_def by metis
qed

theorem staging_token_admits_one_witness:
  "inv_history id_env (fst (id_run id_steps)) (snd (id_run id_steps))
   \<and> ve_Op (fst (id_run id_steps) ! 2) = OStagingRegister (Some (id_token 2, ''n1'', ''10.0.0.1'', ''1.0''))
   \<and> ve_Result (fst (id_run id_steps) ! 2) = GStagingAgent 3 [CHR ''0'', CHR ''3'']
   \<and> (\<exists>t tr1 g tr2. take 2 (fst (id_run id_steps)) = tr1 @ g # tr2 \<and> staging_made id_env t g)"
proof -
  let ?tr = "fst (id_run id_steps)"
  have "length ?tr = 4" by (simp add: id_run_length id_steps_def)
  then have s: "?tr = take 2 ?tr @ ?tr ! 2 # drop 3 ?tr" using id_take_nth_drop [of 2 ?tr] by simp
  have op: "ve_Op (?tr ! 2) = OStagingRegister (Some (id_token 2, ''n1'', ''10.0.0.1'', ''1.0''))" by code_simp
  have r: "ve_Result (?tr ! 2) = GStagingAgent 3 [CHR ''0'', CHR ''3'']" by code_simp
  from id_run_history [of id_steps] s have "inv_history id_env (take 2 ?tr @ ?tr ! 2 # drop 3 ?tr) (snd (id_run id_steps))" by simp
  from staging_token_admits_one [OF this op r] show ?thesis using id_run_history [of id_steps] op r by blast
qed

section \<open>What the handlers leave undone\<close>

text \<open>A staging token of more hours than a duration holds has expired when it is made.\<close>

lemma staging_hours_wrap:
  "fst (CreateStagingToken id_env (id_call 1 1) (Some (''rack'', 2562048)) empty_inventory)
    = Inr (\<lparr>sk_ID = 1, sk_TokenHash = HashToken (\<lambda>s. s) (id_token 1), sk_Label = ''rack'', sk_CreatedAt = 1,
        sk_ExpiresAt = - 9223371273709551615, sk_UsedAt = None\<rparr>, id_token 1)"
  by code_simp

text \<open>When the revocation fails, a new token is given out and the old one stays in force.\<close>

lemma failed_revocation_keeps_token:
  assumes "(i, h) \<in> live db" "iq_Fails q QTokenRevoke" "GenerateRegToken E q (Some i) db = (Inr (j, raw, url), db')"
  shows "(i, h) \<in> live db' \<and> (i, HashToken (ie_SHA256 E) raw) \<in> live db'"
proof -
  from assms(3) obtain n t where n: "NodeByID i db = Some n" "reissueAgentToken E q i db = (Some (raw, t), db')"
    by (auto simp: GenerateRegToken_def split: option.splits prod.splits dest!: inv_ask_Some)
  show ?thesis using reissue_cases(3) [OF n(2) refl] assms(1,2) by simp
qed

text \<open>The end of maintenance clears the flag that keeps NetBox from being started, also where an operator had set it.\<close>

lemma maintenance_clears_suppress:
  assumes "SetMaintenance q (Some i) (Some False) db = (Inr (m, b), db')"
  shows "\<not> nd_SuppressAutoStart m"
proof -
  have m: "NodeByID i db' = Some m" and d: "db' = SetMaintenanceMode i False db"
    using assms by (auto simp: SetMaintenance_def Let_def split: option.splits if_splits dest!: inv_ask_Some)
  have "iv_Nodes db' = map (\<lambda>n. if nd_ID n = i then n\<lparr>nd_MaintenanceMode := False, nd_SuppressAutoStart := False\<rparr> else n) (iv_Nodes db)"
    unfolding d by (simp add: SetMaintenanceMode_def update_node_def)
  then have "m \<in> (\<lambda>n. if nd_ID n = i then n\<lparr>nd_MaintenanceMode := False, nd_SuppressAutoStart := False\<rparr> else n) ` set (iv_Nodes db)"
    using conjunct1 [OF NodeByID_Some [OF m]] by (simp only: list.set_map)
  then obtain n where n: "m = (if nd_ID n = i then n\<lparr>nd_MaintenanceMode := False, nd_SuppressAutoStart := False\<rparr> else n)" by (elim imageE)
  show ?thesis
  proof (cases "nd_ID n = i")
    case False
    then show ?thesis using n conjunct2 [OF NodeByID_Some [OF m]] by simp
  qed (simp add: n)
qed

text \<open>A database node without NetBox is shown as degraded in the list of nodes and as healthy in the status of the cluster.\<close>

lemma database_node_shown_degraded:
  assumes "nd_Role n = ''db_only''" "nd_AgentStatus n = ''connected''" "nd_NetboxRunning n = Some False" "nd_RQRunning n = Some False"
    "ExtractPatroniRole (nd_PatroniState n) = ''primary''"
  shows "snd (node_shown h patroni n) = ''degraded''" "ns_Health (node_status_of c conn n) = ''healthy''"
  using assms by (simp_all add: node_shown_def computeHealth_def Let_def node_status_of_def ComputeNodeHealth_def IsAppRole_def IsDBRole_def)

end
