(* ===== verification/Spec2Isabelle.thy ===== *)
theory Spec2Isabelle
  imports NodeState Oplock Cron Events FailoverProps FailoverTimers BackupPlanProps FileSyncRunProps FileSyncService
    SyncTransferProps BackupRound TaskTracking BackupProps BackupTime BackupSyncProps AlertProps AlertSchedule
    KeyRotationProps BackupConfProps PatroniConfigProps PatroniSnapshots PatroniDeployProps BackupRestoreProps
    BackupEnableProps BackupHandlers ConfigureFailoverProps AuthSessions ConfigSync StagingTokens
begin

text \<open>
  netbox-conductor runs NetBox clusters: a conductor (\<open>cmd/server\<close>, \<open>internal/server\<close>) keeps the clusters in a PostgreSQL
  database, decides, and sends tasks over WebSockets to one agent per node (\<open>cmd/agent\<close>, \<open>internal/agent\<close>); agents report
  heartbeats and results.  This development models the conductor's decisions and the parts of the agent whose correctness
  depends on more than calling a command, and proves what they guarantee.  This theory only collects the others.

  How a theory corresponds to the code.  Each component has a theory, or a few, with its state as a record, its data as
  datatypes with the constructors of the source, and one definition for each function or handler, under the name it has in
  the source where that is free.  Rows of a table are a list of records in the order of insertion; a query is a function on
  it, with the uniqueness constraints and cascades of the schema written out.  A handler takes what it meets (the clock,
  random bytes, which queries and calls fail) as a record and returns its answer, an error with its status code where it
  refuses, with the new state and the calls it made, in order.  A goroutine that outlives its handler is a second function
  on what it captured, or a step of a history; what several goroutines share is split at the critical sections.  Errors are
  values of a sum or an option; a panic is an error of its own.  Machine integers are 64-bit words where they can wrap
  (\<open>wrap64\<close>, the bit masks of \<open>Cron\<close>), otherwise \<open>int\<close>; instants and durations are nanoseconds in \<open>int\<close>.  What is not code
  of the repository (PostgreSQL, Patroni, JWT, bcrypt, TOTP, AES-GCM, SHA-256, the commands of a node) is a parameter, with
  the documented behaviour that is relied on as a named hypothesis (\<open>jwt_laws\<close>, \<open>rotate_laws\<close> and others), instantiated in
  the witnesses.

  The parts, and what is shown of them.

  \<^item> \<open>Prelude\<close>: the vocabulary, Go's string and number functions, generic lemmas.

  \<^item> \<open>NodeState\<close> (\<open>nodestate/nodestate.go\<close>): health and state of nodes and clusters; \<open>Oplock\<close> (\<open>oplock/oplock.go\<close>): one
    disruptive operation per cluster; \<open>Cron\<close> (\<open>cron/cron.go\<close>): parsing into masks, equal to a field-by-field reference;
    \<open>Events\<close> (\<open>events/\<close>): the emitter and the heartbeat processor.

  \<^item> \<open>Failover\<close>, \<open>FailoverProps\<close>, \<open>FailoverTimers\<close> (\<open>failover/manager.go\<close>): the choice of a candidate, failover, failback,
    maintenance moves and the topology check with all their effects in order, and the timers that start them under every
    interleaving of critical sections.  A standby is started only after the stop of the failed node is queued, a failback
    stops only nodes of lower priority, a pending check can be cancelled.

  \<^item> \<open>FileSyncPlan\<close>, \<open>FileSyncPlanProps\<close>, \<open>BackupPlanProps\<close>, \<open>FileSyncRun\<close>, \<open>FileSyncRunProps\<close>, \<open>FileSyncRelay\<close>,
    \<open>FileSyncService\<close> (\<open>filesync/\<close>): a two-way plan makes the nodes equal and deletes only on evidence, a backup plan never
    changes the main server, a run deletes only after copying, the relay leaves no gap, one run per folder.

  \<^item> \<open>SyncPaths\<close>, \<open>AgentDisk\<close>, \<open>RepoHelper\<close>, \<open>RepoHelperProps\<close>, \<open>SyncReceiver\<close>, \<open>SyncTransfer\<close>, \<open>SyncIntegrity\<close>,
    \<open>SyncRepoSink\<close>, \<open>SyncTransferProps\<close> (\<open>agent/executor/filesync.go\<close>, \<open>repohelper.go\<close>, \<open>accessrepair.go\<close>): the agent's ends
    of a transfer.  A partial file is a locale with two interpretations, the agent's own file and the one behind the helper
    process; the receiver, proved over it, puts only whole, checksummed files in place, and the helper stays below the roots
    that \<open>pgbackrest.conf\<close> names, unless a request names a root itself.

  \<^item> \<open>Hub\<close>, \<open>HubProps\<close> (\<open>hub/hub.go\<close>, \<open>session.go\<close>), \<open>TaskStore\<close> (\<open>task_results.go\<close>, \<open>scheduler/tasks.go\<close>), \<open>Dispatcher\<close>
    (\<open>hub/dispatcher.go\<close>), \<open>TaskTracking\<close> (\<open>agent/ws/client.go\<close>, the task loop of \<open>cmd/agent/main.go\<close>): sessions as a heap of
    channels, with the sends and the status writes that the code makes between the locks as steps of their own; tasks from
    dispatch to outcome over conductor, connection and agent with every interleaving.  A channel is closed once, a status
    written on its own is whether the node has a session, a wait never reports an outcome the agent did not produce.  In the
    tasks a look-up and its send are one step (\<open>SendRaw\<close>); \<open>HubProps\<close> has them apart, with the panic that can follow.

  \<^item> \<open>BackupRound\<close> (\<open>pgbackrestops.go\<close>), \<open>BackupScheduler\<close>, \<open>BackupSync\<close>, \<open>BackupProps\<close>, \<open>BackupTime\<close>, \<open>BackupSyncProps\<close>
    (\<open>backupscheduler.go\<close>): rounds, retries, skips, recorded outcomes, and the syncs from the one settled primary.

  \<^item> \<open>BackupConf\<close>, \<open>BackupConfProps\<close> (\<open>configgen/pgbackrest.go\<close>, the storage locations of \<open>handlers/backup.go\<close>),
    \<open>BackupRestore\<close>, \<open>BackupRestoreProps\<close>, \<open>BackupEnable\<close>, \<open>BackupEnableProps\<close>, \<open>BackupHandlers\<close> (the rest of
    \<open>handlers/backup.go\<close>): the rendered configuration is read by the repo helper as it was meant, a restore and the turning
    on of backups call in a safe order and give the cluster back.

  \<^item> \<open>PatroniConfig\<close>, \<open>PatroniConfigProps\<close>, \<open>PatroniSnapshots\<close>, \<open>PatroniDeploy\<close>, \<open>PatroniDeployProps\<close>
    (\<open>handlers/patroni.go\<close>, \<open>patronirest.go\<close>): the diff leads to the intended configuration, the design check is equivalent
    to a merge without effect, a deploy restarts only under a pause.

  \<^item> \<open>ConfigureFailover\<close>, \<open>ConfigureFailoverProps\<close> (\<open>handlers/patroni.go\<close>): the first set-up of Patroni on a cluster and
    its order.

  \<^item> \<open>Alerts\<close>, \<open>AlertEngine\<close>, \<open>AlertProps\<close>, \<open>AlertSchedule\<close> (\<open>alerting/\<close>): how often an alert may notify, over all histories
    of events, ticks, resolutions and acknowledgements.

  \<^item> \<open>Crypto\<close>, \<open>KeyRotation\<close>, \<open>KeyRotationProps\<close> (\<open>crypto/encrypt.go\<close>, \<open>cmd/rotate-key\<close>): the trace of states of a rotation;
    no prefix of it loses a secret.

  \<^item> \<open>RateLimit\<close> (\<open>middleware/ratelimit.go\<close>): the sign-in limiter and its sweep under every interleaving of their steps.
    \<open>Auth\<close>, \<open>AuthProps\<close>, \<open>AuthSessions\<close> (\<open>middleware/\<close>, \<open>jwtutil/jwt.go\<close>, \<open>handlers/auth.go\<close>, \<open>users.go\<close>): histories of
    requests, which take the limiter's answer as given; what a token in hand says about earlier requests.

  \<^item> \<open>NetboxConfig\<close>, \<open>ConfigHandlers\<close>, \<open>ConfigSync\<close> (\<open>configgen/netbox.go\<close>, \<open>handlers/configs.go\<close>, \<open>credentials.go\<close>):
    templates of NetBox's configuration, their versions and pushes; a synced configuration reaches the other nodes exactly
    and is stored without the secrets.

  \<^item> \<open>Inventory\<close>, \<open>AgentIdentity\<close>, \<open>AgentIdentityProps\<close>, \<open>AgentTokens\<close>, \<open>StagingTokens\<close> (\<open>handlers/clusters.go\<close>, \<open>nodes.go\<close>,
    \<open>staging.go\<close>, the registration and the token check of \<open>agent.go\<close>): the rows of clusters, nodes and tokens over histories
    of requests and restarts.  The rows stay well formed, an agent is taken for a node only with a token given out for that
    node and not ended since, and a staging token admits one agent.

  How the parts interact.  The dispatcher and the hub carry the tasks of all the others; \<open>Failover\<close>, \<open>ConfigureFailover\<close>,
  \<open>PatroniDeploy\<close>, \<open>BackupRestore\<close>, \<open>BackupEnable\<close> and \<open>BackupScheduler\<close> take the locks of \<open>Oplock\<close>; \<open>BackupSync\<close> starts the
  runs of \<open>FileSyncRun\<close>, whose files \<open>SyncReceiver\<close> and \<open>RepoHelper\<close> write; \<open>BackupSyncProps\<close> joins the rounds of the agent with
  what the scheduler records of them, and \<open>BackupConfProps\<close> the rendered file with the helper that reads it.

  Bounds and fuel.  Loops whose recursion is not structural have a termination proof.  The polling loops of the jobs run over
  the list of the answers they get, so a job ends with the list.  The round of an agent runs on \<open>round_fuel\<close>, twice the
  number of its locations times the tries of each, and \<open>backupRound_outcomes\<close> shows that it is enough; a scheduled round is fired at
  most three times (\<open>fireBackup\<close>).  Sizes kept from the code: chunks of \<open>syncChunkSize\<close> bytes, 64 messages in a send buffer,
  512 events in the queue of the alert engine, 10 attempts in a minute, and the time limits of the jobs
  (\<open>cfJobBudget\<close>, \<open>roundTimeoutSecs\<close>).  The 64-bit range of times and counters is not modelled where the code does not come
  near it.

  Not modelled.  The wiring of the program, HTTP and WebSocket framing, logging, TLS certificates, the streams to browsers,
  table partitions and the web interface have no decisions to verify.  Alert transports, syslog, the Patroni witness and the
  wrappers of the agent around system commands are input and output to programs outside the repository: what the modelled
  code does with their answers is modelled, the answers are parameters.  The handlers that create, edit and list rows of
  events, alert rules and syslog destinations are left out, as are the templates of \<open>patroni.yml\<close> and \<open>sentinel.conf\<close>
  and the scraper of \<open>configuration.py\<close>.  Of \<open>text/template\<close> only the actions the templates use are modelled.
  Timestamps that nothing reads, and the text of most messages to the user, are left out.
\<close>

end
